(* ===== verification/Prelude.thy ===== *)
theory Prelude
  imports Main
    "HOL-Library.Multiset"
    "HOL-Library.Sublist"
    "HOL-Library.Char_ord"
    "HOL-Library.List_Lexorder"
    "HOL-Library.Product_Lexorder"
begin

text \<open>
  Vocabulary and automation shared by every component: the outcome of a Go computation
  (a value, a run-time panic or a loop that never ends), association lists for Go maps, the
  ``first occurrence wins'' deduplication loop that the importer, the permission catalog and
  the authorization merge all contain, and facts about sorting by a key.
\<close>

named_theorems outcome_simps \<open>evaluation of outcome sequencing\<close>
named_theorems keeps_intros \<open>closure rules for invariants of database actions\<close>
named_theorems handler_intros \<open>stepping through a handler under an invariant of the tables\<close>
named_theorems reads_intros \<open>closure rules for actions and handlers that only read\<close>
named_theorems once_intros \<open>closure rules for actions and handlers that commit at most one step\<close>
named_theorems clean_intros \<open>closure rules for actions whose success is independent of faults\<close>

subsection \<open>Outcomes of Go code\<close>

text \<open>
  \<open>Ret\<close> is a normal return (an \<open>error\<close> return is a normal return of a sum), \<open>Panic\<close> a run-time
  panic such as an index out of range, \<open>Hang\<close> a loop that never terminates.
\<close>

datatype 'a outcome = Ret 'a | Panic | Hang

definition obind :: "'a outcome \<Rightarrow> ('a \<Rightarrow> 'b outcome) \<Rightarrow> 'b outcome" where
  "obind m f = (case m of Ret x \<Rightarrow> f x | Panic \<Rightarrow> Panic | Hang \<Rightarrow> Hang)"

lemma obind_simps [simp, outcome_simps]:
  "obind (Ret x) f = f x"
  "obind Panic f = Panic"
  "obind Hang f = Hang"
  by (simp_all add: obind_def)

lemma obind_Ret_iff [simp]: "obind m f = Ret y \<longleftrightarrow> (\<exists>x. m = Ret x \<and> f x = Ret y)"
  by (cases m) auto

lemma obind_cong [fundef_cong]:
  "m = m' \<Longrightarrow> (\<And>x. m' = Ret x \<Longrightarrow> f x = f' x) \<Longrightarrow> obind m f = obind m' f'"
  by (cases m') auto

text \<open>A loop over a slice whose body may panic or hang: the accumulator is threaded through.\<close>

fun ofold :: "('a \<Rightarrow> 'b \<Rightarrow> 'b outcome) \<Rightarrow> 'a list \<Rightarrow> 'b \<Rightarrow> 'b outcome" where
  "ofold f [] s = Ret s"
| "ofold f (x # xs) s = obind (f x s) (ofold f xs)"

lemma ofold_append: "ofold f (xs @ ys) s = obind (ofold f xs s) (ofold f ys)"
  by (induction xs arbitrary: s) (auto simp: obind_def split: outcome.splits)

lemma ofold_invariant:
  assumes "ofold f xs s = Ret t" and "P s"
    and "\<And>x s t. x \<in> set xs \<Longrightarrow> P s \<Longrightarrow> f x s = Ret t \<Longrightarrow> P t"
  shows "P t"
  using assms
proof (induction xs arbitrary: s)
  case Nil
  then show ?case by simp
next
  case (Cons x xs)
  from Cons.prems(1) obtain u where u: "f x s = Ret u" "ofold f xs u = Ret t" by auto
  have "P u" using Cons.prems(2,3) u(1) by (meson list.set_intros(1))
  then show ?case using Cons.IH [OF u(2)] Cons.prems(3) by (meson list.set_intros(2))
qed

lemma fold_invariant:
  assumes "P s" and "\<And>x s. x \<in> set xs \<Longrightarrow> P s \<Longrightarrow> P (f x s)"
  shows "P (fold f xs s)"
  using assms by (induction xs arbitrary: s) auto

subsection \<open>Go maps as association lists\<close>

text \<open>
  A Go map is kept as an association list in insertion order; the order in which a
  \<open>range\<close> loop visits it is a parameter of the model wherever it can be observed.
\<close>

fun alookup :: "('k \<times> 'v) list \<Rightarrow> 'k \<Rightarrow> 'v option" where
  "alookup [] k = None"
| "alookup ((k', v) # m) k = (if k' = k then Some v else alookup m k)"

definition keys :: "('k \<times> 'v) list \<Rightarrow> 'k list" where
  "keys m = map fst m"

fun aupdate :: "'k \<Rightarrow> 'v \<Rightarrow> ('k \<times> 'v) list \<Rightarrow> ('k \<times> 'v) list" where
  "aupdate k v [] = [(k, v)]"
| "aupdate k v ((k', w) # m) = (if k' = k then (k, v) # m else (k', w) # aupdate k v m)"

lemma keys_simps [simp]: "keys [] = []" "keys (kv # m) = fst kv # keys m"
  "keys (m @ n) = keys m @ keys n"
  by (simp_all add: keys_def)

lemma alookup_None_iff: "alookup m k = None \<longleftrightarrow> k \<notin> set (keys m)"
  by (induction m k rule: alookup.induct) auto

lemma alookup_SomeD: "alookup m k = Some v \<Longrightarrow> (k, v) \<in> set m"
  by (induction m k rule: alookup.induct) (auto split: if_splits)

lemma alookup_Some_iff:
  "distinct (keys m) \<Longrightarrow> alookup m k = Some v \<longleftrightarrow> (k, v) \<in> set m"
  by (induction m k rule: alookup.induct) (auto simp: keys_def image_iff)

lemma alookup_aupdate [simp]:
  "alookup (aupdate k v m) j = (if j = k then Some v else alookup m j)"
  by (induction k v m rule: aupdate.induct) auto

lemma alookup_append [simp]:
  "alookup (m @ n) k = (case alookup m k of None \<Rightarrow> alookup n k | Some v \<Rightarrow> Some v)"
  by (induction m k rule: alookup.induct) auto

lemma set_keys_aupdate [simp]: "set (keys (aupdate k v m)) = insert k (set (keys m))"
  by (induction k v m rule: aupdate.induct) auto

lemma distinct_keys_aupdate [simp]: "distinct (keys m) \<Longrightarrow> distinct (keys (aupdate k v m))"
  by (induction k v m rule: aupdate.induct) auto

lemma aupdate_mem: "x \<in> set (aupdate k v m) \<Longrightarrow> x = (k, v) \<or> x \<in> set m"
  by (induction k v m rule: aupdate.induct) (auto split: if_splits)

lemma aupdate_values:
  "(\<forall>x \<in> set m. P x) \<Longrightarrow> P (k, v) \<Longrightarrow> (\<forall>x \<in> set (aupdate k v m). P x)"
  using aupdate_mem by metis

lemma alookup_mset_eq:
  assumes "mset m = mset n" and "distinct (keys m)"
  shows "alookup m k = alookup n k"
proof -
  have "mset (keys m) = mset (keys n)" using assms(1) by (simp add: keys_def)
  then have d: "distinct (keys n)" using assms(2) mset_eq_imp_distinct_iff by blast
  have "set m = set n" using assms(1) by (rule mset_eq_setD)
  then show ?thesis
    by (metis alookup_Some_iff assms(2) d not_Some_eq)
qed

subsection \<open>First occurrence wins\<close>

text \<open>
  The loop \<open>for x { if !eligible(x) || seen[key(x)] { continue }; seen[key(x)] = true;
  out = append(out, x) }\<close>, with the set of seen keys and the output as state.
\<close>

fun first_wins :: "('a \<Rightarrow> bool) \<Rightarrow> ('a \<Rightarrow> 'k) \<Rightarrow> 'k list \<Rightarrow> 'a list \<Rightarrow> 'a list" where
  "first_wins ok key seen [] = []"
| "first_wins ok key seen (x # xs) =
     (if \<not> ok x \<or> key x \<in> set seen then first_wins ok key seen xs
      else x # first_wins ok key (key x # seen) xs)"

lemma first_wins_subset: "set (first_wins ok key seen xs) \<subseteq> {x \<in> set xs. ok x \<and> key x \<notin> set seen}"
  by (induction ok key seen xs rule: first_wins.induct) auto

lemma first_wins_keys:
  "key ` set (first_wins ok key seen xs) = key ` {x \<in> set xs. ok x} - set seen"
proof (induction ok key seen xs rule: first_wins.induct)
  case (1 ok key seen)
  then show ?case by simp
next
  case (2 ok key seen x xs)
  have *: "{y \<in> set (x # xs). ok y} = (if ok x then insert x {y \<in> set xs. ok y} else {y \<in> set xs. ok y})"
    by auto
  show ?case
  proof (cases "\<not> ok x \<or> key x \<in> set seen")
    case True
    then have "key ` {y \<in> set (x # xs). ok y} - set seen = key ` {y \<in> set xs. ok y} - set seen"
      unfolding * by auto
    with "2.IH"(1) [OF True] True show ?thesis by simp
  next
    case False
    then have "key ` {y \<in> set (x # xs). ok y} - set seen
        = insert (key x) (key ` {y \<in> set xs. ok y} - set (key x # seen))"
      unfolding * by auto
    with "2.IH"(2) [OF False] False show ?thesis by simp
  qed
qed

lemma first_wins_distinct: "distinct (map key (first_wins ok key seen xs))"
proof (induction ok key seen xs rule: first_wins.induct)
  case (1 ok key seen)
  then show ?case by simp
next
  case (2 ok key seen x xs)
  show ?case
  proof (cases "\<not> ok x \<or> key x \<in> set seen")
    case True
    with "2.IH"(1) show ?thesis by simp
  next
    case False
    have "key x \<notin> key ` set (first_wins ok key (key x # seen) xs)"
      by (simp add: first_wins_keys)
    with False "2.IH"(2) show ?thesis by simp
  qed
qed

text \<open>The element kept for a key is the first eligible one with that key.\<close>

lemma first_wins_first:
  assumes "x \<in> set (first_wins ok key seen xs)"
  shows "\<exists>ys zs. xs = ys @ x # zs \<and> ok x \<and> (\<forall>y \<in> set ys. ok y \<longrightarrow> key y \<noteq> key x)"
  using assms
proof (induction ok key seen xs rule: first_wins.induct)
  case (1 ok key seen)
  then show ?case by simp
next
  case (2 ok key seen y ys)
  show ?case
  proof (cases "\<not> ok y \<or> key y \<in> set seen")
    case True
    with "2.prems" have m: "x \<in> set (first_wins ok key seen ys)" by simp
    from "2.IH"(1) [OF True m] obtain as bs
      where ab: "ys = as @ x # bs" "ok x" "\<forall>z\<in>set as. ok z \<longrightarrow> key z \<noteq> key x" by blast
    moreover have "ok y \<longrightarrow> key y \<noteq> key x"
      using True m first_wins_subset [of ok key seen ys] by auto
    ultimately show ?thesis by (intro exI [of _ "y # as"] exI [of _ bs]) auto
  next
    case False
    show ?thesis
    proof (cases "x = y")
      case True
      with False show ?thesis by (intro exI [of _ "[]"] exI [of _ ys]) auto
    next
      case neq: False
      with "2.prems" False have m: "x \<in> set (first_wins ok key (key y # seen) ys)" by simp
      from "2.IH"(2) [OF False m] obtain as bs
        where ab: "ys = as @ x # bs" "ok x" "\<forall>z\<in>set as. ok z \<longrightarrow> key z \<noteq> key x" by blast
      moreover have "key y \<noteq> key x"
        using m first_wins_subset [of ok key "key y # seen" ys] by auto
      ultimately show ?thesis by (intro exI [of _ "y # as"] exI [of _ bs]) auto
    qed
  qed
qed

lemma first_wins_length: "length (first_wins ok key seen xs) \<le> length xs"
  by (induction ok key seen xs rule: first_wins.induct) auto

subsection \<open>Rows of a table\<close>

text \<open>Rewriting the row with key \<open>i\<close> keeps another column unique when its new value is fresh.\<close>

lemma distinct_map_update_rows:
  assumes "distinct (map g xs)" and "distinct (map f xs)"
    and "\<And>x. x \<in> set xs \<Longrightarrow> g x = i \<Longrightarrow> f (h x) = v"
    and "\<And>x. x \<in> set xs \<Longrightarrow> g x \<noteq> i \<Longrightarrow> f x \<noteq> v"
  shows "distinct (map f (map (\<lambda>x. if g x = i then h x else x) xs))"
  using assms
proof (induction xs)
  case Nil
  then show ?case by simp
next
  case (Cons x xs)
  let ?u = "\<lambda>x. if g x = i then h x else x"
  from Cons have IH: "distinct (map f (map ?u xs))" by simp
  have neq: "f (?u x) \<noteq> f (?u y)" if y: "y \<in> set xs" for y
  proof (cases "g x = i")
    case True
    then have "g y \<noteq> i" using Cons.prems(1) y by (auto simp: image_iff)
    with True show ?thesis using Cons.prems(3) [of x] Cons.prems(4) [of y] y by auto
  next
    case False
    then show ?thesis
      using Cons.prems(2) Cons.prems(3) [of y] Cons.prems(4) [of x] y by (auto simp: image_iff)
  qed
  have "f (?u x) \<notin> set (map f (map ?u xs))" unfolding set_map using neq by blast
  with IH show ?case by (simp only: list.map distinct.simps not_False_eq_True simp_thms)
qed

lemma find_unique:
  assumes "x \<in> set xs" and "distinct (map g xs)"
  shows "List.find (\<lambda>y. g y = g x) xs = Some x"
  using assms by (induction xs) (auto simp: image_iff)

subsection \<open>Sorting\<close>

lemma sorted_sort_key_map: "sorted (map f (sort_key f xs))"
  by simp

lemma distinct_map_sort_key: "distinct (map f (sort_key g xs)) \<longleftrightarrow> distinct (map f xs)"
  by (metis mset_map mset_sort mset_eq_imp_distinct_iff)

lemma sorted_distinct_strict:
  "sorted (map f xs) \<Longrightarrow> distinct (map f xs) \<Longrightarrow> sorted_wrt (\<lambda>x y. f x < f y) xs"
  using strict_sorted_iff [of "map f xs"] by (simp add: sorted_wrt_map)

end
