(* ===== verification/Go_Lib.thy ===== *)
theory Go_Lib
  imports Prelude
begin

text \<open>
  What the source uses of the Go language and its standard library: byte strings
  (\<open>strings.Split\<close>, \<open>Join\<close>, \<open>TrimSpace\<close>, \<open>Trim\<close>, \<open>Index\<close>, \<open>HasPrefix\<close>), UTF-8 rune counting
  (\<open>utf8.RuneCountInString\<close>), \<open>strconv.Atoi\<close> and \<open>Itoa\<close>, 64-bit signed wrap-around and the
  counting loop \<open>for w := a; w <= b; w++\<close>. A Go string is a list of bytes, so a Chinese literal
  appears as its UTF-8 bytes.
\<close>

subsection \<open>64-bit integers\<close>

definition max_int64 :: int where "max_int64 = 9223372036854775807"
definition min_int64 :: int where "min_int64 = - 9223372036854775808"

definition wrap64 :: "int \<Rightarrow> int" where
  "wrap64 n = (n + 9223372036854775808) mod 18446744073709551616 - 9223372036854775808"

lemma wrap64_range: "min_int64 \<le> wrap64 n \<and> wrap64 n \<le> max_int64"
  using pos_mod_sign [of "18446744073709551616" "n + 9223372036854775808"]
    pos_mod_bound [of "18446744073709551616" "n + 9223372036854775808"]
  by (simp add: wrap64_def min_int64_def max_int64_def)

lemma wrap64_id: "min_int64 \<le> n \<Longrightarrow> n \<le> max_int64 \<Longrightarrow> wrap64 n = n"
  by (simp add: wrap64_def min_int64_def max_int64_def)

lemma wrap64_overflow: "wrap64 (max_int64 + 1) = min_int64"
  by (simp add: wrap64_def min_int64_def max_int64_def)

text \<open>
  The loop \<open>for w := a; w <= b; w++ { acc = append(acc, w) }\<close> on \<open>int\<close>. With
  \<open>b = math.MaxInt64\<close> the increment wraps around and the loop never ends.
\<close>

partial_function (option) for_loop :: "int \<Rightarrow> int \<Rightarrow> int list \<Rightarrow> int list option" where
  "for_loop w b acc =
     (if w \<le> b then for_loop (wrap64 (w + 1)) b (acc @ [w]) else Some acc)"

lemma for_loop_terminates:
  assumes "min_int64 \<le> w" and "b < max_int64"
  shows "for_loop w b acc = Some (acc @ [w..b])"
  using assms
proof (induction "nat (b + 1 - w)" arbitrary: w acc rule: less_induct)
  case less
  show ?case
  proof (cases "w \<le> b")
    case True
    with less.prems have w: "wrap64 (w + 1) = w + 1" by (simp add: wrap64_id)
    have "for_loop (w + 1) b (acc @ [w]) = Some ((acc @ [w]) @ [w + 1..b])"
      using less.prems True by (intro less.hyps) auto
    with True w show ?thesis by (simp add: for_loop.simps [of w] upto_rec1)
  next
    case False
    then show ?thesis by (simp add: for_loop.simps [of w])
  qed
qed

lemma for_loop_max_diverges:
  assumes "w \<le> max_int64"
  shows "for_loop w max_int64 acc = None"
proof (rule ccontr)
  assume "for_loop w max_int64 acc \<noteq> None"
  then obtain r where ret: "for_loop w max_int64 acc = Some r" by auto
  have "w \<le> max_int64 \<longrightarrow> max_int64 = max_int64 \<longrightarrow> False"
  proof (rule for_loop.raw_induct [where P = "\<lambda>w b acc r. w \<le> max_int64 \<longrightarrow> b = max_int64 \<longrightarrow> False",
        OF _ ret])
    fix f :: "int \<Rightarrow> int \<Rightarrow> int list \<Rightarrow> int list option" and w b acc r
    assume IH: "\<And>w b acc r. f w b acc = Some r \<Longrightarrow> w \<le> max_int64 \<longrightarrow> b = max_int64 \<longrightarrow> False"
      and eq: "(if w \<le> b then f (wrap64 (w + 1)) b (acc @ [w]) else Some acc) = Some r"
    show "w \<le> max_int64 \<longrightarrow> b = max_int64 \<longrightarrow> False"
    proof (intro impI)
      assume "w \<le> max_int64" "b = max_int64"
      with eq have "f (wrap64 (w + 1)) b (acc @ [w]) = Some r" by simp
      from IH [OF this] \<open>b = max_int64\<close> wrap64_range show False by blast
    qed
  qed
  with assms show False by simp
qed

definition go_range :: "int \<Rightarrow> int \<Rightarrow> int list outcome" where
  "go_range a b = (case for_loop a b [] of None \<Rightarrow> Hang | Some ws \<Rightarrow> Ret ws)"

lemma go_range_eq:
  assumes "min_int64 \<le> a" and "a \<le> max_int64" and "b \<le> max_int64"
  shows "go_range a b = (if b = max_int64 then Hang else Ret [a..b])"
  using assms by (auto simp: go_range_def for_loop_terminates for_loop_max_diverges)

lemma go_range_Ret:
  assumes "go_range a b = Ret ws" and "min_int64 \<le> a" and "a \<le> max_int64" and "b \<le> max_int64"
  shows "ws = [a..b] \<and> b < max_int64"
  using assms by (auto simp: go_range_eq split: if_splits)

lemma go_range_code [code]:
  "go_range a b =
     (if min_int64 \<le> a \<and> a \<le> max_int64 \<and> b < max_int64 then Ret [a..b]
      else (case for_loop a b [] of None \<Rightarrow> Hang | Some ws \<Rightarrow> Ret ws))"
  by (simp add: go_range_def for_loop_terminates)

subsection \<open>Splitting, joining, prefixes\<close>

text \<open>\<open>strings.Split(s, c)\<close> for a one-byte separator, and \<open>strings.Join\<close>.\<close>

fun split_on :: "char \<Rightarrow> string \<Rightarrow> string list" where
  "split_on c [] = [[]]"
| "split_on c (x # xs) =
     (if x = c then [] # split_on c xs
      else case split_on c xs of [] \<Rightarrow> [[x]] | y # ys \<Rightarrow> (x # y) # ys)"

fun go_join :: "string \<Rightarrow> string list \<Rightarrow> string" where
  "go_join sep [] = []"
| "go_join sep [x] = x"
| "go_join sep (x # y # ys) = x @ sep @ go_join sep (y # ys)"

lemma split_on_not_Nil [simp]: "split_on c s \<noteq> []"
  by (induction s) (auto split: list.splits)

lemma split_on_no_sep [simp]: "c \<notin> set s \<Longrightarrow> split_on c s = [s]"
  by (induction s) auto

lemma split_on_append_sep: "c \<notin> set x \<Longrightarrow> split_on c (x @ c # s) = x # split_on c s"
  by (induction x) auto

lemma split_on_join:
  assumes "\<forall>x \<in> set xs. c \<notin> set x" and "xs \<noteq> []"
  shows "split_on c (go_join [c] xs) = xs"
  using assms by (induction "[c]" xs rule: go_join.induct) (auto simp: split_on_append_sep)

lemma split_on_elems: "x \<in> set (split_on c s) \<Longrightarrow> c \<notin> set x"
  by (induction s arbitrary: x) (auto split: if_splits list.splits)

lemma go_join_split_on: "go_join [c] (split_on c s) = s"
proof (induction s)
  case Nil
  then show ?case by simp
next
  case (Cons x xs)
  obtain y ys where y: "split_on c xs = y # ys" by (cases "split_on c xs") auto
  with Cons show ?case by (cases ys) auto
qed

text \<open>The part before the first \<open>c\<close> and, when \<open>c\<close> occurs, the part after it.\<close>

fun cut :: "char \<Rightarrow> string \<Rightarrow> string \<times> string option" where
  "cut c [] = ([], None)"
| "cut c (x # xs) = (if x = c then ([], Some xs) else (case cut c xs of (a, b) \<Rightarrow> (x # a, b)))"

lemma cut_no_sep: "c \<notin> set s \<Longrightarrow> cut c s = (s, None)"
  by (induction s) auto

lemma cut_append_sep: "c \<notin> set x \<Longrightarrow> cut c (x @ c # s) = (x, Some s)"
  by (induction x) auto

definition trim_prefix :: "string \<Rightarrow> string \<Rightarrow> string" where
  "trim_prefix p s = (if prefix p s then drop (length p) s else s)"

definition trim_suffix :: "string \<Rightarrow> string \<Rightarrow> string" where
  "trim_suffix p s = (if suffix p s then take (length s - length p) s else s)"

lemma trim_prefix_append [simp]: "trim_prefix p (p @ s) = s"
  by (simp add: trim_prefix_def)

lemma trim_suffix_append [simp]: "trim_suffix p (s @ p) = s"
  by (simp add: trim_suffix_def suffix_def)

text \<open>\<open>strings.Trim(s, cutset)\<close> for a cutset of one-byte characters.\<close>

definition trim_set :: "char list \<Rightarrow> string \<Rightarrow> string" where
  "trim_set cs s = rev (dropWhile (\<lambda>c. c \<in> set cs) (rev (dropWhile (\<lambda>c. c \<in> set cs) s)))"

lemma trim_set_id:
  "(s = [] \<or> (hd s \<notin> set cs \<and> last s \<notin> set cs)) \<Longrightarrow> trim_set cs s = s"
proof (cases "s = []")
  case True
  then show ?thesis by (simp add: trim_set_def)
next
  case False
  assume "s = [] \<or> (hd s \<notin> set cs \<and> last s \<notin> set cs)"
  with False have "dropWhile (\<lambda>c. c \<in> set cs) s = s"
    "dropWhile (\<lambda>c. c \<in> set cs) (rev s) = rev s"
    by (auto simp: dropWhile_eq_self_iff hd_rev)
  then show ?thesis by (simp add: trim_set_def)
qed

subsection \<open>White space\<close>

text \<open>
  \<open>strings.TrimSpace\<close> strips Unicode white space. The table holds the UTF-8 encodings of all
  runes for which \<open>unicode.IsSpace\<close> holds; stripping an encoding from either end is exactly
  what decoding a rune there and testing it does.
\<close>

definition byte :: "nat \<Rightarrow> char" where "byte n = char_of n"

definition space_runes :: "string list" where
  "space_runes =
     map (\<lambda>n. [byte n]) [9, 10, 11, 12, 13, 32] @
     [[byte 0xC2, byte 0x85], [byte 0xC2, byte 0xA0], [byte 0xE1, byte 0x9A, byte 0x80]] @
     map (\<lambda>n. [byte 0xE2, byte 0x80, byte n])
       [0x80, 0x81, 0x82, 0x83, 0x84, 0x85, 0x86, 0x87, 0x88, 0x89, 0x8A, 0xA8, 0xA9, 0xAF] @
     [[byte 0xE2, byte 0x81, byte 0x9F], [byte 0xE3, byte 0x80, byte 0x80]]"

text \<open>The same bytes as literals, for evaluation.\<close>

lemma space_runes_literal [code]: "space_runes =
   [[CHR 0x09], [CHR 0x0A], [CHR 0x0B], [CHR 0x0C], [CHR 0x0D], [CHR 0x20],
    [CHR 0xC2, CHR 0x85], [CHR 0xC2, CHR 0xA0], [CHR 0xE1, CHR 0x9A, CHR 0x80],
    [CHR 0xE2, CHR 0x80, CHR 0x80], [CHR 0xE2, CHR 0x80, CHR 0x81], [CHR 0xE2, CHR 0x80, CHR 0x82],
    [CHR 0xE2, CHR 0x80, CHR 0x83], [CHR 0xE2, CHR 0x80, CHR 0x84], [CHR 0xE2, CHR 0x80, CHR 0x85],
    [CHR 0xE2, CHR 0x80, CHR 0x86], [CHR 0xE2, CHR 0x80, CHR 0x87], [CHR 0xE2, CHR 0x80, CHR 0x88],
    [CHR 0xE2, CHR 0x80, CHR 0x89], [CHR 0xE2, CHR 0x80, CHR 0x8A], [CHR 0xE2, CHR 0x80, CHR 0xA8],
    [CHR 0xE2, CHR 0x80, CHR 0xA9], [CHR 0xE2, CHR 0x80, CHR 0xAF], [CHR 0xE2, CHR 0x81, CHR 0x9F],
    [CHR 0xE3, CHR 0x80, CHR 0x80]]"
  by (simp add: space_runes_def byte_def char_of_def bit_numeral_rec bit_0)

fun strip_one :: "string list \<Rightarrow> string \<Rightarrow> string option" where
  "strip_one [] s = None"
| "strip_one (p # ps) s =
     (if p \<noteq> [] \<and> prefix p s then Some (drop (length p) s) else strip_one ps s)"

lemma strip_one_shorter: "strip_one ps s = Some t \<Longrightarrow> length t < length s"
  by (induction ps s rule: strip_one.induct) (auto split: if_splits simp: prefix_def)

function strip_all :: "string list \<Rightarrow> string \<Rightarrow> string" where
  "strip_all ps s = (case strip_one ps s of None \<Rightarrow> s | Some t \<Rightarrow> strip_all ps t)"
  by pat_completeness auto
termination
  by (relation "measure (length \<circ> snd)") (auto dest: strip_one_shorter)

declare strip_all.simps [simp del]

definition trim_left :: "string \<Rightarrow> string" where
  "trim_left s = strip_all space_runes s"

definition trim_right :: "string \<Rightarrow> string" where
  "trim_right s = rev (strip_all (map rev space_runes) (rev s))"

definition trim_space :: "string \<Rightarrow> string" where
  "trim_space s = trim_right (trim_left s)"

lemma strip_all_fixed: "strip_one ps (strip_all ps s) = None"
proof (induction ps s rule: strip_all.induct)
  case (1 ps s)
  then show ?case
    by (cases "strip_one ps s") (auto simp: strip_all.simps [of ps s])
qed

lemma strip_all_id: "strip_one ps s = None \<Longrightarrow> strip_all ps s = s"
  by (simp add: strip_all.simps)

lemma strip_one_None: "strip_one ps s = None \<longleftrightarrow> (\<forall>p \<in> set ps. p \<noteq> [] \<longrightarrow> \<not> prefix p s)"
  by (induction ps s rule: strip_one.induct) auto

lemma strip_all_suffix: "suffix (strip_all ps s) s"
proof (induction ps s rule: strip_all.induct)
  case (1 ps s)
  show ?case
  proof (cases "strip_one ps s")
    case None
    then show ?thesis by (simp add: strip_all_id)
  next
    case (Some t)
    have "suffix t s" using Some
      by (induction ps s rule: strip_one.induct) (auto split: if_splits simp: suffix_drop)
    with 1 [OF Some] Some show ?thesis
      using suffix_order.trans by (simp add: strip_all.simps [of ps s])
  qed
qed

text \<open>A string of plain ASCII bytes (no space, no byte above 0x7F) at both ends is not changed.\<close>

definition plain :: "char \<Rightarrow> bool" where
  "plain c \<longleftrightarrow> 32 < (of_char c :: nat) \<and> (of_char c :: nat) < 128"

lemma of_char_byte: "n < 256 \<Longrightarrow> of_char (byte n) = (n :: nat)"
  by (simp add: byte_def)

lemma space_runes_ends:
  assumes "p \<in> set space_runes"
  shows "p \<noteq> [] \<and> \<not> plain (hd p) \<and> \<not> plain (last p)"
proof -
  have "\<forall>p \<in> set space_runes. p \<noteq> [] \<and> \<not> plain (hd p) \<and> \<not> plain (last p)"
    by (simp add: space_runes_def plain_def of_char_byte)
  with assms show ?thesis by blast
qed

lemma trim_left_plain: "s = [] \<or> plain (hd s) \<Longrightarrow> trim_left s = s"
  unfolding trim_left_def
  by (rule strip_all_id) (auto simp: strip_one_None prefix_def dest: space_runes_ends)

lemma trim_right_plain: "s = [] \<or> plain (last s) \<Longrightarrow> trim_right s = s"
proof -
  assume a: "s = [] \<or> plain (last s)"
  have "strip_one (map rev space_runes) (rev s) = None"
    using a
    by (auto simp: strip_one_None suffix_to_prefix [symmetric] suffix_def dest!: space_runes_ends)
  then show ?thesis by (simp add: trim_right_def strip_all_id)
qed

lemma trim_space_plain: "s = [] \<or> (plain (hd s) \<and> plain (last s)) \<Longrightarrow> trim_space s = s"
  by (auto simp: trim_space_def trim_left_plain trim_right_plain)

lemma trim_space_Nil [simp]: "trim_space [] = []"
  by (simp add: trim_space_plain)

lemma trim_space_set: "set (trim_space s) \<subseteq> set s"
proof -
  have "set (trim_left s) \<subseteq> set s"
    unfolding trim_left_def using set_mono_suffix strip_all_suffix by blast
  moreover have "set (trim_right t) \<subseteq> set t" for t
    unfolding trim_right_def using set_mono_suffix [OF strip_all_suffix [of _ "rev t"]] by simp
  ultimately show ?thesis unfolding trim_space_def by blast
qed

lemma trim_right_prefix: "prefix (trim_right s) s"
  unfolding trim_right_def using strip_all_suffix [of _ "rev s"] by (simp add: suffix_to_prefix)

lemma trim_space_idem [simp]: "trim_space (trim_space s) = trim_space s"
proof -
  have "strip_one space_runes (trim_left s) = None"
    by (simp add: trim_left_def strip_all_fixed)
  then have "strip_one space_runes (trim_space s) = None"
    unfolding trim_space_def strip_one_None using trim_right_prefix prefix_order.trans by blast
  then have "trim_left (trim_space s) = trim_space s" by (simp add: trim_left_def strip_all_id)
  moreover have "trim_right (trim_space s) = trim_space s"
    by (simp add: trim_space_def trim_right_def strip_all_fixed strip_all_id)
  ultimately show ?thesis by (metis trim_space_def)
qed

lemma trim_space_length: "length (trim_space s) \<le> length s"
proof -
  have "length (trim_left s) \<le> length s"
    unfolding trim_left_def using suffix_length_le strip_all_suffix by blast
  moreover have "length (trim_right t) \<le> length t" for t
    unfolding trim_right_def using suffix_length_le [OF strip_all_suffix [of _ "rev t"]] by simp
  ultimately show ?thesis unfolding trim_space_def using order_trans by blast
qed

subsection \<open>Decimal integers\<close>

definition is_digit :: "char \<Rightarrow> bool" where
  "is_digit c \<longleftrightarrow> 48 \<le> (of_char c :: nat) \<and> (of_char c :: nat) \<le> 57"

definition digit_val :: "char \<Rightarrow> int" where
  "digit_val c = int (of_char c) - 48"

definition digits_val :: "string \<Rightarrow> int" where
  "digits_val ds = foldl (\<lambda>n c. 10 * n + digit_val c) 0 ds"

text \<open>\<open>strconv.Atoi\<close>: \<open>None\<close> for a syntax or a range error.\<close>

definition atoi :: "string \<Rightarrow> int option" where
  "atoi s =
     (let (neg, ds) = (case s of [] \<Rightarrow> (False, [])
                       | c # r \<Rightarrow> if c = CHR ''-'' then (True, r)
                                  else if c = CHR ''+'' then (False, r) else (False, s))
      in if ds = [] \<or> \<not> list_all is_digit ds then None
         else let n = (if neg then - digits_val ds else digits_val ds)
              in if n < min_int64 \<or> max_int64 < n then None else Some n)"

text \<open>The value \<open>Atoi\<close> returns next to an ignored error, for a string of digits: it saturates.\<close>

definition atoi_saturated :: "string \<Rightarrow> int" where
  "atoi_saturated ds = min (digits_val ds) max_int64"

text \<open>
  The value \<open>ParseInt(s, 10, 64)\<close> returns next to an ignored error, for any text: 0 for a syntax error, the
  nearest bound for a number out of range.
\<close>

definition parse_int_value :: "string \<Rightarrow> int" where
  "parse_int_value s =
     (let (neg, ds) = (case s of [] \<Rightarrow> (False, [])
                       | c # r \<Rightarrow> if c = CHR ''-'' then (True, r)
                                  else if c = CHR ''+'' then (False, r) else (False, s))
      in if ds = [] \<or> \<not> list_all is_digit ds then 0
         else max min_int64 (min max_int64 (if neg then - digits_val ds else digits_val ds)))"

lemma atoi_parse_int_value: "atoi s = Some n \<Longrightarrow> parse_int_value s = n"
  by (auto simp: atoi_def parse_int_value_def Let_def split: if_splits prod.splits)

definition digit_char :: "nat \<Rightarrow> char" where "digit_char n = char_of (48 + n)"

fun nat_str :: "nat \<Rightarrow> string" where
  "nat_str n = (if n < 10 then [digit_char n] else nat_str (n div 10) @ [digit_char (n mod 10)])"

declare nat_str.simps [simp del]

definition itoa :: "int \<Rightarrow> string" where
  "itoa n = (if n < 0 then CHR ''-'' # nat_str (nat (- n)) else nat_str (nat n))"

definition zero_pad :: "nat \<Rightarrow> int \<Rightarrow> string" where
  "zero_pad w n = (let ds = nat_str (nat \<bar>n\<bar>)
     in (if n < 0 then ''-'' else []) @ replicate (w - length ds) (CHR ''0'') @ ds)"

lemma of_char_digit_char: "n < 10 \<Longrightarrow> of_char (digit_char n) = 48 + n"
  by (simp add: digit_char_def)

lemma is_digit_digit_char [simp]: "n < 10 \<Longrightarrow> is_digit (digit_char n)"
  by (simp add: is_digit_def of_char_digit_char)

lemma digit_val_digit_char [simp]: "n < 10 \<Longrightarrow> digit_val (digit_char n) = int n"
  by (simp add: digit_val_def of_char_digit_char)

lemma nat_str_digits: "list_all is_digit (nat_str n)"
proof (induction n rule: nat_str.induct)
  case (1 n)
  then show ?case by (subst nat_str.simps) auto
qed

lemma nat_str_not_Nil [simp]: "nat_str n \<noteq> []"
  by (subst nat_str.simps) simp

lemma digits_val_append: "digits_val (ds @ [c]) = 10 * digits_val ds + digit_val c"
  by (simp add: digits_val_def)

lemma digits_val_nat_str [simp]: "digits_val (nat_str n) = int n"
proof (induction n rule: nat_str.induct)
  case (1 n)
  show ?case
  proof (cases "n < 10")
    case True
    then show ?thesis by (subst nat_str.simps) (simp add: digits_val_def)
  next
    case False
    have "10 * int (n div 10) + int (n mod 10) = int n" by presburger
    then show ?thesis
      using False 1 by (subst nat_str.simps) (simp add: digits_val_append)
  qed
qed

lemma digits_val_zeros [simp]: "digits_val (replicate k (CHR ''0'') @ ds) = digits_val ds"
proof -
  have "foldl (\<lambda>n c. 10 * n + digit_val c) 0 (replicate k (CHR ''0'')) = 0"
    by (induction k) (auto simp: digit_val_def)
  then show ?thesis by (simp add: digits_val_def)
qed

lemma is_digit_not_sign: "is_digit c \<Longrightarrow> c \<noteq> CHR ''-'' \<and> c \<noteq> CHR ''+''"
  by (auto simp: is_digit_def)

lemma is_digit_plain: "is_digit c \<Longrightarrow> plain c"
  by (simp add: is_digit_def plain_def)

lemma digits_not_sep: "list_all is_digit ds \<Longrightarrow> \<not> is_digit c \<Longrightarrow> c \<notin> set ds"
  by (auto simp: list_all_iff)

lemma atoi_digits:
  assumes "list_all is_digit ds" and "ds \<noteq> []" and "digits_val ds \<le> max_int64"
    and "0 \<le> digits_val ds"
  shows "atoi ds = Some (digits_val ds)"
proof -
  obtain c r where ds: "ds = c # r" using assms(2) by (cases ds) auto
  with assms(1) have "c \<noteq> CHR ''-''" "c \<noteq> CHR ''+''" using is_digit_not_sign by auto
  with ds assms show ?thesis by (simp add: atoi_def min_int64_def)
qed

lemma digits_val_nonneg: "list_all is_digit ds \<Longrightarrow> 0 \<le> digits_val ds"
  by (induction ds rule: rev_induct) (auto simp: digits_val_append digits_val_def digit_val_def is_digit_def)

lemma atoi_itoa:
  assumes "min_int64 \<le> n" and "n \<le> max_int64"
  shows "atoi (itoa n) = Some n"
proof (cases "n < 0")
  case True
  with assms nat_str_digits [of "nat (- n)"] show ?thesis
    by (simp add: atoi_def itoa_def)
next
  case False
  with assms nat_str_digits [of "nat n"] show ?thesis
    by (simp add: itoa_def atoi_digits)
qed

lemma atoi_range: "atoi s = Some n \<Longrightarrow> min_int64 \<le> n \<and> n \<le> max_int64"
  by (auto simp: atoi_def Let_def split: if_splits prod.splits)

lemma nat_str_plain: "plain (hd (nat_str n)) \<and> plain (last (nat_str n))"
  using nat_str_digits [of n] is_digit_plain
  by (metis hd_in_set last_in_set list_all_iff nat_str_not_Nil)

lemma trim_space_nat_str [simp]: "trim_space (nat_str n) = nat_str n"
  using nat_str_plain by (simp add: trim_space_plain)

subsection \<open>UTF-8 runes\<close>

definition cont :: "nat \<Rightarrow> nat \<Rightarrow> char \<Rightarrow> bool" where
  "cont lo hi c \<longleftrightarrow> lo \<le> (of_char c :: nat) \<and> (of_char c :: nat) \<le> hi"

text \<open>
  The number of bytes \<open>utf8.DecodeRuneInString\<close> consumes at the start of a non-empty string;
  an invalid or short encoding consumes one byte.
\<close>

definition rune_len :: "string \<Rightarrow> nat" where
  "rune_len s = (case s of [] \<Rightarrow> 1 | b # r \<Rightarrow>
     (let b0 = (of_char b :: nat);
          two = (\<lambda>lo hi. case r of c # _ \<Rightarrow> cont lo hi c | _ \<Rightarrow> False);
          three = (\<lambda>lo hi. case r of c # d # _ \<Rightarrow> cont lo hi c \<and> cont 0x80 0xBF d | _ \<Rightarrow> False);
          four = (\<lambda>lo hi. case r of c # d # e # _ \<Rightarrow>
                    cont lo hi c \<and> cont 0x80 0xBF d \<and> cont 0x80 0xBF e | _ \<Rightarrow> False)
      in if b0 < 0xC2 then 1
         else if b0 \<le> 0xDF then (if two 0x80 0xBF then 2 else 1)
         else if b0 = 0xE0 then (if three 0xA0 0xBF then 3 else 1)
         else if b0 = 0xED then (if three 0x80 0x9F then 3 else 1)
         else if b0 \<le> 0xEF then (if three 0x80 0xBF then 3 else 1)
         else if b0 = 0xF0 then (if four 0x90 0xBF then 4 else 1)
         else if b0 \<le> 0xF3 then (if four 0x80 0xBF then 4 else 1)
         else if b0 = 0xF4 then (if four 0x80 0x8F then 4 else 1)
         else 1))"

lemma rune_len_pos: "0 < rune_len s"
  by (auto simp: rune_len_def Let_def split: list.splits)

function runes :: "string \<Rightarrow> string list" where
  "runes s = (if s = [] then [] else take (rune_len s) s # runes (drop (rune_len s) s))"
  by pat_completeness auto
termination
  by (relation "measure length") (auto simp: rune_len_pos)

declare runes.simps [simp del]

definition rune_count :: "string \<Rightarrow> nat" where
  "rune_count s = length (runes s)"

lemma runes_Nil [simp]: "runes [] = []"
  by (simp add: runes.simps)

lemma concat_runes: "concat (runes s) = s"
proof (induction s rule: runes.induct)
  case (1 s)
  then show ?case by (cases "s = []") (auto simp: runes.simps [of s])
qed

lemma rune_count_le_length: "rune_count s \<le> length s"
proof (induction s rule: runes.induct)
  case (1 s)
  show ?case
  proof (cases "s = []")
    case True
    then show ?thesis by (simp add: rune_count_def)
  next
    case False
    with 1 rune_len_pos [of s] have "Suc (length (runes (drop (rune_len s) s))) \<le> length s"
      by (cases s) (auto simp: rune_count_def)
    with False show ?thesis by (simp add: rune_count_def runes.simps [of s])
  qed
qed

lemma rune_len_ascii: "s \<noteq> [] \<Longrightarrow> (of_char (hd s) :: nat) < 128 \<Longrightarrow> rune_len s = 1"
  by (cases s) (auto simp: rune_len_def)

lemma rune_count_ascii: "\<forall>c \<in> set s. (of_char c :: nat) < 128 \<Longrightarrow> rune_count s = length s"
proof (induction s)
  case Nil
  then show ?case by (simp add: rune_count_def runes.simps)
next
  case (Cons c s)
  then show ?case
    by (simp add: rune_count_def runes.simps [of "c # s"] rune_len_ascii)
qed

end
