(* ===== verification/Civil_Time.thy ===== *)
theory Civil_Time
  imports Go_Lib
begin

text \<open>
  The civil calendar behind Go's \<open>time.Time\<close> as the source uses it: a midnight date is its day
  number (days since 1970-01-01), \<open>AddDate(0, 0, n)\<close> adds to it, \<open>Weekday\<close>, \<open>Month\<close> and \<open>Day\<close>
  read it, and \<open>Format\<close> and \<open>Parse\<close> with the layout \<open>2006-01-02\<close> convert it to and from text.
  The conversions use the 400-year cycle decomposition with years that start in March, and the
  lemmas show that they are inverse to each other.
\<close>

subsection \<open>Days and civil dates\<close>

definition is_leap :: "int \<Rightarrow> bool" where
  "is_leap y \<longleftrightarrow> y mod 4 = 0 \<and> (y mod 100 \<noteq> 0 \<or> y mod 400 = 0)"

definition days_in_month :: "int \<Rightarrow> int \<Rightarrow> int" where
  "days_in_month y m =
     (if m = 2 then (if is_leap y then 29 else 28)
      else if m \<in> {4, 6, 9, 11} then 30 else 31)"

definition valid_date :: "int \<Rightarrow> int \<Rightarrow> int \<Rightarrow> bool" where
  "valid_date y m d \<longleftrightarrow> 1 \<le> m \<and> m \<le> 12 \<and> 1 \<le> d \<and> d \<le> days_in_month y m"

text \<open>Day of the March-based year on which month \<open>mp\<close> (0 = March) starts.\<close>

definition month_start :: "int \<Rightarrow> int" where
  "month_start mp = (153 * mp + 2) div 5"

definition days_from_civil :: "int \<Rightarrow> int \<Rightarrow> int \<Rightarrow> int" where
  "days_from_civil y m d =
     (let y' = (if m \<le> 2 then y - 1 else y);
          mp = (if m \<le> 2 then m + 9 else m - 3);
          yoe = y' mod 400;
          doe = yoe * 365 + yoe div 4 - yoe div 100 + month_start mp + d - 1
      in (y' div 400) * 146097 + doe - 719468)"

text \<open>Year of the 400-year era and day of the (March-based) year, from the day of the era.\<close>

definition year_of_era :: "int \<Rightarrow> int \<times> int" where
  "year_of_era doe =
     (let c = min (doe div 36524) 3; doc = doe - 36524 * c;
          q = doc div 1461; doq = doc - 1461 * q;
          y = min (doq div 365) 3
      in (100 * c + 4 * q + y, doq - 365 * y))"

definition civil_from_days :: "int \<Rightarrow> int \<times> int \<times> int" where
  "civil_from_days z =
     (let era = (z + 719468) div 146097; doe = (z + 719468) mod 146097;
          (yoe, doy) = year_of_era doe;
          mp = (5 * doy + 2) div 153;
          m = (if mp < 10 then mp + 3 else mp - 9);
          y = yoe + era * 400
      in ((if m \<le> 2 then y + 1 else y), m, doy - month_start mp + 1))"

definition year_of :: "int \<Rightarrow> int" where "year_of z = fst (civil_from_days z)"
definition month_of :: "int \<Rightarrow> int" where "month_of z = fst (snd (civil_from_days z))"
definition day_of :: "int \<Rightarrow> int" where "day_of z = snd (snd (civil_from_days z))"

text \<open>\<open>time.Weekday\<close>: Sunday is 0, Monday is 1.\<close>

definition weekday_of :: "int \<Rightarrow> int" where
  "weekday_of z = (z + 4) mod 7"

definition monday :: int where "monday = 1"

text \<open>The zero \<open>time.Time\<close> is January 1, year 1.\<close>

definition zero_time :: int where "zero_time = - 719162"

lemma zero_time_date: "civil_from_days zero_time = (1, 1, 1)"
  by code_simp

subsection \<open>The conversions are inverse\<close>

lemma year_of_era_props:
  assumes "0 \<le> doe" and "doe < 146097" and "year_of_era doe = (yoe, doy)"
  shows "0 \<le> yoe \<and> yoe < 400 \<and> 0 \<le> doy \<and> doy \<le> 365
    \<and> doe = yoe * 365 + yoe div 4 - yoe div 100 + doy
    \<and> (doy = 365 \<longrightarrow> (yoe + 1) mod 4 = 0 \<and> ((yoe + 1) mod 100 \<noteq> 0 \<or> yoe = 399))"
proof -
  define c where "c = min (doe div 36524) 3"
  define doc where "doc = doe - 36524 * c"
  define q where "q = doc div 1461"
  define doq where "doq = doc - 1461 * q"
  define y where "y = min (doq div 365) 3"
  have c: "0 \<le> c" "c \<le> 3" using assms(1) by (auto simp: c_def)
  have doc: "0 \<le> doc" "doc \<le> 36524" "c < 3 \<longrightarrow> doc < 36524"
    using assms(1,2) unfolding doc_def c_def by linarith+
  have q: "0 \<le> q" "q \<le> 24" and doq: "0 \<le> doq" "doq \<le> 1460"
    using doc unfolding q_def doq_def by linarith+
  have q24: "q = 24 \<longrightarrow> c < 3 \<longrightarrow> doq < 1460" using doc unfolding doq_def by linarith
  have y: "0 \<le> y" "y \<le> 3" using doq by (auto simp: y_def)
  have yv: "yoe = 100 * c + 4 * q + y" and dv: "doy = doq - 365 * y"
    using assms(3) unfolding year_of_era_def Let_def c_def doc_def q_def doq_def y_def by auto
  have doy: "0 \<le> doy" "doy \<le> 365" "doy = 365 \<longrightarrow> y = 3 \<and> doq = 1460"
    using doq unfolding dv y_def by linarith+
  have d4: "yoe div 4 = 25 * c + q" and d100: "yoe div 100 = c"
    using c q y unfolding yv by linarith+
  have sum: "doe = yoe * 365 + yoe div 4 - yoe div 100 + doy"
    unfolding d4 d100 unfolding dv yv doq_def doc_def by simp
  have leap: "doy = 365 \<longrightarrow> (yoe + 1) mod 4 = 0 \<and> ((yoe + 1) mod 100 \<noteq> 0 \<or> yoe = 399)"
  proof
    assume "doy = 365"
    with doy have y3: "y = 3" and dq: "doq = 1460" by auto
    have s: "yoe + 1 = 100 * c + 4 * (q + 1)" unfolding yv y3 by simp
    have m4: "(yoe + 1) mod 4 = 0" unfolding s by presburger
    show "(yoe + 1) mod 4 = 0 \<and> ((yoe + 1) mod 100 \<noteq> 0 \<or> yoe = 399)"
    proof (cases "q = 24")
      case True
      with q24 dq c have "c = 3" by auto
      with True y3 yv m4 show ?thesis by simp
    next
      case False
      with q have "0 < 4 * (q + 1)" "4 * (q + 1) < 100" by auto
      then have "(4 * (q + 1)) mod 100 \<noteq> 0" by (simp add: mod_pos_pos_trivial)
      then have "(yoe + 1) mod 100 \<noteq> 0" unfolding s by (simp only: mod_mult_self4 not_False_eq_True)
      with m4 show ?thesis by blast
    qed
  qed
  show ?thesis using c q y doy sum leap unfolding yv by auto
qed

lemma month_of_doy:
  fixes doy :: int
  assumes "0 \<le> doy" and "doy \<le> 365"
  defines "mp \<equiv> (5 * doy + 2) div 153"
  shows "0 \<le> mp \<and> mp \<le> 11 \<and> month_start mp \<le> doy \<and> (mp < 11 \<longrightarrow> doy < month_start (mp + 1))"
proof -
  define a where "a = (153 * mp + 2) div 5"
  define b where "b = (153 * (mp + 1) + 2) div 5"
  have mp: "153 * mp \<le> 5 * doy + 2" "5 * doy + 2 < 153 * mp + 153"
    unfolding mp_def by linarith+
  have a: "5 * a \<le> 153 * mp + 2" unfolding a_def by linarith
  have b: "153 * (mp + 1) + 2 < 5 * b + 5" unfolding b_def by linarith
  have "0 \<le> mp" using mp assms(1) by linarith
  moreover have "mp \<le> 11" using mp assms(2) by linarith
  moreover have "a \<le> doy" using mp a by linarith
  moreover have "doy < b"
  proof -
    have "5 * doy < 5 * b" using mp(2) b by (simp add: algebra_simps)
    then show ?thesis by simp
  qed
  ultimately show ?thesis unfolding month_start_def a_def [symmetric] b_def [symmetric] by simp
qed

lemma month_start_inverse:
  fixes mp d :: int
  assumes "0 \<le> mp" and "mp \<le> 11" and "1 \<le> d" and "d \<le> month_start (mp + 1) - month_start mp"
  shows "(5 * (month_start mp + d - 1) + 2) div 153 = mp"
proof -
  define a where "a = (153 * mp + 2) div 5"
  define b where "b = (153 * (mp + 1) + 2) div 5"
  have a: "5 * a \<le> 153 * mp + 2" "153 * mp + 2 < 5 * a + 5" unfolding a_def by linarith+
  have b: "5 * b \<le> 153 * (mp + 1) + 2" unfolding b_def by linarith
  have d: "d \<le> b - a" using assms(4) unfolding month_start_def a_def b_def by simp
  have r: "0 \<le> 5 * (a + d - 1) + 2 - 153 * mp" "5 * (a + d - 1) + 2 - 153 * mp < 153"
    using assms(3) a b d by (simp_all add: algebra_simps)
  show ?thesis
    unfolding month_start_def a_def [symmetric]
    by (rule int_div_pos_eq [OF _ r]) simp
qed

lemma month_lengths:
  "0 \<le> mp \<Longrightarrow> mp < 11 \<Longrightarrow>
   month_start (mp + 1) - month_start mp =
     (if mp \<in> {1, 3, 6, 8} then 30 else 31)"
proof -
  assume "0 \<le> mp" "mp < 11"
  then have "mp = 0 \<or> mp = 1 \<or> mp = 2 \<or> mp = 3 \<or> mp = 4 \<or> mp = 5 \<or> mp = 6 \<or> mp = 7
    \<or> mp = 8 \<or> mp = 9 \<or> mp = 10" by arith
  then show ?thesis by (elim disjE) (simp_all add: month_start_def)
qed

theorem days_from_civil_from_days:
  "case civil_from_days z of (y, m, d) \<Rightarrow> days_from_civil y m d = z"
proof -
  define era where "era = (z + 719468) div 146097"
  define doe where "doe = (z + 719468) mod 146097"
  obtain yoe doy where yd: "year_of_era doe = (yoe, doy)" by fastforce
  have doe: "0 \<le> doe" "doe < 146097" unfolding doe_def by simp_all
  note p = year_of_era_props [OF doe yd]
  define mp where "mp = (5 * doy + 2) div 153"
  have mp: "0 \<le> mp" "mp \<le> 11" using month_of_doy [of doy] p unfolding mp_def by auto
  have z: "z = era * 146097 + doe - 719468" unfolding era_def doe_def by simp
  have yr: "(yoe + era * 400) mod 400 = yoe" "(yoe + era * 400) div 400 = era" using p by auto
  define m where "m = (if mp < 10 then mp + 3 else mp - 9)"
  define y where "y = (if m \<le> 2 then yoe + era * 400 + 1 else yoe + era * 400)"
  have civ: "civil_from_days z = (y, m, doy - month_start mp + 1)"
    unfolding civil_from_days_def Let_def era_def [symmetric] doe_def [symmetric] yd
    by (simp add: mp_def [symmetric] m_def y_def)
  have y': "(if m \<le> 2 then y - 1 else y) = yoe + era * 400" unfolding y_def by simp
  have m': "(if m \<le> 2 then m + 9 else m - 3) = mp" using mp unfolding m_def by auto
  show ?thesis
    unfolding civ days_from_civil_def Let_def y' m' yr prod.case using p z by linarith
qed

theorem civil_from_days_valid:
  assumes "civil_from_days z = (y, m, d)"
  shows "valid_date y m d"
proof -
  define era where "era = (z + 719468) div 146097"
  define doe where "doe = (z + 719468) mod 146097"
  obtain yoe doy where yd: "year_of_era doe = (yoe, doy)" by fastforce
  have doe: "0 \<le> doe" "doe < 146097" unfolding doe_def by simp_all
  note p = year_of_era_props [OF doe yd]
  define mp where "mp = (5 * doy + 2) div 153"
  have mp: "0 \<le> mp" "mp \<le> 11" "month_start mp \<le> doy" "mp < 11 \<Longrightarrow> doy < month_start (mp + 1)"
    using month_of_doy [of doy] p unfolding mp_def by auto
  have m: "m = (if mp < 10 then mp + 3 else mp - 9)" and d: "d = doy - month_start mp + 1"
    and y: "y = (if m \<le> 2 then yoe + era * 400 + 1 else yoe + era * 400)"
    using assms unfolding civil_from_days_def Let_def era_def [symmetric] doe_def [symmetric] yd
    by (auto simp: mp_def [symmetric])
  show ?thesis
  proof (cases "mp = 11")
    case False
    with mp have lt: "0 \<le> mp" "mp < 11" by auto
    then have "d \<le> (if mp \<in> {1, 3, 6, 8} then 30 else 31)"
      using mp(4) month_lengths [OF lt] unfolding d by linarith
    moreover have "m \<noteq> 2" "m \<in> {4, 6, 9, 11} \<longleftrightarrow> mp \<in> {1, 3, 6, 8}" using lt m by auto
    ultimately show ?thesis using lt m mp(3) d by (auto simp: valid_date_def days_in_month_def)
  next
    case True
    then have m2: "m = 2" and d': "d = doy - 336" using m d by (auto simp: month_start_def)
    have yy: "y = yoe + 1 + 400 * era" using y m2 by simp
    have r: "(yoe + 1 + 400 * era) mod 4 = (yoe + 1) mod 4"
      "(yoe + 1 + 400 * era) mod 100 = (yoe + 1) mod 100"
      "(yoe + 1 + 400 * era) mod 400 = (yoe + 1) mod 400"
      using mod_mult_self2 [of "yoe + 1" 4 "100 * era"] mod_mult_self2 [of "yoe + 1" 100 "4 * era"]
        mod_mult_self2 [of "yoe + 1" 400 era]
      by simp_all
    have "doy = 365 \<longrightarrow> is_leap y" using p unfolding is_leap_def yy r by auto
    then show ?thesis using m2 d' mp(3) p True
      by (auto simp: valid_date_def days_in_month_def month_start_def)
  qed
qed

text \<open>Every valid date is recovered from its day number, so the two sides are in bijection.\<close>

lemma min_div_quotient:
  fixes n c r :: int
  assumes "0 < n" and "0 \<le> c" and "c \<le> 3" and "0 \<le> r" and "r < n \<or> c = 3"
  shows "min ((n * c + r) div n) 3 = c"
proof -
  have "(n * c + r) div n = c + r div n" using assms(1) by simp
  moreover have "0 \<le> r div n" using assms(1,4) by (simp add: pos_imp_zdiv_nonneg_iff)
  moreover have "r < n \<Longrightarrow> r div n = 0" using assms(4) by (rule div_pos_pos_trivial)
  ultimately show ?thesis using assms(3,5) by auto
qed

lemma year_of_era_inverse:
  assumes "0 \<le> yoe" and "yoe < 400" and "0 \<le> doy" and "doy \<le> 365"
    and leap: "doy = 365 \<Longrightarrow> (yoe + 1) mod 4 = 0 \<and> ((yoe + 1) mod 100 \<noteq> 0 \<or> yoe = 399)"
  defines "doe \<equiv> yoe * 365 + yoe div 4 - yoe div 100 + doy"
  shows "0 \<le> doe" "doe < 146097" "year_of_era doe = (yoe, doy)"
proof -
  define c where "c = yoe div 100"
  define q where "q = (yoe mod 100) div 4"
  define y where "y = yoe mod 4"
  have "yoe mod 100 mod 4 = yoe mod 4" by (rule mod_mod_cancel) simp
  then have yv: "yoe = 100 * c + 4 * q + y"
    using mult_div_mod_eq [of 100 yoe] mult_div_mod_eq [of 4 "yoe mod 100"]
    unfolding c_def q_def y_def by linarith
  have b: "0 \<le> c" "c \<le> 3" "0 \<le> q" "q \<le> 24" "0 \<le> y" "y \<le> 3"
    using assms(1,2) unfolding c_def q_def y_def by auto
  have d4: "yoe div 4 = 25 * c + q" using b unfolding yv by linarith
  have dv: "doe = 36524 * c + 1461 * q + 365 * y + doy"
    unfolding doe_def d4 c_def [symmetric] unfolding yv by simp
  have l: "doy = 365 \<Longrightarrow> y = 3 \<and> (q = 24 \<longrightarrow> c = 3)"
  proof -
    assume "doy = 365"
    with leap have a: "(yoe + 1) mod 4 = 0" "(yoe + 1) mod 100 \<noteq> 0 \<or> yoe = 399" by auto
    have "y = 3" using a(1) unfolding y_def by presburger
    moreover have "c = 3" if "q = 24"
      using a(2) that \<open>y = 3\<close> yv by auto
    ultimately show ?thesis by simp
  qed
  have doq: "365 * y + doy \<le> 1460" "q = 24 \<and> c < 3 \<longrightarrow> 365 * y + doy < 1460"
    using l b assms(4) by (cases "doy = 365"; force)+
  have doc: "1461 * q + 365 * y + doy \<le> 36524" "c < 3 \<longrightarrow> 1461 * q + 365 * y + doy < 36524"
    using doq b assms(3) by auto
  show "0 \<le> doe" "doe < 146097" using dv b assms(3) doc by auto
  have e1: "min (doe div 36524) 3 = c"
    using min_div_quotient [of 36524 c "1461 * q + 365 * y + doy"] doc b assms(3)
    unfolding dv by (auto simp: add.assoc)
  have e2: "(doe - 36524 * c) div 1461 = q"
    using div_mult_self4 [of "1461 :: int" q "365 * y + doy"] doq(1) b assms(3)
    unfolding dv by (simp add: add.assoc div_pos_pos_trivial)
  have e3: "min ((doe - 36524 * c - 1461 * q) div 365) 3 = y"
    using min_div_quotient [of 365 y doy] b assms(3,4) l unfolding dv by fastforce
  show "year_of_era doe = (yoe, doy)"
    unfolding year_of_era_def Let_def e1 e2 e3 using dv yv by simp
qed

theorem civil_from_days_from_civil:
  assumes "valid_date y m d"
  shows "civil_from_days (days_from_civil y m d) = (y, m, d)"
proof -
  define y' where "y' = (if m \<le> 2 then y - 1 else y)"
  define mp where "mp = (if m \<le> 2 then m + 9 else m - 3)"
  define yoe where "yoe = y' mod 400"
  define era where "era = y' div 400"
  define doy where "doy = month_start mp + d - 1"
  define doe where "doe = yoe * 365 + yoe div 4 - yoe div 100 + doy"
  have md: "1 \<le> m" "m \<le> 12" "1 \<le> d" "d \<le> days_in_month y m" using assms by (auto simp: valid_date_def)
  have mp: "0 \<le> mp" "mp \<le> 11" using md unfolding mp_def by auto
  have yoe: "0 \<le> yoe" "yoe < 400" unfolding yoe_def by simp_all
  have y'': "y' = yoe + era * 400" unfolding yoe_def era_def by simp
  have short: "d \<le> month_start (mp + 1) - month_start mp" if "mp < 11"
  proof -
    have "days_in_month y m = (if mp \<in> {1, 3, 6, 8} then 30 else 31)"
      using that md unfolding mp_def days_in_month_def by (auto split: if_splits)
    then show ?thesis using month_lengths [OF mp(1) that] md(4) by simp
  qed
  have feb: "m = 2 \<and> d \<le> (if is_leap y then 29 else 28)" if "mp = 11"
    using that md unfolding mp_def days_in_month_def by (auto split: if_splits)
  have doy: "0 \<le> doy" "doy \<le> 365"
  proof -
    have "0 \<le> month_start mp" using mp unfolding month_start_def by simp
    then show "0 \<le> doy" using md(3) unfolding doy_def by linarith
    show "doy \<le> 365"
    proof (cases "mp = 11")
      case True
      then show ?thesis using feb unfolding doy_def month_start_def by (auto split: if_splits)
    next
      case False
      then have "mp < 11" using mp by simp
      then have "month_start (mp + 1) \<le> 337" unfolding month_start_def by simp
      then show ?thesis using short [OF \<open>mp < 11\<close>] unfolding doy_def by linarith
    qed
  qed
  have leap: "(yoe + 1) mod 4 = 0 \<and> ((yoe + 1) mod 100 \<noteq> 0 \<or> yoe = 399)" if "doy = 365"
  proof -
    have "mp = 11"
    proof (rule ccontr)
      assume "mp \<noteq> 11"
      then have "mp < 11" using mp by simp
      then have "month_start (mp + 1) \<le> 337" unfolding month_start_def by simp
      then show False using short [OF \<open>mp < 11\<close>] that unfolding doy_def by linarith
    qed
    then have "m = 2" "is_leap y" using feb that unfolding doy_def month_start_def by (auto split: if_splits)
    then have "is_leap (yoe + 1 + 400 * era)" using y'' unfolding y'_def by (simp add: algebra_simps)
    moreover have "(yoe + 1 + 400 * era) mod 4 = (yoe + 1) mod 4" "(yoe + 1 + 400 * era) mod 100 = (yoe + 1) mod 100"
      "(yoe + 1 + 400 * era) mod 400 = (yoe + 1) mod 400"
      using mod_mult_self2 [of "yoe + 1" 4 "100 * era"] mod_mult_self2 [of "yoe + 1" 100 "4 * era"]
        mod_mult_self2 [of "yoe + 1" 400 era] by simp_all
    moreover have "yoe = 399" if "(yoe + 1) mod 400 = 0" using that yoe by presburger
    ultimately show ?thesis unfolding is_leap_def by auto
  qed
  have e: "0 \<le> doe" "doe < 146097" "year_of_era doe = (yoe, doy)"
    unfolding doe_def by (rule year_of_era_inverse [OF yoe doy leap]; assumption)+
  have z: "days_from_civil y m d + 719468 = era * 146097 + doe"
    unfolding days_from_civil_def Let_def y'_def [symmetric] mp_def [symmetric] era_def doe_def yoe_def doy_def by simp
  have ze: "(era * 146097 + doe) div 146097 = era" "(era * 146097 + doe) mod 146097 = doe" using e(1,2) by simp_all
  have mpd: "(5 * doy + 2) div 153 = mp"
  proof (cases "mp = 11")
    case True
    then have "1 \<le> d" "d \<le> 29" using feb md(3) by (auto split: if_splits)
    then show ?thesis using True unfolding doy_def month_start_def by simp
  next
    case False
    then show ?thesis unfolding doy_def using month_start_inverse mp md(3) short by simp
  qed
  have mm: "(if mp < 10 then mp + 3 else mp - 9) = m" using md unfolding mp_def by auto
  have yy: "(if m \<le> 2 then yoe + era * 400 + 1 else yoe + era * 400) = y" using y'' unfolding y'_def by (auto split: if_splits)
  have dd: "doy - month_start mp + 1 = d" unfolding doy_def by simp
  show ?thesis unfolding civil_from_days_def z Let_def ze e(3) prod.case mpd mm by (simp only: yy dd)
qed

subsection \<open>Text form\<close>

definition format_date :: "int \<Rightarrow> string" where
  "format_date z = (case civil_from_days z of (y, m, d) \<Rightarrow>
     zero_pad 4 y @ ''-'' @ zero_pad 2 m @ ''-'' @ zero_pad 2 d)"

text \<open>\<open>time.Parse("2006-01-02", s)\<close>: exactly ten bytes, every field in range.\<close>

definition parse_date :: "string \<Rightarrow> int option" where
  "parse_date s = (case s of
     [y1, y2, y3, y4, h1, m1, m2, h2, d1, d2] \<Rightarrow>
       (if h1 = CHR ''-'' \<and> h2 = CHR ''-'' \<and> list_all is_digit [y1, y2, y3, y4, m1, m2, d1, d2]
        then let y = digits_val [y1, y2, y3, y4]; m = digits_val [m1, m2]; d = digits_val [d1, d2]
             in if valid_date y m d then Some (days_from_civil y m d) else None
        else None)
   | _ \<Rightarrow> None)"

lemma zero_pad_digits:
  assumes "0 \<le> n"
  shows "list_all is_digit (zero_pad w n)" and "digits_val (zero_pad w n) = n"
proof -
  have "list_all is_digit (replicate k (CHR ''0''))" for k
    by (simp add: list_all_iff is_digit_def)
  with assms nat_str_digits show "list_all is_digit (zero_pad w n)"
    by (simp add: zero_pad_def Let_def)
  show "digits_val (zero_pad w n) = n" using assms by (simp add: zero_pad_def Let_def)
qed

lemma length_nat_str: "n < 10 ^ w \<Longrightarrow> 0 < w \<Longrightarrow> length (nat_str n) \<le> w"
proof (induction w arbitrary: n)
  case 0
  then show ?case by simp
next
  case (Suc w)
  show ?case
  proof (cases "n < 10")
    case True
    then show ?thesis by (simp add: nat_str.simps [of n])
  next
    case False
    then have "0 < w" using Suc.prems by (cases w) auto
    moreover have "n div 10 < 10 ^ w" using Suc.prems by (simp add: less_mult_imp_div_less mult.commute)
    ultimately show ?thesis using Suc.IH False by (simp add: nat_str.simps [of n])
  qed
qed

lemma zero_pad_length:
  assumes "0 \<le> n" and "n < 10 ^ w" and "0 < w"
  shows "length (zero_pad w n) = w"
proof -
  have "nat n < 10 ^ w" using assms(1,2) by (simp add: nat_less_iff)
  from length_nat_str [OF this assms(3)] assms(1) show ?thesis
    by (simp add: zero_pad_def Let_def)
qed

theorem parse_format_date:
  assumes "0 \<le> year_of z" and "year_of z \<le> 9999"
  shows "parse_date (format_date z) = Some z"
proof -
  obtain y m d where c: "civil_from_days z = (y, m, d)" by (cases "civil_from_days z") auto
  have v: "valid_date y m d" using c by (rule civil_from_days_valid)
  have y: "0 \<le> y" "y < 10 ^ 4" using assms c by (auto simp: year_of_def)
  have m: "0 \<le> m" "m < 10 ^ 2" and d: "0 \<le> d" "d < 10 ^ 2"
    using v by (auto simp: valid_date_def days_in_month_def split: if_splits)
  obtain y1 y2 y3 y4 where ys: "zero_pad 4 y = [y1, y2, y3, y4]"
    using zero_pad_length [OF y] by (auto simp: numeral_eq_Suc length_Suc_conv)
  obtain m1 m2 where ms: "zero_pad 2 m = [m1, m2]"
    using zero_pad_length [OF m] by (auto simp: numeral_eq_Suc length_Suc_conv)
  obtain d1 d2 where ds: "zero_pad 2 d = [d1, d2]"
    using zero_pad_length [OF d] by (auto simp: numeral_eq_Suc length_Suc_conv)
  have "days_from_civil y m d = z" using days_from_civil_from_days [of z] c by simp
  then show ?thesis
    using v c ys ms ds zero_pad_digits [OF y(1), of 4] zero_pad_digits [OF m(1), of 2]
      zero_pad_digits [OF d(1), of 2]
    by (simp add: format_date_def parse_date_def)
qed

lemma format_date_inj:
  assumes "format_date a = format_date b"
    and "0 \<le> year_of a" "year_of a \<le> 9999" "0 \<le> year_of b" "year_of b \<le> 9999"
  shows "a = b"
  using parse_format_date [of a] parse_format_date [of b] assms by (metis option.inject)

text \<open>And every text that parses is the form of its date.\<close>

lemma digits_val_bound: "list_all is_digit ds \<Longrightarrow> digits_val ds < 10 ^ length ds"
proof (induction ds rule: rev_induct)
  case (snoc c ds)
  have "digit_val c \<le> 9" using snoc.prems by (auto simp: digit_val_def is_digit_def)
  moreover have "digits_val ds + 1 \<le> 10 ^ length ds" using snoc by simp
  ultimately show ?case by (simp add: digits_val_append)
qed (simp add: digits_val_def)

lemma digits_val_inject:
  "list_all is_digit ds \<Longrightarrow> list_all is_digit es \<Longrightarrow> length ds = length es \<Longrightarrow> digits_val ds = digits_val es \<Longrightarrow> ds = es"
proof (induction ds arbitrary: es rule: rev_induct)
  case (snoc c ds)
  obtain es' c' where es: "es = es' @ [c']" using snoc.prems(3) by (cases es rule: rev_cases) auto
  have b: "0 \<le> digit_val c" "digit_val c \<le> 9" "0 \<le> digit_val c'" "digit_val c' \<le> 9"
    using snoc.prems es by (auto simp: digit_val_def is_digit_def)
  have "10 * digits_val ds + digit_val c = 10 * digits_val es' + digit_val c'"
    using snoc.prems(4) by (simp add: es digits_val_append)
  then have "digits_val ds = digits_val es'" "digit_val c = digit_val c'" using b by presburger+
  moreover have "c = c'" using \<open>digit_val c = digit_val c'\<close> snoc.prems es by (auto simp: digit_val_def is_digit_def)
  ultimately show ?case using snoc es by simp
qed simp

lemma zero_pad_val:
  assumes "list_all is_digit ds" and "0 < length ds"
  shows "zero_pad (length ds) (digits_val ds) = ds"
proof (rule digits_val_inject)
  have n: "0 \<le> digits_val ds" using digits_val_nonneg assms(1) by blast
  show "list_all is_digit (zero_pad (length ds) (digits_val ds))" using zero_pad_digits(1) [OF n] .
  show "digits_val (zero_pad (length ds) (digits_val ds)) = digits_val ds" using zero_pad_digits(2) [OF n] .
  show "length (zero_pad (length ds) (digits_val ds)) = length ds"
    using zero_pad_length [OF n digits_val_bound [OF assms(1)] assms(2)] .
qed (rule assms(1))

theorem format_parse_date:
  assumes "parse_date s = Some n"
  shows "format_date n = s"
proof -
  from assms obtain y1 y2 y3 y4 m1 m2 d1 d2 where s: "s = [y1, y2, y3, y4, CHR ''-'', m1, m2, CHR ''-'', d1, d2]"
    and dg: "list_all is_digit [y1, y2, y3, y4]" "list_all is_digit [m1, m2]" "list_all is_digit [d1, d2]"
    and v: "valid_date (digits_val [y1, y2, y3, y4]) (digits_val [m1, m2]) (digits_val [d1, d2])"
    and n: "n = days_from_civil (digits_val [y1, y2, y3, y4]) (digits_val [m1, m2]) (digits_val [d1, d2])"
    by (auto simp: parse_date_def Let_def split: list.splits if_splits)
  show ?thesis
    using zero_pad_val [OF dg(1)] zero_pad_val [OF dg(2)] zero_pad_val [OF dg(3)] civil_from_days_from_civil [OF v]
    by (simp add: format_date_def n s eval_nat_numeral)
qed

end
