(* ===== verification/Db.thy ===== *)
theory Db
  imports Prelude
begin

text \<open>
  The stores of the backend talk to PostgreSQL through \<open>database/sql\<close>. A store operation is a
  sequence of SQL statements; each statement either runs atomically on the tables or fails with
  a driver error. The tables are HOL lists of records, the text of a statement is translated to
  a function on them, and which statements fail is decided by a script of booleans that the
  statements consume one by one (an exhausted script means that no further statement fails), so
  every error return of the source is a reachable branch of the model. A transaction undoes the
  statements of its body when the body or the commit fails.
\<close>

record 'd conn =
  tables :: 'd
  faults :: "bool list"

type_synonym ('d, 'e, 'a) action = "'d conn \<Rightarrow> ('e + 'a) \<times> 'd conn"

definition healthy :: "'d \<Rightarrow> 'd conn" where
  "healthy d = \<lparr>tables = d, faults = []\<rparr>"

definition stmt :: "'e \<Rightarrow> ('d \<Rightarrow> 'a \<times> 'd) \<Rightarrow> ('d, 'e, 'a) action" where
  "stmt e f c =
     (case faults c of
        True # fs \<Rightarrow> (Inl e, c\<lparr>faults := fs\<rparr>)
      | fs \<Rightarrow> (Inr (fst (f (tables c))), c\<lparr>tables := snd (f (tables c)), faults := tl fs\<rparr>))"

definition query :: "'e \<Rightarrow> ('d \<Rightarrow> 'a) \<Rightarrow> ('d, 'e, 'a) action" where
  "query e q = stmt e (\<lambda>d. (q d, d))"

definition dret :: "'a \<Rightarrow> ('d, 'e, 'a) action" where
  "dret x c = (Inr x, c)"

definition draise :: "'e \<Rightarrow> ('d, 'e, 'a) action" where
  "draise e c = (Inl e, c)"

definition dbind :: "('d, 'e, 'a) action \<Rightarrow> ('a \<Rightarrow> ('d, 'e, 'b) action) \<Rightarrow> ('d, 'e, 'b) action" where
  "dbind m f c = (case m c of (Inl e, c') \<Rightarrow> (Inl e, c') | (Inr x, c') \<Rightarrow> f x c')"

text \<open>\<open>BeginTx\<close>, the body, then \<open>Commit\<close> or the deferred \<open>Rollback\<close>.\<close>

definition transaction ::
  "'e \<Rightarrow> 'e \<Rightarrow> ('d, 'e, 'a) action \<Rightarrow> ('d, 'e, 'a) action" where
  "transaction e_begin e_commit body c =
     (case stmt e_begin (\<lambda>d. ((), d)) c of
        (Inl e, c1) \<Rightarrow> (Inl e, c1)
      | (Inr _, c1) \<Rightarrow>
          (case body c1 of
             (Inl e, c2) \<Rightarrow> (Inl e, c2\<lparr>tables := tables c1\<rparr>)
           | (Inr x, c2) \<Rightarrow>
               (case stmt e_commit (\<lambda>d. ((), d)) c2 of
                  (Inl e, c3) \<Rightarrow> (Inl e, c3\<lparr>tables := tables c1\<rparr>)
                | (Inr _, c3) \<Rightarrow> (Inr x, c3))))"

text \<open>A statement loop: the statements run in order and the first error stops it.\<close>

fun dmapM :: "('x \<Rightarrow> ('d, 'e, unit) action) \<Rightarrow> 'x list \<Rightarrow> ('d, 'e, unit) action" where
  "dmapM f [] = dret ()"
| "dmapM f (x # xs) = dbind (f x) (\<lambda>_. dmapM f xs)"

text \<open>A loop that reads something for every element and collects the results.\<close>

fun dtraverse :: "('x \<Rightarrow> ('d, 'e, 'y) action) \<Rightarrow> 'x list \<Rightarrow> ('d, 'e, 'y list) action" where
  "dtraverse f [] = dret []"
| "dtraverse f (x # xs) = dbind (f x) (\<lambda>y. dbind (dtraverse f xs) (\<lambda>ys. dret (y # ys)))"

text \<open>A single-row read whose missing row (\<open>sql.ErrNoRows\<close>) is the error \<open>miss\<close>.\<close>

definition query_row :: "'e \<Rightarrow> 'e \<Rightarrow> ('d \<Rightarrow> 'a option) \<Rightarrow> ('d, 'e, 'a) action" where
  "query_row e miss q =
     dbind (query e q) (\<lambda>r. case r of None \<Rightarrow> draise miss | Some x \<Rightarrow> dret x)"

text \<open>How a constrained write ends: a unique violation and a rejected value are driver errors.\<close>

datatype 'a written = Done 'a | Duplicate | Rejected

text \<open>Continuing after an error (\<open>if errors.Is(err, \<dots>)\<close>) or after a result.\<close>

definition dtry ::
  "('d, 'e, 'a) action \<Rightarrow> ('e \<Rightarrow> ('d, 'e, 'b) action) \<Rightarrow> ('a \<Rightarrow> ('d, 'e, 'b) action) \<Rightarrow> ('d, 'e, 'b) action" where
  "dtry m h f c = (case m c of (Inl e, c') \<Rightarrow> h e c' | (Inr x, c') \<Rightarrow> f x c')"

text \<open>An action of one component run on its part of the shared database.\<close>

definition zoom :: "('s \<Rightarrow> 'd) \<Rightarrow> ('d \<Rightarrow> 's \<Rightarrow> 's) \<Rightarrow> ('d, 'e, 'a) action \<Rightarrow> ('s, 'e, 'a) action" where
  "zoom get put m c =
     (case m \<lparr>tables = get (tables c), faults = faults c\<rparr> of
        (r, c') \<Rightarrow> (r, \<lparr>tables = put (tables c') (tables c), faults = faults c'\<rparr>))"

text \<open>An INTEGER column holds 32-bit values; PostgreSQL rejects anything else.\<close>

definition fits32 :: "int \<Rightarrow> bool" where
  "fits32 n \<longleftrightarrow> - 2147483648 \<le> n \<and> n \<le> 2147483647"

subsection \<open>Without faults\<close>

lemma tables_healthy [simp]: "tables (healthy d) = d" "faults (healthy d) = []"
  by (simp_all add: healthy_def)

lemma healthy_inject [simp]: "healthy d = healthy d' \<longleftrightarrow> d = d'"
  by (simp add: healthy_def)

lemma stmt_healthy [simp]: "stmt e f (healthy d) = (Inr (fst (f d)), healthy (snd (f d)))"
  by (simp add: stmt_def healthy_def)

lemma query_healthy [simp]: "query e q (healthy d) = (Inr (q d), healthy d)"
  by (simp add: query_def)

lemma transaction_healthy:
  "transaction eb ec body (healthy d) =
     (case body (healthy d) of
        (Inl e, c) \<Rightarrow> (Inl e, c\<lparr>tables := d\<rparr>)
      | (Inr x, c) \<Rightarrow> (case stmt ec (\<lambda>d. ((), d)) c of
            (Inl e, c3) \<Rightarrow> (Inl e, c3\<lparr>tables := d\<rparr>) | (Inr _, c3) \<Rightarrow> (Inr x, c3)))"
  by (simp add: transaction_def split: sum.splits prod.splits)

lemma dret_simp [simp]: "dret x c = (Inr x, c)" by (simp add: dret_def)
lemma draise_simp [simp]: "draise e c = (Inl e, c)" by (simp add: draise_def)

lemma dbind_simps [simp]:
  "m c = (Inl e, c') \<Longrightarrow> dbind m f c = (Inl e, c')"
  "m c = (Inr x, c') \<Longrightarrow> dbind m f c = f x c'"
  by (simp_all add: dbind_def)

lemma dtry_simps [simp]:
  "m c = (Inl e, c') \<Longrightarrow> dtry m h f c = h e c'"
  "m c = (Inr x, c') \<Longrightarrow> dtry m h f c = f x c'"
  by (simp_all add: dtry_def)

lemma dbind_query_healthy [simp]: "dbind (query e q) f (healthy d) = f (q d) (healthy d)"
  by (simp add: dbind_def)

lemma dbind_stmt_healthy [simp]:
  "dbind (stmt e g) f (healthy d) = f (fst (g d)) (healthy (snd (g d)))"
  by (simp add: dbind_def)

lemma query_row_healthy [simp]:
  "query_row e miss q (healthy d) =
     (case q d of None \<Rightarrow> (Inl miss, healthy d) | Some x \<Rightarrow> (Inr x, healthy d))"
  by (simp add: query_row_def split: option.splits)

lemma dbind_query_row_healthy [simp]:
  "dbind (query_row e miss q) f (healthy d) =
     (case q d of None \<Rightarrow> (Inl miss, healthy d) | Some x \<Rightarrow> f x (healthy d))"
  by (simp add: dbind_def split: option.splits)

lemma zoom_healthy:
  "m (healthy (get d)) = (r, healthy d') \<Longrightarrow>
   zoom get put m (healthy d) = (r, healthy (put d' d))"
  by (simp add: zoom_def healthy_def)

lemma dbind_assoc [simp]: "dbind (dbind m f) g = dbind m (\<lambda>x. dbind (f x) g)"
  by (rule ext) (simp add: dbind_def split: sum.splits prod.splits)

lemma healthy_update [simp]: "(healthy d)\<lparr>tables := d'\<rparr> = healthy d'"
  by (simp add: healthy_def)

lemma dmapM_healthy:
  assumes "\<And>x. f x = stmt (e x) (\<lambda>d. ((), g x d))"
  shows "dmapM f xs (healthy d) = (Inr (), healthy (fold g xs d))"
  by (induction xs arbitrary: d) (simp_all add: assms)

lemma dtraverse_healthy:
  assumes "\<And>x. x \<in> set xs \<Longrightarrow> f x (healthy d) = (Inr (g x), healthy d)"
  shows "dtraverse f xs (healthy d) = (Inr (map g xs), healthy d)"
  using assms by (induction xs) simp_all

subsection \<open>Invariants and relations kept under any fault script\<close>

text \<open>
  \<open>evolves R m\<close>: whatever statements fail, the tables after \<open>m\<close> are related to the tables before.
  With a reflexive and transitive \<open>R\<close> it composes; an invariant is the special case
  \<open>\<lambda>d d'. P d \<longrightarrow> P d'\<close>.
\<close>

definition evolves :: "('d \<Rightarrow> 'd \<Rightarrow> bool) \<Rightarrow> ('d, 'e, 'a) action \<Rightarrow> bool" where
  "evolves R m \<longleftrightarrow> (\<forall>c. R (tables c) (tables (snd (m c))))"

definition keeps :: "('d \<Rightarrow> bool) \<Rightarrow> ('d, 'e, 'a) action \<Rightarrow> bool" where
  "keeps P m \<longleftrightarrow> evolves (\<lambda>d d'. P d \<longrightarrow> P d') m"

lemma evolves_stmt: "(\<And>d. R d d) \<Longrightarrow> (\<And>d. R d (snd (f d))) \<Longrightarrow> evolves R (stmt e f)"
  by (simp add: evolves_def stmt_def split: list.splits bool.splits)

lemma evolves_query: "(\<And>d. R d d) \<Longrightarrow> evolves R (query e q)"
  unfolding query_def by (rule evolves_stmt) auto

lemma evolves_dret: "(\<And>d. R d d) \<Longrightarrow> evolves R (dret x)"
  by (simp add: evolves_def)

lemma evolves_draise: "(\<And>d. R d d) \<Longrightarrow> evolves R (draise e)"
  by (simp add: evolves_def)

lemma evolves_dbind:
  assumes "\<And>a b c. R a b \<Longrightarrow> R b c \<Longrightarrow> R a c"
    and "evolves R m" and "\<And>x. evolves R (f x)"
  shows "evolves R (dbind m f)"
  unfolding evolves_def
proof
  fix c
  obtain r c' where m: "m c = (r, c')" by (cases "m c")
  have 1: "R (tables c) (tables c')" using assms(2) m unfolding evolves_def by (metis snd_conv)
  show "R (tables c) (tables (snd (dbind m f c)))"
    using 1 m assms(1) [OF 1] assms(3) unfolding evolves_def by (cases r) auto
qed

lemma evolves_dtry:
  assumes "\<And>a b c. R a b \<Longrightarrow> R b c \<Longrightarrow> R a c"
    and "evolves R m" and "\<And>e. evolves R (h e)" and "\<And>x. evolves R (f x)"
  shows "evolves R (dtry m h f)"
  unfolding evolves_def
proof
  fix c
  obtain r c' where m: "m c = (r, c')" by (cases "m c")
  have 1: "R (tables c) (tables c')" using assms(2) m unfolding evolves_def by (metis snd_conv)
  show "R (tables c) (tables (snd (dtry m h f c)))"
    using 1 m assms(1) [OF 1] assms(3,4) unfolding evolves_def dtry_def by (cases r) auto
qed

lemma evolves_transaction:
  fixes body :: "('d, 'e, 'a) action"
  assumes "\<And>d. R d d" and "evolves R body"
  shows "evolves R (transaction eb ec body)"
  unfolding evolves_def
proof
  fix c :: "'d conn"
  obtain r1 c1 where 1: "stmt eb (\<lambda>d. ((), d)) c = (r1, c1)" by (cases "stmt eb (\<lambda>d. ((), d)) c")
  then have t1: "tables c1 = tables c" by (auto simp: stmt_def split: list.splits bool.splits)
  obtain r2 c2 where 2: "body c1 = (r2, c2)" by (cases "body c1")
  have R2: "R (tables c1) (tables c2)" using assms(2) 2 unfolding evolves_def by (metis snd_conv)
  obtain r3 c3 where 3: "stmt ec (\<lambda>d. ((), d)) c2 = (r3, c3)" by (cases "stmt ec (\<lambda>d. ((), d)) c2")
  then have t3: "tables c3 = tables c2" by (auto simp: stmt_def split: list.splits bool.splits)
  show "R (tables c) (tables (snd (transaction eb ec body c)))"
    using assms(1) 1 2 3 R2 t1 t3
    by (cases r1; cases r2; cases r3) (simp_all add: transaction_def)
qed

lemma evolves_query_row: "(\<And>d. R d d) \<Longrightarrow> evolves R (query_row e miss q)"
  unfolding evolves_def query_row_def query_def stmt_def dbind_def
  by (auto split: list.splits bool.splits option.splits sum.splits prod.splits)

lemma evolves_zoom:
  assumes "evolves Q m" and "\<And>d d'. Q (get d) d' \<Longrightarrow> R d (put d' d)"
  shows "evolves R (zoom get put m)"
  unfolding evolves_def zoom_def
proof
  fix c
  obtain r c' where m: "m \<lparr>tables = get (tables c), faults = faults c\<rparr> = (r, c')" by fastforce
  then have "Q (get (tables c)) (tables c')"
    using assms(1) unfolding evolves_def by (metis conn.select_convs(1) snd_conv)
  then show "R (tables c) (tables (snd (case m \<lparr>tables = get (tables c), faults = faults c\<rparr> of
        (r, c') \<Rightarrow> (r, \<lparr>tables = put (tables c') (tables c), faults = faults c'\<rparr>))))"
    by (simp add: m assms(2))
qed

lemma evolves_dmapM:
  assumes "\<And>d. R d d" and "\<And>a b c. R a b \<Longrightarrow> R b c \<Longrightarrow> R a c" and "\<And>x. evolves R (f x)"
  shows "evolves R (dmapM f xs)"
proof (induction xs)
  case Nil
  show ?case unfolding dmapM.simps by (rule evolves_dret) (rule assms(1))
next
  case (Cons x xs)
  show ?case unfolding dmapM.simps by (rule evolves_dbind [OF assms(2,3) Cons])
qed

lemma keeps_stmt [keeps_intros]: "(\<And>d. P d \<Longrightarrow> P (snd (f d))) \<Longrightarrow> keeps P (stmt e f)"
  unfolding keeps_def by (rule evolves_stmt) auto

lemma keeps_query [keeps_intros]: "keeps P (query e q)"
  unfolding keeps_def by (rule evolves_query) auto

lemma keeps_query_row [keeps_intros]: "keeps P (query_row e miss q)"
  unfolding keeps_def by (rule evolves_query_row) auto

lemma keeps_dret [keeps_intros]: "keeps P (dret x)"
  unfolding keeps_def by (rule evolves_dret) auto

lemma keeps_draise [keeps_intros]: "keeps P (draise e)"
  unfolding keeps_def by (rule evolves_draise) auto

lemma keeps_dbind [keeps_intros]:
  "keeps P m \<Longrightarrow> (\<And>x. keeps P (f x)) \<Longrightarrow> keeps P (dbind m f)"
  unfolding keeps_def by (rule evolves_dbind) auto

lemma keeps_dtry [keeps_intros]:
  "keeps P m \<Longrightarrow> (\<And>e. keeps P (h e)) \<Longrightarrow> (\<And>x. keeps P (f x)) \<Longrightarrow> keeps P (dtry m h f)"
  unfolding keeps_def by (rule evolves_dtry) auto

lemma keeps_transaction [keeps_intros]: "keeps P body \<Longrightarrow> keeps P (transaction eb ec body)"
  unfolding keeps_def by (rule evolves_transaction) auto

lemma keeps_dmapM [keeps_intros]: "(\<And>x. keeps P (f x)) \<Longrightarrow> keeps P (dmapM f xs)"
  unfolding keeps_def by (rule evolves_dmapM) auto

lemma keeps_dtraverse [keeps_intros]: "(\<And>x. keeps P (f x)) \<Longrightarrow> keeps P (dtraverse f xs)"
proof (induction xs)
  case Nil
  show ?case unfolding dtraverse.simps by (rule keeps_dret)
next
  case (Cons x xs)
  show ?case unfolding dtraverse.simps
    by (intro keeps_dbind keeps_dret Cons)
qed

lemma keeps_if [keeps_intros]:
  "(b \<Longrightarrow> keeps P m) \<Longrightarrow> (\<not> b \<Longrightarrow> keeps P n) \<Longrightarrow> keeps P (if b then m else n)"
  by simp

lemma keeps_case_option [keeps_intros]:
  "(x = None \<Longrightarrow> keeps P m) \<Longrightarrow> (\<And>y. x = Some y \<Longrightarrow> keeps P (f y)) \<Longrightarrow>
   keeps P (case x of None \<Rightarrow> m | Some y \<Rightarrow> f y)"
  by (cases x) auto

lemma keepsD: "keeps P m \<Longrightarrow> P (tables c) \<Longrightarrow> m c = (r, c') \<Longrightarrow> P (tables c')"
  unfolding keeps_def evolves_def by (metis snd_conv)

text \<open>An action that keeps everything only reads.\<close>

lemma keeps_all_reads: "(\<And>P. keeps P m) \<Longrightarrow> tables (snd (m c)) = tables c"
  using keepsD [of "\<lambda>d. d = tables c" m c] by (metis prod.collapse)

lemma keeps_case_prod [keeps_intros]:
  "(\<And>a b. p = (a, b) \<Longrightarrow> keeps P (f a b)) \<Longrightarrow> keeps P (case p of (a, b) \<Rightarrow> f a b)"
  by (cases p) auto

lemma keeps_case_written [keeps_intros]:
  "(\<And>x. w = Done x \<Longrightarrow> keeps P (f x)) \<Longrightarrow> (w = Duplicate \<Longrightarrow> keeps P m) \<Longrightarrow> (w = Rejected \<Longrightarrow> keeps P n) \<Longrightarrow>
   keeps P (case w of Done x \<Rightarrow> f x | Duplicate \<Rightarrow> m | Rejected \<Rightarrow> n)"
  by (cases w) auto

text \<open>
  A handler calls store operations and then answers; these rules follow its control flow while an
  invariant of the tables is carried along.
\<close>

lemma handler_call [handler_intros]:
  assumes "keeps P m" and "P (tables c)"
    and "\<And>r c'. P (tables c') \<Longrightarrow> P (tables (snd (f r c')))"
  shows "P (tables (snd (case m c of (r, c') \<Rightarrow> f r c')))"
  using assms(3) keepsD [OF assms(1,2)] by (cases "m c") auto

lemma handler_answer [handler_intros]: "P (tables c) \<Longrightarrow> P (tables (snd (resp, c)))"
  by simp

lemma handler_option [handler_intros]:
  "(x = None \<Longrightarrow> P (tables (snd m))) \<Longrightarrow> (\<And>y. x = Some y \<Longrightarrow> P (tables (snd (f y)))) \<Longrightarrow>
   P (tables (snd (case x of None \<Rightarrow> m | Some y \<Rightarrow> f y)))"
  by (cases x) auto

lemma handler_sum [handler_intros]:
  "(\<And>y. x = Inl y \<Longrightarrow> P (tables (snd (f y)))) \<Longrightarrow> (\<And>y. x = Inr y \<Longrightarrow> P (tables (snd (g y)))) \<Longrightarrow>
   P (tables (snd (case x of Inl y \<Rightarrow> f y | Inr y \<Rightarrow> g y)))"
  by (cases x) auto

lemma handler_checked [handler_intros]:
  fixes f :: "'a \<Rightarrow> 'b option \<Rightarrow> 'r \<times> 'd conn"
  shows "(\<And>a b. p = (a, b) \<Longrightarrow> P (tables (snd (f a b)))) \<Longrightarrow> P (tables (snd (case p of (a, b) \<Rightarrow> f a b)))"
  by (cases p) auto

lemma handler_if [handler_intros]:
  "(b \<Longrightarrow> P (tables (snd m))) \<Longrightarrow> (\<not> b \<Longrightarrow> P (tables (snd n))) \<Longrightarrow>
   P (tables (snd (if b then m else n)))"
  by simp

subsection \<open>Successful runs\<close>

text \<open>
  \<open>clean m\<close>: a run of \<open>m\<close> that succeeds under some fault script is the run without faults, so
  what is proved of the healthy run holds of every successful one.
\<close>

definition clean :: "('d, 'e, 'a) action \<Rightarrow> bool" where
  "clean m \<longleftrightarrow> (\<forall>c x c'. m c = (Inr x, c') \<longrightarrow> m (healthy (tables c)) = (Inr x, healthy (tables c')))"

lemma clean_stmt [clean_intros]: "clean (stmt e f)"
  by (auto simp: clean_def stmt_def healthy_def split: list.splits bool.splits)

lemma clean_query [clean_intros]: "clean (query e q)"
  unfolding query_def by (rule clean_stmt)

lemma clean_dret [clean_intros]: "clean (dret x)" and clean_draise [clean_intros]: "clean (draise e)"
  by (auto simp: clean_def)

lemma clean_dbind [clean_intros]:
  assumes "clean m" and "\<And>x. clean (f x)"
  shows "clean (dbind m f)"
  unfolding clean_def
proof (intro allI impI)
  fix c x c'
  assume run: "dbind m f c = (Inr x, c')"
  obtain r c1 where m: "m c = (r, c1)" by (cases "m c")
  with run obtain y where y: "m c = (Inr y, c1)" and fy: "f y c1 = (Inr x, c')"
    by (cases r) auto
  have "m (healthy (tables c)) = (Inr y, healthy (tables c1))"
    using assms(1) y unfolding clean_def by blast
  moreover have "f y (healthy (tables c1)) = (Inr x, healthy (tables c'))"
    using assms(2) [of y] fy unfolding clean_def by blast
  ultimately show "dbind m f (healthy (tables c)) = (Inr x, healthy (tables c'))" by simp
qed

lemma clean_transaction [clean_intros]:
  assumes "clean body"
  shows "clean (transaction eb ec body)"
  unfolding clean_def
proof (intro allI impI)
  fix c x c'
  assume run: "transaction eb ec body c = (Inr x, c')"
  obtain r1 c1 where 1: "stmt eb (\<lambda>d. ((), d)) c = (r1, c1)" by (cases "stmt eb (\<lambda>d. ((), d)) c")
  then have t1: "tables c1 = tables c" by (auto simp: stmt_def split: list.splits bool.splits)
  obtain r2 c2 where 2: "body c1 = (r2, c2)" by (cases "body c1")
  obtain r3 c3 where 3: "stmt ec (\<lambda>d. ((), d)) c2 = (r3, c3)" by (cases "stmt ec (\<lambda>d. ((), d)) c2")
  then have t3: "tables c3 = tables c2" by (auto simp: stmt_def split: list.splits bool.splits)
  from run 1 2 3 have ok: "r2 = Inr x" "c' = c3"
    unfolding transaction_def by (cases r1; cases r2; cases r3; simp)+
  have "body (healthy (tables c)) = (Inr x, healthy (tables c2))"
    using assms 2 ok(1) t1 unfolding clean_def by metis
  then show "transaction eb ec body (healthy (tables c)) = (Inr x, healthy (tables c'))"
    by (simp add: transaction_healthy ok(2) t3)
qed

lemma clean_dmapM [clean_intros]: "(\<And>x. clean (f x)) \<Longrightarrow> clean (dmapM f xs)"
proof (induction xs)
  case Nil
  show ?case unfolding dmapM.simps by (rule clean_dret)
next
  case (Cons x xs)
  show ?case unfolding dmapM.simps by (intro clean_dbind Cons)
qed

lemma clean_dtraverse [clean_intros]: "(\<And>x. clean (f x)) \<Longrightarrow> clean (dtraverse f xs)"
proof (induction xs)
  case Nil
  show ?case unfolding dtraverse.simps by (rule clean_dret)
next
  case (Cons x xs)
  show ?case unfolding dtraverse.simps by (intro clean_dbind clean_dret Cons)
qed

lemma clean_if [clean_intros]: "clean m \<Longrightarrow> clean n \<Longrightarrow> clean (if b then m else n)"
  by simp

lemma clean_case_option [clean_intros]:
  "clean m \<Longrightarrow> (\<And>y. clean (f y)) \<Longrightarrow> clean (case x of None \<Rightarrow> m | Some y \<Rightarrow> f y)"
  by (cases x) auto

lemma clean_case_prod [clean_intros]:
  "(\<And>a b. clean (f a b)) \<Longrightarrow> clean (case p of (a, b) \<Rightarrow> f a b)"
  by (cases p) auto

lemma clean_case_written [clean_intros]:
  "(\<And>x. clean (f x)) \<Longrightarrow> clean m \<Longrightarrow> clean n \<Longrightarrow>
   clean (case w of Done x \<Rightarrow> f x | Duplicate \<Rightarrow> m | Rejected \<Rightarrow> n)"
  by (cases w) auto

lemma clean_query_row [clean_intros]: "clean (query_row e miss q)"
  unfolding query_row_def by (intro clean_intros)

lemma clean_zoom [clean_intros]:
  assumes "clean m"
  shows "clean (zoom get put m)"
  unfolding clean_def
proof (intro allI impI)
  fix c x c'
  assume run: "zoom get put m c = (Inr x, c')"
  obtain r c1 where m: "m \<lparr>tables = get (tables c), faults = faults c\<rparr> = (r, c1)" by fastforce
  with run have r: "r = Inr x" and c': "c' = \<lparr>tables = put (tables c1) (tables c), faults = faults c1\<rparr>"
    by (auto simp: zoom_def)
  have "m (healthy (get (tables c))) = (Inr x, healthy (tables c1))"
    using assms m r unfolding clean_def by (metis conn.select_convs(1))
  then have "zoom get put m (healthy (tables c)) = (Inr x, healthy (put (tables c1) (tables c)))"
    by (rule zoom_healthy)
  then show "zoom get put m (healthy (tables c)) = (Inr x, healthy (tables c'))"
    by (simp add: c')
qed

lemma cleanD: "clean m \<Longrightarrow> m c = (Inr x, c') \<Longrightarrow> m (healthy (tables c)) = (Inr x, healthy (tables c'))"
  by (simp add: clean_def)

text \<open>A failed transaction leaves no trace.\<close>

lemma transaction_atomic:
  assumes "transaction eb ec body c = (Inl e, c')"
  shows "tables c' = tables c"
  using assms unfolding transaction_def stmt_def
  by (auto split: list.splits bool.splits sum.splits prod.splits)

text \<open>Taking a successful run apart.\<close>

lemma dbind_Inr: "dbind m f c = (Inr y, c') \<Longrightarrow> \<exists>x c1. m c = (Inr x, c1) \<and> f x c1 = (Inr y, c')"
  by (auto simp: dbind_def split: prod.splits sum.splits)

lemma stmt_Inr: "stmt e f c = (Inr x, c') \<Longrightarrow> f (tables c) = (x, tables c')"
  by (auto simp: stmt_def split: list.splits bool.splits)

lemma query_row_Inr: "query_row e miss q c = (Inr x, c') \<Longrightarrow> q (tables c) = Some x \<and> tables c' = tables c"
  by (auto simp: query_row_def query_def stmt_def dbind_def split: list.splits bool.splits option.splits)

text \<open>What a transaction left in the tables: nothing, or the effect of its successful body.\<close>

lemma transaction_tables:
  "tables (snd (transaction eb ec body c)) = tables c \<or>
   (\<exists>c1 x c2. tables c1 = tables c \<and> body c1 = (Inr x, c2) \<and>
      tables (snd (transaction eb ec body c)) = tables c2)"
proof -
  obtain r1 c1 where 1: "stmt eb (\<lambda>d. ((), d)) c = (r1, c1)" by (cases "stmt eb (\<lambda>d. ((), d)) c")
  then have t1: "tables c1 = tables c" by (auto simp: stmt_def split: list.splits bool.splits)
  obtain r2 c2 where 2: "body c1 = (r2, c2)" by (cases "body c1")
  obtain r3 c3 where 3: "stmt ec (\<lambda>d. ((), d)) c2 = (r3, c3)" by (cases "stmt ec (\<lambda>d. ((), d)) c2")
  then have t3: "tables c3 = tables c2" by (auto simp: stmt_def split: list.splits bool.splits)
  show ?thesis
  proof (cases "\<exists>x y z. r1 = Inr x \<and> r2 = Inr y \<and> r3 = Inr z")
    case True
    then have "tables (snd (transaction eb ec body c)) = tables c2"
      using 1 2 3 t3 by (auto simp: transaction_def)
    with True 2 t1 show ?thesis by blast
  next
    case False
    then have "tables (snd (transaction eb ec body c)) = tables c"
      using 1 2 3 t1 by (cases r1; cases r2; cases r3) (auto simp: transaction_def)
    then show ?thesis by blast
  qed
qed

text \<open>The same for a body whose success does not depend on faults.\<close>

lemma transaction_clean:
  assumes "clean body"
  shows "tables (snd (transaction eb ec body c)) = tables c \<or>
    (\<exists>x d'. body (healthy (tables c)) = (Inr x, healthy d') \<and> tables (snd (transaction eb ec body c)) = d')"
  using transaction_tables [of eb ec body c] cleanD [OF assms] by metis

lemma transaction_healthy_clean:
  assumes "body (healthy d) = (r, healthy d')"
  shows "transaction eb ec body (healthy d) = (r, healthy (case r of Inl _ \<Rightarrow> d | Inr _ \<Rightarrow> d'))"
  by (simp add: transaction_healthy assms split: sum.splits)

text \<open>Reading after a write.\<close>

lemma tables_dbind_reads:
  assumes "\<And>x c. tables (snd (f x c)) = tables c"
  shows "tables (snd (dbind m f c)) = tables (snd (m c))"
proof -
  obtain r c' where "m c = (r, c')" by fastforce
  then show ?thesis using assms by (cases r) (simp_all add: dbind_def)
qed

lemma tables_query [simp]: "tables (snd (query e q c)) = tables c"
  by (simp add: query_def stmt_def split: list.splits bool.splits)

lemma tables_query_row [simp]: "tables (snd (query_row e miss q c)) = tables c"
  by (auto simp: query_row_def dbind_def query_def stmt_def split: list.splits bool.splits option.splits)

text \<open>What one statement leaves behind.\<close>

lemma tables_stmt: "tables (snd (stmt e f c)) = tables c \<or> tables (snd (stmt e f c)) = snd (f (tables c))"
  by (simp add: stmt_def split: list.splits bool.splits)

lemma dbind_reads_first:
  assumes "\<And>x. m c = (Inr x, snd (m c)) \<Longrightarrow> P (tables (snd (f x (snd (m c)))))"
    and "tables (snd (m c)) = tables c" and "P (tables c)"
  shows "P (tables (snd (dbind m f c)))"
proof -
  obtain r c' where m: "m c = (r, c')" by fastforce
  show ?thesis
  proof (cases r)
    case (Inl e)
    then show ?thesis using m assms(2,3) by simp
  next
    case (Inr x)
    then show ?thesis using m assms(1) [of x] by simp
  qed
qed

lemma query_cases:
  "query e q c = (Inl e, c\<lparr>faults := tl (faults c)\<rparr>) \<or>
   query e q c = (Inr (q (tables c)), c\<lparr>faults := tl (faults c)\<rparr>)"
  by (auto simp: query_def stmt_def split: list.splits bool.splits)


subsection \<open>At most one step\<close>

text \<open>
  \<open>reads m\<close>: the tables stay as they are, whatever statements fail. \<open>once S m\<close>: the tables stay or
  make one step of the relation \<open>S\<close>. Both are stated for actions and for handlers alike.
\<close>

definition reads :: "('d conn \<Rightarrow> 'r \<times> 'd conn) \<Rightarrow> bool" where
  "reads m \<longleftrightarrow> (\<forall>c. tables (snd (m c)) = tables c)"

definition once :: "('d \<Rightarrow> 'd \<Rightarrow> bool) \<Rightarrow> ('d conn \<Rightarrow> 'r \<times> 'd conn) \<Rightarrow> bool" where
  "once S m \<longleftrightarrow> (\<forall>c. tables (snd (m c)) = tables c \<or> S (tables c) (tables (snd (m c))))"

lemma reads_simple [reads_intros]:
  "reads (query e q)" "reads (query_row e miss q')" "reads (dret x)" "reads (draise e')"
  by (simp_all add: reads_def)

lemma reads_dbind [reads_intros]: "reads m \<Longrightarrow> (\<And>x. reads (f x)) \<Longrightarrow> reads (dbind m f)"
  by (simp add: reads_def tables_dbind_reads)

lemma reads_dtraverse [reads_intros]: "(\<And>x. reads (f x)) \<Longrightarrow> reads (dtraverse f xs)"
  by (induction xs) (auto intro: reads_intros)

lemma reads_if [reads_intros]: "reads m \<Longrightarrow> reads n \<Longrightarrow> reads (if b then m else n)"
  by simp

lemma reads_case_option [reads_intros]:
  "reads m \<Longrightarrow> (\<And>y. reads (f y)) \<Longrightarrow> reads (case x of None \<Rightarrow> m | Some y \<Rightarrow> f y)"
  by (cases x) auto

lemma reads_case_prod [reads_intros]: "(\<And>a b. reads (f a b)) \<Longrightarrow> reads (case p of (a, b) \<Rightarrow> f a b)"
  by (cases p) auto

lemma reads_case_written [reads_intros]:
  "(\<And>x. reads (f x)) \<Longrightarrow> reads m \<Longrightarrow> reads n \<Longrightarrow>
   reads (case w of Done x \<Rightarrow> f x | Duplicate \<Rightarrow> m | Rejected \<Rightarrow> n)"
  by (cases w) auto

lemma readsD: "reads m \<Longrightarrow> tables (snd (m c)) = tables c"
  by (simp add: reads_def)

lemma onceD: "once S m \<Longrightarrow> tables (snd (m c)) = tables c \<or> S (tables c) (tables (snd (m c)))"
  by (simp add: once_def)

lemma once_reads: "reads m \<Longrightarrow> once S m"
  by (simp add: reads_def once_def)

lemma once_stmt: "(\<And>d. S d (snd (f d))) \<Longrightarrow> once S (stmt e f)"
  unfolding once_def using tables_stmt by metis

lemma once_then_reads:
  assumes "once S m" and "\<And>x. reads (f x)"
  shows "once S (dbind m f)"
  using assms by (simp add: once_def reads_def tables_dbind_reads)

lemma once_after_reads:
  assumes "reads m" and "\<And>x. once S (f x)"
  shows "once S (dbind m f)"
  unfolding once_def
proof
  fix c
  obtain r c1 where m: "m c = (r, c1)" by fastforce
  have t: "tables c1 = tables c" using readsD [OF assms(1), of c] m by simp
  show "tables (snd (dbind m f c)) = tables c \<or> S (tables c) (tables (snd (dbind m f c)))"
  proof (cases r)
    case (Inl e)
    then show ?thesis using m t by simp
  next
    case (Inr x)
    then show ?thesis using m onceD [OF assms(2) [of x], of c1] t by simp
  qed
qed

text \<open>What the read found may guard the step that follows.\<close>

lemma once_guarded:
  assumes "reads m" and "\<And>c x c1. m c = (Inr x, c1) \<Longrightarrow> G x (tables c)"
    and "\<And>x. once (\<lambda>d d'. G x d \<longrightarrow> S d d') (f x)"
  shows "once S (dbind m f)"
  unfolding once_def
proof
  fix c
  obtain r c1 where m: "m c = (r, c1)" by fastforce
  have t: "tables c1 = tables c" using readsD [OF assms(1), of c] m by simp
  show "tables (snd (dbind m f c)) = tables c \<or> S (tables c) (tables (snd (dbind m f c)))"
  proof (cases r)
    case (Inl e)
    then show ?thesis using m t by simp
  next
    case (Inr x)
    then show ?thesis using m assms(2) [of c x c1] onceD [OF assms(3) [of x], of c1] t by simp
  qed
qed

lemma once_transaction:
  assumes "clean body" and "\<And>d x d'. body (healthy d) = (Inr x, healthy d') \<Longrightarrow> S d d'"
  shows "once S (transaction eb ec body)"
  unfolding once_def using transaction_clean [OF assms(1)] assms(2) by metis

lemma once_if [once_intros]: "(b \<Longrightarrow> once S m) \<Longrightarrow> (\<not> b \<Longrightarrow> once S n) \<Longrightarrow> once S (if b then m else n)"
  by simp

lemma once_case_option [once_intros]:
  "once S m \<Longrightarrow> (\<And>y. once S (f y)) \<Longrightarrow> once S (case x of None \<Rightarrow> m | Some y \<Rightarrow> f y)"
  by (cases x) auto

lemma once_case_written [once_intros]:
  "(\<And>x. once S (f x)) \<Longrightarrow> once S m \<Longrightarrow> once S n \<Longrightarrow>
   once S (case w of Done x \<Rightarrow> f x | Duplicate \<Rightarrow> m | Rejected \<Rightarrow> n)"
  by (cases w) auto

text \<open>A handler that makes one store call and then only looks at its answer.\<close>

lemma once_call [once_intros]:
  assumes "once S m" and "\<And>r c'. tables (snd (f r c')) = tables c'"
  shows "once S (\<lambda>c. case m c of (r, c') \<Rightarrow> f r c')"
  unfolding once_def
proof
  fix c
  obtain r c1 where m: "m c = (r, c1)" by fastforce
  then show "tables (snd (case m c of (r, c') \<Rightarrow> f r c')) = tables c \<or>
      S (tables c) (tables (snd (case m c of (r, c') \<Rightarrow> f r c')))"
    using onceD [OF assms(1), of c] assms(2) by simp
qed

text \<open>A handler that first reads, then goes on.\<close>

lemma once_lookup:
  assumes "reads m" and "\<And>r. once S (f r)"
  shows "once S (\<lambda>c. case m c of (r, c') \<Rightarrow> f r c')"
  unfolding once_def
proof
  fix c
  obtain r c1 where m: "m c = (r, c1)" by fastforce
  then show "tables (snd (case m c of (r, c') \<Rightarrow> f r c')) = tables c \<or>
      S (tables c) (tables (snd (case m c of (r, c') \<Rightarrow> f r c')))"
    using readsD [OF assms(1), of c] onceD [OF assms(2) [of r], of c1] by simp
qed

lemma once_idle [once_intros]: "once S (\<lambda>c. (r, c))"
  by (simp add: once_def)

lemma once_h_if [once_intros]:
  "(b \<Longrightarrow> once S m) \<Longrightarrow> (\<not> b \<Longrightarrow> once S n) \<Longrightarrow> once S (\<lambda>c. if b then m c else n c)"
  by (cases b) simp_all

lemma once_h_option [once_intros]:
  "once S m \<Longrightarrow> (\<And>y. once S (f y)) \<Longrightarrow> once S (\<lambda>c. case x of None \<Rightarrow> m c | Some y \<Rightarrow> f y c)"
  by (cases x) simp_all

lemma once_h_sum [once_intros]:
  "(\<And>y. once S (f y)) \<Longrightarrow> (\<And>y. once S (g y)) \<Longrightarrow> once S (\<lambda>c. case x of Inl y \<Rightarrow> f y c | Inr y \<Rightarrow> g y c)"
  by (cases x) simp_all

lemma once_h_checked [once_intros]:
  fixes p :: "'a \<times> 'b option"
  shows "(\<And>a b. once S (f a b)) \<Longrightarrow> once S (\<lambda>c. case p of (a, b) \<Rightarrow> f a b c)"
  by (cases p) simp

text \<open>A handler that validates its input first: the store call runs with an input that passed.\<close>

lemma once_h_validated:
  fixes p :: "'a \<times> 'b option"
  assumes "\<And>a. p = (a, None) \<Longrightarrow> once S (f a)" and "\<And>a b. once S (g a b)"
  shows "once S (\<lambda>c. case p of (a, None) \<Rightarrow> f a c | (a, Some b) \<Rightarrow> g a b c)"
  using assms by (cases p; cases "snd p") auto

lemma once_mono: "once S m \<Longrightarrow> (\<And>d d'. S d d' \<Longrightarrow> T d d') \<Longrightarrow> once T m"
  unfolding once_def by blast

end
