(* ===== verification/Paging.thy ===== *)
theory Paging
  imports Go_Lib
begin

text \<open>
  Request paging (\<open>internal/httpx/pagination.go\<close>) and the SQL building helpers of
  \<open>internal/dbutil\<close>: LIMIT/OFFSET, placeholder numbering, LIKE escaping and rune length caps.
\<close>

subsection \<open>Page parameters\<close>

record page_params =
  pp_page :: int
  pp_page_size :: int

definition default_page_size :: int where "default_page_size = 100"
definition max_page_size :: int where "max_page_size = 500"

definition parse_page :: "string \<Rightarrow> int" where
  "parse_page raw = (case atoi (trim_space raw) of
      None \<Rightarrow> 1
    | Some n \<Rightarrow> if n < 1 then 1 else n)"

definition parse_page_size :: "string \<Rightarrow> int" where
  "parse_page_size raw = (case atoi (trim_space raw) of
      None \<Rightarrow> default_page_size
    | Some n \<Rightarrow> if n < 1 then default_page_size
                else if n > max_page_size then max_page_size else n)"

text \<open>The query is a lookup function; an absent key reads as the empty string (\<open>url.Values.Get\<close>).\<close>

definition parse_page_params :: "(string \<Rightarrow> string) \<Rightarrow> page_params" where
  "parse_page_params q =
     \<lparr>pp_page = parse_page (q ''page''), pp_page_size = parse_page_size (q ''page_size'')\<rparr>"

definition page_offset :: "page_params \<Rightarrow> int" where
  "page_offset p = wrap64 (wrap64 (pp_page p - 1) * pp_page_size p)"

definition parse_search :: "(string \<Rightarrow> string) \<Rightarrow> string" where
  "parse_search q = trim_space (q ''q'')"

lemma parse_page_size_bounds: "1 \<le> parse_page_size raw \<and> parse_page_size raw \<le> 500"
  by (auto simp: parse_page_size_def default_page_size_def max_page_size_def split: option.splits)

lemma parse_page_bounds: "1 \<le> parse_page raw \<and> parse_page raw \<le> max_int64"
  by (auto simp: parse_page_def max_int64_def split: option.splits dest: atoi_range)

lemma page_offset_exact:
  assumes "1 \<le> pp_page p" and "1 \<le> pp_page_size p" and "pp_page_size p \<le> 500"
    and "pp_page p \<le> 18446744073709551"
  shows "page_offset p = (pp_page p - 1) * pp_page_size p"
proof -
  have "(pp_page p - 1) * pp_page_size p \<le> 18446744073709550 * 500"
    using assms by (intro mult_mono) auto
  then have "(pp_page p - 1) * pp_page_size p \<le> max_int64" by (simp add: max_int64_def)
  moreover have "0 \<le> (pp_page p - 1) * pp_page_size p" using assms by simp
  moreover have "wrap64 (pp_page p - 1) = pp_page p - 1"
    using assms by (intro wrap64_id) (auto simp: min_int64_def max_int64_def)
  ultimately show ?thesis
    by (simp add: page_offset_def wrap64_id min_int64_def)
qed

subsection \<open>SQL arguments and placeholders\<close>

datatype sql_arg = AInt int | AStr string | ATime int | ANull

definition bind_arg :: "sql_arg list \<Rightarrow> sql_arg \<Rightarrow> string \<times> sql_arg list" where
  "bind_arg args v = (let args' = args @ [v] in (''$'' @ itoa (int (length args')), args'))"

fun placeholders_from :: "int \<Rightarrow> nat \<Rightarrow> string list" where
  "placeholders_from start 0 = []"
| "placeholders_from start (Suc n) = (''$'' @ itoa start) # placeholders_from (start + 1) n"

definition placeholders :: "int \<Rightarrow> int \<Rightarrow> string" where
  "placeholders start n =
     (if n \<le> 0 then '''' else go_join '', '' (placeholders_from start (nat n)))"

record pagination =
  pg_limit :: int
  pg_offset :: int

definition paged :: "pagination \<Rightarrow> bool" where
  "paged p \<longleftrightarrow> pg_limit p > 0"

text \<open>The window that LIMIT and OFFSET cut; PostgreSQL refuses a negative OFFSET.\<close>

definition limit_rows :: "pagination \<Rightarrow> 'a list \<Rightarrow> 'a list option" where
  "limit_rows p xs =
     (if \<not> paged p then Some xs
      else if pg_offset p < 0 then None
      else Some (take (nat (pg_limit p)) (drop (nat (pg_offset p)) xs)))"

definition append_limit :: "pagination \<Rightarrow> string \<Rightarrow> sql_arg list \<Rightarrow> string \<times> sql_arg list" where
  "append_limit p q args =
     (if \<not> paged p then (q, args)
      else let n = int (length args) + 1 in
        (q @ '' LIMIT $'' @ itoa n @ '' OFFSET $'' @ itoa (n + 1),
         args @ [AInt (pg_limit p), AInt (pg_offset p)]))"

text \<open>
  The placeholder numbers of a query text, in order: the digits after each dollar sign.
\<close>

fun dollar_refs :: "string \<Rightarrow> int list" where
  "dollar_refs [] = []"
| "dollar_refs (c # s) =
     (if c = CHR ''$'' then digits_val (takeWhile is_digit s) # dollar_refs s else dollar_refs s)"

definition well_numbered :: "string \<Rightarrow> sql_arg list \<Rightarrow> bool" where
  "well_numbered q args \<longleftrightarrow> dollar_refs q = map int [1..<Suc (length args)]"

lemma dollar_refs_no_dollar [simp]: "CHR ''$'' \<notin> set s \<Longrightarrow> dollar_refs s = []"
  by (induction s) auto

lemma dollar_refs_append:
  assumes "t = [] \<or> \<not> is_digit (hd t)"
  shows "dollar_refs (s @ t) = dollar_refs s @ dollar_refs t"
proof (induction s)
  case Nil
  then show ?case by simp
next
  case (Cons c s)
  have "takeWhile is_digit (s @ t) = takeWhile is_digit s"
  proof (cases "\<forall>x \<in> set s. is_digit x")
    case True
    then have "takeWhile is_digit s = s" by (simp add: takeWhile_eq_all_conv)
    moreover have "takeWhile is_digit (s @ t) = s"
      using True assms by (cases t) (auto simp: takeWhile_append)
    ultimately show ?thesis by metis
  next
    case False
    then show ?thesis by (auto simp: takeWhile_append1)
  qed
  with Cons show ?case by simp
qed

lemma itoa_nonneg_digits: "0 \<le> n \<Longrightarrow> list_all is_digit (itoa n)"
  by (simp add: itoa_def nat_str_digits)

lemma takeWhile_digits: "list_all is_digit ds \<Longrightarrow> t = [] \<or> \<not> is_digit (hd t) \<Longrightarrow>
    takeWhile is_digit (ds @ t) = ds"
  by (induction ds) (auto, cases t, auto)

lemma dollar_refs_number:
  assumes "0 \<le> n" and "t = [] \<or> \<not> is_digit (hd t)"
  shows "dollar_refs (CHR ''$'' # itoa n @ t) = n # dollar_refs t"
proof -
  have "CHR ''$'' \<notin> set (itoa n)"
    using itoa_nonneg_digits [OF assms(1)] digits_not_sep [of "itoa n" "CHR ''$''"]
    by (simp add: is_digit_def)
  then have "dollar_refs (itoa n @ t) = dollar_refs t"
    using dollar_refs_append [OF assms(2)] by simp
  moreover have "digits_val (itoa n) = n" using assms(1) by (simp add: itoa_def)
  ultimately show ?thesis
    using takeWhile_digits [OF itoa_nonneg_digits [OF assms(1)] assms(2)] by simp
qed

text \<open>Adding one more bound condition keeps a query well numbered.\<close>

lemma well_numbered_bind:
  assumes "well_numbered q args" and "bind_arg args v = (ph, args')"
    and "CHR ''$'' \<notin> set pre" and "pre \<noteq> []" and "\<not> is_digit (hd pre)"
    and "post = [] \<or> \<not> is_digit (hd post)" and "CHR ''$'' \<notin> set post"
  shows "well_numbered (q @ pre @ ph @ post) args'"
proof -
  have ph: "ph = CHR ''$'' # itoa (int (length args) + 1)" and a: "args' = args @ [v]"
    using assms(2) by (auto simp: bind_arg_def Let_def add.commute)
  have "dollar_refs (q @ pre @ ph @ post) = dollar_refs q @ dollar_refs (pre @ ph @ post)"
    using assms(4,5) by (intro dollar_refs_append) (auto simp: hd_append)
  also have "dollar_refs (pre @ ph @ post) = dollar_refs (ph @ post)"
    using assms(3) ph dollar_refs_append [of "ph @ post" pre] by (simp add: is_digit_def)
  also have "dollar_refs (ph @ post) = [int (length args) + 1]"
    using assms(6,7) dollar_refs_number [of "int (length args) + 1" post] ph by simp
  finally show ?thesis using assms(1) a by (simp add: well_numbered_def)
qed

lemma well_numbered_append_limit:
  assumes "well_numbered q args" and "append_limit p q args = (q', args')"
  shows "well_numbered q' args'"
proof (cases "paged p")
  case False
  with assms show ?thesis by (simp add: append_limit_def)
next
  case True
  let ?n = "int (length args) + 1" and ?a1 = "args @ [AInt (pg_limit p)]"
  have b1: "bind_arg args (AInt (pg_limit p)) = (''$'' @ itoa ?n, ?a1)"
    by (simp add: bind_arg_def Let_def add.commute)
  have b2: "bind_arg ?a1 (AInt (pg_offset p)) = (''$'' @ itoa (?n + 1), ?a1 @ [AInt (pg_offset p)])"
    by (simp add: bind_arg_def Let_def add.commute)
  have "well_numbered (q @ '' LIMIT '' @ (''$'' @ itoa ?n) @ []) ?a1"
    by (rule well_numbered_bind [OF assms(1) b1]) (simp_all add: is_digit_def)
  from well_numbered_bind [OF this b2, of "'' OFFSET ''" "[]"]
  have "well_numbered ((q @ '' LIMIT '' @ (''$'' @ itoa ?n) @ []) @ '' OFFSET '' @ (''$'' @ itoa (?n + 1)) @ [])
      (?a1 @ [AInt (pg_offset p)])" by (simp add: is_digit_def)
  with True assms(2) show ?thesis by (simp add: append_limit_def Let_def)
qed

text \<open>A condition text around one more bound argument, on a query text with its arguments.\<close>

definition bind_arg_text :: "string \<Rightarrow> sql_arg \<Rightarrow> string \<Rightarrow> string \<times> sql_arg list \<Rightarrow> string \<times> sql_arg list" where
  "bind_arg_text before v after qa =
     (let (ph, args) = bind_arg (snd qa) v in (fst qa @ before @ ph @ after, args))"

definition numbered :: "string \<times> sql_arg list \<Rightarrow> bool" where
  "numbered qa \<longleftrightarrow> well_numbered (fst qa) (snd qa)"

lemma numbered_bind:
  assumes "numbered qa" and "CHR ''$'' \<notin> set before" and "before \<noteq> []" and "\<not> is_digit (hd before)"
    and "after = [] \<or> \<not> is_digit (hd after)" and "CHR ''$'' \<notin> set after"
  shows "numbered (bind_arg_text before v after qa)"
proof -
  obtain ph args where b: "bind_arg (snd qa) v = (ph, args)" by fastforce
  from well_numbered_bind [OF _ b, of "fst qa" before after] assms show ?thesis
    by (simp add: numbered_def bind_arg_text_def b)
qed

lemma numbered_if: "(b \<Longrightarrow> numbered x) \<Longrightarrow> (\<not> b \<Longrightarrow> numbered y) \<Longrightarrow> numbered (if b then x else y)"
  by simp

lemma numbered_let: "numbered x \<Longrightarrow> (\<And>y. numbered y \<Longrightarrow> numbered (f y)) \<Longrightarrow> numbered (let y = x in f y)"
  by simp

lemma numbered_start: "CHR ''$'' \<notin> set q \<Longrightarrow> numbered (q, [])"
  by (simp add: numbered_def well_numbered_def)

lemma placeholders_from_length [simp]: "length (placeholders_from start n) = n"
  by (induction start n rule: placeholders_from.induct) auto

lemma placeholders_refs_aux:
  "0 \<le> start \<Longrightarrow> dollar_refs (go_join '', '' (placeholders_from start n)) = map (\<lambda>i. start + int i) [0..<n]"
proof (induction start n rule: placeholders_from.induct)
  case (1 start)
  then show ?case by simp
next
  case (2 start n)
  show ?case
  proof (cases n)
    case 0
    with 2 dollar_refs_number [of start "[]"] show ?thesis by simp
  next
    case (Suc k)
    let ?rest = "go_join '', '' (placeholders_from (start + 1) n)"
    have "dollar_refs (''$'' @ itoa start @ '', '' @ ?rest) = start # dollar_refs ('', '' @ ?rest)"
      using 2 dollar_refs_number [of start "'', '' @ ?rest"] by (simp add: is_digit_def)
    also have "dollar_refs ('', '' @ ?rest) = dollar_refs ?rest" by simp
    also have "\<dots> = map (\<lambda>i. (start + 1) + int i) [0..<n]" using 2 by simp
    also have "start # \<dots> = map (\<lambda>i. start + int i) [0..<Suc n]"
      by (simp add: upt_conv_Cons map_Suc_upt [symmetric] del: upt_Suc)
    finally show ?thesis using Suc by simp
  qed
qed

lemma numbered_in_list:
  assumes "numbered qa" and "CHR ''$'' \<notin> set pre" and "pre \<noteq> []" and "\<not> is_digit (hd pre)"
    and "post \<noteq> []" and "\<not> is_digit (hd post)" and "CHR ''$'' \<notin> set post" and "xs \<noteq> []"
  shows "numbered (fst qa @ pre @ placeholders (int (length (snd qa)) + 1) (int (length xs)) @ post, snd qa @ xs)"
proof -
  let ?n = "length (snd qa)"
  let ?ph = "placeholders (int ?n + 1) (int (length xs))"
  have ph: "dollar_refs ?ph = map (\<lambda>i. (int ?n + 1) + int i) [0..<length xs]"
    using assms(8) placeholders_refs_aux [of "int ?n + 1" "length xs"] by (simp add: placeholders_def)
  have "dollar_refs (fst qa @ pre @ ?ph @ post) = dollar_refs (fst qa) @ dollar_refs (pre @ ?ph @ post)"
    using assms(3,4) by (intro dollar_refs_append) (auto simp: hd_append)
  also have "dollar_refs (pre @ ?ph @ post) = dollar_refs (?ph @ post)"
    using assms(2) by (induction pre) auto
  also have "\<dots> = dollar_refs ?ph"
    using dollar_refs_append [of post ?ph] assms(6,7) by simp
  finally have "dollar_refs (fst qa @ pre @ ?ph @ post) =
      map int [1..<Suc ?n] @ map (\<lambda>i. (int ?n + 1) + int i) [0..<length xs]"
    using assms(1) ph by (simp add: numbered_def well_numbered_def)
  also have "\<dots> = map int [1..<Suc (length (snd qa @ xs))]"
    by (rule nth_equalityI) (auto simp: nth_append nth_map_upt simp del: upt_Suc)
  finally show ?thesis by (simp add: numbered_def well_numbered_def)
qed

subsection \<open>LIKE patterns\<close>

definition replace_char :: "char \<Rightarrow> string \<Rightarrow> string \<Rightarrow> string" where
  "replace_char c r s = concat (map (\<lambda>x. if x = c then r else [x]) s)"

definition backslash :: char where "backslash = CHR 0x5C"

definition escape_like :: "string \<Rightarrow> string" where
  "escape_like s =
     replace_char (CHR ''_'') [backslash, CHR ''_'']
       (replace_char (CHR ''%'') [backslash, CHR ''%'']
         (replace_char backslash [backslash, backslash] s))"

definition like_pattern :: "string \<Rightarrow> string" where
  "like_pattern s = ''%'' @ s @ ''%''"

text \<open>
  SQL's LIKE with the default escape character: \<open>%\<close> matches any sequence, \<open>_\<close> any single
  character, a backslash makes the next character literal. \<open>eq\<close> compares characters
  (case-insensitively for ILIKE).
\<close>

fun like :: "(char \<Rightarrow> char \<Rightarrow> bool) \<Rightarrow> string \<Rightarrow> string \<Rightarrow> bool" where
  "like eq [] s = (s = [])"
| "like eq (p # ps) s =
     (if p = CHR ''%'' then like eq ps s \<or> (case s of [] \<Rightarrow> False | _ # t \<Rightarrow> like eq (p # ps) t)
      else if p = CHR ''_'' then (case s of [] \<Rightarrow> False | _ # t \<Rightarrow> like eq ps t)
      else if p = backslash then
        (case ps of [] \<Rightarrow> False
         | l # ps' \<Rightarrow> (case s of [] \<Rightarrow> False | c # t \<Rightarrow> eq l c \<and> like eq ps' t))
      else (case s of [] \<Rightarrow> False | c # t \<Rightarrow> eq p c \<and> like eq ps t))"

definition escape_char :: "char \<Rightarrow> string" where
  "escape_char x = (if x \<in> {backslash, CHR ''%'', CHR ''_''} then [backslash, x] else [x])"

lemma backslash_distinct: "backslash \<noteq> CHR ''%''" "backslash \<noteq> CHR ''_''"
  by (simp_all add: backslash_def)

lemma escape_like_Cons: "escape_like (x # s) = escape_char x @ escape_like s"
  using backslash_distinct by (auto simp: escape_like_def escape_char_def replace_char_def)

lemma like_percent: "like eq (CHR ''%'' # ps) s \<longleftrightarrow> (\<exists>u v. s = u @ v \<and> like eq ps v)"
proof (induction s)
  case Nil
  then show ?case by simp
next
  case (Cons c s)
  have "like eq (CHR ''%'' # ps) (c # s) \<longleftrightarrow> like eq ps (c # s) \<or> like eq (CHR ''%'' # ps) s" by simp
  also have "\<dots> \<longleftrightarrow> (\<exists>u v. c # s = u @ v \<and> like eq ps v)"
    unfolding Cons by (auto simp: Cons_eq_append_conv)
  finally show ?case .
qed

lemma like_escape_char:
  "like eq (escape_char x @ ps) s \<longleftrightarrow> (\<exists>c t. s = c # t \<and> eq x c \<and> like eq ps t)"
  using backslash_distinct by (auto simp: escape_char_def split: list.splits)

lemma like_escaped:
  "like eq (escape_like q @ ps) s \<longleftrightarrow> (\<exists>v w. s = v @ w \<and> list_all2 eq q v \<and> like eq ps w)"
proof (induction q arbitrary: s)
  case Nil
  then show ?case by (simp add: escape_like_def replace_char_def)
next
  case (Cons x q)
  have "like eq (escape_like (x # q) @ ps) s \<longleftrightarrow>
      (\<exists>c t. s = c # t \<and> eq x c \<and> like eq (escape_like q @ ps) t)"
    by (simp add: escape_like_Cons like_escape_char)
  also have "\<dots> \<longleftrightarrow> (\<exists>v w. s = v @ w \<and> list_all2 eq (x # q) v \<and> like eq ps w)"
  proof
    assume "\<exists>c t. s = c # t \<and> eq x c \<and> like eq (escape_like q @ ps) t"
    then obtain c v w where "s = (c # v) @ w" "eq x c" "list_all2 eq q v" "like eq ps w"
      using Cons by auto
    then show "\<exists>v w. s = v @ w \<and> list_all2 eq (x # q) v \<and> like eq ps w"
      by (intro exI [of _ "c # v"] exI [of _ w]) simp
  next
    assume "\<exists>v w. s = v @ w \<and> list_all2 eq (x # q) v \<and> like eq ps w"
    then obtain c v w where "s = c # v @ w" "eq x c" "list_all2 eq q v" "like eq ps w"
      by (auto simp: list_all2_Cons1)
    then show "\<exists>c t. s = c # t \<and> eq x c \<and> like eq (escape_like q @ ps) t"
      using Cons by auto
  qed
  finally show ?case .
qed

text \<open>A search term is matched literally: the pattern accepts exactly the strings that contain it.\<close>

lemma like_pattern_contains:
  "like eq (like_pattern (escape_like q)) s \<longleftrightarrow>
     (\<exists>u v w. s = u @ v @ w \<and> list_all2 eq q v)"
proof -
  have *: "like eq (CHR ''%'' # []) w" for w using like_percent [of eq "[]" w] by auto
  show ?thesis unfolding like_pattern_def
    using like_percent [of eq "escape_like q @ ''%''" s] like_escaped [of eq q "''%''"] *
    by (auto simp del: like.simps)
qed

subsection \<open>Length caps\<close>

definition max_runes :: "string \<Rightarrow> string \<Rightarrow> nat \<Rightarrow> string option" where
  "max_runes field v n =
     (if rune_count v > n
      then Some (field @ '' must be at most '' @ itoa (int n) @ '' characters'') else None)"

text \<open>A text parameter for a VARCHAR(n) column: at most n characters, none of them NUL.\<close>

definition pg_text :: "nat \<Rightarrow> string \<Rightarrow> bool" where
  "pg_text n s \<longleftrightarrow> rune_count s \<le> n \<and> CHR 0x00 \<notin> set s"

text \<open>A descending ORDER BY that leaves equal rows in their order.\<close>

definition sort_desc :: "('a \<Rightarrow> 'k::linorder) \<Rightarrow> 'a list \<Rightarrow> 'a list" where
  "sort_desc f xs = rev (sort_key f (rev xs))"

lemma set_sort_desc [simp]: "set (sort_desc f xs) = set xs" "length (sort_desc f xs) = length xs"
  "mset (sort_desc f xs) = mset xs"
  by (simp_all add: sort_desc_def)

end
