(* ===== verification/Authz.thy ===== *)
theory Authz
  imports Go_Lib
begin

text \<open>
  Authorization (\<open>internal/authz\<close>) and the effective-grant computation of
  \<open>internal/iam/effective.go\<close>: the permission catalog and its start-up extension, the subject
  test \<open>Has\<close>, the three middlewares, and the merge of role, group and direct grants. A Go
  \<open>map[string]bool\<close> used as a set is a HOL set; the Chinese display strings of the catalog are
  given by the hexadecimal digits of their UTF-8 bytes.
\<close>

subsection \<open>HTTP answers\<close>

datatype 'b response = RespError int string | RespJSON int 'b

fun resp_status :: "'b response \<Rightarrow> int" where
  "resp_status (RespError n _) = n"
| "resp_status (RespJSON n _) = n"

subsection \<open>Permissions\<close>

record permission =
  pm_code :: string
  pm_name :: string
  pm_category :: string
  pm_category_name :: string
  pm_description :: string

definition mk_perm :: "string \<Rightarrow> string \<Rightarrow> string \<Rightarrow> string \<Rightarrow> string \<Rightarrow> permission" where
  "mk_perm c n ca cn d =
     \<lparr>pm_code = c, pm_name = n, pm_category = ca, pm_category_name = cn, pm_description = d\<rparr>"

definition wildcard :: string where "wildcard = ''*''"

definition hex_val :: "char \<Rightarrow> nat" where
  "hex_val c = (if is_digit c then of_char c - 48 else of_char c - 87)"

fun hx :: "string \<Rightarrow> string" where
  "hx (a # b # s) = byte (16 * hex_val a + hex_val b) # hx s"
| "hx _ = []"

definition perm_key :: "permission \<Rightarrow> string \<times> string" where
  "perm_key p = (pm_category p, pm_code p)"

definition builtin_perms :: "permission list" where
  "builtin_perms = [
     mk_perm ''user:manage'' (hx ''e794a8e688b7e7aea1e79086'') ''user''
       (hx ''e794a8e688b7e7aea1e79086'')
       (hx ''e5889be5bbbae38081e7bc96e8be91e38081e588a0e999a4e794a8e688b7e8b4a6e58fb7efbc8ce9878de7bdaee5af86e7a081efbc8ce68e88e4ba88e68896e692a4e99480e8a792e889b2e4b88ee69d83e99990''),
     mk_perm ''user:read'' (hx ''e69fa5e79c8be794a8e688b7'') ''user''
       (hx ''e794a8e688b7e7aea1e79086'')
       (hx ''e69fa5e79c8be794a8e688b7e58897e8a1a8e38081e8afa6e68385e4b88ee68e88e69d83e68385e586b5''),
     mk_perm ''role:read'' (hx ''e69fa5e79c8be8a792e889b2'') ''iam''
       (hx ''e69d83e99990e8a792e889b2'')
       (hx ''e69fa5e79c8be8a792e889b2e4b88ee69d83e99990e79baee5bd95''),
     mk_perm ''role:manage'' (hx ''e8a792e889b2e7aea1e79086'') ''iam''
       (hx ''e69d83e99990e8a792e889b2'')
       (hx ''e5889be5bbbae38081e7bc96e8be91e38081e588a0e999a4e8a792e889b2e58f8ae8a792e889b2e69d83e99990e58886e9858d''),
     mk_perm ''group:read'' (hx ''e69fa5e79c8be794a8e688b7e7bb84'') ''iam''
       (hx ''e69d83e99990e8a792e889b2'')
       (hx ''e69fa5e79c8be794a8e688b7e7bb84e58f8ae585b6e68890e59198e38081e8a792e889b2''),
     mk_perm ''group:manage'' (hx ''e794a8e688b7e7bb84e7aea1e79086'') ''iam''
       (hx ''e69d83e99990e8a792e889b2'')
       (hx ''e5889be5bbbae38081e7bc96e8be91e38081e588a0e999a4e794a8e688b7e7bb84efbc8ce7bbb4e68aa4e7bb84e68890e59198e4b88ee7bb84e8a792e889b2''),
     mk_perm ''classroom:read'' (hx ''e69fa5e79c8be69599e5aea4'') ''classroom''
       (hx ''e69599e5aea4'')
       (hx ''e69fa5e79c8be69599e5aea4e58897e8a1a8e4b88ee8afa6e68385e38081e5afbce587ba''),
     mk_perm ''classroom:manage'' (hx ''e69599e5aea4e7aea1e79086'') ''classroom''
       (hx ''e69599e5aea4'')
       (hx ''e5889be5bbbae38081e7bc96e8be91e38081e588a0e999a4e69599e5aea4efbc8ce5afbce585a5e69599e5aea4e695b0e68dae''),
     mk_perm ''classroom:book'' (hx ''e9a284e7baa6e69599e5aea4'') ''classroom''
       (hx ''e69599e5aea4'')
       (hx ''e5889be5bbbae4b88ee58f96e6b688e69599e5aea4e9a284e7baa6''),
     mk_perm ''booking:approve'' (hx ''e5aea1e689b9e9a284e7baa6'') ''booking''
       (hx ''e9a284e7baa6'')
       (hx ''e5aea1e689b9e38081e9a9b3e59b9ee9a284e7baa6efbc9be5afbce585a5e9a284e7baa6e695b0e68dae''),
     mk_perm ''course:read'' (hx ''e69fa5e79c8be8afbee7a88b'') ''course''
       (hx ''e8afbee7a88b'')
       (hx ''e69fa5e79c8be8afbee7a88be5ba93e38081e5bc80e8afbee38081e8afbee6aca1e38081e4bd9ce681afe4b88ee8afbee8a1a8''),
     mk_perm ''course:manage'' (hx ''e8afbee7a88be7aea1e79086'') ''course''
       (hx ''e8afbee7a88b'')
       (hx ''e7bbb4e68aa4e8afbee7a88be5ba93e38081e5bc80e8afbee38081e8afbee6aca1e38081e4bd9ce681afe38081e8afbee8a1a8e58f8ae8afbee7a88be79bb8e585b3e5afbce585a5''),
     mk_perm ''admin_class:read'' (hx ''e69fa5e79c8be8a18ce694bfe78fad'') ''admin_class''
       (hx ''e8a18ce694bfe78fad'')
       (hx ''e69fa5e79c8be8a18ce694bfe78fad''),
     mk_perm ''admin_class:manage'' (hx ''e8a18ce694bfe78fade7aea1e79086'') ''admin_class''
       (hx ''e8a18ce694bfe78fad'')
       (hx ''e7bbb4e68aa4e8a18ce694bfe78fadefbc8ce5afbce585a5e8a18ce694bfe78fade695b0e68dae''),
     mk_perm ''teaching_class:read'' (hx ''e69fa5e79c8be69599e5ada6e78fad'') ''teaching_class''
       (hx ''e69599e5ada6e78fad'')
       (hx ''e69fa5e79c8be69599e5ada6e78fad''),
     mk_perm ''teaching_class:manage'' (hx ''e69599e5ada6e78fade7aea1e79086'') ''teaching_class''
       (hx ''e69599e5ada6e78fad'')
       (hx ''e7bbb4e68aa4e69599e5ada6e78fadefbc8ce5afbce585a5e69599e5ada6e78fade695b0e68dae''),
     mk_perm ''repair:create'' (hx ''e68f90e4baa4e68aa5e4bfae'') ''repair''
       (hx ''e68aa5e4bfae'')
       (hx ''e68f90e4baa4e69599e5aea4e68aa5e4bfae''),
     mk_perm ''repair:assign'' (hx ''e68c87e6b4bee68aa5e4bfae'') ''repair''
       (hx ''e68aa5e4bfae'')
       (hx ''e68c87e6b4bee5a484e79086e68aa5e4bfae''),
     mk_perm ''log:read'' (hx ''e69fa5e79c8be697a5e5bf97'') ''log''
       (hx ''e7b3bbe7bb9fe697a5e5bf97'')
       (hx ''e69fa5e79c8be7b3bbe7bb9fe6938de4bd9ce697a5e5bf97e4b88ee697a5e5bf97e4bf9de79599e8aebee7bdae''),
     mk_perm ''log:manage'' (hx ''e697a5e5bf97e7aea1e79086'') ''log''
       (hx ''e7b3bbe7bb9fe697a5e5bf97'')
       (hx ''e4bfaee694b9e697a5e5bf97e4bf9de79599e7ad96e795a5efbc88e5bc80e585b3e4b88ee4bf9de79599e5a4a9e695b0efbc89''),
     mk_perm ''ai:chat'' (hx ''414920e58aa9e6898b'') ''ai''
       (hx ''414920e58aa9e6898b'')
       (hx ''e4b88e20414920e58aa9e6898be5afb9e8af9defbc8ce69fa5e8afa2e69599e5aea4e38081e7a9bae997b2e69599e5aea4e4b88ee8afbee8a1a8efbc8ce5b9b6e7949fe68890e9a284e7baa6e696b9e6a188efbc88e99c80e4babae5b7a5e7a1aee8aea4efbc89''),
     mk_perm ''attendance:read'' (hx ''e69fa5e79c8be7adbee588b0'') ''attendance''
       (hx ''e8afbee5a082e7adbee588b0'')
       (hx ''e69fa5e79c8be7adbee588b0e6b4bbe58aa8e38081e7adbee588b0e8aeb0e5bd95e4b88ee695b4e5ada6e69c9fe88083e58ba4e68aa5e8a1a8''),
     mk_perm ''attendance:manage'' (hx ''e7adbee588b0e7aea1e79086'') ''attendance''
       (hx ''e8afbee5a082e7adbee588b0'')
       (hx ''e58f91e8b5b7e4b88ee7bb93e69d9fe7adbee588b0e38081e4bfaee694b9e5ada6e7949fe7adbee588b0e78ab6e68081e38081e7bbb4e68aa4e5ada6e7949fe6a1a3e6a188e38081e5afbce587bae68aa5e8a1a8''),
     mk_perm ''attendance:checkin'' (hx ''e689abe7a081e7adbee588b0'') ''attendance''
       (hx ''e8afbee5a082e7adbee588b0'')
       (hx ''e689abe7a081e68896e8be93e585a5203620e4bd8de7adbee588b0e7a081e5ae8ce68890e7adbee588b0''),
     mk_perm ''observation:read'' (hx ''e69fa5e79c8be8af84e8afbe'') ''observation''
       (hx ''e590ace8afbee8af84e8afbe'')
       (hx ''e69fa5e79c8be887aae5b7b1e68f90e4baa4e79a84e590ace8afbee8af84e8afbee8aeb0e5bd95''),
     mk_perm ''observation:write'' (hx ''e5a1abe58699e8af84e8afbe'') ''observation''
       (hx ''e590ace8afbee8af84e8afbe'')
       (hx ''e5889be5bbbae38081e7bc96e8be91e38081e68f90e4baa4e38081e588a0e999a4e887aae5b7b1e79a84e590ace8afbee8af84e8afbee8aeb0e5bd95''),
     mk_perm ''observation:manage'' (hx ''e8af84e8afbee7aea1e79086'') ''observation''
       (hx ''e590ace8afbee8af84e8afbe'')
       (hx ''e69fa5e79c8be585a8e983a8e590ace8afbee8af84e8afbee8aeb0e5bd95e5b9b6e5afbce587bae4bbbbe6848fe5b7b2e68f90e4baa4e79a84e8af84e8afbee8a1a8''),
     mk_perm ''iot:read'' (hx ''e69fa5e79c8be8aebee5a487'') ''iot''
       (hx ''e789a9e88194e7bd91'')
       (hx ''e69fa5e79c8be789a9e88194e7bd91e8aebee5a487e58897e8a1a8e38081e78ab6e68081e38081e5b19ee680a7e38081e4ba8be4bbb6e4b88ee591bde4bba4e8aeb0e5bd95''),
     mk_perm ''iot:manage'' (hx ''e8aebee5a487e7aea1e79086'') ''iot''
       (hx ''e789a9e88194e7bd91'')
       (hx ''e8aea4e9a286e5be85e68ea5e585a5e8aebee5a487e38081e7bb91e5ae9ae69599e5aea4e38081e7bc96e8be91e8aebee5a487e4bfa1e681afe4b88ee588a0e999a4e8aebee5a487''),
     mk_perm ''iot:control'' (hx ''e8aebee5a487e68ea7e588b6'') ''iot''
       (hx ''e789a9e88194e7bd91'')
       (hx ''e59091e8aebee5a487e4b88be58f91e68ea7e588b6e591bde4bba4efbc88e5a682e5bc80e585b3e997a8e38081e4b88ae8afbe2fe4b88be8afbee59cbae699afefbc89'')
   ]"

definition sorted_catalog :: "permission list" where
  "sorted_catalog = sort_key perm_key builtin_perms"

definition permission_exists :: "permission list \<Rightarrow> string \<Rightarrow> bool" where
  "permission_exists catalog code \<longleftrightarrow> list_ex (\<lambda>p. pm_code p = code) catalog"

text \<open>
  \<open>RegisterPermissions\<close>: \<open>merged\<close> and \<open>seen\<close> are the loop state, \<open>Catalog\<close> is the argument and
  the result.
\<close>

fun register_loop :: "permission list \<Rightarrow> permission list \<times> string set \<Rightarrow> permission list \<times> string set" where
  "register_loop [] st = st"
| "register_loop (p # ps) (merged, seen) =
     (if pm_code p = [] \<or> pm_code p = wildcard then register_loop ps (merged, seen)
      else if pm_code p \<in> seen then register_loop ps (merged, seen)
      else register_loop ps (merged @ [p], insert (pm_code p) seen))"

definition register_permissions :: "permission list \<Rightarrow> permission list \<Rightarrow> permission list" where
  "register_permissions perms catalog =
     (let (merged, _) = register_loop perms (catalog, set (map pm_code catalog))
      in sort_key perm_key merged)"

subsection \<open>Subjects and middlewares\<close>

record subject =
  sj_id :: int
  sj_type :: string
  sj_username :: string
  sj_display_name :: string
  sj_permissions :: "string set"
  sj_roles :: "string list"
  sj_groups :: "int list"

definition has_perm :: "subject \<Rightarrow> string \<Rightarrow> bool" where
  "has_perm s p \<longleftrightarrow> wildcard \<in> sj_permissions s \<or> p \<in> sj_permissions s"

text \<open>
  A middleware receives the subject found in the request context (\<open>None\<close> when the
  authentication pipeline did not run) and the answer of the next handler.
\<close>

definition require_permission :: "string \<Rightarrow> subject option \<Rightarrow> 'b response \<Rightarrow> 'b response" where
  "require_permission perm sub next = (case sub of
      None \<Rightarrow> RespError 401 ''not authenticated''
    | Some s \<Rightarrow> if \<not> has_perm s perm then RespError 403 ''insufficient permissions'' else next)"

definition require_admin :: "subject option \<Rightarrow> 'b response \<Rightarrow> 'b response" where
  "require_admin sub next = (case sub of
      None \<Rightarrow> RespError 401 ''not authenticated''
    | Some s \<Rightarrow> if \<not> has_perm s wildcard then RespError 403 ''insufficient permissions'' else next)"

definition require_any :: "string list \<Rightarrow> subject option \<Rightarrow> 'b response \<Rightarrow> 'b response" where
  "require_any perms sub next = (case sub of
      None \<Rightarrow> RespError 401 ''not authenticated''
    | Some s \<Rightarrow> if list_ex (has_perm s) perms then next
                else RespError 403 ''insufficient permissions'')"

subsection \<open>Effective grants\<close>

record role =
  rl_id :: int
  rl_code :: string
  rl_name :: string
  rl_description :: string
  rl_is_system :: bool
  rl_perms :: "string list"

record role_grant =
  rg_role :: role
  rg_expires_at :: "int option"

record perm_grant =
  pg_permission :: string
  pg_expires_at :: "int option"

record effective_result =
  ef_permissions :: "string set"
  ef_roles :: "role list"
  ef_group_ids :: "int list"

definition grant_alive :: "int \<Rightarrow> int option \<Rightarrow> bool" where
  "grant_alive now expires = (case expires of None \<Rightarrow> True | Some t \<Rightarrow> now < t)"

definition effective ::
  "int \<Rightarrow> role_grant list \<Rightarrow> role_grant list \<Rightarrow> perm_grant list \<Rightarrow> int list \<Rightarrow> effective_result" where
  "effective now direct_roles group_roles direct_perms group_ids =
     (let grants = filter (\<lambda>g. grant_alive now (rg_expires_at g)) (direct_roles @ group_roles);
          roles = first_wins (\<lambda>_. True) rl_id [] (map rg_role grants);
          perms = fold (\<lambda>g s. fold insert (rl_perms (rg_role g)) s) grants {};
          perms = fold (\<lambda>g s. if grant_alive now (pg_expires_at g)
                              then insert (pg_permission g) s else s) direct_perms perms;
          perms = (if wildcard \<in> perms then {wildcard} else perms);
          groups = sort (first_wins (\<lambda>_. True) (\<lambda>i. i) [] group_ids)
      in \<lparr>ef_permissions = perms, ef_roles = roles, ef_group_ids = groups\<rparr>)"

definition role_codes :: "effective_result \<Rightarrow> string list" where
  "role_codes r = map rl_code (ef_roles r)"

subsection \<open>The catalog\<close>

lemma builtin_codes:
  "distinct (map pm_code builtin_perms) \<and> wildcard \<notin> set (map pm_code builtin_perms)
   \<and> [] \<notin> set (map pm_code builtin_perms)"
  by (simp add: builtin_perms_def mk_perm_def wildcard_def)

definition wf_catalog :: "permission list \<Rightarrow> bool" where
  "wf_catalog c \<longleftrightarrow> sorted (map perm_key c) \<and> distinct (map pm_code c)
     \<and> wildcard \<notin> set (map pm_code c) \<and> [] \<notin> set (map pm_code c)"

lemma wf_sorted_catalog: "wf_catalog sorted_catalog"
  using builtin_codes
  by (simp add: wf_catalog_def sorted_catalog_def distinct_map_sort_key image_set [symmetric] del: set_map)
    (simp add: image_iff)

text \<open>What the registration loop adds: first-wins on the codes that are not yet taken.\<close>

lemma register_loop_first_wins:
  "set seen' = seen \<Longrightarrow>
   fst (register_loop ps (merged, seen)) =
     merged @ first_wins (\<lambda>p. pm_code p \<noteq> [] \<and> pm_code p \<noteq> wildcard) pm_code seen' ps"
proof (induction ps arbitrary: merged seen seen')
  case Nil
  then show ?case by simp
next
  case (Cons p ps)
  then show ?case
    using Cons.IH [of "pm_code p # seen'" "insert (pm_code p) seen" "merged @ [p]"]
      Cons.IH [of seen' seen merged] by auto
qed

lemma register_permissions_eq:
  "register_permissions ps c = sort_key perm_key
     (c @ first_wins (\<lambda>p. pm_code p \<noteq> [] \<and> pm_code p \<noteq> wildcard) pm_code (map pm_code c) ps)"
  using register_loop_first_wins [of "map pm_code c" _ ps c]
  by (auto simp: register_permissions_def split: prod.splits)

lemma set_register_permissions:
  "set (register_permissions ps c) = set c \<union>
     set (first_wins (\<lambda>p. pm_code p \<noteq> [] \<and> pm_code p \<noteq> wildcard) pm_code (map pm_code c) ps)"
  by (simp add: register_permissions_eq)

lemma register_codes:
  "pm_code ` set (register_permissions ps c) =
     pm_code ` set c \<union> {pm_code p | p. p \<in> set ps \<and> pm_code p \<noteq> [] \<and> pm_code p \<noteq> wildcard}"
  unfolding set_register_permissions image_Un first_wins_keys by auto

lemma wf_register_permissions:
  assumes "wf_catalog c"
  shows "wf_catalog (register_permissions ps c)"
proof -
  let ?f = "first_wins (\<lambda>p. pm_code p \<noteq> [] \<and> pm_code p \<noteq> wildcard) pm_code (map pm_code c) ps"
  have "pm_code ` set ?f \<inter> pm_code ` set c = {}" by (auto simp: first_wins_keys)
  then have "distinct (map pm_code (c @ ?f))"
    using assms first_wins_distinct [of pm_code _ "map pm_code c" ps] by (auto simp: wf_catalog_def)
  then have "distinct (map pm_code (register_permissions ps c))"
    unfolding register_permissions_eq distinct_map_sort_key .
  moreover have "sorted (map perm_key (register_permissions ps c))"
    unfolding register_permissions_eq by simp
  ultimately show ?thesis
    using assms register_codes [of ps c] unfolding wf_catalog_def by auto
qed

lemma permission_exists_iff: "permission_exists c code \<longleftrightarrow> code \<in> pm_code ` set c"
  by (auto simp: permission_exists_def list_ex_iff)

text \<open>
  The interface the role and grant validation relies on: a registry that start-up code may
  extend but that never accepts the wildcard.
\<close>

locale permission_registry =
  fixes known :: "'c \<Rightarrow> string \<Rightarrow> bool"
    and extend :: "permission list \<Rightarrow> 'c \<Rightarrow> 'c"
    and wf :: "'c \<Rightarrow> bool"
  assumes wf_extend: "wf c \<Longrightarrow> wf (extend ps c)"
    and no_wildcard: "wf c \<Longrightarrow> \<not> known c wildcard"
    and known_extend: "known c code \<Longrightarrow> known (extend ps c) code"
begin

lemma fold_extend_wf: "wf c \<Longrightarrow> wf (fold extend pss c)"
  by (induction pss arbitrary: c) (auto simp: wf_extend)

lemma never_grants_wildcard: "wf c \<Longrightarrow> \<not> known (fold extend pss c) wildcard"
  using fold_extend_wf no_wildcard by blast

lemma known_stays: "known c code \<Longrightarrow> known (fold extend pss c) code"
  by (induction pss arbitrary: c) (auto simp: known_extend)

end

interpretation catalog: permission_registry permission_exists register_permissions wf_catalog
proof unfold_locales
  show "wf_catalog (register_permissions ps c)" if "wf_catalog c" for c ps
    using that by (rule wf_register_permissions)
  show "\<not> permission_exists c wildcard" if "wf_catalog c" for c
    using that by (auto simp: permission_exists_iff wf_catalog_def)
  show "permission_exists (register_permissions ps c) code" if "permission_exists c code" for c code ps
    using that by (auto simp: permission_exists_iff set_register_permissions)
qed

subsection \<open>Effective grants: what is granted\<close>

definition granted :: "int \<Rightarrow> role_grant list \<Rightarrow> perm_grant list \<Rightarrow> string \<Rightarrow> bool" where
  "granted now rgs pgs p \<longleftrightarrow>
     (\<exists>g \<in> set rgs. grant_alive now (rg_expires_at g) \<and> p \<in> set (rl_perms (rg_role g))) \<or>
     (\<exists>g \<in> set pgs. grant_alive now (pg_expires_at g) \<and> pg_permission g = p)"

lemma fold_insert_set: "fold insert xs s = set xs \<union> s"
  by (induction xs arbitrary: s) auto

lemma fold_role_perms:
  "fold (\<lambda>g s. fold insert (rl_perms (rg_role g)) s) gs s = s \<union> (\<Union>g \<in> set gs. set (rl_perms (rg_role g)))"
  by (induction gs arbitrary: s) (auto simp: fold_insert_set)

lemma fold_direct_perms:
  "fold (\<lambda>g s. if grant_alive now (pg_expires_at g) then insert (pg_permission g) s else s) gs s =
     s \<union> {pg_permission g | g. g \<in> set gs \<and> grant_alive now (pg_expires_at g)}"
  by (induction gs arbitrary: s) auto

lemma effective_permissions:
  "ef_permissions (effective now dr gr dp gids) =
     (if granted now (dr @ gr) dp wildcard then {wildcard} else {p. granted now (dr @ gr) dp p})"
  unfolding effective_def Let_def fold_role_perms fold_direct_perms granted_def by auto

lemma granted_antimono:
  "now \<le> now' \<Longrightarrow> granted now' rgs pgs p \<Longrightarrow> granted now rgs pgs p"
  by (fastforce simp: granted_def grant_alive_def split: option.splits)

end
