(* ===== verification/Schedule.thy ===== *)
theory Schedule
  imports Civil_Time Db Paging Authz
begin

text \<open>
  Bell-time regimes (\<open>internal/schedule\<close>): the regime and period tables with their store
  operations, the validation of API input, the choice of the regime that is active on a date
  (\<open>ActiveFor\<close>) and the HTTP handlers. PostgreSQL's text form of a TIME value is the parameter
  \<open>pg_time\<close>; the clock of \<open>created_at\<close> is a parameter too.
\<close>

subsection \<open>Data\<close>

record period =
  pd_id :: int
  pd_regime_id :: int
  pd_index :: int
  pd_start :: string
  pd_end :: string

record regime =
  re_id :: int
  re_name :: string
  re_month :: int
  re_day :: int
  re_created_at :: int
  re_periods :: "period list"

record regime_input =
  ri_name :: string
  ri_month :: int
  ri_day :: int

record period_input =
  pi_index :: int
  pi_start :: string
  pi_end :: string

datatype sched_error = RegimeNotFound | NameTaken | SchedDb string

record sched_db =
  sd_regimes :: "regime list"
  sd_periods :: "period list"
  sd_next_regime :: int
  sd_next_period :: int

text \<open>In the regime table the \<open>re_periods\<close> field is unused and empty; it is filled on reading.\<close>

definition sched_empty :: sched_db where
  "sched_empty = \<lparr>sd_regimes = [], sd_periods = [], sd_next_regime = 1, sd_next_period = 1\<rparr>"

definition zero_regime :: regime where
  "zero_regime = \<lparr>re_id = 0, re_name = [], re_month = 0, re_day = 0, re_created_at = 0,
     re_periods = []\<rparr>"

subsection \<open>The active regime of a date\<close>

definition regime_md :: "regime \<Rightarrow> int" where
  "regime_md r = re_month r * 100 + re_day r"

text \<open>The loop state of \<open>ActiveFor\<close>.\<close>

record active_state =
  as_active :: regime
  as_active_md :: int
  as_found :: bool
  as_latest :: regime
  as_latest_md :: int

definition active_init :: active_state where
  "active_init = \<lparr>as_active = zero_regime, as_active_md = -1, as_found = False,
     as_latest = zero_regime, as_latest_md = -1\<rparr>"

definition active_step :: "int \<Rightarrow> regime \<Rightarrow> active_state \<Rightarrow> active_state" where
  "active_step today r st =
     (let md = regime_md r;
          st = (if md > as_latest_md st then st\<lparr>as_latest_md := md, as_latest := r\<rparr> else st)
      in if md \<le> today \<and> md > as_active_md st
         then st\<lparr>as_active_md := md, as_active := r, as_found := True\<rparr> else st)"

definition active_for :: "regime list \<Rightarrow> int \<Rightarrow> regime option" where
  "active_for regimes date =
     (if regimes = [] then None
      else let today = month_of date * 100 + day_of date;
               st = fold (active_step today) regimes active_init
           in if as_found st then Some (as_active st) else Some (as_latest st))"

definition period_index_set :: "regime \<Rightarrow> int set" where
  "period_index_set r = set (map pd_index (re_periods r))"

definition trim_seconds :: "string \<Rightarrow> string" where
  "trim_seconds s = (if length s \<ge> 8 \<and> s ! 2 = CHR '':'' then take 5 s else s)"

subsection \<open>Validation\<close>

text \<open>
  \<open>time.Parse\<close> with the layouts \<open>15:04:05\<close> and \<open>15:04\<close>, as nanoseconds of the day: the hour has
  one or two digits, minute and second exactly two, and a fraction may follow the seconds.
\<close>

definition two_digits :: "string \<Rightarrow> (int \<times> string) option" where
  "two_digits s = (case s of
     a # b # t \<Rightarrow> if is_digit a \<and> is_digit b then Some (digits_val [a, b], t) else None
   | _ \<Rightarrow> None)"

definition hour_digits :: "string \<Rightarrow> (int \<times> string) option" where
  "hour_digits s = (case s of
     [] \<Rightarrow> None
   | a # t \<Rightarrow> if \<not> is_digit a then None
       else (case t of b # u \<Rightarrow> if is_digit b then Some (digits_val [a, b], u) else Some (digit_val a, t)
             | [] \<Rightarrow> Some (digit_val a, t)))"

definition skip_colon :: "string \<Rightarrow> string option" where
  "skip_colon s = (case s of c # t \<Rightarrow> if c = CHR '':'' then Some t else None | [] \<Rightarrow> None)"

definition fraction_nanos :: "string \<Rightarrow> (int \<times> string) option" where
  "fraction_nanos s = (case s of
     c # d # t \<Rightarrow>
       if (c = CHR ''.'' \<or> c = CHR '','') \<and> is_digit d
       then let ds = takeWhile is_digit (d # t); ds9 = take 9 ds
            in Some (digits_val ds9 * 10 ^ (9 - length ds9), dropWhile is_digit (d # t))
       else Some (0, s)
   | _ \<Rightarrow> Some (0, s))"

definition parse_hms :: "bool \<Rightarrow> string \<Rightarrow> int option" where
  "parse_hms with_sec s =
     Option.bind (hour_digits s) (\<lambda>(h, s1).
     Option.bind (skip_colon s1) (\<lambda>s2.
     Option.bind (two_digits s2) (\<lambda>(m, s3).
     if h \<ge> 24 \<or> m \<ge> 60 then None
     else if \<not> with_sec then (if s3 = [] then Some ((h * 3600 + m * 60) * 1000000000) else None)
     else Option.bind (skip_colon s3) (\<lambda>s4.
          Option.bind (two_digits s4) (\<lambda>(sec, s5).
          if sec \<ge> 60 then None
          else Option.bind (fraction_nanos s5) (\<lambda>(nanos, s6).
            if s6 = [] then Some ((h * 3600 + m * 60 + sec) * 1000000000 + nanos) else None))))))"

definition parse_time :: "string \<Rightarrow> int option" where
  "parse_time s = (case parse_hms True s of Some t \<Rightarrow> Some t | None \<Rightarrow> parse_hms False s)"

text \<open>A normalizer returns the trimmed input and the error message, if any.\<close>

definition normalize_regime :: "regime_input \<Rightarrow> regime_input \<times> string option" where
  "normalize_regime inp =
     (let inp = inp\<lparr>ri_name := trim_space (ri_name inp)\<rparr> in
      if ri_name inp = [] then (inp, Some ''name is required'')
      else if ri_month inp < 1 \<or> ri_month inp > 12 then (inp, Some ''effectiveMonth must be 1-12'')
      else if ri_day inp < 1 \<or> ri_day inp > 31 then (inp, Some ''effectiveDay must be 1-31'')
      else (inp, max_runes ''name'' (ri_name inp) 32))"

fun normalize_periods_loop :: "int set \<Rightarrow> period_input list \<Rightarrow> string option" where
  "normalize_periods_loop seen [] = None"
| "normalize_periods_loop seen (p # ps) =
     (if pi_index p < 1 then Some ''period index must be >= 1''
      else if pi_index p \<in> seen then Some ''duplicate period index''
      else (case parse_time (pi_start p) of
          None \<Rightarrow> Some ''invalid start time (use HH:MM)''
        | Some start \<Rightarrow> (case parse_time (pi_end p) of
            None \<Rightarrow> Some ''invalid end time (use HH:MM)''
          | Some end' \<Rightarrow>
              if \<not> end' > start then Some ''end time must be after start time''
              else normalize_periods_loop (insert (pi_index p) seen) ps)))"

definition normalize_periods :: "period_input list \<Rightarrow> string option" where
  "normalize_periods ps = normalize_periods_loop {} ps"

subsection \<open>SQL statements\<close>

definition regime_order :: "regime \<Rightarrow> int \<times> int \<times> int" where
  "regime_order r = (re_month r, re_day r, re_id r)"

definition select_regimes :: "sched_db \<Rightarrow> regime list" where
  "select_regimes d = sort_key regime_order (sd_regimes d)"

definition select_regime :: "int \<Rightarrow> sched_db \<Rightarrow> regime option" where
  "select_regime i d = List.find (\<lambda>r. re_id r = i) (sd_regimes d)"

definition select_periods :: "int \<Rightarrow> sched_db \<Rightarrow> period list" where
  "select_periods i d = sort_key pd_index (filter (\<lambda>p. pd_regime_id p = i) (sd_periods d))"

text \<open>\<open>None\<close> is a unique violation of \<open>schedule_regimes.name\<close>.\<close>

definition insert_regime :: "int \<Rightarrow> regime_input \<Rightarrow> sched_db \<Rightarrow> int option \<times> sched_db" where
  "insert_regime now inp d =
     (if ri_name inp \<in> re_name ` set (sd_regimes d)
      then (None, d\<lparr>sd_next_regime := sd_next_regime d + 1\<rparr>)
      else (Some (sd_next_regime d),
        d\<lparr>sd_regimes := sd_regimes d @ [\<lparr>re_id = sd_next_regime d, re_name = ri_name inp,
             re_month = ri_month inp, re_day = ri_day inp, re_created_at = now, re_periods = []\<rparr>],
          sd_next_regime := sd_next_regime d + 1\<rparr>))"

definition update_regime_row :: "int \<Rightarrow> regime_input \<Rightarrow> sched_db \<Rightarrow> bool \<times> sched_db" where
  "update_regime_row i inp d =
     (if i \<in> re_id ` set (sd_regimes d) \<and>
         list_ex (\<lambda>r. re_id r \<noteq> i \<and> re_name r = ri_name inp) (sd_regimes d)
      then (False, d)
      else (True, d\<lparr>sd_regimes := map (\<lambda>r. if re_id r = i
               then r\<lparr>re_name := ri_name inp, re_month := ri_month inp, re_day := ri_day inp\<rparr>
               else r) (sd_regimes d)\<rparr>))"

definition delete_periods :: "int \<Rightarrow> sched_db \<Rightarrow> sched_db" where
  "delete_periods i d = d\<lparr>sd_periods := filter (\<lambda>p. pd_regime_id p \<noteq> i) (sd_periods d)\<rparr>"

definition delete_regime_row :: "int \<Rightarrow> sched_db \<Rightarrow> int \<times> sched_db" where
  "delete_regime_row i d =
     (int (length (filter (\<lambda>r. re_id r = i) (sd_regimes d))),
      d\<lparr>sd_regimes := filter (\<lambda>r. re_id r \<noteq> i) (sd_regimes d)\<rparr>)"

text \<open>
  \<open>False\<close> is a violation of \<open>UNIQUE (regime_id, period_index)\<close> or an index outside INTEGER.
\<close>

definition insert_period ::
  "(string \<Rightarrow> string) \<Rightarrow> int \<Rightarrow> period_input \<Rightarrow> sched_db \<Rightarrow> bool \<times> sched_db" where
  "insert_period pg_time i p d =
     (if \<not> fits32 (pi_index p) \<or>
         list_ex (\<lambda>q. pd_regime_id q = i \<and> pd_index q = pi_index p) (sd_periods d)
      then (False, d\<lparr>sd_next_period := sd_next_period d + 1\<rparr>)
      else (True, d\<lparr>sd_periods := sd_periods d @ [\<lparr>pd_id = sd_next_period d, pd_regime_id = i,
                 pd_index = pi_index p, pd_start = pg_time (pi_start p), pd_end = pg_time (pi_end p)\<rparr>],
               sd_next_period := sd_next_period d + 1\<rparr>))"

subsection \<open>Store operations\<close>

type_synonym 'a sched_action = "(sched_db, sched_error, 'a) action"

definition load_periods :: "int \<Rightarrow> period list sched_action" where
  "load_periods i =
     dbind (query (SchedDb ''list periods'') (select_periods i)) (\<lambda>ps.
     dret (map (\<lambda>p. p\<lparr>pd_start := trim_seconds (pd_start p), pd_end := trim_seconds (pd_end p)\<rparr>) ps))"

definition attach_periods :: "regime \<Rightarrow> regime sched_action" where
  "attach_periods r = dbind (load_periods (re_id r)) (\<lambda>ps. dret (r\<lparr>re_periods := ps\<rparr>))"

definition list_regimes :: "regime list sched_action" where
  "list_regimes =
     dbind (query (SchedDb ''list regimes'') select_regimes) (dtraverse attach_periods)"

definition regimes_where :: "string \<Rightarrow> string \<times> sql_arg list" where
  "regimes_where q =
     (let w = '' WHERE 1=1'' in
      if q = [] then (w, [])
      else let (ph, args) = bind_arg [] (AStr (like_pattern (escape_like q)))
           in (w @ '' AND name ILIKE '' @ ph, args))"

text \<open>
  \<open>PageRegimes\<close>: the condition of \<open>regimes_where\<close>, the order, then LIMIT and OFFSET (an offset
  below zero is rejected by PostgreSQL, which is the \<open>None\<close> of the query).
\<close>

definition regime_matches :: "(char \<Rightarrow> char \<Rightarrow> bool) \<Rightarrow> string \<Rightarrow> regime \<Rightarrow> bool" where
  "regime_matches eq q r \<longleftrightarrow> q = [] \<or> like eq (like_pattern (escape_like q)) (re_name r)"

definition page_regimes ::
  "(char \<Rightarrow> char \<Rightarrow> bool) \<Rightarrow> string \<Rightarrow> pagination \<Rightarrow> (regime list \<times> int) sched_action" where
  "page_regimes eq q p =
     dbind (query (SchedDb ''page regimes'')
              (\<lambda>d. limit_rows p (filter (regime_matches eq q) (select_regimes d)))) (\<lambda>rows.
     case rows of None \<Rightarrow> draise (SchedDb ''page regimes'')
     | Some rs \<Rightarrow>
       dbind (dtraverse attach_periods rs) (\<lambda>regimes.
       dbind (query (SchedDb ''count rows'')
                (\<lambda>d. int (length (filter (regime_matches eq q) (sd_regimes d))))) (\<lambda>total.
       dret (regimes, total))))"

definition get_regime :: "int \<Rightarrow> regime sched_action" where
  "get_regime i =
     dbind (query (SchedDb ''get regime'') (select_regime i)) (\<lambda>r.
     case r of None \<Rightarrow> draise RegimeNotFound | Some r \<Rightarrow> attach_periods r)"

definition create_regime :: "int \<Rightarrow> regime_input \<Rightarrow> regime sched_action" where
  "create_regime now inp =
     dbind (stmt (SchedDb ''create regime'') (insert_regime now inp)) (\<lambda>r.
     case r of None \<Rightarrow> draise NameTaken | Some i \<Rightarrow> get_regime i)"

definition update_regime :: "int \<Rightarrow> regime_input \<Rightarrow> regime sched_action" where
  "update_regime i inp =
     dbind (stmt (SchedDb ''update regime'') (update_regime_row i inp)) (\<lambda>ok.
     if \<not> ok then draise NameTaken else get_regime i)"

definition delete_regime :: "int \<Rightarrow> unit sched_action" where
  "delete_regime i =
     transaction (SchedDb ''begin tx'') (SchedDb ''commit'')
       (dbind (stmt (SchedDb ''delete periods'') (\<lambda>d. ((), delete_periods i d))) (\<lambda>_.
        dbind (stmt (SchedDb ''delete regime'') (delete_regime_row i)) (\<lambda>n.
        if n = 0 then draise RegimeNotFound else dret ())))"

definition replace_periods :: "(string \<Rightarrow> string) \<Rightarrow> int \<Rightarrow> period_input list \<Rightarrow> unit sched_action" where
  "replace_periods pg_time i ps =
     transaction (SchedDb ''begin tx'') (SchedDb ''commit'')
       (dbind (stmt (SchedDb ''delete periods'') (\<lambda>d. ((), delete_periods i d))) (\<lambda>_.
        dmapM (\<lambda>p. dbind (stmt (SchedDb ''insert period'') (insert_period pg_time i p)) (\<lambda>ok.
                   if ok then dret () else draise (SchedDb ''insert period''))) ps))"

definition mk_period_input :: "int \<Rightarrow> string \<Rightarrow> string \<Rightarrow> period_input" where
  "mk_period_input i a b = \<lparr>pi_index = i, pi_start = a, pi_end = b\<rparr>"

definition seed_regimes :: "(regime_input \<times> period_input list) list" where
  "seed_regimes = [
     (\<lparr>ri_name = hx ''e5a48fe4bba4e697b6'', ri_month = 5, ri_day = 1\<rparr>, [
        mk_period_input 1 ''08:00'' ''08:50'',
        mk_period_input 2 ''09:00'' ''09:50'',
        mk_period_input 3 ''10:05'' ''10:55'',
        mk_period_input 4 ''11:05'' ''11:55'',
        mk_period_input 5 ''14:30'' ''15:20'',
        mk_period_input 6 ''15:30'' ''16:20'',
        mk_period_input 7 ''16:35'' ''17:25'',
        mk_period_input 8 ''17:35'' ''18:25'',
        mk_period_input 9 ''19:30'' ''20:20'',
        mk_period_input 10 ''20:30'' ''21:20'']),
     (\<lparr>ri_name = hx ''e586ace4bba4e697b6'', ri_month = 10, ri_day = 1\<rparr>, [
        mk_period_input 1 ''08:00'' ''08:50'',
        mk_period_input 2 ''09:00'' ''09:50'',
        mk_period_input 3 ''10:05'' ''10:55'',
        mk_period_input 4 ''11:05'' ''11:55'',
        mk_period_input 5 ''14:00'' ''14:50'',
        mk_period_input 6 ''15:00'' ''15:50'',
        mk_period_input 7 ''16:05'' ''16:55'',
        mk_period_input 8 ''17:05'' ''17:55'',
        mk_period_input 9 ''19:00'' ''19:50'',
        mk_period_input 10 ''20:00'' ''20:50''])]"

text \<open>
  \<open>Migrate\<close> after the tables exist: \<open>fresh\<close> tells whether this run created them.
\<close>

definition sched_seed :: "(string \<Rightarrow> string) \<Rightarrow> int \<Rightarrow> bool \<Rightarrow> unit sched_action" where
  "sched_seed pg_time now fresh =
     (if \<not> fresh then dret ()
      else dmapM (\<lambda>(inp, ps).
        dbind (create_regime now inp) (\<lambda>r. replace_periods pg_time (re_id r) ps)) seed_regimes)"

subsection \<open>Handlers\<close>

text \<open>
  A handler gets the decoded body (\<open>None\<close> when JSON decoding failed) and the raw path id, and
  returns the answer with the new connection state. The audit summary it leaves in the request
  context is not part of the answer.
\<close>

definition listRegimes_h ::
  "(char \<Rightarrow> char \<Rightarrow> bool) \<Rightarrow> (string \<Rightarrow> string) \<Rightarrow> sched_db conn \<Rightarrow>
   (regime list \<times> int \<times> page_params) response \<times> sched_db conn" where
  "listRegimes_h eq q c =
     (let p = parse_page_params q;
          pg = \<lparr>pg_limit = pp_page_size p, pg_offset = page_offset p\<rparr>
      in case page_regimes eq (parse_search q) pg c of
           (Inl e, c') \<Rightarrow> (RespError 500 ''could not list regimes'', c')
         | (Inr (rs, n), c') \<Rightarrow> (RespJSON 200 (rs, n, p), c'))"

definition createRegime_h ::
  "int \<Rightarrow> regime_input option \<Rightarrow> sched_db conn \<Rightarrow> regime response \<times> sched_db conn" where
  "createRegime_h now body c = (case body of
     None \<Rightarrow> (RespError 400 ''invalid request body'', c)
   | Some inp \<Rightarrow> (case normalize_regime inp of
       (_, Some msg) \<Rightarrow> (RespError 400 msg, c)
     | (inp, None) \<Rightarrow> (case create_regime now inp c of
         (Inl NameTaken, c') \<Rightarrow> (RespError 409 ''regime name already taken'', c')
       | (Inl _, c') \<Rightarrow> (RespError 500 ''could not create regime'', c')
       | (Inr r, c') \<Rightarrow> (RespJSON 201 r, c'))))"

definition getRegime_h :: "string \<Rightarrow> sched_db conn \<Rightarrow> regime response \<times> sched_db conn" where
  "getRegime_h path_id c = (case atoi path_id of
     None \<Rightarrow> (RespError 400 ''invalid regime id'', c)
   | Some i \<Rightarrow> (case get_regime i c of
       (Inl RegimeNotFound, c') \<Rightarrow> (RespError 404 ''regime not found'', c')
     | (Inl _, c') \<Rightarrow> (RespError 500 ''could not load regime'', c')
     | (Inr r, c') \<Rightarrow> (RespJSON 200 r, c')))"

definition updateRegime_h ::
  "string \<Rightarrow> regime_input option \<Rightarrow> sched_db conn \<Rightarrow> regime response \<times> sched_db conn" where
  "updateRegime_h path_id body c = (case atoi path_id of
     None \<Rightarrow> (RespError 400 ''invalid regime id'', c)
   | Some i \<Rightarrow> (case body of
       None \<Rightarrow> (RespError 400 ''invalid request body'', c)
     | Some inp \<Rightarrow> (case normalize_regime inp of
         (_, Some msg) \<Rightarrow> (RespError 400 msg, c)
       | (inp, None) \<Rightarrow> (case update_regime i inp c of
           (Inl NameTaken, c') \<Rightarrow> (RespError 409 ''regime name already taken'', c')
         | (Inl RegimeNotFound, c') \<Rightarrow> (RespError 404 ''regime not found'', c')
         | (Inl _, c') \<Rightarrow> (RespError 500 ''could not update regime'', c')
         | (Inr r, c') \<Rightarrow> (RespJSON 200 r, c')))))"

definition deleteRegime_h :: "string \<Rightarrow> sched_db conn \<Rightarrow> unit response \<times> sched_db conn" where
  "deleteRegime_h path_id c = (case atoi path_id of
     None \<Rightarrow> (RespError 400 ''invalid regime id'', c)
   | Some i \<Rightarrow> (case get_regime i c of
       (Inl RegimeNotFound, c') \<Rightarrow> (RespError 404 ''regime not found'', c')
     | (Inl _, c') \<Rightarrow> (RespError 500 ''could not load regime'', c')
     | (Inr _, c1) \<Rightarrow> (case delete_regime i c1 of
         (Inl RegimeNotFound, c') \<Rightarrow> (RespError 404 ''regime not found'', c')
       | (Inl _, c') \<Rightarrow> (RespError 500 ''could not delete regime'', c')
       | (Inr _, c') \<Rightarrow> (RespJSON 204 (), c'))))"

definition replacePeriods_h ::
  "(string \<Rightarrow> string) \<Rightarrow> string \<Rightarrow> period_input list option \<Rightarrow> sched_db conn \<Rightarrow>
   regime response \<times> sched_db conn" where
  "replacePeriods_h pg_time path_id body c = (case atoi path_id of
     None \<Rightarrow> (RespError 400 ''invalid regime id'', c)
   | Some i \<Rightarrow> (case body of
       None \<Rightarrow> (RespError 400 ''invalid request body'', c)
     | Some ps \<Rightarrow> (case normalize_periods ps of
         Some msg \<Rightarrow> (RespError 400 msg, c)
       | None \<Rightarrow> (case replace_periods pg_time i ps c of
           (Inl _, c') \<Rightarrow> (RespError 500 ''could not save periods'', c')
         | (Inr _, c1) \<Rightarrow> (case get_regime i c1 of
             (Inl RegimeNotFound, c') \<Rightarrow> (RespError 404 ''regime not found'', c')
           | (Inl _, c') \<Rightarrow> (RespError 500 ''could not load regime'', c')
           | (Inr r, c') \<Rightarrow> (RespJSON 200 r, c'))))))"

text \<open>\<open>today\<close> is the date of \<open>time.Now()\<close>, used when the request names no date.\<close>

definition activeRegime_h ::
  "int \<Rightarrow> string \<Rightarrow> sched_db conn \<Rightarrow> regime response \<times> sched_db conn" where
  "activeRegime_h today v c =
     (case (if v = [] then Some today else parse_date v) of
        None \<Rightarrow> (RespError 400 ''invalid date (use YYYY-MM-DD)'', c)
      | Some date \<Rightarrow> (case list_regimes c of
          (Inl _, c') \<Rightarrow> (RespError 500 ''could not list regimes'', c')
        | (Inr rs, c') \<Rightarrow> (case active_for rs date of
            None \<Rightarrow> (RespError 404 ''no schedule regime configured'', c')
          | Some r \<Rightarrow> (RespJSON 200 r, c'))))"

definition exportRegimes_rows :: "regime list \<Rightarrow> (string \<times> int \<times> int \<times> int \<times> string \<times> string) list" where
  "exportRegimes_rows regimes = concat (map (\<lambda>rg. map (\<lambda>p.
     (re_name rg, re_month rg, re_day rg, pd_index p, pd_start p, pd_end p)) (re_periods rg)) regimes)"

text \<open>Routes with the permission that guards them.\<close>

definition schedule_routes :: "(string \<times> string) list" where
  "schedule_routes = [
     (''GET /api/schedule/regimes'', ''course:read''),
     (''POST /api/schedule/regimes'', ''course:manage''),
     (''GET /api/schedule/regimes/export'', ''course:read''),
     (''GET /api/schedule/regimes/{id}'', ''course:read''),
     (''PUT /api/schedule/regimes/{id}'', ''course:manage''),
     (''DELETE /api/schedule/regimes/{id}'', ''course:manage''),
     (''PUT /api/schedule/regimes/{id}/periods'', ''course:manage''),
     (''GET /api/schedule/active'', ''course:read'')]"


subsection \<open>Correctness of the regime choice\<close>

definition today_md :: "int \<Rightarrow> int" where
  "today_md date = month_of date * 100 + day_of date"

definition active_inv :: "int \<Rightarrow> regime list \<Rightarrow> active_state \<Rightarrow> bool" where
  "active_inv today rs st \<longleftrightarrow>
     (\<forall>r \<in> set rs. regime_md r \<le> as_latest_md st) \<and>
     (if rs = [] then as_latest_md st = -1
      else as_latest st \<in> set rs \<and> regime_md (as_latest st) = as_latest_md st) \<and>
     (\<forall>r \<in> set rs. regime_md r \<le> today \<longrightarrow> regime_md r \<le> as_active_md st) \<and>
     (if as_found st
      then as_active st \<in> set rs \<and> regime_md (as_active st) = as_active_md st \<and> as_active_md st \<le> today
      else as_active_md st = -1)"

lemma active_inv_fold:
  assumes "\<forall>r \<in> set rs. 0 \<le> regime_md r"
  shows "active_inv today rs (fold (active_step today) rs active_init)"
  using assms
proof (induction rs rule: rev_induct)
  case Nil
  then show ?case by (simp add: active_inv_def active_init_def)
next
  case (snoc r rs)
  then have "active_inv today rs (fold (active_step today) rs active_init)" and r: "0 \<le> regime_md r"
    by auto
  then show ?case
    unfolding fold_append comp_def fold.simps id_apply
    by (auto simp: active_inv_def active_step_def Let_def split: if_splits)
qed

lemma active_for_spec:
  assumes "rs \<noteq> []" and "\<forall>r \<in> set rs. 0 \<le> regime_md r"
  shows "\<exists>r \<in> set rs. active_for rs date = Some r \<and>
    (if \<exists>q \<in> set rs. regime_md q \<le> today_md date
     then regime_md r \<le> today_md date \<and>
          (\<forall>q \<in> set rs. regime_md q \<le> today_md date \<longrightarrow> regime_md q \<le> regime_md r)
     else \<forall>q \<in> set rs. regime_md q \<le> regime_md r)"
proof -
  let ?st = "fold (active_step (today_md date)) rs active_init"
  have inv: "active_inv (today_md date) rs ?st" using active_inv_fold assms(2) .
  have res: "active_for rs date = (if as_found ?st then Some (as_active ?st) else Some (as_latest ?st))"
    using assms(1) by (simp add: active_for_def today_md_def Let_def)
  show ?thesis
  proof (cases "as_found ?st")
    case True
    then show ?thesis using inv res
      by (intro bexI [of _ "as_active ?st"]) (auto simp: active_inv_def)
  next
    case False
    then have "as_active_md ?st = -1" using inv by (simp add: active_inv_def)
    then have "\<forall>q \<in> set rs. \<not> regime_md q \<le> today_md date"
      using inv assms(2) by (force simp: active_inv_def)
    then show ?thesis using False inv res assms(1)
      by (intro bexI [of _ "as_latest ?st"]) (auto simp: active_inv_def)
  qed
qed

lemma active_for_None: "active_for rs date = None \<longleftrightarrow> rs = []"
  by (simp add: active_for_def Let_def)

lemma active_for_mem:
  "\<forall>r \<in> set rs. 0 \<le> regime_md r \<Longrightarrow> active_for rs date = Some r \<Longrightarrow> r \<in> set rs"
  using active_for_spec [of rs date] active_for_None [of rs date] by auto

subsection \<open>The calendar interface\<close>

text \<open>
  Booking validation and the timetable splitter ask the same two questions: which regime is
  active on a date, and which periods has it. They then scan a period range with the loop
  \<open>for i := a; i <= b; i++ { if !valid[i] { return ... } }\<close>, whose result this interface fixes.
  Period numbers come from an INTEGER column, so the scan stops long before \<open>i\<close> could wrap.
\<close>

function first_missing :: "int set \<Rightarrow> int \<Rightarrow> int \<Rightarrow> int option" where
  "first_missing valid i b =
     (if i \<le> b then (if i \<notin> valid then Some i else first_missing valid (i + 1) b) else None)"
  by pat_completeness auto
termination
  by (relation "measure (\<lambda>(_, i, b). nat (b + 1 - i))") auto

declare first_missing.simps [simp del]

lemma first_missing_None: "first_missing valid i b = None \<longleftrightarrow> {i..b} \<subseteq> valid"
proof (induction valid i b rule: first_missing.induct)
  case (1 valid i b)
  have "{i..b} = (if i \<le> b then insert i {i + 1..b} else {})" by auto
  with 1 show ?case by (auto simp: first_missing.simps [of valid i b])
qed

lemma first_missing_Some: "first_missing valid i b = Some k \<Longrightarrow> i \<le> k \<and> k \<le> b \<and> k \<notin> valid"
proof (induction valid i b rule: first_missing.induct)
  case (1 valid i b)
  then show ?case
    by (auto simp: first_missing.simps [of valid i b] split: if_splits)
qed

locale period_calendar =
  fixes active :: "'r list \<Rightarrow> int \<Rightarrow> 'r option"
    and slots :: "'r \<Rightarrow> int set"
    and usable :: "'r \<Rightarrow> bool"
  assumes no_regime: "active rs d = None \<longleftrightarrow> rs = []"
    and active_listed: "\<forall>r \<in> set rs. usable r \<Longrightarrow> active rs d = Some r \<Longrightarrow> r \<in> set rs"
begin

text \<open>The range scan of the clients accepts exactly the ranges the active regime contains.\<close>

lemma scan_accepts:
  "(case active rs d of None \<Rightarrow> False | Some r \<Rightarrow> first_missing (slots r) a b = None) \<longleftrightarrow>
     (\<exists>r. active rs d = Some r \<and> {a..b} \<subseteq> slots r)"
  by (auto simp: first_missing_None split: option.splits)

lemma scan_needs_regime:
  "(\<exists>r. active rs d = Some r \<and> {a..b} \<subseteq> slots r) \<Longrightarrow> rs \<noteq> []"
  using no_regime by (metis option.distinct(1))

lemma scan_uses_listed:
  assumes "\<forall>r \<in> set rs. usable r" and "\<exists>r. active rs d = Some r \<and> {a..b} \<subseteq> slots r"
  shows "\<exists>r \<in> set rs. {a..b} \<subseteq> slots r"
  using assms active_listed by blast

end

interpretation bell: period_calendar active_for period_index_set "\<lambda>r. 0 \<le> regime_md r"
  by unfold_locales (auto simp: active_for_None intro: active_for_mem)

subsection \<open>Validation\<close>

definition good_period :: "period_input \<Rightarrow> bool" where
  "good_period p \<longleftrightarrow> 1 \<le> pi_index p \<and>
     (\<exists>a b. parse_time (pi_start p) = Some a \<and> parse_time (pi_end p) = Some b \<and> a < b)"

lemma normalize_periods_loop_None:
  "normalize_periods_loop seen ps = None \<longleftrightarrow>
     (\<forall>p \<in> set ps. good_period p) \<and> distinct (map pi_index ps) \<and> pi_index ` set ps \<inter> seen = {}"
proof (induction seen ps rule: normalize_periods_loop.induct)
  case (1 seen)
  then show ?case by simp
next
  case (2 seen p ps)
  show ?case
  proof (cases "good_period p \<and> pi_index p \<notin> seen")
    case False
    then show ?thesis by (auto simp: good_period_def split: option.splits)
  next
    case True
    then obtain a b where "1 \<le> pi_index p" "pi_index p \<notin> seen" "parse_time (pi_start p) = Some a"
      "parse_time (pi_end p) = Some b" "a < b" by (auto simp: good_period_def)
    with "2" have "normalize_periods_loop seen (p # ps) = None \<longleftrightarrow>
        (\<forall>p \<in> set ps. good_period p) \<and> distinct (map pi_index ps) \<and>
        pi_index ` set ps \<inter> insert (pi_index p) seen = {}" by auto
    with True show ?thesis by auto
  qed
qed

lemma normalize_periods_None:
  "normalize_periods ps = None \<longleftrightarrow> (\<forall>p \<in> set ps. good_period p) \<and> distinct (map pi_index ps)"
  by (simp add: normalize_periods_def normalize_periods_loop_None)

subsection \<open>The table invariant\<close>

definition sched_inv :: "sched_db \<Rightarrow> bool" where
  "sched_inv d \<longleftrightarrow>
     distinct (map re_id (sd_regimes d)) \<and> distinct (map re_name (sd_regimes d)) \<and>
     (\<forall>r \<in> set (sd_regimes d). re_id r < sd_next_regime d) \<and>
     distinct (map (\<lambda>p. (pd_regime_id p, pd_index p)) (sd_periods d))"

lemma sched_inv_empty: "sched_inv sched_empty"
  by (simp add: sched_inv_def sched_empty_def)

lemma sched_inv_insert_regime: "sched_inv d \<Longrightarrow> sched_inv (snd (insert_regime now inp d))"
  by (auto simp: sched_inv_def insert_regime_def)

lemma sched_inv_update_regime: "sched_inv d \<Longrightarrow> sched_inv (snd (update_regime_row i inp d))"
proof -
  assume inv: "sched_inv d"
  let ?h = "\<lambda>r. r\<lparr>re_name := ri_name inp, re_month := ri_month inp, re_day := ri_day inp\<rparr>"
  let ?rs = "map (\<lambda>r. if re_id r = i then ?h r else r) (sd_regimes d)"
  show ?thesis
  proof (cases "i \<in> re_id ` set (sd_regimes d) \<and>
         list_ex (\<lambda>r. re_id r \<noteq> i \<and> re_name r = ri_name inp) (sd_regimes d)")
    case True
    with inv show ?thesis by (simp add: update_regime_row_def)
  next
    case False
    have eq: "snd (update_regime_row i inp d) = d\<lparr>sd_regimes := ?rs\<rparr>"
      using False by (auto simp: update_regime_row_def)
    have "map re_id ?rs = map re_id (sd_regimes d)" by simp
    then have "distinct (map re_id ?rs)" using inv by (simp only: sched_inv_def)
    moreover have "distinct (map re_name ?rs)"
    proof (cases "i \<in> re_id ` set (sd_regimes d)")
      case True
      then show ?thesis
        by (intro distinct_map_update_rows [where v = "ri_name inp"])
          (use inv False in \<open>auto simp: sched_inv_def list_ex_iff\<close>)
    next
      case no: False
      have "?rs = sd_regimes d" by (rule map_idI) (use no in auto)
      with inv show ?thesis by (simp only: sched_inv_def)
    qed
    moreover have "\<forall>r \<in> set ?rs. re_id r < sd_next_regime d"
      using inv by (auto simp: sched_inv_def)
    ultimately show ?thesis unfolding eq using inv by (simp add: sched_inv_def)
  qed
qed

lemma sched_inv_deletes:
  "sched_inv d \<Longrightarrow> sched_inv (delete_periods i d)"
  "sched_inv d \<Longrightarrow> sched_inv (snd (delete_regime_row i d))"
  by (auto simp: sched_inv_def delete_periods_def delete_regime_row_def distinct_map_filter)

lemma sched_inv_insert_period: "sched_inv d \<Longrightarrow> sched_inv (snd (insert_period pg_time i p d))"
  by (auto simp: sched_inv_def insert_period_def list_ex_iff)

lemma keeps_attach_periods [keeps_intros]: "keeps P (attach_periods r)"
  unfolding attach_periods_def load_periods_def by (intro keeps_intros)

lemma keeps_reads [keeps_intros]:
  "keeps P list_regimes" "keeps P (page_regimes eq q p)" "keeps P (get_regime i)"
  unfolding list_regimes_def page_regimes_def get_regime_def by (intro keeps_intros)+

lemma keeps_sched_inv [keeps_intros]:
  "keeps sched_inv (create_regime now inp)" "keeps sched_inv (update_regime i inp)"
  "keeps sched_inv (delete_regime i)" "keeps sched_inv (replace_periods pg_time i ps)"
  unfolding create_regime_def update_regime_def delete_regime_def replace_periods_def
  by (intro keeps_intros; simp add: sched_inv_insert_regime sched_inv_update_regime
      sched_inv_deletes sched_inv_insert_period)+

lemma keeps_sched_seed: "keeps sched_inv (sched_seed pg_time now fresh)"
  unfolding sched_seed_def by (auto intro!: keeps_intros split: prod.splits)

subsection \<open>Replacing the periods of a regime\<close>

definition period_row :: "(string \<Rightarrow> string) \<Rightarrow> period_input \<Rightarrow> int \<times> string \<times> string" where
  "period_row pg_time p = (pi_index p, pg_time (pi_start p), pg_time (pi_end p))"

definition row_view :: "period \<Rightarrow> int \<times> string \<times> string" where
  "row_view p = (pd_index p, pd_start p, pd_end p)"

lemma insert_periods_healthy:
  assumes "distinct (map pi_index ps)" and "\<forall>p \<in> set ps. fits32 (pi_index p)"
    and "\<forall>p \<in> set ps. \<forall>q \<in> set (sd_periods d). pd_regime_id q = i \<longrightarrow> pd_index q \<noteq> pi_index p"
  shows "\<exists>new n. dmapM (\<lambda>p. dbind (stmt (SchedDb ''insert period'') (insert_period pg_time i p)) (\<lambda>ok.
            if ok then dret () else draise (SchedDb ''insert period''))) ps (healthy d) =
          (Inr (), healthy (d\<lparr>sd_periods := sd_periods d @ new, sd_next_period := n\<rparr>)) \<and>
        map row_view new = map (period_row pg_time) ps \<and> (\<forall>q \<in> set new. pd_regime_id q = i)"
  using assms
proof (induction ps arbitrary: d)
  case Nil
  show ?case by (intro exI [of _ "[]"] exI [of _ "sd_next_period d"]) simp
next
  case (Cons p ps)
  let ?row = "\<lparr>pd_id = sd_next_period d, pd_regime_id = i, pd_index = pi_index p,
     pd_start = pg_time (pi_start p), pd_end = pg_time (pi_end p)\<rparr>"
  let ?d = "d\<lparr>sd_periods := sd_periods d @ [?row], sd_next_period := sd_next_period d + 1\<rparr>"
  have ins: "insert_period pg_time i p d = (True, ?d)"
    using Cons.prems(2,3) by (auto simp: insert_period_def list_ex_iff)
  have "\<forall>p' \<in> set ps. \<forall>q \<in> set (sd_periods ?d). pd_regime_id q = i \<longrightarrow> pd_index q \<noteq> pi_index p'"
    using Cons.prems by auto
  from Cons.IH [OF _ _ this] Cons.prems(1,2) obtain new n where IH:
    "dmapM (\<lambda>p. dbind (stmt (SchedDb ''insert period'') (insert_period pg_time i p)) (\<lambda>ok.
        if ok then dret () else draise (SchedDb ''insert period''))) ps (healthy ?d) =
      (Inr (), healthy (?d\<lparr>sd_periods := sd_periods ?d @ new, sd_next_period := n\<rparr>))"
    "map row_view new = map (period_row pg_time) ps" "\<forall>q \<in> set new. pd_regime_id q = i" by auto
  have "row_view ?row = period_row pg_time p" by (simp add: row_view_def period_row_def)
  then show ?case
    by (intro exI [of _ "?row # new"] exI [of _ n]) (use IH ins in simp)
qed

lemma replace_periods_healthy:
  assumes "normalize_periods ps = None" and "\<forall>p \<in> set ps. fits32 (pi_index p)"
  shows "\<exists>new n. replace_periods pg_time i ps (healthy d) =
      (Inr (), healthy (d\<lparr>sd_periods := filter (\<lambda>p. pd_regime_id p \<noteq> i) (sd_periods d) @ new,
                          sd_next_period := n\<rparr>)) \<and>
    map row_view new = map (period_row pg_time) ps \<and> (\<forall>q \<in> set new. pd_regime_id q = i)"
proof -
  let ?d = "delete_periods i d"
  have "distinct (map pi_index ps)" using assms(1) by (simp add: normalize_periods_None)
  moreover have "\<forall>p \<in> set ps. \<forall>q \<in> set (sd_periods ?d). pd_regime_id q = i \<longrightarrow> pd_index q \<noteq> pi_index p"
    by (simp add: delete_periods_def)
  ultimately obtain new n where n:
    "dmapM (\<lambda>p. dbind (stmt (SchedDb ''insert period'') (insert_period pg_time i p)) (\<lambda>ok.
        if ok then dret () else draise (SchedDb ''insert period''))) ps (healthy ?d) =
      (Inr (), healthy (?d\<lparr>sd_periods := sd_periods ?d @ new, sd_next_period := n\<rparr>))"
    "map row_view new = map (period_row pg_time) ps" "\<forall>q \<in> set new. pd_regime_id q = i"
    using insert_periods_healthy assms(2) by blast
  have "replace_periods pg_time i ps (healthy d) =
      (Inr (), healthy (?d\<lparr>sd_periods := sd_periods ?d @ new, sd_next_period := n\<rparr>))"
    by (simp add: replace_periods_def transaction_healthy n(1))
  with n(2,3) show ?thesis by (auto simp: delete_periods_def)
qed

lemma find_None_ids: "List.find (\<lambda>r. re_id r = i) rs = None \<longleftrightarrow> i \<notin> re_id ` set rs"
  by (auto simp: find_None_iff)

lemma get_regime_healthy_None:
  "i \<notin> re_id ` set (sd_regimes d) \<Longrightarrow> get_regime i (healthy d) = (Inl RegimeNotFound, healthy d)"
  by (simp add: get_regime_def select_regime_def find_None_ids [THEN iffD2])

definition read_regime :: "sched_db \<Rightarrow> regime \<Rightarrow> regime" where
  "read_regime d r = r\<lparr>re_periods := map (\<lambda>p. p\<lparr>pd_start := trim_seconds (pd_start p),
     pd_end := trim_seconds (pd_end p)\<rparr>) (select_periods (re_id r) d)\<rparr>"

lemma attach_periods_healthy: "attach_periods r (healthy d) = (Inr (read_regime d r), healthy d)"
  by (simp add: attach_periods_def load_periods_def read_regime_def dbind_def)

lemma list_regimes_healthy:
  "list_regimes (healthy d) = (Inr (map (read_regime d) (select_regimes d)), healthy d)"
  unfolding list_regimes_def dbind_query_healthy
  by (rule dtraverse_healthy) (rule attach_periods_healthy)

lemma get_regime_healthy_Some:
  assumes "r \<in> set (sd_regimes d)" and "re_id r = i" and "distinct (map re_id (sd_regimes d))"
  shows "get_regime i (healthy d) = (Inr (read_regime d r), healthy d)"
proof -
  have "List.find (\<lambda>r. re_id r = i) (sd_regimes d) = Some r"
    using find_unique [OF assms(1,3)] assms(2) by simp
  then show ?thesis by (simp add: get_regime_def select_regime_def attach_periods_healthy)
qed


lemma handler_sched_error [handler_intros]:
  "(e = RegimeNotFound \<Longrightarrow> P (tables (snd a))) \<Longrightarrow> (e = NameTaken \<Longrightarrow> P (tables (snd b))) \<Longrightarrow>
   (\<And>s. e = SchedDb s \<Longrightarrow> P (tables (snd (f s)))) \<Longrightarrow>
   P (tables (snd (case e of RegimeNotFound \<Rightarrow> a | NameTaken \<Rightarrow> b | SchedDb s \<Rightarrow> f s)))"
  by (cases e) auto

lemma clean_schedule [clean_intros]:
  "clean (get_regime i)" "clean list_regimes" "clean (replace_periods pg_time i ps)"
  unfolding get_regime_def list_regimes_def replace_periods_def attach_periods_def load_periods_def
  by (intro clean_intros)+

lemma replace_periods_failed: "replace_periods pg_time i ps c = (Inl e, c') \<Longrightarrow> tables c' = tables c"
  unfolding replace_periods_def by (rule transaction_atomic)

lemma read_regime_other:
  assumes "filter (\<lambda>p. pd_regime_id p = re_id r) (sd_periods d') = filter (\<lambda>p. pd_regime_id p = re_id r) (sd_periods d)"
  shows "read_regime d' r = read_regime d r"
  using assms by (simp add: read_regime_def select_periods_def)

lemmas sched_inv_simps = sched_inv_insert_regime sched_inv_update_regime sched_inv_deletes
  sched_inv_insert_period

text \<open>What the regime of a date has to be: the abstract contract of the choice.\<close>

definition active_choice :: "regime list \<Rightarrow> int \<Rightarrow> regime \<Rightarrow> bool" where
  "active_choice rs date r \<longleftrightarrow> r \<in> set rs \<and>
     (if \<exists>q \<in> set rs. regime_md q \<le> today_md date
      then regime_md r \<le> today_md date \<and>
        (\<forall>q \<in> set rs. regime_md q \<le> today_md date \<longrightarrow> regime_md q \<le> regime_md r)
      else \<forall>q \<in> set rs. regime_md q \<le> regime_md r)"

lemma active_choice_read:
  "active_choice (map (read_regime d) (select_regimes d)) date (read_regime d r) \<Longrightarrow> r \<in> set (sd_regimes d) \<Longrightarrow>
   active_choice (sd_regimes d) date r"
  by (auto simp: active_choice_def select_regimes_def regime_md_def read_regime_def split: if_splits)

lemma active_for_read:
  assumes "\<forall>r \<in> set (sd_regimes d). 1 \<le> re_month r \<and> 1 \<le> re_day r" and "sd_regimes d \<noteq> []"
  shows "\<exists>r. active_for (map (read_regime d) (select_regimes d)) date = Some (read_regime d r) \<and>
    active_choice (sd_regimes d) date r"
proof -
  let ?rs = "map (read_regime d) (select_regimes d)"
  have "?rs \<noteq> []" using assms(2) by (metis mset_sort mset_zero_iff map_is_Nil_conv select_regimes_def)
  moreover have "\<forall>r \<in> set ?rs. 0 \<le> regime_md r"
    using assms(1) by (fastforce simp: select_regimes_def regime_md_def read_regime_def)
  ultimately obtain r where r: "r \<in> set ?rs" "active_for ?rs date = Some r" and "active_choice ?rs date r"
    using active_for_spec [of ?rs date] unfolding active_choice_def by blast
  moreover from r(1) obtain r0 where "r0 \<in> set (sd_regimes d)" "r = read_regime d r0"
    by (auto simp: select_regimes_def)
  ultimately show ?thesis using active_choice_read by blast
qed

subsection \<open>Properties\<close>

text \<open>
  C20: the endpoint for the active regime. On a database whose regimes start on real calendar
  days, \<open>GET /api/schedule/active\<close> writes nothing, answers 404 exactly when there is no regime,
  and otherwise answers with a stored regime and its periods: the one with the latest start on or
  before the date, or, before the first start of the year, the one with the latest start of all
  (the regime carried over from the previous year).
\<close>

theorem active_regime_endpoint:
  assumes "\<forall>r \<in> set (sd_regimes d). 1 \<le> re_month r \<and> 1 \<le> re_day r"
    and "v \<noteq> []" and "parse_date v = Some date"
  shows "\<exists>resp. activeRegime_h today v (healthy d) = (resp, healthy d) \<and>
    (if sd_regimes d = [] then resp = RespError 404 ''no schedule regime configured''
     else \<exists>r. resp = RespJSON 200 (read_regime d r) \<and> active_choice (sd_regimes d) date r)"
proof (cases "sd_regimes d = []")
  case True
  then show ?thesis using assms(2,3)
    by (simp add: activeRegime_h_def list_regimes_healthy select_regimes_def active_for_def)
next
  case False
  then obtain r where r: "active_for (map (read_regime d) (select_regimes d)) date = Some (read_regime d r)"
    "active_choice (sd_regimes d) date r" using active_for_read [OF assms(1)] by blast
  show ?thesis
    by (intro exI [of _ "RespJSON 200 (read_regime d r)"])
      (use r assms(2,3) False in \<open>auto simp: activeRegime_h_def list_regimes_healthy\<close>)
qed

definition demo_regimes :: sched_db where
  "demo_regimes = sched_empty\<lparr>sd_regimes := [
     \<lparr>re_id = 1, re_name = ''summer'', re_month = 5, re_day = 1, re_created_at = 0, re_periods = []\<rparr>,
     \<lparr>re_id = 2, re_name = ''winter'', re_month = 10, re_day = 1, re_created_at = 0, re_periods = []\<rparr>],
     sd_next_regime := 3\<rparr>"

lemma parse_demo_date: "parse_date ''2024-03-15'' = Some (days_from_civil 2024 3 15)"
  by code_simp

lemma active_regime_endpoint_witness:
  "\<exists>r. activeRegime_h 0 ''2024-03-15'' (healthy demo_regimes) =
     (RespJSON 200 (read_regime demo_regimes r), healthy demo_regimes) \<and> re_name r = ''winter''"
proof -
  have t: "today_md (days_from_civil 2024 3 15) = 315" by code_simp
  have ne: "sd_regimes demo_regimes \<noteq> []" by (simp add: demo_regimes_def)
  have ok: "\<forall>r \<in> set (sd_regimes demo_regimes). 1 \<le> re_month r \<and> 1 \<le> re_day r"
    by (simp add: demo_regimes_def)
  obtain r where "activeRegime_h 0 ''2024-03-15'' (healthy demo_regimes) =
      (RespJSON 200 (read_regime demo_regimes r), healthy demo_regimes)"
    and "active_choice (sd_regimes demo_regimes) (days_from_civil 2024 3 15) r"
    using active_regime_endpoint [OF ok _ parse_demo_date, of 0] ne by auto
  moreover from this(2) have "re_name r = ''winter''"
    unfolding active_choice_def t by (auto simp: demo_regimes_def regime_md_def)
  ultimately show ?thesis by blast
qed

text \<open>
  The validation of a period list accepts exactly the lists whose indices are distinct and at
  least 1 and whose start and end parse as times of day with the start before the end; the check
  is made before any statement runs, so a rejected list leaves the database alone.
\<close>

theorem replacePeriods_validation:
  "replacePeriods_h pg_time path_id (Some ps) c =
     (if atoi path_id = None then (RespError 400 ''invalid regime id'', c)
      else if distinct (map pi_index ps) \<and> (\<forall>p \<in> set ps. 1 \<le> pi_index p \<and>
          (\<exists>a b. parse_time (pi_start p) = Some a \<and> parse_time (pi_end p) = Some b \<and> a < b))
      then (case replace_periods pg_time (the (atoi path_id)) ps c of
          (Inl _, c') \<Rightarrow> (RespError 500 ''could not save periods'', c')
        | (Inr _, c') \<Rightarrow> getRegime_h path_id c')
      else (RespError 400 (the (normalize_periods ps)), c))"
  using normalize_periods_None [of ps]
  by (cases "atoi path_id"; cases "normalize_periods ps")
    (auto simp: replacePeriods_h_def getRegime_h_def good_period_def split: prod.splits sum.splits sched_error.splits)

text \<open>
  C26: replacing the periods of a regime is all or nothing under any failure of the database. If
  the transaction reports an error, nothing changed; if it reports success, the rows of that
  regime are exactly the given periods in their order, and the regimes and all rows of other
  regimes are untouched.
\<close>

theorem replace_periods_all_or_nothing:
  assumes "normalize_periods ps = None" and "\<forall>p \<in> set ps. fits32 (pi_index p)"
    and "replace_periods pg_time i ps c = (r, c')"
  shows "case r of
      Inl _ \<Rightarrow> tables c' = tables c
    | Inr _ \<Rightarrow> sd_regimes (tables c') = sd_regimes (tables c) \<and>
        map row_view (filter (\<lambda>p. pd_regime_id p = i) (sd_periods (tables c'))) = map (period_row pg_time) ps \<and>
        filter (\<lambda>p. pd_regime_id p \<noteq> i) (sd_periods (tables c')) =
          filter (\<lambda>p. pd_regime_id p \<noteq> i) (sd_periods (tables c))"
proof (cases r)
  case (Inl e)
  with assms(3) replace_periods_failed show ?thesis by fastforce
next
  case (Inr u)
  let ?d = "tables c"
  obtain new n where run: "replace_periods pg_time i ps (healthy ?d) =
      (Inr (), healthy (?d\<lparr>sd_periods := filter (\<lambda>p. pd_regime_id p \<noteq> i) (sd_periods ?d) @ new, sd_next_period := n\<rparr>))"
    and new: "map row_view new = map (period_row pg_time) ps" "\<forall>q \<in> set new. pd_regime_id q = i"
    using replace_periods_healthy [OF assms(1,2)] by metis
  have "replace_periods pg_time i ps (healthy ?d) = (Inr u, healthy (tables c'))"
    using cleanD [OF clean_schedule(3)] assms(3) Inr by blast
  with run have t: "tables c' = ?d\<lparr>sd_periods := filter (\<lambda>p. pd_regime_id p \<noteq> i) (sd_periods ?d) @ new, sd_next_period := n\<rparr>"
    by (metis healthy_def conn.select_convs(1) prod.inject)
  have "filter (\<lambda>p. pd_regime_id p = i) new = new" "filter (\<lambda>p. pd_regime_id p \<noteq> i) new = []"
    using new(2) by (auto simp: filter_id_conv filter_empty_conv)
  with new(1) show ?thesis by (simp add: Inr t)
qed

definition demo_period :: period_input where
  "demo_period = mk_period_input 1 ''08:00'' ''08:50''"

lemma normalize_demo_period: "normalize_periods [demo_period] = None"
  by code_simp

lemma replacePeriods_validation_witness:
  "replacePeriods_h id ''1'' (Some [mk_period_input 0 ''08:00'' ''08:50'']) (healthy demo_regimes) =
     (RespError 400 ''period index must be >= 1'', healthy demo_regimes)"
proof -
  have "atoi ''1'' = Some 1" by code_simp
  moreover have "normalize_periods [mk_period_input 0 ''08:00'' ''08:50''] = Some ''period index must be >= 1''"
    by (simp add: normalize_periods_def mk_period_input_def)
  ultimately show ?thesis
    using replacePeriods_validation [of id "''1''" "[mk_period_input 0 ''08:00'' ''08:50'']" "healthy demo_regimes"]
    by (simp add: mk_period_input_def)
qed

lemma replace_periods_all_or_nothing_witness:
  "\<exists>c'. replace_periods id 1 [demo_period] \<lparr>tables = demo_regimes, faults = [False, False, True]\<rparr> =
     (Inl (SchedDb ''insert period''), c') \<and> tables c' = demo_regimes"
proof -
  let ?c = "\<lparr>tables = demo_regimes, faults = [False, False, True]\<rparr>"
  have run: "fst (replace_periods id 1 [demo_period] ?c) = Inl (SchedDb ''insert period'')"
    by code_simp
  obtain r c' where rc: "replace_periods id 1 [demo_period] ?c = (r, c')" by fastforce
  have "\<forall>p \<in> set [demo_period]. fits32 (pi_index p)"
    by (simp add: demo_period_def mk_period_input_def fits32_def)
  from replace_periods_all_or_nothing [OF normalize_demo_period this rc] run rc show ?thesis by auto
qed

text \<open>
  Every handler that writes keeps the invariant of the two tables, whatever statements fail:
  regime ids and names stay unique, ids stay below the identity counter, and no regime has two
  periods with one index.
\<close>

theorem schedule_handlers_keep_invariant:
  assumes "sched_inv (tables c)"
  shows "sched_inv (tables (snd (createRegime_h now body c))) \<and>
    sched_inv (tables (snd (updateRegime_h path_id body c))) \<and>
    sched_inv (tables (snd (deleteRegime_h path_id c))) \<and>
    sched_inv (tables (snd (replacePeriods_h pg_time path_id ps c)))"
  unfolding createRegime_h_def updateRegime_h_def deleteRegime_h_def replacePeriods_h_def
  by (intro conjI handler_intros [where P = sched_inv] keeps_sched_inv keeps_reads assms; assumption)

lemma schedule_handlers_keep_invariant_witness:
  "sched_inv (tables (snd (replacePeriods_h id ''1'' (Some [demo_period])
     \<lparr>tables = demo_regimes, faults = [False, False, False, False, True]\<rparr>)))"
proof -
  have "sched_inv (tables \<lparr>tables = demo_regimes, faults = [False, False, False, False, True]\<rparr>)"
    by (simp add: sched_inv_def demo_regimes_def sched_empty_def)
  from schedule_handlers_keep_invariant [OF this] show ?thesis by blast
qed

text \<open>
  \<open>PUT /api/schedule/regimes/{id}/periods\<close> for an id without a regime answers 404, yet the
  period rows have been committed, and they belong to whichever regime gets that id later.
\<close>

theorem replacePeriods_orphans:
  assumes "atoi path_id = Some i" and "i \<notin> re_id ` set (sd_regimes d)"
    and "normalize_periods ps = None" and "\<forall>p \<in> set ps. fits32 (pi_index p)"
  shows "\<exists>d'. replacePeriods_h pg_time path_id (Some ps) (healthy d) = (RespError 404 ''regime not found'', healthy d') \<and>
    map row_view (filter (\<lambda>p. pd_regime_id p = i) (sd_periods d')) = map (period_row pg_time) ps"
proof -
  obtain new n where run: "replace_periods pg_time i ps (healthy d) =
      (Inr (), healthy (d\<lparr>sd_periods := filter (\<lambda>p. pd_regime_id p \<noteq> i) (sd_periods d) @ new, sd_next_period := n\<rparr>))"
    and new: "map row_view new = map (period_row pg_time) ps" "\<forall>q \<in> set new. pd_regime_id q = i"
    using replace_periods_healthy [OF assms(3,4)] by metis
  have "filter (\<lambda>p. pd_regime_id p = i) new = new" using new(2) by (simp add: filter_id_conv)
  with run new(1) assms(1,2,3) show ?thesis
    by (intro exI [of _ "d\<lparr>sd_periods := filter (\<lambda>p. pd_regime_id p \<noteq> i) (sd_periods d) @ new, sd_next_period := n\<rparr>"])
      (simp add: replacePeriods_h_def get_regime_healthy_None)
qed

lemma replacePeriods_orphans_witness:
  "\<exists>d'. replacePeriods_h id ''7'' (Some [demo_period]) (healthy demo_regimes) =
     (RespError 404 ''regime not found'', healthy d') \<and> sd_periods d' \<noteq> []"
proof -
  have a: "atoi ''7'' = Some 7" by code_simp
  have b: "7 \<notin> re_id ` set (sd_regimes demo_regimes)" by (simp add: demo_regimes_def)
  have c: "\<forall>p \<in> set [demo_period]. fits32 (pi_index p)"
    by (simp add: demo_period_def mk_period_input_def fits32_def)
  from replacePeriods_orphans [OF a b normalize_demo_period c, of id] show ?thesis by fastforce
qed

end
