(* ===== verification/Campus.thy ===== *)
theory Campus
  imports Schedule
begin

text \<open>
  The tables that rooms, bookings, repairs and course sessions share: one record per row type and
  the database record the stores of these packages work on. Bookings, sessions and repairs refer
  to rooms and users by id without foreign keys, so a read joins the tables and drops a row whose
  partner is missing.
\<close>

subsection \<open>Rows\<close>

record classroom =
  cl_id :: int
  cl_name :: string
  cl_building :: string
  cl_capacity :: int
  cl_type :: string
  cl_floor :: string
  cl_campus :: string
  cl_status :: string
  cl_description :: string
  cl_created_at :: int

text \<open>The columns of the users table that the campus stores join.\<close>

record user_row =
  us_id :: int
  us_username :: string
  us_display_name :: string
  us_type :: string

record booking =
  bk_id :: int
  bk_classroom :: int
  bk_user :: int
  bk_date :: int
  bk_start :: int
  bk_end :: int
  bk_status :: string
  bk_purpose :: string
  bk_created_at :: int
  bk_reviewed_at :: "int option"

record repair =
  rp_id :: int
  rp_classroom :: int
  rp_creator :: int
  rp_assignee :: "int option"
  rp_description :: string
  rp_images :: string
  rp_status :: string
  rp_remark :: string
  rp_created_at :: int
  rp_updated_at :: int

text \<open>Administrative classes, teaching classes with their members, and the roster entries of students.\<close>

record admin_class =
  ac_id :: int
  ac_grade :: string
  ac_name :: string
  ac_note :: string
  ac_created_at :: int

record teaching_class_row =
  tr_id :: int
  tr_name :: string
  tr_note :: string
  tr_created_at :: int

record student_profile =
  pr_user :: int
  pr_class :: int
  pr_student_no :: string
  pr_note :: string

text \<open>Credits are kept in tenths, as the NUMERIC(4,1) column does.\<close>

record catalog_course =
  ca_id :: int
  ca_name :: string
  ca_code :: string
  ca_credits :: int
  ca_total_hours :: int
  ca_category :: string
  ca_exam_type :: string
  ca_description :: string
  ca_created_at :: int

record offering =
  of_id :: int
  of_catalog :: int
  of_teaching_class :: int
  of_teacher :: string
  of_course_seq :: string
  of_teacher_id :: string
  of_teacher_title :: string
  of_college :: string
  of_max_students :: int
  of_requirement :: string
  of_weekly_hours :: int
  of_semester :: string
  of_note :: string
  of_created_at :: int

record session =
  ss_id :: int
  ss_offering :: int
  ss_classroom :: int
  ss_date :: int
  ss_start :: int
  ss_end :: int
  ss_note :: string
  ss_created_at :: int

record campus_db =
  cd_classrooms :: "classroom list"
  cd_users :: "user_row list"
  cd_admin_classes :: "admin_class list"
  cd_teaching_classes :: "teaching_class_row list"
  cd_members :: "(int \<times> int) list"
  cd_profiles :: "student_profile list"
  cd_bookings :: "booking list"
  cd_repairs :: "repair list"
  cd_catalog :: "catalog_course list"
  cd_offerings :: "offering list"
  cd_sessions :: "session list"
  cd_schedule :: sched_db
  cd_next_classroom :: int
  cd_next_booking :: int
  cd_next_repair :: int
  cd_next_admin_class :: int
  cd_next_teaching_class :: int
  cd_next_catalog :: int
  cd_next_offering :: int
  cd_next_session :: int

definition campus_empty :: campus_db where
  "campus_empty = \<lparr>cd_classrooms = [], cd_users = [], cd_admin_classes = [],
     cd_teaching_classes = [], cd_members = [], cd_profiles = [], cd_bookings = [], cd_repairs = [],
     cd_catalog = [], cd_offerings = [], cd_sessions = [], cd_schedule = sched_empty,
     cd_next_classroom = 1, cd_next_booking = 1, cd_next_repair = 1,
     cd_next_admin_class = 1, cd_next_teaching_class = 1, cd_next_catalog = 1, cd_next_offering = 1,
     cd_next_session = 1\<rparr>"

subsection \<open>Joins\<close>

definition find_classroom :: "campus_db \<Rightarrow> int \<Rightarrow> classroom option" where
  "find_classroom d i = List.find (\<lambda>c. cl_id c = i) (cd_classrooms d)"

definition find_user :: "campus_db \<Rightarrow> int \<Rightarrow> user_row option" where
  "find_user d i = List.find (\<lambda>u. us_id u = i) (cd_users d)"

definition find_offering :: "campus_db \<Rightarrow> int \<Rightarrow> offering option" where
  "find_offering d i = List.find (\<lambda>f. of_id f = i) (cd_offerings d)"

definition find_catalog :: "campus_db \<Rightarrow> int \<Rightarrow> catalog_course option" where
  "find_catalog d i = List.find (\<lambda>f. ca_id f = i) (cd_catalog d)"

definition find_admin_class :: "campus_db \<Rightarrow> int \<Rightarrow> admin_class option" where
  "find_admin_class d i = List.find (\<lambda>a. ac_id a = i) (cd_admin_classes d)"

definition find_teaching_class :: "campus_db \<Rightarrow> int \<Rightarrow> teaching_class_row option" where
  "find_teaching_class d i = List.find (\<lambda>t. tr_id t = i) (cd_teaching_classes d)"

text \<open>
  The members of a teaching class as a join of both tables yields them: \<open>ORDER BY grade, name\<close> by
  the database's collation \<open>ck\<close>.
\<close>

definition class_members :: "(string \<Rightarrow> 'k::linorder) \<Rightarrow> campus_db \<Rightarrow> int \<Rightarrow> admin_class list" where
  "class_members ck d t = sort_key (\<lambda>a. (ck (ac_grade a), ck (ac_name a)))
     (List.map_filter (\<lambda>(u, a). if u = t then find_admin_class d a else None) (cd_members d))"

lemma find_classroom_Some: "find_classroom d i = Some c \<Longrightarrow> c \<in> set (cd_classrooms d) \<and> cl_id c = i"
  by (auto simp: find_classroom_def find_Some_iff)

lemma find_classroom_None: "find_classroom d i = None \<longleftrightarrow> i \<notin> cl_id ` set (cd_classrooms d)"
  by (auto simp: find_classroom_def find_None_iff)

lemma find_user_Some: "find_user d i = Some u \<Longrightarrow> u \<in> set (cd_users d) \<and> us_id u = i"
  by (auto simp: find_user_def find_Some_iff)

subsection \<open>Occupancy\<close>

text \<open>
  Sessions and bookings share one conflict model. Two period ranges overlap when
  \<open>period_start <= pe AND period_end >= ps\<close>; a pending or approved booking occupies its slot.
\<close>

definition overlaps :: "int \<Rightarrow> int \<Rightarrow> int \<Rightarrow> int \<Rightarrow> bool" where
  "overlaps s e ps pe \<longleftrightarrow> s \<le> pe \<and> e \<ge> ps"

lemma overlaps_iff:
  "s \<le> e \<Longrightarrow> ps \<le> pe \<Longrightarrow> overlaps s e ps pe \<longleftrightarrow> {s..e} \<inter> {ps..pe} \<noteq> {}"
  by (auto simp: overlaps_def)

lemma overlaps_sym: "overlaps s e ps pe \<longleftrightarrow> overlaps ps pe s e"
  by (auto simp: overlaps_def)

definition active_status :: "string \<Rightarrow> bool" where
  "active_status s \<longleftrightarrow> s = ''pending'' \<or> s = ''approved''"

definition session_in_slot :: "campus_db \<Rightarrow> int \<Rightarrow> int \<Rightarrow> int \<Rightarrow> int \<Rightarrow> bool" where
  "session_in_slot d room date ps pe \<longleftrightarrow>
     list_ex (\<lambda>s. ss_classroom s = room \<and> ss_date s = date \<and> overlaps (ss_start s) (ss_end s) ps pe)
       (cd_sessions d)"

definition booking_in_slot :: "campus_db \<Rightarrow> int \<Rightarrow> int \<Rightarrow> int \<Rightarrow> int \<Rightarrow> bool" where
  "booking_in_slot d room date ps pe \<longleftrightarrow>
     list_ex (\<lambda>b. bk_classroom b = room \<and> bk_date b = date \<and> active_status (bk_status b) \<and>
         overlaps (bk_start b) (bk_end b) ps pe) (cd_bookings d)"

definition slot_free :: "campus_db \<Rightarrow> int \<Rightarrow> int \<Rightarrow> int \<Rightarrow> int \<Rightarrow> bool" where
  "slot_free d room date ps pe \<longleftrightarrow>
     \<not> session_in_slot d room date ps pe \<and> \<not> booking_in_slot d room date ps pe"

end
