(* ===== verification/Repair.thy ===== *)
theory Repair
  imports Campus
begin

text \<open>
  Repair tickets (\<open>internal/classroom/repair*.go\<close>): the store with its status transitions, the
  handlers, and the interleaving of two requests at the level of single statements, because
  \<open>Update\<close> and \<open>Confirm\<close> read a ticket in one statement and write it in another.
\<close>

subsection \<open>Data\<close>

record repair_view =
  rv_repair :: repair
  rv_classroom_name :: string
  rv_building :: string
  rv_creator_name :: string
  rv_assignee_name :: string

record repair_input =
  rin_classroom :: int
  rin_description :: string
  rin_images :: string

record repair_update_input =
  ru_status :: string
  ru_remark :: string

record repair_filter =
  rf_classroom :: int
  rf_status :: string
  rf_statuses :: "string list"

datatype repair_error =
  RepairNotFound | RepairForbidden | RepairOpenExists | RepairState | RoomNotFound | RepairDb string

type_synonym 'a repair_action = "(campus_db, repair_error, 'a) action"

definition json_raw :: "string \<Rightarrow> string \<Rightarrow> string" where
  "json_raw raw dflt = (if raw = [] \<or> raw = ''null'' then dflt else raw)"

definition raw_or_default :: "string \<Rightarrow> string \<Rightarrow> string" where
  "raw_or_default v dflt = (if length v = 0 \<or> v = ''null'' then dflt else v)"

subsection \<open>SQL statements\<close>

text \<open>The join drops a ticket whose room or creator row is missing; the assignee may be missing.\<close>

definition repair_view_of :: "campus_db \<Rightarrow> repair \<Rightarrow> repair_view option" where
  "repair_view_of d r =
     (case (find_classroom d (rp_classroom r), find_user d (rp_creator r)) of
        (Some c, Some u) \<Rightarrow> Some \<lparr>rv_repair = r\<lparr>rp_images := json_raw (rp_images r) ''[]''\<rparr>,
           rv_classroom_name = cl_name c, rv_building = cl_building c,
           rv_creator_name = us_display_name u,
           rv_assignee_name = (case Option.bind (rp_assignee r) (find_user d) of
              None \<Rightarrow> [] | Some a \<Rightarrow> us_display_name a)\<rparr>
      | _ \<Rightarrow> None)"

definition find_repair :: "campus_db \<Rightarrow> int \<Rightarrow> repair option" where
  "find_repair d i = List.find (\<lambda>r. rp_id r = i) (cd_repairs d)"

definition select_repair :: "int \<Rightarrow> campus_db \<Rightarrow> repair_view option" where
  "select_repair i d = Option.bind (find_repair d i) (repair_view_of d)"

definition room_exists :: "int \<Rightarrow> campus_db \<Rightarrow> unit option" where
  "room_exists i d = (case find_classroom d i of None \<Rightarrow> None | Some _ \<Rightarrow> Some ())"

definition open_ticket :: "int \<Rightarrow> campus_db \<Rightarrow> bool" where
  "open_ticket room d \<longleftrightarrow>
     list_ex (\<lambda>r. rp_classroom r = room \<and> (rp_status r = ''open'' \<or> rp_status r = ''processing'')) (cd_repairs d)"

text \<open>PostgreSQL refuses a text with a NUL byte when the parameters are bound.\<close>

definition nul_in :: "string list \<Rightarrow> bool" where
  "nul_in ss \<longleftrightarrow> list_ex (\<lambda>s. CHR 0x00 \<in> set s) ss"

definition insert_repair_row :: "int \<Rightarrow> repair_input \<Rightarrow> int \<Rightarrow> campus_db \<Rightarrow> int option \<times> campus_db" where
  "insert_repair_row now inp creator d =
     (if nul_in [rin_description inp, raw_or_default (rin_images inp) ''[]''] then (None, d)
      else (Some (cd_next_repair d),
        d\<lparr>cd_repairs := cd_repairs d @ [\<lparr>rp_id = cd_next_repair d, rp_classroom = rin_classroom inp,
             rp_creator = creator, rp_assignee = None, rp_description = rin_description inp,
             rp_images = raw_or_default (rin_images inp) ''[]'', rp_status = ''open'', rp_remark = [],
             rp_created_at = now, rp_updated_at = now\<rparr>],
          cd_next_repair := cd_next_repair d + 1\<rparr>))"

definition update_repair_row :: "int \<Rightarrow> int \<Rightarrow> repair_update_input \<Rightarrow> int \<Rightarrow> campus_db \<Rightarrow> bool \<times> campus_db" where
  "update_repair_row now i inp assignee d =
     (if nul_in [ru_status inp, ru_remark inp] then (False, d)
      else (True, d\<lparr>cd_repairs := map (\<lambda>r. if rp_id r = i
        then r\<lparr>rp_status := ru_status inp, rp_remark := ru_remark inp, rp_assignee := Some assignee,
               rp_updated_at := now\<rparr>
        else r) (cd_repairs d)\<rparr>))"

definition confirm_repair_row :: "int \<Rightarrow> int \<Rightarrow> campus_db \<Rightarrow> unit \<times> campus_db" where
  "confirm_repair_row now i d =
     ((), d\<lparr>cd_repairs := map (\<lambda>r. if rp_id r = i \<and> rp_status r = ''completed''
        then r\<lparr>rp_status := ''confirmed'', rp_updated_at := now\<rparr> else r) (cd_repairs d)\<rparr>)"

subsection \<open>Store\<close>

definition get_repair :: "int \<Rightarrow> repair_view repair_action" where
  "get_repair i = query_row (RepairDb ''get repair'') RepairNotFound (select_repair i)"

definition classroom_exists :: "int \<Rightarrow> unit repair_action" where
  "classroom_exists i = query_row (RepairDb ''check classroom exists'') RoomNotFound (room_exists i)"

definition has_open :: "int \<Rightarrow> bool repair_action" where
  "has_open room = query (RepairDb ''check open repair'') (open_ticket room)"

definition insert_repair :: "int \<Rightarrow> repair_input \<Rightarrow> int \<Rightarrow> repair_view repair_action" where
  "insert_repair now inp creator =
     dbind (stmt (RepairDb ''create repair'') (insert_repair_row now inp creator)) (\<lambda>r.
       case r of None \<Rightarrow> draise (RepairDb ''create repair'') | Some i \<Rightarrow> get_repair i)"

definition create_repair :: "int \<Rightarrow> repair_input \<Rightarrow> int \<Rightarrow> repair_view repair_action" where
  "create_repair now inp creator =
     dbind (classroom_exists (rin_classroom inp)) (\<lambda>_.
     dbind (has_open (rin_classroom inp)) (\<lambda>opened.
     if opened then draise RepairOpenExists else insert_repair now inp creator))"

definition emergency_create :: "int \<Rightarrow> repair_input \<Rightarrow> int \<Rightarrow> repair_view repair_action" where
  "emergency_create now inp creator =
     dbind (classroom_exists (rin_classroom inp)) (\<lambda>_. insert_repair now inp creator)"

definition update_allowed :: "repair_view \<Rightarrow> repair_update_input \<Rightarrow> bool" where
  "update_allowed existing inp \<longleftrightarrow> rp_status (rv_repair existing) \<noteq> ''confirmed'' \<and>
     (ru_status inp = ''processing'' \<or> ru_status inp = ''completed'')"

definition update_repair :: "int \<Rightarrow> int \<Rightarrow> repair_update_input \<Rightarrow> int \<Rightarrow> repair_view repair_action" where
  "update_repair now i inp assignee =
     dbind (get_repair i) (\<lambda>existing.
     if \<not> update_allowed existing inp then draise RepairState
     else dbind (stmt (RepairDb ''update repair'') (update_repair_row now i inp assignee)) (\<lambda>ok.
          if ok then get_repair i else draise (RepairDb ''update repair'')))"

definition confirm_repair :: "int \<Rightarrow> int \<Rightarrow> int \<Rightarrow> repair_view repair_action" where
  "confirm_repair now i creator =
     dbind (get_repair i) (\<lambda>existing.
     if rp_creator (rv_repair existing) \<noteq> creator then draise RepairForbidden
     else if rp_status (rv_repair existing) = ''confirmed'' then dret existing
     else if rp_status (rv_repair existing) \<noteq> ''completed'' then draise RepairState
     else dbind (stmt (RepairDb ''confirm repair'') (confirm_repair_row now i)) (\<lambda>_. get_repair i))"

text \<open>The condition of \<open>Page\<close> as text with its arguments, and its meaning on a joined row.\<close>

definition repair_where :: "repair_filter \<Rightarrow> string \<Rightarrow> int \<Rightarrow> bool \<Rightarrow> string \<times> sql_arg list" where
  "repair_where f q viewer admin =
     (let qa = ('' WHERE 1=1'', []);
          qa = (if \<not> admin then bind_arg_text '' AND r.creator_id = '' (AInt viewer) [] qa else qa);
          qa = (if rf_classroom f > 0 then bind_arg_text '' AND r.classroom_id = '' (AInt (rf_classroom f)) [] qa else qa);
          qa = (if rf_status f \<noteq> [] then bind_arg_text '' AND r.status = '' (AStr (rf_status f)) [] qa else qa);
          qa = (if rf_statuses f \<noteq> []
                then (fst qa @ '' AND r.status IN ('' @
                        placeholders (int (length (snd qa)) + 1) (int (length (rf_statuses f))) @ '')'',
                      snd qa @ map AStr (rf_statuses f))
                else qa)
      in if q \<noteq> []
         then let pat = AStr (like_pattern (escape_like q))
              in bind_arg_text '' OR cu.display_name ILIKE '' pat '')''
                   (bind_arg_text '' OR c.name ILIKE '' pat []
                     (bind_arg_text '' AND (r.description ILIKE '' pat [] qa))
         else qa)"

definition repair_visible ::
  "(char \<Rightarrow> char \<Rightarrow> bool) \<Rightarrow> repair_filter \<Rightarrow> string \<Rightarrow> int \<Rightarrow> bool \<Rightarrow> repair_view \<Rightarrow> bool" where
  "repair_visible eq f q viewer admin v \<longleftrightarrow>
     (let r = rv_repair v; has = (\<lambda>s. like eq (like_pattern (escape_like q)) s) in
      (\<not> admin \<longrightarrow> rp_creator r = viewer) \<and>
      (rf_classroom f > 0 \<longrightarrow> rp_classroom r = rf_classroom f) \<and>
      (rf_status f \<noteq> [] \<longrightarrow> rp_status r = rf_status f) \<and>
      (rf_statuses f \<noteq> [] \<longrightarrow> rp_status r \<in> set (rf_statuses f)) \<and>
      (q \<noteq> [] \<longrightarrow> has (rp_description r) \<or> has (rv_classroom_name v) \<or> has (rv_creator_name v)))"

definition page_repairs ::
  "(char \<Rightarrow> char \<Rightarrow> bool) \<Rightarrow> repair_filter \<Rightarrow> string \<Rightarrow> int \<Rightarrow> bool \<Rightarrow> pagination \<Rightarrow>
   (repair_view list \<times> int) repair_action" where
  "page_repairs eq f q viewer admin p =
     (let matched = (\<lambda>d. filter (repair_visible eq f q viewer admin) (List.map_filter (repair_view_of d) (cd_repairs d)))
      in dbind (query_row (RepairDb ''page repairs'') (RepairDb ''page repairs'') (\<lambda>d.
           limit_rows p (sort_key (\<lambda>v. (- rp_created_at (rv_repair v), - rp_id (rv_repair v))) (matched d)))) (\<lambda>vs.
         dbind (query (RepairDb ''count rows'') (\<lambda>d. int (length (matched d)))) (\<lambda>n. dret (vs, n))))"

subsection \<open>Handlers\<close>

text \<open>A missing subject reads as the zero subject, whose id is 0 and which holds nothing.\<close>

definition subject_id :: "subject option \<Rightarrow> int" where
  "subject_id sub = (case sub of None \<Rightarrow> 0 | Some s \<Rightarrow> sj_id s)"

definition is_repair_admin :: "subject option \<Rightarrow> bool" where
  "is_repair_admin sub = (case sub of None \<Rightarrow> False | Some s \<Rightarrow> has_perm s ''repair:assign'')"

definition is_repair_creator :: "subject option \<Rightarrow> repair_view \<Rightarrow> bool" where
  "is_repair_creator sub v = (case sub of None \<Rightarrow> False | Some s \<Rightarrow> sj_id s = rp_creator (rv_repair v))"

definition query_int :: "(string \<Rightarrow> string) \<Rightarrow> string \<Rightarrow> int" where
  "query_int q key = parse_int_value (trim_space (q key))"

definition normalize_repair_input :: "repair_input \<Rightarrow> repair_input \<times> string option" where
  "normalize_repair_input inp =
     (let inp = inp\<lparr>rin_description := trim_space (rin_description inp)\<rparr> in
      if rin_classroom inp \<le> 0 then (inp, Some ''classroomId is required'')
      else if rin_description inp = [] then (inp, Some ''description is required'')
      else (inp, None))"

definition listRepairs_h ::
  "(char \<Rightarrow> char \<Rightarrow> bool) \<Rightarrow> (string \<Rightarrow> string) \<Rightarrow> subject option \<Rightarrow> campus_db conn \<Rightarrow>
   (repair_view list \<times> int \<times> page_params) response \<times> campus_db conn" where
  "listRepairs_h eq q sub c =
     (let f = \<lparr>rf_classroom = query_int q ''classroom_id'', rf_status = trim_space (q ''status''), rf_statuses = []\<rparr>;
          p = parse_page_params q;
          pg = \<lparr>pg_limit = pp_page_size p, pg_offset = page_offset p\<rparr>
      in case page_repairs eq f (parse_search q) (subject_id sub) (is_repair_admin sub) pg c of
           (Inl _, c') \<Rightarrow> (RespError 500 ''could not list repairs'', c')
         | (Inr (vs, n), c') \<Rightarrow> (RespJSON 200 (vs, n, p), c'))"

definition getRepair_h :: "string \<Rightarrow> subject option \<Rightarrow> campus_db conn \<Rightarrow> repair_view response \<times> campus_db conn" where
  "getRepair_h path_id sub c = (case atoi path_id of
     None \<Rightarrow> (RespError 400 ''invalid repair id'', c)
   | Some i \<Rightarrow> (case get_repair i c of
       (Inl RepairNotFound, c') \<Rightarrow> (RespError 404 ''repair ticket not found'', c')
     | (Inl _, c') \<Rightarrow> (RespError 500 ''could not load repair'', c')
     | (Inr v, c') \<Rightarrow>
         if \<not> is_repair_admin sub \<and> \<not> is_repair_creator sub v
         then (RespError 404 ''repair ticket not found'', c') else (RespJSON 200 v, c')))"

definition open_exists_message :: string where
  "open_exists_message = hx ''e8afa5e69599e5aea4e5b7b2e69c89e5be85e5a484e79086e68aa5e4bfaeefbc8ce8afb7e58bbfe9878de5a48de68f90e4baa4e38082''"

definition createRepair_h ::
  "int \<Rightarrow> repair_input option \<Rightarrow> subject option \<Rightarrow> campus_db conn \<Rightarrow> repair_view response \<times> campus_db conn" where
  "createRepair_h now body sub c = (case body of
     None \<Rightarrow> (RespError 400 ''invalid request body'', c)
   | Some inp \<Rightarrow> (case normalize_repair_input inp of
       (_, Some msg) \<Rightarrow> (RespError 400 msg, c)
     | (inp, None) \<Rightarrow> (case create_repair now inp (subject_id sub) c of
         (Inl RoomNotFound, c') \<Rightarrow> (RespError 400 ''classroom not found'', c')
       | (Inl RepairOpenExists, c') \<Rightarrow> (RespError 409 open_exists_message, c')
       | (Inl _, c') \<Rightarrow> (RespError 500 ''could not create repair'', c')
       | (Inr v, c') \<Rightarrow> (RespJSON 201 v, c'))))"

definition emergencyRepair_h ::
  "int \<Rightarrow> repair_input option \<Rightarrow> subject option \<Rightarrow> campus_db conn \<Rightarrow> repair_view response \<times> campus_db conn" where
  "emergencyRepair_h now body sub c = (case body of
     None \<Rightarrow> (RespError 400 ''invalid request body'', c)
   | Some inp \<Rightarrow> (case normalize_repair_input inp of
       (_, Some msg) \<Rightarrow> (RespError 400 msg, c)
     | (inp, None) \<Rightarrow> (case emergency_create now inp (subject_id sub) c of
         (Inl RoomNotFound, c') \<Rightarrow> (RespError 400 ''classroom not found'', c')
       | (Inl _, c') \<Rightarrow> (RespError 500 ''could not create emergency repair'', c')
       | (Inr v, c') \<Rightarrow> (RespJSON 201 v, c'))))"

definition updateRepair_h ::
  "int \<Rightarrow> string \<Rightarrow> repair_update_input option \<Rightarrow> subject option \<Rightarrow> campus_db conn \<Rightarrow>
   repair_view response \<times> campus_db conn" where
  "updateRepair_h now path_id body sub c = (case atoi path_id of
     None \<Rightarrow> (RespError 400 ''invalid repair id'', c)
   | Some i \<Rightarrow> (case body of
       None \<Rightarrow> (RespError 400 ''invalid request body'', c)
     | Some inp \<Rightarrow>
        (case update_repair now i (inp\<lparr>ru_status := trim_space (ru_status inp), ru_remark := trim_space (ru_remark inp)\<rparr>)
            (subject_id sub) c of
           (Inl RepairNotFound, c') \<Rightarrow> (RespError 404 ''repair ticket not found'', c')
         | (Inl RepairState, c') \<Rightarrow> (RespError 400 ''invalid repair status transition'', c')
         | (Inl _, c') \<Rightarrow> (RespError 500 ''could not update repair'', c')
         | (Inr v, c') \<Rightarrow> (RespJSON 200 v, c'))))"

definition confirmRepair_h ::
  "int \<Rightarrow> string \<Rightarrow> subject option \<Rightarrow> campus_db conn \<Rightarrow> repair_view response \<times> campus_db conn" where
  "confirmRepair_h now path_id sub c = (case atoi path_id of
     None \<Rightarrow> (RespError 400 ''invalid repair id'', c)
   | Some i \<Rightarrow> (case confirm_repair now i (subject_id sub) c of
       (Inl RepairNotFound, c') \<Rightarrow> (RespError 404 ''repair ticket not found'', c')
     | (Inl RepairForbidden, c') \<Rightarrow> (RespError 403 (hx ''e58faae69c89e68aa5e4bfaee4babae6898de883bde7a1aee8aea4e5ae8ce68890''), c')
     | (Inl RepairState, c') \<Rightarrow> (RespError 400 (hx ''e58faae69c89e5b7b2e5ae8ce68890e79a84e68aa5e4bfaee6898de883bde7a1aee8aea4''), c')
     | (Inl _, c') \<Rightarrow> (RespError 500 ''could not confirm repair'', c')
     | (Inr v, c') \<Rightarrow> (RespJSON 200 v, c')))"

text \<open>Routes with the permissions of which one is enough.\<close>

definition repair_routes :: "(string \<times> string list) list" where
  "repair_routes = [
     (''GET /api/repairs'', [''repair:create'', ''repair:assign'']),
     (''POST /api/repairs'', [''repair:create'']),
     (''POST /api/repairs/emergency'', [''repair:create'']),
     (''GET /api/repairs/{id}'', [''repair:create'', ''repair:assign'']),
     (''PUT /api/repairs/{id}'', [''repair:assign'']),
     (''POST /api/repairs/{id}/confirm'', [''repair:create''])]"

subsection \<open>Interleaved requests\<close>

text \<open>
  A request that updates or confirms a ticket first reads it and then writes it with a second
  statement. Between the two, statements of other requests run. The state is the database and the
  writes that requests have decided on; reads and writes are separate steps.
\<close>

datatype repair_write =
  WriteUpdate int repair_update_input int
| WriteConfirm int

record repair_system =
  rs_db :: campus_db
  rs_pending :: "repair_write list"

fun run_write :: "int \<Rightarrow> repair_write \<Rightarrow> campus_db \<Rightarrow> campus_db" where
  "run_write now (WriteUpdate i inp a) d = snd (update_repair_row now i inp a d)"
| "run_write now (WriteConfirm i) d = snd (confirm_repair_row now i d)"

inductive repair_step :: "repair_system \<Rightarrow> repair_system \<Rightarrow> bool" where
  file_ticket: "repair_step s (s\<lparr>rs_db := snd (insert_repair_row now inp creator (rs_db s))\<rparr>)"
| update_reads: "select_repair i (rs_db s) = Some v \<Longrightarrow> update_allowed v inp \<Longrightarrow>
    repair_step s (s\<lparr>rs_pending := rs_pending s @ [WriteUpdate i inp a]\<rparr>)"
| confirm_reads: "select_repair i (rs_db s) = Some v \<Longrightarrow> rp_status (rv_repair v) = ''completed'' \<Longrightarrow>
    repair_step s (s\<lparr>rs_pending := rs_pending s @ [WriteConfirm i]\<rparr>)"
| writes: "rs_pending s = ws1 @ w # ws2 \<Longrightarrow>
    repair_step s (s\<lparr>rs_db := run_write now w (rs_db s), rs_pending := ws1 @ ws2\<rparr>)"

inductive_cases repair_stepE: "repair_step s t"

definition ticket_status :: "campus_db \<Rightarrow> int \<Rightarrow> string option" where
  "ticket_status d i = map_option rp_status (find_repair d i)"

subsection \<open>Transitions of a ticket\<close>

text \<open>
  What one operation may do to the tickets: none disappears, its origin never changes, its status
  stays in the vocabulary, and a confirmed ticket keeps everything.
\<close>

definition repair_statuses :: "string list" where
  "repair_statuses = [''open'', ''processing'', ''completed'', ''confirmed'']"

definition ticket_evolves :: "repair \<Rightarrow> repair \<Rightarrow> bool" where
  "ticket_evolves r r' \<longleftrightarrow> rp_id r' = rp_id r \<and> rp_classroom r' = rp_classroom r \<and>
     rp_creator r' = rp_creator r \<and> rp_description r' = rp_description r \<and>
     rp_images r' = rp_images r \<and> rp_created_at r' = rp_created_at r \<and>
     (rp_status r = ''confirmed'' \<longrightarrow> r' = r) \<and>
     (rp_status r' = ''confirmed'' \<longrightarrow> rp_status r = ''confirmed'' \<or> rp_status r = ''completed'')"

definition tickets_evolve :: "campus_db \<Rightarrow> campus_db \<Rightarrow> bool" where
  "tickets_evolve d d' \<longleftrightarrow>
     (\<exists>old new. cd_repairs d' = old @ new \<and> list_all2 ticket_evolves (cd_repairs d) old)"

lemma ticket_evolves_refl [simp]: "ticket_evolves r r"
  by (simp add: ticket_evolves_def)

lemma tickets_evolveI:
  "cd_repairs d' = old @ new \<Longrightarrow> list_all2 ticket_evolves (cd_repairs d) old \<Longrightarrow> tickets_evolve d d'"
  unfolding tickets_evolve_def by blast

lemma tickets_evolve_refl [simp]: "tickets_evolve d d"
  by (rule tickets_evolveI [where new = "[]"]) (auto simp: list_all2_same)

lemma tickets_evolve_map:
  assumes "\<And>r. r \<in> set (cd_repairs d) \<Longrightarrow> ticket_evolves r (h r)" and "cd_repairs d' = map h (cd_repairs d)"
  shows "tickets_evolve d d'"
  by (rule tickets_evolveI [where new = "[]"]) (auto simp: assms list_all2_map2 list_all2_same)

definition repairs_inv :: "campus_db \<Rightarrow> bool" where
  "repairs_inv d \<longleftrightarrow> distinct (map rp_id (cd_repairs d)) \<and>
     (\<forall>r \<in> set (cd_repairs d). rp_id r < cd_next_repair d \<and> rp_status r \<in> set repair_statuses)"

lemma repairs_inv_map:
  assumes "repairs_inv d" and "cd_repairs d' = map h (cd_repairs d)" and "cd_next_repair d' = cd_next_repair d"
    and "\<And>r. r \<in> set (cd_repairs d) \<Longrightarrow> rp_id (h r) = rp_id r \<and> rp_status (h r) \<in> set repair_statuses"
  shows "repairs_inv d'"
proof -
  have "map rp_id (map h (cd_repairs d)) = map rp_id (cd_repairs d)" using assms(4) by simp
  then show ?thesis using assms unfolding repairs_inv_def by (simp del: map_map)
qed

lemma tickets_evolve_same: "tickets_evolve d d"
  by (rule tickets_evolveI [where old = "cd_repairs d"]) (auto simp: list_all2_same)

lemma repair_insert:
  "repairs_inv d \<Longrightarrow> repairs_inv (snd (insert_repair_row now inp creator d))"
  "tickets_evolve d (snd (insert_repair_row now inp creator d))"
proof -
  show "repairs_inv (snd (insert_repair_row now inp creator d))" if "repairs_inv d"
    using that by (auto simp: repairs_inv_def insert_repair_row_def repair_statuses_def)
  show "tickets_evolve d (snd (insert_repair_row now inp creator d))"
  proof (cases "nul_in [rin_description inp, raw_or_default (rin_images inp) ''[]'']")
    case True
    then show ?thesis by (simp add: insert_repair_row_def tickets_evolve_same)
  next
    case False
    then show ?thesis
      by (intro tickets_evolveI [where old = "cd_repairs d"]) (auto simp: insert_repair_row_def list_all2_same)
  qed
qed

lemma repair_confirm:
  "repairs_inv d \<Longrightarrow> repairs_inv (snd (confirm_repair_row now i d))"
  "tickets_evolve d (snd (confirm_repair_row now i d))"
proof -
  show "repairs_inv (snd (confirm_repair_row now i d))" if "repairs_inv d"
    by (rule repairs_inv_map [where d = d and h = "\<lambda>r. if rp_id r = i \<and> rp_status r = ''completed''
        then r\<lparr>rp_status := ''confirmed'', rp_updated_at := now\<rparr> else r", OF that])
      (use that in \<open>auto simp: confirm_repair_row_def repairs_inv_def repair_statuses_def\<close>)
  show "tickets_evolve d (snd (confirm_repair_row now i d))"
    by (rule tickets_evolve_map [where h = "\<lambda>r. if rp_id r = i \<and> rp_status r = ''completed''
        then r\<lparr>rp_status := ''confirmed'', rp_updated_at := now\<rparr> else r"])
      (auto simp: confirm_repair_row_def ticket_evolves_def)
qed

lemma repair_update:
  assumes "repairs_inv d" and "ru_status inp = ''processing'' \<or> ru_status inp = ''completed''"
  shows "repairs_inv (snd (update_repair_row now i inp a d))"
    and "(\<And>r. r \<in> set (cd_repairs d) \<Longrightarrow> rp_id r = i \<Longrightarrow> rp_status r \<noteq> ''confirmed'') \<Longrightarrow>
      tickets_evolve d (snd (update_repair_row now i inp a d))"
proof -
  let ?set = "d\<lparr>cd_repairs := map (\<lambda>r. if rp_id r = i
        then r\<lparr>rp_status := ru_status inp, rp_remark := ru_remark inp, rp_assignee := Some a,
               rp_updated_at := now\<rparr> else r) (cd_repairs d)\<rparr>"
  have "repairs_inv ?set"
    by (rule repairs_inv_map [where d = d and h = "\<lambda>r. if rp_id r = i
        then r\<lparr>rp_status := ru_status inp, rp_remark := ru_remark inp, rp_assignee := Some a,
               rp_updated_at := now\<rparr> else r", OF assms(1)])
      (use assms in \<open>auto simp: repairs_inv_def repair_statuses_def\<close>)
  then show "repairs_inv (snd (update_repair_row now i inp a d))" using assms(1) by (simp add: update_repair_row_def)
  assume "\<And>r. r \<in> set (cd_repairs d) \<Longrightarrow> rp_id r = i \<Longrightarrow> rp_status r \<noteq> ''confirmed''"
  then have "tickets_evolve d ?set"
    using assms(2)
    by (intro tickets_evolve_map [where h = "\<lambda>r. if rp_id r = i
        then r\<lparr>rp_status := ru_status inp, rp_remark := ru_remark inp, rp_assignee := Some a,
               rp_updated_at := now\<rparr> else r"])
      (auto simp: ticket_evolves_def)
  then show "tickets_evolve d (snd (update_repair_row now i inp a d))"
    by (simp add: update_repair_row_def tickets_evolve_same)
qed

lemma select_repair_row:
  assumes "select_repair i d = Some v"
  shows "\<exists>r \<in> set (cd_repairs d). rp_id r = i \<and> rp_status (rv_repair v) = rp_status r \<and>
    rp_creator (rv_repair v) = rp_creator r"
proof -
  obtain r where r: "List.find (\<lambda>r. rp_id r = i) (cd_repairs d) = Some r" "repair_view_of d r = Some v"
    using assms by (auto simp: select_repair_def find_repair_def bind_eq_Some_conv)
  have "r \<in> set (cd_repairs d) \<and> rp_id r = i" using r(1) by (auto simp: find_Some_iff)
  moreover have "rv_repair v = r\<lparr>rp_images := json_raw (rp_images r) ''[]''\<rparr>"
    using r(2) by (auto simp: repair_view_of_def split: option.splits)
  ultimately show ?thesis by auto
qed

lemma select_repair_status:
  assumes "repairs_inv d" and "select_repair i d = Some v" and "r \<in> set (cd_repairs d)" and "rp_id r = i"
  shows "rp_status r = rp_status (rv_repair v)"
  using select_repair_row [OF assms(2)] assms(1,3,4) unfolding repairs_inv_def
  by (metis distinct_map inj_onD)

lemma keeps_get_repair [keeps_intros]: "keeps P (get_repair i)"
  unfolding get_repair_def by (intro keeps_intros)

lemma get_repair_reads [simp]: "tables (snd (get_repair i c)) = tables c"
  by (rule keeps_all_reads) (rule keeps_get_repair)

text \<open>What a store operation left in the tables, under any fault script.\<close>



lemma create_repair_tables:
  "tables (snd (create_repair now inp creator c)) \<in> {tables c, snd (insert_repair_row now inp creator (tables c))}"
  "tables (snd (emergency_create now inp creator c)) \<in> {tables c, snd (insert_repair_row now inp creator (tables c))}"
  unfolding create_repair_def emergency_create_def classroom_exists_def has_open_def insert_repair_def
  by (auto simp: dbind_def query_row_def query_def stmt_def split: list.splits bool.splits option.splits if_splits)

lemma update_repair_tables:
  "tables (snd (update_repair now i inp a c)) = tables c \<or>
   (\<exists>v. select_repair i (tables c) = Some v \<and> update_allowed v inp \<and>
      tables (snd (update_repair now i inp a c)) = snd (update_repair_row now i inp a (tables c)))"
  unfolding update_repair_def
  by (auto simp: get_repair_def dbind_def query_row_def query_def stmt_def split: list.splits bool.splits option.splits if_splits)

lemma confirm_repair_tables:
  "tables (snd (confirm_repair now i creator c)) \<in> {tables c, snd (confirm_repair_row now i (tables c))}"
  unfolding confirm_repair_def
  by (auto simp: get_repair_def dbind_def query_row_def query_def stmt_def split: list.splits bool.splits option.splits if_splits)

lemma repair_handler_calls:
  "snd (createRepair_h now body sub c) = c \<or>
     (\<exists>inp. snd (createRepair_h now body sub c) = snd (create_repair now inp (subject_id sub) c))"
  "snd (emergencyRepair_h now body sub c) = c \<or>
     (\<exists>inp. snd (emergencyRepair_h now body sub c) = snd (emergency_create now inp (subject_id sub) c))"
  "snd (updateRepair_h now path_id upd sub c) = c \<or>
     (\<exists>i inp. snd (updateRepair_h now path_id upd sub c) = snd (update_repair now i inp (subject_id sub) c))"
  "snd (confirmRepair_h now path_id sub c) = c \<or>
     (\<exists>i. snd (confirmRepair_h now path_id sub c) = snd (confirm_repair now i (subject_id sub) c))"
  unfolding createRepair_h_def emergencyRepair_h_def updateRepair_h_def confirmRepair_h_def
  by (auto split: option.splits prod.splits sum.splits repair_error.splits) (metis snd_conv)+

lemma repair_ops_evolve:
  assumes "repairs_inv (tables c)"
  shows "repairs_inv (tables (snd (create_repair now inp s c))) \<and> tickets_evolve (tables c) (tables (snd (create_repair now inp s c)))"
    and "repairs_inv (tables (snd (emergency_create now inp s c))) \<and> tickets_evolve (tables c) (tables (snd (emergency_create now inp s c)))"
    and "repairs_inv (tables (snd (update_repair now i upd s c))) \<and> tickets_evolve (tables c) (tables (snd (update_repair now i upd s c)))"
    and "repairs_inv (tables (snd (confirm_repair now i s c))) \<and> tickets_evolve (tables c) (tables (snd (confirm_repair now i s c)))"
proof -
  show "repairs_inv (tables (snd (create_repair now inp s c))) \<and> tickets_evolve (tables c) (tables (snd (create_repair now inp s c)))"
    using create_repair_tables(1) [of now inp s c] assms repair_insert by auto
  show "repairs_inv (tables (snd (emergency_create now inp s c))) \<and> tickets_evolve (tables c) (tables (snd (emergency_create now inp s c)))"
    using create_repair_tables(2) [of now inp s c] assms repair_insert by auto
  show "repairs_inv (tables (snd (confirm_repair now i s c))) \<and> tickets_evolve (tables c) (tables (snd (confirm_repair now i s c)))"
    using confirm_repair_tables [of now i s c] assms repair_confirm by auto
  from update_repair_tables [of now i upd s c]
  show "repairs_inv (tables (snd (update_repair now i upd s c))) \<and> tickets_evolve (tables c) (tables (snd (update_repair now i upd s c)))"
  proof
    assume "tables (snd (update_repair now i upd s c)) = tables c"
    then show ?thesis using assms by simp
  next
    assume "\<exists>v. select_repair i (tables c) = Some v \<and> update_allowed v upd \<and>
      tables (snd (update_repair now i upd s c)) = snd (update_repair_row now i upd s (tables c))"
    then obtain v where v: "select_repair i (tables c) = Some v" "update_allowed v upd"
      "tables (snd (update_repair now i upd s c)) = snd (update_repair_row now i upd s (tables c))" by blast
    have "ru_status upd = ''processing'' \<or> ru_status upd = ''completed''"
      using v(2) by (simp add: update_allowed_def)
    moreover have "rp_status r \<noteq> ''confirmed''" if "r \<in> set (cd_repairs (tables c))" "rp_id r = i" for r
      using select_repair_status [OF assms v(1) that] v(2) by (simp add: update_allowed_def)
    ultimately show ?thesis unfolding v(3) using repair_update [OF assms] by blast
  qed
qed

subsection \<open>Properties\<close>

text \<open>
  One request at a time, under any failure of the database, every repair handler keeps the
  ticket table well formed and moves tickets only as the workflow allows: no ticket disappears,
  its origin (room, creator, description, images) never changes, a confirmed ticket is frozen and a
  ticket becomes confirmed only from completed.
\<close>

theorem repair_handlers_follow_workflow:
  assumes "repairs_inv (tables c)"
    and "c' \<in> {snd (createRepair_h now body sub c), snd (emergencyRepair_h now body sub c),
      snd (updateRepair_h now path_id upd sub c), snd (confirmRepair_h now path_id sub c)}"
  shows "repairs_inv (tables c') \<and> tickets_evolve (tables c) (tables c')"
proof -
  from assms(2) have "c' = c \<or> (\<exists>inp. c' = snd (create_repair now inp (subject_id sub) c)) \<or>
      (\<exists>inp. c' = snd (emergency_create now inp (subject_id sub) c)) \<or>
      (\<exists>i u. c' = snd (update_repair now i u (subject_id sub) c)) \<or>
      (\<exists>i. c' = snd (confirm_repair now i (subject_id sub) c))"
    using repair_handler_calls(1) [of now body sub c] repair_handler_calls(2) [of now body sub c]
      repair_handler_calls(3) [of now path_id upd sub c] repair_handler_calls(4) [of now path_id sub c]
    by (elim insertE emptyE; simp; blast)
  then show ?thesis using assms(1) repair_ops_evolve [OF assms(1)] by auto
qed

definition demo_ticket :: repair where
  "demo_ticket = \<lparr>rp_id = 1, rp_classroom = 1, rp_creator = 5, rp_assignee = None,
     rp_description = ''lamp'', rp_images = ''[]'', rp_status = ''completed'', rp_remark = [],
     rp_created_at = 0, rp_updated_at = 0\<rparr>"

definition demo_repairs :: campus_db where
  "demo_repairs = campus_empty\<lparr>
     cd_classrooms := [\<lparr>cl_id = 1, cl_name = ''A101'', cl_building = ''A'', cl_capacity = 60,
       cl_type = ''standard'', cl_floor = [], cl_campus = [], cl_status = ''available'',
       cl_description = [], cl_created_at = 0\<rparr>],
     cd_users := [\<lparr>us_id = 5, us_username = ''li'', us_display_name = ''Li'', us_type = ''teacher''\<rparr>],
     cd_repairs := [demo_ticket], cd_next_repair := 2\<rparr>"

lemma demo_repairs_inv: "repairs_inv demo_repairs"
  by (simp add: repairs_inv_def demo_repairs_def demo_ticket_def repair_statuses_def campus_empty_def)

lemma repair_handlers_follow_workflow_witness:
  "tickets_evolve demo_repairs (tables (snd (updateRepair_h 9 ''1''
     (Some \<lparr>ru_status = ''processing'', ru_remark = []\<rparr>) None \<lparr>tables = demo_repairs, faults = [False, False, True]\<rparr>)))"
proof -
  let ?c = "\<lparr>tables = demo_repairs, faults = [False, False, True]\<rparr>"
  have "repairs_inv (tables ?c)" by (simp add: demo_repairs_inv)
  from repair_handlers_follow_workflow [OF this, of _ 9 None None "''1''" "Some \<lparr>ru_status = ''processing'', ru_remark = []\<rparr>"]
  show ?thesis by simp
qed

text \<open>
  A caller without repair:assign learns nothing about a ticket filed by somebody else: the
  answer is exactly the one for an id that does not exist.
\<close>

theorem getRepair_hides_foreign_tickets:
  assumes "atoi path_id = Some i" and "\<not> is_repair_admin sub"
    and "\<forall>v. select_repair i d = Some v \<longrightarrow> \<not> is_repair_creator sub v"
    and "atoi path_id' = Some j" and "find_repair d j = None"
  shows "getRepair_h path_id sub (healthy d) = getRepair_h path_id' sub (healthy d)"
proof -
  have "select_repair j d = None" using assms(5) by (simp add: select_repair_def)
  then show ?thesis
    using assms by (cases "select_repair i d") (simp_all add: getRepair_h_def get_repair_def)
qed

lemma getRepair_hides_foreign_tickets_witness:
  "getRepair_h ''1'' None (healthy demo_repairs) = getRepair_h ''2'' None (healthy demo_repairs)"
proof -
  have a: "atoi ''1'' = Some 1" "atoi ''2'' = Some 2" by code_simp+
  have "\<not> is_repair_admin None" "\<forall>v. select_repair 1 demo_repairs = Some v \<longrightarrow> \<not> is_repair_creator None v"
    by (simp_all add: is_repair_admin_def is_repair_creator_def)
  moreover have "find_repair demo_repairs 2 = None"
    by (simp add: find_repair_def demo_repairs_def demo_ticket_def)
  ultimately show ?thesis using getRepair_hides_foreign_tickets a by blast
qed

text \<open>
  Filing a ticket, case by case. Without database failures an ordinary ticket is refused with
  400 for an unknown room and with 409 when the room already has an open or processing ticket;
  otherwise exactly one row is added, in status open, with the caller as its creator. An emergency
  ticket skips the second check.
\<close>

theorem createRepair_cases:
  assumes "normalize_repair_input body = (inp, None)" and "\<not> nul_in [rin_description inp, raw_or_default (rin_images inp) ''[]'']"
  shows "let d' = snd (insert_repair_row now inp (subject_id sub) d) in
    createRepair_h now (Some body) sub (healthy d) =
      (if find_classroom d (rin_classroom inp) = None then (RespError 400 ''classroom not found'', healthy d)
       else if open_ticket (rin_classroom inp) d then (RespError 409 open_exists_message, healthy d)
       else (case select_repair (cd_next_repair d) d' of
           None \<Rightarrow> RespError 500 ''could not create repair'' | Some v \<Rightarrow> RespJSON 201 v, healthy d')) \<and>
    emergencyRepair_h now (Some body) sub (healthy d) =
      (if find_classroom d (rin_classroom inp) = None then (RespError 400 ''classroom not found'', healthy d)
       else (case select_repair (cd_next_repair d) d' of
           None \<Rightarrow> RespError 500 ''could not create emergency repair'' | Some v \<Rightarrow> RespJSON 201 v, healthy d'))"
proof -
  have new: "fst (insert_repair_row now inp (subject_id sub) d) = Some (cd_next_repair d)"
    using assms(2) by (simp add: insert_repair_row_def)
  show ?thesis
    using assms(1)
    by (cases "select_repair (cd_next_repair d) (snd (insert_repair_row now inp (subject_id sub) d))";
        cases "find_classroom d (rin_classroom inp)")
      (simp_all add: createRepair_h_def emergencyRepair_h_def create_repair_def emergency_create_def
        classroom_exists_def room_exists_def has_open_def insert_repair_def get_repair_def new Let_def)
qed

lemma createRepair_cases_witness:
  "fst (createRepair_h 7 (Some \<lparr>rin_classroom = 9, rin_description = ''lamp'', rin_images = []\<rparr>) None (healthy demo_repairs)) =
     RespError 400 ''classroom not found''"
proof -
  let ?b = "\<lparr>rin_classroom = 9, rin_description = ''lamp'', rin_images = []\<rparr>"
  have "trim_space ''lamp'' = ''lamp''" by (simp add: trim_space_plain plain_def)
  then have "normalize_repair_input ?b = (?b, None)" by (simp add: normalize_repair_input_def)
  moreover have "\<not> nul_in [rin_description ?b, raw_or_default (rin_images ?b) ''[]'']" by (simp add: nul_in_def raw_or_default_def)
  moreover have "find_classroom demo_repairs 9 = None" by (simp add: find_classroom_def demo_repairs_def)
  ultimately show ?thesis using createRepair_cases [of ?b ?b 7 None demo_repairs] by (simp add: Let_def)
qed

lemma run_write_inv:
  assumes "repairs_inv d" and "\<And>i inp a. w = WriteUpdate i inp a \<Longrightarrow> ru_status inp = ''processing'' \<or> ru_status inp = ''completed''"
  shows "repairs_inv (run_write now w d)"
  using assms repair_update(1) repair_confirm(1) by (cases w) auto

definition system_inv :: "repair_system \<Rightarrow> bool" where
  "system_inv s \<longleftrightarrow> repairs_inv (rs_db s) \<and>
     (\<forall>i inp a. WriteUpdate i inp a \<in> set (rs_pending s) \<longrightarrow> ru_status inp = ''processing'' \<or> ru_status inp = ''completed'')"

lemma system_inv_step: "repair_step s t \<Longrightarrow> system_inv s \<Longrightarrow> system_inv t"
proof (induction rule: repair_step.induct)
  case (file_ticket s now inp creator)
  then show ?case using repair_insert(1) by (auto simp: system_inv_def)
next
  case (update_reads i s v inp a)
  then show ?case by (auto simp: system_inv_def update_allowed_def)
next
  case (confirm_reads i s v)
  then show ?case by (auto simp: system_inv_def)
next
  case (writes s ws1 w ws2 now)
  then have "repairs_inv (run_write now w (rs_db s))"
    by (intro run_write_inv) (auto simp: system_inv_def)
  with writes show ?case by (auto simp: system_inv_def)
qed

text \<open>
  Under every interleaving of the statements of concurrent requests the ticket table stays
  well formed: ids unique, below the identity counter, and only the four documented statuses.
\<close>

theorem interleaved_repairs_well_formed:
  assumes "repair_step\<^sup>*\<^sup>* \<lparr>rs_db = d, rs_pending = []\<rparr> s" and "repairs_inv d"
  shows "repairs_inv (rs_db s)"
proof -
  have "system_inv \<lparr>rs_db = d, rs_pending = []\<rparr>" using assms(2) by (simp add: system_inv_def)
  with assms(1) have "system_inv s"
    by (induction rule: rtranclp_induct) (auto intro: system_inv_step)
  then show ?thesis by (simp add: system_inv_def)
qed

lemma interleaved_repairs_well_formed_witness: "repairs_inv (snd (insert_repair_row 3
    \<lparr>rin_classroom = 1, rin_description = ''lamp'', rin_images = []\<rparr> 5 demo_repairs))"
proof -
  let ?s = "\<lparr>rs_db = demo_repairs, rs_pending = []\<rparr>"
  have "repair_step ?s (?s\<lparr>rs_db := snd (insert_repair_row 3
      \<lparr>rin_classroom = 1, rin_description = ''lamp'', rin_images = []\<rparr> 5 (rs_db ?s))\<rparr>)"
    by (rule repair_step.file_ticket)
  from interleaved_repairs_well_formed [OF r_into_rtranclp [of repair_step, OF this] demo_repairs_inv]
  show ?thesis by simp
qed

text \<open>
  C30: the workflow does not survive concurrency. \<open>Update\<close> checks that the ticket is not confirmed
  in one statement and writes without that condition in another, so a confirmation that falls in
  between is undone: a run of two requests leads from a confirmed ticket to a processing one.
\<close>

theorem confirmed_ticket_reopened:
  "\<exists>s t. repair_step\<^sup>*\<^sup>* \<lparr>rs_db = demo_repairs, rs_pending = []\<rparr> s \<and> ticket_status (rs_db s) 1 = Some ''confirmed'' \<and>
     repair_step s t \<and> ticket_status (rs_db t) 1 = Some ''processing''"
proof -
  let ?u = "WriteUpdate 1 \<lparr>ru_status = ''processing'', ru_remark = []\<rparr> 5"
  let ?s0 = "\<lparr>rs_db = demo_repairs, rs_pending = []\<rparr>"
  let ?s1 = "\<lparr>rs_db = demo_repairs, rs_pending = [?u]\<rparr>"
  let ?s2 = "\<lparr>rs_db = demo_repairs, rs_pending = [?u, WriteConfirm 1]\<rparr>"
  let ?s3 = "\<lparr>rs_db = run_write 2 (WriteConfirm 1) demo_repairs, rs_pending = [?u]\<rparr>"
  let ?s4 = "\<lparr>rs_db = run_write 3 ?u (run_write 2 (WriteConfirm 1) demo_repairs), rs_pending = []\<rparr>"
  obtain v where v: "select_repair 1 demo_repairs = Some v" "rp_status (rv_repair v) = ''completed''"
    by (simp add: select_repair_def find_repair_def demo_repairs_def demo_ticket_def repair_view_of_def
        find_classroom_def find_user_def)
  have "repair_step ?s0 ?s1"
    using repair_step.update_reads [of 1 ?s0 v "\<lparr>ru_status = ''processing'', ru_remark = []\<rparr>" 5] v
    by (simp add: update_allowed_def)
  moreover have "repair_step ?s1 ?s2" using repair_step.confirm_reads [of 1 ?s1 v] v by simp
  moreover have "repair_step ?s2 ?s3" using repair_step.writes [of ?s2 "[?u]" "WriteConfirm 1" "[]" 2] by simp
  ultimately have "repair_step\<^sup>*\<^sup>* ?s0 ?s3" by (meson converse_rtranclp_into_rtranclp rtranclp.rtrancl_refl)
  moreover have "repair_step ?s3 ?s4" using repair_step.writes [of ?s3 "[]" ?u "[]" 3] by simp
  moreover have "ticket_status (rs_db ?s3) 1 = Some ''confirmed''" "ticket_status (rs_db ?s4) 1 = Some ''processing''"
    by (simp_all add: ticket_status_def find_repair_def demo_repairs_def demo_ticket_def
        confirm_repair_row_def update_repair_row_def nul_in_def)
  ultimately show ?thesis by blast
qed

text \<open>
  The condition that \<open>Page\<close> builds is well numbered for every combination of filters: its
  placeholders are $1, $2, ... in the order of the arguments, none missing and none left over, and
  the LIMIT clause continues the numbering.
\<close>

theorem repair_where_numbered:
  "numbered (repair_where f q viewer admin) \<and>
   numbered (append_limit p (fst (repair_where f q viewer admin)) (snd (repair_where f q viewer admin)))"
proof -
  have in_list: "numbered (fst qa @ '' AND r.status IN ('' @ placeholders (int (length (snd qa)) + 1) (int (length xs)) @ '')'',
      snd qa @ map AStr xs)" if "numbered qa" "xs \<noteq> []" for qa xs
    using numbered_in_list [OF that(1), of "'' AND r.status IN (''" "'')''" "map AStr xs"] that(2)
    by (simp add: is_digit_def)
  have start: "numbered ('' WHERE 1=1'', [])" by (rule numbered_start) simp
  have where': "numbered (repair_where f q viewer admin)"
    unfolding repair_where_def
    by (intro numbered_let; (rule start)?;
        (intro numbered_if numbered_let; (assumption | (rule in_list, assumption, assumption) | (simp add: Let_def; intro numbered_bind; simp add: is_digit_def) | (intro numbered_bind; simp add: is_digit_def))))
  moreover have "numbered (append_limit p (fst (repair_where f q viewer admin)) (snd (repair_where f q viewer admin)))"
    using where' well_numbered_append_limit unfolding numbered_def by (metis prod.collapse)
  ultimately show ?thesis by blast
qed

end
