(* ===== verification/Jwc_Parse.thy ===== *)
theory Jwc_Parse
  imports Schedule
begin

text \<open>
  Cell parsers of the registrar import (\<open>importer/jwc/expand.go\<close>, \<open>teaching.go\<close>): period ranges,
  weekdays, week expressions and their expansion to dates, admin-class sets, and the synthesis of
  teaching-class names. The two cells that can make Go code panic or loop return an outcome.
\<close>

subsection \<open>Periods and weekdays\<close>

text \<open>The error messages carry the trimmed cell.\<close>

datatype jwc_error =
  EmptyPeriod | BadPeriod string
| EmptyWeekday | BadWeekday string
| EmptyWeeks | BadWeeks string | NoWeeks string

definition parse_periods :: "string \<Rightarrow> jwc_error + (int \<times> int)" where
  "parse_periods cell =
     (let s = trim_space cell in
      if s = [] then Inl EmptyPeriod
      else (case cut (CHR ''-'') s of (x, rest) \<Rightarrow>
        (case atoi (trim_space x) of
           None \<Rightarrow> Inl (BadPeriod s)
         | Some a \<Rightarrow>
           if a < 1 then Inl (BadPeriod s)
           else (case rest of
               None \<Rightarrow> Inr (a, a)
             | Some y \<Rightarrow> (case atoi (trim_space y) of
                 None \<Rightarrow> Inl (BadPeriod s)
               | Some b \<Rightarrow> if b < a then Inl (BadPeriod s) else Inr (a, b))))))"

definition parse_weekday :: "string \<Rightarrow> jwc_error + int" where
  "parse_weekday cell =
     (let s = trim_space cell in
      if s = [] then Inl EmptyWeekday
      else (case atoi s of
          None \<Rightarrow> Inl (BadWeekday s)
        | Some n \<Rightarrow> if n < 1 \<or> n > 7 then Inl (BadWeekday s) else Inr n))"

lemma parse_periods_range: "parse_periods s = Inr (a, b) \<Longrightarrow> 1 \<le> a \<and> a \<le> b \<and> b \<le> max_int64"
  by (auto simp: parse_periods_def Let_def split: if_splits prod.splits option.splits dest: atoi_range)

lemma parse_weekday_range: "parse_weekday s = Inr n \<Longrightarrow> 1 \<le> n \<and> n \<le> 7"
  by (auto simp: parse_weekday_def Let_def split: if_splits option.splits)

subsection \<open>Week expressions\<close>

definition odd_mark :: string where "odd_mark = hx ''e58d95''"
definition even_mark :: string where "even_mark = hx ''e58f8c''"

datatype parity = AnyWeek | OddWeeks | EvenWeeks

fun keeps_week :: "parity \<Rightarrow> int \<Rightarrow> bool" where
  "keeps_week AnyWeek w \<longleftrightarrow> True"
| "keeps_week OddWeeks w \<longleftrightarrow> \<not> w mod 2 = 0"
| "keeps_week EvenWeeks w \<longleftrightarrow> \<not> w mod 2 = 1"

definition segment_parity :: "string \<Rightarrow> parity \<times> string" where
  "segment_parity seg =
     (if suffix odd_mark seg then (OddWeeks, trim_space (trim_suffix odd_mark seg))
      else if suffix even_mark seg then (EvenWeeks, trim_space (trim_suffix even_mark seg))
      else (AnyWeek, seg))"

definition segment_bounds :: "string \<Rightarrow> (int \<times> int) option" where
  "segment_bounds seg =
     (let seg = trim_space (trim_set ''[]'' seg) in
      case cut (CHR ''-'') seg of
        (x, Some y) \<Rightarrow>
          (case (atoi (trim_space x), atoi (trim_space y)) of
             (Some a, Some b) \<Rightarrow> if a < 1 \<or> b < a then None else Some (a, b)
           | _ \<Rightarrow> None)
      | (_, None) \<Rightarrow>
          (case atoi seg of None \<Rightarrow> None | Some a \<Rightarrow> if a < 1 then None else Some (a, a)))"

text \<open>One segment of the expression; \<open>acc\<close> are the keys of the map \<open>set\<close> so far.\<close>

definition expand_segment ::
  "string \<Rightarrow> string \<Rightarrow> jwc_error + int list \<Rightarrow> (jwc_error + int list) outcome" where
  "expand_segment s seg res = (case res of Inl e \<Rightarrow> Ret (Inl e)
   | Inr acc \<Rightarrow>
     (let seg = trim_space seg in
      if seg = [] then Ret (Inr acc)
      else (case segment_parity seg of (par, seg) \<Rightarrow>
        (case segment_bounds seg of
           None \<Rightarrow> Ret (Inl (BadWeeks s))
         | Some (a, b) \<Rightarrow> obind (go_range a b) (\<lambda>ws. Ret (Inr (acc @ filter (keeps_week par) ws)))))))"

definition expand_weeks :: "string \<Rightarrow> (jwc_error + int list) outcome" where
  "expand_weeks cell =
     (let s = trim_space cell in
      if s = [] then Ret (Inl EmptyWeeks)
      else obind (ofold (expand_segment s) (split_on (CHR '','') s) (Inr [])) (\<lambda>r. case r of
          Inl e \<Rightarrow> Ret (Inl e)
        | Inr acc \<Rightarrow> if acc = [] then Ret (Inl (NoWeeks s)) else Ret (Inr (sort (remdups acc)))))"

definition week_date :: "int \<Rightarrow> int \<Rightarrow> int \<Rightarrow> int" where
  "week_date week1_monday week weekday =
     week1_monday + wrap64 (wrap64 (wrap64 (week - 1) * 7) + (weekday - 1))"

record session_cell =
  sc_date :: string
  sc_start :: int
  sc_end :: int
  sc_classroom :: string

definition expand_slot ::
  "string \<Rightarrow> int \<Rightarrow> int \<Rightarrow> int \<Rightarrow> int list \<Rightarrow> int \<Rightarrow> session_cell list" where
  "expand_slot classroom weekday a b weeks week1_monday =
     map (\<lambda>w. \<lparr>sc_date = format_date (week_date week1_monday w weekday), sc_start = a, sc_end = b,
       sc_classroom = classroom\<rparr>) weeks"

subsection \<open>Admin-class sets\<close>

definition parse_admin_set :: "string \<Rightarrow> string list \<times> bool" where
  "parse_admin_set s =
     (let members = first_wins (\<lambda>p. p \<noteq> []) (\<lambda>p. p) [] (map trim_space (split_on (CHR '','') s))
      in (members, members \<noteq> []))"

definition admin_set_key :: "string list \<Rightarrow> string" where
  "admin_set_key members = go_join '','' (sort members)"

subsection \<open>Names of teaching classes\<close>

definition max_name_len :: nat where "max_name_len = 64"

definition split_trailing_digits :: "string \<Rightarrow> string \<times> string" where
  "split_trailing_digits s =
     (rev (dropWhile is_digit (rev s)), rev (takeWhile is_digit (rev s)))"

definition grade_for :: "string \<Rightarrow> string \<Rightarrow> string" where
  "grade_for name source =
     (if trim_space source \<noteq> [] then trim_space source
      else let digits = snd (split_trailing_digits name)
           in if length digits < 2 then [] else ''20'' @ take 2 digits)"

record name_entry =
  ne_num :: int
  ne_has_num :: bool
  ne_name :: string

text \<open>\<open>strconv.Atoi\<close> returns the nearest bound together with a range error, and the error is dropped.\<close>

definition name_entry_of :: "string \<Rightarrow> name_entry" where
  "name_entry_of m =
     (let digits = snd (split_trailing_digits m)
      in if digits = [] then \<lparr>ne_num = 0, ne_has_num = False, ne_name = m\<rparr>
         else \<lparr>ne_num = atoi_saturated digits, ne_has_num = True, ne_name = m\<rparr>)"

text \<open>
  The run loop: starting at an entry, extend the run while the next number is the successor (in
  64-bit arithmetic), then emit the run or the single name.
\<close>

fun run_end :: "int \<Rightarrow> name_entry list \<Rightarrow> int \<times> name_entry list \<times> nat" where
  "run_end n [] = (n, [], 0)"
| "run_end n (e # es) =
     (if ne_num e = wrap64 (n + 1) then (case run_end (ne_num e) es of (m, rest, k) \<Rightarrow> (m, rest, Suc k))
      else (n, e # es, 0))"

lemma run_end_shorter: "run_end n es = (m, rest, k) \<Longrightarrow> length rest \<le> length es"
  by (induction n es arbitrary: m rest k rule: run_end.induct) (auto split: if_splits prod.splits)

function compress_runs :: "string \<Rightarrow> name_entry list \<Rightarrow> string list" where
  "compress_runs pfx [] = []"
| "compress_runs pfx (e # es) =
     (case run_end (ne_num e) es of (m, rest, k) \<Rightarrow>
        (if k > 0 then pfx @ itoa (ne_num e) @ ''~'' @ itoa m else ne_name e) # compress_runs pfx rest)"
  by pat_completeness auto
termination
  by (relation "measure (length \<circ> snd)") (auto dest!: run_end_shorter [OF sym])

definition compress_group :: "string \<Rightarrow> string list \<Rightarrow> string list" where
  "compress_group pfx ms =
     (let es = map name_entry_of ms
      in compress_runs pfx (sort_key ne_num (filter ne_has_num es)) @
         map ne_name (filter (\<lambda>e. \<not> ne_has_num e) es))"

definition compress_name :: "string list \<Rightarrow> string" where
  "compress_name members =
     (let pfx_of = (\<lambda>m. fst (split_trailing_digits m));
          order = first_wins (\<lambda>_. True) (\<lambda>p. p) [] (map pfx_of members)
      in go_join '','' (concat (map (\<lambda>pfx.
           compress_group pfx (filter (\<lambda>m. pfx_of m = pfx) members)) order)))"

text \<open>The fallback reads \<open>members[1]\<close>, which panics when there is only one member.\<close>

definition teaching_class_name :: "string list \<Rightarrow> (string \<times> string) outcome" where
  "teaching_class_name members =
     (let name = compress_name members in
      if rune_count name \<le> max_name_len then Ret (name, [])
      else (case members of
          m0 # m1 # _ \<Rightarrow> Ret (m0 @ '','' @ m1 @ hx ''e7ad89'' @ itoa (int (length members)) @ hx ''e78fad'',
                            go_join '','' members)
        | _ \<Rightarrow> Panic))"

subsection \<open>What a week expression denotes\<close>

text \<open>
  The reading of one segment: \<open>None\<close> is malformed, \<open>Some None\<close> a blank segment, otherwise parity and
  bounds. The reference meaning of an expression is the union of its segments.
\<close>

definition read_segment :: "string \<Rightarrow> (parity \<times> int \<times> int) option option" where
  "read_segment seg =
     (let seg = trim_space seg in
      if seg = [] then Some None
      else (case segment_parity seg of (par, seg) \<Rightarrow>
        map_option (\<lambda>(a, b). Some (par, a, b)) (segment_bounds seg)))"

definition segment_weeks :: "string \<Rightarrow> int set" where
  "segment_weeks seg = (case read_segment seg of
     Some (Some (par, a, b)) \<Rightarrow> {w \<in> {a..b}. keeps_week par w} | _ \<Rightarrow> {})"

definition segment_ends :: "string \<Rightarrow> bool" where
  "segment_ends seg \<longleftrightarrow> (case read_segment seg of Some (Some (par, a, b)) \<Rightarrow> b < max_int64 | _ \<Rightarrow> True)"

lemma segment_bounds_range:
  "segment_bounds seg = Some (a, b) \<Longrightarrow> 1 \<le> a \<and> a \<le> b \<and> b \<le> max_int64"
  by (auto simp: segment_bounds_def Let_def split: if_splits prod.splits option.splits dest: atoi_range)

lemma expand_segment_step:
  assumes "read_segment seg = Some x" and "segment_ends seg"
  shows "\<exists>ws. expand_segment s seg (Inr acc) = Ret (Inr (acc @ ws)) \<and> set ws = segment_weeks seg"
proof (cases x)
  case None
  with assms(1) have "trim_space seg = []"
    by (auto simp: read_segment_def Let_def split: if_splits prod.splits option.splits)
  with None assms(1) show ?thesis
    by (intro exI [of _ "[]"]) (simp add: expand_segment_def segment_weeks_def)
next
  case (Some y)
  obtain par a b where y: "y = (par, a, b)" by (cases y) auto
  from assms(1) Some y obtain seg' where ne: "trim_space seg \<noteq> []"
    and par: "segment_parity (trim_space seg) = (par, seg')" and bd: "segment_bounds seg' = Some (a, b)"
    by (auto simp: read_segment_def Let_def split: if_splits prod.splits option.splits)
  have "b < max_int64" using assms Some y by (simp add: segment_ends_def)
  then have "go_range a b = Ret [a..b]"
    using segment_bounds_range [OF bd] go_range_eq [of a b] by (simp add: min_int64_def)
  then show ?thesis
    using ne par bd assms(1) Some y
    by (intro exI [of _ "filter (keeps_week par) [a..b]"]) (auto simp: expand_segment_def segment_weeks_def Let_def)
qed

lemma expand_segments:
  assumes "\<forall>seg \<in> set segs. read_segment seg \<noteq> None \<and> segment_ends seg"
  shows "\<exists>ws. ofold (expand_segment s) segs (Inr acc) = Ret (Inr (acc @ ws)) \<and>
    set ws = (\<Union>seg \<in> set segs. segment_weeks seg)"
  using assms
proof (induction segs arbitrary: acc)
  case Nil
  then show ?case by simp
next
  case (Cons seg segs)
  from Cons.prems obtain x where "read_segment seg = Some x" "segment_ends seg" by auto
  from expand_segment_step [OF this, of s acc] obtain ws where
    ws: "expand_segment s seg (Inr acc) = Ret (Inr (acc @ ws))" "set ws = segment_weeks seg" by blast
  from Cons.IH [of "acc @ ws"] Cons.prems obtain vs where
    "ofold (expand_segment s) segs (Inr (acc @ ws)) = Ret (Inr ((acc @ ws) @ vs))"
    "set vs = (\<Union>seg \<in> set segs. segment_weeks seg)" by auto
  with ws show ?case by (intro exI [of _ "ws @ vs"]) simp
qed

lemma ofold_Inl: "ofold (expand_segment s) segs (Inl e) = Ret (Inl e)"
  by (induction segs) (simp_all add: expand_segment_def)

lemma expand_segments_malformed:
  assumes "\<forall>seg \<in> set segs. segment_ends seg" and "\<exists>seg \<in> set segs. read_segment seg = None"
  shows "ofold (expand_segment s) segs (Inr acc) = Ret (Inl (BadWeeks s))"
  using assms
proof (induction segs arbitrary: acc)
  case Nil
  then show ?case by simp
next
  case (Cons seg segs)
  show ?case
  proof (cases "read_segment seg")
    case None
    then have "expand_segment s seg (Inr acc) = Ret (Inl (BadWeeks s))"
      by (auto simp: expand_segment_def read_segment_def Let_def split: if_splits prod.splits option.splits)
    then show ?thesis by (simp add: ofold_Inl)
  next
    case (Some x)
    from expand_segment_step [OF this, of s acc] Cons.prems(1) obtain ws where
      "expand_segment s seg (Inr acc) = Ret (Inr (acc @ ws))" by auto
    with Cons Some show ?thesis by simp
  qed
qed

lemma sort_remdups_set: "sort (remdups xs) = sorted_list_of_set (set xs)"
  by (metis sorted_list_of_set_sort_remdups)

lemma expand_weeks_good:
  assumes "trim_space cell \<noteq> []"
    and "\<forall>seg \<in> set (split_on (CHR '','') (trim_space cell)). read_segment seg \<noteq> None \<and> segment_ends seg"
  shows "expand_weeks cell =
    (let weeks = (\<Union>seg \<in> set (split_on (CHR '','') (trim_space cell)). segment_weeks seg)
     in Ret (if weeks = {} then Inl (NoWeeks (trim_space cell)) else Inr (sorted_list_of_set weeks)))"
proof -
  from expand_segments [OF assms(2), of "trim_space cell" "[]"] obtain ws where
    "ofold (expand_segment (trim_space cell)) (split_on (CHR '','') (trim_space cell)) (Inr []) = Ret (Inr ws)"
    and ws: "set ws = (\<Union>seg \<in> set (split_on (CHR '','') (trim_space cell)). segment_weeks seg)" by auto
  then show ?thesis
    using assms(1) unfolding ws [symmetric]
    by (simp add: expand_weeks_def Let_def sort_remdups_set)
qed

lemma expand_weeks_Inr:
  assumes "expand_weeks cell = Ret (Inr ws)"
  shows "sorted_wrt (<) ws \<and> ws \<noteq> [] \<and> (\<forall>w \<in> set ws. 1 \<le> w \<and> w \<le> max_int64)"
proof -
  let ?segs = "split_on (CHR '','') (trim_space cell)"
  have "trim_space cell \<noteq> []" using assms by (auto simp: expand_weeks_def)
  with assms obtain r where r: "ofold (expand_segment (trim_space cell)) ?segs (Inr []) = Ret r"
    and end': "(case r of Inl e \<Rightarrow> Ret (Inl e)
        | Inr acc \<Rightarrow> if acc = [] then Ret (Inl (NoWeeks (trim_space cell))) else Ret (Inr (sort (remdups acc)))) = Ret (Inr ws)"
    unfolding expand_weeks_def Let_def by auto
  from end' obtain acc where acc: "r = Inr acc" "acc \<noteq> []" "ws = sort (remdups acc)"
    by (cases r) (auto split: if_splits)
  note run = r [unfolded acc(1)]
  let ?P = "\<lambda>r. \<forall>acc. r = Inr acc \<longrightarrow> (\<forall>w \<in> set acc. 1 \<le> w \<and> w \<le> max_int64)"
  have "?P (Inr acc :: jwc_error + int list)"
  proof (rule ofold_invariant [OF run])
    fix seg s t
    assume P: "?P s" and step: "expand_segment (trim_space cell) seg s = Ret t"
    show "?P t"
    proof (cases s)
      case (Inl e)
      with step show ?thesis by (auto simp: expand_segment_def)
    next
      case (Inr old)
      show ?thesis
      proof (cases "trim_space seg = []")
        case True
        with step Inr P show ?thesis by (auto simp: expand_segment_def)
      next
        case False
        obtain par seg' where par: "segment_parity (trim_space seg) = (par, seg')" by fastforce
        show ?thesis
        proof (cases "segment_bounds seg'")
          case None
          with step Inr False par show ?thesis by (auto simp: expand_segment_def Let_def)
        next
          case (Some ab)
          obtain a b where ab: "ab = (a, b)" by (cases ab) auto
          note range = segment_bounds_range [OF Some [unfolded ab]]
          from step Inr False par Some ab obtain vs where vs: "go_range a b = Ret vs"
            and t: "t = Inr (old @ filter (keeps_week par) vs)"
            by (auto simp: expand_segment_def Let_def)
          from go_range_Ret [OF vs] range have "vs = [a..b]" by (auto simp: min_int64_def)
          with t P Inr range show ?thesis by auto
        qed
      qed
    qed
  qed simp
  with acc show ?thesis
    by (auto simp: sort_remdups_set sorted_list_of_set.strict_sorted_key_list_of_set)
qed

text \<open>
  C35: \<open>expandWeeks\<close> is total and exact on every cell none of whose segments runs up to the largest
  64-bit integer: a blank cell, a malformed segment and an empty selection are each their own error,
  and otherwise the answer lists, in ascending order and without repetition, exactly the weeks that
  some segment selects (its interval filtered by its parity).
\<close>

theorem expand_weeks_exact:
  assumes "\<forall>seg \<in> set (split_on (CHR '','') (trim_space cell)). segment_ends seg"
  shows "expand_weeks cell =
    (let s = trim_space cell; segs = split_on (CHR '','') s;
         weeks = (\<Union>seg \<in> set segs. segment_weeks seg)
     in Ret (if s = [] then Inl EmptyWeeks
             else if \<exists>seg \<in> set segs. read_segment seg = None then Inl (BadWeeks s)
             else if weeks = {} then Inl (NoWeeks s)
             else Inr (sorted_list_of_set weeks)))"
proof (cases "trim_space cell = []")
  case True
  then show ?thesis by (simp add: expand_weeks_def)
next
  case False
  show ?thesis
  proof (cases "\<exists>seg \<in> set (split_on (CHR '','') (trim_space cell)). read_segment seg = None")
    case True
    with False expand_segments_malformed [OF assms True] show ?thesis by (simp add: expand_weeks_def Let_def)
  next
    case False
    with expand_weeks_good [of cell] assms \<open>trim_space cell \<noteq> []\<close> show ?thesis by (simp add: Let_def)
  qed
qed

text \<open>The cell \<open>[1-3]odd,[4-6]even,[7-17]\<close> of the comment of \<open>expandWeeks\<close>, in the source's characters.\<close>

definition documented_cell :: string where
  "documented_cell = ''[1-3]'' @ odd_mark @ '',[4-6]'' @ even_mark @ '',[7-17]''"

lemma documented_cell_segments:
  "trim_space documented_cell = documented_cell"
  "split_on (CHR '','') documented_cell = [''[1-3]'' @ odd_mark, ''[4-6]'' @ even_mark, ''[7-17]'']"
  "read_segment (''[1-3]'' @ odd_mark) = Some (Some (OddWeeks, 1, 3))"
  "read_segment (''[4-6]'' @ even_mark) = Some (Some (EvenWeeks, 4, 6))"
  "read_segment ''[7-17]'' = Some (Some (AnyWeek, 7, 17))"
  by code_simp+

lemmas documented_segments = documented_cell_segments [unfolded append_Cons append_Nil]

theorem expand_weeks_exact_witness:
  "expand_weeks documented_cell = Ret (Inr [1, 3, 4, 6, 7, 8, 9, 10, 11, 12, 13, 14, 15, 16, 17])"
proof -
  let ?segs = "split_on (CHR '','') (trim_space documented_cell)"
  have ends: "\<forall>seg \<in> set ?segs. segment_ends seg"
    by (simp add: documented_segments segment_ends_def max_int64_def)
  have weeks: "(\<Union>seg \<in> set ?segs. segment_weeks seg) = set [1, 3, 4, 6, 7, 8, 9, 10, 11, 12, 13, 14, 15, 16, 17]"
  proof -
    have "{w \<in> {1..3}. keeps_week OddWeeks w} = set [1, 3 :: int]" by code_simp
    moreover have "{w \<in> {4..6}. keeps_week EvenWeeks w} = set [4, 6 :: int]" by code_simp
    moreover have "{w \<in> {7..17}. keeps_week AnyWeek w} = set [7, 8, 9, 10, 11, 12, 13, 14, 15, 16, 17 :: int]" by code_simp
    ultimately show ?thesis by (simp add: documented_segments segment_weeks_def) blast
  qed
  have "documented_cell \<noteq> []" by (simp add: documented_cell_def)
  then show ?thesis
    using expand_weeks_exact [OF ends] unfolding Let_def weeks
    by (simp add: documented_segments sorted_list_of_set_sort_remdups)
qed

text \<open>A range that ends at the largest integer never leaves the counting loop: \<open>w++\<close> wraps around.\<close>

lemma expand_weeks_hangs: "expand_weeks ''9223372036854775807'' = Hang"
proof -
  have "trim_space ''9223372036854775807'' = ''9223372036854775807''" by code_simp
  moreover have "split_on (CHR '','') ''9223372036854775807'' = [''9223372036854775807'']" by simp
  moreover have "segment_parity ''9223372036854775807'' = (AnyWeek, ''9223372036854775807'')" by code_simp
  moreover have "segment_bounds ''9223372036854775807'' = Some (max_int64, max_int64)" by code_simp
  moreover have "go_range max_int64 max_int64 = Hang"
    using go_range_eq [of max_int64 max_int64] by (simp add: max_int64_def min_int64_def)
  ultimately show ?thesis by (simp add: expand_weeks_def expand_segment_def Let_def)
qed

subsection \<open>Admin-class sets\<close>

lemma parse_admin_set_members:
  assumes "parse_admin_set s = (ms, ok)"
  shows "distinct ms \<and> (\<forall>m \<in> set ms. CHR '','' \<notin> set m \<and> m \<noteq> []) \<and> ok = (ms \<noteq> [])"
proof -
  have ms: "ms = first_wins (\<lambda>p. p \<noteq> []) (\<lambda>p. p) [] (map trim_space (split_on (CHR '','') s))" "ok = (ms \<noteq> [])"
    using assms by (auto simp: parse_admin_set_def Let_def)
  have "distinct (map (\<lambda>p. p) ms)" unfolding ms(1) by (rule first_wins_distinct)
  moreover have "CHR '','' \<notin> set m \<and> m \<noteq> []" if "m \<in> set ms" for m
  proof -
    from that first_wins_subset have "m \<in> set (map trim_space (split_on (CHR '','') s))" "m \<noteq> []"
      unfolding ms(1) by fastforce+
    then obtain x where "x \<in> set (split_on (CHR '','') s)" "m = trim_space x" by auto
    then show ?thesis using split_on_elems trim_space_set \<open>m \<noteq> []\<close> by blast
  qed
  ultimately show ?thesis using ms(2) by simp
qed

text \<open>The key is canonical: two cells have one key exactly when they name the same classes.\<close>

lemma admin_set_key_canonical:
  assumes "distinct xs" and "distinct ys"
    and "\<forall>x \<in> set xs. CHR '','' \<notin> set x \<and> x \<noteq> []" and "\<forall>y \<in> set ys. CHR '','' \<notin> set y \<and> y \<noteq> []"
  shows "admin_set_key xs = admin_set_key ys \<longleftrightarrow> set xs = set ys"
proof
  assume key: "admin_set_key xs = admin_set_key ys"
  have split: "split_on (CHR '','') (admin_set_key zs) = sort zs"
    if "zs \<noteq> []" "\<forall>z \<in> set zs. CHR '','' \<notin> set z \<and> z \<noteq> []" for zs
    unfolding admin_set_key_def
  proof (rule split_on_join)
    show "sort zs \<noteq> []" using that(1) by (metis set_empty set_sort)
  qed (use that(2) in simp)
  have empty: "admin_set_key zs = [] \<longleftrightarrow> zs = []" if "\<forall>z \<in> set zs. CHR '','' \<notin> set z \<and> z \<noteq> []" for zs
  proof
    assume k: "admin_set_key zs = []"
    show "zs = []"
    proof (rule ccontr)
      assume "zs \<noteq> []"
      have "sort zs = split_on (CHR '','') []" using split [OF \<open>zs \<noteq> []\<close> that] k by (simp only:)
      then have "sort zs = [[]]" by simp
      then have "[] \<in> set (sort zs)" by (simp only: list.set_intros)
      with that show False by (simp only: set_sort) blast
    qed
  qed (simp add: admin_set_key_def)
  show "set xs = set ys"
  proof (cases "xs = []")
    case True
    then have "admin_set_key xs = []" by (rule iffD2 [OF empty [OF assms(3)]])
    then have "ys = []" unfolding key by (rule iffD1 [OF empty [OF assms(4)]])
    with True show ?thesis by (simp only:)
  next
    case False
    have "ys \<noteq> []"
    proof
      assume "ys = []"
      then have "admin_set_key ys = []" by (rule iffD2 [OF empty [OF assms(4)]])
      then have "xs = []" unfolding key [symmetric] by (rule iffD1 [OF empty [OF assms(3)]])
      with False show False ..
    qed
    have "sort xs = sort ys"
      using split [OF False assms(3)] split [OF \<open>ys \<noteq> []\<close> assms(4)] unfolding key by (rule trans [OF sym])
    then have "set (sort xs) = set (sort ys)" by (simp only:)
    then show ?thesis by (simp only: set_sort)
  qed
next
  assume "set xs = set ys"
  then have "sort xs = sort ys"
    using assms(1,2) by (metis sorted_list_of_set_sort_remdups distinct_remdups_id)
  then show "admin_set_key xs = admin_set_key ys" by (simp add: admin_set_key_def)
qed

subsection \<open>Names\<close>

lemma split_trailing_digits_append:
  "split_trailing_digits s = (p, ds) \<Longrightarrow> s = p @ ds \<and> list_all is_digit ds"
proof -
  assume "split_trailing_digits s = (p, ds)"
  then have p: "p = rev (dropWhile is_digit (rev s))" and ds: "ds = rev (takeWhile is_digit (rev s))"
    by (simp_all add: split_trailing_digits_def)
  have "p @ ds = rev (takeWhile is_digit (rev s) @ dropWhile is_digit (rev s))"
    unfolding p ds rev_append ..
  also have "\<dots> = s" by (simp only: takeWhile_dropWhile_id rev_rev_ident)
  finally show ?thesis using ds by (auto simp: list_all_iff dest: set_takeWhileD)
qed

lemma compress_name_single: "compress_name [m] = m"
  by (auto simp: compress_name_def Let_def compress_group_def name_entry_of_def)

lemma teaching_class_name_single:
  "teaching_class_name [m] = (if rune_count m \<le> 64 then Ret (m, []) else Panic)"
  by (simp add: teaching_class_name_def compress_name_single max_name_len_def)

lemma split_trailing_digits_number:
  assumes "pfx = [] \<or> \<not> is_digit (last pfx)" and "list_all is_digit ds"
  shows "split_trailing_digits (pfx @ ds) = (pfx, ds)"
proof -
  have "takeWhile is_digit (rev ds @ rev pfx) = rev ds @ takeWhile is_digit (rev pfx)"
    by (rule takeWhile_append2) (use assms(2) in \<open>simp add: list_all_iff\<close>)
  moreover have "dropWhile is_digit (rev ds @ rev pfx) = dropWhile is_digit (rev pfx)"
    by (rule dropWhile_append2) (use assms(2) in \<open>simp add: list_all_iff\<close>)
  moreover have "takeWhile is_digit (rev pfx) = []" and "dropWhile is_digit (rev pfx) = rev pfx"
    using assms(1) by (cases "rev pfx"; auto simp: last_rev [symmetric] hd_rev)+
  ultimately show ?thesis
    by (simp add: split_trailing_digits_def)
qed

lemma itoa_int: "itoa (int k) = nat_str k"
  by (simp add: itoa_def)

definition numbered_class :: "string \<Rightarrow> nat \<Rightarrow> string" where
  "numbered_class pfx k = pfx @ nat_str k"

definition numbered_entry :: "string \<Rightarrow> nat \<Rightarrow> name_entry" where
  "numbered_entry pfx k = \<lparr>ne_num = int k, ne_has_num = True, ne_name = numbered_class pfx k\<rparr>"

lemma numbered_entry_simps [simp]:
  "ne_num (numbered_entry pfx k) = int k" "ne_has_num (numbered_entry pfx k)"
  by (simp_all add: numbered_entry_def)

lemma name_entry_of_numbered:
  assumes "pfx = [] \<or> \<not> is_digit (last pfx)" and "int k \<le> max_int64"
  shows "name_entry_of (numbered_class pfx k) = numbered_entry pfx k"
  using split_trailing_digits_number [OF assms(1) nat_str_digits, of k] assms(2)
  by (simp add: name_entry_of_def numbered_class_def numbered_entry_def atoi_saturated_def)

lemma run_end_consecutive:
  "int (a + n) \<le> max_int64 \<Longrightarrow>
   run_end (int a) (map (numbered_entry pfx) [Suc a..<Suc (a + n)]) = (int (a + n), [], n)"
proof (induction n arbitrary: a)
  case 0
  then show ?case by simp
next
  case (Suc n)
  have "[Suc a..<Suc (a + Suc n)] = Suc a # [Suc (Suc a)..<Suc (Suc a + n)]" by (simp add: upt_conv_Cons)
  moreover have "wrap64 (int a + 1) = int a + 1"
    using Suc.prems by (intro wrap64_id) (auto simp: min_int64_def)
  ultimately show ?case using Suc.IH [of "Suc a"] Suc.prems by (simp add: algebra_simps)
qed

lemma first_wins_constant:
  "\<forall>x \<in> set xs. x = k \<Longrightarrow> k \<in> set seen \<Longrightarrow> first_wins (\<lambda>_. True) (\<lambda>p. p) seen xs = []"
  by (induction xs) auto

lemma sorted_map_int_upt: "sorted (map int [a..<b])"
  by (induction b) (auto simp: sorted_append)

text \<open>
  A set of consecutively numbered classes of one prefix, in any order, is named by its first and
  last number: for \<open>n >= 1\<close> the members \<open>pfx a\<close>, \<open>pfx (a+1)\<close>, ..., \<open>pfx (a+n)\<close> give \<open>pfx a~(a+n)\<close>
  with an empty note, whenever that name fits the column.
\<close>

theorem consecutive_classes_name:
  assumes "mset ms = mset (map (numbered_class pfx) [a..<Suc (a + n)])" and "0 < n"
    and "pfx = [] \<or> \<not> is_digit (last pfx)" and "int (a + n) \<le> max_int64"
    and "rune_count (pfx @ nat_str a @ ''~'' @ nat_str (a + n)) \<le> 64"
  shows "teaching_class_name ms = Ret (pfx @ nat_str a @ ''~'' @ nat_str (a + n), [])"
proof -
  let ?ks = "[a..<Suc (a + n)]"
  have small: "int k \<le> max_int64" if "k \<in> set ?ks" for k using that assms(4) by auto
  have members: "m \<in> set ms \<longleftrightarrow> m \<in> numbered_class pfx ` set ?ks" for m
    using assms(1) by (metis set_map set_mset_mset)
  have "mset (map name_entry_of ms) = mset (map name_entry_of (map (numbered_class pfx) ?ks))"
    using assms(1) by (simp only: mset_map)
  also have "map name_entry_of (map (numbered_class pfx) ?ks) = map (numbered_entry pfx) ?ks"
    unfolding map_map using name_entry_of_numbered [OF assms(3) small] by (intro map_cong) (auto simp only: o_def)
  finally have entries: "mset (map name_entry_of ms) = mset (map (numbered_entry pfx) ?ks)" .
  have all_num: "\<forall>e \<in> set (map name_entry_of ms). ne_has_num e"
    using mset_eq_setD [OF entries] by auto
  then have nums: "filter ne_has_num (map name_entry_of ms) = map name_entry_of ms"
    and nonums: "filter (\<lambda>e. \<not> ne_has_num e) (map name_entry_of ms) = []"
    by (auto simp: filter_id_conv filter_empty_conv)
  have "sort_key ne_num (map name_entry_of ms) = map (numbered_entry pfx) ?ks"
  proof (rule sort_key_inj_key_eq)
    show "inj_on ne_num (set (map name_entry_of ms))"
      unfolding mset_eq_setD [OF entries] by (auto simp: inj_on_def)
    show "sorted (map ne_num (map (numbered_entry pfx) ?ks))"
      by (simp only: map_map o_def numbered_entry_simps sorted_map_int_upt)
  qed (rule entries)
  moreover have "?ks = a # [Suc a..<Suc (a + n)]" by (simp add: upt_conv_Cons)
  ultimately have "compress_group pfx ms = [pfx @ nat_str a @ ''~'' @ nat_str (a + n)]"
    using run_end_consecutive [of a n pfx] assms(2,4)
    unfolding compress_group_def Let_def nums nonums itoa_int [symmetric] by simp
  moreover have pfxs: "\<forall>m \<in> set ms. fst (split_trailing_digits m) = pfx"
    using members split_trailing_digits_number [OF assms(3) nat_str_digits] by (auto simp: numbered_class_def)
  moreover have "ms \<noteq> []" using assms(1) by auto
  moreover have "first_wins (\<lambda>_. True) (\<lambda>p. p) [] (map (\<lambda>m. fst (split_trailing_digits m)) ms) = [pfx]"
    using pfxs \<open>ms \<noteq> []\<close> by (cases ms) (auto intro!: first_wins_constant)
  ultimately have "compress_name ms = pfx @ nat_str a @ ''~'' @ nat_str (a + n)"
    by (simp add: compress_name_def Let_def filter_True)
  then show ?thesis using assms(5) by (simp add: teaching_class_name_def max_name_len_def)
qed

theorem consecutive_classes_name_witness:
  "teaching_class_name [''UC243'', ''UC241'', ''UC242''] = Ret (''UC241~243'', [])"
proof -
  have strs: "nat_str 241 = ''241''" "nat_str 242 = ''242''" "nat_str 243 = ''243''" by code_simp+
  have "[241..<Suc (241 + 2)] = [241, 242, 243 :: nat]" by (simp add: upt_conv_Cons)
  then show ?thesis
    using consecutive_classes_name [of "[''UC243'', ''UC241'', ''UC242'']" "''UC''" 241 2]
    by (simp add: numbered_class_def strs rune_count_ascii is_digit_def max_int64_def add_mset_commute)
qed

text \<open>
  C39: \<open>teachingClassName\<close> always terminates, and its only run-time panic is the fallback's read of a
  second member that does not exist: a set with exactly one class, whose name is longer than the
  64-rune column.
\<close>

theorem teaching_class_name_panics:
  "teaching_class_name ms \<noteq> Hang \<and>
   (teaching_class_name ms = Panic \<longleftrightarrow> (\<exists>m. ms = [m] \<and> rune_count m > 64))"
proof (cases ms)
  case Nil
  have "rune_count [] = 0" by (simp add: rune_count_ascii)
  with Nil show ?thesis by (simp add: teaching_class_name_def compress_name_def max_name_len_def)
next
  case (Cons m ms')
  show ?thesis
  proof (cases ms')
    case Nil
    with Cons show ?thesis by (simp add: teaching_class_name_single)
  next
    case (Cons m' ms'')
    with \<open>ms = m # ms'\<close> show ?thesis by (simp add: teaching_class_name_def Let_def)
  qed
qed

text \<open>
  Two different sets can get one name: the number of a run is printed without its leading zeros.
  And the fallback can exceed the column that it exists to respect.
\<close>

lemma names_collide:
  "teaching_class_name [''X01'', ''X02''] = Ret (''X1~2'', [])"
  "teaching_class_name [''X1'', ''X2''] = Ret (''X1~2'', [])"
  by code_simp+

lemma fallback_too_long:
  "teaching_class_name [replicate 40 (CHR ''a''), replicate 40 (CHR ''b'')] =
     Ret (replicate 40 (CHR ''a'') @ '','' @ replicate 40 (CHR ''b'') @ hx ''e7ad89'' @ ''2'' @ hx ''e78fad'',
       replicate 40 (CHR ''a'') @ '','' @ replicate 40 (CHR ''b''))"
  by code_simp

end
