(* ===== verification/Classroom.thy ===== *)
theory Classroom
  imports Campus
begin

text \<open>
  Rooms (\<open>internal/classroom\<close>): validation of the input, the store with its search and
  availability queries, and the HTTP handlers. The comparison of characters that ILIKE makes
  (database collation) is the parameter \<open>eq\<close>.
\<close>

subsection \<open>Input\<close>

record classroom_input =
  ci_name :: string
  ci_building :: string
  ci_capacity :: int
  ci_type :: string
  ci_floor :: string
  ci_campus :: string
  ci_status :: string
  ci_description :: string

definition valid_types :: "string list" where
  "valid_types = [''standard'', ''multimedia'', ''computer'', ''lab'', ''lecture_hall'', ''stadium'',
     ''drawing'', ''language'', ''studio'', ''special'']"

definition valid_statuses :: "string list" where
  "valid_statuses = [''available'', ''maintenance'', ''disabled'']"

text \<open>The length loop: the first field that is too long decides the message.\<close>

fun first_too_long :: "(string \<times> string \<times> nat) list \<Rightarrow> string option" where
  "first_too_long [] = None"
| "first_too_long ((field, v, n) # cs) =
     (case max_runes field v n of Some msg \<Rightarrow> Some msg | None \<Rightarrow> first_too_long cs)"

definition length_caps :: "classroom_input \<Rightarrow> (string \<times> string \<times> nat) list" where
  "length_caps inp = [(''name'', ci_name inp, 64), (''building'', ci_building inp, 64),
     (''floor'', ci_floor inp, 16), (''campus'', ci_campus inp, 32),
     (''description'', ci_description inp, 255)]"

definition normalize_input :: "classroom_input \<Rightarrow> classroom_input \<times> string option" where
  "normalize_input inp =
     (let inp = inp\<lparr>ci_name := trim_space (ci_name inp), ci_building := trim_space (ci_building inp),
          ci_floor := trim_space (ci_floor inp), ci_campus := trim_space (ci_campus inp),
          ci_description := trim_space (ci_description inp)\<rparr>
      in if ci_name inp = [] then (inp, Some ''name is required'')
         else if ci_capacity inp \<le> 0 then (inp, Some ''capacity must be greater than 0'')
         else if ci_type inp \<noteq> [] \<and> ci_type inp \<notin> set valid_types
           then (inp, Some ''invalid classroom type'')
         else let inp = (if ci_type inp = [] then inp\<lparr>ci_type := ''standard''\<rparr> else inp)
           in if ci_status inp \<noteq> [] \<and> ci_status inp \<notin> set valid_statuses
              then (inp, Some ''invalid classroom status'')
              else let inp = (if ci_status inp = [] then inp\<lparr>ci_status := ''available''\<rparr> else inp)
                in (inp, first_too_long (length_caps inp)))"

subsection \<open>SQL statements\<close>

definition in_widths :: "classroom_input \<Rightarrow> bool" where
  "in_widths inp \<longleftrightarrow> rune_count (ci_name inp) \<le> 64 \<and> rune_count (ci_building inp) \<le> 64 \<and>
     rune_count (ci_type inp) \<le> 32 \<and> rune_count (ci_floor inp) \<le> 16 \<and>
     rune_count (ci_campus inp) \<le> 32 \<and> rune_count (ci_status inp) \<le> 32 \<and>
     rune_count (ci_description inp) \<le> 255"

definition classroom_row :: "int \<Rightarrow> int \<Rightarrow> classroom_input \<Rightarrow> classroom" where
  "classroom_row i now inp = \<lparr>cl_id = i, cl_name = ci_name inp, cl_building = ci_building inp,
     cl_capacity = ci_capacity inp, cl_type = ci_type inp, cl_floor = ci_floor inp,
     cl_campus = ci_campus inp, cl_status = ci_status inp, cl_description = ci_description inp,
     cl_created_at = now\<rparr>"

definition insert_classroom :: "int \<Rightarrow> classroom_input \<Rightarrow> campus_db \<Rightarrow> int written \<times> campus_db" where
  "insert_classroom now inp d =
     (if \<not> fits32 (ci_capacity inp) then (Rejected, d)
      else if \<not> in_widths inp then (Rejected, d\<lparr>cd_next_classroom := cd_next_classroom d + 1\<rparr>)
      else if ci_name inp \<in> cl_name ` set (cd_classrooms d)
      then (Duplicate, d\<lparr>cd_next_classroom := cd_next_classroom d + 1\<rparr>)
      else (Done (cd_next_classroom d),
        d\<lparr>cd_classrooms := cd_classrooms d @ [classroom_row (cd_next_classroom d) now inp],
          cd_next_classroom := cd_next_classroom d + 1\<rparr>))"

definition update_classroom_row :: "int \<Rightarrow> classroom_input \<Rightarrow> campus_db \<Rightarrow> unit written \<times> campus_db" where
  "update_classroom_row i inp d =
     (let hit = i \<in> cl_id ` set (cd_classrooms d) in
      if \<not> fits32 (ci_capacity inp) \<or> hit \<and> \<not> in_widths inp then (Rejected, d)
      else if hit \<and> list_ex (\<lambda>c. cl_id c \<noteq> i \<and> cl_name c = ci_name inp) (cd_classrooms d)
      then (Duplicate, d)
      else (Done (), d\<lparr>cd_classrooms := map (\<lambda>c. if cl_id c = i
               then classroom_row i (cl_created_at c) inp else c) (cd_classrooms d)\<rparr>))"

definition classroom_references :: "int \<Rightarrow> campus_db \<Rightarrow> int \<times> int" where
  "classroom_references i d =
     (int (length (filter (\<lambda>s. ss_classroom s = i) (cd_sessions d))),
      int (length (filter (\<lambda>b. bk_classroom b = i) (cd_bookings d))))"

definition delete_classroom_row :: "int \<Rightarrow> campus_db \<Rightarrow> int \<times> campus_db" where
  "delete_classroom_row i d =
     (int (length (filter (\<lambda>c. cl_id c = i) (cd_classrooms d))),
      d\<lparr>cd_classrooms := filter (\<lambda>c. cl_id c \<noteq> i) (cd_classrooms d)\<rparr>)"

definition contains :: "(char \<Rightarrow> char \<Rightarrow> bool) \<Rightarrow> string \<Rightarrow> string \<Rightarrow> bool" where
  "contains eq q s \<longleftrightarrow> like eq (like_pattern (escape_like q)) s"

definition classroom_matches :: "(char \<Rightarrow> char \<Rightarrow> bool) \<Rightarrow> string \<Rightarrow> classroom \<Rightarrow> bool" where
  "classroom_matches eq q c \<longleftrightarrow> q = [] \<or> contains eq q (cl_name c) \<or> contains eq q (cl_building c)"

definition by_capacity :: "classroom list \<Rightarrow> classroom list" where
  "by_capacity = sort_key (\<lambda>c. (cl_capacity c, cl_id c))"

subsection \<open>Store\<close>

datatype classroom_error =
  ClassroomNotFound | ClassroomNameTaken | ClassroomInUse int int | ClassroomDb string

type_synonym 'a classroom_action = "(campus_db, classroom_error, 'a) action"

definition list_classrooms :: "classroom list classroom_action" where
  "list_classrooms = query (ClassroomDb ''list classrooms'') (\<lambda>d. sort_key cl_id (cd_classrooms d))"

definition page_classrooms ::
  "(char \<Rightarrow> char \<Rightarrow> bool) \<Rightarrow> string \<Rightarrow> pagination \<Rightarrow> (classroom list \<times> int) classroom_action" where
  "page_classrooms eq q p =
     dbind (query_row (ClassroomDb ''page classrooms'') (ClassroomDb ''page classrooms'')
        (\<lambda>d. limit_rows p (filter (classroom_matches eq q) (sort_key cl_id (cd_classrooms d))))) (\<lambda>cs.
     dbind (query (ClassroomDb ''count rows'')
        (\<lambda>d. int (length (filter (classroom_matches eq q) (cd_classrooms d))))) (\<lambda>n. dret (cs, n)))"

record classroom_filter =
  cf_q :: string
  cf_building :: string
  cf_type :: string
  cf_capacity_min :: int

definition default_list_limit :: int where "default_list_limit = 200"

definition effective_limit :: "int \<Rightarrow> nat" where
  "effective_limit n = nat (if n < 1 then default_list_limit else n)"

text \<open>
  \<open>COUNT(*) OVER ()\<close> repeats the size of the whole match in every row; with no row at all the
  variable keeps its zero.
\<close>

definition window_total :: "'a list \<Rightarrow> int" where
  "window_total matched = (if matched = [] then 0 else int (length matched))"

definition list_filtered ::
  "(char \<Rightarrow> char \<Rightarrow> bool) \<Rightarrow> classroom_filter \<Rightarrow> int \<Rightarrow> (classroom list \<times> int) classroom_action" where
  "list_filtered eq f n =
     query (ClassroomDb ''list filtered classrooms'') (\<lambda>d.
       let matched = filter (\<lambda>c.
             (cf_q f \<noteq> [] \<longrightarrow> contains eq (cf_q f) (cl_name c)) \<and>
             (cf_building f \<noteq> [] \<longrightarrow> contains eq (cf_building f) (cl_building c)) \<and>
             (cf_type f \<noteq> [] \<longrightarrow> cl_type c = cf_type f) \<and>
             (cf_capacity_min f > 0 \<longrightarrow> cl_capacity c \<ge> cf_capacity_min f)) (cd_classrooms d)
       in (take (effective_limit n) (by_capacity matched), window_total matched))"

record available_filter =
  af_date :: string
  af_start :: int
  af_end :: int
  af_capacity_min :: int
  af_building :: string
  af_type :: string

definition available_room ::
  "(char \<Rightarrow> char \<Rightarrow> bool) \<Rightarrow> available_filter \<Rightarrow> int \<Rightarrow> campus_db \<Rightarrow> classroom \<Rightarrow> bool" where
  "available_room eq f date d c \<longleftrightarrow>
     cl_status c = ''available'' \<and> cl_capacity c \<ge> af_capacity_min f \<and>
     \<not> session_in_slot d (cl_id c) date (af_start f) (af_end f) \<and>
     \<not> booking_in_slot d (cl_id c) date (af_start f) (af_end f) \<and>
     (af_building f \<noteq> [] \<longrightarrow> contains eq (af_building f) (cl_building c)) \<and>
     (af_type f \<noteq> [] \<longrightarrow> cl_type c = af_type f)"

text \<open>\<open>pg_date\<close> is PostgreSQL's reading of a DATE parameter; \<open>None\<close> makes the statement fail.\<close>

definition list_available ::
  "(string \<Rightarrow> int option) \<Rightarrow> (char \<Rightarrow> char \<Rightarrow> bool) \<Rightarrow> available_filter \<Rightarrow> int \<Rightarrow>
   (classroom list \<times> int) classroom_action" where
  "list_available pg_date eq f n =
     query_row (ClassroomDb ''list available classrooms'') (ClassroomDb ''list available classrooms'') (\<lambda>d.
       case pg_date (af_date f) of None \<Rightarrow> None
       | Some date \<Rightarrow>
         let matched = filter (available_room eq f date d) (cd_classrooms d)
         in Some (take (effective_limit n) (by_capacity matched), window_total matched))"

definition get_classroom :: "int \<Rightarrow> classroom classroom_action" where
  "get_classroom i =
     query_row (ClassroomDb ''get classroom by id'') ClassroomNotFound (\<lambda>d. find_classroom d i)"

definition create_classroom :: "int \<Rightarrow> classroom_input \<Rightarrow> classroom classroom_action" where
  "create_classroom now inp =
     dbind (stmt (ClassroomDb ''create classroom'') (insert_classroom now inp)) (\<lambda>w.
     case w of Duplicate \<Rightarrow> draise ClassroomNameTaken
     | Rejected \<Rightarrow> draise (ClassroomDb ''create classroom'')
     | Done i \<Rightarrow> get_classroom i)"

definition update_classroom :: "int \<Rightarrow> classroom_input \<Rightarrow> classroom classroom_action" where
  "update_classroom i inp =
     dbind (stmt (ClassroomDb ''update classroom'') (update_classroom_row i inp)) (\<lambda>w.
     case w of Duplicate \<Rightarrow> draise ClassroomNameTaken
     | Rejected \<Rightarrow> draise (ClassroomDb ''update classroom'')
     | Done _ \<Rightarrow> get_classroom i)"

definition delete_classroom :: "int \<Rightarrow> unit classroom_action" where
  "delete_classroom i =
     dbind (query (ClassroomDb ''count classroom references'') (classroom_references i)) (\<lambda>(sessions, bookings).
     if sessions > 0 \<or> bookings > 0 then draise (ClassroomInUse sessions bookings)
     else dbind (stmt (ClassroomDb ''delete classroom'') (delete_classroom_row i)) (\<lambda>n.
       if n = 0 then draise ClassroomNotFound else dret ()))"

subsection \<open>Handlers\<close>

definition listClassrooms_h ::
  "(char \<Rightarrow> char \<Rightarrow> bool) \<Rightarrow> (string \<Rightarrow> string) \<Rightarrow> campus_db conn \<Rightarrow>
   (classroom list \<times> int \<times> page_params) response \<times> campus_db conn" where
  "listClassrooms_h eq q c =
     (let p = parse_page_params q;
          pg = \<lparr>pg_limit = pp_page_size p, pg_offset = page_offset p\<rparr>
      in case page_classrooms eq (parse_search q) pg c of
           (Inl _, c') \<Rightarrow> (RespError 500 ''could not list classrooms'', c')
         | (Inr (cs, n), c') \<Rightarrow> (RespJSON 200 (cs, n, p), c'))"

definition export_classroom_row :: "classroom \<Rightarrow> string \<times> string \<times> int \<times> string \<times> string \<times> string \<times> string \<times> string" where
  "export_classroom_row c = (cl_name c, cl_building c, cl_capacity c, cl_type c, cl_floor c,
     cl_campus c, cl_status c, cl_description c)"

definition createClassroom_h ::
  "int \<Rightarrow> classroom_input option \<Rightarrow> campus_db conn \<Rightarrow> classroom response \<times> campus_db conn" where
  "createClassroom_h now body c = (case body of
     None \<Rightarrow> (RespError 400 ''invalid request body'', c)
   | Some inp \<Rightarrow> (case normalize_input inp of
       (_, Some msg) \<Rightarrow> (RespError 400 msg, c)
     | (inp, None) \<Rightarrow> (case create_classroom now inp c of
         (Inl ClassroomNameTaken, c') \<Rightarrow> (RespError 409 ''classroom name already taken'', c')
       | (Inl _, c') \<Rightarrow> (RespError 500 ''could not create classroom'', c')
       | (Inr r, c') \<Rightarrow> (RespJSON 201 r, c'))))"

definition getClassroom_h :: "string \<Rightarrow> campus_db conn \<Rightarrow> classroom response \<times> campus_db conn" where
  "getClassroom_h path_id c = (case atoi path_id of
     None \<Rightarrow> (RespError 400 ''invalid classroom id'', c)
   | Some i \<Rightarrow> (case get_classroom i c of
       (Inl ClassroomNotFound, c') \<Rightarrow> (RespError 404 ''classroom not found'', c')
     | (Inl _, c') \<Rightarrow> (RespError 500 ''could not load classroom'', c')
     | (Inr r, c') \<Rightarrow> (RespJSON 200 r, c')))"

definition updateClassroom_h ::
  "string \<Rightarrow> classroom_input option \<Rightarrow> campus_db conn \<Rightarrow> classroom response \<times> campus_db conn" where
  "updateClassroom_h path_id body c = (case atoi path_id of
     None \<Rightarrow> (RespError 400 ''invalid classroom id'', c)
   | Some i \<Rightarrow> (case body of
       None \<Rightarrow> (RespError 400 ''invalid request body'', c)
     | Some inp \<Rightarrow> (case normalize_input inp of
         (_, Some msg) \<Rightarrow> (RespError 400 msg, c)
       | (inp, None) \<Rightarrow> (case update_classroom i inp c of
           (Inl ClassroomNameTaken, c') \<Rightarrow> (RespError 409 ''classroom name already taken'', c')
         | (Inl ClassroomNotFound, c') \<Rightarrow> (RespError 404 ''classroom not found'', c')
         | (Inl _, c') \<Rightarrow> (RespError 500 ''could not update classroom'', c')
         | (Inr r, c') \<Rightarrow> (RespJSON 200 r, c')))))"

definition in_use_message :: "int \<Rightarrow> int \<Rightarrow> string" where
  "in_use_message sessions bookings =
     hx ''e8afa5e69599e5aea4e69c8920'' @ itoa sessions @ hx ''20e69da1e8afbee6aca1e38081'' @ itoa bookings @
     hx ''20e69da1e9a284e7baa6e8aeb0e5bd95efbc8ce697a0e6b395e588a0e999a4efbc9be5a682e99c80e4b88be7babfe8afb7e5b086e78ab6e68081e694b9e4b8bae7bbb4e68aa4e4b8ade68896e5819ce794a8''"

definition deleteClassroom_h :: "string \<Rightarrow> campus_db conn \<Rightarrow> unit response \<times> campus_db conn" where
  "deleteClassroom_h path_id c = (case atoi path_id of
     None \<Rightarrow> (RespError 400 ''invalid classroom id'', c)
   | Some i \<Rightarrow> (case get_classroom i c of
       (Inl ClassroomNotFound, c') \<Rightarrow> (RespError 404 ''classroom not found'', c')
     | (Inl _, c') \<Rightarrow> (RespError 500 ''could not load classroom'', c')
     | (Inr _, c1) \<Rightarrow> (case delete_classroom i c1 of
         (Inl ClassroomNotFound, c') \<Rightarrow> (RespError 404 ''classroom not found'', c')
       | (Inl (ClassroomInUse s b), c') \<Rightarrow> (RespError 409 (in_use_message s b), c')
       | (Inl _, c') \<Rightarrow> (RespError 500 ''could not delete classroom'', c')
       | (Inr _, c') \<Rightarrow> (RespJSON 204 (), c'))))"

definition classroom_routes :: "(string \<times> string) list" where
  "classroom_routes = [
     (''GET /api/classrooms'', ''classroom:read''),
     (''POST /api/classrooms'', ''classroom:manage''),
     (''GET /api/classrooms/export'', ''classroom:read''),
     (''GET /api/classrooms/{id}'', ''classroom:read''),
     (''PUT /api/classrooms/{id}'', ''classroom:manage''),
     (''DELETE /api/classrooms/{id}'', ''classroom:manage'')]"

subsection \<open>Validation\<close>

definition good_room :: "classroom_input \<Rightarrow> bool" where
  "good_room inp \<longleftrightarrow> ci_name inp \<noteq> [] \<and> 0 < ci_capacity inp \<and>
     ci_type inp \<in> set valid_types \<and> ci_status inp \<in> set valid_statuses \<and> in_widths inp"

lemma first_too_long_None:
  "first_too_long cs = None \<longleftrightarrow> (\<forall>(f, v, n) \<in> set cs. rune_count v \<le> n)"
  by (induction cs rule: first_too_long.induct) (auto simp: max_runes_def)

lemma valid_type_width: "t \<in> set valid_types \<Longrightarrow> rune_count t \<le> 32"
  and valid_status_width: "t \<in> set valid_statuses \<Longrightarrow> rune_count t \<le> 32"
  by (rule order_trans [OF rune_count_le_length], force simp: valid_types_def valid_statuses_def)+

lemma valid_defaults: "''standard'' \<in> set valid_types" "''available'' \<in> set valid_statuses"
    "[] \<notin> set valid_types" "[] \<notin> set valid_statuses"
  by (simp_all add: valid_types_def valid_statuses_def)

lemma normalize_input_good:
  assumes "normalize_input inp = (inp', None)"
  shows "good_room inp'"
  using assms valid_defaults
    valid_type_width [of "ci_type inp'"] valid_status_width [of "ci_status inp'"]
  by (auto simp: normalize_input_def Let_def good_room_def in_widths_def first_too_long_None
      length_caps_def simp del: first_too_long.simps split: if_splits)


definition trimmed_room :: "classroom_input \<Rightarrow> bool" where
  "trimmed_room inp \<longleftrightarrow> trim_space (ci_name inp) = ci_name inp \<and>
     trim_space (ci_building inp) = ci_building inp \<and> trim_space (ci_floor inp) = ci_floor inp \<and>
     trim_space (ci_campus inp) = ci_campus inp \<and> trim_space (ci_description inp) = ci_description inp"

lemma normalize_input_trimmed:
  assumes "normalize_input inp = (inp', None)"
  shows "trimmed_room inp' \<and> ci_capacity inp' = ci_capacity inp"
proof -
  have "fst (normalize_input inp) = inp'" using assms by simp
  then show ?thesis
    unfolding normalize_input_def Let_def trimmed_room_def by (auto split: if_splits)
qed

lemma normalize_input_fixed:
  assumes "good_room inp" and "trimmed_room inp"
  shows "normalize_input inp = (inp, None)"
proof -
  have "first_too_long (length_caps inp) = None"
    using assms(1) by (simp add: first_too_long_None length_caps_def good_room_def in_widths_def del: first_too_long.simps)
  moreover have "ci_type inp \<noteq> [] \<and> ci_status inp \<noteq> []"
    using assms(1) valid_defaults by (auto simp: good_room_def)
  moreover have "inp\<lparr>ci_name := trim_space (ci_name inp), ci_building := trim_space (ci_building inp),
          ci_floor := trim_space (ci_floor inp), ci_campus := trim_space (ci_campus inp),
          ci_description := trim_space (ci_description inp)\<rparr> = inp"
    using assms(2) unfolding trimmed_room_def by simp
  ultimately show ?thesis
    using assms(1) by (simp add: normalize_input_def Let_def good_room_def del: first_too_long.simps)
qed

subsection \<open>The table invariant\<close>

definition input_of :: "classroom \<Rightarrow> classroom_input" where
  "input_of c = \<lparr>ci_name = cl_name c, ci_building = cl_building c, ci_capacity = cl_capacity c,
     ci_type = cl_type c, ci_floor = cl_floor c, ci_campus = cl_campus c,
     ci_status = cl_status c, ci_description = cl_description c\<rparr>"

lemma input_of_row [simp]: "input_of (classroom_row i now inp) = inp"
  by (simp add: input_of_def classroom_row_def)

lemma classroom_row_sel [simp]:
  "cl_id (classroom_row i now inp) = i" "cl_name (classroom_row i now inp) = ci_name inp"
  by (simp_all add: classroom_row_def)

definition rooms_inv :: "campus_db \<Rightarrow> bool" where
  "rooms_inv d \<longleftrightarrow> distinct (map cl_id (cd_classrooms d)) \<and> distinct (map cl_name (cd_classrooms d)) \<and>
     (\<forall>c \<in> set (cd_classrooms d). cl_id c < cd_next_classroom d \<and> good_room (input_of c)) \<and>
     (\<forall>s \<in> set (cd_sessions d). ss_classroom s \<in> cl_id ` set (cd_classrooms d)) \<and>
     (\<forall>b \<in> set (cd_bookings d). bk_classroom b \<in> cl_id ` set (cd_classrooms d))"

lemma rooms_inv_insert:
  "good_room inp \<Longrightarrow> rooms_inv d \<Longrightarrow> rooms_inv (snd (insert_classroom now inp d))"
  unfolding rooms_inv_def insert_classroom_def by (auto simp: less_Suc_eq)

lemma rooms_inv_update:
  assumes "good_room inp" and inv: "rooms_inv d"
  shows "rooms_inv (snd (update_classroom_row i inp d))"
proof -
  let ?h = "\<lambda>c. if cl_id c = i then classroom_row i (cl_created_at c) inp else c"
  let ?cs = "map ?h (cd_classrooms d)"
  have ids: "map cl_id ?cs = map cl_id (cd_classrooms d)" by auto
  show ?thesis
  proof (cases "fst (update_classroom_row i inp d) = Done ()")
    case False
    then have "snd (update_classroom_row i inp d) = d"
      by (auto simp: update_classroom_row_def Let_def split: if_splits)
    with inv show ?thesis by simp
  next
    case True
    then have eq: "snd (update_classroom_row i inp d) = d\<lparr>cd_classrooms := ?cs\<rparr>"
      and fresh: "i \<in> cl_id ` set (cd_classrooms d) \<Longrightarrow>
        \<forall>c \<in> set (cd_classrooms d). cl_id c \<noteq> i \<longrightarrow> cl_name c \<noteq> ci_name inp"
      by (auto simp: update_classroom_row_def Let_def list_ex_iff split: if_splits)
    have "distinct (map cl_name ?cs)"
    proof (cases "i \<in> cl_id ` set (cd_classrooms d)")
      case True
      then show ?thesis
        by (intro distinct_map_update_rows [where v = "ci_name inp"])
          (use inv fresh in \<open>auto simp: rooms_inv_def\<close>)
    next
      case False
      then have "?cs = cd_classrooms d" by (intro map_idI) auto
      with inv show ?thesis by (simp only: rooms_inv_def)
    qed
    moreover have "cl_id ` set ?cs = cl_id ` set (cd_classrooms d)"
      by (metis ids list.set_map)
    moreover have "\<forall>c \<in> set ?cs. cl_id c < cd_next_classroom d \<and> good_room (input_of c)"
      using inv assms(1) by (auto simp: rooms_inv_def)
    ultimately show ?thesis unfolding eq using inv ids by (simp add: rooms_inv_def del: map_map)
  qed
qed

lemma classroom_references_zero:
  "classroom_references i d = (0, 0) \<longleftrightarrow>
     (\<forall>s \<in> set (cd_sessions d). ss_classroom s \<noteq> i) \<and> (\<forall>b \<in> set (cd_bookings d). bk_classroom b \<noteq> i)"
  by (auto simp: classroom_references_def filter_empty_conv)

lemma rooms_inv_delete:
  "rooms_inv d \<Longrightarrow> classroom_references i d = (0, 0) \<Longrightarrow> rooms_inv (snd (delete_classroom_row i d))"
proof -
  assume inv: "rooms_inv d" and "classroom_references i d = (0, 0)"
  then have free: "\<forall>s \<in> set (cd_sessions d). ss_classroom s \<noteq> i" "\<forall>b \<in> set (cd_bookings d). bk_classroom b \<noteq> i"
    by (simp_all add: classroom_references_zero)
  have ids: "cl_id ` set (filter (\<lambda>c. cl_id c \<noteq> i) (cd_classrooms d)) = cl_id ` set (cd_classrooms d) - {i}"
    by auto
  show ?thesis
    using inv free unfolding rooms_inv_def delete_classroom_row_def
    by (auto simp: ids distinct_map_filter simp del: set_filter dest: subsetD [OF filter_is_subset])
qed

lemma keeps_classroom_reads [keeps_intros]:
  "keeps P list_classrooms" "keeps P (page_classrooms eq q p)" "keeps P (get_classroom i)"
  "keeps P (list_filtered eq f n)" "keeps P (list_available pg_date eq g n)"
  unfolding list_classrooms_def page_classrooms_def get_classroom_def list_filtered_def list_available_def
  by (intro keeps_intros)+

lemma keeps_create_classroom: "good_room inp \<Longrightarrow> keeps rooms_inv (create_classroom now inp)"
  unfolding create_classroom_def by (intro keeps_intros) (rule rooms_inv_insert)

lemma keeps_update_classroom: "good_room inp \<Longrightarrow> keeps rooms_inv (update_classroom i inp)"
  unfolding update_classroom_def by (intro keeps_intros) (rule rooms_inv_update)

lemma keeps_delete_classroom: "keeps rooms_inv (delete_classroom i)"
  unfolding keeps_def evolves_def
proof (intro allI impI)
  fix c :: "campus_db conn"
  assume inv: "rooms_inv (tables c)"
  show "rooms_inv (tables (snd (delete_classroom i c)))"
  proof (cases "classroom_references i (tables c) = (0, 0)")
    case True
    with inv rooms_inv_delete [OF inv] show ?thesis
      by (auto simp: delete_classroom_def dbind_def query_def stmt_def split: list.splits bool.splits)
  next
    case False
    then have "0 < fst (classroom_references i (tables c)) \<or> 0 < snd (classroom_references i (tables c))"
      by (auto simp: classroom_references_def)
    with inv show ?thesis
      by (auto simp: delete_classroom_def dbind_def query_def stmt_def split: list.splits bool.splits prod.splits)
  qed
qed

lemma handler_classroom_error [handler_intros]:
  "(e = ClassroomNotFound \<Longrightarrow> P (tables (snd a))) \<Longrightarrow> (e = ClassroomNameTaken \<Longrightarrow> P (tables (snd b))) \<Longrightarrow>
   (\<And>x y. e = ClassroomInUse x y \<Longrightarrow> P (tables (snd (g x y)))) \<Longrightarrow>
   (\<And>s. e = ClassroomDb s \<Longrightarrow> P (tables (snd (f s)))) \<Longrightarrow>
   P (tables (snd (case e of ClassroomNotFound \<Rightarrow> a | ClassroomNameTaken \<Rightarrow> b
     | ClassroomInUse x y \<Rightarrow> g x y | ClassroomDb s \<Rightarrow> f s)))"
  by (cases e) auto

subsection \<open>Properties\<close>

text \<open>
  A room body that passes the validation satisfies, after trimming and defaulting, every
  constraint of the classrooms table except the 32-bit range of the capacity (name present,
  capacity positive, type and status in the documented vocabularies, every text within its
  column), and validating the accepted room again changes nothing.
\<close>

theorem normalize_input_accepts:
  assumes "normalize_input inp = (inp', None)"
  shows "good_room inp' \<and> trimmed_room inp' \<and> normalize_input inp' = (inp', None)"
  using normalize_input_good [OF assms] normalize_input_trimmed [OF assms] normalize_input_fixed by blast

definition demo_input :: classroom_input where
  "demo_input = \<lparr>ci_name = ''A101'', ci_building = ''A'', ci_capacity = 60, ci_type = [],
     ci_floor = [], ci_campus = [], ci_status = [], ci_description = []\<rparr>"

lemma normalize_demo_input:
  "normalize_input demo_input = (demo_input\<lparr>ci_type := ''standard'', ci_status := ''available''\<rparr>, None)"
proof -
  have "rune_count ''A101'' = 4" "rune_count ''A'' = 1" "rune_count [] = 0"
    by (simp_all add: rune_count_ascii)
  moreover have "trim_space ''A101'' = ''A101''" "trim_space ''A'' = ''A''"
    by (simp_all add: trim_space_plain plain_def)
  ultimately show ?thesis
    by (simp add: normalize_input_def demo_input_def length_caps_def max_runes_def)
qed

lemma normalize_input_accepts_witness:
  "good_room (demo_input\<lparr>ci_type := ''standard'', ci_status := ''available''\<rparr>)"
  using normalize_input_accepts [OF normalize_demo_input] by blast

text \<open>
  Create, update and delete of rooms keep the campus tables consistent under any failure of
  the database: ids and names unique, every row within the documented vocabulary and widths, and
  every session and booking still refers to an existing room.
\<close>

theorem classroom_handlers_keep_invariant:
  assumes "rooms_inv (tables c)"
  shows "rooms_inv (tables (snd (createClassroom_h now body c))) \<and>
    rooms_inv (tables (snd (updateClassroom_h path_id body c))) \<and>
    rooms_inv (tables (snd (deleteClassroom_h path_id c)))"
  unfolding createClassroom_h_def updateClassroom_h_def deleteClassroom_h_def
  by (intro conjI handler_intros [where P = rooms_inv] keeps_create_classroom keeps_update_classroom
      keeps_delete_classroom keeps_classroom_reads assms)
    (assumption | (rule normalize_input_good, simp))+

definition demo_room :: classroom where
  "demo_room = classroom_row 1 0 (demo_input\<lparr>ci_type := ''standard'', ci_status := ''available''\<rparr>)"

definition demo_campus :: campus_db where
  "demo_campus = campus_empty\<lparr>cd_classrooms := [demo_room], cd_next_classroom := 2,
     cd_users := [\<lparr>us_id = 5, us_username = ''li'', us_display_name = ''Li'', us_type = ''teacher''\<rparr>],
     cd_sessions := [\<lparr>ss_id = 1, ss_offering = 1, ss_classroom = 1, ss_date = 19800, ss_start = 3,
        ss_end = 4, ss_note = [], ss_created_at = 0\<rparr>]\<rparr>"

lemma demo_campus_inv: "rooms_inv demo_campus"
proof -
  have "good_room (demo_input\<lparr>ci_type := ''standard'', ci_status := ''available''\<rparr>)"
    by (rule normalize_input_good [OF normalize_demo_input])
  then show ?thesis by (simp add: rooms_inv_def demo_campus_def demo_room_def campus_empty_def)
qed

lemma classroom_handlers_keep_invariant_witness:
  "rooms_inv (tables (snd (deleteClassroom_h ''1'' \<lparr>tables = demo_campus, faults = [False, True]\<rparr>)))"
proof -
  have "rooms_inv (tables \<lparr>tables = demo_campus, faults = [False, True]\<rparr>)" by (simp add: demo_campus_inv)
  from classroom_handlers_keep_invariant [OF this] show ?thesis by blast
qed

text \<open>
  Deleting a room, case by case. An unknown id answers 404; a room with sessions or bookings
  (of any status) is refused with 409 and the two counts; both leave the tables as they are.
  Otherwise 204, and exactly the rows with that id are gone.
\<close>

theorem deleteClassroom_cases:
  assumes "atoi path_id = Some i"
  shows "deleteClassroom_h path_id (healthy d) =
    (let s = length (filter (\<lambda>s. ss_classroom s = i) (cd_sessions d));
         b = length (filter (\<lambda>b. bk_classroom b = i) (cd_bookings d))
     in if i \<notin> cl_id ` set (cd_classrooms d) then (RespError 404 ''classroom not found'', healthy d)
        else if s + b > 0 then (RespError 409 (in_use_message (int s) (int b)), healthy d)
        else (RespJSON 204 (), healthy (d\<lparr>cd_classrooms := filter (\<lambda>c. cl_id c \<noteq> i) (cd_classrooms d)\<rparr>)))"
proof (cases "find_classroom d i")
  case None
  then have "i \<notin> cl_id ` set (cd_classrooms d)" by (metis find_classroom_None)
  then show ?thesis using assms None by (simp add: deleteClassroom_h_def get_classroom_def Let_def)
next
  case (Some r)
  then have hit: "i \<in> cl_id ` set (cd_classrooms d)" by (metis find_classroom_None option.distinct(1))
  then have "filter (\<lambda>c. cl_id c = i) (cd_classrooms d) \<noteq> []" by (auto simp: filter_empty_conv)
  with hit Some assms show ?thesis
    by (simp add: deleteClassroom_h_def get_classroom_def delete_classroom_def classroom_references_def
        delete_classroom_row_def Let_def)
qed

lemma deleteClassroom_cases_witness:
  "deleteClassroom_h ''1'' (healthy demo_campus) = (RespError 409 (in_use_message 1 0), healthy demo_campus)"
proof -
  have "atoi ''1'' = Some 1" by code_simp
  from deleteClassroom_cases [OF this] show ?thesis
    by (simp add: demo_campus_def campus_empty_def demo_room_def)
qed

text \<open>
  The availability query. The rooms returned are sorted by capacity (ties by id), all of them
  satisfy the filter and are free of sessions and active bookings in the requested slot, the total
  counts all such rooms, and when the total is within the limit none is missing.
\<close>

theorem list_available_exact:
  assumes "pg_date (af_date f) = Some date"
    and "list_available pg_date eq f n c = (Inr (cs, total_count), c')"
  shows "sorted (map (\<lambda>c. (cl_capacity c, cl_id c)) cs) \<and>
    set cs \<subseteq> {r \<in> set (cd_classrooms (tables c)). available_room eq f date (tables c) r} \<and>
    total_count = int (length (filter (available_room eq f date (tables c)) (cd_classrooms (tables c)))) \<and>
    (total_count \<le> int (effective_limit n) \<longrightarrow>
       set cs = {r \<in> set (cd_classrooms (tables c)). available_room eq f date (tables c) r})"
proof -
  let ?m = "filter (available_room eq f date (tables c)) (cd_classrooms (tables c))"
  have res: "cs = take (effective_limit n) (by_capacity ?m)" "total_count = int (length ?m)"
    using assms unfolding list_available_def query_row_def query_def stmt_def dbind_def
    by (auto simp: Let_def window_total_def split: list.splits bool.splits)
  have "sorted (map (\<lambda>c. (cl_capacity c, cl_id c)) cs)"
    unfolding res(1) by_capacity_def take_map [symmetric] by (intro sorted_wrt_take) simp
  moreover have "set cs \<subseteq> set ?m"
    unfolding res(1) by_capacity_def by (metis set_sort set_take_subset)
  moreover have "total_count \<le> int (effective_limit n) \<Longrightarrow> set cs = set ?m"
    unfolding res by_capacity_def by (simp del: set_filter)
  ultimately show ?thesis using res(2) by simp
qed

lemma list_available_exact_witness:
  "available_room (=) \<lparr>af_date = ''2024-03-18'', af_start = 1, af_end = 2, af_capacity_min = 50,
     af_building = [], af_type = []\<rparr> 19800 demo_campus demo_room"
proof -
  let ?f = "\<lparr>af_date = ''2024-03-18'', af_start = 1, af_end = 2, af_capacity_min = 50,
     af_building = [], af_type = []\<rparr>"
  have run: "list_available (\<lambda>_. Some 19800) (=) ?f 0 (healthy demo_campus) =
      (Inr ([demo_room], 1), healthy demo_campus)"
    by (simp add: list_available_def demo_campus_def campus_empty_def available_room_def session_in_slot_def
        booking_in_slot_def overlaps_def demo_room_def classroom_row_def demo_input_def Let_def
        window_total_def by_capacity_def effective_limit_def default_list_limit_def)
  from list_available_exact [OF _ run] show ?thesis by simp
qed

end
