(* ===== verification/Jwc_Split.thy ===== *)
theory Jwc_Split
  imports Jwc_Parse Classroom
begin

text \<open>
  The split of a registrar workbook into six canonical sheets (\<open>importer/jwc/parse.go\<close>, \<open>split.go\<close>,
  over \<open>xlsx/xlsx.go\<close>). The workbook enters as the cell grid that the spreadsheet library returns, a
  sheet leaves through an encoder of the same library. A Go map is an association list in insertion
  order; every \<open>range\<close> over a map, and every \<open>sort.Slice\<close> whose keys may tie, goes through a
  permutation from a record of visiting orders, because the language leaves that order open.
\<close>

subsection \<open>Reading the workbook\<close>

datatype xlsx_error = OpenFailed string | NoSheet | ReadFailed string | EmptySheet | EmptyHeader

text \<open>\<open>lower\<close> is \<open>strings.ToLower\<close>. The index of a header is that of its first occurrence.\<close>

definition header_index :: "(string \<Rightarrow> string) \<Rightarrow> string list \<Rightarrow> (string \<times> nat) list" where
  "header_index lower header_row =
     first_wins (\<lambda>kv. fst kv \<noteq> []) fst []
       (zip (map (\<lambda>h. lower (trim_space h)) header_row) [0..<length header_row])"

definition cell_at :: "string list \<Rightarrow> nat \<Rightarrow> string" where
  "cell_at rec i = (if i < length rec then trim_space (rec ! i) else [])"

definition map_record :: "(string \<times> nat) list \<Rightarrow> string list \<Rightarrow> (string \<times> string) list" where
  "map_record idx rec = map (\<lambda>(key, i). (key, cell_at rec i)) idx"

definition map_rows ::
  "(string \<Rightarrow> string) \<Rightarrow> string list list \<Rightarrow> xlsx_error + (string list \<times> (string \<times> string) list list)" where
  "map_rows lower raw = (case raw of
     [] \<Rightarrow> Inl EmptySheet
   | header_row # recs \<Rightarrow>
       (let idx = header_index lower header_row in
        if idx = [] then Inl EmptyHeader
        else Inr (keys idx, filter (\<lambda>m. \<exists>kv \<in> set m. snd kv \<noteq> []) (map (map_record idx) recs))))"

text \<open>\<open>rec[h]\<close> of a Go map yields the empty string for a missing key.\<close>

definition field :: "(string \<times> string) list \<Rightarrow> string \<Rightarrow> string" where
  "field rec h = (case alookup rec h of None \<Rightarrow> [] | Some v \<Rightarrow> v)"

definition hBuilding :: string where "hBuilding = hx ''e69599e5ada6e6a5bc''"
definition hClassroom :: string where "hClassroom = hx ''e4b88ae8afbee69599e5aea4''"
definition hRoomType :: string where "hRoomType = hx ''e69599e5aea4e7b1bbe59e8b''"
definition hFloor :: string where "hFloor = hx ''e6a5bce5b182''"
definition hWeekday :: string where "hWeekday = hx ''e6989fe69c9f''"
definition hPeriod :: string where "hPeriod = hx ''e88a82e6aca1''"
definition hWeeks :: string where "hWeeks = hx ''e8b5b7e6ada2e591a8''"
definition hCourseSeq :: string where "hCourseSeq = hx ''e8afbee7a88be5ba8fe58fb7''"
definition hCourseCode :: string where "hCourseCode = hx ''e8afbee7a88be4bba3e7a081''"
definition hCourseName :: string where "hCourseName = hx ''e8afbee7a88be5908de7a7b0''"
definition hAdminClasses :: string where "hAdminClasses = hx ''e8a18ce694bfe78fad''"
definition hTeacherName :: string where "hTeacherName = hx ''e69599e5b888e5a793e5908d''"
definition hTeacherTitle :: string where "hTeacherTitle = hx ''e69599e5b888e8818ce7a7b0''"
definition hTeacherID :: string where "hTeacherID = hx ''e69599e5b888e5b7a5e58fb7''"
definition hMaxStudents :: string where "hMaxStudents = hx ''e4babae695b0e4b88ae99990''"
definition hCollege :: string where "hCollege = hx ''e5bc80e8afbee5ada6e999a2''"
definition hRequirement :: string where "hRequirement = hx ''e8afbee7a88be7b1bbe588abe4b880''"
definition hCategory :: string where "hCategory = hx ''e8afbee7a88be7b1bbe588abe4ba8c''"
definition hTotalHours :: string where "hTotalHours = hx ''e680bbe5ada6e697b6''"
definition hWeeklyHours :: string where "hWeeklyHours = hx ''e591a8e5ada6e697b6''"
definition hCredits :: string where "hCredits = hx ''e5ada6e58886''"
definition hExamType :: string where "hExamType = hx ''e88083e6a0b8e696b9e5bc8f''"
definition hGrade :: string where "hGrade = hx ''e5b9b4e7baa7''"
definition hCampus :: string where "hCampus = hx ''e6a0a1e58cba''"
definition hRoomCapacity :: string where "hRoomCapacity = hx ''e69599e5aea4e4babae695b0''"

record jwc_row =
  jr_building :: string
  jr_classroom :: string
  jr_room_type :: string
  jr_floor :: string
  jr_weekday :: string
  jr_period :: string
  jr_week :: string
  jr_seq :: string
  jr_code :: string
  jr_name :: string
  jr_admin :: string
  jr_teacher_name :: string
  jr_teacher_title :: string
  jr_teacher_id :: string
  jr_max_students :: string
  jr_college :: string
  jr_requirement :: string
  jr_category :: string
  jr_total_hours :: string
  jr_weekly_hours :: string
  jr_credits :: string
  jr_exam_type :: string
  jr_grade :: string
  jr_campus :: string
  jr_room_capacity :: string
  jr_row_num :: int

definition jwc_row_of :: "(string \<times> string) list \<Rightarrow> nat \<Rightarrow> jwc_row" where
  "jwc_row_of rec i =
     \<lparr>jr_building = field rec hBuilding, jr_classroom = field rec hClassroom,
      jr_room_type = field rec hRoomType, jr_floor = field rec hFloor,
      jr_weekday = field rec hWeekday, jr_period = field rec hPeriod, jr_week = field rec hWeeks,
      jr_seq = field rec hCourseSeq, jr_code = field rec hCourseCode, jr_name = field rec hCourseName,
      jr_admin = field rec hAdminClasses, jr_teacher_name = field rec hTeacherName,
      jr_teacher_title = field rec hTeacherTitle, jr_teacher_id = field rec hTeacherID,
      jr_max_students = field rec hMaxStudents, jr_college = field rec hCollege,
      jr_requirement = field rec hRequirement, jr_category = field rec hCategory,
      jr_total_hours = field rec hTotalHours, jr_weekly_hours = field rec hWeeklyHours,
      jr_credits = field rec hCredits, jr_exam_type = field rec hExamType, jr_grade = field rec hGrade,
      jr_campus = field rec hCampus, jr_room_capacity = field rec hRoomCapacity,
      jr_row_num = int i + 2\<rparr>"

definition parse_rows :: "(string \<Rightarrow> string) \<Rightarrow> string list list \<Rightarrow> xlsx_error + jwc_row list" where
  "parse_rows lower raw = (case map_rows lower raw of
     Inl e \<Rightarrow> Inl e
   | Inr (_, recs) \<Rightarrow> Inr (map (\<lambda>(rec, i). jwc_row_of rec i) (zip recs [0..<length recs])))"

subsection \<open>Groups by course sequence\<close>

datatype jwc_warning =
  NoSeq int
| BadSlot int string jwc_error
| NoRoom int string
| Parallel nat "string list"
| NoAdmin string string

record split_stats =
  ss_rows :: nat
  ss_classrooms :: nat
  ss_catalog :: nat
  ss_admin :: nat
  ss_teaching :: nat
  ss_offerings :: nat
  ss_sessions :: nat
  ss_skipped_empty :: nat
  ss_skipped_parallel :: nat
  ss_no_teacher :: nat
  ss_warnings :: "jwc_warning list"

definition warn :: "jwc_warning \<Rightarrow> split_stats \<Rightarrow> split_stats" where
  "warn w st = st\<lparr>ss_warnings := ss_warnings st @ [w]\<rparr>"

record slot =
  sl_classroom :: string
  sl_weekday :: int
  sl_start :: int
  sl_end :: int
  sl_weeks :: "int list"

record teacher =
  te_id :: string
  te_name :: string
  te_title :: string

text \<open>\<open>sg_teachers\<close> is the map \<open>teachers\<close> listed in the order of \<open>teacherOrd\<close>.\<close>

record seq_group =
  sg_seq :: string
  sg_code :: string
  sg_name :: string
  sg_members :: "string list"
  sg_admin_key :: string
  sg_college :: string
  sg_max_students :: string
  sg_requirement :: string
  sg_weekly_hours :: string
  sg_credits :: string
  sg_total_hours :: string
  sg_category :: string
  sg_exam_type :: string
  sg_grade :: string
  sg_slots :: "slot list"
  sg_slot_seen :: "string list"
  sg_teachers :: "(string \<times> teacher) list"
  sg_skipped :: bool
  sg_skip_reason :: string

definition new_seq_group :: "jwc_row \<Rightarrow> seq_group" where
  "new_seq_group r =
     (case parse_admin_set (jr_admin r) of (members, ok) \<Rightarrow>
       \<lparr>sg_seq = jr_seq r, sg_code = jr_code r, sg_name = jr_name r,
        sg_members = (if ok then members else []), sg_admin_key = (if ok then admin_set_key members else []),
        sg_college = jr_college r, sg_max_students = jr_max_students r, sg_requirement = jr_requirement r,
        sg_weekly_hours = jr_weekly_hours r, sg_credits = jr_credits r, sg_total_hours = jr_total_hours r,
        sg_category = jr_category r, sg_exam_type = jr_exam_type r, sg_grade = jr_grade r,
        sg_slots = [], sg_slot_seen = [], sg_teachers = [], sg_skipped = False, sg_skip_reason = []\<rparr>)"

definition is_non_physical :: "string \<Rightarrow> bool" where
  "is_non_physical s \<longleftrightarrow> s = hx ''e5819ce8afbe''"

definition add_teacher :: "jwc_row \<Rightarrow> seq_group \<Rightarrow> seq_group" where
  "add_teacher r g =
     (if jr_teacher_id r \<noteq> [] \<or> jr_teacher_name r \<noteq> [] then
        let key = (if jr_teacher_id r = [] then CHR 0x00 # jr_teacher_name r else jr_teacher_id r)
        in case alookup (sg_teachers g) key of
             Some _ \<Rightarrow> g
           | None \<Rightarrow> g\<lparr>sg_teachers := sg_teachers g @
               [(key, \<lparr>te_id = jr_teacher_id r, te_name = jr_teacher_name r, te_title = jr_teacher_title r\<rparr>)]\<rparr>
      else g)"

definition slot_key :: "jwc_row \<Rightarrow> string" where
  "slot_key r = go_join ''|'' [jr_classroom r, jr_weekday r, jr_period r, jr_week r]"

text \<open>What the slot part of the loop body adds to a group and to the warnings.\<close>

definition add_slot :: "jwc_row \<Rightarrow> seq_group \<Rightarrow> split_stats \<Rightarrow> (seq_group \<times> split_stats) outcome" where
  "add_slot r g st =
     (if slot_key r \<in> set (sg_slot_seen g) then Ret (g, st)
      else let g = g\<lparr>sg_slot_seen := slot_key r # sg_slot_seen g\<rparr> in
        obind (expand_weeks (jr_week r)) (\<lambda>weeks_res.
          let bad = (\<lambda>e. Ret (g, warn (BadSlot (jr_row_num r) (jr_seq r) e) st)) in
          (case parse_periods (jr_period r) of Inl e \<Rightarrow> bad e
           | Inr (a, b) \<Rightarrow> (case weeks_res of Inl e \<Rightarrow> bad e
             | Inr weeks \<Rightarrow> (case parse_weekday (jr_weekday r) of Inl e \<Rightarrow> bad e
               | Inr weekday \<Rightarrow>
                   if jr_classroom r = [] then Ret (g, warn (NoRoom (jr_row_num r) (jr_seq r)) st)
                   else if is_non_physical (jr_classroom r) then Ret (g, st)
                   else Ret (g\<lparr>sg_slots := sg_slots g @ [\<lparr>sl_classroom = jr_classroom r,
                          sl_weekday = weekday, sl_start = a, sl_end = b, sl_weeks = weeks\<rparr>]\<rparr>, st))))))"

type_synonym seq_map = "(string \<times> seq_group) list"

definition group_row :: "jwc_row \<Rightarrow> seq_map \<times> split_stats \<Rightarrow> (seq_map \<times> split_stats) outcome" where
  "group_row r s = (case s of (seqs, st) \<Rightarrow>
     if jr_seq r = [] then Ret (seqs, warn (NoSeq (jr_row_num r)) st)
     else let g = (case alookup seqs (jr_seq r) of Some g \<Rightarrow> g | None \<Rightarrow> new_seq_group r) in
       obind (add_slot r (add_teacher r g) st) (\<lambda>(g, st). Ret (aupdate (jr_seq r) g seqs, st)))"

definition group_by_seq :: "jwc_row list \<Rightarrow> split_stats \<Rightarrow> (seq_map \<times> split_stats) outcome" where
  "group_by_seq rows st = ofold group_row rows ([], st)"

subsection \<open>Rooms, catalog, admin classes\<close>

record classroom_rec =
  cr_name :: string
  cr_building :: string
  cr_capacity :: string
  cr_type :: string
  cr_floor :: string
  cr_campus :: string

definition room_type_map :: "(string \<times> string) list" where
  "room_type_map =
     [(hx ''e5a49ae5aa92e4bd93e69599e5aea4'', ''multimedia''), (hx ''e69cbae688bf'', ''computer''),
      (hx ''e5ae9ee9aa8ce5aea4'', ''lab''), (hx ''e4bd93e882b2e59cba'', ''stadium''),
      (hx ''e588b6e59bbee69599e5aea4'', ''drawing''), (hx ''e590ace58a9be69599e5aea4'', ''language''),
      (hx ''e794bbe5aea4'', ''studio''), (hx ''e4b893e794a8e69599e5aea4'', ''special''), ([], ''standard'')]"

definition map_room_type :: "string \<Rightarrow> string" where
  "map_room_type s = (case alookup room_type_map s of Some t \<Rightarrow> t | None \<Rightarrow> ''standard'')"

definition classroom_rec_of :: "jwc_row \<Rightarrow> classroom_rec" where
  "classroom_rec_of r = \<lparr>cr_name = jr_classroom r, cr_building = jr_building r,
     cr_capacity = jr_room_capacity r, cr_type = map_room_type (jr_room_type r), cr_floor = jr_floor r,
     cr_campus = jr_campus r\<rparr>"

definition build_classrooms :: "jwc_row list \<Rightarrow> classroom_rec list" where
  "build_classrooms rows = sort_key cr_name (map classroom_rec_of
     (first_wins (\<lambda>r. jr_classroom r \<noteq> [] \<and> \<not> is_non_physical (jr_classroom r)) jr_classroom [] rows))"

record catalog_rec =
  ct_name :: string
  ct_code :: string
  ct_credits :: string
  ct_total_hours :: string
  ct_category :: string
  ct_exam_type :: string

definition catalog_key :: "jwc_row \<Rightarrow> string" where
  "catalog_key r = (if jr_code r = [] then ''n:'' @ jr_name r else jr_code r)"

definition catalog_rec_of :: "jwc_row \<Rightarrow> catalog_rec" where
  "catalog_rec_of r = \<lparr>ct_name = jr_name r, ct_code = jr_code r, ct_credits = jr_credits r,
     ct_total_hours = jr_total_hours r, ct_category = jr_category r, ct_exam_type = jr_exam_type r\<rparr>"

definition build_catalog :: "jwc_row list \<Rightarrow> catalog_rec list" where
  "build_catalog rows = sort_key (\<lambda>c. (ct_code c, ct_name c))
     (map catalog_rec_of (first_wins (\<lambda>r. jr_name r \<noteq> []) catalog_key [] rows))"

text \<open>The admin classes of a row that are not in the map yet get a grade from that row.\<close>

definition add_admin_grade :: "jwc_row \<Rightarrow> string \<Rightarrow> (string \<times> string) list \<Rightarrow> (string \<times> string) list" where
  "add_admin_grade r a m =
     (case alookup m a of Some _ \<Rightarrow> m | None \<Rightarrow> m @ [(a, grade_for a (jr_grade r))])"

definition build_admin_grades :: "jwc_row list \<Rightarrow> (string \<times> string) list" where
  "build_admin_grades rows =
     fold (\<lambda>r m. case parse_admin_set (jr_admin r) of (members, ok) \<Rightarrow>
       if ok then fold (add_admin_grade r) members m else m) rows []"

subsection \<open>Visiting orders\<close>

text \<open>
  One permutation per \<open>range\<close> over a map and per sort whose keys may tie. \<open>sort.Slice\<close> may leave equal
  elements in any order, which is a stable sort after an arbitrary permutation.
\<close>

record teaching_class =
  tk_name :: string
  tk_note :: string
  tk_members :: "string list"

record offering_rec =
  of_course :: string
  of_code :: string
  of_class :: string
  of_semester :: string
  of_teacher :: string
  of_seq :: string
  of_teacher_id :: string
  of_teacher_title :: string
  of_college :: string
  of_max_students :: string
  of_requirement :: string
  of_weekly_hours :: string
  of_note :: string

record session_rec =
  se_date :: string
  se_start :: int
  se_end :: int
  se_classroom :: string
  se_course :: string
  se_code :: string
  se_class :: string
  se_semester :: string

record go_orders =
  go_mark :: "string list \<Rightarrow> string list"
  go_pairs :: "(string \<times> string) list \<Rightarrow> (string \<times> string) list"
  go_classes :: "string list \<Rightarrow> string list"
  go_names :: "string list \<Rightarrow> string list"
  go_dates :: "string list \<Rightarrow> string list"
  go_periods :: "int list \<Rightarrow> int list"
  go_tie_classes :: "teaching_class list \<Rightarrow> teaching_class list"
  go_tie_sessions :: "session_rec list \<Rightarrow> session_rec list"

definition permutes_lists :: "('a list \<Rightarrow> 'a list) \<Rightarrow> bool" where
  "permutes_lists f \<longleftrightarrow> (\<forall>xs. mset (f xs) = mset xs)"

definition fair_orders :: "go_orders \<Rightarrow> bool" where
  "fair_orders o' \<longleftrightarrow>
     permutes_lists (go_mark o') \<and> permutes_lists (go_pairs o') \<and> permutes_lists (go_classes o') \<and>
     permutes_lists (go_names o') \<and> permutes_lists (go_dates o') \<and> permutes_lists (go_periods o') \<and>
     permutes_lists (go_tie_classes o') \<and> permutes_lists (go_tie_sessions o')"

definition source_order :: go_orders where
  "source_order = \<lparr>go_mark = id, go_pairs = id, go_classes = id, go_names = id, go_dates = id,
     go_periods = id, go_tie_classes = id, go_tie_sessions = id\<rparr>"

lemma fair_source_order: "fair_orders source_order"
  by (simp add: fair_orders_def source_order_def permutes_lists_def)

subsection \<open>Parallel classes\<close>

definition group_pair :: "seq_group \<Rightarrow> string \<times> string" where
  "group_pair g = (sg_code g, sg_admin_key g)"

text \<open>The map \<open>groups\<close>: the sequences of each (code, admin key) pair with a non-empty key.\<close>

definition collect_pair ::
  "seq_map \<Rightarrow> string \<Rightarrow> ((string \<times> string) \<times> string list) list \<Rightarrow> ((string \<times> string) \<times> string list) list" where
  "collect_pair seqs seq groups = (case alookup seqs seq of None \<Rightarrow> groups
     | Some g \<Rightarrow> if sg_admin_key g = [] then groups
         else aupdate (group_pair g)
           ((case alookup groups (group_pair g) of None \<Rightarrow> [] | Some ss \<Rightarrow> ss) @ [seq]) groups)"

definition skip_group :: "string \<Rightarrow> seq_map \<times> split_stats \<Rightarrow> seq_map \<times> split_stats" where
  "skip_group seq s = (case s of (seqs, st) \<Rightarrow>
     (case alookup seqs seq of None \<Rightarrow> (seqs, st)
      | Some g \<Rightarrow> (aupdate seq (g\<lparr>sg_skipped := True, sg_skip_reason := hx ''e5b9b3e8a18ce69599e5ada6e78fad''\<rparr>) seqs,
                   st\<lparr>ss_skipped_parallel := ss_skipped_parallel st + 1\<rparr>)))"

definition skip_parallel :: "string list \<Rightarrow> seq_map \<times> split_stats \<Rightarrow> seq_map \<times> split_stats" where
  "skip_parallel ss s =
     (if length ss < 2 then s
      else (case fold skip_group (sort ss) s of (seqs, st) \<Rightarrow>
        (seqs, warn (Parallel (length ss) (sort ss)) st)))"

definition mark_parallel :: "go_orders \<Rightarrow> seq_map \<Rightarrow> split_stats \<Rightarrow> seq_map \<times> split_stats" where
  "mark_parallel o' seqs st =
     (let groups = fold (collect_pair seqs) (go_mark o' (keys seqs)) []
      in fold (\<lambda>p s. case alookup groups p of None \<Rightarrow> s | Some ss \<Rightarrow> skip_parallel ss s)
           (go_pairs o' (keys groups)) (seqs, st))"

subsection \<open>Teaching classes, offerings, sessions\<close>

text \<open>The loop over the live groups: the first group of each admin key names the class of that key.\<close>

definition name_class ::
  "seq_map \<Rightarrow> string \<Rightarrow> (string \<times> teaching_class) list \<Rightarrow> (string \<times> teaching_class) list outcome" where
  "name_class seqs seq m = (case alookup seqs seq of None \<Rightarrow> Ret m
     | Some g \<Rightarrow> if sg_skipped g \<or> sg_admin_key g = [] then Ret m
         else (case alookup m (sg_admin_key g) of Some _ \<Rightarrow> Ret m
           | None \<Rightarrow> obind (teaching_class_name (sg_members g)) (\<lambda>(name, note).
               Ret (m @ [(sg_admin_key g, \<lparr>tk_name = name, tk_note = note, tk_members = sg_members g\<rparr>)]))))"

definition build_teaching_classes :: "go_orders \<Rightarrow> seq_map \<Rightarrow> teaching_class list outcome" where
  "build_teaching_classes o' seqs =
     obind (ofold (name_class seqs) (go_classes o' (keys seqs)) []) (\<lambda>m.
       Ret (sort_key tk_name (go_tie_classes o' (map snd m))))"

definition name_key ::
  "seq_map \<Rightarrow> string \<Rightarrow> (string \<times> string) list \<Rightarrow> (string \<times> string) list outcome" where
  "name_key seqs seq m = (case alookup seqs seq of None \<Rightarrow> Ret m
     | Some g \<Rightarrow> if sg_skipped g \<or> sg_admin_key g = [] then Ret m
         else (case alookup m (sg_admin_key g) of Some _ \<Rightarrow> Ret m
           | None \<Rightarrow> obind (teaching_class_name (sg_members g)) (\<lambda>(name, note).
               Ret (m @ [(sg_admin_key g, name)]))))"

definition join_teachers :: "teacher list \<Rightarrow> string \<times> string \<times> string" where
  "join_teachers ts =
     (if ts = [] then ([], [], [])
      else (go_join '','' (map te_name ts), go_join '','' (map te_id ts), go_join '','' (map te_title ts)))"

definition offering_of :: "(string \<times> string) list \<Rightarrow> string \<Rightarrow> seq_group \<Rightarrow> offering_rec \<times> bool" where
  "offering_of names semester g =
     (let ts = sort_key (\<lambda>t. (te_id t, te_name t)) (map snd (sg_teachers g)) in
      (case join_teachers ts of (nm, ids, titles) \<Rightarrow>
        (\<lparr>of_course = sg_name g, of_code = sg_code g, of_class = field names (sg_admin_key g),
          of_semester = semester, of_teacher = (if nm = [] then hx ''e69caae5ae89e68e92'' else nm),
          of_seq = sg_seq g, of_teacher_id = ids, of_teacher_title = titles, of_college = sg_college g,
          of_max_students = sg_max_students g, of_requirement = sg_requirement g,
          of_weekly_hours = sg_weekly_hours g, of_note = sg_seq g\<rparr>, nm = [])))"

definition session_of :: "(string \<times> string) list \<Rightarrow> string \<Rightarrow> seq_group \<Rightarrow> session_cell \<Rightarrow> session_rec" where
  "session_of names semester g c =
     \<lparr>se_date = sc_date c, se_start = sc_start c, se_end = sc_end c, se_classroom = sc_classroom c,
      se_course = sg_name g, se_code = sg_code g, se_class = field names (sg_admin_key g),
      se_semester = semester\<rparr>"

definition group_sessions ::
  "(string \<times> string) list \<Rightarrow> string \<Rightarrow> int \<Rightarrow> seq_group \<Rightarrow> session_rec list" where
  "group_sessions names semester week1 g =
     concat (map (\<lambda>s. map (session_of names semester g)
       (expand_slot (sl_classroom s) (sl_weekday s) (sl_start s) (sl_end s) (sl_weeks s) week1)) (sg_slots g))"

definition emit_group ::
  "(string \<times> string) list \<Rightarrow> string \<Rightarrow> int \<Rightarrow> seq_map \<Rightarrow> string \<Rightarrow>
   offering_rec list \<times> session_rec list \<times> split_stats \<Rightarrow> offering_rec list \<times> session_rec list \<times> split_stats" where
  "emit_group names semester week1 seqs seq acc = (case acc of (ofs, ss, st) \<Rightarrow>
     (case alookup seqs seq of None \<Rightarrow> (ofs, ss, st)
      | Some g \<Rightarrow>
        if sg_skipped g then (ofs, ss, st)
        else if sg_admin_key g = [] then
          (ofs, ss, warn (NoAdmin (sg_seq g) (sg_name g)) (st\<lparr>ss_skipped_empty := ss_skipped_empty st + 1\<rparr>))
        else (case offering_of names semester g of (off, filled) \<Rightarrow>
          (ofs @ [off], ss @ group_sessions names semester week1 g,
           if filled then st\<lparr>ss_no_teacher := ss_no_teacher st + 1\<rparr> else st))))"

definition build_offerings_sessions ::
  "go_orders \<Rightarrow> seq_map \<Rightarrow> string \<Rightarrow> int \<Rightarrow> split_stats \<Rightarrow>
   (offering_rec list \<times> session_rec list \<times> split_stats) outcome" where
  "build_offerings_sessions o' seqs semester week1 st =
     obind (ofold (name_key seqs) (go_names o' (keys seqs)) []) (\<lambda>names.
       case fold (emit_group names semester week1 seqs) (sort (keys seqs)) ([], [], st) of (ofs, ss, st) \<Rightarrow>
         Ret (ofs, sort_key (\<lambda>s. (se_date s, se_start s, se_end s, se_classroom s)) (go_tie_sessions o' ss), st))"

subsection \<open>Bell-time validation\<close>

datatype problem = NoRegime string | PeriodMissing string int string

definition note_session :: "session_rec \<Rightarrow> (string \<times> int list) list \<Rightarrow> (string \<times> int list) list outcome" where
  "note_session s by_date = obind (go_range (se_start s) (se_end s)) (\<lambda>ps.
     Ret (aupdate (se_date s)
       (remdups ((case alookup by_date (se_date s) of None \<Rightarrow> [] | Some old \<Rightarrow> old) @ ps)) by_date))"

text \<open>
  The checking loop: a date that does not parse and a date without a regime both \<open>continue\<close>, so only
  a date that reaches the end of the body tests the cap of five problems.
\<close>

fun check_dates ::
  "go_orders \<Rightarrow> regime list \<Rightarrow> (string \<times> int list) list \<Rightarrow> string list \<Rightarrow> problem list \<Rightarrow> problem list" where
  "check_dates o' regimes by_date [] bad = bad"
| "check_dates o' regimes by_date (d # ds) bad =
     (case parse_date d of
        None \<Rightarrow> check_dates o' regimes by_date ds bad
      | Some date \<Rightarrow> (case active_for regimes date of
          None \<Rightarrow> check_dates o' regimes by_date ds (bad @ [NoRegime d])
        | Some regime \<Rightarrow>
            let periods = (case alookup by_date d of None \<Rightarrow> [] | Some ps \<Rightarrow> ps);
                bad = (case find (\<lambda>p. p \<notin> period_index_set regime) (go_periods o' periods) of
                         None \<Rightarrow> bad | Some p \<Rightarrow> bad @ [PeriodMissing d p (re_name regime)])
            in if length bad \<ge> 5 then bad else check_dates o' regimes by_date ds bad))"

definition validate_regimes :: "go_orders \<Rightarrow> session_rec list \<Rightarrow> regime list \<Rightarrow> problem list option outcome" where
  "validate_regimes o' sessions regimes =
     obind (ofold note_session sessions []) (\<lambda>by_date.
       let bad = check_dates o' regimes by_date (go_dates o' (keys by_date)) []
       in Ret (if bad = [] then None else Some bad))"

subsection \<open>The six sheets\<close>

datatype cell = Text string | Number int

record sheet =
  sh_name :: string
  sh_headers :: "string list"
  sh_rows :: "cell list list"

definition emit_classrooms :: "classroom_rec list \<Rightarrow> sheet" where
  "emit_classrooms rs = \<lparr>sh_name = ''classrooms'',
     sh_headers = [''name'', ''building'', ''capacity'', ''type'', ''floor'', ''campus'', ''status'', ''description''],
     sh_rows = map (\<lambda>r. map Text [cr_name r, cr_building r, cr_capacity r, cr_type r, cr_floor r, cr_campus r,
       ''available'', []]) rs\<rparr>"

definition emit_catalog :: "catalog_rec list \<Rightarrow> sheet" where
  "emit_catalog cs = \<lparr>sh_name = ''catalog'',
     sh_headers = [''name'', ''code'', ''credits'', ''total_hours'', ''category'', ''exam_type'', ''description''],
     sh_rows = map (\<lambda>c. map Text [ct_name c, ct_code c, ct_credits c, ct_total_hours c, ct_category c,
       ct_exam_type c, []]) cs\<rparr>"

definition emit_admin_classes :: "(string \<times> string) list \<Rightarrow> sheet" where
  "emit_admin_classes ag = \<lparr>sh_name = ''admin_classes'', sh_headers = [''grade'', ''name'', ''note''],
     sh_rows = map (\<lambda>n. map Text [field ag n, n, []]) (sort (keys ag))\<rparr>"

definition emit_teaching_classes :: "teaching_class list \<Rightarrow> (string \<times> string) list \<Rightarrow> sheet" where
  "emit_teaching_classes tcs ag = \<lparr>sh_name = ''teaching_classes'',
     sh_headers = [''name'', ''note'', ''admin_grade'', ''admin_name''],
     sh_rows = concat (map (\<lambda>tc. map (\<lambda>m. map Text [tk_name tc, tk_note tc, field ag m, m]) (tk_members tc)) tcs)\<rparr>"

definition emit_offerings :: "offering_rec list \<Rightarrow> sheet" where
  "emit_offerings ofs = \<lparr>sh_name = ''offerings'',
     sh_headers = [''course'', ''code'', ''teaching_class'', ''semester'', ''teacher'', ''course_seq'', ''teacher_id'',
       ''teacher_title'', ''college'', ''max_students'', ''requirement'', ''weekly_hours'', ''note''],
     sh_rows = map (\<lambda>f. map Text [of_course f, of_code f, of_class f, of_semester f, of_teacher f, of_seq f,
       of_teacher_id f, of_teacher_title f, of_college f, of_max_students f, of_requirement f,
       of_weekly_hours f, of_note f]) ofs\<rparr>"

definition emit_sessions :: "session_rec list \<Rightarrow> sheet" where
  "emit_sessions ss = \<lparr>sh_name = ''sessions'',
     sh_headers = [''date'', ''period_start'', ''period_end'', ''classroom'', ''course'', ''code'',
       ''teaching_class'', ''semester'', ''note''],
     sh_rows = map (\<lambda>s. [Text (se_date s), Number (se_start s), Number (se_end s), Text (se_classroom s),
       Text (se_course s), Text (se_code s), Text (se_class s), Text (se_semester s), Text []]) ss\<rparr>"

text \<open>\<open>encode\<close> is the library's workbook writer behind \<open>BuildBytes\<close>; it may fail.\<close>

record 'b split_files =
  fi_classrooms :: 'b
  fi_catalog :: 'b
  fi_admin :: 'b
  fi_teaching :: 'b
  fi_offerings :: 'b
  fi_sessions :: 'b

definition build_files ::
  "(sheet \<Rightarrow> string + 'b) \<Rightarrow> classroom_rec list \<Rightarrow> catalog_rec list \<Rightarrow> (string \<times> string) list \<Rightarrow>
   teaching_class list \<Rightarrow> offering_rec list \<Rightarrow> session_rec list \<Rightarrow> (string \<times> string) + 'b split_files" where
  "build_files encode rooms catalog ag tcs ofs ss =
     (case encode (emit_classrooms rooms) of Inl e \<Rightarrow> Inl (''classrooms'', e) | Inr f1 \<Rightarrow>
      case encode (emit_catalog catalog) of Inl e \<Rightarrow> Inl (''catalog'', e) | Inr f2 \<Rightarrow>
      case encode (emit_admin_classes ag) of Inl e \<Rightarrow> Inl (''admin_classes'', e) | Inr f3 \<Rightarrow>
      case encode (emit_teaching_classes tcs ag) of Inl e \<Rightarrow> Inl (''teaching_classes'', e) | Inr f4 \<Rightarrow>
      case encode (emit_offerings ofs) of Inl e \<Rightarrow> Inl (''offerings'', e) | Inr f5 \<Rightarrow>
      case encode (emit_sessions ss) of Inl e \<Rightarrow> Inl (''sessions'', e) | Inr f6 \<Rightarrow>
        Inr \<lparr>fi_classrooms = f1, fi_catalog = f2, fi_admin = f3, fi_teaching = f4, fi_offerings = f5, fi_sessions = f6\<rparr>)"

subsection \<open>The split\<close>

datatype split_error =
  NoSemester | NoMonday | NotMonday int | BadWorkbook xlsx_error | NoRows
| NotCovered "problem list" | EncodeFailed "string \<times> string"

definition fresh_stats :: "nat \<Rightarrow> split_stats" where
  "fresh_stats n = \<lparr>ss_rows = n, ss_classrooms = 0, ss_catalog = 0, ss_admin = 0, ss_teaching = 0,
     ss_offerings = 0, ss_sessions = 0, ss_skipped_empty = 0, ss_skipped_parallel = 0, ss_no_teacher = 0,
     ss_warnings = []\<rparr>"

text \<open>
  The stages from grouping to validation, for rows that were read; the stages hand the statistics on.
\<close>

definition split_stages ::
  "go_orders \<Rightarrow> jwc_row list \<Rightarrow> string \<Rightarrow> int \<Rightarrow> regime list \<Rightarrow>
   (problem list + teaching_class list \<times> offering_rec list \<times> session_rec list \<times> split_stats) outcome" where
  "split_stages o' rows semester week1 regimes =
     obind (group_by_seq rows (fresh_stats (length rows))) (\<lambda>(seqs, st).
       case mark_parallel o' seqs st of (seqs, st) \<Rightarrow>
       obind (build_teaching_classes o' seqs) (\<lambda>tcs.
       obind (build_offerings_sessions o' seqs semester week1 st) (\<lambda>(ofs, ss, st).
       obind (validate_regimes o' ss regimes) (\<lambda>res. Ret (case res of
           Some bad \<Rightarrow> Inl bad | None \<Rightarrow> Inr (tcs, ofs, ss, st))))))"

definition split_workbook ::
  "(string \<Rightarrow> string) \<Rightarrow> (sheet \<Rightarrow> string + 'b) \<Rightarrow> go_orders \<Rightarrow> xlsx_error + string list list \<Rightarrow> string \<Rightarrow>
   int \<Rightarrow> regime list \<Rightarrow> (split_error + 'b split_files \<times> split_stats) outcome" where
  "split_workbook lower encode o' grid semester week1 regimes =
     (let semester = trim_space semester in
      if semester = [] then Ret (Inl NoSemester)
      else if week1 = zero_time then Ret (Inl NoMonday)
      else if weekday_of week1 \<noteq> monday then Ret (Inl (NotMonday (weekday_of week1)))
      else (case (case grid of Inl e \<Rightarrow> Inl e | Inr raw \<Rightarrow> parse_rows lower raw) of
          Inl e \<Rightarrow> Ret (Inl (BadWorkbook e))
        | Inr rows \<Rightarrow>
            if rows = [] then Ret (Inl NoRows)
            else obind (split_stages o' rows semester week1 regimes) (\<lambda>res. case res of
                Inl bad \<Rightarrow> Ret (Inl (NotCovered bad))
              | Inr (tcs, ofs, ss, st) \<Rightarrow>
                  let rooms = build_classrooms rows; catalog = build_catalog rows; ag = build_admin_grades rows
                  in (case build_files encode rooms catalog ag tcs ofs ss of
                      Inl e \<Rightarrow> Ret (Inl (EncodeFailed e))
                    | Inr files \<Rightarrow> Ret (Inr (files, st\<lparr>ss_classrooms := length rooms, ss_catalog := length catalog,
                        ss_admin := length ag, ss_teaching := length tcs, ss_offerings := length ofs,
                        ss_sessions := length ss\<rparr>))))))"

subsection \<open>Parallel classes, declaratively\<close>

text \<open>Another sequence of the map has the same course code and the same (non-empty) set of classes.\<close>

definition crowded :: "seq_map \<Rightarrow> string \<Rightarrow> seq_group \<Rightarrow> bool" where
  "crowded seqs seq g \<longleftrightarrow> sg_admin_key g \<noteq> [] \<and>
     (\<exists>kv \<in> set seqs. fst kv \<noteq> seq \<and> group_pair (snd kv) = group_pair g)"

definition skipped_as_parallel :: "seq_group \<Rightarrow> seq_group" where
  "skipped_as_parallel g = g\<lparr>sg_skipped := True, sg_skip_reason := hx ''e5b9b3e8a18ce69599e5ada6e78fad''\<rparr>"

definition mark_set :: "string set \<Rightarrow> seq_map \<Rightarrow> seq_map" where
  "mark_set S seqs = map (\<lambda>kv. (fst kv, if fst kv \<in> S then skipped_as_parallel (snd kv) else snd kv)) seqs"

definition pair_members :: "seq_map \<Rightarrow> string list \<Rightarrow> string \<times> string \<Rightarrow> string list" where
  "pair_members seqs ks p = filter (\<lambda>k. case alookup seqs k of None \<Rightarrow> False
     | Some g \<Rightarrow> sg_admin_key g \<noteq> [] \<and> group_pair g = p) ks"

lemma keys_mark_set [simp]: "keys (mark_set S seqs) = keys seqs"
  by (simp add: mark_set_def keys_def)

lemma skipped_as_parallel_idem [simp]: "skipped_as_parallel (skipped_as_parallel g) = skipped_as_parallel g"
  by (simp add: skipped_as_parallel_def)

lemma alookup_mark_set:
  "alookup (mark_set S seqs) k = map_option (\<lambda>g. if k \<in> S then skipped_as_parallel g else g) (alookup seqs k)"
  unfolding mark_set_def by (induction seqs k rule: alookup.induct) auto

lemma mark_set_where:
  "(\<And>k g. (k, g) \<in> set seqs \<Longrightarrow> k \<in> S \<longleftrightarrow> P k g) \<Longrightarrow>
   mark_set S seqs = map (\<lambda>(k, g). (k, if P k g then skipped_as_parallel g else g)) seqs"
  unfolding mark_set_def by (intro map_cong refl) (auto split: prod.splits)

lemma aupdate_mark_set:
  "alookup seqs k = Some g \<Longrightarrow> distinct (keys seqs) \<Longrightarrow>
   aupdate k (skipped_as_parallel g) (mark_set S seqs) = mark_set (insert k S) seqs"
proof (induction seqs)
  case Nil
  then show ?case by simp
next
  case (Cons kv seqs)
  obtain k' g' where kv: "kv = (k', g')" by (cases kv) auto
  show ?case
  proof (cases "k' = k")
    case True
    then have "k \<notin> set (keys seqs)" using Cons.prems(2) kv by simp
    then have "mark_set (insert k S) seqs = mark_set S seqs"
      unfolding mark_set_def by (intro map_cong refl) (auto simp: keys_def)
    with True Cons.prems(1) kv show ?thesis by (simp add: mark_set_def)
  next
    case False
    with Cons kv show ?thesis by (simp add: mark_set_def)
  qed
qed

lemma collect_pairs:
  "alookup (fold (collect_pair seqs) ks m) p =
     (if pair_members seqs ks p = [] then alookup m p
      else Some ((case alookup m p of None \<Rightarrow> [] | Some ss \<Rightarrow> ss) @ pair_members seqs ks p))"
proof (induction ks arbitrary: m)
  case Nil
  then show ?case by (simp add: pair_members_def)
next
  case (Cons k ks)
  show ?case
  proof (cases "alookup seqs k")
    case None
    with Cons show ?thesis by (simp add: collect_pair_def pair_members_def)
  next
    case (Some g)
    with Cons show ?thesis
      by (cases "sg_admin_key g = []"; cases "group_pair g = p") (auto simp: collect_pair_def pair_members_def)
  qed
qed

lemma collect_pairs_keys: "distinct (keys m) \<Longrightarrow> distinct (keys (fold (collect_pair seqs) ks m))"
  by (induction ks arbitrary: m) (auto simp: collect_pair_def split: option.splits)

lemma skip_groups:
  assumes "distinct (keys seqs)" and "set ss \<subseteq> set (keys seqs)"
  shows "\<exists>st'. fold skip_group ss (mark_set S seqs, st) = (mark_set (S \<union> set ss) seqs, st') \<and>
    st' = st\<lparr>ss_skipped_parallel := ss_skipped_parallel st + length ss\<rparr>"
  using assms(2)
proof (induction ss arbitrary: S st)
  case Nil
  then show ?case by simp
next
  case (Cons s ss)
  from Cons.prems obtain g where g: "alookup seqs s = Some g"
    by (metis alookup_None_iff insert_subset list.simps(15) option.exhaust)
  have "skip_group s (mark_set S seqs, st) =
    (mark_set (insert s S) seqs, st\<lparr>ss_skipped_parallel := ss_skipped_parallel st + 1\<rparr>)"
    using aupdate_mark_set [OF g assms(1), of S] g
    by (simp add: skip_group_def alookup_mark_set skipped_as_parallel_def)
  with Cons show ?case by simp
qed

lemma skip_pairs:
  assumes "distinct (keys seqs)"
    and "\<forall>p \<in> set ps. alookup groups p = Some (M p) \<and> set (M p) \<subseteq> set (keys seqs)"
  shows "\<exists>st'. fold (\<lambda>p s. case alookup groups p of None \<Rightarrow> s | Some ss \<Rightarrow> skip_parallel ss s) ps
      (mark_set S seqs, st) = (mark_set (S \<union> (\<Union>p \<in> {p \<in> set ps. 2 \<le> length (M p)}. set (M p))) seqs, st') \<and>
    ss_skipped_empty st' = ss_skipped_empty st \<and>
    ss_skipped_parallel st' = ss_skipped_parallel st + sum_list (map (\<lambda>p. if 2 \<le> length (M p) then length (M p) else 0) ps)"
  using assms(2)
proof (induction ps arbitrary: S st)
  case Nil
  then show ?case by simp
next
  case (Cons p ps)
  show ?case
  proof (cases "2 \<le> length (M p)")
    case False
    then have "{q \<in> set (p # ps). 2 \<le> length (M q)} = {q \<in> set ps. 2 \<le> length (M q)}" by auto
    with False Cons show ?thesis by (simp add: skip_parallel_def)
  next
    case True
    have "set (sort (M p)) \<subseteq> set (keys seqs)" using Cons.prems by simp
    from skip_groups [OF assms(1) this, of S st] obtain st' where
      st': "fold skip_group (sort (M p)) (mark_set S seqs, st) = (mark_set (S \<union> set (M p)) seqs, st')"
      "st' = st\<lparr>ss_skipped_parallel := ss_skipped_parallel st + length (M p)\<rparr>" by auto
    have big: "{q \<in> set (p # ps). 2 \<le> length (M q)} = insert p {q \<in> set ps. 2 \<le> length (M q)}" using True by auto
    let ?w = "warn (Parallel (length (M p)) (sort (M p))) st'"
    have "\<forall>q \<in> set ps. alookup groups q = Some (M q) \<and> set (M q) \<subseteq> set (keys seqs)" using Cons.prems by simp
    from Cons.IH [OF this, of "S \<union> set (M p)" ?w] obtain st'' where st'':
      "fold (\<lambda>p s. case alookup groups p of None \<Rightarrow> s | Some ss \<Rightarrow> skip_parallel ss s) ps
        (mark_set (S \<union> set (M p)) seqs, ?w) =
        (mark_set (S \<union> set (M p) \<union> (\<Union>q \<in> {q \<in> set ps. 2 \<le> length (M q)}. set (M q))) seqs, st'')"
      "ss_skipped_empty st'' = ss_skipped_empty ?w"
      "ss_skipped_parallel st'' = ss_skipped_parallel ?w + sum_list (map (\<lambda>q. if 2 \<le> length (M q) then length (M q) else 0) ps)"
      by blast
    have "skip_parallel (M p) (mark_set S seqs, st) = (mark_set (S \<union> set (M p)) seqs, ?w)"
      using True st'(1) by (simp add: skip_parallel_def)
    then have "fold (\<lambda>p s. case alookup groups p of None \<Rightarrow> s | Some ss \<Rightarrow> skip_parallel ss s) (p # ps)
        (mark_set S seqs, st) =
        (mark_set (S \<union> (\<Union>q \<in> {q \<in> set (p # ps). 2 \<le> length (M q)}. set (M q))) seqs, st'')"
      using st''(1) Cons.prems unfolding big by (simp add: Un_assoc)
    moreover have "ss_skipped_empty ?w = ss_skipped_empty st"
      "ss_skipped_parallel ?w = ss_skipped_parallel st + length (M p)"
      by (simp_all add: warn_def st'(2))
    ultimately show ?thesis using st''(2,3) True by auto
  qed
qed

lemma length_ge_2_iff: "distinct xs \<Longrightarrow> x \<in> set xs \<Longrightarrow> 2 \<le> length xs \<longleftrightarrow> (\<exists>y \<in> set xs. y \<noteq> x)"
proof -
  assume d: "distinct xs" and x: "x \<in> set xs"
  have "length xs = card (insert x (set xs - {x}))" using d x by (simp add: distinct_card insert_absorb)
  also have "\<dots> = Suc (card (set xs - {x}))" by (simp add: card.insert_remove)
  finally have "2 \<le> length xs \<longleftrightarrow> card (set xs - {x}) \<noteq> 0" by linarith
  also have "\<dots> \<longleftrightarrow> (\<exists>y \<in> set xs. y \<noteq> x)" by auto
  finally show ?thesis .
qed

lemma permutes_listsD:
  assumes "permutes_lists f"
  shows "set (f xs) = set xs" and "distinct (f xs) \<longleftrightarrow> distinct xs" and "mset (f xs) = mset xs"
    and "length (f xs) = length xs"
proof -
  show m: "mset (f xs) = mset xs" using assms by (simp add: permutes_lists_def)
  then show "set (f xs) = set xs" by (rule mset_eq_setD)
  from m show "distinct (f xs) \<longleftrightarrow> distinct xs" by (rule mset_eq_imp_distinct_iff)
  from m show "length (f xs) = length xs" by (rule mset_eq_length)
qed

lemma crowded_pair_members:
  assumes "distinct (keys seqs)" and "set ks = set (keys seqs)" and "distinct ks"
  shows "(\<exists>p. k \<in> set (pair_members seqs ks p) \<and> 2 \<le> length (pair_members seqs ks p)) \<longleftrightarrow>
    (\<exists>g. alookup seqs k = Some g \<and> crowded seqs k g)" (is "?L \<longleftrightarrow> ?R")
proof -
  have mem: "k \<in> set (pair_members seqs ks p) \<longleftrightarrow>
      (\<exists>g. (k, g) \<in> set seqs \<and> sg_admin_key g \<noteq> [] \<and> group_pair g = p)" for k p
  proof -
    have "k \<in> set (pair_members seqs ks p) \<longleftrightarrow>
        k \<in> set (keys seqs) \<and> (\<exists>g. alookup seqs k = Some g \<and> sg_admin_key g \<noteq> [] \<and> group_pair g = p)"
      unfolding pair_members_def using assms(2) by (auto split: option.splits)
    then show ?thesis using alookup_None_iff [of seqs k] unfolding alookup_Some_iff [OF assms(1), symmetric] by auto
  qed
  have dist: "distinct (pair_members seqs ks p)" for p using assms(3) by (simp add: pair_members_def)
  have uniq: "g = g'" if "(k, g) \<in> set seqs" "(k, g') \<in> set seqs" for k g g'
    using that by (metis alookup_Some_iff assms(1) option.inject)
  have "?L \<longleftrightarrow> (\<exists>p g. (k, g) \<in> set seqs \<and> sg_admin_key g \<noteq> [] \<and> group_pair g = p \<and>
      (\<exists>y \<in> set (pair_members seqs ks p). y \<noteq> k))"
    using length_ge_2_iff [OF dist] mem by blast
  also have "\<dots> \<longleftrightarrow> ?R"
    unfolding crowded_def alookup_Some_iff [OF assms(1)] mem Bex_def group_pair_def by fastforce
  finally show ?thesis .
qed

lemma mark_parallel_exact':
  assumes "fair_orders o'" and "distinct (keys seqs)"
  shows "fst (mark_parallel o' seqs st) =
      map (\<lambda>(k, g). (k, if crowded seqs k g then skipped_as_parallel g else g)) seqs \<and>
    ss_skipped_parallel (snd (mark_parallel o' seqs st)) =
      ss_skipped_parallel st + length (filter (\<lambda>(k, g). crowded seqs k g) seqs) \<and>
    ss_skipped_empty (snd (mark_parallel o' seqs st)) = ss_skipped_empty st"
proof -
  let ?ks = "go_mark o' (keys seqs)" and ?groups = "fold (collect_pair seqs) (go_mark o' (keys seqs)) []"
  let ?M = "pair_members seqs ?ks" and ?ps = "go_pairs o' (keys ?groups)"
  let ?big = "{p \<in> set ?ps. 2 \<le> length (?M p)}"
  have fair: "permutes_lists (go_mark o')" "permutes_lists (go_pairs o')"
    using assms(1) by (simp_all add: fair_orders_def)
  note perm = permutes_listsD [OF fair(1)] permutes_listsD [OF fair(2)]
  have ks: "set ?ks = set (keys seqs)" "distinct ?ks" using perm assms(2) by simp_all
  have look: "alookup ?groups p = (if ?M p = [] then None else Some (?M p))" for p
    by (simp add: collect_pairs)
  have ps: "distinct ?ps" "set ?ps = {p. ?M p \<noteq> []}"
    using perm collect_pairs_keys [of "[]" seqs ?ks] alookup_None_iff [of ?groups] look
    by (simp_all add: set_eq_iff) (metis option.distinct(1))
  have sub: "set (?M p) \<subseteq> set (keys seqs)" for p using ks by (auto simp: pair_members_def)
  have "\<forall>p \<in> set ?ps. alookup ?groups p = Some (?M p) \<and> set (?M p) \<subseteq> set (keys seqs)"
    using ps(2) look sub by simp
  from skip_pairs [OF assms(2) this, of "{}" st] obtain st' where
    res: "mark_parallel o' seqs st = (mark_set (\<Union>p \<in> ?big. set (?M p)) seqs, st')"
    and emp: "ss_skipped_empty st' = ss_skipped_empty st"
    and cnt: "ss_skipped_parallel st' = ss_skipped_parallel st +
      sum_list (map (\<lambda>p. if 2 \<le> length (?M p) then length (?M p) else 0) ?ps)"
    unfolding mark_parallel_def Let_def by (auto simp: mark_set_def cong: prod.case_cong)
  have big: "k \<in> (\<Union>p \<in> ?big. set (?M p)) \<longleftrightarrow> (\<exists>g. alookup seqs k = Some g \<and> crowded seqs k g)" for k
  proof -
    have "?M p \<noteq> []" if "2 \<le> length (?M p)" for p using that by auto
    then show ?thesis unfolding crowded_pair_members [OF assms(2) ks, symmetric] ps(2) by blast
  qed
  have T: "(\<Union>p \<in> ?big. set (?M p)) = fst ` {kv \<in> set seqs. crowded seqs (fst kv) (snd kv)}"
    using big alookup_Some_iff [OF assms(2)] by (auto simp: set_eq_iff image_iff)
  have "sum_list (map (\<lambda>p. if 2 \<le> length (?M p) then length (?M p) else 0) ?ps) =
      (\<Sum>p \<in> ?big. card (set (?M p)))"
  proof -
    have "length (?M p) = card (set (?M p))" for p
      using ks(2) by (simp add: pair_members_def distinct_card [symmetric] del: set_filter)
    then show ?thesis
      by (simp only: sum_list_distinct_conv_sum_set [OF ps(1)] sum.inter_filter [OF finite_set])
  qed
  also have "\<dots> = card (\<Union>p \<in> ?big. set (?M p))"
    by (rule card_UN_disjoint [symmetric]) (auto simp: pair_members_def split: option.splits)
  also have "\<dots> = card {kv \<in> set seqs. crowded seqs (fst kv) (snd kv)}"
    unfolding T using assms(2) by (intro card_image) (auto simp: keys_def distinct_map inj_on_def)
  also have "\<dots> = length (filter (\<lambda>(k, g). crowded seqs k g) seqs)"
    using assms(2) by (simp add: distinct_map keys_def distinct_card [symmetric] case_prod_beta')
  finally have "ss_skipped_parallel st' = ss_skipped_parallel st + length (filter (\<lambda>(k, g). crowded seqs k g) seqs)"
    using cnt by simp
  moreover have "mark_set (\<Union>p \<in> ?big. set (?M p)) seqs =
      map (\<lambda>(k, g). (k, if crowded seqs k g then skipped_as_parallel g else g)) seqs"
  proof -
    have "k \<in> (\<Union>p \<in> ?big. set (?M p)) \<longleftrightarrow> crowded seqs k g" if "(k, g) \<in> set seqs" for k g
      using that unfolding big by (metis alookup_Some_iff assms(2) option.inject)
    then show ?thesis by (rule mark_set_where)
  qed
  ultimately show ?thesis using res emp by simp
qed

subsection \<open>Every group and slot comes from rows\<close>

definition slot_of_row :: "jwc_row \<Rightarrow> slot \<Rightarrow> bool" where
  "slot_of_row r s \<longleftrightarrow>
     sl_classroom s = jr_classroom r \<and> jr_classroom r \<noteq> [] \<and> \<not> is_non_physical (jr_classroom r) \<and>
     parse_periods (jr_period r) = Inr (sl_start s, sl_end s) \<and>
     expand_weeks (jr_week r) = Ret (Inr (sl_weeks s)) \<and> parse_weekday (jr_weekday r) = Inr (sl_weekday s)"

definition traced :: "jwc_row list \<Rightarrow> string \<times> seq_group \<Rightarrow> bool" where
  "traced rows kg \<longleftrightarrow> (case kg of (k, g) \<Rightarrow>
     k \<noteq> [] \<and> sg_seq g = k \<and> \<not> sg_skipped g \<and>
     (\<exists>r \<in> set rows. jr_seq r = k \<and> sg_code g = jr_code r \<and> sg_name g = jr_name r \<and>
        sg_members g = fst (parse_admin_set (jr_admin r)) \<and> sg_admin_key g = admin_set_key (sg_members g)) \<and>
     (\<forall>s \<in> set (sg_slots g). \<exists>r \<in> set rows. jr_seq r = k \<and> slot_of_row r s))"

lemma traced_members:
  "traced rows (k, g) \<Longrightarrow> \<exists>r \<in> set rows. sg_members g = fst (parse_admin_set (jr_admin r)) \<and>
     sg_admin_key g = admin_set_key (fst (parse_admin_set (jr_admin r)))"
  by (auto simp: traced_def)

lemma new_seq_group_traced:
  assumes "r \<in> set rows" and "jr_seq r \<noteq> []"
  shows "traced rows (jr_seq r, new_seq_group r)"
proof -
  obtain ms ok where p: "parse_admin_set (jr_admin r) = (ms, ok)" by fastforce
  then have "ok = (ms \<noteq> [])" by (auto simp: parse_admin_set_def Let_def)
  with p assms show ?thesis by (auto simp: traced_def new_seq_group_def admin_set_key_def)
qed

lemma add_teacher_fields [simp]:
  "sg_seq (add_teacher r g) = sg_seq g" "sg_skipped (add_teacher r g) = sg_skipped g"
  "sg_code (add_teacher r g) = sg_code g" "sg_name (add_teacher r g) = sg_name g"
  "sg_members (add_teacher r g) = sg_members g" "sg_admin_key (add_teacher r g) = sg_admin_key g"
  "sg_slots (add_teacher r g) = sg_slots g"
  by (auto simp: add_teacher_def Let_def split: option.splits)

lemma add_slot_cases:
  assumes "add_slot r g st = Ret (g', st')"
  shows "(g' = g \<or> g' = g\<lparr>sg_slot_seen := slot_key r # sg_slot_seen g\<rparr> \<or>
      (\<exists>s. slot_of_row r s \<and>
         g' = g\<lparr>sg_slot_seen := slot_key r # sg_slot_seen g, sg_slots := sg_slots g @ [s]\<rparr>)) \<and>
    ss_skipped_parallel st' = ss_skipped_parallel st \<and> ss_skipped_empty st' = ss_skipped_empty st"
proof (cases "slot_key r \<in> set (sg_slot_seen g)")
  case True
  with assms show ?thesis by (simp add: add_slot_def)
next
  case False
  then obtain wr where w: "expand_weeks (jr_week r) = Ret wr"
    using assms by (auto simp: add_slot_def Let_def)
  note body = assms [unfolded add_slot_def Let_def w, simplified False if_False obind_simps]
  show ?thesis
  proof (cases "parse_periods (jr_period r)")
    case (Inl e)
    with body show ?thesis by (auto simp: warn_def)
  next
    case ps: (Inr ab)
    obtain a b where ab: "ab = (a, b)" by (cases ab) auto
    show ?thesis
    proof (cases wr)
      case (Inl e)
      with body ps ab show ?thesis by (auto simp: warn_def)
    next
      case ws: (Inr weeks)
      show ?thesis
      proof (cases "parse_weekday (jr_weekday r)")
        case (Inl e)
        with body ps ab ws show ?thesis by (auto simp: warn_def)
      next
        case (Inr d)
        let ?s = "\<lparr>sl_classroom = jr_classroom r, sl_weekday = d, sl_start = a, sl_end = b, sl_weeks = weeks\<rparr>"
        show ?thesis
        proof (cases "jr_classroom r = [] \<or> is_non_physical (jr_classroom r)")
          case True
          have "g' = g\<lparr>sg_slot_seen := slot_key r # sg_slot_seen g\<rparr>"
            and "ss_skipped_parallel st' = ss_skipped_parallel st" "ss_skipped_empty st' = ss_skipped_empty st"
            using body ps ab ws Inr True by (cases "jr_classroom r = []"; force simp: warn_def)+
          then show ?thesis by simp
        next
          case False
          with ps ab ws w Inr have "slot_of_row r ?s" by (simp add: slot_of_row_def)
          moreover have "g' = g\<lparr>sg_slot_seen := slot_key r # sg_slot_seen g, sg_slots := sg_slots g @ [?s]\<rparr>" "st' = st"
            using body ps ab ws Inr False by simp_all
          ultimately show ?thesis by blast
        qed
      qed
    qed
  qed
qed

lemma add_slot_traced:
  assumes "add_slot r g st = Ret (g', st')" and "traced rows (k, g)" and "r \<in> set rows" and "jr_seq r = k"
  shows "traced rows (k, g')"
  using add_slot_cases [OF assms(1), THEN conjunct1] assms(2-4) by (auto simp: traced_def)

lemma group_row_traced:
  assumes "group_row r (seqs, st) = Ret (seqs', st')" and "\<forall>kg \<in> set seqs. traced rows kg" and "r \<in> set rows"
  shows "\<forall>kg \<in> set seqs'. traced rows kg"
proof (cases "jr_seq r = []")
  case True
  with assms show ?thesis by (simp add: group_row_def)
next
  case False
  let ?g = "case alookup seqs (jr_seq r) of Some g \<Rightarrow> g | None \<Rightarrow> new_seq_group r"
  from False assms(1) obtain g' where g': "add_slot r (add_teacher r ?g) st = Ret (g', st')"
    and seqs': "seqs' = aupdate (jr_seq r) g' seqs"
    by (auto simp: group_row_def Let_def)
  have "traced rows (jr_seq r, ?g)"
    using assms(2,3) False by (auto split: option.splits dest: alookup_SomeD intro: new_seq_group_traced)
  then have "traced rows (jr_seq r, add_teacher r ?g)" by (simp add: traced_def)
  from add_slot_traced [OF g' this assms(3)] have "traced rows (jr_seq r, g')" by simp
  with assms(2) show ?thesis unfolding seqs' by (intro aupdate_values) simp_all
qed

lemma group_row_keys:
  assumes "group_row r (seqs, st) = Ret (seqs', st')"
  shows "set (keys seqs') = set (keys seqs) \<union> ({jr_seq r} - {[]}) \<and>
    (distinct (keys seqs) \<longrightarrow> distinct (keys seqs')) \<and>
    ss_skipped_parallel st' = ss_skipped_parallel st \<and> ss_skipped_empty st' = ss_skipped_empty st"
proof (cases "jr_seq r = []")
  case True
  with assms show ?thesis by (auto simp: group_row_def warn_def)
next
  case False
  with assms show ?thesis by (auto simp: group_row_def Let_def dest!: add_slot_cases)
qed

lemma group_rows_keys:
  assumes "ofold group_row rows (seqs, st) = Ret (seqs', st')" and "distinct (keys seqs)"
  shows "set (keys seqs') = set (keys seqs) \<union> (jr_seq ` set rows - {[]}) \<and> distinct (keys seqs') \<and>
    ss_skipped_parallel st' = ss_skipped_parallel st \<and> ss_skipped_empty st' = ss_skipped_empty st"
  using assms
proof (induction rows arbitrary: seqs st)
  case Nil
  then show ?case by simp
next
  case (Cons r rows)
  then obtain seqs1 st1 where s1: "group_row r (seqs, st) = Ret (seqs1, st1)"
    and rest: "ofold group_row rows (seqs1, st1) = Ret (seqs', st')" by auto
  note k = group_row_keys [OF s1]
  with Cons.prems(2) have "distinct (keys seqs1)" by simp
  from Cons.IH [OF rest this] k show ?case by auto
qed

lemma group_by_seq_props:
  assumes "group_by_seq rows st = Ret (seqs, st')"
  shows "(\<forall>kg \<in> set seqs. traced rows kg) \<and> distinct (keys seqs) \<and> set (keys seqs) = jr_seq ` set rows - {[]} \<and>
    ss_skipped_parallel st' = ss_skipped_parallel st \<and> ss_skipped_empty st' = ss_skipped_empty st"
proof -
  note run = assms [unfolded group_by_seq_def]
  have "(\<lambda>s. \<forall>kg \<in> set (fst s). traced rows kg) (seqs, st')"
  proof (rule ofold_invariant [OF run])
    fix r s t
    assume "r \<in> set rows" "\<forall>kg \<in> set (fst s). traced rows kg" "group_row r s = Ret t"
    then show "\<forall>kg \<in> set (fst t). traced rows kg"
      using group_row_traced [of r "fst s" "snd s" "fst t" "snd t" rows] by simp
  qed simp
  with group_rows_keys [OF run] show ?thesis by simp
qed

subsection \<open>What the emission loop produces\<close>

definition lives :: "seq_map \<Rightarrow> string \<Rightarrow> bool" where
  "lives seqs k \<longleftrightarrow> (case alookup seqs k of None \<Rightarrow> False
     | Some g \<Rightarrow> \<not> sg_skipped g \<and> sg_admin_key g \<noteq> [])"

definition optional :: "seq_map \<Rightarrow> string \<Rightarrow> bool" where
  "optional seqs k \<longleftrightarrow> (case alookup seqs k of None \<Rightarrow> False
     | Some g \<Rightarrow> \<not> sg_skipped g \<and> sg_admin_key g = [])"

definition live_groups :: "seq_map \<Rightarrow> string list \<Rightarrow> seq_group list" where
  "live_groups seqs ks = map (\<lambda>k. the (alookup seqs k)) (filter (lives seqs) ks)"

lemma offering_of_fields [simp]:
  "of_course (fst (offering_of names semester g)) = sg_name g" "of_code (fst (offering_of names semester g)) = sg_code g"
  "of_class (fst (offering_of names semester g)) = field names (sg_admin_key g)"
  "of_semester (fst (offering_of names semester g)) = semester" "of_seq (fst (offering_of names semester g)) = sg_seq g"
  by (simp_all add: offering_of_def Let_def case_prod_beta')

lemma emit_groups:
  "\<exists>st'. fold (emit_group names semester week1 seqs) ks (ofs, ss, st) =
      (ofs @ map (\<lambda>g. fst (offering_of names semester g)) (live_groups seqs ks),
       ss @ concat (map (group_sessions names semester week1) (live_groups seqs ks)), st') \<and>
     ss_skipped_parallel st' = ss_skipped_parallel st \<and>
     ss_skipped_empty st' = ss_skipped_empty st + length (filter (optional seqs) ks)"
proof (induction ks arbitrary: ofs ss st)
  case Nil
  then show ?case by (simp add: live_groups_def)
next
  case (Cons k ks)
  show ?case
  proof (cases "lives seqs k")
    case True
    then obtain g where g: "alookup seqs k = Some g" "\<not> sg_skipped g" "sg_admin_key g \<noteq> []"
      by (auto simp: lives_def split: option.splits)
    obtain off filled where off: "offering_of names semester g = (off, filled)" by fastforce
    have step: "emit_group names semester week1 seqs k (ofs, ss, st) =
      (ofs @ [off], ss @ group_sessions names semester week1 g,
       if filled then st\<lparr>ss_no_teacher := ss_no_teacher st + 1\<rparr> else st)"
      using g off by (simp add: emit_group_def)
    have "live_groups seqs (k # ks) = g # live_groups seqs ks" "\<not> optional seqs k"
      using True g by (simp_all add: live_groups_def optional_def)
    with Cons.IH [of "ofs @ [off]" "ss @ group_sessions names semester week1 g"
        "if filled then st\<lparr>ss_no_teacher := ss_no_teacher st + 1\<rparr> else st"] off
    show ?thesis by (auto simp: step)
  next
    case False
    then have "live_groups seqs (k # ks) = live_groups seqs ks" by (simp add: live_groups_def)
    moreover obtain st1 where "emit_group names semester week1 seqs k (ofs, ss, st) = (ofs, ss, st1)"
        "ss_skipped_parallel st1 = ss_skipped_parallel st"
        "ss_skipped_empty st1 = ss_skipped_empty st + (if optional seqs k then 1 else 0)"
      using False by (cases "optional seqs k")
        (auto simp: lives_def optional_def emit_group_def warn_def split: option.splits)
    moreover obtain st' where "fold (emit_group names semester week1 seqs) ks (ofs, ss, st1) =
        (ofs @ map (\<lambda>g. fst (offering_of names semester g)) (live_groups seqs ks),
         ss @ concat (map (group_sessions names semester week1) (live_groups seqs ks)), st')"
        "ss_skipped_parallel st' = ss_skipped_parallel st1"
        "ss_skipped_empty st' = ss_skipped_empty st1 + length (filter (optional seqs) ks)"
      using Cons.IH by blast
    ultimately show ?thesis by (intro exI [of _ st']) simp
  qed
qed

lemma sort_tie_set:
  "permutes_lists f \<Longrightarrow> mset (sort_key k (f xs)) = mset xs \<and> set (sort_key k (f xs)) = set xs \<and>
   length (sort_key k (f xs)) = length xs"
  by (simp add: permutes_listsD)

lemma build_offerings_sessions_props:
  assumes "build_offerings_sessions o' seqs semester week1 st = Ret (ofs, ss, st')" and "fair_orders o'"
  obtains names where "ofold (name_key seqs) (go_names o' (keys seqs)) [] = Ret names"
    and "ofs = map (\<lambda>g. fst (offering_of names semester g)) (live_groups seqs (sort (keys seqs)))"
    and "mset ss = mset (concat (map (group_sessions names semester week1) (live_groups seqs (sort (keys seqs)))))"
    and "sorted (map (\<lambda>s. (se_date s, se_start s, se_end s, se_classroom s)) ss)"
    and "ss_skipped_parallel st' = ss_skipped_parallel st"
    and "ss_skipped_empty st' = ss_skipped_empty st + length (filter (optional seqs) (keys seqs))"
proof -
  from assms(1) obtain names where names: "ofold (name_key seqs) (go_names o' (keys seqs)) [] = Ret names"
    and rest: "(case fold (emit_group names semester week1 seqs) (sort (keys seqs)) ([], [], st) of (ofs, ss, st) \<Rightarrow>
         Ret (ofs, sort_key (\<lambda>s. (se_date s, se_start s, se_end s, se_classroom s)) (go_tie_sessions o' ss), st)) =
       Ret (ofs, ss, st')"
    unfolding build_offerings_sessions_def by auto
  have tie: "permutes_lists (go_tie_sessions o')" using assms(2) by (simp add: fair_orders_def)
  have cnt: "length (filter (optional seqs) (sort (keys seqs))) = length (filter (optional seqs) (keys seqs))"
    by (metis mset_filter mset_sort size_mset)
  obtain st'' where "fold (emit_group names semester week1 seqs) (sort (keys seqs)) ([], [], st) =
      (map (\<lambda>g. fst (offering_of names semester g)) (live_groups seqs (sort (keys seqs))),
       concat (map (group_sessions names semester week1) (live_groups seqs (sort (keys seqs)))), st'')"
      "ss_skipped_parallel st'' = ss_skipped_parallel st"
      "ss_skipped_empty st'' = ss_skipped_empty st + length (filter (optional seqs) (sort (keys seqs)))"
    using emit_groups [of names semester week1 seqs "sort (keys seqs)" "[]" "[]" st] by auto
  moreover from this rest have "ofs = map (\<lambda>g. fst (offering_of names semester g)) (live_groups seqs (sort (keys seqs)))"
    "st' = st''" "ss = sort_key (\<lambda>s. (se_date s, se_start s, se_end s, se_classroom s))
      (go_tie_sessions o' (concat (map (group_sessions names semester week1) (live_groups seqs (sort (keys seqs))))))"
    by (simp_all only: prod.case outcome.inject prod.inject)
  ultimately show thesis
    by (intro that [OF names]) (simp_all only: sort_tie_set [OF tie] sorted_sort_key_map cnt)
qed

lemma split_stages_Inr:
  assumes "split_stages o' rows semester week1 regimes = Ret (Inr (tcs, ofs, ss, st))"
  obtains seqs0 st0 seqs st1 where "group_by_seq rows (fresh_stats (length rows)) = Ret (seqs0, st0)"
    and "mark_parallel o' seqs0 st0 = (seqs, st1)" and "build_teaching_classes o' seqs = Ret tcs"
    and "build_offerings_sessions o' seqs semester week1 st1 = Ret (ofs, ss, st)"
    and "validate_regimes o' ss regimes = Ret None"
proof -
  from assms obtain seqs0 st0 where g: "group_by_seq rows (fresh_stats (length rows)) = Ret (seqs0, st0)"
    unfolding split_stages_def by auto
  obtain seqs st1 where m: "mark_parallel o' seqs0 st0 = (seqs, st1)" by fastforce
  from assms g m obtain tcs' ofs' ss' st' res where "build_teaching_classes o' seqs = Ret tcs'"
    "build_offerings_sessions o' seqs semester week1 st1 = Ret (ofs', ss', st')"
    "validate_regimes o' ss' regimes = Ret res"
    "(case res of Some bad \<Rightarrow> Inl bad | None \<Rightarrow> Inr (tcs', ofs', ss', st')) = Inr (tcs, ofs, ss, st)"
    unfolding split_stages_def by auto
  with g m show thesis by (intro that) (auto split: option.splits)
qed
subsection \<open>Guarantees of the stages\<close>

lemma marked_groups:
  assumes "fair_orders o'" and "group_by_seq rows (fresh_stats n) = Ret (seqs0, st0)"
    and "mark_parallel o' seqs0 st0 = (seqs, st1)"
  shows "keys seqs = keys seqs0 \<and> distinct (keys seqs) \<and> set (keys seqs) = jr_seq ` set rows - {[]} \<and>
    ss_skipped_parallel st1 = length (filter (\<lambda>k. case alookup seqs k of None \<Rightarrow> False | Some g \<Rightarrow> sg_skipped g) (keys seqs)) \<and>
    ss_skipped_empty st1 = 0 \<and>
    (\<forall>k g. alookup seqs k = Some g \<longrightarrow> \<not> sg_skipped g \<longrightarrow> traced rows (k, g))"
proof -
  note g = group_by_seq_props [OF assms(2)]
  then have d: "distinct (keys seqs0)" by blast
  note m = mark_parallel_exact' [OF assms(1) d, of st0, unfolded assms(3) fst_conv snd_conv]
  have keys: "keys seqs = keys seqs0" unfolding keys_def m [THEN conjunct1] by (simp add: case_prod_beta' o_def)
  have look: "alookup seqs k = map_option (\<lambda>g. if crowded seqs0 k g then skipped_as_parallel g else g) (alookup seqs0 k)" for k
  proof -
    have "alookup (map (\<lambda>(k, g). (k, f k g)) m) k = map_option (f k) (alookup m k)" for f :: "string \<Rightarrow> seq_group \<Rightarrow> seq_group" and m
      by (induction m k rule: alookup.induct) auto
    from this [of "\<lambda>k g. if crowded seqs0 k g then skipped_as_parallel g else g" seqs0] show ?thesis
      unfolding m [THEN conjunct1] .
  qed
  have fresh: "\<not> sg_skipped g" if "alookup seqs0 k = Some g" for k g
    using g alookup_SomeD [OF that] by (auto simp: traced_def)
  have "length (filter (\<lambda>(k, g). crowded seqs0 k g) seqs0) =
      length (filter (\<lambda>k. case alookup seqs k of None \<Rightarrow> False | Some g \<Rightarrow> sg_skipped g) (map fst seqs0))"
  proof -
    have "(case alookup seqs (fst kg) of None \<Rightarrow> False | Some g \<Rightarrow> sg_skipped g) = crowded seqs0 (fst kg) (snd kg)"
      if "kg \<in> set seqs0" for kg
    proof -
      have "alookup seqs0 (fst kg) = Some (snd kg)" using that alookup_Some_iff [OF d] by simp
      then show ?thesis using fresh by (simp add: look skipped_as_parallel_def)
    qed
    then show ?thesis by (simp add: filter_map o_def case_prod_beta' cong: filter_cong)
  qed
  then have "ss_skipped_parallel st1 = length (filter (\<lambda>k. case alookup seqs k of None \<Rightarrow> False | Some g \<Rightarrow> sg_skipped g) (keys seqs))"
    using m g unfolding keys by (simp add: keys_def fresh_stats_def)
  moreover have "traced rows (k, g')" if look': "alookup seqs k = Some g'" and "\<not> sg_skipped g'" for k g'
  proof -
    from look' obtain h where h: "alookup seqs0 k = Some h" "g' = (if crowded seqs0 k h then skipped_as_parallel h else h)"
      unfolding look by auto
    with that have "g' = h" by (auto simp: skipped_as_parallel_def)
    with g alookup_SomeD [OF h(1)] show ?thesis by auto
  qed
  ultimately show ?thesis using g m keys by (auto simp: fresh_stats_def)
qed

lemma live_groups_mem:
  assumes "g \<in> set (live_groups seqs ks)"
  obtains k where "k \<in> set ks" "alookup seqs k = Some g" "\<not> sg_skipped g" "sg_admin_key g \<noteq> []"
  using assms that by (auto simp: live_groups_def lives_def split: option.splits)

text \<open>
  A successful split accounts for every course sequence of the workbook: each distinct non-empty
  sequence number became exactly one offering, or was counted once as skipped for having no admin
  class, or once as parallel. The offerings come out in strictly ascending order of the sequence.
\<close>

theorem split_accounts_for_every_sequence:
  assumes "fair_orders o'" and "split_stages o' rows semester week1 regimes = Ret (Inr (tcs, ofs, ss, st))"
  shows "length ofs + ss_skipped_empty st + ss_skipped_parallel st = card (jr_seq ` set rows - {[]}) \<and>
    sorted_wrt (<) (map of_seq ofs) \<and> set (map of_seq ofs) \<subseteq> jr_seq ` set rows - {[]}"
proof -
  obtain seqs0 st0 seqs st1 where st: "group_by_seq rows (fresh_stats (length rows)) = Ret (seqs0, st0)"
    "mark_parallel o' seqs0 st0 = (seqs, st1)"
    "build_offerings_sessions o' seqs semester week1 st1 = Ret (ofs, ss, st)"
    by (rule split_stages_Inr [OF assms(2)])
  note m = marked_groups [OF assms(1) st(1,2)]
  obtain names where ofs: "ofs = map (\<lambda>g. fst (offering_of names semester g)) (live_groups seqs (sort (keys seqs)))"
    and cnt: "ss_skipped_parallel st = ss_skipped_parallel st1"
    "ss_skipped_empty st = ss_skipped_empty st1 + length (filter (optional seqs) (keys seqs))"
    by (rule build_offerings_sessions_props [OF st(3) assms(1)])
  let ?skip = "\<lambda>k. case alookup seqs k of None \<Rightarrow> False | Some g \<Rightarrow> sg_skipped g"
  have seqs_of: "map of_seq ofs = filter (lives seqs) (sort (keys seqs))"
  proof -
    have "of_seq (fst (offering_of names semester (the (alookup seqs k)))) = k" if "lives seqs k" for k
    proof -
      from that obtain g where "alookup seqs k = Some g" "\<not> sg_skipped g"
        by (auto simp: lives_def split: option.splits)
      with m show ?thesis by (auto simp: traced_def)
    qed
    then show ?thesis unfolding ofs live_groups_def map_map by (intro map_idI) simp
  qed
  have three: "length (filter (lives seqs) ks) + length (filter (optional seqs) ks) + length (filter ?skip ks) = length ks"
    if "set ks \<subseteq> set (keys seqs)" for ks
    using that
  proof (induction ks)
    case (Cons k ks)
    then obtain g where "alookup seqs k = Some g" using alookup_None_iff [of seqs k] by auto
    with Cons show ?case by (auto simp: lives_def optional_def)
  qed simp
  have "length ofs = length (filter (lives seqs) (keys seqs))"
    using arg_cong [OF seqs_of, of length] by (metis length_map mset_filter mset_sort size_mset)
  then have "length ofs + ss_skipped_empty st + ss_skipped_parallel st = length (keys seqs)"
    using cnt m three [of "keys seqs"] by simp
  moreover have "length (keys seqs) = card (jr_seq ` set rows - {[]})"
    using m by (metis distinct_card)
  moreover have "sorted_wrt (<) (map of_seq ofs)"
  proof -
    have "distinct (keys seqs)" using m by blast
    then show ?thesis unfolding seqs_of by (simp add: sorted_wrt_filter strict_sorted_iff)
  qed
  moreover have "set (map of_seq ofs) \<subseteq> jr_seq ` set rows - {[]}" unfolding seqs_of using m by auto
  ultimately show ?thesis by simp
qed

lemma split_sessions_origin:
  assumes "fair_orders o'" and "split_stages o' rows semester week1 regimes = Ret (Inr (tcs, ofs, ss, st))"
  shows "sorted (map (\<lambda>s. (se_date s, se_start s, se_end s, se_classroom s)) ss) \<and>
    (\<forall>s \<in> set ss. \<exists>f \<in> set ofs. \<exists>r \<in> set rows. \<exists>weeks day.
       se_course s = of_course f \<and> se_code s = of_code f \<and> se_class s = of_class f \<and>
       se_semester s = of_semester f \<and> of_seq f = jr_seq r \<and>
       se_classroom s = jr_classroom r \<and> parse_periods (jr_period r) = Inr (se_start s, se_end s) \<and>
       expand_weeks (jr_week r) = Ret (Inr weeks) \<and> parse_weekday (jr_weekday r) = Inr day \<and>
       (\<exists>w \<in> set weeks. se_date s = format_date (week_date week1 w day)))"
proof -
  obtain seqs0 st0 seqs st1 where st: "group_by_seq rows (fresh_stats (length rows)) = Ret (seqs0, st0)"
    "mark_parallel o' seqs0 st0 = (seqs, st1)"
    "build_offerings_sessions o' seqs semester week1 st1 = Ret (ofs, ss, st)"
    by (rule split_stages_Inr [OF assms(2)])
  note m = marked_groups [OF assms(1) st(1,2)]
  obtain names where ofs: "ofs = map (\<lambda>g. fst (offering_of names semester g)) (live_groups seqs (sort (keys seqs)))"
    and ss: "mset ss = mset (concat (map (group_sessions names semester week1) (live_groups seqs (sort (keys seqs)))))"
    and srt: "sorted (map (\<lambda>s. (se_date s, se_start s, se_end s, se_classroom s)) ss)"
    by (rule build_offerings_sessions_props [OF st(3) assms(1)])
  have "\<exists>f \<in> set ofs. \<exists>r \<in> set rows. \<exists>weeks day.
       se_course s = of_course f \<and> se_code s = of_code f \<and> se_class s = of_class f \<and>
       se_semester s = of_semester f \<and> of_seq f = jr_seq r \<and>
       se_classroom s = jr_classroom r \<and> parse_periods (jr_period r) = Inr (se_start s, se_end s) \<and>
       expand_weeks (jr_week r) = Ret (Inr weeks) \<and> parse_weekday (jr_weekday r) = Inr day \<and>
       (\<exists>w \<in> set weeks. se_date s = format_date (week_date week1 w day))" if "s \<in> set ss" for s
  proof -
    from that mset_eq_setD [OF ss] obtain g where g: "g \<in> set (live_groups seqs (sort (keys seqs)))"
      and s: "s \<in> set (group_sessions names semester week1 g)" by auto
    from s obtain sl w where sl: "sl \<in> set (sg_slots g)" "w \<in> set (sl_weeks sl)"
      and s': "s = session_of names semester g \<lparr>sc_date = format_date (week_date week1 w (sl_weekday sl)),
          sc_start = sl_start sl, sc_end = sl_end sl, sc_classroom = sl_classroom sl\<rparr>"
      by (auto simp: group_sessions_def expand_slot_def)
    from live_groups_mem [OF g] obtain k where k: "alookup seqs k = Some g" "\<not> sg_skipped g" by blast
    with m have tr: "traced rows (k, g)" by blast
    with sl(1) obtain r where r: "r \<in> set rows" "jr_seq r = k" "slot_of_row r sl" by (auto simp: traced_def)
    from tr have "sg_seq g = k" by (simp add: traced_def)
    then show ?thesis
      using g s' sl(2) r unfolding ofs
      by (intro bexI [of _ "fst (offering_of names semester g)"] bexI [of _ r] exI [of _ "sl_weeks sl"] exI [of _ "sl_weekday sl"])
        (auto simp: session_of_def slot_of_row_def)
  qed
  with srt show ?thesis by blast
qed

subsection \<open>Coverage by the bell times\<close>

definition covered :: "regime list \<Rightarrow> (string \<times> int list) list \<Rightarrow> string \<Rightarrow> bool" where
  "covered regimes by_date d \<longleftrightarrow> (case parse_date d of None \<Rightarrow> True
     | Some date \<Rightarrow> (case active_for regimes date of None \<Rightarrow> False
       | Some regime \<Rightarrow> set (case alookup by_date d of None \<Rightarrow> [] | Some ps \<Rightarrow> ps) \<subseteq> period_index_set regime))"

lemma check_dates_Nil:
  assumes "permutes_lists (go_periods o')" and "check_dates o' regimes by_date ds bad = []"
  shows "bad = [] \<and> (\<forall>d \<in> set ds. covered regimes by_date d)"
  using assms(2)
proof (induction ds arbitrary: bad)
  case Nil
  then show ?case by simp
next
  case (Cons d ds)
  show ?case
  proof (cases "parse_date d")
    case None
    with Cons show ?thesis by (simp add: covered_def)
  next
    case date: (Some date)
    show ?thesis
    proof (cases "active_for regimes date")
      case None
      with Cons.prems date Cons.IH [of "bad @ [NoRegime d]"] show ?thesis by simp
    next
      case (Some regime)
      let ?ps = "case alookup by_date d of None \<Rightarrow> [] | Some ps \<Rightarrow> ps"
      show ?thesis
      proof (cases "find (\<lambda>p. p \<notin> period_index_set regime) (go_periods o' ?ps)")
        case None
        then have "set ?ps \<subseteq> period_index_set regime"
          using permutes_listsD(1) [OF assms(1), of ?ps] unfolding find_None_iff by blast
        with None Cons.prems date Some Cons.IH [of bad] show ?thesis
          by (auto simp: covered_def Let_def split: if_splits)
      next
        case p: (Some p)
        with Cons.prems date Some Cons.IH [of "bad @ [PeriodMissing d p (re_name regime)]"] show ?thesis
          by (auto simp: Let_def split: if_splits)
      qed
    qed
  qed
qed

lemma note_sessions:
  assumes "ofold note_session ss m = Ret m'" and "\<forall>s \<in> set ss. min_int64 \<le> se_start s \<and> se_start s \<le> max_int64 \<and> se_end s \<le> max_int64"
  shows "(\<forall>s \<in> set ss. \<exists>ps. alookup m' (se_date s) = Some ps \<and> {se_start s..se_end s} \<subseteq> set ps) \<and>
    (\<forall>d ps. alookup m d = Some ps \<longrightarrow> (\<exists>ps'. alookup m' d = Some ps' \<and> set ps \<subseteq> set ps'))"
  using assms
proof (induction ss arbitrary: m)
  case Nil
  then show ?case by simp
next
  case (Cons s ss)
  from Cons.prems(1) obtain m1 where m1: "note_session s m = Ret m1" and rest1: "ofold note_session ss m1 = Ret m'"
    by auto
  from m1 obtain ps where ps: "go_range (se_start s) (se_end s) = Ret ps"
    and m1': "m1 = aupdate (se_date s)
       (remdups ((case alookup m (se_date s) of None \<Rightarrow> [] | Some old \<Rightarrow> old) @ ps)) m"
    unfolding note_session_def by auto
  note rest = rest1 [unfolded m1']
  have "ps = [se_start s..se_end s]" using go_range_Ret [OF ps] Cons.prems(2) by simp
  then have set_ps: "set ps = {se_start s..se_end s}" by simp
  have "\<forall>s \<in> set ss. min_int64 \<le> se_start s \<and> se_start s \<le> max_int64 \<and> se_end s \<le> max_int64"
    using Cons.prems(2) by simp
  note IH = Cons.IH [OF rest this]
  let ?new = "remdups ((case alookup m (se_date s) of None \<Rightarrow> [] | Some old \<Rightarrow> old) @ ps)"
  have "alookup (aupdate (se_date s) ?new m) (se_date s) = Some ?new" by simp
  from IH [THEN conjunct2, rule_format, OF this] obtain ps' where
    ps': "alookup m' (se_date s) = Some ps'" "set ?new \<subseteq> set ps'" by blast
  have keep: "\<exists>ps''. alookup m' d = Some ps'' \<and> set qs \<subseteq> set ps''" if "alookup m d = Some qs" for d qs
  proof (cases "d = se_date s")
    case True
    with ps' that show ?thesis by auto
  next
    case False
    with that have "alookup (aupdate (se_date s) ?new m) d = Some qs" by simp
    from IH [THEN conjunct2, rule_format, OF this] show ?thesis .
  qed
  have "{se_start s..se_end s} \<subseteq> set ps'" using ps'(2) set_ps by auto
  with ps'(1) IH keep show ?case by simp
qed

lemma parse_periods_bounds:
  "parse_periods s = Inr (a, b) \<Longrightarrow> min_int64 \<le> a \<and> a \<le> max_int64 \<and> b \<le> max_int64"
  using parse_periods_range [of s a b] by (auto simp: min_int64_def)

text \<open>
  When the split succeeds, the bell-time regimes cover its sessions: on every session date that the
  date format can express there is an active regime, and it contains each period of each session of
  that date.
\<close>

theorem split_sessions_are_covered:
  assumes "fair_orders o'" and "split_stages o' rows semester week1 regimes = Ret (Inr (tcs, ofs, ss, st))"
    and "s \<in> set ss" and "parse_date (se_date s) = Some date"
  shows "\<exists>regime. active_for regimes date = Some regime \<and> {se_start s..se_end s} \<subseteq> period_index_set regime"
proof -
  obtain seqs0 st0 seqs st1 where st: "group_by_seq rows (fresh_stats (length rows)) = Ret (seqs0, st0)"
    "mark_parallel o' seqs0 st0 = (seqs, st1)"
    "build_offerings_sessions o' seqs semester week1 st1 = Ret (ofs, ss, st)"
    and v: "validate_regimes o' ss regimes = Ret None"
    by (rule split_stages_Inr [OF assms(2)])
  have bounds: "\<forall>s \<in> set ss. min_int64 \<le> se_start s \<and> se_start s \<le> max_int64 \<and> se_end s \<le> max_int64"
    using split_sessions_origin [OF assms(1,2)] parse_periods_bounds by blast
  have fair: "permutes_lists (go_dates o')" "permutes_lists (go_periods o')"
    using assms(1) by (simp_all add: fair_orders_def)
  from v obtain m where m: "ofold note_session ss [] = Ret m"
    and bad: "check_dates o' regimes m (go_dates o' (keys m)) [] = []"
    by (auto simp: validate_regimes_def Let_def split: if_splits)
  from note_sessions [OF m bounds] assms(3) obtain ps where
    ps: "alookup m (se_date s) = Some ps" "{se_start s..se_end s} \<subseteq> set ps" by blast
  then have "se_date s \<in> set (keys m)" using alookup_None_iff [of m "se_date s"] by auto
  then have "covered regimes m (se_date s)"
    using check_dates_Nil [OF fair(2) bad] permutes_listsD(1) [OF fair(1), of "keys m"] by blast
  with ps assms(4) show ?thesis by (auto simp: covered_def split: option.splits)
qed

subsection \<open>Names of the teaching classes\<close>

text \<open>Some live group of the admin key \<open>a\<close> yields the name \<open>n\<close>.\<close>

definition named_by :: "seq_map \<Rightarrow> string \<Rightarrow> string \<Rightarrow> string \<Rightarrow> bool" where
  "named_by seqs a n t \<longleftrightarrow> (\<exists>k g. lives seqs k \<and> alookup seqs k = Some g \<and> sg_admin_key g = a \<and>
     teaching_class_name (sg_members g) = Ret (n, t))"

lemma name_class_loop:
  assumes "ofold (name_class seqs) ks m = Ret m'"
    and "\<forall>a c. alookup m a = Some c \<longrightarrow> named_by seqs a (tk_name c) (tk_note c)"
  shows "(\<forall>k \<in> set ks. lives seqs k \<longrightarrow> (\<exists>c. alookup m' (sg_admin_key (the (alookup seqs k))) = Some c)) \<and>
    (\<forall>a c. alookup m a = Some c \<longrightarrow> alookup m' a = Some c) \<and>
    (\<forall>a c. alookup m' a = Some c \<longrightarrow> named_by seqs a (tk_name c) (tk_note c))"
  using assms
proof (induction ks arbitrary: m)
  case Nil
  then show ?case by simp
next
  case (Cons k ks)
  from Cons.prems(1) obtain m1 where m1: "name_class seqs k m = Ret m1" "ofold (name_class seqs) ks m1 = Ret m'" by auto
  show ?case
  proof (cases "lives seqs k")
    case False
    with m1(1) have "m1 = m" by (auto simp: name_class_def lives_def split: option.splits if_splits)
    with False Cons.IH [OF m1(2)] Cons.prems(2) show ?thesis by simp
  next
    case True
    then obtain g where g: "alookup seqs k = Some g" "\<not> sg_skipped g" "sg_admin_key g \<noteq> []"
      by (auto simp: lives_def split: option.splits)
    show ?thesis
    proof (cases "alookup m (sg_admin_key g)")
      case (Some c)
      with m1(1) g have "m1 = m" by (simp add: name_class_def)
      with Some g Cons.IH [OF m1(2)] Cons.prems(2) show ?thesis by auto
    next
      case None
      with m1(1) g obtain n t where n: "teaching_class_name (sg_members g) = Ret (n, t)"
        and m1': "m1 = m @ [(sg_admin_key g, \<lparr>tk_name = n, tk_note = t, tk_members = sg_members g\<rparr>)]"
        by (auto simp: name_class_def)
      from n g True have "named_by seqs (sg_admin_key g) n t" unfolding named_by_def by blast
      then have "\<forall>a c. alookup m1 a = Some c \<longrightarrow> named_by seqs a (tk_name c) (tk_note c)"
        using Cons.prems(2) unfolding m1' by (auto split: option.splits if_splits)
      note IH = Cons.IH [OF m1(2) this]
      have "alookup m1 a = Some c" if "alookup m a = Some c" for a c using that by (simp add: m1')
      moreover have "\<exists>c. alookup m1 (sg_admin_key g) = Some c" using None by (simp add: m1')
      ultimately show ?thesis using IH g by auto
    qed
  qed
qed

lemma name_class_found:
  assumes "ofold (name_class seqs) ks [] = Ret m" and "k \<in> set ks" and "lives seqs k" and "alookup seqs k = Some g"
  shows "\<exists>c. alookup m (sg_admin_key g) = Some c"
  using name_class_loop [OF assms(1)] assms(2-4) by force

lemma name_class_names:
  assumes "ofold (name_class seqs) ks [] = Ret m" and "alookup m a = Some c"
  shows "named_by seqs a (tk_name c) (tk_note c)"
  using name_class_loop [OF assms(1)] assms(2) by simp

lemma alookup_map_values: "alookup (map (\<lambda>(a, c). (a, f c)) m) k = map_option f (alookup m k)"
  by (induction m k rule: alookup.induct) auto

text \<open>The second naming loop is the first one with the other parts of the record forgotten.\<close>

lemma name_key_forgets:
  "name_key seqs k (map (\<lambda>(a, c). (a, tk_name c)) m) =
     obind (name_class seqs k m) (\<lambda>m'. Ret (map (\<lambda>(a, c). (a, tk_name c)) m'))"
  by (cases "alookup seqs k"; cases "teaching_class_name (sg_members (the (alookup seqs k)))")
    (auto simp: name_key_def name_class_def alookup_map_values split: option.splits)

lemma name_keys_forget:
  "ofold (name_key seqs) ks (map (\<lambda>(a, c). (a, tk_name c)) m) =
     obind (ofold (name_class seqs) ks m) (\<lambda>m'. Ret (map (\<lambda>(a, c). (a, tk_name c)) m'))"
proof (induction ks arbitrary: m)
  case (Cons k ks)
  then show ?case by (cases "name_class seqs k m") (simp_all add: name_key_forgets)
qed simp

text \<open>
  When rows that name the same set of classes list it in the same order, every offering of a
  successful split refers to a teaching class of the teaching-class sheet, whatever orders the map
  ranges visit. (The same order of both naming loops would do as well, but the language does not give
  it: see below.)
\<close>

theorem offerings_refer_to_teaching_classes:
  assumes "fair_orders o'" and "split_stages o' rows semester week1 regimes = Ret (Inr (tcs, ofs, ss, st))"
    and "\<forall>r \<in> set rows. \<forall>q \<in> set rows.
      admin_set_key (fst (parse_admin_set (jr_admin r))) = admin_set_key (fst (parse_admin_set (jr_admin q))) \<longrightarrow>
      fst (parse_admin_set (jr_admin r)) = fst (parse_admin_set (jr_admin q))"
  shows "of_class ` set ofs \<subseteq> tk_name ` set tcs"
proof
  obtain seqs0 st0 seqs st1 where st: "group_by_seq rows (fresh_stats (length rows)) = Ret (seqs0, st0)"
    "mark_parallel o' seqs0 st0 = (seqs, st1)" and tcs: "build_teaching_classes o' seqs = Ret tcs"
    and off: "build_offerings_sessions o' seqs semester week1 st1 = Ret (ofs, ss, st)"
    by (rule split_stages_Inr [OF assms(2)])
  note m = marked_groups [OF assms(1) st]
  obtain names where names: "ofold (name_key seqs) (go_names o' (keys seqs)) [] = Ret names"
    and ofs: "ofs = map (\<lambda>g. fst (offering_of names semester g)) (live_groups seqs (sort (keys seqs)))"
    by (rule build_offerings_sessions_props [OF off assms(1)])
  have fair: "permutes_lists (go_classes o')" "permutes_lists (go_names o')" "permutes_lists (go_tie_classes o')"
    using assms(1) by (simp_all add: fair_orders_def)
  have "obind (ofold (name_class seqs) (go_names o' (keys seqs)) [])
      (\<lambda>m'. Ret (map (\<lambda>(a, c). (a, tk_name c)) m')) = Ret names"
    using name_keys_forget [of seqs "go_names o' (keys seqs)" "[]"] names by simp
  then obtain m2 where m2: "ofold (name_class seqs) (go_names o' (keys seqs)) [] = Ret m2"
    and names': "names = map (\<lambda>(a, c). (a, tk_name c)) m2" by auto
  obtain m1 where m1: "ofold (name_class seqs) (go_classes o' (keys seqs)) [] = Ret m1"
    and tcs': "set tcs = snd ` set m1"
    using tcs sort_tie_set [OF fair(3), of tk_name] by (auto simp: build_teaching_classes_def)
  have tr: "\<forall>k g. alookup seqs k = Some g \<longrightarrow> \<not> sg_skipped g \<longrightarrow> traced rows (k, g)" using m by blast
  have same: "sg_members g = sg_members h" if "lives seqs k" "alookup seqs k = Some g"
    "lives seqs j" "alookup seqs j = Some h" "sg_admin_key g = sg_admin_key h" for k g j h
  proof -
    from that have "\<not> sg_skipped g" "\<not> sg_skipped h" by (simp_all add: lives_def)
    with tr that have "traced rows (k, g)" "traced rows (j, h)" by blast+
    from traced_members [OF this(1)] traced_members [OF this(2)] that(5) assms(3) show ?thesis by metis
  qed
  fix c assume "c \<in> of_class ` set ofs"
  then obtain g where g: "g \<in> set (live_groups seqs (sort (keys seqs)))" "c = field names (sg_admin_key g)"
    unfolding ofs by auto
  from g(1) obtain k where k: "k \<in> set (keys seqs)" "lives seqs k" "alookup seqs k = Some g"
    by (auto simp: live_groups_def lives_def split: option.splits)
  have in_orders: "k \<in> set (go_names o' (keys seqs))" "k \<in> set (go_classes o' (keys seqs))"
    using k(1) permutes_listsD(1) fair by metis+
  obtain c2 where c2: "alookup m2 (sg_admin_key g) = Some c2"
    using name_class_found [OF m2 in_orders(1) k(2,3)] by blast
  note n2 = name_class_names [OF m2 c2]
  obtain c1 where c1: "alookup m1 (sg_admin_key g) = Some c1"
    using name_class_found [OF m1 in_orders(2) k(2,3)] by blast
  note n1 = name_class_names [OF m1 c1]
  from n1 n2 obtain j1 h1 j2 h2 where "lives seqs j1" "alookup seqs j1 = Some h1" "lives seqs j2" "alookup seqs j2 = Some h2"
    and keys_eq: "sg_admin_key h1 = sg_admin_key h2"
    and results: "teaching_class_name (sg_members h1) = Ret (tk_name c1, tk_note c1)"
      "teaching_class_name (sg_members h2) = Ret (tk_name c2, tk_note c2)"
    unfolding named_by_def by auto
  then have "sg_members h1 = sg_members h2" using same by blast
  with results have "tk_name c1 = tk_name c2" by simp
  moreover have "c = tk_name c2" using g(2) c2 by (simp add: names' field_def alookup_map_values)
  moreover have "c1 \<in> set tcs" unfolding tcs' using alookup_SomeD [OF c1] by force
  ultimately show "c \<in> tk_name ` set tcs" by (metis imageI)
qed


subsection \<open>A small workbook\<close>

definition demo_row ::
  "string \<Rightarrow> string \<Rightarrow> string \<Rightarrow> string \<Rightarrow> string \<Rightarrow> string \<Rightarrow> string \<Rightarrow> jwc_row" where
  "demo_row seq code admin room weekday period week =
     \<lparr>jr_building = [], jr_classroom = room, jr_room_type = [], jr_floor = [], jr_weekday = weekday,
      jr_period = period, jr_week = week, jr_seq = seq, jr_code = code, jr_name = code, jr_admin = admin,
      jr_teacher_name = [], jr_teacher_title = [], jr_teacher_id = [], jr_max_students = [], jr_college = [],
      jr_requirement = [], jr_category = [], jr_total_hours = [], jr_weekly_hours = [], jr_credits = [],
      jr_exam_type = [], jr_grade = [], jr_campus = [], jr_room_capacity = [], jr_row_num = 2\<rparr>"

definition demo_rows :: "jwc_row list" where
  "demo_rows =
     [demo_row ''s1'' ''C1'' ''UC241'' ''R1'' ''1'' ''1-2'' ''1-2'',
      demo_row ''s2'' ''C2'' ''UC241,UC242'' ''R1'' ''3'' ''1'' ''2'',
      demo_row ''s3'' ''C3'' [] [] [] [] [], demo_row ''s4'' ''C4'' ''X1'' [] [] [] [],
      demo_row ''s5'' ''C4'' ''X1'' [] [] [] []]"

definition demo_monday :: int where "demo_monday = days_from_civil 2024 9 2"

lemma demo_cells:
  "expand_weeks ''1-2'' = Ret (Inr [1,2])" "expand_weeks ''2'' = Ret (Inr [2])" "expand_weeks [] = Ret (Inl EmptyWeeks)"
  "parse_periods ''1-2'' = Inr (1,2)" "parse_periods ''1'' = Inr (1,1)" "parse_periods [] = Inl EmptyPeriod"
  "parse_weekday ''1'' = Inr 1" "parse_weekday ''3'' = Inr 3"
  "parse_admin_set ''UC241'' = ([''UC241''],True)" 
  "parse_admin_set ''UC241,UC242'' = ([''UC241'',''UC242''],True)" 
  "parse_admin_set ''X1'' = ([''X1''],True)" "parse_admin_set [] = ([],False)" 
  "admin_set_key [''UC241''] = ''UC241''" "admin_set_key [''X1''] = ''X1''"
  "admin_set_key [''UC241'',''UC242''] = ''UC241,UC242''" "\<not> is_non_physical ''R1''"
  "teaching_class_name [''UC241''] = Ret (''UC241'', [])" "teaching_class_name [''UC241'',''UC242''] = Ret (''UC241~242'', [])"
  "sort [''s1'',''s2'',''s3'',''s4'',''s5''] = [''s1'',''s2'',''s3'',''s4'',''s5'']"
  "sort [''s4'',''s5''] = [''s4'',''s5'']"
  "parse_date (format_date (demo_monday)) = Some demo_monday"
  "format_date (week_date demo_monday 1 1) = ''2024-09-02''" 
  "format_date (week_date demo_monday 2 1) = ''2024-09-09''" 
  "format_date (week_date demo_monday 2 3) = ''2024-09-11''" 
  "parse_date ''2024-09-02'' = Some demo_monday" "parse_date ''2024-09-09'' = Some (demo_monday+7)" "parse_date ''2024-09-11'' = Some (demo_monday+9)"
  "go_range 1 2 = Ret [1,2]" "go_range 1 1 = Ret [1]"
  by code_simp+

definition demo_group :: "string \<Rightarrow> string \<Rightarrow> string list \<Rightarrow> string \<Rightarrow> slot list \<Rightarrow> string list \<Rightarrow> seq_group" where
  "demo_group seq code members key slots seen = \<lparr>sg_seq = seq, sg_code = code, sg_name = code, sg_members = members,
     sg_admin_key = key, sg_college = [], sg_max_students = [], sg_requirement = [], sg_weekly_hours = [],
     sg_credits = [], sg_total_hours = [], sg_category = [], sg_exam_type = [], sg_grade = [], sg_slots = slots,
     sg_slot_seen = seen, sg_teachers = [], sg_skipped = False, sg_skip_reason = []\<rparr>"

definition demo_seqs :: seq_map where
  "demo_seqs =
     [(''s1'', demo_group ''s1'' ''C1'' [''UC241''] ''UC241''
        [\<lparr>sl_classroom = ''R1'', sl_weekday = 1, sl_start = 1, sl_end = 2, sl_weeks = [1, 2]\<rparr>] [''R1|1|1-2|1-2'']),
      (''s2'', demo_group ''s2'' ''C2'' [''UC241'', ''UC242''] ''UC241,UC242''
        [\<lparr>sl_classroom = ''R1'', sl_weekday = 3, sl_start = 1, sl_end = 1, sl_weeks = [2]\<rparr>] [''R1|3|1|2'']),
      (''s3'', demo_group ''s3'' ''C3'' [] [] [] [''|||'']),
      (''s4'', demo_group ''s4'' ''C4'' [''X1''] ''X1'' [] [''|||'']),
      (''s5'', demo_group ''s5'' ''C4'' [''X1''] ''X1'' [] [''|||''])]"

lemma demo_groups: "\<exists>st. group_by_seq demo_rows (fresh_stats 5) = Ret (demo_seqs, st)"
  by (simp add: group_by_seq_def group_row_def demo_rows_def add_slot_def add_teacher_def new_seq_group_def
      demo_cells slot_key_def demo_row_def Let_def demo_seqs_def demo_group_def)

lemma demo_marks: "fst (mark_parallel source_order demo_seqs st) = mark_set {''s4'', ''s5''} demo_seqs"
  by (simp add: mark_parallel_def source_order_def demo_seqs_def collect_pair_def skip_parallel_def skip_group_def demo_group_def
     group_pair_def mark_set_def demo_cells skipped_as_parallel_def)

lemma demo_classes: "\<exists>tcs. build_teaching_classes source_order (mark_set {''s4'', ''s5''} demo_seqs) = Ret tcs"
  by (simp add: build_teaching_classes_def source_order_def mark_set_def demo_seqs_def name_class_def skipped_as_parallel_def demo_group_def demo_cells)


definition demo_session :: "string \<Rightarrow> int \<Rightarrow> string \<Rightarrow> string \<Rightarrow> session_rec" where
  "demo_session date b code cls = \<lparr>se_date = date, se_start = 1, se_end = b, se_classroom = ''R1'', se_course = code,
     se_code = code, se_class = cls, se_semester = ''2024''\<rparr>"

definition demo_sessions :: "session_rec list" where
  "demo_sessions = [demo_session ''2024-09-02'' 2 ''C1'' ''UC241'', demo_session ''2024-09-09'' 2 ''C1'' ''UC241'',
     demo_session ''2024-09-11'' 1 ''C2'' ''UC241~242'']"

lemma demo_sorted: "sort_key (\<lambda>s. (se_date s, se_start s, se_end s, se_classroom s)) demo_sessions = demo_sessions"
proof (rule sort_key_id_if_sorted)
  have "(''2024-09-02'' :: string) < ''2024-09-09''" "(''2024-09-02'' :: string) < ''2024-09-11''"
    "(''2024-09-09'' :: string) < ''2024-09-11''" by code_simp+
  then show "sorted (map (\<lambda>s. (se_date s, se_start s, se_end s, se_classroom s)) demo_sessions)"
    by (simp only: demo_sessions_def demo_session_def list.map sorted_wrt.simps session_rec.simps list.set less_eq_prod_simp) simp
qed

lemma demo_emits: "\<exists>ofs st'. build_offerings_sessions source_order (mark_set {''s4'', ''s5''} demo_seqs) ''2024'' demo_monday st =
   Ret (ofs, demo_sessions, st')"
  using demo_sorted
  by (simp add: build_offerings_sessions_def source_order_def mark_set_def demo_seqs_def name_key_def skipped_as_parallel_def demo_group_def demo_cells
    emit_group_def  group_sessions_def session_of_def expand_slot_def offering_of_def Let_def case_prod_beta' demo_sessions_def demo_session_def field_def)

definition demo_regime :: regime where
  "demo_regime = \<lparr>re_id = 1, re_name = ''all'', re_month = 1, re_day = 1, re_created_at = 0,
     re_periods = [\<lparr>pd_id = 1, pd_regime_id = 1, pd_index = 1, pd_start = ''08:00'', pd_end = ''08:45''\<rparr>,
                   \<lparr>pd_id = 2, pd_regime_id = 1, pd_index = 2, pd_start = ''08:55'', pd_end = ''09:40''\<rparr>]\<rparr>"

lemma split_demo_active:
  "active_for [demo_regime] d = Some demo_regime"
  "period_index_set demo_regime = {1, 2}"
  by (simp_all add: active_for_def active_step_def active_init_def demo_regime_def period_index_set_def regime_md_def Let_def)

lemma demo_validates: "validate_regimes source_order demo_sessions [demo_regime] = Ret None"
  by (simp add: validate_regimes_def source_order_def demo_sessions_def demo_session_def note_session_def demo_cells split_demo_active)

lemma demo_split:
  "\<exists>tcs ofs st. split_stages source_order demo_rows ''2024'' demo_monday [demo_regime] = Ret (Inr (tcs, ofs, demo_sessions, st))"
proof -
  obtain st where g: "group_by_seq demo_rows (fresh_stats 5) = Ret (demo_seqs, st)" using demo_groups by blast
  obtain st1 where m: "mark_parallel source_order demo_seqs st = (mark_set {''s4'', ''s5''} demo_seqs, st1)"
    using demo_marks [of st] by (cases "mark_parallel source_order demo_seqs st") simp
  obtain tcs where t: "build_teaching_classes source_order (mark_set {''s4'', ''s5''} demo_seqs) = Ret tcs"
    using demo_classes by blast
  obtain ofs st2 where "build_offerings_sessions source_order (mark_set {''s4'', ''s5''} demo_seqs) ''2024'' demo_monday st1 =
   Ret (ofs, demo_sessions, st2)" using demo_emits by blast
  moreover have "length demo_rows = 5" by (simp add: demo_rows_def)
  ultimately show ?thesis by (simp add: split_stages_def g m t demo_validates)
qed

definition swapped_rows :: "jwc_row list" where
  "swapped_rows = [demo_row ''s1'' ''C1'' ''A1,B1'' [] [] [] [], demo_row ''s2'' ''C2'' ''B1,A1'' [] [] [] []]"

definition reversed_names :: go_orders where
  "reversed_names = source_order\<lparr>go_names := rev\<rparr>"

lemma swapped_cells:
  "parse_admin_set ''A1,B1'' = ([''A1'', ''B1''], True)" "parse_admin_set ''B1,A1'' = ([''B1'', ''A1''], True)"
  "admin_set_key [''A1'', ''B1''] = ''A1,B1''" "admin_set_key [''B1'', ''A1''] = ''A1,B1''"
  "teaching_class_name [''A1'', ''B1''] = Ret (''A1,B1'', [])" "teaching_class_name [''B1'', ''A1''] = Ret (''B1,A1'', [])"
  "sort [''s1'', ''s2''] = [''s1'', ''s2'']"
  by code_simp+

lemma swapped_split:
  "\<exists>tcs ofs st. split_stages reversed_names swapped_rows ''2024'' demo_monday [demo_regime] = Ret (Inr (tcs, ofs, [], st)) \<and>
     map tk_name tcs = [''A1,B1''] \<and> map of_class ofs = [''B1,A1'', ''B1,A1'']"
proof -
  define g1 where "g1 = demo_group ''s1'' ''C1'' [''A1'', ''B1''] ''A1,B1'' [] [''|||'']"
  define g2 where "g2 = demo_group ''s2'' ''C2'' [''B1'', ''A1''] ''A1,B1'' [] [''|||'']"
  let ?seqs = "[(''s1'', g1), (''s2'', g2)]"
  have "\<exists>st. group_by_seq swapped_rows (fresh_stats 2) = Ret (?seqs, st)"
    by (simp add: swapped_rows_def group_by_seq_def group_row_def add_slot_def add_teacher_def new_seq_group_def
        demo_cells swapped_cells slot_key_def demo_row_def Let_def g1_def g2_def demo_group_def)
  then obtain st where g: "group_by_seq swapped_rows (fresh_stats 2) = Ret (?seqs, st)" by blast
  have m: "mark_parallel reversed_names ?seqs st = (?seqs, st)"
    by (simp add: mark_parallel_def reversed_names_def source_order_def collect_pair_def skip_parallel_def group_pair_def
        g1_def g2_def demo_group_def)
  have t: "build_teaching_classes reversed_names ?seqs = Ret [\<lparr>tk_name = ''A1,B1'', tk_note = [], tk_members = [''A1'', ''B1'']\<rparr>]"
    by (simp add: build_teaching_classes_def reversed_names_def source_order_def name_class_def swapped_cells
        g1_def g2_def demo_group_def)
  have o': "\<exists>ofs st'. build_offerings_sessions reversed_names ?seqs ''2024'' demo_monday st = Ret (ofs, [], st') \<and>
      map of_class ofs = [''B1,A1'', ''B1,A1'']"
    by (simp add: build_offerings_sessions_def reversed_names_def source_order_def name_key_def swapped_cells
        emit_group_def group_sessions_def offering_of_def Let_def case_prod_beta' field_def g1_def g2_def demo_group_def)
  have "length swapped_rows = 2" by (simp add: swapped_rows_def)
  moreover have "validate_regimes reversed_names [] [demo_regime] = Ret None"
    by (simp add: validate_regimes_def reversed_names_def source_order_def)
  ultimately show ?thesis using o' by (force simp: split_stages_def g m t)
qed

subsection \<open>The guarantees at the level of a split\<close>

text \<open>
  C36: \<open>markParallel\<close> skips exactly the sequences that share their course code and their set of classes
  with another one, whatever order the two map ranges visit, and counts each of them once.
\<close>

theorem mark_parallel_exact:
  assumes "fair_orders o'" and "distinct (keys seqs)"
  shows "fst (mark_parallel o' seqs st) =
      map (\<lambda>(k, g). (k, if crowded seqs k g then skipped_as_parallel g else g)) seqs \<and>
    ss_skipped_parallel (snd (mark_parallel o' seqs st)) =
      ss_skipped_parallel st + length (filter (\<lambda>(k, g). crowded seqs k g) seqs) \<and>
    ss_skipped_empty (snd (mark_parallel o' seqs st)) = ss_skipped_empty st"
  by (rule mark_parallel_exact' [OF assms])

theorem mark_parallel_exact_witness:
  "fst (mark_parallel source_order demo_seqs (fresh_stats 5)) =
     map (\<lambda>(k, g). (k, if crowded demo_seqs k g then skipped_as_parallel g else g)) demo_seqs"
proof -
  have "distinct (keys demo_seqs)" by (simp add: demo_seqs_def)
  from mark_parallel_exact [OF fair_source_order this, of "fresh_stats 5"] show ?thesis by blast
qed

theorem split_accounts_for_every_sequence_witness:
  "\<exists>tcs ofs st. split_stages source_order demo_rows ''2024'' demo_monday [demo_regime] = Ret (Inr (tcs, ofs, demo_sessions, st)) \<and>
     length ofs + ss_skipped_empty st + ss_skipped_parallel st = 5"
proof -
  obtain tcs ofs st where s: "split_stages source_order demo_rows ''2024'' demo_monday [demo_regime] = Ret (Inr (tcs, ofs, demo_sessions, st))"
    using demo_split by blast
  have "card (jr_seq ` set demo_rows - {[]}) = 5" by (simp add: demo_rows_def demo_row_def)
  with s split_accounts_for_every_sequence [OF fair_source_order s] show ?thesis by auto
qed

text \<open>
  Every session of a successful split belongs to an offering of the same split (same course, code,
  teaching class and semester) and to a source row of that offering's sequence: its room and its
  periods are those of the row's cells, and its date is the row's weekday in one of the row's weeks,
  counted from the given Monday. The sessions are sorted by date, periods and room.
\<close>

theorem split_sessions_come_from_rows:
  assumes "fair_orders o'" and "split_stages o' rows semester week1 regimes = Ret (Inr (tcs, ofs, ss, st))"
  shows "sorted (map (\<lambda>s. (se_date s, se_start s, se_end s, se_classroom s)) ss) \<and>
    (\<forall>s \<in> set ss. \<exists>f \<in> set ofs. \<exists>r \<in> set rows. \<exists>weeks day.
       se_course s = of_course f \<and> se_code s = of_code f \<and> se_class s = of_class f \<and>
       se_semester s = of_semester f \<and> of_seq f = jr_seq r \<and>
       se_classroom s = jr_classroom r \<and> parse_periods (jr_period r) = Inr (se_start s, se_end s) \<and>
       expand_weeks (jr_week r) = Ret (Inr weeks) \<and> parse_weekday (jr_weekday r) = Inr day \<and>
       (\<exists>w \<in> set weeks. se_date s = format_date (week_date week1 w day)))"
  by (rule split_sessions_origin [OF assms])

theorem split_sessions_come_from_rows_witness:
  "\<exists>r \<in> set demo_rows. jr_classroom r = ''R1'' \<and> parse_periods (jr_period r) = Inr (1, 2) \<and>
     (\<exists>weeks day. \<exists>w \<in> set weeks. expand_weeks (jr_week r) = Ret (Inr weeks) \<and>
        ''2024-09-09'' = format_date (week_date demo_monday w day))"
proof -
  obtain tcs ofs st where s: "split_stages source_order demo_rows ''2024'' demo_monday [demo_regime] = Ret (Inr (tcs, ofs, demo_sessions, st))"
    using demo_split by blast
  have "demo_session ''2024-09-09'' 2 ''C1'' ''UC241'' \<in> set demo_sessions" by (simp add: demo_sessions_def)
  from split_sessions_come_from_rows [OF fair_source_order s, THEN conjunct2, THEN bspec, OF this]
  obtain r weeks day w where "r \<in> set demo_rows" "jr_classroom r = ''R1''" "parse_periods (jr_period r) = Inr (1, 2)"
    "expand_weeks (jr_week r) = Ret (Inr weeks)" "w \<in> set weeks"
    "''2024-09-09'' = format_date (week_date demo_monday w day)"
    unfolding demo_session_def session_rec.simps by metis
  then show ?thesis by blast
qed

theorem split_sessions_are_covered_witness:
  "\<exists>regime. active_for [demo_regime] demo_monday = Some regime \<and> {1..2} \<subseteq> period_index_set regime"
proof -
  obtain tcs ofs st where s: "split_stages source_order demo_rows ''2024'' demo_monday [demo_regime] = Ret (Inr (tcs, ofs, demo_sessions, st))"
    using demo_split by blast
  have "demo_session ''2024-09-02'' 2 ''C1'' ''UC241'' \<in> set demo_sessions" by (simp add: demo_sessions_def)
  from split_sessions_are_covered [OF fair_source_order s this, of demo_monday] show ?thesis
    by (simp add: demo_session_def demo_cells)
qed

theorem offerings_refer_to_teaching_classes_witness:
  "\<exists>tcs ofs st. split_stages source_order demo_rows ''2024'' demo_monday [demo_regime] = Ret (Inr (tcs, ofs, demo_sessions, st)) \<and>
     of_class ` set ofs \<subseteq> tk_name ` set tcs"
proof -
  obtain tcs ofs st where s: "split_stages source_order demo_rows ''2024'' demo_monday [demo_regime] = Ret (Inr (tcs, ofs, demo_sessions, st))"
    using demo_split by blast
  have "admin_set_key [] = []" by (simp add: admin_set_key_def)
  then have "\<forall>r \<in> set demo_rows. \<forall>q \<in> set demo_rows.
      admin_set_key (fst (parse_admin_set (jr_admin r))) = admin_set_key (fst (parse_admin_set (jr_admin q))) \<longrightarrow>
      fst (parse_admin_set (jr_admin r)) = fst (parse_admin_set (jr_admin q))"
    by (simp add: demo_rows_def demo_row_def demo_cells)
  from offerings_refer_to_teaching_classes [OF fair_source_order s this] s show ?thesis by blast
qed

text \<open>
  Without that agreement the two naming loops can disagree: two courses of the classes A1 and B1,
  listed in different orders, and two visiting orders that the language allows, give offerings whose
  teaching class is not in the teaching-class sheet, although the split reports success.
\<close>

theorem offering_class_names_may_dangle:
  "\<exists>o' rows tcs ofs ss st. fair_orders o' \<and>
     split_stages o' rows ''2024'' demo_monday [demo_regime] = Ret (Inr (tcs, ofs, ss, st)) \<and>
     of_class ` set ofs = {''B1,A1''} \<and> tk_name ` set tcs = {''A1,B1''}"
proof -
  obtain tcs ofs st where "split_stages reversed_names swapped_rows ''2024'' demo_monday [demo_regime] = Ret (Inr (tcs, ofs, [], st))"
    "map tk_name tcs = [''A1,B1'']" "map of_class ofs = [''B1,A1'', ''B1,A1'']"
    using swapped_split by (elim exE conjE)
  moreover have "fair_orders reversed_names"
    by (simp add: fair_orders_def reversed_names_def source_order_def permutes_lists_def)
  moreover have "of_class ` set ofs = set (map of_class ofs)" "tk_name ` set tcs = set (map tk_name tcs)" by simp_all
  ultimately show ?thesis by (metis empty_set insert_absorb2 list.simps(15))
qed

text \<open>
  The grade of an admin class comes from the first row that names it, although a later row may carry
  the authoritative column that \<open>buildAdminGrades\<close> is meant to prefer.
\<close>

lemma first_row_decides_the_grade:
  "build_admin_grades [demo_row ''s1'' ''C1'' ''UC241'' [] [] [] [], (demo_row ''s2'' ''C2'' ''UC241'' [] [] [] [])\<lparr>jr_grade := ''2023''\<rparr>] =
     [(''UC241'', ''2024'')]"
proof -
  have "grade_for ''UC241'' [] = ''2024''" by code_simp
  then show ?thesis by (simp add: build_admin_grades_def add_admin_grade_def demo_row_def demo_cells)
qed

text \<open>Row numbers of the warnings count only the rows that are not blank.\<close>

lemma row_numbers_skip_blank_rows:
  "map_rows id [[''h''], [[]], [''x'']] = Inr ([''h''], [[(''h'', ''x'')]])"
  by code_simp

end
