(* ===== verification/Org.thy ===== *)
theory Org
  imports Classroom
begin

text \<open>
  Administrative classes, teaching classes and the student roster (\<open>internal/user/org_model.go\<close>,
  \<open>org_store.go\<close>, \<open>org_handler.go\<close>, \<open>students.go\<close>). A teaching class is a named set of administrative
  classes; once an offering refers to it, it cannot be deleted and its members are frozen. The
  collation of the database enters as the parameter \<open>ck\<close> (a sort key) and \<open>eq\<close> (for ILIKE).
\<close>

subsection \<open>Data\<close>

record class_ref =
  cr_id :: int
  cr_name :: string
  cr_grade :: string

record teaching_class_view =
  tv_row :: teaching_class_row
  tv_classes :: "class_ref list"

record admin_class_input =
  aci_grade :: string
  aci_name :: string
  aci_note :: string

record teaching_class_input =
  tci_name :: string
  tci_note :: string
  tci_class_ids :: "int list"

record student_view =
  sv_user :: int
  sv_username :: string
  sv_display_name :: string
  sv_student_no :: string
  sv_class :: int
  sv_note :: string

record student_input =
  sti_user :: int
  sti_student_no :: string
  sti_note :: string

datatype org_error =
  AdminClassNotFound | TeachingClassNotFound | ClassNameTaken | ClassInUse | MemberRequired
| StudentNotFound | StudentNotStudent | StudentAssigned | OrgDb string

type_synonym 'a org_action = "(campus_db, org_error, 'a) action"

definition nul_free :: "string list \<Rightarrow> bool" where
  "nul_free ss \<longleftrightarrow> list_all (\<lambda>s. CHR 0x00 \<notin> set s) ss"

subsection \<open>Statements\<close>

definition insert_admin_class :: "int \<Rightarrow> admin_class_input \<Rightarrow> campus_db \<Rightarrow> int written \<times> campus_db" where
  "insert_admin_class now inp d =
     (if \<not> pg_text 64 (aci_grade inp) \<or> \<not> pg_text 64 (aci_name inp) \<or> \<not> pg_text 255 (aci_note inp)
      then (Rejected, d)
      else if list_ex (\<lambda>a. ac_grade a = aci_grade inp \<and> ac_name a = aci_name inp) (cd_admin_classes d)
      then (Duplicate, d)
      else (Done (cd_next_admin_class d),
        d\<lparr>cd_admin_classes := cd_admin_classes d @ [\<lparr>ac_id = cd_next_admin_class d, ac_grade = aci_grade inp,
             ac_name = aci_name inp, ac_note = aci_note inp, ac_created_at = now\<rparr>],
          cd_next_admin_class := cd_next_admin_class d + 1\<rparr>))"

definition update_admin_class_row :: "int \<Rightarrow> admin_class_input \<Rightarrow> campus_db \<Rightarrow> unit written \<times> campus_db" where
  "update_admin_class_row i inp d =
     (let hit = list_ex (\<lambda>a. ac_id a = i) (cd_admin_classes d)
      in if \<not> nul_free [aci_grade inp, aci_name inp, aci_note inp] then (Rejected, d)
         else if hit \<and> (rune_count (aci_grade inp) > 64 \<or> rune_count (aci_name inp) > 64 \<or> rune_count (aci_note inp) > 255)
         then (Rejected, d)
         else if hit \<and> list_ex (\<lambda>a. ac_id a \<noteq> i \<and> ac_grade a = aci_grade inp \<and> ac_name a = aci_name inp) (cd_admin_classes d)
         then (Duplicate, d)
         else (Done (), d\<lparr>cd_admin_classes := map (\<lambda>a. if ac_id a = i
             then a\<lparr>ac_grade := aci_grade inp, ac_name := aci_name inp, ac_note := aci_note inp\<rparr> else a)
             (cd_admin_classes d)\<rparr>))"

definition delete_admin_class_row :: "int \<Rightarrow> campus_db \<Rightarrow> int \<times> campus_db" where
  "delete_admin_class_row i d =
     (int (length (filter (\<lambda>a. ac_id a = i) (cd_admin_classes d))),
      d\<lparr>cd_admin_classes := filter (\<lambda>a. ac_id a \<noteq> i) (cd_admin_classes d)\<rparr>)"

definition admin_class_memberships :: "int \<Rightarrow> campus_db \<Rightarrow> int" where
  "admin_class_memberships i d = int (length (filter (\<lambda>(t, a). a = i) (cd_members d)))"

definition offerings_of_class :: "int \<Rightarrow> campus_db \<Rightarrow> int" where
  "offerings_of_class i d = int (length (filter (\<lambda>f. of_teaching_class f = i) (cd_offerings d)))"

definition members_of :: "campus_db \<Rightarrow> int \<Rightarrow> int list" where
  "members_of d t = map snd (filter (\<lambda>(u, a). u = t) (cd_members d))"

definition insert_teaching_class :: "int \<Rightarrow> teaching_class_input \<Rightarrow> campus_db \<Rightarrow> int written \<times> campus_db" where
  "insert_teaching_class now inp d =
     (if \<not> pg_text 64 (tci_name inp) \<or> \<not> pg_text 255 (tci_note inp) then (Rejected, d)
      else if list_ex (\<lambda>t. tr_name t = tci_name inp) (cd_teaching_classes d) then (Duplicate, d)
      else (Done (cd_next_teaching_class d),
        d\<lparr>cd_teaching_classes := cd_teaching_classes d @ [\<lparr>tr_id = cd_next_teaching_class d,
             tr_name = tci_name inp, tr_note = tci_note inp, tr_created_at = now\<rparr>],
          cd_next_teaching_class := cd_next_teaching_class d + 1\<rparr>))"

definition update_teaching_class_row :: "int \<Rightarrow> teaching_class_input \<Rightarrow> campus_db \<Rightarrow> int written \<times> campus_db" where
  "update_teaching_class_row i inp d =
     (let hits = length (filter (\<lambda>t. tr_id t = i) (cd_teaching_classes d))
      in if \<not> nul_free [tci_name inp, tci_note inp] then (Rejected, d)
         else if hits > 0 \<and> (rune_count (tci_name inp) > 64 \<or> rune_count (tci_note inp) > 255) then (Rejected, d)
         else if hits > 0 \<and> list_ex (\<lambda>t. tr_id t \<noteq> i \<and> tr_name t = tci_name inp) (cd_teaching_classes d)
         then (Duplicate, d)
         else (Done (int hits), d\<lparr>cd_teaching_classes := map (\<lambda>t. if tr_id t = i
             then t\<lparr>tr_name := tci_name inp, tr_note := tci_note inp\<rparr> else t) (cd_teaching_classes d)\<rparr>))"

definition delete_teaching_class_row :: "int \<Rightarrow> campus_db \<Rightarrow> int \<times> campus_db" where
  "delete_teaching_class_row i d =
     (int (length (filter (\<lambda>t. tr_id t = i) (cd_teaching_classes d))),
      d\<lparr>cd_teaching_classes := filter (\<lambda>t. tr_id t \<noteq> i) (cd_teaching_classes d)\<rparr>)"

definition clear_members :: "int \<Rightarrow> campus_db \<Rightarrow> unit \<times> campus_db" where
  "clear_members i d = ((), d\<lparr>cd_members := filter (\<lambda>(t, a). t \<noteq> i) (cd_members d)\<rparr>)"

text \<open>The primary key is the pair; \<open>False\<close> is a violation.\<close>

definition insert_member_row :: "int \<Rightarrow> int \<Rightarrow> campus_db \<Rightarrow> bool \<times> campus_db" where
  "insert_member_row t a d =
     (if (t, a) \<in> set (cd_members d) then (False, d) else (True, d\<lparr>cd_members := cd_members d @ [(t, a)]\<rparr>))"

definition insert_profile :: "int \<Rightarrow> student_input \<Rightarrow> campus_db \<Rightarrow> unit written \<times> campus_db" where
  "insert_profile ac inp d =
     (let no = trim_space (sti_student_no inp); note = trim_space (sti_note inp)
      in if \<not> pg_text 32 no \<or> \<not> pg_text 255 note then (Rejected, d)
         else if list_ex (\<lambda>p. pr_user p = sti_user inp) (cd_profiles d) then (Duplicate, d)
         else (Done (), d\<lparr>cd_profiles := cd_profiles d @ [\<lparr>pr_user = sti_user inp, pr_class = ac,
             pr_student_no = no, pr_note = note\<rparr>]\<rparr>))"

definition update_profile :: "int \<Rightarrow> int \<Rightarrow> student_input \<Rightarrow> campus_db \<Rightarrow> int option \<times> campus_db" where
  "update_profile ac u inp d =
     (let no = trim_space (sti_student_no inp); note = trim_space (sti_note inp);
          hit = (\<lambda>p. pr_class p = ac \<and> pr_user p = u)
      in if \<not> nul_free [no, note] then (None, d)
         else if list_ex hit (cd_profiles d) \<and> (rune_count no > 32 \<or> rune_count note > 255) then (None, d)
         else (Some (int (length (filter hit (cd_profiles d)))),
           d\<lparr>cd_profiles := map (\<lambda>p. if hit p then p\<lparr>pr_student_no := no, pr_note := note\<rparr> else p) (cd_profiles d)\<rparr>))"

definition delete_profile :: "int \<Rightarrow> int \<Rightarrow> campus_db \<Rightarrow> int \<times> campus_db" where
  "delete_profile ac u d =
     (int (length (filter (\<lambda>p. pr_class p = ac \<and> pr_user p = u) (cd_profiles d))),
      d\<lparr>cd_profiles := filter (\<lambda>p. \<not> (pr_class p = ac \<and> pr_user p = u)) (cd_profiles d)\<rparr>)"

definition student_view_of :: "campus_db \<Rightarrow> student_profile \<Rightarrow> student_view option" where
  "student_view_of d p = map_option (\<lambda>u. \<lparr>sv_user = pr_user p, sv_username = us_username u,
     sv_display_name = us_display_name u, sv_student_no = pr_student_no p, sv_class = pr_class p,
     sv_note = pr_note p\<rparr>) (find_user d (pr_user p))"

definition admin_class_matches :: "(char \<Rightarrow> char \<Rightarrow> bool) \<Rightarrow> string \<Rightarrow> admin_class \<Rightarrow> bool" where
  "admin_class_matches eq q a \<longleftrightarrow> q = [] \<or> contains eq q (ac_name a) \<or> contains eq q (ac_grade a)"

subsection \<open>Store\<close>

definition by_grade_name :: "(string \<Rightarrow> 'k::linorder) \<Rightarrow> admin_class list \<Rightarrow> admin_class list" where
  "by_grade_name ck = sort_key (\<lambda>a. (ck (ac_grade a), ck (ac_name a)))"

definition list_admin_classes :: "(string \<Rightarrow> 'k::linorder) \<Rightarrow> admin_class list org_action" where
  "list_admin_classes ck = query (OrgDb ''list admin classes'') (\<lambda>d. by_grade_name ck (cd_admin_classes d))"

definition page_admin_classes ::
  "(string \<Rightarrow> 'k::linorder) \<Rightarrow> (char \<Rightarrow> char \<Rightarrow> bool) \<Rightarrow> string \<Rightarrow> pagination \<Rightarrow> (admin_class list \<times> int) org_action" where
  "page_admin_classes ck eq q p =
     dbind (query_row (OrgDb ''page admin classes'') (OrgDb ''page admin classes'')
        (\<lambda>d. limit_rows p (filter (admin_class_matches eq q) (by_grade_name ck (cd_admin_classes d))))) (\<lambda>cs.
     dbind (query (OrgDb ''count rows'')
        (\<lambda>d. int (length (filter (admin_class_matches eq q) (cd_admin_classes d))))) (\<lambda>n. dret (cs, n)))"

definition get_admin_class :: "int \<Rightarrow> admin_class org_action" where
  "get_admin_class i = query_row (OrgDb ''get admin class'') AdminClassNotFound (\<lambda>d. find_admin_class d i)"

definition create_admin_class :: "int \<Rightarrow> admin_class_input \<Rightarrow> admin_class org_action" where
  "create_admin_class now inp =
     dbind (stmt (OrgDb ''create admin class'') (insert_admin_class now inp)) (\<lambda>w.
     case w of Duplicate \<Rightarrow> draise ClassNameTaken
     | Rejected \<Rightarrow> draise (OrgDb ''create admin class'')
     | Done i \<Rightarrow> get_admin_class i)"

definition update_admin_class :: "int \<Rightarrow> admin_class_input \<Rightarrow> admin_class org_action" where
  "update_admin_class i inp =
     dbind (stmt (OrgDb ''update admin class'') (update_admin_class_row i inp)) (\<lambda>w.
     case w of Duplicate \<Rightarrow> draise ClassNameTaken
     | Rejected \<Rightarrow> draise (OrgDb ''update admin class'')
     | Done _ \<Rightarrow> get_admin_class i)"

definition delete_admin_class :: "int \<Rightarrow> unit org_action" where
  "delete_admin_class i =
     dbind (query (OrgDb ''count teaching class members'') (admin_class_memberships i)) (\<lambda>n.
     if n > 0 then draise ClassInUse
     else dbind (stmt (OrgDb ''delete admin class'') (delete_admin_class_row i)) (\<lambda>m.
       if m = 0 then draise AdminClassNotFound else dret ()))"

definition class_ref_of :: "admin_class \<Rightarrow> class_ref" where
  "class_ref_of a = \<lparr>cr_id = ac_id a, cr_name = ac_name a, cr_grade = ac_grade a\<rparr>"

text \<open>One query for all ids, and none when there are no ids; the Go map is a function.\<close>

definition members_by_teaching_class ::
  "(string \<Rightarrow> 'k::linorder) \<Rightarrow> int list \<Rightarrow> (int \<Rightarrow> class_ref list) org_action" where
  "members_by_teaching_class ck ids =
     (if ids = [] then dret (\<lambda>_. [])
      else query (OrgDb ''query teaching class members'')
        (\<lambda>d t. if t \<in> set ids then map class_ref_of (class_members ck d t) else []))"

definition with_members ::
  "(string \<Rightarrow> 'k::linorder) \<Rightarrow> teaching_class_row list \<Rightarrow> teaching_class_view list org_action" where
  "with_members ck rows =
     dbind (members_by_teaching_class ck (map tr_id rows)) (\<lambda>m.
     dret (map (\<lambda>r. \<lparr>tv_row = r, tv_classes = m (tr_id r)\<rparr>) rows))"

definition list_teaching_classes :: "(string \<Rightarrow> 'k::linorder) \<Rightarrow> teaching_class_view list org_action" where
  "list_teaching_classes ck =
     dbind (query (OrgDb ''list teaching classes'') (\<lambda>d. sort_key (\<lambda>t. ck (tr_name t)) (cd_teaching_classes d)))
       (with_members ck)"

definition page_teaching_classes ::
  "(string \<Rightarrow> 'k::linorder) \<Rightarrow> (char \<Rightarrow> char \<Rightarrow> bool) \<Rightarrow> string \<Rightarrow> pagination \<Rightarrow> (teaching_class_view list \<times> int) org_action" where
  "page_teaching_classes ck eq q p =
     (let sel = (\<lambda>t. q = [] \<or> contains eq q (tr_name t))
      in dbind (query_row (OrgDb ''page teaching classes'') (OrgDb ''page teaching classes'')
           (\<lambda>d. limit_rows p (filter sel (sort_key (\<lambda>t. ck (tr_name t)) (cd_teaching_classes d))))) (\<lambda>rows.
         dbind (with_members ck rows) (\<lambda>vs.
         dbind (query (OrgDb ''count rows'') (\<lambda>d. int (length (filter sel (cd_teaching_classes d))))) (\<lambda>n.
         dret (vs, n)))))"

definition get_teaching_class :: "(string \<Rightarrow> 'k::linorder) \<Rightarrow> int \<Rightarrow> teaching_class_view org_action" where
  "get_teaching_class ck i =
     dbind (query_row (OrgDb ''get teaching class'') TeachingClassNotFound (\<lambda>d. find_teaching_class d i)) (\<lambda>r.
     dbind (members_by_teaching_class ck [i]) (\<lambda>m. dret \<lparr>tv_row = r, tv_classes = m i\<rparr>))"

text \<open>\<open>COUNT(*) ... WHERE id IN (...)\<close> counts rows, so repeated ids make the check fail.\<close>

definition admin_classes_exist :: "int list \<Rightarrow> unit org_action" where
  "admin_classes_exist ids =
     (if ids = [] then dret ()
      else dbind (query (OrgDb ''count admin classes'')
          (\<lambda>d. length (filter (\<lambda>a. ac_id a \<in> set ids) (cd_admin_classes d)))) (\<lambda>n.
        if n \<noteq> length ids then draise AdminClassNotFound else dret ()))"

definition insert_member :: "int \<Rightarrow> int \<Rightarrow> unit org_action" where
  "insert_member t a = dbind (stmt (OrgDb ''insert member'') (insert_member_row t a)) (\<lambda>ok.
     if ok then dret () else draise (OrgDb ''insert member''))"

definition insert_members :: "int \<Rightarrow> int list \<Rightarrow> unit org_action" where
  "insert_members t ids =
     dbind (query (OrgDb ''prepare member insert'') (\<lambda>_. ())) (\<lambda>_. dmapM (insert_member t) ids)"

definition create_teaching_class_tx :: "int \<Rightarrow> teaching_class_input \<Rightarrow> int org_action" where
  "create_teaching_class_tx now inp =
     dbind (stmt (OrgDb ''create teaching class'') (insert_teaching_class now inp)) (\<lambda>w.
     case w of Duplicate \<Rightarrow> draise ClassNameTaken
     | Rejected \<Rightarrow> draise (OrgDb ''create teaching class'')
     | Done i \<Rightarrow> dbind (insert_members i (tci_class_ids inp)) (\<lambda>_. dret i))"

definition create_teaching_class ::
  "(string \<Rightarrow> 'k::linorder) \<Rightarrow> int \<Rightarrow> teaching_class_input \<Rightarrow> teaching_class_view org_action" where
  "create_teaching_class ck now inp =
     (if tci_class_ids inp = [] then draise MemberRequired
      else dbind (admin_classes_exist (tci_class_ids inp)) (\<lambda>_.
        dbind (transaction (OrgDb ''begin tx'') (OrgDb ''commit teaching class'') (create_teaching_class_tx now inp))
          (get_teaching_class ck)))"

text \<open>The row lock that offerings take as well; a missing row is \<open>ErrTeachingClassNotFound\<close>.\<close>

definition lock_class_row :: "int \<Rightarrow> unit org_action" where
  "lock_class_row i = query_row (OrgDb ''lock teaching class'') TeachingClassNotFound
     (\<lambda>d. map_option (\<lambda>_. ()) (find_teaching_class d i))"

definition class_in_use :: "int \<Rightarrow> bool org_action" where
  "class_in_use i = query (OrgDb ''count offerings for teaching class'') (\<lambda>d. offerings_of_class i d > 0)"

definition update_teaching_class_tx :: "int \<Rightarrow> teaching_class_input \<Rightarrow> unit org_action" where
  "update_teaching_class_tx i inp =
     dbind (lock_class_row i) (\<lambda>_.
     dbind (query (OrgDb ''query teaching class members'') (\<lambda>d. sort (members_of d i))) (\<lambda>current.
     dbind (class_in_use i) (\<lambda>used.
     if used \<and> current \<noteq> sort (tci_class_ids inp) then draise ClassInUse
     else dbind (stmt (OrgDb ''update teaching class'') (update_teaching_class_row i inp)) (\<lambda>w.
       case w of Duplicate \<Rightarrow> draise ClassNameTaken
       | Rejected \<Rightarrow> draise (OrgDb ''update teaching class'')
       | Done n \<Rightarrow>
         if n = 0 then draise TeachingClassNotFound
         else dbind (stmt (OrgDb ''clear members'') (clear_members i)) (\<lambda>_.
           insert_members i (sort (tci_class_ids inp)))))))"

definition update_teaching_class ::
  "(string \<Rightarrow> 'k::linorder) \<Rightarrow> int \<Rightarrow> teaching_class_input \<Rightarrow> teaching_class_view org_action" where
  "update_teaching_class ck i inp =
     (if tci_class_ids inp = [] then draise MemberRequired
      else dbind (admin_classes_exist (tci_class_ids inp)) (\<lambda>_.
        dbind (transaction (OrgDb ''begin tx'') (OrgDb ''commit teaching class'') (update_teaching_class_tx i inp))
          (\<lambda>_. get_teaching_class ck i)))"

definition delete_teaching_class_tx :: "int \<Rightarrow> unit org_action" where
  "delete_teaching_class_tx i =
     dbind (lock_class_row i) (\<lambda>_.
     dbind (class_in_use i) (\<lambda>used.
     if used then draise ClassInUse
     else dbind (stmt (OrgDb ''delete members'') (clear_members i)) (\<lambda>_.
       dbind (stmt (OrgDb ''delete teaching class'') (delete_teaching_class_row i)) (\<lambda>n.
       if n = 0 then draise TeachingClassNotFound else dret ()))))"

definition delete_teaching_class :: "int \<Rightarrow> unit org_action" where
  "delete_teaching_class i =
     transaction (OrgDb ''begin tx'') (OrgDb ''commit delete teaching class'') (delete_teaching_class_tx i)"

definition list_students :: "(string \<Rightarrow> 'k::linorder) \<Rightarrow> int \<Rightarrow> student_view list org_action" where
  "list_students ck ac = query (OrgDb ''list students'') (\<lambda>d.
     sort_key (\<lambda>v. (ck (sv_display_name v), sv_user v))
       (List.map_filter (student_view_of d) (filter (\<lambda>p. pr_class p = ac) (cd_profiles d))))"

definition get_student :: "int \<Rightarrow> int \<Rightarrow> student_view org_action" where
  "get_student ac u = query_row (OrgDb ''load student'') StudentNotFound (\<lambda>d.
     Option.bind (List.find (\<lambda>p. pr_class p = ac \<and> pr_user p = u) (cd_profiles d)) (student_view_of d))"

definition add_student :: "int \<Rightarrow> student_input \<Rightarrow> student_view org_action" where
  "add_student ac inp =
     dbind (query_row (OrgDb ''lookup student user'') StudentNotFound
        (\<lambda>d. map_option us_type (find_user d (sti_user inp)))) (\<lambda>ty.
     if ty \<noteq> ''student'' then draise StudentNotStudent
     else dbind (stmt (OrgDb ''add student'') (insert_profile ac inp)) (\<lambda>w.
       case w of Duplicate \<Rightarrow> draise StudentAssigned
       | Rejected \<Rightarrow> draise (OrgDb ''add student'')
       | Done _ \<Rightarrow> get_student ac (sti_user inp)))"

definition update_student :: "int \<Rightarrow> int \<Rightarrow> student_input \<Rightarrow> student_view org_action" where
  "update_student ac u inp =
     dbind (stmt (OrgDb ''update student'') (update_profile ac u inp)) (\<lambda>r.
     case r of None \<Rightarrow> draise (OrgDb ''update student'')
     | Some n \<Rightarrow> if n = 0 then draise StudentNotFound else get_student ac u)"

definition delete_student :: "int \<Rightarrow> int \<Rightarrow> unit org_action" where
  "delete_student ac u =
     dbind (stmt (OrgDb ''delete student'') (delete_profile ac u)) (\<lambda>n.
     if n = 0 then draise StudentNotFound else dret ())"

subsection \<open>Validation\<close>

text \<open>\<open>^20\d{2}$\<close>.\<close>

definition grade_ok :: "string \<Rightarrow> bool" where
  "grade_ok s \<longleftrightarrow> length s = 4 \<and> take 2 s = ''20'' \<and> list_all is_digit (drop 2 s)"

definition normalize_admin_class :: "admin_class_input \<Rightarrow> admin_class_input \<times> string option" where
  "normalize_admin_class inp =
     (let inp = inp\<lparr>aci_grade := trim_space (aci_grade inp), aci_name := trim_space (aci_name inp),
          aci_note := trim_space (aci_note inp)\<rparr>
      in if aci_grade inp = [] then (inp, Some ''grade is required'')
         else if \<not> grade_ok (aci_grade inp) then (inp, Some ''grade must be a 4-digit year (e.g. 2024)'')
         else if aci_name inp = [] then (inp, Some ''name is required'')
         else (inp, first_too_long [(''name'', aci_name inp, 64), (''note'', aci_note inp, 255)]))"

text \<open>\<open>dedupInt64\<close>: positive ids, first occurrences, in ascending order.\<close>

definition dedup_ids :: "int list \<Rightarrow> int list" where
  "dedup_ids ids = (if ids = [] then [] else sort (first_wins (\<lambda>i. i > 0) id [] ids))"

definition normalize_teaching_class :: "teaching_class_input \<Rightarrow> teaching_class_input \<times> string option" where
  "normalize_teaching_class inp =
     (let inp = inp\<lparr>tci_name := trim_space (tci_name inp), tci_note := trim_space (tci_note inp),
          tci_class_ids := dedup_ids (tci_class_ids inp)\<rparr>
      in if tci_name inp = [] then (inp, Some ''name is required'')
         else if tci_class_ids inp = [] then (inp, Some (hx ''e887b3e5b091e98089e68ba9e4b880e4b8aae8a18ce694bfe78fad''))
         else (inp, first_too_long [(''name'', tci_name inp, 64), (''note'', tci_note inp, 255)]))"

subsection \<open>Handlers\<close>

definition page_of :: "page_params \<Rightarrow> pagination" where
  "page_of p = \<lparr>pg_limit = pp_page_size p, pg_offset = page_offset p\<rparr>"

definition listAdminClasses_h ::
  "(string \<Rightarrow> 'k::linorder) \<Rightarrow> (char \<Rightarrow> char \<Rightarrow> bool) \<Rightarrow> (string \<Rightarrow> string) \<Rightarrow> campus_db conn \<Rightarrow>
   (admin_class list \<times> int \<times> page_params) response \<times> campus_db conn" where
  "listAdminClasses_h ck eq q c =
     (let p = parse_page_params q
      in case page_admin_classes ck eq (parse_search q) (page_of p) c of
           (Inl _, c') \<Rightarrow> (RespError 500 ''could not list admin classes'', c')
         | (Inr (cs, n), c') \<Rightarrow> (RespJSON 200 (cs, n, p), c'))"

definition exportAdminClasses_rows :: "admin_class list \<Rightarrow> (string \<times> string \<times> string) list" where
  "exportAdminClasses_rows = map (\<lambda>a. (ac_grade a, ac_name a, ac_note a))"

definition createAdminClass_h ::
  "int \<Rightarrow> admin_class_input option \<Rightarrow> campus_db conn \<Rightarrow> admin_class response \<times> campus_db conn" where
  "createAdminClass_h now body c = (case body of
     None \<Rightarrow> (RespError 400 ''invalid request body'', c)
   | Some inp \<Rightarrow> (case normalize_admin_class inp of
       (_, Some msg) \<Rightarrow> (RespError 400 msg, c)
     | (inp, None) \<Rightarrow> (case create_admin_class now inp c of
         (Inl ClassNameTaken, c') \<Rightarrow> (RespError 409 (hx ''e8afa5e5b9b4e7baa7e4b88be8a18ce694bfe78fade5908de5b7b2e5ad98e59ca8''), c')
       | (Inl _, c') \<Rightarrow> (RespError 500 ''could not create admin class'', c')
       | (Inr r, c') \<Rightarrow> (RespJSON 201 r, c'))))"

definition getAdminClass_h :: "string \<Rightarrow> campus_db conn \<Rightarrow> admin_class response \<times> campus_db conn" where
  "getAdminClass_h path_id c = (case atoi path_id of
     None \<Rightarrow> (RespError 400 ''invalid admin class id'', c)
   | Some i \<Rightarrow> (case get_admin_class i c of
       (Inl AdminClassNotFound, c') \<Rightarrow> (RespError 404 ''admin class not found'', c')
     | (Inl _, c') \<Rightarrow> (RespError 500 ''could not load admin class'', c')
     | (Inr r, c') \<Rightarrow> (RespJSON 200 r, c')))"

definition updateAdminClass_h ::
  "string \<Rightarrow> admin_class_input option \<Rightarrow> campus_db conn \<Rightarrow> admin_class response \<times> campus_db conn" where
  "updateAdminClass_h path_id body c = (case atoi path_id of
     None \<Rightarrow> (RespError 400 ''invalid admin class id'', c)
   | Some i \<Rightarrow> (case body of
       None \<Rightarrow> (RespError 400 ''invalid request body'', c)
     | Some inp \<Rightarrow> (case normalize_admin_class inp of
         (_, Some msg) \<Rightarrow> (RespError 400 msg, c)
       | (inp, None) \<Rightarrow> (case update_admin_class i inp c of
           (Inl ClassNameTaken, c') \<Rightarrow> (RespError 409 (hx ''e8afa5e5b9b4e7baa7e4b88be8a18ce694bfe78fade5908de5b7b2e5ad98e59ca8''), c')
         | (Inl AdminClassNotFound, c') \<Rightarrow> (RespError 404 ''admin class not found'', c')
         | (Inl _, c') \<Rightarrow> (RespError 500 ''could not update admin class'', c')
         | (Inr r, c') \<Rightarrow> (RespJSON 200 r, c')))))"

definition deleteAdminClass_h :: "string \<Rightarrow> campus_db conn \<Rightarrow> unit response \<times> campus_db conn" where
  "deleteAdminClass_h path_id c = (case atoi path_id of
     None \<Rightarrow> (RespError 400 ''invalid admin class id'', c)
   | Some i \<Rightarrow> (case delete_admin_class i c of
       (Inl ClassInUse, c') \<Rightarrow> (RespError 409 (hx ''e8afa5e8a18ce694bfe78fade5b7b2e8a2abe69599e5ada6e78fade5bc95e794a8efbc8ce697a0e6b395e588a0e999a4''), c')
     | (Inl AdminClassNotFound, c') \<Rightarrow> (RespError 404 ''admin class not found'', c')
     | (Inl _, c') \<Rightarrow> (RespError 500 ''could not delete admin class'', c')
     | (Inr _, c') \<Rightarrow> (RespJSON 204 (), c')))"

definition listTeachingClasses_h ::
  "(string \<Rightarrow> 'k::linorder) \<Rightarrow> (char \<Rightarrow> char \<Rightarrow> bool) \<Rightarrow> (string \<Rightarrow> string) \<Rightarrow> campus_db conn \<Rightarrow>
   (teaching_class_view list \<times> int \<times> page_params) response \<times> campus_db conn" where
  "listTeachingClasses_h ck eq q c =
     (let p = parse_page_params q
      in case page_teaching_classes ck eq (parse_search q) (page_of p) c of
           (Inl _, c') \<Rightarrow> (RespError 500 ''could not list teaching classes'', c')
         | (Inr (cs, n), c') \<Rightarrow> (RespJSON 200 (cs, n, p), c'))"

text \<open>One row per member, the columns of the class repeated.\<close>

definition exportTeachingClasses_rows :: "teaching_class_view list \<Rightarrow> (string \<times> string \<times> string \<times> string) list" where
  "exportTeachingClasses_rows vs = concat (map (\<lambda>v. map (\<lambda>m.
     (tr_name (tv_row v), tr_note (tv_row v), cr_grade m, cr_name m)) (tv_classes v)) vs)"

definition createTeachingClass_h ::
  "(string \<Rightarrow> 'k::linorder) \<Rightarrow> int \<Rightarrow> teaching_class_input option \<Rightarrow> campus_db conn \<Rightarrow>
   teaching_class_view response \<times> campus_db conn" where
  "createTeachingClass_h ck now body c = (case body of
     None \<Rightarrow> (RespError 400 ''invalid request body'', c)
   | Some inp \<Rightarrow> (case normalize_teaching_class inp of
       (_, Some msg) \<Rightarrow> (RespError 400 msg, c)
     | (inp, None) \<Rightarrow> (case create_teaching_class ck now inp c of
         (Inl ClassNameTaken, c') \<Rightarrow> (RespError 409 (hx ''e69599e5ada6e78fade5908de5b7b2e5ad98e59ca8''), c')
       | (Inl MemberRequired, c') \<Rightarrow> (RespError 400 (hx ''e887b3e5b091e98089e68ba9e4b880e4b8aae8a18ce694bfe78fad''), c')
       | (Inl AdminClassNotFound, c') \<Rightarrow> (RespError 400 (hx ''e58c85e590abe4b88de5ad98e59ca8e79a84e8a18ce694bfe78fad''), c')
       | (Inl _, c') \<Rightarrow> (RespError 500 ''could not create teaching class'', c')
       | (Inr v, c') \<Rightarrow> (RespJSON 201 v, c'))))"

definition getTeachingClass_h ::
  "(string \<Rightarrow> 'k::linorder) \<Rightarrow> string \<Rightarrow> campus_db conn \<Rightarrow> teaching_class_view response \<times> campus_db conn" where
  "getTeachingClass_h ck path_id c = (case atoi path_id of
     None \<Rightarrow> (RespError 400 ''invalid teaching class id'', c)
   | Some i \<Rightarrow> (case get_teaching_class ck i c of
       (Inl TeachingClassNotFound, c') \<Rightarrow> (RespError 404 ''teaching class not found'', c')
     | (Inl _, c') \<Rightarrow> (RespError 500 ''could not load teaching class'', c')
     | (Inr v, c') \<Rightarrow> (RespJSON 200 v, c')))"

definition updateTeachingClass_h ::
  "(string \<Rightarrow> 'k::linorder) \<Rightarrow> string \<Rightarrow> teaching_class_input option \<Rightarrow> campus_db conn \<Rightarrow>
   teaching_class_view response \<times> campus_db conn" where
  "updateTeachingClass_h ck path_id body c = (case atoi path_id of
     None \<Rightarrow> (RespError 400 ''invalid teaching class id'', c)
   | Some i \<Rightarrow> (case body of
       None \<Rightarrow> (RespError 400 ''invalid request body'', c)
     | Some inp \<Rightarrow> (case normalize_teaching_class inp of
         (_, Some msg) \<Rightarrow> (RespError 400 msg, c)
       | (inp, None) \<Rightarrow> (case update_teaching_class ck i inp c of
           (Inl ClassNameTaken, c') \<Rightarrow> (RespError 409 (hx ''e69599e5ada6e78fade5908de5b7b2e5ad98e59ca8''), c')
         | (Inl ClassInUse, c') \<Rightarrow> (RespError 409 (hx ''e69599e5ada6e78fade5b7b2e8a2abe5bc80e8afbee5bc95e794a8efbc8ce68890e59198e4b88de58fafe4bfaee694b9efbc8ce8afb7e696b0e5bbbae69599e5ada6e78fad''), c')
         | (Inl TeachingClassNotFound, c') \<Rightarrow> (RespError 404 ''teaching class not found'', c')
         | (Inl MemberRequired, c') \<Rightarrow> (RespError 400 (hx ''e887b3e5b091e98089e68ba9e4b880e4b8aae8a18ce694bfe78fad''), c')
         | (Inl AdminClassNotFound, c') \<Rightarrow> (RespError 400 (hx ''e58c85e590abe4b88de5ad98e59ca8e79a84e8a18ce694bfe78fad''), c')
         | (Inl _, c') \<Rightarrow> (RespError 500 ''could not update teaching class'', c')
         | (Inr v, c') \<Rightarrow> (RespJSON 200 v, c')))))"

definition deleteTeachingClass_h :: "string \<Rightarrow> campus_db conn \<Rightarrow> unit response \<times> campus_db conn" where
  "deleteTeachingClass_h path_id c = (case atoi path_id of
     None \<Rightarrow> (RespError 400 ''invalid teaching class id'', c)
   | Some i \<Rightarrow> (case delete_teaching_class i c of
       (Inl ClassInUse, c') \<Rightarrow> (RespError 409 (hx ''e69599e5ada6e78fade5b7b2e8a2abe5bc80e8afbee5bc95e794a8efbc8ce697a0e6b395e588a0e999a4''), c')
     | (Inl TeachingClassNotFound, c') \<Rightarrow> (RespError 404 ''teaching class not found'', c')
     | (Inl _, c') \<Rightarrow> (RespError 500 ''could not delete teaching class'', c')
     | (Inr _, c') \<Rightarrow> (RespJSON 204 (), c')))"

definition listStudents_h ::
  "(string \<Rightarrow> 'k::linorder) \<Rightarrow> string \<Rightarrow> campus_db conn \<Rightarrow> student_view list response \<times> campus_db conn" where
  "listStudents_h ck path_id c = (case atoi path_id of
     None \<Rightarrow> (RespError 400 ''invalid admin class id'', c)
   | Some i \<Rightarrow> (case get_admin_class i c of
       (Inl AdminClassNotFound, c') \<Rightarrow> (RespError 404 ''admin class not found'', c')
     | (Inl _, c') \<Rightarrow> (RespError 500 ''could not load admin class'', c')
     | (Inr _, c1) \<Rightarrow> (case list_students ck i c1 of
         (Inl _, c') \<Rightarrow> (RespError 500 ''could not list students'', c')
       | (Inr vs, c') \<Rightarrow> (RespJSON 200 vs, c'))))"

definition addStudent_h :: "string \<Rightarrow> student_input option \<Rightarrow> campus_db conn \<Rightarrow> student_view response \<times> campus_db conn" where
  "addStudent_h path_id body c = (case atoi path_id of
     None \<Rightarrow> (RespError 400 ''invalid admin class id'', c)
   | Some i \<Rightarrow> (case body of
       None \<Rightarrow> (RespError 400 ''invalid request body'', c)
     | Some inp \<Rightarrow>
       if sti_user inp \<le> 0 then (RespError 400 ''userId is required'', c)
       else (case add_student i inp c of
           (Inl StudentNotFound, c') \<Rightarrow> (RespError 404 (hx ''e794a8e688b7e4b88de5ad98e59ca8''), c')
         | (Inl StudentNotStudent, c') \<Rightarrow> (RespError 400 (hx ''e8afa5e794a8e688b7e4b88de698afe5ada6e7949fe8b4a6e58fb7''), c')
         | (Inl StudentAssigned, c') \<Rightarrow> (RespError 409 (hx ''e8afa5e5ada6e7949fe5b7b2e58886e9858de588b0e8a18ce694bfe78fad''), c')
         | (Inl _, c') \<Rightarrow> (RespError 500 ''could not add student'', c')
         | (Inr v, c') \<Rightarrow> (RespJSON 201 v, c'))))"

definition updateStudent_h ::
  "string \<Rightarrow> string \<Rightarrow> student_input option \<Rightarrow> campus_db conn \<Rightarrow> student_view response \<times> campus_db conn" where
  "updateStudent_h path_id path_user body c = (case atoi path_id of
     None \<Rightarrow> (RespError 400 ''invalid admin class id'', c)
   | Some i \<Rightarrow> (case atoi path_user of
       None \<Rightarrow> (RespError 400 ''invalid user id'', c)
     | Some u \<Rightarrow> (case body of
         None \<Rightarrow> (RespError 400 ''invalid request body'', c)
       | Some inp \<Rightarrow> (case update_student i u inp c of
           (Inl StudentNotFound, c') \<Rightarrow> (RespError 404 (hx ''e8afa5e78fade697a0e6ada4e5ada6e7949f''), c')
         | (Inl _, c') \<Rightarrow> (RespError 500 ''could not update student'', c')
         | (Inr v, c') \<Rightarrow> (RespJSON 200 v, c')))))"

definition deleteStudent_h :: "string \<Rightarrow> string \<Rightarrow> campus_db conn \<Rightarrow> unit response \<times> campus_db conn" where
  "deleteStudent_h path_id path_user c = (case atoi path_id of
     None \<Rightarrow> (RespError 400 ''invalid admin class id'', c)
   | Some i \<Rightarrow> (case atoi path_user of
       None \<Rightarrow> (RespError 400 ''invalid user id'', c)
     | Some u \<Rightarrow> (case delete_student i u c of
         (Inl StudentNotFound, c') \<Rightarrow> (RespError 404 (hx ''e8afa5e78fade697a0e6ada4e5ada6e7949f''), c')
       | (Inl _, c') \<Rightarrow> (RespError 500 ''could not delete student'', c')
       | (Inr _, c') \<Rightarrow> (RespJSON 204 (), c'))))"

definition org_routes :: "(string \<times> string) list" where
  "org_routes = [
     (''GET /api/admin-classes'', ''admin_class:read''),
     (''POST /api/admin-classes'', ''admin_class:manage''),
     (''GET /api/admin-classes/export'', ''admin_class:read''),
     (''GET /api/admin-classes/{id}'', ''admin_class:read''),
     (''PUT /api/admin-classes/{id}'', ''admin_class:manage''),
     (''DELETE /api/admin-classes/{id}'', ''admin_class:manage''),
     (''GET /api/teaching-classes'', ''teaching_class:read''),
     (''POST /api/teaching-classes'', ''teaching_class:manage''),
     (''GET /api/teaching-classes/export'', ''teaching_class:read''),
     (''GET /api/teaching-classes/{id}'', ''teaching_class:read''),
     (''PUT /api/teaching-classes/{id}'', ''teaching_class:manage''),
     (''DELETE /api/teaching-classes/{id}'', ''teaching_class:manage''),
     (''GET /api/admin-classes/{id}/students'', ''attendance:read''),
     (''POST /api/admin-classes/{id}/students'', ''attendance:manage''),
     (''PUT /api/admin-classes/{id}/students/{userId}'', ''attendance:manage''),
     (''DELETE /api/admin-classes/{id}/students/{userId}'', ''attendance:manage'')]"

subsection \<open>Atomic steps\<close>

text \<open>
  What one commit does to these tables. The three transactions on a teaching class hold its row
  lock (a new row is invisible until the commit); everything else is a single statement. A create or
  an update runs with an input that the validation of its handler let through. The check that the
  members exist runs before the transaction, so the steps do not repeat it.
\<close>

inductive class_write :: "campus_db \<Rightarrow> campus_db \<Rightarrow> bool" where
  create: "normalize_teaching_class raw = (inp, None) \<Longrightarrow>
    create_teaching_class_tx now inp (healthy d) = (Inr i, healthy d') \<Longrightarrow> class_write d d'"
| update: "normalize_teaching_class raw = (inp, None) \<Longrightarrow>
    update_teaching_class_tx i inp (healthy d) = (Inr (), healthy d') \<Longrightarrow> class_write d d'"
| insert_admin: "normalize_admin_class araw = (ainp, None) \<Longrightarrow> class_write d (snd (insert_admin_class now ainp d))"
| update_admin: "normalize_admin_class araw = (ainp, None) \<Longrightarrow> class_write d (snd (update_admin_class_row i ainp d))"
| insert_profile: "\<not> sti_user sinp \<le> 0 \<Longrightarrow> class_write d (snd (insert_profile i sinp d))"
| update_profile: "class_write d (snd (update_profile i u sinp d))"

inductive class_step :: "campus_db \<Rightarrow> campus_db \<Rightarrow> bool" where
  a_write: "class_write d d' \<Longrightarrow> class_step d d'"
| delete: "delete_teaching_class_tx i (healthy d) = (Inr (), healthy d') \<Longrightarrow> class_step d d'"
| delete_admin: "class_step d (snd (delete_admin_class_row i d))"
| delete_profile: "class_step d (snd (delete_profile i u d))"

text \<open>One case for each of the nine kinds of commits.\<close>

lemma class_step_kinds [consumes 1, case_names create update delete insert_admin update_admin delete_admin
    insert_profile update_profile delete_profile]:
  assumes "class_step d d'"
    and "\<And>raw inp now d i d'. normalize_teaching_class raw = (inp, None) \<Longrightarrow>
      create_teaching_class_tx now inp (healthy d) = (Inr i, healthy d') \<Longrightarrow> P d d'"
    and "\<And>raw inp i d d'. normalize_teaching_class raw = (inp, None) \<Longrightarrow>
      update_teaching_class_tx i inp (healthy d) = (Inr (), healthy d') \<Longrightarrow> P d d'"
    and "\<And>i d d'. delete_teaching_class_tx i (healthy d) = (Inr (), healthy d') \<Longrightarrow> P d d'"
    and "\<And>araw ainp d now. normalize_admin_class araw = (ainp, None) \<Longrightarrow> P d (snd (insert_admin_class now ainp d))"
    and "\<And>araw ainp d i. normalize_admin_class araw = (ainp, None) \<Longrightarrow> P d (snd (update_admin_class_row i ainp d))"
    and "\<And>d i. P d (snd (delete_admin_class_row i d))"
    and "\<And>sinp d i. \<not> sti_user sinp \<le> 0 \<Longrightarrow> P d (snd (insert_profile i sinp d))"
    and "\<And>d i u sinp. P d (snd (update_profile i u sinp d))"
    and "\<And>d i u. P d (snd (delete_profile i u d))"
  shows "P d d'"
  using assms(1)
proof (induction rule: class_step.induct)
  case (a_write d d')
  then show ?case by (induction rule: class_write.induct) (rule assms(2,3,5,6,8,9), assumption?, assumption?)+
qed (rule assms(4,7,10), assumption?)+

lemma insert_member_healthy:
  "insert_member t a (healthy d) = (if (t, a) \<in> set (cd_members d) then (Inl (OrgDb ''insert member''), healthy d)
     else (Inr (), healthy (d\<lparr>cd_members := cd_members d @ [(t, a)]\<rparr>)))"
  by (simp add: insert_member_def insert_member_row_def)

lemma insert_members_healthy:
  "dmapM (insert_member t) ids (healthy d) = (Inr (), c') \<longleftrightarrow>
     distinct ids \<and> (\<forall>a \<in> set ids. (t, a) \<notin> set (cd_members d)) \<and>
     c' = healthy (d\<lparr>cd_members := cd_members d @ map (Pair t) ids\<rparr>)"
proof (induction ids arbitrary: d)
  case Nil
  then show ?case by auto
next
  case (Cons a ids)
  show ?case
  proof (cases "(t, a) \<in> set (cd_members d)")
    case True
    then show ?thesis by (simp add: dbind_def insert_member_healthy)
  next
    case False
    then have "dmapM (insert_member t) (a # ids) (healthy d) =
        dmapM (insert_member t) ids (healthy (d\<lparr>cd_members := cd_members d @ [(t, a)]\<rparr>))"
      by (simp add: dbind_def insert_member_healthy)
    with False Cons show ?thesis by auto
  qed
qed

lemma insert_members_Inr:
  "insert_members t ids (healthy d) = (Inr (), c') \<longleftrightarrow>
     distinct ids \<and> (\<forall>a \<in> set ids. (t, a) \<notin> set (cd_members d)) \<and>
     c' = healthy (d\<lparr>cd_members := cd_members d @ map (Pair t) ids\<rparr>)"
  unfolding insert_members_def dbind_query_healthy by (rule insert_members_healthy)

lemma insert_teaching_class_Done:
  "insert_teaching_class now inp d = (Done i, d') \<Longrightarrow>
     i = cd_next_teaching_class d \<and> tci_name inp \<notin> tr_name ` set (cd_teaching_classes d) \<and>
     d' = d\<lparr>cd_teaching_classes := cd_teaching_classes d @ [\<lparr>tr_id = i, tr_name = tci_name inp,
        tr_note = tci_note inp, tr_created_at = now\<rparr>], cd_next_teaching_class := i + 1\<rparr>"
  unfolding insert_teaching_class_def list_ex_iff by (auto split: if_splits)

lemma create_tx_effect:
  assumes "create_teaching_class_tx now inp (healthy d) = (Inr i, healthy d')"
  shows "i = cd_next_teaching_class d \<and> tci_name inp \<notin> tr_name ` set (cd_teaching_classes d) \<and>
    distinct (tci_class_ids inp) \<and> (\<forall>a \<in> set (tci_class_ids inp). (i, a) \<notin> set (cd_members d)) \<and>
    d' = d\<lparr>cd_teaching_classes := cd_teaching_classes d @ [\<lparr>tr_id = i, tr_name = tci_name inp,
        tr_note = tci_note inp, tr_created_at = now\<rparr>],
      cd_next_teaching_class := i + 1,
      cd_members := cd_members d @ map (Pair i) (tci_class_ids inp)\<rparr>"
proof -
  obtain w d1 where row: "insert_teaching_class now inp d = (w, d1)" by fastforce
  show ?thesis
  proof (cases w)
    case (Done j)
    have "dbind (insert_members j (tci_class_ids inp)) (\<lambda>_. dret j) (healthy d1) = (Inr i, healthy d')"
      using assms by (simp add: create_teaching_class_tx_def row Done)
    from dbind_Inr [OF this] obtain u c1 where "insert_members j (tci_class_ids inp) (healthy d1) = (Inr u, c1)"
      and "i = j" "c1 = healthy d'" by (auto simp only: dret_simp prod.inject sum.inject)
    then have "insert_members i (tci_class_ids inp) (healthy d1) = (Inr (), healthy d')" and ij: "i = j" by simp_all
    then show ?thesis
      using insert_teaching_class_Done [OF row [unfolded Done]] by (simp add: insert_members_Inr ij)
  qed (use assms in \<open>simp_all add: create_teaching_class_tx_def row\<close>)
qed

lemma update_teaching_class_row_Done:
  "update_teaching_class_row i inp d = (Done n, d') \<Longrightarrow> n \<noteq> 0 \<Longrightarrow>
     i \<in> tr_id ` set (cd_teaching_classes d) \<and>
     (\<forall>t \<in> set (cd_teaching_classes d). tr_id t \<noteq> i \<longrightarrow> tr_name t \<noteq> tci_name inp) \<and>
     d' = d\<lparr>cd_teaching_classes := map (\<lambda>t. if tr_id t = i
        then t\<lparr>tr_name := tci_name inp, tr_note := tci_note inp\<rparr> else t) (cd_teaching_classes d)\<rparr>"
  unfolding update_teaching_class_row_def list_ex_iff Let_def
  by (auto simp: filter_empty_conv split: if_splits)

lemma lock_class_row_healthy:
  "lock_class_row i (healthy d) =
     (if find_teaching_class d i = None then Inl TeachingClassNotFound else Inr (), healthy d)"
  by (cases "find_teaching_class d i") (simp_all add: lock_class_row_def)

lemma dbind_lock_class_row:
  "dbind (lock_class_row i) f (healthy d) =
     (if find_teaching_class d i = None then (Inl TeachingClassNotFound, healthy d) else f () (healthy d))"
  by (simp add: dbind_def lock_class_row_healthy)

lemma update_tx_effect:
  assumes "update_teaching_class_tx i inp (healthy d) = (Inr (), healthy d')"
  shows "i \<in> tr_id ` set (cd_teaching_classes d) \<and>
    (offerings_of_class i d > 0 \<longrightarrow> sort (members_of d i) = sort (tci_class_ids inp)) \<and>
    (\<forall>t \<in> set (cd_teaching_classes d). tr_id t \<noteq> i \<longrightarrow> tr_name t \<noteq> tci_name inp) \<and> distinct (tci_class_ids inp) \<and>
    d' = d\<lparr>cd_teaching_classes := map (\<lambda>t. if tr_id t = i
        then t\<lparr>tr_name := tci_name inp, tr_note := tci_note inp\<rparr> else t) (cd_teaching_classes d),
      cd_members := filter (\<lambda>(t, a). t \<noteq> i) (cd_members d) @ map (Pair i) (sort (tci_class_ids inp))\<rparr>"
proof -
  obtain w d1 where row: "update_teaching_class_row i inp d = (w, d1)" by fastforce
  have e: "find_teaching_class d i \<noteq> None"
    using assms by (intro notI) (simp add: update_teaching_class_tx_def dbind_lock_class_row)
  have body: "(if offerings_of_class i d > 0 \<and> sort (members_of d i) \<noteq> sort (tci_class_ids inp)
      then draise ClassInUse else dbind (stmt (OrgDb ''update teaching class'') (update_teaching_class_row i inp)) (\<lambda>w.
       case w of Duplicate \<Rightarrow> draise ClassNameTaken
       | Rejected \<Rightarrow> draise (OrgDb ''update teaching class'')
       | Done n \<Rightarrow>
         if n = 0 then draise TeachingClassNotFound
         else dbind (stmt (OrgDb ''clear members'') (clear_members i)) (\<lambda>_.
           insert_members i (sort (tci_class_ids inp))))) (healthy d) = (Inr (), healthy d')"
    using assms unfolding update_teaching_class_tx_def dbind_lock_class_row class_in_use_def
      dbind_query_healthy if_not_P [OF e] .
  have k: "\<not> (offerings_of_class i d > 0 \<and> sort (members_of d i) \<noteq> sort (tci_class_ids inp))"
  proof
    assume u: "offerings_of_class i d > 0 \<and> sort (members_of d i) \<noteq> sort (tci_class_ids inp)"
    show False using body unfolding if_P [OF u] by simp
  qed
  have tail: "(case w of Duplicate \<Rightarrow> draise ClassNameTaken
       | Rejected \<Rightarrow> draise (OrgDb ''update teaching class'')
       | Done n \<Rightarrow>
         if n = 0 then draise TeachingClassNotFound
         else dbind (stmt (OrgDb ''clear members'') (clear_members i)) (\<lambda>_.
           insert_members i (sort (tci_class_ids inp)))) (healthy d1) = (Inr (), healthy d')"
    using body unfolding if_not_P [OF k] dbind_stmt_healthy row by simp
  show ?thesis
  proof (cases w)
    case (Done n)
    with tail have n: "n \<noteq> 0" by (cases "n = 0") simp_all
    with tail Done have "insert_members i (sort (tci_class_ids inp)) (healthy (snd (clear_members i d1))) = (Inr (), healthy d')"
      by simp
    then show ?thesis using update_teaching_class_row_Done [OF row [unfolded Done] n] k
      by (simp add: insert_members_Inr clear_members_def)
  qed (use tail in simp_all)
qed

lemma delete_tx_effect:
  assumes "delete_teaching_class_tx i (healthy d) = (Inr (), healthy d')"
  shows "offerings_of_class i d = 0 \<and> i \<in> tr_id ` set (cd_teaching_classes d) \<and>
    d' = d\<lparr>cd_members := filter (\<lambda>(t, a). t \<noteq> i) (cd_members d),
      cd_teaching_classes := filter (\<lambda>t. tr_id t \<noteq> i) (cd_teaching_classes d)\<rparr>"
proof -
  have e: "find_teaching_class d i \<noteq> None"
    using assms by (intro notI) (simp add: delete_teaching_class_tx_def dbind_lock_class_row)
  then have e': "i \<in> tr_id ` set (cd_teaching_classes d)"
    by (auto simp: find_teaching_class_def find_None_iff)
  have u: "\<not> offerings_of_class i d > 0"
    using assms e by (intro notI) (simp add: delete_teaching_class_tx_def dbind_lock_class_row class_in_use_def)
  then have "dbind (stmt (OrgDb ''delete teaching class'') (delete_teaching_class_row i)) (\<lambda>n.
       if n = 0 then draise TeachingClassNotFound else dret ()) (healthy (snd (clear_members i d))) = (Inr (), healthy d')"
    using assms e by (simp add: delete_teaching_class_tx_def dbind_lock_class_row class_in_use_def)
  then have "healthy (snd (delete_teaching_class_row i (snd (clear_members i d)))) = healthy d'"
    by (simp split: if_splits)
  then show ?thesis using u e' by (simp add: offerings_of_class_def delete_teaching_class_row_def clear_members_def)
qed


text \<open>What the validation of a teaching class lets through.\<close>

lemma dedup_ids_set: "set (dedup_ids ids) = {i \<in> set ids. i > 0}" and dedup_ids_distinct: "distinct (dedup_ids ids)"
  using first_wins_keys [of id "\<lambda>i. i > 0" "[] :: int list" ids] first_wins_distinct [of id "\<lambda>i. i > 0" "[]" ids]
  by (auto simp: dedup_ids_def)

lemma normalize_teaching_class_ok:
  assumes "normalize_teaching_class inp = (inp', None)"
  shows "tci_name inp' \<noteq> [] \<and> tci_class_ids inp' = dedup_ids (tci_class_ids inp) \<and> tci_class_ids inp' \<noteq> []"
  using assms by (auto simp: normalize_teaching_class_def Let_def split: if_splits)

subsection \<open>Invariant of the tables\<close>

definition class_ids :: "campus_db \<Rightarrow> int set" where
  "class_ids d = tr_id ` set (cd_teaching_classes d)"

text \<open>
  Ids and names are unique, every membership belongs to an existing teaching class, every teaching
  class has a member, and a user has one student profile.
\<close>

definition org_inv :: "campus_db \<Rightarrow> bool" where
  "org_inv d \<longleftrightarrow> distinct (map tr_id (cd_teaching_classes d)) \<and> distinct (map tr_name (cd_teaching_classes d)) \<and>
     (\<forall>i \<in> class_ids d. i < cd_next_teaching_class d) \<and>
     distinct (cd_members d) \<and> fst ` set (cd_members d) = class_ids d \<and>
     distinct (map ac_id (cd_admin_classes d)) \<and> (\<forall>a \<in> set (cd_admin_classes d). ac_id a < cd_next_admin_class d) \<and>
     distinct (map (\<lambda>a. (ac_grade a, ac_name a)) (cd_admin_classes d)) \<and>
     distinct (map pr_user (cd_profiles d))"

text \<open>Every offering refers to an existing teaching class.\<close>

definition offered_classes_exist :: "campus_db \<Rightarrow> bool" where
  "offered_classes_exist d \<longleftrightarrow> of_teaching_class ` set (cd_offerings d) \<subseteq> class_ids d"

text \<open>A class that an offering refers to stays, with the same members.\<close>

definition frozen_classes :: "campus_db \<Rightarrow> campus_db \<Rightarrow> bool" where
  "frozen_classes d d' \<longleftrightarrow> (\<forall>i \<in> class_ids d. offerings_of_class i d > 0 \<longrightarrow>
     i \<in> class_ids d' \<and> sort (members_of d' i) = sort (members_of d i))"

lemma class_ids_simps [simp]:
  "class_ids (d\<lparr>cd_members := ms\<rparr>) = class_ids d"
  "class_ids (d\<lparr>cd_next_teaching_class := n\<rparr>) = class_ids d"
  "class_ids (d\<lparr>cd_teaching_classes := ts\<rparr>) = tr_id ` set ts"
  "class_ids (d\<lparr>cd_admin_classes := as\<rparr>) = class_ids d"
  "class_ids (d\<lparr>cd_next_admin_class := n\<rparr>) = class_ids d"
  "class_ids (d\<lparr>cd_profiles := ps\<rparr>) = class_ids d"
  "class_ids (d\<lparr>cd_offerings := os\<rparr>) = class_ids d"
  by (simp_all add: class_ids_def)

lemma map_tr_id_update [simp]:
  "map tr_id (map (\<lambda>t. if tr_id t = i then t\<lparr>tr_name := x, tr_note := y\<rparr> else t) ts) = map tr_id ts"
  by (induction ts) auto

lemma class_ids_map: "class_ids d = set (map tr_id (cd_teaching_classes d))"
  by (simp add: class_ids_def)

lemma distinct_key_update:
  assumes "distinct (map k xs)" and "distinct (map f xs)"
    and "\<And>x. x \<in> set xs \<Longrightarrow> k x \<noteq> i \<Longrightarrow> f x \<noteq> v" and "\<And>x. k x = i \<Longrightarrow> f (g x) = v"
  shows "distinct (map f (map (\<lambda>x. if k x = i then g x else x) xs))"
  using assms(1-3)
proof (induction xs)
  case Nil
  then show ?case by simp
next
  case (Cons x xs)
  have ih: "distinct (map f (map (\<lambda>x. if k x = i then g x else x) xs))" using Cons by simp
  show ?case
  proof (cases "k x = i")
    case True
    then have k: "\<forall>y \<in> set xs. k y \<noteq> i" using Cons.prems(1) by (simp add: image_iff) metis
    then have "map (\<lambda>x. if k x = i then g x else x) xs = xs" by (simp add: map_idI)
    moreover have "v \<notin> f ` set xs" using k Cons.prems(3) by auto
    ultimately show ?thesis using Cons.prems(2) assms(4) [OF True] True by simp
  next
    case False
    then have "f x \<noteq> v" using Cons.prems(3) by simp
    with False show ?thesis using ih assms(4) Cons.prems(2) by (auto simp: image_iff split: if_splits)
  qed
qed

lemma distinct_map_filter_key: "distinct (map f xs) \<Longrightarrow> distinct (map f (filter P xs))"
  by (induction xs) auto

lemma create_keeps_org:
  assumes "org_inv d" and "create_teaching_class_tx now inp (healthy d) = (Inr i, healthy d')" and "tci_class_ids inp \<noteq> []"
  shows "org_inv d'"
proof -
  from create_tx_effect [OF assms(2)] have i: "i = cd_next_teaching_class d"
    and nm: "tci_name inp \<notin> tr_name ` set (cd_teaching_classes d)" and dis: "distinct (tci_class_ids inp)"
    and fresh: "\<forall>a \<in> set (tci_class_ids inp). (i, a) \<notin> set (cd_members d)"
    and d': "d' = d\<lparr>cd_teaching_classes := cd_teaching_classes d @ [\<lparr>tr_id = i, tr_name = tci_name inp,
        tr_note = tci_note inp, tr_created_at = now\<rparr>], cd_next_teaching_class := i + 1,
      cd_members := cd_members d @ map (Pair i) (tci_class_ids inp)\<rparr>" by auto
  have "(\<lambda>x. i) ` set (tci_class_ids inp) = {i}" using assms(3) by (simp add: image_constant_conv)
  then have "fst ` set (cd_members d') = class_ids d'"
    using assms(1) unfolding org_inv_def d'
    by (auto simp: class_ids_def image_Un image_image) 
  moreover have "distinct (cd_members d')"
    using assms(1) dis fresh unfolding org_inv_def d' by (auto simp: distinct_map inj_on_def)
  ultimately show ?thesis using assms(1) nm i unfolding org_inv_def
    by (auto simp: d' class_ids_def image_iff less_le)
qed

lemma update_keeps_org:
  assumes "org_inv d" and "update_teaching_class_tx i inp (healthy d) = (Inr (), healthy d')" and "tci_class_ids inp \<noteq> []"
  shows "org_inv d'"
proof -
  let ?upd = "\<lambda>t. if tr_id t = i then t\<lparr>tr_name := tci_name inp, tr_note := tci_note inp\<rparr> else t"
  from update_tx_effect [OF assms(2)] have i: "i \<in> class_ids d"
    and nm: "\<And>t. t \<in> set (cd_teaching_classes d) \<Longrightarrow> tr_id t \<noteq> i \<Longrightarrow> tr_name t \<noteq> tci_name inp"
    and dis: "distinct (tci_class_ids inp)"
    and d': "d' = d\<lparr>cd_teaching_classes := map ?upd (cd_teaching_classes d),
      cd_members := filter (\<lambda>(t, a). t \<noteq> i) (cd_members d) @ map (Pair i) (sort (tci_class_ids inp))\<rparr>"
    by (auto simp: class_ids_def)
  have const: "(\<lambda>x. i) ` set (tci_class_ids inp) = {i}" using assms(3) by (simp add: image_constant_conv)
  then have "fst ` set (cd_members d') = insert i (fst ` set (cd_members d) - {i})"
    using const unfolding d' by (auto simp: image_Un image_image image_iff)
  moreover have cls: "class_ids d' = class_ids d"
    unfolding class_ids_map d' by (simp del: set_map map_map)
  ultimately have "fst ` set (cd_members d') = class_ids d'"
    using assms(1) i unfolding org_inv_def by auto
  moreover have "distinct (cd_members d')"
    using assms(1) dis unfolding org_inv_def d' by (auto simp: distinct_map inj_on_def)
  moreover have "distinct (map tr_name (map ?upd (cd_teaching_classes d)))"
    using assms(1) nm by (intro distinct_key_update) (auto simp: org_inv_def)
  ultimately show ?thesis using assms(1) cls unfolding org_inv_def
    by (simp add: d' del: map_map)
qed

lemma delete_keeps_org:
  assumes "org_inv d" and "delete_teaching_class_tx i (healthy d) = (Inr (), healthy d')"
  shows "org_inv d'"
proof -
  from delete_tx_effect [OF assms(2)] have d': "d' = d\<lparr>cd_members := filter (\<lambda>(t, a). t \<noteq> i) (cd_members d),
      cd_teaching_classes := filter (\<lambda>t. tr_id t \<noteq> i) (cd_teaching_classes d)\<rparr>" by simp
  have "fst ` set (cd_members d') = fst ` set (cd_members d) - {i}" by (force simp: d')
  moreover have "class_ids d' = class_ids d - {i}" by (auto simp: d' class_ids_def)
  ultimately show ?thesis using assms(1) unfolding org_inv_def
    by (simp add: d' distinct_map_filter_key)
qed

lemma admin_writes_keep_org:
  assumes "org_inv d"
  shows "org_inv (snd (insert_admin_class now ai d))" "org_inv (snd (update_admin_class_row i ai d))"
    "org_inv (snd (delete_admin_class_row i d))" "org_inv (snd (insert_profile i si d))"
    "org_inv (snd (update_profile i u si d))" "org_inv (snd (delete_profile i u d))"
proof -
  show "org_inv (snd (insert_admin_class now ai d))"
    using assms by (auto simp: insert_admin_class_def org_inv_def list_ex_iff)
  let ?upd = "\<lambda>a. if ac_id a = i then a\<lparr>ac_grade := aci_grade ai, ac_name := aci_name ai, ac_note := aci_note ai\<rparr> else a"
  have m: "map ac_id (map ?upd as) = map ac_id as" for as by (induction as) auto
  have "\<forall>i \<in> set (map ac_id (map ?upd (cd_admin_classes d))). i < cd_next_admin_class d"
    unfolding m using assms by (auto simp: org_inv_def)
  moreover have "\<forall>i \<in> set (map ac_id as). i < n \<Longrightarrow> \<forall>a \<in> set as. ac_id a < n" for as n by simp
  ultimately have lt: "\<forall>a \<in> set (map ?upd (cd_admin_classes d)). ac_id a < cd_next_admin_class d" by blast
  show "org_inv (snd (update_admin_class_row i ai d))"
  proof (cases "\<exists>a \<in> set (cd_admin_classes d). ac_id a \<noteq> i \<and> ac_grade a = aci_grade ai \<and> ac_name a = aci_name ai")
    case True
    then have "list_ex (\<lambda>a. ac_id a = i) (cd_admin_classes d) \<Longrightarrow> snd (update_admin_class_row i ai d) = d"
      by (auto simp: update_admin_class_row_def Let_def list_ex_iff)
    moreover have "\<not> list_ex (\<lambda>a. ac_id a = i) (cd_admin_classes d) \<Longrightarrow> map ?upd (cd_admin_classes d) = cd_admin_classes d"
      by (intro map_idI) (auto simp: list_ex_iff)
    then have "\<not> list_ex (\<lambda>a. ac_id a = i) (cd_admin_classes d) \<Longrightarrow> snd (update_admin_class_row i ai d) = d"
      by (auto simp: update_admin_class_row_def Let_def)
    ultimately show ?thesis using assms by metis
  next
    case False
    then have "distinct (map (\<lambda>a. (ac_grade a, ac_name a)) (map ?upd (cd_admin_classes d)))"
      using assms by (intro distinct_key_update [where v = "(aci_grade ai, aci_name ai)"]) (auto simp: org_inv_def)
    then have "org_inv (d\<lparr>cd_admin_classes := map ?upd (cd_admin_classes d)\<rparr>)"
      using assms lt unfolding org_inv_def by (simp add: m del: map_map set_map)
    then show ?thesis using assms by (simp add: update_admin_class_row_def Let_def del: map_map)
  qed
  show "org_inv (snd (delete_admin_class_row i d))"
    using assms by (auto simp: delete_admin_class_row_def org_inv_def distinct_map_filter_key)
  show "org_inv (snd (insert_profile i si d))"
    using assms by (auto simp: insert_profile_def Let_def org_inv_def list_ex_iff)
  have mp: "map pr_user (map (\<lambda>p. if pr_class p = i \<and> pr_user p = u then p\<lparr>pr_student_no := x, pr_note := y\<rparr> else p) ps) = map pr_user ps"
    for x y ps by (induction ps) auto
  show "org_inv (snd (update_profile i u si d))"
    using assms by (auto simp: update_profile_def Let_def org_inv_def mp simp del: map_map)
  show "org_inv (snd (delete_profile i u d))"
    using assms by (auto simp: delete_profile_def org_inv_def distinct_map_filter_key)
qed

lemma class_step_keeps_org': "class_step d d' \<Longrightarrow> org_inv d \<Longrightarrow> org_inv d'"
proof (induction rule: class_step_kinds)
  case (create raw inp now d i d')
  then show ?case by (intro create_keeps_org [OF create(3,2)] conjunct2 [OF conjunct2 [OF normalize_teaching_class_ok]])
next
  case (update raw inp i d d')
  then show ?case by (intro update_keeps_org [OF update(3,2)] conjunct2 [OF conjunct2 [OF normalize_teaching_class_ok]])
next
  case (delete i d d')
  then show ?case using delete_keeps_org [OF delete(2,1)] by simp
qed (simp_all only: admin_writes_keep_org)

text \<open>The writes on administrative classes and profiles leave the teaching classes alone.\<close>

lemma admin_writes_classes:
  "class_ids (snd (insert_admin_class now ai d)) = class_ids d" "class_ids (snd (update_admin_class_row i ai d)) = class_ids d"
  "class_ids (snd (delete_admin_class_row i d)) = class_ids d" "class_ids (snd (insert_profile i si d)) = class_ids d"
  "class_ids (snd (update_profile i u si d)) = class_ids d" "class_ids (snd (delete_profile i u d)) = class_ids d"
  "members_of (snd (insert_admin_class now ai d)) t = members_of d t" "members_of (snd (update_admin_class_row i ai d)) t = members_of d t"
  "members_of (snd (delete_admin_class_row i d)) t = members_of d t" "members_of (snd (insert_profile i si d)) t = members_of d t"
  "members_of (snd (update_profile i u si d)) t = members_of d t" "members_of (snd (delete_profile i u d)) t = members_of d t"
  by (simp_all add: insert_admin_class_def update_admin_class_row_def delete_admin_class_row_def insert_profile_def
      update_profile_def delete_profile_def members_of_def Let_def)

lemma offerings_untouched: "class_step d d' \<Longrightarrow> cd_offerings d' = cd_offerings d"
proof (induction rule: class_step_kinds)
  case (create raw inp now d i d')
  then show ?case using create_tx_effect [OF create(2)] by simp
next
  case (update raw inp i d d')
  then show ?case using update_tx_effect [OF update(2)] by simp
next
  case (delete i d d')
  then show ?case using delete_tx_effect [OF delete] by simp
qed (simp_all add: insert_admin_class_def update_admin_class_row_def delete_admin_class_row_def insert_profile_def
      update_profile_def delete_profile_def Let_def)

lemma members_of_append [simp]:
  "members_of (d\<lparr>cd_members := ms @ map (Pair i) ids\<rparr>) t =
     members_of (d\<lparr>cd_members := ms\<rparr>) t @ (if t = i then ids else [])"
  by (simp add: members_of_def filter_map comp_def)

lemma members_of_frame [simp]:
  "members_of (d\<lparr>cd_teaching_classes := ts\<rparr>) t = members_of d t"
  "members_of (d\<lparr>cd_next_teaching_class := n\<rparr>) t = members_of d t"
  by (simp_all add: members_of_def)

lemma members_of_others:
  "members_of (d\<lparr>cd_members := filter (\<lambda>(t, a). t \<noteq> i) (cd_members d)\<rparr>) t = (if t = i then [] else members_of d t)"
proof -
  have "filter (\<lambda>(u, a). u = t) (filter (\<lambda>(u, a). u \<noteq> i) (cd_members d)) =
      (if t = i then [] else filter (\<lambda>(u, a). u = t) (cd_members d))"
    unfolding filter_filter by (auto intro!: filter_cong simp: filter_empty_conv)
  then show ?thesis by (simp add: members_of_def)
qed

lemma class_step_freezes': "class_step d d' \<Longrightarrow> org_inv d \<Longrightarrow> frozen_classes d d'"
proof (induction rule: class_step_kinds)
  case (create raw inp now d i d')
  from create_tx_effect [OF create(2)] have i: "i = cd_next_teaching_class d"
    and d': "d' = d\<lparr>cd_teaching_classes := cd_teaching_classes d @ [\<lparr>tr_id = i, tr_name = tci_name inp,
        tr_note = tci_note inp, tr_created_at = now\<rparr>], cd_next_teaching_class := i + 1,
      cd_members := cd_members d @ map (Pair i) (tci_class_ids inp)\<rparr>" by auto
  have "i \<notin> class_ids d" using create(3) i by (auto simp: org_inv_def)
  then have "\<forall>t \<in> class_ids d. t \<in> class_ids d' \<and> members_of d' t = members_of d t"
    by (auto simp: d' class_ids_def members_of_def filter_empty_conv)
  then show ?case by (simp add: frozen_classes_def)
next
  case (update raw inp i d d')
  from update_tx_effect [OF update(2)]
  have k: "offerings_of_class i d > 0 \<Longrightarrow> sort (members_of d i) = sort (tci_class_ids inp)"
    and d': "d' = d\<lparr>cd_teaching_classes := map (\<lambda>t. if tr_id t = i
        then t\<lparr>tr_name := tci_name inp, tr_note := tci_note inp\<rparr> else t) (cd_teaching_classes d),
      cd_members := filter (\<lambda>(t, a). t \<noteq> i) (cd_members d) @ map (Pair i) (sort (tci_class_ids inp))\<rparr>"
    by auto
  have "class_ids d' = class_ids d" unfolding class_ids_map d' by (simp del: set_map map_map)
  moreover have "members_of d' t = (if t = i then sort (tci_class_ids inp) else members_of d t)" for t
    using members_of_others [of i d t] by (simp add: d' members_of_def filter_map comp_def)
  ultimately show ?case using k by (simp add: frozen_classes_def sorted_sort_id)
next
  case (delete i d d')
  from delete_tx_effect [OF delete(1)] have u: "offerings_of_class i d = 0"
    and d': "d' = d\<lparr>cd_members := filter (\<lambda>(t, a). t \<noteq> i) (cd_members d),
      cd_teaching_classes := filter (\<lambda>t. tr_id t \<noteq> i) (cd_teaching_classes d)\<rparr>" by auto
  have "\<forall>t \<in> class_ids d. t \<noteq> i \<longrightarrow> t \<in> class_ids d'" by (auto simp: d' class_ids_def)
  moreover have "members_of d' t = (if t = i then [] else members_of d t)" for t
    using members_of_others [of i d t] by (simp add: d' members_of_def)
  ultimately show ?case using u by (auto simp: frozen_classes_def)
qed (simp_all add: frozen_classes_def admin_writes_classes)

lemma class_step_keeps_offered:
  assumes "class_step d d'" and "org_inv d" and "offered_classes_exist d"
  shows "offered_classes_exist d'"
  unfolding offered_classes_exist_def offerings_untouched [OF assms(1)]
proof
  fix i assume i: "i \<in> of_teaching_class ` set (cd_offerings d)"
  then have "offerings_of_class i d > 0" by (auto simp: offerings_of_class_def filter_empty_conv)
  moreover have "i \<in> class_ids d" using i assms(3) by (auto simp: offered_classes_exist_def)
  ultimately show "i \<in> class_ids d'" using class_step_freezes' [OF assms(1,2)] by (auto simp: frozen_classes_def)
qed

subsection \<open>Every request commits at most one step\<close>

text \<open>What only reads.\<close>

lemma org_reads [reads_intros]:
  "reads (get_admin_class i)" "reads (members_by_teaching_class ck ids)" "reads (get_teaching_class ck i)"
  "reads (admin_classes_exist ids)" "reads (get_student i u)" "reads (page_admin_classes ck eq q p)"
  "reads (page_teaching_classes ck eq q p)" "reads (list_students ck i)" "reads (list_admin_classes ck)"
  "reads (list_teaching_classes ck)"
  unfolding get_admin_class_def members_by_teaching_class_def get_teaching_class_def admin_classes_exist_def get_student_def
    page_admin_classes_def page_teaching_classes_def list_students_def list_admin_classes_def
    list_teaching_classes_def with_members_def Let_def
  by (intro reads_intros)+

lemma tx_clean [clean_intros]:
  "clean (create_teaching_class_tx now inp)" "clean (update_teaching_class_tx i inp)" "clean (delete_teaching_class_tx i)"
  unfolding create_teaching_class_tx_def update_teaching_class_tx_def delete_teaching_class_tx_def insert_members_def
    insert_member_def lock_class_row_def class_in_use_def
  by (intro clean_intros)+

lemma store_one_step [once_intros]:
  "normalize_admin_class araw = (ai, None) \<Longrightarrow> once class_step (create_admin_class now ai)"
  "normalize_admin_class araw = (ai, None) \<Longrightarrow> once class_step (update_admin_class i ai)"
  "normalize_teaching_class raw = (ti, None) \<Longrightarrow> once class_step (create_teaching_class ck now ti)"
  "normalize_teaching_class raw = (ti, None) \<Longrightarrow> once class_step (update_teaching_class ck i ti)"
  "\<not> sti_user si \<le> 0 \<Longrightarrow> once class_step (add_student i si)" "once class_step (update_student i u si)"
  "once class_step (delete_admin_class i)" "once class_step (delete_teaching_class i)"
  "once class_step (delete_student i u)"
proof -
  note writes = class_step.a_write [OF class_write.insert_admin] class_step.a_write [OF class_write.update_admin]
    class_step.a_write [OF class_write.insert_profile] class_step.a_write [OF class_write.update_profile]
  show "once class_step (create_admin_class now ai)" "once class_step (update_admin_class i ai)"
    if "normalize_admin_class araw = (ai, None)"
    unfolding create_admin_class_def update_admin_class_def
    by (intro once_then_reads once_stmt writes(1,2) [OF that] reads_intros)+
  show "once class_step (delete_admin_class i)"
    unfolding delete_admin_class_def
    by (rule once_after_reads, rule reads_simple, rule once_if, rule once_reads, rule reads_simple)
      (intro once_then_reads once_stmt class_step.delete_admin reads_intros)
  show "once class_step (create_teaching_class ck now ti)" if "normalize_teaching_class raw = (ti, None)"
    unfolding create_teaching_class_def using class_step.a_write [OF class_write.create [OF that]]
    by (intro once_if once_reads [OF reads_simple(4)])
      (assumption | intro once_after_reads once_then_reads once_transaction org_reads tx_clean)+
  have "class_step d d'" if "normalize_teaching_class raw = (ti, None)"
      "update_teaching_class_tx i ti (healthy d) = (Inr x, healthy d')" for d d' x
    using class_step.a_write [OF class_write.update [OF that(1), of i]] that(2) by simp
  then show "once class_step (update_teaching_class ck i ti)" if "normalize_teaching_class raw = (ti, None)"
    unfolding update_teaching_class_def using that
    by (intro once_if once_reads [OF reads_simple(4)])
      (assumption | intro once_after_reads once_then_reads once_transaction org_reads tx_clean)+
  show "once class_step (delete_teaching_class i)"
    unfolding delete_teaching_class_def
    by (rule once_transaction) (auto intro: clean_intros class_step.delete)
  show "once class_step (add_student i si)" if "\<not> sti_user si \<le> 0"
    unfolding add_student_def
    by (rule once_after_reads, rule reads_simple, rule once_if, rule once_reads, rule reads_simple)
      (intro once_then_reads once_stmt writes(3) [OF that] reads_intros)
  show "once class_step (update_student i u si)"
    unfolding update_student_def by (intro once_then_reads once_stmt writes(4) reads_intros)
  show "once class_step (delete_student i u)"
    unfolding delete_student_def by (intro once_then_reads once_stmt class_step.delete_profile reads_intros)
qed

lemma org_handlers_once [once_intros]:
  "once class_step (createAdminClass_h now abody)" "once class_step (updateAdminClass_h pid abody)"
  "once class_step (deleteAdminClass_h pid)" "once class_step (createTeachingClass_h ck now tbody)"
  "once class_step (updateTeachingClass_h ck pid tbody)" "once class_step (deleteTeachingClass_h pid)"
  "once class_step (addStudent_h pid sbody)" "once class_step (updateStudent_h pid puser sbody)"
  "once class_step (deleteStudent_h pid puser)"
  unfolding createAdminClass_h_def updateAdminClass_h_def deleteAdminClass_h_def createTeachingClass_h_def
    updateTeachingClass_h_def deleteTeachingClass_h_def addStudent_h_def updateStudent_h_def deleteStudent_h_def
  by (intro once_intros once_h_validated; (assumption | simp split: sum.split org_error.split))+

subsection \<open>Member lists\<close>

lemma admin_classes_exist_healthy:
  assumes "distinct (map ac_id (cd_admin_classes d))" and "distinct ids"
  shows "admin_classes_exist ids (healthy d) = (if set ids \<subseteq> ac_id ` set (cd_admin_classes d) then Inr () else Inl AdminClassNotFound, healthy d)"
proof (cases "ids = []")
  case True
  then show ?thesis by (simp add: admin_classes_exist_def)
next
  case False
  let ?hits = "filter (\<lambda>a. ac_id a \<in> set ids) (cd_admin_classes d)"
  have img: "ac_id ` set ?hits = set ids \<inter> ac_id ` set (cd_admin_classes d)" by auto
  have "length ?hits = card (set ids \<inter> ac_id ` set (cd_admin_classes d))"
    using assms(1) img by (metis distinct_card distinct_map_filter_key length_map list.set_map)
  moreover have "length ids = card (set ids)" using assms(2) by (simp add: distinct_card)
  moreover have "card (set ids \<inter> ac_id ` set (cd_admin_classes d)) = card (set ids) \<longleftrightarrow>
      set ids \<subseteq> ac_id ` set (cd_admin_classes d)"
    by (metis List.finite_set card_subset_eq inf.absorb_iff1 inf_le1)
  ultimately show ?thesis using False by (simp add: admin_classes_exist_def)
qed

subsection \<open>Properties\<close>

text \<open>
  No commit damages the tables: ids, names, memberships and profiles stay unique, every teaching class
  keeps at least one member, every offering keeps its teaching class, and a teaching class that an
  offering refers to is neither deleted nor given other members.
\<close>

lemma class_step_safe:
  assumes "class_step d d'" and "org_inv d" and "offered_classes_exist d"
  shows "org_inv d' \<and> offered_classes_exist d' \<and> frozen_classes d d'"
  using class_step_keeps_org' [OF assms(1,2)] class_step_keeps_offered [OF assms] class_step_freezes' [OF assms(1,2)] by blast

definition demo_org :: campus_db where
  "demo_org = campus_empty\<lparr>
     cd_admin_classes := [\<lparr>ac_id = 1, ac_grade = ''2024'', ac_name = ''CS1'', ac_note = [], ac_created_at = 0\<rparr>],
     cd_teaching_classes := [\<lparr>tr_id = 1, tr_name = ''T1'', tr_note = [], tr_created_at = 0\<rparr>],
     cd_members := [(1, 1)], cd_next_admin_class := 2, cd_next_teaching_class := 2\<rparr>"

lemma demo_org_ok: "org_inv demo_org" "offered_classes_exist demo_org"
  by (simp_all add: demo_org_def campus_empty_def org_inv_def offered_classes_exist_def class_ids_def)

text \<open>
  The member list that a teaching class request is left with is the sorted list of the positive
  ids it named, each once; the existence check then accepts it exactly when every id is an
  administrative class.
\<close>

theorem member_check_exact:
  assumes "distinct (map ac_id (cd_admin_classes d))"
  shows "dedup_ids ids = sorted_list_of_set {i \<in> set ids. i > 0} \<and>
    (fst (admin_classes_exist (dedup_ids ids) (healthy d)) = Inr () \<longleftrightarrow>
      {i \<in> set ids. i > 0} \<subseteq> ac_id ` set (cd_admin_classes d))"
proof
  have "sorted (dedup_ids ids)" by (simp add: dedup_ids_def)
  then show "dedup_ids ids = sorted_list_of_set {i \<in> set ids. i > 0}"
    using dedup_ids_distinct dedup_ids_set by (metis sorted_list_of_set.idem_if_sorted_distinct)
  show "fst (admin_classes_exist (dedup_ids ids) (healthy d)) = Inr () \<longleftrightarrow>
      {i \<in> set ids. i > 0} \<subseteq> ac_id ` set (cd_admin_classes d)"
    using admin_classes_exist_healthy [OF assms dedup_ids_distinct, of ids] by (simp add: dedup_ids_set)
qed

theorem member_check_exact_witness: "dedup_ids [1, 0, 1] = sorted_list_of_set {i \<in> set [1, 0, 1 :: int]. i > 0}"
  using member_check_exact [of demo_org "[1, 0, 1]"] by (simp add: demo_org_def campus_empty_def)

text \<open>
  The existence check runs before the transaction, so a class deleted in between leaves a teaching
  class with a member that does not exist.
\<close>

theorem member_check_races:
  "fst (admin_classes_exist [1] (healthy (demo_org\<lparr>cd_members := []\<rparr>))) = Inr () \<and>
   fst (delete_admin_class 1 (healthy (demo_org\<lparr>cd_members := []\<rparr>))) = Inr () \<and>
   create_teaching_class_tx 0 \<lparr>tci_name = ''T2'', tci_note = [], tci_class_ids = [1]\<rparr>
     (healthy (demo_org\<lparr>cd_members := [], cd_admin_classes := []\<rparr>)) =
   (Inr 2, healthy (demo_org\<lparr>cd_members := [(2, 1)], cd_admin_classes := [],
      cd_teaching_classes := cd_teaching_classes demo_org @ [\<lparr>tr_id = 2, tr_name = ''T2'', tr_note = [], tr_created_at = 0\<rparr>],
      cd_next_teaching_class := 3\<rparr>))"
proof (intro conjI)
  show "fst (admin_classes_exist [1] (healthy (demo_org\<lparr>cd_members := []\<rparr>))) = Inr ()"
    by (simp add: admin_classes_exist_def demo_org_def)
  show "fst (delete_admin_class 1 (healthy (demo_org\<lparr>cd_members := []\<rparr>))) = Inr ()"
    by (simp add: delete_admin_class_def admin_class_memberships_def delete_admin_class_row_def demo_org_def)
  have "pg_text 64 ''T2'' \<and> pg_text 255 []" by code_simp
  then show "create_teaching_class_tx 0 \<lparr>tci_name = ''T2'', tci_note = [], tci_class_ids = [1]\<rparr>
     (healthy (demo_org\<lparr>cd_members := [], cd_admin_classes := []\<rparr>)) =
   (Inr 2, healthy (demo_org\<lparr>cd_members := [(2, 1)], cd_admin_classes := [],
      cd_teaching_classes := cd_teaching_classes demo_org @ [\<lparr>tr_id = 2, tr_name = ''T2'', tr_note = [], tr_created_at = 0\<rparr>],
      cd_next_teaching_class := 3\<rparr>))"
    by (simp add: create_teaching_class_tx_def insert_teaching_class_def insert_members_def dbind_def
        insert_member_healthy demo_org_def campus_empty_def)
qed

text \<open>\<open>addStudent\<close> never looks up the administrative class: a profile in a class that does not exist is created.\<close>

theorem add_student_without_class:
  "find_admin_class (campus_empty\<lparr>cd_users := [\<lparr>us_id = 5, us_username = ''s'', us_display_name = ''S'', us_type = ''student''\<rparr>]\<rparr>) 9 = None \<and>
   fst (addStudent_h ''9'' (Some \<lparr>sti_user = 5, sti_student_no = [], sti_note = []\<rparr>)
     (healthy (campus_empty\<lparr>cd_users := [\<lparr>us_id = 5, us_username = ''s'', us_display_name = ''S'', us_type = ''student''\<rparr>]\<rparr>))) =
   RespJSON 201 \<lparr>sv_user = 5, sv_username = ''s'', sv_display_name = ''S'', sv_student_no = [], sv_class = 9, sv_note = []\<rparr>"
proof -
  have a: "atoi ''9'' = Some 9" by code_simp
  have t: "trim_space [] = []" "pg_text 32 []" "pg_text 255 []" by code_simp+
  show ?thesis
    by (simp add: addStudent_h_def a add_student_def find_user_def insert_profile_def t campus_empty_def get_student_def
        student_view_of_def find_admin_class_def)
qed

end
