(* ===== verification/Booking.thy ===== *)
theory Booking
  imports Classroom
begin

text \<open>
  Room bookings (\<open>internal/booking\<close>): the store, whose writes are single conditional statements or
  the locked transaction of \<open>Create\<close>, the validation against the active bell-time regime, and the
  handlers. \<open>bk_step\<close> is the atomic step that each of them makes on the tables.
\<close>

subsection \<open>Data\<close>

record booking_view =
  bv_id :: int
  bv_classroom :: int
  bv_user :: int
  bv_date :: string
  bv_start :: int
  bv_end :: int
  bv_status :: string
  bv_purpose :: string
  bv_created_at :: int
  bv_reviewed_at :: "int option"
  bv_classroom_name :: string
  bv_username :: string
  bv_display_name :: string

record booking_input =
  bi_classroom :: int
  bi_date :: string
  bi_start :: int
  bi_end :: int
  bi_purpose :: string

record booking_filter =
  bf_classroom :: int
  bf_user :: int
  bf_status :: string
  bf_from :: string
  bf_to :: string

datatype booking_error =
  BookingNotFound | ClassroomConflict | InvalidTransition | BookingForbidden | BookingDb string

type_synonym 'a booking_action = "(campus_db, booking_error, 'a) action"

subsection \<open>SQL statements\<close>

definition booking_view_of :: "campus_db \<Rightarrow> booking \<Rightarrow> booking_view option" where
  "booking_view_of d b =
     (case (find_classroom d (bk_classroom b), find_user d (bk_user b)) of
        (Some c, Some u) \<Rightarrow> Some \<lparr>bv_id = bk_id b, bv_classroom = bk_classroom b, bv_user = bk_user b,
           bv_date = format_date (bk_date b), bv_start = bk_start b, bv_end = bk_end b,
           bv_status = bk_status b, bv_purpose = bk_purpose b, bv_created_at = bk_created_at b,
           bv_reviewed_at = bk_reviewed_at b, bv_classroom_name = cl_name c,
           bv_username = us_username u, bv_display_name = us_display_name u\<rparr>
      | _ \<Rightarrow> None)"

definition find_booking :: "campus_db \<Rightarrow> int \<Rightarrow> booking option" where
  "find_booking d i = List.find (\<lambda>b. bk_id b = i) (cd_bookings d)"

definition select_booking :: "int \<Rightarrow> campus_db \<Rightarrow> booking_view option" where
  "select_booking i d = Option.bind (find_booking d i) (booking_view_of d)"

definition booking_where :: "booking_filter \<Rightarrow> string \<Rightarrow> string \<times> sql_arg list" where
  "booking_where f q =
     (let qa = ('' WHERE 1=1'', []);
          qa = (if bf_classroom f > 0 then bind_arg_text '' AND b.classroom_id = '' (AInt (bf_classroom f)) [] qa else qa);
          qa = (if bf_user f > 0 then bind_arg_text '' AND b.user_id = '' (AInt (bf_user f)) [] qa else qa);
          qa = (if bf_status f \<noteq> [] then bind_arg_text '' AND b.status = '' (AStr (bf_status f)) [] qa else qa);
          qa = (if bf_from f \<noteq> [] then bind_arg_text '' AND b.date >= '' (AStr (bf_from f)) [] qa else qa);
          qa = (if bf_to f \<noteq> [] then bind_arg_text '' AND b.date <= '' (AStr (bf_to f)) [] qa else qa)
      in if q \<noteq> []
         then let pat = AStr (like_pattern (escape_like q))
              in bind_arg_text '' OR cr.name ILIKE '' pat '')''
                   (bind_arg_text '' OR u.username ILIKE '' pat []
                     (bind_arg_text '' OR u.display_name ILIKE '' pat []
                       (bind_arg_text '' AND (b.purpose ILIKE '' pat [] qa)))
         else qa)"

text \<open>
  The meaning of that condition on a joined row. \<open>pg_date\<close> is PostgreSQL's reading of a date
  parameter; a bound it cannot read makes the statement fail.
\<close>

definition date_bound :: "(string \<Rightarrow> int option) \<Rightarrow> string \<Rightarrow> int option option" where
  "date_bound pg_date s = (if s = [] then Some None else map_option Some (pg_date s))"

definition booking_selected ::
  "(char \<Rightarrow> char \<Rightarrow> bool) \<Rightarrow> booking_filter \<Rightarrow> int option \<Rightarrow> int option \<Rightarrow> string \<Rightarrow> booking \<Rightarrow> booking_view \<Rightarrow> bool" where
  "booking_selected eq f lo hi q b v \<longleftrightarrow>
     (bf_classroom f > 0 \<longrightarrow> bk_classroom b = bf_classroom f) \<and>
     (bf_user f > 0 \<longrightarrow> bk_user b = bf_user f) \<and>
     (bf_status f \<noteq> [] \<longrightarrow> bk_status b = bf_status f) \<and>
     (case lo of None \<Rightarrow> True | Some x \<Rightarrow> bk_date b \<ge> x) \<and>
     (case hi of None \<Rightarrow> True | Some x \<Rightarrow> bk_date b \<le> x) \<and>
     (q \<noteq> [] \<longrightarrow> contains eq q (bk_purpose b) \<or> contains eq q (bv_display_name v) \<or>
        contains eq q (bv_username v) \<or> contains eq q (bv_classroom_name v))"

definition select_bookings ::
  "(string \<Rightarrow> int option) \<Rightarrow> (char \<Rightarrow> char \<Rightarrow> bool) \<Rightarrow> booking_filter \<Rightarrow> string \<Rightarrow> campus_db \<Rightarrow> booking_view list option" where
  "select_bookings pg_date eq f q d =
     Option.bind (date_bound pg_date (bf_from f)) (\<lambda>lo.
     Option.bind (date_bound pg_date (bf_to f)) (\<lambda>hi.
     Some (map snd (filter (\<lambda>(b, v). booking_selected eq f lo hi q b v)
       (List.map_filter (\<lambda>b. map_option (Pair b) (booking_view_of d b))
         (sort_key (\<lambda>b. (- bk_date b, - bk_start b, - bk_id b)) (cd_bookings d)))))))"

definition booking_conflict :: "int \<Rightarrow> int \<Rightarrow> int \<Rightarrow> int \<Rightarrow> int \<Rightarrow> campus_db \<Rightarrow> bool" where
  "booking_conflict room date ps pe exclude d \<longleftrightarrow>
     list_ex (\<lambda>b. bk_classroom b = room \<and> bk_date b = date \<and> active_status (bk_status b) \<and>
         overlaps (bk_start b) (bk_end b) ps pe \<and> (exclude > 0 \<longrightarrow> bk_id b \<noteq> exclude)) (cd_bookings d)"

definition insert_booking :: "int \<Rightarrow> int \<Rightarrow> booking_input \<Rightarrow> int \<Rightarrow> campus_db \<Rightarrow> int option \<times> campus_db" where
  "insert_booking now date inp user d =
     (if \<not> fits32 (bi_start inp) \<or> \<not> fits32 (bi_end inp) \<or> \<not> pg_text 255 (bi_purpose inp) then (None, d)
      else (Some (cd_next_booking d),
        d\<lparr>cd_bookings := cd_bookings d @ [\<lparr>bk_id = cd_next_booking d, bk_classroom = bi_classroom inp,
             bk_user = user, bk_date = date, bk_start = bi_start inp, bk_end = bi_end inp,
             bk_status = ''pending'', bk_purpose = bi_purpose inp, bk_created_at = now,
             bk_reviewed_at = None\<rparr>],
          cd_next_booking := cd_next_booking d + 1\<rparr>))"

definition cancel_booking_row :: "int \<Rightarrow> campus_db \<Rightarrow> int \<times> campus_db" where
  "cancel_booking_row i d =
     (int (length (filter (\<lambda>b. bk_id b = i \<and> active_status (bk_status b)) (cd_bookings d))),
      d\<lparr>cd_bookings := map (\<lambda>b. if bk_id b = i \<and> active_status (bk_status b)
          then b\<lparr>bk_status := ''cancelled''\<rparr> else b) (cd_bookings d)\<rparr>)"

definition review_booking_row :: "int \<Rightarrow> string \<Rightarrow> int \<Rightarrow> campus_db \<Rightarrow> int \<times> campus_db" where
  "review_booking_row now new_status i d =
     (int (length (filter (\<lambda>b. bk_id b = i \<and> bk_status b = ''pending'') (cd_bookings d))),
      d\<lparr>cd_bookings := map (\<lambda>b. if bk_id b = i \<and> bk_status b = ''pending''
          then b\<lparr>bk_status := new_status, bk_reviewed_at := Some now\<rparr> else b) (cd_bookings d)\<rparr>)"

subsection \<open>Store\<close>

definition list_bookings ::
  "(string \<Rightarrow> int option) \<Rightarrow> booking_filter \<Rightarrow> booking_view list booking_action" where
  "list_bookings pg_date f =
     query_row (BookingDb ''list bookings'') (BookingDb ''list bookings'') (select_bookings pg_date (=) f [])"

definition page_bookings ::
  "(string \<Rightarrow> int option) \<Rightarrow> (char \<Rightarrow> char \<Rightarrow> bool) \<Rightarrow> booking_filter \<Rightarrow> string \<Rightarrow> pagination \<Rightarrow>
   (booking_view list \<times> int) booking_action" where
  "page_bookings pg_date eq f q p =
     dbind (query_row (BookingDb ''page bookings'') (BookingDb ''page bookings'')
        (\<lambda>d. Option.bind (select_bookings pg_date eq f q d) (limit_rows p))) (\<lambda>vs.
     dbind (query_row (BookingDb ''count rows'') (BookingDb ''count rows'')
        (\<lambda>d. map_option (\<lambda>rows. int (length rows)) (select_bookings pg_date eq f q d))) (\<lambda>n.
     dret (vs, n)))"

text \<open>\<open>GROUP BY b.date ORDER BY b.date\<close>: the days that occur, each with its number of rows.\<close>

definition count_by_date ::
  "(string \<Rightarrow> int option) \<Rightarrow> booking_filter \<Rightarrow> string \<Rightarrow> string \<Rightarrow> (string \<times> int) list booking_action" where
  "count_by_date pg_date f from_date to_date =
     query_row (BookingDb ''count bookings by date'') (BookingDb ''count bookings by date'') (\<lambda>d.
       Option.bind (pg_date from_date) (\<lambda>lo. Option.bind (pg_date to_date) (\<lambda>hi.
         let rows = filter (\<lambda>b. bk_date b \<ge> lo \<and> bk_date b \<le> hi \<and>
               (bf_status f \<noteq> [] \<longrightarrow> bk_status b = bf_status f) \<and>
               (bf_user f > 0 \<longrightarrow> bk_user b = bf_user f)) (cd_bookings d);
             days = sort (remdups (map bk_date rows))
         in Some (map (\<lambda>day. (format_date day, int (length (filter (\<lambda>b. bk_date b = day) rows)))) days))))"

definition get_booking :: "int \<Rightarrow> booking_view booking_action" where
  "get_booking i = query_row (BookingDb ''get booking'') BookingNotFound (select_booking i)"

definition conflicts :: "(string \<Rightarrow> int option) \<Rightarrow> int \<Rightarrow> string \<Rightarrow> int \<Rightarrow> int \<Rightarrow> int \<Rightarrow> bool booking_action" where
  "conflicts pg_date room date ps pe exclude =
     dbind (query_row (BookingDb ''check session conflict'') (BookingDb ''check session conflict'')
        (\<lambda>d. map_option (\<lambda>day. session_in_slot d room day ps pe) (pg_date date))) (\<lambda>busy.
     if busy then dret True
     else query_row (BookingDb ''check booking conflict'') (BookingDb ''check booking conflict'')
        (\<lambda>d. map_option (\<lambda>day. booking_conflict room day ps pe exclude d) (pg_date date)))"

text \<open>The body of the transaction of \<open>Create\<close>: lock the room, check, insert.\<close>

definition reserve :: "(string \<Rightarrow> int option) \<Rightarrow> int \<Rightarrow> booking_input \<Rightarrow> int \<Rightarrow> int booking_action" where
  "reserve pg_date now inp user =
     dbind (query_row (BookingDb ''lock classroom'') (BookingDb ''lock classroom'')
        (\<lambda>d. find_classroom d (bi_classroom inp))) (\<lambda>_.
     dbind (conflicts pg_date (bi_classroom inp) (bi_date inp) (bi_start inp) (bi_end inp) 0) (\<lambda>busy.
     if busy then draise ClassroomConflict
     else dbind (stmt (BookingDb ''create booking'') (\<lambda>d.
            case pg_date (bi_date inp) of None \<Rightarrow> (None, d)
            | Some day \<Rightarrow> insert_booking now day inp user d)) (\<lambda>r.
          case r of None \<Rightarrow> draise (BookingDb ''create booking'') | Some i \<Rightarrow> dret i)))"

definition create_booking ::
  "(string \<Rightarrow> int option) \<Rightarrow> int \<Rightarrow> booking_input \<Rightarrow> int \<Rightarrow> booking_view booking_action" where
  "create_booking pg_date now inp user =
     dbind (transaction (BookingDb ''begin tx'') (BookingDb ''commit'') (reserve pg_date now inp user)) get_booking"

text \<open>A conditional UPDATE followed by the test that it hit a row.\<close>

definition conditional_update :: "string \<Rightarrow> (campus_db \<Rightarrow> int \<times> campus_db) \<Rightarrow> unit booking_action" where
  "conditional_update what f =
     dbind (stmt (BookingDb what) f) (\<lambda>n. if n = 0 then draise InvalidTransition else dret ())"

definition cancel_booking :: "int \<Rightarrow> int \<Rightarrow> bool \<Rightarrow> booking_view booking_action" where
  "cancel_booking i user is_admin =
     dbind (get_booking i) (\<lambda>v.
     if \<not> is_admin \<and> bv_user v \<noteq> user then draise BookingForbidden
     else if bv_status v \<noteq> ''pending'' \<and> bv_status v \<noteq> ''approved'' then draise InvalidTransition
     else dbind (conditional_update ''cancel booking'' (cancel_booking_row i)) (\<lambda>_. get_booking i))"

definition review_booking ::
  "(string \<Rightarrow> int option) \<Rightarrow> int \<Rightarrow> int \<Rightarrow> string \<Rightarrow> booking_view booking_action" where
  "review_booking pg_date now i decision =
     dbind (get_booking i) (\<lambda>v.
     if bv_status v \<noteq> ''pending'' then draise InvalidTransition
     else
       let new_status = (if decision = ''approve'' then ''approved'' else ''rejected'') in
       dbind (if new_status = ''approved''
         then transaction (BookingDb ''begin tx'') (BookingDb ''commit'')
           (dbind (conflicts pg_date (bv_classroom v) (bv_date v) (bv_start v) (bv_end v) i) (\<lambda>busy.
            if busy then draise ClassroomConflict
            else conditional_update ''approve booking'' (review_booking_row now new_status i)))
         else conditional_update ''reject booking'' (review_booking_row now new_status i))
       (\<lambda>_. get_booking i))"

text \<open>\<open>ConflictsDetail\<close>: what occupies a slot, sessions first, each part ordered by start.\<close>

datatype conflict_item =
  SessionItem string string string int int
| BookingItem string string string int int

definition session_item :: "campus_db \<Rightarrow> session \<Rightarrow> conflict_item option" where
  "session_item d s =
     Option.bind (find_offering d (ss_offering s)) (\<lambda>f.
     Option.bind (find_catalog d (of_catalog f)) (\<lambda>c.
     Option.bind (find_classroom d (ss_classroom s)) (\<lambda>r.
     Some (SessionItem (ca_name c) (of_teacher f) (cl_name r) (ss_start s) (ss_end s)))))"

definition booking_item :: "campus_db \<Rightarrow> booking \<Rightarrow> conflict_item option" where
  "booking_item d b =
     Option.bind (find_user d (bk_user b)) (\<lambda>u.
     Option.bind (find_classroom d (bk_classroom b)) (\<lambda>r.
     Some (BookingItem (cl_name r) (us_display_name u) (bk_status b) (bk_start b) (bk_end b))))"

definition conflicts_detail ::
  "(string \<Rightarrow> int option) \<Rightarrow> int \<Rightarrow> string \<Rightarrow> int \<Rightarrow> int \<Rightarrow> conflict_item list booking_action" where
  "conflicts_detail pg_date room date ps pe =
     dbind (query_row (BookingDb ''conflict sessions'') (BookingDb ''conflict sessions'') (\<lambda>d.
        map_option (\<lambda>day. List.map_filter (session_item d) (sort_key ss_start (filter (\<lambda>s.
          ss_classroom s = room \<and> ss_date s = day \<and> overlaps (ss_start s) (ss_end s) ps pe) (cd_sessions d))))
          (pg_date date))) (\<lambda>ss.
     dbind (query_row (BookingDb ''conflict bookings'') (BookingDb ''conflict bookings'') (\<lambda>d.
        map_option (\<lambda>day. List.map_filter (booking_item d) (sort_key bk_start (filter (\<lambda>b.
          bk_classroom b = room \<and> bk_date b = day \<and> active_status (bk_status b) \<and>
          overlaps (bk_start b) (bk_end b) ps pe) (cd_bookings d))))
          (pg_date date))) (\<lambda>bs. dret (ss @ bs)))"

subsection \<open>Validation and handlers\<close>

definition get_schedule :: "campus_db \<Rightarrow> sched_db" where
  "get_schedule d = cd_schedule d"

definition put_schedule :: "sched_db \<Rightarrow> campus_db \<Rightarrow> campus_db" where
  "put_schedule s d = d\<lparr>cd_schedule := s\<rparr>"

definition campus_regimes :: "(campus_db, sched_error, regime list) action" where
  "campus_regimes = zoom get_schedule put_schedule list_regimes"

text \<open>The result is the trimmed input and the error message, if any.\<close>

definition validate_booking ::
  "booking_input \<Rightarrow> campus_db conn \<Rightarrow> (booking_input \<times> string option) \<times> campus_db conn" where
  "validate_booking inp c =
     (if bi_classroom inp \<le> 0 then ((inp, Some ''classroomId is required''), c)
      else if bi_start inp < 1 \<or> bi_end inp < 1 then ((inp, Some ''periodStart and periodEnd must be >= 1''), c)
      else if bi_start inp > bi_end inp then ((inp, Some ''periodStart must be <= periodEnd''), c)
      else (case parse_date (bi_date inp) of
        None \<Rightarrow> ((inp, Some ''invalid date (use YYYY-MM-DD)''), c)
      | Some date \<Rightarrow>
        (let inp = inp\<lparr>bi_purpose := trim_space (bi_purpose inp)\<rparr> in
         if bi_purpose inp = [] then ((inp, Some ''purpose is required''), c)
         else (case get_classroom (bi_classroom inp) c of
           (Inl ClassroomNotFound, c1) \<Rightarrow> ((inp, Some ''classroom not found''), c1)
         | (Inl _, c1) \<Rightarrow> ((inp, Some ''could not load classroom''), c1)
         | (Inr cr, c1) \<Rightarrow>
           if cl_status cr \<noteq> ''available''
           then ((inp, Some ''classroom is not available for booking''), c1)
           else (case campus_regimes c1 of
             (Inl _, c2) \<Rightarrow> ((inp, Some ''could not validate against schedule regime''), c2)
           | (Inr regimes, c2) \<Rightarrow> (case active_for regimes date of
               None \<Rightarrow> ((inp, Some ''no schedule regime configured for this date''), c2)
             | Some regime \<Rightarrow>
               (case first_missing (period_index_set regime) (bi_start inp) (bi_end inp) of
                  Some _ \<Rightarrow> ((inp, Some ''period range is not valid for the active regime on this date''), c2)
                | None \<Rightarrow> ((inp, None), c2))))))))"

definition booking_filter_of :: "(string \<Rightarrow> string) \<Rightarrow> string + booking_filter" where
  "booking_filter_of q =
     (if q ''from'' \<noteq> [] \<and> parse_date (q ''from'') = None then Inl ''invalid from (use YYYY-MM-DD)''
      else if q ''to'' \<noteq> [] \<and> parse_date (q ''to'') = None then Inl ''invalid to (use YYYY-MM-DD)''
      else Inr \<lparr>bf_classroom = parse_int_value (q ''classroom_id''), bf_user = parse_int_value (q ''user_id''),
        bf_status = trim_space (q ''status''), bf_from = q ''from'', bf_to = q ''to''\<rparr>)"

definition listBookings_h ::
  "(string \<Rightarrow> int option) \<Rightarrow> (char \<Rightarrow> char \<Rightarrow> bool) \<Rightarrow> (string \<Rightarrow> string) \<Rightarrow> campus_db conn \<Rightarrow>
   (booking_view list \<times> int \<times> page_params) response \<times> campus_db conn" where
  "listBookings_h pg_date eq q c = (case booking_filter_of q of
     Inl msg \<Rightarrow> (RespError 400 msg, c)
   | Inr f \<Rightarrow>
      (let p = parse_page_params q;
           pg = \<lparr>pg_limit = pp_page_size p, pg_offset = page_offset p\<rparr>
       in case page_bookings pg_date eq f (parse_search q) pg c of
            (Inl _, c') \<Rightarrow> (RespError 500 ''could not list bookings'', c')
          | (Inr (vs, n), c') \<Rightarrow> (RespJSON 200 (vs, n, p), c')))"

definition exportBookings_h ::
  "(string \<Rightarrow> int option) \<Rightarrow> (string \<Rightarrow> string) \<Rightarrow> campus_db conn \<Rightarrow>
   (string \<times> string \<times> string \<times> int \<times> int \<times> string \<times> string) list response \<times> campus_db conn" where
  "exportBookings_h pg_date q c = (case booking_filter_of q of
     Inl msg \<Rightarrow> (RespError 400 msg, c)
   | Inr f \<Rightarrow> (case list_bookings pg_date f c of
       (Inl _, c') \<Rightarrow> (RespError 500 ''could not list bookings'', c')
     | (Inr vs, c') \<Rightarrow> (RespJSON 200 (map (\<lambda>b. (bv_classroom_name b, bv_username b, bv_date b,
          bv_start b, bv_end b, bv_status b, bv_purpose b)) vs), c')))"

definition getBooking_h :: "string \<Rightarrow> campus_db conn \<Rightarrow> booking_view response \<times> campus_db conn" where
  "getBooking_h path_id c = (case atoi path_id of
     None \<Rightarrow> (RespError 400 ''invalid booking id'', c)
   | Some i \<Rightarrow> (case get_booking i c of
       (Inl BookingNotFound, c') \<Rightarrow> (RespError 404 ''booking not found'', c')
     | (Inl _, c') \<Rightarrow> (RespError 500 ''could not load booking'', c')
     | (Inr v, c') \<Rightarrow> (RespJSON 200 v, c')))"

definition createBooking_h ::
  "(string \<Rightarrow> int option) \<Rightarrow> int \<Rightarrow> booking_input option \<Rightarrow> subject option \<Rightarrow> campus_db conn \<Rightarrow>
   booking_view response \<times> campus_db conn" where
  "createBooking_h pg_date now body sub c = (case body of
     None \<Rightarrow> (RespError 400 ''invalid request body'', c)
   | Some inp \<Rightarrow> (case validate_booking inp c of
       ((_, Some msg), c1) \<Rightarrow> (RespError 400 msg, c1)
     | ((inp, None), c1) \<Rightarrow> (case sub of
         None \<Rightarrow> (RespError 401 ''not authenticated'', c1)
       | Some s \<Rightarrow> (case create_booking pg_date now inp (sj_id s) c1 of
           (Inl ClassroomConflict, c') \<Rightarrow> (RespError 409 ''classroom already booked for this date and period'', c')
         | (Inl _, c') \<Rightarrow> (RespError 500 ''could not create booking'', c')
         | (Inr v, c') \<Rightarrow> (RespJSON 201 v, c')))))"

definition cancelBooking_h ::
  "string \<Rightarrow> subject option \<Rightarrow> campus_db conn \<Rightarrow> booking_view response \<times> campus_db conn" where
  "cancelBooking_h path_id sub c = (case atoi path_id of
     None \<Rightarrow> (RespError 400 ''invalid booking id'', c)
   | Some i \<Rightarrow> (case sub of
       None \<Rightarrow> (RespError 401 ''not authenticated'', c)
     | Some s \<Rightarrow> (case cancel_booking i (sj_id s) (has_perm s ''booking:approve'') c of
         (Inl BookingNotFound, c') \<Rightarrow> (RespError 404 ''booking not found'', c')
       | (Inl BookingForbidden, c') \<Rightarrow> (RespError 403 ''you can only cancel your own bookings'', c')
       | (Inl InvalidTransition, c') \<Rightarrow> (RespError 409 ''booking cannot be cancelled in its current status'', c')
       | (Inl _, c') \<Rightarrow> (RespError 500 ''could not cancel booking'', c')
       | (Inr v, c') \<Rightarrow> (RespJSON 200 v, c'))))"

definition quoted :: "string \<Rightarrow> string" where
  "quoted s = [CHR 0x27] @ s @ [CHR 0x27]"

text \<open>\<open>to_lower\<close> is \<open>strings.ToLower\<close>, whose full Unicode tables are a parameter.\<close>

definition reviewBooking_h ::
  "(string \<Rightarrow> int option) \<Rightarrow> (string \<Rightarrow> string) \<Rightarrow> int \<Rightarrow> string \<Rightarrow> string option \<Rightarrow> campus_db conn \<Rightarrow>
   booking_view response \<times> campus_db conn" where
  "reviewBooking_h pg_date to_lower now path_id body c = (case atoi path_id of
     None \<Rightarrow> (RespError 400 ''invalid booking id'', c)
   | Some i \<Rightarrow> (case body of
       None \<Rightarrow> (RespError 400 ''invalid request body'', c)
     | Some raw \<Rightarrow>
        (let decision = to_lower (trim_space raw) in
         if decision \<noteq> ''approve'' \<and> decision \<noteq> ''reject''
         then (RespError 400 (''decision must be '' @ quoted ''approve'' @ '' or '' @ quoted ''reject''), c)
         else (case review_booking pg_date now i decision c of
             (Inl BookingNotFound, c') \<Rightarrow> (RespError 404 ''booking not found'', c')
           | (Inl InvalidTransition, c') \<Rightarrow> (RespError 409 ''booking is no longer pending'', c')
           | (Inl ClassroomConflict, c') \<Rightarrow> (RespError 409 ''classroom is no longer free for this period'', c')
           | (Inl _, c') \<Rightarrow> (RespError 500 ''could not review booking'', c')
           | (Inr v, c') \<Rightarrow> (RespJSON 200 v, c')))))"

definition booking_routes :: "(string \<times> string) list" where
  "booking_routes = [
     (''GET /api/bookings'', ''classroom:read''),
     (''POST /api/bookings'', ''classroom:book''),
     (''GET /api/bookings/export'', ''classroom:read''),
     (''GET /api/bookings/{id}'', ''classroom:read''),
     (''POST /api/bookings/{id}/cancel'', ''classroom:book''),
     (''POST /api/bookings/{id}/review'', ''booking:approve'')]"

subsection \<open>Atomic steps\<close>

text \<open>
  What one commit does to the bookings. \<open>Create\<close> checks and inserts inside a transaction that holds
  the row lock of the room, so for one room its check and its insert are one step; the other writes
  are single UPDATE statements whose conditions are evaluated with the write. Every interleaving of
  concurrent requests is therefore a sequence of these steps (the approval re-checks the slot as
  well, which the step does not even need).
\<close>

inductive bk_step :: "campus_db \<Rightarrow> campus_db \<Rightarrow> bool" where
  create: "slot_free d (bi_classroom inp) day (bi_start inp) (bi_end inp) \<Longrightarrow>
    insert_booking now day inp user d = (Some i, d') \<Longrightarrow> bk_step d d'"
| cancel: "bk_step d (snd (cancel_booking_row i d))"
| review: "st = ''approved'' \<or> st = ''rejected'' \<Longrightarrow> bk_step d (snd (review_booking_row now st i d))"

inductive_cases bk_stepE: "bk_step d d'"

lemma booking_conflict_0: "booking_conflict room day ps pe 0 d \<longleftrightarrow> booking_in_slot d room day ps pe"
  by (simp add: booking_conflict_def booking_in_slot_def)

lemma keeps_get_booking [keeps_intros]: "keeps P (get_booking i)"
  unfolding get_booking_def by (intro keeps_intros)

lemma get_booking_reads [simp]: "tables (snd (get_booking i c)) = tables c"
  by (rule keeps_all_reads) (rule keeps_get_booking)

lemma keeps_conflicts [keeps_intros]: "keeps P (conflicts pg_date room date ps pe ex)"
  unfolding conflicts_def by (intro keeps_intros)

lemma dbind_get_booking [simp]:
  "tables (snd (dbind m (\<lambda>_. get_booking i) c)) = tables (snd (m c))"
  "tables (snd (dbind m' get_booking c')) = tables (snd (m' c'))"
  by (auto simp: dbind_def split: prod.splits sum.splits)

lemma conflicts_result:
  assumes "conflicts pg_date room date ps pe ex c = (Inr busy, c')"
  shows "tables c' = tables c \<and> (\<exists>day. pg_date date = Some day \<and>
    busy = (session_in_slot (tables c) room day ps pe \<or> booking_conflict room day ps pe ex (tables c)))"
  using assms unfolding conflicts_def query_row_def query_def stmt_def dbind_def
  by (auto split: list.splits bool.splits option.splits if_splits)

lemma cancel_refines:
  "tables (snd (cancel_booking i user adm c)) = tables c \<or>
   (\<exists>v. select_booking i (tables c) = Some v \<and> (adm \<or> bv_user v = user) \<and>
      tables (snd (cancel_booking i user adm c)) = snd (cancel_booking_row i (tables c)))"
  unfolding cancel_booking_def conditional_update_def
  by (auto simp: get_booking_def dbind_def query_row_def query_def stmt_def
      split: list.splits bool.splits option.splits if_splits)

lemma reserve_step:
  assumes "reserve pg_date now inp user c = (Inr i, c')"
  shows "\<exists>day. pg_date (bi_date inp) = Some day \<and>
    slot_free (tables c) (bi_classroom inp) day (bi_start inp) (bi_end inp) \<and>
    insert_booking now day inp user (tables c) = (Some i, tables c')"
proof -
  from dbind_Inr [OF assms [unfolded reserve_def]] obtain r c1 where
    lock: "query_row (BookingDb ''lock classroom'') (BookingDb ''lock classroom'')
        (\<lambda>d. find_classroom d (bi_classroom inp)) c = (Inr r, c1)"
    and rest: "dbind (conflicts pg_date (bi_classroom inp) (bi_date inp) (bi_start inp) (bi_end inp) 0) (\<lambda>busy.
     if busy then draise ClassroomConflict
     else dbind (stmt (BookingDb ''create booking'') (\<lambda>d.
            case pg_date (bi_date inp) of None \<Rightarrow> (None, d)
            | Some day \<Rightarrow> insert_booking now day inp user d)) (\<lambda>r.
          case r of None \<Rightarrow> draise (BookingDb ''create booking'') | Some i \<Rightarrow> dret i)) c1 = (Inr i, c')" by blast
  from dbind_Inr [OF rest] obtain busy c2 where
    cf: "conflicts pg_date (bi_classroom inp) (bi_date inp) (bi_start inp) (bi_end inp) 0 c1 = (Inr busy, c2)"
    and tail: "(if busy then draise ClassroomConflict
     else dbind (stmt (BookingDb ''create booking'') (\<lambda>d.
            case pg_date (bi_date inp) of None \<Rightarrow> (None, d)
            | Some day \<Rightarrow> insert_booking now day inp user d)) (\<lambda>r.
          case r of None \<Rightarrow> draise (BookingDb ''create booking'') | Some i \<Rightarrow> dret i)) c2 = (Inr i, c')" by blast
  have free: "\<not> busy" using tail by (cases busy) auto
  from conflicts_result [OF cf] obtain day where t: "tables c2 = tables c1" "pg_date (bi_date inp) = Some day"
    "busy = (\<not> slot_free (tables c1) (bi_classroom inp) day (bi_start inp) (bi_end inp))"
    by (auto simp: slot_free_def booking_conflict_0)
  from tail free t(2) have "dbind (stmt (BookingDb ''create booking'') (insert_booking now day inp user)) (\<lambda>r.
          case r of None \<Rightarrow> draise (BookingDb ''create booking'') | Some i \<Rightarrow> dret i) c2 = (Inr i, c')" by simp
  from dbind_Inr [OF this] obtain r c3 where ins:
    "stmt (BookingDb ''create booking'') (insert_booking now day inp user) c2 = (Inr r, c3)"
    "(case r of None \<Rightarrow> draise (BookingDb ''create booking'') | Some i \<Rightarrow> dret i) c3 = (Inr i, c')" by blast
  then have "r = Some i" "c3 = c'" by (auto split: option.splits)
  with stmt_Inr [OF ins(1)] t free query_row_Inr [OF lock] show ?thesis by auto
qed

lemma create_refines:
  "tables (snd (create_booking pg_date now inp user c)) = tables c \<or>
   bk_step (tables c) (tables (snd (create_booking pg_date now inp user c)))"
  unfolding create_booking_def dbind_get_booking
  using transaction_tables [of "BookingDb ''begin tx''" "BookingDb ''commit''" "reserve pg_date now inp user" c]
    reserve_step bk_step.create by metis

lemma conditional_update_tables:
  "tables (snd (conditional_update what f c)) \<in> {tables c, snd (f (tables c))}"
  "conditional_update what f c = (Inr x, c') \<Longrightarrow> tables c' = snd (f (tables c))"
  by (auto simp: conditional_update_def dbind_def stmt_def split: list.splits bool.splits if_splits)

lemma guarded_update_tables:
  assumes "dbind (conflicts pg_date room date ps pe ex) (\<lambda>busy. if busy then draise ClassroomConflict
      else conditional_update what f) c = (Inr x, c')"
  shows "tables c' = snd (f (tables c))"
proof -
  from assms obtain busy ca where cf: "conflicts pg_date room date ps pe ex c = (Inr busy, ca)"
    by (auto simp: dbind_def split: prod.splits sum.splits)
  with assms have "conditional_update what f ca = (Inr x, c')"
    by (auto simp: dbind_def split: if_splits)
  from conditional_update_tables(2) [OF this] conflicts_result [OF cf] show ?thesis by simp
qed

lemma review_refines:
  "tables (snd (review_booking pg_date now i decision c)) = tables c \<or>
   (\<exists>st. (st = ''approved'' \<or> st = ''rejected'') \<and>
      tables (snd (review_booking pg_date now i decision c)) = snd (review_booking_row now st i (tables c)))"
proof -
  obtain r c1 where g: "get_booking i c = (r, c1)" by fastforce
  then have t1: "tables c1 = tables c" by (metis get_booking_reads snd_conv)
  have tx: "tables (snd (transaction eb ec (dbind (conflicts pg_date room date ps pe i)
      (\<lambda>busy. if busy then draise ClassroomConflict else conditional_update what f)) c1)) \<in> {tables c, snd (f (tables c))}"
    for eb ec room date ps pe what f
    using transaction_tables guarded_update_tables t1 by (metis insertCI)
  show ?thesis
  proof (cases r)
    case (Inl e)
    with g t1 show ?thesis by (simp add: review_booking_def dbind_def)
  next
    case (Inr v)
    with g t1 conditional_update_tables(1) [of "''reject booking''" "review_booking_row now ''rejected'' i" c1]
      tx [of "BookingDb ''begin tx''" "BookingDb ''commit''" "bv_classroom v" "bv_date v" "bv_start v" "bv_end v"
        "''approve booking''" "review_booking_row now ''approved'' i"]
    show ?thesis
      by (auto simp: review_booking_def dbind_simps(2) [of "get_booking i"] Let_def)
  qed
qed

subsection \<open>Exclusive slots\<close>

text \<open>
  An interface for everything that hands out exclusive slots: \<open>held\<close> are the slots held in a
  state, each with the identity of its holder, and a step may release holders or admit one whose
  slot clashes with none of those that others hold.
\<close>

locale exclusive_slots =
  fixes step :: "'d \<Rightarrow> 'd \<Rightarrow> bool"
    and held :: "'d \<Rightarrow> ('i \<times> 's) set"
    and clash :: "'s \<Rightarrow> 's \<Rightarrow> bool"
  assumes admits: "step d d' \<Longrightarrow> held d' \<subseteq> held d \<or>
      (\<exists>i s. held d' \<subseteq> insert (i, s) (held d) \<and> (\<forall>p \<in> held d. fst p \<noteq> i \<longrightarrow> \<not> clash (snd p) s))"
    and symmetric: "clash s t \<Longrightarrow> clash t s"
begin

lemma disjoint_step:
  assumes "step d d'" and "\<forall>p \<in> held d. \<forall>q \<in> held d. fst p \<noteq> fst q \<longrightarrow> \<not> clash (snd p) (snd q)"
  shows "\<forall>p \<in> held d'. \<forall>q \<in> held d'. fst p \<noteq> fst q \<longrightarrow> \<not> clash (snd p) (snd q)"
  using admits [OF assms(1)]
proof
  assume "held d' \<subseteq> held d"
  with assms(2) show ?thesis by blast
next
  assume "\<exists>i s. held d' \<subseteq> insert (i, s) (held d) \<and> (\<forall>p \<in> held d. fst p \<noteq> i \<longrightarrow> \<not> clash (snd p) s)"
  then obtain i s where sub: "held d' \<subseteq> insert (i, s) (held d)"
    and free: "\<forall>p \<in> held d. fst p \<noteq> i \<longrightarrow> \<not> clash (snd p) s" by blast
  show ?thesis
  proof (intro ballI impI)
    fix p q assume "p \<in> held d'" "q \<in> held d'" and ne: "fst p \<noteq> fst q"
    then have pq: "p = (i, s) \<or> p \<in> held d" "q = (i, s) \<or> q \<in> held d" using sub by auto
    show "\<not> clash (snd p) (snd q)"
    proof (cases "p = (i, s)")
      case True
      then have "q \<in> held d" "fst q \<noteq> i" using pq(2) ne by auto
      then have "\<not> clash (snd q) (snd p)" using free True by simp
      then show ?thesis using symmetric by blast
    next
      case False
      then show ?thesis using pq free assms(2) ne by (cases "q = (i, s)") auto
    qed
  qed
qed

theorem disjoint_reachable:
  assumes "step\<^sup>*\<^sup>* d d'" and "\<forall>p \<in> held d. \<forall>q \<in> held d. fst p \<noteq> fst q \<longrightarrow> \<not> clash (snd p) (snd q)"
  shows "\<forall>p \<in> held d'. \<forall>q \<in> held d'. fst p \<noteq> fst q \<longrightarrow> \<not> clash (snd p) (snd q)"
  using assms(1)
proof (induction rule: rtranclp_induct)
  case base
  show ?case by (rule assms(2))
next
  case (step x y)
  show ?case by (rule disjoint_step [OF step(2) step.IH])
qed

end

type_synonym slot = "int \<times> int \<times> int \<times> int"

definition held_slots :: "campus_db \<Rightarrow> (int \<times> slot) set" where
  "held_slots d = (\<lambda>b. (bk_id b, bk_classroom b, bk_date b, bk_start b, bk_end b)) `
     {b \<in> set (cd_bookings d). active_status (bk_status b)}"

fun slots_clash :: "slot \<Rightarrow> slot \<Rightarrow> bool" where
  "slots_clash (room, day, s, e) (room', day', s', e') \<longleftrightarrow>
     room = room' \<and> day = day' \<and> overlaps s e s' e'"

lemma held_slots_map:
  assumes "cd_bookings d' = map h (cd_bookings d)"
    and "\<And>b. active_status (bk_status (h b)) \<Longrightarrow> active_status (bk_status b)"
    and "\<And>b. (bk_id (h b), bk_classroom (h b), bk_date (h b), bk_start (h b), bk_end (h b)) =
      (bk_id b, bk_classroom b, bk_date b, bk_start b, bk_end b)"
  shows "held_slots d' \<subseteq> held_slots d"
  using assms unfolding held_slots_def by (fastforce simp: image_iff)

lemma held_slots_cancel: "held_slots (snd (cancel_booking_row i d)) \<subseteq> held_slots d"
  by (rule held_slots_map [where h = "\<lambda>b. if bk_id b = i \<and> active_status (bk_status b)
      then b\<lparr>bk_status := ''cancelled''\<rparr> else b"])
    (auto simp: cancel_booking_row_def active_status_def split: if_splits)

lemma held_slots_review: "held_slots (snd (review_booking_row now st i d)) \<subseteq> held_slots d"
  by (rule held_slots_map [where h = "\<lambda>b. if bk_id b = i \<and> bk_status b = ''pending''
      then b\<lparr>bk_status := st, bk_reviewed_at := Some now\<rparr> else b"])
    (auto simp: review_booking_row_def active_status_def split: if_splits)

lemma held_slots_insert:
  assumes "insert_booking now day inp user d = (Some i, d')"
  shows "held_slots d' = insert (i, bi_classroom inp, day, bi_start inp, bi_end inp) (held_slots d)"
proof -
  let ?b = "\<lparr>bk_id = i, bk_classroom = bi_classroom inp, bk_user = user, bk_date = day, bk_start = bi_start inp,
    bk_end = bi_end inp, bk_status = ''pending'', bk_purpose = bi_purpose inp, bk_created_at = now, bk_reviewed_at = None\<rparr>"
  have "cd_bookings d' = cd_bookings d @ [?b]"
    using assms by (auto simp: insert_booking_def split: if_splits)
  then have "{b \<in> set (cd_bookings d'). active_status (bk_status b)} =
      insert ?b {b \<in> set (cd_bookings d). active_status (bk_status b)}"
    by (auto simp: active_status_def)
  then show ?thesis by (simp add: held_slots_def)
qed

lemma slot_free_held:
  assumes "slot_free d room day ps pe" and "p \<in> held_slots d"
  shows "\<not> slots_clash (snd p) (room, day, ps, pe)"
  using assms by (auto simp: slot_free_def booking_in_slot_def held_slots_def list_ex_iff)

interpretation booked: exclusive_slots bk_step held_slots slots_clash
proof
  fix d d' assume "bk_step d d'"
  then show "held_slots d' \<subseteq> held_slots d \<or>
      (\<exists>i s. held_slots d' \<subseteq> insert (i, s) (held_slots d) \<and> (\<forall>p \<in> held_slots d. fst p \<noteq> i \<longrightarrow> \<not> slots_clash (snd p) s))"
  proof (cases rule: bk_step.cases)
    case (create inp day now user i)
    from held_slots_insert [OF create(2)] slot_free_held [OF create(1)] show ?thesis by blast
  next
    case (cancel i)
    then show ?thesis using held_slots_cancel by blast
  next
    case (review st now i)
    then show ?thesis using held_slots_review by blast
  qed
next
  fix s t show "slots_clash s t \<Longrightarrow> slots_clash t s"
    by (cases s; cases t) (auto simp: overlaps_def)
qed

subsection \<open>Life of a booking\<close>

definition booking_statuses :: "string list" where
  "booking_statuses = [''pending'', ''approved'', ''rejected'', ''cancelled'']"

definition booking_origin :: "booking \<Rightarrow> int \<times> int \<times> int \<times> int \<times> int \<times> int \<times> string \<times> int" where
  "booking_origin b = (bk_id b, bk_classroom b, bk_user b, bk_date b, bk_start b, bk_end b, bk_purpose b,
     bk_created_at b)"

definition booking_evolves :: "booking \<Rightarrow> booking \<Rightarrow> bool" where
  "booking_evolves b b' \<longleftrightarrow> booking_origin b' = booking_origin b \<and>
     (bk_status b = ''rejected'' \<or> bk_status b = ''cancelled'' \<longrightarrow> b' = b) \<and>
     (bk_status b = ''approved'' \<longrightarrow> bk_status b' = ''approved'' \<or> bk_status b' = ''cancelled'') \<and>
     (bk_status b' = ''pending'' \<longrightarrow> bk_status b = ''pending'')"

lemma booking_evolves_refl [simp]: "booking_evolves b b"
  by (simp add: booking_evolves_def)

lemma booking_evolves_trans: "booking_evolves a b \<Longrightarrow> booking_evolves b c \<Longrightarrow> booking_evolves a c"
  unfolding booking_evolves_def by metis

lemma booking_evolves_step:
  assumes "bk_step d d'" and "b \<in> set (cd_bookings d)"
  shows "\<exists>b' \<in> set (cd_bookings d'). booking_evolves b b'"
  using assms(1)
proof (cases rule: bk_step.cases)
  case (create inp day now user i)
  then have "b \<in> set (cd_bookings d')" using assms(2) by (auto simp: insert_booking_def split: if_splits)
  then show ?thesis using booking_evolves_refl by blast
next
  case (cancel i)
  let ?h = "\<lambda>b. if bk_id b = i \<and> active_status (bk_status b) then b\<lparr>bk_status := ''cancelled''\<rparr> else b"
  have "?h b \<in> set (cd_bookings d')" using cancel assms(2) by (simp add: cancel_booking_row_def)
  moreover have "booking_evolves b (?h b)" by (auto simp: booking_evolves_def booking_origin_def active_status_def)
  ultimately show ?thesis by blast
next
  case (review st now i)
  let ?h = "\<lambda>b. if bk_id b = i \<and> bk_status b = ''pending'' then b\<lparr>bk_status := st, bk_reviewed_at := Some now\<rparr> else b"
  have "?h b \<in> set (cd_bookings d')" using review assms(2) by (simp add: review_booking_row_def)
  moreover have "booking_evolves b (?h b)" using review(2) by (auto simp: booking_evolves_def booking_origin_def)
  ultimately show ?thesis by blast
qed

definition bookings_inv :: "campus_db \<Rightarrow> bool" where
  "bookings_inv d \<longleftrightarrow> distinct (map bk_id (cd_bookings d)) \<and>
     (\<forall>b \<in> set (cd_bookings d). 0 < bk_id b \<and> bk_id b < cd_next_booking d \<and> bk_status b \<in> set booking_statuses) \<and>
     0 < cd_next_booking d \<and>
     (\<forall>p \<in> held_slots d. \<forall>q \<in> held_slots d. fst p \<noteq> fst q \<longrightarrow> \<not> slots_clash (snd p) (snd q))"

lemma bookings_inv_rows:
  assumes "cd_bookings d' = map h (cd_bookings d)" and "cd_next_booking d' = cd_next_booking d"
    and "\<And>b. b \<in> set (cd_bookings d) \<Longrightarrow> bk_id (h b) = bk_id b \<and> bk_status (h b) \<in> set booking_statuses"
    and "distinct (map bk_id (cd_bookings d)) \<and> (\<forall>b \<in> set (cd_bookings d). 0 < bk_id b \<and> bk_id b < cd_next_booking d)"
  shows "distinct (map bk_id (cd_bookings d')) \<and>
    (\<forall>b \<in> set (cd_bookings d'). 0 < bk_id b \<and> bk_id b < cd_next_booking d' \<and> bk_status b \<in> set booking_statuses)"
proof -
  have "map bk_id (map h (cd_bookings d)) = map bk_id (cd_bookings d)" using assms(3) by simp
  then show ?thesis using assms by (simp del: map_map) 
qed

lemma bookings_inv_step:
  assumes "bk_step d d'" and inv: "bookings_inv d"
  shows "bookings_inv d'"
proof -
  have slots: "\<forall>p \<in> held_slots d'. \<forall>q \<in> held_slots d'. fst p \<noteq> fst q \<longrightarrow> \<not> slots_clash (snd p) (snd q)"
    using booked.disjoint_step [OF assms(1)] inv by (simp add: bookings_inv_def)
  have base: "distinct (map bk_id (cd_bookings d)) \<and> (\<forall>b \<in> set (cd_bookings d). 0 < bk_id b \<and> bk_id b < cd_next_booking d)"
    using inv by (simp add: bookings_inv_def)
  have st: "\<And>b. b \<in> set (cd_bookings d) \<Longrightarrow> bk_status b \<in> set booking_statuses"
    using inv by (simp add: bookings_inv_def)
  have "(distinct (map bk_id (cd_bookings d')) \<and>
    (\<forall>b \<in> set (cd_bookings d'). 0 < bk_id b \<and> bk_id b < cd_next_booking d' \<and> bk_status b \<in> set booking_statuses)) \<and>
    0 < cd_next_booking d'"
    using assms(1)
  proof (cases rule: bk_step.cases)
    case (create inp day now user i)
    then show ?thesis using inv
      by (auto simp: insert_booking_def bookings_inv_def booking_statuses_def split: if_splits) force+
  next
    case (cancel i)
    have "distinct (map bk_id (cd_bookings d')) \<and>
        (\<forall>b \<in> set (cd_bookings d'). 0 < bk_id b \<and> bk_id b < cd_next_booking d' \<and> bk_status b \<in> set booking_statuses)"
      by (rule bookings_inv_rows [where d = d and h = "\<lambda>b. if bk_id b = i \<and> active_status (bk_status b)
          then b\<lparr>bk_status := ''cancelled''\<rparr> else b"])
        (use cancel base st in \<open>auto simp: cancel_booking_row_def booking_statuses_def\<close>)
    with cancel inv show ?thesis by (simp add: cancel_booking_row_def bookings_inv_def)
  next
    case (review st' now i)
    have "distinct (map bk_id (cd_bookings d')) \<and>
        (\<forall>b \<in> set (cd_bookings d'). 0 < bk_id b \<and> bk_id b < cd_next_booking d' \<and> bk_status b \<in> set booking_statuses)"
      by (rule bookings_inv_rows [where d = d and h = "\<lambda>b. if bk_id b = i \<and> bk_status b = ''pending''
          then b\<lparr>bk_status := st', bk_reviewed_at := Some now\<rparr> else b"])
        (use review base st in \<open>auto simp: review_booking_row_def booking_statuses_def\<close>)
    with review inv show ?thesis by (simp add: review_booking_row_def bookings_inv_def)
  qed
  with slots show ?thesis by (simp add: bookings_inv_def)
qed

lemma held_slots_disjoint:
  assumes "\<forall>p \<in> held_slots d. \<forall>q \<in> held_slots d. fst p \<noteq> fst q \<longrightarrow> \<not> slots_clash (snd p) (snd q)"
    and "a \<in> set (cd_bookings d)" and "b \<in> set (cd_bookings d)" and "bk_id a \<noteq> bk_id b"
    and "active_status (bk_status a)" and "active_status (bk_status b)"
    and "bk_classroom a = bk_classroom b" and "bk_date a = bk_date b"
  shows "\<not> overlaps (bk_start a) (bk_end a) (bk_start b) (bk_end b)"
proof -
  have "(bk_id x, bk_classroom x, bk_date x, bk_start x, bk_end x) \<in> held_slots d"
    if "x \<in> set (cd_bookings d)" "active_status (bk_status x)" for x
    using that by (auto simp: held_slots_def)
  from this [OF assms(2,5)] this [OF assms(3,6)] assms(1,4,7,8) show ?thesis by fastforce
qed

lemma keeps_campus_regimes [keeps_intros]:
  assumes "\<And>d. P d \<Longrightarrow> P (put_schedule (get_schedule d) d)"
  shows "keeps P campus_regimes"
  unfolding campus_regimes_def keeps_def
proof (rule evolves_zoom [where Q = "\<lambda>s s'. s' = s"])
  show "evolves (\<lambda>s s'. s' = s) list_regimes"
    unfolding evolves_def using keeps_all_reads [OF keeps_reads(1)] by auto
  show "\<And>d d'. d' = get_schedule d \<Longrightarrow> P d \<longrightarrow> P (put_schedule d' d)" using assms by simp
qed

lemma put_get_schedule [simp]: "put_schedule (get_schedule d) d = d"
  by (simp add: put_schedule_def get_schedule_def)

lemma campus_regimes_healthy:
  "campus_regimes (healthy d) =
     (Inr (map (read_regime (cd_schedule d)) (select_regimes (cd_schedule d))), healthy d)"
  unfolding campus_regimes_def
  using zoom_healthy [of list_regimes get_schedule d, OF list_regimes_healthy, of put_schedule]
  by (simp add: get_schedule_def put_schedule_def)

lemma validate_reads: "tables (snd (validate_booking inp c)) = tables c"
proof -
  have g: "get_classroom i c = (r, c') \<Longrightarrow> tables c' = tables c" for i c r c'
    using keeps_all_reads [OF keeps_classroom_reads(3)] by (metis snd_conv)
  have s: "campus_regimes c = (r, c') \<Longrightarrow> tables c' = tables c" for c r c'
    using keeps_all_reads [OF keeps_campus_regimes] by (metis put_get_schedule snd_conv)
  show ?thesis
    unfolding validate_booking_def Let_def
    by (auto split: option.splits prod.splits sum.splits classroom_error.splits dest!: g s)
qed

lemma find_booking_unique:
  "b \<in> set (cd_bookings d) \<Longrightarrow> distinct (map bk_id (cd_bookings d)) \<Longrightarrow> find_booking d (bk_id b) = Some b"
  unfolding find_booking_def by (rule find_unique)

lemma select_booking_Some:
  assumes "select_booking i d = Some v"
  shows "\<exists>b \<in> set (cd_bookings d). bk_id b = i \<and> bv_id v = i \<and> bv_classroom v = bk_classroom b \<and>
    bv_user v = bk_user b \<and> bv_date v = format_date (bk_date b) \<and> bv_start v = bk_start b \<and>
    bv_end v = bk_end b \<and> bv_status v = bk_status b"
proof -
  obtain b where b: "List.find (\<lambda>b. bk_id b = i) (cd_bookings d) = Some b" "booking_view_of d b = Some v"
    using assms by (auto simp: select_booking_def find_booking_def bind_eq_Some_conv)
  have "b \<in> set (cd_bookings d) \<and> bk_id b = i" using b(1) by (auto simp: find_Some_iff)
  then show ?thesis using b(2) by (intro bexI [of _ b]) (auto simp: booking_view_of_def split: option.splits)
qed

lemma booking_handler_calls:
  "\<exists>c1. tables c1 = tables c \<and> (snd (createBooking_h pg_date now body sub c) = c1 \<or>
     (\<exists>inp user. snd (createBooking_h pg_date now body sub c) = snd (create_booking pg_date now inp user c1)))"
  "snd (cancelBooking_h path_id sub c) = c \<or>
     (\<exists>i s. sub = Some s \<and> snd (cancelBooking_h path_id sub c) = snd (cancel_booking i (sj_id s) (has_perm s ''booking:approve'') c))"
  "snd (reviewBooking_h pg_date to_lower now path_id raw c) = c \<or>
     (\<exists>i decision. snd (reviewBooking_h pg_date to_lower now path_id raw c) = snd (review_booking pg_date now i decision c))"
proof -
  show "\<exists>c1. tables c1 = tables c \<and> (snd (createBooking_h pg_date now body sub c) = c1 \<or>
     (\<exists>inp user. snd (createBooking_h pg_date now body sub c) = snd (create_booking pg_date now inp user c1)))"
  proof (cases body)
    case None
    then show ?thesis by (auto simp: createBooking_h_def)
  next
    case (Some inp)
    obtain v msg c1 where v: "validate_booking inp c = ((v, msg), c1)" by (metis surj_pair)
    then have "tables c1 = tables c" using validate_reads [of inp c] by simp
    then show ?thesis using Some v
      by (intro exI [of _ c1]) (auto simp: createBooking_h_def split: option.splits prod.splits sum.splits booking_error.splits;
        metis snd_conv)
  qed
  show "snd (cancelBooking_h path_id sub c) = c \<or>
     (\<exists>i s. sub = Some s \<and> snd (cancelBooking_h path_id sub c) = snd (cancel_booking i (sj_id s) (has_perm s ''booking:approve'') c))"
    unfolding cancelBooking_h_def
    by (auto split: option.splits prod.splits sum.splits booking_error.splits) (metis snd_conv)+
  show "snd (reviewBooking_h pg_date to_lower now path_id raw c) = c \<or>
     (\<exists>i decision. snd (reviewBooking_h pg_date to_lower now path_id raw c) = snd (review_booking pg_date now i decision c))"
  proof (cases "atoi path_id")
    case None
    then show ?thesis by (simp add: reviewBooking_h_def)
  next
    case (Some i)
    show ?thesis
    proof (cases raw)
      case None
      with Some show ?thesis by (simp add: reviewBooking_h_def)
    next
      case (Some x)
      let ?x = "to_lower (trim_space x)"
      obtain r c1 where r: "review_booking pg_date now i ?x c = (r, c1)" by fastforce
      then have "snd (reviewBooking_h pg_date to_lower now path_id raw c) \<in> {c, c1}"
        using \<open>atoi path_id = Some i\<close> Some
        by (cases "?x \<noteq> ''approve'' \<and> ?x \<noteq> ''reject''"; cases r)
          (simp_all add: reviewBooking_h_def Let_def split: booking_error.split)
      with r show ?thesis by (metis insertE singletonD snd_conv)
    qed
  qed
qed

lemma handlers_refine_steps:
  assumes "c' \<in> {snd (createBooking_h pg_date now body sub c), snd (cancelBooking_h path_id sub c),
    snd (reviewBooking_h pg_date to_lower now path_id raw c)}"
  shows "tables c' = tables c \<or> bk_step (tables c) (tables c')"
proof -
  from assms consider
      c1 where "tables c1 = tables c" "c' = c1 \<or> (\<exists>inp user. c' = snd (create_booking pg_date now inp user c1))"
    | "c' = c \<or> (\<exists>i u a. c' = snd (cancel_booking i u a c))"
    | "c' = c \<or> (\<exists>i x. c' = snd (review_booking pg_date now i x c))"
    using booking_handler_calls(1) [of c pg_date now body sub] booking_handler_calls(2) [of path_id sub c]
      booking_handler_calls(3) [of pg_date to_lower now path_id raw c] by blast
  then show ?thesis
  proof cases
    case 1
    then show ?thesis using create_refines by metis
  next
    case 2
    then show ?thesis using cancel_refines bk_step.cancel by metis
  next
    case 3
    then show ?thesis using review_refines bk_step.review by metis
  qed
qed

text \<open>
  What a request may do to the tables: a handler runs from start to end under any fault script, or
  a request that runs beside others executes its one atomic write on the tables it finds then.
\<close>

inductive booking_request :: "campus_db \<Rightarrow> campus_db \<Rightarrow> bool" where
  create: "booking_request (tables c) (tables (snd (createBooking_h pg_date now body sub c)))"
| cancel: "booking_request (tables c) (tables (snd (cancelBooking_h path_id sub c)))"
| review: "booking_request (tables c) (tables (snd (reviewBooking_h pg_date to_lower now path_id raw c)))"
| concurrent: "bk_step d d' \<Longrightarrow> booking_request d d'"

lemma booking_request_steps: "booking_request d d' \<Longrightarrow> d' = d \<or> bk_step d d'"
  by (induction rule: booking_request.induct) (use handlers_refine_steps in blast)+

lemma booking_requests_steps: "booking_request\<^sup>*\<^sup>* d d' \<Longrightarrow> bk_step\<^sup>*\<^sup>* d d'"
  by (induction rule: rtranclp_induct) (auto dest: booking_request_steps intro: rtranclp.rtrancl_into_rtrancl)

subsection \<open>Properties\<close>

text \<open>
  C4: no double booking. However the atomic steps of concurrent requests are interleaved, starting
  from tables without bookings, two different pending or approved bookings of one room on one date
  never overlap; ids stay unique and statuses within the vocabulary.
\<close>

theorem no_double_booking:
  assumes "booking_request\<^sup>*\<^sup>* d d'" and "cd_bookings d = []" and "0 < cd_next_booking d"
  shows "bookings_inv d' \<and>
    (\<forall>a \<in> set (cd_bookings d'). \<forall>b \<in> set (cd_bookings d').
       bk_id a \<noteq> bk_id b \<and> active_status (bk_status a) \<and> active_status (bk_status b) \<and>
       bk_classroom a = bk_classroom b \<and> bk_date a = bk_date b \<longrightarrow>
       \<not> overlaps (bk_start a) (bk_end a) (bk_start b) (bk_end b))"
proof -
  have "bookings_inv d" using assms(2,3) by (simp add: bookings_inv_def held_slots_def)
  with booking_requests_steps [OF assms(1)] have inv: "bookings_inv d'"
    by (induction rule: rtranclp_induct) (auto intro: bookings_inv_step)
  then have "\<forall>p \<in> held_slots d'. \<forall>q \<in> held_slots d'. fst p \<noteq> fst q \<longrightarrow> \<not> slots_clash (snd p) (snd q)"
    by (simp add: bookings_inv_def)
  then have "\<forall>a \<in> set (cd_bookings d'). \<forall>b \<in> set (cd_bookings d').
       bk_id a \<noteq> bk_id b \<and> active_status (bk_status a) \<and> active_status (bk_status b) \<and>
       bk_classroom a = bk_classroom b \<and> bk_date a = bk_date b \<longrightarrow>
       \<not> overlaps (bk_start a) (bk_end a) (bk_start b) (bk_end b)"
    using held_slots_disjoint by blast
  with inv show ?thesis by blast
qed

definition demo_booking_input :: "int \<Rightarrow> int \<Rightarrow> booking_input" where
  "demo_booking_input a b = \<lparr>bi_classroom = 1, bi_date = ''2024-03-18'', bi_start = a, bi_end = b, bi_purpose = ''club''\<rparr>"

definition demo_booked :: campus_db where
  "demo_booked = snd (insert_booking 0 19800 (demo_booking_input 1 2) 5 demo_campus)"

lemma demo_fits: "pg_text 255 ''club''" "fits32 1" "fits32 2"
  by code_simp+

lemma demo_booked_insert:
  "insert_booking 0 19800 (demo_booking_input 1 2) 5 demo_campus = (Some 1, demo_booked)"
  by (simp add: demo_booked_def insert_booking_def demo_booking_input_def demo_fits demo_campus_def campus_empty_def)

lemma demo_booked_step: "bk_step demo_campus demo_booked"
  by (rule bk_step.create [OF _ demo_booked_insert])
    (simp add: slot_free_def session_in_slot_def booking_in_slot_def demo_booking_input_def demo_campus_def
      campus_empty_def overlaps_def)

lemma demo_campus_bookings: "cd_bookings demo_campus = []" "0 < cd_next_booking demo_campus"
  by (simp_all add: demo_campus_def campus_empty_def)

lemma no_double_booking_witness: "bookings_inv demo_booked"
  using no_double_booking [OF r_into_rtranclp [of booking_request, OF booking_request.concurrent, OF demo_booked_step]
    demo_campus_bookings] by blast

text \<open>
  C31: the life of a booking. Under every interleaving a booking never disappears, its room, user,
  date, periods and purpose never change, rejected and cancelled bookings are frozen, an approved
  one can only be cancelled, and nothing returns to pending.
\<close>

theorem booking_life_cycle:
  assumes "booking_request\<^sup>*\<^sup>* d d'" and "b \<in> set (cd_bookings d)"
  shows "\<exists>b' \<in> set (cd_bookings d'). booking_evolves b b'"
  using booking_requests_steps [OF assms(1)]
proof (induction rule: rtranclp_induct)
  case base
  then show ?case using assms(2) booking_evolves_refl by blast
next
  case (step x y)
  then show ?case using booking_evolves_step booking_evolves_trans by meson
qed

lemma booking_life_cycle_witness:
  "\<exists>b' \<in> set (cd_bookings (snd (cancel_booking_row 1 demo_booked))). booking_evolves (last (cd_bookings demo_booked)) b'"
proof -
  have "last (cd_bookings demo_booked) \<in> set (cd_bookings demo_booked)"
    by (rule last_in_set) (simp add: demo_booked_def insert_booking_def demo_booking_input_def demo_fits demo_campus_def campus_empty_def)
  from booking_life_cycle [OF r_into_rtranclp [of booking_request, OF booking_request.concurrent, OF bk_step.cancel] this] show ?thesis .
qed

lemma booking_validation:
  "\<exists>inp' msg. validate_booking inp (healthy d) = ((inp', msg), healthy d) \<and>
    (msg = None \<longleftrightarrow>
       0 < bi_classroom inp \<and> 1 \<le> bi_start inp \<and> bi_start inp \<le> bi_end inp \<and>
       trim_space (bi_purpose inp) \<noteq> [] \<and>
       (\<exists>cr. find_classroom d (bi_classroom inp) = Some cr \<and> cl_status cr = ''available'') \<and>
       (\<exists>date r. parse_date (bi_date inp) = Some date \<and>
          active_for (map (read_regime (cd_schedule d)) (select_regimes (cd_schedule d))) date = Some r \<and>
          {bi_start inp..bi_end inp} \<subseteq> period_index_set r)) \<and>
    (msg = None \<longrightarrow> inp' = inp\<lparr>bi_purpose := trim_space (bi_purpose inp)\<rparr>)"
  using bell.scan_accepts [where rs = "map (read_regime (cd_schedule d)) (select_regimes (cd_schedule d))"
      and d = "the (parse_date (bi_date inp))" and a = "bi_start inp" and b = "bi_end inp"]
  by (auto simp: validate_booking_def get_classroom_def campus_regimes_healthy Let_def
      split: option.splits)

text \<open>
  A booking request passes the validation exactly when its fields are well formed, the room
  exists and is available, and every period of its range exists in the bell-time regime that is
  active on its date; the validation writes nothing.
\<close>

theorem validate_booking_accepts:
  "\<exists>inp' msg. validate_booking inp (healthy d) = ((inp', msg), healthy d) \<and>
    (msg = None \<longleftrightarrow>
       0 < bi_classroom inp \<and> 1 \<le> bi_start inp \<and> bi_start inp \<le> bi_end inp \<and>
       trim_space (bi_purpose inp) \<noteq> [] \<and>
       (\<exists>cr. find_classroom d (bi_classroom inp) = Some cr \<and> cl_status cr = ''available'') \<and>
       (\<exists>date r. parse_date (bi_date inp) = Some date \<and>
          active_for (map (read_regime (cd_schedule d)) (select_regimes (cd_schedule d))) date = Some r \<and>
          {bi_start inp..bi_end inp} \<subseteq> period_index_set r)) \<and>
    (msg = None \<longrightarrow> inp' = inp\<lparr>bi_purpose := trim_space (bi_purpose inp)\<rparr>)"
  by (rule booking_validation)

text \<open>
  The search condition of \<open>buildBookingWhere\<close> is well numbered for every filter, also with the
  LIMIT clause appended.
\<close>

theorem booking_where_numbered:
  "numbered (booking_where f q) \<and>
   numbered (append_limit p (fst (booking_where f q)) (snd (booking_where f q)))"
proof -
  have start: "numbered ('' WHERE 1=1'', [])" by (rule numbered_start) simp
  have w: "numbered (booking_where f q)"
    unfolding booking_where_def
    by (intro numbered_let; (rule start)?;
        (intro numbered_if numbered_let; (assumption | (simp add: Let_def; intro numbered_bind; simp add: is_digit_def)
           | (intro numbered_bind; simp add: is_digit_def))))
  then have "numbered (append_limit p (fst (booking_where f q)) (snd (booking_where f q)))"
    using well_numbered_append_limit unfolding numbered_def by (metis prod.collapse)
  with w show ?thesis by blast
qed

lemma find_map: "List.find P (map h xs) = map_option h (List.find (\<lambda>x. P (h x)) xs)"
  by (induction xs) auto

lemma view_after_update:
  assumes "find_booking d i = Some b" and "booking_view_of d b = Some v"
    and "cd_bookings d' = map h (cd_bookings d)" and "cd_classrooms d' = cd_classrooms d" and "cd_users d' = cd_users d"
    and "\<And>x. bk_id (h x) = bk_id x"
  shows "select_booking i d' = booking_view_of d (h b)"
proof -
  have "find_booking d' i = Some (h b)"
    using assms(1,3,6) by (simp add: find_booking_def find_map)
  moreover have "booking_view_of d' = booking_view_of d"
    using assms(4,5) by (intro ext) (simp add: booking_view_of_def find_classroom_def find_user_def)
  ultimately show ?thesis by (simp add: select_booking_def)
qed

lemma hit_count:
  assumes "find_booking d i = Some b" and "P b"
  shows "int (length (filter (\<lambda>b. bk_id b = i \<and> P b) (cd_bookings d))) \<noteq> 0"
proof -
  have "b \<in> set (cd_bookings d) \<and> bk_id b = i"
    using assms(1) by (auto simp: find_booking_def find_Some_iff)
  with assms(2) have "filter (\<lambda>b. bk_id b = i \<and> P b) (cd_bookings d) \<noteq> []" by (auto simp: filter_empty_conv)
  then show ?thesis by simp
qed

lemma conflicts_healthy:
  assumes "pg_date date = Some day"
  shows "conflicts pg_date room date ps pe ex (healthy d) =
    (Inr (session_in_slot d room day ps pe \<or> booking_conflict room day ps pe ex d), healthy d)"
  using assms by (simp add: conflicts_def)

lemma conditional_update_healthy:
  "conditional_update what f (healthy d) =
     (if fst (f d) = 0 then (Inl InvalidTransition, healthy (snd (f d))) else (Inr (), healthy (snd (f d))))"
  by (simp add: conditional_update_def)

text \<open>
  Creating a booking, case by case. A validated request of an authenticated user is answered
  409 with nothing written when a session or an active booking overlaps the slot; otherwise exactly
  one pending row is added for that user.
\<close>

theorem createBooking_cases:
  assumes "validate_booking body (healthy d) = ((inp, None), healthy d)"
    and "pg_date (bi_date inp) = Some day"
    and "fits32 (bi_start inp)" and "fits32 (bi_end inp)" and "pg_text 255 (bi_purpose inp)"
  shows "createBooking_h pg_date now (Some body) (Some s) (healthy d) =
    (if \<not> slot_free d (bi_classroom inp) day (bi_start inp) (bi_end inp)
     then (RespError 409 ''classroom already booked for this date and period'', healthy d)
     else let d' = snd (insert_booking now day inp (sj_id s) d)
       in (case select_booking (cd_next_booking d) d' of
             None \<Rightarrow> RespError 500 ''could not create booking'' | Some v \<Rightarrow> RespJSON 201 v, healthy d'))"
proof -
  have "find_classroom d (bi_classroom inp) \<noteq> None"
    using assms(1) by (auto simp: validate_booking_def get_classroom_def campus_regimes_healthy Let_def split: if_splits option.splits)
  then obtain cr where cr: "find_classroom d (bi_classroom inp) = Some cr" by blast
  let ?d' = "snd (insert_booking now day inp (sj_id s) d)"
  have ins: "fst (insert_booking now day inp (sj_id s) d) = Some (cd_next_booking d)"
    using assms(3-5) by (simp add: insert_booking_def)
  have res: "reserve pg_date now inp (sj_id s) (healthy d) =
      (if slot_free d (bi_classroom inp) day (bi_start inp) (bi_end inp)
       then (Inr (cd_next_booking d), healthy ?d') else (Inl ClassroomConflict, healthy d))"
    using assms(2) ins cr
    by (simp add: reserve_def conflicts_healthy slot_free_def booking_conflict_0 dbind_def [of "conflicts _ _ _ _ _ _"])
  show ?thesis
    using assms(1) res
    by (cases "select_booking (cd_next_booking d) ?d'")
      (auto simp: createBooking_h_def create_booking_def transaction_healthy get_booking_def dbind_def [of "transaction _ _ _"] Let_def)
qed

definition demo_subject :: subject where
  "demo_subject = \<lparr>sj_id = 5, sj_type = ''user'', sj_username = ''li'', sj_display_name = ''Li'',
     sj_permissions = {''classroom:book''}, sj_roles = [], sj_groups = []\<rparr>"

text \<open>Room 1, one session in periods 3 and 4, and a regime whose periods are 1 and 2.\<close>

definition demo_scheduled :: campus_db where
  "demo_scheduled = demo_campus\<lparr>cd_schedule := demo_regimes\<lparr>sd_periods := [
     \<lparr>pd_id = 1, pd_regime_id = 2, pd_index = 1, pd_start = ''08:00:00'', pd_end = ''08:50:00''\<rparr>,
     \<lparr>pd_id = 2, pd_regime_id = 2, pd_index = 2, pd_start = ''09:00:00'', pd_end = ''09:50:00''\<rparr>]\<rparr>\<rparr>"

lemma demo_active:
  "\<exists>r. active_for (map (read_regime (cd_schedule demo_scheduled)) (select_regimes (cd_schedule demo_scheduled)))
     (days_from_civil 2024 3 18) = Some r \<and> {1..2} \<subseteq> period_index_set r"
proof -
  have "map_option (\<lambda>r. map pd_index (re_periods r))
      (active_for (map (read_regime (cd_schedule demo_scheduled)) (select_regimes (cd_schedule demo_scheduled)))
        (days_from_civil 2024 3 18)) = Some [1, 2]"
    by code_simp
  then show ?thesis by (auto simp: period_index_set_def)
qed

lemma parse_demo_day: "parse_date ''2024-03-18'' = Some (days_from_civil 2024 3 18)"
  by code_simp

lemma demo_validated:
  "validate_booking (demo_booking_input 1 2) (healthy demo_scheduled) =
     ((demo_booking_input 1 2, None), healthy demo_scheduled)"
proof -
  have p: "trim_space ''club'' = ''club''" by (simp add: trim_space_plain plain_def)
  obtain inp' msg where v: "validate_booking (demo_booking_input 1 2) (healthy demo_scheduled) = ((inp', msg), healthy demo_scheduled)"
    "msg = None \<longleftrightarrow> (\<exists>cr. find_classroom demo_scheduled 1 = Some cr \<and> cl_status cr = ''available'') \<and>
       (\<exists>date r. parse_date ''2024-03-18'' = Some date \<and>
          active_for (map (read_regime (cd_schedule demo_scheduled)) (select_regimes (cd_schedule demo_scheduled))) date = Some r \<and>
          {1..2} \<subseteq> period_index_set r)"
    "msg = None \<longrightarrow> inp' = demo_booking_input 1 2"
    using booking_validation [of "demo_booking_input 1 2" demo_scheduled] p by (auto simp: demo_booking_input_def)
  moreover have "find_classroom demo_scheduled 1 = Some demo_room" "cl_status demo_room = ''available''"
    by (simp_all add: find_classroom_def demo_scheduled_def demo_campus_def demo_room_def classroom_row_def campus_empty_def)
  ultimately show ?thesis using demo_active parse_demo_day by simp
qed

lemma validate_booking_accepts_witness:
  "\<exists>date r. parse_date ''2024-03-18'' = Some date \<and>
     active_for (map (read_regime (cd_schedule demo_scheduled)) (select_regimes (cd_schedule demo_scheduled))) date = Some r \<and>
     {1..2} \<subseteq> period_index_set r"
  using validate_booking_accepts [of "demo_booking_input 1 2" demo_scheduled]
  unfolding demo_validated by (simp add: demo_booking_input_def)

lemma createBooking_cases_witness:
  "fst (createBooking_h (\<lambda>_. Some 19800) 0 (Some (demo_booking_input 1 2)) (Some demo_subject) (healthy demo_scheduled)) \<noteq>
     RespError 409 ''classroom already booked for this date and period''"
proof -
  have free: "slot_free demo_scheduled 1 19800 1 2"
    by (simp add: slot_free_def session_in_slot_def booking_in_slot_def demo_scheduled_def demo_campus_def
        campus_empty_def overlaps_def)
  have fits: "fits32 (bi_start (demo_booking_input 1 2))" "fits32 (bi_end (demo_booking_input 1 2))"
    "pg_text 255 (bi_purpose (demo_booking_input 1 2))"
    by (simp_all add: demo_booking_input_def demo_fits)
  have day: "(\<lambda>_. Some 19800) (bi_date (demo_booking_input 1 2)) = Some 19800" by simp
  from createBooking_cases [OF demo_validated day fits, of 0 demo_subject] free
  show ?thesis by (auto simp: demo_booking_input_def Let_def split: option.splits)
qed

text \<open>
  Only the creator of a booking or a holder of booking:approve can cancel it, and only while it
  is pending or approved; a refused request writes nothing, a successful one changes just the
  status.
\<close>

theorem cancelBooking_cases:
  assumes "atoi path_id = Some i" and "select_booking i d = Some v"
  shows "cancelBooking_h path_id (Some s) (healthy d) =
    (if \<not> has_perm s ''booking:approve'' \<and> bv_user v \<noteq> sj_id s
     then (RespError 403 ''you can only cancel your own bookings'', healthy d)
     else if \<not> active_status (bv_status v)
     then (RespError 409 ''booking cannot be cancelled in its current status'', healthy d)
     else (RespJSON 200 (v\<lparr>bv_status := ''cancelled''\<rparr>), healthy (snd (cancel_booking_row i d))))"
proof -
  obtain b where b: "find_booking d i = Some b" "booking_view_of d b = Some v"
    using assms(2) by (auto simp: select_booking_def bind_eq_Some_conv)
  have st: "bv_status v = bk_status b"
    using b(2) by (auto simp: booking_view_of_def split: option.splits)
  let ?h = "\<lambda>b. if bk_id b = i \<and> active_status (bk_status b) then b\<lparr>bk_status := ''cancelled''\<rparr> else b"
  have id: "bk_id b = i" using b(1) by (auto simp: find_booking_def find_Some_iff)
  show ?thesis
  proof (cases "active_status (bv_status v)")
    case False
    then show ?thesis using assms by (auto simp: cancelBooking_h_def cancel_booking_def get_booking_def active_status_def)
  next
    case True
    have "fst (cancel_booking_row i d) \<noteq> 0"
      using hit_count [OF b(1), of "\<lambda>b. active_status (bk_status b)"] True st by (simp add: cancel_booking_row_def)
    moreover have "select_booking i (snd (cancel_booking_row i d)) = booking_view_of d (?h b)"
      by (rule view_after_update [OF b]) (auto simp: cancel_booking_row_def)
    moreover have "booking_view_of d (?h b) = Some (v\<lparr>bv_status := ''cancelled''\<rparr>)"
      using b(2) True st id by (auto simp: booking_view_of_def split: option.splits)
    ultimately show ?thesis using assms True
      by (auto simp: cancelBooking_h_def cancel_booking_def get_booking_def active_status_def
          conditional_update_healthy dbind_def [of "conditional_update _ _"])
  qed
qed

lemma demo_booked_row:
  "cd_bookings demo_booked = [\<lparr>bk_id = 1, bk_classroom = 1, bk_user = 5, bk_date = 19800, bk_start = 1, bk_end = 2,
     bk_status = ''pending'', bk_purpose = ''club'', bk_created_at = 0, bk_reviewed_at = None\<rparr>]"
  by (simp add: demo_booked_def insert_booking_def demo_booking_input_def demo_fits demo_campus_def campus_empty_def)

lemma demo_booked_view:
  "\<exists>v. select_booking 1 demo_booked = Some v \<and> bv_status v = ''pending'' \<and> bv_user v = 5"
proof -
  have "find_classroom demo_booked 1 = Some demo_room"
    by (simp add: find_classroom_def demo_booked_def insert_booking_def demo_booking_input_def demo_fits
        demo_campus_def campus_empty_def demo_room_def)
  moreover have "find_user demo_booked 5 = Some \<lparr>us_id = 5, us_username = ''li'', us_display_name = ''Li'', us_type = ''teacher''\<rparr>"
    by (simp add: find_user_def demo_booked_def insert_booking_def demo_booking_input_def demo_fits
        demo_campus_def campus_empty_def)
  ultimately show ?thesis by (simp add: select_booking_def find_booking_def demo_booked_row booking_view_of_def)
qed

lemma cancelBooking_cases_witness:
  "\<exists>v. fst (cancelBooking_h ''1'' (Some demo_subject) (healthy demo_booked)) = RespJSON 200 v \<and>
     bv_status v = ''cancelled''"
proof -
  have a: "atoi ''1'' = Some 1" by code_simp
  obtain v where v: "select_booking 1 demo_booked = Some v" "bv_status v = ''pending''" "bv_user v = 5"
    using demo_booked_view by blast
  from cancelBooking_cases [OF a v(1), of demo_subject] v(2,3) show ?thesis
    by (simp add: demo_subject_def active_status_def)
qed

text \<open>
  Approving a pending booking can only be refused because of a course session. Other bookings
  never are in the way: the pending booking has held its slot since it was created, so the check of
  active bookings in \<open>Review\<close> cannot fire.
\<close>

theorem approval_blocked_only_by_sessions:
  assumes "bookings_inv d" and "select_booking i d = Some v" and "bv_status v = ''pending''"
    and "find_booking d i = Some b" and "pg_date (format_date (bk_date b)) = Some (bk_date b)"
    and "atoi path_id = Some i" and "to_lower (trim_space raw) = ''approve''"
  shows "reviewBooking_h pg_date to_lower now path_id (Some raw) (healthy d) =
    (if session_in_slot d (bk_classroom b) (bk_date b) (bk_start b) (bk_end b)
     then (RespError 409 ''classroom is no longer free for this period'', healthy d)
     else (RespJSON 200 (v\<lparr>bv_status := ''approved'', bv_reviewed_at := Some now\<rparr>),
           healthy (snd (review_booking_row now ''approved'' i d))))"
proof -
  have bv: "booking_view_of d b = Some v" using assms(2,4) by (simp add: select_booking_def)
  then have v: "bv_classroom v = bk_classroom b" "bv_date v = format_date (bk_date b)" "bv_start v = bk_start b"
    "bv_end v = bk_end b" "bk_status b = ''pending''" 
    using assms(3) by (auto simp: booking_view_of_def split: option.splits)
  have b: "b \<in> set (cd_bookings d)" "bk_id b = i"
    using assms(4) by (auto simp: find_booking_def find_Some_iff)
  have "\<not> booking_conflict (bk_classroom b) (bk_date b) (bk_start b) (bk_end b) i d"
  proof
    assume "booking_conflict (bk_classroom b) (bk_date b) (bk_start b) (bk_end b) i d"
    then obtain x where x: "x \<in> set (cd_bookings d)" "bk_classroom x = bk_classroom b" "bk_date x = bk_date b"
      "active_status (bk_status x)" "overlaps (bk_start x) (bk_end x) (bk_start b) (bk_end b)" "i > 0 \<longrightarrow> bk_id x \<noteq> i"
      by (auto simp: booking_conflict_def list_ex_iff)
    have "0 < i" using assms(1) b by (auto simp: bookings_inv_def)
    with x(6) b(2) have "bk_id x \<noteq> bk_id b" by simp
    with held_slots_disjoint [OF _ x(1) b(1) this x(4)] x(2,3,5) v(5) assms(1)
    show False by (simp add: bookings_inv_def active_status_def)
  qed
  then have cf: "conflicts pg_date (bv_classroom v) (bv_date v) (bv_start v) (bv_end v) i (healthy d) =
      (Inr (session_in_slot d (bk_classroom b) (bk_date b) (bk_start b) (bk_end b)), healthy d)"
    using conflicts_healthy [where pg_date = pg_date and date = "format_date (bk_date b)", OF assms(5)] v by simp
  let ?h = "\<lambda>b. if bk_id b = i \<and> bk_status b = ''pending'' then b\<lparr>bk_status := ''approved'', bk_reviewed_at := Some now\<rparr> else b"
  have hit: "fst (review_booking_row now ''approved'' i d) \<noteq> 0"
    using hit_count [OF assms(4), of "\<lambda>b. bk_status b = ''pending''"] v(5) by (simp add: review_booking_row_def)
  have "select_booking i (snd (review_booking_row now ''approved'' i d)) = booking_view_of d (?h b)"
    by (rule view_after_update [OF assms(4) bv]) (auto simp: review_booking_row_def)
  also have "\<dots> = Some (v\<lparr>bv_status := ''approved'', bv_reviewed_at := Some now\<rparr>)"
    using bv b(2) v(5) by (auto simp: booking_view_of_def split: option.splits)
  finally have after: "select_booking i (snd (review_booking_row now ''approved'' i d)) =
      Some (v\<lparr>bv_status := ''approved'', bv_reviewed_at := Some now\<rparr>)" .
  show ?thesis
    using assms(2,3,6,7) cf hit after
    by (simp add: reviewBooking_h_def review_booking_def get_booking_def transaction_healthy conditional_update_healthy
        dbind_def [of "conflicts _ _ _ _ _ _"] dbind_def [of "transaction _ _ _"] Let_def)
qed

lemma approval_blocked_only_by_sessions_witness:
  "\<exists>v. fst (reviewBooking_h (\<lambda>_. Some 19800) id 9 ''1'' (Some ''approve'') (healthy demo_booked)) = RespJSON 200 v \<and>
     bv_status v = ''approved''"
proof -
  have a: "atoi ''1'' = Some 1" by code_simp
  have inv: "bookings_inv demo_booked"
    by (rule bookings_inv_step [OF demo_booked_step])
      (simp add: bookings_inv_def held_slots_def demo_campus_bookings)
  obtain v where v: "select_booking 1 demo_booked = Some v" "bv_status v = ''pending''"
    using demo_booked_view by blast
  have f: "find_booking demo_booked 1 = Some (hd (cd_bookings demo_booked))"
    by (simp add: find_booking_def demo_booked_row)
  have t: "id (trim_space ''approve'') = ''approve''" by (simp add: trim_space_plain plain_def)
  have s: "\<not> session_in_slot demo_booked 1 19800 1 2"
    by (simp add: session_in_slot_def demo_booked_def insert_booking_def demo_booking_input_def demo_fits demo_campus_def
        campus_empty_def overlaps_def)
  have d: "(\<lambda>_. Some 19800) (format_date (bk_date (hd (cd_bookings demo_booked)))) = Some (bk_date (hd (cd_bookings demo_booked)))"
    by (simp add: demo_booked_row)
  from approval_blocked_only_by_sessions [where pg_date = "\<lambda>_. Some 19800" and to_lower = id, OF inv v f d a t] s
  show ?thesis by (auto simp: demo_booked_row)
qed

end
