(* ===== verification/Course.thy ===== *)
theory Course
  imports Org Booking
begin

text \<open>
  The course catalog and the offerings (\<open>internal/course/model.go\<close>, \<open>store.go\<close> and their handlers in
  \<open>handler.go\<close>). An offering refers to a catalog course and a teaching class by id; its writes hold the
  row lock of the teaching class, which serializes them with the edits of that class. A credits
  value travels as the decimal text of the float, and \<open>pg_numeric\<close> is the reading of that text by
  the NUMERIC(4,1) column (tenths; \<open>None\<close> is a numeric overflow). ORDER BY ties keep the table order.
\<close>

subsection \<open>Data\<close>

record catalog_input =
  cai_name :: string
  cai_code :: string
  cai_credits :: string
  cai_total_hours :: int
  cai_category :: string
  cai_exam_type :: string
  cai_description :: string

record offering_input =
  oi_catalog :: int
  oi_class :: int
  oi_teacher :: string
  oi_course_seq :: string
  oi_teacher_id :: string
  oi_teacher_title :: string
  oi_college :: string
  oi_max_students :: int
  oi_requirement :: string
  oi_weekly_hours :: int
  oi_semester :: string
  oi_note :: string

record offering_view =
  ov_row :: offering
  ov_catalog_name :: string
  ov_catalog_code :: string
  ov_class_name :: string
  ov_class_names :: "string list"

datatype course_error =
  CatalogNotFound | OfferingNotFound | SessionNotFound | CodeTaken | OfferingTaken
| CourseClassNotFound | CourseInUse | RoomConflict | CourseDb string

type_synonym 'a course_action = "(campus_db, course_error, 'a) action"

subsection \<open>Statements\<close>

definition catalog_texts :: "catalog_input \<Rightarrow> (string \<times> nat) list" where
  "catalog_texts inp = [(cai_name inp, 128), (cai_code inp, 64), (cai_category inp, 32), (cai_exam_type inp, 16),
     (cai_description inp, 255)]"

definition offering_texts :: "offering_input \<Rightarrow> (string \<times> nat) list" where
  "offering_texts inp = [(oi_teacher inp, 64), (oi_course_seq inp, 32), (oi_teacher_id inp, 64),
     (oi_teacher_title inp, 32), (oi_college inp, 64), (oi_requirement inp, 16), (oi_semester inp, 32), (oi_note inp, 255)]"

definition texts_fit :: "(string \<times> nat) list \<Rightarrow> bool" where
  "texts_fit ts \<longleftrightarrow> list_all (\<lambda>(s, n). pg_text n s) ts"

definition set_catalog :: "catalog_input \<Rightarrow> int \<Rightarrow> catalog_course \<Rightarrow> catalog_course" where
  "set_catalog inp credits c = c\<lparr>ca_name := cai_name inp, ca_code := cai_code inp, ca_credits := credits,
     ca_total_hours := cai_total_hours inp, ca_category := cai_category inp, ca_exam_type := cai_exam_type inp,
     ca_description := cai_description inp\<rparr>"

definition set_offering :: "offering_input \<Rightarrow> offering \<Rightarrow> offering" where
  "set_offering inp f = f\<lparr>of_catalog := oi_catalog inp, of_teaching_class := oi_class inp, of_teacher := oi_teacher inp,
     of_course_seq := oi_course_seq inp, of_teacher_id := oi_teacher_id inp, of_teacher_title := oi_teacher_title inp,
     of_college := oi_college inp, of_max_students := oi_max_students inp, of_requirement := oi_requirement inp,
     of_weekly_hours := oi_weekly_hours inp, of_semester := oi_semester inp, of_note := oi_note inp\<rparr>"

definition blank_catalog :: "int \<Rightarrow> int \<Rightarrow> catalog_course" where
  "blank_catalog i now = \<lparr>ca_id = i, ca_name = [], ca_code = [], ca_credits = 0, ca_total_hours = 0,
     ca_category = [], ca_exam_type = [], ca_description = [], ca_created_at = now\<rparr>"

definition blank_offering :: "int \<Rightarrow> int \<Rightarrow> offering" where
  "blank_offering i now = \<lparr>of_id = i, of_catalog = 0, of_teaching_class = 0, of_teacher = [], of_course_seq = [],
     of_teacher_id = [], of_teacher_title = [], of_college = [], of_max_students = 0, of_requirement = [],
     of_weekly_hours = 0, of_semester = [], of_note = [], of_created_at = now\<rparr>"

definition insert_catalog ::
  "(string \<Rightarrow> int option) \<Rightarrow> int \<Rightarrow> catalog_input \<Rightarrow> campus_db \<Rightarrow> int written \<times> campus_db" where
  "insert_catalog pg_numeric now inp d =
     (case pg_numeric (cai_credits inp) of None \<Rightarrow> (Rejected, d)
      | Some cr \<Rightarrow>
        if \<not> texts_fit (catalog_texts inp) \<or> \<not> fits32 (cai_total_hours inp) then (Rejected, d)
        else if list_ex (\<lambda>c. ca_code c = cai_code inp) (cd_catalog d) then (Duplicate, d)
        else (Done (cd_next_catalog d),
          d\<lparr>cd_catalog := cd_catalog d @ [set_catalog inp cr (blank_catalog (cd_next_catalog d) now)],
            cd_next_catalog := cd_next_catalog d + 1\<rparr>))"

text \<open>
  An UPDATE checks a NUL byte and the integer range when the parameters are bound, the widths and
  the unique key only when a row matches.
\<close>

definition update_catalog_row ::
  "(string \<Rightarrow> int option) \<Rightarrow> int \<Rightarrow> catalog_input \<Rightarrow> campus_db \<Rightarrow> unit written \<times> campus_db" where
  "update_catalog_row pg_numeric i inp d =
     (if \<not> nul_free (map fst (catalog_texts inp)) \<or> \<not> fits32 (cai_total_hours inp) then (Rejected, d)
      else if find_catalog d i = None then (Done (), d)
      else (case pg_numeric (cai_credits inp) of None \<Rightarrow> (Rejected, d)
        | Some cr \<Rightarrow>
          if \<not> texts_fit (catalog_texts inp) then (Rejected, d)
          else if list_ex (\<lambda>c. ca_id c \<noteq> i \<and> ca_code c = cai_code inp) (cd_catalog d) then (Duplicate, d)
          else (Done (), d\<lparr>cd_catalog := map (\<lambda>c. if ca_id c = i then set_catalog inp cr c else c) (cd_catalog d)\<rparr>)))"

definition offerings_of_catalog :: "int \<Rightarrow> campus_db \<Rightarrow> int" where
  "offerings_of_catalog i d = int (length (filter (\<lambda>f. of_catalog f = i) (cd_offerings d)))"

definition delete_catalog_row :: "int \<Rightarrow> campus_db \<Rightarrow> int \<times> campus_db" where
  "delete_catalog_row i d =
     (int (length (filter (\<lambda>c. ca_id c = i) (cd_catalog d))),
      d\<lparr>cd_catalog := filter (\<lambda>c. ca_id c \<noteq> i) (cd_catalog d)\<rparr>)"

definition same_offering :: "offering_input \<Rightarrow> offering \<Rightarrow> bool" where
  "same_offering inp f \<longleftrightarrow> of_catalog f = oi_catalog inp \<and> of_teaching_class f = oi_class inp \<and>
     of_semester f = oi_semester inp"

definition offering_ints_fit :: "offering_input \<Rightarrow> bool" where
  "offering_ints_fit inp \<longleftrightarrow> fits32 (oi_max_students inp) \<and> fits32 (oi_weekly_hours inp)"

definition insert_offering :: "int \<Rightarrow> offering_input \<Rightarrow> campus_db \<Rightarrow> int written \<times> campus_db" where
  "insert_offering now inp d =
     (if \<not> texts_fit (offering_texts inp) \<or> \<not> offering_ints_fit inp then (Rejected, d)
      else if list_ex (same_offering inp) (cd_offerings d) then (Duplicate, d)
      else (Done (cd_next_offering d),
        d\<lparr>cd_offerings := cd_offerings d @ [set_offering inp (blank_offering (cd_next_offering d) now)],
          cd_next_offering := cd_next_offering d + 1\<rparr>))"

definition update_offering_row :: "int \<Rightarrow> offering_input \<Rightarrow> campus_db \<Rightarrow> unit written \<times> campus_db" where
  "update_offering_row i inp d =
     (if \<not> nul_free (map fst (offering_texts inp)) \<or> \<not> offering_ints_fit inp then (Rejected, d)
      else if find_offering d i = None then (Done (), d)
      else if \<not> texts_fit (offering_texts inp) then (Rejected, d)
      else if list_ex (\<lambda>f. of_id f \<noteq> i \<and> same_offering inp f) (cd_offerings d) then (Duplicate, d)
      else (Done (), d\<lparr>cd_offerings := map (\<lambda>f. if of_id f = i then set_offering inp f else f) (cd_offerings d)\<rparr>))"

definition sessions_of_offering :: "int \<Rightarrow> campus_db \<Rightarrow> int" where
  "sessions_of_offering i d = int (length (filter (\<lambda>s. ss_offering s = i) (cd_sessions d)))"

definition delete_offering_row :: "int \<Rightarrow> campus_db \<Rightarrow> int \<times> campus_db" where
  "delete_offering_row i d =
     (int (length (filter (\<lambda>f. of_id f = i) (cd_offerings d))),
      d\<lparr>cd_offerings := filter (\<lambda>f. of_id f \<noteq> i) (cd_offerings d)\<rparr>)"

definition catalog_matches :: "(char \<Rightarrow> char \<Rightarrow> bool) \<Rightarrow> string \<Rightarrow> catalog_course \<Rightarrow> bool" where
  "catalog_matches eq q c \<longleftrightarrow> q = [] \<or> contains eq q (ca_name c) \<or> contains eq q (ca_code c)"

text \<open>One row of the join of offering, catalog course and teaching class, without the class names.\<close>

definition offering_join :: "campus_db \<Rightarrow> offering \<Rightarrow> offering_view option" where
  "offering_join d f =
     (case (find_catalog d (of_catalog f), find_teaching_class d (of_teaching_class f)) of
        (Some c, Some t) \<Rightarrow> Some \<lparr>ov_row = f, ov_catalog_name = ca_name c, ov_catalog_code = ca_code c,
           ov_class_name = tr_name t, ov_class_names = []\<rparr>
      | _ \<Rightarrow> None)"

definition offering_matches :: "(char \<Rightarrow> char \<Rightarrow> bool) \<Rightarrow> string \<Rightarrow> offering_view \<Rightarrow> bool" where
  "offering_matches eq q v \<longleftrightarrow> q = [] \<or> contains eq q (ov_catalog_name v) \<or> contains eq q (ov_catalog_code v) \<or>
     contains eq q (ov_class_name v) \<or> contains eq q (of_teacher (ov_row v)) \<or> contains eq q (of_semester (ov_row v))"

text \<open>\<open>ORDER BY o.semester DESC, tc.name, c.name\<close>.\<close>

definition joined_offerings :: "(string \<Rightarrow> 'k::linorder) \<Rightarrow> campus_db \<Rightarrow> offering_view list" where
  "joined_offerings ck d = sort_desc (\<lambda>v. ck (of_semester (ov_row v)))
     (sort_key (\<lambda>v. (ck (ov_class_name v), ck (ov_catalog_name v)))
       (List.map_filter (offering_join d) (cd_offerings d)))"

subsection \<open>Store: catalog\<close>

definition list_catalog :: "catalog_course list course_action" where
  "list_catalog = query (CourseDb ''list catalog'') (\<lambda>d. sort_key ca_id (cd_catalog d))"

definition page_catalog ::
  "(char \<Rightarrow> char \<Rightarrow> bool) \<Rightarrow> string \<Rightarrow> pagination \<Rightarrow> (catalog_course list \<times> int) course_action" where
  "page_catalog eq q p =
     dbind (query_row (CourseDb ''page catalog'') (CourseDb ''page catalog'')
        (\<lambda>d. limit_rows p (filter (catalog_matches eq q) (sort_key ca_id (cd_catalog d))))) (\<lambda>cs.
     dbind (query (CourseDb ''count rows'') (\<lambda>d. int (length (filter (catalog_matches eq q) (cd_catalog d))))) (\<lambda>n.
     dret (cs, n)))"

definition get_catalog :: "int \<Rightarrow> catalog_course course_action" where
  "get_catalog i = query_row (CourseDb ''get catalog'') CatalogNotFound (\<lambda>d. find_catalog d i)"

definition create_catalog ::
  "(string \<Rightarrow> int option) \<Rightarrow> int \<Rightarrow> catalog_input \<Rightarrow> catalog_course course_action" where
  "create_catalog pg_numeric now inp =
     dbind (stmt (CourseDb ''create catalog'') (insert_catalog pg_numeric now inp)) (\<lambda>w.
     case w of Duplicate \<Rightarrow> draise CodeTaken
     | Rejected \<Rightarrow> draise (CourseDb ''create catalog'')
     | Done i \<Rightarrow> get_catalog i)"

definition update_catalog ::
  "(string \<Rightarrow> int option) \<Rightarrow> int \<Rightarrow> catalog_input \<Rightarrow> catalog_course course_action" where
  "update_catalog pg_numeric i inp =
     dbind (stmt (CourseDb ''update catalog'') (update_catalog_row pg_numeric i inp)) (\<lambda>w.
     case w of Duplicate \<Rightarrow> draise CodeTaken
     | Rejected \<Rightarrow> draise (CourseDb ''update catalog'')
     | Done _ \<Rightarrow> get_catalog i)"

definition delete_catalog :: "int \<Rightarrow> unit course_action" where
  "delete_catalog i =
     dbind (query (CourseDb ''count offerings'') (offerings_of_catalog i)) (\<lambda>n.
     if n > 0 then draise CourseInUse
     else dbind (stmt (CourseDb ''delete catalog'') (delete_catalog_row i)) (\<lambda>m.
       if m = 0 then draise CatalogNotFound else dret ()))"

subsection \<open>Store: offerings\<close>

text \<open>One query for all teaching classes of the page, none for an empty page.\<close>

definition class_names_by_class ::
  "(string \<Rightarrow> 'k::linorder) \<Rightarrow> int list \<Rightarrow> (int \<Rightarrow> string list) course_action" where
  "class_names_by_class ck ids =
     (if ids = [] then dret (\<lambda>_. [])
      else query (CourseDb ''query teaching class member names'')
        (\<lambda>d t. if t \<in> set ids then map ac_name (class_members ck d t) else []))"

definition attach_class_names ::
  "(string \<Rightarrow> 'k::linorder) \<Rightarrow> offering_view list \<Rightarrow> offering_view list course_action" where
  "attach_class_names ck vs =
     dbind (class_names_by_class ck (map (\<lambda>v. of_teaching_class (ov_row v)) vs)) (\<lambda>names.
     dret (map (\<lambda>v. v\<lparr>ov_class_names := names (of_teaching_class (ov_row v))\<rparr>) vs))"

definition list_offerings :: "(string \<Rightarrow> 'k::linorder) \<Rightarrow> offering_view list course_action" where
  "list_offerings ck = dbind (query (CourseDb ''list offerings'') (joined_offerings ck)) (attach_class_names ck)"

definition page_offerings ::
  "(string \<Rightarrow> 'k::linorder) \<Rightarrow> (char \<Rightarrow> char \<Rightarrow> bool) \<Rightarrow> string \<Rightarrow> pagination \<Rightarrow> (offering_view list \<times> int) course_action" where
  "page_offerings ck eq q p =
     dbind (query_row (CourseDb ''page offerings'') (CourseDb ''page offerings'')
        (\<lambda>d. limit_rows p (filter (offering_matches eq q) (joined_offerings ck d)))) (\<lambda>rows.
     dbind (attach_class_names ck rows) (\<lambda>vs.
     dbind (query (CourseDb ''count rows'') (\<lambda>d. int (length (filter (offering_matches eq q)
        (List.map_filter (offering_join d) (cd_offerings d)))))) (\<lambda>n.
     dret (vs, n))))"

definition get_offering :: "(string \<Rightarrow> 'k::linorder) \<Rightarrow> int \<Rightarrow> offering_view course_action" where
  "get_offering ck i =
     dbind (query_row (CourseDb ''get offering'') OfferingNotFound
        (\<lambda>d. Option.bind (find_offering d i) (offering_join d))) (\<lambda>v.
     dbind (class_names_by_class ck [of_teaching_class (ov_row v)]) (\<lambda>names.
     dret (v\<lparr>ov_class_names := names (of_teaching_class (ov_row v))\<rparr>)))"

definition lock_teaching_class :: "int \<Rightarrow> unit course_action" where
  "lock_teaching_class i = query_row (CourseDb ''lock teaching class'') CourseClassNotFound
     (\<lambda>d. map_option (\<lambda>_. ()) (find_teaching_class d i))"

definition create_offering_tx :: "int \<Rightarrow> offering_input \<Rightarrow> int course_action" where
  "create_offering_tx now inp =
     dbind (lock_teaching_class (oi_class inp)) (\<lambda>_.
     dbind (stmt (CourseDb ''create offering'') (insert_offering now inp)) (\<lambda>w.
     case w of Duplicate \<Rightarrow> draise OfferingTaken
     | Rejected \<Rightarrow> draise (CourseDb ''create offering'')
     | Done i \<Rightarrow> dret i))"

definition create_offering ::
  "(string \<Rightarrow> 'k::linorder) \<Rightarrow> int \<Rightarrow> offering_input \<Rightarrow> offering_view course_action" where
  "create_offering ck now inp =
     dbind (transaction (CourseDb ''begin tx'') (CourseDb ''commit offering'') (create_offering_tx now inp)) (get_offering ck)"

definition update_offering_tx :: "int \<Rightarrow> offering_input \<Rightarrow> unit course_action" where
  "update_offering_tx i inp =
     dbind (lock_teaching_class (oi_class inp)) (\<lambda>_.
     dbind (stmt (CourseDb ''update offering'') (update_offering_row i inp)) (\<lambda>w.
     case w of Duplicate \<Rightarrow> draise OfferingTaken
     | Rejected \<Rightarrow> draise (CourseDb ''update offering'')
     | Done _ \<Rightarrow> dret ()))"

definition update_offering ::
  "(string \<Rightarrow> 'k::linorder) \<Rightarrow> int \<Rightarrow> offering_input \<Rightarrow> offering_view course_action" where
  "update_offering ck i inp =
     dbind (transaction (CourseDb ''begin tx'') (CourseDb ''commit offering'') (update_offering_tx i inp))
       (\<lambda>_. get_offering ck i)"

definition delete_offering :: "int \<Rightarrow> unit course_action" where
  "delete_offering i =
     dbind (query (CourseDb ''count sessions'') (sessions_of_offering i)) (\<lambda>n.
     if n > 0 then draise CourseInUse
     else dbind (stmt (CourseDb ''delete offering'') (delete_offering_row i)) (\<lambda>m.
       if m = 0 then draise OfferingNotFound else dret ()))"

subsection \<open>Validation\<close>

definition normalize_catalog :: "catalog_input \<Rightarrow> catalog_input \<times> string option" where
  "normalize_catalog inp =
     (let inp = inp\<lparr>cai_name := trim_space (cai_name inp), cai_code := trim_space (cai_code inp),
          cai_category := trim_space (cai_category inp), cai_exam_type := trim_space (cai_exam_type inp),
          cai_description := trim_space (cai_description inp)\<rparr>
      in if cai_name inp = [] then (inp, Some ''name is required'')
         else if cai_code inp = [] then (inp, Some ''code is required'')
         else (inp, first_too_long [(''name'', cai_name inp, 128), (''code'', cai_code inp, 64),
            (''category'', cai_category inp, 32), (''examType'', cai_exam_type inp, 16),
            (''description'', cai_description inp, 255)]))"

definition normalize_offering :: "offering_input \<Rightarrow> offering_input \<times> string option" where
  "normalize_offering inp =
     (let inp = inp\<lparr>oi_teacher := trim_space (oi_teacher inp), oi_course_seq := trim_space (oi_course_seq inp),
          oi_teacher_id := trim_space (oi_teacher_id inp), oi_teacher_title := trim_space (oi_teacher_title inp),
          oi_college := trim_space (oi_college inp), oi_requirement := trim_space (oi_requirement inp),
          oi_semester := trim_space (oi_semester inp), oi_note := trim_space (oi_note inp)\<rparr>
      in if oi_catalog inp \<le> 0 then (inp, Some ''catalogId is required'')
         else if oi_class inp \<le> 0 then (inp, Some ''teachingClassId is required'')
         else if oi_teacher inp = [] then (inp, Some ''teacher is required'')
         else if oi_semester inp = [] then (inp, Some ''semester is required'')
         else (inp, first_too_long [(''teacher'', oi_teacher inp, 64), (''courseSeq'', oi_course_seq inp, 32),
            (''teacherId'', oi_teacher_id inp, 64), (''teacherTitle'', oi_teacher_title inp, 32),
            (''college'', oi_college inp, 64), (''requirement'', oi_requirement inp, 16),
            (''semester'', oi_semester inp, 32), (''note'', oi_note inp, 255)]))"

subsection \<open>Handlers\<close>

definition listCatalog_h ::
  "(char \<Rightarrow> char \<Rightarrow> bool) \<Rightarrow> (string \<Rightarrow> string) \<Rightarrow> campus_db conn \<Rightarrow>
   (catalog_course list \<times> int \<times> page_params) response \<times> campus_db conn" where
  "listCatalog_h eq q c =
     (let p = parse_page_params q
      in case page_catalog eq (parse_search q) (page_of p) c of
           (Inl _, c') \<Rightarrow> (RespError 500 ''could not list courses'', c')
         | (Inr (cs, n), c') \<Rightarrow> (RespJSON 200 (cs, n, p), c'))"

definition exportCatalog_rows ::
  "catalog_course list \<Rightarrow> (string \<times> string \<times> int \<times> int \<times> string \<times> string \<times> string) list" where
  "exportCatalog_rows = map (\<lambda>c. (ca_name c, ca_code c, ca_credits c, ca_total_hours c, ca_category c,
     ca_exam_type c, ca_description c))"

definition createCatalog_h ::
  "(string \<Rightarrow> int option) \<Rightarrow> int \<Rightarrow> catalog_input option \<Rightarrow> campus_db conn \<Rightarrow> catalog_course response \<times> campus_db conn" where
  "createCatalog_h pg_numeric now body c = (case body of
     None \<Rightarrow> (RespError 400 ''invalid request body'', c)
   | Some inp \<Rightarrow> (case normalize_catalog inp of
       (_, Some msg) \<Rightarrow> (RespError 400 msg, c)
     | (inp, None) \<Rightarrow> (case create_catalog pg_numeric now inp c of
         (Inl CodeTaken, c') \<Rightarrow> (RespError 409 ''course code already taken'', c')
       | (Inl _, c') \<Rightarrow> (RespError 500 ''could not create course'', c')
       | (Inr r, c') \<Rightarrow> (RespJSON 201 r, c'))))"

definition getCatalog_h :: "string \<Rightarrow> campus_db conn \<Rightarrow> catalog_course response \<times> campus_db conn" where
  "getCatalog_h path_id c = (case atoi path_id of
     None \<Rightarrow> (RespError 400 ''invalid course id'', c)
   | Some i \<Rightarrow> (case get_catalog i c of
       (Inl CatalogNotFound, c') \<Rightarrow> (RespError 404 ''course not found'', c')
     | (Inl _, c') \<Rightarrow> (RespError 500 ''could not load course'', c')
     | (Inr r, c') \<Rightarrow> (RespJSON 200 r, c')))"

definition updateCatalog_h ::
  "(string \<Rightarrow> int option) \<Rightarrow> string \<Rightarrow> catalog_input option \<Rightarrow> campus_db conn \<Rightarrow> catalog_course response \<times> campus_db conn" where
  "updateCatalog_h pg_numeric path_id body c = (case atoi path_id of
     None \<Rightarrow> (RespError 400 ''invalid course id'', c)
   | Some i \<Rightarrow> (case body of
       None \<Rightarrow> (RespError 400 ''invalid request body'', c)
     | Some inp \<Rightarrow> (case normalize_catalog inp of
         (_, Some msg) \<Rightarrow> (RespError 400 msg, c)
       | (inp, None) \<Rightarrow> (case update_catalog pg_numeric i inp c of
           (Inl CodeTaken, c') \<Rightarrow> (RespError 409 ''course code already taken'', c')
         | (Inl CatalogNotFound, c') \<Rightarrow> (RespError 404 ''course not found'', c')
         | (Inl _, c') \<Rightarrow> (RespError 500 ''could not update course'', c')
         | (Inr r, c') \<Rightarrow> (RespJSON 200 r, c')))))"

definition deleteCatalog_h :: "string \<Rightarrow> campus_db conn \<Rightarrow> unit response \<times> campus_db conn" where
  "deleteCatalog_h path_id c = (case atoi path_id of
     None \<Rightarrow> (RespError 400 ''invalid course id'', c)
   | Some i \<Rightarrow> (case delete_catalog i c of
       (Inl CourseInUse, c') \<Rightarrow> (RespError 409 ''course is referenced by offerings and cannot be deleted'', c')
     | (Inl CatalogNotFound, c') \<Rightarrow> (RespError 404 ''course not found'', c')
     | (Inl _, c') \<Rightarrow> (RespError 500 ''could not delete course'', c')
     | (Inr _, c') \<Rightarrow> (RespJSON 204 (), c')))"

definition listOfferings_h ::
  "(string \<Rightarrow> 'k::linorder) \<Rightarrow> (char \<Rightarrow> char \<Rightarrow> bool) \<Rightarrow> (string \<Rightarrow> string) \<Rightarrow> campus_db conn \<Rightarrow>
   (offering_view list \<times> int \<times> page_params) response \<times> campus_db conn" where
  "listOfferings_h ck eq q c =
     (let p = parse_page_params q
      in case page_offerings ck eq (parse_search q) (page_of p) c of
           (Inl _, c') \<Rightarrow> (RespError 500 ''could not list offerings'', c')
         | (Inr (vs, n), c') \<Rightarrow> (RespJSON 200 (vs, n, p), c'))"

text \<open>Course, code, teaching class, semester, teacher, then the section columns of the row and the note.\<close>

definition exportOfferings_rows :: "offering_view list \<Rightarrow> (string \<times> string \<times> string \<times> offering) list" where
  "exportOfferings_rows = map (\<lambda>v. (ov_catalog_name v, ov_catalog_code v, ov_class_name v, ov_row v))"

definition createOffering_h ::
  "(string \<Rightarrow> 'k::linorder) \<Rightarrow> int \<Rightarrow> offering_input option \<Rightarrow> campus_db conn \<Rightarrow> offering_view response \<times> campus_db conn" where
  "createOffering_h ck now body c = (case body of
     None \<Rightarrow> (RespError 400 ''invalid request body'', c)
   | Some inp \<Rightarrow> (case normalize_offering inp of
       (_, Some msg) \<Rightarrow> (RespError 400 msg, c)
     | (inp, None) \<Rightarrow> (case create_offering ck now inp c of
         (Inl OfferingTaken, c') \<Rightarrow> (RespError 409 ''this course offering already exists'', c')
       | (Inl _, c') \<Rightarrow> (RespError 500 ''could not create offering'', c')
       | (Inr v, c') \<Rightarrow> (RespJSON 201 v, c'))))"

definition getOffering_h ::
  "(string \<Rightarrow> 'k::linorder) \<Rightarrow> string \<Rightarrow> campus_db conn \<Rightarrow> offering_view response \<times> campus_db conn" where
  "getOffering_h ck path_id c = (case atoi path_id of
     None \<Rightarrow> (RespError 400 ''invalid offering id'', c)
   | Some i \<Rightarrow> (case get_offering ck i c of
       (Inl OfferingNotFound, c') \<Rightarrow> (RespError 404 ''offering not found'', c')
     | (Inl _, c') \<Rightarrow> (RespError 500 ''could not load offering'', c')
     | (Inr v, c') \<Rightarrow> (RespJSON 200 v, c')))"

definition updateOffering_h ::
  "(string \<Rightarrow> 'k::linorder) \<Rightarrow> string \<Rightarrow> offering_input option \<Rightarrow> campus_db conn \<Rightarrow> offering_view response \<times> campus_db conn" where
  "updateOffering_h ck path_id body c = (case atoi path_id of
     None \<Rightarrow> (RespError 400 ''invalid offering id'', c)
   | Some i \<Rightarrow> (case body of
       None \<Rightarrow> (RespError 400 ''invalid request body'', c)
     | Some inp \<Rightarrow> (case normalize_offering inp of
         (_, Some msg) \<Rightarrow> (RespError 400 msg, c)
       | (inp, None) \<Rightarrow> (case update_offering ck i inp c of
           (Inl OfferingTaken, c') \<Rightarrow> (RespError 409 ''this course offering already exists'', c')
         | (Inl OfferingNotFound, c') \<Rightarrow> (RespError 404 ''offering not found'', c')
         | (Inl _, c') \<Rightarrow> (RespError 500 ''could not update offering'', c')
         | (Inr v, c') \<Rightarrow> (RespJSON 200 v, c')))))"

definition deleteOffering_h :: "string \<Rightarrow> campus_db conn \<Rightarrow> unit response \<times> campus_db conn" where
  "deleteOffering_h path_id c = (case atoi path_id of
     None \<Rightarrow> (RespError 400 ''invalid offering id'', c)
   | Some i \<Rightarrow> (case delete_offering i c of
       (Inl CourseInUse, c') \<Rightarrow> (RespError 409 ''offering has sessions and cannot be deleted'', c')
     | (Inl OfferingNotFound, c') \<Rightarrow> (RespError 404 ''offering not found'', c')
     | (Inl _, c') \<Rightarrow> (RespError 500 ''could not delete offering'', c')
     | (Inr _, c') \<Rightarrow> (RespJSON 204 (), c')))"

definition course_routes :: "(string \<times> string) list" where
  "course_routes = [
     (''GET /api/courses'', ''course:read''),
     (''POST /api/courses'', ''course:manage''),
     (''GET /api/courses/export'', ''course:read''),
     (''GET /api/courses/{id}'', ''course:read''),
     (''PUT /api/courses/{id}'', ''course:manage''),
     (''DELETE /api/courses/{id}'', ''course:manage''),
     (''GET /api/offerings'', ''course:read''),
     (''POST /api/offerings'', ''course:manage''),
     (''GET /api/offerings/export'', ''course:read''),
     (''GET /api/offerings/{id}'', ''course:read''),
     (''PUT /api/offerings/{id}'', ''course:manage''),
     (''DELETE /api/offerings/{id}'', ''course:manage''),
     (''GET /api/sessions'', ''course:read''),
     (''POST /api/sessions'', ''course:manage''),
     (''GET /api/sessions/export'', ''course:read''),
     (''GET /api/sessions/{id}'', ''course:read''),
     (''PUT /api/sessions/{id}'', ''course:manage''),
     (''DELETE /api/sessions/{id}'', ''course:manage''),
     (''GET /api/timetable'', ''course:read''),
     (''GET /api/timetable/export'', ''course:read'')]"

subsection \<open>Atomic steps\<close>

text \<open>
  The offering writes are transactions that insert or update under the row lock of their teaching
  class; the other writes are single statements. A create or an update runs with an input that the
  validation of its handler let through. The counts that guard the deletions are separate
  statements, so the steps do not repeat them.
\<close>

inductive course_write :: "campus_db \<Rightarrow> campus_db \<Rightarrow> bool" where
  insert_catalog: "normalize_catalog craw = (cinp, None) \<Longrightarrow> course_write d (snd (insert_catalog pg_numeric now cinp d))"
| update_catalog: "normalize_catalog craw = (cinp, None) \<Longrightarrow> course_write d (snd (update_catalog_row pg_numeric i cinp d))"
| create_offering: "normalize_offering raw = (inp, None) \<Longrightarrow>
    create_offering_tx now inp (healthy d) = (Inr i, healthy d') \<Longrightarrow> course_write d d'"
| update_offering: "normalize_offering raw = (inp, None) \<Longrightarrow>
    update_offering_tx i inp (healthy d) = (Inr (), healthy d') \<Longrightarrow> course_write d d'"

inductive course_step :: "campus_db \<Rightarrow> campus_db \<Rightarrow> bool" where
  a_write: "course_write d d' \<Longrightarrow> course_step d d'"
| delete_catalog: "course_step d (snd (delete_catalog_row i d))"
| delete_offering: "course_step d (snd (delete_offering_row i d))"

lemma dbind_lock_teaching_class:
  "dbind (lock_teaching_class i) f (healthy d) =
     (if find_teaching_class d i = None then (Inl CourseClassNotFound, healthy d) else f () (healthy d))"
  by (cases "find_teaching_class d i") (simp_all add: dbind_def lock_teaching_class_def)

lemma create_offering_tx_step:
  assumes "create_offering_tx now inp (healthy d) = (Inr i, healthy d')"
  shows "find_teaching_class d (oi_class inp) \<noteq> None \<and> insert_offering now inp d = (Done i, d')"
proof -
  obtain w d1 where w: "insert_offering now inp d = (w, d1)" by fastforce
  show ?thesis
    using assms w by (cases "find_teaching_class d (oi_class inp) = None"; cases w)
      (simp_all add: create_offering_tx_def dbind_lock_teaching_class)
qed

lemma update_offering_tx_step:
  assumes "update_offering_tx i inp (healthy d) = (Inr (), healthy d')"
  shows "find_teaching_class d (oi_class inp) \<noteq> None \<and> update_offering_row i inp d = (Done (), d')"
proof -
  obtain w d1 where w: "update_offering_row i inp d = (w, d1)" by fastforce
  show ?thesis
    using assms w by (cases "find_teaching_class d (oi_class inp) = None"; cases w)
      (simp_all add: update_offering_tx_def dbind_lock_teaching_class)
qed

text \<open>One case for each of the six kinds of commits, the offering transactions by what they do.\<close>

lemma course_step_kinds [consumes 1, case_names insert_catalog update_catalog delete_catalog insert_offering update_offering
    delete_offering]:
  assumes "course_step d d'"
    and "\<And>craw cinp d pg_numeric now. normalize_catalog craw = (cinp, None) \<Longrightarrow> P d (snd (insert_catalog pg_numeric now cinp d))"
    and "\<And>craw cinp d pg_numeric i. normalize_catalog craw = (cinp, None) \<Longrightarrow> P d (snd (update_catalog_row pg_numeric i cinp d))"
    and "\<And>d i. P d (snd (delete_catalog_row i d))"
    and "\<And>raw inp d now. normalize_offering raw = (inp, None) \<Longrightarrow> find_teaching_class d (oi_class inp) \<noteq> None \<Longrightarrow>
      P d (snd (insert_offering now inp d))"
    and "\<And>raw inp d i. normalize_offering raw = (inp, None) \<Longrightarrow> find_teaching_class d (oi_class inp) \<noteq> None \<Longrightarrow>
      P d (snd (update_offering_row i inp d))"
    and "\<And>d i. P d (snd (delete_offering_row i d))"
  shows "P d d'"
  using assms(1)
proof (induction rule: course_step.induct)
  case (a_write d d')
  then show ?case
  proof (induction rule: course_write.induct)
    case (create_offering raw inp now d i d')
    with create_offering_tx_step [OF create_offering(2)] assms(5) [OF create_offering(1), of d now] show ?case by simp
  next
    case (update_offering raw inp i d d')
    with update_offering_tx_step [OF update_offering(2)] assms(6) [OF update_offering(1), of d i] show ?case by simp
  qed (rule assms(2,3), assumption)+
qed (rule assms(4,7))+

lemma offering_tx_clean [clean_intros]: "clean (create_offering_tx now inp)" "clean (update_offering_tx i inp)"
  unfolding create_offering_tx_def update_offering_tx_def lock_teaching_class_def by (intro clean_intros)+

lemma course_reads [reads_intros]:
  "reads (get_catalog i)" "reads (page_catalog eq q p)" "reads (list_catalog)" "reads (class_names_by_class ck ids)"
  "reads (attach_class_names ck vs)" "reads (get_offering ck i)" "reads (list_offerings ck)" "reads (page_offerings ck eq q p)"
proof -
  show names: "reads (class_names_by_class ck ids)" for ids
    unfolding class_names_by_class_def by (intro reads_intros)
  then show attach: "reads (attach_class_names ck vs)" for vs
    unfolding attach_class_names_def by (intro reads_intros)
  show "reads (get_offering ck i)"
    unfolding get_offering_def by (intro reads_intros names)
  show "reads (list_offerings ck)" "reads (page_offerings ck eq q p)"
    unfolding list_offerings_def page_offerings_def by (intro reads_intros attach)+
qed (unfold get_catalog_def page_catalog_def list_catalog_def, (intro reads_intros)+)

lemma course_store_once [once_intros]:
  "normalize_catalog craw = (cinp, None) \<Longrightarrow> once course_step (create_catalog pg_numeric now cinp)"
  "normalize_catalog craw = (cinp, None) \<Longrightarrow> once course_step (update_catalog pg_numeric i cinp)"
  "normalize_offering raw = (inp, None) \<Longrightarrow> once course_step (create_offering ck now inp)"
  "normalize_offering raw = (inp, None) \<Longrightarrow> once course_step (update_offering ck i inp)"
  "once course_step (delete_catalog i)" "once course_step (delete_offering i)"
proof -
  show "once course_step (create_catalog pg_numeric now cinp)" "once course_step (update_catalog pg_numeric i cinp)"
    if "normalize_catalog craw = (cinp, None)"
    unfolding create_catalog_def update_catalog_def
    by (intro once_then_reads once_stmt course_step.a_write [OF course_write.insert_catalog [OF that]]
        course_step.a_write [OF course_write.update_catalog [OF that]] reads_intros)+
  show "once course_step (delete_catalog i)"
    unfolding delete_catalog_def
    by (rule once_after_reads, rule reads_simple, rule once_if, rule once_reads, rule reads_simple)
      (intro once_then_reads once_stmt course_step.delete_catalog reads_intros)
  show "once course_step (delete_offering i)"
    unfolding delete_offering_def
    by (rule once_after_reads, rule reads_simple, rule once_if, rule once_reads, rule reads_simple)
      (intro once_then_reads once_stmt course_step.delete_offering reads_intros)
  show "once course_step (create_offering ck now inp)" if "normalize_offering raw = (inp, None)"
    unfolding create_offering_def using course_step.a_write [OF course_write.create_offering [OF that]]
    by (intro once_then_reads once_transaction reads_intros offering_tx_clean)
  have "course_step d d'" if "normalize_offering raw = (inp, None)" "update_offering_tx i inp (healthy d) = (Inr x, healthy d')" for d d' x
    using course_step.a_write [OF course_write.update_offering [OF that(1), of i]] that(2) by simp
  then show "once course_step (update_offering ck i inp)" if "normalize_offering raw = (inp, None)"
    unfolding update_offering_def using that by (intro once_then_reads once_transaction reads_intros offering_tx_clean)
qed

lemma course_handlers_once [once_intros]:
  "once course_step (createCatalog_h pg_numeric now cbody)" "once course_step (updateCatalog_h pg_numeric pid cbody)"
  "once course_step (deleteCatalog_h pid)" "once course_step (createOffering_h ck now obody)"
  "once course_step (updateOffering_h ck pid obody)" "once course_step (deleteOffering_h pid)"
  unfolding createCatalog_h_def updateCatalog_h_def deleteCatalog_h_def createOffering_h_def
    updateOffering_h_def deleteOffering_h_def
  by (intro once_intros once_h_validated; (assumption | simp split: sum.split course_error.split))+

subsection \<open>Invariants\<close>

definition offering_key :: "offering \<Rightarrow> int \<times> int \<times> string" where
  "offering_key f = (of_catalog f, of_teaching_class f, of_semester f)"

definition input_key :: "offering_input \<Rightarrow> int \<times> int \<times> string" where
  "input_key inp = (oi_catalog inp, oi_class inp, oi_semester inp)"

lemma same_offering_key: "same_offering inp f \<longleftrightarrow> offering_key f = input_key inp"
  by (auto simp: same_offering_def offering_key_def input_key_def)

lemma set_offering_simps [simp]:
  "offering_key (set_offering inp f) = input_key inp" "of_id (set_offering inp f) = of_id f"
  "of_teaching_class (set_offering inp f) = oi_class inp"
  by (simp_all add: set_offering_def offering_key_def input_key_def)

lemma set_catalog_simps [simp]:
  "ca_code (set_catalog inp cr c) = cai_code inp" "ca_id (set_catalog inp cr c) = ca_id c"
  by (simp_all add: set_catalog_def)

lemma blank_ids [simp]: "of_id (blank_offering i now) = i" "ca_id (blank_catalog i now) = i"
  by (simp_all add: blank_offering_def blank_catalog_def)

definition course_inv :: "campus_db \<Rightarrow> bool" where
  "course_inv d \<longleftrightarrow> distinct (map ca_id (cd_catalog d)) \<and> (\<forall>c \<in> set (cd_catalog d). ca_id c < cd_next_catalog d) \<and>
     distinct (map ca_code (cd_catalog d)) \<and>
     distinct (map of_id (cd_offerings d)) \<and> (\<forall>f \<in> set (cd_offerings d). of_id f < cd_next_offering d) \<and>
     distinct (map offering_key (cd_offerings d))"

lemma keyed_update:
  assumes "distinct (map k xs)" and "\<forall>x \<in> set xs. k x < (n :: int)" and "\<And>x. k (g x) = k x"
  shows "distinct (map k (map (\<lambda>x. if k x = i then g x else x) xs))"
    and "\<forall>x \<in> set (map (\<lambda>x. if k x = i then g x else x) xs). k x < n"
proof -
  have "map k (map (\<lambda>x. if k x = i then g x else x) xs) = map k xs" by (induction xs) (auto simp: assms(3))
  with assms(1) show "distinct (map k (map (\<lambda>x. if k x = i then g x else x) xs))" by (simp only:)
  show "\<forall>x \<in> set (map (\<lambda>x. if k x = i then g x else x) xs). k x < n"
    using assms(2,3) by (auto simp: ball_Un)
qed

lemma course_step_keeps_course_inv: "course_step d d' \<Longrightarrow> course_inv d \<Longrightarrow> course_inv d'"
proof (induction rule: course_step_kinds)
  case (insert_catalog craw cinp d pg_numeric now)
  then show ?case by (auto simp: insert_catalog_def course_inv_def list_ex_iff split: option.splits)
next
  case (update_catalog craw cinp d pg_numeric i)
  show ?case
  proof (cases "list_ex (\<lambda>c. ca_id c \<noteq> i \<and> ca_code c = cai_code cinp) (cd_catalog d)")
    case True
    then show ?thesis using update_catalog by (simp add: update_catalog_row_def split: option.split)
  next
    case False
    have "distinct (map ca_code (map (\<lambda>c. if ca_id c = i then set_catalog cinp cr c else c) (cd_catalog d)))" for cr
      using update_catalog False by (intro distinct_key_update [where v = "cai_code cinp"]) (auto simp: course_inv_def list_ex_iff)
    moreover have "distinct (map ca_id (map (\<lambda>c. if ca_id c = i then set_catalog cinp cr c else c) (cd_catalog d))) \<and>
        (\<forall>c \<in> set (map (\<lambda>c. if ca_id c = i then set_catalog cinp cr c else c) (cd_catalog d)). ca_id c < cd_next_catalog d)" for cr
      using update_catalog by (intro conjI keyed_update) (auto simp: course_inv_def)
    ultimately have "course_inv (d\<lparr>cd_catalog := map (\<lambda>c. if ca_id c = i then set_catalog cinp cr c else c) (cd_catalog d)\<rparr>)" for cr
      using update_catalog by (simp add: course_inv_def del: map_map set_map)
    then show ?thesis using update_catalog False by (simp add: update_catalog_row_def split: option.split)
  qed
next
  case (delete_catalog d i)
  then show ?case by (auto simp: delete_catalog_row_def course_inv_def distinct_map_filter_key)
next
  case (insert_offering raw inp d now)
  then show ?case by (auto simp: insert_offering_def course_inv_def list_ex_iff same_offering_key)
next
  case (update_offering raw inp d i)
  show ?case
  proof (cases "list_ex (\<lambda>f. of_id f \<noteq> i \<and> same_offering inp f) (cd_offerings d)")
    case True
    then show ?thesis using update_offering by (simp add: update_offering_row_def)
  next
    case False
    have "distinct (map offering_key (map (\<lambda>f. if of_id f = i then set_offering inp f else f) (cd_offerings d)))"
      using update_offering False
      by (intro distinct_key_update [where v = "input_key inp"]) (auto simp: course_inv_def list_ex_iff same_offering_key)
    moreover have "distinct (map of_id (map (\<lambda>f. if of_id f = i then set_offering inp f else f) (cd_offerings d))) \<and>
        (\<forall>f \<in> set (map (\<lambda>f. if of_id f = i then set_offering inp f else f) (cd_offerings d)). of_id f < cd_next_offering d)"
      using update_offering by (intro conjI keyed_update) (auto simp: course_inv_def)
    ultimately have "course_inv (d\<lparr>cd_offerings := map (\<lambda>f. if of_id f = i then set_offering inp f else f) (cd_offerings d)\<rparr>)"
      using update_offering by (simp add: course_inv_def del: map_map set_map)
    then show ?thesis using update_offering False by (simp add: update_offering_row_def)
  qed
next
  case (delete_offering d i)
  then show ?case by (auto simp: delete_offering_row_def course_inv_def distinct_map_filter_key)
qed

text \<open>The two halves do not touch each other's tables.\<close>

lemma course_step_frame:
  "course_step d d' \<Longrightarrow> org_inv d' = org_inv d \<and> class_ids d' = class_ids d \<and> members_of d' t = members_of d t"
proof -
  have f: "org_inv (d\<lparr>cd_catalog := x, cd_next_catalog := n\<rparr>) = org_inv d" "org_inv (d\<lparr>cd_catalog := x\<rparr>) = org_inv d"
    "org_inv (d\<lparr>cd_offerings := y, cd_next_offering := n\<rparr>) = org_inv d" "org_inv (d\<lparr>cd_offerings := y\<rparr>) = org_inv d"
    for d :: campus_db and x y n by (simp_all add: org_inv_def class_ids_def)
  show "course_step d d' \<Longrightarrow> org_inv d' = org_inv d \<and> class_ids d' = class_ids d \<and> members_of d' t = members_of d t"
    by (induction rule: course_step_kinds)
      (simp_all add: insert_catalog_def update_catalog_row_def delete_catalog_row_def insert_offering_def
        update_offering_row_def delete_offering_row_def class_ids_def members_of_def f split: option.split)
qed

lemma class_step_frame: "class_step d d' \<Longrightarrow> course_inv d' = course_inv d"
proof (induction rule: class_step_kinds)
  case (create raw inp now d i d')
  then show ?case using create_tx_effect [OF create(2)] by (simp add: course_inv_def)
next
  case (update raw inp i d d')
  then show ?case using update_tx_effect [OF update(2)] by (simp add: course_inv_def)
next
  case (delete i d d')
  then show ?case using delete_tx_effect [OF delete] by (simp add: course_inv_def)
qed (simp_all add: insert_admin_class_def update_admin_class_row_def delete_admin_class_row_def insert_profile_def
      update_profile_def delete_profile_def course_inv_def Let_def)

lemma find_teaching_class_ids: "find_teaching_class d i \<noteq> None \<longleftrightarrow> i \<in> class_ids d"
  by (auto simp: find_teaching_class_def class_ids_def find_None_iff)

lemma course_step_keeps_offered:
  assumes "course_step d d'" and "offered_classes_exist d"
  shows "offered_classes_exist d'"
proof -
  have c: "class_ids d' = class_ids d" using course_step_frame [OF assms(1)] by blast
  have "of_teaching_class ` set (cd_offerings d') \<subseteq> class_ids d"
    using assms
  proof (induction rule: course_step_kinds)
    case (insert_offering raw inp d now)
    then have "oi_class inp \<in> class_ids d" using find_teaching_class_ids [of d "oi_class inp"] by blast
    then show ?case using insert_offering by (auto simp: insert_offering_def offered_classes_exist_def)
  next
    case (update_offering raw inp d i)
    then have "oi_class inp \<in> class_ids d" using find_teaching_class_ids [of d "oi_class inp"] by blast
    then show ?case using update_offering by (auto simp: update_offering_row_def offered_classes_exist_def)
  qed (auto simp: insert_catalog_def update_catalog_row_def delete_catalog_row_def delete_offering_row_def
      offered_classes_exist_def split: option.splits)
  then show ?thesis by (simp add: offered_classes_exist_def c)
qed

text \<open>All writes of the two halves together: the creates and updates, and with the deletions.\<close>

definition study_write :: "campus_db \<Rightarrow> campus_db \<Rightarrow> bool" where
  "study_write d d' \<longleftrightarrow> class_write d d' \<or> course_write d d'"

definition study_step :: "campus_db \<Rightarrow> campus_db \<Rightarrow> bool" where
  "study_step d d' \<longleftrightarrow> class_step d d' \<or> course_step d d'"

lemma study_write_step: "study_write d d' \<Longrightarrow> study_step d d'"
  unfolding study_write_def study_step_def using class_step.a_write course_step.a_write by blast

definition study_inv :: "campus_db \<Rightarrow> bool" where
  "study_inv d \<longleftrightarrow> org_inv d \<and> course_inv d \<and> offered_classes_exist d"

lemma study_step_keeps: "study_step d d' \<Longrightarrow> study_inv d \<Longrightarrow> study_inv d'"
  unfolding study_step_def study_inv_def
  using class_step_keeps_org' class_step_keeps_offered class_step_frame course_step_frame course_step_keeps_offered
    course_step_keeps_course_inv by metis

lemma study_empty: "study_inv campus_empty"
  by (simp add: study_inv_def org_inv_def course_inv_def offered_classes_exist_def class_ids_def campus_empty_def)

lemma study_reachable: "study_step\<^sup>*\<^sup>* campus_empty d \<Longrightarrow> study_inv d"
  by (induction rule: rtranclp_induct) (auto intro: study_empty study_step_keeps)

lemma offering_has_members:
  assumes "study_inv d" and "f \<in> set (cd_offerings d)"
  shows "members_of d (of_teaching_class f) \<noteq> []"
proof -
  have "of_teaching_class f \<in> fst ` set (cd_members d)"
    using assms by (auto simp: study_inv_def org_inv_def offered_classes_exist_def)
  then show ?thesis by (force simp: members_of_def filter_empty_conv)
qed

subsection \<open>Column types\<close>

text \<open>The rows of these tables as the column types of the schema allow them.\<close>

definition admin_class_typed :: "admin_class \<Rightarrow> bool" where
  "admin_class_typed a \<longleftrightarrow> texts_fit [(ac_grade a, 64), (ac_name a, 64), (ac_note a, 255)]"

definition teaching_class_typed :: "teaching_class_row \<Rightarrow> bool" where
  "teaching_class_typed t \<longleftrightarrow> texts_fit [(tr_name t, 64), (tr_note t, 255)]"

definition profile_typed :: "student_profile \<Rightarrow> bool" where
  "profile_typed p \<longleftrightarrow> texts_fit [(pr_student_no p, 32), (pr_note p, 255)]"

definition catalog_typed :: "catalog_course \<Rightarrow> bool" where
  "catalog_typed c \<longleftrightarrow> texts_fit [(ca_name c, 128), (ca_code c, 64), (ca_category c, 32), (ca_exam_type c, 16),
     (ca_description c, 255)] \<and> fits32 (ca_total_hours c)"

definition offering_typed :: "offering \<Rightarrow> bool" where
  "offering_typed f \<longleftrightarrow> texts_fit [(of_teacher f, 64), (of_course_seq f, 32), (of_teacher_id f, 64),
     (of_teacher_title f, 32), (of_college f, 64), (of_requirement f, 16), (of_semester f, 32), (of_note f, 255)] \<and>
     fits32 (of_max_students f) \<and> fits32 (of_weekly_hours f)"

definition study_typed :: "campus_db \<Rightarrow> bool" where
  "study_typed d \<longleftrightarrow> list_all admin_class_typed (cd_admin_classes d) \<and> list_all teaching_class_typed (cd_teaching_classes d) \<and>
     list_all profile_typed (cd_profiles d) \<and> list_all catalog_typed (cd_catalog d) \<and> list_all offering_typed (cd_offerings d)"

lemma list_all_update: "list_all P xs \<Longrightarrow> (\<And>x. P x \<Longrightarrow> P (g x)) \<Longrightarrow> list_all P (map (\<lambda>x. if Q x then g x else x) xs)"
  by (induction xs) auto

lemma list_all_filtered: "list_all P xs \<Longrightarrow> list_all P (filter Q xs)"
  by (induction xs) auto

lemma texts_fit_simps [simp]: "texts_fit []" "texts_fit ((s, n) # ts) \<longleftrightarrow> pg_text n s \<and> texts_fit ts"
  by (simp_all add: texts_fit_def)

lemma set_offering_typed: "texts_fit (offering_texts inp) \<Longrightarrow> offering_ints_fit inp \<Longrightarrow> offering_typed (set_offering inp f)"
  by (simp add: offering_typed_def set_offering_def offering_texts_def offering_ints_fit_def)

lemma set_catalog_typed: "texts_fit (catalog_texts inp) \<Longrightarrow> fits32 (cai_total_hours inp) \<Longrightarrow> catalog_typed (set_catalog inp cr c)"
  by (simp add: catalog_typed_def set_catalog_def catalog_texts_def)

lemma course_step_typed: "course_step d d' \<Longrightarrow> study_typed d \<Longrightarrow> study_typed d'"
proof (induction rule: course_step_kinds)
  case (insert_catalog craw cinp d pg_numeric now)
  then show ?case
    by (auto simp: insert_catalog_def study_typed_def set_catalog_typed split: option.split)
next
  case (update_catalog craw cinp d pg_numeric i)
  then show ?case
    by (auto simp: update_catalog_row_def study_typed_def set_catalog_typed list_all_update split: option.split)
next
  case (insert_offering raw inp d now)
  then show ?case by (auto simp: insert_offering_def study_typed_def set_offering_typed)
next
  case (update_offering raw inp d i)
  then show ?case by (auto simp: update_offering_row_def study_typed_def set_offering_typed list_all_update)
qed (auto simp: delete_catalog_row_def delete_offering_row_def study_typed_def list_all_filtered)

lemma create_tx_typed:
  assumes "create_teaching_class_tx now inp (healthy d) = (Inr i, healthy d')"
  shows "pg_text 64 (tci_name inp) \<and> pg_text 255 (tci_note inp)"
proof (rule ccontr)
  assume "\<not> ?thesis"
  then have "insert_teaching_class now inp d = (Rejected, d)" by (auto simp: insert_teaching_class_def)
  then show False using assms by (simp add: create_teaching_class_tx_def)
qed

lemma nul_free_text: "nul_free ss \<Longrightarrow> s \<in> set ss \<Longrightarrow> \<not> rune_count s > n \<Longrightarrow> pg_text n s"
  by (auto simp: nul_free_def pg_text_def list_all_iff)

lemma update_tx_typed:
  assumes "update_teaching_class_tx i inp (healthy d) = (Inr (), healthy d')"
  shows "pg_text 64 (tci_name inp) \<and> pg_text 255 (tci_note inp)"
proof (rule ccontr)
  assume bad: "\<not> ?thesis"
  have hits: "filter (\<lambda>t. tr_id t = i) (cd_teaching_classes d) \<noteq> []"
    using update_tx_effect [OF assms] by (auto simp: filter_empty_conv)
  then have "update_teaching_class_row i inp d = (Rejected, d)"
    using bad nul_free_text [of "[tci_name inp, tci_note inp]"]
    by (auto simp: update_teaching_class_row_def Let_def)
  then have "fst (update_teaching_class_tx i inp (healthy d)) \<noteq> Inr ()"
    by (cases "find_teaching_class d i = None")
      (auto simp: update_teaching_class_tx_def dbind_lock_class_row class_in_use_def if_distribR)
  then show False using assms by simp
qed

lemma class_step_typed: "class_step d d' \<Longrightarrow> study_typed d \<Longrightarrow> study_typed d'"
proof (induction rule: class_step_kinds)
  case (create raw inp now d i d')
  from create_tx_effect [OF create(2)] create_tx_typed [OF create(2)] create(3) show ?case
    by (auto simp: study_typed_def teaching_class_typed_def)
next
  case (update raw inp i d d')
  from update_tx_effect [OF update(2)] update_tx_typed [OF update(2)] update(3) show ?case
    by (auto simp: study_typed_def intro!: list_all_update simp: teaching_class_typed_def)
next
  case (delete i d d')
  from delete_tx_effect [OF delete(1)] delete(2) show ?case by (auto simp: study_typed_def list_all_filtered)
next
  case (insert_admin araw ainp d now)
  then show ?case by (auto simp: insert_admin_class_def study_typed_def admin_class_typed_def)
next
  case (update_admin araw ainp d i)
  then show ?case
    by (auto simp: update_admin_class_row_def Let_def study_typed_def admin_class_typed_def list_ex_iff list_all_iff
        dest: nul_free_text [of _ _ 64] intro: nul_free_text)
next
  case (insert_profile sinp d i)
  then show ?case by (auto simp: insert_profile_def Let_def study_typed_def profile_typed_def)
next
  case (update_profile d i u sinp)
  then show ?case
    by (auto simp: update_profile_def Let_def study_typed_def profile_typed_def list_ex_iff list_all_iff intro: nul_free_text)
qed (auto simp: delete_admin_class_row_def delete_profile_def study_typed_def list_all_filtered)

subsection \<open>What the validation leaves in the tables\<close>

text \<open>
  A row in the form of the request that would write it. It is valid when the handler's validation
  accepts that request as it stands.
\<close>

definition admin_class_input_of :: "admin_class \<Rightarrow> admin_class_input" where
  "admin_class_input_of a = \<lparr>aci_grade = ac_grade a, aci_name = ac_name a, aci_note = ac_note a\<rparr>"

definition teaching_class_input_of :: "campus_db \<Rightarrow> teaching_class_row \<Rightarrow> teaching_class_input" where
  "teaching_class_input_of d t = \<lparr>tci_name = tr_name t, tci_note = tr_note t, tci_class_ids = sort (members_of d (tr_id t))\<rparr>"

definition catalog_input_of :: "catalog_course \<Rightarrow> catalog_input" where
  "catalog_input_of c = \<lparr>cai_name = ca_name c, cai_code = ca_code c, cai_credits = [], cai_total_hours = ca_total_hours c,
     cai_category = ca_category c, cai_exam_type = ca_exam_type c, cai_description = ca_description c\<rparr>"

definition offering_input_of :: "offering \<Rightarrow> offering_input" where
  "offering_input_of f = \<lparr>oi_catalog = of_catalog f, oi_class = of_teaching_class f, oi_teacher = of_teacher f,
     oi_course_seq = of_course_seq f, oi_teacher_id = of_teacher_id f, oi_teacher_title = of_teacher_title f,
     oi_college = of_college f, oi_max_students = of_max_students f, oi_requirement = of_requirement f,
     oi_weekly_hours = of_weekly_hours f, oi_semester = of_semester f, oi_note = of_note f\<rparr>"

definition accepted :: "('i \<Rightarrow> 'i \<times> string option) \<Rightarrow> 'i \<Rightarrow> bool" where
  "accepted check inp \<longleftrightarrow> check inp = (inp, None)"

definition profile_valid :: "student_profile \<Rightarrow> bool" where
  "profile_valid p \<longleftrightarrow> 0 < pr_user p \<and> trim_space (pr_student_no p) = pr_student_no p \<and> trim_space (pr_note p) = pr_note p"

definition study_valid :: "campus_db \<Rightarrow> bool" where
  "study_valid d \<longleftrightarrow> list_all (\<lambda>a. accepted normalize_admin_class (admin_class_input_of a)) (cd_admin_classes d) \<and>
     list_all (\<lambda>t. accepted normalize_teaching_class (teaching_class_input_of d t)) (cd_teaching_classes d) \<and>
     list_all profile_valid (cd_profiles d) \<and>
     list_all (\<lambda>c. accepted normalize_catalog (catalog_input_of c)) (cd_catalog d) \<and>
     list_all (\<lambda>f. accepted normalize_offering (offering_input_of f)) (cd_offerings d)"

text \<open>What a validation let through, it lets through again unchanged.\<close>

lemma dedup_ids_again: "dedup_ids (dedup_ids ids) = dedup_ids ids"
proof -
  have "sorted (dedup_ids ids')" for ids' by (simp add: dedup_ids_def)
  moreover have "set (dedup_ids (dedup_ids ids)) = set (dedup_ids ids)" by (auto simp: dedup_ids_set)
  ultimately show ?thesis using dedup_ids_distinct by (metis sorted_distinct_set_unique)
qed

lemma normalized_again:
  "normalize_admin_class araw = (ainp, None) \<Longrightarrow> accepted normalize_admin_class ainp"
  "normalize_teaching_class traw = (tinp, None) \<Longrightarrow> accepted normalize_teaching_class tinp"
  "normalize_catalog craw = (cinp, None) \<Longrightarrow> accepted normalize_catalog (cinp\<lparr>cai_credits := []\<rparr>)"
  "normalize_catalog craw = (cinp, None) \<Longrightarrow> accepted normalize_catalog cinp"
  "normalize_offering raw = (inp, None) \<Longrightarrow> accepted normalize_offering inp"
  unfolding accepted_def
  by (auto simp: normalize_admin_class_def normalize_teaching_class_def normalize_catalog_def normalize_offering_def Let_def
      dedup_ids_again first_too_long_None simp del: first_too_long.simps split: if_splits)

lemma set_input_simps [simp]:
  "catalog_input_of (set_catalog cinp cr c) = cinp\<lparr>cai_credits := []\<rparr>"
  "offering_input_of (set_offering inp f) = inp"
  by (simp_all add: catalog_input_of_def set_catalog_def offering_input_of_def set_offering_def)

lemma course_step_valid: "course_step d d' \<Longrightarrow> study_valid d \<Longrightarrow> study_valid d'"
proof (induction rule: course_step_kinds)
  case (insert_catalog craw cinp d pg_numeric now)
  then show ?case
    by (auto simp: insert_catalog_def study_valid_def normalized_again teaching_class_input_of_def members_of_def split: option.split)
next
  case (update_catalog craw cinp d pg_numeric i)
  then show ?case
    by (auto simp: update_catalog_row_def study_valid_def normalized_again list_all_update teaching_class_input_of_def members_of_def
        split: option.split)
next
  case (insert_offering raw inp d now)
  then show ?case
    by (auto simp: insert_offering_def study_valid_def normalized_again teaching_class_input_of_def members_of_def)
next
  case (update_offering raw inp d i)
  then show ?case
    by (auto simp: update_offering_row_def study_valid_def normalized_again list_all_update teaching_class_input_of_def members_of_def)
qed (auto simp: delete_catalog_row_def delete_offering_row_def study_valid_def list_all_filtered teaching_class_input_of_def members_of_def)

lemma sorted_members: "normalize_teaching_class raw = (inp, None) \<Longrightarrow> sort (tci_class_ids inp) = tci_class_ids inp"
  using normalize_teaching_class_ok [of raw inp] by (simp add: dedup_ids_def sorted_sort_id)

lemma class_step_valid: "class_step d d' \<Longrightarrow> org_inv d \<Longrightarrow> study_valid d \<Longrightarrow> study_valid d'"
proof (induction rule: class_step_kinds)
  case (create raw inp now d i d')
  from create_tx_effect [OF create(2)] have i: "i = cd_next_teaching_class d"
    and d': "d' = d\<lparr>cd_teaching_classes := cd_teaching_classes d @ [\<lparr>tr_id = i, tr_name = tci_name inp,
        tr_note = tci_note inp, tr_created_at = now\<rparr>], cd_next_teaching_class := i + 1,
      cd_members := cd_members d @ map (Pair i) (tci_class_ids inp)\<rparr>" by auto
  have fresh: "tr_id t \<noteq> i" if "t \<in> set (cd_teaching_classes d)" for t
    using create(3) that i by (auto simp: org_inv_def class_ids_def)
  have "members_of d i = []" using create(3) i by (force simp: members_of_def filter_empty_conv org_inv_def)
  then have "teaching_class_input_of d' \<lparr>tr_id = i, tr_name = tci_name inp, tr_note = tci_note inp, tr_created_at = now\<rparr> = inp"
    by (simp add: d' teaching_class_input_of_def sorted_members [OF create(1)])
  moreover have "teaching_class_input_of d' t = teaching_class_input_of d t" if "t \<in> set (cd_teaching_classes d)" for t
    using fresh [OF that] by (simp add: d' teaching_class_input_of_def)
  ultimately show ?case using create(4) normalized_again(2) [OF create(1)] by (simp add: study_valid_def list_all_iff d')
next
  case (update raw inp i d d')
  from update_tx_effect [OF update(2)] have d': "d' = d\<lparr>cd_teaching_classes := map (\<lambda>t. if tr_id t = i
        then t\<lparr>tr_name := tci_name inp, tr_note := tci_note inp\<rparr> else t) (cd_teaching_classes d),
      cd_members := filter (\<lambda>(t, a). t \<noteq> i) (cd_members d) @ map (Pair i) (sort (tci_class_ids inp))\<rparr>" by auto
  have m: "members_of d' t = (if t = i then tci_class_ids inp else members_of d t)" for t
    using members_of_others [of i d t] by (simp add: d' members_of_def filter_map comp_def sorted_members [OF update(1)])
  have "teaching_class_input_of d' (t\<lparr>tr_name := tci_name inp, tr_note := tci_note inp\<rparr>) = inp" if "tr_id t = i" for t
    using that by (simp add: teaching_class_input_of_def m sorted_members [OF update(1)])
  moreover have "teaching_class_input_of d' t = teaching_class_input_of d t" if "tr_id t \<noteq> i" for t
    using that by (simp add: teaching_class_input_of_def m)
  moreover have "set (cd_teaching_classes d') = (\<lambda>t. if tr_id t = i then t\<lparr>tr_name := tci_name inp, tr_note := tci_note inp\<rparr> else t)
      ` set (cd_teaching_classes d)" by (simp add: d')
  ultimately have "list_all (\<lambda>t. accepted normalize_teaching_class (teaching_class_input_of d' t)) (cd_teaching_classes d')"
    using update(4) normalized_again(2) [OF update(1)] by (auto simp: study_valid_def list_all_iff)
  then show ?case using update(4) by (simp add: study_valid_def d')
next
  case (delete i d d')
  from delete_tx_effect [OF delete(1)] have d': "d' = d\<lparr>cd_members := filter (\<lambda>(t, a). t \<noteq> i) (cd_members d),
      cd_teaching_classes := filter (\<lambda>t. tr_id t \<noteq> i) (cd_teaching_classes d)\<rparr>" by simp
  have "members_of d' t = (if t = i then [] else members_of d t)" for t
    using members_of_others [of i d t] by (simp add: d' members_of_def)
  then show ?case using delete(3) by (auto simp: study_valid_def list_all_iff teaching_class_input_of_def d')
next
  case (insert_admin araw ainp d now)
  have "admin_class_input_of \<lparr>ac_id = k, ac_grade = aci_grade ainp, ac_name = aci_name ainp, ac_note = aci_note ainp, ac_created_at = now\<rparr> = ainp" for k
    by (simp add: admin_class_input_of_def)
  then show ?case using insert_admin normalized_again(1)
    by (auto simp: insert_admin_class_def study_valid_def teaching_class_input_of_def members_of_def)
next
  case (update_admin araw ainp d i)
  have "admin_class_input_of (a\<lparr>ac_grade := aci_grade ainp, ac_name := aci_name ainp, ac_note := aci_note ainp\<rparr>) = ainp" for a
    by (simp add: admin_class_input_of_def)
  then show ?case using update_admin normalized_again(1)
    by (auto simp: update_admin_class_row_def Let_def study_valid_def teaching_class_input_of_def members_of_def list_all_update)
next
  case (insert_profile sinp d i)
  then show ?case
    by (auto simp: insert_profile_def Let_def study_valid_def profile_valid_def teaching_class_input_of_def members_of_def)
next
  case (update_profile d i u sinp)
  then show ?case
    by (auto simp: update_profile_def Let_def study_valid_def profile_valid_def list_all_iff teaching_class_input_of_def members_of_def)
qed (auto simp: delete_admin_class_row_def delete_profile_def study_valid_def list_all_filtered teaching_class_input_of_def members_of_def)

subsection \<open>Properties\<close>

lemma once_class: "once class_step m \<Longrightarrow> once study_step m" and once_course: "once course_step m' \<Longrightarrow> once study_step m'"
  by (erule once_mono, simp add: study_step_def)+

text \<open>
  Whatever statements fail, each of the fifteen requests that edit classes, students, the course
  catalog and the offerings commits at most one of the atomic steps.
\<close>

theorem study_requests_are_steps:
  "once study_step (createAdminClass_h now abody) \<and> once study_step (updateAdminClass_h pid abody) \<and>
   once study_step (deleteAdminClass_h pid) \<and> once study_step (createTeachingClass_h ck now tbody) \<and>
   once study_step (updateTeachingClass_h ck pid tbody) \<and> once study_step (deleteTeachingClass_h pid) \<and>
   once study_step (addStudent_h pid sbody) \<and> once study_step (updateStudent_h pid puser sbody) \<and>
   once study_step (deleteStudent_h pid puser) \<and>
   once study_step (createCatalog_h pg_numeric now cbody) \<and> once study_step (updateCatalog_h pg_numeric pid cbody) \<and>
   once study_step (deleteCatalog_h pid) \<and> once study_step (createOffering_h ck now obody) \<and>
   once study_step (updateOffering_h ck pid obody) \<and> once study_step (deleteOffering_h pid)"
  by (intro conjI; (rule once_class, rule org_handlers_once | rule once_course, rule course_handlers_once))

subsection \<open>Requests\<close>

text \<open>
  What a request may do: one of the fifteen handlers runs under any fault script, or a request that
  runs beside others executes its one commit on the tables it finds then. (The tables do not depend
  on the order key \<open>ck\<close> of the answers.)
\<close>

inductive study_request :: "campus_db \<Rightarrow> campus_db \<Rightarrow> bool" where
  create_admin: "study_request (tables c) (tables (snd (createAdminClass_h now abody c)))"
| update_admin: "study_request (tables c) (tables (snd (updateAdminClass_h pid abody c)))"
| delete_admin: "study_request (tables c) (tables (snd (deleteAdminClass_h pid c)))"
| create_teaching: "study_request (tables c) (tables (snd (createTeachingClass_h (ck :: string \<Rightarrow> int) now tbody c)))"
| update_teaching: "study_request (tables c) (tables (snd (updateTeachingClass_h (ck :: string \<Rightarrow> int) pid tbody c)))"
| delete_teaching: "study_request (tables c) (tables (snd (deleteTeachingClass_h pid c)))"
| add_student: "study_request (tables c) (tables (snd (addStudent_h pid sbody c)))"
| update_student: "study_request (tables c) (tables (snd (updateStudent_h pid puser sbody c)))"
| delete_student: "study_request (tables c) (tables (snd (deleteStudent_h pid puser c)))"
| create_catalog: "study_request (tables c) (tables (snd (createCatalog_h pg_numeric now cbody c)))"
| update_catalog: "study_request (tables c) (tables (snd (updateCatalog_h pg_numeric pid cbody c)))"
| delete_catalog: "study_request (tables c) (tables (snd (deleteCatalog_h pid c)))"
| create_offering: "study_request (tables c) (tables (snd (createOffering_h (ck :: string \<Rightarrow> int) now obody c)))"
| update_offering: "study_request (tables c) (tables (snd (updateOffering_h (ck :: string \<Rightarrow> int) pid obody c)))"
| delete_offering: "study_request (tables c) (tables (snd (deleteOffering_h pid c)))"
| concurrent: "study_step d d' \<Longrightarrow> study_request d d'"

lemma study_request_steps: "study_request d d' \<Longrightarrow> d' = d \<or> study_step d d'"
  by (induction rule: study_request.induct) (rule onceD, rule once_class, rule org_handlers_once |
    rule onceD, rule once_course, rule course_handlers_once | blast)+

text \<open>What every state that requests can reach from empty tables has.\<close>

lemma study_requests_keep:
  "study_request\<^sup>*\<^sup>* campus_empty d \<Longrightarrow> study_inv d \<and> study_typed d \<and> study_valid d"
proof (induction rule: rtranclp_induct)
  case base
  then show ?case using study_empty by (simp add: study_typed_def study_valid_def campus_empty_def)
next
  case (step d d')
  then have inv: "study_inv d" "study_typed d" "study_valid d" by simp_all
  from study_request_steps [OF step(2)] show ?case
  proof
    assume s: "study_step d d'"
    then have "class_step d d' \<or> course_step d d'" by (simp add: study_step_def)
    then have "study_typed d' \<and> study_valid d'"
      using inv class_step_typed class_step_valid course_step_typed course_step_valid by (metis study_inv_def)
    then show ?thesis using study_step_keeps [OF s inv(1)] by simp
  qed (use inv in simp)
qed

lemma used_class_refuses:
  assumes "find_teaching_class d i \<noteq> None" and "0 < offerings_of_class i d"
  shows "delete_teaching_class i (healthy d) = (Inl ClassInUse, healthy d)"
    and "sort (members_of d i) \<noteq> sort (tci_class_ids inp) \<Longrightarrow> distinct (map ac_id (cd_admin_classes d)) \<Longrightarrow>
      distinct (tci_class_ids inp) \<Longrightarrow> tci_class_ids inp \<noteq> [] \<Longrightarrow> set (tci_class_ids inp) \<subseteq> ac_id ` set (cd_admin_classes d) \<Longrightarrow>
      update_teaching_class ck i inp (healthy d) = (Inl ClassInUse, healthy d)"
proof -
  have "delete_teaching_class_tx i (healthy d) = (Inl ClassInUse, healthy d)"
    using assms by (simp add: delete_teaching_class_tx_def dbind_lock_class_row class_in_use_def)
  from transaction_healthy_clean [where body = "delete_teaching_class_tx i", OF this]
  show "delete_teaching_class i (healthy d) = (Inl ClassInUse, healthy d)"
    by (simp add: delete_teaching_class_def)
  assume differ: "sort (members_of d i) \<noteq> sort (tci_class_ids inp)" and ids: "distinct (map ac_id (cd_admin_classes d))"
    "distinct (tci_class_ids inp)" "tci_class_ids inp \<noteq> []" "set (tci_class_ids inp) \<subseteq> ac_id ` set (cd_admin_classes d)"
  have "update_teaching_class_tx i inp (healthy d) = (Inl ClassInUse, healthy d)"
    using assms differ by (simp add: update_teaching_class_tx_def dbind_lock_class_row class_in_use_def)
  from transaction_healthy_clean [where body = "update_teaching_class_tx i inp", OF this]
  show "update_teaching_class ck i inp (healthy d) = (Inl ClassInUse, healthy d)"
    using ids admin_classes_exist_healthy [OF ids(1,2)] by (simp add: update_teaching_class_def dbind_def)
qed

lemma used_class_found:
  assumes "offered_classes_exist d" and "0 < offerings_of_class i d"
  shows "find_teaching_class d i \<noteq> None"
proof -
  have "i \<in> of_teaching_class ` set (cd_offerings d)"
    using assms(2) by (auto simp: offerings_of_class_def filter_empty_conv)
  then show ?thesis unfolding find_teaching_class_ids using assms(1) by (auto simp: offered_classes_exist_def)
qed

lemma class_has_members: "study_inv d \<Longrightarrow> i \<in> class_ids d \<Longrightarrow> members_of d i \<noteq> []"
  by (force simp: study_inv_def org_inv_def members_of_def filter_empty_conv)

lemma study_request_freezes:
  assumes "study_request d d'" and "org_inv d"
  shows "frozen_classes d d'"
  using study_request_steps [OF assms(1)]
proof
  assume "study_step d d'"
  then show ?thesis unfolding study_step_def
  proof
    assume "course_step d d'"
    then show ?thesis using course_step_frame by (simp add: frozen_classes_def)
  qed (use class_step_freezes' assms(2) in blast)
qed (simp add: frozen_classes_def)

text \<open>
  C2: In every state that the requests on classes, students, catalog and offerings can reach from empty
  tables, however they are interleaved and whatever statements fail, ids, names, codes and the triple of course, class and semester are
  unique, and every offering belongs to an existing teaching class that has at least one member.
\<close>

theorem offerings_have_classes:
  assumes "study_request\<^sup>*\<^sup>* campus_empty d"
  shows "org_inv d \<and> course_inv d \<and>
    (\<forall>f \<in> set (cd_offerings d). of_teaching_class f \<in> class_ids d \<and> members_of d (of_teaching_class f) \<noteq> [])"
  using study_requests_keep [OF assms] offering_has_members
  by (auto simp: study_inv_def offered_classes_exist_def)

text \<open>
  C3: A teaching class that an offering refers to is frozen. In every state that the requests on
  classes, students, catalog and offerings can reach from empty tables, whatever the next request does, such a class stays and keeps its members, and every teaching class left has at least
  one member; asked to delete the class, or to give it other existing members, a working server
  answers 409 and changes nothing.
\<close>

theorem used_classes_frozen:
  assumes "study_request\<^sup>*\<^sup>* campus_empty d"
  shows "(\<forall>d'. study_request d d' \<longrightarrow> frozen_classes d d' \<and> (\<forall>i \<in> class_ids d'. members_of d' i \<noteq> [])) \<and>
    (\<forall>pid i. atoi pid = Some i \<and> 0 < offerings_of_class i d \<longrightarrow>
      deleteTeachingClass_h pid (healthy d) =
        (RespError 409 (hx ''e69599e5ada6e78fade5b7b2e8a2abe5bc80e8afbee5bc95e794a8efbc8ce697a0e6b395e588a0e999a4''), healthy d) \<and>
      (\<forall>raw inp. normalize_teaching_class raw = (inp, None) \<and> set (tci_class_ids inp) \<subseteq> ac_id ` set (cd_admin_classes d) \<and>
          set (tci_class_ids inp) \<noteq> set (members_of d i) \<longrightarrow>
        updateTeachingClass_h ck pid (Some raw) (healthy d) =
          (RespError 409 (hx ''e69599e5ada6e78fade5b7b2e8a2abe5bc80e8afbee5bc95e794a8efbc8ce68890e59198e4b88de58fafe4bfaee694b9efbc8ce8afb7e696b0e5bbbae69599e5ada6e78fad''), healthy d)))"
proof (intro conjI allI impI; (elim conjE)?)
  have inv: "org_inv d" "offered_classes_exist d" "study_inv d"
    using study_requests_keep [OF assms] by (simp_all add: study_inv_def)
  fix d' assume req: "study_request d d'"
  show "frozen_classes d d'" by (rule study_request_freezes [OF req inv(1)])
  have "study_inv d'" using study_requests_keep [OF rtranclp.rtrancl_into_rtrancl [OF assms req]] by simp
  then show "\<forall>i \<in> class_ids d'. members_of d' i \<noteq> []" by (simp add: class_has_members)
next
  have inv: "org_inv d" "offered_classes_exist d" using study_requests_keep [OF assms] by (simp_all add: study_inv_def)
  fix pid i assume pid: "atoi pid = Some i" and used: "0 < offerings_of_class i d"
  note there = used_class_found [OF inv(2) used]
  show "deleteTeachingClass_h pid (healthy d) =
      (RespError 409 (hx ''e69599e5ada6e78fade5b7b2e8a2abe5bc80e8afbee5bc95e794a8efbc8ce697a0e6b395e588a0e999a4''), healthy d)"
    using used_class_refuses(1) [OF there used] pid by (simp add: deleteTeachingClass_h_def)
  fix raw inp assume ok: "normalize_teaching_class raw = (inp, None)"
    and ids: "set (tci_class_ids inp) \<subseteq> ac_id ` set (cd_admin_classes d)" "set (tci_class_ids inp) \<noteq> set (members_of d i)"
  have "sort (members_of d i) \<noteq> sort (tci_class_ids inp)" using ids(2) by (metis set_sort)
  moreover have "distinct (map ac_id (cd_admin_classes d))" "distinct (tci_class_ids inp)" "tci_class_ids inp \<noteq> []"
    using inv(1) normalize_teaching_class_ok [OF ok] dedup_ids_distinct by (simp_all only: org_inv_def) metis+
  ultimately have "update_teaching_class ck i inp (healthy d) = (Inl ClassInUse, healthy d)"
    using ids(1) by (rule used_class_refuses(2) [OF there used])
  then show "updateTeachingClass_h ck pid (Some raw) (healthy d) =
      (RespError 409 (hx ''e69599e5ada6e78fade5b7b2e8a2abe5bc80e8afbee5bc95e794a8efbc8ce68890e59198e4b88de58fafe4bfaee694b9efbc8ce8afb7e696b0e5bbbae69599e5ada6e78fad''), healthy d)"
    using pid ok by (simp add: updateTeachingClass_h_def)
qed


definition demo_offering :: offering_input where
  "demo_offering = \<lparr>oi_catalog = 3, oi_class = 1, oi_teacher = ''Li'', oi_course_seq = [], oi_teacher_id = [],
     oi_teacher_title = [], oi_college = [], oi_max_students = 30, oi_requirement = [], oi_weekly_hours = 4,
     oi_semester = ''2026-1'', oi_note = []\<rparr>"

definition demo_study :: campus_db where
  "demo_study = demo_org\<lparr>cd_offerings := [set_offering demo_offering (blank_offering 1 0)], cd_next_offering := 2\<rparr>"

lemma demo_study_fits:
  "pg_text 64 ''2024'' \<and> pg_text 64 ''CS1'' \<and> pg_text 64 ''T1'' \<and> pg_text 255 []"
  "texts_fit (offering_texts demo_offering) \<and> offering_ints_fit demo_offering"
  by code_simp+

lemma demo_offering_normal: "normalize_offering demo_offering = (demo_offering, None)"
proof -
  have "trim_space ''Li'' = ''Li'' \<and> trim_space ''2026-1'' = ''2026-1'' \<and> trim_space [] = []" by code_simp
  moreover have "rune_count ''Li'' \<le> 64 \<and> rune_count ''2026-1'' \<le> 32 \<and> rune_count [] = 0" by code_simp
  ultimately show ?thesis
    by (simp add: normalize_offering_def demo_offering_def Let_def first_too_long_None del: first_too_long.simps)
qed

text \<open>One administrative class, one teaching class and one offering, by three requests.\<close>

lemma demo_org_requests:
  "tables (snd (createTeachingClass_h (\<lambda>_. 0 :: int) 0 (Some \<lparr>tci_name = ''T1'', tci_note = [], tci_class_ids = [1]\<rparr>)
     (healthy (tables (snd (createAdminClass_h 0 (Some \<lparr>aci_grade = ''2024'', aci_name = ''CS1'', aci_note = []\<rparr>) (healthy campus_empty))))))) = demo_org"
  by code_simp

lemma demo_study_requests: "tables (snd (createOffering_h (\<lambda>_. 0 :: int) 0 (Some demo_offering) (healthy demo_org))) = demo_study"
  by code_simp

lemma demo_org_reachable: "study_request\<^sup>*\<^sup>* campus_empty demo_org"
proof -
  let ?d1 = "tables (snd (createAdminClass_h 0 (Some \<lparr>aci_grade = ''2024'', aci_name = ''CS1'', aci_note = []\<rparr>) (healthy campus_empty)))"
  have "study_request campus_empty ?d1" using study_request.create_admin [where c = "healthy campus_empty"] by simp
  moreover have "study_request ?d1 demo_org"
    using study_request.create_teaching [where c = "healthy ?d1" and ck = "\<lambda>_. 0" and now = 0] demo_org_requests by (metis tables_healthy)
  ultimately show ?thesis by (meson converse_rtranclp_into_rtranclp r_into_rtranclp)
qed

lemma demo_study_insert: "insert_offering 0 demo_offering demo_org = (Done 1, demo_study)"
  using demo_study_fits(2) by (simp add: insert_offering_def demo_org_def campus_empty_def demo_study_def)

lemma demo_study_reachable: "study_request\<^sup>*\<^sup>* campus_empty demo_study"
proof (rule rtranclp.rtrancl_into_rtrancl [OF demo_org_reachable])
  show "study_request demo_org demo_study"
    using study_request.create_offering [where c = "healthy demo_org" and ck = "\<lambda>_. 0" and now = 0] demo_study_requests by (metis tables_healthy)
qed

theorem offerings_have_classes_witness: "org_inv demo_study \<and> members_of demo_study 1 \<noteq> []"
  using offerings_have_classes [OF demo_study_reachable]
  by (simp add: demo_study_def demo_offering_def)

text \<open>The class of the offering is renamed; its deletion is refused.\<close>

definition demo_renamed :: campus_db where
  "demo_renamed = demo_study\<lparr>cd_teaching_classes := [\<lparr>tr_id = 1, tr_name = ''T9'', tr_note = [], tr_created_at = 0\<rparr>]\<rparr>"

lemma demo_rename_request: "study_request demo_study demo_renamed"
proof -
  have "tables (snd (updateTeachingClass_h (\<lambda>_. 0 :: int) ''1'' (Some \<lparr>tci_name = ''T9'', tci_note = [], tci_class_ids = [1]\<rparr>)
      (healthy demo_study))) = demo_renamed"
    by code_simp
  then show ?thesis using study_request.update_teaching [where c = "healthy demo_study" and ck = "\<lambda>_. 0"] by (metis tables_healthy)
qed

theorem used_classes_frozen_witness:
  "frozen_classes demo_study demo_renamed \<and> demo_renamed \<noteq> demo_study \<and>
   fst (deleteTeachingClass_h ''1'' (healthy demo_study)) =
     RespError 409 (hx ''e69599e5ada6e78fade5b7b2e8a2abe5bc80e8afbee5bc95e794a8efbc8ce697a0e6b395e588a0e999a4'')"
proof -
  have "atoi ''1'' = Some 1 \<and> 0 < offerings_of_class 1 demo_study" by code_simp
  moreover have "demo_renamed \<noteq> demo_study" by code_simp
  ultimately show ?thesis using used_classes_frozen [OF demo_study_reachable] demo_rename_request by (metis fst_conv)
qed


lemma get_offering_dangling:
  "find_offering d i = Some f \<Longrightarrow> find_catalog d (of_catalog f) = None \<Longrightarrow>
   get_offering ck i (healthy d) = (Inl OfferingNotFound, healthy d)"
  by (simp add: get_offering_def offering_join_def)

lemma fresh_offering_found:
  assumes "course_inv d" and "insert_offering now inp d = (Done i, d')"
  shows "find_offering d' i = Some (set_offering inp (blank_offering i now)) \<and> cd_catalog d' = cd_catalog d \<and>
    cd_teaching_classes d' = cd_teaching_classes d \<and> list_ex (same_offering inp) (cd_offerings d')"
proof -
  have "List.find (\<lambda>f. of_id f = cd_next_offering d) (cd_offerings d) = None"
    using assms(1) by (auto simp: course_inv_def find_None_iff)
  moreover have "List.find P (xs @ [x]) = (case List.find P xs of None \<Rightarrow> (if P x then Some x else None) | Some y \<Rightarrow> Some y)"
    for P and xs :: "offering list" and x by (induction xs) auto
  ultimately show ?thesis
    using assms(2) by (auto simp: insert_offering_def find_offering_def same_offering_key split: if_splits)
qed

text \<open>
  \<open>createOffering\<close> never looks the catalog course up: with a course id that does not exist it
  commits the offering, answers 500, and the repeated request answers 409, while reading the new
  offering answers 404.
\<close>

theorem dangling_offering:
  assumes "course_inv d" and "normalize_offering inp = (inp', None)" and "find_catalog d (oi_catalog inp') = None"
    and "find_teaching_class d (oi_class inp') \<noteq> None" and "insert_offering now inp' d = (Done i, d')"
  shows "createOffering_h ck now (Some inp) (healthy d) = (RespError 500 ''could not create offering'', healthy d') \<and>
    createOffering_h ck now (Some inp) (healthy d') = (RespError 409 ''this course offering already exists'', healthy d') \<and>
    get_offering ck i (healthy d') = (Inl OfferingNotFound, healthy d')"
proof -
  note f = fresh_offering_found [OF assms(1,5)]
  have cat: "find_catalog d' (oi_catalog inp') = None" using assms(3) f by (simp add: find_catalog_def)
  have tc: "find_teaching_class d' (oi_class inp') \<noteq> None" using assms(4) f by (simp add: find_teaching_class_def)
  have get: "get_offering ck i (healthy d') = (Inl OfferingNotFound, healthy d')"
    using f cat by (intro get_offering_dangling [of _ _ "set_offering inp' (blank_offering i now)"]) (simp_all add: set_offering_def)
  have "create_offering_tx now inp' (healthy d) = (Inr i, healthy d')"
    using assms(4,5) by (simp add: create_offering_tx_def dbind_lock_teaching_class)
  from transaction_healthy_clean [where body = "create_offering_tx now inp'", OF this] get have 1: "create_offering ck now inp' (healthy d) = (Inl OfferingNotFound, healthy d')"
    by (simp add: create_offering_def)
  have "insert_offering now inp' d' = (Duplicate, d')"
    using f assms(5) by (auto simp: insert_offering_def split: if_splits)
  then have "create_offering_tx now inp' (healthy d') = (Inl OfferingTaken, healthy d')"
    using tc by (simp add: create_offering_tx_def dbind_lock_teaching_class)
  from transaction_healthy_clean [where body = "create_offering_tx now inp'", OF this] have 2: "create_offering ck now inp' (healthy d') = (Inl OfferingTaken, healthy d')"
    by (simp add: create_offering_def)
  show ?thesis using get 1 2 assms(2) by (simp add: createOffering_h_def)
qed

theorem dangling_offering_witness:
  "createOffering_h id 0 (Some demo_offering) (healthy demo_org) = (RespError 500 ''could not create offering'', healthy demo_study)"
proof -
  have "course_inv demo_org" by (simp add: course_inv_def demo_org_def campus_empty_def)
  moreover have "find_catalog demo_org (oi_catalog demo_offering) = None"
    by (simp add: find_catalog_def demo_org_def campus_empty_def)
  moreover have "find_teaching_class demo_org (oi_class demo_offering) \<noteq> None"
    by (simp add: find_teaching_class_def demo_org_def demo_offering_def)
  ultimately show ?thesis using dangling_offering [of demo_org demo_offering demo_offering 0 1 demo_study] demo_offering_normal demo_study_insert by blast
qed

end
