(* ===== verification/Session.thy ===== *)
theory Session
  imports Course
begin

text \<open>
  Course sessions (\<open>internal/course/sessions.go\<close> without the timetable, and their handlers in
  \<open>handler.go\<close>). A session occupies a range of periods of a room on a date; its writes check the slot
  against sessions and active bookings while they hold the row lock of the room, as the bookings do.
\<close>

subsection \<open>Data\<close>

record session_view =
  sw_id :: int
  sw_offering :: int
  sw_classroom :: int
  sw_date :: string
  sw_start :: int
  sw_end :: int
  sw_note :: string
  sw_created_at :: int
  sw_course_name :: string
  sw_catalog_code :: string
  sw_class_name :: string
  sw_class_names :: "string list"
  sw_teacher :: string
  sw_semester :: string
  sw_classroom_name :: string

record session_input =
  si_offering :: int
  si_classroom :: int
  si_date :: string
  si_start :: int
  si_end :: int
  si_note :: string

record session_filter =
  sf_offering :: int
  sf_classroom :: int
  sf_from :: string
  sf_to :: string
  sf_q :: string

subsection \<open>Statements\<close>

definition find_session :: "campus_db \<Rightarrow> int \<Rightarrow> session option" where
  "find_session d i = List.find (\<lambda>s. ss_id s = i) (cd_sessions d)"

text \<open>One row of the five-table join, still without the class names.\<close>

definition session_join :: "campus_db \<Rightarrow> session \<Rightarrow> session_view option" where
  "session_join d s =
     Option.bind (find_offering d (ss_offering s)) (\<lambda>f.
     Option.bind (find_catalog d (of_catalog f)) (\<lambda>c.
     Option.bind (find_teaching_class d (of_teaching_class f)) (\<lambda>t.
     Option.bind (find_classroom d (ss_classroom s)) (\<lambda>r.
     Some \<lparr>sw_id = ss_id s, sw_offering = ss_offering s, sw_classroom = ss_classroom s,
       sw_date = format_date (ss_date s), sw_start = ss_start s, sw_end = ss_end s, sw_note = ss_note s,
       sw_created_at = ss_created_at s, sw_course_name = ca_name c, sw_catalog_code = ca_code c,
       sw_class_name = tr_name t, sw_class_names = [], sw_teacher = of_teacher f,
       sw_semester = of_semester f, sw_classroom_name = cl_name r\<rparr>))))"

definition session_where :: "session_filter \<Rightarrow> string \<times> sql_arg list" where
  "session_where f =
     (let qa = ('' WHERE 1=1'', []);
          qa = (if sf_offering f > 0 then bind_arg_text '' AND s.offering_id = '' (AInt (sf_offering f)) [] qa else qa);
          qa = (if sf_classroom f > 0 then bind_arg_text '' AND s.classroom_id = '' (AInt (sf_classroom f)) [] qa else qa);
          qa = (if sf_from f \<noteq> [] then bind_arg_text '' AND s.date >= '' (AStr (sf_from f)) [] qa else qa);
          qa = (if sf_to f \<noteq> [] then bind_arg_text '' AND s.date <= '' (AStr (sf_to f)) [] qa else qa)
      in if sf_q f \<noteq> []
         then let pat = AStr (like_pattern (escape_like (sf_q f)))
              in bind_arg_text '' OR o.semester ILIKE '' pat '')''
                   (bind_arg_text '' OR o.teacher ILIKE '' pat []
                     (bind_arg_text '' OR cr.name ILIKE '' pat []
                       (bind_arg_text '' OR tc.name ILIKE '' pat []
                         (bind_arg_text '' OR c.code ILIKE '' pat []
                           (bind_arg_text '' AND (c.name ILIKE '' pat [] qa)))))
         else qa)"

definition session_selected ::
  "(char \<Rightarrow> char \<Rightarrow> bool) \<Rightarrow> session_filter \<Rightarrow> int option \<Rightarrow> int option \<Rightarrow> session \<Rightarrow> session_view \<Rightarrow> bool" where
  "session_selected eq f lo hi s v \<longleftrightarrow>
     (sf_offering f > 0 \<longrightarrow> ss_offering s = sf_offering f) \<and>
     (sf_classroom f > 0 \<longrightarrow> ss_classroom s = sf_classroom f) \<and>
     (case lo of None \<Rightarrow> True | Some x \<Rightarrow> ss_date s \<ge> x) \<and>
     (case hi of None \<Rightarrow> True | Some x \<Rightarrow> ss_date s \<le> x) \<and>
     (sf_q f \<noteq> [] \<longrightarrow> contains eq (sf_q f) (sw_course_name v) \<or> contains eq (sf_q f) (sw_catalog_code v) \<or>
        contains eq (sf_q f) (sw_class_name v) \<or> contains eq (sf_q f) (sw_classroom_name v) \<or>
        contains eq (sf_q f) (sw_teacher v) \<or> contains eq (sf_q f) (sw_semester v))"

definition select_sessions ::
  "(string \<Rightarrow> int option) \<Rightarrow> (char \<Rightarrow> char \<Rightarrow> bool) \<Rightarrow> session_filter \<Rightarrow> campus_db \<Rightarrow> session_view list option" where
  "select_sessions pg_date eq f d =
     Option.bind (date_bound pg_date (sf_from f)) (\<lambda>lo.
     Option.bind (date_bound pg_date (sf_to f)) (\<lambda>hi.
     Some (map snd (filter (\<lambda>(s, v). session_selected eq f lo hi s v)
       (List.map_filter (\<lambda>s. map_option (Pair s) (session_join d s))
         (sort_key (\<lambda>s. (ss_date s, ss_start s, ss_end s)) (cd_sessions d)))))))"

text \<open>The sessions of a slot other than the excluded one (\<open>exclude > 0\<close>).\<close>

definition other_session_in_slot :: "int \<Rightarrow> int \<Rightarrow> int \<Rightarrow> int \<Rightarrow> int \<Rightarrow> campus_db \<Rightarrow> bool" where
  "other_session_in_slot room day ps pe exclude d \<longleftrightarrow>
     list_ex (\<lambda>s. ss_classroom s = room \<and> ss_date s = day \<and> overlaps (ss_start s) (ss_end s) ps pe \<and>
        (exclude > 0 \<longrightarrow> ss_id s \<noteq> exclude)) (cd_sessions d)"

definition insert_session :: "int \<Rightarrow> int \<Rightarrow> session_input \<Rightarrow> campus_db \<Rightarrow> int option \<times> campus_db" where
  "insert_session now day inp d =
     (if \<not> fits32 (si_start inp) \<or> \<not> fits32 (si_end inp) \<or> \<not> pg_text 255 (si_note inp) then (None, d)
      else (Some (cd_next_session d),
        d\<lparr>cd_sessions := cd_sessions d @ [\<lparr>ss_id = cd_next_session d, ss_offering = si_offering inp,
             ss_classroom = si_classroom inp, ss_date = day, ss_start = si_start inp, ss_end = si_end inp,
             ss_note = si_note inp, ss_created_at = now\<rparr>],
          cd_next_session := cd_next_session d + 1\<rparr>))"

definition move_session :: "int \<Rightarrow> session_input \<Rightarrow> session \<Rightarrow> session" where
  "move_session day inp s = s\<lparr>ss_offering := si_offering inp, ss_classroom := si_classroom inp, ss_date := day,
     ss_start := si_start inp, ss_end := si_end inp, ss_note := si_note inp\<rparr>"

definition update_session_row :: "int \<Rightarrow> int \<Rightarrow> session_input \<Rightarrow> campus_db \<Rightarrow> int option \<times> campus_db" where
  "update_session_row i day inp d =
     (let hits = length (filter (\<lambda>s. ss_id s = i) (cd_sessions d))
      in if \<not> fits32 (si_start inp) \<or> \<not> fits32 (si_end inp) \<or> \<not> nul_free [si_note inp] then (None, d)
         else if hits > 0 \<and> rune_count (si_note inp) > 255 then (None, d)
         else (Some (int hits),
           d\<lparr>cd_sessions := map (\<lambda>s. if ss_id s = i then move_session day inp s else s) (cd_sessions d)\<rparr>))"

definition delete_session_row :: "int \<Rightarrow> campus_db \<Rightarrow> int \<times> campus_db" where
  "delete_session_row i d =
     (int (length (filter (\<lambda>s. ss_id s = i) (cd_sessions d))),
      d\<lparr>cd_sessions := filter (\<lambda>s. ss_id s \<noteq> i) (cd_sessions d)\<rparr>)"

subsection \<open>Store\<close>

definition class_names_by_session ::
  "(string \<Rightarrow> 'k::linorder) \<Rightarrow> int list \<Rightarrow> (int \<Rightarrow> string list) course_action" where
  "class_names_by_session ck ids =
     (if ids = [] then dret (\<lambda>_. [])
      else query (CourseDb ''query session class names'') (\<lambda>d i.
        if i \<notin> set ids then []
        else (case Option.bind (find_session d i) (\<lambda>s. find_offering d (ss_offering s)) of
            None \<Rightarrow> []
          | Some f \<Rightarrow> map ac_name (class_members ck d (of_teaching_class f)))))"

definition attach_session_names ::
  "(string \<Rightarrow> 'k::linorder) \<Rightarrow> session_view list \<Rightarrow> session_view list course_action" where
  "attach_session_names ck vs =
     dbind (class_names_by_session ck (map sw_id vs)) (\<lambda>names.
     dret (map (\<lambda>v. v\<lparr>sw_class_names := names (sw_id v)\<rparr>) vs))"

definition list_sessions ::
  "(string \<Rightarrow> int option) \<Rightarrow> (string \<Rightarrow> 'k::linorder) \<Rightarrow> int \<Rightarrow> int \<Rightarrow> string \<Rightarrow> string \<Rightarrow> session_view list course_action" where
  "list_sessions pg_date ck off room from_date to_date =
     dbind (query_row (CourseDb ''list sessions'') (CourseDb ''list sessions'')
        (select_sessions pg_date (=) \<lparr>sf_offering = off, sf_classroom = room, sf_from = from_date, sf_to = to_date, sf_q = []\<rparr>))
       (attach_session_names ck)"

definition page_sessions ::
  "(string \<Rightarrow> int option) \<Rightarrow> (string \<Rightarrow> 'k::linorder) \<Rightarrow> (char \<Rightarrow> char \<Rightarrow> bool) \<Rightarrow> session_filter \<Rightarrow> pagination \<Rightarrow>
   (session_view list \<times> int) course_action" where
  "page_sessions pg_date ck eq f p =
     dbind (query_row (CourseDb ''page sessions'') (CourseDb ''page sessions'')
        (\<lambda>d. Option.bind (select_sessions pg_date eq f d) (limit_rows p))) (\<lambda>rows.
     dbind (attach_session_names ck rows) (\<lambda>vs.
     dbind (query_row (CourseDb ''count rows'') (CourseDb ''count rows'')
        (\<lambda>d. map_option (\<lambda>rows. int (length rows)) (select_sessions pg_date eq f d))) (\<lambda>n.
     dret (vs, n))))"

definition get_session :: "(string \<Rightarrow> 'k::linorder) \<Rightarrow> int \<Rightarrow> session_view course_action" where
  "get_session ck i =
     dbind (query_row (CourseDb ''get session'') SessionNotFound
        (\<lambda>d. Option.bind (find_session d i) (session_join d))) (\<lambda>v.
     dbind (class_names_by_session ck [sw_id v]) (\<lambda>names. dret (v\<lparr>sw_class_names := names (sw_id v)\<rparr>)))"

definition session_conflict ::
  "(string \<Rightarrow> int option) \<Rightarrow> int \<Rightarrow> string \<Rightarrow> int \<Rightarrow> int \<Rightarrow> int \<Rightarrow> bool course_action" where
  "session_conflict pg_date room date ps pe exclude =
     dbind (query_row (CourseDb ''check session conflict'') (CourseDb ''check session conflict'')
        (\<lambda>d. map_option (\<lambda>day. other_session_in_slot room day ps pe exclude d) (pg_date date))) (\<lambda>busy.
     if busy then dret True
     else query_row (CourseDb ''check booking conflict'') (CourseDb ''check booking conflict'')
        (\<lambda>d. map_option (\<lambda>day. booking_in_slot d room day ps pe) (pg_date date)))"

definition lock_classroom :: "int \<Rightarrow> unit course_action" where
  "lock_classroom room = query_row (CourseDb ''lock classroom'') (CourseDb ''lock classroom'')
     (\<lambda>d. map_option (\<lambda>_. ()) (find_classroom d room))"

definition create_session_tx :: "(string \<Rightarrow> int option) \<Rightarrow> int \<Rightarrow> session_input \<Rightarrow> int course_action" where
  "create_session_tx pg_date now inp =
     dbind (lock_classroom (si_classroom inp)) (\<lambda>_.
     dbind (session_conflict pg_date (si_classroom inp) (si_date inp) (si_start inp) (si_end inp) 0) (\<lambda>busy.
     if busy then draise RoomConflict
     else dbind (stmt (CourseDb ''create session'') (\<lambda>d.
            case pg_date (si_date inp) of None \<Rightarrow> (None, d) | Some day \<Rightarrow> insert_session now day inp d)) (\<lambda>r.
          case r of None \<Rightarrow> draise (CourseDb ''create session'') | Some i \<Rightarrow> dret i)))"

definition create_session ::
  "(string \<Rightarrow> int option) \<Rightarrow> (string \<Rightarrow> 'k::linorder) \<Rightarrow> int \<Rightarrow> session_input \<Rightarrow> session_view course_action" where
  "create_session pg_date ck now inp =
     dbind (transaction (CourseDb ''begin tx'') (CourseDb ''commit'') (create_session_tx pg_date now inp)) (get_session ck)"

definition update_session_tx :: "(string \<Rightarrow> int option) \<Rightarrow> int \<Rightarrow> session_input \<Rightarrow> unit course_action" where
  "update_session_tx pg_date i inp =
     dbind (lock_classroom (si_classroom inp)) (\<lambda>_.
     dbind (session_conflict pg_date (si_classroom inp) (si_date inp) (si_start inp) (si_end inp) i) (\<lambda>busy.
     if busy then draise RoomConflict
     else dbind (stmt (CourseDb ''update session'') (\<lambda>d.
            case pg_date (si_date inp) of None \<Rightarrow> (None, d) | Some day \<Rightarrow> update_session_row i day inp d)) (\<lambda>r.
          case r of None \<Rightarrow> draise (CourseDb ''update session'')
          | Some n \<Rightarrow> if n = 0 then draise SessionNotFound else dret ())))"

definition update_session ::
  "(string \<Rightarrow> int option) \<Rightarrow> (string \<Rightarrow> 'k::linorder) \<Rightarrow> int \<Rightarrow> session_input \<Rightarrow> session_view course_action" where
  "update_session pg_date ck i inp =
     dbind (transaction (CourseDb ''begin tx'') (CourseDb ''commit'') (update_session_tx pg_date i inp)) (\<lambda>_. get_session ck i)"

definition delete_session :: "int \<Rightarrow> unit course_action" where
  "delete_session i =
     dbind (stmt (CourseDb ''delete session'') (delete_session_row i)) (\<lambda>n.
     if n = 0 then draise SessionNotFound else dret ())"

subsection \<open>Validation and handlers\<close>

definition validate_session ::
  "session_input \<Rightarrow> campus_db conn \<Rightarrow> (session_input \<times> string option) \<times> campus_db conn" where
  "validate_session inp c =
     (if si_offering inp \<le> 0 then ((inp, Some ''offeringId is required''), c)
      else if si_classroom inp \<le> 0 then ((inp, Some ''classroomId is required''), c)
      else if si_start inp < 1 \<or> si_end inp < 1 then ((inp, Some ''periodStart and periodEnd must be >= 1''), c)
      else if si_start inp > si_end inp then ((inp, Some ''periodStart must be <= periodEnd''), c)
      else (case parse_date (si_date inp) of
        None \<Rightarrow> ((inp, Some ''invalid date (use YYYY-MM-DD)''), c)
      | Some date \<Rightarrow>
        (let inp = inp\<lparr>si_note := trim_space (si_note inp)\<rparr> in
         case campus_regimes c of
           (Inl _, c1) \<Rightarrow> ((inp, Some ''could not validate against schedule regime''), c1)
         | (Inr regimes, c1) \<Rightarrow> (case active_for regimes date of
             None \<Rightarrow> ((inp, Some ''no schedule regime configured for this date''), c1)
           | Some regime \<Rightarrow>
             (case first_missing (period_index_set regime) (si_start inp) (si_end inp) of
                Some _ \<Rightarrow> ((inp, Some ''period range is not valid for the active regime on this date''), c1)
              | None \<Rightarrow> ((inp, None), c1))))))"

definition session_filter_of :: "(string \<Rightarrow> string) \<Rightarrow> session_filter" where
  "session_filter_of q = \<lparr>sf_offering = parse_int_value (q ''offering_id''), sf_classroom = parse_int_value (q ''classroom_id''),
     sf_from = q ''from'', sf_to = q ''to'', sf_q = []\<rparr>"

definition listSessions_h ::
  "(string \<Rightarrow> int option) \<Rightarrow> (string \<Rightarrow> 'k::linorder) \<Rightarrow> (char \<Rightarrow> char \<Rightarrow> bool) \<Rightarrow> (string \<Rightarrow> string) \<Rightarrow> campus_db conn \<Rightarrow>
   (session_view list \<times> int \<times> page_params) response \<times> campus_db conn" where
  "listSessions_h pg_date ck eq q c =
     (let p = parse_page_params q; f = (session_filter_of q)\<lparr>sf_q := parse_search q\<rparr>
      in case page_sessions pg_date ck eq f (page_of p) c of
           (Inl _, c') \<Rightarrow> (RespError 500 ''could not list sessions'', c')
         | (Inr (vs, n), c') \<Rightarrow> (RespJSON 200 (vs, n, p), c'))"

definition query_sessions ::
  "(string \<Rightarrow> int option) \<Rightarrow> (string \<Rightarrow> 'k::linorder) \<Rightarrow> (string \<Rightarrow> string) \<Rightarrow> session_view list course_action" where
  "query_sessions pg_date ck q =
     (let f = session_filter_of q in list_sessions pg_date ck (sf_offering f) (sf_classroom f) (sf_from f) (sf_to f))"

definition exportSessions_h ::
  "(string \<Rightarrow> int option) \<Rightarrow> (string \<Rightarrow> 'k::linorder) \<Rightarrow> (string \<Rightarrow> string) \<Rightarrow> campus_db conn \<Rightarrow>
   (string \<times> int \<times> int \<times> string \<times> string \<times> string \<times> string \<times> string \<times> string \<times> string) list response \<times> campus_db conn" where
  "exportSessions_h pg_date ck q c = (case query_sessions pg_date ck q c of
     (Inl _, c') \<Rightarrow> (RespError 500 ''could not list sessions'', c')
   | (Inr vs, c') \<Rightarrow> (RespJSON 200 (map (\<lambda>s. (sw_date s, sw_start s, sw_end s, sw_classroom_name s, sw_course_name s,
        sw_catalog_code s, sw_class_name s, sw_semester s, sw_teacher s, sw_note s)) vs), c'))"

definition createSession_h ::
  "(string \<Rightarrow> int option) \<Rightarrow> (string \<Rightarrow> 'k::linorder) \<Rightarrow> int \<Rightarrow> session_input option \<Rightarrow> campus_db conn \<Rightarrow>
   session_view response \<times> campus_db conn" where
  "createSession_h pg_date ck now body c = (case body of
     None \<Rightarrow> (RespError 400 ''invalid request body'', c)
   | Some inp \<Rightarrow> (case validate_session inp c of
       ((_, Some msg), c1) \<Rightarrow> (RespError 400 msg, c1)
     | ((inp, None), c1) \<Rightarrow> (case create_session pg_date ck now inp c1 of
         (Inl RoomConflict, c') \<Rightarrow> (RespError 409 ''classroom already booked for this date and period'', c')
       | (Inl _, c') \<Rightarrow> (RespError 500 ''could not create session'', c')
       | (Inr v, c') \<Rightarrow> (RespJSON 201 v, c'))))"

definition getSession_h ::
  "(string \<Rightarrow> 'k::linorder) \<Rightarrow> string \<Rightarrow> campus_db conn \<Rightarrow> session_view response \<times> campus_db conn" where
  "getSession_h ck path_id c = (case atoi path_id of
     None \<Rightarrow> (RespError 400 ''invalid session id'', c)
   | Some i \<Rightarrow> (case get_session ck i c of
       (Inl SessionNotFound, c') \<Rightarrow> (RespError 404 ''session not found'', c')
     | (Inl _, c') \<Rightarrow> (RespError 500 ''could not load session'', c')
     | (Inr v, c') \<Rightarrow> (RespJSON 200 v, c')))"

definition updateSession_h ::
  "(string \<Rightarrow> int option) \<Rightarrow> (string \<Rightarrow> 'k::linorder) \<Rightarrow> string \<Rightarrow> session_input option \<Rightarrow> campus_db conn \<Rightarrow>
   session_view response \<times> campus_db conn" where
  "updateSession_h pg_date ck path_id body c = (case atoi path_id of
     None \<Rightarrow> (RespError 400 ''invalid session id'', c)
   | Some i \<Rightarrow> (case body of
       None \<Rightarrow> (RespError 400 ''invalid request body'', c)
     | Some inp \<Rightarrow> (case validate_session inp c of
         ((_, Some msg), c1) \<Rightarrow> (RespError 400 msg, c1)
       | ((inp, None), c1) \<Rightarrow> (case get_session ck i c1 of
           (Inl SessionNotFound, c') \<Rightarrow> (RespError 404 ''session not found'', c')
         | (Inl _, c') \<Rightarrow> (RespError 500 ''could not load session'', c')
         | (Inr before, c2) \<Rightarrow> (case update_session pg_date ck i inp c2 of
             (Inl RoomConflict, c') \<Rightarrow> (RespError 409 ''classroom already booked for this date and period'', c')
           | (Inl SessionNotFound, c') \<Rightarrow> (RespError 404 ''session not found'', c')
           | (Inl _, c') \<Rightarrow> (RespError 500 ''could not update session'', c')
           | (Inr v, c') \<Rightarrow> (RespJSON 200 v, c'))))))"

definition deleteSession_h ::
  "(string \<Rightarrow> 'k::linorder) \<Rightarrow> string \<Rightarrow> campus_db conn \<Rightarrow> unit response \<times> campus_db conn" where
  "deleteSession_h ck path_id c = (case atoi path_id of
     None \<Rightarrow> (RespError 400 ''invalid session id'', c)
   | Some i \<Rightarrow> (case get_session ck i c of
       (Inl SessionNotFound, c') \<Rightarrow> (RespError 404 ''session not found'', c')
     | (Inl _, c') \<Rightarrow> (RespError 500 ''could not load session'', c')
     | (Inr before, c1) \<Rightarrow> (case delete_session i c1 of
         (Inl SessionNotFound, c') \<Rightarrow> (RespError 404 ''session not found'', c')
       | (Inl _, c') \<Rightarrow> (RespError 500 ''could not delete session'', c')
       | (Inr _, c') \<Rightarrow> (RespJSON 204 (), c'))))"

text \<open>How the audit log names a session.\<close>

definition session_audit_label :: "session_view \<Rightarrow> string" where
  "session_audit_label v =
     (let periods = (if sw_start v = sw_end v then hx ''e7acac'' @ itoa (sw_start v) @ hx ''e88a82''
            else hx ''e7acac'' @ itoa (sw_start v) @ hx ''e28093'' @ itoa (sw_end v) @ hx ''e88a82'')
      in sw_course_name v @ '' '' @ sw_date v @ '' '' @ periods @ '' '' @ sw_classroom_name v)"

subsection \<open>Atomic steps\<close>

text \<open>
  Insert and update run inside a transaction that holds the row lock of the room they write to, so
  for that room the conflict check and the write are one step; a deletion is a single statement.
\<close>

inductive ses_step :: "campus_db \<Rightarrow> campus_db \<Rightarrow> bool" where
  insert: "find_classroom d (si_classroom inp) \<noteq> None \<Longrightarrow>
    slot_free d (si_classroom inp) day (si_start inp) (si_end inp) \<Longrightarrow>
    insert_session now day inp d = (Some i, d') \<Longrightarrow> ses_step d d'"
| update: "find_classroom d (si_classroom inp) \<noteq> None \<Longrightarrow>
    \<not> other_session_in_slot (si_classroom inp) day (si_start inp) (si_end inp) i d \<Longrightarrow>
    \<not> booking_in_slot d (si_classroom inp) day (si_start inp) (si_end inp) \<Longrightarrow>
    update_session_row i day inp d = (Some n, d') \<Longrightarrow> n \<noteq> 0 \<Longrightarrow> ses_step d d'"
| delete: "ses_step d (snd (delete_session_row i d))"

lemma other_session_0: "other_session_in_slot room day ps pe 0 d \<longleftrightarrow> session_in_slot d room day ps pe"
  by (simp add: other_session_in_slot_def session_in_slot_def)

lemma dbind_lock_classroom:
  "dbind (lock_classroom room) f (healthy d) =
     (if find_classroom d room = None then (Inl (CourseDb ''lock classroom''), healthy d) else f () (healthy d))"
  by (cases "find_classroom d room") (simp_all add: dbind_def lock_classroom_def)

lemma session_conflict_healthy:
  "session_conflict pg_date room date ps pe ex (healthy d) = (case pg_date date of
     None \<Rightarrow> (Inl (CourseDb ''check session conflict''), healthy d)
   | Some day \<Rightarrow> (Inr (other_session_in_slot room day ps pe ex d \<or> booking_in_slot d room day ps pe), healthy d))"
  by (cases "pg_date date") (simp_all add: session_conflict_def if_distribR)

lemma dbind_session_conflict:
  "dbind (session_conflict pg_date room date ps pe ex) f (healthy d) = (case pg_date date of
     None \<Rightarrow> (Inl (CourseDb ''check session conflict''), healthy d)
   | Some day \<Rightarrow> f (other_session_in_slot room day ps pe ex d \<or> booking_in_slot d room day ps pe) (healthy d))"
  by (cases "pg_date date") (simp_all add: dbind_def session_conflict_healthy)

lemma session_tx_clean [clean_intros]:
  "clean (create_session_tx pg_date now inp)" "clean (update_session_tx pg_date i inp)"
  unfolding create_session_tx_def update_session_tx_def lock_classroom_def session_conflict_def
  by (intro clean_intros)+

lemma create_session_tx_healthy:
  "create_session_tx pg_date now inp (healthy d) =
     (if find_classroom d (si_classroom inp) = None then (Inl (CourseDb ''lock classroom''), healthy d)
      else (case pg_date (si_date inp) of None \<Rightarrow> (Inl (CourseDb ''check session conflict''), healthy d)
      | Some day \<Rightarrow>
        if \<not> slot_free d (si_classroom inp) day (si_start inp) (si_end inp) then (Inl RoomConflict, healthy d)
        else (case insert_session now day inp d of
            (None, d') \<Rightarrow> (Inl (CourseDb ''create session''), healthy d')
          | (Some i, d') \<Rightarrow> (Inr i, healthy d'))))"
  by (cases "pg_date (si_date inp)")
    (simp_all add: create_session_tx_def dbind_lock_classroom dbind_session_conflict other_session_0 slot_free_def
      if_distribR split: prod.split option.split)

lemma create_session_tx_step:
  assumes "create_session_tx pg_date now inp (healthy d) = (Inr i, healthy d')"
  shows "\<exists>day. pg_date (si_date inp) = Some day \<and> find_classroom d (si_classroom inp) \<noteq> None \<and>
    slot_free d (si_classroom inp) day (si_start inp) (si_end inp) \<and> insert_session now day inp d = (Some i, d')"
  using assms unfolding create_session_tx_healthy
  by (simp split: if_splits option.splits prod.splits)

lemma update_session_tx_healthy:
  "update_session_tx pg_date i inp (healthy d) =
     (if find_classroom d (si_classroom inp) = None then (Inl (CourseDb ''lock classroom''), healthy d)
      else (case pg_date (si_date inp) of None \<Rightarrow> (Inl (CourseDb ''check session conflict''), healthy d)
      | Some day \<Rightarrow>
        if other_session_in_slot (si_classroom inp) day (si_start inp) (si_end inp) i d \<or>
           booking_in_slot d (si_classroom inp) day (si_start inp) (si_end inp) then (Inl RoomConflict, healthy d)
        else (case update_session_row i day inp d of
            (None, d') \<Rightarrow> (Inl (CourseDb ''update session''), healthy d')
          | (Some n, d') \<Rightarrow> (if n = 0 then Inl SessionNotFound else Inr (), healthy d'))))"
  by (cases "pg_date (si_date inp)")
    (simp_all add: update_session_tx_def dbind_lock_classroom dbind_session_conflict if_distribR split: prod.split option.split)

lemma update_session_tx_step:
  assumes "update_session_tx pg_date i inp (healthy d) = (Inr (), healthy d')"
  shows "\<exists>day n. pg_date (si_date inp) = Some day \<and> find_classroom d (si_classroom inp) \<noteq> None \<and>
    \<not> other_session_in_slot (si_classroom inp) day (si_start inp) (si_end inp) i d \<and>
    \<not> booking_in_slot d (si_classroom inp) day (si_start inp) (si_end inp) \<and>
    update_session_row i day inp d = (Some n, d') \<and> n \<noteq> 0"
  using assms unfolding update_session_tx_healthy
  by (simp split: if_splits option.splits prod.splits)

lemma session_reads [reads_intros]:
  "reads (class_names_by_session ck ids)" "reads (attach_session_names ck vs)" "reads (get_session ck i)"
  "reads (list_sessions pg_date ck off room from_date to_date)" "reads (page_sessions pg_date ck eq f p)"
proof -
  show names: "reads (class_names_by_session ck ids)" for ids
    unfolding class_names_by_session_def by (intro reads_intros)
  then show attach: "reads (attach_session_names ck vs)" for vs
    unfolding attach_session_names_def by (intro reads_intros)
  show "reads (get_session ck i)"
    unfolding get_session_def by (intro reads_intros names)
  show "reads (list_sessions pg_date ck off room from_date to_date)" "reads (page_sessions pg_date ck eq f p)"
    unfolding list_sessions_def page_sessions_def by (intro reads_intros attach)+
qed

lemma validate_session_reads: "reads (validate_session inp)"
proof -
  have "campus_regimes c = (r, c') \<Longrightarrow> tables c' = tables c" for c r c'
    using keeps_all_reads [OF keeps_campus_regimes] by (metis put_get_schedule snd_conv)
  then show ?thesis
    unfolding validate_session_def Let_def reads_def
    by (auto split: option.splits prod.splits sum.splits)
qed

lemma session_store_once [once_intros]:
  "once ses_step (create_session pg_date ck now inp)" "once ses_step (update_session pg_date ck i inp)"
  "once ses_step (delete_session i)"
proof -
  have "ses_step d d'" if "create_session_tx pg_date now inp (healthy d) = (Inr x, healthy d')" for d d' x
    using create_session_tx_step [OF that] ses_step.insert by blast
  then show "once ses_step (create_session pg_date ck now inp)"
    unfolding create_session_def by (intro once_then_reads once_transaction reads_intros session_tx_clean)
  have "ses_step d d'" if "update_session_tx pg_date i inp (healthy d) = (Inr x, healthy d')" for d d' x
    using update_session_tx_step [of pg_date i inp d d'] that ses_step.update by fastforce
  then show "once ses_step (update_session pg_date ck i inp)"
    unfolding update_session_def by (intro once_then_reads once_transaction reads_intros session_tx_clean)
  show "once ses_step (delete_session i)"
    unfolding delete_session_def by (intro once_then_reads once_stmt ses_step.intros reads_intros)
qed

lemma once_same: "(\<And>c. tables (snd (m c)) = tables c) \<Longrightarrow> once S m"
  by (simp add: once_def)

lemma session_handlers_once:
  "once ses_step (createSession_h pg_date ck now body)" "once ses_step (updateSession_h pg_date ck pid body)"
  "once ses_step (deleteSession_h ck pid)"
proof -
  show "once ses_step (createSession_h pg_date ck now body)"
    unfolding createSession_h_def
    by (intro once_h_option once_idle once_lookup validate_session_reads once_h_checked once_call session_store_once;
        simp split: sum.split course_error.split)
  show "once ses_step (updateSession_h pg_date ck pid body)"
    unfolding updateSession_h_def
    by (intro once_h_option once_idle once_lookup validate_session_reads once_h_checked session_reads once_h_sum once_same once_call
        session_store_once; simp split: sum.split course_error.split)
  show "once ses_step (deleteSession_h ck pid)"
    unfolding deleteSession_h_def
    by (intro once_h_option once_idle once_lookup session_reads once_h_sum once_same once_call
        session_store_once; simp split: sum.split course_error.split)
qed

subsection \<open>Rooms are shared with the bookings\<close>

text \<open>A room is held by active bookings and by sessions; \<open>room_step\<close> is a write of either kind.\<close>

definition room_step :: "campus_db \<Rightarrow> campus_db \<Rightarrow> bool" where
  "room_step d d' \<longleftrightarrow> bk_step d d' \<or> ses_step d d'"

definition session_slot :: "session \<Rightarrow> slot" where
  "session_slot s = (ss_classroom s, ss_date s, ss_start s, ss_end s)"

definition session_holders :: "campus_db \<Rightarrow> ((int + int) \<times> slot) set" where
  "session_holders d = (\<lambda>s. (Inr (ss_id s), session_slot s)) ` set (cd_sessions d)"

definition room_holders :: "campus_db \<Rightarrow> ((int + int) \<times> slot) set" where
  "room_holders d = (\<lambda>(i, s). (Inl i, s)) ` held_slots d \<union> session_holders d"

lemma bk_step_sessions: "bk_step d d' \<Longrightarrow> cd_sessions d' = cd_sessions d \<and> cd_next_session d' = cd_next_session d"
  by (induction rule: bk_step.induct)
    (auto simp: insert_booking_def cancel_booking_row_def review_booking_row_def split: if_splits)

lemma ses_step_bookings: "ses_step d d' \<Longrightarrow> cd_bookings d' = cd_bookings d \<and> cd_next_booking d' = cd_next_booking d"
  by (induction rule: ses_step.induct)
    (auto simp: insert_session_def update_session_row_def delete_session_row_def Let_def split: if_splits)

lemma free_of_holders:
  assumes "\<not> other_session_in_slot room day ps pe ex d" and "\<not> booking_in_slot d room day ps pe"
    and "p \<in> room_holders d" and "ex > 0 \<longrightarrow> fst p \<noteq> Inr ex"
  shows "\<not> slots_clash (snd p) (room, day, ps, pe)"
  using assms by (auto simp: room_holders_def held_slots_def session_holders_def session_slot_def other_session_in_slot_def
      booking_in_slot_def list_ex_iff)

lemma room_holders_insert:
  assumes "insert_session now day inp d = (Some i, d')"
  shows "room_holders d' = insert (Inr i, si_classroom inp, day, si_start inp, si_end inp) (room_holders d)"
  using assms by (auto simp: insert_session_def room_holders_def held_slots_def session_holders_def session_slot_def split: if_splits)

lemma room_holders_update:
  assumes "update_session_row i day inp d = (Some n, d')"
  shows "room_holders d' \<subseteq> insert (Inr i, si_classroom inp, day, si_start inp, si_end inp) (room_holders d)"
  using assms by (auto simp: update_session_row_def Let_def room_holders_def held_slots_def session_holders_def
      session_slot_def move_session_def split: if_splits)

interpretation rooms: exclusive_slots room_step room_holders slots_clash
proof
  fix d d' assume "room_step d d'"
  then show "room_holders d' \<subseteq> room_holders d \<or>
      (\<exists>i s. room_holders d' \<subseteq> insert (i, s) (room_holders d) \<and> (\<forall>p \<in> room_holders d. fst p \<noteq> i \<longrightarrow> \<not> slots_clash (snd p) s))"
    unfolding room_step_def
  proof
    assume "bk_step d d'"
    note s = bk_step_sessions [OF this]
    from \<open>bk_step d d'\<close> show ?thesis
    proof (cases rule: bk_step.cases)
      case (create inp day now user i)
      have "room_holders d' \<subseteq> insert (Inl i, bi_classroom inp, day, bi_start inp, bi_end inp) (room_holders d)"
        using held_slots_insert [OF create(2)] s by (auto simp: room_holders_def session_holders_def)
      moreover have "\<forall>p \<in> room_holders d. \<not> slots_clash (snd p) (bi_classroom inp, day, bi_start inp, bi_end inp)"
        using create(1) free_of_holders [of _ _ _ _ 0 d] by (auto simp: slot_free_def other_session_0)
      ultimately show ?thesis by blast
    next
      case (cancel i)
      then show ?thesis using held_slots_cancel [of i d] s by (auto simp: room_holders_def session_holders_def)
    next
      case (review st now i)
      then show ?thesis using held_slots_review [of now st i d] s by (auto simp: room_holders_def session_holders_def)
    qed
  next
    assume "ses_step d d'"
    then show ?thesis
    proof (cases rule: ses_step.cases)
      case (insert inp day now i)
      have "\<forall>p \<in> room_holders d. \<not> slots_clash (snd p) (si_classroom inp, day, si_start inp, si_end inp)"
        using insert(2) free_of_holders [of _ _ _ _ 0 d] by (auto simp: slot_free_def other_session_0)
      with room_holders_insert [OF insert(3)] show ?thesis by blast
    next
      case (update inp day i n)
      have "\<forall>p \<in> room_holders d. fst p \<noteq> Inr i \<longrightarrow> \<not> slots_clash (snd p) (si_classroom inp, day, si_start inp, si_end inp)"
        using free_of_holders [OF update(2,3)] by blast
      with room_holders_update [OF update(4)] show ?thesis by blast
    next
      case (delete i)
      then show ?thesis by (auto simp: delete_session_row_def room_holders_def held_slots_def session_holders_def)
    qed
  qed
next
  fix s t show "slots_clash s t \<Longrightarrow> slots_clash t s" by (rule booked.symmetric)
qed

text \<open>Session ids stay unique.\<close>

definition session_ids_ok :: "campus_db \<Rightarrow> bool" where
  "session_ids_ok d \<longleftrightarrow> distinct (map ss_id (cd_sessions d)) \<and>
     (\<forall>i \<in> ss_id ` set (cd_sessions d). 0 < i \<and> i < cd_next_session d) \<and> 0 < cd_next_session d"

lemma move_session_id [simp]: "ss_id (move_session day inp s) = ss_id s"
  by (simp add: move_session_def)

lemma ses_step_ids:
  assumes "ses_step d d'" and "session_ids_ok d"
  shows "session_ids_ok d'"
  using assms
proof (induction rule: ses_step.induct)
  case (insert d inp day now i d')
  then have d': "map ss_id (cd_sessions d') = map ss_id (cd_sessions d) @ [cd_next_session d]"
      "ss_id ` set (cd_sessions d') = insert (cd_next_session d) (ss_id ` set (cd_sessions d))"
      "cd_next_session d' = cd_next_session d + 1"
    by (auto simp: insert_session_def split: if_splits)
  have "cd_next_session d \<notin> ss_id ` set (cd_sessions d)"
    using insert(4) unfolding session_ids_ok_def by (metis less_irrefl)
  then show ?case using insert(4) unfolding session_ids_ok_def d' by (auto simp: less_imp_le)
next
  case (update d inp day i n d')
  have ids: "map ss_id (map (\<lambda>s. if ss_id s = i then move_session day inp s else s) ss) = map ss_id ss" for ss
    by (induction ss) auto
  then have "distinct (map ss_id (cd_sessions d'))"
    using update(4,6) by (auto simp: update_session_row_def Let_def session_ids_ok_def simp del: map_map split: if_splits)
  moreover have "map ss_id (cd_sessions d') = map ss_id (cd_sessions d)" "cd_next_session d' = cd_next_session d"
    using update(4) ids by (auto simp: update_session_row_def Let_def simp del: map_map split: if_splits)
  then have "ss_id ` set (cd_sessions d') = ss_id ` set (cd_sessions d)" "cd_next_session d' = cd_next_session d"
    by (metis list.set_map)+
  ultimately show ?case using update(6) unfolding session_ids_ok_def by (simp only:) blast
next
  case (delete d i)
  then show ?case by (auto simp: delete_session_row_def session_ids_ok_def distinct_map_filter_key)
qed

definition slots_inv :: "campus_db \<Rightarrow> bool" where
  "slots_inv d \<longleftrightarrow> session_ids_ok d \<and> bookings_inv d \<and>
     (\<forall>p \<in> room_holders d. \<forall>q \<in> room_holders d. fst p \<noteq> fst q \<longrightarrow> \<not> slots_clash (snd p) (snd q))"

lemma bookings_inv_frame:
  "cd_bookings d' = cd_bookings d \<Longrightarrow> cd_next_booking d' = cd_next_booking d \<Longrightarrow> bookings_inv d' = bookings_inv d"
  by (simp add: bookings_inv_def held_slots_def)

lemma session_ids_frame:
  "cd_sessions d' = cd_sessions d \<Longrightarrow> cd_next_session d' = cd_next_session d \<Longrightarrow> session_ids_ok d' = session_ids_ok d"
  by (simp add: session_ids_ok_def)

lemma slots_inv_step: "room_step d d' \<Longrightarrow> slots_inv d \<Longrightarrow> slots_inv d'"
proof -
  assume step: "room_step d d'" and inv: "slots_inv d"
  have "session_ids_ok d' \<and> bookings_inv d'"
    using step unfolding room_step_def
  proof
    assume "bk_step d d'"
    then show ?thesis
      using bookings_inv_step [of d d'] session_ids_frame [of d' d] bk_step_sessions inv by (simp add: slots_inv_def)
  next
    assume "ses_step d d'"
    then show ?thesis
      using ses_step_ids [of d d'] bookings_inv_frame [of d' d] ses_step_bookings inv by (simp add: slots_inv_def)
  qed
  then show "slots_inv d'" using rooms.disjoint_step [OF step] inv unfolding slots_inv_def by blast
qed

lemma slots_inv_start: "cd_bookings d = [] \<Longrightarrow> cd_sessions d = [] \<Longrightarrow> 0 < cd_next_booking d \<Longrightarrow> 0 < cd_next_session d \<Longrightarrow> slots_inv d"
  by (simp add: slots_inv_def session_ids_ok_def bookings_inv_def held_slots_def room_holders_def session_holders_def)

lemma slots_inv_pairs:
  assumes "slots_inv d" and "s \<in> set (cd_sessions d)"
  shows "t \<in> set (cd_sessions d) \<Longrightarrow> s \<noteq> t \<Longrightarrow> \<not> slots_clash (session_slot s) (session_slot t)"
    and "b \<in> set (cd_bookings d) \<Longrightarrow> active_status (bk_status b) \<Longrightarrow>
      \<not> slots_clash (session_slot s) (bk_classroom b, bk_date b, bk_start b, bk_end b)"
proof -
  have s: "(Inr (ss_id s), session_slot s) \<in> room_holders d" using assms(2) by (auto simp: room_holders_def session_holders_def)
  have disj: "\<And>p q. p \<in> room_holders d \<Longrightarrow> q \<in> room_holders d \<Longrightarrow> fst p \<noteq> fst q \<Longrightarrow> \<not> slots_clash (snd p) (snd q)"
    using assms(1) by (simp add: slots_inv_def)
  show "\<not> slots_clash (session_slot s) (session_slot t)" if "t \<in> set (cd_sessions d)" "s \<noteq> t"
  proof -
    have "ss_id s \<noteq> ss_id t"
      using assms that by (auto simp: slots_inv_def session_ids_ok_def distinct_map inj_on_def)
    moreover have "(Inr (ss_id t), session_slot t) \<in> room_holders d" using that by (auto simp: room_holders_def session_holders_def)
    ultimately show ?thesis using disj [OF s] by fastforce
  qed
  show "\<not> slots_clash (session_slot s) (bk_classroom b, bk_date b, bk_start b, bk_end b)"
    if "b \<in> set (cd_bookings d)" "active_status (bk_status b)"
  proof -
    have "(Inl (bk_id b), bk_classroom b, bk_date b, bk_start b, bk_end b) \<in> room_holders d"
      using that by (auto simp: room_holders_def held_slots_def)
    then show ?thesis using disj [OF s] by fastforce
  qed
qed

text \<open>
  What a request may do: a session or booking handler runs under any fault script, or a request that
  runs beside others executes its one atomic write on the tables it finds then. (The tables do not
  depend on the order key \<open>ck\<close> of the answers.)
\<close>

inductive room_request :: "campus_db \<Rightarrow> campus_db \<Rightarrow> bool" where
  booking: "booking_request d d' \<Longrightarrow> room_request d d'"
| create: "room_request (tables c) (tables (snd (createSession_h pg_date (ck :: string \<Rightarrow> int) now body c)))"
| update: "room_request (tables c) (tables (snd (updateSession_h pg_date (ck :: string \<Rightarrow> int) pid body c)))"
| delete: "room_request (tables c) (tables (snd (deleteSession_h (ck :: string \<Rightarrow> int) pid c)))"
| concurrent: "ses_step d d' \<Longrightarrow> room_request d d'"

lemma room_request_steps: "room_request d d' \<Longrightarrow> d' = d \<or> room_step d d'"
proof (induction rule: room_request.induct)
  case (booking d d')
  then show ?case using booking_request_steps by (auto simp: room_step_def)
next
  case (create c pg_date ck now body)
  then show ?case using onceD [OF session_handlers_once(1) [where ck = ck]] by (auto simp: room_step_def)
next
  case (update c pg_date ck pid body)
  then show ?case using onceD [OF session_handlers_once(2) [where ck = ck]] by (auto simp: room_step_def)
next
  case (delete c ck pid)
  then show ?case using onceD [OF session_handlers_once(3) [where ck = ck]] by (auto simp: room_step_def)
qed (simp add: room_step_def)

lemma room_requests_keep: "room_request\<^sup>*\<^sup>* d d' \<Longrightarrow> slots_inv d \<Longrightarrow> slots_inv d'"
  by (induction rule: rtranclp_induct) (auto dest: room_request_steps intro: slots_inv_step)

subsection \<open>Properties\<close>

text \<open>
  C1: A room is never held twice. However booking and session requests are interleaved, starting
  without bookings and sessions, two different sessions of one room and date never overlap, and no
  session overlaps a pending or approved booking of its room and date.
\<close>

theorem no_shared_room:
  assumes "room_request\<^sup>*\<^sup>* d d'" and "cd_bookings d = []" and "cd_sessions d = []"
    and "0 < cd_next_booking d" and "0 < cd_next_session d"
  shows "\<forall>s \<in> set (cd_sessions d').
    (\<forall>t \<in> set (cd_sessions d'). s \<noteq> t \<and> ss_classroom s = ss_classroom t \<and> ss_date s = ss_date t \<longrightarrow>
       \<not> overlaps (ss_start s) (ss_end s) (ss_start t) (ss_end t)) \<and>
    (\<forall>b \<in> set (cd_bookings d'). active_status (bk_status b) \<and> ss_classroom s = bk_classroom b \<and> ss_date s = bk_date b \<longrightarrow>
       \<not> overlaps (ss_start s) (ss_end s) (bk_start b) (bk_end b))"
  using slots_inv_pairs [OF room_requests_keep [OF assms(1) slots_inv_start [OF assms(2-5)]]]
  by (auto simp: session_slot_def)

definition demo_session_input :: session_input where
  "demo_session_input = \<lparr>si_offering = 1, si_classroom = 1, si_date = ''2024-03-18'', si_start = 1, si_end = 2, si_note = []\<rparr>"

definition demo_session :: session where
  "demo_session = \<lparr>ss_id = 1, ss_offering = 1, ss_classroom = 1, ss_date = 19800, ss_start = 1, ss_end = 2,
     ss_note = [], ss_created_at = 0\<rparr>"

definition demo_rooms :: campus_db where
  "demo_rooms = campus_empty\<lparr>cd_schedule := cd_schedule demo_scheduled, cd_classrooms := [demo_room], cd_teaching_classes := [\<lparr>tr_id = 1, tr_name = ''T1'', tr_note = [], tr_created_at = 0\<rparr>]\<rparr>"

definition demo_rooms' :: campus_db where
  "demo_rooms' = demo_rooms\<lparr>cd_sessions := [demo_session], cd_next_session := 2\<rparr>"

lemma demo_rooms_simps:
  "cd_sessions demo_rooms = []" "cd_bookings demo_rooms = []" "cd_next_session demo_rooms = 1" "cd_next_booking demo_rooms = 1"
  "find_classroom demo_rooms 1 = Some demo_room" "find_offering demo_rooms i = None"
  by (simp_all add: demo_rooms_def campus_empty_def find_classroom_def demo_room_def find_offering_def)

lemma demo_session_insert: "insert_session 0 19800 demo_session_input demo_rooms = (Some 1, demo_rooms')"
proof -
  have "pg_text 255 [] \<and> fits32 1 \<and> fits32 2" by code_simp
  then show ?thesis by (simp add: insert_session_def demo_session_input_def demo_session_def demo_rooms'_def demo_rooms_simps)
qed

lemma demo_session_step: "ses_step demo_rooms demo_rooms'"
  by (rule ses_step.insert [OF _ _ demo_session_insert])
    (simp_all add: slot_free_def session_in_slot_def booking_in_slot_def demo_session_input_def demo_rooms_simps)

theorem no_shared_room_witness:
  "list_all (\<lambda>s. list_all (\<lambda>t. s = t \<or> \<not> overlaps (ss_start s) (ss_end s) (ss_start t) (ss_end t)) (cd_sessions demo_rooms'))
     (cd_sessions demo_rooms') \<and> demo_session \<in> set (cd_sessions demo_rooms')"
  using no_shared_room [OF r_into_rtranclp [of room_request, OF room_request.concurrent, OF demo_session_step]]
  by (simp add: demo_rooms_simps) (simp add: demo_rooms'_def)

text \<open>
  Whatever statements fail, each request that creates, moves or deletes a session commits at
  most one atomic step.
\<close>

theorem session_requests_are_steps:
  "once ses_step (createSession_h pg_date ck now body) \<and> once ses_step (updateSession_h pg_date ck pid body) \<and>
   once ses_step (deleteSession_h ck pid)"
  by (intro conjI session_handlers_once)

lemma session_validation:
  "validate_session inp (healthy d) = ((inp', None), healthy d') \<longleftrightarrow>
     inp' = inp\<lparr>si_note := trim_space (si_note inp)\<rparr> \<and> d' = d \<and>
     0 < si_offering inp \<and> 0 < si_classroom inp \<and> 1 \<le> si_start inp \<and> si_start inp \<le> si_end inp \<and>
     (\<exists>date r. parse_date (si_date inp) = Some date \<and>
        active_for (map (read_regime (cd_schedule d)) (select_regimes (cd_schedule d))) date = Some r \<and>
        {si_start inp..si_end inp} \<subseteq> period_index_set r)"
  by (auto simp: validate_session_def campus_regimes_healthy Let_def first_missing_None not_le
      split: option.split dest: first_missing_None [THEN iffD2])

text \<open>
  A session request passes validation exactly when the ids are positive, the period range is
  well-formed, the date parses and the regime active on it has every period of the range; the room
  and the offering are not looked up, and only the note is changed.
\<close>

theorem validate_session_iff:
  "validate_session inp (healthy d) = ((inp', None), healthy d') \<longleftrightarrow>
     inp' = inp\<lparr>si_note := trim_space (si_note inp)\<rparr> \<and> d' = d \<and>
     0 < si_offering inp \<and> 0 < si_classroom inp \<and> 1 \<le> si_start inp \<and> si_start inp \<le> si_end inp \<and>
     (\<exists>date r. parse_date (si_date inp) = Some date \<and>
        active_for (map (read_regime (cd_schedule d)) (select_regimes (cd_schedule d))) date = Some r \<and>
        {si_start inp..si_end inp} \<subseteq> period_index_set r)"
  by (rule session_validation)

lemma fresh_session_found:
  assumes "session_ids_ok d" and "insert_session now day inp d = (Some i, d')"
  shows "\<exists>s. find_session d' i = Some s \<and> ss_offering s = si_offering inp \<and> s \<in> set (cd_sessions d') \<and>
    session_slot s = (si_classroom inp, day, si_start inp, si_end inp) \<and> find_offering d' = find_offering d"
proof -
  have "List.find (\<lambda>s. ss_id s = cd_next_session d) (cd_sessions d) = None"
    using assms(1) by (auto simp: session_ids_ok_def find_None_iff)
  moreover have "List.find P (xs @ [x]) = (case List.find P xs of None \<Rightarrow> (if P x then Some x else None) | Some y \<Rightarrow> Some y)"
    for P and xs :: "session list" and x by (induction xs) auto
  ultimately show ?thesis
    using assms(2) by (auto simp: insert_session_def find_session_def session_slot_def find_offering_def fun_eq_iff split: if_splits)
qed

text \<open>
  C28: \<open>createSession\<close> never looks the offering up: with an offering id that does not exist it answers
  500, but the session is committed, occupies the room, and cannot be deleted, because the handler
  loads it through a join that drops it.
\<close>

theorem dangling_session:
  assumes "validate_session inp (healthy d) = ((inp', None), healthy d)" and "pg_date (si_date inp') = Some day"
    and "find_classroom d (si_classroom inp') \<noteq> None" and "find_offering d (si_offering inp') = None"
    and "slot_free d (si_classroom inp') day (si_start inp') (si_end inp')"
    and "session_ids_ok d" and "insert_session now day inp' d = (Some i, d')" and "atoi pid = Some i"
  shows "createSession_h pg_date ck now (Some inp) (healthy d) = (RespError 500 ''could not create session'', healthy d') \<and>
    \<not> slot_free d' (si_classroom inp') day (si_start inp') (si_end inp') \<and>
    deleteSession_h ck pid (healthy d') = (RespError 404 ''session not found'', healthy d')"
proof -
  obtain s where s: "find_session d' i = Some s" "ss_offering s = si_offering inp'" "s \<in> set (cd_sessions d')"
    "session_slot s = (si_classroom inp', day, si_start inp', si_end inp')" "find_offering d' = find_offering d"
    using fresh_session_found [OF assms(6,7)] by blast
  then have get: "get_session ck i (healthy d') = (Inl SessionNotFound, healthy d')"
    using assms(4) by (simp add: get_session_def session_join_def)
  have "create_session_tx pg_date now inp' (healthy d) = (Inr i, healthy d')"
    using assms(2,3,5,7) by (simp add: create_session_tx_healthy)
  from transaction_healthy_clean [where body = "create_session_tx pg_date now inp'", OF this] get
  have "create_session pg_date ck now inp' (healthy d) = (Inl SessionNotFound, healthy d')"
    by (simp add: create_session_def)
  moreover have "si_start inp' \<le> si_end inp'" using assms(1) by (auto simp: session_validation)
  then have "session_in_slot d' (si_classroom inp') day (si_start inp') (si_end inp')"
    using s(3,4) by (auto simp: session_in_slot_def session_slot_def list_ex_iff overlaps_def intro!: bexI [of _ s])
  ultimately show ?thesis using assms(1,8) get by (simp add: createSession_h_def deleteSession_h_def slot_free_def)
qed

lemma demo_session_valid:
  "validate_session demo_session_input (healthy demo_rooms) = ((demo_session_input, None), healthy demo_rooms)"
proof -
  have "trim_space [] = []" by code_simp
  moreover have "cd_schedule demo_rooms = cd_schedule demo_scheduled" by (simp add: demo_rooms_def)
  ultimately show ?thesis using demo_active parse_demo_day
    unfolding session_validation by (simp add: demo_session_input_def)
qed

theorem dangling_session_witness:
  "createSession_h (\<lambda>_. Some 19800) id 0 (Some demo_session_input) (healthy demo_rooms) =
     (RespError 500 ''could not create session'', healthy demo_rooms')"
proof -
  have "atoi ''1'' = Some 1" by code_simp
  then show ?thesis
    using dangling_session [OF demo_session_valid _ _ _ _ _ demo_session_insert, of "\<lambda>_. Some 19800" "''1''" id]
    by (simp add: demo_session_input_def demo_rooms_simps slot_free_def session_in_slot_def booking_in_slot_def
        session_ids_ok_def)
qed

text \<open>A room that does not exist is answered 500 as well, and nothing is written.\<close>

theorem session_without_room:
  assumes "validate_session inp (healthy d) = ((inp', None), healthy d)" and "find_classroom d (si_classroom inp') = None"
  shows "createSession_h pg_date ck now (Some inp) (healthy d) = (RespError 500 ''could not create session'', healthy d)"
proof -
  have "create_session_tx pg_date now inp' (healthy d) = (Inl (CourseDb ''lock classroom''), healthy d)"
    using assms(2) by (simp add: create_session_tx_healthy)
  from transaction_healthy_clean [where body = "create_session_tx pg_date now inp'", OF this]
  have "create_session pg_date ck now inp' (healthy d) = (Inl (CourseDb ''lock classroom''), healthy d)"
    by (simp add: create_session_def)
  then show ?thesis using assms(1) by (simp add: createSession_h_def)
qed

end
