(* ===== verification/Hoare.thy ===== *)
theory Hoare
  imports Db
begin

text \<open>
  Triples for store actions: from tables that satisfy \<open>P\<close>, a run that succeeds with \<open>x\<close> ends in
  tables that satisfy \<open>Q x\<close>, and a run that fails, wherever the database refuses, in tables that
  satisfy \<open>E\<close>. A handler that makes the call goes on from one of the two.
\<close>

named_theorems triple_intros

definition triple ::
  "('d \<Rightarrow> bool) \<Rightarrow> ('d, 'e, 'a) action \<Rightarrow> ('a \<Rightarrow> 'd \<Rightarrow> bool) \<Rightarrow> ('d \<Rightarrow> bool) \<Rightarrow> bool" where
  "triple P m Q E \<longleftrightarrow> (\<forall>c. P (tables c) \<longrightarrow>
     (case m c of (Inr x, c') \<Rightarrow> Q x (tables c') | (Inl _, c') \<Rightarrow> E (tables c')))"

lemma tripleD:
  assumes "triple P m Q E" and "P (tables c)"
  shows "m c = (Inr x, c') \<Longrightarrow> Q x (tables c')" and "m c = (Inl e, c') \<Longrightarrow> E (tables c')"
  using assms(1) [unfolded triple_def, rule_format, OF assms(2)] by simp_all

lemma triple_stmt [triple_intros]:
  assumes "\<And>d. P d \<Longrightarrow> Q (fst (f d)) (snd (f d))" and "\<And>d. P d \<Longrightarrow> E d"
  shows "triple P (stmt e f) Q E"
  using assms by (auto simp: triple_def stmt_def split: list.splits bool.splits)

lemma triple_query [triple_intros]:
  "(\<And>d. P d \<Longrightarrow> Q (q d) d) \<Longrightarrow> (\<And>d. P d \<Longrightarrow> E d) \<Longrightarrow> triple P (query e q) Q E"
  unfolding query_def by (rule triple_stmt) auto

lemma triple_dret [triple_intros]: "(\<And>d. P d \<Longrightarrow> Q x d) \<Longrightarrow> triple P (dret x) Q E"
  by (simp add: triple_def)

lemma triple_draise [triple_intros]: "(\<And>d. P d \<Longrightarrow> E d) \<Longrightarrow> triple P (draise e) Q E"
  by (simp add: triple_def)

lemma triple_dbind:
  fixes m :: "('d, 'e, 'a) action"
  assumes "triple P m Q' E" and "\<And>x. triple (Q' x) (f x) Q E"
  shows "triple P (dbind m f) Q E"
  unfolding triple_def
proof (intro allI impI)
  fix c :: "'d conn" assume "P (tables c)"
  obtain r c1 where m: "m c = (r, c1)" by fastforce
  show "case dbind m f c of (Inr x, c') \<Rightarrow> Q x (tables c') | (Inl _, c') \<Rightarrow> E (tables c')"
  proof (cases r)
    case (Inl e)
    then show ?thesis using tripleD(2) [OF assms(1) \<open>P (tables c)\<close>] m by simp
  next
    case (Inr x)
    then have "Q' x (tables c1)" using tripleD(1) [OF assms(1) \<open>P (tables c)\<close>] m by simp
    then show ?thesis using assms(2) [of x] m Inr unfolding triple_def by simp
  qed
qed

lemma triple_query_row [triple_intros]:
  assumes "\<And>d x. P d \<Longrightarrow> q d = Some x \<Longrightarrow> Q x d" and "\<And>d. P d \<Longrightarrow> E d"
  shows "triple P (query_row e miss q) Q E"
  unfolding query_row_def
proof (rule triple_dbind [where Q' = "\<lambda>r d. P d \<and> q d = r"])
  show "triple P (query e q) (\<lambda>r d. P d \<and> q d = r) E"
    by (rule triple_query) (auto simp: assms(2))
next
  show "triple (\<lambda>d. P d \<and> q d = r) (case r of None \<Rightarrow> draise miss | Some x \<Rightarrow> dret x) Q E" for r
    using assms by (cases r) (auto simp: triple_def)
qed

text \<open>A failed transaction leaves the tables as they were, so its body may fail anywhere.\<close>

lemma triple_transaction [triple_intros]:
  fixes body :: "('d, 'e, 'a) action"
  assumes "triple P body Q (\<lambda>_. True)" and "\<And>d. P d \<Longrightarrow> E d"
  shows "triple P (transaction eb ec body) Q E"
  unfolding triple_def
proof (intro allI impI)
  fix c :: "'d conn" assume P: "P (tables c)"
  obtain r1 c1 where 1: "stmt eb (\<lambda>d. ((), d)) c = (r1, c1)" by fastforce
  then have t1: "tables c1 = tables c" by (auto simp: stmt_def split: list.splits bool.splits)
  obtain r2 c2 where 2: "body c1 = (r2, c2)" by fastforce
  obtain r3 c3 where 3: "stmt ec (\<lambda>d. ((), d)) c2 = (r3, c3)" by fastforce
  then have t3: "tables c3 = tables c2" by (auto simp: stmt_def split: list.splits bool.splits)
  show "case transaction eb ec body c of (Inr x, c') \<Rightarrow> Q x (tables c') | (Inl _, c') \<Rightarrow> E (tables c')"
    using P 1 2 3 t1 t3 assms(2) tripleD(1) [OF assms(1), of c1]
    by (cases r1; cases r2; cases r3) (auto simp: transaction_def)
qed

lemma triple_dmapM:
  assumes "\<And>x. x \<in> set xs \<Longrightarrow> triple I (f x) (\<lambda>_. I) E" and "\<And>d. I d \<Longrightarrow> Q () d"
  shows "triple I (dmapM f xs) Q E"
  using assms(1)
proof (induction xs)
  case Nil
  show ?case unfolding dmapM.simps by (rule triple_dret) (rule assms(2))
next
  case (Cons x xs)
  show ?case unfolding dmapM.simps
    by (rule triple_dbind [where Q' = "\<lambda>_. I"]) (use Cons in simp_all)
qed

lemma triple_dtry:
  fixes m :: "('d, 'e, 'a) action"
  assumes "triple P m Q' E'" and "\<And>e. triple E' (h e) Q E" and "\<And>x. triple (Q' x) (f x) Q E"
  shows "triple P (dtry m h f) Q E"
  unfolding triple_def
proof (intro allI impI)
  fix c :: "'d conn" assume "P (tables c)"
  obtain r c1 where m: "m c = (r, c1)" by fastforce
  show "case dtry m h f c of (Inr x, c') \<Rightarrow> Q x (tables c') | (Inl _, c') \<Rightarrow> E (tables c')"
  proof (cases r)
    case (Inl e)
    then have "E' (tables c1)" using tripleD(2) [OF assms(1) \<open>P (tables c)\<close>] m by simp
    then show ?thesis using assms(2) [of e] m Inl unfolding triple_def by simp
  next
    case (Inr x)
    then have "Q' x (tables c1)" using tripleD(1) [OF assms(1) \<open>P (tables c)\<close>] m by simp
    then show ?thesis using assms(3) [of x] m Inr unfolding triple_def by simp
  qed
qed

lemma triple_if [triple_intros]:
  "(b \<Longrightarrow> triple P m Q E) \<Longrightarrow> (\<not> b \<Longrightarrow> triple P n Q E) \<Longrightarrow> triple P (if b then m else n) Q E"
  by simp

lemma triple_option [triple_intros]:
  "(x = None \<Longrightarrow> triple P m Q E) \<Longrightarrow> (\<And>y. x = Some y \<Longrightarrow> triple P (f y) Q E) \<Longrightarrow>
   triple P (case x of None \<Rightarrow> m | Some y \<Rightarrow> f y) Q E"
  by (cases x) auto

lemma triple_written [triple_intros]:
  "(\<And>x. w = Done x \<Longrightarrow> triple P (f x) Q E) \<Longrightarrow> (w = Duplicate \<Longrightarrow> triple P m Q E) \<Longrightarrow>
   (w = Rejected \<Longrightarrow> triple P n Q E) \<Longrightarrow> triple P (case w of Done x \<Rightarrow> f x | Duplicate \<Rightarrow> m | Rejected \<Rightarrow> n) Q E"
  by (cases w) auto

lemma triple_conseq:
  "triple P m Q E \<Longrightarrow> (\<And>d. P' d \<Longrightarrow> P d) \<Longrightarrow> (\<And>x d. Q x d \<Longrightarrow> Q' x d) \<Longrightarrow> (\<And>d. E d \<Longrightarrow> E' d) \<Longrightarrow> triple P' m Q' E'"
  by (fastforce simp: triple_def split: prod.splits sum.splits)

text \<open>An action that only reads keeps everything.\<close>

lemma triple_reads: "reads m \<Longrightarrow> (\<And>d x. P d \<Longrightarrow> Q x d) \<Longrightarrow> (\<And>d. P d \<Longrightarrow> E d) \<Longrightarrow> triple P m Q E"
  by (auto simp: triple_def reads_def split: prod.splits sum.splits) (metis snd_conv)+

lemma reads_dtry:
  assumes "reads m" and "\<And>e. reads (h e)" and "\<And>x. reads (f x)"
  shows "reads (dtry m h f)"
  unfolding reads_def
proof
  fix c
  obtain r c1 where m: "m c = (r, c1)" by fastforce
  then have "tables c1 = tables c" using readsD [OF assms(1), of c] by simp
  then show "tables (snd (dtry m h f c)) = tables c" using m assms(2,3) by (cases r) (simp_all add: reads_def)
qed

text \<open>The same for a handler, whose answer does not matter: it calls store operations and decides on their results.\<close>

definition htriple :: "('d \<Rightarrow> bool) \<Rightarrow> ('d conn \<Rightarrow> 'r \<times> 'd conn) \<Rightarrow> ('d \<Rightarrow> bool) \<Rightarrow> bool" where
  "htriple P h R \<longleftrightarrow> (\<forall>c. P (tables c) \<longrightarrow> R (tables (snd (h c))))"

lemma htripleD: "htriple P h R \<Longrightarrow> P (tables c) \<Longrightarrow> R (tables (snd (h c)))"
  by (simp add: htriple_def)

lemma htriple_call:
  fixes m :: "('d, 'e, 'a) action"
  assumes "triple P m Q E"
    and "\<And>e. htriple E (f (Inl e)) R" and "\<And>x. htriple (Q x) (f (Inr x)) R"
  shows "htriple P (\<lambda>c. case m c of (r, c') \<Rightarrow> f r c') R"
  unfolding htriple_def
proof (intro allI impI)
  fix c :: "'d conn" assume P: "P (tables c)"
  obtain r c' where m: "m c = (r, c')" by fastforce
  show "R (tables (snd (case m c of (r, c') \<Rightarrow> f r c')))"
  proof (cases r)
    case (Inl e)
    then show ?thesis using tripleD(2) [OF assms(1) P] htripleD [OF assms(2)] m by simp
  next
    case (Inr x)
    then show ?thesis using tripleD(1) [OF assms(1) P] htripleD [OF assms(3)] m by simp
  qed
qed

lemma htriple_quiet:
  "(\<And>c. tables (snd (h c)) = tables c) \<Longrightarrow> (\<And>d. P d \<Longrightarrow> R d) \<Longrightarrow> htriple P h R"
  by (simp add: htriple_def)

lemma htriple_if:
  "(b \<Longrightarrow> htriple P m R) \<Longrightarrow> (\<not> b \<Longrightarrow> htriple P n R) \<Longrightarrow> htriple P (\<lambda>c. if b then m c else n c) R"
  by (cases b) simp_all

lemma htriple_option:
  "(x = None \<Longrightarrow> htriple P m R) \<Longrightarrow> (\<And>y. x = Some y \<Longrightarrow> htriple P (f y) R) \<Longrightarrow>
   htriple P (\<lambda>c. case x of None \<Rightarrow> m c | Some y \<Rightarrow> f y c) R"
  by (cases x) simp_all

lemma htriple_prod:
  "(\<And>a b. p = (a, b) \<Longrightarrow> htriple P (f a b) R) \<Longrightarrow> htriple P (\<lambda>c. case p of (a, b) \<Rightarrow> f a b c) R"
  by (cases p) simp

lemma htriple_Inl: "htriple P (f e) R \<Longrightarrow> htriple P (\<lambda>c. case Inl e of Inl x \<Rightarrow> f x c | Inr y \<Rightarrow> g y c) R"
  by simp

lemma htriple_Inr: "htriple P (g y) R \<Longrightarrow> htriple P (\<lambda>c. case Inr y of Inl x \<Rightarrow> f x c | Inr y \<Rightarrow> g y c) R"
  by simp

lemmas htriple_intros = htriple_option htriple_prod htriple_if htriple_Inl htriple_Inr

lemma htriple_last:
  assumes "triple P m (\<lambda>_. R) R" and "\<And>r c. tables (snd (f r c)) = tables c"
  shows "htriple P (\<lambda>c. case m c of (r, c') \<Rightarrow> f r c') R"
  by (rule htriple_call [OF assms(1)]) (rule htriple_quiet, rule assms(2), assumption)+

lemma htriple_conseq: "htriple P h R \<Longrightarrow> (\<And>d. P' d \<Longrightarrow> P d) \<Longrightarrow> htriple P' h R"
  by (simp add: htriple_def)

text \<open>What a read found is true of the tables when it is true of a run without faults.\<close>

lemma triple_clean_reads:
  fixes m :: "('a, 'e, 'b) action"
  assumes "reads m" and "clean m" and "\<And>d. P d \<Longrightarrow> E d"
    and "\<And>d x. P d \<Longrightarrow> m (healthy d) = (Inr x, healthy d) \<Longrightarrow> Q x d"
  shows "triple P m Q E"
  unfolding triple_def
proof (intro allI impI)
  fix c :: "'a conn" assume P: "P (tables c)"
  obtain r c' where m: "m c = (r, c')" by fastforce
  then have t: "tables c' = tables c" using readsD [OF assms(1), of c] by simp
  show "case m c of (Inr x, c') \<Rightarrow> Q x (tables c') | (Inl _, c') \<Rightarrow> E (tables c')"
    using m t P assms(3,4) cleanD [OF assms(2)] by (cases r) auto
qed

end
