(* ===== verification/Import_Rows.thy ===== *)
theory Import_Rows
  imports Jwc_Split Session Hoare
begin

text \<open>
  The spreadsheet importers of \<open>internal/importer\<close> but those of sessions and bookings: reading the
  stored workbook, the row loops with their per-row errors, the preview (\<open>Analyze\<close>) and the write
  (\<open>Commit\<close>), one transaction of upserts. The text of a driver's error is left out of the messages
  that quote it. Parameters, collected in \<open>import_env\<close>: the decoding of a stored payload
  (\<open>encoding/base64\<close> and excelize), \<open>strings.ToLower\<close>, \<open>strconv.Quote\<close>, \<open>strconv.ParseFloat\<close> with the
  text that the driver sends, PostgreSQL's reading of numeric, date and time literals, the clock,
  the collation.
\<close>

subsection \<open>Results\<close>

type_synonym row_error = "int \<times> string"

datatype preview_value = PText string | PInt int | PTexts "string list" | PPeriods "period_input list"

type_synonym preview_row = "(string \<times> preview_value) list"

record import_result =
  rs_total :: int
  rs_succeeded :: int
  rs_failed :: int
  rs_errors :: "row_error list"
  rs_rows :: "preview_row list"

definition failed_result :: "int \<Rightarrow> row_error list \<Rightarrow> import_result" where
  "failed_result n errs = \<lparr>rs_total = n, rs_succeeded = 0, rs_failed = n, rs_errors = errs, rs_rows = []\<rparr>"

datatype payload_error = BadBase64 string | BadXlsx xlsx_error

record 'k import_env =
  ie_open :: "string \<Rightarrow> payload_error + string list list"
  ie_lower :: "string \<Rightarrow> string"
  ie_quote :: "string \<Rightarrow> string"
  ie_float :: "string \<Rightarrow> string option"
  ie_numeric :: "string \<Rightarrow> int option"
  ie_date :: "string \<Rightarrow> int option"
  ie_time :: "string \<Rightarrow> string"
  ie_now :: int
  ie_key :: "string \<Rightarrow> 'k"

fun xlsx_message :: "xlsx_error \<Rightarrow> string" where
  "xlsx_message (OpenFailed s) = (hx ''e68993e5bc8020786c737820e5a4b1e8b4a5efbc9a'') @ s"
| "xlsx_message NoSheet = (hx ''786c737820e697a0e5b7a5e4bd9ce8a1a8'')"
| "xlsx_message (ReadFailed s) = (hx ''e8afbbe58f96e5b7a5e4bd9ce8a1a8e5a4b1e8b4a5efbc9a'') @ s"
| "xlsx_message EmptySheet = (hx ''e5b7a5e4bd9ce8a1a8e4b8bae7a9ba'')"
| "xlsx_message EmptyHeader = (hx ''e8a1a8e5a4b4e4b8bae7a9ba'')"

fun payload_message :: "payload_error \<Rightarrow> string" where
  "payload_message (BadBase64 s) = (hx ''e8a7a3e7a081e4b88ae4bca0e58685e5aeb9e5a4b1e8b4a5efbc9a'') @ s"
| "payload_message (BadXlsx e) = xlsx_message e"

subsection \<open>Reading the workbook\<close>

type_synonym sheet_row = "(string \<times> string) list"

definition parse_workbook :: "'k import_env \<Rightarrow> string \<Rightarrow> payload_error + (string list \<times> sheet_row list)" where
  "parse_workbook env payload = (case ie_open env payload of
     Inl e \<Rightarrow> Inl e
   | Inr raw \<Rightarrow> (case map_rows (ie_lower env) raw of Inl e \<Rightarrow> Inl (BadXlsx e) | Inr hr \<Rightarrow> Inr hr))"

text \<open>\<open>None\<close>: every column is there.\<close>

definition require_columns :: "string list \<Rightarrow> string list \<Rightarrow> string option" where
  "require_columns headers cols =
     map_option (\<lambda>c. (hx ''e8a1a8e5a4b4e7bcbae5b091e5bf85e99c80e58897efbc9a'') @ c) (List.find (\<lambda>c. c \<notin> set headers) cols)"

definition parse_int_col :: "'k import_env \<Rightarrow> string \<Rightarrow> string \<Rightarrow> int \<Rightarrow> string + int" where
  "parse_int_col env s name dflt =
     (let s = trim_space s
      in if s = [] then Inr dflt
         else (case atoi s of None \<Rightarrow> Inl (name @ (hx ''20e99d9ee6b395efbc9a'') @ ie_quote env s @ (hx ''efbc88e9a1bbe4b8bae695b4e695b0efbc89'')) | Some n \<Rightarrow> Inr n))"

text \<open>A float is kept as the decimal text that the driver sends.\<close>

definition parse_float_col :: "'k import_env \<Rightarrow> string \<Rightarrow> string \<Rightarrow> string \<Rightarrow> string + string" where
  "parse_float_col env s name dflt =
     (let s = trim_space s
      in if s = [] then Inr dflt
         else (case ie_float env s of None \<Rightarrow> Inl (name @ (hx ''20e99d9ee6b395efbc9a'') @ ie_quote env s @ (hx ''efbc88e9a1bbe4b8bae695b0e5ad97efbc89'')) | Some n \<Rightarrow> Inr n))"

definition parse_int_field :: "string \<Rightarrow> string \<Rightarrow> string + int" where
  "parse_int_field s name =
     (let s = trim_space s
      in if s = [] then Inl (name @ (hx ''20e4b8bae7a9ba''))
         else (case atoi s of
             None \<Rightarrow> Inl (name @ (hx ''20e9a1bbe4b8bae6ada3e695b4e695b0''))
           | Some n \<Rightarrow> if n < 1 then Inl (name @ (hx ''20e9a1bbe4b8bae6ada3e695b4e695b0'')) else Inr n))"

text \<open>
  What a parse yields: the errors, the number of rows and the message of an error that ends it, or
  the clean rows with the errors of the others and the number of rows.
\<close>

type_synonym 'c parsed = "(row_error list \<times> int \<times> string) + ('c list \<times> row_error list \<times> int)"

definition open_rows :: "'k import_env \<Rightarrow> string list \<Rightarrow> string \<Rightarrow> (row_error list \<times> int \<times> string) + sheet_row list" where
  "open_rows env cols payload = (case parse_workbook env payload of
     Inl e \<Rightarrow> Inl ([(1, payload_message e)], 1, payload_message e)
   | Inr (headers, rows) \<Rightarrow> (case require_columns headers cols of
       Some msg \<Rightarrow> Inl ([(1, msg)], 1, msg) | None \<Rightarrow> Inr rows))"

text \<open>The row loop: a step gives the clean row and the new state, or the error of the row.\<close>

fun scan_rows :: "('r \<Rightarrow> 's \<Rightarrow> string + 'c \<times> 's) \<Rightarrow> int \<Rightarrow> 'r list \<Rightarrow> 's \<Rightarrow> (int \<times> 'c) list \<times> row_error list" where
  "scan_rows step n [] s = ([], [])"
| "scan_rows step n (r # rs) s = (case step r s of
     Inl msg \<Rightarrow> (case scan_rows step (n + 1) rs s of (cs, es) \<Rightarrow> (cs, (n, msg) # es))
   | Inr (c, s') \<Rightarrow> (case scan_rows step (n + 1) rs s' of (cs, es) \<Rightarrow> ((n, c) # cs, es)))"

definition parse_each ::
  "'k import_env \<Rightarrow> string list \<Rightarrow> (sheet_row \<Rightarrow> 's \<Rightarrow> string + 'c \<times> 's) \<Rightarrow> 's \<Rightarrow> string \<Rightarrow> (int \<times> 'c) parsed" where
  "parse_each env cols step s payload = (case open_rows env cols payload of
     Inl e \<Rightarrow> Inl e
   | Inr rows \<Rightarrow> (case scan_rows step 2 rows s of (good, errs) \<Rightarrow> Inr (good, errs, int (length rows))))"

text \<open>The dry run: its result, and the message of the error when there is one.\<close>

definition analyze_parsed :: "('c \<Rightarrow> preview_row) \<Rightarrow> 'c parsed \<Rightarrow> import_result \<times> string option" where
  "analyze_parsed preview p = (case p of
     Inl (errs, n, e) \<Rightarrow> (failed_result n errs, Some e)
   | Inr (good, errs, n) \<Rightarrow> (\<lparr>rs_total = n, rs_succeeded = int (length good), rs_failed = n - int (length good),
       rs_errors = errs, rs_rows = map preview good\<rparr>, None))"

subsection \<open>The write transaction\<close>

text \<open>
  An aborted write: the errors noted before, and the row of the statement that failed. The rows noted
  by the body are reported when the commit fails, too.
\<close>

type_synonym stop = "row_error list \<times> row_error"

type_synonym 'a import_action = "(campus_db, stop, 'a) action"

definition interrupted :: "int \<Rightarrow> row_error" where
  "interrupted row = (row, (hx ''e5afbce585a5e4b8ade696adefbc9a''))"

definition import_tx :: "(nat \<times> row_error list) import_action \<Rightarrow> (nat \<times> row_error list) import_action" where
  "import_tx body c = (case stmt ([], interrupted 0) (\<lambda>d. ((), d)) c of
     (Inl e, c1) \<Rightarrow> (Inl e, c1)
   | (Inr _, c1) \<Rightarrow> (case body c1 of
       (Inl e, c2) \<Rightarrow> (Inl e, c2\<lparr>tables := tables c1\<rparr>)
     | (Inr (k, noted), c2) \<Rightarrow> (case stmt (noted, interrupted 0) (\<lambda>d. ((), d)) c2 of
         (Inl e, c3) \<Rightarrow> (Inl e, c3\<lparr>tables := tables c1\<rparr>)
       | (Inr _, c3) \<Rightarrow> (Inr (k, noted), c3))))"

definition prepare_statements :: "nat \<Rightarrow> unit import_action" where
  "prepare_statements n = dmapM (\<lambda>_. query ([], interrupted 0) (\<lambda>_. ())) (replicate n ())"

definition commit_parsed ::
  "nat \<Rightarrow> ('c list \<Rightarrow> (nat \<times> row_error list) import_action) \<Rightarrow> 'c parsed \<Rightarrow> campus_db conn \<Rightarrow>
   (import_result \<times> bool) \<times> campus_db conn" where
  "commit_parsed prepared body p c = (case p of
     Inl (errs, n, _) \<Rightarrow> ((failed_result n errs, True), c)
   | Inr (good, errs, n) \<Rightarrow>
       if good = [] then ((failed_result n errs, False), c)
       else (case import_tx (dbind (prepare_statements prepared) (\<lambda>_. body good)) c of
           (Inl (noted, e), c') \<Rightarrow> ((failed_result n (errs @ noted @ [e]), True), c')
         | (Inr (k, noted), c') \<Rightarrow> ((\<lparr>rs_total = n, rs_succeeded = int k, rs_failed = n - int k,
             rs_errors = errs @ noted, rs_rows = []\<rparr>, False), c')))"

text \<open>One statement for every clean row; a statement that the database rejects ends the import.\<close>

definition write_row :: "('c \<Rightarrow> campus_db \<Rightarrow> bool \<times> campus_db) \<Rightarrow> int \<times> 'c \<Rightarrow> unit import_action" where
  "write_row f rx = (case rx of (row, x) \<Rightarrow>
     dbind (stmt ([], interrupted row) (f x)) (\<lambda>ok. if ok then dret () else draise ([], interrupted row)))"

definition write_rows :: "('c \<Rightarrow> campus_db \<Rightarrow> bool \<times> campus_db) \<Rightarrow> (int \<times> 'c) list \<Rightarrow> (nat \<times> row_error list) import_action" where
  "write_rows f good = dbind (dmapM (write_row f) good) (\<lambda>_. dret (length good, []))"

text \<open>An error that is wrapped in another; of a message that quotes it the prefix is kept.\<close>

definition on_error :: "'f \<Rightarrow> ('d, 'e, 'a) action \<Rightarrow> ('d, 'f, 'a) action" where
  "on_error f m c = (case m c of (Inl _, c') \<Rightarrow> (Inl f, c') | (Inr x, c') \<Rightarrow> (Inr x, c'))"

definition with_refs ::
  "('d, string, 'a) action \<Rightarrow> ('a \<Rightarrow> 'd conn \<Rightarrow> (import_result \<times> 'b) \<times> 'd conn) \<Rightarrow> 'b \<Rightarrow> 'd conn \<Rightarrow> (import_result \<times> 'b) \<times> 'd conn" where
  "with_refs refs go none c = (case refs c of
     (Inl msg, c') \<Rightarrow> ((\<lparr>rs_total = 0, rs_succeeded = 0, rs_failed = 0, rs_errors = [(0, msg)], rs_rows = []\<rparr>, none), c')
   | (Inr x, c') \<Rightarrow> go x c')"

text \<open>A Go map filled in a loop: the last entry of a key wins.\<close>

definition last_wins :: "('k \<times> 'v) list \<Rightarrow> 'k \<Rightarrow> 'v option" where
  "last_wins xs = map_of (rev xs)"

subsection \<open>Classrooms\<close>

definition classroom_step :: "'k import_env \<Rightarrow> sheet_row \<Rightarrow> string set \<Rightarrow> string + classroom_input \<times> string set" where
  "classroom_step env rec seen = (case parse_int_col env (field rec ''capacity'') ''capacity'' 0 of
     Inl msg \<Rightarrow> Inl msg
   | Inr capacity \<Rightarrow>
     (case normalize_input \<lparr>ci_name = field rec ''name'', ci_building = field rec ''building'', ci_capacity = capacity,
         ci_type = field rec ''type'', ci_floor = field rec ''floor'', ci_campus = field rec ''campus'',
         ci_status = field rec ''status'', ci_description = field rec ''description''\<rparr> of
       (_, Some msg) \<Rightarrow> Inl msg
     | (inp, None) \<Rightarrow>
         if ci_name inp \<in> seen then Inl ((hx ''e69cace69687e4bbb6e58685e9878de5a48de69599e5aea4efbc9a'') @ ci_name inp) else Inr (inp, insert (ci_name inp) seen)))"

definition parse_classrooms :: "'k import_env \<Rightarrow> string \<Rightarrow> (int \<times> classroom_input) parsed" where
  "parse_classrooms env = parse_each env [''name''] (classroom_step env) {}"

definition classroom_preview :: "int \<times> classroom_input \<Rightarrow> preview_row" where
  "classroom_preview r = (let inp = snd r in [(''name'', PText (ci_name inp)), (''building'', PText (ci_building inp)),
     (''capacity'', PInt (ci_capacity inp)), (''type'', PText (ci_type inp)), (''floor'', PText (ci_floor inp)),
     (''campus'', PText (ci_campus inp)), (''status'', PText (ci_status inp)), (''description'', PText (ci_description inp))])"

text \<open>\<open>ON CONFLICT (name) DO UPDATE\<close>: all columns but the name.\<close>

definition upsert_classroom :: "int \<Rightarrow> classroom_input \<Rightarrow> campus_db \<Rightarrow> bool \<times> campus_db" where
  "upsert_classroom now inp d = (case insert_classroom now inp d of
     (Done _, d') \<Rightarrow> (True, d')
   | (Rejected, d') \<Rightarrow> (False, d')
   | (Duplicate, d') \<Rightarrow> (True, d'\<lparr>cd_classrooms := map (\<lambda>c. if cl_name c = ci_name inp
       then classroom_row (cl_id c) (cl_created_at c) inp else c) (cd_classrooms d')\<rparr>))"

definition analyze_classrooms :: "'k import_env \<Rightarrow> string \<Rightarrow> campus_db conn \<Rightarrow> (import_result \<times> string option) \<times> campus_db conn" where
  "analyze_classrooms env payload c = (analyze_parsed classroom_preview (parse_classrooms env payload), c)"

definition commit_classrooms :: "'k import_env \<Rightarrow> string \<Rightarrow> campus_db conn \<Rightarrow> (import_result \<times> bool) \<times> campus_db conn" where
  "commit_classrooms env payload = commit_parsed 1 (write_rows (upsert_classroom (ie_now env))) (parse_classrooms env payload)"

subsection \<open>Administrative classes\<close>

definition admin_key :: "string \<Rightarrow> string \<Rightarrow> string" where
  "admin_key grade name = grade @ ''|'' @ name"

definition admin_class_step :: "sheet_row \<Rightarrow> string set \<Rightarrow> string + admin_class_input \<times> string set" where
  "admin_class_step rec seen =
     (case normalize_admin_class \<lparr>aci_grade = field rec ''grade'', aci_name = field rec ''name'', aci_note = field rec ''note''\<rparr> of
       (_, Some msg) \<Rightarrow> Inl msg
     | (inp, None) \<Rightarrow> (let key = admin_key (aci_grade inp) (aci_name inp)
         in if key \<in> seen then Inl ((hx ''e69cace69687e4bbb6e58685e9878de5a48de8a18ce694bfe78fadefbc9a'') @ aci_grade inp @ ''/'' @ aci_name inp) else Inr (inp, insert key seen)))"

definition parse_admin_classes :: "'k import_env \<Rightarrow> string \<Rightarrow> (int \<times> admin_class_input) parsed" where
  "parse_admin_classes env = parse_each env [''grade'', ''name''] admin_class_step {}"

definition admin_class_preview :: "int \<times> admin_class_input \<Rightarrow> preview_row" where
  "admin_class_preview r = [(''grade'', PText (aci_grade (snd r))), (''name'', PText (aci_name (snd r))), (''note'', PText (aci_note (snd r)))]"

definition upsert_admin_class :: "int \<Rightarrow> admin_class_input \<Rightarrow> campus_db \<Rightarrow> bool \<times> campus_db" where
  "upsert_admin_class now inp d = (case insert_admin_class now inp d of
     (Done _, d') \<Rightarrow> (True, d')
   | (Rejected, d') \<Rightarrow> (False, d')
   | (Duplicate, d') \<Rightarrow> (True, d'\<lparr>cd_admin_classes := map (\<lambda>a. if ac_grade a = aci_grade inp \<and> ac_name a = aci_name inp
       then a\<lparr>ac_note := aci_note inp\<rparr> else a) (cd_admin_classes d')\<rparr>))"

definition analyze_admin_classes :: "'k import_env \<Rightarrow> string \<Rightarrow> campus_db conn \<Rightarrow> (import_result \<times> string option) \<times> campus_db conn" where
  "analyze_admin_classes env payload c = (analyze_parsed admin_class_preview (parse_admin_classes env payload), c)"

definition commit_admin_classes :: "'k import_env \<Rightarrow> string \<Rightarrow> campus_db conn \<Rightarrow> (import_result \<times> bool) \<times> campus_db conn" where
  "commit_admin_classes env payload = commit_parsed 1 (write_rows (upsert_admin_class (ie_now env))) (parse_admin_classes env payload)"

subsection \<open>Course catalog\<close>

definition catalog_step :: "'k import_env \<Rightarrow> sheet_row \<Rightarrow> string set \<Rightarrow> string + catalog_input \<times> string set" where
  "catalog_step env rec seen = (case parse_float_col env (field rec ''credits'') ''credits'' ''0'' of
     Inl msg \<Rightarrow> Inl msg
   | Inr credits \<Rightarrow> (case parse_int_col env (field rec ''total_hours'') ''total_hours'' 0 of
       Inl msg \<Rightarrow> Inl msg
     | Inr hours \<Rightarrow> (case normalize_catalog \<lparr>cai_name = field rec ''name'', cai_code = field rec ''code'', cai_credits = credits,
           cai_total_hours = hours, cai_category = field rec ''category'', cai_exam_type = field rec ''exam_type'',
           cai_description = field rec ''description''\<rparr> of
         (_, Some msg) \<Rightarrow> Inl msg
       | (inp, None) \<Rightarrow>
           if cai_code inp \<in> seen then Inl ((hx ''e69cace69687e4bbb6e58685e9878de5a48de8afbee7a88be4bba3e7a081efbc9a'') @ cai_code inp) else Inr (inp, insert (cai_code inp) seen))))"

definition parse_catalog :: "'k import_env \<Rightarrow> string \<Rightarrow> (int \<times> catalog_input) parsed" where
  "parse_catalog env = parse_each env [''name'', ''code''] (catalog_step env) {}"

definition catalog_preview :: "int \<times> catalog_input \<Rightarrow> preview_row" where
  "catalog_preview r = (let inp = snd r in [(''name'', PText (cai_name inp)), (''code'', PText (cai_code inp)),
     (''credits'', PText (cai_credits inp)), (''totalHours'', PInt (cai_total_hours inp)), (''category'', PText (cai_category inp)),
     (''examType'', PText (cai_exam_type inp)), (''description'', PText (cai_description inp))])"

definition upsert_catalog :: "(string \<Rightarrow> int option) \<Rightarrow> int \<Rightarrow> catalog_input \<Rightarrow> campus_db \<Rightarrow> bool \<times> campus_db" where
  "upsert_catalog pg_numeric now inp d = (case insert_catalog pg_numeric now inp d of
     (Done _, d') \<Rightarrow> (True, d')
   | (Rejected, d') \<Rightarrow> (False, d')
   | (Duplicate, d') \<Rightarrow> (True, d'\<lparr>cd_catalog := map (\<lambda>c. if ca_code c = cai_code inp
       then set_catalog inp (case pg_numeric (cai_credits inp) of None \<Rightarrow> 0 | Some cr \<Rightarrow> cr) c else c) (cd_catalog d')\<rparr>))"

definition analyze_catalog :: "'k import_env \<Rightarrow> string \<Rightarrow> campus_db conn \<Rightarrow> (import_result \<times> string option) \<times> campus_db conn" where
  "analyze_catalog env payload c = (analyze_parsed catalog_preview (parse_catalog env payload), c)"

definition commit_catalog :: "'k import_env \<Rightarrow> string \<Rightarrow> campus_db conn \<Rightarrow> (import_result \<times> bool) \<times> campus_db conn" where
  "commit_catalog env payload =
     commit_parsed 1 (write_rows (upsert_catalog (ie_numeric env) (ie_now env))) (parse_catalog env payload)"

subsection \<open>Offerings\<close>

text \<open>The catalog by code, with the trimmed name, and the teaching classes by trimmed name.\<close>

type_synonym offering_refs = "(string \<Rightarrow> (int \<times> string) option) \<times> (string \<Rightarrow> int option)"

definition load_offering_refs :: "'k::linorder import_env \<Rightarrow> (campus_db, string, offering_refs) action" where
  "load_offering_refs env =
     dbind (on_error (hx ''e58aa0e8bdbde8afbee7a88be79baee5bd95e5a4b1e8b4a5efbc9a'') list_catalog) (\<lambda>cs.
     dbind (on_error (hx ''e58aa0e8bdbde69599e5ada6e78fade5a4b1e8b4a5efbc9a'') (list_teaching_classes (ie_key env))) (\<lambda>ts.
     dret (last_wins (map (\<lambda>c. (ca_code c, (ca_id c, trim_space (ca_name c)))) cs),
           last_wins (map (\<lambda>t. (trim_space (tr_name (tv_row t)), tr_id (tv_row t))) ts))))"

record offering_import =
  om_input :: offering_input
  om_code :: string
  om_course :: string
  om_class :: string

definition natural_key :: "offering_input \<Rightarrow> string" where
  "natural_key inp = itoa (oi_catalog inp) @ ''|'' @ itoa (oi_class inp) @ ''|'' @ oi_semester inp"

definition offering_step ::
  "'k import_env \<Rightarrow> offering_refs \<Rightarrow> sheet_row \<Rightarrow> string set \<Rightarrow> string + offering_import \<times> string set" where
  "offering_step env refs rec seen =
     (let course = trim_space (field rec ''course''); code = trim_space (field rec ''code'');
          class = trim_space (field rec ''teaching_class''); semester = trim_space (field rec ''semester'')
      in if course = [] \<or> code = [] \<or> class = [] \<or> semester = [] then Inl (hx ''636f75727365202f20636f6465202f207465616368696e675f636c617373202f2073656d657374657220e4b8bae7a9ba'')
         else (case fst refs code of
           None \<Rightarrow> Inl ((hx ''e8afbee7a88be4bba3e7a081e4b88de5ad98e59ca8efbc9a'') @ code)
         | Some (catalog, name) \<Rightarrow>
           if course \<noteq> name then Inl ((hx ''e8afbee7a88be5908de7a7b0e4b88ee4bba3e7a081e4b88de7aca6efbc9a'') @ ''code='' @ code @ (hx ''20e79a84e8afbee7a88be4b8bae3808c'') @ name @ (hx ''e3808defbc8ce69687e4bbb6e4b8ade4b8bae3808c'') @ course @ (hx ''e3808d''))
           else (case snd refs class of
             None \<Rightarrow> Inl ((hx ''e69599e5ada6e78fade4b88de5ad98e59ca8efbc9a'') @ class)
           | Some cid \<Rightarrow> (case parse_int_col env (field rec ''max_students'') ''max_students'' 0 of
               Inl msg \<Rightarrow> Inl msg
             | Inr places \<Rightarrow> (case parse_int_col env (field rec ''weekly_hours'') ''weekly_hours'' 0 of
                 Inl msg \<Rightarrow> Inl msg
               | Inr hours \<Rightarrow> (case normalize_offering \<lparr>oi_catalog = catalog, oi_class = cid, oi_teacher = field rec ''teacher'',
                     oi_course_seq = field rec ''course_seq'', oi_teacher_id = field rec ''teacher_id'',
                     oi_teacher_title = field rec ''teacher_title'', oi_college = field rec ''college'', oi_max_students = places,
                     oi_requirement = field rec ''requirement'', oi_weekly_hours = hours, oi_semester = semester,
                     oi_note = field rec ''note''\<rparr> of
                   (_, Some msg) \<Rightarrow> Inl msg
                 | (inp, None) \<Rightarrow>
                     if natural_key inp \<in> seen then Inl (hx ''e69cace69687e4bbb6e58685e9878de5a48de5bc80e8afbeefbc9ae79bb8e5908ce8afbee7a88b2be69599e5ada6e78fad2be5ada6e69c9f'')
                     else Inr (\<lparr>om_input = inp, om_code = code, om_course = course, om_class = class\<rparr>, insert (natural_key inp) seen)))))))"

definition parse_offerings :: "'k import_env \<Rightarrow> offering_refs \<Rightarrow> string \<Rightarrow> (int \<times> offering_import) parsed" where
  "parse_offerings env refs =
     parse_each env [''course'', ''code'', ''teaching_class'', ''semester'', ''teacher''] (offering_step env refs) {}"

definition offering_preview :: "int \<times> offering_import \<Rightarrow> preview_row" where
  "offering_preview r = (let o' = snd r; inp = om_input o' in [(''course'', PText (om_course o')), (''code'', PText (om_code o')),
     (''teachingClass'', PText (om_class o')), (''semester'', PText (oi_semester inp)), (''teacher'', PText (oi_teacher inp)),
     (''courseSeq'', PText (oi_course_seq inp)), (''teacherId'', PText (oi_teacher_id inp)), (''teacherTitle'', PText (oi_teacher_title inp)),
     (''college'', PText (oi_college inp)), (''maxStudents'', PInt (oi_max_students inp)), (''requirement'', PText (oi_requirement inp)),
     (''weeklyHours'', PInt (oi_weekly_hours inp)), (''note'', PText (oi_note inp))])"

definition upsert_offering :: "int \<Rightarrow> offering_input \<Rightarrow> campus_db \<Rightarrow> bool \<times> campus_db" where
  "upsert_offering now inp d = (case insert_offering now inp d of
     (Done _, d') \<Rightarrow> (True, d')
   | (Rejected, d') \<Rightarrow> (False, d')
   | (Duplicate, d') \<Rightarrow> (True, d'\<lparr>cd_offerings := map (\<lambda>f. if same_offering inp f then set_offering inp f else f) (cd_offerings d')\<rparr>))"

definition analyze_offerings :: "'k::linorder import_env \<Rightarrow> string \<Rightarrow> campus_db conn \<Rightarrow> (import_result \<times> string option) \<times> campus_db conn" where
  "analyze_offerings env payload = with_refs (load_offering_refs env)
     (\<lambda>refs c. (analyze_parsed offering_preview (parse_offerings env refs payload), c)) None"

definition commit_offerings :: "'k::linorder import_env \<Rightarrow> string \<Rightarrow> campus_db conn \<Rightarrow> (import_result \<times> bool) \<times> campus_db conn" where
  "commit_offerings env payload = with_refs (load_offering_refs env)
     (\<lambda>refs. commit_parsed 1 (write_rows (\<lambda>o'. upsert_offering (ie_now env) (om_input o'))) (parse_offerings env refs payload)) False"

subsection \<open>Bell-time regimes\<close>

record regime_group =
  rg_name :: string
  rg_month :: int
  rg_day :: int
  rg_periods :: "period_input list"
  rg_row :: int

text \<open>The groups in the order of their first row, and the errors so far.\<close>

definition add_regime_row :: "int \<Rightarrow> regime_group \<Rightarrow> regime_group list \<Rightarrow> string + regime_group list" where
  "add_regime_row row g gs = (case List.find (\<lambda>h. rg_name h = rg_name g) gs of
     None \<Rightarrow> Inr (gs @ [g])
   | Some h \<Rightarrow>
     if rg_month g \<noteq> rg_month h \<or> rg_day g \<noteq> rg_day h
     then Inl ((hx ''e5908ce4b880e4bd9ce681afe588b6e5baa6e3808c'') @ rg_name g @ (hx ''e3808de79a84206566666563746976655f6d6f6e74682f6566666563746976655f64617920e4b88de4b880e887b4''))
     else Inr (map (\<lambda>x. if rg_name x = rg_name g then x\<lparr>rg_periods := rg_periods x @ rg_periods g\<rparr> else x) gs))"

definition regime_row_step ::
  "'k import_env \<Rightarrow> int \<times> sheet_row \<Rightarrow> regime_group list \<times> row_error list \<Rightarrow> regime_group list \<times> row_error list" where
  "regime_row_step env r st = (case (r, st) of ((row, rec), (gs, errs)) \<Rightarrow>
     (let name = field rec ''regime_name'';
          res = (if name = [] then Inl (hx ''726567696d655f6e616d6520e4b8bae7a9ba'')
            else (case parse_int_col env (field rec ''effective_month'') ''effective_month'' 0 of Inl msg \<Rightarrow> Inl msg
            | Inr month \<Rightarrow> (case parse_int_col env (field rec ''effective_day'') ''effective_day'' 0 of Inl msg \<Rightarrow> Inl msg
            | Inr day \<Rightarrow> (case parse_int_col env (field rec ''period_index'') ''period_index'' 0 of Inl msg \<Rightarrow> Inl msg
            | Inr idx \<Rightarrow> add_regime_row row \<lparr>rg_name = name, rg_month = month, rg_day = day,
                rg_periods = [\<lparr>pi_index = idx, pi_start = field rec ''start_time'', pi_end = field rec ''end_time''\<rparr>],
                rg_row = row\<rparr> gs))))
      in (case res of Inl msg \<Rightarrow> (gs, errs @ [(row, msg)]) | Inr gs' \<Rightarrow> (gs', errs))))"

definition check_regime :: "regime_group \<Rightarrow> string option" where
  "check_regime g = (case snd (normalize_regime \<lparr>ri_name = rg_name g, ri_month = rg_month g, ri_day = rg_day g\<rparr>) of
     Some msg \<Rightarrow> Some msg | None \<Rightarrow> normalize_periods (rg_periods g))"

definition parse_regimes :: "'k import_env \<Rightarrow> string \<Rightarrow> regime_group parsed" where
  "parse_regimes env payload =
     (case open_rows env [''regime_name'', ''effective_month'', ''effective_day'', ''period_index'', ''start_time'', ''end_time''] payload of
        Inl e \<Rightarrow> Inl e
      | Inr rows \<Rightarrow> (case fold (regime_row_step env) (zip [2..int (length rows) + 1] rows) ([], []) of (gs, errs) \<Rightarrow>
          Inr (filter (\<lambda>g. check_regime g = None) gs,
            errs @ List.map_filter (\<lambda>g. map_option (Pair (rg_row g)) (check_regime g)) gs, int (length gs))))"

definition regime_preview :: "regime_group \<Rightarrow> preview_row" where
  "regime_preview g = [(''name'', PText (rg_name g)), (''effectiveMonth'', PInt (rg_month g)), (''effectiveDay'', PInt (rg_day g)),
     (''periods'', PPeriods (rg_periods g))]"

text \<open>\<open>INSERT ... ON CONFLICT (name) DO UPDATE ... RETURNING id\<close>.\<close>

definition upsert_regime :: "int \<Rightarrow> regime_input \<Rightarrow> sched_db \<Rightarrow> int option \<times> sched_db" where
  "upsert_regime now inp d = (case insert_regime now inp d of
     (Some i, d') \<Rightarrow> (Some i, d')
   | (None, d') \<Rightarrow> (map_option re_id (List.find (\<lambda>r. re_name r = ri_name inp) (sd_regimes d)),
       d'\<lparr>sd_regimes := map (\<lambda>r. if re_name r = ri_name inp then r\<lparr>re_month := ri_month inp, re_day := ri_day inp\<rparr> else r) (sd_regimes d')\<rparr>))"

definition on_schedule :: "(sched_db \<Rightarrow> 'a \<times> sched_db) \<Rightarrow> campus_db \<Rightarrow> 'a \<times> campus_db" where
  "on_schedule f d = (case f (get_schedule d) of (x, s) \<Rightarrow> (x, put_schedule s d))"

definition write_regime :: "'k import_env \<Rightarrow> regime_group \<Rightarrow> unit import_action" where
  "write_regime env g =
     (let stop = ([], interrupted (rg_row g))
      in dbind (stmt stop (on_schedule (upsert_regime (ie_now env) \<lparr>ri_name = rg_name g, ri_month = rg_month g, ri_day = rg_day g\<rparr>))) (\<lambda>r. case r of
           None \<Rightarrow> draise stop
         | Some i \<Rightarrow>
           dbind (stmt stop (on_schedule (\<lambda>s. ((), delete_periods i s)))) (\<lambda>_.
           dmapM (\<lambda>p. dbind (stmt stop (on_schedule (insert_period (ie_time env) i p))) (\<lambda>ok. if ok then dret () else draise stop)) (rg_periods g))))"

definition write_regimes :: "'k import_env \<Rightarrow> regime_group list \<Rightarrow> (nat \<times> row_error list) import_action" where
  "write_regimes env gs = dbind (dmapM (write_regime env) gs) (\<lambda>_. dret (length gs, []))"

definition analyze_regimes :: "'k import_env \<Rightarrow> string \<Rightarrow> campus_db conn \<Rightarrow> (import_result \<times> string option) \<times> campus_db conn" where
  "analyze_regimes env payload c = (analyze_parsed regime_preview (parse_regimes env payload), c)"

definition commit_regimes :: "'k import_env \<Rightarrow> string \<Rightarrow> campus_db conn \<Rightarrow> (import_result \<times> bool) \<times> campus_db conn" where
  "commit_regimes env payload = commit_parsed 3 (write_regimes env) (parse_regimes env payload)"

subsection \<open>Teaching classes\<close>

record member_ref =
  mr_grade :: string
  mr_name :: string
  mr_row :: int

record teaching_group =
  tg_name :: string
  tg_note :: string
  tg_members :: "member_ref list"
  tg_row :: int

definition add_member_row :: "teaching_group \<Rightarrow> teaching_group list \<Rightarrow> teaching_group list" where
  "add_member_row g gs =
     (if list_ex (\<lambda>h. tg_name h = tg_name g) gs
      then map (\<lambda>h. if tg_name h = tg_name g
        then h\<lparr>tg_note := (if tg_note h = [] then tg_note g else tg_note h), tg_members := tg_members h @ tg_members g\<rparr> else h) gs
      else gs @ [g])"

definition teaching_row_step :: "int \<times> sheet_row \<Rightarrow> teaching_group list \<times> row_error list \<Rightarrow> teaching_group list \<times> row_error list" where
  "teaching_row_step r st = (case (r, st) of ((row, rec), (gs, errs)) \<Rightarrow>
     (let name = field rec ''name''; grade = field rec ''admin_grade''; member = field rec ''admin_name''
      in if name = [] then (gs, errs @ [(row, (hx ''6e616d6520e4b8bae7a9ba''))])
         else if grade = [] \<or> member = [] then (gs, errs @ [(row, (hx ''61646d696e5f6772616465202f2061646d696e5f6e616d6520e4b8bae7a9ba''))])
         else (add_member_row \<lparr>tg_name = name, tg_note = field rec ''note'',
             tg_members = [\<lparr>mr_grade = grade, mr_name = member, mr_row = row\<rparr>], tg_row = row\<rparr> gs, errs)))"

text \<open>What the groups are resolved against: classes by key, teaching classes by name, members, use.\<close>

record teaching_state =
  ts_admin :: "string \<Rightarrow> int option"
  ts_names :: "string \<Rightarrow> int option"
  ts_members :: "int \<Rightarrow> int list"
  ts_in_use :: "int \<Rightarrow> bool"

definition load_admin_class_map :: "(campus_db, string, string \<Rightarrow> int option) action" where
  "load_admin_class_map = query ''load admin classes''
     (\<lambda>d. last_wins (map (\<lambda>a. (admin_key (trim_space (ac_grade a)) (trim_space (ac_name a)), ac_id a)) (cd_admin_classes d)))"

definition load_teaching_state :: "(campus_db, string, teaching_state) action" where
  "load_teaching_state =
     dbind load_admin_class_map (\<lambda>acs.
     dbind (query ''load teaching class state'' (\<lambda>d. last_wins (map (\<lambda>t. (trim_space (tr_name t), tr_id t)) (cd_teaching_classes d)))) (\<lambda>names.
     dbind (query ''load teaching class state'' (\<lambda>d t. sort (members_of d t))) (\<lambda>members.
     dbind (query ''load teaching class state'' (\<lambda>d t. offerings_of_class t d > 0)) (\<lambda>used.
     dret \<lparr>ts_admin = acs, ts_names = names, ts_members = members, ts_in_use = used\<rparr>))))"

record teaching_import =
  ti_name :: string
  ti_note :: string
  ti_ids :: "int list"
  ti_existing :: "int option"
  ti_row :: int
  ti_labels :: "string list"

text \<open>The members of a group, each once: their ids and labels, and the errors of unknown ones.\<close>

fun resolve_members ::
  "(string \<Rightarrow> int option) \<Rightarrow> string set \<Rightarrow> member_ref list \<Rightarrow> (int \<times> string) list \<times> row_error list" where
  "resolve_members acs seen [] = ([], [])"
| "resolve_members acs seen (m # ms) =
     (let key = admin_key (mr_grade m) (mr_name m); label = mr_grade m @ ''/'' @ mr_name m
      in if key \<in> seen then resolve_members acs seen ms
         else (case resolve_members acs (insert key seen) ms of (ids, errs) \<Rightarrow>
           (case acs key of
             None \<Rightarrow> (ids, (mr_row m, (hx ''e8a18ce694bfe78fade4b88de5ad98e59ca8efbc9a'') @ label) # errs)
           | Some i \<Rightarrow> ((i, label) # ids, errs))))"

definition resolve_group :: "teaching_state \<Rightarrow> teaching_group \<Rightarrow> row_error list + teaching_import" where
  "resolve_group ts g = (case resolve_members (ts_admin ts) {} (tg_members g) of (ids, errs) \<Rightarrow>
     if errs \<noteq> [] then Inl errs
     else if ids = [] then Inl [(tg_row g, (hx ''e69599e5ada6e78fade887b3e5b091e99c80e8a681e4b880e4b8aae8a18ce694bfe78fad''))]
     else (let ins = \<lparr>ti_name = tg_name g, ti_note = tg_note g, ti_ids = sort (map fst ids),
               ti_existing = ts_names ts (tg_name g), ti_row = tg_row g, ti_labels = map snd ids\<rparr>
       in case ts_names ts (tg_name g) of
            Some t \<Rightarrow> if ts_in_use ts t \<and> ts_members ts t \<noteq> ti_ids ins
              then Inl [(tg_row g, (hx ''e69599e5ada6e78fade3808c'') @ tg_name g @ (hx ''e3808de5b7b2e8a2abe5bc80e8afbee5bc95e794a8efbc8ce68890e59198e4b88de58fafe4bfaee694b9efbc8ce8afb7e696b0e5bbbae69599e5ada6e78fad''))] else Inr ins
          | None \<Rightarrow> Inr ins))"

fun resolve_groups :: "teaching_state \<Rightarrow> teaching_group list \<Rightarrow> teaching_import list \<times> row_error list" where
  "resolve_groups ts [] = ([], [])"
| "resolve_groups ts (g # gs) = (case resolve_groups ts gs of (cs, errs) \<Rightarrow>
     (case resolve_group ts g of Inl es \<Rightarrow> (cs, es @ errs) | Inr c \<Rightarrow> (c # cs, errs)))"

definition parse_teaching_classes ::
  "'k import_env \<Rightarrow> string \<Rightarrow> campus_db conn \<Rightarrow> teaching_import parsed \<times> campus_db conn" where
  "parse_teaching_classes env payload c =
     (case open_rows env [''name'', ''admin_grade'', ''admin_name''] payload of
        Inl e \<Rightarrow> (Inl e, c)
      | Inr rows \<Rightarrow> (case fold teaching_row_step (zip [2..int (length rows) + 1] rows) ([], []) of (gs, errs) \<Rightarrow>
          let n = int (length gs)
          in if gs = [] then (Inr ([], errs, 0), c)
             else (case load_teaching_state c of
               (Inl msg, c') \<Rightarrow> (Inl (errs @ [interrupted 0], n, msg), c')
             | (Inr ts, c') \<Rightarrow> (case resolve_groups ts gs of (good, es) \<Rightarrow> (Inr (good, errs @ es, n), c')))))"

definition teaching_preview :: "teaching_import \<Rightarrow> preview_row" where
  "teaching_preview t = [(''name'', PText (ti_name t)), (''note'', PText (ti_note t)), (''admin_classes'', PTexts (ti_labels t))]"

text \<open>
  The state of the write loop: how many groups are written, the groups that were skipped, and whether
  the transaction is aborted. PostgreSQL aborts a transaction at its first error: every later
  statement and the commit fail.
\<close>

record write_state =
  ws_written :: nat
  ws_noted :: "row_error list"
  ws_aborted :: bool

definition rewrite_class :: "int \<Rightarrow> teaching_import \<Rightarrow> teaching_class_input \<Rightarrow> write_state \<Rightarrow> write_state import_action" where
  "rewrite_class i t inp ws =
     (let stop = (ws_noted ws, interrupted (ti_row t));
          skip = (\<lambda>msg. dret (ws\<lparr>ws_noted := ws_noted ws @ [(ti_row t, msg)]\<rparr>))
      in dbind (query stop (\<lambda>d. find_teaching_class d i)) (\<lambda>found. case found of
           None \<Rightarrow> skip (hx ''e69599e5ada6e78fade5b7b2e4b88de5ad98e59ca8efbc88e5b9b6e58f91efbc89'')
         | Some _ \<Rightarrow>
           dbind (query stop (offerings_of_class i)) (\<lambda>n.
           dbind (if n > 0 then query stop (\<lambda>d. sort (members_of d i) \<noteq> tci_class_ids inp) else dret False) (\<lambda>differ.
           if differ then skip ((hx ''e69599e5ada6e78fade3808c'') @ ti_name t @ (hx ''e3808de5b7b2e5bc80e8afbeefbc88e5b9b6e58f91efbc89efbc8ce68890e59198e4b88de58fafe4bfaee694b9''))
           else dbind (stmt stop (update_teaching_class_row i inp)) (\<lambda>w. case w of
             Done _ \<Rightarrow>
               dbind (stmt stop (clear_members i)) (\<lambda>_.
               dbind (on_error stop (insert_members i (tci_class_ids inp))) (\<lambda>_.
               dret (ws\<lparr>ws_written := ws_written ws + 1\<rparr>)))
           | _ \<Rightarrow> draise stop)))))"

definition add_class :: "int \<Rightarrow> teaching_import \<Rightarrow> teaching_class_input \<Rightarrow> write_state \<Rightarrow> write_state import_action" where
  "add_class now t inp ws =
     (let stop = (ws_noted ws, interrupted (ti_row t))
      in dbind (stmt stop (insert_teaching_class now inp)) (\<lambda>w. case w of
           Duplicate \<Rightarrow> dret (ws\<lparr>ws_noted := ws_noted ws @ [(ti_row t, (hx ''e69599e5ada6e78fade3808c'') @ tci_name inp @ (hx ''e3808de5b7b2e5ad98e59ca8efbc88e5b9b6e58f91efbc89''))], ws_aborted := True\<rparr>)
         | Rejected \<Rightarrow> draise stop
         | Done i \<Rightarrow>
             dbind (on_error stop (insert_members i (tci_class_ids inp))) (\<lambda>_. dret (ws\<lparr>ws_written := ws_written ws + 1\<rparr>))))"

definition write_class :: "'k import_env \<Rightarrow> teaching_import \<Rightarrow> write_state \<Rightarrow> write_state import_action" where
  "write_class env t ws =
     (case normalize_teaching_class \<lparr>tci_name = ti_name t, tci_note = ti_note t, tci_class_ids = ti_ids t\<rparr> of
        (_, Some msg) \<Rightarrow> dret (ws\<lparr>ws_noted := ws_noted ws @ [(ti_row t, msg)]\<rparr>)
      | (inp, None) \<Rightarrow>
          if ws_aborted ws then draise (ws_noted ws, interrupted (ti_row t))
          else (case ti_existing t of Some i \<Rightarrow> rewrite_class i t inp ws | None \<Rightarrow> add_class (ie_now env) t inp ws))"

fun write_classes :: "'k import_env \<Rightarrow> teaching_import list \<Rightarrow> write_state \<Rightarrow> write_state import_action" where
  "write_classes env [] ws = dret ws"
| "write_classes env (t # ts) ws = dbind (write_class env t ws) (write_classes env ts)"

definition write_teaching_classes :: "'k import_env \<Rightarrow> teaching_import list \<Rightarrow> (nat \<times> row_error list) import_action" where
  "write_teaching_classes env ts =
     dbind (write_classes env ts \<lparr>ws_written = 0, ws_noted = [], ws_aborted = False\<rparr>) (\<lambda>ws.
     if ws_aborted ws then draise (ws_noted ws, interrupted 0) else dret (ws_written ws, ws_noted ws))"

definition analyze_teaching_classes :: "'k import_env \<Rightarrow> string \<Rightarrow> campus_db conn \<Rightarrow> (import_result \<times> string option) \<times> campus_db conn" where
  "analyze_teaching_classes env payload c = (case parse_teaching_classes env payload c of (p, c') \<Rightarrow> (analyze_parsed teaching_preview p, c'))"

definition commit_teaching_classes :: "'k import_env \<Rightarrow> string \<Rightarrow> campus_db conn \<Rightarrow> (import_result \<times> bool) \<times> campus_db conn" where
  "commit_teaching_classes env payload c = (case parse_teaching_classes env payload c of (p, c') \<Rightarrow>
     commit_parsed 0 (write_teaching_classes env) p c')"

subsection \<open>What a write leaves behind\<close>

lemma triple_clean:
  assumes "clean m" and "\<And>d x d'. P d \<Longrightarrow> m (healthy d) = (Inr x, healthy d') \<Longrightarrow> Q x d'"
  shows "triple P m Q (\<lambda>_. True)"
  unfolding triple_def using cleanD [OF assms(1)] assms(2) by (auto split: prod.splits sum.splits)

lemma clean_on_error [clean_intros]: "clean m \<Longrightarrow> clean (on_error f m)"
  by (auto simp: clean_def on_error_def split: prod.splits sum.splits)

lemma on_error_Inr: "on_error f m c = (Inr x, c') \<longleftrightarrow> m c = (Inr x, c')"
  by (auto simp: on_error_def split: prod.splits sum.splits)

lemma reads_on_error [reads_intros]: "reads m \<Longrightarrow> reads (on_error f m)"
  by (auto simp: reads_def on_error_def split: prod.splits sum.splits) (metis snd_conv)+

lemma stmt_nothing: "stmt e (\<lambda>d. ((), d)) c = (r, c') \<Longrightarrow> tables c' = tables c"
  by (auto simp: stmt_def split: list.splits bool.splits)

text \<open>An aborted import leaves the tables as they were.\<close>

lemma import_tx_cases:
  assumes "import_tx body c = (r, c')"
  shows "case r of Inl _ \<Rightarrow> tables c' = tables c
    | Inr x \<Rightarrow> \<exists>c1 c2. tables c1 = tables c \<and> body c1 = (Inr x, c2) \<and> tables c' = tables c2"
proof -
  obtain r1 :: "stop + unit" and c1 where 1: "stmt ([], interrupted 0) (\<lambda>d. ((), d)) c = (r1, c1)" by fastforce
  obtain r2 c2 where 2: "body c1 = (r2, c2)" by fastforce
  show ?thesis
  proof (cases r1)
    case (Inl e)
    then have "import_tx body c = (Inl e, c1)" unfolding import_tx_def 1 by simp
    then show ?thesis using assms stmt_nothing [OF 1] by auto
  next
    case (Inr u)
    then have "import_tx body c = (case body c1 of (Inl e, c2) \<Rightarrow> (Inl e, c2\<lparr>tables := tables c1\<rparr>)
     | (Inr (k, noted), c2) \<Rightarrow> (case stmt (noted, interrupted 0) (\<lambda>d. ((), d)) c2 of
         (Inl e, c3) \<Rightarrow> (Inl e, c3\<lparr>tables := tables c1\<rparr>)
       | (Inr _, c3) \<Rightarrow> (Inr (k, noted), c3)))" unfolding import_tx_def 1 by simp
    note tx = this [unfolded 2]
    show ?thesis
    proof (cases r2)
      case (Inl e)
      then show ?thesis using assms tx stmt_nothing [OF 1] by auto
    next
      case (Inr x)
      obtain k noted where x: "x = (k, noted)" by fastforce
      obtain r3 :: "stop + unit" and c3 where 3: "stmt (noted, interrupted 0) (\<lambda>d. ((), d)) c2 = (r3, c3)" by fastforce
      show ?thesis using assms tx [unfolded Inr x sum.case prod.case 3] 2 Inr x stmt_nothing [OF 1] stmt_nothing [OF 3]
        by (cases r3) (auto, metis)
    qed
  qed
qed

lemma statements_read: "reads (prepare_statements n)"
proof -
  have "reads (dmapM (\<lambda>_. query e (\<lambda>_. ())) xs)" for e and xs :: "unit list"
    proof (induction xs)
    case (Cons x xs)
    then show ?case unfolding dmapM.simps by (intro reads_intros)
  qed (unfold dmapM.simps, rule reads_simple)
  then show ?thesis by (simp add: prepare_statements_def)
qed

lemma import_body:
  assumes "import_tx (dbind (prepare_statements k) (\<lambda>_. body)) c = (Inr x, c')"
  shows "\<exists>c1 c2. tables c1 = tables c \<and> body c1 = (Inr x, c2) \<and> tables c' = tables c2"
proof -
  from import_tx_cases [OF assms] obtain c1 c2 where 1: "tables c1 = tables c" "tables c' = tables c2"
    and run: "dbind (prepare_statements k) (\<lambda>_. body) c1 = (Inr x, c2)" by auto
  from dbind_Inr [OF run] obtain u c3 where "prepare_statements k c1 = (Inr u, c3)" "body c3 = (Inr x, c2)" by blast
  with readsD [OF statements_read, of k c1] 1 show ?thesis by auto
qed

lemma commit_parsed_cases:
  assumes "commit_parsed k body p c = ((r, stopped), c')"
  shows "tables c' = tables c \<or>
    (\<exists>good errs n x c1 c2. p = Inr (good, errs, n) \<and> \<not> stopped \<and> tables c1 = tables c \<and> body good c1 = (Inr x, c2) \<and> tables c' = tables c2)"
proof (cases p)
  case (Inr t)
  obtain good errs n where t: "t = (good, errs, n)" by (cases t)
  obtain res c2 where run: "import_tx (dbind (prepare_statements k) (\<lambda>_. body good)) c = (res, c2)" by fastforce
  show ?thesis
  proof (cases "good = []")
    case False
    then show ?thesis
      using assms run Inr t import_tx_cases [OF run] import_body [of k "body good" c _ c2]
      by (cases res) (auto simp: commit_parsed_def)
  qed (use assms Inr t in \<open>simp add: commit_parsed_def\<close>)
qed (use assms in \<open>auto simp: commit_parsed_def\<close>)

lemma commit_parsed_keeps:
  assumes "\<And>good errs n. p = Inr (good, errs, n) \<Longrightarrow> triple P (body good) (\<lambda>_. P) (\<lambda>_. True)" and "P (tables c)"
  shows "P (tables (snd (commit_parsed k body p c)))"
proof -
  obtain r stopped c' where run: "commit_parsed k body p c = ((r, stopped), c')" by (metis surj_pair)
  from commit_parsed_cases [OF run] show ?thesis
  proof
    assume "\<exists>good errs n x c1 c2. p = Inr (good, errs, n) \<and> \<not> stopped \<and> tables c1 = tables c \<and> body good c1 = (Inr x, c2) \<and> tables c' = tables c2"
    then obtain good errs n x c1 c2 where w: "p = Inr (good, errs, n)" "tables c1 = tables c" "body good c1 = (Inr x, c2)"
      "tables c' = tables c2" by blast
    then show ?thesis using tripleD(1) [OF assms(1) [OF w(1)], of c1 x c2] assms(2) run by simp
  qed (use assms run in simp)
qed

lemma write_rows_triple:
  assumes "\<And>row x d. (row, x) \<in> set good \<Longrightarrow> P d \<Longrightarrow> P (snd (f x d))"
  shows "triple P (write_rows f good) (\<lambda>_. P) (\<lambda>_. True)"
  unfolding write_rows_def
proof (rule triple_dbind [where Q' = "\<lambda>_. P"])
  show "triple P (dmapM (write_row f) good) (\<lambda>_. P) (\<lambda>_. True)"
  proof (rule triple_dmapM)
    fix rx assume "rx \<in> set good"
    then show "triple P (write_row f rx) (\<lambda>_. P) (\<lambda>_. True)"
      unfolding write_row_def using assms
      by (auto split: prod.split intro!: triple_dbind [where Q' = "\<lambda>_. P"] triple_stmt triple_dret triple_draise triple_if)
  qed
qed (rule triple_dret)

subsection \<open>Tables read by their natural key\<close>

definition by_key :: "('r \<Rightarrow> 'k) \<Rightarrow> ('r \<Rightarrow> 'v) \<Rightarrow> 'r list \<Rightarrow> 'k \<Rightarrow> 'v option" where
  "by_key key val rows = map_of (map (\<lambda>r. (key r, val r)) rows)"

lemma by_key_None: "k \<notin> key ` set rows \<Longrightarrow> by_key key val rows k = None"
  by (simp add: by_key_def map_of_eq_None_iff image_image)

lemma by_key_append: "by_key key val (rows @ [r]) = (if key r \<in> key ` set rows then by_key key val rows
    else (by_key key val rows)(key r \<mapsto> val r))"
proof (induction rows)
  case (Cons a rows)
  then show ?case by (auto simp: by_key_def fun_eq_iff)
qed (simp add: by_key_def)

lemma by_key_append_le: "by_key key val rows \<subseteq>\<^sub>m by_key key val (rows @ [r])"
  by (auto simp: by_key_append map_le_def by_key_None)

lemma by_key_same: "(\<And>r. r \<in> set rows \<Longrightarrow> key (g r) = key r \<and> val (g r) = val r) \<Longrightarrow>
    by_key key val (map g rows) = by_key key val rows"
  unfolding by_key_def map_map comp_def by (rule arg_cong [where f = map_of], rule map_cong) auto

lemma by_key_update:
  assumes "k \<in> key ` set rows" and "\<And>r. r \<in> set rows \<Longrightarrow> key r = k \<Longrightarrow> key (g r) = k \<and> val (g r) = v"
  shows "by_key key val (map (\<lambda>r. if key r = k then g r else r) rows) = (by_key key val rows)(k \<mapsto> v)"
proof -
  have "by_key key val (map (\<lambda>r. if key r = k then g r else r) rs) =
      (if k \<in> key ` set rs then (by_key key val rs)(k \<mapsto> v) else by_key key val rs)" if "set rs \<subseteq> set rows" for rs
    using that
  proof (induction rs)
    case (Cons r rs)
    then show ?case using assms(2) [of r] by (auto simp: by_key_def fun_eq_iff)
  qed (simp add: by_key_def)
  then show ?thesis using assms(1) by simp
qed

text \<open>The rows with a key are the one row with its id.\<close>

lemma same_key_row: "distinct (map key rows) \<Longrightarrow> r \<in> set rows \<Longrightarrow> x \<in> set rows \<Longrightarrow> key x = key r \<Longrightarrow> x = r"
  by (auto simp: distinct_map dest: inj_onD)

lemma update_by_key:
  assumes "distinct (map key rows)" and "distinct (map num rows)" and "r \<in> set rows" and "key r = k"
  shows "map (\<lambda>x. if key x = k then g x else x) rows = map (\<lambda>x. if num x = num r then g x else x) rows"
  using assms by (intro map_cong) (auto simp: distinct_map dest: inj_onD)

subsection \<open>Importing a table of upserts\<close>

text \<open>The entries that a list of clean rows asks for: the last row of a key counts.\<close>

definition entries :: "('i \<Rightarrow> 'k) \<Rightarrow> ('i \<Rightarrow> 'v) \<Rightarrow> (int \<times> 'i) list \<Rightarrow> 'k \<Rightarrow> 'v option" where
  "entries key val good = last_wins (map (\<lambda>(_, x). (key x, val x)) good)"

lemma entries_simps [simp]:
  "entries key val [] = Map.empty" "entries key val (rx # good) = [key (snd rx) \<mapsto> val (snd rx)] ++ entries key val good"
  by (auto simp: entries_def last_wins_def fun_eq_iff map_add_def split: prod.split option.split)

text \<open>
  The contract of an upsert: it answers by the input alone, keeps the table's invariant, sets the
  entry of the input's key and no other, and renames no row.
\<close>

locale upsert_table =
  fixes inv :: "campus_db \<Rightarrow> bool" and ok :: "'i \<Rightarrow> bool" and fits :: "'i \<Rightarrow> bool"
    and at :: "campus_db \<Rightarrow> 'k \<Rightarrow> 'v option" and ident :: "campus_db \<Rightarrow> 'k \<Rightarrow> int option"
    and key :: "'i \<Rightarrow> 'k" and val :: "'i \<Rightarrow> 'v" and upsert :: "'i \<Rightarrow> campus_db \<Rightarrow> bool \<times> campus_db"
  assumes keeps: "inv d \<Longrightarrow> ok x \<Longrightarrow> inv (snd (upsert x d))"
    and answer: "fst (upsert x d) = fits x"
    and at_upsert: "inv d \<Longrightarrow> fits x \<Longrightarrow> at (snd (upsert x d)) = (at d)(key x \<mapsto> val x)"
    and ident_upsert: "inv d \<Longrightarrow> ident d \<subseteq>\<^sub>m ident (snd (upsert x d))"
begin

lemma write_row_at:
  assumes "ok (snd rx)"
  shows "triple (\<lambda>d. inv d \<and> at d = m \<and> i \<subseteq>\<^sub>m ident d) (write_row upsert rx)
    (\<lambda>_ d. inv d \<and> at d = m(key (snd rx) \<mapsto> val (snd rx)) \<and> i \<subseteq>\<^sub>m ident d) (\<lambda>_. True)"
  unfolding write_row_def prod.case_eq_if
proof (rule triple_dbind [where Q' = "\<lambda>b d. inv d \<and> i \<subseteq>\<^sub>m ident d \<and> (b \<longrightarrow> at d = m(key (snd rx) \<mapsto> val (snd rx)))"])
  show "triple (\<lambda>d. inv d \<and> at d = m \<and> i \<subseteq>\<^sub>m ident d) (stmt ([], interrupted (fst rx)) (upsert (snd rx)))
     (\<lambda>b d. inv d \<and> i \<subseteq>\<^sub>m ident d \<and> (b \<longrightarrow> at d = m(key (snd rx) \<mapsto> val (snd rx)))) (\<lambda>_. True)"
    using assms keeps at_upsert ident_upsert by (intro triple_stmt) (auto simp: answer intro: map_le_trans)
qed (auto intro!: triple_if triple_dret triple_draise)

lemma write_rows_at:
  assumes "\<forall>rx \<in> set good. ok (snd rx)"
  shows "triple (\<lambda>d. inv d \<and> at d = m \<and> i \<subseteq>\<^sub>m ident d) (write_rows upsert good)
    (\<lambda>x d. x = (length good, []) \<and> inv d \<and> at d = m ++ entries key val good \<and> i \<subseteq>\<^sub>m ident d) (\<lambda>_. True)"
proof -
  have "triple (\<lambda>d. inv d \<and> at d = m \<and> i \<subseteq>\<^sub>m ident d) (dmapM (write_row upsert) xs)
      (\<lambda>_ d. inv d \<and> at d = m ++ entries key val xs \<and> i \<subseteq>\<^sub>m ident d) (\<lambda>_. True)" if "set xs \<subseteq> set good" for xs m
    using that
  proof (induction xs arbitrary: m)
    case Nil
    show ?case unfolding dmapM.simps by (rule triple_dret) simp
  next
    case (Cons rx xs)
    have "m(key (snd rx) \<mapsto> val (snd rx)) ++ entries key val xs = m ++ entries key val (rx # xs)" by (simp add: map_add_assoc [symmetric] map_add_subsumed2)
    then show ?case unfolding dmapM.simps
      using Cons assms by (intro triple_dbind [OF write_row_at]) auto
  qed
  then show ?thesis unfolding write_rows_def by (rule triple_dbind) (auto intro: triple_dret)
qed

text \<open>A commit is all or nothing: it adds the entries of the clean rows, or stops and changes nothing.\<close>

lemma commit_at:
  assumes run: "commit_parsed k (write_rows upsert) p c = ((r, stopped), c')" and inv: "inv (tables c)"
    and ok: "\<And>good errs n. p = Inr (good, errs, n) \<Longrightarrow> \<forall>rx \<in> set good. ok (snd rx)"
  shows "(stopped \<longrightarrow> tables c' = tables c) \<and> (\<not> stopped \<longrightarrow> (\<exists>good errs n. p = Inr (good, errs, n) \<and>
    r = \<lparr>rs_total = n, rs_succeeded = int (length good), rs_failed = n - int (length good), rs_errors = errs, rs_rows = []\<rparr> \<and>
    inv (tables c') \<and> at (tables c') = at (tables c) ++ entries key val good \<and> ident (tables c) \<subseteq>\<^sub>m ident (tables c')))"
proof (cases p)
  case (Inr t)
  obtain good errs n where p: "p = Inr (good, errs, n)" using Inr by (cases t) auto
  obtain res c2 where tx: "import_tx (dbind (prepare_statements k) (\<lambda>_. write_rows upsert good)) c = (res, c2)" by fastforce
  show ?thesis
  proof (cases "good = []")
    case True
    then show ?thesis using run inv p by (auto simp: commit_parsed_def failed_result_def)
  next
    case False
    show ?thesis
    proof (cases res)
      case (Inl e)
      then show ?thesis using run False p tx import_tx_cases [OF tx] by (cases e; cases "fst e") (auto simp: commit_parsed_def)
    next
      case (Inr x)
      from import_body [OF tx [unfolded Inr]] obtain c1 c3 where b: "tables c1 = tables c" "write_rows upsert good c1 = (Inr x, c3)"
        "tables c2 = tables c3" by blast
      have "x = (length good, []) \<and> inv (tables c3) \<and> at (tables c3) = at (tables c) ++ entries key val good \<and>
          ident (tables c) \<subseteq>\<^sub>m ident (tables c3)"
        using tripleD(1) [OF write_rows_at [OF ok [OF p]] _ b(2), of "at (tables c)" "ident (tables c)"] inv b(1) by simp
      then show ?thesis using run False p tx Inr b by (auto simp: commit_parsed_def)
    qed
  qed
qed (use run in \<open>auto simp: commit_parsed_def\<close>)

text \<open>Without faults it stops exactly when some row does not fit its columns.\<close>

lemma write_rows_healthy:
  "\<exists>res d'. write_rows upsert good (healthy d) = (res, healthy d') \<and> (\<forall>x. res = Inr x \<longrightarrow> snd x = []) \<and>
     ((\<exists>x. res = Inr x) \<longleftrightarrow> (\<forall>rx \<in> set good. fits (snd rx)))"
proof -
  have "(\<exists>d'. dmapM (write_row upsert) good (healthy d) = (Inr (), healthy d') \<and> (\<forall>rx \<in> set good. fits (snd rx))) \<or>
      (\<exists>e d'. dmapM (write_row upsert) good (healthy d) = (Inl e, healthy d') \<and> \<not> (\<forall>rx \<in> set good. fits (snd rx)))"
  proof (induction good arbitrary: d)
    case (Cons rx good)
    show ?case
    proof (cases "fits (snd rx)")
      case True
      then have "write_row upsert rx (healthy d) = (Inr (), healthy (snd (upsert (snd rx) d)))"
        by (simp add: write_row_def prod.case_eq_if answer)
      then show ?thesis using Cons [of "snd (upsert (snd rx) d)"] True by auto
    next
      case False
      then have "\<exists>e. write_row upsert rx (healthy d) = (Inl e, healthy (snd (upsert (snd rx) d)))"
        by (simp add: write_row_def prod.case_eq_if answer)
      then show ?thesis using False by auto
    qed
  qed simp
  then show ?thesis unfolding write_rows_def by auto
qed

lemma commit_healthy:
  assumes "commit_parsed k (write_rows upsert) p (healthy d) = ((r, stopped), c')"
  shows "stopped \<longleftrightarrow> (case p of Inl _ \<Rightarrow> True | Inr (good, _, _) \<Rightarrow> \<not> (\<forall>rx \<in> set good. fits (snd rx)))"
proof (cases p)
  case (Inr t)
  obtain good errs n where t: "t = (good, errs, n)" by (cases t)
  obtain res d1 where w: "write_rows upsert good (healthy d) = (res, healthy d1)" "\<And>x. res = Inr x \<Longrightarrow> snd x = []"
    "(\<exists>x. res = Inr x) \<longleftrightarrow> (\<forall>rx \<in> set good. fits (snd rx))" using write_rows_healthy [of good d] by blast
  have "prepare_statements k (healthy d) = (Inr (), healthy d)"
    unfolding prepare_statements_def by (induction k) simp_all
  then have b: "dbind (prepare_statements k) (\<lambda>_. write_rows upsert good) (healthy d) = (res, healthy d1)" using w by simp
  show ?thesis
  proof (cases res)
    case (Inl e)
    then have "import_tx (dbind (prepare_statements k) (\<lambda>_. write_rows upsert good)) (healthy d) = (Inl e, healthy d)"
      using b by (simp add: import_tx_def del: dbind_simps)
    then show ?thesis using assms Inl w(3) Inr t by (cases e; cases "good = []") (auto simp: commit_parsed_def)
  next
    case (Inr x)
    then have "import_tx (dbind (prepare_statements k) (\<lambda>_. write_rows upsert good)) (healthy d) = (Inr x, healthy d1)"
      using b by (cases x) (simp add: import_tx_def del: dbind_simps)
    then show ?thesis using assms Inr w(3) \<open>p = Inr t\<close> t by (cases x; cases "good = []") (auto simp: commit_parsed_def)
  qed
qed (use assms in \<open>auto simp: commit_parsed_def\<close>)

end

text \<open>Importing the same rows again succeeds again and changes no entry.\<close>

context upsert_table begin

lemma commit_again:
  assumes run: "commit_parsed k (write_rows upsert) p (healthy d) = ((r, False), c')" and "inv d"
    and ok: "\<And>good errs n. p = Inr (good, errs, n) \<Longrightarrow> \<forall>rx \<in> set good. ok (snd rx)"
  shows "\<exists>c''. commit_parsed k (write_rows upsert) p (healthy (tables c')) = ((r, False), c'') \<and> at (tables c'') = at (tables c')"
proof -
  obtain r2 s2 c'' where run2: "commit_parsed k (write_rows upsert) p (healthy (tables c')) = ((r2, s2), c'')" by (metis surj_pair)
  have s2: "\<not> s2" using commit_healthy [OF run] commit_healthy [OF run2] by (simp split: sum.splits)
  from commit_at [OF run] assms(2) ok obtain good errs n where p: "p = Inr (good, errs, n)"
    and r: "r = \<lparr>rs_total = n, rs_succeeded = int (length good), rs_failed = n - int (length good), rs_errors = errs, rs_rows = []\<rparr>"
    and inv: "inv (tables c')" and at: "at (tables c') = at d ++ entries key val good"
    by auto
  from commit_at [OF run2] inv ok s2 p r have "r2 = r" "at (tables c'') = at (tables c') ++ entries key val good" by auto
  then show ?thesis using run2 s2 at by (simp add: map_add_assoc [symmetric] map_add_subsumed2)
qed

end

subsection \<open>The four tables\<close>

lemma upsert_classroom_cases:
  "upsert_classroom now inp d = (if \<not> fits32 (ci_capacity inp) then (False, d)
     else (let d' = d\<lparr>cd_next_classroom := cd_next_classroom d + 1\<rparr> in
       if \<not> in_widths inp then (False, d')
       else if ci_name inp \<in> cl_name ` set (cd_classrooms d)
       then (True, d'\<lparr>cd_classrooms := map (\<lambda>c. if cl_name c = ci_name inp
         then classroom_row (cl_id c) (cl_created_at c) inp else c) (cd_classrooms d)\<rparr>)
       else (True, d'\<lparr>cd_classrooms := cd_classrooms d @ [classroom_row (cd_next_classroom d) now inp]\<rparr>)))"
  by (simp add: upsert_classroom_def insert_classroom_def Let_def)

lemma upsert_classroom_keeps:
  assumes inv: "rooms_inv d" and "good_room inp"
  shows "rooms_inv (snd (upsert_classroom now inp d))"
proof (cases "insert_classroom now inp d")
  case (Pair w d')
  have d': "rooms_inv d'" using rooms_inv_insert [OF assms(2) inv, of now] Pair by simp
  show ?thesis
  proof (cases w)
    case Duplicate
    then have rows: "cd_classrooms d' = cd_classrooms d" and fits: "fits32 (ci_capacity inp)" "in_widths inp"
      and dup: "ci_name inp \<in> cl_name ` set (cd_classrooms d')"
      using Pair by (auto simp: insert_classroom_def split: if_splits)
    from dup obtain c where c: "c \<in> set (cd_classrooms d')" "cl_name c = ci_name inp" by auto
    have u: "map (\<lambda>x. if cl_name x = ci_name inp then classroom_row (cl_id x) (cl_created_at x) inp else x) (cd_classrooms d') =
        map (\<lambda>x. if cl_id x = cl_id c then classroom_row (cl_id c) (cl_created_at x) inp else x) (cd_classrooms d')"
      using update_by_key [of cl_name "cd_classrooms d'" cl_id c "ci_name inp" "\<lambda>x. classroom_row (cl_id x) (cl_created_at x) inp"]
        c d' by (simp add: rooms_inv_def cong: if_cong)
    have names: "distinct (map cl_name (cd_classrooms d'))" using d' by (simp add: rooms_inv_def)
    have "\<not> list_ex (\<lambda>x. cl_id x \<noteq> cl_id c \<and> cl_name x = ci_name inp) (cd_classrooms d')"
      using same_key_row [OF names c(1)] c(2) by (auto simp: list_ex_iff)
    then have "snd (upsert_classroom now inp d) = snd (update_classroom_row (cl_id c) inp d')"
      using Pair Duplicate u c fits by (simp add: upsert_classroom_def update_classroom_row_def)
    then show ?thesis using rooms_inv_update [OF assms(2) d'] by simp
  qed (use Pair d' in \<open>simp_all add: upsert_classroom_def\<close>)
qed

definition room_entries :: "campus_db \<Rightarrow> string \<Rightarrow> classroom_input option" where
  "room_entries d = by_key cl_name input_of (cd_classrooms d)"

definition room_ids :: "campus_db \<Rightarrow> string \<Rightarrow> int option" where
  "room_ids d = by_key cl_name cl_id (cd_classrooms d)"

interpretation room_table: upsert_table rooms_inv good_room "\<lambda>x. fits32 (ci_capacity x) \<and> in_widths x" room_entries room_ids
  ci_name "\<lambda>x. x" "upsert_classroom now" for now
proof unfold_locales
  fix d x
  show "fst (upsert_classroom now x d) = (fits32 (ci_capacity x) \<and> in_widths x)"
    by (simp add: upsert_classroom_cases Let_def)
  show "rooms_inv d \<Longrightarrow> good_room x \<Longrightarrow> rooms_inv (snd (upsert_classroom now x d))"
    by (rule upsert_classroom_keeps)
  show "room_ids d \<subseteq>\<^sub>m room_ids (snd (upsert_classroom now x d))"
    by (simp add: upsert_classroom_cases Let_def room_ids_def by_key_append_le by_key_same)
  assume "fits32 (ci_capacity x) \<and> in_widths x"
  then show "room_entries (snd (upsert_classroom now x d)) = (room_entries d)(ci_name x \<mapsto> x)"
    by (simp add: upsert_classroom_cases Let_def room_entries_def by_key_append by_key_update)
qed

lemma upsert_admin_class_write:
  assumes "org_inv d" and valid: "accepted normalize_admin_class inp"
  shows "study_write d (snd (upsert_admin_class now inp d))"
proof (cases "insert_admin_class now inp d")
  case (Pair w d')
  have ins: "study_write d d'"
    using class_write.insert_admin [OF valid [unfolded accepted_def], of d now] Pair by (simp add: study_write_def)
  show ?thesis
  proof (cases w)
    case Duplicate
    let ?key = "\<lambda>a. (ac_grade a, ac_name a)"
    from Duplicate Pair have d': "d' = d" and fits: "pg_text 64 (aci_grade inp)" "pg_text 64 (aci_name inp)" "pg_text 255 (aci_note inp)"
      and dup: "list_ex (\<lambda>a. ac_grade a = aci_grade inp \<and> ac_name a = aci_name inp) (cd_admin_classes d)"
      by (auto simp: insert_admin_class_def split: if_splits)
    from dup obtain a where a: "a \<in> set (cd_admin_classes d)" "?key a = (aci_grade inp, aci_name inp)" by (auto simp: list_ex_iff)
    have only: "x = a" if "x \<in> set (cd_admin_classes d)" "ac_id x = ac_id a \<or> ?key x = ?key a" for x
      using that a(1) assms same_key_row [of ?key "cd_admin_classes d" a x] same_key_row [of ac_id "cd_admin_classes d" a x]
      by (auto simp: org_inv_def)
    have u: "map (\<lambda>x. if ac_grade x = aci_grade inp \<and> ac_name x = aci_name inp then x\<lparr>ac_note := aci_note inp\<rparr> else x) (cd_admin_classes d) =
        map (\<lambda>x. if ac_id x = ac_id a then x\<lparr>ac_grade := aci_grade inp, ac_name := aci_name inp, ac_note := aci_note inp\<rparr> else x) (cd_admin_classes d)"
    proof (rule map_cong [OF refl])
      fix x assume "x \<in> set (cd_admin_classes d)"
      then show "(if ac_grade x = aci_grade inp \<and> ac_name x = aci_name inp then x\<lparr>ac_note := aci_note inp\<rparr> else x) =
          (if ac_id x = ac_id a then x\<lparr>ac_grade := aci_grade inp, ac_name := aci_name inp, ac_note := aci_note inp\<rparr> else x)"
        using only [of x] a(2) by (cases x) auto
    qed
    have "\<not> list_ex (\<lambda>x. ac_id x \<noteq> ac_id a \<and> ac_grade x = aci_grade inp \<and> ac_name x = aci_name inp) (cd_admin_classes d)"
      using only a(2) by (fastforce simp: list_ex_iff)
    then have "snd (upsert_admin_class now inp d) = snd (update_admin_class_row (ac_id a) inp d)"
      using Pair Duplicate d' u fits
      by (simp add: upsert_admin_class_def update_admin_class_row_def nul_free_def pg_text_def)
    then show ?thesis using class_write.update_admin [OF valid [unfolded accepted_def], of d "ac_id a"] by (simp add: study_write_def)
  qed (use Pair ins in \<open>simp_all add: upsert_admin_class_def\<close>)
qed

text \<open>The columns of a row: the row without its id and creation time.\<close>

definition admin_class_entries :: "campus_db \<Rightarrow> string \<times> string \<Rightarrow> string option" where
  "admin_class_entries d = by_key (\<lambda>a. (ac_grade a, ac_name a)) ac_note (cd_admin_classes d)"

definition admin_class_ids :: "campus_db \<Rightarrow> string \<times> string \<Rightarrow> int option" where
  "admin_class_ids d = by_key (\<lambda>a. (ac_grade a, ac_name a)) ac_id (cd_admin_classes d)"

definition admin_class_fits :: "admin_class_input \<Rightarrow> bool" where
  "admin_class_fits inp \<longleftrightarrow> pg_text 64 (aci_grade inp) \<and> pg_text 64 (aci_name inp) \<and> pg_text 255 (aci_note inp)"

lemma upsert_admin_class_cases:
  "upsert_admin_class now inp d = (if \<not> admin_class_fits inp then (False, d)
     else if (aci_grade inp, aci_name inp) \<in> (\<lambda>a. (ac_grade a, ac_name a)) ` set (cd_admin_classes d)
     then (True, d\<lparr>cd_admin_classes := map (\<lambda>a. if (ac_grade a, ac_name a) = (aci_grade inp, aci_name inp)
       then a\<lparr>ac_note := aci_note inp\<rparr> else a) (cd_admin_classes d)\<rparr>)
     else (True, d\<lparr>cd_admin_classes := cd_admin_classes d @ [\<lparr>ac_id = cd_next_admin_class d, ac_grade = aci_grade inp,
             ac_name = aci_name inp, ac_note = aci_note inp, ac_created_at = now\<rparr>],
          cd_next_admin_class := cd_next_admin_class d + 1\<rparr>))"
  by (auto simp: upsert_admin_class_def insert_admin_class_def admin_class_fits_def list_ex_iff image_iff)

interpretation admin_class_table: upsert_table study_inv "accepted normalize_admin_class" admin_class_fits admin_class_entries admin_class_ids
  "\<lambda>x. (aci_grade x, aci_name x)" aci_note "upsert_admin_class now" for now
proof unfold_locales
  fix d x
  show "fst (upsert_admin_class now x d) = admin_class_fits x"
    by (simp add: upsert_admin_class_cases)
  show "study_inv d \<Longrightarrow> accepted normalize_admin_class x \<Longrightarrow> study_inv (snd (upsert_admin_class now x d))"
    using study_step_keeps [OF study_write_step [OF upsert_admin_class_write]] by (simp add: study_inv_def)
  show "admin_class_ids d \<subseteq>\<^sub>m admin_class_ids (snd (upsert_admin_class now x d))"
    by (simp add: upsert_admin_class_cases admin_class_ids_def by_key_append_le by_key_same del: prod.inject)
  assume "admin_class_fits x"
  then show "admin_class_entries (snd (upsert_admin_class now x d)) = (admin_class_entries d)((aci_grade x, aci_name x) \<mapsto> aci_note x)"
    by (simp add: upsert_admin_class_cases admin_class_entries_def by_key_append by_key_update del: prod.inject)
qed

definition catalog_fits :: "(string \<Rightarrow> int option) \<Rightarrow> catalog_input \<Rightarrow> bool" where
  "catalog_fits pg_numeric inp \<longleftrightarrow> pg_numeric (cai_credits inp) \<noteq> None \<and> texts_fit (catalog_texts inp) \<and> fits32 (cai_total_hours inp)"

definition catalog_value :: "(string \<Rightarrow> int option) \<Rightarrow> catalog_input \<Rightarrow> catalog_course" where
  "catalog_value pg_numeric inp =
     set_catalog inp (case pg_numeric (cai_credits inp) of None \<Rightarrow> 0 | Some cr \<Rightarrow> cr) (blank_catalog 0 0)"

definition catalog_entries :: "campus_db \<Rightarrow> string \<Rightarrow> catalog_course option" where
  "catalog_entries d = by_key ca_code (\<lambda>c. c\<lparr>ca_id := 0, ca_created_at := 0\<rparr>) (cd_catalog d)"

definition catalog_ids :: "campus_db \<Rightarrow> string \<Rightarrow> int option" where
  "catalog_ids d = by_key ca_code ca_id (cd_catalog d)"

lemma set_catalog_value: "(set_catalog inp cr c)\<lparr>ca_id := 0, ca_created_at := 0\<rparr> = set_catalog inp cr (blank_catalog 0 0)"
  by (cases c) (simp add: set_catalog_def blank_catalog_def)

lemma upsert_catalog_cases:
  "upsert_catalog pg_numeric now inp d = (if \<not> catalog_fits pg_numeric inp then (False, d)
     else if cai_code inp \<in> ca_code ` set (cd_catalog d)
     then (True, d\<lparr>cd_catalog := map (\<lambda>c. if ca_code c = cai_code inp
       then set_catalog inp (the (pg_numeric (cai_credits inp))) c else c) (cd_catalog d)\<rparr>)
     else (True, d\<lparr>cd_catalog := cd_catalog d @ [set_catalog inp (the (pg_numeric (cai_credits inp))) (blank_catalog (cd_next_catalog d) now)],
          cd_next_catalog := cd_next_catalog d + 1\<rparr>))"
  by (auto simp: upsert_catalog_def insert_catalog_def catalog_fits_def list_ex_iff image_iff split: option.split)

lemma upsert_catalog_write:
  assumes "course_inv d" and valid: "accepted normalize_catalog inp"
  shows "study_write d (snd (upsert_catalog pg_numeric now inp d))"
proof (cases "catalog_fits pg_numeric inp \<and> cai_code inp \<in> ca_code ` set (cd_catalog d)")
  case True
  then obtain c cr where c: "c \<in> set (cd_catalog d)" "ca_code c = cai_code inp" and cr: "pg_numeric (cai_credits inp) = Some cr"
    and fits: "texts_fit (catalog_texts inp)" "fits32 (cai_total_hours inp)" by (auto simp: catalog_fits_def)
  have ids: "distinct (map ca_code (cd_catalog d))" "distinct (map ca_id (cd_catalog d))" using assms by (auto simp: course_inv_def)
  have "\<not> list_ex (\<lambda>x. ca_id x \<noteq> ca_id c \<and> ca_code x = cai_code inp) (cd_catalog d)"
    using same_key_row [OF ids(1) c(1)] c(2) by (auto simp: list_ex_iff)
  moreover have "find_catalog d (ca_id c) \<noteq> None" using c(1) by (auto simp: find_catalog_def find_None_iff)
  moreover have "nul_free (map fst (catalog_texts inp))" using fits by (simp add: nul_free_def catalog_texts_def texts_fit_def pg_text_def)
  ultimately have "snd (upsert_catalog pg_numeric now inp d) = snd (update_catalog_row pg_numeric (ca_id c) inp d)"
    using True cr fits update_by_key [OF ids c] by (simp add: upsert_catalog_cases update_catalog_row_def del: not_None_eq)
  then show ?thesis
    using course_write.update_catalog [OF valid [unfolded accepted_def], of d pg_numeric "ca_id c"] by (simp add: study_write_def)
next
  case False
  then have "snd (upsert_catalog pg_numeric now inp d) = snd (insert_catalog pg_numeric now inp d)"
    by (auto simp: upsert_catalog_def insert_catalog_def catalog_fits_def list_ex_iff image_iff split: option.splits)
  then show ?thesis
    using course_write.insert_catalog [OF valid [unfolded accepted_def], of d pg_numeric now] by (simp add: study_write_def)
qed

interpretation catalog_table: upsert_table study_inv "accepted normalize_catalog" "catalog_fits pg_numeric" catalog_entries catalog_ids
  cai_code "catalog_value pg_numeric" "upsert_catalog pg_numeric now" for pg_numeric now
proof unfold_locales
  fix d x
  show "fst (upsert_catalog pg_numeric now x d) = catalog_fits pg_numeric x"
    by (simp add: upsert_catalog_cases)
  show "study_inv d \<Longrightarrow> accepted normalize_catalog x \<Longrightarrow> study_inv (snd (upsert_catalog pg_numeric now x d))"
    using study_step_keeps [OF study_write_step [OF upsert_catalog_write]] by (simp add: study_inv_def)
  show "catalog_ids d \<subseteq>\<^sub>m catalog_ids (snd (upsert_catalog pg_numeric now x d))"
    by (simp add: upsert_catalog_cases catalog_ids_def by_key_append_le by_key_same)
  assume fits: "catalog_fits pg_numeric x"
  then have v: "catalog_value pg_numeric x = set_catalog x (the (pg_numeric (cai_credits x))) (blank_catalog 0 0)"
    by (auto simp: catalog_value_def catalog_fits_def)
  show "catalog_entries (snd (upsert_catalog pg_numeric now x d)) = (catalog_entries d)(cai_code x \<mapsto> catalog_value pg_numeric x)"
    using fits by (simp add: upsert_catalog_cases catalog_entries_def by_key_append by_key_update set_catalog_value v)
qed

definition offering_fits :: "offering_input \<Rightarrow> bool" where
  "offering_fits inp \<longleftrightarrow> texts_fit (offering_texts inp) \<and> offering_ints_fit inp"

definition offering_value :: "offering_input \<Rightarrow> offering" where
  "offering_value inp = set_offering inp (blank_offering 0 0)"

definition offering_entries :: "campus_db \<Rightarrow> int \<times> int \<times> string \<Rightarrow> offering option" where
  "offering_entries d = by_key offering_key (\<lambda>f. f\<lparr>of_id := 0, of_created_at := 0\<rparr>) (cd_offerings d)"

definition offering_ids :: "campus_db \<Rightarrow> int \<times> int \<times> string \<Rightarrow> int option" where
  "offering_ids d = by_key offering_key of_id (cd_offerings d)"

lemma set_offering_value: "(set_offering inp f)\<lparr>of_id := 0, of_created_at := 0\<rparr> = offering_value inp"
  by (cases f) (simp add: offering_value_def set_offering_def blank_offering_def)

lemma upsert_offering_cases:
  "upsert_offering now inp d = (if \<not> offering_fits inp then (False, d)
     else if input_key inp \<in> offering_key ` set (cd_offerings d)
     then (True, d\<lparr>cd_offerings := map (\<lambda>f. if offering_key f = input_key inp then set_offering inp f else f) (cd_offerings d)\<rparr>)
     else (True, d\<lparr>cd_offerings := cd_offerings d @ [set_offering inp (blank_offering (cd_next_offering d) now)],
          cd_next_offering := cd_next_offering d + 1\<rparr>))"
  by (auto simp: upsert_offering_def insert_offering_def offering_fits_def list_ex_iff image_iff same_offering_key)

lemma upsert_offering_write:
  assumes "course_inv d" and there: "find_teaching_class d (oi_class inp) \<noteq> None" and valid: "accepted normalize_offering inp"
  shows "snd (upsert_offering now inp d) = d \<or> study_write d (snd (upsert_offering now inp d))"
proof (cases "offering_fits inp \<and> input_key inp \<in> offering_key ` set (cd_offerings d)")
  case True
  then obtain f where f: "f \<in> set (cd_offerings d)" "offering_key f = input_key inp"
    and fits: "texts_fit (offering_texts inp)" "offering_ints_fit inp" by (auto simp: offering_fits_def)
  have ids: "distinct (map offering_key (cd_offerings d))" "distinct (map of_id (cd_offerings d))"
    using assms(1) by (auto simp: course_inv_def)
  have "\<not> list_ex (\<lambda>x. of_id x \<noteq> of_id f \<and> same_offering inp x) (cd_offerings d)"
    using same_key_row [OF ids(1) f(1)] f(2) by (auto simp: list_ex_iff same_offering_key)
  moreover have "find_offering d (of_id f) \<noteq> None" using f(1) by (auto simp: find_offering_def find_None_iff)
  moreover have "nul_free (map fst (offering_texts inp))" using fits by (simp add: nul_free_def offering_texts_def texts_fit_def pg_text_def)
  ultimately have "update_offering_row (of_id f) inp d = (Done (), snd (upsert_offering now inp d))"
    using True fits update_by_key [OF ids f] by (simp add: upsert_offering_cases update_offering_row_def del: not_None_eq)
  then have "update_offering_tx (of_id f) inp (healthy d) = (Inr (), healthy (snd (upsert_offering now inp d)))"
    using there by (simp add: update_offering_tx_def dbind_lock_teaching_class)
  from course_write.update_offering [OF valid [unfolded accepted_def] this] show ?thesis by (simp add: study_write_def)
next
  case False
  obtain w d' where row: "insert_offering now inp d = (w, d')" by fastforce
  then have d': "snd (upsert_offering now inp d) = d'" and w: "w = Rejected \<and> d' = d \<or> (\<exists>i. w = Done i)"
    using False by (auto simp: upsert_offering_def insert_offering_def offering_fits_def list_ex_iff image_iff same_offering_key
        split: if_splits)
  from w show ?thesis
  proof
    assume "\<exists>i. w = Done i"
    then obtain i where "create_offering_tx now inp (healthy d) = (Inr i, healthy d')"
      using there row by (auto simp: create_offering_tx_def dbind_lock_teaching_class)
    from course_write.create_offering [OF valid [unfolded accepted_def] this] show ?thesis by (simp add: study_write_def d')
  qed (simp add: d')
qed

lemma upsert_offering_frame [simp]: "cd_teaching_classes (snd (upsert_offering now inp d)) = cd_teaching_classes d"
  "cd_catalog (snd (upsert_offering now inp d)) = cd_catalog d"
  by (simp_all add: upsert_offering_cases)

text \<open>The teaching classes of the clean rows are there: they were read before the write.\<close>

definition offering_ready :: "teaching_class_row list \<Rightarrow> offering_import \<Rightarrow> bool" where
  "offering_ready ts x \<longleftrightarrow> oi_class (om_input x) \<in> tr_id ` set ts \<and> accepted normalize_offering (om_input x)"

lemma upsert_offering_keeps:
  assumes "study_inv d" and "offering_ready (cd_teaching_classes d) x"
  shows "snd (upsert_offering now (om_input x) d) = d \<or> study_write d (snd (upsert_offering now (om_input x) d))"
    and "study_inv (snd (upsert_offering now (om_input x) d))"
proof -
  have "find_teaching_class d (oi_class (om_input x)) \<noteq> None"
    using assms(2) by (auto simp: offering_ready_def find_teaching_class_def find_None_iff)
  then show w: "snd (upsert_offering now (om_input x) d) = d \<or> study_write d (snd (upsert_offering now (om_input x) d))"
    using assms by (intro upsert_offering_write) (simp_all add: offering_ready_def study_inv_def)
  then show "study_inv (snd (upsert_offering now (om_input x) d))" using assms(1) study_step_keeps study_write_step by metis
qed

interpretation offering_table: upsert_table "\<lambda>d. study_inv d \<and> cd_teaching_classes d = ts \<and> cd_catalog d = cs" "offering_ready ts"
  "\<lambda>x. offering_fits (om_input x)" offering_entries offering_ids
  "\<lambda>x. input_key (om_input x)" "\<lambda>x. offering_value (om_input x)" "\<lambda>x. upsert_offering now (om_input x)" for ts cs now
proof unfold_locales
  fix d and x :: offering_import
  show "fst (upsert_offering now (om_input x) d) = offering_fits (om_input x)"
    by (simp add: upsert_offering_cases)
  show "study_inv (snd (upsert_offering now (om_input x) d)) \<and> cd_teaching_classes (snd (upsert_offering now (om_input x) d)) = ts \<and>
      cd_catalog (snd (upsert_offering now (om_input x) d)) = cs"
    if "study_inv d \<and> cd_teaching_classes d = ts \<and> cd_catalog d = cs" "offering_ready ts x"
    using that upsert_offering_keeps(2) by simp
  show "offering_ids d \<subseteq>\<^sub>m offering_ids (snd (upsert_offering now (om_input x) d))"
    by (simp add: upsert_offering_cases offering_ids_def by_key_append_le by_key_same)
  assume "offering_fits (om_input x)"
  then show "offering_entries (snd (upsert_offering now (om_input x) d)) = (offering_entries d)(input_key (om_input x) \<mapsto> offering_value (om_input x))"
    by (simp add: upsert_offering_cases offering_entries_def by_key_append by_key_update set_offering_value)
qed

subsection \<open>The row loops\<close>

text \<open>
  Every row ends up once, in order, among the clean rows or among the errors; the keys of the clean
  rows differ.
\<close>

locale keyed_rows =
  fixes step :: "sheet_row \<Rightarrow> 'k set \<Rightarrow> string + 'c \<times> 'k set" and key :: "'c \<Rightarrow> 'k" and ok :: "'c \<Rightarrow> bool"
  assumes step_key: "step rec seen = Inr (x, seen') \<Longrightarrow> key x \<notin> seen \<and> seen' = insert (key x) seen \<and> ok x"
begin

lemma scan_ok:
  "scan_rows step n rows seen = (good, errs) \<Longrightarrow>
     (\<forall>rx \<in> set good. ok (snd rx) \<and> key (snd rx) \<notin> seen) \<and> distinct (map (\<lambda>rx. key (snd rx)) good)"
proof (induction rows arbitrary: n seen good errs)
  case (Cons rec rows)
  show ?case
  proof (cases "step rec seen")
    case (Inl msg)
    then show ?thesis using Cons by (auto split: prod.splits)
  next
    case (Inr t)
    obtain x seen' where t: "t = (x, seen')" by fastforce
    obtain good' errs' where rest: "scan_rows step (n + 1) rows seen' = (good', errs')" by fastforce
    show ?thesis using Cons.IH [OF rest] Cons.prems Inr t rest step_key [of rec seen x seen'] by fastforce
  qed
qed simp

end

lemma scan_rows_accept:
  assumes "\<And>rec seen x seen'. step rec seen = Inr (x, seen') \<Longrightarrow> good_input x"
  shows "scan_rows step n rows seen = (good, errs) \<Longrightarrow> \<forall>rx \<in> set good. good_input (snd rx)"
proof (induction rows arbitrary: n seen good errs)
  case (Cons rec rows)
  obtain seen' good' errs' where rest: "scan_rows step (n + 1) rows seen' = (good', errs')"
    and now: "(\<exists>x. good = (n, x) # good' \<and> step rec seen = Inr (x, seen')) \<or> good = good'"
    using Cons.prems by (auto split: sum.splits prod.splits)
  then show ?case using Cons.IH [OF rest] assms by auto
qed simp

lemma parse_each_accepts:
  assumes "\<And>rec seen x seen'. step rec seen = Inr (x, seen') \<Longrightarrow> good_input x"
    and "parse_each env cols step s payload = Inr (good, errs, n)"
  shows "\<forall>rx \<in> set good. good_input (snd rx)"
proof -
  obtain rows where "scan_rows step 2 rows s = (good, errs)"
    using assms(2) by (auto simp: parse_each_def split: sum.splits prod.splits)
  from scan_rows_accept [OF assms(1) this] show ?thesis .
qed

text \<open>The clean rows carry inputs that the validation of the API let through.\<close>

lemma parse_accepted:
  "parse_admin_classes env payload = Inr (good, errs, n) \<Longrightarrow> \<forall>rx \<in> set good. accepted normalize_admin_class (snd rx)"
  "parse_catalog env payload = Inr (good2, errs, n) \<Longrightarrow> \<forall>rx \<in> set good2. accepted normalize_catalog (snd rx)"
  "parse_offerings env refs payload = Inr (good3, errs, n) \<Longrightarrow> \<forall>rx \<in> set good3. accepted normalize_offering (om_input (snd rx))"
  unfolding parse_admin_classes_def parse_catalog_def parse_offerings_def
  by (erule parse_each_accepts [rotated],
    (auto simp: admin_class_step_def catalog_step_def offering_step_def Let_def intro: normalized_again
      split: if_splits option.splits sum.splits prod.splits)[1])+

lemma scan_rows_numbers:
  "scan_rows step n rows s = (good, errs) \<Longrightarrow>
     sort (map fst good @ map fst errs) = [n..n + int (length rows) - 1] \<and> sorted (map fst good) \<and> sorted (map fst errs) \<and>
     (\<forall>rx \<in> set good. n \<le> fst rx) \<and> (\<forall>e \<in> set errs. n \<le> fst e)"
proof (induction rows arbitrary: n s good errs)
  case (Cons rec rows)
  obtain s' good' errs' where rest: "scan_rows step (n + 1) rows s' = (good', errs')"
    and now: "(\<exists>x. good = (n, x) # good' \<and> errs = errs') \<or> (\<exists>msg. errs = (n, msg) # errs' \<and> good = good')"
    using Cons.prems by (auto split: sum.splits prod.splits)
  note IH = Cons.IH [OF rest]
  have up: "[n..n + int (length (rec # rows)) - 1] = n # [n + 1..n + 1 + int (length rows) - 1]"
    by (subst upto_rec1) simp_all
  have "mset (map fst good @ map fst errs) = add_mset n (mset (map fst good' @ map fst errs'))" using now by auto
  then have "mset (n # sort (map fst good' @ map fst errs')) = mset (map fst good @ map fst errs)" by simp
  moreover have "sorted (n # sort (map fst good' @ map fst errs'))"
    using IH by (simp only: sorted_simps sorted_sort set_sort) fastforce
  ultimately have "sort (map fst good @ map fst errs) = n # sort (map fst good' @ map fst errs')"
    by (rule properties_for_sort)
  moreover have "\<forall>rx \<in> set good'. n \<le> fst rx" and "\<forall>e \<in> set errs'. n \<le> fst e" using IH by auto
  ultimately show ?case using IH now up by auto
qed simp

text \<open>What a parse by rows promises.\<close>

definition rows_accounted :: "('c \<Rightarrow> 'k) \<Rightarrow> ('c \<Rightarrow> bool) \<Rightarrow> (int \<times> 'c) list \<Rightarrow> row_error list \<Rightarrow> int \<Rightarrow> bool" where
  "rows_accounted key ok good errs n \<longleftrightarrow>
     sort (map fst good @ map fst errs) = [2..n + 1] \<and> sorted (map fst good) \<and> sorted (map fst errs) \<and>
     (\<forall>rx \<in> set good. ok (snd rx)) \<and> distinct (map (\<lambda>rx. key (snd rx)) good)"

context keyed_rows begin

lemma parse_accounted: "parse_each env cols step {} payload = Inr (good, errs, n) \<Longrightarrow> rows_accounted key ok good errs n"
proof -
  assume "parse_each env cols step {} payload = Inr (good, errs, n)"
  then obtain rows where scan: "scan_rows step 2 rows {} = (good, errs)" and n: "n = int (length rows)"
    by (auto simp: parse_each_def split: sum.splits prod.splits)
  have up: "2 + int (length rows) - 1 = n + 1" by (simp add: n)
  show ?thesis using scan_ok [OF scan] scan_rows_numbers [OF scan] by (simp only: rows_accounted_def up) blast
qed

end

interpretation classroom_rows: keyed_rows "classroom_step env" ci_name good_room for env
  by unfold_locales (auto simp: classroom_step_def split: sum.splits prod.splits option.splits if_splits dest: normalize_input_good)

interpretation admin_class_rows: keyed_rows admin_class_step "\<lambda>x. admin_key (aci_grade x) (aci_name x)" "\<lambda>x. aci_grade x \<noteq> [] \<and> aci_name x \<noteq> []"
  by unfold_locales (auto simp: admin_class_step_def normalize_admin_class_def Let_def split: prod.splits option.splits if_splits)

interpretation catalog_rows: keyed_rows "catalog_step env" cai_code "\<lambda>x. cai_name x \<noteq> [] \<and> cai_code x \<noteq> []" for env
  by unfold_locales (auto simp: catalog_step_def normalize_catalog_def Let_def split: sum.splits prod.splits option.splits if_splits)

definition offering_refers :: "offering_refs \<Rightarrow> offering_import \<Rightarrow> bool" where
  "offering_refers refs x \<longleftrightarrow> fst refs (om_code x) = Some (oi_catalog (om_input x), om_course x) \<and>
     snd refs (om_class x) = Some (oi_class (om_input x))"

lemma normalize_offering_ids:
  "normalize_offering inp = (inp', r) \<Longrightarrow> oi_catalog inp' = oi_catalog inp \<and> oi_class inp' = oi_class inp"
  by (auto simp: normalize_offering_def Let_def split: if_splits)

interpretation offering_rows: keyed_rows "offering_step env refs" "\<lambda>x. natural_key (om_input x)" "offering_refers refs" for env refs
proof unfold_locales
  fix rec seen x seen'
  assume "offering_step env refs rec seen = Inr (x, seen')"
  then show "natural_key (om_input x) \<notin> seen \<and> seen' = insert (natural_key (om_input x)) seen \<and> offering_refers refs x"
    unfolding offering_step_def Let_def
    by (auto simp: offering_refers_def split: if_splits option.splits sum.splits prod.splits dest!: normalize_offering_ids)
qed

lemma rewrite_class_write:
  assumes "rewrite_class i t inp ws (healthy d) = (Inr ws', healthy d')" and "normalize_teaching_class raw = (inp, None)"
  shows "d' = d \<or> class_write d d'"
proof (cases "find_teaching_class d i")
  case None
  then show ?thesis using assms(1) by (simp add: rewrite_class_def Let_def)
next
  case (Some r)
  let ?differ = "offerings_of_class i d > 0 \<and> sort (members_of d i) \<noteq> tci_class_ids inp"
  show ?thesis
  proof (cases ?differ)
    case True
    then show ?thesis using assms(1) Some by (simp add: rewrite_class_def Let_def)
  next
    case False
    obtain w d1 where row: "update_teaching_class_row i inp d = (w, d1)" by fastforce
    have "r \<in> set (cd_teaching_classes d) \<and> tr_id r = i" using Some by (auto simp: find_teaching_class_def find_Some_iff)
    then have hits: "filter (\<lambda>t. tr_id t = i) (cd_teaching_classes d) \<noteq> []" by (auto simp: filter_empty_conv)
    have upd: "update_teaching_class_tx i inp (healthy d) = (case w of Duplicate \<Rightarrow> (Inl ClassNameTaken, healthy d1)
        | Rejected \<Rightarrow> (Inl (OrgDb ''update teaching class''), healthy d1)
        | Done n \<Rightarrow> insert_members i (tci_class_ids inp) (healthy (snd (clear_members i d1))))"
      using Some False row hits sorted_members [OF assms(2)]
      by (auto simp: update_teaching_class_tx_def dbind_lock_class_row class_in_use_def update_teaching_class_row_def Let_def
          split: written.split if_splits)
    have "\<exists>n. w = Done n \<and> insert_members i (tci_class_ids inp) (healthy (snd (clear_members i d1))) = (Inr (), healthy d')"
    proof (cases w)
      case (Done n)
      have "dbind (on_error (ws_noted ws, interrupted (ti_row t)) (insert_members i (tci_class_ids inp)))
          (\<lambda>_. dret (ws\<lparr>ws_written := ws_written ws + 1\<rparr>)) (healthy (snd (clear_members i d1))) = (Inr ws', healthy d')"
        using assms(1) Some False row Done by (simp add: rewrite_class_def Let_def dbind_def split: if_splits)
      from dbind_Inr [OF this] show ?thesis using Done by (auto simp: on_error_Inr)
    qed (use assms(1) Some False row in \<open>simp_all add: rewrite_class_def Let_def dbind_def split: if_splits\<close>)
    then have "update_teaching_class_tx i inp (healthy d) = (Inr (), healthy d')" using upd by auto
    then show ?thesis using class_write.update [OF assms(2)] by blast
  qed
qed

lemma add_class_write:
  assumes "add_class now t inp ws (healthy d) = (Inr ws', healthy d')" and "normalize_teaching_class raw = (inp, None)"
  shows "d' = d \<or> class_write d d'"
proof -
  obtain w d1 where row: "insert_teaching_class now inp d = (w, d1)" by fastforce
  show ?thesis
  proof (cases w)
    case (Done i)
    have "dbind (on_error (ws_noted ws, interrupted (ti_row t)) (insert_members i (tci_class_ids inp)))
        (\<lambda>_. dret (ws\<lparr>ws_written := ws_written ws + 1\<rparr>)) (healthy d1) = (Inr ws', healthy d')"
      using assms(1) row Done by (simp add: add_class_def Let_def)
    from dbind_Inr [OF this] have "insert_members i (tci_class_ids inp) (healthy d1) = (Inr (), healthy d')"
      by (auto simp: on_error_Inr)
    then have "create_teaching_class_tx now inp (healthy d) = (Inr i, healthy d')"
      using row Done by (simp add: create_teaching_class_tx_def)
    then show ?thesis using class_write.create [OF assms(2)] by blast
  qed (use assms(1) row in \<open>auto simp: add_class_def Let_def insert_teaching_class_def split: if_splits\<close>)
qed

lemma insert_members_clean [clean_intros]: "clean (insert_members t ids)"
  unfolding insert_members_def insert_member_def by (intro clean_intros)

lemma write_class_write:
  assumes "write_class env t ws (healthy d) = (Inr ws', healthy d')"
  shows "d' = d \<or> class_write d d'"
proof (cases "normalize_teaching_class \<lparr>tci_name = ti_name t, tci_note = ti_note t, tci_class_ids = ti_ids t\<rparr>")
  case (Pair inp r)
  show ?thesis
  proof (cases r)
    case None
    note ok = Pair [unfolded None]
    show ?thesis using assms Pair None rewrite_class_write [OF _ ok] add_class_write [OF _ ok]
      by (auto simp: write_class_def split: if_splits option.splits)
  qed (use assms Pair in \<open>simp add: write_class_def\<close>)
qed

lemma write_class_clean: "clean (write_class env t ws)"
proof -
  have "clean (rewrite_class i t inp ws)" "clean (add_class now t inp ws)" for i inp now
    unfolding rewrite_class_def add_class_def Let_def by (intro clean_intros)+
  then show ?thesis unfolding write_class_def by (auto split: prod.split option.split intro: clean_intros)
qed

text \<open>A run of creates and updates that starts at some tables.\<close>

abbreviation study_run :: "campus_db \<Rightarrow> campus_db \<Rightarrow> bool" where
  "study_run d0 d \<equiv> study_write\<^sup>*\<^sup>* d0 d \<and> study_inv d"

lemma study_run_step: "study_run d0 d \<Longrightarrow> study_write d d' \<Longrightarrow> study_run d0 d'"
  using study_step_keeps study_write_step by (auto intro: rtranclp.rtrancl_into_rtrancl)

lemma write_teaching_classes_run: "triple (study_run d0) (write_teaching_classes env ts) (\<lambda>_. study_run d0) (\<lambda>_. True)"
proof -
  have one: "triple (study_run d0) (write_class env t ws) (\<lambda>_. study_run d0) (\<lambda>_. True)" for t ws
  proof (rule triple_clean [OF write_class_clean])
    fix d x d' assume run: "study_run d0 d" and w: "write_class env t ws (healthy d) = (Inr x, healthy d')"
    from write_class_write [OF w] show "study_run d0 d'"
    proof
      assume "class_write d d'"
      then have "study_write d d'" by (simp add: study_write_def)
      with run show ?thesis by (rule study_run_step)
    qed (use run in simp)
  qed
  have "triple (study_run d0) (write_classes env ts ws) (\<lambda>_. study_run d0) (\<lambda>_. True)" for ws
  proof (induction ts arbitrary: ws)
    case Nil
    show ?case unfolding write_classes.simps by (rule triple_dret)
  next
    case (Cons t ts)
    show ?case unfolding write_classes.simps by (rule triple_dbind [OF one]) (rule Cons)
  qed
  then show ?thesis unfolding write_teaching_classes_def
    by (rule triple_dbind) (auto intro!: triple_if triple_dret triple_draise)
qed

lemma load_teaching_state_reads: "reads load_teaching_state"
  unfolding load_teaching_state_def load_admin_class_map_def by (intro reads_intros)

lemma parse_teaching_reads: "tables (snd (parse_teaching_classes env payload c)) = tables c"
proof -
  obtain r c' where l: "load_teaching_state c = (r, c')" by fastforce
  then have "tables c' = tables c" using readsD [OF load_teaching_state_reads, of c] by simp
  then show ?thesis using l by (auto simp: parse_teaching_classes_def Let_def split: sum.split prod.split)
qed

lemma load_offering_refs_reads: "reads (load_offering_refs env)"
  unfolding load_offering_refs_def by (intro reads_intros course_reads org_reads)

text \<open>The teaching classes that the rows may name are those of the tables.\<close>

lemma load_offering_refs_classes:
  assumes "load_offering_refs env c = (Inr refs, c')" and "snd refs name = Some i"
  shows "i \<in> tr_id ` set (cd_teaching_classes (tables c))"
proof -
  from dbind_Inr [OF assms(1) [unfolded load_offering_refs_def]] obtain cs c1 ts c2 where
    c1: "on_error (hx ''e58aa0e8bdbde8afbee7a88be79baee5bd95e5a4b1e8b4a5efbc9a'') list_catalog c = (Inr cs, c1)"
    and l: "on_error (hx ''e58aa0e8bdbde69599e5ada6e78fade5a4b1e8b4a5efbc9a'') (list_teaching_classes (ie_key env)) c1 = (Inr ts, c2)"
    and refs: "snd refs = last_wins (map (\<lambda>t. (trim_space (tr_name (tv_row t)), tr_id (tv_row t))) ts)"
    by (auto dest!: dbind_Inr)
  have t1: "tables c1 = tables c" using readsD [OF reads_on_error [OF course_reads(3)], of "(hx ''e58aa0e8bdbde8afbee7a88be79baee5bd95e5a4b1e8b4a5efbc9a'')" c] c1 by simp
  have "tv_row ` set ts \<subseteq> set (cd_teaching_classes (tables c1))"
    using l unfolding on_error_Inr by (auto simp: list_teaching_classes_def with_members_def query_def dest!: dbind_Inr stmt_Inr)
  moreover have "i \<in> (\<lambda>t. tr_id (tv_row t)) ` set ts"
    using assms(2) refs by (auto simp: last_wins_def dest!: map_of_SomeD)
  ultimately show ?thesis using t1 by force
qed

subsection \<open>What the imports do\<close>

definition import_exact ::
  "(campus_db \<Rightarrow> 'k \<Rightarrow> 'v option) \<Rightarrow> (campus_db \<Rightarrow> 'k \<Rightarrow> int option) \<Rightarrow> ('i \<Rightarrow> 'k) \<Rightarrow> ('i \<Rightarrow> 'v) \<Rightarrow> (int \<times> 'i) parsed \<Rightarrow>
   campus_db \<Rightarrow> (import_result \<times> bool) \<times> campus_db conn \<Rightarrow> bool" where
  "import_exact at ident key val p d out \<longleftrightarrow> (case out of ((r, stopped), c') \<Rightarrow>
     if stopped then tables c' = d
     else (case p of Inl _ \<Rightarrow> False
       | Inr (good, errs, n) \<Rightarrow>
           r = \<lparr>rs_total = n, rs_succeeded = int (length good), rs_failed = n - int (length good), rs_errors = errs, rs_rows = []\<rparr> \<and>
           at (tables c') = at d ++ entries key val good \<and> ident d \<subseteq>\<^sub>m ident (tables c')))"

context upsert_table begin

lemma commit_exact:
  assumes "inv (tables c)" and "\<And>good errs n. p = Inr (good, errs, n) \<Longrightarrow> \<forall>rx \<in> set good. ok (snd rx)"
  shows "import_exact at ident key val p (tables c) (commit_parsed k (write_rows upsert) p c)"
  using commit_at [of k p c] assms unfolding import_exact_def by (fastforce split: prod.split)

end

lemma parse_oks:
  "parse_classrooms env payload = Inr (good, errs, n) \<Longrightarrow> rows_accounted ci_name good_room good errs n"
  "parse_admin_classes env payload = Inr (good2, errs, n) \<Longrightarrow>
     rows_accounted (\<lambda>x. admin_key (aci_grade x) (aci_name x)) (\<lambda>x. aci_grade x \<noteq> [] \<and> aci_name x \<noteq> []) good2 errs n"
  "parse_catalog env payload = Inr (good3, errs, n) \<Longrightarrow> rows_accounted cai_code (\<lambda>x. cai_name x \<noteq> [] \<and> cai_code x \<noteq> []) good3 errs n"
  "parse_offerings env refs payload = Inr (good4, errs, n) \<Longrightarrow>
     rows_accounted (\<lambda>x. natural_key (om_input x)) (offering_refers refs) good4 errs n"
  unfolding parse_classrooms_def parse_admin_classes_def parse_catalog_def parse_offerings_def
  by (rule classroom_rows.parse_accounted admin_class_rows.parse_accounted catalog_rows.parse_accounted
    offering_rows.parse_accounted, assumption)+

definition accounted :: "('c \<Rightarrow> 'k) \<Rightarrow> ('c \<Rightarrow> bool) \<Rightarrow> (int \<times> 'c) parsed \<Rightarrow> bool" where
  "accounted key ok p \<longleftrightarrow> (case p of Inl (errs, n, msg) \<Rightarrow> errs = [(1, msg)] \<and> n = 1
     | Inr (good, errs, n) \<Rightarrow> rows_accounted key ok good errs n \<and> int (length good) + int (length errs) = n)"

lemma accounted_intro:
  assumes "\<And>good errs n. parse_each env cols step s payload = Inr (good, errs, n) \<Longrightarrow> rows_accounted key ok good errs n"
  shows "accounted key ok (parse_each env cols step s payload)"
proof (cases "parse_each env cols step s payload")
  case (Inl e)
  then show ?thesis by (auto simp: accounted_def parse_each_def open_rows_def split: sum.splits prod.splits option.splits)
next
  case (Inr t)
  obtain good errs n where t: "t = (good, errs, n)" by (cases t)
  have a: "rows_accounted key ok good errs n" using assms Inr t by blast
  then have "length (sort (map fst good @ map fst errs)) = length [2..n + 1]" by (simp only: rows_accounted_def)
  moreover have "0 \<le> n" using Inr t by (auto simp: parse_each_def split: sum.splits prod.splits)
  ultimately show ?thesis using Inr t a by (simp add: accounted_def)
qed

text \<open>
  C14: a parse by rows (classrooms, administrative classes, catalog, offerings) accounts for every
  data row exactly once, as a clean row or as one error, both in the order of the file; the clean
  rows are valid (a good room, a named class, offerings of the catalog course and teaching class
  that the file names) and differ in their natural key.
\<close>
theorem import_rows_accounted:
  "accounted ci_name good_room (parse_classrooms env payload) \<and>
   accounted (\<lambda>x. admin_key (aci_grade x) (aci_name x)) (\<lambda>x. aci_grade x \<noteq> [] \<and> aci_name x \<noteq> []) (parse_admin_classes env payload) \<and>
   accounted cai_code (\<lambda>x. cai_name x \<noteq> [] \<and> cai_code x \<noteq> []) (parse_catalog env payload) \<and>
   accounted (\<lambda>x. natural_key (om_input x)) (offering_refers refs) (parse_offerings env refs payload)"
  unfolding parse_classrooms_def parse_admin_classes_def parse_catalog_def parse_offerings_def
  by (intro conjI accounted_intro parse_oks [unfolded parse_classrooms_def parse_admin_classes_def parse_catalog_def parse_offerings_def])

lemma offering_classes_there:
  assumes "load_offering_refs env c = (Inr refs, c')" and "parse_offerings env refs payload = Inr (good, errs, n)"
  shows "\<forall>rx \<in> set good. offering_ready (cd_teaching_classes (tables c)) (snd rx)"
  using parse_accepted(3) [OF assms(2)] parse_oks(4) [OF assms(2)] load_offering_refs_classes [OF assms(1)]
  unfolding rows_accounted_def offering_refers_def offering_ready_def by blast

lemma all_ok: "rows_accounted key ok good errs n \<Longrightarrow> \<forall>rx \<in> set good. ok (snd rx)"
  by (simp add: rows_accounted_def)

text \<open>The offerings import when the references could be read.\<close>

lemma commit_offerings_loaded:
  assumes "load_offering_refs env c = (Inr refs, c1)"
  shows "commit_offerings env payload c =
      commit_parsed 1 (write_rows (\<lambda>x. upsert_offering (ie_now env) (om_input x))) (parse_offerings env refs payload) c1 \<and>
    tables c1 = tables c"
  using assms readsD [OF load_offering_refs_reads, of env c] by (simp add: commit_offerings_def with_refs_def)

text \<open>
  C11: a commit is exact and atomic. Whatever fails, a stopped import leaves the tables as they were;
  any other writes exactly the columns of the clean rows of the file under their natural keys,
  leaves every other row and every id as it was, and reports the rows it wrote and the errors of the
  rest. An offerings import that cannot read its references changes nothing.
\<close>
theorem imports_exact:
  fixes env :: "'k::linorder import_env"
  assumes "rooms_inv (tables c)" and "study_inv (tables c)"
  shows "import_exact room_entries room_ids ci_name (\<lambda>x. x) (parse_classrooms env payload) (tables c) (commit_classrooms env payload c) \<and>
    import_exact admin_class_entries admin_class_ids (\<lambda>x. (aci_grade x, aci_name x)) aci_note (parse_admin_classes env payload)
      (tables c) (commit_admin_classes env payload c) \<and>
    import_exact catalog_entries catalog_ids cai_code (catalog_value (ie_numeric env)) (parse_catalog env payload)
      (tables c) (commit_catalog env payload c) \<and>
    (case fst (load_offering_refs env c) of
      Inl _ \<Rightarrow> tables (snd (commit_offerings env payload c)) = tables c
    | Inr refs \<Rightarrow> import_exact offering_entries offering_ids (\<lambda>x. input_key (om_input x)) (\<lambda>x. offering_value (om_input x))
        (parse_offerings env refs payload) (tables c) (commit_offerings env payload c))"
proof (intro conjI)
  show "import_exact room_entries room_ids ci_name (\<lambda>x. x) (parse_classrooms env payload) (tables c) (commit_classrooms env payload c)"
    unfolding commit_classrooms_def
    by (rule room_table.commit_exact [OF assms(1)]) (rule all_ok, rule parse_oks)
  show "import_exact admin_class_entries admin_class_ids (\<lambda>x. (aci_grade x, aci_name x)) aci_note (parse_admin_classes env payload)
      (tables c) (commit_admin_classes env payload c)"
    unfolding commit_admin_classes_def by (rule admin_class_table.commit_exact [OF assms(2)]) (rule parse_accepted)
  show "import_exact catalog_entries catalog_ids cai_code (catalog_value (ie_numeric env)) (parse_catalog env payload)
      (tables c) (commit_catalog env payload c)"
    unfolding commit_catalog_def by (rule catalog_table.commit_exact [OF assms(2)]) (rule parse_accepted)
  obtain r c1 where l: "load_offering_refs env c = (r, c1)" by fastforce
  then have t: "tables c1 = tables c" using readsD [OF load_offering_refs_reads, of env c] by simp
  show "case fst (load_offering_refs env c) of
      Inl _ \<Rightarrow> tables (snd (commit_offerings env payload c)) = tables c
    | Inr refs \<Rightarrow> import_exact offering_entries offering_ids (\<lambda>x. input_key (om_input x)) (\<lambda>x. offering_value (om_input x))
        (parse_offerings env refs payload) (tables c) (commit_offerings env payload c)"
  proof (cases r)
    case (Inl e)
    then show ?thesis using l t by (simp add: commit_offerings_def with_refs_def)
  next
    case (Inr refs)
    have "import_exact offering_entries offering_ids (\<lambda>x. input_key (om_input x)) (\<lambda>x. offering_value (om_input x))
        (parse_offerings env refs payload) (tables c1)
        (commit_parsed 1 (write_rows (\<lambda>x. upsert_offering (ie_now env) (om_input x))) (parse_offerings env refs payload) c1)"
      by (rule offering_table.commit_exact [where ts = "cd_teaching_classes (tables c)" and cs = "cd_catalog (tables c)"])
        (use assms t offering_classes_there [OF l [unfolded Inr]] in auto)
    then show ?thesis using l Inr t commit_offerings_loaded [OF l [unfolded Inr]] by simp
  qed
qed

definition demo_import_env :: "string import_env" where
  "demo_import_env = \<lparr>ie_open = (\<lambda>_. Inr [[''grade'', ''name'', ''note''], [''2024'', ''CS1''], [''x'', ''CS1''], [''2024'', ''CS1'', ''again'']]),
     ie_lower = (\<lambda>s. s), ie_quote = (\<lambda>s. s), ie_float = Some, ie_numeric = (\<lambda>_. Some 0), ie_date = (\<lambda>_. None), ie_time = (\<lambda>s. s),
     ie_now = 0, ie_key = (\<lambda>s. s)\<rparr>"

lemma demo_admin_parse: "map fst (fst (projr (parse_admin_classes demo_import_env []))) = [2]"
  by code_simp

lemma demo_admin_rows: "parse_admin_classes demo_import_env [] = Inr ([(2, \<lparr>aci_grade = ''2024'', aci_name = ''CS1'', aci_note = []\<rparr>)],
    [(3, ''grade must be a 4-digit year (e.g. 2024)''), (4, (hx ''e69cace69687e4bbb6e58685e9878de5a48de8a18ce694bfe78fadefbc9a'') @ ''2024/CS1'')], 3)"
  by code_simp

lemma demo_admin_commit: "snd (fst (commit_admin_classes demo_import_env [] (healthy campus_empty))) = False"
  by code_simp

lemma demo_empty_inv: "rooms_inv campus_empty" "study_inv campus_empty"
  using study_empty by (simp_all add: rooms_inv_def campus_empty_def)

theorem imports_exact_witness:
  "admin_class_entries (tables (snd (commit_admin_classes demo_import_env [] (healthy campus_empty)))) (''2024'', ''CS1'') = Some []"
  using imports_exact [of "healthy campus_empty" demo_import_env "[]"] demo_empty_inv demo_admin_rows demo_admin_commit
  by (simp add: import_exact_def split: prod.splits)

text \<open>
  C15: the imports of study data are runs of the administrators' own creates and updates. The import of
  administrative classes, of the catalog and of offerings, and the write of any, even outdated,
  reading of a teaching-class file, end, under any failure, in tables that a sequence of the commits
  of the create and update requests can reach: each with an input that the request's validation let
  through, each the request's own statement or its transaction with its locks, and no deletion among
  them. So the imports keep the invariants of classes and offerings.
\<close>
theorem imports_are_study_writes:
  fixes env :: "'k::linorder import_env"
  assumes "study_inv (tables c)"
  shows "study_run (tables c) (tables (snd (commit_admin_classes env payload c))) \<and>
    study_run (tables c) (tables (snd (commit_catalog env payload c))) \<and>
    study_run (tables c) (tables (snd (commit_offerings env payload c))) \<and>
    study_run (tables c) (tables (snd (commit_teaching_classes env payload c))) \<and>
    study_run (tables c) (tables (snd (commit_parsed 0 (write_teaching_classes env) stale c)))"
proof (intro conjI [where Q = "_ \<and> _"])
  have start: "study_run (tables c) (tables c)" using assms by simp
  have teaching: "study_run (tables c) (tables (snd (commit_parsed 0 (write_teaching_classes env) p c')))"
    if "tables c' = tables c" for p c'
    by (rule commit_parsed_keeps [OF write_teaching_classes_run]) (use that start in simp)
  show "study_run (tables c) (tables (snd (commit_admin_classes env payload c)))"
    unfolding commit_admin_classes_def
    by (rule commit_parsed_keeps [OF write_rows_triple], rule study_run_step, assumption,
      rule upsert_admin_class_write) (use start in \<open>auto simp: study_inv_def dest!: parse_accepted\<close>)
  show "study_run (tables c) (tables (snd (commit_catalog env payload c)))"
    unfolding commit_catalog_def
    by (rule commit_parsed_keeps [OF write_rows_triple], rule study_run_step, assumption,
      rule upsert_catalog_write) (use start in \<open>auto simp: study_inv_def dest!: parse_accepted\<close>)
  show "study_run (tables c) (tables (snd (commit_teaching_classes env payload c)))"
    using teaching [of "snd (parse_teaching_classes env payload c)"] parse_teaching_reads [of env payload c]
    by (simp add: commit_teaching_classes_def prod.case_eq_if)
  show "study_run (tables c) (tables (snd (commit_parsed 0 (write_teaching_classes env) stale c)))"
    by (rule teaching) simp
  show "study_run (tables c) (tables (snd (commit_offerings env payload c)))"
  proof (cases "fst (load_offering_refs env c)")
    case (Inl e)
    then obtain c1 where "load_offering_refs env c = (Inl e, c1)" by (metis prod.collapse)
    then show ?thesis using start readsD [OF load_offering_refs_reads, of env c] by (simp add: commit_offerings_def with_refs_def)
  next
    case (Inr refs)
    then obtain c1 where l: "load_offering_refs env c = (Inr refs, c1)" by (metis prod.collapse)
    note run = commit_offerings_loaded [OF l, of payload]
    let ?P = "\<lambda>d. study_run (tables c) d \<and> cd_teaching_classes d = cd_teaching_classes (tables c)"
    have "?P (tables (snd (commit_parsed 1 (write_rows (\<lambda>x. upsert_offering (ie_now env) (om_input x))) (parse_offerings env refs payload) c1)))"
    proof (rule commit_parsed_keeps [OF write_rows_triple])
      fix good errs n row x d
      assume p: "parse_offerings env refs payload = Inr (good, errs, n)" "(row, x) \<in> set good" and d: "?P d"
      have "offering_ready (cd_teaching_classes d) x" using offering_classes_there [OF l p(1)] p(2) d by force
      from upsert_offering_keeps(1) [OF conjunct2 [OF conjunct1 [OF d]] this, of "ie_now env"]
      have "study_run (tables c) (snd (upsert_offering (ie_now env) (om_input x) d))"
        using d study_run_step [OF conjunct1 [OF d]] by metis
      then show "?P (snd (upsert_offering (ie_now env) (om_input x) d))" using d by (simp only: upsert_offering_frame)
    qed (use start run in simp)
    then show ?thesis using run by simp
  qed
qed

theorem imports_are_study_writes_witness:
  "study_run campus_empty (tables (snd (commit_admin_classes demo_import_env [] (healthy campus_empty)))) \<and>
   map ac_name (cd_admin_classes (tables (snd (commit_admin_classes demo_import_env [] (healthy campus_empty))))) = [''CS1'']"
proof -
  have "map ac_name (cd_admin_classes (tables (snd (commit_admin_classes demo_import_env [] (healthy campus_empty))))) = [''CS1'']"
    by code_simp
  then show ?thesis
    using imports_are_study_writes [of "healthy campus_empty" demo_import_env "[]" "Inl ([], 0, [])"] demo_empty_inv(2) by simp
qed

text \<open>The same file imported twice.\<close>

definition repeatable ::
  "(campus_db \<Rightarrow> 'k \<Rightarrow> 'v option) \<Rightarrow> (campus_db conn \<Rightarrow> (import_result \<times> bool) \<times> campus_db conn) \<Rightarrow> campus_db \<Rightarrow> bool" where
  "repeatable at commit d \<longleftrightarrow> (case commit (healthy d) of ((r, stopped), c') \<Rightarrow> stopped \<or>
     (case commit (healthy (tables c')) of (out, c'') \<Rightarrow> out = (r, False) \<and> at (tables c'') = at (tables c')))"

context upsert_table begin

lemma commit_repeatable:
  assumes "inv d" and "\<And>good errs n. p = Inr (good, errs, n) \<Longrightarrow> \<forall>rx \<in> set good. ok (snd rx)"
  shows "repeatable at (commit_parsed k (write_rows upsert) p) d"
  using commit_again [of k p d] assms unfolding repeatable_def by (fastforce split: prod.split)

end

lemma load_offering_refs_healthy:
  "load_offering_refs env (healthy d) = (Inr (last_wins (map (\<lambda>c. (ca_code c, (ca_id c, trim_space (ca_name c)))) (sort_key ca_id (cd_catalog d))),
     last_wins (map (\<lambda>r. (trim_space (tr_name r), tr_id r)) (sort_key (\<lambda>t. ie_key env (tr_name t)) (cd_teaching_classes d)))), healthy d)"
proof -
  have "list_teaching_classes (ie_key env) (healthy d) = (Inr vs, healthy d) \<Longrightarrow>
      map tv_row vs = sort_key (\<lambda>t. ie_key env (tr_name t)) (cd_teaching_classes d)" for vs
    by (auto simp: list_teaching_classes_def with_members_def members_by_teaching_class_def dbind_def comp_def split: if_splits)
  moreover have "\<exists>vs. list_teaching_classes (ie_key env) (healthy d) = (Inr vs, healthy d)"
    by (simp add: list_teaching_classes_def with_members_def members_by_teaching_class_def dbind_def)
  ultimately obtain vs where vs: "list_teaching_classes (ie_key env) (healthy d) = (Inr vs, healthy d)"
    "sort_key (\<lambda>t. ie_key env (tr_name t)) (cd_teaching_classes d) = map tv_row vs" by metis
  show ?thesis using vs by (simp add: load_offering_refs_def list_catalog_def dbind_def on_error_def comp_def)
qed

text \<open>
  C16: on a database without faults, an import that went through goes through again with the same
  result, and the second run leaves every entry as the first one left it.
\<close>
theorem imports_repeatable:
  fixes env :: "'k::linorder import_env"
  assumes "rooms_inv d" and "study_inv d"
  shows "repeatable room_entries (commit_classrooms env payload) d \<and>
    repeatable admin_class_entries (commit_admin_classes env payload) d \<and>
    repeatable catalog_entries (commit_catalog env payload) d \<and>
    repeatable offering_entries (commit_offerings env payload) d"
proof (intro conjI)
  show "repeatable room_entries (commit_classrooms env payload) d"
    unfolding commit_classrooms_def
    by (rule room_table.commit_repeatable [OF assms(1)]) (rule all_ok, rule parse_oks)
  show "repeatable admin_class_entries (commit_admin_classes env payload) d"
    unfolding commit_admin_classes_def by (rule admin_class_table.commit_repeatable [OF assms(2)]) (rule parse_accepted)
  show "repeatable catalog_entries (commit_catalog env payload) d"
    unfolding commit_catalog_def by (rule catalog_table.commit_repeatable [OF assms(2)]) (rule parse_accepted)
  obtain refs where l: "load_offering_refs env (healthy d) = (Inr refs, healthy d)" by (simp add: load_offering_refs_healthy)
  let ?commit = "commit_parsed 1 (write_rows (\<lambda>x. upsert_offering (ie_now env) (om_input x))) (parse_offerings env refs payload)"
  let ?inv = "\<lambda>d'. study_inv d' \<and> cd_teaching_classes d' = cd_teaching_classes d \<and> cd_catalog d' = cd_catalog d"
  have ok: "\<forall>rx \<in> set good. offering_ready (cd_teaching_classes d) (snd rx)"
    if "parse_offerings env refs payload = Inr (good, errs, n)" for good errs n
    using offering_classes_there [OF l that] by simp
  have here: "commit_offerings env payload (healthy d') = ?commit (healthy d')" if "?inv d'" for d'
    using that l by (simp add: commit_offerings_def with_refs_def load_offering_refs_healthy)
  have "repeatable offering_entries ?commit d"
    by (rule offering_table.commit_repeatable [where ts = "cd_teaching_classes d" and cs = "cd_catalog d"]) (use assms ok in auto)
  moreover obtain r s c' where run: "?commit (healthy d) = ((r, s), c')" by (metis surj_pair)
  moreover have "s \<or> ?inv (tables c')"
    using offering_table.commit_at [where ts = "cd_teaching_classes d" and cs = "cd_catalog d", OF run] assms ok by auto
  ultimately have rep: "repeatable offering_entries ?commit d" and run: "?commit (healthy d) = ((r, s), c')" and c': "s \<or> ?inv (tables c')"
    by simp_all
  have first: "commit_offerings env payload (healthy d) = ((r, s), c')" using here [of d] assms run by simp
  show "repeatable offering_entries (commit_offerings env payload) d"
  proof (cases s)
    case True
    then show ?thesis unfolding repeatable_def first prod.case by blast
  next
    case False
    with c' have "commit_offerings env payload (healthy (tables c')) = ?commit (healthy (tables c'))" by (intro here) simp
    with rep show ?thesis unfolding repeatable_def first run prod.case by simp
  qed
qed

theorem imports_repeatable_witness: "repeatable admin_class_entries (commit_admin_classes demo_import_env []) campus_empty"
  using imports_repeatable [OF demo_empty_inv, of demo_import_env "[]"] by blast

text \<open>
  A teaching class whose name appeared after the file was read: the loop means to skip the group and
  go on, but the transaction is aborted, so the import stops with nothing written.
\<close>

lemma late_duplicate_stops_import:
  assumes "normalize_teaching_class \<lparr>tci_name = ti_name t, tci_note = ti_note t, tci_class_ids = ti_ids t\<rparr> = (inp, None)"
    and "ti_existing t = None" and "insert_teaching_class (ie_now env) inp d = (Duplicate, d)"
  shows "commit_parsed 0 (write_teaching_classes env) (Inr ([t], errs, n)) (healthy d) =
    ((failed_result n (errs @ [(ti_row t, (hx ''e69599e5ada6e78fade3808c'') @ tci_name inp @ (hx ''e3808de5b7b2e5ad98e59ca8efbc88e5b9b6e58f91efbc89'')), interrupted 0]), True), healthy d)"
  using assms by (simp add: commit_parsed_def import_tx_def prepare_statements_def write_teaching_classes_def write_class_def
      add_class_def Let_def dbind_def dret_def)

end
