(* ===== verification/Import_Slots.thy ===== *)
theory Import_Slots
  imports Import_Rows
begin

text \<open>
  The importers of sessions and bookings (\<open>importer/sessions.go\<close>, \<open>bookings.go\<close>): each row is resolved
  against the rooms, offerings or users and the bell-time regime of its date, rows that take the same
  slot are refused within the file, and the slots are looked up in the database before the write. The
  lookup and the write are separate transactions.
\<close>

subsection \<open>Slots\<close>

definition slotKey :: "int \<Rightarrow> string \<Rightarrow> string" where
  "slotKey room date = itoa room @ ''|'' @ date"

definition ranges_overlap :: "int \<Rightarrow> int \<Rightarrow> int \<Rightarrow> int \<Rightarrow> bool" where
  "ranges_overlap ps1 pe1 ps2 pe2 \<longleftrightarrow> ps1 \<le> pe2 \<and> ps2 \<le> pe1"

text \<open>What both kinds of rows take: the room, the date as written and the periods; a historical booking takes nothing.\<close>

record slot_row =
  sr_room :: int
  sr_date :: string
  sr_start :: int
  sr_end :: int
  sr_active :: bool

type_synonym slot_range = "string \<times> int \<times> int"

definition slot_range :: "slot_row \<Rightarrow> slot_range" where
  "slot_range x = (slotKey (sr_room x) (sr_date x), sr_start x, sr_end x)"

definition taken :: "slot_range list \<Rightarrow> slot_row \<Rightarrow> bool" where
  "taken ranges x \<longleftrightarrow> list_ex (\<lambda>(k, s, e). k = slotKey (sr_room x) (sr_date x) \<and> ranges_overlap (sr_start x) (sr_end x) s e) ranges"

text \<open>The row loop: a resolved row that takes a slot of an earlier one is refused.\<close>

definition slot_step ::
  "(sheet_row \<Rightarrow> string + 'c) \<Rightarrow> ('c \<Rightarrow> slot_row) \<Rightarrow> sheet_row \<Rightarrow> slot_range list \<Rightarrow> string + 'c \<times> slot_range list" where
  "slot_step resolve slot rec ranges = (case resolve rec of
     Inl msg \<Rightarrow> Inl msg
   | Inr x \<Rightarrow>
       if \<not> sr_active (slot x) then Inr (x, ranges)
       else if taken ranges (slot x) then Inl (hx ''e69cace69687e4bbb6e58685e9878de5a48de58da0e794a8e8afa5e69599e5aea42be697a5e69c9f2be88a82e6aca1'')
       else Inr (x, ranges @ [slot_range (slot x)]))"

subsection \<open>Slots of the database\<close>

text \<open>\<open>(classroom_id, date) IN (...)\<close> over the pairs of a batch; a date that PostgreSQL rejects is an error.\<close>

definition in_batch :: "'k import_env \<Rightarrow> (int \<times> string) list \<Rightarrow> int \<Rightarrow> int \<Rightarrow> bool" where
  "in_batch env batch room day \<longleftrightarrow> list_ex (\<lambda>(r, date). r = room \<and> ie_date env date = Some day) batch"

definition busy_sessions :: "'k import_env \<Rightarrow> (int \<times> string) list \<Rightarrow> campus_db \<Rightarrow> slot_range list option" where
  "busy_sessions env batch d =
     (if list_ex (\<lambda>(r, date). ie_date env date = None) batch then None
      else Some (map (\<lambda>s. (slotKey (ss_classroom s) (format_date (ss_date s)), ss_start s, ss_end s))
        (filter (\<lambda>s. in_batch env batch (ss_classroom s) (ss_date s)) (cd_sessions d))))"

definition busy_bookings :: "'k import_env \<Rightarrow> (int \<times> string) list \<Rightarrow> campus_db \<Rightarrow> slot_range list option" where
  "busy_bookings env batch d =
     (if list_ex (\<lambda>(r, date). ie_date env date = None) batch then None
      else Some (map (\<lambda>b. (slotKey (bk_classroom b) (format_date (bk_date b)), bk_start b, bk_end b))
        (filter (\<lambda>b. in_batch env batch (bk_classroom b) (bk_date b) \<and> active_status (bk_status b)) (cd_bookings d))))"

function chunks :: "nat \<Rightarrow> 'a list \<Rightarrow> 'a list list" where
  "chunks n xs = (if xs = [] \<or> n = 0 then [] else take n xs # chunks n (drop n xs))"
  by pat_completeness auto
termination
  by (relation "measure (\<lambda>(n, xs). length xs)") auto

declare chunks.simps [simp del]

definition batchTupleSize :: nat where "batchTupleSize = 1000"

definition query_batch :: "'k import_env \<Rightarrow> (int \<times> string) list \<Rightarrow> (campus_db, string, slot_range list) action" where
  "query_batch env batch =
     dbind (query_row ''query existing sessions'' ''query existing sessions'' (busy_sessions env batch)) (\<lambda>ss.
     dbind (query_row ''query existing bookings'' ''query existing bookings'' (busy_bookings env batch)) (\<lambda>bs.
     dret (ss @ bs)))"

definition existing_ranges :: "'k import_env \<Rightarrow> (int \<times> string) list \<Rightarrow> (campus_db, string, slot_range list) action" where
  "existing_ranges env pairs =
     dbind (dtraverse (query_batch env) (chunks batchTupleSize pairs)) (\<lambda>rs. dret (concat rs))"

text \<open>The keys of the rows that are taken; a row is refused when its key is among them.\<close>

definition conflict_key :: "slot_row \<Rightarrow> string" where
  "conflict_key x = slotKey (sr_room x) (sr_date x) @ ''|'' @ itoa (sr_start x) @ ''|'' @ itoa (sr_end x)"

definition conflict_set :: "('c \<Rightarrow> slot_row) \<Rightarrow> slot_range list \<Rightarrow> (int \<times> 'c) list \<Rightarrow> string list" where
  "conflict_set slot ranges good =
     map (\<lambda>rx. conflict_key (slot (snd rx))) (filter (\<lambda>rx. sr_active (slot (snd rx)) \<and> taken ranges (slot (snd rx))) good)"

definition refused :: "('c \<Rightarrow> slot_row) \<Rightarrow> string list \<Rightarrow> int \<times> 'c \<Rightarrow> bool" where
  "refused slot hits rx \<longleftrightarrow> sr_active (slot (snd rx)) \<and> conflict_key (slot (snd rx)) \<in> set hits"

definition busy_message :: "slot_row \<Rightarrow> string" where
  "busy_message x = (hx ''e69599e5aea42be697a5e69c9f2be88a82e6aca1e5b7b2e8a2abe58da0e794a8efbc9a'') @ sr_date x @ (hx ''20e7acac'') @ itoa (sr_start x) @ ''-'' @ itoa (sr_end x) @ (hx ''e88a82'')"

definition check_slots ::
  "'k import_env \<Rightarrow> ('c \<Rightarrow> slot_row) \<Rightarrow> (int \<times> 'c) parsed \<Rightarrow> campus_db conn \<Rightarrow> (int \<times> 'c) parsed \<times> campus_db conn" where
  "check_slots env slot p c = (case p of
     Inl e \<Rightarrow> (Inl e, c)
   | Inr (good, errs, n) \<Rightarrow>
       if good = [] then (Inr ([], errs, n), c)
       else (case existing_ranges env (remdups (map (\<lambda>rx. (sr_room (slot (snd rx)), sr_date (slot (snd rx))))
           (filter (\<lambda>rx. sr_active (slot (snd rx))) good))) c of
         (Inl msg, c') \<Rightarrow> (Inl (errs @ [interrupted 0], n, msg), c')
       | (Inr ranges, c') \<Rightarrow>
           (let bad = refused slot (conflict_set slot ranges good)
            in (Inr (filter (\<lambda>rx. \<not> bad rx) good,
                 errs @ map (\<lambda>rx. (fst rx, busy_message (slot (snd rx)))) (filter bad good), n), c'))))"

subsection \<open>Sessions\<close>

type_synonym session_refs = "(string \<Rightarrow> int option) \<times> (string \<Rightarrow> (int \<times> string) option) \<times> regime list"

definition load_rooms :: "(campus_db, string, string \<Rightarrow> int option) action" where
  "load_rooms = dbind (on_error (hx ''e58aa0e8bdbde69599e5aea4e58897e8a1a8e5a4b1e8b4a5efbc9a'') list_classrooms)
     (\<lambda>cs. dret (last_wins (map (\<lambda>c. (trim_space (cl_name c), cl_id c)) cs)))"

definition load_regimes :: "(campus_db, string, regime list) action" where
  "load_regimes = on_error (hx ''e58aa0e8bdbde4bd9ce681afe588b6e5baa6e5a4b1e8b4a5efbc9a'') campus_regimes"

definition load_session_refs :: "'k::linorder import_env \<Rightarrow> (campus_db, string, session_refs) action" where
  "load_session_refs env =
     dbind load_rooms (\<lambda>rooms.
     dbind (on_error (hx ''e58aa0e8bdbde5bc80e8afbee58897e8a1a8e5a4b1e8b4a5efbc9a'') (list_offerings (ie_key env))) (\<lambda>vs.
     dbind load_regimes (\<lambda>regimes.
     dret (rooms, last_wins (map (\<lambda>v. (trim_space (ov_catalog_code v) @ ''|'' @ trim_space (ov_class_name v) @ ''|'' @
         trim_space (offering.of_semester (ov_row v)), (of_id (ov_row v), trim_space (ov_catalog_name v)))) vs), regimes))))"

record session_import =
  sx_input :: session_input
  sx_code :: string
  sx_room :: string
  sx_course :: string
  sx_class :: string
  sx_semester :: string

definition session_slot_row :: "session_import \<Rightarrow> slot_row" where
  "session_slot_row x = \<lparr>sr_room = si_classroom (sx_input x), sr_date = si_date (sx_input x),
     sr_start = si_start (sx_input x), sr_end = si_end (sx_input x), sr_active = True\<rparr>"

text \<open>The period range of a date: the message of the first reason to refuse it.\<close>

definition regime_refuses :: "regime list \<Rightarrow> int \<Rightarrow> int \<Rightarrow> int \<Rightarrow> string option" where
  "regime_refuses regimes day ps pe = (case active_for regimes day of
     None \<Rightarrow> Some (hx ''e8afa5e697a5e69c9fe69caae9858de7bdaee4bd9ce681afe588b6e5baa6'')
   | Some r \<Rightarrow> map_option (\<lambda>p. (hx ''e88a82e6aca120'') @ itoa p @ (hx ''20e4b88de59ca8e8afa5e697a5e69c9fe4bd9ce681afe588b6e5baa6e3808c'') @ re_name r @ (hx ''e3808de4b8ad''))
       (first_missing (period_index_set r) ps pe))"

definition session_periods :: "sheet_row \<Rightarrow> string + int \<times> int" where
  "session_periods rec = (case parse_int_field (field rec ''period_start'') ''period_start'' of
     Inl msg \<Rightarrow> Inl msg
   | Inr ps \<Rightarrow>
     (let pe = trim_space (field rec ''period_end'')
      in case (if pe = [] then Inr ps else parse_int_field pe ''period_end'') of
         Inl msg \<Rightarrow> Inl msg
       | Inr e \<Rightarrow> if ps > e then Inl (hx ''706572696f645f737461727420e9a1bb203c3d20706572696f645f656e64'') else Inr (ps, e)))"

definition resolve_offering :: "session_refs \<Rightarrow> sheet_row \<Rightarrow> string + int" where
  "resolve_offering refs rec =
     (let course = field rec ''course''; code = trim_space (field rec ''code'');
          class = field rec ''teaching_class''; semester = field rec ''semester''
      in if course = [] \<or> code = [] \<or> class = [] \<or> semester = [] then Inl (hx ''636f75727365202f20636f6465202f207465616368696e675f636c617373202f2073656d657374657220e4b8bae7a9ba'')
         else (case fst (snd refs) (code @ ''|'' @ class @ ''|'' @ semester) of
           None \<Rightarrow> Inl ((hx ''e5bc80e8afbee4b88de5ad98e59ca8efbc9a'') @ code @ '' / '' @ class @ '' / '' @ semester)
         | Some (i, name) \<Rightarrow>
           if course \<noteq> name then Inl ((hx ''e8afbee7a88be5908de7a7b0e4b88ee4bba3e7a081e4b88de7aca6efbc9a'') @ ''code='' @ code @ (hx ''20e79a84e8afbee7a88be4b8bae3808c'') @ name @ (hx ''e3808defbc8ce69687e4bbb6e4b8ade4b8bae3808c'') @ course @ (hx ''e3808d''))
           else Inr i))"

definition resolve_session :: "session_refs \<Rightarrow> sheet_row \<Rightarrow> string + session_import" where
  "resolve_session refs rec =
     (let date = field rec ''date''; room = field rec ''classroom''; note = field rec ''note''
      in if date = [] then Inl (hx ''6461746520e4b8bae7a9ba'')
         else (case parse_date date of None \<Rightarrow> Inl (hx ''6461746520e6a0bce5bc8fe5ba94e4b8ba20595959592d4d4d2d4444'')
         | Some day \<Rightarrow> (case session_periods rec of Inl msg \<Rightarrow> Inl msg
         | Inr (ps, pe) \<Rightarrow>
           if room = [] then Inl (hx ''636c617373726f6f6d20e4b8bae7a9ba'')
           else (case fst refs room of None \<Rightarrow> Inl ((hx ''e69599e5aea4e4b88de5ad98e59ca8efbc9a'') @ room)
           | Some cid \<Rightarrow> (case resolve_offering refs rec of Inl msg \<Rightarrow> Inl msg
           | Inr oid \<Rightarrow> (case regime_refuses (snd (snd refs)) day ps pe of Some msg \<Rightarrow> Inl msg
           | None \<Rightarrow> (case max_runes ''note'' note 255 of Some msg \<Rightarrow> Inl msg
           | None \<Rightarrow> Inr \<lparr>sx_input = \<lparr>si_offering = oid, si_classroom = cid, si_date = date, si_start = ps, si_end = pe, si_note = note\<rparr>,
               sx_code = trim_space (field rec ''code''), sx_room = room, sx_course = field rec ''course'',
               sx_class = field rec ''teaching_class'', sx_semester = field rec ''semester''\<rparr>)))))))"

definition parse_sessions ::
  "'k import_env \<Rightarrow> session_refs \<Rightarrow> string \<Rightarrow> campus_db conn \<Rightarrow> (int \<times> session_import) parsed \<times> campus_db conn" where
  "parse_sessions env refs payload = check_slots env session_slot_row
     (parse_each env [''date'', ''period_start'', ''classroom'', ''course'', ''code'', ''teaching_class'', ''semester'']
        (slot_step (resolve_session refs) session_slot_row) [] payload)"

definition session_preview :: "int \<times> session_import \<Rightarrow> preview_row" where
  "session_preview r = (let x = snd r; inp = sx_input x in [(''date'', PText (si_date inp)), (''periodStart'', PInt (si_start inp)),
     (''periodEnd'', PInt (si_end inp)), (''classroom'', PText (sx_room x)), (''course'', PText (sx_course x)),
     (''code'', PText (sx_code x)), (''teachingClass'', PText (sx_class x)), (''semester'', PText (sx_semester x)),
     (''note'', PText (si_note inp))])"

definition put_session :: "'k import_env \<Rightarrow> session_import \<Rightarrow> campus_db \<Rightarrow> bool \<times> campus_db" where
  "put_session env x d = (case ie_date env (si_date (sx_input x)) of
     None \<Rightarrow> (False, d)
   | Some day \<Rightarrow> (case insert_session (ie_now env) day (sx_input x) d of (r, d') \<Rightarrow> (r \<noteq> None, d')))"

definition analyze_sessions :: "'k::linorder import_env \<Rightarrow> string \<Rightarrow> campus_db conn \<Rightarrow> (import_result \<times> string option) \<times> campus_db conn" where
  "analyze_sessions env payload = with_refs (load_session_refs env)
     (\<lambda>refs c. case parse_sessions env refs payload c of (p, c') \<Rightarrow> (analyze_parsed session_preview p, c')) None"

definition commit_sessions :: "'k::linorder import_env \<Rightarrow> string \<Rightarrow> campus_db conn \<Rightarrow> (import_result \<times> bool) \<times> campus_db conn" where
  "commit_sessions env payload = with_refs (load_session_refs env)
     (\<lambda>refs c. case parse_sessions env refs payload c of (p, c') \<Rightarrow> commit_parsed 1 (write_rows (put_session env)) p c') False"

subsection \<open>Bookings\<close>

type_synonym booking_refs = "(string \<Rightarrow> int option) \<times> (string \<Rightarrow> int option) \<times> regime list"

definition load_usernames :: "(campus_db, string, string \<Rightarrow> int option) action" where
  "load_usernames = query (hx ''e58aa0e8bdbde794a8e688b7e58897e8a1a8e5a4b1e8b4a5efbc9a'') (\<lambda>d. last_wins (map (\<lambda>u. (trim_space (us_username u), us_id u)) (cd_users d)))"

definition load_booking_refs :: "(campus_db, string, booking_refs) action" where
  "load_booking_refs = dbind load_rooms (\<lambda>rooms. dbind load_usernames (\<lambda>users. dbind load_regimes (\<lambda>regimes. dret (rooms, users, regimes))))"

record booking_import =
  bx_room_id :: int
  bx_user_id :: int
  bx_date :: string
  bx_start :: int
  bx_end :: int
  bx_status :: string
  bx_purpose :: string
  bx_room :: string
  bx_username :: string

definition booking_slot_row :: "booking_import \<Rightarrow> slot_row" where
  "booking_slot_row x = \<lparr>sr_room = bx_room_id x, sr_date = bx_date x, sr_start = bx_start x, sr_end = bx_end x,
     sr_active = active_status (bx_status x)\<rparr>"

definition booking_periods :: "sheet_row \<Rightarrow> string + int \<times> int" where
  "booking_periods rec = (case parse_int_field (field rec ''period_start'') ''period_start'' of
     Inl msg \<Rightarrow> Inl msg
   | Inr ps \<Rightarrow> (case parse_int_field (field rec ''period_end'') ''period_end'' of
       Inl msg \<Rightarrow> Inl msg
     | Inr pe \<Rightarrow> if ps > pe then Inl (hx ''706572696f645f737461727420e9a1bb203c3d20706572696f645f656e64'') else Inr (ps, pe)))"

definition resolve_booking :: "'k import_env \<Rightarrow> booking_refs \<Rightarrow> sheet_row \<Rightarrow> string + booking_import" where
  "resolve_booking env refs rec =
     (let room = trim_space (field rec ''classroom''); user = trim_space (field rec ''username'');
          date = trim_space (field rec ''date''); purpose = trim_space (field rec ''purpose'');
          given = ie_lower env (trim_space (field rec ''status''));
          status = (if given = [] then ''pending'' else given)
      in if room = [] then Inl (hx ''636c617373726f6f6d20e4b8bae7a9ba'')
         else (case fst refs room of None \<Rightarrow> Inl ((hx ''e69599e5aea4e4b88de5ad98e59ca8efbc9a'') @ room)
         | Some cid \<Rightarrow> if user = [] then Inl (hx ''757365726e616d6520e4b8bae7a9ba'')
         else (case fst (snd refs) user of None \<Rightarrow> Inl ((hx ''e794a8e688b7e4b88de5ad98e59ca8efbc9a'') @ user)
         | Some uid \<Rightarrow> if date = [] then Inl (hx ''6461746520e4b8bae7a9ba'')
         else (case parse_date date of None \<Rightarrow> Inl (hx ''6461746520e6a0bce5bc8fe5ba94e4b8ba20595959592d4d4d2d4444'')
         | Some day \<Rightarrow> (case booking_periods rec of Inl msg \<Rightarrow> Inl msg
         | Inr (ps, pe) \<Rightarrow>
           if status \<notin> set booking_statuses then Inl (hx ''73746174757320e9a1bbe4b8ba2070656e64696e672f617070726f7665642f72656a65637465642f63616e63656c6c6564'')
           else if purpose = [] then Inl (hx ''707572706f736520e4b8bae7a9ba'')
           else (case max_runes ''purpose'' purpose 255 of Some msg \<Rightarrow> Inl msg
           | None \<Rightarrow> (case regime_refuses (snd (snd refs)) day ps pe of Some msg \<Rightarrow> Inl msg
           | None \<Rightarrow> Inr \<lparr>bx_room_id = cid, bx_user_id = uid, bx_date = date, bx_start = ps, bx_end = pe, bx_status = status,
               bx_purpose = purpose, bx_room = room, bx_username = user\<rparr>)))))))"

definition parse_bookings ::
  "'k import_env \<Rightarrow> booking_refs \<Rightarrow> string \<Rightarrow> campus_db conn \<Rightarrow> (int \<times> booking_import) parsed \<times> campus_db conn" where
  "parse_bookings env refs payload = check_slots env booking_slot_row
     (parse_each env [''classroom'', ''username'', ''date'', ''period_start'', ''period_end'', ''status'', ''purpose'']
        (slot_step (resolve_booking env refs) booking_slot_row) [] payload)"

definition booking_preview :: "int \<times> booking_import \<Rightarrow> preview_row" where
  "booking_preview r = (let x = snd r in [(''classroom'', PText (bx_room x)), (''username'', PText (bx_username x)),
     (''date'', PText (bx_date x)), (''periodStart'', PInt (bx_start x)), (''periodEnd'', PInt (bx_end x)),
     (''status'', PText (bx_status x)), (''purpose'', PText (bx_purpose x))])"

definition put_booking :: "'k import_env \<Rightarrow> booking_import \<Rightarrow> campus_db \<Rightarrow> bool \<times> campus_db" where
  "put_booking env x d = (case ie_date env (bx_date x) of
     None \<Rightarrow> (False, d)
   | Some day \<Rightarrow>
     if \<not> fits32 (bx_start x) \<or> \<not> fits32 (bx_end x) \<or> rune_count (bx_purpose x) > 255 then (False, d)
     else (True, d\<lparr>cd_bookings := cd_bookings d @ [\<lparr>bk_id = cd_next_booking d, bk_classroom = bx_room_id x,
            bk_user = bx_user_id x, bk_date = day, bk_start = bx_start x, bk_end = bx_end x, bk_status = bx_status x,
            bk_purpose = bx_purpose x, bk_created_at = ie_now env, bk_reviewed_at = None\<rparr>],
          cd_next_booking := cd_next_booking d + 1\<rparr>))"

definition analyze_bookings :: "'k import_env \<Rightarrow> string \<Rightarrow> campus_db conn \<Rightarrow> (import_result \<times> string option) \<times> campus_db conn" where
  "analyze_bookings env payload = with_refs load_booking_refs
     (\<lambda>refs c. case parse_bookings env refs payload c of (p, c') \<Rightarrow> (analyze_parsed booking_preview p, c')) None"

definition commit_bookings :: "'k import_env \<Rightarrow> string \<Rightarrow> campus_db conn \<Rightarrow> (import_result \<times> bool) \<times> campus_db conn" where
  "commit_bookings env payload = with_refs load_booking_refs
     (\<lambda>refs c. case parse_bookings env refs payload c of (p, c') \<Rightarrow> commit_parsed 1 (write_rows (put_booking env)) p c') False"

subsection \<open>What the row loop accepts\<close>

definition slots_differ :: "slot_row \<Rightarrow> slot_row \<Rightarrow> bool" where
  "slots_differ x y \<longleftrightarrow> (sr_active x \<and> sr_active y \<and> sr_room x = sr_room y \<and> parse_date (sr_date x) = parse_date (sr_date y) \<longrightarrow>
     \<not> overlaps (sr_start x) (sr_end x) (sr_start y) (sr_end y))"

lemma slots_differ_sym: "slots_differ x y \<longleftrightarrow> slots_differ y x"
  by (auto simp: slots_differ_def overlaps_sym)

lemma parse_date_same: "parse_date s = parse_date t \<Longrightarrow> parse_date t \<noteq> None \<Longrightarrow> s = t"
  using format_parse_date by (metis option.exhaust)

lemma taken_append: "taken (ranges @ [r]) x \<longleftrightarrow> taken ranges x \<or> taken [r] x"
  by (simp add: taken_def)

lemma not_taken_differ:
  assumes "\<not> taken [slot_range y] x" and "parse_date (sr_date x) \<noteq> None"
  shows "slots_differ y x"
  using assms parse_date_same [of "sr_date y" "sr_date x"]
  by (auto simp: taken_def slot_range_def slots_differ_def ranges_overlap_def overlaps_def)

lemma scan_slots:
  assumes "\<And>rec x. resolve rec = Inr x \<Longrightarrow> ok x \<and> parse_date (sr_date (slot x)) \<noteq> None"
  shows "scan_rows (slot_step resolve slot) n rows ranges = (good, errs) \<Longrightarrow>
    (\<forall>rx \<in> set good. ok (snd rx) \<and> parse_date (sr_date (slot (snd rx))) \<noteq> None \<and>
      (sr_active (slot (snd rx)) \<longrightarrow> \<not> taken ranges (slot (snd rx)))) \<and>
    sorted_wrt (\<lambda>rx ry. slots_differ (slot (snd rx)) (slot (snd ry))) good"
proof (induction rows arbitrary: n ranges good errs)
  case (Cons rec rows)
  show ?case
  proof (cases "slot_step resolve slot rec ranges")
    case (Inl msg)
    then show ?thesis using Cons by (auto split: prod.splits)
  next
    case (Inr t)
    obtain x ranges' where t: "t = (x, ranges')" by fastforce
    obtain good' errs' where rest: "scan_rows (slot_step resolve slot) (n + 1) rows ranges' = (good', errs')" by fastforce
    have good: "good = (n, x) # good'" using Cons.prems Inr t rest by simp
    have x: "resolve rec = Inr x" "sr_active (slot x) \<longrightarrow> \<not> taken ranges (slot x)"
      "ranges' = (if sr_active (slot x) then ranges @ [slot_range (slot x)] else ranges)"
      using Inr t by (auto simp: slot_step_def split: sum.splits if_splits)
    note IH = Cons.IH [OF rest]
    have "slots_differ (slot x) (slot (snd ry)) \<and> (sr_active (slot (snd ry)) \<longrightarrow> \<not> taken ranges (slot (snd ry)))" if "ry \<in> set good'" for ry
    proof -
      have ry: "parse_date (sr_date (slot (snd ry))) \<noteq> None" "sr_active (slot (snd ry)) \<longrightarrow> \<not> taken ranges' (slot (snd ry))"
        using IH that by auto
      show ?thesis
      proof (cases "sr_active (slot x) \<and> sr_active (slot (snd ry))")
        case True
        then show ?thesis using ry x(3) not_taken_differ [of "slot x" "slot (snd ry)"] taken_append by metis
      next
        case False
        then show ?thesis using ry x(3) taken_append by (auto simp: slots_differ_def split: if_splits)
      qed
    qed
    then show ?thesis using IH good x(2) assms [OF x(1)] by auto
  qed
qed simp

subsection \<open>What the lookup finds\<close>

lemma chunks_concat: "0 < n \<Longrightarrow> concat (chunks n xs) = xs"
proof (induction n xs rule: chunks.induct)
  case (1 n xs)
  then show ?case by (cases "xs = []") (simp_all add: chunks.simps [of n xs] chunks.simps [of n "[]"])
qed

lemma dtraverse_reads_each:
  assumes "\<And>x c r c'. f x c = (Inr r, c') \<Longrightarrow> tables c' = tables c \<and> Q x r (tables c)"
  shows "dtraverse f xs c = (Inr ys, c') \<Longrightarrow> tables c' = tables c \<and> list_all2 (\<lambda>x y. Q x y (tables c)) xs ys"
proof (induction xs arbitrary: c ys)
  case (Cons x xs)
  from dbind_Inr [OF Cons.prems [unfolded dtraverse.simps]] obtain y c1 where
    y: "f x c = (Inr y, c1)" and rest: "dbind (dtraverse f xs) (\<lambda>ys. dret (y # ys)) c1 = (Inr ys, c')" by blast
  from dbind_Inr [OF rest] obtain zs where zs: "dtraverse f xs c1 = (Inr zs, c')" "ys = y # zs" by auto
  show ?case using assms [OF y] Cons.IH [OF zs(1)] zs(2) by simp
qed simp

lemma query_batch_Inr:
  assumes "query_batch env batch c = (Inr rs, c')"
  shows "tables c' = tables c \<and> (\<exists>ss bs. busy_sessions env batch (tables c) = Some ss \<and>
    busy_bookings env batch (tables c) = Some bs \<and> rs = ss @ bs)"
proof -
  from dbind_Inr [OF assms [unfolded query_batch_def]] obtain ss c1 where
    1: "query_row ''query existing sessions'' ''query existing sessions'' (busy_sessions env batch) c = (Inr ss, c1)"
    and r: "dbind (query_row ''query existing bookings'' ''query existing bookings'' (busy_bookings env batch)) (\<lambda>bs. dret (ss @ bs)) c1 = (Inr rs, c')"
    by blast
  from dbind_Inr [OF r] obtain bs where
    2: "query_row ''query existing bookings'' ''query existing bookings'' (busy_bookings env batch) c1 = (Inr bs, c')" "rs = ss @ bs" by auto
  show ?thesis using query_row_Inr [OF 1] query_row_Inr [OF 2(1)] 2(2) by simp
qed

lemma existing_ranges_complete:
  assumes "existing_ranges env pairs c = (Inr ranges, c')"
  shows "tables c' = tables c"
    and "(room, date) \<in> set pairs \<Longrightarrow> ie_date env date = Some day \<Longrightarrow> s \<in> set (cd_sessions (tables c)) \<Longrightarrow>
      ss_classroom s = room \<Longrightarrow> ss_date s = day \<Longrightarrow> (slotKey room (format_date day), ss_start s, ss_end s) \<in> set ranges"
    and "(room, date) \<in> set pairs \<Longrightarrow> ie_date env date = Some day \<Longrightarrow> b \<in> set (cd_bookings (tables c)) \<Longrightarrow>
      active_status (bk_status b) \<Longrightarrow> bk_classroom b = room \<Longrightarrow> bk_date b = day \<Longrightarrow>
      (slotKey room (format_date day), bk_start b, bk_end b) \<in> set ranges"
proof -
  let ?Q = "\<lambda>batch rs d. \<exists>ss bs. busy_sessions env batch d = Some ss \<and> busy_bookings env batch d = Some bs \<and> rs = ss @ bs"
  from dbind_Inr [OF assms [unfolded existing_ranges_def]] obtain rs where
    t: "dtraverse (query_batch env) (chunks batchTupleSize pairs) c = (Inr rs, c')" and ranges: "ranges = concat rs" by auto
  have each: "tables c' = tables c \<and> list_all2 (\<lambda>b r. ?Q b r (tables c)) (chunks batchTupleSize pairs) rs"
    by (rule dtraverse_reads_each [OF _ t]) (rule query_batch_Inr)
  then show "tables c' = tables c" by blast
  have found: "\<exists>batch ss bs. (room, date) \<in> set batch \<and> busy_sessions env batch (tables c) = Some ss \<and>
      busy_bookings env batch (tables c) = Some bs \<and> set ss \<union> set bs \<subseteq> set ranges" if "(room, date) \<in> set pairs"
  proof -
    have "concat (chunks batchTupleSize pairs) = pairs" by (rule chunks_concat) (simp add: batchTupleSize_def)
    then have "(room, date) \<in> (\<Union>b \<in> set (chunks batchTupleSize pairs). set b)" using that by (metis set_concat)
    then obtain batch where b: "batch \<in> set (chunks batchTupleSize pairs)" "(room, date) \<in> set batch" by blast
    have "\<exists>r \<in> set rs. ?Q batch r (tables c)"
      using conjunct2 [OF each] b(1) by (induction rule: list_all2_induct) auto
    then obtain r where "r \<in> set rs" "?Q batch r (tables c)" by blast
    with b(2) ranges show ?thesis by fastforce
  qed
  show "(slotKey room (format_date day), ss_start s, ss_end s) \<in> set ranges"
    if "(room, date) \<in> set pairs" "ie_date env date = Some day" "s \<in> set (cd_sessions (tables c))" "ss_classroom s = room" "ss_date s = day"
  proof -
    from found [OF that(1)] obtain batch ss where b: "(room, date) \<in> set batch" "busy_sessions env batch (tables c) = Some ss" "set ss \<subseteq> set ranges"
      by auto
    have "in_batch env batch (ss_classroom s) (ss_date s)" using b(1) that unfolding in_batch_def list_ex_iff by blast
    then have "(slotKey room (format_date day), ss_start s, ss_end s) \<in> set ss"
      using b(2) that by (auto simp: busy_sessions_def split: if_splits)
    with b(3) show ?thesis by blast
  qed
  show "(slotKey room (format_date day), bk_start b, bk_end b) \<in> set ranges"
    if "(room, date) \<in> set pairs" "ie_date env date = Some day" "b \<in> set (cd_bookings (tables c))" "active_status (bk_status b)"
      "bk_classroom b = room" "bk_date b = day"
  proof -
    from found [OF that(1)] obtain batch bs where f: "(room, date) \<in> set batch" "busy_bookings env batch (tables c) = Some bs" "set bs \<subseteq> set ranges"
      by auto
    have "in_batch env batch (bk_classroom b) (bk_date b)" using f(1) that unfolding in_batch_def list_ex_iff by blast
    then have "(slotKey room (format_date day), bk_start b, bk_end b) \<in> set bs"
      using f(2) that by (auto simp: busy_bookings_def split: if_splits)
    with f(3) show ?thesis by blast
  qed
qed

text \<open>
  PostgreSQL reads a date that \<open>time.Parse\<close> accepts as the same day, when it accepts it at all (it
  refuses the year 0).
\<close>

definition dates_agree :: "'k import_env \<Rightarrow> bool" where
  "dates_agree env \<longleftrightarrow> (\<forall>s n m. parse_date s = Some n \<longrightarrow> ie_date env s = Some m \<longrightarrow> m = n)"

text \<open>What the write relies on: the slot of the row is free on its day.\<close>

definition row_free :: "'k import_env \<Rightarrow> slot_row \<Rightarrow> campus_db \<Rightarrow> bool" where
  "row_free env x d \<longleftrightarrow> (sr_active x \<longrightarrow> (case ie_date env (sr_date x) of None \<Rightarrow> True
     | Some day \<Rightarrow> slot_free d (sr_room x) day (sr_start x) (sr_end x)))"

lemma checked_slots_free:
  assumes "dates_agree env" and run: "check_slots env slot (Inr (good, errs, n)) c = (Inr (good', errs', n'), c')"
    and dates: "\<forall>rx \<in> set good. parse_date (sr_date (slot (snd rx))) \<noteq> None"
  shows "tables c' = tables c \<and> n' = n \<and> (\<exists>P. good' = filter P good) \<and> (\<forall>rx \<in> set good'. row_free env (slot (snd rx)) (tables c))"
proof (cases "good = []")
  case False
  let ?pairs = "remdups (map (\<lambda>rx. (sr_room (slot (snd rx)), sr_date (slot (snd rx)))) (filter (\<lambda>rx. sr_active (slot (snd rx))) good))"
  obtain r c1 where e: "existing_ranges env ?pairs c = (r, c1)" by fastforce
  then obtain ranges where r: "r = Inr ranges" "c1 = c'" using run False by (cases r) (auto simp: check_slots_def Let_def)
  note ranges = existing_ranges_complete [OF e [unfolded r]]
  let ?bad = "refused slot (conflict_set slot ranges good)"
  have good': "good' = filter (\<lambda>rx. \<not> ?bad rx) good" "n' = n" using run False e r by (auto simp: check_slots_def Let_def)
  have "row_free env (slot (snd rx)) (tables c)" if rx: "rx \<in> set good'" for rx
    unfolding row_free_def
  proof (intro impI, split option.split, intro conjI impI allI)
    fix day assume act: "sr_active (slot (snd rx))" and day: "ie_date env (sr_date (slot (snd rx))) = Some day"
    let ?x = "slot (snd rx)"
    have mem: "rx \<in> set good" "\<not> ?bad rx" using rx good' by auto
    have "\<not> taken ranges ?x"
    proof
      assume "taken ranges ?x"
      then have "conflict_key ?x \<in> set (conflict_set slot ranges good)" using mem(1) act by (auto simp: conflict_set_def)
      then show False using mem(2) act by (simp add: refused_def)
    qed
    moreover obtain n0 where n0: "parse_date (sr_date ?x) = Some n0" using dates mem(1) by blast
    moreover have "day = n0" using assms(1) n0 day by (simp add: dates_agree_def)
    ultimately have free: "(slotKey (sr_room ?x) (format_date day), s, e) \<in> set ranges \<Longrightarrow> \<not> overlaps s e (sr_start ?x) (sr_end ?x)" for s e
      using format_parse_date [OF n0] by (auto simp: taken_def list_ex_iff ranges_overlap_def overlaps_def)
    have pair: "(sr_room ?x, sr_date ?x) \<in> set ?pairs" using mem(1) act by auto
    show "slot_free (tables c) (sr_room ?x) day (sr_start ?x) (sr_end ?x)"
      using free ranges(2) [OF pair day] ranges(3) [OF pair day]
      by (auto simp: slot_free_def session_in_slot_def booking_in_slot_def list_ex_iff)
  qed simp
  then show ?thesis using ranges(1) good' by blast
qed (use run in \<open>auto simp: check_slots_def\<close>)

lemma check_slots_reads: "tables (snd (check_slots env slot p c)) = tables c"
proof -
  have "reads (query_batch env b)" for b
    unfolding query_batch_def by (intro reads_intros)
  then have r: "reads (existing_ranges env pairs)" for pairs
    unfolding existing_ranges_def by (intro reads_intros)
  show ?thesis
  proof (cases p)
    case (Inr t)
    obtain good errs n where t: "t = (good, errs, n)" by (cases t)
    obtain res c' where e: "existing_ranges env (remdups (map (\<lambda>rx. (sr_room (slot (snd rx)), sr_date (slot (snd rx))))
           (filter (\<lambda>rx. sr_active (slot (snd rx))) good))) c = (res, c')" by fastforce
    have "tables c' = tables c" using readsD [OF r] e by (metis snd_conv)
    then show ?thesis using Inr t e by (cases res) (auto simp: check_slots_def Let_def)
  qed (simp add: check_slots_def)
qed

subsection \<open>The write\<close>

text \<open>Rows written in order: each write keeps the guards of the compatible rows that follow.\<close>

lemma write_rows_in_order:
  assumes "\<And>rx d d'. rx \<in> set good \<Longrightarrow> I d \<Longrightarrow> G rx d \<Longrightarrow> f (snd rx) d = (True, d') \<Longrightarrow>
      I d' \<and> (\<forall>ry \<in> set good. ok rx ry \<and> G ry d \<longrightarrow> G ry d')"
    and "sorted_wrt ok good"
  shows "triple (\<lambda>d. I d \<and> (\<forall>rx \<in> set good. G rx d)) (write_rows f good) (\<lambda>_. I) (\<lambda>_. True)"
proof -
  have "triple (\<lambda>d. I d \<and> (\<forall>rx \<in> set xs. G rx d)) (dmapM (write_row f) xs) (\<lambda>_. I) (\<lambda>_. True)"
    if "set xs \<subseteq> set good" "sorted_wrt ok xs" for xs
    using that
  proof (induction xs)
    case Nil
    show ?case unfolding dmapM.simps by (rule triple_dret) simp
  next
    case (Cons rx xs)
    let ?P = "\<lambda>d. I d \<and> (\<forall>ry \<in> set xs. G ry d)"
    have "triple (\<lambda>d. I d \<and> (\<forall>ry \<in> set (rx # xs). G ry d)) (write_row f rx) (\<lambda>_. ?P) (\<lambda>_. True)"
    proof (rule triple_clean)
      show "clean (write_row f rx)" unfolding write_row_def by (auto split: prod.split intro: clean_intros)
      fix d x d' assume P: "I d \<and> (\<forall>ry \<in> set (rx # xs). G ry d)" and run: "write_row f rx (healthy d) = (Inr x, healthy d')"
      then have "f (snd rx) d = (True, d')"
        by (cases "f (snd rx) d") (auto simp: write_row_def prod.case_eq_if split: if_splits)
      from assms(1) [OF _ _ _ this] P Cons.prems show "?P d'" by auto
    qed
    then show ?case unfolding dmapM.simps by (rule triple_dbind) (use Cons in simp)
  qed
  then show ?thesis unfolding write_rows_def using assms(2) by (intro triple_dbind) (auto intro: triple_dret)
qed

text \<open>Two rows of different slots: the write of one leaves the slot of the other free.\<close>

lemma slot_free_after:
  assumes "dates_agree env" and "slots_differ x y" and "row_free env y d" and "sr_active x"
    and "parse_date (sr_date x) = Some n" and "parse_date (sr_date y) \<noteq> None"
    and "\<And>room day ps pe. slot_free d' room day ps pe \<longleftrightarrow>
      slot_free d room day ps pe \<and> \<not> (room = sr_room x \<and> day = n \<and> overlaps (sr_start x) (sr_end x) ps pe)"
  shows "row_free env y d'"
proof -
  obtain m where m: "parse_date (sr_date y) = Some m" using assms(6) by blast
  have "day = m" if "ie_date env (sr_date y) = Some day" for day using assms(1) that m by (simp add: dates_agree_def)
  then show ?thesis using assms(2,3,4,5) m unfolding row_free_def assms(7) slots_differ_def by (auto split: option.splits)
qed

lemma put_session_effect:
  assumes "put_session env x d = (True, d')" and "dates_agree env" and "parse_date (si_date (sx_input x)) = Some n"
  shows "insert_session (ie_now env) n (sx_input x) d = (Some (cd_next_session d), d')"
proof -
  obtain day where day: "ie_date env (si_date (sx_input x)) = Some day" using assms(1) by (auto simp: put_session_def split: option.splits)
  then have "day = n" using assms(2,3) by (simp add: dates_agree_def)
  then show ?thesis using assms(1) day by (auto simp: put_session_def insert_session_def split: if_splits prod.splits)
qed

lemma insert_session_slot_free:
  assumes "insert_session now n inp d = (Some i, d')"
  shows "slot_free d' room day ps pe \<longleftrightarrow>
    slot_free d room day ps pe \<and> \<not> (room = si_classroom inp \<and> day = n \<and> overlaps (si_start inp) (si_end inp) ps pe)"
  using assms by (auto simp: insert_session_def slot_free_def session_in_slot_def booking_in_slot_def split: if_splits)

text \<open>One session of the file is one atomic step of the room.\<close>

lemma put_session_step:
  assumes "put_session env x d = (True, d')" and "dates_agree env" and "parse_date (si_date (sx_input x)) = Some n"
    and "row_free env (session_slot_row x) d" and "find_classroom d (si_classroom (sx_input x)) \<noteq> None"
  shows "ses_step d d'"
proof -
  note ins = put_session_effect [OF assms(1-3)]
  have "ie_date env (si_date (sx_input x)) = Some n"
    using assms(1-3) by (auto simp: put_session_def dates_agree_def split: option.splits)
  then have "slot_free d (si_classroom (sx_input x)) n (si_start (sx_input x)) (si_end (sx_input x))"
    using assms(4) by (simp add: row_free_def session_slot_row_def)
  then show ?thesis by (rule ses_step.insert [OF assms(5) _ ins])
qed

lemma put_booking_effect:
  assumes "put_booking env x d = (True, d')" and "dates_agree env" and "parse_date (bx_date x) = Some n"
  shows "d' = d\<lparr>cd_bookings := cd_bookings d @ [\<lparr>bk_id = cd_next_booking d, bk_classroom = bx_room_id x,
            bk_user = bx_user_id x, bk_date = n, bk_start = bx_start x, bk_end = bx_end x, bk_status = bx_status x,
            bk_purpose = bx_purpose x, bk_created_at = ie_now env, bk_reviewed_at = None\<rparr>],
          cd_next_booking := cd_next_booking d + 1\<rparr> \<and> ie_date env (bx_date x) = Some n"
proof -
  obtain day where day: "ie_date env (bx_date x) = Some day" using assms(1) by (auto simp: put_booking_def split: option.splits)
  then have "day = n" using assms(2,3) by (simp add: dates_agree_def)
  then show ?thesis using assms(1) day by (auto simp: put_booking_def split: if_splits)
qed

text \<open>A restored booking keeps the rooms consistent: an active one takes a free slot, the others none.\<close>

lemma put_booking_keeps:
  assumes put: "put_booking env x d = (True, d')" and agree: "dates_agree env" and n: "parse_date (bx_date x) = Some n"
    and free: "row_free env (booking_slot_row x) d" and st: "bx_status x \<in> set booking_statuses" and inv: "slots_inv d"
  shows "slots_inv d'"
proof -
  note e = put_booking_effect [OF put agree n]
  let ?i = "cd_next_booking d"
  let ?s = "(bx_room_id x, n, bx_start x, bx_end x)"
  have binv: "bookings_inv d" and sinv: "session_ids_ok d'" using inv e session_ids_frame [of d' d] by (simp_all add: slots_inv_def)
  have fresh: "?i \<notin> bk_id ` set (cd_bookings d)" using binv by (auto simp: bookings_inv_def)
  have held: "held_slots d' = (if active_status (bx_status x) then insert (?i, ?s) (held_slots d) else held_slots d)"
  proof -
    let ?b = "\<lparr>bk_id = ?i, bk_classroom = bx_room_id x, bk_user = bx_user_id x, bk_date = n, bk_start = bx_start x, bk_end = bx_end x,
      bk_status = bx_status x, bk_purpose = bx_purpose x, bk_created_at = ie_now env, bk_reviewed_at = None\<rparr>"
    have "{b \<in> set (cd_bookings d'). active_status (bk_status b)} =
        (if active_status (bx_status x) then insert ?b {b \<in> set (cd_bookings d). active_status (bk_status b)}
         else {b \<in> set (cd_bookings d). active_status (bk_status b)})" using e by auto
    then show ?thesis by (simp add: held_slots_def)
  qed
  have rooms: "room_holders d' = (if active_status (bx_status x) then insert (Inl ?i, ?s) (room_holders d) else room_holders d)"
    using e held by (auto simp: room_holders_def session_holders_def)
  have clear: "\<not> slots_clash (snd p) ?s \<and> \<not> slots_clash ?s (snd p)" if "p \<in> room_holders d" "active_status (bx_status x)" for p
  proof -
    have "slot_free d (bx_room_id x) n (bx_start x) (bx_end x)"
      using free that(2) e by (simp add: row_free_def booking_slot_row_def)
    then have "\<not> slots_clash (snd p) ?s" using that(1) free_of_holders [of _ _ _ _ 0 d p] by (auto simp: slot_free_def other_session_0)
    then show ?thesis using booked.symmetric [of ?s "snd p"] by blast
  qed
  have disj: "\<forall>p \<in> room_holders d'. \<forall>q \<in> room_holders d'. fst p \<noteq> fst q \<longrightarrow> \<not> slots_clash (snd p) (snd q)"
    using inv clear unfolding rooms slots_inv_def by (auto split: if_splits)
  have "\<forall>p \<in> held_slots d'. \<forall>q \<in> held_slots d'. fst p \<noteq> fst q \<longrightarrow> \<not> slots_clash (snd p) (snd q)"
  proof (intro ballI impI)
    fix p q assume "p \<in> held_slots d'" "q \<in> held_slots d'" "fst p \<noteq> fst q"
    then show "\<not> slots_clash (snd p) (snd q)"
      using disj [rule_format, of "(Inl (fst p), snd p)" "(Inl (fst q), snd q)"] by (force simp: room_holders_def)
  qed
  moreover have "distinct (map bk_id (cd_bookings d')) \<and>
      (\<forall>b \<in> set (cd_bookings d'). 0 < bk_id b \<and> bk_id b < cd_next_booking d' \<and> bk_status b \<in> set booking_statuses) \<and> 0 < cd_next_booking d'"
    using binv fresh st e by (auto simp: bookings_inv_def)
  ultimately show ?thesis using sinv disj by (simp add: slots_inv_def bookings_inv_def)
qed

lemma put_booking_slot_free:
  assumes "put_booking env x d = (True, d')" and "dates_agree env" and "parse_date (bx_date x) = Some n"
  shows "slot_free d' room day ps pe \<longleftrightarrow> slot_free d room day ps pe \<and>
    \<not> (active_status (bx_status x) \<and> room = bx_room_id x \<and> day = n \<and> overlaps (bx_start x) (bx_end x) ps pe)"
  using put_booking_effect [OF assms] by (auto simp: slot_free_def session_in_slot_def booking_in_slot_def)

subsection \<open>What a reading promises\<close>

lemma list_classrooms_Inr: "load_rooms c = (Inr rooms, c') \<Longrightarrow> rooms name = Some i \<Longrightarrow> i \<in> cl_id ` set (cd_classrooms (tables c))"
  unfolding load_rooms_def
  by (auto simp: list_classrooms_def query_def on_error_Inr last_wins_def dest!: dbind_Inr stmt_Inr map_of_SomeD)

lemma refs_read: "reads load_rooms" "reads load_regimes" "reads (load_session_refs env)" "reads load_booking_refs"
proof -
  show rooms: "reads load_rooms" unfolding load_rooms_def list_classrooms_def by (intro reads_intros)
  have "reads campus_regimes"
    unfolding reads_def by (intro allI keeps_all_reads keeps_campus_regimes) simp
  then show regimes: "reads load_regimes" unfolding load_regimes_def by (rule reads_on_error)
  show "reads (load_session_refs env)" unfolding load_session_refs_def by (intro reads_intros rooms regimes course_reads)
  show "reads load_booking_refs" unfolding load_booking_refs_def load_usernames_def by (intro reads_intros rooms regimes)
qed

lemma resolve_session_ok:
  assumes "resolve_session refs rec = Inr x"
  shows "(\<exists>name. fst refs name = Some (si_classroom (sx_input x))) \<and> parse_date (sr_date (session_slot_row x)) \<noteq> None"
  using assms unfolding resolve_session_def Let_def
  by (auto simp: session_slot_row_def split: if_splits option.splits sum.splits prod.splits)

lemma resolve_booking_ok:
  assumes "resolve_booking env refs rec = Inr x"
  shows "bx_status x \<in> set booking_statuses \<and> (\<exists>name. fst refs name = Some (bx_room_id x)) \<and>
    (\<exists>name. fst (snd refs) name = Some (bx_user_id x)) \<and> parse_date (sr_date (booking_slot_row x)) \<noteq> None"
  using assms unfolding resolve_booking_def Let_def
  by (auto simp: booking_slot_row_def split: if_splits option.splits sum.splits prod.splits)

text \<open>The rows that pass: resolved, with slots that differ from each other and are free in the tables of the lookup.\<close>

definition checked_rows :: "'k import_env \<Rightarrow> ('c \<Rightarrow> slot_row) \<Rightarrow> ('c \<Rightarrow> bool) \<Rightarrow> campus_db \<Rightarrow> (int \<times> 'c) list \<Rightarrow> bool" where
  "checked_rows env slot ok d good \<longleftrightarrow>
     (\<forall>rx \<in> set good. ok (snd rx) \<and> parse_date (sr_date (slot (snd rx))) \<noteq> None \<and> row_free env (slot (snd rx)) d) \<and>
     sorted_wrt (\<lambda>rx ry. slots_differ (slot (snd rx)) (slot (snd ry))) good"

lemma parse_slots_checked:
  assumes "dates_agree env" and resolve: "\<And>rec x. resolve rec = Inr x \<Longrightarrow> ok x \<and> parse_date (sr_date (slot x)) \<noteq> None"
    and run: "check_slots env slot (parse_each env cols (slot_step resolve slot) [] payload) c = (Inr (good, errs, n), c')"
  shows "tables c' = tables c \<and> checked_rows env slot ok (tables c) good"
proof (cases "parse_each env cols (slot_step resolve slot) [] payload")
  case (Inr t)
  then obtain good0 errs0 n0 rows where t: "t = (good0, errs0, n0)" and scan: "scan_rows (slot_step resolve slot) 2 rows [] = (good0, errs0)"
    by (auto simp: parse_each_def split: sum.splits prod.splits)
  from scan_slots [where ok = ok, OF resolve scan] have s: "\<forall>rx \<in> set good0. ok (snd rx) \<and> parse_date (sr_date (slot (snd rx))) \<noteq> None"
    "sorted_wrt (\<lambda>rx ry. slots_differ (slot (snd rx)) (slot (snd ry))) good0" by auto
  from checked_slots_free [OF assms(1) run [unfolded Inr t]] s obtain P where f: "tables c' = tables c" "good = filter P good0"
    "\<forall>rx \<in> set good. row_free env (slot (snd rx)) (tables c)" by blast
  then show ?thesis using s by (auto simp: checked_rows_def intro: sorted_wrt_filter)
qed (use run in \<open>simp add: check_slots_def\<close>)

lemma write_sessions_run:
  assumes "dates_agree env" and "checked_rows env session_slot_row (\<lambda>x. si_classroom (sx_input x) \<in> cl_id ` set (cd_classrooms d0)) d0 good"
  shows "triple (\<lambda>d. d = d0) (write_rows (put_session env) good) (\<lambda>_. ses_step\<^sup>*\<^sup>* d0) (\<lambda>_. True)"
proof -
  let ?I = "\<lambda>d. ses_step\<^sup>*\<^sup>* d0 d \<and> cd_classrooms d = cd_classrooms d0"
  let ?G = "\<lambda>rx d. row_free env (session_slot_row (snd rx)) d"
  have "triple (\<lambda>d. ?I d \<and> (\<forall>rx \<in> set good. ?G rx d)) (write_rows (put_session env) good) (\<lambda>_. ?I) (\<lambda>_. True)"
  proof (rule write_rows_in_order [where ok = "\<lambda>rx ry. slots_differ (session_slot_row (snd rx)) (session_slot_row (snd ry))"])
    fix rx d d' assume mem: "rx \<in> set good" and I: "?I d" and G: "?G rx d" and put: "put_session env (snd rx) d = (True, d')"
    obtain n where n: "parse_date (si_date (sx_input (snd rx))) = Some n"
      using assms(2) mem by (auto simp: checked_rows_def session_slot_row_def)
    have room: "find_classroom d (si_classroom (sx_input (snd rx))) \<noteq> None"
      using assms(2) mem I by (auto simp: checked_rows_def find_classroom_None)
    note ins = put_session_effect [OF put assms(1) n]
    have "ses_step d d'" by (rule put_session_step [OF put assms(1) n G room])
    then have "ses_step\<^sup>*\<^sup>* d0 d'" using I by (auto intro: rtranclp.rtrancl_into_rtrancl)
    moreover have "cd_classrooms d' = cd_classrooms d0" using ins I by (auto simp: insert_session_def split: if_splits)
    moreover have "?G ry d'" if "ry \<in> set good" "slots_differ (session_slot_row (snd rx)) (session_slot_row (snd ry))" "?G ry d" for ry
      by (rule slot_free_after [OF assms(1) that(2,3), of n])
        (use n that(1) assms(2) insert_session_slot_free [OF ins] in \<open>auto simp: session_slot_row_def checked_rows_def\<close>)
    ultimately show "?I d' \<and> (\<forall>ry \<in> set good. slots_differ (session_slot_row (snd rx)) (session_slot_row (snd ry)) \<and> ?G ry d \<longrightarrow> ?G ry d')"
      by blast
  qed (use assms(2) in \<open>simp add: checked_rows_def\<close>)
  then show ?thesis by (rule triple_conseq) (use assms(2) in \<open>auto simp: checked_rows_def\<close>)
qed

lemma write_bookings_keep:
  assumes "dates_agree env" and "checked_rows env booking_slot_row (\<lambda>x. bx_status x \<in> set booking_statuses) d0 good" and "slots_inv d0"
  shows "triple (\<lambda>d. d = d0) (write_rows (put_booking env) good) (\<lambda>_. slots_inv) (\<lambda>_. True)"
proof -
  let ?G = "\<lambda>rx d. row_free env (booking_slot_row (snd rx)) d"
  have "triple (\<lambda>d. slots_inv d \<and> (\<forall>rx \<in> set good. ?G rx d)) (write_rows (put_booking env) good) (\<lambda>_. slots_inv) (\<lambda>_. True)"
  proof (rule write_rows_in_order [where ok = "\<lambda>rx ry. slots_differ (booking_slot_row (snd rx)) (booking_slot_row (snd ry))"])
    fix rx d d' assume mem: "rx \<in> set good" and inv: "slots_inv d" and G: "?G rx d" and put: "put_booking env (snd rx) d = (True, d')"
    obtain n where n: "parse_date (bx_date (snd rx)) = Some n"
      using assms(2) mem by (auto simp: checked_rows_def booking_slot_row_def)
    have "slots_inv d'" by (rule put_booking_keeps [OF put assms(1) n G _ inv]) (use assms(2) mem in \<open>auto simp: checked_rows_def\<close>)
    moreover have "?G ry d'" if "ry \<in> set good" "slots_differ (booking_slot_row (snd rx)) (booking_slot_row (snd ry))" "?G ry d" for ry
    proof (cases "active_status (bx_status (snd rx))")
      case True
      show ?thesis
        by (rule slot_free_after [OF assms(1) that(2,3), of n])
          (use n that(1) assms(2) put_booking_slot_free [OF put assms(1) n] True in \<open>auto simp: booking_slot_row_def checked_rows_def\<close>)
    next
      case False
      then show ?thesis using that(3) put_booking_slot_free [OF put assms(1) n] by (auto simp: row_free_def split: option.splits)
    qed
    ultimately show "slots_inv d' \<and> (\<forall>ry \<in> set good. slots_differ (booking_slot_row (snd rx)) (booking_slot_row (snd ry)) \<and> ?G ry d \<longrightarrow> ?G ry d')"
      by blast
  qed (use assms(2) in \<open>simp add: checked_rows_def\<close>)
  then show ?thesis by (rule triple_conseq) (use assms(2,3) in \<open>auto simp: checked_rows_def\<close>)
qed

text \<open>A commit that loads, reads and writes without others in between.\<close>

lemma commit_slots:
  assumes refs: "reads load" and parse: "\<And>refs c1 p c2. load c = (Inr refs, c1) \<Longrightarrow> parse refs c1 = (p, c2) \<Longrightarrow> tables c2 = tables c1"
    and P: "P (tables c)"
    and wr: "\<And>refs c1 good errs n c2. load c = (Inr refs, c1) \<Longrightarrow> parse refs c1 = (Inr (good, errs, n), c2) \<Longrightarrow>
      triple (\<lambda>d. d = tables c) (write_rows f good) (\<lambda>_. P) (\<lambda>_. True)"
  shows "P (tables (snd (with_refs load (\<lambda>refs c. case parse refs c of (p, c') \<Rightarrow> commit_parsed 1 (write_rows f) p c') False c)))"
proof (cases "load c")
  case (Pair r c1)
  have c1: "tables c1 = tables c" using readsD [OF refs, of c] Pair by simp
  show ?thesis
  proof (cases r)
    case (Inl e)
    then show ?thesis using Pair P c1 by (simp add: with_refs_def)
  next
    case (Inr refs)
    obtain p c2 where p: "parse refs c1 = (p, c2)" by fastforce
    have c2: "tables c2 = tables c" using parse [OF Pair [unfolded Inr] p] c1 by simp
    obtain out stopped c3 where run: "commit_parsed 1 (write_rows f) p c2 = ((out, stopped), c3)" by (metis surj_pair)
    have "P (tables c3)"
      using commit_parsed_cases [OF run]
    proof
      assume "\<exists>good errs n x d1 d2. p = Inr (good, errs, n) \<and> \<not> stopped \<and> tables d1 = tables c2 \<and> write_rows f good d1 = (Inr x, d2) \<and> tables c3 = tables d2"
      then obtain good errs n x d1 d2 where w: "p = Inr (good, errs, n)" "tables d1 = tables c2" "write_rows f good d1 = (Inr x, d2)" "tables c3 = tables d2"
        by blast
      show ?thesis
        using tripleD(1) [OF wr [OF Pair [unfolded Inr] p [unfolded w(1)]] _ w(3)] w(2,4) c2 by simp
    qed (use P c2 in simp)
    then show ?thesis using Pair Inr p run by (simp add: with_refs_def)
  qed
qed

lemma loaded_rooms:
  assumes "load_session_refs env c = (Inr srefs, c1)" and "fst srefs name = Some i"
  shows "i \<in> cl_id ` set (cd_classrooms (tables c))"
proof -
  from dbind_Inr [OF assms(1) [unfolded load_session_refs_def]] obtain rooms c2 where
    "load_rooms c = (Inr rooms, c2)" "fst srefs = rooms" by (auto simp del: hx.simps dest!: dbind_Inr)
  then show ?thesis using list_classrooms_Inr [of c rooms c2 name i] assms(2) by simp
qed

text \<open>
  C12: a session import, when nothing else writes between its lookup and its write, is a run of the
  atomic steps of session requests, and with a booking import it keeps the rooms consistent: no two
  sessions or active bookings share a period of a room, whatever the file says and whatever fails.
\<close>
theorem slot_imports_keep_rooms:
  fixes env :: "'k::linorder import_env"
  assumes "dates_agree env" and "slots_inv (tables c)"
  shows "ses_step\<^sup>*\<^sup>* (tables c) (tables (snd (commit_sessions env payload c))) \<and>
    slots_inv (tables (snd (commit_sessions env payload c))) \<and> slots_inv (tables (snd (commit_bookings env payload c)))"
proof -
  have steps: "ses_step\<^sup>*\<^sup>* (tables c) (tables (snd (commit_sessions env payload c)))"
    unfolding commit_sessions_def
  proof (rule commit_slots [OF refs_read(3)])
    fix refs c1 p c2 assume "parse_sessions env refs payload c1 = (p, c2)"
    then show "tables c2 = tables c1" using check_slots_reads unfolding parse_sessions_def by (metis snd_conv)
  next
    fix refs c1 good errs n c2
    assume l: "load_session_refs env c = (Inr refs, c1)" and p: "parse_sessions env refs payload c1 = (Inr (good, errs, n), c2)"
    have c1: "tables c1 = tables c" using readsD [OF refs_read(3), of env c] l by simp
    have "checked_rows env session_slot_row (\<lambda>x. \<exists>name. fst refs name = Some (si_classroom (sx_input x))) (tables c1) good"
      by (rule conjunct2 [OF parse_slots_checked [OF assms(1) _ p [unfolded parse_sessions_def]]])
        (use resolve_session_ok in blast)
    then have "checked_rows env session_slot_row (\<lambda>x. si_classroom (sx_input x) \<in> cl_id ` set (cd_classrooms (tables c))) (tables c) good"
      using loaded_rooms [OF l] c1 by (auto simp: checked_rows_def)
    then show "triple (\<lambda>d. d = tables c) (write_rows (put_session env) good) (\<lambda>_. ses_step\<^sup>*\<^sup>* (tables c)) (\<lambda>_. True)"
      by (rule write_sessions_run [OF assms(1)])
  qed simp
  have "room_request\<^sup>*\<^sup>* d d'" if "ses_step\<^sup>*\<^sup>* d d'" for d d'
    using that by (induction rule: rtranclp_induct) (auto intro: rtranclp.rtrancl_into_rtrancl room_request.concurrent)
  then have "slots_inv (tables (snd (commit_sessions env payload c)))" using steps room_requests_keep assms(2) by blast
  moreover have "slots_inv (tables (snd (commit_bookings env payload c)))"
    unfolding commit_bookings_def
  proof (rule commit_slots [OF refs_read(4)])
    fix refs c1 p c2 assume "parse_bookings env refs payload c1 = (p, c2)"
    then show "tables c2 = tables c1" using check_slots_reads unfolding parse_bookings_def by (metis snd_conv)
  next
    fix refs c1 good errs n c2
    assume l: "load_booking_refs c = (Inr refs, c1)" and p: "parse_bookings env refs payload c1 = (Inr (good, errs, n), c2)"
    have c1: "tables c1 = tables c" using readsD [OF refs_read(4), of c] l by simp
    have "checked_rows env booking_slot_row (\<lambda>x. bx_status x \<in> set booking_statuses) (tables c1) good"
      by (rule conjunct2 [OF parse_slots_checked [OF assms(1) _ p [unfolded parse_bookings_def]]])
        (use resolve_booking_ok in blast)
    then show "triple (\<lambda>d. d = tables c) (write_rows (put_booking env) good) (\<lambda>_. slots_inv) (\<lambda>_. True)"
      using write_bookings_keep [OF assms(1) _ assms(2)] c1 by simp
  qed (rule assms(2))
  ultimately show ?thesis using steps by blast
qed

subsection \<open>Examples\<close>

text \<open>A file with one booking, the rooms of the examples with a user, and the same rooms after a session took the slot.\<close>

definition demo_slot_env :: "string import_env" where
  "demo_slot_env = \<lparr>ie_open = (\<lambda>_. Inr [[''classroom'', ''username'', ''date'', ''period_start'', ''period_end'', ''status'', ''purpose''],
       [''A101'', ''li'', ''2024-03-18'', ''1'', ''2'', ''approved'', ''club'']]),
     ie_lower = (\<lambda>s. s), ie_quote = (\<lambda>s. s), ie_float = Some, ie_numeric = (\<lambda>_. Some 0), ie_date = parse_date, ie_time = (\<lambda>s. s),
     ie_now = 0, ie_key = (\<lambda>s. s)\<rparr>"

definition demo_import_rooms :: campus_db where
  "demo_import_rooms = demo_rooms\<lparr>cd_users := [\<lparr>us_id = 7, us_username = ''li'', us_display_name = ''Li'', us_type = ''user''\<rparr>]\<rparr>"

definition demo_booked_row :: booking_import where
  "demo_booked_row = \<lparr>bx_room_id = 1, bx_user_id = 7, bx_date = ''2024-03-18'', bx_start = 1, bx_end = 2,
     bx_status = ''approved'', bx_purpose = ''club'', bx_room = ''A101'', bx_username = ''li''\<rparr>"

lemma demo_dates_agree: "dates_agree demo_slot_env"
  by (simp add: dates_agree_def demo_slot_env_def)

text \<open>The reading of the file, with the references as they are in the tables.\<close>

definition demo_reading :: "(int \<times> booking_import) parsed" where
  "demo_reading = (case load_booking_refs (healthy demo_import_rooms) of
     (Inl msg, c) \<Rightarrow> Inl ([], 0, msg) | (Inr refs, c) \<Rightarrow> fst (parse_bookings demo_slot_env refs [] c))"

lemma demo_read: "demo_reading = Inr ([(2, demo_booked_row)], [], 1)"
  by code_simp

lemma demo_booked_commit: "map (\<lambda>b. (bk_classroom b, bk_date b)) (cd_bookings (tables (snd (commit_bookings demo_slot_env [] (healthy demo_import_rooms))))) = [(1, 19800)]"
  by code_simp

lemma demo_import_inv: "slots_inv demo_import_rooms"
  by (rule slots_inv_start) (simp_all add: demo_import_rooms_def demo_rooms_simps)

theorem slot_imports_keep_rooms_witness:
  "slots_inv (tables (snd (commit_bookings demo_slot_env [] (healthy demo_import_rooms)))) \<and>
   map (\<lambda>b. (bk_classroom b, bk_date b)) (cd_bookings (tables (snd (commit_bookings demo_slot_env [] (healthy demo_import_rooms))))) = [(1, 19800)]"
  using slot_imports_keep_rooms [of demo_slot_env "healthy demo_import_rooms" "[]"] demo_dates_agree demo_import_inv demo_booked_commit
  by simp

text \<open>
  C13: the lookup and the write of an import are not one transaction, and the write looks at nothing.
  When a session takes the slot of an active booking after the file was read, the import still goes
  through and reports the row as written, and the room is taken twice.
\<close>
theorem stale_slots_double_book:
  assumes "s \<in> set (cd_sessions d)" and "active_status (bx_status x)" and "bx_room_id x = ss_classroom s"
    and "ie_date env (bx_date x) = Some (ss_date s)" and "overlaps (ss_start s) (ss_end s) (bx_start x) (bx_end x)"
    and "fits32 (bx_start x)" and "fits32 (bx_end x)" and "rune_count (bx_purpose x) \<le> 255"
  shows "\<exists>c'. commit_parsed 1 (write_rows (put_booking env)) (Inr ([(row, x)], errs, n)) (healthy d) =
      ((\<lparr>rs_total = n, rs_succeeded = 1, rs_failed = n - 1, rs_errors = errs, rs_rows = []\<rparr>, False), c') \<and>
    \<not> slots_inv (tables c')"
proof -
  let ?b = "\<lparr>bk_id = cd_next_booking d, bk_classroom = bx_room_id x, bk_user = bx_user_id x, bk_date = ss_date s, bk_start = bx_start x,
      bk_end = bx_end x, bk_status = bx_status x, bk_purpose = bx_purpose x, bk_created_at = ie_now env, bk_reviewed_at = None\<rparr>"
  let ?d = "d\<lparr>cd_bookings := cd_bookings d @ [?b], cd_next_booking := cd_next_booking d + 1\<rparr>"
  have put: "put_booking env x d = (True, ?d)" using assms by (simp add: put_booking_def)
  then have run: "commit_parsed 1 (write_rows (put_booking env)) (Inr ([(row, x)], errs, n)) (healthy d) =
      ((\<lparr>rs_total = n, rs_succeeded = 1, rs_failed = n - 1, rs_errors = errs, rs_rows = []\<rparr>, False), healthy ?d)"
    by (simp add: commit_parsed_def import_tx_def prepare_statements_def write_rows_def write_row_def dbind_def dret_def)
  have "\<not> slots_inv ?d"
  proof
    assume "slots_inv ?d"
    from slots_inv_pairs(2) [OF this, of s ?b] assms show False by (simp add: session_slot_def)
  qed
  with run show ?thesis by auto
qed

definition demo_taken :: campus_db where
  "demo_taken = demo_import_rooms\<lparr>cd_sessions := [demo_session], cd_next_session := 2\<rparr>"

lemma demo_taken_step: "ses_step demo_import_rooms demo_taken"
proof (rule ses_step.insert)
  have "pg_text 255 [] \<and> fits32 1 \<and> fits32 2" by code_simp
  then show "insert_session 0 19800 demo_session_input demo_import_rooms = (Some 1, demo_taken)"
    by (simp add: insert_session_def demo_session_input_def demo_session_def demo_taken_def demo_import_rooms_def demo_rooms_simps)
qed (simp_all add: find_classroom_def demo_import_rooms_def demo_rooms_def demo_room_def demo_session_input_def slot_free_def
    session_in_slot_def booking_in_slot_def campus_empty_def)

theorem stale_slots_double_book_witness:
  "ses_step demo_import_rooms demo_taken \<and>
   \<not> slots_inv (tables (snd (commit_parsed 1 (write_rows (put_booking demo_slot_env)) demo_reading (healthy demo_taken))))"
proof -
  have "active_status ''approved'' \<and> fits32 1 \<and> fits32 2 \<and> rune_count ''club'' \<le> 255 \<and> overlaps 1 2 1 2" by code_simp
  moreover have "parse_date ''2024-03-18'' = Some 19800" by code_simp
  ultimately show ?thesis
    using stale_slots_double_book [of demo_session demo_taken demo_booked_row demo_slot_env 2 "[]" 1] demo_taken_step
    by (auto simp: demo_read demo_taken_def demo_session_def demo_booked_row_def demo_slot_env_def)
qed

end
