(* ===== verification/Json_Text.thy ===== *)
theory Json_Text
  imports Go_Lib
begin

text \<open>
  What \<open>encoding/json\<close> decides about a byte string: whether it is one JSON value (the scanner of
  \<open>json.Unmarshal\<close>, with its nesting limit) and whether it decodes into a
  \<open>map[string]json.RawMessage\<close>, which the program uses to recognise JSON objects. Bytes above 127
  are not checked by the scanner. The recursion carries fuel; \<open>json_fuel\<close> shows that one more than
  the length of the text is enough.
\<close>

subsection \<open>Tokens\<close>

definition json_space :: "char \<Rightarrow> bool" where
  "json_space c \<longleftrightarrow> c = CHR '' '' \<or> c = CHR 0x09 \<or> c = CHR 0x0A \<or> c = CHR 0x0D"

definition skip_ws :: "string \<Rightarrow> string" where
  "skip_ws s = dropWhile json_space s"

definition is_hex :: "char \<Rightarrow> bool" where
  "is_hex c \<longleftrightarrow> is_digit c \<or> c \<in> set ''abcdefABCDEF''"

text \<open>The rest of the text after a string literal whose opening quote has been read.\<close>

fun json_string :: "string \<Rightarrow> string option" where
  "json_string [] = None"
| "json_string (c # r) =
     (if c = CHR 0x22 then Some r
      else if c = CHR 0x5C then (case r of [] \<Rightarrow> None
        | e # r' \<Rightarrow>
          if e = CHR ''u''
          then (if length r' \<ge> 4 \<and> list_all is_hex (take 4 r') then json_string (drop 4 r') else None)
          else if e \<in> {CHR ''b'', CHR ''f'', CHR ''n'', CHR ''r'', CHR ''t'', CHR 0x5C, CHR ''/'', CHR 0x22}
          then json_string r' else None)
      else if (of_char c :: nat) < 32 then None else json_string r)"

definition json_fraction :: "string \<Rightarrow> string option" where
  "json_fraction s = (case s of [] \<Rightarrow> Some []
     | c # r \<Rightarrow> if c = CHR ''.''
         then (if r \<noteq> [] \<and> is_digit (hd r) then Some (dropWhile is_digit r) else None) else Some s)"

definition json_exponent :: "string \<Rightarrow> string option" where
  "json_exponent s = (case s of [] \<Rightarrow> Some []
     | c # r \<Rightarrow> if c = CHR ''e'' \<or> c = CHR ''E''
         then (let r = (if r \<noteq> [] \<and> (hd r = CHR ''+'' \<or> hd r = CHR ''-'') then tl r else r)
               in if r \<noteq> [] \<and> is_digit (hd r) then Some (dropWhile is_digit r) else None)
         else Some s)"

definition json_number :: "string \<Rightarrow> string option" where
  "json_number s =
     (let s = (if s \<noteq> [] \<and> hd s = CHR ''-'' then tl s else s)
      in case s of [] \<Rightarrow> None
         | c # r \<Rightarrow> if \<not> is_digit c then None
             else Option.bind (json_fraction (if c = CHR ''0'' then r else dropWhile is_digit r)) json_exponent)"

definition json_literal :: "string \<Rightarrow> string option" where
  "json_literal s =
     (if prefix ''true'' s then Some (drop 4 s)
      else if prefix ''false'' s then Some (drop 5 s)
      else if prefix ''null'' s then Some (drop 4 s)
      else None)"

subsection \<open>Values\<close>

text \<open>
  Each function returns the rest of the text. \<open>d\<close> is the current nesting depth; the scanner of
  the standard library refuses more than 10000 open objects and arrays.
\<close>

fun json_value :: "nat \<Rightarrow> nat \<Rightarrow> string \<Rightarrow> string option"
  and json_members :: "nat \<Rightarrow> nat \<Rightarrow> string \<Rightarrow> string option"
  and json_elements :: "nat \<Rightarrow> nat \<Rightarrow> string \<Rightarrow> string option" where
  "json_value 0 d s = None"
| "json_value (Suc n) d s = (case skip_ws s of [] \<Rightarrow> None
     | c # r \<Rightarrow>
       if c = CHR 0x7B then
         (if d \<ge> 10000 then None
          else if skip_ws r \<noteq> [] \<and> hd (skip_ws r) = CHR 0x7D then Some (tl (skip_ws r))
          else json_members n (Suc d) r)
       else if c = CHR 0x5B then
         (if d \<ge> 10000 then None
          else if skip_ws r \<noteq> [] \<and> hd (skip_ws r) = CHR 0x5D then Some (tl (skip_ws r))
          else json_elements n (Suc d) r)
       else if c = CHR 0x22 then json_string r
       else if c = CHR ''-'' \<or> is_digit c then json_number (c # r)
       else json_literal (c # r))"
| "json_members 0 d s = None"
| "json_members (Suc n) d s = (case skip_ws s of [] \<Rightarrow> None
     | c # r \<Rightarrow> if c \<noteq> CHR 0x22 then None else (case json_string r of None \<Rightarrow> None
         | Some r1 \<Rightarrow> (case skip_ws r1 of [] \<Rightarrow> None
           | c2 # r2 \<Rightarrow> if c2 \<noteq> CHR '':'' then None else (case json_value n d r2 of None \<Rightarrow> None
               | Some r3 \<Rightarrow> (case skip_ws r3 of [] \<Rightarrow> None
                 | c4 # r4 \<Rightarrow> if c4 = CHR '','' then json_members n d r4
                     else if c4 = CHR 0x7D then Some r4 else None)))))"
| "json_elements 0 d s = None"
| "json_elements (Suc n) d s = (case json_value n d s of None \<Rightarrow> None
     | Some r \<Rightarrow> (case skip_ws r of [] \<Rightarrow> None
       | c # r' \<Rightarrow> if c = CHR '','' then json_elements n d r'
           else if c = CHR 0x5D then Some r' else None))"

definition json_valid :: "string \<Rightarrow> bool" where
  "json_valid s \<longleftrightarrow> (case json_value (2 * length s + 2) 0 s of None \<Rightarrow> False | Some r \<Rightarrow> skip_ws r = [])"

text \<open>\<open>json.Unmarshal\<close> into a map accepts objects and null.\<close>

definition unmarshals_to_map :: "string \<Rightarrow> bool" where
  "unmarshals_to_map s \<longleftrightarrow> json_valid s \<and> (case skip_ws s of [] \<Rightarrow> False | c # _ \<Rightarrow> c = CHR 0x7B \<or> c = CHR ''n'')"

subsection \<open>The fuel is enough\<close>

lemma skip_ws_length: "length (skip_ws s) \<le> length s"
  by (simp add: skip_ws_def length_dropWhile_le)

lemma skip_ws_Cons: "skip_ws s = c # r \<Longrightarrow> length r < length s"
  using skip_ws_length [of s] by simp

lemma json_string_length: "json_string s = Some r \<Longrightarrow> length r < length s"
  by (induction s rule: json_string.induct)
    (auto split: if_splits list.splits, (fastforce+)?)

lemma json_fraction_length: "json_fraction s = Some r \<Longrightarrow> length r \<le> length s"
  using length_dropWhile_le [of is_digit "tl s"] by (auto simp: json_fraction_def split: list.splits if_splits)

lemma json_exponent_length: "json_exponent s = Some r \<Longrightarrow> length r \<le> length s"
  using length_dropWhile_le [of is_digit "tl s"] length_dropWhile_le [of is_digit "tl (tl s)"]
  by (auto simp: json_exponent_def Let_def split: list.splits if_splits)

lemma json_number_length: "json_number s = Some r \<Longrightarrow> length r < length s"
proof -
  assume n: "json_number s = Some r"
  define z where "z = (if s \<noteq> [] \<and> hd s = CHR ''-'' then tl s else s)"
  have l: "length z \<le> length s" by (simp add: z_def)
  have body: "(case z of [] \<Rightarrow> None | c # r \<Rightarrow> if \<not> is_digit c then None
      else Option.bind (json_fraction (if c = CHR ''0'' then r else dropWhile is_digit r)) json_exponent) = Some r"
    using n unfolding json_number_def Let_def z_def .
  then obtain c t where t: "z = c # t" by (cases z) simp_all
  define u where "u = (if c = CHR ''0'' then t else dropWhile is_digit t)"
  have "Option.bind (json_fraction u) json_exponent = Some r"
    using body unfolding t u_def by (cases "is_digit c") simp_all
  then obtain v where v: "json_fraction u = Some v" "json_exponent v = Some r"
    by (cases "json_fraction u") simp_all
  have "length u \<le> length t" by (simp add: u_def length_dropWhile_le)
  with json_fraction_length [OF v(1)] json_exponent_length [OF v(2)] have "length r \<le> length t" by linarith
  with t l show ?thesis by simp
qed

lemma json_literal_length: "json_literal s = Some r \<Longrightarrow> length r < length s"
  by (auto simp: json_literal_def prefix_def split: if_splits)

lemma tl_skip_ws_length: "skip_ws r \<noteq> [] \<Longrightarrow> length (tl (skip_ws r)) < length r"
  using skip_ws_length [of r] by (cases "skip_ws r") auto

lemma json_length:
  "json_value n d s = Some r \<Longrightarrow> length r < length s"
  "json_members n d s = Some r \<Longrightarrow> length r < length s"
  "json_elements n d s = Some r \<Longrightarrow> length r < length s"
proof (induction n d s and n d s and n d s arbitrary: r and r and r
    rule: json_value_json_members_json_elements.induct)
  case (2 n d s)
  obtain c t where t: "skip_ws s = c # t" using "2.prems" by (cases "skip_ws s") simp_all
  have l: "length t < length s" by (rule skip_ws_Cons [OF t])
  have "length r \<le> length t"
  proof (cases "c = CHR 0x7B \<or> c = CHR 0x5B")
    case False
    then have "(if c = CHR 0x22 then json_string t
        else if c = CHR ''-'' \<or> is_digit c then json_number (c # t) else json_literal (c # t)) = Some r"
      using "2.prems" t by simp
    then show ?thesis
      using json_string_length [of t r] json_number_length [of "c # t" r] json_literal_length [of "c # t" r]
      by (simp split: if_split_asm)
  next
    case True
    then show ?thesis
    proof
      assume c: "c = CHR 0x7B"
      show ?thesis
      proof (cases "skip_ws t \<noteq> [] \<and> hd (skip_ws t) = CHR 0x7D")
        case True
        then have "r = tl (skip_ws t)" using "2.prems" t c by (simp split: if_split_asm)
        with True tl_skip_ws_length [of t] show ?thesis by simp
      next
        case False
        then have "d < 10000" "json_members n (Suc d) t = Some r"
          using "2.prems" t c by (simp_all split: if_split_asm)
        with "2.IH"(1) [OF t c _ False, of r] show ?thesis by simp
      qed
    next
      assume c: "c = CHR 0x5B"
      then have nc: "c \<noteq> CHR 0x7B" by simp
      show ?thesis
      proof (cases "skip_ws t \<noteq> [] \<and> hd (skip_ws t) = CHR 0x5D")
        case True
        then have "r = tl (skip_ws t)" using "2.prems" t c by (simp split: if_split_asm)
        with True tl_skip_ws_length [of t] show ?thesis by simp
      next
        case False
        then have "d < 10000" "json_elements n (Suc d) t = Some r"
          using "2.prems" t c by (simp_all split: if_split_asm)
        with "2.IH"(2) [OF t nc c _ False, of r] show ?thesis by simp
      qed
    qed
  qed
  with l show ?case by linarith
next
  case (4 n d s)
  obtain t where t: "skip_ws s = CHR 0x22 # t"
    using "4.prems" by (cases "skip_ws s") (simp_all split: if_split_asm)
  obtain r1 where r1: "json_string t = Some r1" using "4.prems" t by (cases "json_string t") simp_all
  obtain r2 where r2: "skip_ws r1 = CHR '':'' # r2" using "4.prems" t r1 by (cases "skip_ws r1") (simp_all split: if_split_asm)
  obtain r3 where r3: "json_value n d r2 = Some r3" using "4.prems" t r1 r2 by (cases "json_value n d r2") simp_all
  obtain c4 r4 where r4: "skip_ws r3 = c4 # r4" using "4.prems" t r1 r2 r3 by (cases "skip_ws r3") simp_all
  have "length r3 < length r2" by (rule "4.IH"(1) [OF t _ r1 r2 _ r3]) simp_all
  then have l: "length r4 < length s"
    using skip_ws_Cons [OF t] json_string_length [OF r1] skip_ws_Cons [OF r2] skip_ws_Cons [OF r4] by linarith
  show ?case
  proof (cases "c4 = CHR '',''")
    case True
    then have m: "json_members n d r4 = Some r" using "4.prems" t r1 r2 r3 r4 by simp
    have "length r < length r4" by (rule "4.IH"(2) [OF t _ r1 r2 _ r3 r4 True m]) simp_all
    with l show ?thesis by linarith
  next
    case False
    then have "r = r4" using "4.prems" t r1 r2 r3 r4 by (simp split: if_split_asm)
    with l show ?thesis by simp
  qed
next
  case (6 n d s)
  obtain r1 where r1: "json_value n d s = Some r1" using "6.prems" by (cases "json_value n d s") simp_all
  obtain c t where t: "skip_ws r1 = c # t" using "6.prems" r1 by (cases "skip_ws r1") simp_all
  have l: "length t < length s" using "6.IH"(1) [OF r1] skip_ws_Cons [OF t] by linarith
  show ?case
  proof (cases "c = CHR '',''")
    case True
    then have m: "json_elements n d t = Some r" using "6.prems" r1 t by simp
    from "6.IH"(2) [OF r1 t True m] l show ?thesis by linarith
  next
    case False
    then have "r = t" using "6.prems" r1 t by (simp split: if_split_asm)
    with l show ?thesis by simp
  qed
qed simp_all

lemma json_fuel:
  "2 * length s + 1 \<le> n \<Longrightarrow> 2 * length s + 1 \<le> m \<Longrightarrow> json_value n d s = json_value m d s"
  "2 * length s + 1 \<le> n \<Longrightarrow> 2 * length s + 1 \<le> m \<Longrightarrow> json_members n d s = json_members m d s"
  "2 * length s + 2 \<le> n \<Longrightarrow> 2 * length s + 2 \<le> m \<Longrightarrow> json_elements n d s = json_elements m d s"
proof (induction n d s and n d s and n d s arbitrary: m and m and m
    rule: json_value_json_members_json_elements.induct)
  case (2 n d s)
  obtain m' where m: "m = Suc m'" using "2.prems" by (cases m) simp_all
  show ?case
  proof (cases "skip_ws s")
    case Nil
    then show ?thesis using m by simp
  next
    case (Cons c r)
    have l: "length r < length s" by (rule skip_ws_Cons [OF Cons])
    have "2 * length r + 2 \<le> n" "2 * length r + 2 \<le> m'" using "2.prems" m l by simp_all
    then have e: "d < 10000 \<Longrightarrow> c = CHR 0x7B \<Longrightarrow> \<not> (skip_ws r \<noteq> [] \<and> hd (skip_ws r) = CHR 0x7D) \<Longrightarrow>
        json_members n (Suc d) r = json_members m' (Suc d) r"
      "d < 10000 \<Longrightarrow> c = CHR 0x5B \<Longrightarrow> \<not> (skip_ws r \<noteq> [] \<and> hd (skip_ws r) = CHR 0x5D) \<Longrightarrow>
        json_elements n (Suc d) r = json_elements m' (Suc d) r"
      using "2.IH"(1) [OF Cons, of m'] "2.IH"(2) [OF Cons, of m'] by simp_all
    show ?thesis
    proof (cases "c = CHR 0x7B \<or> c = CHR 0x5B")
      case False
      then show ?thesis using Cons m by simp
    next
      case True
      then show ?thesis using Cons m e by (elim disjE) simp_all
    qed
  qed
next
  case (4 n d s)
  obtain m' where m: "m = Suc m'" using "4.prems" by (cases m) simp_all
  show ?case
  proof (cases "\<exists>t r1 r2. skip_ws s = CHR 0x22 # t \<and> json_string t = Some r1 \<and> skip_ws r1 = CHR '':'' # r2")
    case False
    then show ?thesis using m by (auto split: list.splits option.splits)
  next
    case True
    then obtain t r1 r2 where t: "skip_ws s = CHR 0x22 # t" and r1: "json_string t = Some r1"
      and r2: "skip_ws r1 = CHR '':'' # r2" by blast
    have l: "length r2 + 2 < length s"
      using skip_ws_Cons [OF t] json_string_length [OF r1] skip_ws_Cons [OF r2] by linarith
    have v: "json_value n d r2 = json_value m' d r2"
      by (rule "4.IH"(1) [OF t _ r1 r2]) (use "4.prems" m l in simp_all)
    have e: "json_members n d r4 = json_members m' d r4"
      if r3: "json_value n d r2 = Some r3" and r4: "skip_ws r3 = CHR '','' # r4" for r3 r4
    proof (rule "4.IH"(2) [OF t _ r1 r2 _ r3 r4])
      have "length r4 < length r2" using json_length(1) [OF r3] skip_ws_Cons [OF r4] by linarith
      then show "2 * length r4 + 1 \<le> n" "2 * length r4 + 1 \<le> m'" using "4.prems" m l by simp_all
    qed simp_all
    show ?thesis
    proof (cases "json_value n d r2")
      case None
      then show ?thesis using t r1 r2 m v by simp
    next
      case (Some r3)
      then show ?thesis using t r1 r2 m v e [OF Some] by (cases "skip_ws r3") auto
    qed
  qed
next
  case (6 n d s)
  obtain m' where m: "m = Suc m'" using "6.prems" by (cases m) simp_all
  have v: "json_value n d s = json_value m' d s"
    by (rule "6.IH"(1)) (use "6.prems" m in simp_all)
  show ?case
  proof (cases "json_value n d s")
    case None
    then show ?thesis using m v by simp
  next
    case (Some r)
    have e: "json_elements n d t = json_elements m' d t" if t: "skip_ws r = CHR '','' # t" for t
    proof (rule "6.IH"(2) [OF Some t])
      have "length t < length s" using json_length(1) [OF Some] skip_ws_Cons [OF t] by linarith
      then show "2 * length t + 2 \<le> n" "2 * length t + 2 \<le> m'" using "6.prems" m by simp_all
    qed simp
    from Some show ?thesis using m v e by (cases "skip_ws r") auto
  qed
qed simp_all

text \<open>\<open>json_valid\<close> is the same for every sufficient fuel, and it evaluates.\<close>

lemma json_valid_fuel:
  "2 * length s + 1 \<le> n \<Longrightarrow>
   json_valid s \<longleftrightarrow> (case json_value n 0 s of None \<Rightarrow> False | Some r \<Rightarrow> skip_ws r = [])"
  using json_fuel(1) [of s n "2 * length s + 2" 0] by (simp add: json_valid_def)

lemma json_examples:
  "unmarshals_to_map (''{'' @ [CHR 0x22] @ ''open'' @ [CHR 0x22] @ '': [1, -2.5e3, true]} '')"
  "unmarshals_to_map ''null''" "\<not> unmarshals_to_map ''[]''" "\<not> unmarshals_to_map ''{''"
  "\<not> unmarshals_to_map []"
  by code_simp+

end
