(* ===== verification/Iot_Topic.thy ===== *)
theory Iot_Topic
  imports Json_Text
begin

text \<open>
  The wire contract of the IoT data plane (\<open>internal/iot/mqtt/topic.go\<close>, \<open>mqtt/payload.go\<close>) and
  the command vocabulary of \<open>internal/iot/model.go\<close>: the topic grammar, the payload envelopes with
  their validation, the registry of command types and the bounds on a command's time to live.
  The decoding of an envelope from JSON text into its record is a parameter of the consumer.
\<close>

subsection \<open>Topics\<close>

definition byte_between :: "char \<Rightarrow> char \<Rightarrow> char \<Rightarrow> bool" where
  "byte_between lo hi c \<longleftrightarrow> (of_char lo :: nat) \<le> of_char c \<and> (of_char c :: nat) \<le> of_char hi"

definition segment_char :: "char \<Rightarrow> bool" where
  "segment_char c \<longleftrightarrow>
     byte_between (CHR ''a'') (CHR ''z'') c \<or> byte_between (CHR ''A'') (CHR ''Z'') c \<or>
     byte_between (CHR ''0'') (CHR ''9'') c \<or> c = CHR ''-'' \<or> c = CHR ''_'' \<or> c = CHR ''.''"

definition valid_segment :: "string \<Rightarrow> bool" where
  "valid_segment s =
     (if s = [] \<or> length s > 128 \<or> hd s = CHR ''$'' then False else list_all segment_char s)"

definition channels :: "string list" where
  "channels = [''state'', ''event'', ''cmd'', ''ack'']"

text \<open>\<open>None\<close> is \<open>ErrBadTopic\<close>; the wrapped text only goes to the log.\<close>

definition parse_data_topic :: "string \<Rightarrow> (string \<times> string \<times> string \<times> string) option" where
  "parse_data_topic topic = (case split_on (CHR ''/'') topic of
     [root, site, source, device, channel] \<Rightarrow>
       if root \<noteq> ''iot'' \<or> site = ''_meta'' then None
       else if \<not> list_all valid_segment [site, source, device] then None
       else if channel \<in> set channels then Some (site, source, device, channel) else None
   | _ \<Rightarrow> None)"

definition parse_meta_topic :: "string \<Rightarrow> (string \<times> string) option" where
  "parse_meta_topic topic = (case split_on (CHR ''/'') topic of
     [root, meta, source, channel] \<Rightarrow>
       if root \<noteq> ''iot'' \<or> meta \<noteq> ''_meta'' then None
       else if \<not> valid_segment source \<or> \<not> valid_segment channel then None
       else Some (source, channel)
   | _ \<Rightarrow> None)"

definition command_topic :: "string \<Rightarrow> string \<Rightarrow> string \<Rightarrow> string" where
  "command_topic site source device = ''iot'' @ ''/'' @ site @ ''/'' @ source @ ''/'' @ device @ ''/'' @ ''cmd''"

definition is_meta_topic :: "string \<Rightarrow> bool" where
  "is_meta_topic topic \<longleftrightarrow> prefix (''iot'' @ ''/'' @ ''_meta'' @ ''/'') topic"

subsection \<open>Payloads\<close>

definition valid_event_name :: "string \<Rightarrow> bool" where
  "valid_event_name s =
     (if s = [] \<or> length s > 64 then False
      else list_all (\<lambda>c. \<not> ((of_char c :: nat) \<le> 0x20 \<or> 0x7F \<le> (of_char c :: nat))) s)"

text \<open>\<open>isJSONObject\<close> of the payload package; null also decodes into a map.\<close>

definition is_json_object :: "string \<Rightarrow> bool" where
  "is_json_object b \<longleftrightarrow> unmarshals_to_map b"

record state_payload =
  sp_v :: int
  sp_at :: int
  sp_category :: string
  sp_attrs :: string

record event_payload =
  ep_v :: int
  ep_at :: int
  ep_type :: string
  ep_data :: string

record ack_payload =
  ap_v :: int
  ap_command_id :: string
  ap_status :: string
  ap_detail :: string
  ap_at :: int

record command_frame =
  fr_v :: int
  fr_command_id :: string
  fr_type :: string
  fr_payload :: string
  fr_issued_at :: int
  fr_expires_at :: int

datatype payload_error =
  BadVersion int | MissingTime | NotAnObject | BadCategory string | BadEventType string | BadCommandId | BadAckStatus string

definition validate_state :: "state_payload \<Rightarrow> payload_error option" where
  "validate_state p =
     (if sp_v p \<noteq> 1 then Some (BadVersion (sp_v p))
      else if sp_at p \<le> 0 then Some MissingTime
      else if length (sp_attrs p) > 0 \<and> \<not> is_json_object (sp_attrs p) then Some NotAnObject
      else if sp_category p \<noteq> [] \<and> \<not> valid_event_name (sp_category p) then Some (BadCategory (sp_category p))
      else None)"

definition validate_event :: "event_payload \<Rightarrow> payload_error option" where
  "validate_event p =
     (if ep_v p \<noteq> 1 then Some (BadVersion (ep_v p))
      else if ep_at p \<le> 0 then Some MissingTime
      else if \<not> valid_event_name (ep_type p) then Some (BadEventType (ep_type p))
      else if length (ep_data p) > 0 \<and> \<not> is_json_object (ep_data p) then Some NotAnObject
      else None)"

definition validate_ack :: "ack_payload \<Rightarrow> payload_error option" where
  "validate_ack p =
     (if ap_v p \<noteq> 1 then Some (BadVersion (ap_v p))
      else if length (ap_command_id p) \<noteq> 32 then Some BadCommandId
      else if ap_status p = ''acked'' \<or> ap_status p = ''failed'' then None
      else Some (BadAckStatus (ap_status p)))"

subsection \<open>Command types\<close>

definition core_command_types :: "string list" where
  "core_command_types = [''door_open'', ''door_close'', ''device_on'', ''device_off'', ''volume_set'',
     ''state_query'', ''scene_start_class'', ''scene_end_class'']"

fun command_type_chars :: "nat \<Rightarrow> string \<Rightarrow> bool" where
  "command_type_chars i [] = True"
| "command_type_chars i (c # s) =
     (if byte_between (CHR ''a'') (CHR ''z'') c then command_type_chars (Suc i) s
      else if i > 0 \<and> (c = CHR ''_'' \<or> byte_between (CHR ''0'') (CHR ''9'') c) then command_type_chars (Suc i) s
      else False)"

definition valid_command_type :: "string \<Rightarrow> bool" where
  "valid_command_type s = (if s = [] \<or> length s > 64 then False else command_type_chars 0 s)"

text \<open>The registry is the list of the keys of \<open>commandTypes\<close>; a bad registration panics.\<close>

definition register_command_type :: "string \<Rightarrow> string list \<Rightarrow> string list outcome" where
  "register_command_type t known =
     (if \<not> valid_command_type t then Panic
      else if t \<in> set known then Panic
      else Ret (known @ [t]))"

definition register_command_types :: "string list \<Rightarrow> string list \<Rightarrow> string list outcome" where
  "register_command_types types known = ofold register_command_type types known"

definition known_command_type :: "string list \<Rightarrow> string \<Rightarrow> bool" where
  "known_command_type known t \<longleftrightarrow> t \<in> set known"

subsection \<open>Time to live\<close>

text \<open>A \<open>time.Duration\<close> counts nanoseconds in 64 bits, so the product wraps.\<close>

definition clamp_command_ttl :: "int \<Rightarrow> int" where
  "clamp_command_ttl seconds =
     (if seconds \<le> 0 then 30 * 1000000000
      else let d = wrap64 (seconds * 1000000000)
        in if d < 1 * 1000000000 then 1 * 1000000000
           else if d > 600 * 1000000000 then 600 * 1000000000
           else d)"

subsection \<open>Facts\<close>

lemma slash_not_segment_char: "\<not> segment_char (CHR ''/'')"
  by (simp add: segment_char_def byte_between_def)

lemma valid_segment_no_slash: "valid_segment s \<Longrightarrow> CHR ''/'' \<notin> set s"
  using slash_not_segment_char by (auto simp: valid_segment_def list_all_iff split: if_splits)

lemma valid_segment_iff:
  "valid_segment s \<longleftrightarrow> 1 \<le> length s \<and> length s \<le> 128 \<and> (\<forall>c \<in> set s. segment_char c)"
proof -
  have "\<not> segment_char (CHR ''$'')" by (simp add: segment_char_def byte_between_def)
  then have "s \<noteq> [] \<Longrightarrow> \<forall>c \<in> set s. segment_char c \<Longrightarrow> hd s \<noteq> CHR ''$''" by (metis list.set_sel(1))
  then show ?thesis by (cases s) (auto simp: valid_segment_def list_all_iff)
qed

lemma channel_no_slash: "c \<in> set channels \<Longrightarrow> CHR ''/'' \<notin> set c"
  by (auto simp: channels_def)

lemma go_join_4: "go_join ''/'' [a, b, c, d] = a @ ''/'' @ b @ ''/'' @ c @ ''/'' @ d"
  and go_join_5: "go_join ''/'' [a, b, c, d, e] = a @ ''/'' @ b @ ''/'' @ c @ ''/'' @ d @ ''/'' @ e"
  by simp_all

lemma split_five:
  "split_on (CHR ''/'') t = [a, b, c, d, e] \<longleftrightarrow>
     t = a @ ''/'' @ b @ ''/'' @ c @ ''/'' @ d @ ''/'' @ e \<and> (\<forall>x \<in> {a, b, c, d, e}. CHR ''/'' \<notin> set x)"
proof
  assume s: "split_on (CHR ''/'') t = [a, b, c, d, e]"
  then have "t = go_join ''/'' [a, b, c, d, e]" using go_join_split_on [of "CHR ''/''" t] by simp
  moreover have "\<forall>x \<in> {a, b, c, d, e}. CHR ''/'' \<notin> set x"
    using split_on_elems [of _ "CHR ''/''" t] s by auto
  ultimately show "t = a @ ''/'' @ b @ ''/'' @ c @ ''/'' @ d @ ''/'' @ e \<and> (\<forall>x \<in> {a, b, c, d, e}. CHR ''/'' \<notin> set x)"
    unfolding go_join_5 by blast
next
  assume t: "t = a @ ''/'' @ b @ ''/'' @ c @ ''/'' @ d @ ''/'' @ e \<and> (\<forall>x \<in> {a, b, c, d, e}. CHR ''/'' \<notin> set x)"
  then show "split_on (CHR ''/'') t = [a, b, c, d, e]"
    using split_on_join [of "[a, b, c, d, e]" "CHR ''/''"] by (simp del: go_join.simps add: go_join_5)
qed

lemma split_four:
  "split_on (CHR ''/'') t = [a, b, c, d] \<longleftrightarrow>
     t = a @ ''/'' @ b @ ''/'' @ c @ ''/'' @ d \<and> (\<forall>x \<in> {a, b, c, d}. CHR ''/'' \<notin> set x)"
proof
  assume s: "split_on (CHR ''/'') t = [a, b, c, d]"
  then have "t = go_join ''/'' [a, b, c, d]" using go_join_split_on [of "CHR ''/''" t] by simp
  moreover have "\<forall>x \<in> {a, b, c, d}. CHR ''/'' \<notin> set x"
    using split_on_elems [of _ "CHR ''/''" t] s by auto
  ultimately show "t = a @ ''/'' @ b @ ''/'' @ c @ ''/'' @ d \<and> (\<forall>x \<in> {a, b, c, d}. CHR ''/'' \<notin> set x)"
    unfolding go_join_4 by blast
next
  assume t: "t = a @ ''/'' @ b @ ''/'' @ c @ ''/'' @ d \<and> (\<forall>x \<in> {a, b, c, d}. CHR ''/'' \<notin> set x)"
  then show "split_on (CHR ''/'') t = [a, b, c, d]"
    using split_on_join [of "[a, b, c, d]" "CHR ''/''"] by (simp del: go_join.simps add: go_join_4)
qed

lemma parse_data_topic_split:
  "parse_data_topic t = Some (site, source, device, channel) \<longleftrightarrow>
     split_on (CHR ''/'') t = [''iot'', site, source, device, channel] \<and> site \<noteq> ''_meta'' \<and>
     valid_segment site \<and> valid_segment source \<and> valid_segment device \<and> channel \<in> set channels"
  unfolding parse_data_topic_def by (auto split: list.splits if_splits)

lemma parse_meta_topic_split:
  "parse_meta_topic t = Some (source, channel) \<longleftrightarrow>
     split_on (CHR ''/'') t = [''iot'', ''_meta'', source, channel] \<and> valid_segment source \<and> valid_segment channel"
  unfolding parse_meta_topic_def by (auto split: list.splits if_splits)

lemma data_topics:
  "parse_data_topic t = Some (site, source, device, channel) \<longleftrightarrow>
     t = ''iot/'' @ site @ ''/'' @ source @ ''/'' @ device @ ''/'' @ channel \<and> site \<noteq> ''_meta'' \<and>
     valid_segment site \<and> valid_segment source \<and> valid_segment device \<and> channel \<in> set channels"
  unfolding parse_data_topic_split split_five using valid_segment_no_slash channel_no_slash by auto

lemma meta_topics:
  "parse_meta_topic t = Some (source, channel) \<longleftrightarrow>
     t = ''iot/_meta/'' @ source @ ''/'' @ channel \<and> valid_segment source \<and> valid_segment channel"
  unfolding parse_meta_topic_split split_four using valid_segment_no_slash by auto

lemma data_topic_not_meta:
  assumes "parse_data_topic t = Some (site, source, device, channel)"
  shows "\<not> is_meta_topic t"
proof
  assume "is_meta_topic t"
  then obtain u where t: "t = ''iot'' @ CHR ''/'' # ''_meta'' @ CHR ''/'' # u" by (auto simp: is_meta_topic_def prefix_def)
  have s: "split_on (CHR ''/'') t = [''iot'', site, source, device, channel]" "site \<noteq> ''_meta''"
    using assms by (simp_all add: parse_data_topic_split)
  have "split_on (CHR ''/'') t = ''iot'' # ''_meta'' # split_on (CHR ''/'') u"
    unfolding t using split_on_append_sep [of "CHR ''/''" "''iot''"] split_on_append_sep [of "CHR ''/''" "''_meta''"] by simp
  with s show False by simp
qed

text \<open>
  C33: the topic grammar, both ways. \<open>ParseDataTopic\<close> accepts exactly the texts
  iot/site/source/device/channel whose three identifiers are 1 to 128 characters of the narrow
  alphabet, whose site is not \<open>_meta\<close> and whose channel is known, and returns the segments the text
  was built from; \<open>CommandTopic\<close> of valid identifiers parses back to them. A data topic is never
  taken for a meta topic, and every topic that \<open>ParseMetaTopic\<close> accepts is.
\<close>

theorem data_topic_grammar:
  "(parse_data_topic t = Some (site, source, device, channel) \<longleftrightarrow>
     t = ''iot/'' @ site @ ''/'' @ source @ ''/'' @ device @ ''/'' @ channel \<and> site \<noteq> ''_meta'' \<and>
     valid_segment site \<and> valid_segment source \<and> valid_segment device \<and> channel \<in> set channels) \<and>
   (parse_data_topic (command_topic site source device) = Some (site, source, device, ''cmd'') \<longleftrightarrow>
     site \<noteq> ''_meta'' \<and> valid_segment site \<and> valid_segment source \<and> valid_segment device) \<and>
   \<not> (is_meta_topic t \<and> parse_data_topic t \<noteq> None) \<and>
   \<not> (\<not> is_meta_topic t \<and> parse_meta_topic t \<noteq> None)"
proof (intro conjI)
  show "parse_data_topic t = Some (site, source, device, channel) \<longleftrightarrow>
     t = ''iot/'' @ site @ ''/'' @ source @ ''/'' @ device @ ''/'' @ channel \<and> site \<noteq> ''_meta'' \<and>
     valid_segment site \<and> valid_segment source \<and> valid_segment device \<and> channel \<in> set channels"
    by (rule data_topics)
  show "parse_data_topic (command_topic site source device) = Some (site, source, device, ''cmd'') \<longleftrightarrow>
     site \<noteq> ''_meta'' \<and> valid_segment site \<and> valid_segment source \<and> valid_segment device"
    unfolding data_topics by (simp add: command_topic_def channels_def)
  show "\<not> (is_meta_topic t \<and> parse_data_topic t \<noteq> None)"
    using data_topic_not_meta by (metis not_Some_eq prod_cases4)
  show "\<not> (\<not> is_meta_topic t \<and> parse_meta_topic t \<noteq> None)"
    using meta_topics [of t] by (auto simp: is_meta_topic_def prefix_def)
qed

lemma wrap64_ttl: "1 \<le> s \<Longrightarrow> s \<le> 9223372036 \<Longrightarrow> wrap64 (s * 1000000000) = s * 1000000000"
  by (rule wrap64_id) (simp_all add: min_int64_def max_int64_def)

text \<open>
  C38: the time to live of a command. Whatever the caller sends, the deadline lies between one
  second and ten minutes; requests from one second to ten minutes are honoured exactly, the default
  is thirty seconds, and longer ones are cut to ten minutes as long as the nanoseconds fit 64 bits.
  Beyond that the product wraps: the smallest such request is given one second.
\<close>

theorem command_ttl_bounds:
  "1000000000 \<le> clamp_command_ttl s \<and> clamp_command_ttl s \<le> 600000000000 \<and>
   (clamp_command_ttl s = (if s \<le> 0 then 30 else min s 600) * 1000000000 \<or> 9223372036 < s) \<and>
   clamp_command_ttl 9223372037 = 1000000000"
proof (intro conjI)
  show "1000000000 \<le> clamp_command_ttl s" and "clamp_command_ttl s \<le> 600000000000"
    by (simp_all add: clamp_command_ttl_def Let_def)
  show "clamp_command_ttl s = (if s \<le> 0 then 30 else min s 600) * 1000000000 \<or> 9223372036 < s"
    using wrap64_ttl [of s]
    by (cases "s \<le> 9223372036"; cases "1 \<le> s") (simp_all add: clamp_command_ttl_def Let_def min_def)
  show "clamp_command_ttl 9223372037 = 1000000000"
    by (simp add: clamp_command_ttl_def wrap64_def)
qed

lemma register_append:
  "register_command_types types known =
     (if (\<forall>t \<in> set types. valid_command_type t) \<and> distinct types \<and> set types \<inter> set known = {}
      then Ret (known @ types) else Panic)"
proof (induction types arbitrary: known)
  case Nil
  then show ?case by (simp add: register_command_types_def)
next
  case (Cons t types)
  show ?case
  proof (cases "valid_command_type t \<and> t \<notin> set known")
    case True
    then have "register_command_types (t # types) known = register_command_types types (known @ [t])"
      by (simp add: register_command_types_def register_command_type_def)
    with Cons.IH [of "known @ [t]"] True show ?thesis by auto
  next
    case False
    then have "register_command_types (t # types) known = Panic"
      by (auto simp: register_command_types_def register_command_type_def)
    with False show ?thesis by auto
  qed
qed

text \<open>
  \<open>RegisterCommandTypes\<close> either extends the vocabulary by exactly the given names, keeping the
  names before, or panics; it panics exactly for a malformed name, a repeated one or one that is
  already known.
\<close>

theorem register_command_types_exact:
  "register_command_types types known =
     (if (\<forall>t \<in> set types. valid_command_type t) \<and> distinct types \<and> set types \<inter> set known = {}
      then Ret (known @ types) else Panic)"
  by (rule register_append)

end
