(* ===== verification/Iot_Registry.thy ===== *)
theory Iot_Registry
  imports Authz Db Civil_Time Paging Iot_Topic
begin

text \<open>
  The IoT registry (\<open>internal/iot/model.go\<close>, \<open>store.go\<close>): devices, events and commands with every
  store operation. Each write statement is a function on the tables, collected in \<open>iot_write\<close> as the
  atomic steps that requests, MQTT callbacks and the background loops interleave. Instants are
  integers in milliseconds and \<open>now\<close> is the clock of the statement. \<open>pg_json\<close> is PostgreSQL's reading
  of a JSONB parameter (\<open>None\<close>: refused, \<open>Some t\<close>: the stored normal form); the empty string stands
  for NULL. \<open>pg_text n\<close> is a VARCHAR(n) column.
\<close>

subsection \<open>Data\<close>

record device =
  dv_id :: int
  dv_site :: string
  dv_source :: string
  dv_external :: string
  dv_name :: string
  dv_category :: string
  dv_classroom :: "int option"
  dv_status :: string
  dv_state :: string
  dv_last_seen :: "int option"
  dv_created :: int
  dv_updated :: int

record device_event =
  de_id :: int
  de_device :: int
  de_type :: string
  de_payload :: string
  de_occurred :: int
  de_received :: int
  de_hash :: string

record device_command =
  dc_id :: int
  dc_command_id :: string
  dc_device :: int
  dc_type :: string
  dc_payload :: string
  dc_status :: string
  dc_detail :: string
  dc_issued_by :: string
  dc_created :: int
  dc_updated :: int
  dc_expires :: int

record approve_input =
  ai_name :: string
  ai_classroom :: int
  ai_category :: string

record device_update =
  du_name :: "string option"
  du_category :: "string option"
  du_classroom :: "int option"

record command_input =
  cin_type :: string
  cin_payload :: string
  cin_expires :: int

record device_filter =
  df_status :: string
  df_source :: string
  df_category :: string
  df_classroom :: int

record command_filter =
  cf_cmd_status :: string
  cf_device :: int

record iot_db =
  io_devices :: "device list"
  io_events :: "device_event list"
  io_commands :: "device_command list"
  io_next_device :: int
  io_next_event :: int
  io_next_command :: int

datatype iot_error = IotNotFound | IotDb string

type_synonym 'a iot_action = "(iot_db, iot_error, 'a) action"

definition device_statuses :: "string list" where
  "device_statuses = [''pending'', ''online'', ''offline'']"

definition command_statuses :: "string list" where
  "command_statuses = [''queued'', ''delivered'', ''acked'', ''failed'', ''expired'']"

definition stored_json :: "(string \<Rightarrow> string option) \<Rightarrow> string \<Rightarrow> string option" where
  "stored_json pg_json s = (if s = [] then Some [] else pg_json s)"

subsection \<open>Statements\<close>

definition find_device :: "int \<Rightarrow> iot_db \<Rightarrow> device option" where
  "find_device i d = List.find (\<lambda>v. dv_id v = i) (io_devices d)"

definition find_identity :: "string \<Rightarrow> string \<Rightarrow> string \<Rightarrow> iot_db \<Rightarrow> device option" where
  "find_identity site source external d =
     List.find (\<lambda>v. dv_site v = site \<and> dv_source v = source \<and> dv_external v = external) (io_devices d)"

definition insert_device ::
  "(string \<Rightarrow> string option) \<Rightarrow> int \<Rightarrow> string \<Rightarrow> string \<Rightarrow> string \<Rightarrow> string \<Rightarrow> string \<Rightarrow> int \<Rightarrow> iot_db \<Rightarrow>
   unit written \<times> iot_db" where
  "insert_device pg_json now site source external category state at d =
     (if \<not> pg_text 32 site \<or> \<not> pg_text 64 source \<or> \<not> pg_text 128 external \<or> \<not> pg_text 32 category then (Rejected, d)
      else (case stored_json pg_json state of None \<Rightarrow> (Rejected, d)
        | Some st \<Rightarrow>
          if find_identity site source external d \<noteq> None then (Duplicate, d)
          else (Done (), d\<lparr>io_devices := io_devices d @ [\<lparr>dv_id = io_next_device d, dv_site = site,
                  dv_source = source, dv_external = external, dv_name = [], dv_category = category,
                  dv_classroom = None, dv_status = ''pending'', dv_state = st, dv_last_seen = Some at,
                  dv_created = now, dv_updated = now\<rparr>],
                io_next_device := io_next_device d + 1\<rparr>)))"

definition on_device :: "int \<Rightarrow> (device \<Rightarrow> device) \<Rightarrow> iot_db \<Rightarrow> iot_db" where
  "on_device i f d = d\<lparr>io_devices := map (\<lambda>v. if dv_id v = i then f v else v) (io_devices d)\<rparr>"

text \<open>The state update keeps \<open>pending\<close> and turns every other status into \<open>online\<close>.\<close>

definition update_state_row ::
  "(string \<Rightarrow> string option) \<Rightarrow> int \<Rightarrow> string \<Rightarrow> int \<Rightarrow> int \<Rightarrow> iot_db \<Rightarrow> bool \<times> iot_db" where
  "update_state_row pg_json now state at i d =
     (case stored_json pg_json state of None \<Rightarrow> (False, d)
      | Some st \<Rightarrow> (True, on_device i (\<lambda>v. v\<lparr>dv_state := st, dv_last_seen := Some at,
            dv_status := (if dv_status v = ''pending'' then dv_status v else ''online''),
            dv_updated := now\<rparr>) d))"

text \<open>
  \<open>ttl\<close> is \<open>int(onlineTTL.Seconds())\<close>. Only a pending row gets its presence from its last report.
\<close>

definition approve_row :: "int \<Rightarrow> approve_input \<Rightarrow> int \<Rightarrow> int \<Rightarrow> iot_db \<Rightarrow> bool \<times> iot_db" where
  "approve_row now inp ttl i d =
     (if \<not> pg_text 128 (ai_name inp) \<or> \<not> pg_text 32 (ai_category inp) then (False, d)
      else (True, on_device i (\<lambda>v. v\<lparr>dv_name := ai_name inp, dv_classroom := Some (ai_classroom inp),
            dv_category := (if ai_category inp \<noteq> [] then ai_category inp else dv_category v),
            dv_status := (if dv_status v = ''pending''
              then (case dv_last_seen v of None \<Rightarrow> ''offline''
                    | Some t \<Rightarrow> if t \<ge> now - ttl * 1000 then ''online'' else ''offline'')
              else dv_status v),
            dv_updated := now\<rparr>) d))"

definition update_device_row :: "int \<Rightarrow> device_update \<Rightarrow> int \<Rightarrow> iot_db \<Rightarrow> bool \<times> iot_db" where
  "update_device_row now inp i d =
     (if (\<exists>n. du_name inp = Some n \<and> \<not> pg_text 128 n) \<or> (\<exists>k. du_category inp = Some k \<and> \<not> pg_text 32 k)
      then (False, d)
      else (True, on_device i (\<lambda>v. v\<lparr>
            dv_name := (case du_name inp of None \<Rightarrow> dv_name v | Some n \<Rightarrow> n),
            dv_category := (case du_category inp of None \<Rightarrow> dv_category v | Some k \<Rightarrow> k),
            dv_classroom := (case du_classroom inp of None \<Rightarrow> dv_classroom v
               | Some r \<Rightarrow> if r > 0 then Some r else None),
            dv_updated := now\<rparr>) d))"

definition delete_device_events :: "int \<Rightarrow> iot_db \<Rightarrow> iot_db" where
  "delete_device_events i d = d\<lparr>io_events := filter (\<lambda>e. de_device e \<noteq> i) (io_events d)\<rparr>"

definition delete_device_commands :: "int \<Rightarrow> iot_db \<Rightarrow> iot_db" where
  "delete_device_commands i d = d\<lparr>io_commands := filter (\<lambda>c. dc_device c \<noteq> i) (io_commands d)\<rparr>"

definition delete_device_row :: "int \<Rightarrow> iot_db \<Rightarrow> int \<times> iot_db" where
  "delete_device_row i d =
     (int (length (filter (\<lambda>v. dv_id v = i) (io_devices d))),
      d\<lparr>io_devices := filter (\<lambda>v. dv_id v \<noteq> i) (io_devices d)\<rparr>)"

text \<open>Marking the online rows that satisfy a condition offline, and how many they were.\<close>

definition mark_offline :: "int \<Rightarrow> (device \<Rightarrow> bool) \<Rightarrow> iot_db \<Rightarrow> int \<times> iot_db" where
  "mark_offline now p d =
     (int (length (filter (\<lambda>v. dv_status v = ''online'' \<and> p v) (io_devices d))),
      d\<lparr>io_devices := map (\<lambda>v. if dv_status v = ''online'' \<and> p v
          then v\<lparr>dv_status := ''offline'', dv_updated := now\<rparr> else v) (io_devices d)\<rparr>)"

definition source_offline_rows :: "int \<Rightarrow> string \<Rightarrow> string \<Rightarrow> iot_db \<Rightarrow> int \<times> iot_db" where
  "source_offline_rows now site source = mark_offline now (\<lambda>v. dv_site v = site \<and> dv_source v = source)"

definition sweep_rows :: "int \<Rightarrow> int \<Rightarrow> iot_db \<Rightarrow> int \<times> iot_db" where
  "sweep_rows now ttl =
     mark_offline now (\<lambda>v. case dv_last_seen v of None \<Rightarrow> False | Some t \<Rightarrow> t < now - ttl * 1000)"

definition insert_event_row ::
  "(string \<Rightarrow> string option) \<Rightarrow> int \<Rightarrow> int \<Rightarrow> string \<Rightarrow> string \<Rightarrow> int \<Rightarrow> string \<Rightarrow> iot_db \<Rightarrow> int written \<times> iot_db" where
  "insert_event_row pg_json now dev ty payload occurred hash d =
     (if \<not> pg_text 64 ty \<or> \<not> pg_text 16 hash then (Rejected, d)
      else (case stored_json pg_json payload of None \<Rightarrow> (Rejected, d)
        | Some p \<Rightarrow>
          if list_ex (\<lambda>e. de_device e = dev \<and> de_type e = ty \<and> de_occurred e = occurred \<and> de_hash e = hash) (io_events d)
          then (Duplicate, d)
          else (Done (io_next_event d),
            d\<lparr>io_events := io_events d @ [\<lparr>de_id = io_next_event d, de_device = dev, de_type = ty,
                 de_payload = p, de_occurred = occurred, de_received = now, de_hash = hash\<rparr>],
              io_next_event := io_next_event d + 1\<rparr>)))"

definition find_command :: "string \<Rightarrow> iot_db \<Rightarrow> device_command option" where
  "find_command k d = List.find (\<lambda>c. dc_command_id c = k) (io_commands d)"

definition insert_command_row ::
  "(string \<Rightarrow> string option) \<Rightarrow> int \<Rightarrow> string \<Rightarrow> int \<Rightarrow> string \<Rightarrow> string \<Rightarrow> string \<Rightarrow> int \<Rightarrow> iot_db \<Rightarrow>
   unit written \<times> iot_db" where
  "insert_command_row pg_json now k dev ty payload by expires d =
     (if \<not> pg_text 32 k \<or> \<not> pg_text 64 ty \<or> \<not> pg_text 64 by then (Rejected, d)
      else (case stored_json pg_json payload of None \<Rightarrow> (Rejected, d)
        | Some p \<Rightarrow>
          if find_command k d \<noteq> None then (Duplicate, d)
          else (Done (), d\<lparr>io_commands := io_commands d @ [\<lparr>dc_id = io_next_command d, dc_command_id = k,
                 dc_device = dev, dc_type = ty, dc_payload = p, dc_status = ''queued'', dc_detail = [],
                 dc_issued_by = by, dc_created = now, dc_updated = now, dc_expires = expires\<rparr>],
              io_next_command := io_next_command d + 1\<rparr>)))"

text \<open>\<open>None\<close>: the statement fails because a parameter does not fit its column.\<close>

definition transition_row ::
  "int \<Rightarrow> string \<Rightarrow> string list \<Rightarrow> string \<Rightarrow> string \<Rightarrow> iot_db \<Rightarrow> int option \<times> iot_db" where
  "transition_row now k from_statuses to detail d =
     (let hit = (\<lambda>c. dc_command_id c = k \<and> dc_status c \<in> set from_statuses)
      in if \<not> pg_text 16 to \<or> \<not> pg_text 255 detail \<or> CHR 0x00 \<in> set k then (None, d)
         else (Some (int (length (filter hit (io_commands d)))),
           d\<lparr>io_commands := map (\<lambda>c. if hit c
               then c\<lparr>dc_status := to, dc_detail := detail, dc_updated := now\<rparr> else c) (io_commands d)\<rparr>))"

definition live_statuses :: "string list" where
  "live_statuses = [''queued'', ''delivered'']"

definition expire_rows :: "int \<Rightarrow> iot_db \<Rightarrow> int \<times> iot_db" where
  "expire_rows now d =
     (let due = (\<lambda>c. dc_status c \<in> set live_statuses \<and> dc_expires c \<le> now)
      in (int (length (filter due (io_commands d))),
          d\<lparr>io_commands := map (\<lambda>c. if due c
              then c\<lparr>dc_status := ''expired'', dc_detail := ''expired before delivery/ack'', dc_updated := now\<rparr>
              else c) (io_commands d)\<rparr>))"

definition purge_events :: "int \<Rightarrow> iot_db \<Rightarrow> int \<times> iot_db" where
  "purge_events cutoff d =
     (int (length (filter (\<lambda>e. de_received e < cutoff) (io_events d))),
      d\<lparr>io_events := filter (\<lambda>e. \<not> de_received e < cutoff) (io_events d)\<rparr>)"

definition purge_commands :: "int \<Rightarrow> iot_db \<Rightarrow> int \<times> iot_db" where
  "purge_commands cutoff d =
     (int (length (filter (\<lambda>c. dc_created c < cutoff) (io_commands d))),
      d\<lparr>io_commands := filter (\<lambda>c. \<not> dc_created c < cutoff) (io_commands d)\<rparr>)"

subsection \<open>Store: devices\<close>

definition get_device :: "int \<Rightarrow> device iot_action" where
  "get_device i = query_row (IotDb ''get iot device by id'') IotNotFound (find_device i)"

definition device_by_identity :: "string \<Rightarrow> string \<Rightarrow> string \<Rightarrow> device iot_action" where
  "device_by_identity site source external =
     query_row (IotDb ''get iot device by identity'') IotNotFound (find_identity site source external)"

definition update_state ::
  "(string \<Rightarrow> string option) \<Rightarrow> int \<Rightarrow> device \<Rightarrow> string \<Rightarrow> int \<Rightarrow> device iot_action" where
  "update_state pg_json now existing state at =
     dbind (stmt (IotDb ''update iot device state'') (update_state_row pg_json now state at (dv_id existing))) (\<lambda>ok.
     if ok then get_device (dv_id existing) else draise (IotDb ''update iot device state''))"

definition upsert_state ::
  "(string \<Rightarrow> string option) \<Rightarrow> int \<Rightarrow> string \<Rightarrow> string \<Rightarrow> string \<Rightarrow> string \<Rightarrow> string \<Rightarrow> int \<Rightarrow>
   (device \<times> bool) iot_action" where
  "upsert_state pg_json now site source external hint state at =
     dtry (device_by_identity site source external)
       (\<lambda>e. if e = IotNotFound then
          let category = (if hint = [] then ''generic'' else hint) in
          dbind (stmt (IotDb ''insert iot device'')
              (insert_device pg_json now site source external category state at)) (\<lambda>w.
          case w of
            Done _ \<Rightarrow> dbind (device_by_identity site source external) (\<lambda>d. dret (d, True))
          | Duplicate \<Rightarrow>
              dbind (device_by_identity site source external) (\<lambda>d.
              dbind (update_state pg_json now d state at) (\<lambda>v. dret (v, False)))
          | Rejected \<Rightarrow> draise (IotDb ''insert iot device''))
        else draise e)
       (\<lambda>existing. dbind (update_state pg_json now existing state at) (\<lambda>v. dret (v, False)))"

definition ensure_device ::
  "(string \<Rightarrow> string option) \<Rightarrow> int \<Rightarrow> string \<Rightarrow> string \<Rightarrow> string \<Rightarrow> string \<Rightarrow> (device \<times> bool) iot_action" where
  "ensure_device pg_json now site source external hint =
     dtry (device_by_identity site source external)
       (\<lambda>e. if e = IotNotFound
         then dbind (upsert_state pg_json now site source external hint [] now) (\<lambda>(d, _). dret (d, True))
         else draise e)
       (\<lambda>existing. dret (existing, False))"

definition approve_device :: "int \<Rightarrow> int \<Rightarrow> approve_input \<Rightarrow> int \<Rightarrow> device iot_action" where
  "approve_device now i inp ttl =
     dbind (stmt (IotDb ''approve iot device'') (approve_row now inp ttl i)) (\<lambda>ok.
     if ok then get_device i else draise (IotDb ''approve iot device''))"

definition update_device :: "int \<Rightarrow> int \<Rightarrow> device_update \<Rightarrow> device iot_action" where
  "update_device now i inp =
     (if du_name inp = None \<and> du_category inp = None \<and> du_classroom inp = None then draise IotNotFound
      else dbind (stmt (IotDb ''update iot device'') (update_device_row now inp i)) (\<lambda>ok.
           if ok then get_device i else draise (IotDb ''update iot device'')))"

definition delete_device :: "int \<Rightarrow> unit iot_action" where
  "delete_device i =
     dbind (stmt (IotDb ''delete iot events'') (\<lambda>d. ((), delete_device_events i d))) (\<lambda>_.
     dbind (stmt (IotDb ''delete iot commands'') (\<lambda>d. ((), delete_device_commands i d))) (\<lambda>_.
     dbind (stmt (IotDb ''delete iot device'') (delete_device_row i)) (\<lambda>n.
     if n = 0 then draise IotNotFound else dret ())))"

definition mark_source_offline :: "int \<Rightarrow> string \<Rightarrow> string \<Rightarrow> int iot_action" where
  "mark_source_offline now site source = stmt (IotDb ''mark iot source offline'') (source_offline_rows now site source)"

definition sweep_stale_devices :: "int \<Rightarrow> int \<Rightarrow> int iot_action" where
  "sweep_stale_devices now ttl = stmt (IotDb ''sweep stale iot devices'') (sweep_rows now ttl)"

subsection \<open>Store: events\<close>

text \<open>The layout 2006-01-02T15:04:05.000Z07:00 of an instant in UTC.\<close>

definition event_time_text :: "int \<Rightarrow> string" where
  "event_time_text ms =
     format_date (ms div 86400000) @ ''T'' @ zero_pad 2 (ms div 3600000 mod 24) @ '':'' @
     zero_pad 2 (ms div 60000 mod 60) @ '':'' @ zero_pad 2 (ms div 1000 mod 60) @ ''.'' @
     zero_pad 3 (ms mod 1000) @ ''Z''"

text \<open>\<open>digest\<close> is the lower-case hexadecimal SHA-256 of a byte string.\<close>

definition event_dedup_hash :: "(string \<Rightarrow> string) \<Rightarrow> string \<Rightarrow> int \<Rightarrow> string \<Rightarrow> string" where
  "event_dedup_hash digest ty occurred payload =
     take 16 (digest (ty @ [CHR 0x00] @ event_time_text occurred @ [CHR 0x00] @ payload))"

definition insert_event ::
  "(string \<Rightarrow> string) \<Rightarrow> (string \<Rightarrow> string option) \<Rightarrow> int \<Rightarrow> int \<Rightarrow> string \<Rightarrow> string \<Rightarrow> int \<Rightarrow> int iot_action" where
  "insert_event digest pg_json now dev ty payload occurred =
     dbind (stmt (IotDb ''insert iot event'')
        (insert_event_row pg_json now dev ty payload occurred (event_dedup_hash digest ty occurred payload))) (\<lambda>w.
     case w of Done i \<Rightarrow> dret i | Duplicate \<Rightarrow> dret 0 | Rejected \<Rightarrow> draise (IotDb ''insert iot event''))"

definition page_events :: "int \<Rightarrow> pagination \<Rightarrow> (device_event list \<times> int) iot_action" where
  "page_events dev p =
     (let mine = (\<lambda>d. filter (\<lambda>e. de_device e = dev) (io_events d))
      in dbind (query_row (IotDb ''page iot events'') (IotDb ''page iot events'')
             (\<lambda>d. limit_rows p (sort_key (\<lambda>e. (- de_occurred e, - de_id e)) (mine d)))) (\<lambda>es.
         dbind (query (IotDb ''count rows'') (\<lambda>d. int (length (mine d)))) (\<lambda>n. dret (es, n))))"

subsection \<open>Store: commands\<close>

definition get_command :: "string \<Rightarrow> device_command iot_action" where
  "get_command k = query_row (IotDb ''get iot command'') IotNotFound (find_command k)"

text \<open>\<open>k\<close> is the identifier that \<open>newCommandID\<close> draws.\<close>

definition create_command ::
  "(string \<Rightarrow> string option) \<Rightarrow> int \<Rightarrow> string \<Rightarrow> int \<Rightarrow> string \<Rightarrow> string \<Rightarrow> string \<Rightarrow> int \<Rightarrow> device_command iot_action" where
  "create_command pg_json now k dev ty payload by ttl =
     dbind (stmt (IotDb ''create iot command'')
        (insert_command_row pg_json now k dev ty payload by (now + ttl div 1000000))) (\<lambda>w.
     case w of Done _ \<Rightarrow> get_command k
     | Duplicate \<Rightarrow> draise (IotDb ''create iot command'') | Rejected \<Rightarrow> draise (IotDb ''create iot command''))"

definition transition_command :: "int \<Rightarrow> string \<Rightarrow> string list \<Rightarrow> string \<Rightarrow> string \<Rightarrow> bool iot_action" where
  "transition_command now k from_statuses to detail =
     dbind (stmt (IotDb ''transition iot command'') (transition_row now k from_statuses to detail)) (\<lambda>n.
     case n of None \<Rightarrow> draise (IotDb ''transition iot command'') | Some m \<Rightarrow> dret (m > 0))"

definition mark_command_published :: "int \<Rightarrow> string \<Rightarrow> bool iot_action" where
  "mark_command_published now k = transition_command now k [''queued''] ''delivered'' []"

definition fail_command :: "int \<Rightarrow> string \<Rightarrow> string \<Rightarrow> unit iot_action" where
  "fail_command now k detail = dbind (transition_command now k [''queued'', ''delivered''] ''failed'' detail) (\<lambda>_. dret ())"

definition apply_ack :: "int \<Rightarrow> string \<Rightarrow> string \<Rightarrow> string \<Rightarrow> bool iot_action" where
  "apply_ack now k status detail = transition_command now k [''queued'', ''delivered''] status detail"

definition expire_commands :: "int \<Rightarrow> int iot_action" where
  "expire_commands now = stmt (IotDb ''expire iot commands'') (expire_rows now)"

subsection \<open>Store: background loops\<close>

definition purge_expired :: "int \<Rightarrow> int \<Rightarrow> int iot_action" where
  "purge_expired now days =
     dbind (stmt (IotDb ''purge iot rows'') (purge_events (now - days * 86400000))) (\<lambda>n.
     dbind (stmt (IotDb ''purge iot rows'') (purge_commands (now - days * 86400000))) (\<lambda>m. dret (n + m)))"

text \<open>One pass of each loop; its errors only go to the log.\<close>

definition presence_pass :: "int \<Rightarrow> int \<Rightarrow> unit iot_action" where
  "presence_pass now ttl =
     (let sweep = dtry (sweep_stale_devices now ttl) (\<lambda>_. dret ()) (\<lambda>_. dret ())
      in dtry (expire_commands now) (\<lambda>_. sweep) (\<lambda>_. sweep))"

definition retention_pass :: "int \<Rightarrow> int \<Rightarrow> unit iot_action" where
  "retention_pass now days = dtry (purge_expired now days) (\<lambda>_. dret ()) (\<lambda>_. dret ())"

subsection \<open>Store: lists\<close>

definition device_where :: "device_filter \<Rightarrow> string \<Rightarrow> string \<times> sql_arg list" where
  "device_where f q =
     (let qa = ('' FROM iot_devices WHERE 1=1'', []);
          qa = (if df_status f \<noteq> [] then bind_arg_text '' AND status = '' (AStr (df_status f)) [] qa else qa);
          qa = (if df_source f \<noteq> [] then bind_arg_text '' AND source_id = '' (AStr (df_source f)) [] qa else qa);
          qa = (if df_category f \<noteq> [] then bind_arg_text '' AND category = '' (AStr (df_category f)) [] qa else qa);
          qa = (if df_classroom f > 0 then bind_arg_text '' AND classroom_id = '' (AInt (df_classroom f)) [] qa else qa)
      in if q \<noteq> []
         then let pat = AStr (like_pattern (escape_like q))
              in bind_arg_text '' OR external_id ILIKE '' pat '')''
                   (bind_arg_text '' AND (name ILIKE '' pat [] qa)
         else qa)"

definition device_selected :: "(char \<Rightarrow> char \<Rightarrow> bool) \<Rightarrow> device_filter \<Rightarrow> string \<Rightarrow> device \<Rightarrow> bool" where
  "device_selected eq f q v \<longleftrightarrow>
     (df_status f \<noteq> [] \<longrightarrow> dv_status v = df_status f) \<and>
     (df_source f \<noteq> [] \<longrightarrow> dv_source v = df_source f) \<and>
     (df_category f \<noteq> [] \<longrightarrow> dv_category v = df_category f) \<and>
     (df_classroom f > 0 \<longrightarrow> dv_classroom v = Some (df_classroom f)) \<and>
     (q \<noteq> [] \<longrightarrow> like eq (like_pattern (escape_like q)) (dv_name v) \<or> like eq (like_pattern (escape_like q)) (dv_external v))"

definition page_devices ::
  "(char \<Rightarrow> char \<Rightarrow> bool) \<Rightarrow> device_filter \<Rightarrow> string \<Rightarrow> pagination \<Rightarrow> (device list \<times> int) iot_action" where
  "page_devices eq f q p =
     (let matched = (\<lambda>d. filter (device_selected eq f q) (io_devices d))
      in dbind (query_row (IotDb ''page iot devices'') (IotDb ''page iot devices'')
             (\<lambda>d. limit_rows p (sort_key (\<lambda>v. (if dv_status v = ''pending'' then 0 else 1 :: int, dv_id v)) (matched d)))) (\<lambda>vs.
         dbind (query (IotDb ''count rows'') (\<lambda>d. int (length (matched d)))) (\<lambda>n. dret (vs, n))))"

definition command_where :: "command_filter \<Rightarrow> string \<times> sql_arg list" where
  "command_where f =
     (let qa = ('' FROM iot_commands WHERE 1=1'', []);
          qa = (if cf_cmd_status f \<noteq> [] then bind_arg_text '' AND status = '' (AStr (cf_cmd_status f)) [] qa else qa)
      in if cf_device f > 0 then bind_arg_text '' AND device_id = '' (AInt (cf_device f)) [] qa else qa)"

definition page_commands :: "command_filter \<Rightarrow> pagination \<Rightarrow> (device_command list \<times> int) iot_action" where
  "page_commands f p =
     (let matched = (\<lambda>d. filter (\<lambda>c. (cf_cmd_status f \<noteq> [] \<longrightarrow> dc_status c = cf_cmd_status f) \<and>
            (cf_device f > 0 \<longrightarrow> dc_device c = cf_device f)) (io_commands d))
      in dbind (query_row (IotDb ''page iot commands'') (IotDb ''page iot commands'')
             (\<lambda>d. limit_rows p (sort_key (\<lambda>c. (- dc_created c, - dc_id c)) (matched d)))) (\<lambda>cs.
         dbind (query (IotDb ''count rows'') (\<lambda>d. int (length (matched d)))) (\<lambda>n. dret (cs, n))))"

subsection \<open>Atomic writes\<close>

text \<open>
  Every statement above that writes, as data. Whatever requests, MQTT callbacks and loops run
  concurrently, the tables go through a sequence of these.
\<close>

datatype iot_write =
    InsertDevice int string string string string string int
  | UpdateState int string int int
  | ApproveRow int approve_input int int
  | UpdateRow int device_update int
  | DeleteEvents int
  | DeleteCommands int
  | DeleteRow int
  | SourceOffline int string string
  | SweepStale int int
  | InsertEvent int int string string int string
  | InsertCommand int string int string string string int
  | Transition int string "string list" string string
  | ExpireRows int
  | PurgeEvents int
  | PurgeCommands int

fun apply_write :: "(string \<Rightarrow> string option) \<Rightarrow> iot_write \<Rightarrow> iot_db \<Rightarrow> iot_db" where
  "apply_write pj (InsertDevice now s r x k st at) d = snd (insert_device pj now s r x k st at d)"
| "apply_write pj (UpdateState now st at i) d = snd (update_state_row pj now st at i d)"
| "apply_write pj (ApproveRow now inp ttl i) d = snd (approve_row now inp ttl i d)"
| "apply_write pj (UpdateRow now inp i) d = snd (update_device_row now inp i d)"
| "apply_write pj (DeleteEvents i) d = delete_device_events i d"
| "apply_write pj (DeleteCommands i) d = delete_device_commands i d"
| "apply_write pj (DeleteRow i) d = snd (delete_device_row i d)"
| "apply_write pj (SourceOffline now s r) d = snd (source_offline_rows now s r d)"
| "apply_write pj (SweepStale now ttl) d = snd (sweep_rows now ttl d)"
| "apply_write pj (InsertEvent now dev ty p at h) d = snd (insert_event_row pj now dev ty p at h d)"
| "apply_write pj (InsertCommand now k dev ty p by ex) d = snd (insert_command_row pj now k dev ty p by ex d)"
| "apply_write pj (Transition now k fs to det) d = snd (transition_row now k fs to det d)"
| "apply_write pj (ExpireRows now) d = snd (expire_rows now d)"
| "apply_write pj (PurgeEvents lim) d = snd (purge_events lim d)"
| "apply_write pj (PurgeCommands lim) d = snd (purge_commands lim d)"

definition run_writes :: "(string \<Rightarrow> string option) \<Rightarrow> iot_write list \<Rightarrow> iot_db \<Rightarrow> iot_db" where
  "run_writes pj ws d = fold (apply_write pj) ws d"

text \<open>The transitions that the store's callers ask for.\<close>

fun regular :: "iot_write \<Rightarrow> bool" where
  "regular (Transition now k fs to det) \<longleftrightarrow>
     (fs = [''queued''] \<and> to = ''delivered'') \<or> (fs = [''queued'', ''delivered''] \<and> (to = ''acked'' \<or> to = ''failed''))"
| "regular _ \<longleftrightarrow> True"

fun approves :: "iot_write \<Rightarrow> bool" where
  "approves (ApproveRow now inp ttl i) \<longleftrightarrow> True"
| "approves _ \<longleftrightarrow> False"

text \<open>\<open>writes pj P m\<close>: under any fault script the effect of \<open>m\<close> is a sequence of writes in \<open>P\<close>.\<close>

definition writes :: "(string \<Rightarrow> string option) \<Rightarrow> (iot_write \<Rightarrow> bool) \<Rightarrow> (iot_db, 'e, 'a) action \<Rightarrow> bool" where
  "writes pj P m \<longleftrightarrow> evolves (\<lambda>d d'. \<exists>ws. list_all P ws \<and> d' = run_writes pj ws d) m"

named_theorems writes_intros \<open>closure rules for the writes of an action\<close>

lemma run_writes_simps [simp]:
  "run_writes pj [] d = d" "run_writes pj (w # ws) d = run_writes pj ws (apply_write pj w d)"
  "run_writes pj (vs @ ws) d = run_writes pj ws (run_writes pj vs d)"
  by (simp_all add: run_writes_def)

lemma run_none: "\<exists>ws. list_all P ws \<and> d = run_writes pj ws d"
  by (rule exI [of _ "[]"]) simp

lemma run_compose:
  "\<exists>ws. list_all P ws \<and> b = run_writes pj ws a \<Longrightarrow> \<exists>ws. list_all P ws \<and> c = run_writes pj ws b \<Longrightarrow>
   \<exists>ws. list_all P ws \<and> c = run_writes pj ws a"
  by (metis list_all_append run_writes_simps(3))

lemma writes_stmt:
  assumes "\<And>d. snd (f d) = apply_write pj w d" and "P w"
  shows "writes pj P (stmt e f)"
  unfolding writes_def
proof (rule evolves_stmt)
  show "\<exists>ws. list_all P ws \<and> d = run_writes pj ws d" for d by (rule run_none)
  show "\<exists>ws. list_all P ws \<and> snd (f d) = run_writes pj ws d" for d
    using assms by (intro exI [of _ "[w]"]) simp
qed

lemma writes_closure [writes_intros]:
  "writes pj P (query e q)"
  "writes pj P (query_row e miss q')"
  "writes pj P (dret x)"
  "writes pj P (draise e)"
  unfolding writes_def
  by (rule evolves_query evolves_query_row evolves_dret evolves_draise; rule run_none)+

lemma writes_dbind [writes_intros]:
  "writes pj P m \<Longrightarrow> (\<And>x. writes pj P (f x)) \<Longrightarrow> writes pj P (dbind m f)"
  unfolding writes_def using run_compose by (rule evolves_dbind) auto

lemma writes_dtry [writes_intros]:
  "writes pj P m \<Longrightarrow> (\<And>e. writes pj P (h e)) \<Longrightarrow> (\<And>x. writes pj P (f x)) \<Longrightarrow> writes pj P (dtry m h f)"
  unfolding writes_def using run_compose by (rule evolves_dtry) auto

lemma writes_if [writes_intros]:
  "(b \<Longrightarrow> writes pj P m) \<Longrightarrow> (\<not> b \<Longrightarrow> writes pj P n) \<Longrightarrow> writes pj P (if b then m else n)"
  by simp

lemma writes_let [writes_intros]: "writes pj P (f x) \<Longrightarrow> writes pj P (let y = x in f y)"
  by simp

lemma writes_case [writes_intros]:
  "(\<And>x. writes pj P (f x)) \<Longrightarrow> writes pj P m \<Longrightarrow> writes pj P n \<Longrightarrow>
   writes pj P (case w of Done x \<Rightarrow> f x | Duplicate \<Rightarrow> m | Rejected \<Rightarrow> n)"
  "writes pj P m' \<Longrightarrow> (\<And>x. writes pj P (f' x)) \<Longrightarrow> writes pj P (case z of None \<Rightarrow> m' | Some x \<Rightarrow> f' x)"
  "(\<And>a b. writes pj P (g a b)) \<Longrightarrow> writes pj P (case y of (a, b) \<Rightarrow> g a b)"
  by (auto split: written.splits option.splits prod.splits)

lemma writesD: "writes pj P m \<Longrightarrow> m c = (r, c') \<Longrightarrow> \<exists>ws. list_all P ws \<and> tables c' = run_writes pj ws (tables c)"
  unfolding writes_def evolves_def by (metis snd_conv)

lemma writes_mono: "writes pj P m \<Longrightarrow> (\<And>w. P w \<Longrightarrow> Q w) \<Longrightarrow> writes pj Q m"
  unfolding writes_def evolves_def list_all_iff by meson

text \<open>The writes of each store operation.\<close>

lemma writes_reads [writes_intros]:
  "writes pj P (get_device i)" "writes pj P (device_by_identity s r x)" "writes pj P (get_command k)"
  "writes pj P (page_devices eq f q p)" "writes pj P (page_events i p)" "writes pj P (page_commands cf p)"
  unfolding get_device_def device_by_identity_def get_command_def page_devices_def page_events_def page_commands_def
  by (intro writes_intros)+

lemma writes_devices [writes_intros]:
  assumes "\<And>now s r x k st at. P (InsertDevice now s r x k st at)" and "\<And>now st at i. P (UpdateState now st at i)"
  shows "writes pj P (update_state pj now e st at)" "writes pj P (upsert_state pj now s r x h st at)"
    "writes pj P (ensure_device pj now s r x h)"
proof -
  show u: "writes pj P (update_state pj now e st at)" for now e st at
    unfolding update_state_def
    by (intro writes_intros) (rule writes_stmt [of _ _ "UpdateState now st at (dv_id e)"], simp_all add: assms)
  have i: "writes pj P (stmt er (insert_device pj now s r x k st at))" for er now s r x k st at
    by (rule writes_stmt [of _ _ "InsertDevice now s r x k st at"]) (simp_all add: assms)
  show v: "writes pj P (upsert_state pj now s r x h st at)" for now s r x h st at
    unfolding upsert_state_def by (intro writes_intros u i)
  show "writes pj P (ensure_device pj now s r x h)"
    unfolding ensure_device_def by (intro writes_intros v)
qed

lemma writes_management [writes_intros]:
  "(\<And>now inp ttl i. P (ApproveRow now inp ttl i)) \<Longrightarrow> writes pj P (approve_device now i inp ttl)"
  "(\<And>now inp i. P (UpdateRow now inp i)) \<Longrightarrow> writes pj P (update_device now i upd)"
  "P (DeleteEvents i) \<Longrightarrow> P (DeleteCommands i) \<Longrightarrow> P (DeleteRow i) \<Longrightarrow> writes pj P (delete_device i)"
  unfolding approve_device_def update_device_def delete_device_def
  by (intro writes_intros; rule writes_stmt [of _ _ "ApproveRow now inp ttl i"] writes_stmt [of _ _ "UpdateRow now upd i"]
      writes_stmt [of _ _ "DeleteEvents i"] writes_stmt [of _ _ "DeleteCommands i"] writes_stmt [of _ _ "DeleteRow i"];
      simp; fail)+

lemma writes_presence [writes_intros]:
  "P (SourceOffline now s r) \<Longrightarrow> writes pj P (mark_source_offline now s r)"
  "P (SweepStale now ttl) \<Longrightarrow> writes pj P (sweep_stale_devices now ttl)"
  "P (ExpireRows now) \<Longrightarrow> writes pj P (expire_commands now)"
  unfolding mark_source_offline_def sweep_stale_devices_def expire_commands_def
  by (rule writes_stmt [of _ _ "SourceOffline now s r"] writes_stmt [of _ _ "SweepStale now ttl"]
      writes_stmt [of _ _ "ExpireRows now"]; simp; fail)+

lemma writes_events [writes_intros]:
  "(\<And>now dev ty p at h. P (InsertEvent now dev ty p at h)) \<Longrightarrow> writes pj P (insert_event dg pj now dev ty p at)"
  unfolding insert_event_def
  by (intro writes_intros)
    (rule writes_stmt [of _ _ "InsertEvent now dev ty p at (event_dedup_hash dg ty at p)"], simp_all)

lemma writes_commands [writes_intros]:
  "P (InsertCommand now k dev ty p by (now + ttl div 1000000)) \<Longrightarrow> writes pj P (create_command pj now k dev ty p by ttl)"
  "P (Transition now k fs to det) \<Longrightarrow> writes pj P (transition_command now k fs to det)"
  "P (Transition now k [''queued''] ''delivered'' []) \<Longrightarrow> writes pj P (mark_command_published now k)"
  "P (Transition now k [''queued'', ''delivered''] ''failed'' det) \<Longrightarrow> writes pj P (fail_command now k det)"
  "P (Transition now k [''queued'', ''delivered''] st det) \<Longrightarrow> writes pj P (apply_ack now k st det)"
proof -
  show t: "writes pj P (transition_command now k fs to det)" if "P (Transition now k fs to det)" for fs to det
    unfolding transition_command_def
    by (intro writes_intros) (rule writes_stmt [of _ _ "Transition now k fs to det"], simp_all add: that)
  show "writes pj P (create_command pj now k dev ty p by ttl)"
    if "P (InsertCommand now k dev ty p by (now + ttl div 1000000))"
    unfolding create_command_def
    by (intro writes_intros)
      (rule writes_stmt [of _ _ "InsertCommand now k dev ty p by (now + ttl div 1000000)"], simp_all add: that)
  show "writes pj P (mark_command_published now k)" if "P (Transition now k [''queued''] ''delivered'' [])"
    unfolding mark_command_published_def using that by (rule t)
  show "writes pj P (fail_command now k det)" if "P (Transition now k [''queued'', ''delivered''] ''failed'' det)"
    unfolding fail_command_def by (intro writes_intros t that)
  show "writes pj P (apply_ack now k st det)" if "P (Transition now k [''queued'', ''delivered''] st det)"
    unfolding apply_ack_def using that by (rule t)
qed

lemma writes_presence_pass [writes_intros]:
  "P (ExpireRows now) \<Longrightarrow> P (SweepStale now ttl) \<Longrightarrow> writes pj P (presence_pass now ttl)"
  unfolding presence_pass_def by (intro writes_intros)

lemma writes_retention_pass [writes_intros]:
  assumes "\<And>lim. P (PurgeEvents lim)" and "\<And>lim. P (PurgeCommands lim)"
  shows "writes pj P (retention_pass now days)"
proof -
  have e: "writes pj P (stmt er (purge_events lim))" for er lim
    by (rule writes_stmt [of _ _ "PurgeEvents lim"]) (simp_all add: assms)
  have c: "writes pj P (stmt er (purge_commands lim))" for er lim
    by (rule writes_stmt [of _ _ "PurgeCommands lim"]) (simp_all add: assms)
  show ?thesis unfolding retention_pass_def purge_expired_def by (intro writes_intros e c)
qed

subsection \<open>The invariant of the tables\<close>

definition identity_of :: "device \<Rightarrow> string \<times> string \<times> string" where
  "identity_of v = (dv_site v, dv_source v, dv_external v)"

definition dedup_key :: "device_event \<Rightarrow> int \<times> string \<times> int \<times> string" where
  "dedup_key e = (de_device e, de_type e, de_occurred e, de_hash e)"

definition devices_inv :: "device list \<Rightarrow> int \<Rightarrow> bool" where
  "devices_inv vs n \<longleftrightarrow> distinct (map dv_id vs) \<and> distinct (map identity_of vs) \<and>
     (\<forall>v \<in> set vs. dv_id v < n \<and> dv_status v \<in> set device_statuses)"

definition events_inv :: "device_event list \<Rightarrow> int \<Rightarrow> bool" where
  "events_inv es n \<longleftrightarrow> distinct (map de_id es) \<and> distinct (map dedup_key es) \<and> (\<forall>e \<in> set es. de_id e < n)"

definition commands_inv :: "device_command list \<Rightarrow> int \<Rightarrow> bool" where
  "commands_inv cs n \<longleftrightarrow> distinct (map dc_id cs) \<and> distinct (map dc_command_id cs) \<and>
     (\<forall>c \<in> set cs. dc_id c < n \<and> dc_status c \<in> set command_statuses)"

definition iot_inv :: "iot_db \<Rightarrow> bool" where
  "iot_inv d \<longleftrightarrow> devices_inv (io_devices d) (io_next_device d) \<and> events_inv (io_events d) (io_next_event d) \<and>
     commands_inv (io_commands d) (io_next_command d)"

lemma device_status_cases: "s \<in> set device_statuses \<longleftrightarrow> s = ''pending'' \<or> s = ''online'' \<or> s = ''offline''"
  by (auto simp: device_statuses_def)

lemma command_status_cases:
  "s \<in> set command_statuses \<longleftrightarrow>
     s = ''queued'' \<or> s = ''delivered'' \<or> s = ''acked'' \<or> s = ''failed'' \<or> s = ''expired''"
  by (auto simp: command_statuses_def)

lemma inv_map:
  "(\<And>v. v \<in> set vs \<Longrightarrow> dv_id (f v) = dv_id v \<and> identity_of (f v) = identity_of v \<and>
      (dv_status v \<in> set device_statuses \<longrightarrow> dv_status (f v) \<in> set device_statuses)) \<Longrightarrow>
   devices_inv vs n \<Longrightarrow> devices_inv (map f vs) n"
  "(\<And>c. c \<in> set cs \<Longrightarrow> dc_id (g c) = dc_id c \<and> dc_command_id (g c) = dc_command_id c \<and>
      (dc_status c \<in> set command_statuses \<longrightarrow> dc_status (g c) \<in> set command_statuses)) \<Longrightarrow>
   commands_inv cs n \<Longrightarrow> commands_inv (map g cs) n"
proof -
  assume f: "\<And>v. v \<in> set vs \<Longrightarrow> dv_id (f v) = dv_id v \<and> identity_of (f v) = identity_of v \<and>
      (dv_status v \<in> set device_statuses \<longrightarrow> dv_status (f v) \<in> set device_statuses)" and i: "devices_inv vs n"
  have "map dv_id (map f vs) = map dv_id vs" "map identity_of (map f vs) = map identity_of vs"
    using f by simp_all
  with f i show "devices_inv (map f vs) n" unfolding devices_inv_def by (simp del: map_map)
next
  assume g: "\<And>c. c \<in> set cs \<Longrightarrow> dc_id (g c) = dc_id c \<and> dc_command_id (g c) = dc_command_id c \<and>
      (dc_status c \<in> set command_statuses \<longrightarrow> dc_status (g c) \<in> set command_statuses)" and i: "commands_inv cs n"
  have "map dc_id (map g cs) = map dc_id cs" "map dc_command_id (map g cs) = map dc_command_id cs"
    using g by simp_all
  with g i show "commands_inv (map g cs) n" unfolding commands_inv_def by (simp del: map_map)
qed

lemma inv_filter:
  "devices_inv vs n \<Longrightarrow> devices_inv (filter p vs) n"
  "events_inv es n \<Longrightarrow> events_inv (filter q es) n"
  "commands_inv cs n \<Longrightarrow> commands_inv (filter r cs) n"
  by (auto simp: devices_inv_def events_inv_def commands_inv_def distinct_map_filter)

lemma inv_append:
  "devices_inv vs n \<Longrightarrow> dv_id v = n \<Longrightarrow> identity_of v \<notin> identity_of ` set vs \<Longrightarrow>
     dv_status v \<in> set device_statuses \<Longrightarrow> devices_inv (vs @ [v]) (n + 1)"
  "events_inv es n \<Longrightarrow> de_id e = n \<Longrightarrow> dedup_key e \<notin> dedup_key ` set es \<Longrightarrow> events_inv (es @ [e]) (n + 1)"
  "commands_inv cs n \<Longrightarrow> dc_id c = n \<Longrightarrow> dc_command_id c \<notin> dc_command_id ` set cs \<Longrightarrow>
     dc_status c \<in> set command_statuses \<Longrightarrow> commands_inv (cs @ [c]) (n + 1)"
  by (fastforce simp: devices_inv_def events_inv_def commands_inv_def)+

lemma find_identity_None: "find_identity s r x d = None \<longleftrightarrow> (s, r, x) \<notin> identity_of ` set (io_devices d)"
  by (auto simp: find_identity_def find_None_iff identity_of_def)

lemma find_command_None: "find_command k d = None \<longleftrightarrow> k \<notin> dc_command_id ` set (io_commands d)"
  by (auto simp: find_command_def find_None_iff)

lemma no_duplicate_event:
  "\<not> list_ex (\<lambda>e. de_device e = dev \<and> de_type e = ty \<and> de_occurred e = at \<and> de_hash e = h) es \<longleftrightarrow>
   (dev, ty, at, h) \<notin> dedup_key ` set es"
  by (auto simp: list_ex_iff dedup_key_def)

lemmas iot_row_defs = on_device_def update_state_row_def approve_row_def update_device_row_def
  delete_device_events_def delete_device_commands_def delete_device_row_def mark_offline_def
  source_offline_rows_def sweep_rows_def purge_events_def purge_commands_def

text \<open>How each write changes the three tables.\<close>

lemma write_devices:
  assumes "devices_inv (io_devices d) (io_next_device d)"
  shows "devices_inv (io_devices (apply_write pj w d)) (io_next_device (apply_write pj w d))"
proof (cases w)
  case (InsertDevice now s r x k st at)
  then show ?thesis
    using assms
    by (auto simp: insert_device_def find_identity_None identity_of_def device_status_cases intro!: inv_append split: option.splits)
next
  case (UpdateState now st at i)
  then show ?thesis using assms
    by (auto simp: update_state_row_def on_device_def identity_of_def device_status_cases intro!: inv_map split: option.splits)
next
  case (ApproveRow now inp ttl i)
  then show ?thesis using assms
    by (auto simp: approve_row_def on_device_def identity_of_def device_status_cases intro!: inv_map split: option.splits)
next
  case (UpdateRow now inp i)
  then show ?thesis using assms
    by (auto simp: update_device_row_def on_device_def identity_of_def device_status_cases intro!: inv_map split: option.splits)
next
  case (DeleteRow i)
  then show ?thesis using assms by (auto simp: iot_row_defs intro!: inv_filter)
next
  case (SourceOffline now s r)
  then show ?thesis using assms
    by (auto simp: iot_row_defs identity_of_def device_status_cases intro!: inv_map)
next
  case (SweepStale now ttl)
  then show ?thesis using assms
    by (auto simp: iot_row_defs identity_of_def device_status_cases intro!: inv_map)
qed (use assms in \<open>auto simp: iot_row_defs insert_event_row_def insert_command_row_def transition_row_def expire_rows_def Let_def
      split: option.splits\<close>)

lemma write_events:
  assumes "events_inv (io_events d) (io_next_event d)"
  shows "events_inv (io_events (apply_write pj w d)) (io_next_event (apply_write pj w d))"
proof (cases w)
  case (InsertEvent now dev ty p at h)
  then show ?thesis
    using assms
    by (auto simp: insert_event_row_def dedup_key_def list_ex_iff intro!: inv_append split: option.splits)
qed (use assms in \<open>auto simp: iot_row_defs insert_device_def insert_command_row_def transition_row_def expire_rows_def Let_def
      intro!: inv_filter split: option.splits\<close>)

lemma write_commands:
  assumes "commands_inv (io_commands d) (io_next_command d)" and "regular w"
  shows "commands_inv (io_commands (apply_write pj w d)) (io_next_command (apply_write pj w d))"
proof (cases w)
  case (InsertCommand now k dev ty p by' ex)
  then show ?thesis
    using assms(1)
    by (auto simp: insert_command_row_def find_command_None command_status_cases intro!: inv_append split: option.splits)
next
  case (Transition now k fs to det)
  then have "to \<in> set command_statuses" using assms(2) by (auto simp: command_status_cases)
  with Transition show ?thesis using assms(1)
    by (auto simp: transition_row_def Let_def intro!: inv_map)
next
  case (ExpireRows now)
  then show ?thesis using assms(1)
    by (auto simp: expire_rows_def Let_def command_status_cases intro!: inv_map)
qed (use assms(1) in \<open>auto simp: iot_row_defs insert_device_def insert_event_row_def Let_def
      intro!: inv_filter split: option.splits\<close>)

lemma iot_inv_write: "regular w \<Longrightarrow> iot_inv d \<Longrightarrow> iot_inv (apply_write pj w d)"
  unfolding iot_inv_def using write_devices write_events write_commands by blast

lemma iot_inv_run: "list_all regular ws \<Longrightarrow> iot_inv d \<Longrightarrow> iot_inv (run_writes pj ws d)"
  by (induction ws arbitrary: d) (simp_all add: iot_inv_write)

subsection \<open>The life of a command and of a device\<close>

text \<open>What may happen to a row: outcomes are final, a delivered command is never queued again.\<close>

definition command_step :: "string \<Rightarrow> string \<Rightarrow> bool" where
  "command_step s t \<longleftrightarrow>
     s = ''queued'' \<and> t \<in> {''delivered'', ''acked'', ''failed'', ''expired''} \<or>
     s = ''delivered'' \<and> t \<in> {''acked'', ''failed'', ''expired''}"

definition command_evolves :: "device_command \<Rightarrow> device_command \<Rightarrow> bool" where
  "command_evolves c c' \<longleftrightarrow> c' = c \<or>
     (\<exists>status detail at. c' = c\<lparr>dc_status := status, dc_detail := detail, dc_updated := at\<rparr> \<and>
        command_step (dc_status c) status)"

lemma command_step_trans: "command_step s t \<Longrightarrow> command_step t u \<Longrightarrow> command_step s u"
  by (auto simp: command_step_def)

lemma command_step_live: "s \<in> set live_statuses \<Longrightarrow> command_step s ''expired''"
  by (auto simp: command_step_def live_statuses_def)

lemma command_step_regular:
  "regular (Transition now k fs to det) \<Longrightarrow> s \<in> set fs \<Longrightarrow> command_step s to"
  unfolding regular.simps by (elim disjE conjE) (hypsubst, simp add: command_step_def, blast?)+

lemma command_evolvesI:
  "command_step (dc_status c) status \<Longrightarrow>
   command_evolves c (c\<lparr>dc_status := status, dc_detail := detail, dc_updated := at\<rparr>)"
  unfolding command_evolves_def by blast

lemma command_evolves_refl: "command_evolves c c"
  by (simp add: command_evolves_def)

lemma command_evolves_trans:
  assumes "command_evolves a b" and "command_evolves b c"
  shows "command_evolves a c"
proof (cases "b = a \<or> c = b")
  case True
  with assms show ?thesis by auto
next
  case False
  from assms(1) False obtain s t u where
    b: "b = a\<lparr>dc_status := s, dc_detail := t, dc_updated := u\<rparr>" "command_step (dc_status a) s"
    unfolding command_evolves_def by blast
  from assms(2) False obtain s' t' u' where
    c: "c = b\<lparr>dc_status := s', dc_detail := t', dc_updated := u'\<rparr>" "command_step (dc_status b) s'"
    unfolding command_evolves_def by blast
  have "dc_status b = s" using b(1) by simp
  with b(2) c(2) have "command_step (dc_status a) s'" using command_step_trans by metis
  moreover have "c = a\<lparr>dc_status := s', dc_detail := t', dc_updated := u'\<rparr>" unfolding c(1) b(1) by simp
  ultimately show ?thesis using command_evolvesI by metis
qed

lemma command_evolves_id: "command_evolves c c' \<Longrightarrow> dc_id c' = dc_id c"
  by (auto simp: command_evolves_def)

text \<open>Everything that still bears the number of a command is that command, evolved.\<close>

definition tracked :: "device_command \<Rightarrow> iot_db \<Rightarrow> bool" where
  "tracked c d \<longleftrightarrow> dc_id c < io_next_command d \<and>
     (\<forall>c' \<in> set (io_commands d). dc_id c' = dc_id c \<longrightarrow> command_evolves c c')"

lemma tracked_map:
  assumes "tracked c d" and "\<And>x. x \<in> set (io_commands d) \<Longrightarrow> command_evolves x (f x)"
  shows "tracked c (d\<lparr>io_commands := map f (io_commands d)\<rparr>)"
  using assms command_evolves_trans command_evolves_id unfolding tracked_def by fastforce

lemma tracked_write:
  assumes "regular w" and "tracked c d"
  shows "tracked c (apply_write pj w d)"
proof (cases w)
  case (Transition now k fs to det)
  have "tracked c (d\<lparr>io_commands := map (\<lambda>x. if dc_command_id x = k \<and> dc_status x \<in> set fs
      then x\<lparr>dc_status := to, dc_detail := det, dc_updated := now\<rparr> else x) (io_commands d)\<rparr>)"
    using command_step_regular assms(1) unfolding Transition
    by (intro tracked_map [OF assms(2)]) (auto intro: command_evolvesI command_evolves_refl simp del: regular.simps)
  with assms(2) Transition show ?thesis by (simp add: transition_row_def Let_def)
next
  case (ExpireRows now)
  have "tracked c (d\<lparr>io_commands := map (\<lambda>x. if dc_status x \<in> set live_statuses \<and> dc_expires x \<le> now
      then x\<lparr>dc_status := ''expired'', dc_detail := ''expired before delivery/ack'', dc_updated := now\<rparr>
      else x) (io_commands d)\<rparr>)"
    by (intro tracked_map [OF assms(2)]) (auto intro: command_evolvesI command_step_live command_evolves_refl)
  with ExpireRows show ?thesis by (simp add: expire_rows_def Let_def)
qed (use assms(2) in \<open>auto simp: tracked_def iot_row_defs insert_device_def insert_event_row_def insert_command_row_def
      split: option.splits\<close>)

lemma tracked_run: "list_all regular ws \<Longrightarrow> tracked c d \<Longrightarrow> tracked c (run_writes pj ws d)"
  by (induction ws arbitrary: d) (simp_all add: tracked_write)

lemma tracked_init: "iot_inv d \<Longrightarrow> c \<in> set (io_commands d) \<Longrightarrow> tracked c d"
  unfolding tracked_def iot_inv_def commands_inv_def distinct_map inj_on_def
  using command_evolves_refl by metis

text \<open>A device number: waiting for approval, or never waiting again.\<close>

definition waiting :: "int \<Rightarrow> iot_db \<Rightarrow> bool" where
  "waiting i d \<longleftrightarrow> i < io_next_device d \<and> (\<forall>v \<in> set (io_devices d). dv_id v = i \<longrightarrow> dv_status v = ''pending'')"

definition claimed :: "int \<Rightarrow> iot_db \<Rightarrow> bool" where
  "claimed i d \<longleftrightarrow> i < io_next_device d \<and> (\<forall>v \<in> set (io_devices d). dv_id v = i \<longrightarrow> dv_status v \<noteq> ''pending'')"

lemma waiting_write: "\<not> approves w \<Longrightarrow> waiting i d \<Longrightarrow> waiting i (apply_write pj w d)"
  by (cases w) (auto simp: waiting_def iot_row_defs insert_device_def insert_event_row_def insert_command_row_def
      transition_row_def expire_rows_def Let_def split: option.splits)

lemma claimed_write: "claimed i d \<Longrightarrow> claimed i (apply_write pj w d)"
  by (cases w) (auto simp: claimed_def iot_row_defs insert_device_def insert_event_row_def insert_command_row_def
      transition_row_def expire_rows_def Let_def split: option.splits)

lemma waiting_run: "list_all (\<lambda>w. \<not> approves w) ws \<Longrightarrow> waiting i d \<Longrightarrow> waiting i (run_writes pj ws d)"
  by (induction ws arbitrary: d) (simp_all add: waiting_write)

lemma claimed_run: "claimed i d \<Longrightarrow> claimed i (run_writes pj ws d)"
  by (induction ws arbitrary: d) (simp_all add: claimed_write)

lemma row_status_init:
  assumes "iot_inv d" and "v \<in> set (io_devices d)"
  shows "if dv_status v = ''pending'' then waiting (dv_id v) d else claimed (dv_id v) d"
proof -
  have "w = v" if "w \<in> set (io_devices d)" "dv_id w = dv_id v" for w
    using assms that unfolding iot_inv_def devices_inv_def distinct_map inj_on_def by metis
  with assms show ?thesis
    unfolding waiting_def claimed_def iot_inv_def devices_inv_def by auto
qed

subsection \<open>Results without faults\<close>

lemma find_device_unique:
  "iot_inv d \<Longrightarrow> v \<in> set (io_devices d) \<Longrightarrow> find_device (dv_id v) d = Some v"
  unfolding iot_inv_def devices_inv_def find_device_def using find_unique [of v "io_devices d" dv_id] by blast

lemma find_command_unique:
  "iot_inv d \<Longrightarrow> c \<in> set (io_commands d) \<Longrightarrow> find_command (dc_command_id c) d = Some c"
  unfolding iot_inv_def commands_inv_def find_command_def using find_unique [of c "io_commands d" dc_command_id] by blast

lemma find_command_SomeD: "find_command k d = Some c \<Longrightarrow> c \<in> set (io_commands d) \<and> dc_command_id c = k"
  by (auto simp: find_command_def find_Some_iff)

lemma find_map_key:
  assumes "\<And>x. g (f x) = g x"
  shows "List.find (\<lambda>x. g x = i) (map (\<lambda>x. if g x = i then f x else x) xs) = map_option f (List.find (\<lambda>x. g x = i) xs)"
  by (induction xs) (simp_all add: assms)

lemma find_on_device:
  assumes "\<And>v. dv_id (f v) = dv_id v"
  shows "find_device i (on_device i f d) = map_option f (find_device i d)"
  using find_map_key [of dv_id f, OF assms] by (simp add: find_device_def on_device_def)

text \<open>The row of a first report, and a known row after a report.\<close>

definition reported :: "int \<Rightarrow> string \<Rightarrow> int \<Rightarrow> device \<Rightarrow> device" where
  "reported now st at v = v\<lparr>dv_state := st, dv_last_seen := Some at,
     dv_status := (if dv_status v = ''pending'' then ''pending'' else ''online''), dv_updated := now\<rparr>"

definition first_report ::
  "int \<Rightarrow> int \<Rightarrow> string \<Rightarrow> string \<Rightarrow> string \<Rightarrow> string \<Rightarrow> string \<Rightarrow> int \<Rightarrow> device" where
  "first_report i now site source external hint st at =
     \<lparr>dv_id = i, dv_site = site, dv_source = source, dv_external = external, dv_name = [],
      dv_category = (if hint = [] then ''generic'' else hint), dv_classroom = None, dv_status = ''pending'',
      dv_state = st, dv_last_seen = Some at, dv_created = now, dv_updated = now\<rparr>"

lemma find_identity_SomeD:
  "find_identity s r x d = Some v \<Longrightarrow> v \<in> set (io_devices d) \<and> identity_of v = (s, r, x)"
  by (auto simp: find_identity_def find_Some_iff identity_of_def)

lemma find_append_new: "List.find P xs = None \<Longrightarrow> P x \<Longrightarrow> List.find P (xs @ [x]) = Some x"
  by (induction xs) (auto split: if_splits)

lemma update_state_healthy:
  assumes "iot_inv d" and "v \<in> set (io_devices d)" and "stored_json pj state = Some st"
  shows "update_state pj now v state at (healthy d) =
    (Inr (reported now st at v), healthy (on_device (dv_id v) (reported now st at) d))"
proof -
  have row: "update_state_row pj now state at (dv_id v) d = (True, on_device (dv_id v) (reported now st at) d)"
    using assms(3) by (simp add: update_state_row_def reported_def [abs_def] cong: if_cong)
  have "find_device (dv_id v) (on_device (dv_id v) (reported now st at) d) = Some (reported now st at v)"
    using find_device_unique [OF assms(1,2)] by (subst find_on_device) (simp_all add: reported_def)
  with row show ?thesis by (simp add: update_state_def get_device_def)
qed

lemma upsert_state_healthy:
  assumes "iot_inv d" and "stored_json pj state = Some st"
  shows "upsert_state pj now site source external hint state at (healthy d) =
    (case find_identity site source external d of
       Some v \<Rightarrow> (Inr (reported now st at v, False), healthy (on_device (dv_id v) (reported now st at) d))
     | None \<Rightarrow>
       if pg_text 32 site \<and> pg_text 64 source \<and> pg_text 128 external \<and> pg_text 32 (if hint = [] then ''generic'' else hint)
       then let v = first_report (io_next_device d) now site source external hint st at
            in (Inr (v, True), healthy (d\<lparr>io_devices := io_devices d @ [v], io_next_device := io_next_device d + 1\<rparr>))
       else (Inl (IotDb ''insert iot device''), healthy d))"
proof (cases "find_identity site source external d")
  case (Some v)
  then have "v \<in> set (io_devices d)" by (simp add: find_identity_SomeD)
  from update_state_healthy [OF assms(1) this assms(2), of now at] Some show ?thesis
    by (simp add: upsert_state_def device_by_identity_def)
next
  case None
  let ?v = "first_report (io_next_device d) now site source external hint st at"
  let ?d = "d\<lparr>io_devices := io_devices d @ [?v], io_next_device := io_next_device d + 1\<rparr>"
  have miss: "device_by_identity site source external (healthy d) = (Inl IotNotFound, healthy d)"
    using None by (simp add: device_by_identity_def)
  have found: "find_identity site source external ?d = Some ?v"
    using None unfolding find_identity_def by (simp add: find_append_new first_report_def)
  have ins: "insert_device pj now site source external (if hint = [] then ''generic'' else hint) state at d =
      (if pg_text 32 site \<and> pg_text 64 source \<and> pg_text 128 external \<and> pg_text 32 (if hint = [] then ''generic'' else hint)
       then (Done (), ?d) else (Rejected, d))"
    using None assms(2) by (simp add: insert_device_def first_report_def)
  show ?thesis
    using None miss found ins
    by (simp add: upsert_state_def Let_def device_by_identity_def del: if_split split: written.split)
qed

text \<open>
  The first report of an identity registers exactly one device, waiting for approval, with the
  declared category or \<open>generic\<close>, provided every field fits its column; an oversized one is refused
  with nothing written. Every later report updates the state and the time of exactly that device,
  keeps it waiting if it was waiting and otherwise puts it online, and ignores the declared category.
\<close>

theorem upsert_state_cases:
  assumes "iot_inv d" and "stored_json pj state = Some st"
  shows "upsert_state pj now site source external hint state at (healthy d) =
    (case find_identity site source external d of
       Some v \<Rightarrow> (Inr (reported now st at v, False), healthy (on_device (dv_id v) (reported now st at) d))
     | None \<Rightarrow>
       if pg_text 32 site \<and> pg_text 64 source \<and> pg_text 128 external \<and> pg_text 32 (if hint = [] then ''generic'' else hint)
       then let v = first_report (io_next_device d) now site source external hint st at
            in (Inr (v, True), healthy (d\<lparr>io_devices := io_devices d @ [v], io_next_device := io_next_device d + 1\<rparr>))
       else (Inl (IotDb ''insert iot device''), healthy d))"
  by (rule upsert_state_healthy [OF assms])

lemma apply_ack_healthy:
  assumes "iot_inv d" and "pg_text 255 detail" and "CHR 0x00 \<notin> set k" and "status = ''acked'' \<or> status = ''failed''"
  shows "apply_ack now k status detail (healthy d) =
    (case find_command k d of
       None \<Rightarrow> (Inr False, healthy d)
     | Some c \<Rightarrow>
       if dc_status c \<in> set live_statuses
       then (Inr True, healthy (d\<lparr>io_commands := map (\<lambda>x. if dc_id x = dc_id c
              then c\<lparr>dc_status := status, dc_detail := detail, dc_updated := now\<rparr> else x) (io_commands d)\<rparr>))
       else (Inr False, healthy d))"
proof -
  have t: "pg_text 16 status" using assms(4) by (auto simp: pg_text_def rune_count_ascii)
  let ?hit = "\<lambda>c. dc_command_id c = k \<and> dc_status c \<in> set [''queued'', ''delivered'']"
  have row: "transition_row now k [''queued'', ''delivered''] status detail d =
      (Some (int (length (filter ?hit (io_commands d)))),
       d\<lparr>io_commands := map (\<lambda>c. if ?hit c then c\<lparr>dc_status := status, dc_detail := detail, dc_updated := now\<rparr> else c) (io_commands d)\<rparr>)"
    using assms(2,3) t by (simp add: transition_row_def Let_def)
  show ?thesis
  proof (cases "\<exists>c \<in> set (io_commands d). ?hit c")
    case False
    then have "filter ?hit (io_commands d) = []" by (simp add: filter_empty_conv)
    moreover have "map (\<lambda>c. if ?hit c then c\<lparr>dc_status := status, dc_detail := detail, dc_updated := now\<rparr> else c) (io_commands d) = io_commands d"
      by (rule map_idI) (use False in auto)
    moreover have "\<not> dc_status c \<in> set live_statuses" if "find_command k d = Some c" for c
      using False find_command_SomeD [OF that] by (auto simp: live_statuses_def)
    ultimately show ?thesis using row
      by (auto simp: apply_ack_def transition_command_def split: option.split)
  next
    case True
    then obtain c where c: "c \<in> set (io_commands d)" "?hit c" by blast
    then have f: "find_command k d = Some c" using find_command_unique [OF assms(1)] by blast
    have same: "?hit x \<longleftrightarrow> dc_id x = dc_id c" "dc_id x = dc_id c \<Longrightarrow> x = c" if "x \<in> set (io_commands d)" for x
      using assms(1) c that unfolding iot_inv_def commands_inv_def distinct_map inj_on_def by metis+
    have "map (\<lambda>c. if ?hit c then c\<lparr>dc_status := status, dc_detail := detail, dc_updated := now\<rparr> else c) (io_commands d) =
        map (\<lambda>x. if dc_id x = dc_id c then c\<lparr>dc_status := status, dc_detail := detail, dc_updated := now\<rparr> else x) (io_commands d)"
      using same by (intro map_cong refl) metis
    moreover have "0 < length (filter ?hit (io_commands d))"
      using c by (auto simp: filter_empty_conv)
    ultimately show ?thesis using row f c(2)
      by (simp add: apply_ack_def transition_command_def live_statuses_def)
  qed
qed

text \<open>
  C25: an ack settles exactly the command it names, and only while that command is queued or
  delivered. For an unknown, settled or expired command it answers false and writes nothing: a late
  ack never resurrects a settled command.
\<close>

theorem apply_ack_exact:
  assumes "iot_inv d" and "pg_text 255 detail" and "CHR 0x00 \<notin> set k" and "status = ''acked'' \<or> status = ''failed''"
  shows "apply_ack now k status detail (healthy d) =
    (case find_command k d of
       None \<Rightarrow> (Inr False, healthy d)
     | Some c \<Rightarrow>
       if dc_status c \<in> set live_statuses
       then (Inr True, healthy (d\<lparr>io_commands := map (\<lambda>x. if dc_id x = dc_id c
              then c\<lparr>dc_status := status, dc_detail := detail, dc_updated := now\<rparr> else x) (io_commands d)\<rparr>))
       else (Inr False, healthy d))"
  by (rule apply_ack_healthy [OF assms])

text \<open>
  Redelivery of an event. Once \<open>InsertEvent\<close> has answered without an error, the same event
  (device, type, time and payload) inserted again, at whatever time, answers 0 and writes nothing.
\<close>

theorem insert_event_idempotent:
  assumes "insert_event digest pj now dev ty payload occurred (healthy d) = (Inr i, c)"
  shows "insert_event digest pj now' dev ty payload occurred c = (Inr 0, c) \<and>
    (i = 0 \<and> c = healthy d \<or> i = io_next_event d \<and> length (io_events (tables c)) = Suc (length (io_events d)))"
proof -
  let ?h = "event_dedup_hash digest ty occurred payload"
  let ?row = "insert_event_row pj now dev ty payload occurred ?h d"
  have ok: "pg_text 64 ty" "pg_text 16 ?h"
    using assms by (auto simp: insert_event_def insert_event_row_def split: if_splits)
  have "stored_json pj payload \<noteq> None"
    using assms ok by (cases "stored_json pj payload") (simp_all add: insert_event_def insert_event_row_def)
  then obtain p where p: "stored_json pj payload = Some p" by blast
  show ?thesis
  proof (cases "list_ex (\<lambda>e. de_device e = dev \<and> de_type e = ty \<and> de_occurred e = occurred \<and> de_hash e = ?h) (io_events d)")
    case True
    with assms ok p show ?thesis by (auto simp: insert_event_def insert_event_row_def)
  next
    case False
    with assms ok p show ?thesis by (auto simp: insert_event_def insert_event_row_def)
  qed
qed

text \<open>
  \<open>DeleteDevice\<close> is not atomic: when its last statement fails the device stays in the registry,
  but its events and commands are gone.
\<close>

theorem delete_device_partial:
  "delete_device i \<lparr>tables = d, faults = [False, False, True]\<rparr> =
     (Inl (IotDb ''delete iot device''),
      healthy (delete_device_commands i (delete_device_events i d))) \<and>
   io_devices (delete_device_commands i (delete_device_events i d)) = io_devices d"
  by (simp add: delete_device_def dbind_def stmt_def healthy_def delete_device_commands_def delete_device_events_def)

subsection \<open>Concrete instances\<close>

definition iot_empty :: iot_db where
  "iot_empty = \<lparr>io_devices = [], io_events = [], io_commands = [], io_next_device = 1, io_next_event = 1, io_next_command = 1\<rparr>"

definition demo_device :: "string \<Rightarrow> device" where
  "demo_device status = \<lparr>dv_id = 1, dv_site = ''main'', dv_source = ''gw'', dv_external = ''d1'', dv_name = ''Door'',
     dv_category = ''door'', dv_classroom = Some 3, dv_status = status, dv_state = [], dv_last_seen = Some 4,
     dv_created = 1, dv_updated = 4\<rparr>"

definition demo_command :: device_command where
  "demo_command = \<lparr>dc_id = 1, dc_command_id = ''k1'', dc_device = 1, dc_type = ''door_open'', dc_payload = [],
     dc_status = ''queued'', dc_detail = [], dc_issued_by = ''li'', dc_created = 1, dc_updated = 1, dc_expires = 31\<rparr>"

definition demo_iot :: "string \<Rightarrow> iot_db" where
  "demo_iot status = iot_empty\<lparr>io_devices := [demo_device status], io_commands := [demo_command],
     io_next_device := 2, io_next_command := 2\<rparr>"

lemma iot_empty_inv: "iot_inv iot_empty"
  by (simp add: iot_inv_def iot_empty_def devices_inv_def events_inv_def commands_inv_def)

lemma demo_iot_inv: "status \<in> set device_statuses \<Longrightarrow> iot_inv (demo_iot status)"
  by (simp add: iot_inv_def demo_iot_def iot_empty_def devices_inv_def events_inv_def commands_inv_def
      demo_device_def demo_command_def command_statuses_def)

lemma demo_statuses: "''online'' \<in> set device_statuses" "''pending'' \<in> set device_statuses"
  by (simp_all add: device_statuses_def)

lemma demo_texts:
  "valid_segment ''main''" "valid_segment ''gw''" "valid_segment ''d1''" "valid_event_name ''door''"
  "pg_text 64 ''alarm''" "pg_text 16 []" "pg_text 255 ''ok''" "pg_text 64 ''li''" "pg_text 64 ''door_open''" "pg_text 32 ''k2''"
  "pg_text 32 ''main''" "pg_text 64 ''gw''" "pg_text 128 ''d1''" "pg_text 32 ''door''"
  by (simp_all add: valid_segment_def segment_char_def byte_between_def valid_event_name_def pg_text_def rune_count_ascii)

lemma upsert_state_cases_witness:
  "fst (upsert_state Some 5 ''main'' ''gw'' ''d1'' ''door'' [] 1 (healthy iot_empty)) =
     Inr (first_report 1 5 ''main'' ''gw'' ''d1'' ''door'' [] 1, True)"
proof -
  have j: "stored_json Some [] = Some []" by (simp add: stored_json_def)
  have f: "find_identity ''main'' ''gw'' ''d1'' iot_empty = None" by (simp add: find_identity_def iot_empty_def)
  from upsert_state_cases [OF iot_empty_inv j, of 5 "''main''" "''gw''" "''d1''" "''door''" 1] f
  show ?thesis by (simp add: demo_texts Let_def) (simp add: iot_empty_def)
qed

lemma apply_ack_exact_witness:
  "fst (apply_ack 9 ''k1'' ''acked'' ''ok'' (healthy (demo_iot ''online''))) = Inr True"
proof -
  have f: "find_command ''k1'' (demo_iot ''online'') = Some demo_command"
    by (simp add: find_command_def demo_iot_def demo_command_def)
  have k: "CHR 0x00 \<notin> set ''k1''" by simp
  from apply_ack_exact [OF demo_iot_inv [OF demo_statuses(1)] demo_texts(7) k, of "''acked''" 9] f
  show ?thesis by (simp add: live_statuses_def demo_command_def)
qed

lemma insert_event_idempotent_witness:
  "\<exists>c. insert_event (\<lambda>_. []) Some 5 1 ''alarm'' [] 7 (healthy iot_empty) = (Inr 1, c) \<and>
     insert_event (\<lambda>_. []) Some 6 1 ''alarm'' [] 7 c = (Inr 0, c)"
proof -
  have "\<exists>c. insert_event (\<lambda>_. []) Some 5 1 ''alarm'' [] 7 (healthy iot_empty) = (Inr 1, c)"
    by (simp add: insert_event_def insert_event_row_def event_dedup_hash_def demo_texts stored_json_def iot_empty_def)
  then obtain c where c: "insert_event (\<lambda>_. []) Some 5 1 ''alarm'' [] 7 (healthy iot_empty) = (Inr 1, c)" by blast
  from insert_event_idempotent [OF c, of 6] c show ?thesis by blast
qed

end
