(* ===== verification/Iot_Stream.thy ===== *)
theory Iot_Stream
  imports Iot_Registry
begin

text \<open>
  The fan-out between the data plane and the console (\<open>internal/iot/stream.go\<close>) and the frames that
  the handlers and the MQTT consumer broadcast. The hub's mutex makes each operation atomic, so its
  behaviour is a run over a list of operations. A buffer that may drop elements but never blocks is
  an interface of its own (\<open>lossy_buffer\<close>): the hub's channels drop the newest element, the offline
  queue of the device SDK the oldest one.
\<close>

subsection \<open>Lossy buffers\<close>

datatype 'a buffer_op = Push 'a | Pop

text \<open>What a reader got, and what is left in the buffer.\<close>

fun run_buffer :: "('a \<Rightarrow> 'a list \<Rightarrow> 'a list) \<Rightarrow> 'a buffer_op list \<Rightarrow> 'a list \<Rightarrow> 'a list \<times> 'a list" where
  "run_buffer push [] q = ([], q)"
| "run_buffer push (Push x # ops) q = run_buffer push ops (push x q)"
| "run_buffer push (Pop # ops) q = (case q of [] \<Rightarrow> run_buffer push ops []
     | y # ys \<Rightarrow> (case run_buffer push ops ys of (got, rest) \<Rightarrow> (y # got, rest)))"

fun pushed :: "'a buffer_op list \<Rightarrow> 'a list" where
  "pushed [] = []"
| "pushed (Push x # ops) = x # pushed ops"
| "pushed (Pop # ops) = pushed ops"

lemma run_pop:
  assumes "run_buffer push (Pop # ops) q = (got, rest)"
  shows "\<exists>g. run_buffer push ops (tl q) = (g, rest) \<and> got = take 1 q @ g"
  using assms by (cases q) (auto split: prod.splits)

lemma take_tl: "take 1 q @ tl q = q"
  by (cases q) simp_all

locale lossy_buffer =
  fixes push :: "'a \<Rightarrow> 'a list \<Rightarrow> 'a list" and cap :: nat
  assumes push_subseq: "subseq (push x q) (q @ [x])"
    and push_bound: "length q \<le> cap \<Longrightarrow> length (push x q) \<le> cap"
    and push_room: "length q < cap \<Longrightarrow> push x q = q @ [x]"
begin

text \<open>Nothing is invented, duplicated or reordered.\<close>

lemma run_subseq: "run_buffer push ops q = (got, rest) \<Longrightarrow> subseq (got @ rest) (q @ pushed ops)"
proof (induction ops arbitrary: q got rest)
  case Nil
  then show ?case by simp
next
  case (Cons a ops)
  show ?case
  proof (cases a)
    case (Push x)
    then have "subseq (got @ rest) (push x q @ pushed ops)" using Cons by simp
    moreover have "subseq (push x q @ pushed ops) ((q @ [x]) @ pushed ops)"
      using push_subseq [of x q] by (intro list_emb_append_mono) simp_all
    ultimately show ?thesis unfolding Push by (simp add: subseq_order.trans)
  next
    case Pop
    then obtain g where g: "run_buffer push ops (tl q) = (g, rest)" "got = take 1 q @ g"
      using run_pop Cons.prems by metis
    have "subseq (take 1 q @ g @ rest) (take 1 q @ tl q @ pushed ops)"
      using list_emb_append_mono [OF subseq_order.order_refl Cons.IH [OF g(1)], of "take 1 q"] by simp
    then show ?thesis unfolding g(2) Pop pushed.simps by (metis append.assoc take_tl)
  qed
qed

text \<open>The buffer stays within its capacity.\<close>

lemma run_bound: "length q \<le> cap \<Longrightarrow> run_buffer push ops q = (got, rest) \<Longrightarrow> length rest \<le> cap"
proof (induction ops arbitrary: q got rest)
  case (Cons a ops)
  show ?case
  proof (cases a)
    case (Push x)
    then show ?thesis using Cons push_bound [of q x] by simp
  next
    case Pop
    then obtain g where "run_buffer push ops (tl q) = (g, rest)" using run_pop Cons.prems by metis
    with Cons.IH [of "tl q" g rest] Cons.prems(1) show ?thesis by simp
  qed
qed simp

text \<open>A reader that keeps up loses nothing.\<close>

lemma run_lossless:
  "length q + length (pushed ops) \<le> cap \<Longrightarrow> run_buffer push ops q = (got, rest) \<Longrightarrow> got @ rest = q @ pushed ops"
proof (induction ops arbitrary: q got rest)
  case (Cons a ops)
  show ?case
  proof (cases a)
    case (Push x)
    then have "push x q = q @ [x]" using Cons.prems(1) push_room [of q x] by simp
    then show ?thesis using Cons.prems Cons.IH [of "push x q" got rest] Push by simp
  next
    case Pop
    then obtain g where g: "run_buffer push ops (tl q) = (g, rest)" "got = take 1 q @ g"
      using run_pop Cons.prems by metis
    have "g @ rest = tl q @ pushed ops"
      using Cons.IH [OF _ g(1)] Cons.prems(1) Pop by simp
    then show ?thesis unfolding g(2) Pop by (metis append.assoc pushed.simps(3) take_tl)
  qed
qed simp

end

subsection \<open>Frames\<close>

record device_wire =
  wi_id :: int
  wi_site :: string
  wi_source :: string
  wi_external :: string
  wi_name :: string
  wi_category :: string
  wi_status :: string
  wi_updated :: int
  wi_classroom :: "int option"
  wi_last_seen :: "int option"

record device_summary =
  su_id :: int
  su_source :: string
  su_external :: string
  su_status :: string
  su_site :: string
  su_updated :: int
  su_last_seen :: "int option"

definition device_wire :: "device \<Rightarrow> device_wire" where
  "device_wire v = \<lparr>wi_id = dv_id v, wi_site = dv_site v, wi_source = dv_source v, wi_external = dv_external v,
     wi_name = dv_name v, wi_category = dv_category v, wi_status = dv_status v, wi_updated = dv_updated v,
     wi_classroom = dv_classroom v, wi_last_seen = dv_last_seen v\<rparr>"

definition device_summary :: "device \<Rightarrow> device_summary" where
  "device_summary v = \<lparr>su_id = dv_id v, su_source = dv_source v, su_external = dv_external v,
     su_status = dv_status v, su_site = dv_site v, su_updated = dv_updated v, su_last_seen = dv_last_seen v\<rparr>"

datatype frame_data =
    DeviceWire device_wire
  | DeviceSummary device_summary
  | EventData int string
  | CommandData string string
  | SourceData string int

record stream_event =
  ev_name :: string
  ev_data :: frame_data

abbreviation frame :: "string \<Rightarrow> frame_data \<Rightarrow> stream_event" where
  "frame name data \<equiv> \<lparr>ev_name = name, ev_data = data\<rparr>"

subsection \<open>The hub\<close>

text \<open>
  A channel keeps its buffered events; \<open>cancel\<close> takes it out of the map and closes it, after which
  its reader can still drain it. Channels are numbered in the order of their creation.
\<close>

record channel =
  ch_buffer :: "stream_event list"
  ch_subscribed :: bool

record hub =
  hb_channels :: "channel list"

definition new_hub :: hub where
  "new_hub = \<lparr>hb_channels = []\<rparr>"

definition subscribe :: "hub \<Rightarrow> nat \<times> hub" where
  "subscribe h = (length (hb_channels h),
     h\<lparr>hb_channels := hb_channels h @ [\<lparr>ch_buffer = [], ch_subscribed = True\<rparr>]\<rparr>)"

definition cancel_subscription :: "nat \<Rightarrow> hub \<Rightarrow> hub" where
  "cancel_subscription i h =
     (if i < length (hb_channels h) \<and> ch_subscribed (hb_channels h ! i)
      then h\<lparr>hb_channels := (hb_channels h)[i := (hb_channels h ! i)\<lparr>ch_subscribed := False\<rparr>]\<rparr>
      else h)"

text \<open>The buffered send of \<open>Broadcast\<close>: a full buffer takes the default branch.\<close>

definition send_or_drop :: "stream_event \<Rightarrow> stream_event list \<Rightarrow> stream_event list" where
  "send_or_drop ev q = (if length q < 16 then q @ [ev] else q)"

definition broadcast :: "stream_event \<Rightarrow> hub \<Rightarrow> hub" where
  "broadcast ev h = h\<lparr>hb_channels := map (\<lambda>c. if ch_subscribed c
      then c\<lparr>ch_buffer := send_or_drop ev (ch_buffer c)\<rparr> else c) (hb_channels h)\<rparr>"

text \<open>A receive on a channel; \<open>None\<close> when it would block or is closed and empty.\<close>

definition receive :: "nat \<Rightarrow> hub \<Rightarrow> stream_event option \<times> hub" where
  "receive i h =
     (if i < length (hb_channels h) then
        (case ch_buffer (hb_channels h ! i) of [] \<Rightarrow> (None, h)
         | ev # evs \<Rightarrow> (Some ev, h\<lparr>hb_channels := (hb_channels h)[i := (hb_channels h ! i)\<lparr>ch_buffer := evs\<rparr>]\<rparr>))
      else (None, h))"

text \<open>
  One frame of the SSE response: \<open>marshal\<close> is \<open>json.Marshal\<close> of the data; a frame that does not
  encode is skipped.
\<close>

definition write_frame :: "(frame_data \<Rightarrow> string option) \<Rightarrow> stream_event \<Rightarrow> string" where
  "write_frame marshal ev = (case marshal (ev_data ev) of None \<Rightarrow> []
     | Some b \<Rightarrow> ''event: '' @ ev_name ev @ [CHR 0x0A] @ ''data: '' @ b @ [CHR 0x0A, CHR 0x0A])"

interpretation hub_channel: lossy_buffer send_or_drop 16
  by unfold_locales (auto simp: send_or_drop_def)

text \<open>Runs of the hub, with what every channel delivered.\<close>

datatype hub_op = Subscribe | Cancel nat | Broadcast stream_event | Receive nat

fun hub_step :: "hub_op \<Rightarrow> hub \<Rightarrow> (nat \<times> stream_event) list \<times> hub" where
  "hub_step Subscribe h = ([], snd (subscribe h))"
| "hub_step (Cancel i) h = ([], cancel_subscription i h)"
| "hub_step (Broadcast ev) h = ([], broadcast ev h)"
| "hub_step (Receive i) h = (case receive i h of (None, h') \<Rightarrow> ([], h') | (Some ev, h') \<Rightarrow> ([(i, ev)], h'))"

fun hub_run :: "hub_op list \<Rightarrow> hub \<Rightarrow> (nat \<times> stream_event) list \<times> hub" where
  "hub_run [] h = ([], h)"
| "hub_run (a # as) h = (case hub_step a h of (l, h1) \<Rightarrow> (case hub_run as h1 of (ls, h2) \<Rightarrow> (l @ ls, h2)))"

text \<open>What the operations are for one channel, which is subscribed or not.\<close>

fun channel_ops :: "nat \<Rightarrow> bool \<Rightarrow> hub_op list \<Rightarrow> stream_event buffer_op list" where
  "channel_ops i b [] = []"
| "channel_ops i b (Subscribe # as) = channel_ops i b as"
| "channel_ops i b (Cancel j # as) = channel_ops i (b \<and> j \<noteq> i) as"
| "channel_ops i b (Broadcast ev # as) = (if b then Push ev # channel_ops i b as else channel_ops i b as)"
| "channel_ops i b (Receive j # as) = (if j = i then Pop # channel_ops i b as else channel_ops i b as)"

definition received :: "nat \<Rightarrow> (nat \<times> stream_event) list \<Rightarrow> stream_event list" where
  "received i log = map snd (filter (\<lambda>p. fst p = i) log)"

lemma received_simps [simp]:
  "received i [] = []" "received i ((j, ev) # log) = (if j = i then ev # received i log else received i log)"
  "received i (l @ m) = received i l @ received i m"
  by (simp_all add: received_def)

lemma hub_step_channel:
  assumes "i < length (hb_channels h)" and "hub_step a h = (l, h1)"
  shows "i < length (hb_channels h1) \<and>
    ch_subscribed (hb_channels h1 ! i) = (ch_subscribed (hb_channels h ! i) \<and> a \<noteq> Cancel i) \<and>
    run_buffer send_or_drop (channel_ops i (ch_subscribed (hb_channels h ! i)) [a]) (ch_buffer (hb_channels h ! i)) =
      (received i l, ch_buffer (hb_channels h1 ! i))"
proof (cases a)
  case Subscribe
  with assms show ?thesis by (auto simp: subscribe_def nth_append)
next
  case (Cancel j)
  with assms show ?thesis
    by (cases "j < length (hb_channels h) \<and> ch_subscribed (hb_channels h ! j)")
      (auto simp: cancel_subscription_def nth_list_update split: if_splits)
next
  case (Broadcast ev)
  with assms show ?thesis by (auto simp: broadcast_def)
next
  case (Receive j)
  with assms show ?thesis
    by (cases "ch_buffer (hb_channels h ! j)") (auto simp: receive_def nth_list_update split: if_splits)
qed

lemma run_buffer_append:
  "run_buffer push (as @ bs) q =
     (case run_buffer push as q of (g, r) \<Rightarrow> (case run_buffer push bs r of (g', r') \<Rightarrow> (g @ g', r')))"
  by (induction push as q rule: run_buffer.induct) (auto split: prod.splits list.splits)

lemma channel_ops_step: "channel_ops i b (a # as) = channel_ops i b [a] @ channel_ops i (b \<and> a \<noteq> Cancel i) as"
  by (cases a) auto

lemma hub_run_channel:
  assumes "i < length (hb_channels h)" and "hub_run as h = (log, h')"
  shows "i < length (hb_channels h') \<and>
    run_buffer send_or_drop (channel_ops i (ch_subscribed (hb_channels h ! i)) as) (ch_buffer (hb_channels h ! i)) =
      (received i log, ch_buffer (hb_channels h' ! i))"
  using assms
proof (induction as arbitrary: h log)
  case Nil
  then show ?case by simp
next
  case (Cons a as)
  obtain l h1 where 1: "hub_step a h = (l, h1)" by fastforce
  obtain ls where 2: "hub_run as h1 = (ls, h')" "log = l @ ls"
    using Cons.prems(2) 1 by (auto split: prod.splits)
  note step = hub_step_channel [OF Cons.prems(1) 1]
  from Cons.IH [OF _ 2(1)] step show ?case
    by (simp add: channel_ops_step [of i _ a as] run_buffer_append 2(2))
qed

text \<open>
  C34: what a console subscriber sees. From its subscription on, the events it has read followed by
  those in its buffer are, in order and without repetition, a selection of the events broadcast
  before it cancelled; the buffer never holds more than 16; and as long as no more than 16 events
  were broadcast none is missing.
\<close>

theorem hub_subscriber_view:
  assumes "subscribe h = (i, h0)" and "hub_run ops h0 = (log, h')"
  shows "let seen = received i log; buffered = ch_buffer (hb_channels h' ! i);
             sent = pushed (channel_ops i True ops) in
    subseq (seen @ buffered) sent \<and> length buffered \<le> 16 \<and> (length sent \<le> 16 \<longrightarrow> seen @ buffered = sent)"
proof -
  have i: "i < length (hb_channels h0)" and c: "hb_channels h0 ! i = \<lparr>ch_buffer = [], ch_subscribed = True\<rparr>"
    using assms(1) by (auto simp: subscribe_def)
  have r: "run_buffer send_or_drop (channel_ops i True ops) [] = (received i log, ch_buffer (hb_channels h' ! i))"
    using hub_run_channel [OF i assms(2)] c by simp
  show ?thesis
    using hub_channel.run_subseq [OF r] hub_channel.run_bound [OF _ r] hub_channel.run_lossless [OF _ r]
    by (simp add: Let_def)
qed

definition demo_event :: "string \<Rightarrow> stream_event" where
  "demo_event s = frame s (CommandData [] [])"

lemma hub_subscriber_view_witness:
  "\<exists>log h'. hub_run [Broadcast (demo_event ''a''), Receive 0, Broadcast (demo_event ''b'')] (snd (subscribe new_hub)) = (log, h') \<and>
     received 0 log @ ch_buffer (hb_channels h' ! 0) = [demo_event ''a'', demo_event ''b'']"
proof -
  have s: "subscribe new_hub = (0, \<lparr>hb_channels = [\<lparr>ch_buffer = [], ch_subscribed = True\<rparr>]\<rparr>)"
    by (simp add: subscribe_def new_hub_def)
  obtain log h' where r: "hub_run [Broadcast (demo_event ''a''), Receive 0, Broadcast (demo_event ''b'')]
      \<lparr>hb_channels = [\<lparr>ch_buffer = [], ch_subscribed = True\<rparr>]\<rparr> = (log, h')" by fastforce
  from hub_subscriber_view [OF s r] r s show ?thesis by (auto simp: Let_def simp del: hub_run.simps)
qed

end
