(* ===== verification/Iot_Consumer.thy ===== *)
theory Iot_Consumer
  imports Iot_Stream
begin

text \<open>
  The MQTT side of the data plane (\<open>internal/iot/mqtt/consumer.go\<close>, \<open>publisher.go\<close>): one broker
  message is routed by its topic into the registry and the hub, and a command is published and then
  recorded as delivered. The environment of a message collects the deployment's site, the clock, the
  readings of PostgreSQL and \<open>json.Unmarshal\<close> of the three envelopes; the paho client is a function
  that tells whether the broker accepted a publication in time. Log lines are not modelled.
\<close>

record iot_env =
  en_site :: string
  en_now :: int
  en_json :: "string \<Rightarrow> string option"
  en_digest :: "string \<Rightarrow> string"
  en_state :: "string \<Rightarrow> state_payload option"
  en_event :: "string \<Rightarrow> event_payload option"
  en_ack :: "string \<Rightarrow> ack_payload option"

type_synonym iot_system = "iot_db conn \<times> hub"

subsection \<open>Messages\<close>

definition handle_state :: "iot_env \<Rightarrow> string \<Rightarrow> string \<Rightarrow> string \<Rightarrow> string \<Rightarrow> iot_system \<Rightarrow> iot_system" where
  "handle_state env site source dev raw s = (case s of (c, h) \<Rightarrow>
     (case en_state env raw of
        None \<Rightarrow> (c, h)
      | Some p \<Rightarrow>
        if validate_state p \<noteq> None then (c, h)
        else (case upsert_state (en_json env) (en_now env) site source dev (sp_category p) (sp_attrs p) (sp_at p) c of
            (Inl _, c') \<Rightarrow> (c', h)
          | (Inr (d, is_new), c') \<Rightarrow>
            let h = (if is_new then broadcast (frame ''device.created'' (DeviceSummary (device_summary d))) h else h)
            in (c', broadcast (frame ''device.updated'' (DeviceSummary (device_summary d))) h))))"

definition handle_event :: "iot_env \<Rightarrow> string \<Rightarrow> string \<Rightarrow> string \<Rightarrow> string \<Rightarrow> iot_system \<Rightarrow> iot_system" where
  "handle_event env site source dev raw s = (case s of (c, h) \<Rightarrow>
     (case en_event env raw of
        None \<Rightarrow> (c, h)
      | Some p \<Rightarrow>
        if validate_event p \<noteq> None then (c, h)
        else (case ensure_device (en_json env) (en_now env) site source dev [] c of
            (Inl _, c') \<Rightarrow> (c', h)
          | (Inr (d, is_new), c') \<Rightarrow>
            let h = (if is_new then broadcast (frame ''device.created'' (DeviceSummary (device_summary d))) h else h)
            in (case insert_event (en_digest env) (en_json env) (en_now env) (dv_id d) (ep_type p) (ep_data p) (ep_at p) c' of
                 (Inl _, c2) \<Rightarrow> (c2, h)
               | (Inr i, c2) \<Rightarrow>
                 if i > 0 then (c2, broadcast (frame ''event.created'' (EventData (dv_id d) (ep_type p))) h)
                 else (c2, h)))))"

definition handle_ack :: "iot_env \<Rightarrow> string \<Rightarrow> iot_system \<Rightarrow> iot_system" where
  "handle_ack env raw s = (case s of (c, h) \<Rightarrow>
     (case en_ack env raw of
        None \<Rightarrow> (c, h)
      | Some p \<Rightarrow>
        if validate_ack p \<noteq> None then (c, h)
        else (case apply_ack (en_now env) (ap_command_id p) (ap_status p) (ap_detail p) c of
            (Inl _, c') \<Rightarrow> (c', h)
          | (Inr ok, c') \<Rightarrow>
            if \<not> ok then (c', h)
            else (c', broadcast (frame ''command.updated'' (CommandData (ap_command_id p) (ap_status p))) h))))"

definition handle_meta :: "iot_env \<Rightarrow> string \<Rightarrow> iot_system \<Rightarrow> iot_system" where
  "handle_meta env topic s = (case s of (c, h) \<Rightarrow>
     (case parse_meta_topic topic of
        None \<Rightarrow> (c, h)
      | Some (source, channel) \<Rightarrow>
        if channel = ''offline'' then
          (case mark_source_offline (en_now env) (en_site env) source c of
             (Inl _, c') \<Rightarrow> (c', h)
           | (Inr n, c') \<Rightarrow> (c', broadcast (frame ''source.offline'' (SourceData source n)) h))
        else (c, h)))"

definition handle_message :: "iot_env \<Rightarrow> string \<Rightarrow> string \<Rightarrow> iot_system \<Rightarrow> iot_system" where
  "handle_message env topic raw s =
     (if is_meta_topic topic then handle_meta env topic s
      else (case parse_data_topic topic of
          None \<Rightarrow> s
        | Some (site, source, dev, channel) \<Rightarrow>
          if site \<noteq> en_site env then s
          else if channel = ''cmd'' then s
          else if channel = ''state'' then handle_state env site source dev raw s
          else if channel = ''event'' then handle_event env site source dev raw s
          else if channel = ''ack'' then handle_ack env raw s
          else s))"

subsection \<open>Publishing\<close>

text \<open>\<open>pb_encode\<close> is \<open>json.Marshal\<close> of a frame, \<open>pb_broker\<close> whether the PUBACK arrived in time.\<close>

record publisher =
  pb_connected :: bool
  pb_encode :: "command_frame \<Rightarrow> string option"
  pb_broker :: "string \<Rightarrow> string \<Rightarrow> bool"

definition command_frame_of :: "device_command \<Rightarrow> command_frame" where
  "command_frame_of cmd = \<lparr>fr_v = 1, fr_command_id = dc_command_id cmd, fr_type = dc_type cmd,
     fr_payload = dc_payload cmd, fr_issued_at = dc_created cmd, fr_expires_at = dc_expires cmd\<rparr>"

text \<open>Whether \<open>PublishCommand\<close> returns without an error; failing to record the delivery is no error.\<close>

definition publish_command :: "publisher \<Rightarrow> int \<Rightarrow> device \<Rightarrow> device_command \<Rightarrow> iot_db conn \<Rightarrow> bool \<times> iot_db conn" where
  "publish_command pb now d cmd c =
     (if \<not> pb_connected pb then (False, c)
      else (case pb_encode pb (command_frame_of cmd) of
          None \<Rightarrow> (False, c)
        | Some b \<Rightarrow>
          if \<not> pb_broker pb (command_topic (dv_site d) (dv_source d) (dv_external d)) b then (False, c)
          else (True, snd (mark_command_published now (dc_command_id cmd) c))))"

subsection \<open>What a message may write\<close>

fun from_device :: "iot_write \<Rightarrow> bool" where
  "from_device (InsertDevice now s r x k st at) \<longleftrightarrow> True"
| "from_device (UpdateState now st at i) \<longleftrightarrow> True"
| "from_device (SourceOffline now s r) \<longleftrightarrow> True"
| "from_device (InsertEvent now dev ty p at h) \<longleftrightarrow> True"
| "from_device (Transition now k fs to det) \<longleftrightarrow> fs = [''queued'', ''delivered''] \<and> (to = ''acked'' \<or> to = ''failed'')"
| "from_device _ \<longleftrightarrow> False"

lemma from_device_regular: "from_device w \<Longrightarrow> regular w \<and> \<not> approves w"
  by (cases w) auto

lemma validate_ack_status: "validate_ack p = None \<Longrightarrow> ap_status p = ''acked'' \<or> ap_status p = ''failed''"
  by (auto simp: validate_ack_def split: if_splits)

lemma handle_message_writes:
  "\<exists>ws. list_all from_device ws \<and> tables (fst (handle_message env topic raw (c, h))) = run_writes (en_json env) ws (tables c)"
proof -
  let ?R = "\<lambda>s. \<exists>ws. list_all from_device ws \<and> tables (fst s) = run_writes (en_json env) ws (tables c)"
  have none: "?R (c, h)" using run_none by fastforce
  have st: "?R (handle_state env site source dev raw (c, h))" for site source dev
  proof -
    obtain r c' where u: "upsert_state (en_json env) (en_now env) site source dev
        (sp_category (the (en_state env raw))) (sp_attrs (the (en_state env raw))) (sp_at (the (en_state env raw))) c = (r, c')"
      by fastforce
    have "\<exists>ws. list_all from_device ws \<and> tables c' = run_writes (en_json env) ws (tables c)"
      using u by (rule writesD [rotated]) (intro writes_intros; simp)
    with u none show ?thesis by (auto simp: handle_state_def Let_def split: option.split sum.split)
  qed
  have ev: "?R (handle_event env site source dev raw (c, h))" for site source dev
  proof (cases "en_event env raw")
    case None
    then show ?thesis using none by (simp add: handle_event_def)
  next
    case (Some p)
    obtain r c' where u: "ensure_device (en_json env) (en_now env) site source dev [] c = (r, c')" by fastforce
    have w: "\<exists>ws. list_all from_device ws \<and> tables c' = run_writes (en_json env) ws (tables c)"
      using u by (rule writesD [rotated]) (intro writes_intros; simp)
    show ?thesis
    proof (cases r)
      case (Inl e)
      with u w Some none show ?thesis by (auto simp: handle_event_def)
    next
      case (Inr dn)
      obtain r2 c2 where i: "insert_event (en_digest env) (en_json env) (en_now env) (dv_id (fst dn)) (ep_type p) (ep_data p) (ep_at p) c' = (r2, c2)"
        by fastforce
      have "\<exists>ws. list_all from_device ws \<and> tables c2 = run_writes (en_json env) ws (tables c)"
      proof -
        have "writes (en_json env) from_device (insert_event (en_digest env) (en_json env) (en_now env) (dv_id (fst dn))
            (ep_type p) (ep_data p) (ep_at p))"
          by (intro writes_intros; simp)
        from run_compose [OF w writesD [OF this i]] show ?thesis .
      qed
      with u i Some Inr none show ?thesis
        by (cases dn; cases r2) (auto simp: handle_event_def Let_def)
    qed
  qed
  have ack: "?R (handle_ack env raw (c, h))"
  proof (cases "\<exists>p. en_ack env raw = Some p \<and> validate_ack p = None")
    case False
    then show ?thesis using none by (auto simp: handle_ack_def split: option.split)
  next
    case True
    then obtain p where p: "en_ack env raw = Some p" "validate_ack p = None" by blast
    obtain r c' where u: "apply_ack (en_now env) (ap_command_id p) (ap_status p) (ap_detail p) c = (r, c')" by fastforce
    have "\<exists>ws. list_all from_device ws \<and> tables c' = run_writes (en_json env) ws (tables c)"
      using u by (rule writesD [rotated]) (intro writes_intros; use validate_ack_status [OF p(2)] in auto)
    with u p show ?thesis by (auto simp: handle_ack_def split: sum.split)
  qed
  have meta: "?R (handle_meta env topic (c, h))"
  proof (cases "parse_meta_topic topic")
    case None
    then show ?thesis using none by (simp add: handle_meta_def)
  next
    case (Some sc)
    obtain r c' where u: "mark_source_offline (en_now env) (en_site env) (fst sc) c = (r, c')" by fastforce
    have "\<exists>ws. list_all from_device ws \<and> tables c' = run_writes (en_json env) ws (tables c)"
      using u by (rule writesD [rotated]) (intro writes_intros; simp)
    with u Some none show ?thesis by (cases sc; cases r) (auto simp: handle_meta_def)
  qed
  show ?thesis
    using none st ev ack meta by (auto simp: handle_message_def split: option.split)
qed

lemma publish_command_writes:
  "\<exists>ws. list_all (\<lambda>w. regular w \<and> \<not> approves w) ws \<and>
     tables (snd (publish_command pb now d cmd c)) = run_writes pj ws (tables c)"
proof -
  have "writes pj (\<lambda>w. regular w \<and> \<not> approves w) (mark_command_published now (dc_command_id cmd))"
    by (intro writes_intros) simp
  then have "\<exists>ws. list_all (\<lambda>w. regular w \<and> \<not> approves w) ws \<and>
      tables (snd (mark_command_published now (dc_command_id cmd) c)) = run_writes pj ws (tables c)"
    unfolding writes_def evolves_def by blast
  then show ?thesis using run_none by (auto simp: publish_command_def split: option.split)
qed

lemma publish_refused: "publish_command pb now d cmd c = (False, c') \<Longrightarrow> c' = c"
  by (auto simp: publish_command_def split: if_splits option.splits)

subsection \<open>Properties\<close>

text \<open>
  The gate of the consumer. A broker message changes the registry or reaches a console only when
  it is a state, event or ack message of this deployment's own site, or the offline message of a
  source; every other topic, malformed or of another site, and the loopback of the backend's own
  commands are dropped without a trace.
\<close>

theorem message_gate:
  "handle_message env topic raw s = s \<or>
   (\<exists>source. topic = ''iot/_meta/'' @ source @ ''/offline'' \<and> valid_segment source) \<or>
   (\<exists>source dev channel. topic = ''iot/'' @ en_site env @ ''/'' @ source @ ''/'' @ dev @ ''/'' @ channel \<and>
      valid_segment source \<and> valid_segment dev \<and> channel \<in> {''state'', ''event'', ''ack''})"
proof (cases "is_meta_topic topic")
  case True
  then have m: "handle_message env topic raw s = handle_meta env topic s" by (simp add: handle_message_def)
  show ?thesis
  proof (cases "\<exists>source. parse_meta_topic topic = Some (source, ''offline'')")
    case True
    then show ?thesis using meta_topics by auto
  next
    case False
    then have "handle_meta env topic s = s" by (auto simp: handle_meta_def split: prod.split option.split)
    with m show ?thesis by simp
  qed
next
  case False
  show ?thesis
  proof (cases "handle_message env topic raw s = s")
    case neq: False
    then obtain source dev channel where p: "parse_data_topic topic = Some (en_site env, source, dev, channel)"
      and c: "channel \<in> {''state'', ''event'', ''ack''}"
      using False by (auto simp: handle_message_def split: option.splits if_splits)
    from p [unfolded data_topics] c show ?thesis by blast
  qed simp
qed

lemma data_message:
  assumes "valid_segment site" and "site \<noteq> ''_meta''" and "valid_segment source" and "valid_segment dev"
  shows "handle_message env (''iot/'' @ site @ ''/'' @ source @ ''/'' @ dev @ ''/'' @ ''state'') raw s =
    (if site \<noteq> en_site env then s else handle_state env site source dev raw s)"
proof -
  have p: "parse_data_topic (''iot/'' @ site @ ''/'' @ source @ ''/'' @ dev @ ''/'' @ ''state'') =
      Some (site, source, dev, ''state'')"
    unfolding data_topics using assms by (simp add: channels_def)
  from data_topic_not_meta [OF p] p show ?thesis by (simp add: handle_message_def)
qed

text \<open>
  The path of a state report, from the topic to the tables and the consoles. A valid report of
  this site's device updates its row and announces the update; the first report registers one device
  waiting for approval and announces both; a report whose identity does not fit the columns leaves
  no trace, although its topic is well formed.
\<close>

theorem state_report_path:
  assumes "valid_segment (en_site env)" and "en_site env \<noteq> ''_meta''" and "valid_segment source" and "valid_segment dev"
    and "en_state env raw = Some p" and "validate_state p = None"
    and "stored_json (en_json env) (sp_attrs p) = Some st" and "iot_inv d"
  shows "handle_message env (''iot/'' @ en_site env @ ''/'' @ source @ ''/'' @ dev @ ''/'' @ ''state'') raw (healthy d, h) =
    (let say = (\<lambda>name v. broadcast (frame name (DeviceSummary (device_summary v)))) in
     case find_identity (en_site env) source dev d of
       Some v \<Rightarrow> let v' = reported (en_now env) st (sp_at p) v in
         (healthy (on_device (dv_id v) (reported (en_now env) st (sp_at p)) d), say ''device.updated'' v' h)
     | None \<Rightarrow>
       if pg_text 32 (en_site env) \<and> pg_text 64 source \<and> pg_text 128 dev \<and>
          pg_text 32 (if sp_category p = [] then ''generic'' else sp_category p)
       then let v = first_report (io_next_device d) (en_now env) (en_site env) source dev (sp_category p) st (sp_at p) in
         (healthy (d\<lparr>io_devices := io_devices d @ [v], io_next_device := io_next_device d + 1\<rparr>),
          say ''device.updated'' v (say ''device.created'' v h))
       else (healthy d, h))"
proof -
  let ?fits = "pg_text 32 (en_site env) \<and> pg_text 64 source \<and> pg_text 128 dev \<and>
    pg_text 32 (if sp_category p = [] then ''generic'' else sp_category p)"
  note up = upsert_state_healthy [OF assms(8,7), where now = "en_now env" and site = "en_site env" and source = source
      and external = dev and hint = "sp_category p" and at = "sp_at p"]
  have h: "handle_message env (''iot/'' @ en_site env @ ''/'' @ source @ ''/'' @ dev @ ''/'' @ ''state'') raw (healthy d, h) =
      handle_state env (en_site env) source dev raw (healthy d, h)"
    using data_message [OF assms(1-4), of env raw "(healthy d, h)"] by simp
  show ?thesis
  proof (cases "find_identity (en_site env) source dev d")
    case (Some v)
    with h up assms(5,6) show ?thesis by (simp add: handle_state_def Let_def)
  next
    case None
    show ?thesis
    proof (cases ?fits)
      case True
      with None h up assms(5,6) show ?thesis by (simp add: handle_state_def Let_def del: if_split)
    next
      case False
      with None h up assms(5,6) show ?thesis
        by (simp only: handle_state_def Let_def prod.case option.case sum.case if_False not_True_eq_False simp_thms)
    qed
  qed
qed

definition demo_env :: iot_env where
  "demo_env = \<lparr>en_site = ''main'', en_now = 5, en_json = Some, en_digest = id,
     en_state = (\<lambda>raw. Some \<lparr>sp_v = 1, sp_at = 1, sp_category = raw, sp_attrs = []\<rparr>),
     en_event = (\<lambda>_. None), en_ack = (\<lambda>_. None)\<rparr>"

lemma demo_env_simps:
  "en_site demo_env = ''main''" "en_now demo_env = 5" "en_json demo_env = Some"
  "en_state demo_env raw = Some \<lparr>sp_v = 1, sp_at = 1, sp_category = raw, sp_attrs = []\<rparr>"
  by (simp_all add: demo_env_def)

lemma state_report_path_witness:
  "io_devices (tables (fst (handle_message demo_env (''iot/'' @ ''main'' @ ''/'' @ ''gw'' @ ''/'' @ ''d1'' @ ''/'' @ ''state'')
     ''door'' (healthy iot_empty, new_hub)))) = [first_report 1 5 ''main'' ''gw'' ''d1'' ''door'' [] 1]"
proof -
  let ?p = "\<lparr>sp_v = 1, sp_at = 1, sp_category = ''door'', sp_attrs = []\<rparr>"
  have v: "validate_state ?p = None" by (simp add: validate_state_def demo_texts)
  have j: "stored_json (en_json demo_env) (sp_attrs ?p) = Some []" by (simp add: stored_json_def)
  have m: "en_site demo_env \<noteq> ''_meta''" "valid_segment (en_site demo_env)" by (simp_all add: demo_env_simps demo_texts)
  have f: "find_identity ''main'' ''gw'' ''d1'' iot_empty = None" by (simp add: find_identity_def iot_empty_def)
  from state_report_path [OF m(2,1) demo_texts(2,3) demo_env_simps(4) v j iot_empty_inv, of new_hub]
  show ?thesis
    by (simp add: demo_env_simps demo_texts f Let_def del: append_Cons append.simps) (simp add: iot_empty_def)
qed

text \<open>
  The offline message of a source carries no site, so the site gate does not apply to it: on a
  shared broker the will of another deployment's source takes this deployment's devices of the same
  source name offline.
\<close>

theorem offline_message_has_no_site:
  assumes "valid_segment source"
  shows "handle_message env (''iot/_meta/'' @ source @ ''/offline'') raw (healthy d, h) =
    (healthy (snd (source_offline_rows (en_now env) (en_site env) source d)),
     broadcast (frame ''source.offline'' (SourceData source (fst (source_offline_rows (en_now env) (en_site env) source d)))) h)"
proof -
  have m: "is_meta_topic (''iot/_meta/'' @ source @ ''/offline'')" by (simp add: is_meta_topic_def)
  have "parse_meta_topic (''iot/_meta/'' @ source @ ''/offline'') = Some (source, ''offline'')"
    using meta_topics [of "''iot/_meta/'' @ source @ ''/offline''" source "''offline''"] assms
    by (simp add: valid_segment_iff segment_char_def byte_between_def)
  with m show ?thesis
    by (simp add: handle_message_def handle_meta_def mark_source_offline_def)
qed

lemma offline_message_has_no_site_witness:
  "tables (fst (handle_message demo_env (''iot/_meta/'' @ ''gw'' @ ''/offline'') [] (healthy iot_empty, new_hub))) =
     snd (source_offline_rows 5 ''main'' ''gw'' iot_empty)"
  using offline_message_has_no_site [OF demo_texts(2), of demo_env "[]" iot_empty new_hub]
  by (simp add: demo_env_simps del: append_Cons append.simps)

end
