(* ===== verification/Iot_Handler.thy ===== *)
theory Iot_Handler
  imports Iot_Consumer
begin

text \<open>
  The REST side of the IoT registry (\<open>internal/iot/handler.go\<close>) and its configuration
  (\<open>config.go\<close>). A handler takes the raw path parameter, the decoded body (\<open>None\<close>: it did not
  decode), the connection and the hub, and returns the answer with both. The seam to the MQTT side,
  \<open>CommandPublisher\<close>, is the locale \<open>command_publisher\<close>; what the handlers guarantee is proved from
  its contract, and the MQTT publisher meets it. The last section composes handlers, messages and
  background loops into the runs of the registry.
\<close>

subsection \<open>Configuration\<close>

record iot_config =
  ic_mqtt_url :: string
  ic_username :: string
  ic_password :: string
  ic_site :: string
  ic_retention_days :: int
  ic_online_ttl :: int

definition iot_enabled :: "iot_config \<Rightarrow> bool" where
  "iot_enabled cfg \<longleftrightarrow> ic_mqtt_url cfg \<noteq> []"

definition env_or_default :: "(string \<Rightarrow> string) \<Rightarrow> string \<Rightarrow> string \<Rightarrow> string" where
  "env_or_default getenv key fallback = (let v = trim_space (getenv key) in if v \<noteq> [] then v else fallback)"

definition env_int_or_default :: "(string \<Rightarrow> string) \<Rightarrow> string \<Rightarrow> int \<Rightarrow> int" where
  "env_int_or_default getenv key fallback =
     (let v = trim_space (getenv key) in
      if v \<noteq> [] then (case atoi v of Some n \<Rightarrow> if n > 0 then n else fallback | None \<Rightarrow> fallback) else fallback)"

text \<open>Durations are nanoseconds in 64 bits; the product wraps.\<close>

definition env_seconds_or_default :: "(string \<Rightarrow> string) \<Rightarrow> string \<Rightarrow> int \<Rightarrow> int" where
  "env_seconds_or_default getenv key fallback =
     (let v = trim_space (getenv key) in
      if v \<noteq> [] then (case atoi v of Some n \<Rightarrow> if n > 0 then wrap64 (n * 1000000000) else fallback | None \<Rightarrow> fallback)
      else fallback)"

definition config_from_env :: "(string \<Rightarrow> string) \<Rightarrow> iot_config" where
  "config_from_env getenv =
     \<lparr>ic_mqtt_url = trim_space (getenv ''IOT_MQTT_URL''), ic_username = getenv ''IOT_MQTT_USERNAME'',
      ic_password = getenv ''IOT_MQTT_PASSWORD'', ic_site = env_or_default getenv ''IOT_SITE_ID'' ''main'',
      ic_retention_days = env_int_or_default getenv ''IOT_EVENT_RETENTION_DAYS'' 90,
      ic_online_ttl = env_seconds_or_default getenv ''IOT_ONLINE_TTL_SECONDS'' (900 * 1000000000)\<rparr>"

text \<open>\<open>int(onlineTTL.Seconds())\<close> of a duration of whole seconds.\<close>

definition ttl_seconds :: "int \<Rightarrow> int" where
  "ttl_seconds d = (if d < 0 then - ((- d) div 1000000000) else d div 1000000000)"

subsection \<open>Handlers\<close>

text \<open>\<open>parseID\<close>: a positive 64-bit number.\<close>

definition parse_id :: "string \<Rightarrow> int option" where
  "parse_id path = (case atoi path of None \<Rightarrow> None | Some i \<Rightarrow> if i \<le> 0 then None else Some i)"

definition display_name :: "device \<Rightarrow> string" where
  "display_name v = (if dv_name v \<noteq> [] then dv_name v else dv_external v)"

text \<open>\<open>isJSONObject\<close> of the handler: an absent payload is fine.\<close>

definition is_json_object_or_empty :: "string \<Rightarrow> bool" where
  "is_json_object_or_empty b = (if length b = 0 then True else unmarshals_to_map b)"

definition listDevices_h ::
  "(char \<Rightarrow> char \<Rightarrow> bool) \<Rightarrow> (string \<Rightarrow> string) \<Rightarrow> iot_db conn \<Rightarrow> (device list \<times> int \<times> page_params) response \<times> iot_db conn" where
  "listDevices_h eq q c =
     (let st = trim_space (q ''status''); raw = trim_space (q ''classroom_id'');
          f = \<lparr>df_status = [], df_source = trim_space (q ''source''), df_category = trim_space (q ''category''), df_classroom = 0\<rparr>
      in if st \<noteq> [] \<and> st \<notin> set device_statuses then (RespError 400 ''invalid status filter'', c)
         else
           let f = f\<lparr>df_status := st\<rparr> in
           if raw \<noteq> [] \<and> parse_id raw = None then (RespError 400 ''invalid classroom_id filter'', c)
           else
             let f = (if raw \<noteq> [] then f\<lparr>df_classroom := the (parse_id raw)\<rparr> else f);
                 p = parse_page_params q;
                 pg = \<lparr>pg_limit = pp_page_size p, pg_offset = page_offset p\<rparr>
             in (case page_devices eq f (parse_search q) pg c of
                  (Inl _, c') \<Rightarrow> (RespError 500 ''could not list devices'', c')
                | (Inr (vs, n), c') \<Rightarrow> (RespJSON 200 (vs, n, p), c')))"

definition approve_h ::
  "iot_config \<Rightarrow> int \<Rightarrow> string \<Rightarrow> approve_input option \<Rightarrow> iot_system \<Rightarrow> device response \<times> iot_system" where
  "approve_h cfg now path body s = (case s of (c, h) \<Rightarrow>
     (case parse_id path of
       None \<Rightarrow> (RespError 400 ''invalid device id'', (c, h))
     | Some i \<Rightarrow> (case body of
         None \<Rightarrow> (RespError 400 ''invalid request body'', (c, h))
       | Some inp \<Rightarrow>
         let inp = inp\<lparr>ai_name := trim_space (ai_name inp), ai_category := trim_space (ai_category inp)\<rparr> in
         if ai_name inp = [] \<or> length (ai_name inp) > 128
         then (RespError 400 ''name is required (max 128 chars)'', (c, h))
         else if ai_classroom inp \<le> 0 then (RespError 400 ''classroomId is required'', (c, h))
         else if length (ai_category inp) > 32 then (RespError 400 ''category too long (max 32 chars)'', (c, h))
         else (case approve_device now i inp (ttl_seconds (ic_online_ttl cfg)) c of
             (Inl IotNotFound, c') \<Rightarrow> (RespError 404 ''device not found'', (c', h))
           | (Inl _, c') \<Rightarrow> (RespError 500 ''could not approve device'', (c', h))
           | (Inr v, c') \<Rightarrow> (RespJSON 200 v, (c', broadcast (frame ''device.updated'' (DeviceWire (device_wire v))) h))))))"

definition getDevice_h :: "string \<Rightarrow> iot_db conn \<Rightarrow> device response \<times> iot_db conn" where
  "getDevice_h path c = (case parse_id path of
     None \<Rightarrow> (RespError 400 ''invalid device id'', c)
   | Some i \<Rightarrow> (case get_device i c of
       (Inl IotNotFound, c') \<Rightarrow> (RespError 404 ''device not found'', c')
     | (Inl _, c') \<Rightarrow> (RespError 500 ''could not load device'', c')
     | (Inr v, c') \<Rightarrow> (RespJSON 200 v, c')))"

text \<open>The checks of the partial update, with the trimmed fields.\<close>

definition check_update :: "device_update \<Rightarrow> device_update \<times> string option" where
  "check_update inp =
     (let inp = inp\<lparr>du_name := map_option trim_space (du_name inp)\<rparr> in
      if (\<exists>n. du_name inp = Some n \<and> (n = [] \<or> length n > 128)) then (inp, Some ''name must be 1-128 chars'')
      else let inp = inp\<lparr>du_category := map_option trim_space (du_category inp)\<rparr> in
        if (\<exists>k. du_category inp = Some k \<and> (k = [] \<or> length k > 32)) then (inp, Some ''category must be 1-32 chars'')
        else if (\<exists>r. du_classroom inp = Some r \<and> r < 0) then (inp, Some ''classroomId must be >= 0'')
        else if du_name inp = None \<and> du_category inp = None \<and> du_classroom inp = None
        then (inp, Some ''nothing to update'')
        else (inp, None))"

definition updateDevice_h ::
  "int \<Rightarrow> string \<Rightarrow> device_update option \<Rightarrow> iot_system \<Rightarrow> device response \<times> iot_system" where
  "updateDevice_h now path body s = (case s of (c, h) \<Rightarrow>
     (case parse_id path of
       None \<Rightarrow> (RespError 400 ''invalid device id'', (c, h))
     | Some i \<Rightarrow> (case body of
         None \<Rightarrow> (RespError 400 ''invalid request body'', (c, h))
       | Some raw \<Rightarrow> (case check_update raw of
           (_, Some msg) \<Rightarrow> (RespError 400 msg, (c, h))
         | (inp, None) \<Rightarrow> (case update_device now i inp c of
             (Inl IotNotFound, c') \<Rightarrow> (RespError 404 ''device not found'', (c', h))
           | (Inl _, c') \<Rightarrow> (RespError 500 ''could not update device'', (c', h))
           | (Inr v, c') \<Rightarrow> (RespJSON 200 v, (c', broadcast (frame ''device.updated'' (DeviceWire (device_wire v))) h)))))))"

definition deleteDevice_h :: "string \<Rightarrow> iot_db conn \<Rightarrow> unit response \<times> iot_db conn" where
  "deleteDevice_h path c = (case parse_id path of
     None \<Rightarrow> (RespError 400 ''invalid device id'', c)
   | Some i \<Rightarrow> (case get_device i c of
       (Inl IotNotFound, c') \<Rightarrow> (RespError 404 ''device not found'', c')
     | (Inl _, c') \<Rightarrow> (RespError 500 ''could not load device'', c')
     | (Inr v, c') \<Rightarrow> (case delete_device i c' of
           (Inl IotNotFound, c2) \<Rightarrow> (RespError 404 ''device not found'', c2)
         | (Inl _, c2) \<Rightarrow> (RespError 500 ''could not delete device'', c2)
         | (Inr _, c2) \<Rightarrow> (RespJSON 204 (), c2))))"

definition listEvents_h ::
  "string \<Rightarrow> (string \<Rightarrow> string) \<Rightarrow> iot_db conn \<Rightarrow> (device_event list \<times> int \<times> page_params) response \<times> iot_db conn" where
  "listEvents_h path q c = (case parse_id path of
     None \<Rightarrow> (RespError 400 ''invalid device id'', c)
   | Some i \<Rightarrow> (case get_device i c of
       (Inl IotNotFound, c') \<Rightarrow> (RespError 404 ''device not found'', c')
     | (Inl _, c') \<Rightarrow> (RespError 500 ''could not load device'', c')
     | (Inr _, c') \<Rightarrow>
       (let p = parse_page_params q; pg = \<lparr>pg_limit = pp_page_size p, pg_offset = page_offset p\<rparr>
        in case page_events i pg c' of
             (Inl _, c2) \<Rightarrow> (RespError 500 ''could not list events'', c2)
           | (Inr (es, n), c2) \<Rightarrow> (RespJSON 200 (es, n, p), c2))))"

definition listCommands_h ::
  "(string \<Rightarrow> string) \<Rightarrow> iot_db conn \<Rightarrow> (device_command list \<times> int \<times> page_params) response \<times> iot_db conn" where
  "listCommands_h q c =
     (let st = trim_space (q ''status''); raw = trim_space (q ''device_id'') in
      if st \<noteq> [] \<and> st \<notin> set command_statuses then (RespError 400 ''invalid status filter'', c)
      else if raw \<noteq> [] \<and> parse_id raw = None then (RespError 400 ''invalid device_id filter'', c)
      else
        let f = \<lparr>cf_cmd_status = st, cf_device = (if raw \<noteq> [] then the (parse_id raw) else 0)\<rparr>;
            p = parse_page_params q; pg = \<lparr>pg_limit = pp_page_size p, pg_offset = page_offset p\<rparr>
        in (case page_commands f pg c of
              (Inl _, c') \<Rightarrow> (RespError 500 ''could not list commands'', c')
            | (Inr (cs, n), c') \<Rightarrow> (RespJSON 200 (cs, n, p), c')))"

text \<open>
  \<open>publish\<close> is \<open>PublishCommand\<close> of the wired publisher (\<open>None\<close>: none is wired), which tells whether
  it returned without an error; \<open>k\<close> is the command identifier that will be drawn.
\<close>

definition createCommand_h ::
  "(int \<Rightarrow> device \<Rightarrow> device_command \<Rightarrow> iot_db conn \<Rightarrow> bool \<times> iot_db conn) option \<Rightarrow> string list \<Rightarrow>
   (string \<Rightarrow> string option) \<Rightarrow> int \<Rightarrow> string \<Rightarrow> string \<Rightarrow> command_input option \<Rightarrow> subject option \<Rightarrow>
   iot_system \<Rightarrow> device_command response \<times> iot_system" where
  "createCommand_h publish known pg_json now k path body sub s = (case s of (c, h) \<Rightarrow>
     (case parse_id path of
       None \<Rightarrow> (RespError 400 ''invalid device id'', (c, h))
     | Some i \<Rightarrow> (case publish of
         None \<Rightarrow> (RespError 503 ''iot messaging is not configured'', (c, h))
       | Some pub \<Rightarrow> (case body of
           None \<Rightarrow> (RespError 400 ''invalid request body'', (c, h))
         | Some inp \<Rightarrow>
           if \<not> known_command_type known (cin_type inp) then (RespError 400 ''unknown command type'', (c, h))
           else if length (cin_payload inp) > 0 \<and> \<not> is_json_object_or_empty (cin_payload inp)
           then (RespError 400 ''payload must be a JSON object'', (c, h))
           else (case get_device i c of
               (Inl IotNotFound, c') \<Rightarrow> (RespError 404 ''device not found'', (c', h))
             | (Inl _, c') \<Rightarrow> (RespError 500 ''could not load device'', (c', h))
             | (Inr v, c') \<Rightarrow>
               if dv_status v = ''pending'' then (RespError 409 ''device is pending approval'', (c', h))
               else (case sub of
                   None \<Rightarrow> (RespError 401 ''not authenticated'', (c', h))
                 | Some sj \<Rightarrow>
                   (case create_command pg_json now k (dv_id v) (cin_type inp) (cin_payload inp) (sj_username sj)
                        (clamp_command_ttl (cin_expires inp)) c' of
                      (Inl _, c2) \<Rightarrow> (RespError 500 ''could not create command'', (c2, h))
                    | (Inr cmd, c2) \<Rightarrow> (case pub now v cmd c2 of
                        (False, c3) \<Rightarrow> (RespError 500 ''could not publish command'',
                            (snd (fail_command now (dc_command_id cmd) ''publish failed'' c3), h))
                      | (True, c3) \<Rightarrow> (case get_command (dc_command_id cmd) c3 of
                          (Inl _, c4) \<Rightarrow> (RespError 500 ''could not record command delivery'', (c4, h))
                        | (Inr cmd', c4) \<Rightarrow> (RespJSON 201 cmd', (c4,
                            broadcast (frame ''command.updated'' (CommandData (dc_command_id cmd') (dc_status cmd'))) h)))))))))))"

definition iot_routes :: "(string \<times> string list) list" where
  "iot_routes = [
     (''GET /api/iot/devices'', [''iot:read'']),
     (''POST /api/iot/devices/{id}/approve'', [''iot:manage'']),
     (''GET /api/iot/devices/{id}'', [''iot:read'']),
     (''PATCH /api/iot/devices/{id}'', [''iot:manage'']),
     (''DELETE /api/iot/devices/{id}'', [''iot:manage'']),
     (''GET /api/iot/devices/{id}/events'', [''iot:read'']),
     (''POST /api/iot/devices/{id}/commands'', [''iot:control'']),
     (''GET /api/iot/commands'', [''iot:manage'']),
     (''GET /api/iot/stream'', [''iot:read''])]"

subsection \<open>What the handlers write\<close>

definition reaches ::
  "(string \<Rightarrow> string option) \<Rightarrow> (iot_write \<Rightarrow> bool) \<Rightarrow> iot_db conn \<Rightarrow> iot_db conn \<Rightarrow> bool" where
  "reaches pj P c c' \<longleftrightarrow> (\<exists>ws. list_all P ws \<and> tables c' = run_writes pj ws (tables c))"

definition unprivileged :: "iot_write \<Rightarrow> bool" where
  "unprivileged w \<longleftrightarrow> regular w \<and> \<not> approves w"

lemma reaches_refl [simp]: "reaches pj P c c"
  unfolding reaches_def by (rule run_none)

lemma reaches_trans: "reaches pj P a b \<Longrightarrow> reaches pj P b c \<Longrightarrow> reaches pj P a c"
  unfolding reaches_def by (rule run_compose)

lemma reaches_action: "writes pj P m \<Longrightarrow> m c = (r, c') \<Longrightarrow> reaches pj P c c'"
  unfolding reaches_def by (rule writesD)

lemma reaches_snd: "writes pj P m \<Longrightarrow> reaches pj P c (snd (m c))"
  by (rule reaches_action [OF _ prod.collapse [symmetric]])

lemma reaches_then: "reaches pj P a b \<Longrightarrow> writes pj P m \<Longrightarrow> m b = (r, c) \<Longrightarrow> reaches pj P a c"
  using reaches_trans reaches_action by metis

lemma reaches_mono: "reaches pj P c c' \<Longrightarrow> (\<And>w. P w \<Longrightarrow> Q w) \<Longrightarrow> reaches pj Q c c'"
  unfolding reaches_def list_all_iff by meson

lemma approve_h_writes: "reaches pj regular c (fst (snd (approve_h cfg now path body (c, h))))"
proof -
  have "writes pj regular (approve_device now i inp ttl)" for i inp ttl by (intro writes_intros; simp)
  then have a: "approve_device now i inp ttl c = (r, c') \<Longrightarrow> reaches pj regular c c'" for i inp ttl r c'
    by (rule reaches_action)
  show ?thesis
    by (auto simp: approve_h_def Let_def split: option.split sum.split prod.split iot_error.split intro: a)
qed

lemma updateDevice_h_writes: "reaches pj unprivileged c (fst (snd (updateDevice_h now path body (c, h))))"
proof -
  have "writes pj unprivileged (update_device now i inp)" for i inp by (intro writes_intros; simp add: unprivileged_def)
  then have a: "update_device now i inp c = (r, c') \<Longrightarrow> reaches pj unprivileged c c'" for i inp r c'
    by (rule reaches_action)
  show ?thesis
    by (auto simp: updateDevice_h_def split: option.split sum.split prod.split iot_error.split intro: a)
qed

lemma deleteDevice_h_writes: "reaches pj unprivileged c (snd (deleteDevice_h path c))"
proof -
  have d: "writes pj unprivileged (delete_device i)" for i by (intro writes_intros; simp add: unprivileged_def)
  have g: "writes pj unprivileged (get_device i)" for i by (intro writes_intros)
  have "get_device i c = (r, c') \<Longrightarrow> reaches pj unprivileged c c'"
    "get_device i c = (r, c1) \<Longrightarrow> delete_device i c1 = (r2, c2) \<Longrightarrow> reaches pj unprivileged c c2" for i r r2 c' c1 c2
    using reaches_action [OF g] reaches_action [OF d] reaches_trans by metis+
  then show ?thesis
    by (auto simp: deleteDevice_h_def split: option.split sum.split prod.split iot_error.split)
qed

text \<open>
  The contract of \<open>CommandPublisher\<close>: publishing performs no writes but regular transitions, and
  a publication that is reported as failed has written nothing.
\<close>

locale command_publisher =
  fixes publish :: "int \<Rightarrow> device \<Rightarrow> device_command \<Rightarrow> iot_db conn \<Rightarrow> bool \<times> iot_db conn"
    and pj :: "string \<Rightarrow> string option"
  assumes publish_writes: "reaches pj unprivileged c (snd (publish now v cmd c))"
    and publish_silent: "publish now v cmd c = (False, c') \<Longrightarrow> c' = c"
begin

lemma createCommand_writes:
  "reaches pj unprivileged c (fst (snd (createCommand_h (Some publish) known pj now k path body sub (c, h))))"
proof (cases "\<exists>i inp v sj. parse_id path = Some i \<and> body = Some inp \<and> known_command_type known (cin_type inp) \<and>
    is_json_object_or_empty (cin_payload inp) \<and> (\<exists>c1. get_device i c = (Inr v, c1)) \<and> dv_status v \<noteq> ''pending'' \<and> sub = Some sj")
  case False
  have g: "get_device i c = (r, c') \<Longrightarrow> reaches pj unprivileged c c'" for i r c'
    by (rule reaches_action [OF writes_reads(1)])
  from False show ?thesis
    by (auto simp: createCommand_h_def is_json_object_or_empty_def split: option.split sum.split prod.split iot_error.split
        intro: g)
next
  case True
  then obtain i inp v sj c1 where r: "parse_id path = Some i" "body = Some inp" "known_command_type known (cin_type inp)"
    "is_json_object_or_empty (cin_payload inp)" "get_device i c = (Inr v, c1)" "dv_status v \<noteq> ''pending''" "sub = Some sj"
    by blast
  have w: "writes pj unprivileged (create_command pj now k (dv_id v) (cin_type inp) (cin_payload inp) (sj_username sj)
      (clamp_command_ttl (cin_expires inp)))"
    "writes pj unprivileged (fail_command now m ''publish failed'')" for m
    by (intro writes_intros; simp add: unprivileged_def)+
  have 1: "reaches pj unprivileged c c1" by (rule reaches_action [OF writes_reads(1) r(5)])
  obtain cr c2 where 2: "create_command pj now k (dv_id v) (cin_type inp) (cin_payload inp) (sj_username sj)
      (clamp_command_ttl (cin_expires inp)) c1 = (cr, c2)" by fastforce
  have 12: "reaches pj unprivileged c c2" by (rule reaches_then [OF 1 w(1) 2])
  show ?thesis
  proof (cases cr)
    case (Inl e)
    with r 2 12 show ?thesis by (simp add: createCommand_h_def)
  next
    case (Inr cmd)
    obtain ok c3 where 3: "publish now v cmd c2 = (ok, c3)" by fastforce
    have 13: "reaches pj unprivileged c c3" using reaches_trans [OF 12] publish_writes [of c2 now v cmd] 3 by simp
    obtain fr c4 where 4: "fail_command now (dc_command_id cmd) ''publish failed'' c3 = (fr, c4)" by fastforce
    have 14: "reaches pj unprivileged c c4" by (rule reaches_then [OF 13 w(2) 4])
    obtain gr c5 where 5: "get_command (dc_command_id cmd) c3 = (gr, c5)" by fastforce
    have 15: "reaches pj unprivileged c c5" by (rule reaches_then [OF 13 writes_reads(3) 5])
    from r 2 3 4 5 Inr 14 15 show ?thesis by (cases ok; cases gr) (simp_all add: createCommand_h_def)
  qed
qed

end

text \<open>The MQTT publisher meets the contract.\<close>

lemma mqtt_publisher_contract: "command_publisher (publish_command pb) pj"
proof
  show "reaches pj unprivileged c (snd (publish_command pb now v cmd c))" for c now v cmd
    using publish_command_writes [of pb now v cmd c pj] unfolding reaches_def unprivileged_def .
  show "publish_command pb now v cmd c = (False, c') \<Longrightarrow> c' = c" for now v cmd c c'
    by (rule publish_refused)
qed

interpretation mqtt: command_publisher "publish_command pb" pj for pb pj
  by (rule mqtt_publisher_contract)

lemma createCommand_h_writes:
  "reaches pj unprivileged c (fst (snd (createCommand_h (map_option publish_command pb) known pj now k path body sub (c, h))))"
proof (cases pb)
  case None
  then show ?thesis by (auto simp: createCommand_h_def split: option.split)
next
  case (Some p)
  then show ?thesis using mqtt.createCommand_writes by simp
qed

subsection \<open>Runs of the registry\<close>

text \<open>
  One step of the running system: a request, a broker message or a pass of a background loop, each
  from start to end under any failures, or one write of such an activity that runs beside others.
  The flag marks the activities that approve devices.
\<close>

inductive iot_activity :: "(string \<Rightarrow> string option) \<Rightarrow> bool \<Rightarrow> iot_db \<Rightarrow> iot_db \<Rightarrow> bool" for pj where
  approve: "iot_activity pj True (tables c) (tables (fst (snd (approve_h cfg now path body (c, h)))))"
| update: "iot_activity pj False (tables c) (tables (fst (snd (updateDevice_h now path upd (c, h)))))"
| delete: "iot_activity pj False (tables c) (tables (snd (deleteDevice_h path c)))"
| command: "iot_activity pj False (tables c)
    (tables (fst (snd (createCommand_h (map_option publish_command pb) known pj now k path inp sub (c, h)))))"
| message: "en_json env = pj \<Longrightarrow> iot_activity pj False (tables c) (tables (fst (handle_message env topic raw (c, h))))"
| presence: "iot_activity pj False (tables c) (tables (snd (presence_pass now ttl c)))"
| retention: "iot_activity pj False (tables c) (tables (snd (retention_pass now days c)))"
| concurrent: "regular w \<Longrightarrow> iot_activity pj (approves w) d (apply_write pj w d)"

lemma activity_writes:
  "iot_activity pj a d d' \<Longrightarrow> \<exists>ws. list_all (\<lambda>w. regular w \<and> (approves w \<longrightarrow> a)) ws \<and> d' = run_writes pj ws d"
proof (induction rule: iot_activity.induct)
  case (approve c cfg now path body h)
  from approve_h_writes [of pj c cfg now path body h] show ?case by (simp add: reaches_def)
next
  case (update c now path upd h)
  from updateDevice_h_writes [of pj c now path upd h] show ?case by (simp add: reaches_def unprivileged_def [abs_def])
next
  case (delete c path)
  from deleteDevice_h_writes [of pj c path] show ?case by (simp add: reaches_def unprivileged_def [abs_def])
next
  case (command c pb known now k path inp sub h)
  from createCommand_h_writes [of pj c pb known now k path inp sub h] show ?case
    by (simp add: reaches_def unprivileged_def [abs_def])
next
  case (message env c topic raw h)
  from handle_message_writes [of env topic raw c h] message from_device_regular show ?case
    by (auto simp: list_all_iff)
next
  case (presence c now ttl)
  have "writes pj unprivileged (presence_pass now ttl)" by (intro writes_intros; simp add: unprivileged_def)
  from reaches_snd [OF this] show ?case by (simp add: reaches_def unprivileged_def [abs_def])
next
  case (retention c now days)
  have "writes pj unprivileged (retention_pass now days)" by (intro writes_intros; simp add: unprivileged_def)
  from reaches_snd [OF this] show ?case by (simp add: reaches_def unprivileged_def [abs_def])
next
  case (concurrent w d)
  then show ?case by (intro exI [of _ "[w]"]) simp
qed

lemma activities_writes:
  assumes "(\<lambda>d d'. \<exists>a. P a \<and> iot_activity pj a d d')\<^sup>*\<^sup>* d d'"
  shows "\<exists>ws. list_all (\<lambda>w. regular w \<and> (approves w \<longrightarrow> P True)) ws \<and> d' = run_writes pj ws d"
  using assms
proof (induction rule: rtranclp_induct)
  case base
  show ?case by (rule run_none)
next
  case (step x y)
  then obtain a where a: "P a" "iot_activity pj a x y" by blast
  from activity_writes [OF a(2)] obtain ws
    where ws: "list_all (\<lambda>w. regular w \<and> (approves w \<longrightarrow> a)) ws" "y = run_writes pj ws x" by blast
  have "list_all (\<lambda>w. regular w \<and> (approves w \<longrightarrow> P True)) ws"
    using ws(1) a(1) by (cases a) (auto simp: list_all_iff)
  with ws(2) step.IH show ?case by (meson run_compose)
qed

text \<open>
  C37: the registry under every interleaving of requests, messages and loops with any database
  failures. Device numbers and identities, event keys and command identifiers stay unique and every
  status within its vocabulary; a command only moves forward (queued, delivered, one final outcome)
  and a settled one never changes again; a device that was approved never waits for approval again.
\<close>

theorem registry_runs:
  assumes "(\<lambda>d d'. \<exists>a. iot_activity pj a d d')\<^sup>*\<^sup>* d d'" and "iot_inv d"
  shows "iot_inv d' \<and>
    (\<forall>c \<in> set (io_commands d). \<forall>c' \<in> set (io_commands d'). dc_id c' = dc_id c \<longrightarrow> command_evolves c c') \<and>
    (\<forall>v \<in> set (io_devices d). \<forall>v' \<in> set (io_devices d'). dv_id v' = dv_id v \<longrightarrow>
       dv_status v \<noteq> ''pending'' \<longrightarrow> dv_status v' \<noteq> ''pending'')"
proof -
  from assms(1) have "(\<lambda>d d'. \<exists>a. True \<and> iot_activity pj a d d')\<^sup>*\<^sup>* d d'" by simp
  from activities_writes [OF this] obtain ws where ws: "list_all regular ws" "d' = run_writes pj ws d"
    by (auto simp: list_all_iff)
  have "iot_inv d'" unfolding ws(2) by (rule iot_inv_run [OF ws(1) assms(2)])
  moreover have "command_evolves c c'"
    if "c \<in> set (io_commands d)" "c' \<in> set (io_commands d')" "dc_id c' = dc_id c" for c c'
    using tracked_run [OF ws(1) tracked_init [OF assms(2) that(1)], of pj] that(2,3) unfolding ws(2) tracked_def by blast
  moreover have "dv_status v' \<noteq> ''pending''"
    if "v \<in> set (io_devices d)" "v' \<in> set (io_devices d')" "dv_id v' = dv_id v" "dv_status v \<noteq> ''pending''" for v v'
    using row_status_init [OF assms(2) that(1)] that(2-4) claimed_run [of "dv_id v" d pj ws]
    unfolding ws(2) claimed_def by auto
  ultimately show ?thesis by blast
qed

text \<open>
  C22: approval is the only way out of the claim queue. As long as no approval runs, a device that
  waits stays waiting, however much it reports and whatever else happens.
\<close>

theorem waiting_until_approved:
  assumes "(iot_activity pj False)\<^sup>*\<^sup>* d d'" and "iot_inv d"
    and "v \<in> set (io_devices d)" and "dv_status v = ''pending''" and "v' \<in> set (io_devices d')" and "dv_id v' = dv_id v"
  shows "dv_status v' = ''pending''"
proof -
  have "(\<lambda>d d'. \<exists>a. \<not> a \<and> iot_activity pj a d d') = iot_activity pj False" by (intro ext) auto
  with assms(1) have "(\<lambda>d d'. \<exists>a. \<not> a \<and> iot_activity pj a d d')\<^sup>*\<^sup>* d d'" by simp
  from activities_writes [OF this] obtain ws where ws: "list_all (\<lambda>w. \<not> approves w) ws" "d' = run_writes pj ws d"
    by (auto simp: list_all_iff)
  have "waiting (dv_id v) d'"
    unfolding ws(2) using row_status_init [OF assms(2,3)] assms(4) by (intro waiting_run [OF ws(1)]) simp
  with assms(5,6) show ?thesis by (simp add: waiting_def)
qed

subsection \<open>Issuing a command\<close>

definition queued_command ::
  "iot_db \<Rightarrow> int \<Rightarrow> string \<Rightarrow> int \<Rightarrow> string \<Rightarrow> string \<Rightarrow> string \<Rightarrow> int \<Rightarrow> device_command" where
  "queued_command d now k dev ty payload by ttl =
     \<lparr>dc_id = io_next_command d, dc_command_id = k, dc_device = dev, dc_type = ty, dc_payload = payload,
      dc_status = ''queued'', dc_detail = [], dc_issued_by = by, dc_created = now, dc_updated = now,
      dc_expires = now + ttl div 1000000\<rparr>"

definition with_command :: "device_command \<Rightarrow> iot_db \<Rightarrow> iot_db" where
  "with_command cmd d = d\<lparr>io_commands := io_commands d @ [cmd], io_next_command := io_next_command d + 1\<rparr>"

text \<open>The broker takes the frame of a command on its device's topic.\<close>

definition accepted :: "publisher \<Rightarrow> device \<Rightarrow> device_command \<Rightarrow> bool" where
  "accepted pb v cmd \<longleftrightarrow> pb_connected pb \<and>
     (case pb_encode pb (command_frame_of cmd) of None \<Rightarrow> False
      | Some b \<Rightarrow> pb_broker pb (command_topic (dv_site v) (dv_source v) (dv_external v)) b)"

lemma publish_command_accepted:
  "publish_command pb now v cmd c =
     (if accepted pb v cmd then (True, snd (mark_command_published now (dc_command_id cmd) c)) else (False, c))"
  by (simp add: publish_command_def accepted_def split: option.split)

lemma find_with_command:
  "find_command (dc_command_id cmd) d = None \<Longrightarrow> find_command (dc_command_id cmd) (with_command cmd d) = Some cmd"
  unfolding find_command_def with_command_def by (simp add: find_append_new)

lemma transition_with_command:
  assumes "find_command (dc_command_id cmd) d = None" and "CHR 0x00 \<notin> set (dc_command_id cmd)"
    and "dc_status cmd \<in> set fs" and "pg_text 16 to" and "pg_text 255 det"
  shows "transition_row now (dc_command_id cmd) fs to det (with_command cmd d) =
    (Some 1, with_command (cmd\<lparr>dc_status := to, dc_detail := det, dc_updated := now\<rparr>) d)"
proof -
  have other: "dc_command_id c \<noteq> dc_command_id cmd" if "c \<in> set (io_commands d)" for c
    using assms(1) that unfolding find_command_None by (metis imageI)
  have "filter (\<lambda>c. dc_command_id c = dc_command_id cmd \<and> dc_status c \<in> set fs) (io_commands d) = []"
    using other by (auto simp: filter_empty_conv)
  moreover have "map (\<lambda>c. if dc_command_id c = dc_command_id cmd \<and> dc_status c \<in> set fs
      then c\<lparr>dc_status := to, dc_detail := det, dc_updated := now\<rparr> else c) (io_commands d) = io_commands d"
    by (rule map_idI) (use other in auto)
  ultimately show ?thesis using assms(2-5) by (simp add: transition_row_def with_command_def Let_def)
qed

lemma pg_text_literals: "pg_text 16 ''delivered''" "pg_text 16 ''failed''" "pg_text 255 ''publish failed''" "pg_text n []"
  by (simp_all add: pg_text_def rune_count_ascii)

lemma createCommand_healthy:
  assumes "iot_inv d" and "parse_id path = Some i" and "find_device i d = Some v"
    and "known_command_type known (cin_type inp)" and "is_json_object_or_empty (cin_payload inp)"
    and "pg_text 32 k" and "pg_text 64 (cin_type inp)" and "pg_text 64 (sj_username sj)"
    and "stored_json pj (cin_payload inp) = Some p" and "find_command k d = None"
  shows "createCommand_h (Some (publish_command pb)) known pj now k path (Some inp) (Some sj) (healthy d, h) =
    (if dv_status v = ''pending'' then (RespError 409 ''device is pending approval'', (healthy d, h))
     else let cmd = queued_command d now k (dv_id v) (cin_type inp) p (sj_username sj) (clamp_command_ttl (cin_expires inp));
              done' = cmd\<lparr>dc_status := ''delivered'', dc_detail := [], dc_updated := now\<rparr>
          in if accepted pb v cmd
             then (RespJSON 201 done', (healthy (with_command done' d),
                broadcast (frame ''command.updated'' (CommandData k ''delivered'')) h))
             else (RespError 500 ''could not publish command'',
                (healthy (with_command (cmd\<lparr>dc_status := ''failed'', dc_detail := ''publish failed'', dc_updated := now\<rparr>) d), h)))"
proof (cases "dv_status v = ''pending''")
  case True
  with assms show ?thesis by (simp add: createCommand_h_def get_device_def)
next
  case False
  let ?cmd = "queued_command d now k (dv_id v) (cin_type inp) p (sj_username sj) (clamp_command_ttl (cin_expires inp))"
  let ?ok = "accepted pb v ?cmd"
  let ?done = "?cmd\<lparr>dc_status := ''delivered'', dc_detail := [], dc_updated := now\<rparr>"
  let ?fail = "?cmd\<lparr>dc_status := ''failed'', dc_detail := ''publish failed'', dc_updated := now\<rparr>"
  have k: "dc_command_id ?cmd = k" "dc_command_id ?done = k" "dc_status ?cmd = ''queued''" by (simp_all add: queued_command_def)
  have nul: "CHR 0x00 \<notin> set (dc_command_id ?cmd)" using assms(6) by (simp add: k pg_text_def)
  have new: "find_command (dc_command_id ?cmd) d = None" "find_command (dc_command_id ?done) d = None"
    using assms(10) by (simp_all add: k)
  have ins: "insert_command_row pj now k (dv_id v) (cin_type inp) (cin_payload inp) (sj_username sj)
      (now + clamp_command_ttl (cin_expires inp) div 1000000) d = (Done (), with_command ?cmd d)"
    using assms(6-10) by (simp add: insert_command_row_def with_command_def queued_command_def)
  have create: "create_command pj now k (dv_id v) (cin_type inp) (cin_payload inp) (sj_username sj)
      (clamp_command_ttl (cin_expires inp)) (healthy d) = (Inr ?cmd, healthy (with_command ?cmd d))"
    using find_with_command [OF new(1)] by (simp add: create_command_def ins get_command_def k)
  have mark: "mark_command_published now k (healthy (with_command ?cmd d)) = (Inr True, healthy (with_command ?done d))"
    using transition_with_command [OF new(1) nul, of "[''queued'']" "''delivered''" "[]" now]
    by (simp add: k pg_text_literals mark_command_published_def transition_command_def)
  have fail: "snd (fail_command now k ''publish failed'' (healthy (with_command ?cmd d))) = healthy (with_command ?fail d)"
    using transition_with_command [OF new(1) nul, of "[''queued'', ''delivered'']" "''failed''" "''publish failed''" now]
    by (simp add: k pg_text_literals fail_command_def transition_command_def)
  have pub: "publish_command pb now v ?cmd (healthy (with_command ?cmd d)) =
      (if ?ok then (True, healthy (with_command ?done d)) else (False, healthy (with_command ?cmd d)))"
    by (simp add: publish_command_accepted k mark)
  have get: "get_command k (healthy (with_command ?done d)) = (Inr ?done, healthy (with_command ?done d))"
    using find_with_command [OF new(2)] by (simp add: get_command_def k)
  have gd: "get_device i (healthy d) = (Inr v, healthy d)" using assms(3) by (simp add: get_device_def)
  show ?thesis
  proof (cases ?ok)
    case True
    then have "createCommand_h (Some (publish_command pb)) known pj now k path (Some inp) (Some sj) (healthy d, h) =
        (RespJSON 201 ?done, (healthy (with_command ?done d), broadcast (frame ''command.updated'' (CommandData k ''delivered'')) h))"
      using assms(2,4,5) False gd create pub get by (simp add: createCommand_h_def k)
    with True False show ?thesis by (simp add: Let_def)
  next
    case nok: False
    then have "createCommand_h (Some (publish_command pb)) known pj now k path (Some inp) (Some sj) (healthy d, h) =
        (RespError 500 ''could not publish command'', (healthy (with_command ?fail d), h))"
      using assms(2,4,5) False gd create pub fail by (simp add: createCommand_h_def k)
    with nok False show ?thesis by (simp add: Let_def)
  qed
qed

text \<open>
  Issuing a command, case by case, for a known type and a well-formed body. A device that waits
  for approval gets none. Otherwise exactly one command row is added for the device and the caller:
  when the broker accepts the frame on the device's command topic the row is delivered, the answer
  is 201 with it and the consoles are told; in every other case the row is failed, never left
  queued, and the answer is 500.
\<close>

theorem createCommand_cases:
  assumes "iot_inv d" and "parse_id path = Some i" and "find_device i d = Some v"
    and "known_command_type known (cin_type inp)" and "is_json_object_or_empty (cin_payload inp)"
    and "pg_text 32 k" and "pg_text 64 (cin_type inp)" and "pg_text 64 (sj_username sj)"
    and "stored_json pj (cin_payload inp) = Some p" and "find_command k d = None"
  shows "createCommand_h (Some (publish_command pb)) known pj now k path (Some inp) (Some sj) (healthy d, h) =
    (if dv_status v = ''pending'' then (RespError 409 ''device is pending approval'', (healthy d, h))
     else let cmd = queued_command d now k (dv_id v) (cin_type inp) p (sj_username sj) (clamp_command_ttl (cin_expires inp));
              done' = cmd\<lparr>dc_status := ''delivered'', dc_detail := [], dc_updated := now\<rparr>
          in if accepted pb v cmd
             then (RespJSON 201 done', (healthy (with_command done' d),
                broadcast (frame ''command.updated'' (CommandData k ''delivered'')) h))
             else (RespError 500 ''could not publish command'',
                (healthy (with_command (cmd\<lparr>dc_status := ''failed'', dc_detail := ''publish failed'', dc_updated := now\<rparr>) d), h)))"
  by (rule createCommand_healthy [OF assms])

lemma createCommand_cases_witness:
  "fst (createCommand_h (Some (publish_command \<lparr>pb_connected = True, pb_encode = (\<lambda>_. Some []), pb_broker = (\<lambda>_ _. False)\<rparr>))
     core_command_types Some 5 ''k2'' ''1'' (Some \<lparr>cin_type = ''door_open'', cin_payload = [], cin_expires = 10\<rparr>)
     (Some \<lparr>sj_id = 7, sj_type = ''user'', sj_username = ''li'', sj_display_name = [], sj_permissions = {}, sj_roles = [],
        sj_groups = []\<rparr>) (healthy (demo_iot ''online''), new_hub)) = RespError 500 ''could not publish command''"
proof -
  let ?inp = "\<lparr>cin_type = ''door_open'', cin_payload = [], cin_expires = 10\<rparr>"
  let ?sj = "\<lparr>sj_id = 7, sj_type = ''user'', sj_username = ''li'', sj_display_name = [], sj_permissions = {}, sj_roles = [],
        sj_groups = []\<rparr>"
  have i: "parse_id ''1'' = Some 1" by code_simp
  have v: "find_device 1 (demo_iot ''online'') = Some (demo_device ''online'')"
    by (simp add: find_device_def demo_iot_def demo_device_def)
  have t: "known_command_type core_command_types (cin_type ?inp)"
    by (simp add: known_command_type_def core_command_types_def)
  have o': "is_json_object_or_empty (cin_payload ?inp)" by (simp add: is_json_object_or_empty_def)
  have w: "pg_text 64 (cin_type ?inp)" "pg_text 64 (sj_username ?sj)" by (simp_all add: demo_texts)
  have j: "stored_json Some (cin_payload ?inp) = Some []" by (simp add: stored_json_def)
  have n: "find_command ''k2'' (demo_iot ''online'') = None"
    by (simp add: find_command_def demo_iot_def demo_command_def)
  from createCommand_cases [OF demo_iot_inv [OF demo_statuses(1)] i v t o' demo_texts(10) w j n,
      of "\<lparr>pb_connected = True, pb_encode = (\<lambda>_. Some []), pb_broker = (\<lambda>_ _. False)\<rparr>" 5 new_hub]
  show ?thesis by (simp add: accepted_def demo_device_def Let_def)
qed

lemma registry_runs_witness: "iot_inv (apply_write Some (ExpireRows 40) (demo_iot ''online''))"
proof -
  have "iot_activity Some False (demo_iot ''online'') (apply_write Some (ExpireRows 40) (demo_iot ''online''))"
    using iot_activity.concurrent [of "ExpireRows 40" Some "demo_iot ''online''"] by simp
  then have "(\<lambda>d d'. \<exists>a. iot_activity Some a d d')\<^sup>*\<^sup>* (demo_iot ''online'') (apply_write Some (ExpireRows 40) (demo_iot ''online''))"
    by (intro r_into_rtranclp) blast
  from registry_runs [OF this demo_iot_inv [OF demo_statuses(1)]] show ?thesis by simp
qed

lemma waiting_until_approved_witness:
  "dv_status (reported 9 [] 8 (demo_device ''pending'')) = ''pending''"
proof -
  let ?d = "demo_iot ''pending''"
  have a: "(iot_activity Some False)\<^sup>*\<^sup>* ?d (apply_write Some (UpdateState 9 [] 8 1) ?d)"
    using iot_activity.concurrent [of "UpdateState 9 [] 8 1" Some ?d] by (intro r_into_rtranclp) simp
  have v: "demo_device ''pending'' \<in> set (io_devices ?d)" "dv_status (demo_device ''pending'') = ''pending''"
    by (simp_all add: demo_iot_def demo_device_def)
  have v': "reported 9 [] 8 (demo_device ''pending'') \<in> set (io_devices (apply_write Some (UpdateState 9 [] 8 1) ?d))"
    "dv_id (reported 9 [] 8 (demo_device ''pending'')) = dv_id (demo_device ''pending'')"
    by (simp_all add: demo_iot_def demo_device_def update_state_row_def stored_json_def on_device_def reported_def)
  from waiting_until_approved [OF a demo_iot_inv [OF demo_statuses(2)] v v'] show ?thesis .
qed

end
