(* ===== verification/Device_Sdk.thy ===== *)
theory Device_Sdk
  imports Iot_Handler
begin

text \<open>
  The device side of the data plane (\<open>src/iot/mqttc\<close>): the topic and payload helpers that mirror the
  backend's, the persistent offline queue, and the client's handling of states, events and commands.
  A queue entry is written as one line of JSON: \<open>enc\<close> is \<open>json.Encoder\<close> without the newline it adds
  and \<open>dec\<close> is \<open>json.Unmarshal\<close> of a line. Which file operations and which publications succeed is
  decided by boolean parameters. Goroutines run to completion in the order they are started.
\<close>

subsection \<open>Topics and payloads\<close>

definition sdk_valid_segment :: "string \<Rightarrow> bool" where
  "sdk_valid_segment s =
     (if s = [] \<or> length s > 128 \<or> hd s = CHR ''$'' then False else list_all segment_char s)"

definition sdk_valid_event_name :: "string \<Rightarrow> bool" where
  "sdk_valid_event_name s =
     (if s = [] \<or> length s > 64 then False
      else list_all (\<lambda>c. \<not> ((of_char c :: nat) \<le> 0x20 \<or> 0x7F \<le> (of_char c :: nat))) s)"

definition data_topic :: "string \<Rightarrow> string \<Rightarrow> string \<Rightarrow> string \<Rightarrow> string" where
  "data_topic site source device channel =
     ''iot'' @ ''/'' @ site @ ''/'' @ source @ ''/'' @ device @ ''/'' @ channel"

definition meta_topic :: "string \<Rightarrow> string \<Rightarrow> string" where
  "meta_topic source channel = ''iot'' @ ''/'' @ ''_meta'' @ ''/'' @ source @ ''/'' @ channel"

subsection \<open>The offline queue\<close>

record queue_entry =
  qe_topic :: string
  qe_payload :: string
  qe_retain :: bool

record queue =
  qu_path :: string
  qu_max :: nat
  qu_entries :: "queue_entry list"

text \<open>What the path of the buffer holds.\<close>

datatype buffer_file = Missing | Unreadable | Content string

text \<open>
  The lines \<open>bufio.Scanner\<close> yields: a trailing carriage return is dropped, a last line without a
  newline counts when it is not empty. A line that does not fit the buffer of 1 MiB is an error.
\<close>

definition drop_cr :: "string \<Rightarrow> string" where
  "drop_cr s = (if s \<noteq> [] \<and> last s = CHR 0x0D then butlast s else s)"

definition scan_lines :: "string \<Rightarrow> string list option" where
  "scan_lines s =
     (let parts = split_on (CHR 0x0A) s;
          ls = (if last parts = [] then butlast parts else parts)
      in if list_ex (\<lambda>l. length l \<ge> 1048576) ls then None else Some (map drop_cr ls))"

definition open_queue ::
  "(string \<Rightarrow> queue_entry option) \<Rightarrow> string \<Rightarrow> int \<Rightarrow> buffer_file \<Rightarrow> queue option" where
  "open_queue dec path max' file =
     (let mx = (if max' \<le> 0 then 10000 else max');
          q = \<lparr>qu_path = path, qu_max = nat mx, qu_entries = []\<rparr>
      in if path = [] then Some q
         else (case file of
             Missing \<Rightarrow> Some q
           | Unreadable \<Rightarrow> None
           | Content s \<Rightarrow> (case scan_lines s of None \<Rightarrow> None
               | Some ls \<Rightarrow> Some (q\<lparr>qu_entries := List.map_filter dec ls\<rparr>))))"

text \<open>The whole file is written to a temporary one that is renamed; a failure leaves the old file.\<close>

definition persist :: "(queue_entry \<Rightarrow> string) \<Rightarrow> bool \<Rightarrow> queue \<Rightarrow> buffer_file \<Rightarrow> bool \<times> buffer_file" where
  "persist enc ok q file =
     (if qu_path q = [] then (True, file)
      else if \<not> ok then (False, file)
      else (True, Content (concat (map (\<lambda>e. enc e @ [CHR 0x0A]) (qu_entries q)))))"

definition shed :: "nat \<Rightarrow> queue_entry \<Rightarrow> queue_entry list \<Rightarrow> queue_entry list" where
  "shed mx e es =
     (let es = es @ [e] in if length es > mx then drop (length es - mx) es else es)"

definition queue_add ::
  "(queue_entry \<Rightarrow> string) \<Rightarrow> bool \<Rightarrow> queue_entry \<Rightarrow> queue \<times> buffer_file \<Rightarrow> bool \<times> queue \<times> buffer_file" where
  "queue_add enc ok e s = (case s of (q, file) \<Rightarrow>
     (let q = q\<lparr>qu_entries := shed (qu_max q) e (qu_entries q)\<rparr>
      in case persist enc ok q file of (r, file') \<Rightarrow> (r, q, file')))"

text \<open>\<open>broker\<close> tells of one publication after the other whether it succeeds; then it always does.\<close>

fun drain_loop :: "bool list \<Rightarrow> queue_entry list \<Rightarrow> queue_entry list \<times> queue_entry list" where
  "drain_loop broker [] = ([], [])"
| "drain_loop (False # broker) (e # es) = ([], e # es)"
| "drain_loop (True # broker) (e # es) = (case drain_loop broker es of (sent, rest) \<Rightarrow> (e # sent, rest))"
| "drain_loop [] (e # es) = (case drain_loop [] es of (sent, rest) \<Rightarrow> (e # sent, rest))"

text \<open>The frames published, whether all were, and the state after.\<close>

definition queue_drain ::
  "(queue_entry \<Rightarrow> string) \<Rightarrow> bool \<Rightarrow> bool list \<Rightarrow> queue \<times> buffer_file \<Rightarrow>
   queue_entry list \<times> bool \<times> queue \<times> buffer_file" where
  "queue_drain enc ok broker s = (case s of (q, file) \<Rightarrow>
     (if qu_entries q = [] then ([], True, q, file)
      else (case drain_loop broker (qu_entries q) of (sent, rest) \<Rightarrow>
        (let q = q\<lparr>qu_entries := rest\<rparr> in (sent, rest = [], q, snd (persist enc ok q file))))))"

interpretation device_queue: lossy_buffer "shed mx" mx for mx
proof
  show "subseq (shed mx e es) (es @ [e])" for e es
    by (auto simp: shed_def Let_def simp del: drop_append intro: suffix_imp_subseq suffix_drop)
  show "length (shed mx e es) \<le> mx" if "length es \<le> mx" for e es
    using that by (auto simp: shed_def Let_def)
  show "shed mx e es = es @ [e]" if "length es < mx" for e es
    using that by (auto simp: shed_def Let_def)
qed

lemma sdk_same: "sdk_valid_segment = valid_segment" "sdk_valid_event_name = valid_event_name"
  by (intro ext, simp add: sdk_valid_segment_def valid_segment_def sdk_valid_event_name_def valid_event_name_def)+

lemma drain_loop_split: "drain_loop broker es = (sent, rest) \<Longrightarrow> sent @ rest = es"
  by (induction broker es arbitrary: sent rest rule: drain_loop.induct) (auto split: prod.splits)

lemma drain_loop_stops:
  "drain_loop broker es = (sent, rest) \<Longrightarrow>
   (\<forall>i < length sent. i < length broker \<longrightarrow> broker ! i) \<and>
   (rest \<noteq> [] \<longrightarrow> length sent < length broker \<and> \<not> broker ! length sent)"
proof (induction broker es arbitrary: sent rest rule: drain_loop.induct)
  case (3 broker e es)
  then show ?case by (auto split: prod.splits simp: less_Suc_eq_0_disj)
qed (auto split: prod.splits)

subsection \<open>The client\<close>

record sdk_command =
  sk_device :: string
  sk_command_id :: string
  sk_type :: string
  sk_payload :: string
  sk_issued :: int
  sk_expires :: int

record outcome_report =
  or_status :: string
  or_detail :: string

record sdk_options =
  so_broker :: string
  so_client_id :: string
  so_site :: string
  so_source :: string
  so_buffer_path :: string
  so_buffer_max :: int

text \<open>The latest state frames by device; the queue with its file.\<close>

record sdk_client =
  sc_site :: string
  sc_source :: string
  sc_client_id :: string
  sc_latest :: "(string \<times> (string \<times> string)) list"
  sc_queue :: queue
  sc_file :: buffer_file

definition data_prefix :: "sdk_client \<Rightarrow> string" where
  "data_prefix cl = ''iot'' @ ''/'' @ sc_site cl @ ''/'' @ sc_source cl"

datatype connect_error = NoBroker | BadSourceId | BadBuffer | NotConnected

text \<open>\<open>Connect\<close> up to the dialogue with the broker, whose outcome is \<open>dialled\<close>.\<close>

definition connect ::
  "(string \<Rightarrow> queue_entry option) \<Rightarrow> sdk_options \<Rightarrow> buffer_file \<Rightarrow> bool \<Rightarrow> connect_error + sdk_client" where
  "connect dec opts file dialled =
     (if so_broker opts = [] then Inl NoBroker
      else if \<not> sdk_valid_segment (so_source opts) then Inl BadSourceId
      else (case open_queue dec (so_buffer_path opts) (so_buffer_max opts) file of
          None \<Rightarrow> Inl BadBuffer
        | Some q \<Rightarrow>
          if \<not> dialled then Inl NotConnected
          else Inr \<lparr>sc_site = (if so_site opts = [] then ''main'' else so_site opts), sc_source = so_source opts,
             sc_client_id = (if so_client_id opts = [] then ''iotc-'' @ so_source opts else so_client_id opts),
             sc_latest = [], sc_queue = q, sc_file = file\<rparr>))"

definition buffer_frame :: "(queue_entry \<Rightarrow> string) \<Rightarrow> bool \<Rightarrow> queue_entry \<Rightarrow> sdk_client \<Rightarrow> bool \<times> sdk_client" where
  "buffer_frame enc file_ok e cl = (case queue_add enc file_ok e (sc_queue cl, sc_file cl) of
     (r, q, f) \<Rightarrow> (r, cl\<lparr>sc_queue := q, sc_file := f\<rparr>))"

text \<open>
  Publishing: whether the call returns without an error, the frames that reached the broker, and the
  client after. \<open>broker_ok\<close> tells whether the PUBACK arrived, \<open>file_ok\<close> whether the buffer file could
  be rewritten. The encoders are \<open>json.Marshal\<close> of the envelopes.
\<close>

definition publish_state ::
  "(state_payload \<Rightarrow> string) \<Rightarrow> bool \<Rightarrow> string \<Rightarrow> int \<Rightarrow> string \<Rightarrow> string \<Rightarrow> sdk_client \<Rightarrow>
   bool \<times> queue_entry list \<times> sdk_client" where
  "publish_state enc_state broker_ok dev at category attrs cl =
     (if \<not> sdk_valid_segment dev then (False, [], cl)
      else let payload = enc_state \<lparr>sp_v = 1, sp_at = at, sp_category = category, sp_attrs = attrs\<rparr>;
               cl = cl\<lparr>sc_latest := aupdate dev (category, payload) (sc_latest cl)\<rparr>;
               e = \<lparr>qe_topic = data_topic (sc_site cl) (sc_source cl) dev ''state'', qe_payload = payload, qe_retain = True\<rparr>
           in if broker_ok then (True, [e], cl) else (False, [], cl))"

definition publish_event ::
  "(queue_entry \<Rightarrow> string) \<Rightarrow> (event_payload \<Rightarrow> string) \<Rightarrow> bool \<Rightarrow> bool \<Rightarrow> string \<Rightarrow> int \<Rightarrow> string \<Rightarrow> string \<Rightarrow> sdk_client \<Rightarrow>
   bool \<times> queue_entry list \<times> sdk_client" where
  "publish_event enc enc_event broker_ok file_ok dev at ty data cl =
     (if \<not> sdk_valid_segment dev then (False, [], cl)
      else if \<not> sdk_valid_event_name ty then (False, [], cl)
      else let e = \<lparr>qe_topic = data_topic (sc_site cl) (sc_source cl) dev ''event'',
                 qe_payload = enc_event \<lparr>ep_v = 1, ep_at = at, ep_type = ty, ep_data = data\<rparr>, qe_retain = False\<rparr>
           in if broker_ok then (True, [e], cl)
              else (case buffer_frame enc file_ok e cl of (r, cl') \<Rightarrow> (r, [], cl')))"

definition report_ack ::
  "(queue_entry \<Rightarrow> string) \<Rightarrow> (ack_payload \<Rightarrow> string) \<Rightarrow> bool \<Rightarrow> bool \<Rightarrow> int \<Rightarrow> string \<Rightarrow> string \<Rightarrow> outcome_report \<Rightarrow> sdk_client \<Rightarrow>
   bool \<times> queue_entry list \<times> sdk_client" where
  "report_ack enc enc_ack broker_ok file_ok now dev k out cl =
     (let e = \<lparr>qe_topic = data_topic (sc_site cl) (sc_source cl) dev ''ack'',
            qe_payload = enc_ack \<lparr>ap_v = 1, ap_command_id = k, ap_status = or_status out, ap_detail = or_detail out, ap_at = now\<rparr>,
            qe_retain = False\<rparr>
      in if broker_ok then (True, [e], cl)
         else (case buffer_frame enc file_ok e cl of (r, cl') \<Rightarrow> (r, [], cl')))"

text \<open>What \<open>onCommand\<close> decides about a downlink frame.\<close>

datatype command_action = IgnoreFrame | RefuseExpired string string | Execute sdk_command

definition on_command ::
  "(string \<Rightarrow> command_frame option) \<Rightarrow> int \<Rightarrow> string \<Rightarrow> string \<Rightarrow> sdk_client \<Rightarrow> command_action" where
  "on_command dec_frame now topic raw cl =
     (let rel = trim_prefix (data_prefix cl @ ''/'') topic;
          dev = trim_suffix (''/'' @ ''cmd'') rel
      in if dev = [] \<or> \<not> sdk_valid_segment dev then IgnoreFrame
         else (case dec_frame raw of None \<Rightarrow> IgnoreFrame
           | Some f \<Rightarrow>
             if fr_v f \<noteq> 1 \<or> length (fr_command_id f) \<noteq> 32 then IgnoreFrame
             else if now > fr_expires_at f then RefuseExpired dev (fr_command_id f)
             else Execute \<lparr>sk_device = dev, sk_command_id = fr_command_id f, sk_type = fr_type f,
                    sk_payload = fr_payload f, sk_issued = fr_issued_at f, sk_expires = fr_expires_at f\<rparr>))"

text \<open>The whole reaction; \<open>driver\<close> is the registered handler, \<open>None\<close> where it panics.\<close>

definition run_command ::
  "(queue_entry \<Rightarrow> string) \<Rightarrow> (ack_payload \<Rightarrow> string) \<Rightarrow> bool \<Rightarrow> bool \<Rightarrow> int \<Rightarrow> (sdk_command \<Rightarrow> outcome_report option) \<Rightarrow>
   command_action \<Rightarrow> sdk_client \<Rightarrow> queue_entry list \<times> sdk_client" where
  "run_command enc enc_ack broker_ok file_ok now driver action cl =
     (case action of
        IgnoreFrame \<Rightarrow> ([], cl)
      | RefuseExpired dev k \<Rightarrow>
          snd (report_ack enc enc_ack broker_ok file_ok now dev k \<lparr>or_status = ''failed'', or_detail = ''expired before execution''\<rparr> cl)
      | Execute cmd \<Rightarrow>
          (let out = (case driver cmd of None \<Rightarrow> \<lparr>or_status = ''failed'', or_detail = ''driver panic''\<rparr> | Some out \<Rightarrow> out)
           in snd (report_ack enc enc_ack broker_ok file_ok now (sk_device cmd) (sk_command_id cmd) out cl)))"

text \<open>
  \<open>onConnect\<close>: the latest states in the order \<open>order\<close> in which the map is visited, each attempt
  failing alone, then the buffered frames until the first failure.
\<close>

definition on_connect ::
  "(queue_entry \<Rightarrow> string) \<Rightarrow> bool \<Rightarrow> (string \<Rightarrow> bool) \<Rightarrow> bool list \<Rightarrow> (string \<times> (string \<times> string)) list \<Rightarrow> sdk_client \<Rightarrow>
   queue_entry list \<times> sdk_client" where
  "on_connect enc file_ok state_ok broker order cl =
     (let states = map (\<lambda>(dev, _, payload). \<lparr>qe_topic = data_topic (sc_site cl) (sc_source cl) dev ''state'',
             qe_payload = payload, qe_retain = True\<rparr>) (filter (\<lambda>(dev, _). state_ok dev) order)
      in case queue_drain enc file_ok broker (sc_queue cl, sc_file cl) of
           (sent, _, q, f) \<Rightarrow> (states @ sent, cl\<lparr>sc_queue := q, sc_file := f\<rparr>))"

subsection \<open>Facts\<close>

lemma data_topic_command: "data_topic site source dev ''cmd'' = command_topic site source dev"
  by (simp add: data_topic_def command_topic_def)

lemma on_command_device:
  assumes "valid_segment dev" and "dec_frame raw = Some f" and "fr_v f = 1" and "length (fr_command_id f) = 32"
  shows "on_command dec_frame now (command_topic (sc_site cl) (sc_source cl) dev) raw cl =
    (if now > fr_expires_at f then RefuseExpired dev (fr_command_id f)
     else Execute \<lparr>sk_device = dev, sk_command_id = fr_command_id f, sk_type = fr_type f,
            sk_payload = fr_payload f, sk_issued = fr_issued_at f, sk_expires = fr_expires_at f\<rparr>)"
proof -
  have t: "command_topic (sc_site cl) (sc_source cl) dev = (data_prefix cl @ ''/'') @ (dev @ (''/'' @ ''cmd''))"
    by (simp add: command_topic_def data_prefix_def)
  have "trim_prefix (data_prefix cl @ ''/'') (command_topic (sc_site cl) (sc_source cl) dev) = dev @ (''/'' @ ''cmd'')"
    unfolding t by (rule trim_prefix_append)
  moreover have "trim_suffix (''/'' @ ''cmd'') (dev @ (''/'' @ ''cmd'')) = dev" by (rule trim_suffix_append)
  moreover have "dev \<noteq> []" using assms(1) by (auto simp: valid_segment_def)
  ultimately show ?thesis using assms unfolding on_command_def Let_def sdk_same by simp
qed

subsection \<open>Runs of the offline queue\<close>

datatype queue_op = Add bool queue_entry | Drain bool "bool list"

fun queue_run ::
  "(queue_entry \<Rightarrow> string) \<Rightarrow> queue_op list \<Rightarrow> queue \<times> buffer_file \<Rightarrow> queue_entry list \<times> queue \<times> buffer_file" where
  "queue_run enc [] s = ([], s)"
| "queue_run enc (Add ok e # ops) s = queue_run enc ops (snd (queue_add enc ok e s))"
| "queue_run enc (Drain ok broker # ops) s =
     (case queue_drain enc ok broker s of (sent, _, s') \<Rightarrow>
       (case queue_run enc ops s' of (later, s'') \<Rightarrow> (sent @ later, s'')))"

fun added :: "queue_op list \<Rightarrow> queue_entry list" where
  "added [] = []"
| "added (Add ok e # ops) = e # added ops"
| "added (Drain ok broker # ops) = added ops"

lemma run_pops:
  "run_buffer push (replicate (length xs) Pop @ ops) (xs @ ys) =
     (case run_buffer push ops ys of (got, rest) \<Rightarrow> (xs @ got, rest))"
  by (induction xs) (auto split: prod.splits)

lemma pushed_append [simp]: "pushed (as @ bs) = pushed as @ pushed bs"
  by (induction as rule: pushed.induct) simp_all

lemma pushed_pops [simp]: "pushed (replicate n Pop) = []"
  by (induction n) simp_all

lemma queue_run_buffer:
  assumes "queue_run enc ops (q, f) = (sent, q', f')"
  shows "qu_max q' = qu_max q \<and>
    (\<exists>bs. pushed bs = added ops \<and> run_buffer (shed (qu_max q)) bs (qu_entries q) = (sent, qu_entries q'))"
  using assms
proof (induction enc ops "(q, f)" arbitrary: q f sent rule: queue_run.induct)
  case (1 enc q f)
  then show ?case by (intro conjI exI [of _ "[]"]) auto
next
  case (2 enc ok e ops q f)
  obtain r q1 f1 where a: "queue_add enc ok e (q, f) = (r, q1, f1)" by (cases "queue_add enc ok e (q, f)") auto
  have q1: "qu_max q1 = qu_max q" "qu_entries q1 = shed (qu_max q) e (qu_entries q)"
    using a by (auto simp: queue_add_def Let_def split: prod.splits)
  from "2.hyps" [of q1 f1 sent] a "2.prems" obtain bs where bs: "qu_max q' = qu_max q1" "pushed bs = added ops"
    "run_buffer (shed (qu_max q1)) bs (qu_entries q1) = (sent, qu_entries q')" by auto
  then show ?case using q1 by (intro conjI exI [of _ "Push e # bs"]) simp_all
next
  case (3 enc ok broker ops q f)
  obtain s1 r q1 f1 where a: "queue_drain enc ok broker (q, f) = (s1, r, q1, f1)"
    by (cases "queue_drain enc ok broker (q, f)") auto
  have q1: "qu_max q1 = qu_max q" "qu_entries q = s1 @ qu_entries q1"
    using a drain_loop_split [of broker "qu_entries q"]
    by (auto simp: queue_drain_def Let_def split: prod.splits if_splits)
  obtain s2 where l: "queue_run enc ops (q1, f1) = (s2, q', f')" "sent = s1 @ s2"
    using "3.prems" a by (auto split: prod.splits)
  from "3.hyps" [OF a [symmetric] refl l(1)] obtain bs where bs: "qu_max q' = qu_max q1" "pushed bs = added ops"
    "run_buffer (shed (qu_max q1)) bs (qu_entries q1) = (s2, qu_entries q')" by auto
  then show ?case
    using q1 l(2) by (intro conjI exI [of _ "replicate (length s1) Pop @ bs"]) (simp_all add: run_pops)
qed

text \<open>
  C32: the offline queue over any sequence of additions and drains, whatever publications and file
  operations fail. The frames handed to the broker followed by those still queued are, in order and
  each at most once, a selection of the frames added; never more than the capacity are kept; and
  nothing is missing unless more frames were added than the capacity.
\<close>

theorem offline_queue_runs:
  "case queue_run enc ops (\<lparr>qu_path = path, qu_max = mx, qu_entries = []\<rparr>, file) of (sent, q, f) \<Rightarrow>
     subseq (sent @ qu_entries q) (added ops) \<and> length (qu_entries q) \<le> mx \<and>
     (sent @ qu_entries q = added ops \<or> mx < length (added ops))"
proof -
  let ?q = "\<lparr>qu_path = path, qu_max = mx, qu_entries = []\<rparr>"
  obtain sent q f where r: "queue_run enc ops (?q, file) = (sent, q, f)" by (cases "queue_run enc ops (?q, file)") auto
  from queue_run_buffer [OF r] obtain bs
    where bs: "pushed bs = added ops" "run_buffer (shed mx) bs [] = (sent, qu_entries q)" by auto
  have "subseq (sent @ qu_entries q) (added ops)" using device_queue.run_subseq [OF bs(2)] bs(1) by simp
  moreover have "length (qu_entries q) \<le> mx" using device_queue.run_bound [OF _ bs(2)] by simp
  moreover have "sent @ qu_entries q = added ops \<or> mx < length (added ops)"
    using device_queue.run_lossless [OF _ bs(2)] bs(1) by force
  ultimately show ?thesis using r by simp
qed

text \<open>A file of whole lines is read back line by line.\<close>

lemma scan_written:
  assumes "\<forall>l \<in> set ls. CHR 0x0A \<notin> set l \<and> length l < 1048576 \<and> l \<noteq> [] \<and> last l \<noteq> CHR 0x0D"
  shows "scan_lines (concat (map (\<lambda>l. l @ [CHR 0x0A]) ls)) = Some ls"
proof -
  have s: "split_on (CHR 0x0A) (concat (map (\<lambda>l. l @ [CHR 0x0A]) ls)) = ls @ [[]]"
    using assms by (induction ls) (simp_all add: split_on_append_sep)
  have "map drop_cr ls = ls" by (rule map_idI) (use assms in \<open>auto simp: drop_cr_def\<close>)
  moreover have "\<not> list_ex (\<lambda>l. length l \<ge> 1048576) ls" using assms by (auto simp: list_ex_iff)
  ultimately show ?thesis by (simp add: scan_lines_def s Let_def)
qed

text \<open>
  The queue survives a restart. When every entry encodes to one line below the limit of the
  reader that decodes to it, reopening the file that a successful rewrite left gives back exactly the
  queued entries in order; a failed rewrite leaves the previous file.
\<close>

theorem queue_survives_restart:
  assumes "\<forall>e \<in> set (qu_entries q). dec (enc e) = Some e \<and> CHR 0x0A \<notin> set (enc e) \<and> length (enc e) < 1048576 \<and>
      enc e \<noteq> [] \<and> last (enc e) \<noteq> CHR 0x0D"
    and "qu_path q \<noteq> []" and "0 < qu_max q"
  shows "open_queue dec (qu_path q) (int (qu_max q)) (snd (persist enc True q file)) = Some q \<and>
    persist enc False q file = (False, file)"
proof -
  have "scan_lines (concat (map (\<lambda>l. l @ [CHR 0x0A]) (map enc (qu_entries q)))) = Some (map enc (qu_entries q))"
    by (rule scan_written) (use assms(1) in auto)
  moreover have "List.map_filter dec (map enc es) = es" if "\<forall>e \<in> set es. dec (enc e) = Some e" for es
    using that by (induction es) (simp_all add: List.map_filter_simps)
  ultimately show ?thesis using assms by (simp add: open_queue_def persist_def Let_def comp_def)
qed

definition demo_entry :: queue_entry where
  "demo_entry = \<lparr>qe_topic = ''t'', qe_payload = [], qe_retain = False\<rparr>"

lemma queue_survives_restart_witness:
  "open_queue (\<lambda>l. if l = ''x'' then Some demo_entry else None) ''b'' 3
     (snd (persist (\<lambda>_. ''x'') True \<lparr>qu_path = ''b'', qu_max = 3, qu_entries = [demo_entry, demo_entry]\<rparr> Missing)) =
   Some \<lparr>qu_path = ''b'', qu_max = 3, qu_entries = [demo_entry, demo_entry]\<rparr>"
  using queue_survives_restart [of "\<lparr>qu_path = ''b'', qu_max = 3, qu_entries = [demo_entry, demo_entry]\<rparr>"
      "\<lambda>l. if l = ''x'' then Some demo_entry else None" "\<lambda>_. ''x''" Missing] by simp

subsection \<open>The loop between console and device\<close>

text \<open>
  An expired command never reaches the driver. A frame whose deadline has passed is ignored or
  refused; what the client sends and keeps does not depend on the driver, and a refusal is a failed
  ack for that command.
\<close>

theorem expired_never_executed:
  assumes "dec_frame raw = Some f" and "fr_expires_at f < now"
  shows "(on_command dec_frame now topic raw cl = IgnoreFrame \<or>
      (\<exists>dev. on_command dec_frame now topic raw cl = RefuseExpired dev (fr_command_id f) \<and>
         run_command enc enc_ack True file_ok t driver (on_command dec_frame now topic raw cl) cl =
           ([\<lparr>qe_topic = data_topic (sc_site cl) (sc_source cl) dev ''ack'',
              qe_payload = enc_ack \<lparr>ap_v = 1, ap_command_id = fr_command_id f, ap_status = ''failed'',
                ap_detail = ''expired before execution'', ap_at = t\<rparr>, qe_retain = False\<rparr>], cl))) \<and>
    run_command enc enc_ack broker_ok file_ok t driver (on_command dec_frame now topic raw cl) cl =
      run_command enc enc_ack broker_ok file_ok t driver' (on_command dec_frame now topic raw cl) cl"
  using assms by (auto simp: on_command_def run_command_def report_ack_def Let_def)

lemma ack_message:
  assumes "valid_segment site" and "site \<noteq> ''_meta''" and "valid_segment source" and "valid_segment dev"
  shows "handle_message env (data_topic site source dev ''ack'') raw s =
    (if site \<noteq> en_site env then s else handle_ack env raw s)"
proof -
  have p: "parse_data_topic (data_topic site source dev ''ack'') = Some (site, source, dev, ''ack'')"
    unfolding data_topics using assms by (simp add: data_topic_def channels_def)
  from data_topic_not_meta [OF p] p show ?thesis by (simp add: handle_message_def)
qed

lemma with_command_inv:
  "iot_inv d \<Longrightarrow> dc_id cmd = io_next_command d \<Longrightarrow> find_command (dc_command_id cmd) d = None \<Longrightarrow>
   dc_status cmd \<in> set command_statuses \<Longrightarrow> iot_inv (with_command cmd d)"
  using inv_append(3) by (simp add: iot_inv_def with_command_def find_command_None)

text \<open>A delivered command settled by an ack of its device.\<close>

lemma settled_by_ack:
  assumes "iot_inv d" and "find_command k d = Some c" and "dc_status c \<in> set live_statuses"
    and "en_ack env raw = Some a" and "ap_v a = 1" and "ap_command_id a = k" and "length k = 32" and "CHR 0x00 \<notin> set k"
    and "ap_status a = ''acked'' \<or> ap_status a = ''failed''" and "pg_text 255 (ap_detail a)"
  shows "\<exists>c'. find_command k (tables (fst (handle_ack env raw (healthy d, h)))) = Some c' \<and>
    dc_status c' = ap_status a \<and> dc_detail c' = ap_detail a"
proof -
  let ?c = "c\<lparr>dc_status := ap_status a, dc_detail := ap_detail a, dc_updated := en_now env\<rparr>"
  have v: "validate_ack a = None" using assms by (auto simp: validate_ack_def)
  have k: "dc_command_id c = k" "c \<in> set (io_commands d)" using find_command_SomeD [OF assms(2)] by simp_all
  have same: "x = c" if "x \<in> set (io_commands d)" "dc_command_id x = k" for x
    using assms(1) k that unfolding iot_inv_def commands_inv_def distinct_map inj_on_def by metis
  have "List.find (\<lambda>x. dc_command_id x = k) (map (\<lambda>x. if dc_id x = dc_id c then ?c else x) cs) = Some ?c"
    if "set cs \<subseteq> set (io_commands d)" "c \<in> set cs" for cs
    using that
  proof (induction cs)
    case (Cons x cs)
    show ?case
    proof (cases "dc_id x = dc_id c")
      case True
      then show ?thesis using k by simp
    next
      case False
      then have "dc_command_id x \<noteq> k" using same [of x] Cons.prems(1) by auto
      with False Cons show ?thesis by auto
    qed
  qed simp
  from this [OF order_refl k(2)] have "find_command k (d\<lparr>io_commands := map (\<lambda>x. if dc_id x = dc_id c then ?c else x) (io_commands d)\<rparr>) = Some ?c"
    by (simp add: find_command_def)
  with assms v apply_ack_healthy [OF assms(1,10,8,9), of "en_now env"] show ?thesis
    by (simp add: handle_ack_def)
qed

text \<open>
  C21: a command comes back settled. When the console issues a command for an approved device, the
  broker accepts the frame, and the device's client receives it before the deadline and its driver
  reports an outcome, then the ack the client sends settles the command in the registry with that
  outcome and detail. The premises state that \<open>json.Unmarshal\<close> inverts \<open>json.Marshal\<close> on the frame and on
  acks, and that both sides are configured with the same site.
\<close>

theorem command_comes_back_settled:
  fixes known :: "string list"
  assumes "iot_inv d" and "parse_id path = Some i" and "find_device i d = Some v" and "dv_status v \<noteq> ''pending''"
    and "known_command_type known (cin_type inp)" and "is_json_object_or_empty (cin_payload inp)"
    and "pg_text 32 k" and "pg_text 64 (cin_type inp)" and "pg_text 64 (sj_username sj)" and "length k = 32"
    and "stored_json (en_json env) (cin_payload inp) = Some p" and "find_command k d = None"
    and "valid_segment (dv_site v)" and "dv_site v \<noteq> ''_meta''" and "valid_segment (dv_source v)" and "valid_segment (dv_external v)"
    and "en_site env = dv_site v" and "sc_site cl = dv_site v" and "sc_source cl = dv_source v"
    and "\<And>f. f = command_frame_of (queued_command d now k (dv_id v) (cin_type inp) p (sj_username sj) (clamp_command_ttl (cin_expires inp))) \<Longrightarrow>
      dec_frame (enc_frame f) = Some f"
    and "\<And>a. a = \<lparr>ap_v = 1, ap_command_id = k, ap_status = or_status out, ap_detail = or_detail out, ap_at = t\<rparr> \<Longrightarrow>
      en_ack env (enc_ack a) = Some a"
    and "t \<le> now + clamp_command_ttl (cin_expires inp) div 1000000"
    and "\<forall>cmd. driver cmd = Some out" and "or_status out = ''acked'' \<or> or_status out = ''failed''" and "pg_text 255 (or_detail out)"
  shows "\<exists>cmd s1 frames cl' c.
    createCommand_h (Some (publish_command \<lparr>pb_connected = True, pb_encode = Some \<circ> enc_frame, pb_broker = (\<lambda>_ _. True)\<rparr>))
      known (en_json env) now k path (Some inp) (Some sj) (healthy d, h) = (RespJSON 201 cmd, s1) \<and>
    run_command enc enc_ack True True t driver
      (on_command dec_frame t (command_topic (dv_site v) (dv_source v) (dv_external v)) (enc_frame (command_frame_of cmd)) cl) cl =
      (frames, cl') \<and>
    find_command k (tables (fst (fold (\<lambda>e. handle_message env (qe_topic e) (qe_payload e)) frames s1))) = Some c \<and>
    dc_status c = or_status out \<and> dc_detail c = or_detail out"
proof -
  let ?pb = "\<lparr>pb_connected = True, pb_encode = Some \<circ> enc_frame, pb_broker = (\<lambda>_ _. True)\<rparr>"
  let ?q = "queued_command d now k (dv_id v) (cin_type inp) p (sj_username sj) (clamp_command_ttl (cin_expires inp))"
  let ?cmd = "?q\<lparr>dc_status := ''delivered'', dc_detail := [], dc_updated := now\<rparr>"
  let ?h = "broadcast (frame ''command.updated'' (CommandData k ''delivered'')) h"
  let ?ack = "\<lparr>ap_v = 1, ap_command_id = k, ap_status = or_status out, ap_detail = or_detail out, ap_at = t\<rparr>"
  let ?e = "\<lparr>qe_topic = data_topic (dv_site v) (dv_source v) (dv_external v) ''ack'', qe_payload = enc_ack ?ack, qe_retain = False\<rparr>"
  have created: "createCommand_h (Some (publish_command ?pb)) known (en_json env) now k path (Some inp) (Some sj) (healthy d, h) =
      (RespJSON 201 ?cmd, (healthy (with_command ?cmd d), ?h))"
    using createCommand_healthy [OF assms(1-3,5-9,11,12), of ?pb now h] assms(4) by (simp add: accepted_def Let_def)
  have fq: "command_frame_of ?cmd = command_frame_of ?q" by (simp add: command_frame_of_def)
  have f: "fr_v (command_frame_of ?cmd) = 1" "fr_command_id (command_frame_of ?cmd) = k"
    "fr_expires_at (command_frame_of ?cmd) = now + clamp_command_ttl (cin_expires inp) div 1000000"
    by (simp_all add: command_frame_of_def queued_command_def)
  have "on_command dec_frame t (command_topic (dv_site v) (dv_source v) (dv_external v)) (enc_frame (command_frame_of ?cmd)) cl =
      Execute \<lparr>sk_device = dv_external v, sk_command_id = k, sk_type = fr_type (command_frame_of ?cmd),
        sk_payload = fr_payload (command_frame_of ?cmd), sk_issued = fr_issued_at (command_frame_of ?cmd),
        sk_expires = fr_expires_at (command_frame_of ?cmd)\<rparr>"
    using on_command_device [of "dv_external v" dec_frame "enc_frame (command_frame_of ?cmd)" "command_frame_of ?cmd" t cl]
      assms(10,16,18,19,22) f assms(20) [OF fq] by simp
  then have ran: "run_command enc enc_ack True True t driver
      (on_command dec_frame t (command_topic (dv_site v) (dv_source v) (dv_external v)) (enc_frame (command_frame_of ?cmd)) cl) cl =
      ([?e], cl)"
    using assms(18,19,23) by (simp add: run_command_def report_ack_def Let_def)
  have k: "dc_command_id ?cmd = k" "dc_id ?cmd = io_next_command d" "dc_status ?cmd = ''delivered''"
    by (simp_all add: queued_command_def)
  have inv: "iot_inv (with_command ?cmd d)"
    by (rule with_command_inv [OF assms(1) k(2)]) (use assms(12) k in \<open>simp_all add: command_statuses_def\<close>)
  have fc: "find_command k (with_command ?cmd d) = Some ?cmd"
    using find_with_command [of ?cmd d] assms(12) k(1) by simp
  have live: "dc_status ?cmd \<in> set live_statuses" by (simp add: live_statuses_def)
  have ack: "en_ack env (enc_ack ?ack) = Some ?ack" by (rule assms(21)) simp
  have nul: "CHR 0x00 \<notin> set k" using assms(7) by (simp add: pg_text_def)
  from settled_by_ack [OF inv fc live ack _ _ assms(10) nul, of ?h] assms(24,25) obtain c
    where c: "find_command k (tables (fst (handle_ack env (enc_ack ?ack) (healthy (with_command ?cmd d), ?h)))) = Some c"
      "dc_status c = or_status out" "dc_detail c = or_detail out" by auto
  have "fold (\<lambda>e. handle_message env (qe_topic e) (qe_payload e)) [?e] (healthy (with_command ?cmd d), ?h) =
      handle_ack env (enc_ack ?ack) (healthy (with_command ?cmd d), ?h)"
    using ack_message [OF assms(13-16)] assms(17) by simp
  then have "find_command k (tables (fst (fold (\<lambda>e. handle_message env (qe_topic e) (qe_payload e)) [?e]
      (healthy (with_command ?cmd d), ?h)))) = Some c"
    using c(1) by (simp only:)
  then show ?thesis using created ran c(2,3) by (intro exI conjI)
qed


definition demo_key :: string where
  "demo_key = replicate 32 (CHR ''a'')"

definition demo_order :: command_input where
  "demo_order = \<lparr>cin_type = ''door_open'', cin_payload = [], cin_expires = 10\<rparr>"

definition demo_caller :: subject where
  "demo_caller = \<lparr>sj_id = 7, sj_type = ''user'', sj_username = ''li'', sj_display_name = [], sj_permissions = {},
     sj_roles = [], sj_groups = []\<rparr>"

definition demo_ack_env :: iot_env where
  "demo_ack_env = demo_env\<lparr>en_ack := (\<lambda>_. Some \<lparr>ap_v = 1, ap_command_id = demo_key, ap_status = ''acked'',
     ap_detail = ''ok'', ap_at = 6\<rparr>)\<rparr>"

definition demo_client :: sdk_client where
  "demo_client = \<lparr>sc_site = ''main'', sc_source = ''gw'', sc_client_id = [], sc_latest = [],
     sc_queue = \<lparr>qu_path = [], qu_max = 3, qu_entries = []\<rparr>, sc_file = Missing\<rparr>"

definition demo_sent :: command_frame where
  "demo_sent = command_frame_of (queued_command (demo_iot ''online'') 5 demo_key 1 ''door_open'' [] ''li'' 10000000000)"

lemma demo_ttl: "clamp_command_ttl 10 = 10000000000"
  by (simp add: clamp_command_ttl_def wrap64_def)

lemma expired_never_executed_witness:
  "run_command (\<lambda>_. []) (\<lambda>_. []) False True 90000000 (\<lambda>_. None)
     (on_command (\<lambda>_. Some demo_sent) 90000000 (command_topic ''main'' ''gw'' ''d1'') ''x'' demo_client) demo_client =
   run_command (\<lambda>_. []) (\<lambda>_. []) False True 90000000 (\<lambda>_. Some \<lparr>or_status = ''acked'', or_detail = []\<rparr>)
     (on_command (\<lambda>_. Some demo_sent) 90000000 (command_topic ''main'' ''gw'' ''d1'') ''x'' demo_client) demo_client"
  by (rule expired_never_executed [of "\<lambda>_. Some demo_sent" _ demo_sent, THEN conjunct2])
    (simp_all add: demo_sent_def command_frame_of_def queued_command_def)

lemma command_comes_back_settled_witness:
  "\<exists>cmd s1 frames cl' c.
    createCommand_h (Some (publish_command \<lparr>pb_connected = True, pb_encode = Some \<circ> (\<lambda>_. ''x''), pb_broker = (\<lambda>_ _. True)\<rparr>))
      core_command_types Some 5 demo_key ''1'' (Some demo_order) (Some demo_caller) (healthy (demo_iot ''online''), new_hub) =
      (RespJSON 201 cmd, s1) \<and>
    run_command (\<lambda>_. []) (\<lambda>_. ''y'') True True 6 (\<lambda>_. Some \<lparr>or_status = ''acked'', or_detail = ''ok''\<rparr>)
      (on_command (\<lambda>_. Some demo_sent) 6 (command_topic ''main'' ''gw'' ''d1'') ''x'' demo_client) demo_client = (frames, cl') \<and>
    find_command demo_key (tables (fst (fold (\<lambda>e. handle_message demo_ack_env (qe_topic e) (qe_payload e)) frames s1))) = Some c \<and>
    dc_status c = ''acked'' \<and> dc_detail c = ''ok''"
proof -
  have i: "parse_id ''1'' = Some 1" by code_simp
  have v: "find_device 1 (demo_iot ''online'') = Some (demo_device ''online'')"
    "dv_status (demo_device ''online'') \<noteq> ''pending''"
    by (simp_all add: find_device_def demo_iot_def demo_device_def)
  have t: "known_command_type core_command_types (cin_type demo_order)"
    by (simp add: known_command_type_def core_command_types_def demo_order_def)
  have o': "is_json_object_or_empty (cin_payload demo_order)" by (simp add: is_json_object_or_empty_def demo_order_def)
  have k: "pg_text 32 demo_key" "length demo_key = 32"
    by (simp_all add: pg_text_def demo_key_def rune_count_ascii)
  have w: "pg_text 64 (cin_type demo_order)" "pg_text 64 (sj_username demo_caller)"
    by (simp_all add: demo_order_def demo_caller_def demo_texts)
  have j: "stored_json (en_json demo_ack_env) (cin_payload demo_order) = Some []"
    by (simp add: stored_json_def demo_order_def)
  have n: "find_command demo_key (demo_iot ''online'') = None"
    by (simp add: find_command_def demo_iot_def demo_command_def demo_key_def numeral_eq_Suc)
  have dv: "dv_site (demo_device ''online'') = ''main''" "dv_source (demo_device ''online'') = ''gw''"
    "dv_external (demo_device ''online'') = ''d1''" "dv_id (demo_device ''online'') = 1"
    by (simp_all add: demo_device_def)
  have seg: "valid_segment (dv_site (demo_device ''online''))" "dv_site (demo_device ''online'') \<noteq> ''_meta''"
    "valid_segment (dv_source (demo_device ''online''))" "valid_segment (dv_external (demo_device ''online''))"
    by (simp_all add: dv demo_texts)
  have site: "en_site demo_ack_env = dv_site (demo_device ''online'')" "sc_site demo_client = dv_site (demo_device ''online'')"
    "sc_source demo_client = dv_source (demo_device ''online'')"
    by (simp_all add: demo_ack_env_def demo_env_def demo_client_def dv)
  have json: "en_json demo_ack_env = Some" by (simp add: demo_ack_env_def demo_env_def)
  have sent: "f = command_frame_of (queued_command (demo_iot ''online'') 5 demo_key (dv_id (demo_device ''online''))
      (cin_type demo_order) [] (sj_username demo_caller) (clamp_command_ttl (cin_expires demo_order))) \<Longrightarrow>
      (\<lambda>_. Some demo_sent) ((\<lambda>_. ''x'') f) = Some f" for f
    by (simp add: demo_sent_def demo_order_def demo_caller_def dv demo_ttl)
  have ack: "a = \<lparr>ap_v = 1, ap_command_id = demo_key, ap_status = or_status \<lparr>or_status = ''acked'', or_detail = ''ok''\<rparr>,
      ap_detail = or_detail \<lparr>or_status = ''acked'', or_detail = ''ok''\<rparr>, ap_at = 6\<rparr> \<Longrightarrow>
      en_ack demo_ack_env ((\<lambda>_. ''y'') a) = Some a" for a
    by (simp add: demo_ack_env_def)
  have late: "6 \<le> 5 + clamp_command_ttl (cin_expires demo_order) div 1000000"
    by (simp add: demo_order_def demo_ttl)
  have out: "or_status \<lparr>or_status = ''acked'', or_detail = ''ok''\<rparr> = ''acked'' \<or> or_status \<lparr>or_status = ''acked'', or_detail = ''ok''\<rparr> = ''failed''"
    "pg_text 255 (or_detail \<lparr>or_status = ''acked'', or_detail = ''ok''\<rparr>)"
    by (simp_all add: demo_texts)
  have drv: "\<forall>cmd. (\<lambda>_. Some \<lparr>or_status = ''acked'', or_detail = ''ok''\<rparr>) cmd = Some \<lparr>or_status = ''acked'', or_detail = ''ok''\<rparr>"
    by simp
  from command_comes_back_settled [OF demo_iot_inv [OF demo_statuses(1)] i v t o' k(1) w k(2) j n seg site sent ack late drv out,
      where h = new_hub and enc = "\<lambda>_. []"]
  show ?thesis unfolding json dv by simp
qed

end
