(* ===== verification/Timetable.thy ===== *)
theory Timetable
  imports Session
begin

text \<open>
  The room timetable (\<open>course/sessions.go\<close>: \<open>Timetable\<close>, \<open>listActiveBookings\<close>, \<open>buildTimetableDays\<close>; the handlers
  in \<open>handler.go\<close>) and the plan of its spreadsheet (\<open>timetable_export.go\<close>). The spreadsheet library is
  represented by the list of cell operations it is asked for: column and row numbers count from 1.
\<close>

subsection \<open>Days and slots\<close>

record timetable_slot =
  ts_index :: int
  ts_start_time :: string
  ts_end_time :: string
  ts_session :: "session_view option"
  ts_booking :: "booking_view option"

record timetable_day =
  td_date :: string
  td_weekday :: int
  td_regime :: string
  td_slots :: "timetable_slot list"

definition weekday_index :: "int \<Rightarrow> int" where
  "weekday_index day = (let w = weekday_of day in if w = 0 then 7 else w)"

text \<open>
  The two-level maps from date and period to the occupant: a later entry overwrites an earlier one.
\<close>

definition session_at :: "session_view list \<Rightarrow> string \<Rightarrow> int \<Rightarrow> session_view option" where
  "session_at ss date p = List.find (\<lambda>s. sw_date s = date \<and> sw_start s \<le> p \<and> p \<le> sw_end s) (rev ss)"

definition booking_at :: "booking_view list \<Rightarrow> string \<Rightarrow> int \<Rightarrow> booking_view option" where
  "booking_at bs date p = List.find (\<lambda>b. bv_date b = date \<and> bv_start b \<le> p \<and> p \<le> bv_end b) (rev bs)"

definition slot_of :: "session_view list \<Rightarrow> booking_view list \<Rightarrow> string \<Rightarrow> period \<Rightarrow> timetable_slot" where
  "slot_of ss bs date p =
     (let s = session_at ss date (pd_index p)
      in \<lparr>ts_index = pd_index p, ts_start_time = pd_start p, ts_end_time = pd_end p, ts_session = s,
          ts_booking = (if s \<noteq> None then None else booking_at bs date (pd_index p))\<rparr>)"

definition day_of_grid ::
  "regime list \<Rightarrow> session_view list \<Rightarrow> booking_view list \<Rightarrow> int \<Rightarrow> timetable_day" where
  "day_of_grid regimes ss bs day =
     (let date = format_date day
      in (case active_for regimes day of
            None \<Rightarrow> \<lparr>td_date = date, td_weekday = weekday_index day, td_regime = [], td_slots = []\<rparr>
          | Some r \<Rightarrow> \<lparr>td_date = date, td_weekday = weekday_index day, td_regime = re_name r,
              td_slots = sort_key ts_index (map (slot_of ss bs date) (re_periods r))\<rparr>))"

definition build_days ::
  "regime list \<Rightarrow> session_view list \<Rightarrow> booking_view list \<Rightarrow> string \<Rightarrow> string \<Rightarrow> timetable_day list option" where
  "build_days regimes ss bs from_date to_date =
     (case (parse_date from_date, parse_date to_date) of
        (Some a, Some b) \<Rightarrow> Some (map (day_of_grid regimes ss bs) [a..b])
      | _ \<Rightarrow> None)"

definition list_active_bookings ::
  "(string \<Rightarrow> int option) \<Rightarrow> int \<Rightarrow> string \<Rightarrow> string \<Rightarrow> booking_view list course_action" where
  "list_active_bookings pg_date room from_date to_date =
     query_row (CourseDb ''list bookings for timetable'') (CourseDb ''list bookings for timetable'') (\<lambda>d.
       Option.bind (pg_date from_date) (\<lambda>lo. Option.bind (pg_date to_date) (\<lambda>hi.
       Some (List.map_filter (booking_view_of d) (sort_key (\<lambda>b. (bk_date b, bk_start b, bk_id b))
         (filter (\<lambda>b. bk_classroom b = room \<and> lo \<le> bk_date b \<and> bk_date b \<le> hi \<and> active_status (bk_status b))
           (cd_bookings d)))))))"

definition timetable ::
  "(string \<Rightarrow> int option) \<Rightarrow> (string \<Rightarrow> 'k::linorder) \<Rightarrow> int \<Rightarrow> string \<Rightarrow> string \<Rightarrow> timetable_day list course_action" where
  "timetable pg_date ck room from_date to_date c = (case campus_regimes c of
     (Inl _, c1) \<Rightarrow> (Inl (CourseDb ''list regimes for timetable''), c1)
   | (Inr regimes, c1) \<Rightarrow>
       dbind (list_sessions pg_date ck 0 room from_date to_date) (\<lambda>ss.
       dbind (list_active_bookings pg_date room from_date to_date) (\<lambda>bs.
       case build_days regimes ss bs from_date to_date of
         None \<Rightarrow> draise (CourseDb ''invalid date'') | Some days \<Rightarrow> dret days)) c1)"

definition parse_timetable_params :: "(string \<Rightarrow> string) \<Rightarrow> string + int \<times> string \<times> string" where
  "parse_timetable_params q = (case atoi (q ''classroom_id'') of
     None \<Rightarrow> Inl ''classroom_id is required''
   | Some room \<Rightarrow>
       if room \<le> 0 then Inl ''classroom_id is required''
       else if q ''from'' = [] \<or> q ''to'' = [] then Inl ''from and to dates are required (YYYY-MM-DD)''
       else Inr (room, q ''from'', q ''to''))"

definition timetable_h ::
  "(string \<Rightarrow> int option) \<Rightarrow> (string \<Rightarrow> 'k::linorder) \<Rightarrow> (string \<Rightarrow> string) \<Rightarrow> campus_db conn \<Rightarrow>
   timetable_day list response \<times> campus_db conn" where
  "timetable_h pg_date ck q c = (case parse_timetable_params q of
     Inl msg \<Rightarrow> (RespError 400 msg, c)
   | Inr (room, from_date, to_date) \<Rightarrow> (case timetable pg_date ck room from_date to_date c of
       (Inl _, c') \<Rightarrow> (RespError 500 ''could not build timetable'', c')
     | (Inr days, c') \<Rightarrow> (RespJSON 200 days, c')))"

subsection \<open>Spreadsheet\<close>

datatype cell_style = LabelStyle | SessionStyle | BookingStyle | EmptyStyle

datatype grid_op =
  SetCell nat int string
| StyleCells nat int int cell_style
| MergeCells nat int int

definition weekday_names :: "string list" where
  "weekday_names = [(hx ''e591a8e4b880''), (hx ''e591a8e4ba8c''), (hx ''e591a8e4b889''), (hx ''e591a8e59b9b''), (hx ''e591a8e4ba94''), (hx ''e591a8e585ad''), (hx ''e591a8e697a5'')]"

definition nl :: string where "nl = [CHR 0x0A]"

text \<open>The period rows: the union over the week, the first slot of an index giving the times.\<close>

definition grid_periods :: "timetable_day list \<Rightarrow> timetable_slot list" where
  "grid_periods days = sort_key ts_index (first_wins (\<lambda>_. True) ts_index [] (concat (map td_slots days)))"

definition day_label :: "timetable_day \<Rightarrow> string" where
  "day_label d =
     (if 1 \<le> td_weekday d \<and> td_weekday d \<le> 7 then weekday_names ! nat (td_weekday d - 1) else []) @ nl @
     (if length (td_date d) \<ge> 10 then drop 5 (td_date d) else td_date d) @
     (if td_regime d \<noteq> [] then nl @ td_regime d else [])"

definition header_ops :: "timetable_day list \<Rightarrow> grid_op list" where
  "header_ops days = [SetCell 1 1 (hx ''e88a82e6aca1''), StyleCells 1 1 1 LabelStyle] @
     concat (map (\<lambda>(i, d). [SetCell (i + 2) 1 (day_label d), StyleCells (i + 2) 1 1 LabelStyle]) (enumerate 0 days))"

definition slot_for :: "timetable_day \<Rightarrow> int \<Rightarrow> timetable_slot option" where
  "slot_for d p = List.find (\<lambda>s. ts_index s = p) (td_slots d)"

definition write_occupied :: "nat \<Rightarrow> int \<Rightarrow> int \<Rightarrow> int \<Rightarrow> string list \<Rightarrow> cell_style \<Rightarrow> grid_op list" where
  "write_occupied col row span last_row lines style =
     (let bottom = (if row + span - 1 > last_row then last_row else row + span - 1)
      in [SetCell col row (go_join nl (filter (\<lambda>l. l \<noteq> []) lines)), StyleCells col row bottom style] @
         (if bottom > row then [MergeCells col row bottom] else []))"

definition booking_block :: "booking_view \<Rightarrow> int \<times> string list \<times> cell_style" where
  "booking_block v = (bv_end v - bv_start v + 1,
     [hx ''e9a284e7baa6'', bv_purpose v, if bv_display_name v = [] then bv_username v else bv_display_name v], BookingStyle)"

text \<open>The occupant whose block starts at a period: the number of periods, the lines, the style.\<close>

definition starting_here :: "timetable_slot \<Rightarrow> int \<Rightarrow> (int \<times> string list \<times> cell_style) option" where
  "starting_here sl p =
     (case (ts_session sl, ts_booking sl) of
        (Some s, b) \<Rightarrow>
          if sw_start s = p
          then Some (sw_end s - sw_start s + 1, [sw_course_name s, sw_class_name s, sw_teacher s], SessionStyle)
          else map_option booking_block (Option.bind b (\<lambda>v. if bv_start v = p then Some v else None))
      | (None, b) \<Rightarrow> map_option booking_block (Option.bind b (\<lambda>v. if bv_start v = p then Some v else None)))"

text \<open>One cell of a row; the number is \<open>skip[di]\<close>, the row up to which the column is already covered.\<close>

definition grid_cell :: "int \<Rightarrow> int \<Rightarrow> int \<Rightarrow> nat \<Rightarrow> timetable_day \<Rightarrow> int \<Rightarrow> int \<times> grid_op list" where
  "grid_cell last_row ri p di d skip =
     (let col = di + 2; row = ri + 2; free = (skip, [StyleCells col row row EmptyStyle])
      in if ri < skip then (skip, [])
         else (case slot_for d p of None \<Rightarrow> free
           | Some sl \<Rightarrow>
             if ts_session sl = None \<and> ts_booking sl = None then free
             else (case starting_here sl p of
                 Some (span, lines, style) \<Rightarrow> (ri + span, write_occupied col row span last_row lines style)
               | None \<Rightarrow> (skip, []))))"

definition period_label :: "timetable_slot \<Rightarrow> string" where
  "period_label p = hx ''e7acac20'' @ itoa (ts_index p) @ hx ''20e88a82'' @ nl @ ts_start_time p @ ''-'' @ ts_end_time p"

fun grid_rows :: "int \<Rightarrow> timetable_day list \<Rightarrow> int \<Rightarrow> timetable_slot list \<Rightarrow> int list \<Rightarrow> grid_op list" where
  "grid_rows last_row days ri [] skip = []"
| "grid_rows last_row days ri (p # ps) skip =
     (let cells = map (\<lambda>(di, d, sk). grid_cell last_row ri (ts_index p) di d sk) (enumerate 0 (zip days skip))
      in [SetCell 1 (ri + 2) (period_label p), StyleCells 1 (ri + 2) (ri + 2) LabelStyle] @ concat (map snd cells) @
         grid_rows last_row days (ri + 1) ps (map fst cells))"

definition build_grid :: "timetable_day list \<Rightarrow> grid_op list" where
  "build_grid days =
     (let ps = grid_periods days
      in header_ops days @ grid_rows (1 + int (length ps)) days 0 ps (replicate (length days) 0))"

text \<open>A byte that is no valid encoding is written as U+FFFD.\<close>

definition sanitize_filename :: "string \<Rightarrow> string" where
  "sanitize_filename s =
     (let keep = (\<lambda>r. r \<notin> set (map (\<lambda>c. [c]) ''<>:/?*'') \<and> r \<noteq> [CHR 0x5C] \<and> r \<noteq> [CHR 0x22] \<and> r \<noteq> [CHR 0x7C] \<and>
             \<not> (length r = 1 \<and> (of_char (hd r) :: nat) < 32));
          rune = (\<lambda>r. if length r = 1 \<and> (of_char (hd r) :: nat) \<ge> 128 then hx ''efbfbd'' else r)
      in rev (dropWhile (\<lambda>c. c = CHR ''.'' \<or> c = CHR '' '')
           (rev (concat (map rune (filter keep (runes (trim_space s))))))))"

definition timetable_filename :: "string \<Rightarrow> string \<Rightarrow> string \<Rightarrow> string" where
  "timetable_filename room from_date to_date =
     sanitize_filename room @ hx ''e69599e5aea4e591a8e8afbee8a1a85f'' @ from_date @ ''~'' @ to_date @ ''.xlsx''"

definition timetableExport_h ::
  "(string \<Rightarrow> int option) \<Rightarrow> (string \<Rightarrow> 'k::linorder) \<Rightarrow> (string \<Rightarrow> string) \<Rightarrow> campus_db conn \<Rightarrow>
   (string \<times> grid_op list) response \<times> campus_db conn" where
  "timetableExport_h pg_date ck q c = (case parse_timetable_params q of
     Inl msg \<Rightarrow> (RespError 400 msg, c)
   | Inr (room, from_date, to_date) \<Rightarrow> (case get_classroom room c of
       (Inl ClassroomNotFound, c') \<Rightarrow> (RespError 404 ''classroom not found'', c')
     | (Inl _, c') \<Rightarrow> (RespError 500 ''could not load classroom'', c')
     | (Inr cr, c1) \<Rightarrow> (case timetable pg_date ck room from_date to_date c1 of
         (Inl _, c') \<Rightarrow> (RespError 500 ''could not build timetable'', c')
       | (Inr days, c') \<Rightarrow> (RespJSON 200 (timetable_filename (cl_name cr) from_date to_date, build_grid days), c'))))"

subsection \<open>Free cells\<close>

text \<open>Reading one room's occupants: nothing of the room dangles.\<close>

definition room_joined :: "campus_db \<Rightarrow> int \<Rightarrow> bool" where
  "room_joined d room \<longleftrightarrow>
     (\<forall>s \<in> set (cd_sessions d). ss_classroom s = room \<longrightarrow> session_join d s \<noteq> None) \<and>
     (\<forall>b \<in> set (cd_bookings d). bk_classroom b = room \<and> active_status (bk_status b) \<longrightarrow> booking_view_of d b \<noteq> None)"

definition four_digit_day :: "int \<Rightarrow> bool" where
  "four_digit_day day \<longleftrightarrow> 0 \<le> year_of day \<and> year_of day \<le> 9999"

lemma session_join_fields:
  "session_join d s = Some v \<Longrightarrow> sw_id v = ss_id s \<and> sw_date v = format_date (ss_date s) \<and> sw_start v = ss_start s \<and>
     sw_end v = ss_end s \<and> sw_classroom v = ss_classroom s \<and> sw_class_names v = []"
  by (auto simp: session_join_def bind_eq_Some_conv)

lemma booking_view_fields:
  "booking_view_of d b = Some v \<Longrightarrow> bv_id v = bk_id b \<and> bv_date v = format_date (bk_date b) \<and> bv_start v = bk_start b \<and>
     bv_end v = bk_end b \<and> bv_classroom v = bk_classroom b"
  by (auto simp: booking_view_of_def split: option.splits)

definition room_sessions :: "campus_db \<Rightarrow> int \<Rightarrow> int \<Rightarrow> int \<Rightarrow> session_view list" where
  "room_sessions d room lo hi = map snd (filter (\<lambda>(s, v). ss_classroom s = room \<and> lo \<le> ss_date s \<and> ss_date s \<le> hi)
     (List.map_filter (\<lambda>s. map_option (Pair s) (session_join d s))
       (sort_key (\<lambda>s. (ss_date s, ss_start s, ss_end s)) (cd_sessions d))))"

definition room_bookings :: "campus_db \<Rightarrow> int \<Rightarrow> int \<Rightarrow> int \<Rightarrow> booking_view list" where
  "room_bookings d room lo hi = List.map_filter (booking_view_of d) (sort_key (\<lambda>b. (bk_date b, bk_start b, bk_id b))
     (filter (\<lambda>b. bk_classroom b = room \<and> lo \<le> bk_date b \<and> bk_date b \<le> hi \<and> active_status (bk_status b)) (cd_bookings d)))"

lemma in_room_sessions:
  "v \<in> set (room_sessions d room lo hi) \<longleftrightarrow>
     (\<exists>s \<in> set (cd_sessions d). session_join d s = Some v \<and> ss_classroom s = room \<and> lo \<le> ss_date s \<and> ss_date s \<le> hi)"
  by (force simp: room_sessions_def List.map_filter_def)

lemma in_room_bookings:
  "v \<in> set (room_bookings d room lo hi) \<longleftrightarrow>
     (\<exists>b \<in> set (cd_bookings d). booking_view_of d b = Some v \<and> bk_classroom b = room \<and> lo \<le> bk_date b \<and>
        bk_date b \<le> hi \<and> active_status (bk_status b))"
  by (force simp: room_bookings_def List.map_filter_def)

lemma list_sessions_healthy:
  assumes "0 < room" and "pg_date from_date = Some lo" and "pg_date to_date = Some hi" and "from_date \<noteq> []" and "to_date \<noteq> []"
  shows "\<exists>names. list_sessions pg_date ck 0 room from_date to_date (healthy d) =
    (Inr (map (\<lambda>v. v\<lparr>sw_class_names := names (sw_id v)\<rparr>) (room_sessions d room lo hi)), healthy d)"
proof -
  have sel: "select_sessions pg_date (=) \<lparr>sf_offering = 0, sf_classroom = room, sf_from = from_date, sf_to = to_date, sf_q = []\<rparr> d =
      Some (room_sessions d room lo hi)"
    using assms by (simp add: select_sessions_def date_bound_def session_selected_def room_sessions_def case_prod_unfold)
  have names: "\<exists>names. class_names_by_session ck ids (healthy d) = (Inr names, healthy d)" for ids
    by (cases "ids = []") (simp_all add: class_names_by_session_def)
  obtain names where "class_names_by_session ck (map sw_id (room_sessions d room lo hi)) (healthy d) = (Inr names, healthy d)"
    using names by blast
  then show ?thesis
    by (intro exI [of _ names]) (simp add: list_sessions_def sel attach_session_names_def)
qed

lemma list_active_bookings_healthy:
  "pg_date from_date = Some lo \<Longrightarrow> pg_date to_date = Some hi \<Longrightarrow>
   list_active_bookings pg_date room from_date to_date (healthy d) = (Inr (room_bookings d room lo hi), healthy d)"
  by (simp add: list_active_bookings_def room_bookings_def)

lemma find_rev_None: "List.find P (rev xs) = None \<longleftrightarrow> (\<forall>x \<in> set xs. \<not> P x)"
  by (auto simp: find_None_iff)

lemma session_covered:
  assumes "room_joined d room" and "a \<le> day" and "day \<le> b" and "\<And>x. a \<le> x \<Longrightarrow> x \<le> b \<Longrightarrow> four_digit_day x"
  shows "(\<exists>v \<in> set (room_sessions d room a b). sw_date v = format_date day \<and> sw_start v \<le> p \<and> p \<le> sw_end v) \<longleftrightarrow>
    session_in_slot d room day p p"
proof
  assume "\<exists>v \<in> set (room_sessions d room a b). sw_date v = format_date day \<and> sw_start v \<le> p \<and> p \<le> sw_end v"
  then obtain v s where v: "sw_date v = format_date day" "sw_start v \<le> p" "p \<le> sw_end v" and s: "s \<in> set (cd_sessions d)"
    "session_join d s = Some v" "ss_classroom s = room" "a \<le> ss_date s" "ss_date s \<le> b"
    by (auto simp: in_room_sessions)
  note f = session_join_fields [OF s(2)]
  have "ss_date s = day"
    using format_date_inj [of "ss_date s" day] assms(2-4) s(4,5) v(1) f by (simp add: four_digit_day_def)
  with v s f show "session_in_slot d room day p p"
    by (auto simp: session_in_slot_def list_ex_iff overlaps_def intro!: bexI [of _ s])
next
  assume "session_in_slot d room day p p"
  then obtain s where s: "s \<in> set (cd_sessions d)" "ss_classroom s = room" "ss_date s = day" "ss_start s \<le> p" "p \<le> ss_end s"
    by (auto simp: session_in_slot_def list_ex_iff overlaps_def)
  then obtain v where v: "session_join d s = Some v" using assms(1) by (auto simp: room_joined_def)
  then have "v \<in> set (room_sessions d room a b)" using s assms(2,3) unfolding in_room_sessions by blast
  then show "\<exists>v \<in> set (room_sessions d room a b). sw_date v = format_date day \<and> sw_start v \<le> p \<and> p \<le> sw_end v"
    using s session_join_fields [OF v] by (intro bexI [of _ v]) simp_all
qed

lemma booking_covered:
  assumes "room_joined d room" and "a \<le> day" and "day \<le> b" and "\<And>x. a \<le> x \<Longrightarrow> x \<le> b \<Longrightarrow> four_digit_day x"
  shows "(\<exists>v \<in> set (room_bookings d room a b). bv_date v = format_date day \<and> bv_start v \<le> p \<and> p \<le> bv_end v) \<longleftrightarrow>
    booking_in_slot d room day p p"
proof
  assume "\<exists>v \<in> set (room_bookings d room a b). bv_date v = format_date day \<and> bv_start v \<le> p \<and> p \<le> bv_end v"
  then obtain v x where v: "bv_date v = format_date day" "bv_start v \<le> p" "p \<le> bv_end v" and x: "x \<in> set (cd_bookings d)"
    "booking_view_of d x = Some v" "bk_classroom x = room" "a \<le> bk_date x" "bk_date x \<le> b" "active_status (bk_status x)"
    by (auto simp: in_room_bookings)
  note f = booking_view_fields [OF x(2)]
  have "bk_date x = day"
    using format_date_inj [of "bk_date x" day] assms(2-4) x(4,5) v(1) f by (simp add: four_digit_day_def)
  with v x f show "booking_in_slot d room day p p"
    by (auto simp: booking_in_slot_def list_ex_iff overlaps_def intro!: bexI [of _ x])
next
  assume "booking_in_slot d room day p p"
  then obtain x where x: "x \<in> set (cd_bookings d)" "bk_classroom x = room" "bk_date x = day" "active_status (bk_status x)"
    "bk_start x \<le> p" "p \<le> bk_end x"
    by (auto simp: booking_in_slot_def list_ex_iff overlaps_def)
  then obtain v where v: "booking_view_of d x = Some v" using assms(1) by (auto simp: room_joined_def)
  then have "v \<in> set (room_bookings d room a b)" using x assms(2,3) unfolding in_room_bookings by blast
  then show "\<exists>v \<in> set (room_bookings d room a b). bv_date v = format_date day \<and> bv_start v \<le> p \<and> p \<le> bv_end v"
    using x booking_view_fields [OF v] by (intro bexI [of _ v]) simp_all
qed

lemma slot_free_iff:
  assumes "room_joined d room" and "a \<le> day" and "day \<le> b" and "\<And>x. a \<le> x \<Longrightarrow> x \<le> b \<Longrightarrow> four_digit_day x"
    and "ss = map (\<lambda>v. v\<lparr>sw_class_names := names (sw_id v)\<rparr>) (room_sessions d room a b)"
  shows "ts_session (slot_of ss (room_bookings d room a b) (format_date day) p) = None \<and>
     ts_booking (slot_of ss (room_bookings d room a b) (format_date day) p) = None \<longleftrightarrow>
     slot_free d room day (pd_index p) (pd_index p)"
proof -
  have "session_at ss (format_date day) (pd_index p) = None \<longleftrightarrow> \<not> session_in_slot d room day (pd_index p) (pd_index p)"
    using session_covered [OF assms(1-4), of "pd_index p"] unfolding session_at_def find_rev_None assms(5) by auto
  moreover have "booking_at (room_bookings d room a b) (format_date day) (pd_index p) = None \<longleftrightarrow>
      \<not> booking_in_slot d room day (pd_index p) (pd_index p)"
    using booking_covered [OF assms(1-4), of "pd_index p"] unfolding booking_at_def find_rev_None by auto
  ultimately show ?thesis by (auto simp: slot_of_def Let_def slot_free_def)
qed

lemma timetable_healthy:
  assumes "0 < room" and "pg_date from_date = Some a" and "pg_date to_date = Some b"
    and "parse_date from_date = Some a" and "parse_date to_date = Some b"
  shows "\<exists>names. timetable pg_date ck room from_date to_date (healthy d) =
    (Inr (map (day_of_grid (map (read_regime (cd_schedule d)) (select_regimes (cd_schedule d)))
        (map (\<lambda>v. v\<lparr>sw_class_names := names (sw_id v)\<rparr>) (room_sessions d room a b)) (room_bookings d room a b)) [a..b]), healthy d)"
proof -
  have ne: "from_date \<noteq> []" "to_date \<noteq> []" using assms(4,5) by (auto simp: parse_date_def)
  obtain names where n: "list_sessions pg_date ck 0 room from_date to_date (healthy d) =
      (Inr (map (\<lambda>v. v\<lparr>sw_class_names := names (sw_id v)\<rparr>) (room_sessions d room a b)), healthy d)"
    using list_sessions_healthy [OF assms(1-3) ne] by blast
  show ?thesis
    by (intro exI [of _ names])
      (simp add: timetable_def campus_regimes_healthy dbind_def n list_active_bookings_healthy [OF assms(2,3)]
        build_days_def assms(4,5))
qed

subsection \<open>Properties\<close>

text \<open>
  C29: the timetable tells the truth about free rooms. For a range of dates it has one entry per day, in order, with the periods of the regime active that
  day in ascending order; and when no row of the room dangles, a cell is empty exactly when the slot
  is free in the sense of the conflict checks of sessions and bookings.
\<close>

theorem timetable_free_cells:
  assumes "0 < room" and "pg_date from_date = Some a" and "pg_date to_date = Some b"
    and "parse_date from_date = Some a" and "parse_date to_date = Some b"
    and "room_joined d room" and "\<And>x. a \<le> x \<Longrightarrow> x \<le> b \<Longrightarrow> four_digit_day x"
  shows "\<exists>days. timetable pg_date ck room from_date to_date (healthy d) = (Inr days, healthy d) \<and>
    map td_date days = map format_date [a..b] \<and>
    (\<forall>k < length days. sorted (map ts_index (td_slots (days ! k))) \<and>
      set (map ts_index (td_slots (days ! k))) =
        (case active_for (map (read_regime (cd_schedule d)) (select_regimes (cd_schedule d))) (a + int k) of
           None \<Rightarrow> {} | Some r \<Rightarrow> period_index_set r) \<and>
      (\<forall>sl \<in> set (td_slots (days ! k)). ts_session sl = None \<and> ts_booking sl = None \<longleftrightarrow>
         slot_free d room (a + int k) (ts_index sl) (ts_index sl)))"
proof -
  let ?regs = "map (read_regime (cd_schedule d)) (select_regimes (cd_schedule d))"
  obtain names where t: "timetable pg_date ck room from_date to_date (healthy d) =
    (Inr (map (day_of_grid ?regs (map (\<lambda>v. v\<lparr>sw_class_names := names (sw_id v)\<rparr>) (room_sessions d room a b))
      (room_bookings d room a b)) [a..b]), healthy d)" (is "_ = (Inr (map (day_of_grid ?regs ?ss ?bs) _), _)")
    using timetable_healthy [OF assms(1-5)] by blast
  have idx: "ts_index (slot_of ss bs date p) = pd_index p" for ss bs date p by (simp add: slot_of_def Let_def)
  have day: "sorted (map ts_index (td_slots (day_of_grid ?regs ?ss ?bs x))) \<and>
      set (map ts_index (td_slots (day_of_grid ?regs ?ss ?bs x))) =
        (case active_for ?regs x of None \<Rightarrow> {} | Some r \<Rightarrow> period_index_set r) \<and>
      (\<forall>sl \<in> set (td_slots (day_of_grid ?regs ?ss ?bs x)). ts_session sl = None \<and> ts_booking sl = None \<longleftrightarrow>
         slot_free d room x (ts_index sl) (ts_index sl))" if "a \<le> x" "x \<le> b" for x
    using slot_free_iff [OF assms(6) that assms(7) refl, of names]
    by (cases "active_for ?regs x") (auto simp: day_of_grid_def Let_def idx period_index_set_def image_image)
  have dates: "map td_date (map (day_of_grid ?regs ?ss ?bs) [a..b]) = map format_date [a..b]"
    by (auto simp: day_of_grid_def Let_def split: option.split)
  have nth: "map (day_of_grid ?regs ?ss ?bs) [a..b] ! k = day_of_grid ?regs ?ss ?bs (a + int k) \<and> a \<le> a + int k \<and> a + int k \<le> b"
    if "k < length (map (day_of_grid ?regs ?ss ?bs) [a..b])" for k
    using that by (simp add: nth_upto)
  show ?thesis
  proof (rule exI [of _ "map (day_of_grid ?regs ?ss ?bs) [a..b]"], intro conjI [OF t] conjI [OF dates] allI impI)
    fix k assume "k < length (map (day_of_grid ?regs ?ss ?bs) [a..b])"
    from nth [OF this] have n: "map (day_of_grid ?regs ?ss ?bs) [a..b] ! k = day_of_grid ?regs ?ss ?bs (a + int k)"
      and r: "a \<le> a + int k" "a + int k \<le> b" by blast+
    show "sorted (map ts_index (td_slots (map (day_of_grid ?regs ?ss ?bs) [a..b] ! k))) \<and>
        set (map ts_index (td_slots (map (day_of_grid ?regs ?ss ?bs) [a..b] ! k))) =
          (case active_for ?regs (a + int k) of None \<Rightarrow> {} | Some r \<Rightarrow> period_index_set r) \<and>
        (\<forall>sl \<in> set (td_slots (map (day_of_grid ?regs ?ss ?bs) [a..b] ! k)). ts_session sl = None \<and> ts_booking sl = None \<longleftrightarrow>
           slot_free d room (a + int k) (ts_index sl) (ts_index sl))"
      unfolding n by (rule day [OF r])
  qed
qed

theorem timetable_free_cells_witness:
  "\<exists>days. timetable parse_date id 1 ''2024-03-18'' ''2024-03-19'' (healthy demo_rooms) = (Inr days, healthy demo_rooms) \<and>
     map td_date days = map format_date [19800..19801]"
proof -
  have p: "parse_date ''2024-03-18'' = Some 19800" "parse_date ''2024-03-19'' = Some 19801" by code_simp+
  have y: "year_of 19800 = 2024 \<and> year_of 19801 = 2024" by code_simp
  have j: "room_joined demo_rooms 1" by (simp add: room_joined_def demo_rooms_simps)
  have f: "four_digit_day x" if "19800 \<le> x" "x \<le> 19801" for x
  proof -
    have "x = 19800 \<or> x = 19801" using that by auto
    then show ?thesis using y by (auto simp: four_digit_day_def)
  qed
  have r: "0 < (1::int)" by simp
  from timetable_free_cells [where ck = id, OF r p p j f] show ?thesis by blast
qed

text \<open>
  The spreadsheet counts the rows of a block by period numbers. When the periods of a regime were
  edited and a number in the middle of a session is gone, its block runs over the next period, and
  the session there is not written.
\<close>

definition demo_view :: "int \<Rightarrow> int \<Rightarrow> string \<Rightarrow> session_view" where
  "demo_view s e name = \<lparr>sw_id = s, sw_offering = 1, sw_classroom = 1, sw_date = ''2024-03-18'', sw_start = s, sw_end = e,
     sw_note = [], sw_created_at = 0, sw_course_name = name, sw_catalog_code = [], sw_class_name = [], sw_class_names = [],
     sw_teacher = [], sw_semester = [], sw_classroom_name = []\<rparr>"

definition demo_gap_day :: timetable_day where
  "demo_gap_day = \<lparr>td_date = ''2024-03-18'', td_weekday = 1, td_regime = [], td_slots =
     map (\<lambda>i. slot_of [demo_view 2 4 ''A'', demo_view 5 5 ''B''] [] ''2024-03-18''
       \<lparr>pd_id = i, pd_regime_id = 1, pd_index = i, pd_start = [], pd_end = []\<rparr>) [1, 2, 4, 5]\<rparr>"

theorem grid_loses_session:
  "map (\<lambda>sl. map_option sw_course_name (ts_session sl)) (td_slots demo_gap_day) = [None, Some ''A'', Some ''A'', Some ''B''] \<and>
   filter (\<lambda>op. case op of SetCell c _ _ \<Rightarrow> c = 2 | MergeCells c _ _ \<Rightarrow> c = 2 | _ \<Rightarrow> False) (tl (tl (tl (build_grid [demo_gap_day])))) =
     [SetCell 2 3 ''A'', MergeCells 2 3 5]"
  by code_simp

end
