(* ===== verification/Attendance.thy ===== *)
theory Attendance
  imports Session
begin

text \<open>
  Attendance (\<open>internal/attendance\<close>): check-ins of an offering, of a session or of nothing, the scans of
  students, the corrections of teachers, the derived absences and the reports. Instants are
  nanoseconds; the clock readings of a request are parameters. The rates of the report are rendered
  by a parameter (\<open>%.1f%%\<close> of a float), and so are local dates of instants. A SELECT without ORDER BY
  keeps the table order, GROUP BY the first occurrences.
\<close>

subsection \<open>Data\<close>

record checkin =
  ci_id :: int
  ci_offering :: "int option"
  ci_session :: "int option"
  ci_title :: string
  ci_code :: string
  ci_late_minutes :: int
  ci_status :: string
  ci_starts_at :: int
  ci_expires_at :: "int option"
  ci_created_by :: int
  ci_created_at :: int
  ci_closed_at :: "int option"

record check_record =
  cr_id :: int
  cr_checkin :: int
  cr_user :: int
  cr_status :: string
  cr_checked_at :: "int option"
  cr_modified_by :: "int option"
  cr_modified_at :: "int option"
  cr_created_at :: int

record att_db =
  at_campus :: campus_db
  at_checkins :: "checkin list"
  at_records :: "check_record list"
  at_next_checkin :: int
  at_next_record :: int

record check_counts =
  cc_expected :: int
  cc_present :: int
  cc_late :: int
  cc_absent :: int
  cc_leave :: int

text \<open>A view: the row with NULL ids read as 0 and the effective status.\<close>

record checkin_view =
  cv_id :: int
  cv_offering :: int
  cv_session :: int
  cv_title :: string
  cv_code :: string
  cv_late_minutes :: int
  cv_status :: string
  cv_starts_at :: int
  cv_expires_at :: "int option"
  cv_created_by :: int
  cv_created_at :: int
  cv_closed_at :: "int option"
  cv_course_name :: string
  cv_class_name :: string
  cv_semester :: string
  cv_teacher :: string
  cv_session_text :: string
  cv_counts :: check_counts

record checkin_input =
  ki_offering :: int
  ki_session :: int
  ki_title :: string
  ki_late_minutes :: int
  ki_duration_minute :: int

record record_view =
  rv_checkin :: int
  rv_user :: int
  rv_display_name :: string
  rv_student_no :: string
  rv_admin_class :: string
  rv_status :: string
  rv_checked_at :: "int option"
  rv_modified_at :: "int option"
  rv_in_roster :: bool

record scan_result =
  sr_checkin :: int
  sr_title :: string
  sr_status :: string
  sr_is_new :: bool
  sr_in_roster :: bool

record summary_row =
  sm_user :: int
  sm_display_name :: string
  sm_student_no :: string
  sm_admin_class :: string
  sm_in_roster :: bool
  sm_records :: "(int \<times> string) list"
  sm_totals :: "string \<Rightarrow> int"

record offering_summary =
  os_offering :: int
  os_course_name :: string
  os_class_name :: string
  os_semester :: string
  os_teacher :: string
  os_checkins :: "checkin_view list"
  os_rows :: "summary_row list"

record my_checkin_view =
  mv_checkin :: int
  mv_title :: string
  mv_course_name :: string
  mv_class_name :: string
  mv_session_text :: string
  mv_starts_at :: int
  mv_status :: string
  mv_checked_at :: "int option"

record checkin_filter =
  cf_offering :: int
  cf_session :: int
  cf_status :: string
  cf_from :: string
  cf_to :: string
  cf_q :: string

text \<open>The clock of one request: two readings of the backend, and \<open>now()\<close> of the database.\<close>

record att_clock =
  ak_now :: int
  ak_later :: int
  ak_db :: int

datatype att_error =
  CheckinNotFound | CheckinNotActive | CheckinExpired | CodeNotFound | InvalidStatus | OfferingMismatch
| TitleRequired | RecordUserNotFound | AttDb string

type_synonym 'a att_action = "(att_db, att_error, 'a) action"

definition record_statuses :: "string list" where
  "record_statuses = [''present'', ''absent'', ''late'', ''leave'']"

definition valid_record_status :: "string \<Rightarrow> bool" where
  "valid_record_status s \<longleftrightarrow> s \<in> set record_statuses"

definition minute_ns :: int where "minute_ns = 60000000000"

text \<open>\<open>time.Duration(n) * time.Minute\<close>: a 64-bit product.\<close>

definition minutes :: "int \<Rightarrow> int" where
  "minutes n = wrap64 (n * minute_ns)"

definition null_if_zero :: "int \<Rightarrow> int option" where
  "null_if_zero i = (if i = 0 then None else Some i)"

definition null_int :: "int option \<Rightarrow> int" where
  "null_int v = (case v of None \<Rightarrow> 0 | Some i \<Rightarrow> i)"

definition period_text :: "int \<Rightarrow> int \<Rightarrow> string" where
  "period_text ps pe =
     (if ps \<le> 0 then []
      else if pe \<le> 0 \<or> pe = ps then hx ''e7acac'' @ itoa ps @ hx ''e88a82''
      else hx ''e7acac'' @ itoa ps @ ''-'' @ itoa pe @ hx ''e88a82'')"

subsection \<open>Joins\<close>

definition find_checkin :: "att_db \<Rightarrow> int \<Rightarrow> checkin option" where
  "find_checkin d i = List.find (\<lambda>k. ci_id k = i) (at_checkins d)"

definition find_record :: "att_db \<Rightarrow> int \<Rightarrow> int \<Rightarrow> check_record option" where
  "find_record d k u = List.find (\<lambda>r. cr_checkin r = k \<and> cr_user r = u) (at_records d)"

text \<open>
  Profiles joined with the members of teaching classes and with the offering: one row per profile,
  membership and offering that meet.
\<close>

definition roster_join :: "campus_db \<Rightarrow> int \<Rightarrow> student_profile list" where
  "roster_join d off = [p. p \<leftarrow> cd_profiles d, m \<leftarrow> cd_members d, snd m = pr_class p,
     f \<leftarrow> cd_offerings d, of_teaching_class f = fst m \<and> of_id f = off]"

definition roster_exists :: "campus_db \<Rightarrow> int \<Rightarrow> int \<Rightarrow> bool" where
  "roster_exists d off u \<longleftrightarrow> list_ex (\<lambda>p. pr_user p = u) (roster_join d off)"

definition roster_count :: "campus_db \<Rightarrow> int \<Rightarrow> int" where
  "roster_count d off = int (length (remdups (map pr_user (roster_join d off))))"

text \<open>Record rows of one check-in that meet a roster row.\<close>

definition roster_records :: "att_db \<Rightarrow> int \<Rightarrow> int \<Rightarrow> int" where
  "roster_records d off k =
     int (length [r. r \<leftarrow> at_records d, cr_checkin r = k, p \<leftarrow> roster_join (at_campus d) off, pr_user p = cr_user r])"

definition records_with :: "att_db \<Rightarrow> int \<Rightarrow> string \<Rightarrow> int" where
  "records_with d k st = int (length (filter (\<lambda>r. cr_checkin r = k \<and> cr_status r = st) (at_records d)))"

definition no_counts :: check_counts where
  "no_counts = \<lparr>cc_expected = 0, cc_present = 0, cc_late = 0, cc_absent = 0, cc_leave = 0\<rparr>"

text \<open>\<open>checkinSelect\<close> with its LEFT JOINs, scanned: an active check-in past its expiry reads as closed.\<close>

definition checkin_offering :: "att_db \<Rightarrow> checkin \<Rightarrow> offering option" where
  "checkin_offering d k = Option.bind (ci_offering k) (find_offering (at_campus d))"

definition checkin_course :: "att_db \<Rightarrow> checkin \<Rightarrow> string option" where
  "checkin_course d k =
     Option.bind (checkin_offering d k) (\<lambda>f. map_option ca_name (find_catalog (at_campus d) (of_catalog f)))"

definition checkin_class :: "att_db \<Rightarrow> checkin \<Rightarrow> string option" where
  "checkin_class d k =
     Option.bind (checkin_offering d k) (\<lambda>f. map_option tr_name (find_teaching_class (at_campus d) (of_teaching_class f)))"

definition null_text :: "string option \<Rightarrow> string" where
  "null_text v = (case v of None \<Rightarrow> [] | Some s \<Rightarrow> s)"

definition checkin_session_text :: "att_db \<Rightarrow> checkin \<Rightarrow> string" where
  "checkin_session_text d k = (case Option.bind (ci_session k) (find_session (at_campus d)) of
      None \<Rightarrow> [] | Some s \<Rightarrow> format_date (ss_date s) @ '' '' @ period_text (ss_start s) (ss_end s))"

definition effective_status :: "int \<Rightarrow> checkin \<Rightarrow> string" where
  "effective_status now k =
     (if ci_status k = ''active'' \<and> (case ci_expires_at k of None \<Rightarrow> False | Some t \<Rightarrow> now > t) then ''closed'' else ci_status k)"

definition checkin_view_of :: "int \<Rightarrow> att_db \<Rightarrow> checkin \<Rightarrow> checkin_view" where
  "checkin_view_of now d k =
     \<lparr>cv_id = ci_id k, cv_offering = null_int (ci_offering k), cv_session = null_int (ci_session k),
      cv_title = ci_title k, cv_code = ci_code k, cv_late_minutes = ci_late_minutes k,
      cv_status = effective_status now k, cv_starts_at = ci_starts_at k, cv_expires_at = ci_expires_at k,
      cv_created_by = ci_created_by k, cv_created_at = ci_created_at k, cv_closed_at = ci_closed_at k,
      cv_course_name = null_text (checkin_course d k), cv_class_name = null_text (checkin_class d k),
      cv_semester = null_text (map_option of_semester (checkin_offering d k)),
      cv_teacher = null_text (map_option of_teacher (checkin_offering d k)),
      cv_session_text = checkin_session_text d k, cv_counts = no_counts\<rparr>"

subsection \<open>Views with counts\<close>

text \<open>
  \<open>backfillCounts\<close>: the records by status, then for every offering of the list its roster size and the
  roster students that have a record. The offerings come in the order of the list (a Go map visits
  them in any order, but \<open>GetCheckin\<close>, the only caller, passes at most one view).
\<close>

definition backfill_counts :: "checkin_view list \<Rightarrow> checkin_view list att_action" where
  "backfill_counts vs =
     dbind (query (AttDb ''checkin record counts'') (\<lambda>d k st. records_with d k st)) (\<lambda>stat.
     dbind (dtraverse (\<lambda>off.
         dbind (query (AttDb ''roster count'') (\<lambda>d. roster_count (at_campus d) off)) (\<lambda>expected.
         dbind (query (AttDb ''roster record counts'') (\<lambda>d k. roster_records d off k)) (\<lambda>have.
         dret (off, expected, have))))
       (remdups (map cv_offering (filter (\<lambda>v. cv_offering v > 0) vs)))) (\<lambda>rosters.
     dret (map (\<lambda>v.
       let k = cv_id v;
           (expected, rows) = (case map_of rosters (cv_offering v) of None \<Rightarrow> (0, 0) | Some (e, have) \<Rightarrow> (e, have k))
       in v\<lparr>cv_counts := \<lparr>cc_expected = expected, cc_present = stat k ''present'', cc_late = stat k ''late'',
            cc_absent = stat k ''absent'' + (expected - rows), cc_leave = stat k ''leave''\<rparr>\<rparr>) vs)))"

definition get_checkins :: "int \<Rightarrow> (checkin \<Rightarrow> bool) \<Rightarrow> checkin_view list att_action" where
  "get_checkins now cond =
     dbind (query (AttDb ''get checkins'') (\<lambda>d. map (checkin_view_of now d) (filter cond (at_checkins d)))) (\<lambda>vs.
     if vs = [] then dret [] else backfill_counts vs)"

definition get_checkin :: "int \<Rightarrow> int \<Rightarrow> checkin_view att_action" where
  "get_checkin now i =
     dbind (get_checkins now (\<lambda>k. ci_id k = i)) (\<lambda>vs. case vs of [] \<Rightarrow> draise CheckinNotFound | v # _ \<Rightarrow> dret v)"

subsection \<open>Creating, listing, closing\<close>

text \<open>The loaded session or offering behind a new check-in: offering id and title.\<close>

definition anchor_of :: "checkin_input \<Rightarrow> (int \<times> string) att_action" where
  "anchor_of inp =
     (let title = trim_space (ki_title inp)
      in if ki_session inp > 0 then
           dbind (query_row (AttDb ''load session'') CheckinNotFound (\<lambda>d.
             Option.bind (find_session (at_campus d) (ki_session inp)) (\<lambda>s.
             Option.bind (find_offering (at_campus d) (ss_offering s)) (\<lambda>f.
             Option.bind (find_catalog (at_campus d) (of_catalog f)) (\<lambda>c.
             map_option (\<lambda>t. (s, ca_name c, tr_name t)) (find_teaching_class (at_campus d) (of_teaching_class f))))))) (\<lambda>(s, course, cls).
           if ki_offering inp \<noteq> 0 \<and> ss_offering s \<noteq> ki_offering inp then draise OfferingMismatch
           else dret (if ki_offering inp = 0 then ss_offering s else ki_offering inp,
             if title = [] then course @ '' '' @ cls @ '' '' @ format_date (ss_date s) @ '' '' @ period_text (ss_start s) (ss_end s)
             else title))
         else if ki_offering inp > 0 then
           dbind (query_row (AttDb ''load offering'') CheckinNotFound (\<lambda>d.
             Option.bind (find_offering (at_campus d) (ki_offering inp)) (\<lambda>f.
             Option.bind (find_catalog (at_campus d) (of_catalog f)) (\<lambda>c.
             map_option (\<lambda>t. (ca_name c, tr_name t)) (find_teaching_class (at_campus d) (of_teaching_class f)))))) (\<lambda>(course, cls).
           dret (ki_offering inp, if title = [] then course @ '' '' @ cls else title))
         else dret (ki_offering inp, title))"

definition new_checkin ::
  "att_clock \<Rightarrow> int \<Rightarrow> checkin_input \<Rightarrow> int \<Rightarrow> string \<Rightarrow> string \<Rightarrow> int \<Rightarrow> checkin" where
  "new_checkin clk by inp off title code i =
     \<lparr>ci_id = i, ci_offering = null_if_zero off, ci_session = null_if_zero (ki_session inp), ci_title = title, ci_code = code,
      ci_late_minutes = max 0 (ki_late_minutes inp), ci_status = ''active'', ci_starts_at = ak_now clk,
      ci_expires_at = (if ki_duration_minute inp > 0 then Some (ak_now clk + minutes (ki_duration_minute inp)) else None),
      ci_created_by = by, ci_created_at = ak_db clk, ci_closed_at = None\<rparr>"

definition insert_checkin :: "(int \<Rightarrow> checkin) \<Rightarrow> att_db \<Rightarrow> int written \<times> att_db" where
  "insert_checkin row d =
     (let k = row (at_next_checkin d)
      in if \<not> pg_text 128 (ci_title k) \<or> \<not> pg_text 6 (ci_code k) \<or> \<not> fits32 (ci_late_minutes k) then (Rejected, d)
         else if list_ex (\<lambda>x. ci_code x = ci_code k) (at_checkins d) then (Duplicate, d)
         else (Done (at_next_checkin d),
           d\<lparr>at_checkins := at_checkins d @ [k], at_next_checkin := at_next_checkin d + 1\<rparr>))"

text \<open>The retry loop: \<open>left\<close> attempts may still follow; attempt \<open>10 - left\<close> draws its code.\<close>

primrec code_attempts :: "(nat \<Rightarrow> string) \<Rightarrow> (string \<Rightarrow> int \<Rightarrow> checkin) \<Rightarrow> nat \<Rightarrow> int att_action" where
  "code_attempts codes row 0 =
     dbind (stmt (AttDb ''create checkin'') (insert_checkin (row (codes 10)))) (\<lambda>r.
       case r of Done i \<Rightarrow> dret i | Duplicate \<Rightarrow> draise (AttDb ''create checkin'') | Rejected \<Rightarrow> draise (AttDb ''create checkin''))"
| "code_attempts codes row (Suc left) =
     dbind (stmt (AttDb ''create checkin'') (insert_checkin (row (codes (10 - Suc left))))) (\<lambda>r.
       case r of Done i \<Rightarrow> dret i | Duplicate \<Rightarrow> code_attempts codes row left | Rejected \<Rightarrow> draise (AttDb ''create checkin''))"

definition scan_code :: "int \<Rightarrow> string" where
  "scan_code n = zero_pad 6 n"

definition create_checkin :: "att_clock \<Rightarrow> (nat \<Rightarrow> int) \<Rightarrow> checkin_input \<Rightarrow> int \<Rightarrow> checkin_view att_action" where
  "create_checkin clk rnd inp by =
     (if ki_offering inp = 0 \<and> trim_space (ki_title inp) = [] then draise TitleRequired
      else dbind (anchor_of inp) (\<lambda>(off, title).
           dbind (code_attempts (\<lambda>a. scan_code (rnd a)) (new_checkin clk by inp off title) 10) (\<lambda>i.
           get_checkin (ak_later clk) i)))"

definition checkin_where :: "checkin_filter \<Rightarrow> string \<times> sql_arg list" where
  "checkin_where f =
     (let qa = ('' WHERE 1=1'', []);
          qa = (if cf_offering f > 0 then bind_arg_text '' AND chk.offering_id = '' (AInt (cf_offering f)) [] qa else qa);
          qa = (if cf_session f > 0 then bind_arg_text '' AND chk.session_id = '' (AInt (cf_session f)) [] qa else qa);
          qa = (if cf_status f \<noteq> [] then bind_arg_text '' AND chk.status = '' (AStr (cf_status f)) [] qa else qa);
          qa = (if cf_from f \<noteq> [] then bind_arg_text '' AND chk.starts_at >= '' (AStr (cf_from f)) [] qa else qa);
          qa = (if cf_to f \<noteq> []
                then bind_arg_text '' AND chk.starts_at < ('' (AStr (cf_to f)) (''::date + INTERVAL '' @ [CHR 0x27] @ ''1 day'' @ [CHR 0x27] @ '')::timestamptz'') qa
                else qa)
      in if cf_q f \<noteq> []
         then let pat = AStr (like_pattern (escape_like (cf_q f)))
              in bind_arg_text '' OR o.semester ILIKE '' pat '')''
                   (bind_arg_text '' OR tc.name ILIKE '' pat []
                     (bind_arg_text '' OR c.name ILIKE '' pat []
                       (bind_arg_text '' AND (chk.title ILIKE '' pat [] qa)))
         else qa)"

text \<open>The database's readings of a date text: as an instant, and as the instant the next day begins.\<close>

record pg_instants =
  pg_instant :: "string \<Rightarrow> int option"
  pg_next_day :: "string \<Rightarrow> int option"

definition checkin_selected ::
  "(char \<Rightarrow> char \<Rightarrow> bool) \<Rightarrow> checkin_filter \<Rightarrow> int option \<Rightarrow> int option \<Rightarrow> att_db \<Rightarrow> checkin \<Rightarrow> bool" where
  "checkin_selected eq f lo hi d k \<longleftrightarrow>
     (cf_offering f > 0 \<longrightarrow> ci_offering k = Some (cf_offering f)) \<and>
     (cf_session f > 0 \<longrightarrow> ci_session k = Some (cf_session f)) \<and>
     (cf_status f \<noteq> [] \<longrightarrow> ci_status k = cf_status f) \<and>
     (case lo of None \<Rightarrow> True | Some t \<Rightarrow> ci_starts_at k \<ge> t) \<and>
     (case hi of None \<Rightarrow> True | Some t \<Rightarrow> ci_starts_at k < t) \<and>
     (cf_q f \<noteq> [] \<longrightarrow> contains eq (cf_q f) (ci_title k) \<or>
        (case checkin_course d k of None \<Rightarrow> False | Some s \<Rightarrow> contains eq (cf_q f) s) \<or>
        (case checkin_class d k of None \<Rightarrow> False | Some s \<Rightarrow> contains eq (cf_q f) s) \<or>
        (case checkin_offering d k of None \<Rightarrow> False | Some o' \<Rightarrow> contains eq (cf_q f) (of_semester o')))"

definition select_checkins ::
  "pg_instants \<Rightarrow> (char \<Rightarrow> char \<Rightarrow> bool) \<Rightarrow> checkin_filter \<Rightarrow> att_db \<Rightarrow> checkin list option" where
  "select_checkins pg eq f d =
     Option.bind (date_bound (pg_instant pg) (cf_from f)) (\<lambda>lo.
     Option.bind (date_bound (pg_next_day pg) (cf_to f)) (\<lambda>hi.
     Some (filter (checkin_selected eq f lo hi d) (sort_key (\<lambda>k. (- ci_starts_at k, - ci_id k)) (at_checkins d)))))"

definition page_checkins ::
  "pg_instants \<Rightarrow> (char \<Rightarrow> char \<Rightarrow> bool) \<Rightarrow> int \<Rightarrow> checkin_filter \<Rightarrow> pagination \<Rightarrow> (checkin_view list \<times> int) att_action" where
  "page_checkins pg eq now f p =
     dbind (query_row (AttDb ''count rows'') (AttDb ''count rows'')
        (\<lambda>d. map_option (\<lambda>ks. int (length ks)) (select_checkins pg eq f d))) (\<lambda>n.
     dbind (query_row (AttDb ''list checkins'') (AttDb ''list checkins'')
        (\<lambda>d. map_option (map (checkin_view_of now d)) (Option.bind (select_checkins pg eq f d) (limit_rows p)))) (\<lambda>vs.
     dret (vs, n)))"

definition close_row :: "int \<Rightarrow> int \<Rightarrow> att_db \<Rightarrow> int \<times> att_db" where
  "close_row now i d =
     (int (length (filter (\<lambda>k. ci_id k = i \<and> ci_status k = ''active'') (at_checkins d))),
      d\<lparr>at_checkins := map (\<lambda>k. if ci_id k = i \<and> ci_status k = ''active''
           then k\<lparr>ci_status := ''closed'', ci_closed_at := Some now\<rparr> else k) (at_checkins d)\<rparr>)"

definition close_checkin :: "int \<Rightarrow> int \<Rightarrow> unit att_action" where
  "close_checkin now i =
     dbind (stmt (AttDb ''close checkin'') (close_row now i)) (\<lambda>n.
     if n = 0
     then dbind (query_row (AttDb ''close checkin lookup'') CheckinNotFound (\<lambda>d. map_option (\<lambda>_. ()) (find_checkin d i)))
            (\<lambda>_. draise CheckinNotActive)
     else dret ())"

text \<open>\<open>buildCheckinWhere\<close> numbers its placeholders in the order of the arguments.\<close>

lemma checkin_where_numbered: "numbered (checkin_where f)"
  unfolding checkin_where_def Let_def
  by (intro numbered_if numbered_bind numbered_start; simp add: is_digit_def)

subsection \<open>Scanning\<close>

definition insert_scan :: "att_clock \<Rightarrow> int \<Rightarrow> int \<Rightarrow> string \<Rightarrow> att_db \<Rightarrow> int \<times> att_db" where
  "insert_scan clk k u st d =
     (if find_record d k u \<noteq> None then (0, d)
      else (1, d\<lparr>at_records := at_records d @ [\<lparr>cr_id = at_next_record d, cr_checkin = k, cr_user = u, cr_status = st,
             cr_checked_at = Some (ak_later clk), cr_modified_by = None, cr_modified_at = None, cr_created_at = ak_db clk\<rparr>],
           at_next_record := at_next_record d + 1\<rparr>))"

text \<open>The UPDATE of an expired check-in inside the transaction of a scan.\<close>

definition auto_close_row :: "int \<Rightarrow> int \<Rightarrow> att_db \<Rightarrow> unit \<times> att_db" where
  "auto_close_row now i d =
     ((), d\<lparr>at_checkins := map (\<lambda>k. if ci_id k = i then k\<lparr>ci_status := ''closed'', ci_closed_at := Some now\<rparr> else k) (at_checkins d)\<rparr>)"

definition scan_status :: "int \<Rightarrow> checkin \<Rightarrow> string" where
  "scan_status now k =
     (if ci_late_minutes k > 0 \<and> now > ci_starts_at k + minutes (ci_late_minutes k) then ''late'' else ''present'')"

definition expired :: "int \<Rightarrow> checkin \<Rightarrow> bool" where
  "expired now k \<longleftrightarrow> (case ci_expires_at k of None \<Rightarrow> False | Some t \<Rightarrow> now > t)"

definition scan_tx :: "att_clock \<Rightarrow> string \<Rightarrow> int \<Rightarrow> scan_result att_action" where
  "scan_tx clk code u =
     dbind (query_row (AttDb ''scan checkin lookup'') CodeNotFound (\<lambda>d. List.find (\<lambda>k. ci_code k = code) (at_checkins d))) (\<lambda>k.
     if ci_status k \<noteq> ''active'' then draise CheckinNotActive
     else if expired (ak_now clk) k
     then dbind (stmt (AttDb ''auto-close expired checkin'') (auto_close_row (ak_now clk) (ci_id k))) (\<lambda>_. draise CheckinExpired)
     else
       dbind (stmt (AttDb ''insert checkin record'') (insert_scan clk (ci_id k) u (scan_status (ak_later clk) k))) (\<lambda>n.
       dbind (if n = 1 then dret (scan_status (ak_later clk) k)
              else query_row (AttDb ''load existing checkin record'') (AttDb ''load existing checkin record'')
                     (\<lambda>d. map_option cr_status (find_record d (ci_id k) u))) (\<lambda>st.
       dbind (case ci_offering k of None \<Rightarrow> dret True
              | Some off \<Rightarrow> if off > 0 then query (AttDb ''check roster'') (\<lambda>d. roster_exists (at_campus d) off u) else dret True) (\<lambda>inr.
       dret \<lparr>sr_checkin = ci_id k, sr_title = ci_title k, sr_status = st, sr_is_new = (n = 1), sr_in_roster = inr\<rparr>))))"

definition scan_by_code :: "att_clock \<Rightarrow> string \<Rightarrow> int \<Rightarrow> scan_result att_action" where
  "scan_by_code clk code u = transaction (AttDb ''begin tx'') (AttDb ''commit'') (scan_tx clk code u)"

subsection \<open>Records\<close>

text \<open>
  The rows of the record list with the class's grade and name: the roster joined with users, classes
  and the records of the check-in; then the records of users outside the roster. The number is the
  column \<open>extra\<close>.
\<close>

definition class_label :: "string \<Rightarrow> string \<Rightarrow> string" where
  "class_label grade name = trim_space (grade @ '' '' @ name)"

definition record_row ::
  "int \<Rightarrow> user_row \<Rightarrow> string \<Rightarrow> string \<Rightarrow> string \<Rightarrow> check_record option \<Rightarrow> (int \<times> string \<times> string) \<times> record_view" where
  "record_row extra u no grade name r = ((extra, grade, name),
     \<lparr>rv_checkin = 0, rv_user = us_id u, rv_display_name = us_display_name u, rv_student_no = no,
      rv_admin_class = class_label grade name, rv_status = (case r of None \<Rightarrow> ''absent'' | Some x \<Rightarrow> cr_status x),
      rv_checked_at = Option.bind r cr_checked_at, rv_modified_at = Option.bind r cr_modified_at, rv_in_roster = (extra = 0)\<rparr>)"

definition roster_rows :: "int \<Rightarrow> int \<Rightarrow> att_db \<Rightarrow> ((int \<times> string \<times> string) \<times> record_view) list" where
  "roster_rows k off d = List.map_filter (\<lambda>p.
     case (find_user (at_campus d) (pr_user p), find_admin_class (at_campus d) (pr_class p)) of
       (Some u, Some a) \<Rightarrow> Some (record_row 0 u (pr_student_no p) (ac_grade a) (ac_name a) (find_record d k (pr_user p)))
     | _ \<Rightarrow> None) (roster_join (at_campus d) off)"

definition find_profile :: "campus_db \<Rightarrow> int \<Rightarrow> student_profile option" where
  "find_profile d u = List.find (\<lambda>p. pr_user p = u) (cd_profiles d)"

definition profile_texts :: "campus_db \<Rightarrow> int \<Rightarrow> string \<times> string \<times> string" where
  "profile_texts d u = (case find_profile d u of None \<Rightarrow> ([], [], [])
     | Some p \<Rightarrow> (case find_admin_class d (pr_class p) of None \<Rightarrow> (pr_student_no p, [], [])
         | Some a \<Rightarrow> (pr_student_no p, ac_grade a, ac_name a)))"

definition extra_rows :: "int \<Rightarrow> int \<Rightarrow> att_db \<Rightarrow> ((int \<times> string \<times> string) \<times> record_view) list" where
  "extra_rows k off d = List.map_filter (\<lambda>r.
     if cr_checkin r = k \<and> \<not> roster_exists (at_campus d) off (cr_user r)
     then map_option (\<lambda>u. case profile_texts (at_campus d) (cr_user r) of (no, grade, name) \<Rightarrow> record_row 1 u no grade name (Some r))
            (find_user (at_campus d) (cr_user r))
     else None) (at_records d)"

definition record_matches :: "(char \<Rightarrow> char \<Rightarrow> bool) \<Rightarrow> string \<Rightarrow> string \<Rightarrow> record_view \<Rightarrow> bool" where
  "record_matches eq st q v \<longleftrightarrow>
     (st \<noteq> [] \<longrightarrow> rv_status v = st) \<and> (q \<noteq> [] \<longrightarrow> contains eq q (rv_display_name v) \<or> contains eq q (rv_student_no v))"

definition select_records ::
  "(string \<Rightarrow> 'k::linorder) \<Rightarrow> (char \<Rightarrow> char \<Rightarrow> bool) \<Rightarrow> int \<Rightarrow> int \<Rightarrow> string \<Rightarrow> string \<Rightarrow> att_db \<Rightarrow> record_view list" where
  "select_records ck eq k off st q d =
     filter (record_matches eq st q)
       (map snd (sort_key (\<lambda>((x, grade, name), v). (x, ck grade, ck name, ck (rv_display_name v)))
          (roster_rows k off d @ extra_rows k off d)))"

text \<open>\<open>recordUnionSQL\<close> binds two values; the filters continue the numbering.\<close>

definition page_records ::
  "(string \<Rightarrow> 'k::linorder) \<Rightarrow> (char \<Rightarrow> char \<Rightarrow> bool) \<Rightarrow> int \<Rightarrow> int \<Rightarrow> string \<Rightarrow> string \<Rightarrow> pagination \<Rightarrow>
   (record_view list \<times> int) att_action" where
  "page_records ck eq now k st q p =
     dbind (get_checkin now k) (\<lambda>c.
     dbind (query (AttDb ''count rows'') (\<lambda>d. int (length (select_records ck eq k (cv_offering c) st q d)))) (\<lambda>n.
     dbind (query_row (AttDb ''list checkin records'') (AttDb ''list checkin records'')
        (\<lambda>d. limit_rows p (select_records ck eq k (cv_offering c) st q d))) (\<lambda>vs.
     dret (map (\<lambda>v. v\<lparr>rv_in_roster := cv_offering c = 0 \<or> rv_in_roster v\<rparr>) vs, n))))"

definition list_records_all ::
  "(string \<Rightarrow> 'k::linorder) \<Rightarrow> (char \<Rightarrow> char \<Rightarrow> bool) \<Rightarrow> int \<Rightarrow> int \<Rightarrow> record_view list att_action" where
  "list_records_all ck eq now k =
     dbind (page_records ck eq now k [] [] \<lparr>pg_limit = 0, pg_offset = 0\<rparr>) (\<lambda>(vs, n). dret vs)"

definition upsert_row :: "att_clock \<Rightarrow> int \<Rightarrow> int \<Rightarrow> string \<Rightarrow> int \<Rightarrow> att_db \<Rightarrow> bool \<times> att_db" where
  "upsert_row clk k u st by d =
     (if \<not> pg_text 16 st then (False, d)
      else if find_record d k u \<noteq> None
      then (True, d\<lparr>at_records := map (\<lambda>r. if cr_checkin r = k \<and> cr_user r = u
             then r\<lparr>cr_status := st, cr_modified_by := Some by, cr_modified_at := Some (ak_now clk)\<rparr> else r) (at_records d)\<rparr>)
      else (True, d\<lparr>at_records := at_records d @ [\<lparr>cr_id = at_next_record d, cr_checkin = k, cr_user = u, cr_status = st,
             cr_checked_at = None, cr_modified_by = Some by, cr_modified_at = Some (ak_now clk), cr_created_at = ak_db clk\<rparr>],
             at_next_record := at_next_record d + 1\<rparr>))"

definition upsert_record :: "att_clock \<Rightarrow> int \<Rightarrow> int \<Rightarrow> string \<Rightarrow> int \<Rightarrow> record_view att_action" where
  "upsert_record clk k u st by =
     dbind (get_checkin (ak_now clk) k) (\<lambda>c.
     dbind (query_row (AttDb ''lookup student'') RecordUserNotFound (\<lambda>d. find_user (at_campus d) u)) (\<lambda>_.
     dbind (stmt (AttDb ''upsert checkin record'') (upsert_row clk k u st by)) (\<lambda>ok.
     if \<not> ok then draise (AttDb ''upsert checkin record'')
     else dbind (query_row (AttDb ''load upserted checkin record'') (AttDb ''load upserted checkin record'') (\<lambda>d.
            Option.bind (find_user (at_campus d) u) (\<lambda>us.
            map_option (\<lambda>r. case profile_texts (at_campus d) u of (no, grade, name) \<Rightarrow>
              (snd (record_row 0 us no grade name (Some r)))\<lparr>rv_checkin := k, rv_user := u\<rparr>) (find_record d k u)))) (\<lambda>v.
          if cv_offering c > 0
          then dbind (query (AttDb ''check roster'') (\<lambda>d. roster_exists (at_campus d) (cv_offering c) u)) (\<lambda>inr.
               dret (v\<lparr>rv_in_roster := inr\<rparr>))
          else dret (v\<lparr>rv_in_roster := cv_offering c = 0\<rparr>)))))"

subsection \<open>Reports\<close>

definition summary_roster :: "(string \<Rightarrow> 'k::linorder) \<Rightarrow> int \<Rightarrow> att_db \<Rightarrow> summary_row list" where
  "summary_roster ck off d = map snd (sort_key (\<lambda>((grade, name), r). (ck grade, ck name, ck (sm_display_name r)))
     (List.map_filter (\<lambda>p.
       case (find_user (at_campus d) (pr_user p), find_admin_class (at_campus d) (pr_class p)) of
         (Some u, Some a) \<Rightarrow> Some ((ac_grade a, ac_name a), \<lparr>sm_user = us_id u, sm_display_name = us_display_name u,
            sm_student_no = pr_student_no p, sm_admin_class = class_label (ac_grade a) (ac_name a), sm_in_roster = True,
            sm_records = [], sm_totals = (\<lambda>_. 0)\<rparr>)
       | _ \<Rightarrow> None) (roster_join (at_campus d) off)))"

definition summary_extra :: "int \<Rightarrow> att_db \<Rightarrow> summary_row list" where
  "summary_extra off d = first_wins (\<lambda>_. True) (\<lambda>r. (sm_user r, sm_display_name r, sm_student_no r, sm_admin_class r)) []
     (List.map_filter (\<lambda>r.
       if list_ex (\<lambda>k. ci_id k = cr_checkin r \<and> ci_offering k = Some off) (at_checkins d) \<and>
          \<not> roster_exists (at_campus d) off (cr_user r)
       then map_option (\<lambda>u. case profile_texts (at_campus d) (cr_user r) of (no, grade, name) \<Rightarrow>
              \<lparr>sm_user = us_id u, sm_display_name = us_display_name u, sm_student_no = no,
               sm_admin_class = class_label grade name, sm_in_roster = False, sm_records = [], sm_totals = (\<lambda>_. 0)\<rparr>)
              (find_user (at_campus d) (cr_user r))
       else None) (at_records d))"

text \<open>A student's row: the status per check-in and how often each status occurs.\<close>

definition fill_row :: "int list \<Rightarrow> (int \<Rightarrow> int \<Rightarrow> string option) \<Rightarrow> summary_row \<Rightarrow> summary_row" where
  "fill_row ks recs r =
     (let cells = List.map_filter (\<lambda>k. case recs (sm_user r) k of
            Some st \<Rightarrow> Some (k, st) | None \<Rightarrow> if sm_in_roster r then Some (k, ''absent'') else None) ks
      in r\<lparr>sm_records := cells, sm_totals := (\<lambda>st. int (length (filter (\<lambda>(k, s). s = st) cells)))\<rparr>)"

definition offering_summary_of ::
  "pg_instants \<Rightarrow> (string \<Rightarrow> 'k::linorder) \<Rightarrow> (char \<Rightarrow> char \<Rightarrow> bool) \<Rightarrow> int \<Rightarrow> int \<Rightarrow> offering_summary att_action" where
  "offering_summary_of pg ck eq now off =
     dbind (query_row (AttDb ''load offering'') CheckinNotFound (\<lambda>d.
        Option.bind (find_offering (at_campus d) off) (\<lambda>f.
        Option.bind (find_catalog (at_campus d) (of_catalog f)) (\<lambda>c.
        map_option (\<lambda>t. \<lparr>os_offering = off, os_course_name = ca_name c, os_class_name = tr_name t,
            os_semester = of_semester f, os_teacher = of_teacher f, os_checkins = [], os_rows = []\<rparr>)
          (find_teaching_class (at_campus d) (of_teaching_class f)))))) (\<lambda>out.
     dbind (page_checkins pg eq now \<lparr>cf_offering = off, cf_session = 0, cf_status = [], cf_from = [], cf_to = [], cf_q = []\<rparr>
        \<lparr>pg_limit = 0, pg_offset = 0\<rparr>) (\<lambda>(vs, _).
     if vs = [] then dret out
     else dbind (query (AttDb ''summary roster'') (summary_roster ck off)) (\<lambda>roster.
          dbind (query (AttDb ''summary extra students'') (summary_extra off)) (\<lambda>extra.
          dbind (query (AttDb ''summary records'') (\<lambda>d u k. if k \<in> set (map cv_id vs)
              then map_option cr_status (find_record d k u) else None)) (\<lambda>recs.
          dret (out\<lparr>os_checkins := vs, os_rows := map (fill_row (map cv_id vs) recs) (roster @ extra)\<rparr>))))))"

definition my_rows :: "int \<Rightarrow> att_db \<Rightarrow> my_checkin_view list" where
  "my_rows u d = List.map_filter (\<lambda>k. map_option (\<lambda>r.
       \<lparr>mv_checkin = ci_id k, mv_title = ci_title k, mv_course_name = null_text (checkin_course d k),
        mv_class_name = null_text (checkin_class d k), mv_session_text = checkin_session_text d k,
        mv_starts_at = ci_starts_at k, mv_status = cr_status r, mv_checked_at = cr_checked_at r\<rparr>) (find_record d (ci_id k) u))
     (sort_key (\<lambda>k. (- ci_starts_at k, - ci_id k)) (at_checkins d))"

definition page_my_checkins :: "int \<Rightarrow> pagination \<Rightarrow> (my_checkin_view list \<times> int) att_action" where
  "page_my_checkins u p =
     dbind (query (AttDb ''count rows'') (\<lambda>d. int (length (my_rows u d)))) (\<lambda>n.
     dbind (query_row (AttDb ''list my checkins'') (AttDb ''list my checkins'') (\<lambda>d. limit_rows p (my_rows u d))) (\<lambda>vs.
     dret (vs, n)))"

subsection \<open>Handlers\<close>

definition query_id :: "(string \<Rightarrow> string) \<Rightarrow> string \<Rightarrow> int" where
  "query_id q key = parse_int_value (trim_space (q key))"

text \<open>Who may call what: every request needs one of the permissions of its route.\<close>

definition attendance_routes :: "(string \<times> string list) list" where
  "attendance_routes = [
     (''POST /api/checkins'', [''attendance:manage'']),
     (''GET /api/checkins'', [''attendance:read'']),
     (''GET /api/checkins/me'', [''attendance:checkin'', ''attendance:read'']),
     (''GET /api/checkins/summary'', [''attendance:read'']),
     (''GET /api/checkins/export'', [''attendance:read'']),
     (''POST /api/checkins/scan'', [''attendance:checkin'', ''attendance:manage'']),
     (''GET /api/checkins/{id}'', [''attendance:read'']),
     (''POST /api/checkins/{id}/close'', [''attendance:manage'']),
     (''GET /api/checkins/{id}/records'', [''attendance:read'']),
     (''PUT /api/checkins/{id}/records/{userId}'', [''attendance:manage'']),
     (''GET /api/checkins/{id}/export'', [''attendance:read''])]"

definition createCheckin_h ::
  "att_clock \<Rightarrow> (nat \<Rightarrow> int) \<Rightarrow> subject \<Rightarrow> checkin_input option \<Rightarrow> att_db conn \<Rightarrow> checkin_view response \<times> att_db conn" where
  "createCheckin_h clk rnd sub body c = (case body of
     None \<Rightarrow> (RespError 400 ''invalid request body'', c)
   | Some inp \<Rightarrow> (case create_checkin clk rnd inp (sj_id sub) c of
       (Inl TitleRequired, c') \<Rightarrow> (RespError 400 (hx ''e78bace7ab8be7adbee588b0e99c80e5a1abe58699e6a087e9a298''), c')
     | (Inl OfferingMismatch, c') \<Rightarrow> (RespError 400 (hx ''e8afbee6aca1e4b88de5b19ee4ba8ee68980e98089e5bc80e8afbe''), c')
     | (Inl CheckinNotFound, c') \<Rightarrow> (RespError 404 (hx ''e5bc80e8afbee68896e8afbee6aca1e4b88de5ad98e59ca8''), c')
     | (Inl _, c') \<Rightarrow> (RespError 500 ''could not create checkin'', c')
     | (Inr v, c') \<Rightarrow> (RespJSON 201 v, c')))"

definition checkin_filter_of :: "(string \<Rightarrow> string) \<Rightarrow> checkin_filter" where
  "checkin_filter_of q = \<lparr>cf_offering = query_id q ''offering_id'', cf_session = query_id q ''session_id'',
     cf_status = trim_space (q ''status''), cf_from = trim_space (q ''from''), cf_to = trim_space (q ''to''), cf_q = parse_search q\<rparr>"

definition listCheckins_h ::
  "pg_instants \<Rightarrow> (char \<Rightarrow> char \<Rightarrow> bool) \<Rightarrow> int \<Rightarrow> (string \<Rightarrow> string) \<Rightarrow> att_db conn \<Rightarrow>
   (checkin_view list \<times> int \<times> page_params) response \<times> att_db conn" where
  "listCheckins_h pg eq now q c =
     (let p = parse_page_params q; f = checkin_filter_of q
      in if cf_status f \<noteq> [] \<and> cf_status f \<noteq> ''active'' \<and> cf_status f \<noteq> ''closed'' then (RespError 400 ''invalid status filter'', c)
         else (case page_checkins pg eq now f (page_of p) c of
             (Inl _, c') \<Rightarrow> (RespError 500 ''could not list checkins'', c')
           | (Inr (vs, n), c') \<Rightarrow> (RespJSON 200 (vs, n, p), c')))"

definition getCheckin_h :: "int \<Rightarrow> string \<Rightarrow> att_db conn \<Rightarrow> checkin_view response \<times> att_db conn" where
  "getCheckin_h now path_id c = (case atoi path_id of
     None \<Rightarrow> (RespError 400 ''invalid checkin id'', c)
   | Some i \<Rightarrow> (case get_checkin now i c of
       (Inl CheckinNotFound, c') \<Rightarrow> (RespError 404 ''checkin not found'', c')
     | (Inl _, c') \<Rightarrow> (RespError 500 ''could not load checkin'', c')
     | (Inr v, c') \<Rightarrow> (RespJSON 200 v, c')))"

definition closeCheckin_h :: "int \<Rightarrow> string \<Rightarrow> att_db conn \<Rightarrow> unit response \<times> att_db conn" where
  "closeCheckin_h now path_id c = (case atoi path_id of
     None \<Rightarrow> (RespError 400 ''invalid checkin id'', c)
   | Some i \<Rightarrow> (case close_checkin now i c of
       (Inl CheckinNotFound, c') \<Rightarrow> (RespError 404 ''checkin not found'', c')
     | (Inl CheckinNotActive, c') \<Rightarrow> (RespError 409 (hx ''e7adbee588b0e5b7b2e7bb93e69d9f''), c')
     | (Inl _, c') \<Rightarrow> (RespError 500 ''could not close checkin'', c')
     | (Inr _, c') \<Rightarrow> (RespJSON 204 (), c')))"

definition scan_h ::
  "att_clock \<Rightarrow> subject \<Rightarrow> string option \<Rightarrow> att_db conn \<Rightarrow> scan_result response \<times> att_db conn" where
  "scan_h clk sub body c = (case body of
     None \<Rightarrow> (RespError 400 ''invalid request body'', c)
   | Some raw \<Rightarrow>
     (let code = trim_space raw
      in if length code \<noteq> 6 \<or> \<not> list_all is_digit code then (RespError 400 (hx ''e7adbee588b0e7a081e4b8ba203620e4bd8de695b0e5ad97''), c)
         else (case scan_by_code clk code (sj_id sub) c of
             (Inl CodeNotFound, c') \<Rightarrow> (RespError 404 (hx ''e7adbee588b0e7a081e697a0e69588''), c')
           | (Inl CheckinNotActive, c') \<Rightarrow> (RespError 409 (hx ''e7adbee588b0e5b7b2e7bb93e69d9f''), c')
           | (Inl CheckinExpired, c') \<Rightarrow> (RespError 409 (hx ''e7adbee588b0e5b7b2e8bf87e69c9f''), c')
           | (Inl _, c') \<Rightarrow> (RespError 500 ''could not scan checkin'', c')
           | (Inr r, c') \<Rightarrow> (RespJSON 200 r, c'))))"

definition listRecords_h ::
  "(string \<Rightarrow> 'k::linorder) \<Rightarrow> (char \<Rightarrow> char \<Rightarrow> bool) \<Rightarrow> int \<Rightarrow> string \<Rightarrow> (string \<Rightarrow> string) \<Rightarrow> att_db conn \<Rightarrow>
   (record_view list \<times> int \<times> page_params) response \<times> att_db conn" where
  "listRecords_h ck eq now path_id q c = (case atoi path_id of
     None \<Rightarrow> (RespError 400 ''invalid checkin id'', c)
   | Some i \<Rightarrow>
     (let p = parse_page_params q; st = trim_space (q ''status'')
      in if st \<noteq> [] \<and> \<not> valid_record_status st then (RespError 400 ''invalid status filter'', c)
         else (case page_records ck eq now i st (parse_search q) (page_of p) c of
             (Inl CheckinNotFound, c') \<Rightarrow> (RespError 404 ''checkin not found'', c')
           | (Inl _, c') \<Rightarrow> (RespError 500 ''could not list checkin records'', c')
           | (Inr (vs, n), c') \<Rightarrow> (RespJSON 200 (vs, n, p), c'))))"

definition updateRecord_h ::
  "att_clock \<Rightarrow> subject \<Rightarrow> string \<Rightarrow> string \<Rightarrow> string option \<Rightarrow> att_db conn \<Rightarrow> record_view response \<times> att_db conn" where
  "updateRecord_h clk sub path_id path_user body c = (case atoi path_id of
     None \<Rightarrow> (RespError 400 ''invalid checkin id'', c)
   | Some i \<Rightarrow> (case atoi path_user of
       None \<Rightarrow> (RespError 400 ''invalid user id'', c)
     | Some u \<Rightarrow> (case body of
         None \<Rightarrow> (RespError 400 ''invalid request body'', c)
       | Some st \<Rightarrow>
         if \<not> valid_record_status st then (RespError 400 ''invalid record status'', c)
         else (case upsert_record clk i u st (sj_id sub) c of
             (Inl CheckinNotFound, c') \<Rightarrow> (RespError 404 ''checkin not found'', c')
           | (Inl RecordUserNotFound, c') \<Rightarrow> (RespError 404 (hx ''e794a8e688b7e4b88de5ad98e59ca8''), c')
           | (Inl _, c') \<Rightarrow> (RespError 500 ''could not update checkin record'', c')
           | (Inr v, c') \<Rightarrow> (RespJSON 200 v, c')))))"

definition myCheckins_h ::
  "subject \<Rightarrow> (string \<Rightarrow> string) \<Rightarrow> att_db conn \<Rightarrow> (my_checkin_view list \<times> int \<times> page_params) response \<times> att_db conn" where
  "myCheckins_h sub q c =
     (let p = parse_page_params q
      in case page_my_checkins (sj_id sub) (page_of p) c of
           (Inl _, c') \<Rightarrow> (RespError 500 ''could not list my checkins'', c')
         | (Inr (vs, n), c') \<Rightarrow> (RespJSON 200 (vs, n, p), c'))"

definition offeringSummary_h ::
  "pg_instants \<Rightarrow> (string \<Rightarrow> 'k::linorder) \<Rightarrow> (char \<Rightarrow> char \<Rightarrow> bool) \<Rightarrow> int \<Rightarrow> (string \<Rightarrow> string) \<Rightarrow> att_db conn \<Rightarrow>
   offering_summary response \<times> att_db conn" where
  "offeringSummary_h pg ck eq now q c =
     (let off = query_id q ''offering_id''
      in if off \<le> 0 then (RespError 400 ''offering_id is required'', c)
         else (case offering_summary_of pg ck eq now off c of
             (Inl CheckinNotFound, c') \<Rightarrow> (RespError 404 ''offering not found'', c')
           | (Inl _, c') \<Rightarrow> (RespError 500 ''could not build attendance summary'', c')
           | (Inr s, c') \<Rightarrow> (RespJSON 200 s, c')))"

definition status_label :: "string \<Rightarrow> string" where
  "status_label s =
     (if s = ''present'' then hx ''e587bae58ba4'' else if s = ''late'' then hx ''e8bf9fe588b0''
      else if s = ''absent'' then hx ''e7bcbae58ba4'' else if s = ''leave'' then hx ''e8afb7e58187'' else s)"

text \<open>The rows of the record export; \<open>local_minute\<close> prints an instant as 2006-01-02 15:04.\<close>

definition record_cells :: "(int \<Rightarrow> string) \<Rightarrow> record_view \<Rightarrow> string list" where
  "record_cells local_minute v = [rv_display_name v, rv_student_no v, rv_admin_class v, status_label (rv_status v),
     (case rv_checked_at v of None \<Rightarrow> [] | Some t \<Rightarrow> local_minute t), if rv_in_roster v then hx ''e698af'' else hx ''e590a6'']"

definition exportCheckin_h ::
  "(int \<Rightarrow> string) \<Rightarrow> (string \<Rightarrow> 'k::linorder) \<Rightarrow> (char \<Rightarrow> char \<Rightarrow> bool) \<Rightarrow> int \<Rightarrow> string \<Rightarrow> att_db conn \<Rightarrow>
   (string \<times> string list list) response \<times> att_db conn" where
  "exportCheckin_h local_minute ck eq now path_id c = (case atoi path_id of
     None \<Rightarrow> (RespError 400 ''invalid checkin id'', c)
   | Some i \<Rightarrow> (case get_checkin now i c of
       (Inl CheckinNotFound, c') \<Rightarrow> (RespError 404 ''checkin not found'', c')
     | (Inl _, c') \<Rightarrow> (RespError 500 ''could not load checkin'', c')
     | (Inr _, c1) \<Rightarrow> (case list_records_all ck eq now i c1 of
         (Inl _, c') \<Rightarrow> (RespError 500 ''could not list checkin records'', c')
       | (Inr vs, c') \<Rightarrow> (RespJSON 200 (''checkin-'' @ itoa i @ ''.xlsx'', map (record_cells local_minute) vs), c'))))"

text \<open>The two sheets of the report; \<open>rate\<close> renders \<open>%.1f%%\<close> of attended over expected.\<close>

datatype report_cell = TextCell string | NumCell int

definition report_checkin_cells :: "(int \<Rightarrow> string) \<Rightarrow> (int \<Rightarrow> int \<Rightarrow> string) \<Rightarrow> checkin_view \<Rightarrow> report_cell list" where
  "report_checkin_cells local_day rate v =
     (let n = cv_counts v; attended = cc_present n + cc_late n
      in [TextCell (local_day (cv_starts_at v)), TextCell (cv_title v), NumCell (cc_expected n), NumCell attended,
          NumCell (cc_present n), NumCell (cc_late n), NumCell (cc_absent n), NumCell (cc_leave n),
          TextCell (if cc_expected n > 0 then rate attended (cc_expected n) else ''-'')])"

definition subtotals :: "string list" where
  "subtotals = [''present'', ''late'', ''absent'', ''leave'']"

definition report_student_cells :: "int list \<Rightarrow> summary_row \<Rightarrow> report_cell list" where
  "report_student_cells ks r =
     [TextCell (sm_display_name r), TextCell (sm_student_no r), TextCell (sm_admin_class r)] @
     map (\<lambda>k. TextCell (status_label (null_text (map_of (sm_records r) k)))) ks @
     map (\<lambda>st. NumCell (sm_totals r st)) subtotals"

definition report_sheets ::
  "(int \<Rightarrow> string) \<Rightarrow> (int \<Rightarrow> int \<Rightarrow> string) \<Rightarrow> offering_summary \<Rightarrow> report_cell list list \<times> report_cell list list" where
  "report_sheets local_day rate s =
     ((map TextCell [hx ''e697a5e69c9f'', hx ''e6a087e9a298'', hx ''e5ba94e588b0'', hx ''e5ae9ee588b0'', hx ''e587bae58ba4'', hx ''e8bf9fe588b0'', hx ''e7bcbae58ba4'', hx ''e8afb7e58187'', hx ''e587bae58ba4e78e87'']) #
        map (report_checkin_cells local_day rate) (os_checkins s),
      (map TextCell ([hx ''e5a793e5908d'', hx ''e5ada6e58fb7'', hx ''e8a18ce694bfe78fad''] @ map (\<lambda>v. local_day (cv_starts_at v)) (os_checkins s) @
          map status_label subtotals)) #
        map (report_student_cells (map cv_id (os_checkins s))) (os_rows s))"

definition report_name :: "offering_summary \<Rightarrow> int \<Rightarrow> string" where
  "report_name s off =
     (let name = os_course_name s @ ''-'' @ os_semester s @ hx ''2de88083e58ba4e6b187e680bb2e786c7378''
      in if name = hx ''2de88083e58ba4e6b187e680bb2e786c7378'' then hx ''e5bc80e8afbe'' @ itoa off @ hx ''2de88083e58ba4e6b187e680bb2e786c7378'' else name)"

definition exportOfferingReport_h ::
  "(int \<Rightarrow> string) \<Rightarrow> (int \<Rightarrow> int \<Rightarrow> string) \<Rightarrow> pg_instants \<Rightarrow> (string \<Rightarrow> 'k::linorder) \<Rightarrow> (char \<Rightarrow> char \<Rightarrow> bool) \<Rightarrow> int \<Rightarrow>
   (string \<Rightarrow> string) \<Rightarrow> att_db conn \<Rightarrow>
   (string \<times> string \<times> report_cell list list \<times> report_cell list list) response \<times> att_db conn" where
  "exportOfferingReport_h local_day rate pg ck eq now q c =
     (let off = query_id q ''offering_id''
      in if off \<le> 0 then (RespError 400 ''offering_id is required'', c)
         else (case offering_summary_of pg ck eq now off c of
             (Inl CheckinNotFound, c') \<Rightarrow> (RespError 404 ''offering not found'', c')
           | (Inl _, c') \<Rightarrow> (RespError 500 ''could not build attendance summary'', c')
           | (Inr s, c') \<Rightarrow> (RespJSON 200 (''attendance-'' @ itoa off @ ''.xlsx'', report_name s off, report_sheets local_day rate s), c')))"

subsection \<open>Atomic steps\<close>

text \<open>
  Every write of the package is one statement, and the scan's statement runs under the row lock of
  its check-in: a step is an inserted check-in, a close, a scan of an active check-in, or a correction.
\<close>

inductive att_step :: "att_db \<Rightarrow> att_db \<Rightarrow> bool" where
  create: "insert_checkin (new_checkin clk by inp off title code) d = (Done i, d') \<Longrightarrow> att_step d d'"
| close: "att_step d (snd (close_row now i d))"
| scan: "List.find (\<lambda>k. ci_code k = code) (at_checkins d) = Some k \<Longrightarrow> ci_status k = ''active'' \<Longrightarrow>
    \<not> expired (ak_now clk) k \<Longrightarrow> att_step d (snd (insert_scan clk (ci_id k) u (scan_status (ak_later clk) k) d))"
| correct: "find_checkin d k \<noteq> None \<Longrightarrow> valid_record_status st \<Longrightarrow> att_step d (snd (upsert_row clk k u st by d))"

lemma att_reads [reads_intros]:
  "reads (backfill_counts vs)" "reads (get_checkins now cond)" "reads (get_checkin now i)" "reads (anchor_of inp)"
  "reads (page_checkins pg eq now f p)" "reads (page_records ck eq now k st q p)" "reads (list_records_all ck eq now k)"
  "reads (offering_summary_of pg ck eq now off)" "reads (page_my_checkins u p)"
proof -
  show b: "reads (backfill_counts vs)" for vs
    unfolding backfill_counts_def by (intro reads_intros)
  show g: "reads (get_checkins now cond)" for cond
    unfolding get_checkins_def by (intro reads_intros b)
  have "reads (case vs of [] \<Rightarrow> draise e | v # _ \<Rightarrow> dret v)" for e :: att_error and vs :: "checkin_view list"
    by (cases vs) (simp_all add: reads_intros)
  then show c: "reads (get_checkin now i)" for i
    unfolding get_checkin_def by (intro reads_dbind g)
  show "reads (anchor_of inp)" unfolding anchor_of_def Let_def by (intro reads_intros)
  show p: "reads (page_checkins pg eq now f p)" for f p unfolding page_checkins_def by (intro reads_intros)
  show r: "reads (page_records ck eq now k st q p)" for st q p unfolding page_records_def by (intro reads_intros c)
  show "reads (list_records_all ck eq now k)" unfolding list_records_all_def by (intro reads_intros r)
  show "reads (offering_summary_of pg ck eq now off)" unfolding offering_summary_of_def by (intro reads_intros p)
  show "reads (page_my_checkins u p)" unfolding page_my_checkins_def by (intro reads_intros)
qed

lemma insert_checkin_cases:
  "insert_checkin row d = (Done i, d') \<Longrightarrow>
     i = at_next_checkin d \<and> ci_code (row i) \<notin> ci_code ` set (at_checkins d) \<and>
     d' = d\<lparr>at_checkins := at_checkins d @ [row i], at_next_checkin := at_next_checkin d + 1\<rparr>"
  "fst (insert_checkin row d) = Duplicate \<or> fst (insert_checkin row d) = Rejected \<Longrightarrow> snd (insert_checkin row d) = d"
  by (auto simp: insert_checkin_def Let_def list_ex_iff split: if_splits)

lemma dbind_written_once:
  fixes g :: "int \<Rightarrow> (att_db, att_error, 'a) action"
  assumes ins: "\<And>d i d'. f d = (Done i, d') \<Longrightarrow> S d d'"
    and same: "\<And>d. fst (f d) = Duplicate \<or> fst (f d) = Rejected \<Longrightarrow> snd (f d) = d"
    and "\<And>i. reads (g i)" and "once S m" and "reads n"
  shows "once S (dbind (stmt e f) (\<lambda>r. case r of Done i \<Rightarrow> g i | Duplicate \<Rightarrow> m | Rejected \<Rightarrow> n))"
  unfolding once_def
proof
  fix c
  let ?run = "dbind (stmt e f) (\<lambda>r. case r of Done i \<Rightarrow> g i | Duplicate \<Rightarrow> m | Rejected \<Rightarrow> n)"
  obtain r c1 where run: "stmt e f c = (r, c1)" by fastforce
  show "tables (snd (?run c)) = tables c \<or> S (tables c) (tables (snd (?run c)))"
  proof (cases r)
    case (Inl x)
    then have "tables c1 = tables c" using run by (auto simp: stmt_def split: list.splits bool.splits)
    then show ?thesis using run Inl by simp
  next
    case (Inr w)
    with run have f: "f (tables c) = (w, tables c1)" using stmt_Inr by metis
    show ?thesis
    proof (cases w)
      case (Done i)
      then show ?thesis using run Inr readsD [OF assms(3)] ins [of "tables c" i "tables c1"] f by simp
    next
      case Duplicate
      with f same [of "tables c"] have "tables c1 = tables c" by simp
      then show ?thesis using run Inr Duplicate onceD [OF assms(4), of c1] by simp
    next
      case Rejected
      with f same [of "tables c"] have "tables c1 = tables c" by simp
      then show ?thesis using run Inr Rejected readsD [OF assms(5)] by simp
    qed
  qed
qed

lemma once_case_prod [once_intros]: "(\<And>a b. once S (f a b)) \<Longrightarrow> once S (case p of (a, b) \<Rightarrow> f a b)"
  by (cases p) simp

lemma code_attempts_once: "once att_step (code_attempts codes (new_checkin clk by inp off title) left)"
proof (induction left)
  case 0
  show ?case unfolding code_attempts.simps
    by (intro dbind_written_once reads_intros once_reads att_step.create insert_checkin_cases(2))
next
  case (Suc left)
  show ?case unfolding code_attempts.simps
    by (intro dbind_written_once reads_intros Suc att_step.create insert_checkin_cases(2))
qed

lemma scan_tx_clean [clean_intros]: "clean (scan_tx clk code u)"
  unfolding scan_tx_def by (intro clean_intros)

text \<open>A scan on a healthy connection, case by case.\<close>

definition roster_flag :: "att_db \<Rightarrow> checkin \<Rightarrow> int \<Rightarrow> bool" where
  "roster_flag d k u = (case ci_offering k of None \<Rightarrow> True
     | Some off \<Rightarrow> if off > 0 then roster_exists (at_campus d) off u else True)"

lemma insert_scan_frame [simp]:
  "at_campus (snd (insert_scan clk k u st d)) = at_campus d" "at_checkins (snd (insert_scan clk k u st d)) = at_checkins d"
  by (simp_all add: insert_scan_def)

lemma scan_tx_healthy:
  "scan_tx clk code u (healthy d) = (case List.find (\<lambda>k. ci_code k = code) (at_checkins d) of
     None \<Rightarrow> (Inl CodeNotFound, healthy d)
   | Some k \<Rightarrow>
     if ci_status k \<noteq> ''active'' then (Inl CheckinNotActive, healthy d)
     else if expired (ak_now clk) k then (Inl CheckinExpired, healthy (snd (auto_close_row (ak_now clk) (ci_id k) d)))
     else (Inr \<lparr>sr_checkin = ci_id k, sr_title = ci_title k,
         sr_status = (case find_record d (ci_id k) u of None \<Rightarrow> scan_status (ak_later clk) k | Some r \<Rightarrow> cr_status r),
         sr_is_new = (find_record d (ci_id k) u = None), sr_in_roster = roster_flag d k u\<rparr>,
       healthy (snd (insert_scan clk (ci_id k) u (scan_status (ak_later clk) k) d))))"
proof (cases "List.find (\<lambda>k. ci_code k = code) (at_checkins d)")
  case None
  then show ?thesis by (simp add: scan_tx_def)
next
  case (Some k)
  have old: "find_record d (ci_id k) u = Some r \<Longrightarrow> snd (insert_scan clk (ci_id k) u st d) = d" for r st
    by (simp add: insert_scan_def)
  have n: "fst (insert_scan clk (ci_id k) u st d) = (if find_record d (ci_id k) u = None then 1 else 0)" for st
    by (simp add: insert_scan_def)
  show ?thesis
    using Some
    by (cases "find_record d (ci_id k) u"; cases "ci_offering k")
      (simp_all add: scan_tx_def if_distribR n old roster_flag_def dbind_def)
qed

lemma scan_tx_is_healthy: "\<exists>r d'. scan_tx clk code u (healthy d) = (r, healthy d')"
proof (cases "List.find (\<lambda>k. ci_code k = code) (at_checkins d)")
  case None
  then show ?thesis by (simp add: scan_tx_healthy)
next
  case (Some k)
  then show ?thesis by (cases "ci_status k = ''active''"; cases "expired (ak_now clk) k") (auto simp: scan_tx_healthy)
qed

lemma get_checkin_found:
  assumes "get_checkin now i c = (Inr v, c')"
  shows "find_checkin (tables c) i \<noteq> None"
proof -
  from dbind_Inr [OF assms [unfolded get_checkin_def]] obtain vs c2 where
    vs: "get_checkins now (\<lambda>k. ci_id k = i) c = (Inr vs, c2)"
      "(case vs of [] \<Rightarrow> draise CheckinNotFound | v # _ \<Rightarrow> dret v) c2 = (Inr v, c')" by blast
  from vs(2) have ne: "vs \<noteq> []" by (cases vs) auto
  from dbind_Inr [OF vs(1) [unfolded get_checkins_def]] obtain ws c3 where
    ws: "query (AttDb ''get checkins'') (\<lambda>d. map (checkin_view_of now d) (filter (\<lambda>k. ci_id k = i) (at_checkins d))) c = (Inr ws, c3)"
      "(if ws = [] then dret [] else backfill_counts ws) c3 = (Inr vs, c2)" by blast
  from ws(2) ne have "ws \<noteq> []" by auto
  moreover have "ws = map (checkin_view_of now (tables c)) (filter (\<lambda>k. ci_id k = i) (at_checkins (tables c)))"
    by (rule conjunct1 [OF stmt_Inr [OF ws(1) [unfolded query_def], unfolded prod.inject], symmetric])
  ultimately show ?thesis by (auto simp: find_checkin_def find_None_iff filter_empty_conv)
qed

lemma att_store_once [once_intros]:
  "once att_step (create_checkin clk rnd inp by)" "once att_step (close_checkin now i)"
  "once att_step (scan_by_code clk code u)"
  "valid_record_status st \<Longrightarrow> once att_step (upsert_record clk k u st by)"
proof -
  show "once att_step (create_checkin clk rnd inp by)"
    unfolding create_checkin_def
    by (rule once_if, intro once_reads reads_intros, rule once_after_reads, intro reads_intros, rule once_case_prod,
        intro once_then_reads code_attempts_once reads_intros)
  show "once att_step (close_checkin now i)"
    unfolding close_checkin_def by (intro once_then_reads once_stmt att_step.close reads_intros)
  have "att_step d d'" if "scan_tx clk code u (healthy d) = (Inr x, healthy d')" for d d' x
  proof -
    from that obtain k where "List.find (\<lambda>k. ci_code k = code) (at_checkins d) = Some k" "ci_status k = ''active''"
        "\<not> expired (ak_now clk) k" "d' = snd (insert_scan clk (ci_id k) u (scan_status (ak_later clk) k) d)"
      unfolding scan_tx_healthy by (auto split: option.splits if_splits)
    then show ?thesis using att_step.scan by metis
  qed
  then show "once att_step (scan_by_code clk code u)"
    unfolding scan_by_code_def by (intro once_transaction scan_tx_clean)
  assume st: "valid_record_status st"
  show "once att_step (upsert_record clk k u st by)"
    unfolding upsert_record_def
  proof (rule once_guarded [where G = "\<lambda>_ d. find_checkin d k \<noteq> None"], rule att_reads)
    fix c x c1
    assume "get_checkin (ak_now clk) k c = (Inr x, c1)"
    then show "find_checkin (tables c) k \<noteq> None" by (rule get_checkin_found)
  next
    fix c
    show "once (\<lambda>d d'. find_checkin d k \<noteq> None \<longrightarrow> att_step d d')
       (dbind (query_row (AttDb ''lookup student'') RecordUserNotFound (\<lambda>d. find_user (at_campus d) u)) (\<lambda>_.
        dbind (stmt (AttDb ''upsert checkin record'') (upsert_row clk k u st by)) (\<lambda>ok.
         if \<not> ok then draise (AttDb ''upsert checkin record'')
         else dbind (query_row (AttDb ''load upserted checkin record'') (AttDb ''load upserted checkin record'') (\<lambda>d.
            Option.bind (find_user (at_campus d) u) (\<lambda>us.
            map_option (\<lambda>r. case profile_texts (at_campus d) u of (no, grade, name) \<Rightarrow>
              (snd (record_row 0 us no grade name (Some r)))\<lparr>rv_checkin := k, rv_user := u\<rparr>) (find_record d k u)))) (\<lambda>v.
          if cv_offering c > 0
          then dbind (query (AttDb ''check roster'') (\<lambda>d. roster_exists (at_campus d) (cv_offering c) u)) (\<lambda>inr.
               dret (v\<lparr>rv_in_roster := inr\<rparr>))
          else dret (v\<lparr>rv_in_roster := cv_offering c = 0\<rparr>)))))"
      by (intro once_after_reads once_then_reads once_stmt reads_intros impI att_step.correct st)
  qed
qed

lemma att_handlers_once:
  "once att_step (createCheckin_h clk rnd sub body)" "once att_step (closeCheckin_h now pid)"
  "once att_step (scan_h clk sub code)" "once att_step (updateRecord_h clk sub pid puser st)"
proof -
  show "once att_step (createCheckin_h clk rnd sub body)"
    unfolding createCheckin_h_def
    by (intro once_h_option once_idle once_call att_store_once; simp split: sum.split att_error.split)
  show "once att_step (closeCheckin_h now pid)"
    unfolding closeCheckin_h_def
    by (intro once_h_option once_idle once_call att_store_once; simp split: sum.split att_error.split)
  show "once att_step (scan_h clk sub code)"
    unfolding scan_h_def Let_def
    by (intro once_h_option once_idle once_h_if once_call att_store_once; simp split: sum.split att_error.split)
  show "once att_step (updateRecord_h clk sub pid puser st)"
    unfolding updateRecord_h_def
    by (intro once_h_option once_idle once_h_if once_call att_store_once; simp split: sum.split att_error.split)
qed

text \<open>
  A request: a handler under any fault script, one atomic write of a request that runs beside others,
  or a change of the other tables by the other components.
\<close>

inductive att_request :: "att_db \<Rightarrow> att_db \<Rightarrow> bool" where
  create: "att_request (tables c) (tables (snd (createCheckin_h clk rnd sub body c)))"
| close: "att_request (tables c) (tables (snd (closeCheckin_h now pid c)))"
| scan: "att_request (tables c) (tables (snd (scan_h clk sub code c)))"
| correct: "att_request (tables c) (tables (snd (updateRecord_h clk sub pid puser st c)))"
| concurrent: "att_step d d' \<Longrightarrow> att_request d d'"
| campus: "att_request d (d\<lparr>at_campus := x\<rparr>)"

lemma att_request_steps: "att_request d d' \<Longrightarrow> att_step d d' \<or> (\<exists>x. d' = d\<lparr>at_campus := x\<rparr>)"
proof (induction rule: att_request.induct)
  case (create c clk rnd sub body)
  then show ?case using onceD [OF att_handlers_once(1)] by (metis att_db.surjective att_db.update_convs(1))
next
  case (close c now pid)
  then show ?case using onceD [OF att_handlers_once(2)] by (metis att_db.surjective att_db.update_convs(1))
next
  case (scan c clk sub code)
  then show ?case using onceD [OF att_handlers_once(3)] by (metis att_db.surjective att_db.update_convs(1))
next
  case (correct c clk sub pid puser st)
  then show ?case using onceD [OF att_handlers_once(4)] by (metis att_db.surjective att_db.update_convs(1))
qed auto

text \<open>
  The tables: ids and codes are unique, a record belongs to a check-in, a user has at most one record
  per check-in, and the statuses are the documented ones.
\<close>

definition record_key :: "check_record \<Rightarrow> int \<times> int" where
  "record_key r = (cr_checkin r, cr_user r)"

definition att_inv :: "att_db \<Rightarrow> bool" where
  "att_inv d \<longleftrightarrow> distinct (map ci_id (at_checkins d)) \<and> (\<forall>i \<in> ci_id ` set (at_checkins d). i < at_next_checkin d) \<and>
     distinct (map ci_code (at_checkins d)) \<and> ci_status ` set (at_checkins d) \<subseteq> {''active'', ''closed''} \<and>
     distinct (map record_key (at_records d)) \<and> cr_checkin ` set (at_records d) \<subseteq> ci_id ` set (at_checkins d) \<and>
     cr_status ` set (at_records d) \<subseteq> set record_statuses"

lemma map_if_same: "(\<And>x. f (g x) = f x) \<Longrightarrow> map f (map (\<lambda>x. if P x then g x else x) xs) = map f xs"
  by (induction xs) auto

lemma image_if_same:
  assumes "\<And>x. f (g x) = f x"
  shows "f ` (\<lambda>x. if P x then g x else x) ` A = f ` A"
proof -
  have "f (if P x then g x else x) = f x" for x using assms by simp
  then show ?thesis by (simp only: image_image)
qed

lemma find_record_None: "find_record d k u = None \<longleftrightarrow> (k, u) \<notin> record_key ` set (at_records d)"
  by (auto simp: find_record_def find_None_iff record_key_def)

lemma find_record_Some: "find_record d k u = Some r \<Longrightarrow> r \<in> set (at_records d) \<and> cr_checkin r = k \<and> cr_user r = u"
  by (auto simp: find_record_def find_Some_iff)

lemma scan_status_valid: "scan_status now k \<in> set record_statuses"
  by (simp add: scan_status_def record_statuses_def)

lemma close_row_frame [simp]:
  "at_records (snd (close_row now i d)) = at_records d" "at_next_checkin (snd (close_row now i d)) = at_next_checkin d"
  "map ci_id (at_checkins (snd (close_row now i d))) = map ci_id (at_checkins d)"
  "map ci_code (at_checkins (snd (close_row now i d))) = map ci_code (at_checkins d)"
  by (auto simp: close_row_def map_if_same simp del: map_map)

lemma close_row_ids [simp]: "ci_id ` set (at_checkins (snd (close_row now i d))) = ci_id ` set (at_checkins d)"
  using close_row_frame(3) by (metis list.set_map)

lemma upsert_row_frame [simp]:
  "at_checkins (snd (upsert_row clk k u st by d)) = at_checkins d"
  "at_next_checkin (snd (upsert_row clk k u st by d)) = at_next_checkin d"
  by (auto simp: upsert_row_def)

lemma att_inv_step:
  assumes "att_step d d'" and "att_inv d"
  shows "att_inv d'"
  using assms
proof (induction rule: att_step.induct)
  case (create clk who inp off title code d i d')
  from insert_checkin_cases(1) [OF create(1)] have i: "i = at_next_checkin d"
    and code: "code \<notin> ci_code ` set (at_checkins d)"
    and d': "d' = d\<lparr>at_checkins := at_checkins d @ [new_checkin clk who inp off title code i], at_next_checkin := at_next_checkin d + 1\<rparr>"
    by (auto simp: new_checkin_def)
  have "i \<notin> ci_id ` set (at_checkins d)" using create(2) i by (auto simp: att_inv_def)
  then show ?case
    using create(2) code i unfolding att_inv_def d' by (auto simp: new_checkin_def)
next
  case (close d now i)
  have "ci_status ` set (at_checkins (snd (close_row now i d))) \<subseteq> {''active'', ''closed''}"
    using close(1) by (auto simp: att_inv_def close_row_def)
  then show ?case using close(1) unfolding att_inv_def by simp
next
  case (scan code d k clk u)
  let ?st = "scan_status (ak_later clk) k"
  have k: "ci_id k \<in> ci_id ` set (at_checkins d)" using scan(1) by (auto simp: find_Some_iff)
  show ?case
  proof (cases "find_record d (ci_id k) u")
    case None
    then have "(ci_id k, u) \<notin> record_key ` set (at_records d)" by (simp add: find_record_None)
    with scan(4) k scan_status_valid [of "ak_later clk" k] None show ?thesis
      by (auto simp: att_inv_def insert_scan_def record_key_def)
  next
    case (Some r)
    then have "snd (insert_scan clk (ci_id k) u ?st d) = d" by (simp add: insert_scan_def)
    with scan(4) show ?thesis by simp
  qed
next
  case (correct d k st clk u by')
  have k: "k \<in> ci_id ` set (at_checkins d)" using correct(1) by (auto simp: find_checkin_def find_None_iff)
  show ?case
  proof (cases "find_record d k u")
    case None
    then have "(k, u) \<notin> record_key ` set (at_records d)" by (simp add: find_record_None)
    with correct(2,3) k None show ?thesis
      by (auto simp: att_inv_def upsert_row_def record_key_def valid_record_status_def)
  next
    case (Some r)
    let ?f = "\<lambda>r. r\<lparr>cr_status := st, cr_modified_by := Some by', cr_modified_at := Some (ak_now clk)\<rparr>"
    have keys: "map record_key (map (\<lambda>r. if P r then ?f r else r) rs) = map record_key rs" for P rs
      by (rule map_if_same) (simp add: record_key_def)
    have "cr_checkin ` (\<lambda>r. if P r then ?f r else r) ` A = cr_checkin ` A" for P A
      by (rule image_if_same) simp
    with keys correct(2,3) Some show ?thesis
      by (auto simp: att_inv_def upsert_row_def valid_record_status_def simp del: map_map)
  qed
qed

lemma att_inv_campus [simp]: "att_inv (d\<lparr>at_campus := x\<rparr>) = att_inv d"
  by (simp add: att_inv_def)

lemma att_request_inv:
  assumes "att_request d d'" and "att_inv d"
  shows "att_inv d'"
  using att_request_steps [OF assms(1)]
proof
  assume "att_step d d'"
  then show ?thesis using assms(2) by (rule att_inv_step)
next
  assume "\<exists>x. d' = d\<lparr>at_campus := x\<rparr>"
  then show ?thesis using assms(2) by (elim exE) simp
qed

lemma att_requests_inv: "att_request\<^sup>*\<^sup>* d d' \<Longrightarrow> att_inv d \<Longrightarrow> att_inv d'"
  by (induction rule: rtranclp_induct) (auto intro: att_request_inv)

text \<open>The scan times stored for a check-in.\<close>

definition scan_of :: "int \<Rightarrow> check_record \<Rightarrow> (int \<times> int) option" where
  "scan_of k r = (if cr_checkin r = k then map_option (Pair (cr_user r)) (cr_checked_at r) else None)"

definition scan_times :: "att_db \<Rightarrow> int \<Rightarrow> (int \<times> int) list" where
  "scan_times d k = List.map_filter (scan_of k) (at_records d)"

lemma map_filter_map_same: "(\<And>x. g (f x) = g x) \<Longrightarrow> List.map_filter g (map f xs) = List.map_filter g xs"
  by (induction xs) (simp_all add: List.map_filter_simps split: option.split)

lemma map_filter_snoc: "List.map_filter g (xs @ [x]) = List.map_filter g xs @ (case g x of None \<Rightarrow> [] | Some y \<Rightarrow> [y])"
  by (induction xs) (simp_all add: List.map_filter_simps split: option.split)

lemma scan_times_campus [simp]: "scan_times (d\<lparr>at_campus := x\<rparr>) k = scan_times d k"
  by (simp add: scan_times_def)

lemma find_code:
  assumes "att_inv d" and "k \<in> set (at_checkins d)" and "ci_code k = code"
  shows "List.find (\<lambda>k. ci_code k = code) (at_checkins d) = Some k"
proof -
  have "\<exists>x. List.find (\<lambda>k. ci_code k = code) (at_checkins d) = Some x"
    using assms(2,3) by (cases "List.find (\<lambda>k. ci_code k = code) (at_checkins d)") (auto simp: find_None_iff)
  then obtain x where x: "List.find (\<lambda>k. ci_code k = code) (at_checkins d) = Some x" by blast
  then have "x \<in> set (at_checkins d)" "ci_code x = code" by (auto simp: find_Some_iff)
  then have "x = k" using assms by (auto simp: att_inv_def distinct_map inj_on_def)
  with x show ?thesis by simp
qed

lemma scan_times_upsert: "scan_times (snd (upsert_row clk k u st who d)) i = scan_times d i"
  by (simp add: scan_times_def upsert_row_def map_filter_map_same map_filter_snoc scan_of_def)

lemma closed_stays:
  assumes "att_step d d'" and "att_inv d" and "k \<in> set (at_checkins d)" and "ci_status k = ''closed''"
  shows "k \<in> set (at_checkins d') \<and> scan_times d' (ci_id k) = scan_times d (ci_id k)"
  using assms
proof (induction rule: att_step.induct)
  case (create clk who inp off title code d i d')
  then show ?case using insert_checkin_cases(1) [OF create(1)] by (auto simp: scan_times_def)
next
  case (close d now i)
  have "(if ci_id k = i \<and> ci_status k = ''active'' then k\<lparr>ci_status := ''closed'', ci_closed_at := Some now\<rparr> else k) = k"
    using close(3) by simp
  then have "k \<in> set (at_checkins (snd (close_row now i d)))"
    using close(2) unfolding close_row_def by (auto intro!: image_eqI [where x = k])
  then show ?case by (simp add: scan_times_def)
next
  case (scan code d k' clk u)
  have "k' \<in> set (at_checkins d)" using scan(1) by (auto simp: find_Some_iff)
  then have "ci_id k' \<noteq> ci_id k"
    using scan(2,4,5,6) by (auto simp: att_inv_def distinct_map inj_on_def)
  then show ?case using scan(5) by (simp add: scan_times_def insert_scan_def map_filter_snoc scan_of_def)
next
  case (correct d k' st clk u who)
  then show ?case by (simp add: scan_times_upsert)
qed

lemma closed_stays_request:
  assumes "att_request d d'" and "att_inv d" and "k \<in> set (at_checkins d)" and "ci_status k = ''closed''"
  shows "k \<in> set (at_checkins d') \<and> scan_times d' (ci_id k) = scan_times d (ci_id k)"
  using att_request_steps [OF assms(1)]
proof
  assume "\<exists>x. d' = d\<lparr>at_campus := x\<rparr>"
  then show ?thesis using assms(3) by (elim exE) simp
qed (rule closed_stays [OF _ assms(2-4)])

subsection \<open>Properties\<close>

text \<open>
  C17: However the requests of students and teachers are interleaved with each other and with the other
  components, and whatever the database refuses: the codes of check-ins stay unique, a user has at most one
  record per check-in, and every record belongs to a check-in. A closed check-in stays as it is, and the
  scans stored for it (user and instant) are final: later requests neither add, change nor remove one.
\<close>

theorem closed_checkin_is_final:
  assumes "att_request\<^sup>*\<^sup>* d d'" and "att_inv d" and "k \<in> set (at_checkins d)" and "ci_status k = ''closed''"
  shows "att_inv d' \<and> k \<in> set (at_checkins d') \<and> scan_times d' (ci_id k) = scan_times d (ci_id k)"
  using assms(1)
proof (induction rule: rtranclp_induct)
  case base
  then show ?case using assms by simp
next
  case (step d1 d2)
  then show ?case using closed_stays_request [OF step(2) _ _ assms(4)] att_request_inv [OF step(2)] by simp
qed

definition demo_checkin :: checkin where
  "demo_checkin = \<lparr>ci_id = 1, ci_offering = Some 1, ci_session = None, ci_title = ''Roll call'', ci_code = ''004711'',
     ci_late_minutes = 10, ci_status = ''active'', ci_starts_at = 0, ci_expires_at = Some (30 * minute_ns), ci_created_by = 9,
     ci_created_at = 0, ci_closed_at = None\<rparr>"

definition demo_att :: att_db where
  "demo_att = \<lparr>at_campus = demo_rooms, at_checkins = [demo_checkin], at_records = [], at_next_checkin = 2, at_next_record = 1\<rparr>"

definition demo_at :: "int \<Rightarrow> att_clock" where
  "demo_at t = \<lparr>ak_now = t, ak_later = t, ak_db = t\<rparr>"

definition demo_student :: subject where
  "demo_student = \<lparr>sj_id = 3, sj_type = ''student'', sj_username = ''s'', sj_display_name = [], sj_permissions = {''attendance:checkin''}, sj_roles = [], sj_groups = []\<rparr>"

lemma demo_att_inv: "att_inv demo_att"
  by (simp add: att_inv_def demo_att_def demo_checkin_def)

theorem closed_checkin_is_final_witness:
  "\<exists>d'. att_request\<^sup>*\<^sup>* (snd (close_row 5 1 demo_att)) d' \<and>
     demo_checkin\<lparr>ci_status := ''closed'', ci_closed_at := Some 5\<rparr> \<in> set (at_checkins d') \<and> scan_times d' 1 = []"
proof -
  let ?d = "snd (close_row 5 1 demo_att)" and ?k = "demo_checkin\<lparr>ci_status := ''closed'', ci_closed_at := Some 5\<rparr>"
  have d: "att_inv ?d" by (rule att_inv_step [OF att_step.close demo_att_inv])
  have k: "?k \<in> set (at_checkins ?d)" "ci_status ?k = ''closed''"
    by (simp_all add: close_row_def demo_att_def demo_checkin_def)
  have e: "scan_times ?d (ci_id ?k) = []" by (simp add: scan_times_def demo_att_def List.map_filter_simps)
  have "att_request ?d (tables (snd (scan_h (demo_at 6) demo_student (Some ''004711'') (healthy ?d))))"
    using att_request.scan [of "healthy ?d"] by simp
  then have r: "att_request\<^sup>*\<^sup>* ?d (tables (snd (scan_h (demo_at 6) demo_student (Some ''004711'') (healthy ?d))))"
    by (rule r_into_rtranclp)
  have "ci_id ?k = 1" by (simp add: demo_checkin_def)
  with closed_checkin_is_final [OF r d k] e r show ?thesis by auto
qed

text \<open>
  C18: What a scan does, under any failure of the database. The answer decides the tables: an answer 200
  with \<open>isNew\<close> comes with exactly one new record, of the scanning user, for the active and unexpired check-in
  with that code, whose status is late exactly when the check-in has a threshold and the scan comes after it;
  every other answer leaves all tables as they were, so an existing record (a teacher's correction in
  particular) is never overwritten.
\<close>

theorem scan_writes_one_record:
  assumes "scan_h clk sub body c = (resp, c')"
  shows "(\<exists>r. resp = RespJSON 200 r \<and> sr_is_new r \<and>
      (\<exists>k \<in> set (at_checkins (tables c)). ci_code k = trim_space (the body) \<and> ci_id k = sr_checkin r \<and>
         ci_status k = ''active'' \<and> \<not> expired (ak_now clk) k \<and>
         find_record (tables c) (ci_id k) (sj_id sub) = None \<and>
         sr_status r = (if ci_late_minutes k > 0 \<and> ak_later clk > ci_starts_at k + minutes (ci_late_minutes k)
           then ''late'' else ''present'') \<and>
         tables c' = snd (insert_scan clk (ci_id k) (sj_id sub) (sr_status r) (tables c)))) \<or>
    (\<not> (\<exists>r. resp = RespJSON 200 r \<and> sr_is_new r) \<and> tables c' = tables c)"
proof (cases "\<exists>r. resp = RespJSON 200 r")
  case False
  have "tables (snd (scan_h clk sub body c)) = tables c"
  proof (cases "body = None \<or> length (trim_space (the body)) \<noteq> 6 \<or> \<not> list_all is_digit (trim_space (the body))")
    case True
    then show ?thesis by (auto simp: scan_h_def Let_def split: option.split)
  next
    case ok: False
    then obtain raw where raw: "body = Some raw" by (cases body) auto
    obtain res c1 where run: "scan_by_code clk (trim_space raw) (sj_id sub) c = (res, c1)" by fastforce
    from False assms ok raw run obtain e where "res = Inl e"
      by (cases res) (auto simp: scan_h_def Let_def)
    then have "tables c1 = tables c" using run unfolding scan_by_code_def by (auto intro: transaction_atomic)
    moreover have "snd (scan_h clk sub body c) = c1"
      using ok raw run \<open>res = Inl e\<close> by (simp add: scan_h_def Let_def split: att_error.split)
    ultimately show ?thesis by simp
  qed
  with False assms show ?thesis by auto
next
  case True
  then obtain r where r: "resp = RespJSON 200 r" by blast
  with assms obtain raw where raw: "body = Some raw" by (cases body) (auto simp: scan_h_def)
  from assms r raw have run: "scan_by_code clk (trim_space raw) (sj_id sub) c = (Inr r, c')"
    by (auto simp: scan_h_def Let_def split: if_splits prod.splits sum.splits att_error.splits)
  have cl: "clean (scan_by_code clk (trim_space raw) (sj_id sub))"
    unfolding scan_by_code_def by (intro clean_intros)
  from cleanD [OF cl run]
  have run': "transaction (AttDb ''begin tx'') (AttDb ''commit'') (scan_tx clk (trim_space raw) (sj_id sub)) (healthy (tables c)) =
      (Inr r, healthy (tables c'))" by (simp add: scan_by_code_def)
  obtain rr dd where tx: "scan_tx clk (trim_space raw) (sj_id sub) (healthy (tables c)) = (rr, healthy dd)"
    using scan_tx_is_healthy by blast
  from run' transaction_healthy_clean [where body = "scan_tx clk (trim_space raw) (sj_id sub)", OF tx] have rr: "rr = Inr r" "dd = tables c'" by (auto split: sum.splits)
  from tx rr obtain k where k: "List.find (\<lambda>k. ci_code k = trim_space raw) (at_checkins (tables c)) = Some k"
      "ci_status k = ''active''" "\<not> expired (ak_now clk) k"
      "r = \<lparr>sr_checkin = ci_id k, sr_title = ci_title k,
         sr_status = (case find_record (tables c) (ci_id k) (sj_id sub) of None \<Rightarrow> scan_status (ak_later clk) k | Some x \<Rightarrow> cr_status x),
         sr_is_new = (find_record (tables c) (ci_id k) (sj_id sub) = None), sr_in_roster = roster_flag (tables c) k (sj_id sub)\<rparr>"
      "tables c' = snd (insert_scan clk (ci_id k) (sj_id sub) (scan_status (ak_later clk) k) (tables c))"
    unfolding scan_tx_healthy by (auto split: option.splits if_splits)
  have in_k: "k \<in> set (at_checkins (tables c))" "ci_code k = trim_space raw" using k(1) by (auto simp: find_Some_iff)
  show ?thesis
  proof (cases "find_record (tables c) (ci_id k) (sj_id sub)")
    case None
    have "\<exists>k' \<in> set (at_checkins (tables c)). ci_code k' = trim_space (the body) \<and> ci_id k' = sr_checkin r \<and>
         ci_status k' = ''active'' \<and> \<not> expired (ak_now clk) k' \<and>
         find_record (tables c) (ci_id k') (sj_id sub) = None \<and>
         sr_status r = (if ci_late_minutes k' > 0 \<and> ak_later clk > ci_starts_at k' + minutes (ci_late_minutes k')
           then ''late'' else ''present'') \<and>
         tables c' = snd (insert_scan clk (ci_id k') (sj_id sub) (sr_status r) (tables c))"
      using k in_k None raw by (intro bexI [of _ k]) (simp_all add: scan_status_def)
    then show ?thesis using r k(4) None by auto
  next
    case (Some x)
    then have "tables c' = tables c" using k(5) by (simp add: insert_scan_def)
    then show ?thesis using r k(4) Some by simp
  qed
qed

theorem scan_writes_one_record_witness:
  "length (at_records (tables (snd (scan_h (demo_at 700000000000) demo_student (Some '' 004711 '') (healthy demo_att))))) = 1 \<and>
   map cr_status (at_records (tables (snd (scan_h (demo_at 700000000000) demo_student (Some '' 004711 '') (healthy demo_att))))) = [''late'']"
proof -
  let ?run = "scan_h (demo_at 700000000000) demo_student (Some '' 004711 '') (healthy demo_att)"
  have t: "trim_space '' 004711 '' = ''004711'' \<and> list_all is_digit ''004711''" by code_simp
  have "scan_by_code (demo_at 700000000000) ''004711'' 3 (healthy demo_att) =
      (Inr \<lparr>sr_checkin = 1, sr_title = ''Roll call'', sr_status = ''late'', sr_is_new = True, sr_in_roster = roster_flag demo_att demo_checkin 3\<rparr>,
       healthy (snd (insert_scan (demo_at 700000000000) 1 3 ''late'' demo_att)))"
  proof -
    have tx: "scan_tx (demo_at 700000000000) ''004711'' 3 (healthy demo_att) =
      (Inr \<lparr>sr_checkin = 1, sr_title = ''Roll call'', sr_status = ''late'', sr_is_new = True, sr_in_roster = roster_flag demo_att demo_checkin 3\<rparr>,
       healthy (snd (insert_scan (demo_at 700000000000) 1 3 ''late'' demo_att)))"
      unfolding scan_tx_healthy
      by (simp add: demo_att_def demo_checkin_def demo_at_def expired_def minute_ns_def find_record_def scan_status_def
          minutes_def wrap64_def roster_flag_def)
    show ?thesis unfolding scan_by_code_def
      by (simp add: transaction_healthy_clean [where body = "scan_tx (demo_at 700000000000) ''004711'' 3", OF tx])
  qed
  then have run: "?run = (RespJSON 200 \<lparr>sr_checkin = 1, sr_title = ''Roll call'', sr_status = ''late'', sr_is_new = True,
      sr_in_roster = roster_flag demo_att demo_checkin 3\<rparr>, healthy (snd (insert_scan (demo_at 700000000000) 1 3 ''late'' demo_att)))"
    using t by (simp add: scan_h_def demo_student_def)
  from scan_writes_one_record [OF run] have "tables (snd ?run) = snd (insert_scan (demo_at 700000000000) 1 3 ''late'' demo_att)"
    using run by (simp add: demo_student_def)
  then show ?thesis by (simp add: insert_scan_def demo_att_def find_record_def)
qed

subsection \<open>Counts and lists\<close>

text \<open>
  What the joins rely on: the unique keys of profiles, members and offerings, positive offering ids,
  and that the users and classes behind profiles and records exist.
\<close>

definition roster_keys :: "campus_db \<Rightarrow> bool" where
  "roster_keys d \<longleftrightarrow> distinct (map pr_user (cd_profiles d)) \<and> distinct (cd_members d) \<and> distinct (map of_id (cd_offerings d)) \<and>
     (\<forall>f \<in> set (cd_offerings d). 0 < of_id f)"

definition people_exist :: "att_db \<Rightarrow> bool" where
  "people_exist d \<longleftrightarrow> (\<forall>p \<in> set (cd_profiles (at_campus d)). find_user (at_campus d) (pr_user p) \<noteq> None \<and>
       find_admin_class (at_campus d) (pr_class p) \<noteq> None) \<and>
     (\<forall>r \<in> set (at_records d). find_user (at_campus d) (cr_user r) \<noteq> None)"

lemma list_sub_single: "set xs \<subseteq> {p} \<Longrightarrow> length xs \<le> 1 \<Longrightarrow> xs = [] \<or> xs = [p]"
  by (cases xs) auto

lemma if_single: "xs = [] \<or> xs = [p] \<Longrightarrow> (if b then xs else []) = (if b \<and> xs \<noteq> [] then [p] else [])"
  by auto

lemma length_concat_if_unique:
  assumes "distinct xs" and "\<And>x y. x \<in> set xs \<Longrightarrow> y \<in> set xs \<Longrightarrow> P x \<Longrightarrow> P y \<Longrightarrow> x = y"
  shows "length (concat (map (\<lambda>x. if P x then [z] else []) xs)) \<le> 1"
  using assms
proof (induction xs)
  case (Cons x xs)
  show ?case
  proof (cases "P x")
    case True
    then have "\<not> P y" if "y \<in> set xs" for y using Cons.prems that by auto
    then have "concat (map (\<lambda>x. if P x then [z] else []) xs) = []" by auto
    with True show ?thesis by simp
  next
    case False
    with Cons show ?thesis by simp
  qed
qed simp

lemma roster_join_users:
  assumes "roster_keys d"
  shows "distinct (map pr_user (roster_join d off)) \<and> set (roster_join d off) \<subseteq> set (cd_profiles d)"
proof -
  let ?off = "\<lambda>(m :: int \<times> int) (p :: student_profile). concat (map (\<lambda>f. if of_teaching_class f = fst m \<and> of_id f = off then [p] else []) (cd_offerings d))"
  let ?row = "\<lambda>p :: student_profile. concat (map (\<lambda>m. if snd m = pr_class p then ?off m p else []) (cd_members d))"
  have off: "length (?off m p) \<le> 1" for m p
    using assms by (intro length_concat_if_unique) (auto simp: roster_keys_def distinct_map inj_on_def)
  have only: "?off m p \<noteq> [] \<Longrightarrow> ?off m' p \<noteq> [] \<Longrightarrow> fst m = fst m'" for m m' p
    using assms by (auto simp: roster_keys_def distinct_map inj_on_def split: if_splits)
  have row: "?row p = [] \<or> ?row p = [p]" for p
  proof -
    have eq: "?row p = concat (map (\<lambda>m. if snd m = pr_class p \<and> ?off m p \<noteq> [] then [p] else []) (cd_members d))"
    proof (rule arg_cong [of _ _ concat], rule map_cong [OF refl])
      fix m
      have "set (?off m p) \<subseteq> {p}" by auto
      with off [of m p] show "(if snd m = pr_class p then ?off m p else []) = (if snd m = pr_class p \<and> ?off m p \<noteq> [] then [p] else [])"
        by (intro if_single list_sub_single) simp_all
    qed
    have "length (concat (map (\<lambda>m. if snd m = pr_class p \<and> ?off m p \<noteq> [] then [p] else []) (cd_members d))) \<le> 1"
    proof (rule length_concat_if_unique)
      show "distinct (cd_members d)" using assms by (simp add: roster_keys_def)
      fix m m'
      assume "snd m = pr_class p \<and> ?off m p \<noteq> []" "snd m' = pr_class p \<and> ?off m' p \<noteq> []"
      then show "m = m'" using only [of m p m'] by (auto simp: prod_eq_iff)
    qed
    then have "length (?row p) \<le> 1" by (simp only: eq)
    moreover have "set (?row p) \<subseteq> {p}" by auto
    ultimately show ?thesis by (intro list_sub_single)
  qed
  have join: "roster_join d off = concat (map ?row (cd_profiles d))"
    unfolding roster_join_def by (simp add: if_distrib cong: if_cong)
  have "map pr_user (concat (map ?row ps)) = map pr_user (filter (\<lambda>p. ?row p \<noteq> []) ps)" for ps
  proof (induction ps)
    case (Cons p ps)
    then show ?case using row [of p] by auto
  qed simp
  then have "map pr_user (roster_join d off) = map pr_user (filter (\<lambda>p. ?row p \<noteq> []) (cd_profiles d))"
    unfolding join .
  then have "distinct (map pr_user (roster_join d off))"
    using assms by (simp add: roster_keys_def distinct_map_filter)
  moreover have "set (roster_join d off) \<subseteq> set (cd_profiles d)"
    unfolding roster_join_def by auto
  ultimately show ?thesis by blast
qed

lemma roster_join_nonpos: "roster_keys d \<Longrightarrow> off \<le> 0 \<Longrightarrow> roster_join d off = []"
  unfolding roster_join_def roster_keys_def by fastforce

text \<open>A record in the roster is counted at its student: both sides have the same users.\<close>

lemma roster_record_counts:
  assumes "att_inv d" and "distinct (map pr_user R)"
  shows "length (filter (\<lambda>r. cr_checkin r = k \<and> (\<exists>p \<in> set R. pr_user p = cr_user r) \<and> Q r) (at_records d)) =
    length (filter (\<lambda>p. \<exists>r. find_record d k (pr_user p) = Some r \<and> Q r) R)"
proof -
  let ?A = "{r \<in> set (at_records d). cr_checkin r = k \<and> (\<exists>p \<in> set R. pr_user p = cr_user r) \<and> Q r}"
  let ?B = "{p \<in> set R. \<exists>r. find_record d k (pr_user p) = Some r \<and> Q r}"
  have keys: "distinct (map record_key (at_records d))" using assms(1) by (simp add: att_inv_def)
  then have inj: "inj_on record_key (set (at_records d))" and dr: "distinct (at_records d)" by (auto simp: distinct_map)
  have find: "find_record d k (cr_user r) = Some r" if "r \<in> set (at_records d)" "cr_checkin r = k" for r
  proof -
    have "find_record d k (cr_user r) \<noteq> None" using that by (auto simp: find_record_None record_key_def)
    then obtain r' where r': "find_record d k (cr_user r) = Some r'" by auto
    from find_record_Some [OF r'] that inj have "r' = r" by (auto simp: inj_on_def record_key_def)
    with r' show ?thesis by simp
  qed
  have "inj_on cr_user ?A" using inj by (auto simp: inj_on_def record_key_def)
  then have a: "card ?A = card (cr_user ` ?A)" by (simp add: card_image)
  have "inj_on pr_user ?B" using assms(2) by (auto simp: distinct_map inj_on_def)
  then have b: "card ?B = card (pr_user ` ?B)" by (simp add: card_image)
  have "cr_user ` ?A = pr_user ` ?B"
  proof
    show "cr_user ` ?A \<subseteq> pr_user ` ?B"
    proof
      fix u assume "u \<in> cr_user ` ?A"
      then obtain r p where "r \<in> set (at_records d)" "cr_checkin r = k" "p \<in> set R" "pr_user p = u" "cr_user r = u" "Q r" by auto
      with find [of r] show "u \<in> pr_user ` ?B" by (intro image_eqI [of _ _ p]) auto
    qed
    show "pr_user ` ?B \<subseteq> cr_user ` ?A"
    proof
      fix u assume "u \<in> pr_user ` ?B"
      then obtain p r where "p \<in> set R" "pr_user p = u" "find_record d k u = Some r" "Q r" by auto
      with find_record_Some [of d k u r] show "u \<in> cr_user ` ?A" by (intro image_eqI [of _ _ r]) auto
    qed
  qed
  with a b have "card ?A = card ?B" by simp
  moreover have "distinct R" using assms(2) by (simp add: distinct_map)
  ultimately show ?thesis using dr by (simp add: distinct_length_filter Collect_conj_eq [symmetric] Int_def conj_commute)
qed

lemma length_filter_split:
  "length (filter P xs) = length (filter (\<lambda>x. P x \<and> Q x) xs) + length (filter (\<lambda>x. P x \<and> \<not> Q x) xs)"
  by (induction xs) auto

lemma length_map_filter_all: "(\<And>x. x \<in> set xs \<Longrightarrow> g x = Some (h x)) \<Longrightarrow> List.map_filter g xs = map h xs"
  by (induction xs) (simp_all add: List.map_filter_simps)

lemma map_filter_guard:
  "(\<And>x. x \<in> set xs \<Longrightarrow> P x \<Longrightarrow> g x = Some (h x)) \<Longrightarrow>
   List.map_filter (\<lambda>x. if P x then g x else None) xs = map h (filter P xs)"
  by (induction xs) (simp_all add: List.map_filter_simps)

definition with_status :: "string \<Rightarrow> record_view list \<Rightarrow> int" where
  "with_status st vs = int (length (filter (\<lambda>v. rv_status v = st) vs))"

definition roster_status :: "att_db \<Rightarrow> int \<Rightarrow> student_profile \<Rightarrow> string" where
  "roster_status d k p = (case find_record d k (pr_user p) of None \<Rightarrow> ''absent'' | Some r \<Rightarrow> cr_status r)"

lemma roster_exists_iff: "roster_exists cd off u \<longleftrightarrow> (\<exists>p \<in> set (roster_join cd off). pr_user p = u)"
  by (simp add: roster_exists_def list_ex_iff)

text \<open>The unpaged record list: a row per roster student, a row per record outside the roster.\<close>

lemma record_rows_statuses:
  assumes "people_exist d" and "roster_keys (at_campus d)"
  shows "map (rv_status \<circ> snd) (roster_rows k off d) = map (roster_status d k) (roster_join (at_campus d) off)"
    and "map (rv_in_roster \<circ> snd) (roster_rows k off d) = map (\<lambda>_. True) (roster_join (at_campus d) off)"
    and "map (rv_status \<circ> snd) (extra_rows k off d) =
      map cr_status (filter (\<lambda>r. cr_checkin r = k \<and> \<not> roster_exists (at_campus d) off (cr_user r)) (at_records d))"
    and "map (rv_in_roster \<circ> snd) (extra_rows k off d) =
      map (\<lambda>_. False) (filter (\<lambda>r. cr_checkin r = k \<and> \<not> roster_exists (at_campus d) off (cr_user r)) (at_records d))"
proof -
  let ?cd = "at_campus d"
  have sub: "set (roster_join ?cd off) \<subseteq> set (cd_profiles ?cd)" using roster_join_users [OF assms(2)] by blast
  have "roster_rows k off d = map (\<lambda>p. record_row 0 (the (find_user ?cd (pr_user p))) (pr_student_no p)
      (ac_grade (the (find_admin_class ?cd (pr_class p)))) (ac_name (the (find_admin_class ?cd (pr_class p))))
      (find_record d k (pr_user p))) (roster_join ?cd off)"
    unfolding roster_rows_def
  proof (rule length_map_filter_all)
    fix p assume "p \<in> set (roster_join ?cd off)"
    then have "find_user ?cd (pr_user p) \<noteq> None" "find_admin_class ?cd (pr_class p) \<noteq> None"
      using sub assms(1) by (auto simp: people_exist_def)
    then show "(case (find_user ?cd (pr_user p), find_admin_class ?cd (pr_class p)) of
       (Some u, Some a) \<Rightarrow> Some (record_row 0 u (pr_student_no p) (ac_grade a) (ac_name a) (find_record d k (pr_user p)))
     | _ \<Rightarrow> None) = Some (record_row 0 (the (find_user ?cd (pr_user p))) (pr_student_no p)
      (ac_grade (the (find_admin_class ?cd (pr_class p)))) (ac_name (the (find_admin_class ?cd (pr_class p))))
      (find_record d k (pr_user p)))" by auto
  qed
  then show "map (rv_status \<circ> snd) (roster_rows k off d) = map (roster_status d k) (roster_join ?cd off)"
    and "map (rv_in_roster \<circ> snd) (roster_rows k off d) = map (\<lambda>_. True) (roster_join ?cd off)"
    by (simp_all add: record_row_def roster_status_def)
  have "extra_rows k off d = map (\<lambda>r. case profile_texts ?cd (cr_user r) of (no, grade, name) \<Rightarrow>
      record_row 1 (the (find_user ?cd (cr_user r))) no grade name (Some r))
      (filter (\<lambda>r. cr_checkin r = k \<and> \<not> roster_exists ?cd off (cr_user r)) (at_records d))"
    unfolding extra_rows_def
  proof (rule map_filter_guard)
    fix r assume "r \<in> set (at_records d)"
    then obtain u where "find_user ?cd (cr_user r) = Some u" using assms(1) by (auto simp: people_exist_def)
    then show "map_option (\<lambda>u. case profile_texts ?cd (cr_user r) of (no, grade, name) \<Rightarrow> record_row 1 u no grade name (Some r))
        (find_user ?cd (cr_user r)) = Some (case profile_texts ?cd (cr_user r) of (no, grade, name) \<Rightarrow>
        record_row 1 (the (find_user ?cd (cr_user r))) no grade name (Some r))" by simp
  qed
  then show "map (rv_status \<circ> snd) (extra_rows k off d) =
      map cr_status (filter (\<lambda>r. cr_checkin r = k \<and> \<not> roster_exists ?cd off (cr_user r)) (at_records d))"
    and "map (rv_in_roster \<circ> snd) (extra_rows k off d) =
      map (\<lambda>_. False) (filter (\<lambda>r. cr_checkin r = k \<and> \<not> roster_exists ?cd off (cr_user r)) (at_records d))"
    by (simp_all add: record_row_def split_def)
qed

lemma length_filter_map: "length (filter P (map f xs)) = length (filter (P \<circ> f) xs)"
  by (simp add: filter_map)

lemma length_filter_sorted:
  "length (filter P (map snd (sort_key f xs))) = length (filter P (map snd xs))"
proof -
  have "length (filter (P \<circ> snd) (sort_key f xs)) = length (filter (P \<circ> snd) xs)"
    by (simp add: filter_sort)
  then show ?thesis by (simp add: filter_map)
qed

text \<open>How often a status occurs in the list, in terms of the tables.\<close>

lemma listed_status_count:
  assumes "att_inv d" and "people_exist d" and "roster_keys (at_campus d)"
  shows "with_status st (select_records ck eq k off [] [] d) =
    records_with d k st +
    (if st = ''absent'' then int (length (roster_join (at_campus d) off)) - roster_records d off k else 0)"
proof -
  let ?cd = "at_campus d" and ?R = "roster_join (at_campus d) off"
  have R: "distinct (map pr_user ?R)" using roster_join_users [OF assms(3)] by blast
  let ?in = "\<lambda>r. cr_checkin r = k \<and> (\<exists>p \<in> set ?R. pr_user p = cr_user r)"
  have all: "filter (record_matches eq [] []) vs = vs" for vs by (simp add: record_matches_def)
  have "with_status st (select_records ck eq k off [] [] d) =
      int (length (filter (\<lambda>v. rv_status v = st) (map snd (roster_rows k off d @ extra_rows k off d))))"
    unfolding with_status_def select_records_def all length_filter_sorted ..
  also have "\<dots> = int (length (filter ((=) st) (map (rv_status \<circ> snd) (roster_rows k off d)))) +
      int (length (filter ((=) st) (map (rv_status \<circ> snd) (extra_rows k off d))))"
    by (simp add: filter_map o_def eq_commute)
  also have "\<dots> = int (length (filter (\<lambda>p. roster_status d k p = st) ?R)) +
      int (length (filter (\<lambda>r. cr_checkin r = k \<and> \<not> (\<exists>p \<in> set ?R. pr_user p = cr_user r) \<and> cr_status r = st) (at_records d)))"
    unfolding record_rows_statuses(1,3) [OF assms(2,3)] roster_exists_iff
    by (simp add: filter_map o_def eq_commute conj_ac)
  finally have listed: "with_status st (select_records ck eq k off [] [] d) = \<dots>" .
  have rest: "length (filter (\<lambda>p. \<not> (\<exists>r. find_record d k (pr_user p) = Some r \<and> True)) ?R) =
      length ?R - length (filter ?in (at_records d))"
    using sum_length_filter_compl [of "\<lambda>p. \<exists>r. find_record d k (pr_user p) = Some r" ?R]
      roster_record_counts [OF assms(1) R, of k "\<lambda>_. True"] by simp
  have "length (filter (\<lambda>p. roster_status d k p = st) ?R) =
      length (filter (\<lambda>p. roster_status d k p = st \<and> find_record d k (pr_user p) \<noteq> None) ?R) +
      length (filter (\<lambda>p. roster_status d k p = st \<and> find_record d k (pr_user p) = None) ?R)"
    using length_filter_split [of "\<lambda>p. roster_status d k p = st" ?R "\<lambda>p. find_record d k (pr_user p) \<noteq> None"] by simp
  also have "filter (\<lambda>p. roster_status d k p = st \<and> find_record d k (pr_user p) \<noteq> None) ?R =
      filter (\<lambda>p. \<exists>r. find_record d k (pr_user p) = Some r \<and> cr_status r = st) ?R"
    by (rule filter_cong [OF refl]) (auto simp: roster_status_def)
  also have "filter (\<lambda>p. roster_status d k p = st \<and> find_record d k (pr_user p) = None) ?R =
      (if st = ''absent'' then filter (\<lambda>p. \<not> (\<exists>r. find_record d k (pr_user p) = Some r \<and> True)) ?R else [])"
    by (cases "st = ''absent''") (auto simp: roster_status_def filter_empty_conv split: option.splits intro!: filter_cong)
  finally have roster: "length (filter (\<lambda>p. roster_status d k p = st) ?R) =
      length (filter (\<lambda>r. cr_checkin r = k \<and> (\<exists>p \<in> set ?R. pr_user p = cr_user r) \<and> cr_status r = st) (at_records d)) +
      (if st = ''absent'' then length ?R - length (filter ?in (at_records d)) else 0)"
    unfolding roster_record_counts [OF assms(1) R, of k "\<lambda>r. cr_status r = st"] using rest by simp
  have le: "length (filter ?in (at_records d)) \<le> length ?R"
    using roster_record_counts [OF assms(1) R, of k "\<lambda>_. True"] by (simp add: conj_ac)
  have one: "length (concat (map (\<lambda>p. if pr_user p = u then [r] else []) ps)) = (if \<exists>p \<in> set ps. pr_user p = u then 1 else 0)"
    if "distinct (map pr_user ps)" for ps :: "student_profile list" and u and r :: check_record
    using that by (induction ps) (auto simp: concat_eq_Nil_conv)
  have "length (concat (map (\<lambda>r. if cr_checkin r = k
      then concat (map (\<lambda>p. if pr_user p = cr_user r then [r] else []) ?R) else []) rs)) = length (filter ?in rs)" for rs :: "check_record list"
  proof (induction rs)
    case (Cons r rs)
    then show ?case using one [OF R, of "cr_user r" r] by (cases "cr_checkin r = k") auto
  qed simp
  then have in_all: "roster_records d off k = int (length (filter ?in (at_records d)))"
    by (simp add: roster_records_def)
  have split: "records_with d k st =
      int (length (filter (\<lambda>r. cr_checkin r = k \<and> (\<exists>p \<in> set ?R. pr_user p = cr_user r) \<and> cr_status r = st) (at_records d))) +
      int (length (filter (\<lambda>r. cr_checkin r = k \<and> \<not> (\<exists>p \<in> set ?R. pr_user p = cr_user r) \<and> cr_status r = st) (at_records d)))"
    unfolding records_with_def
    using length_filter_split [of "\<lambda>r. cr_checkin r = k \<and> cr_status r = st" "at_records d" ?in]
    by (simp add: conj_ac cong: conj_cong)
  show ?thesis unfolding listed roster in_all split using le by simp
qed

definition counts_of :: "att_db \<Rightarrow> int \<Rightarrow> int \<Rightarrow> check_counts" where
  "counts_of d off k =
     (let expected = (if off > 0 then roster_count (at_campus d) off else 0); have = (if off > 0 then roster_records d off k else 0)
      in \<lparr>cc_expected = expected, cc_present = records_with d k ''present'', cc_late = records_with d k ''late'',
          cc_absent = records_with d k ''absent'' + (expected - have), cc_leave = records_with d k ''leave''\<rparr>)"

lemma get_checkin_healthy:
  assumes "distinct (map ci_id (at_checkins d))" and "find_checkin d i = Some k"
  shows "get_checkin now i (healthy d) =
    (Inr ((checkin_view_of now d k)\<lparr>cv_counts := counts_of d (null_int (ci_offering k)) i\<rparr>), healthy d)"
proof -
  have k: "k \<in> set (at_checkins d)" "ci_id k = i" using assms(2) by (auto simp: find_checkin_def find_Some_iff)
  have "filter (\<lambda>x. ci_id x = i) ks = [k]" if "distinct (map ci_id ks)" "k \<in> set ks" for ks
    using that k(2) by (induction ks) (force simp: filter_empty_conv image_iff)+
  then have f: "filter (\<lambda>x. ci_id x = i) (at_checkins d) = [k]" using assms(1) k(1) by blast
  let ?off = "null_int (ci_offering k)"
  have off: "cv_offering (checkin_view_of now d k) = ?off" "cv_id (checkin_view_of now d k) = i"
    by (simp_all add: checkin_view_of_def k)
  have "backfill_counts [checkin_view_of now d k] (healthy d) =
      (Inr [(checkin_view_of now d k)\<lparr>cv_counts := counts_of d ?off i\<rparr>], healthy d)"
    by (simp add: backfill_counts_def off counts_of_def Let_def dbind_def)
  then have "get_checkins now (\<lambda>x. ci_id x = i) (healthy d) = (Inr [(checkin_view_of now d k)\<lparr>cv_counts := counts_of d ?off i\<rparr>], healthy d)"
    by (simp add: get_checkins_def f)
  then show ?thesis by (simp add: get_checkin_def)
qed

text \<open>The full record list with the roster flags as \<open>PageRecords\<close> reports them.\<close>

definition full_list :: "(string \<Rightarrow> 'k::linorder) \<Rightarrow> (char \<Rightarrow> char \<Rightarrow> bool) \<Rightarrow> int \<Rightarrow> int \<Rightarrow> att_db \<Rightarrow> record_view list" where
  "full_list ck eq k off d = map (\<lambda>v. v\<lparr>rv_in_roster := off = 0 \<or> rv_in_roster v\<rparr>) (select_records ck eq k off [] [] d)"

lemma list_records_all_healthy:
  assumes "distinct (map ci_id (at_checkins d))" and "find_checkin d i = Some k"
  shows "list_records_all ck eq now i (healthy d) = (Inr (full_list ck eq i (null_int (ci_offering k)) d), healthy d)"
proof -
  have off: "cv_offering ((checkin_view_of now d k)\<lparr>cv_counts := x\<rparr>) = null_int (ci_offering k)" for x
    by (simp add: checkin_view_of_def)
  have "page_records ck eq now i [] [] \<lparr>pg_limit = 0, pg_offset = 0\<rparr> (healthy d) =
      (Inr (full_list ck eq i (null_int (ci_offering k)) d, int (length (select_records ck eq i (null_int (ci_offering k)) [] [] d))), healthy d)"
    unfolding page_records_def full_list_def
    by (simp add: get_checkin_healthy [OF assms] off limit_rows_def paged_def del: checkin_view.simps checkin_view.select_convs)
  then show ?thesis by (simp add: list_records_all_def)
qed

lemma with_status_full_list: "with_status st (full_list ck eq k off d) = with_status st (select_records ck eq k off [] [] d)"
  by (simp add: with_status_def full_list_def filter_map o_def)

lemma in_roster_full_list:
  assumes "people_exist d" and "roster_keys (at_campus d)" and "off \<noteq> 0"
  shows "length (filter rv_in_roster (full_list ck eq k off d)) = length (roster_join (at_campus d) off)"
proof -
  have all: "filter (record_matches eq [] []) vs = vs" for vs by (simp add: record_matches_def)
  have "map (\<lambda>v. v\<lparr>rv_in_roster := off = 0 \<or> rv_in_roster v\<rparr>) vs = vs" for vs :: "record_view list"
    using assms(3) by (simp add: map_idI)
  then have "length (filter rv_in_roster (full_list ck eq k off d)) =
      length (filter rv_in_roster (map snd (roster_rows k off d @ extra_rows k off d)))"
    unfolding full_list_def select_records_def all by (simp only: length_filter_sorted)
  also have "\<dots> = length (filter id (map (rv_in_roster \<circ> snd) (roster_rows k off d))) +
      length (filter id (map (rv_in_roster \<circ> snd) (extra_rows k off d)))"
    by (simp add: filter_map o_def)
  also have "\<dots> = length (roster_join (at_campus d) off)"
    unfolding record_rows_statuses(2,4) [OF assms(1,2)] by (simp add: filter_map o_def)
  finally show ?thesis .
qed

text \<open>
  C19: The counts of a check-in agree with its record list. \<open>GetCheckin\<close> computes them with grouped queries
  (records by status, the size of the roster, the roster students that have a record), the record list is
  the union of the roster, missing records read as absent, and of the records outside it: each of the four
  counts is the number of rows of the list with that status, and \<open>expected\<close> the number of its roster rows,
  as long as the unique keys hold and the users and classes behind profiles and records exist.
\<close>

theorem counts_match_record_list:
  assumes "att_inv d" and "people_exist d" and "roster_keys (at_campus d)" and "find_checkin d i = Some k"
  shows "\<exists>v rows. get_checkin now i (healthy d) = (Inr v, healthy d) \<and>
    list_records_all ck eq now i (healthy d) = (Inr rows, healthy d) \<and>
    cc_present (cv_counts v) = with_status ''present'' rows \<and> cc_late (cv_counts v) = with_status ''late'' rows \<and>
    cc_absent (cv_counts v) = with_status ''absent'' rows \<and> cc_leave (cv_counts v) = with_status ''leave'' rows \<and>
    (0 < cv_offering v \<longrightarrow> cc_expected (cv_counts v) = int (length (filter rv_in_roster rows)))"
proof -
  let ?off = "null_int (ci_offering k)" and ?v = "(checkin_view_of now d k)\<lparr>cv_counts := counts_of d (null_int (ci_offering k)) i\<rparr>"
  have ids: "distinct (map ci_id (at_checkins d))" using assms(1) by (simp add: att_inv_def)
  note v = get_checkin_healthy [OF ids assms(4), of now] and rows = list_records_all_healthy [OF ids assms(4), of ck eq now]
  have R: "distinct (map pr_user (roster_join (at_campus d) ?off))" using roster_join_users [OF assms(3)] by blast
  then have n: "roster_count (at_campus d) ?off = int (length (roster_join (at_campus d) ?off))"
    by (simp add: roster_count_def distinct_remdups_id)
  have none: "roster_join (at_campus d) ?off = [] \<and> roster_records d ?off i = 0" if "\<not> 0 < ?off"
    using roster_join_nonpos [OF assms(3), of ?off] that by (auto simp: roster_records_def concat_eq_Nil_conv)
  have cnt: "with_status st (full_list ck eq i ?off d) = records_with d i st +
      (if st = ''absent'' then int (length (roster_join (at_campus d) ?off)) - roster_records d ?off i else 0)" for st
    unfolding with_status_full_list by (rule listed_status_count [OF assms(1-3)])
  show ?thesis
  proof (intro exI conjI, rule v, rule rows)
    show "cc_absent (cv_counts ?v) = with_status ''absent'' (full_list ck eq i ?off d)"
      unfolding cnt using none n by (auto simp: counts_of_def Let_def)
    show "0 < cv_offering ?v \<longrightarrow> cc_expected (cv_counts ?v) = int (length (filter rv_in_roster (full_list ck eq i ?off d)))"
      using in_roster_full_list [OF assms(2,3), of ?off ck eq i] n by (auto simp: counts_of_def Let_def checkin_view_of_def)
  qed (simp_all add: cnt counts_of_def Let_def)
qed

definition demo_class :: att_db where
  "demo_class = demo_att\<lparr>at_campus := demo_study\<lparr>
       cd_users := [\<lparr>us_id = 3, us_username = ''s'', us_display_name = ''An'', us_type = ''student''\<rparr>,
                    \<lparr>us_id = 4, us_username = ''t'', us_display_name = ''Bo'', us_type = ''student''\<rparr>],
       cd_profiles := [\<lparr>pr_user = 3, pr_class = 1, pr_student_no = ''17'', pr_note = []\<rparr>]\<rparr>,
     at_records := [\<lparr>cr_id = 1, cr_checkin = 1, cr_user = 4, cr_status = ''late'', cr_checked_at = Some 9,
       cr_modified_by = None, cr_modified_at = None, cr_created_at = 9\<rparr>], at_next_record := 2\<rparr>"

lemmas demo_class_simps = demo_class_def demo_att_def demo_checkin_def demo_study_def demo_org_def campus_empty_def

theorem counts_match_record_list_witness:
  "\<exists>v rows. get_checkin 20 1 (healthy demo_class) = (Inr v, healthy demo_class) \<and>
    list_records_all id (=) 20 1 (healthy demo_class) = (Inr rows, healthy demo_class) \<and>
    cc_absent (cv_counts v) = with_status ''absent'' rows \<and> cc_late (cv_counts v) = with_status ''late'' rows"
proof -
  have "att_inv demo_class"
    by (simp add: att_inv_def demo_class_simps record_key_def record_statuses_def)
  moreover have "people_exist demo_class"
    by (simp add: people_exist_def demo_class_simps find_user_def find_admin_class_def)
  moreover have "roster_keys (at_campus demo_class)"
    by (simp add: roster_keys_def demo_class_simps set_offering_def blank_offering_def)
  moreover have "find_checkin demo_class 1 = Some demo_checkin"
    by (simp add: find_checkin_def demo_class_def demo_att_def demo_checkin_def)
  ultimately show ?thesis
    using counts_match_record_list [of demo_class 1 demo_checkin 20 id "(=)"] by blast
qed

text \<open>The listing never fills the counts in, and neither does the report that is made of it.\<close>

theorem listed_counts_are_zero:
  assumes "page_checkins pg eq now f p c = (Inr (vs, n), c')"
  shows "list_all (\<lambda>v. cv_counts v = no_counts) vs"
  using assms by (auto simp: page_checkins_def checkin_view_of_def list_all_iff dest!: dbind_Inr query_row_Inr)

lemma report_rate_is_dash:
  assumes "cv_counts v = no_counts"
  shows "report_checkin_cells local_day rate v =
    [TextCell (local_day (cv_starts_at v)), TextCell (cv_title v)] @ replicate 6 (NumCell 0) @ [TextCell ''-'']"
  using assms by (simp add: report_checkin_cells_def no_counts_def Let_def numeral_eq_Suc)

text \<open>
  An expired check-in is rejected with 409, but the UPDATE that closes it belongs to the transaction
  that is then rolled back: the row stays active, and the status filter goes by the row.
\<close>

theorem expired_scan_leaves_active:
  assumes "att_inv d" and "k \<in> set (at_checkins d)" and "ci_status k = ''active''" and "expired (ak_now clk) k"
  shows "scan_by_code clk (ci_code k) u (healthy d) = (Inl CheckinExpired, healthy d)"
    and "effective_status (ak_now clk) k = ''closed''"
proof -
  have tx: "scan_tx clk (ci_code k) u (healthy d) = (Inl CheckinExpired, healthy (snd (auto_close_row (ak_now clk) (ci_id k) d)))"
    unfolding scan_tx_healthy find_code [OF assms(1,2) refl] using assms(3,4) by simp
  show "scan_by_code clk (ci_code k) u (healthy d) = (Inl CheckinExpired, healthy d)"
    unfolding scan_by_code_def by (simp add: transaction_healthy_clean [where body = "scan_tx clk (ci_code k) u", OF tx])
  show "effective_status (ak_now clk) k = ''closed''"
    using assms(3,4) by (simp add: effective_status_def expired_def split: option.splits)
qed

text \<open>
  Thresholds and durations are 64-bit products: up to 153722867 minutes they are exact, one more minute
  wraps, and a scan at the start is late (a check-in is expired as soon as it is created).
\<close>

theorem threshold_bounds:
  assumes "0 < ci_late_minutes k" and "ci_late_minutes k \<le> 153722867"
  shows "scan_status now k = ''late'' \<longleftrightarrow> now - ci_starts_at k > ci_late_minutes k * minute_ns"
proof -
  have "minutes (ci_late_minutes k) = ci_late_minutes k * minute_ns"
    unfolding minutes_def using assms by (intro wrap64_id) (auto simp: minute_ns_def min_int64_def max_int64_def)
  then show ?thesis using assms by (auto simp: scan_status_def)
qed

theorem threshold_wraps:
  "scan_status (ci_starts_at k) (k\<lparr>ci_late_minutes := 153722868\<rparr>) = ''late''"
  by (simp add: scan_status_def minutes_def minute_ns_def wrap64_def)

theorem duration_wraps:
  "ki_duration_minute inp = 153722868 \<Longrightarrow> expired (ak_now clk) (new_checkin clk who inp off title code i)"
  by (simp add: expired_def new_checkin_def minutes_def minute_ns_def wrap64_def)

text \<open>
  A negative offering id passes both checks: no title is required and no offering is looked up.
\<close>

theorem negative_offering_accepted:
  "\<exists>v d'. create_checkin (demo_at 5) (\<lambda>_. 42) \<lparr>ki_offering = - 7, ki_session = 0, ki_title = [], ki_late_minutes = 0, ki_duration_minute = 0\<rparr> 9
     (healthy demo_att) = (Inr v, healthy d') \<and> cv_title v = [] \<and> cv_offering v = - 7 \<and> length (at_checkins d') = 2"
proof -
  let ?inp = "\<lparr>ki_offering = - 7, ki_session = 0, ki_title = [], ki_late_minutes = 0, ki_duration_minute = 0\<rparr>"
  let ?k = "new_checkin (demo_at 5) 9 ?inp (- 7) [] ''000042'' 2"
  let ?d = "demo_att\<lparr>at_checkins := at_checkins demo_att @ [?k], at_next_checkin := 3\<rparr>"
  have code: "scan_code 42 = ''000042''" "pg_text 6 ''000042''" "pg_text 128 []" "trim_space [] = []" by code_simp+
  have ins: "insert_checkin (new_checkin (demo_at 5) 9 ?inp (- 7) [] ''000042'') demo_att = (Done 2, ?d)"
    using code by (simp add: insert_checkin_def new_checkin_def demo_att_def demo_checkin_def fits32_def)
  have loop: "code_attempts (\<lambda>_. ''000042'') (new_checkin (demo_at 5) 9 ?inp (- 7) []) 10 (healthy demo_att) = (Inr 2, healthy ?d)"
    by (simp add: numeral_eq_Suc ins)
  have "distinct (map ci_id (at_checkins ?d))" "find_checkin ?d 2 = Some ?k"
    by (simp_all add: demo_att_def demo_checkin_def new_checkin_def find_checkin_def)
  from get_checkin_healthy [OF this, of 5] loop show ?thesis
    by (simp add: create_checkin_def code anchor_of_def demo_at_def checkin_view_of_def new_checkin_def null_if_zero_def null_int_def demo_att_def)
qed

text \<open>The fallback name of the report cannot occur: the name keeps both dashes when both parts are empty.\<close>

theorem report_name_never_falls_back:
  "report_name s off = os_course_name s @ ''-'' @ os_semester s @ hx ''2de88083e58ba4e6b187e680bb2e786c7378''"
proof -
  have "length (os_course_name s @ ''-'' @ os_semester s @ hx ''2de88083e58ba4e6b187e680bb2e786c7378'') > length (hx ''2de88083e58ba4e6b187e680bb2e786c7378'')" by simp
  then have "os_course_name s @ ''-'' @ os_semester s @ hx ''2de88083e58ba4e6b187e680bb2e786c7378'' \<noteq> hx ''2de88083e58ba4e6b187e680bb2e786c7378''" by (metis less_irrefl)
  then show ?thesis by (simp add: report_name_def Let_def)
qed

end
