(* ===== verification/Iam.thy ===== *)
theory Iam
  imports Org
begin

text \<open>
  Identity and access management (\<open>internal/iam/model.go\<close>, \<open>store.go\<close> and \<open>handler.go\<close>): roles with their
  permissions, user groups, the grants of roles and permissions to users and groups, the system
  roles seeded at start-up, and their handlers. The accounts are the rows of the users table that
  \<open>Account\<close> works on. Columns that no query reads (row ids of grants, \<open>granted_at\<close>) are left out; \<open>ck\<close>
  orders texts as the database does.
\<close>

subsection \<open>Tables\<close>

record account =
  au_id :: int
  au_username :: string
  au_hash :: string
  au_display_name :: string
  au_type :: string
  au_openid :: "string option"
  au_created_at :: int

record role_row =
  ro_id :: int
  ro_code :: string
  ro_name :: string
  ro_description :: string
  ro_is_system :: bool

record user_role =
  ur_user :: int
  ur_role :: int
  ur_expires_at :: "int option"
  ur_granted_by :: "int option"

record user_perm =
  up_user :: int
  up_permission :: string
  up_expires_at :: "int option"
  up_granted_by :: "int option"

record group_row =
  gp_id :: int
  gp_name :: string
  gp_description :: string
  gp_created_at :: int

text \<open>\<open>ia_members\<close> pairs a group with a user, \<open>ia_group_roles\<close> a group with a role.\<close>

record iam_db =
  ia_users :: "account list"
  ia_roles :: "role_row list"
  ia_role_perms :: "(int \<times> string) list"
  ia_user_roles :: "user_role list"
  ia_user_perms :: "user_perm list"
  ia_groups :: "group_row list"
  ia_members :: "(int \<times> int) list"
  ia_group_roles :: "(int \<times> int) list"
  ia_next_user :: int
  ia_next_role :: int
  ia_next_group :: int

subsection \<open>Views and inputs\<close>

record role_brief =
  rb_id :: int
  rb_code :: string
  rb_name :: string

record group_brief =
  gb_id :: int
  gb_name :: string

record role_grant_view =
  rgv_role :: int
  rgv_code :: string
  rgv_name :: string
  rgv_expires_at :: "int option"

record user_grant_view =
  ug_roles :: "role_grant_view list"
  ug_permissions :: "perm_grant list"
  ug_groups :: "group_brief list"

record user_summary =
  uy_roles :: "role_brief list"
  uy_groups :: "group_brief list"

record group_view =
  gv_row :: group_row
  gv_member_count :: int

record group_member_view =
  gm_id :: int
  gm_username :: string
  gm_display_name :: string

record group_detail =
  gd_view :: group_view
  gd_members :: "group_member_view list"
  gd_roles :: "role_brief list"

record role_input =
  rin_code :: string
  rin_name :: string
  rin_description :: string
  rin_permissions :: "string list"

record group_input =
  gin_name :: string
  gin_description :: string
  gin_members :: "int list"
  gin_roles :: "int list"

record role_grant_input =
  rgi_code :: string
  rgi_expires_at :: "int option"

datatype iam_error =
  IamNotFound | RoleNotFound | RoleCodeTaken | GroupNameTaken | UserNotFound | UsernameTaken
| InvalidCredentials | AlreadyBound | OpenidTaken | NotBound | IamDb string

type_synonym 'a iam_action = "(iam_db, iam_error, 'a) action"

text \<open>Three clocks: \<open>NOW()\<close> of the two grant queries and the clock of the merge.\<close>

record grant_clock =
  gc_roles :: int
  gc_perms :: int
  gc_merge :: int

subsection \<open>Reading roles and grants\<close>

definition perms_of :: "(string \<Rightarrow> 'k::linorder) \<Rightarrow> iam_db \<Rightarrow> int \<Rightarrow> string list" where
  "perms_of ck d i = sort_key ck (map snd (filter (\<lambda>(r, p). r = i) (ia_role_perms d)))"

definition full_role :: "(string \<Rightarrow> 'k::linorder) \<Rightarrow> iam_db \<Rightarrow> role_row \<Rightarrow> role" where
  "full_role ck d r = \<lparr>rl_id = ro_id r, rl_code = ro_code r, rl_name = ro_name r, rl_description = ro_description r,
     rl_is_system = ro_is_system r, rl_perms = perms_of ck d (ro_id r)\<rparr>"

definition all_roles :: "(string \<Rightarrow> 'k::linorder) \<Rightarrow> iam_db \<Rightarrow> role list" where
  "all_roles ck d = map (full_role ck d) (sort_key ro_id (ia_roles d))"

definition load_all_roles :: "(string \<Rightarrow> 'k::linorder) \<Rightarrow> role list iam_action" where
  "load_all_roles ck = query (IamDb ''list roles'') (all_roles ck)"

definition role_with :: "role list \<Rightarrow> int \<Rightarrow> role option" where
  "role_with rs i = List.find (\<lambda>r. rl_id r = i) rs"

definition effective_permissions ::
  "(string \<Rightarrow> 'k::linorder) \<Rightarrow> grant_clock \<Rightarrow> int \<Rightarrow> effective_result iam_action" where
  "effective_permissions ck clk u =
     dbind (load_all_roles ck) (\<lambda>roles.
     dbind (query (IamDb ''effective user roles'') (\<lambda>d. List.map_filter (\<lambda>g.
         map_option (\<lambda>r. \<lparr>rg_role = r, rg_expires_at = ur_expires_at g\<rparr>) (role_with roles (ur_role g)))
       (filter (\<lambda>g. ur_user g = u \<and> grant_alive (gc_roles clk) (ur_expires_at g)) (ia_user_roles d)))) (\<lambda>direct.
     dbind (query (IamDb ''effective group membership'') (\<lambda>d. map fst (filter (\<lambda>(g, m). m = u) (ia_members d)))) (\<lambda>groups.
     dbind (if groups = [] then dret []
            else query (IamDb ''effective group roles'') (\<lambda>d. List.map_filter (\<lambda>i.
                map_option (\<lambda>r. \<lparr>rg_role = r, rg_expires_at = None\<rparr>) (role_with roles i))
              [r. (g, m) \<leftarrow> ia_members d, m = u, (g', r) \<leftarrow> ia_group_roles d, g' = g])) (\<lambda>inherited.
     dbind (query (IamDb ''effective direct permissions'') (\<lambda>d. map (\<lambda>g. \<lparr>pg_permission = up_permission g, pg_expires_at = up_expires_at g\<rparr>)
       (filter (\<lambda>g. up_user g = u \<and> grant_alive (gc_perms clk) (up_expires_at g)) (ia_user_perms d)))) (\<lambda>perms.
     dret (effective (gc_merge clk) direct inherited perms groups))))))"

definition find_role :: "iam_db \<Rightarrow> int \<Rightarrow> role_row option" where
  "find_role d i = List.find (\<lambda>r. ro_id r = i) (ia_roles d)"

definition find_role_code :: "iam_db \<Rightarrow> string \<Rightarrow> role_row option" where
  "find_role_code d c = List.find (\<lambda>r. ro_code r = c) (ia_roles d)"

definition find_group :: "iam_db \<Rightarrow> int \<Rightarrow> group_row option" where
  "find_group d i = List.find (\<lambda>g. gp_id g = i) (ia_groups d)"

definition find_account :: "iam_db \<Rightarrow> int \<Rightarrow> account option" where
  "find_account d i = List.find (\<lambda>a. au_id a = i) (ia_users d)"

definition group_briefs_of :: "iam_db \<Rightarrow> int \<Rightarrow> group_brief list" where
  "group_briefs_of d u = sort_key gb_id (List.map_filter (\<lambda>(g, m).
     if m = u then map_option (\<lambda>r. \<lparr>gb_id = gp_id r, gb_name = gp_name r\<rparr>) (find_group d g) else None) (ia_members d))"

definition user_grants :: "(string \<Rightarrow> 'k::linorder) \<Rightarrow> int \<Rightarrow> user_grant_view iam_action" where
  "user_grants ck u =
     dbind (query (IamDb ''user grants roles'') (\<lambda>d. sort_key (\<lambda>v. ck (rgv_code v)) (List.map_filter (\<lambda>g.
        if ur_user g = u then map_option (\<lambda>r. \<lparr>rgv_role = ur_role g, rgv_code = ro_code r, rgv_name = ro_name r,
            rgv_expires_at = ur_expires_at g\<rparr>) (find_role d (ur_role g)) else None) (ia_user_roles d)))) (\<lambda>roles.
     dbind (query (IamDb ''user grants permissions'') (\<lambda>d. sort_key (\<lambda>g. ck (pg_permission g))
        (map (\<lambda>g. \<lparr>pg_permission = up_permission g, pg_expires_at = up_expires_at g\<rparr>)
          (filter (\<lambda>g. up_user g = u) (ia_user_perms d))))) (\<lambda>perms.
     dbind (query (IamDb ''user grants groups'') (\<lambda>d. group_briefs_of d u)) (\<lambda>groups.
     dret \<lparr>ug_roles = roles, ug_permissions = perms, ug_groups = groups\<rparr>)))"

definition group_briefs :: "int \<Rightarrow> group_brief list iam_action" where
  "group_briefs u = query (IamDb ''group briefs'') (\<lambda>d. group_briefs_of d u)"

text \<open>The summaries of the users of one page; a user outside the page reads as empty.\<close>

definition batch_summaries :: "int \<Rightarrow> int list \<Rightarrow> (int \<Rightarrow> user_summary) iam_action" where
  "batch_summaries now ids =
     (if ids = [] then dret (\<lambda>_. \<lparr>uy_roles = [], uy_groups = []\<rparr>)
      else dbind (query (IamDb ''batch summaries roles'') (\<lambda>d u. if u \<notin> set ids then []
             else sort_key rb_id (List.map_filter (\<lambda>g.
               if ur_user g = u \<and> grant_alive now (ur_expires_at g)
               then map_option (\<lambda>r. \<lparr>rb_id = ro_id r, rb_code = ro_code r, rb_name = ro_name r\<rparr>) (find_role d (ur_role g))
               else None) (ia_user_roles d)))) (\<lambda>roles.
           dbind (query (IamDb ''batch summaries groups'') (\<lambda>d u. if u \<notin> set ids then [] else group_briefs_of d u)) (\<lambda>groups.
           dret (\<lambda>u. \<lparr>uy_roles = roles u, uy_groups = groups u\<rparr>))))"

definition dedupe_int64 :: "int list \<Rightarrow> int list" where
  "dedupe_int64 ids = first_wins (\<lambda>_. True) (\<lambda>i. i) [] ids"

definition users_exist :: "int list \<Rightarrow> bool iam_action" where
  "users_exist ids =
     (let ids = dedupe_int64 ids
      in if ids = [] then dret True
         else dbind (query (IamDb ''users exist'') (\<lambda>d. length (filter (\<lambda>a. au_id a \<in> set ids) (ia_users d)))) (\<lambda>n.
              dret (n = length ids)))"

definition get_role_by_id :: "(string \<Rightarrow> 'k::linorder) \<Rightarrow> int \<Rightarrow> role iam_action" where
  "get_role_by_id ck i =
     dbind (load_all_roles ck) (\<lambda>rs. case role_with rs i of None \<Rightarrow> draise IamNotFound | Some r \<Rightarrow> dret r)"

definition get_role_by_code :: "(string \<Rightarrow> 'k::linorder) \<Rightarrow> string \<Rightarrow> role iam_action" where
  "get_role_by_code ck c =
     dbind (load_all_roles ck) (\<lambda>rs. case List.find (\<lambda>r. rl_code r = c) rs of None \<Rightarrow> draise RoleNotFound | Some r \<Rightarrow> dret r)"

text \<open>The permission codes in use that the catalog does not know, in the order of the rows.\<close>

definition orphan_permission_grants :: "permission list \<Rightarrow> string list iam_action" where
  "orphan_permission_grants catalog =
     dbind (query (IamDb ''list role permissions'') (\<lambda>d. first_wins (\<lambda>_. True) (\<lambda>p. p) [] (map snd (ia_role_perms d)))) (\<lambda>perms.
     dret (filter (\<lambda>p. p \<noteq> wildcard \<and> \<not> permission_exists catalog p) perms))"

subsection \<open>Replacing grants\<close>

definition delete_user_roles :: "int \<Rightarrow> iam_db \<Rightarrow> unit \<times> iam_db" where
  "delete_user_roles u d = ((), d\<lparr>ia_user_roles := filter (\<lambda>g. ur_user g \<noteq> u) (ia_user_roles d)\<rparr>)"

definition delete_user_perms :: "int \<Rightarrow> iam_db \<Rightarrow> unit \<times> iam_db" where
  "delete_user_perms u d = ((), d\<lparr>ia_user_perms := filter (\<lambda>g. up_user g \<noteq> u) (ia_user_perms d)\<rparr>)"

definition delete_memberships :: "int \<Rightarrow> iam_db \<Rightarrow> unit \<times> iam_db" where
  "delete_memberships u d = ((), d\<lparr>ia_members := filter (\<lambda>(g, m). m \<noteq> u) (ia_members d)\<rparr>)"

text \<open>An insert under a unique key: the answer tells whether it succeeded.\<close>

definition insert_user_role :: "user_role \<Rightarrow> iam_db \<Rightarrow> bool \<times> iam_db" where
  "insert_user_role g d =
     (if list_ex (\<lambda>x. ur_user x = ur_user g \<and> ur_role x = ur_role g) (ia_user_roles d) then (False, d)
      else (True, d\<lparr>ia_user_roles := ia_user_roles d @ [g]\<rparr>))"

definition insert_user_perm :: "user_perm \<Rightarrow> iam_db \<Rightarrow> bool \<times> iam_db" where
  "insert_user_perm g d =
     (if \<not> pg_text 64 (up_permission g) \<or> list_ex (\<lambda>x. up_user x = up_user g \<and> up_permission x = up_permission g) (ia_user_perms d)
      then (False, d)
      else (True, d\<lparr>ia_user_perms := ia_user_perms d @ [g]\<rparr>))"

definition insert_role_perm :: "int \<Rightarrow> string \<Rightarrow> iam_db \<Rightarrow> bool \<times> iam_db" where
  "insert_role_perm i p d =
     (if \<not> pg_text 64 p \<or> (i, p) \<in> set (ia_role_perms d) then (False, d)
      else (True, d\<lparr>ia_role_perms := ia_role_perms d @ [(i, p)]\<rparr>))"

definition delete_role_perms :: "int \<Rightarrow> iam_db \<Rightarrow> unit \<times> iam_db" where
  "delete_role_perms i d = ((), d\<lparr>ia_role_perms := filter (\<lambda>(r, p). r \<noteq> i) (ia_role_perms d)\<rparr>)"

definition checked :: "string \<Rightarrow> (iam_db \<Rightarrow> bool \<times> iam_db) \<Rightarrow> unit iam_action" where
  "checked msg f = dbind (stmt (IamDb msg) f) (\<lambda>ok. if ok then dret () else draise (IamDb msg))"

definition iam_tx :: "'a iam_action \<Rightarrow> 'a iam_action" where
  "iam_tx = transaction (IamDb ''begin'') (IamDb ''commit'')"

definition grant_role :: "int \<Rightarrow> int \<Rightarrow> role_grant_input \<Rightarrow> unit iam_action" where
  "grant_role u granter g =
     dbind (query_row (IamDb ''replace user roles lookup'') RoleNotFound (\<lambda>d. find_role_code d (rgi_code g))) (\<lambda>r.
     checked ''replace user roles insert''
       (insert_user_role \<lparr>ur_user = u, ur_role = ro_id r, ur_expires_at = rgi_expires_at g, ur_granted_by = Some granter\<rparr>))"

definition replace_user_roles :: "int \<Rightarrow> role_grant_input list \<Rightarrow> int \<Rightarrow> unit iam_action" where
  "replace_user_roles u grants granter = iam_tx
     (dbind (stmt (IamDb ''replace user roles delete'') (delete_user_roles u)) (\<lambda>_.
      dmapM (grant_role u granter) (first_wins (\<lambda>_. True) rgi_code [] grants)))"

definition replace_user_permissions :: "int \<Rightarrow> perm_grant list \<Rightarrow> int \<Rightarrow> unit iam_action" where
  "replace_user_permissions u grants granter = iam_tx
     (dbind (stmt (IamDb ''replace user permissions delete'') (delete_user_perms u)) (\<lambda>_.
      dmapM (\<lambda>g. checked ''replace user permissions insert'' (insert_user_perm
          \<lparr>up_user = u, up_permission = pg_permission g, up_expires_at = pg_expires_at g, up_granted_by = Some granter\<rparr>))
        (first_wins (\<lambda>_. True) pg_permission [] grants)))"

definition delete_user_grants :: "int \<Rightarrow> unit iam_action" where
  "delete_user_grants u =
     dbind (stmt (IamDb ''delete user grants'') (delete_user_roles u)) (\<lambda>_.
     dbind (stmt (IamDb ''delete user grants'') (delete_user_perms u)) (\<lambda>_.
     stmt (IamDb ''delete user grants'') (delete_memberships u)))"

subsection \<open>Roles\<close>

definition insert_role_row :: "string \<Rightarrow> string \<Rightarrow> string \<Rightarrow> bool \<Rightarrow> iam_db \<Rightarrow> int written \<times> iam_db" where
  "insert_role_row code name desc sys d =
     (if \<not> pg_text 64 code \<or> \<not> pg_text 64 name \<or> \<not> pg_text 255 desc then (Rejected, d)
      else if find_role_code d code \<noteq> None then (Duplicate, d)
      else (Done (ia_next_role d),
        d\<lparr>ia_roles := ia_roles d @ [\<lparr>ro_id = ia_next_role d, ro_code = code, ro_name = name, ro_description = desc, ro_is_system = sys\<rparr>],
          ia_next_role := ia_next_role d + 1\<rparr>))"

definition update_role_row :: "int \<Rightarrow> role_input \<Rightarrow> iam_db \<Rightarrow> int option \<times> iam_db" where
  "update_role_row i inp d =
     (let hits = length (filter (\<lambda>r. ro_id r = i) (ia_roles d))
      in if \<not> nul_free [rin_name inp, rin_description inp] then (None, d)
         else if hits > 0 \<and> (\<not> pg_text 64 (rin_name inp) \<or> \<not> pg_text 255 (rin_description inp)) then (None, d)
         else (Some (int hits), d\<lparr>ia_roles := map (\<lambda>r. if ro_id r = i
              then r\<lparr>ro_name := rin_name inp, ro_description := rin_description inp\<rparr> else r) (ia_roles d)\<rparr>))"

definition delete_role_row :: "int \<Rightarrow> iam_db \<Rightarrow> int \<times> iam_db" where
  "delete_role_row i d = (int (length (filter (\<lambda>r. ro_id r = i) (ia_roles d))),
     d\<lparr>ia_roles := filter (\<lambda>r. ro_id r \<noteq> i) (ia_roles d)\<rparr>)"

definition replace_role_permissions :: "int \<Rightarrow> string list \<Rightarrow> unit iam_action" where
  "replace_role_permissions i ps = iam_tx
     (dbind (stmt (IamDb ''replace role permissions delete'') (delete_role_perms i)) (\<lambda>_.
      dmapM (\<lambda>p. checked ''replace role permissions insert'' (insert_role_perm i p)) ps))"

definition create_role :: "(string \<Rightarrow> 'k::linorder) \<Rightarrow> role_input \<Rightarrow> role iam_action" where
  "create_role ck inp =
     dbind (stmt (IamDb ''create role'') (insert_role_row (rin_code inp) (rin_name inp) (rin_description inp) False)) (\<lambda>r. case r of
       Duplicate \<Rightarrow> draise RoleCodeTaken
     | Rejected \<Rightarrow> draise (IamDb ''create role'')
     | Done i \<Rightarrow> dbind (replace_role_permissions i (rin_permissions inp)) (\<lambda>_. get_role_by_id ck i))"

definition update_role :: "(string \<Rightarrow> 'k::linorder) \<Rightarrow> int \<Rightarrow> role_input \<Rightarrow> role iam_action" where
  "update_role ck i inp =
     dbind (stmt (IamDb ''update role'') (update_role_row i inp)) (\<lambda>r. case r of
       None \<Rightarrow> draise (IamDb ''update role'')
     | Some n \<Rightarrow>
       dbind (if n = 0 then dtry (get_role_by_id ck i) (\<lambda>e. if e = IamNotFound then draise IamNotFound else dret ()) (\<lambda>_. dret ())
              else dret ()) (\<lambda>_.
       dbind (replace_role_permissions i (rin_permissions inp)) (\<lambda>_. get_role_by_id ck i)))"

definition delete_role :: "int \<Rightarrow> unit iam_action" where
  "delete_role i = iam_tx
     (dbind (stmt (IamDb ''delete role permissions'') (delete_role_perms i)) (\<lambda>_.
      dbind (stmt (IamDb ''delete role'') (delete_role_row i)) (\<lambda>n. if n = 0 then draise IamNotFound else dret ())))"

definition role_usage_counts :: "int \<Rightarrow> (int \<times> int) iam_action" where
  "role_usage_counts i =
     dbind (query (IamDb ''role usage users'') (\<lambda>d. int (length (filter (\<lambda>g. ur_role g = i) (ia_user_roles d))))) (\<lambda>users.
     dbind (query (IamDb ''role usage groups'') (\<lambda>d. int (length (filter (\<lambda>(g, r). r = i) (ia_group_roles d))))) (\<lambda>groups.
     dret (users, groups)))"

subsection \<open>Groups\<close>

definition group_view_of :: "iam_db \<Rightarrow> group_row \<Rightarrow> group_view" where
  "group_view_of d g = \<lparr>gv_row = g, gv_member_count = int (length (filter (\<lambda>(x, m). x = gp_id g) (ia_members d)))\<rparr>"

definition list_groups :: "group_view list iam_action" where
  "list_groups = query (IamDb ''list groups'') (\<lambda>d. map (group_view_of d) (sort_key gp_id (ia_groups d)))"

definition get_group_by_id :: "int \<Rightarrow> group_detail iam_action" where
  "get_group_by_id i =
     dbind (query_row (IamDb ''get group'') IamNotFound (\<lambda>d. map_option (group_view_of d) (find_group d i))) (\<lambda>v.
     dbind (query (IamDb ''get group members'') (\<lambda>d. sort_key gm_id (List.map_filter (\<lambda>(g, m).
        if g = i then map_option (\<lambda>a. \<lparr>gm_id = au_id a, gm_username = au_username a, gm_display_name = au_display_name a\<rparr>)
          (find_account d m) else None) (ia_members d)))) (\<lambda>ms.
     dbind (query (IamDb ''get group roles'') (\<lambda>d. sort_key rb_id (List.map_filter (\<lambda>(g, r).
        if g = i then map_option (\<lambda>x. \<lparr>rb_id = ro_id x, rb_code = ro_code x, rb_name = ro_name x\<rparr>) (find_role d r) else None)
          (ia_group_roles d)))) (\<lambda>rs.
     dret \<lparr>gd_view = v, gd_members = ms, gd_roles = rs\<rparr>)))"

definition insert_group_row :: "int \<Rightarrow> group_input \<Rightarrow> iam_db \<Rightarrow> int written \<times> iam_db" where
  "insert_group_row now inp d =
     (if \<not> pg_text 64 (gin_name inp) \<or> \<not> pg_text 255 (gin_description inp) then (Rejected, d)
      else if list_ex (\<lambda>g. gp_name g = gin_name inp) (ia_groups d) then (Duplicate, d)
      else (Done (ia_next_group d),
        d\<lparr>ia_groups := ia_groups d @ [\<lparr>gp_id = ia_next_group d, gp_name = gin_name inp, gp_description = gin_description inp, gp_created_at = now\<rparr>],
          ia_next_group := ia_next_group d + 1\<rparr>))"

definition update_group_row :: "int \<Rightarrow> group_input \<Rightarrow> iam_db \<Rightarrow> int written \<times> iam_db" where
  "update_group_row i inp d =
     (let hits = length (filter (\<lambda>g. gp_id g = i) (ia_groups d))
      in if \<not> nul_free [gin_name inp, gin_description inp] then (Rejected, d)
         else if hits = 0 then (Done 0, d)
         else if \<not> pg_text 64 (gin_name inp) \<or> \<not> pg_text 255 (gin_description inp) then (Rejected, d)
         else if list_ex (\<lambda>g. gp_id g \<noteq> i \<and> gp_name g = gin_name inp) (ia_groups d) then (Duplicate, d)
         else (Done (int hits), d\<lparr>ia_groups := map (\<lambda>g. if gp_id g = i
              then g\<lparr>gp_name := gin_name inp, gp_description := gin_description inp\<rparr> else g) (ia_groups d)\<rparr>))"

definition clear_group_members :: "int \<Rightarrow> iam_db \<Rightarrow> unit \<times> iam_db" where
  "clear_group_members i d = ((), d\<lparr>ia_members := filter (\<lambda>(g, m). g \<noteq> i) (ia_members d)\<rparr>)"

definition clear_group_roles :: "int \<Rightarrow> iam_db \<Rightarrow> unit \<times> iam_db" where
  "clear_group_roles i d = ((), d\<lparr>ia_group_roles := filter (\<lambda>(g, r). g \<noteq> i) (ia_group_roles d)\<rparr>)"

definition insert_group_member :: "int \<Rightarrow> int \<Rightarrow> iam_db \<Rightarrow> bool \<times> iam_db" where
  "insert_group_member g u d = (if (g, u) \<in> set (ia_members d) then (False, d) else (True, d\<lparr>ia_members := ia_members d @ [(g, u)]\<rparr>))"

definition insert_group_role :: "int \<Rightarrow> int \<Rightarrow> iam_db \<Rightarrow> bool \<times> iam_db" where
  "insert_group_role g r d =
     (if (g, r) \<in> set (ia_group_roles d) then (False, d) else (True, d\<lparr>ia_group_roles := ia_group_roles d @ [(g, r)]\<rparr>))"

definition replace_group_members :: "int \<Rightarrow> int list \<Rightarrow> unit iam_action" where
  "replace_group_members g us =
     dbind (stmt (IamDb ''replace group members delete'') (clear_group_members g)) (\<lambda>_.
     dmapM (\<lambda>u. checked ''replace group members insert'' (insert_group_member g u)) (dedupe_int64 us))"

definition replace_group_roles :: "int \<Rightarrow> int list \<Rightarrow> unit iam_action" where
  "replace_group_roles g rs =
     dbind (stmt (IamDb ''replace group roles delete'') (clear_group_roles g)) (\<lambda>_.
     dmapM (\<lambda>r. checked ''replace group roles insert'' (insert_group_role g r)) (dedupe_int64 rs))"

definition create_group :: "int \<Rightarrow> group_input \<Rightarrow> group_view iam_action" where
  "create_group now inp =
     dbind (iam_tx
       (dbind (stmt (IamDb ''create group'') (insert_group_row now inp)) (\<lambda>r. case r of
          Duplicate \<Rightarrow> draise GroupNameTaken
        | Rejected \<Rightarrow> draise (IamDb ''create group'')
        | Done i \<Rightarrow> dbind (replace_group_members i (gin_members inp)) (\<lambda>_.
                    dbind (replace_group_roles i (gin_roles inp)) (\<lambda>_. dret i))))) (\<lambda>i.
     dbind (query_row (IamDb ''create group reload'') (IamDb ''create group reload'') (\<lambda>d. find_group d i)) (\<lambda>g.
     dret \<lparr>gv_row = g, gv_member_count = int (length (gin_members inp))\<rparr>))"

text \<open>The reload after an UPDATE that hit no row runs on another connection, which sees the same rows.\<close>

definition update_group :: "int \<Rightarrow> group_input \<Rightarrow> group_view iam_action" where
  "update_group i inp =
     dbind (iam_tx
       (dbind (stmt (IamDb ''update group'') (update_group_row i inp)) (\<lambda>r. case r of
          Duplicate \<Rightarrow> draise GroupNameTaken
        | Rejected \<Rightarrow> draise (IamDb ''update group'')
        | Done n \<Rightarrow>
          dbind (if n = 0 then dtry (get_group_by_id i) (\<lambda>e. if e = IamNotFound then draise IamNotFound else dret ()) (\<lambda>_. dret ())
                 else dret ()) (\<lambda>_.
          dbind (replace_group_members i (gin_members inp)) (\<lambda>_. replace_group_roles i (gin_roles inp)))))) (\<lambda>_.
     dbind (get_group_by_id i) (\<lambda>v. dret (gd_view v)))"

definition delete_group_row :: "int \<Rightarrow> iam_db \<Rightarrow> int \<times> iam_db" where
  "delete_group_row i d = (int (length (filter (\<lambda>g. gp_id g = i) (ia_groups d))),
     d\<lparr>ia_groups := filter (\<lambda>g. gp_id g \<noteq> i) (ia_groups d)\<rparr>)"

definition delete_group :: "int \<Rightarrow> unit iam_action" where
  "delete_group i = iam_tx
     (dbind (stmt (IamDb ''delete group members'') (clear_group_members i)) (\<lambda>_.
      dbind (stmt (IamDb ''delete group roles'') (clear_group_roles i)) (\<lambda>_.
      dbind (stmt (IamDb ''delete group'') (delete_group_row i)) (\<lambda>n. if n = 0 then draise IamNotFound else dret ()))))"

subsection \<open>Start-up\<close>

text \<open>The system roles: code, name, description, permissions.\<close>

definition system_roles :: "(string \<times> string \<times> string \<times> string list) list" where
  "system_roles = [
     (''admin'', hx ''e7aea1e79086e59198'', hx ''e7b3bbe7bb9fe58685e7bdaee7aea1e79086e59198e8a792e889b2efbc8ce68ba5e69c89e585a8e983a8e69d83e99990'', [wildcard]),
     (''teacher'', hx ''e69599e5b888'', hx ''e69599e5b888e8a792e889b2efbc9ae69fa5e79c8be8afbee7a88be4b88ee69599e5aea4e38081e9a284e7baa6e69599e5aea4e38081e68f90e4baa4e68aa5e4bfaee38081e4bdbfe794a820414920e58aa9e6898be38081e8afbee5a082e7adbee588b0'',
       [''classroom:read'', ''course:read'', ''classroom:book'', ''repair:create'', ''admin_class:read'', ''teaching_class:read'',
        ''ai:chat'', ''attendance:read'', ''attendance:manage'']),
     (''student'', hx ''e5ada6e7949f'', hx ''e5ada6e7949fe8a792e889b2efbc9ae69fa5e79c8be8afbee7a88be4b88ee69599e5aea4e38081e9a284e7baa6e69599e5aea4e38081e68f90e4baa4e68aa5e4bfaee38081e689abe7a081e7adbee588b0'',
       [''classroom:read'', ''course:read'', ''classroom:book'', ''repair:create'', ''admin_class:read'', ''teaching_class:read'',
        ''attendance:checkin''])]"

text \<open>\<open>ON CONFLICT DO NOTHING\<close>: an existing row is not an error.\<close>

definition ensure_role_perm :: "int \<Rightarrow> string \<Rightarrow> unit iam_action" where
  "ensure_role_perm i p = stmt (IamDb ''seed role permission'') (\<lambda>d. ((), snd (insert_role_perm i p d)))"

definition seed_role :: "string \<times> string \<times> string \<times> string list \<Rightarrow> unit iam_action" where
  "seed_role = (\<lambda>(code, name, desc, ps).
     dbind (stmt (IamDb ''seed role'') (insert_role_row code name desc True)) (\<lambda>r.
     dbind (case r of Done i \<Rightarrow> dret i
            | Duplicate \<Rightarrow> query_row (IamDb ''seed role lookup'') (IamDb ''seed role lookup'') (\<lambda>d. map_option ro_id (find_role_code d code))
            | Rejected \<Rightarrow> draise (IamDb ''seed role'')) (\<lambda>i.
     dmapM (ensure_role_perm i) ps)))"

definition seed_system_roles :: "unit iam_action" where
  "seed_system_roles = dmapM seed_role system_roles"

text \<open>The account named admin gets the role admin when it has no direct role grant at all.\<close>

definition bootstrap_grant :: "iam_db \<Rightarrow> unit \<times> iam_db" where
  "bootstrap_grant d = ((), d\<lparr>ia_user_roles := ia_user_roles d @
     [\<lparr>ur_user = au_id a, ur_role = ro_id r, ur_expires_at = None, ur_granted_by = None\<rparr>.
        a \<leftarrow> ia_users d, au_username a = ''admin'' \<and> \<not> list_ex (\<lambda>g. ur_user g = au_id a) (ia_user_roles d),
        r \<leftarrow> ia_roles d, ro_code r = ''admin'']\<rparr>)"

definition ensure_bootstrap_admin :: "unit iam_action" where
  "ensure_bootstrap_admin = stmt (IamDb ''grant bootstrap admin role'') bootstrap_grant"

definition iam_startup :: "unit iam_action" where
  "iam_startup = dbind seed_system_roles (\<lambda>_. ensure_bootstrap_admin)"

subsection \<open>Handlers\<close>

definition iam_routes :: "(string \<times> string list) list" where
  "iam_routes = [
     (''GET /api/permissions'', [''role:read'', ''role:manage'', ''user:manage'']),
     (''GET /api/roles'', [''role:read'', ''role:manage'', ''user:manage'']),
     (''POST /api/roles'', [''role:manage'']),
     (''PUT /api/roles/{id}'', [''role:manage'']),
     (''DELETE /api/roles/{id}'', [''role:manage'']),
     (''GET /api/groups'', [''group:read'', ''group:manage'', ''user:manage'']),
     (''GET /api/groups/{id}'', [''group:read'', ''group:manage'']),
     (''POST /api/groups'', [''group:manage'']),
     (''PUT /api/groups/{id}'', [''group:manage'']),
     (''DELETE /api/groups/{id}'', [''group:manage''])]"

definition lower_letter :: "char \<Rightarrow> bool" where
  "lower_letter c \<longleftrightarrow> 97 \<le> (of_char c :: nat) \<and> (of_char c :: nat) \<le> 122"

definition role_code_ok :: "string \<Rightarrow> bool" where
  "role_code_ok s \<longleftrightarrow> (case s of [] \<Rightarrow> False
     | c # r \<Rightarrow> lower_letter c \<and> length r \<le> 63 \<and> list_all (\<lambda>x. lower_letter x \<or> is_digit x \<or> x = CHR ''_'') r)"

definition validate_role_input :: "permission list \<Rightarrow> role_input \<Rightarrow> bool \<Rightarrow> role_input \<times> string option" where
  "validate_role_input catalog inp require_code =
     (let inp = inp\<lparr>rin_code := trim_space (rin_code inp), rin_name := trim_space (rin_name inp),
            rin_description := trim_space (rin_description inp)\<rparr>
      in (inp,
        if require_code \<and> \<not> role_code_ok (rin_code inp)
        then Some ''code must be lowercase letters, digits or underscores, starting with a letter''
        else if rin_name inp = [] then Some ''name is required''
        else (case List.find (\<lambda>p. \<not> permission_exists catalog p) (rin_permissions inp) of
            Some p \<Rightarrow> Some (''unknown permission: '' @ p) | None \<Rightarrow> None)))"

definition listPermissions_h :: "permission list \<Rightarrow> iam_db conn \<Rightarrow> permission list response \<times> iam_db conn" where
  "listPermissions_h catalog c = (RespJSON 200 catalog, c)"

definition listRoles_h :: "(string \<Rightarrow> 'k::linorder) \<Rightarrow> iam_db conn \<Rightarrow> role list response \<times> iam_db conn" where
  "listRoles_h ck c = (case load_all_roles ck c of
     (Inl _, c') \<Rightarrow> (RespError 500 ''could not list roles'', c') | (Inr rs, c') \<Rightarrow> (RespJSON 200 rs, c'))"

definition createRole_h ::
  "permission list \<Rightarrow> (string \<Rightarrow> 'k::linorder) \<Rightarrow> role_input option \<Rightarrow> iam_db conn \<Rightarrow> role response \<times> iam_db conn" where
  "createRole_h catalog ck body c = (case body of
     None \<Rightarrow> (RespError 400 ''invalid request body'', c)
   | Some inp \<Rightarrow> (case validate_role_input catalog inp True of
       (_, Some msg) \<Rightarrow> (RespError 400 msg, c)
     | (inp, None) \<Rightarrow> (case create_role ck inp c of
         (Inl RoleCodeTaken, c') \<Rightarrow> (RespError 409 ''role code already taken'', c')
       | (Inl _, c') \<Rightarrow> (RespError 500 ''could not create role'', c')
       | (Inr r, c') \<Rightarrow> (RespJSON 201 r, c'))))"

definition updateRole_h ::
  "permission list \<Rightarrow> (string \<Rightarrow> 'k::linorder) \<Rightarrow> string \<Rightarrow> role_input option \<Rightarrow> iam_db conn \<Rightarrow> role response \<times> iam_db conn" where
  "updateRole_h catalog ck path_id body c = (case atoi path_id of
     None \<Rightarrow> (RespError 400 ''invalid role id'', c)
   | Some i \<Rightarrow> (case get_role_by_id ck i c of
       (Inl IamNotFound, c') \<Rightarrow> (RespError 404 ''role not found'', c')
     | (Inl _, c') \<Rightarrow> (RespError 500 ''could not load role'', c')
     | (Inr existing, c1) \<Rightarrow>
       if rl_is_system existing then (RespError 409 (hx ''e7b3bbe7bb9fe58685e7bdaee8a792e889b2e4b88de58fafe4bfaee694b9''), c1)
       else (case body of
         None \<Rightarrow> (RespError 400 ''invalid request body'', c1)
       | Some inp \<Rightarrow> (case validate_role_input catalog (inp\<lparr>rin_code := rl_code existing\<rparr>) False of
           (_, Some msg) \<Rightarrow> (RespError 400 msg, c1)
         | (inp, None) \<Rightarrow> (case update_role ck i inp c1 of
             (Inl IamNotFound, c') \<Rightarrow> (RespError 404 ''role not found'', c')
           | (Inl _, c') \<Rightarrow> (RespError 500 ''could not update role'', c')
           | (Inr r, c') \<Rightarrow> (RespJSON 200 r, c'))))))"

definition deleteRole_h ::
  "(string \<Rightarrow> 'k::linorder) \<Rightarrow> string \<Rightarrow> iam_db conn \<Rightarrow> unit response \<times> iam_db conn" where
  "deleteRole_h ck path_id c = (case atoi path_id of
     None \<Rightarrow> (RespError 400 ''invalid role id'', c)
   | Some i \<Rightarrow> (case get_role_by_id ck i c of
       (Inl IamNotFound, c') \<Rightarrow> (RespError 404 ''role not found'', c')
     | (Inl _, c') \<Rightarrow> (RespError 500 ''could not load role'', c')
     | (Inr existing, c1) \<Rightarrow>
       if rl_is_system existing then (RespError 409 (hx ''e7b3bbe7bb9fe58685e7bdaee8a792e889b2e4b88de58fafe588a0e999a4''), c1)
       else (case role_usage_counts i c1 of
         (Inl _, c') \<Rightarrow> (RespError 500 ''could not check role usage'', c')
       | (Inr (users, groups), c2) \<Rightarrow>
         if users + groups > 0
         then (RespError 409 (hx ''e8afa5e8a792e889b2e4bb8de8a2ab20'' @ itoa users @ hx ''20e4b8aae794a8e688b7e38081'' @ itoa groups @ hx ''20e4b8aae794a8e688b7e7bb84e4bdbfe794a8efbc8ce8afb7e58588e7a7bbe999a4e585b3e88194''), c2)
         else (case delete_role i c2 of
           (Inl _, c') \<Rightarrow> (RespError 500 ''could not delete role'', c')
         | (Inr _, c') \<Rightarrow> (RespJSON 204 (), c')))))"

definition listGroups_h :: "iam_db conn \<Rightarrow> group_view list response \<times> iam_db conn" where
  "listGroups_h c = (case list_groups c of
     (Inl _, c') \<Rightarrow> (RespError 500 ''could not list groups'', c') | (Inr gs, c') \<Rightarrow> (RespJSON 200 gs, c'))"

definition getGroup_h :: "string \<Rightarrow> iam_db conn \<Rightarrow> group_detail response \<times> iam_db conn" where
  "getGroup_h path_id c = (case atoi path_id of
     None \<Rightarrow> (RespError 400 ''invalid group id'', c)
   | Some i \<Rightarrow> (case get_group_by_id i c of
       (Inl IamNotFound, c') \<Rightarrow> (RespError 404 ''group not found'', c')
     | (Inl _, c') \<Rightarrow> (RespError 500 ''could not load group'', c')
     | (Inr g, c') \<Rightarrow> (RespJSON 200 g, c')))"

text \<open>The loop over the role ids of the input: the first one that is refused, with its answer.\<close>

fun refused_role :: "role list \<Rightarrow> subject \<Rightarrow> int list \<Rightarrow> (int \<times> string) option" where
  "refused_role roles sub [] = None"
| "refused_role roles sub (i # is) = (case role_with roles i of
     None \<Rightarrow> Some (400, ''unknown role id: '' @ itoa i)
   | Some r \<Rightarrow> if rl_code r = ''admin'' \<and> \<not> has_perm sub wildcard
              then Some (403, ''only administrators can grant the admin role'') else refused_role roles sub is)"

definition validate_group_input ::
  "(string \<Rightarrow> 'k::linorder) \<Rightarrow> subject \<Rightarrow> group_input \<Rightarrow> iam_db conn \<Rightarrow> (group_input \<times> (int \<times> string) option) \<times> iam_db conn" where
  "validate_group_input ck sub inp c =
     (let inp = inp\<lparr>gin_name := trim_space (gin_name inp), gin_description := trim_space (gin_description inp)\<rparr>
      in if gin_name inp = [] then ((inp, Some (400, ''name is required'')), c)
         else (case users_exist (gin_members inp) c of
           (Inl _, c1) \<Rightarrow> ((inp, Some (500, ''could not verify members'')), c1)
         | (Inr False, c1) \<Rightarrow> ((inp, Some (400, ''one or more members do not exist'')), c1)
         | (Inr True, c1) \<Rightarrow>
           if gin_roles inp = [] then ((inp, None), c1)
           else (case load_all_roles ck c1 of
             (Inl _, c2) \<Rightarrow> ((inp, Some (500, ''could not load roles'')), c2)
           | (Inr roles, c2) \<Rightarrow> ((inp, refused_role roles sub (gin_roles inp)), c2))))"

definition createGroup_h ::
  "(string \<Rightarrow> 'k::linorder) \<Rightarrow> int \<Rightarrow> subject \<Rightarrow> group_input option \<Rightarrow> iam_db conn \<Rightarrow> group_view response \<times> iam_db conn" where
  "createGroup_h ck now sub body c = (case body of
     None \<Rightarrow> (RespError 400 ''invalid request body'', c)
   | Some inp \<Rightarrow> (case validate_group_input ck sub inp c of
       ((_, Some (n, msg)), c1) \<Rightarrow> (RespError n msg, c1)
     | ((inp, None), c1) \<Rightarrow> (case create_group now inp c1 of
         (Inl GroupNameTaken, c') \<Rightarrow> (RespError 409 ''group name already taken'', c')
       | (Inl _, c') \<Rightarrow> (RespError 500 ''could not create group'', c')
       | (Inr g, c') \<Rightarrow> (RespJSON 201 g, c'))))"

definition updateGroup_h ::
  "(string \<Rightarrow> 'k::linorder) \<Rightarrow> subject \<Rightarrow> string \<Rightarrow> group_input option \<Rightarrow> iam_db conn \<Rightarrow> group_view response \<times> iam_db conn" where
  "updateGroup_h ck sub path_id body c = (case atoi path_id of
     None \<Rightarrow> (RespError 400 ''invalid group id'', c)
   | Some i \<Rightarrow> (case body of
       None \<Rightarrow> (RespError 400 ''invalid request body'', c)
     | Some inp \<Rightarrow> (case validate_group_input ck sub inp c of
         ((_, Some (n, msg)), c1) \<Rightarrow> (RespError n msg, c1)
       | ((inp, None), c1) \<Rightarrow> (case update_group i inp c1 of
           (Inl IamNotFound, c') \<Rightarrow> (RespError 404 ''group not found'', c')
         | (Inl GroupNameTaken, c') \<Rightarrow> (RespError 409 ''group name already taken'', c')
         | (Inl _, c') \<Rightarrow> (RespError 500 ''could not update group'', c')
         | (Inr g, c') \<Rightarrow> (RespJSON 200 g, c')))))"

definition deleteGroup_h :: "string \<Rightarrow> iam_db conn \<Rightarrow> unit response \<times> iam_db conn" where
  "deleteGroup_h path_id c = (case atoi path_id of
     None \<Rightarrow> (RespError 400 ''invalid group id'', c)
   | Some i \<Rightarrow> (case get_group_by_id i c of
       (Inl IamNotFound, c') \<Rightarrow> (RespError 404 ''group not found'', c')
     | (Inl _, c') \<Rightarrow> (RespError 500 ''could not load group'', c')
     | (Inr _, c1) \<Rightarrow> (case delete_group i c1 of
         (Inl IamNotFound, c') \<Rightarrow> (RespError 404 ''group not found'', c')
       | (Inl _, c') \<Rightarrow> (RespError 500 ''could not delete group'', c')
       | (Inr _, c') \<Rightarrow> (RespJSON 204 (), c'))))"

end
