(* ===== verification/Account.thy ===== *)
theory Account
  imports Iam
begin

text \<open>
  Accounts: the user store and its handlers (\<open>internal/user/store.go\<close>, \<open>handler.go\<close>), sign-in and the
  WeChat binding (\<open>internal/auth\<close>), and the pipeline that turns a bearer token into the subject of a
  request. Parameters: the password hash (\<open>bcrypt\<close>), the JSON web token library, WeChat's answer to a
  login code, the clock. The audit rows that the handlers write are not modelled.
\<close>

subsection \<open>Accounts\<close>

record user_view =
  uv_id :: int
  uv_username :: string
  uv_display_name :: string
  uv_type :: string
  uv_created_at :: int
  uv_roles :: "role_brief list"
  uv_groups :: "group_brief list"

record create_user_input =
  cu_username :: string
  cu_password :: string
  cu_display_name :: string
  cu_type :: string

record update_user_input =
  uu_display_name :: string
  uu_type :: string

text \<open>\<open>bcrypt\<close>: hashing may fail (a password of more than 72 bytes does).\<close>

record password_lib =
  pw_hash :: "string \<Rightarrow> string option"
  pw_check :: "string \<Rightarrow> string \<Rightarrow> bool"

definition user_view_of :: "account \<Rightarrow> user_view" where
  "user_view_of a = \<lparr>uv_id = au_id a, uv_username = au_username a, uv_display_name = au_display_name a, uv_type = au_type a,
     uv_created_at = au_created_at a, uv_roles = [], uv_groups = []\<rparr>"

definition find_username :: "iam_db \<Rightarrow> string \<Rightarrow> account option" where
  "find_username d n = List.find (\<lambda>a. au_username a = n) (ia_users d)"

definition select_users :: "(char \<Rightarrow> char \<Rightarrow> bool) \<Rightarrow> string \<Rightarrow> iam_db \<Rightarrow> account list" where
  "select_users eq q d = filter (\<lambda>a. q = [] \<or> contains eq q (au_username a) \<or> contains eq q (au_display_name a))
     (sort_key au_id (ia_users d))"

definition list_users :: "user_view list iam_action" where
  "list_users = query (IamDb ''list users'') (\<lambda>d. map user_view_of (sort_key au_id (ia_users d)))"

definition page_users :: "(char \<Rightarrow> char \<Rightarrow> bool) \<Rightarrow> string \<Rightarrow> pagination \<Rightarrow> (user_view list \<times> int) iam_action" where
  "page_users eq q p =
     (if \<not> nul_free [q] then draise (IamDb ''page users'') else
     dbind (query_row (IamDb ''page users'') (IamDb ''page users'') (\<lambda>d. map_option (map user_view_of) (limit_rows p (select_users eq q d)))) (\<lambda>us.
     dbind (query (IamDb ''count rows'') (\<lambda>d. int (length (select_users eq q d)))) (\<lambda>n. dret (us, n))))"

definition get_user_by_id :: "int \<Rightarrow> user_view iam_action" where
  "get_user_by_id i = query_row (IamDb ''get user by id'') UserNotFound (\<lambda>d. map_option user_view_of (find_account d i))"

definition get_user_by_username :: "string \<Rightarrow> user_view iam_action" where
  "get_user_by_username n =
     query_row (IamDb ''get user by username'') UserNotFound (\<lambda>d. map_option user_view_of (find_username d n))"

definition insert_user_row :: "int \<Rightarrow> create_user_input \<Rightarrow> string \<Rightarrow> iam_db \<Rightarrow> int written \<times> iam_db" where
  "insert_user_row now inp hash d =
     (if \<not> pg_text 64 (cu_username inp) \<or> \<not> pg_text 255 hash \<or> \<not> pg_text 128 (cu_display_name inp) \<or> \<not> pg_text 32 (cu_type inp)
      then (Rejected, d)
      else if find_username d (cu_username inp) \<noteq> None then (Duplicate, d)
      else (Done (ia_next_user d),
        d\<lparr>ia_users := ia_users d @ [\<lparr>au_id = ia_next_user d, au_username = cu_username inp, au_hash = hash,
             au_display_name = cu_display_name inp, au_type = cu_type inp, au_openid = None, au_created_at = now\<rparr>],
          ia_next_user := ia_next_user d + 1\<rparr>))"

definition create_user :: "password_lib \<Rightarrow> int \<Rightarrow> create_user_input \<Rightarrow> user_view iam_action" where
  "create_user pw now inp = (case pw_hash pw (cu_password inp) of
     None \<Rightarrow> draise (IamDb ''hash password'')
   | Some hash \<Rightarrow> dbind (stmt (IamDb ''create user'') (insert_user_row now inp hash)) (\<lambda>r. case r of
       Duplicate \<Rightarrow> draise UsernameTaken
     | Rejected \<Rightarrow> draise (IamDb ''create user'')
     | Done i \<Rightarrow> get_user_by_id i))"

text \<open>An UPDATE of one account; the flag tells whether the values fit.\<close>

definition update_account :: "int \<Rightarrow> (account \<Rightarrow> account) \<Rightarrow> iam_db \<Rightarrow> iam_db" where
  "update_account i f d = d\<lparr>ia_users := map (\<lambda>a. if au_id a = i then f a else a) (ia_users d)\<rparr>"

definition update_user_row :: "int \<Rightarrow> update_user_input \<Rightarrow> iam_db \<Rightarrow> bool \<times> iam_db" where
  "update_user_row i inp d =
     (if \<not> nul_free [uu_display_name inp, uu_type inp] then (False, d)
      else if find_account d i \<noteq> None \<and> (\<not> pg_text 128 (uu_display_name inp) \<or> \<not> pg_text 32 (uu_type inp)) then (False, d)
      else (True, update_account i (\<lambda>a. a\<lparr>au_display_name := uu_display_name inp, au_type := uu_type inp\<rparr>) d))"

definition update_user :: "int \<Rightarrow> update_user_input \<Rightarrow> user_view iam_action" where
  "update_user i inp =
     dbind (stmt (IamDb ''update user'') (update_user_row i inp)) (\<lambda>ok.
     if ok then get_user_by_id i else draise (IamDb ''update user''))"

definition update_password_row :: "int \<Rightarrow> string \<Rightarrow> iam_db \<Rightarrow> int option \<times> iam_db" where
  "update_password_row i hash d =
     (let hits = length (filter (\<lambda>a. au_id a = i) (ia_users d))
      in if CHR 0x00 \<in> set hash \<or> hits > 0 \<and> \<not> pg_text 255 hash then (None, d)
         else (Some (int hits), update_account i (\<lambda>a. a\<lparr>au_hash := hash\<rparr>) d))"

definition update_password :: "password_lib \<Rightarrow> int \<Rightarrow> string \<Rightarrow> unit iam_action" where
  "update_password pw i password = (case pw_hash pw password of
     None \<Rightarrow> draise (IamDb ''hash password'')
   | Some hash \<Rightarrow> dbind (stmt (IamDb ''update password'') (update_password_row i hash)) (\<lambda>r. case r of
       None \<Rightarrow> draise (IamDb ''update password'') | Some n \<Rightarrow> if n = 0 then draise UserNotFound else dret ()))"

definition delete_user_row :: "int \<Rightarrow> iam_db \<Rightarrow> int \<times> iam_db" where
  "delete_user_row i d = (int (length (filter (\<lambda>a. au_id a = i) (ia_users d))),
     d\<lparr>ia_users := filter (\<lambda>a. au_id a \<noteq> i) (ia_users d)\<rparr>)"

definition delete_user :: "int \<Rightarrow> unit iam_action" where
  "delete_user i = dbind (stmt (IamDb ''delete user'') (delete_user_row i)) (\<lambda>n. if n = 0 then draise UserNotFound else dret ())"

subsection \<open>User handlers\<close>

definition user_routes :: "(string \<times> string list) list" where
  "user_routes = [
     (''GET /api/users'', [''user:read'', ''group:manage'']),
     (''POST /api/users'', [''user:manage'']),
     (''GET /api/users/{id}'', [''user:read'']),
     (''PUT /api/users/{id}'', [''user:manage'']),
     (''PATCH /api/users/{id}/password'', [''user:manage'']),
     (''DELETE /api/users/{id}'', [''user:manage'']),
     (''GET /api/users/{id}/grants'', [''user:read'']),
     (''PUT /api/users/{id}/roles'', [''user:manage'']),
     (''PUT /api/users/{id}/permissions'', [''user:manage''])]"

definition valid_type :: "string \<Rightarrow> bool" where
  "valid_type t \<longleftrightarrow> t = ''student'' \<or> t = ''teacher'' \<or> t = ''staff''"

definition listUsers_h ::
  "(char \<Rightarrow> char \<Rightarrow> bool) \<Rightarrow> int \<Rightarrow> (string \<Rightarrow> string) \<Rightarrow> iam_db conn \<Rightarrow> (user_view list \<times> int \<times> page_params) response \<times> iam_db conn" where
  "listUsers_h eq now q c =
     (let p = parse_page_params q
      in case page_users eq (parse_search q) (page_of p) c of
           (Inl _, c') \<Rightarrow> (RespError 500 ''could not list users'', c')
         | (Inr (us, n), c1) \<Rightarrow>
           if us = [] then (RespJSON 200 (us, n, p), c1)
           else (case batch_summaries now (map uv_id us) c1 of
               (Inl _, c') \<Rightarrow> (RespJSON 200 (us, n, p), c')
             | (Inr sums, c') \<Rightarrow> (RespJSON 200 (map (\<lambda>u. u\<lparr>uv_roles := uy_roles (sums (uv_id u)),
                 uv_groups := uy_groups (sums (uv_id u))\<rparr>) us, n, p), c')))"

definition createUser_h ::
  "password_lib \<Rightarrow> int \<Rightarrow> create_user_input option \<Rightarrow> iam_db conn \<Rightarrow> user_view response \<times> iam_db conn" where
  "createUser_h pw now body c = (case body of
     None \<Rightarrow> (RespError 400 ''invalid request body'', c)
   | Some inp \<Rightarrow>
     (let inp = inp\<lparr>cu_username := trim_space (cu_username inp), cu_display_name := trim_space (cu_display_name inp),
            cu_type := trim_space (cu_type inp)\<rparr>;
          inp' = (if cu_type inp = [] then inp\<lparr>cu_type := ''staff''\<rparr> else inp)
      in if cu_username inp = [] \<or> cu_password inp = [] \<or> cu_display_name inp = []
         then (RespError 400 ''username, password, and displayName are required'', c)
         else if \<not> valid_type (cu_type inp') then (RespError 400 (''type must be '' @ [CHR 0x27] @ ''student'' @ [CHR 0x27] @ '', '' @ [CHR 0x27] @ ''teacher'' @ [CHR 0x27] @ '' or '' @ [CHR 0x27] @ ''staff'' @ [CHR 0x27]), c)
         else (case create_user pw now inp' c of
             (Inl UsernameTaken, c') \<Rightarrow> (RespError 409 ''username already taken'', c')
           | (Inl _, c') \<Rightarrow> (RespError 500 ''could not create user'', c')
           | (Inr u, c') \<Rightarrow> (RespJSON 201 u, c'))))"

definition getUser_h :: "string \<Rightarrow> iam_db conn \<Rightarrow> user_view response \<times> iam_db conn" where
  "getUser_h path_id c = (case atoi path_id of
     None \<Rightarrow> (RespError 400 ''invalid user id'', c)
   | Some i \<Rightarrow> (case get_user_by_id i c of
       (Inl UserNotFound, c') \<Rightarrow> (RespError 404 ''user not found'', c')
     | (Inl _, c') \<Rightarrow> (RespError 500 ''could not load user'', c')
     | (Inr u, c') \<Rightarrow> (RespJSON 200 u, c')))"

definition updateUser_h ::
  "string \<Rightarrow> update_user_input option \<Rightarrow> iam_db conn \<Rightarrow> user_view response \<times> iam_db conn" where
  "updateUser_h path_id body c = (case atoi path_id of
     None \<Rightarrow> (RespError 400 ''invalid user id'', c)
   | Some i \<Rightarrow> (case body of
       None \<Rightarrow> (RespError 400 ''invalid request body'', c)
     | Some inp \<Rightarrow>
       (let inp = inp\<lparr>uu_display_name := trim_space (uu_display_name inp), uu_type := trim_space (uu_type inp)\<rparr>
        in if uu_display_name inp = [] then (RespError 400 ''displayName is required'', c)
           else if \<not> valid_type (uu_type inp) then (RespError 400 (''type must be '' @ [CHR 0x27] @ ''student'' @ [CHR 0x27] @ '', '' @ [CHR 0x27] @ ''teacher'' @ [CHR 0x27] @ '' or '' @ [CHR 0x27] @ ''staff'' @ [CHR 0x27]), c)
           else (case update_user i inp c of
               (Inl UserNotFound, c') \<Rightarrow> (RespError 404 ''user not found'', c')
             | (Inl _, c') \<Rightarrow> (RespError 500 ''could not update user'', c')
             | (Inr u, c') \<Rightarrow> (RespJSON 200 u, c')))))"

text \<open>A password reset: the account of an administrator is reserved for administrators.\<close>

definition changePassword_h ::
  "password_lib \<Rightarrow> (string \<Rightarrow> 'k::linorder) \<Rightarrow> grant_clock \<Rightarrow> subject \<Rightarrow> string \<Rightarrow> string option \<Rightarrow> iam_db conn \<Rightarrow>
   unit response \<times> iam_db conn" where
  "changePassword_h pw ck clk sub path_id body c = (case atoi path_id of
     None \<Rightarrow> (RespError 400 ''invalid user id'', c)
   | Some i \<Rightarrow> (case body of
       None \<Rightarrow> (RespError 400 ''invalid request body'', c)
     | Some password \<Rightarrow>
       if password = [] then (RespError 400 ''password is required'', c)
       else (case effective_permissions ck clk i c of
           (Inl _, c') \<Rightarrow> (RespError 500 ''could not load user permissions'', c')
         | (Inr eff, c1) \<Rightarrow>
           if wildcard \<in> ef_permissions eff \<and> \<not> has_perm sub wildcard
           then (RespError 403 (''only administrators can change an administrator'' @ [CHR 0x27] @ ''s password''), c1)
           else (case update_password pw i password c1 of
               (Inl UserNotFound, c') \<Rightarrow> (RespError 404 ''user not found'', c')
             | (Inl _, c') \<Rightarrow> (RespError 500 ''could not update password'', c')
             | (Inr _, c') \<Rightarrow> (RespJSON 204 (), c')))))"

definition deleteUser_h ::
  "(string \<Rightarrow> 'k::linorder) \<Rightarrow> grant_clock \<Rightarrow> subject \<Rightarrow> string \<Rightarrow> iam_db conn \<Rightarrow> unit response \<times> iam_db conn" where
  "deleteUser_h ck clk sub path_id c = (case atoi path_id of
     None \<Rightarrow> (RespError 400 ''invalid user id'', c)
   | Some i \<Rightarrow>
     if i = sj_id sub then (RespError 409 ''cannot delete your own account'', c)
     else (case effective_permissions ck clk i c of
         (Inl _, c') \<Rightarrow> (RespError 500 ''could not load user permissions'', c')
       | (Inr eff, c1) \<Rightarrow>
         if wildcard \<in> ef_permissions eff \<and> \<not> has_perm sub wildcard
         then (RespError 403 (''only administrators can delete an administrator'' @ [CHR 0x27] @ ''s account''), c1)
         else (case get_user_by_id i c1 of
             (Inl UserNotFound, c') \<Rightarrow> (RespError 404 ''user not found'', c')
           | (Inl _, c') \<Rightarrow> (RespError 500 ''could not load user'', c')
           | (Inr _, c2) \<Rightarrow> (case delete_user i c2 of
               (Inl UserNotFound, c') \<Rightarrow> (RespError 404 ''user not found'', c')
             | (Inl _, c') \<Rightarrow> (RespError 500 ''could not delete user'', c')
             | (Inr _, c3) \<Rightarrow> (RespJSON 204 (), snd (delete_user_grants i c3))))))"

definition respond_grants :: "(string \<Rightarrow> 'k::linorder) \<Rightarrow> int \<Rightarrow> iam_db conn \<Rightarrow> user_grant_view response \<times> iam_db conn" where
  "respond_grants ck i c = (case user_grants ck i c of
     (Inl _, c') \<Rightarrow> (RespError 500 ''could not load grants'', c') | (Inr v, c') \<Rightarrow> (RespJSON 200 v, c'))"

definition getGrants_h :: "(string \<Rightarrow> 'k::linorder) \<Rightarrow> string \<Rightarrow> iam_db conn \<Rightarrow> user_grant_view response \<times> iam_db conn" where
  "getGrants_h ck path_id c = (case atoi path_id of
     None \<Rightarrow> (RespError 400 ''invalid user id'', c)
   | Some i \<Rightarrow> (case get_user_by_id i c of
       (Inl UserNotFound, c') \<Rightarrow> (RespError 404 ''user not found'', c')
     | (Inl _, c') \<Rightarrow> (RespError 500 ''could not load user'', c')
     | (Inr _, c1) \<Rightarrow> respond_grants ck i c1))"

fun refused_code :: "role list \<Rightarrow> subject \<Rightarrow> role_grant_input list \<Rightarrow> (int \<times> string) option" where
  "refused_code roles sub [] = None"
| "refused_code roles sub (g # gs) = (case List.find (\<lambda>r. rl_code r = rgi_code g) (rev roles) of
     None \<Rightarrow> Some (400, ''unknown role code: '' @ rgi_code g)
   | Some r \<Rightarrow> if rl_code r = ''admin'' \<and> \<not> has_perm sub wildcard
              then Some (403, ''only administrators can grant the admin role'') else refused_code roles sub gs)"

definition putRoles_h ::
  "(string \<Rightarrow> 'k::linorder) \<Rightarrow> subject \<Rightarrow> string \<Rightarrow> role_grant_input list option \<Rightarrow> iam_db conn \<Rightarrow>
   user_grant_view response \<times> iam_db conn" where
  "putRoles_h ck sub path_id body c = (case atoi path_id of
     None \<Rightarrow> (RespError 400 ''invalid user id'', c)
   | Some i \<Rightarrow> (case get_user_by_id i c of
       (Inl UserNotFound, c') \<Rightarrow> (RespError 404 ''user not found'', c')
     | (Inl _, c') \<Rightarrow> (RespError 500 ''could not load user'', c')
     | (Inr _, c1) \<Rightarrow> (case body of
         None \<Rightarrow> (RespError 400 ''invalid request body'', c1)
       | Some gs \<Rightarrow> (case load_all_roles ck c1 of
           (Inl _, c') \<Rightarrow> (RespError 500 ''could not load roles'', c')
         | (Inr roles, c2) \<Rightarrow> (case refused_code roles sub gs of
             Some (n, msg) \<Rightarrow> (RespError n msg, c2)
           | None \<Rightarrow> (case replace_user_roles i gs (sj_id sub) c2 of
               (Inl _, c') \<Rightarrow> (RespError 500 ''could not update roles'', c')
             | (Inr _, c3) \<Rightarrow> respond_grants ck i c3))))))"

definition putPermissions_h ::
  "permission list \<Rightarrow> (string \<Rightarrow> 'k::linorder) \<Rightarrow> subject \<Rightarrow> string \<Rightarrow> perm_grant list option \<Rightarrow> iam_db conn \<Rightarrow>
   user_grant_view response \<times> iam_db conn" where
  "putPermissions_h catalog ck sub path_id body c = (case atoi path_id of
     None \<Rightarrow> (RespError 400 ''invalid user id'', c)
   | Some i \<Rightarrow> (case get_user_by_id i c of
       (Inl UserNotFound, c') \<Rightarrow> (RespError 404 ''user not found'', c')
     | (Inl _, c') \<Rightarrow> (RespError 500 ''could not load user'', c')
     | (Inr _, c1) \<Rightarrow> (case body of
         None \<Rightarrow> (RespError 400 ''invalid request body'', c1)
       | Some gs \<Rightarrow> (case List.find (\<lambda>g. \<not> permission_exists catalog (pg_permission g)) gs of
           Some g \<Rightarrow> (RespError 400 (''unknown permission: '' @ pg_permission g), c1)
         | None \<Rightarrow> (case replace_user_permissions i gs (sj_id sub) c1 of
             (Inl _, c') \<Rightarrow> (RespError 500 ''could not update permissions'', c')
           | (Inr _, c2) \<Rightarrow> respond_grants ck i c2)))))"

subsection \<open>Signing in\<close>

record auth_user =
  ax_id :: int
  ax_username :: string
  ax_display_name :: string
  ax_type :: string

definition auth_user_of :: "account \<Rightarrow> auth_user" where
  "auth_user_of a = \<lparr>ax_id = au_id a, ax_username = au_username a, ax_display_name = au_display_name a, ax_type = au_type a\<rparr>"

text \<open>The seed of an empty users table; \<open>env_password\<close> is the variable ADMIN_PASSWORD.\<close>

definition seed_admin :: "password_lib \<Rightarrow> int \<Rightarrow> string \<Rightarrow> unit iam_action" where
  "seed_admin pw now env_password =
     dbind (query (IamDb ''count users'') (\<lambda>d. length (ia_users d))) (\<lambda>n.
     if n > 0 then dret ()
     else (case pw_hash pw (if env_password = [] then ''admin123'' else env_password) of
         None \<Rightarrow> draise (IamDb ''hash admin password'')
       | Some hash \<Rightarrow> dbind (stmt (IamDb ''seed admin user'') (insert_user_row now
             \<lparr>cu_username = ''admin'', cu_password = [], cu_display_name = hx ''e7b3bbe7bb9fe7aea1e79086e59198'', cu_type = ''staff''\<rparr> hash)) (\<lambda>r.
           case r of Done _ \<Rightarrow> dret () | Duplicate \<Rightarrow> draise (IamDb ''seed admin user'') | Rejected \<Rightarrow> draise (IamDb ''seed admin user''))))"

definition authenticate :: "password_lib \<Rightarrow> string \<Rightarrow> string \<Rightarrow> auth_user iam_action" where
  "authenticate pw username password =
     dbind (if nul_free [username] then query_row (IamDb ''query user'') InvalidCredentials (\<lambda>d. find_username d username)
            else draise (IamDb ''query user'')) (\<lambda>a.
     if pw_check pw (au_hash a) password then dret (auth_user_of a) else draise InvalidCredentials)"

definition by_username :: "string \<Rightarrow> auth_user iam_action" where
  "by_username n = query_row (IamDb ''query user'') InvalidCredentials (\<lambda>d. map_option auth_user_of (find_username d n))"

definition find_openid :: "iam_db \<Rightarrow> string \<Rightarrow> account option" where
  "find_openid d o' = List.find (\<lambda>a. au_openid a = Some o') (ia_users d)"

definition get_by_openid :: "string \<Rightarrow> auth_user iam_action" where
  "get_by_openid o' = query_row (IamDb ''query user by openid'') NotBound (\<lambda>d. map_option auth_user_of (find_openid d o'))"

definition bind_openid_row :: "int \<Rightarrow> string \<Rightarrow> iam_db \<Rightarrow> int written \<times> iam_db" where
  "bind_openid_row i o' d =
     (let free = (\<lambda>a. au_id a = i \<and> au_openid a = None); hits = length (filter free (ia_users d))
      in if CHR 0x00 \<in> set o' then (Rejected, d)
         else if hits = 0 then (Done 0, d)
         else if \<not> pg_text 64 o' then (Rejected, d)
         else if find_openid d o' \<noteq> None then (Duplicate, d)
         else (Done (int hits), d\<lparr>ia_users := map (\<lambda>a. if free a then a\<lparr>au_openid := Some o'\<rparr> else a) (ia_users d)\<rparr>))"

definition bind_openid :: "int \<Rightarrow> string \<Rightarrow> unit iam_action" where
  "bind_openid i o' = dbind (stmt (IamDb ''bind openid'') (bind_openid_row i o')) (\<lambda>r. case r of
     Duplicate \<Rightarrow> draise OpenidTaken
   | Rejected \<Rightarrow> draise (IamDb ''bind openid'')
   | Done n \<Rightarrow> if n = 0 then draise AlreadyBound else dret ())"

definition unbind_openid_row :: "string \<Rightarrow> iam_db \<Rightarrow> unit \<times> iam_db" where
  "unbind_openid_row n d = ((), d\<lparr>ia_users := map (\<lambda>a. if au_username a = n then a\<lparr>au_openid := None\<rparr> else a) (ia_users d)\<rparr>)"

definition unbind_openid :: "string \<Rightarrow> unit iam_action" where
  "unbind_openid n = stmt (IamDb ''unbind openid'') (unbind_openid_row n)"

text \<open>
  Tokens: the claims that \<open>Issue\<close> signs (instants in seconds) and what \<open>Parse\<close> accepts. The library
  signs claims, and at an instant returns the claims of a text that it finds valid, with the name of
  its signing method.
\<close>

record claims =
  jw_subject :: string
  jw_issued_at :: int
  jw_expires_at :: int
  jw_issuer :: string

datatype sign_method = Hmac | OtherMethod

record token_lib =
  jt_sign :: "claims \<Rightarrow> string option"
  jt_verify :: "int \<Rightarrow> string \<Rightarrow> (sign_method \<times> claims) option"

definition issue :: "token_lib \<Rightarrow> int \<Rightarrow> auth_user \<Rightarrow> string option" where
  "issue jt now u = jt_sign jt \<lparr>jw_subject = ax_username u, jw_issued_at = now, jw_expires_at = now + 86400, jw_issuer = ''ocm-backend''\<rparr>"

definition parse_token :: "token_lib \<Rightarrow> int \<Rightarrow> string \<Rightarrow> string option" where
  "parse_token jt now t = (case jt_verify jt now t of
     Some (Hmac, cl) \<Rightarrow> if jw_subject cl = [] then None else Some (jw_subject cl)
   | _ \<Rightarrow> None)"

text \<open>WeChat's answer to a login code: an error number and an openid; \<open>None\<close> when the call or the decoding fails.\<close>

definition code_to_openid :: "bool \<Rightarrow> (string \<Rightarrow> (int \<times> string) option) \<Rightarrow> string \<Rightarrow> string option" where
  "code_to_openid enabled wx code =
     (if \<not> enabled then None
      else (case wx code of None \<Rightarrow> None
        | Some (err, o') \<Rightarrow> if err \<noteq> 0 \<or> o' = [] then None else Some o'))"

subsection \<open>Sign-in handlers\<close>

record identity =
  id_user :: auth_user
  id_roles :: "role_brief list"
  id_groups :: "group_brief list"
  id_permissions :: "string set"

definition enrich_user :: "(string \<Rightarrow> 'k::linorder) \<Rightarrow> grant_clock \<Rightarrow> auth_user \<Rightarrow> identity iam_action" where
  "enrich_user ck clk u =
     dbind (effective_permissions ck clk (ax_id u)) (\<lambda>eff.
     dbind (group_briefs (ax_id u)) (\<lambda>groups.
     dret \<lparr>id_user = u, id_roles = map (\<lambda>r. \<lparr>rb_id = rl_id r, rb_code = rl_code r, rb_name = rl_name r\<rparr>) (ef_roles eff),
       id_groups = groups, id_permissions = ef_permissions eff\<rparr>))"

text \<open>The answer of a successful sign-in: the token and the identity.\<close>

definition sign_in ::
  "token_lib \<Rightarrow> (string \<Rightarrow> 'k::linorder) \<Rightarrow> int \<Rightarrow> grant_clock \<Rightarrow> auth_user \<Rightarrow> iam_db conn \<Rightarrow> (string \<times> identity) response \<times> iam_db conn" where
  "sign_in jt ck now clk u c = (case issue jt now u of
     None \<Rightarrow> (RespError 500 ''could not issue token'', c)
   | Some t \<Rightarrow> (case enrich_user ck clk u c of
       (Inl _, c') \<Rightarrow> (RespError 500 ''could not load account'', c')
     | (Inr v, c') \<Rightarrow> (RespJSON 200 (t, v), c')))"

definition login_h ::
  "password_lib \<Rightarrow> token_lib \<Rightarrow> (string \<Rightarrow> 'k::linorder) \<Rightarrow> int \<Rightarrow> grant_clock \<Rightarrow> (string \<times> string) option \<Rightarrow> iam_db conn \<Rightarrow>
   (string \<times> identity) response \<times> iam_db conn" where
  "login_h pw jt ck now clk body c = (case body of
     None \<Rightarrow> (RespError 400 ''invalid request body'', c)
   | Some (name, password) \<Rightarrow>
     (let name = trim_space name
      in if name = [] \<or> password = [] then (RespError 400 ''username and password are required'', c)
         else (case authenticate pw name password c of
             (Inl InvalidCredentials, c') \<Rightarrow> (RespError 401 (hx ''e794a8e688b7e5908de68896e5af86e7a081e99499e8afaf''), c')
           | (Inl _, c') \<Rightarrow> (RespError 500 ''login failed'', c')
           | (Inr u, c') \<Rightarrow> sign_in jt ck now clk u c')))"

definition me_h ::
  "(string \<Rightarrow> 'k::linorder) \<Rightarrow> grant_clock \<Rightarrow> string option \<Rightarrow> iam_db conn \<Rightarrow> identity response \<times> iam_db conn" where
  "me_h ck clk name c = (case name of
     None \<Rightarrow> (RespError 401 ''not authenticated'', c)
   | Some n \<Rightarrow> (case by_username n c of
       (Inl InvalidCredentials, c') \<Rightarrow> (RespError 401 ''account no longer exists'', c')
     | (Inl _, c') \<Rightarrow> (RespError 500 ''could not load account'', c')
     | (Inr u, c1) \<Rightarrow> (case enrich_user ck clk u c1 of
         (Inl _, c') \<Rightarrow> (RespError 500 ''could not load account'', c')
       | (Inr v, c') \<Rightarrow> (RespJSON 200 v, c'))))"

definition wxLogin_h ::
  "token_lib \<Rightarrow> (string \<Rightarrow> string option) \<Rightarrow> (string \<Rightarrow> 'k::linorder) \<Rightarrow> int \<Rightarrow> grant_clock \<Rightarrow> string option \<Rightarrow> iam_db conn \<Rightarrow>
   (string \<times> identity) response \<times> iam_db conn" where
  "wxLogin_h jt openid_of ck now clk body c = (case body of
     None \<Rightarrow> (RespError 400 ''invalid request body'', c)
   | Some code \<Rightarrow>
     if trim_space code = [] then (RespError 400 ''code is required'', c)
     else (case openid_of (trim_space code) of
         None \<Rightarrow> (RespError 502 (hx ''e5beaee4bfa1e799bbe5bd95e6a0a1e9aa8ce5a4b1e8b4a5''), c)
       | Some o' \<Rightarrow> (case get_by_openid o' c of
           (Inl NotBound, c') \<Rightarrow> (RespError 404 (hx ''e5beaee4bfa1e58fb7e69caae7bb91e5ae9ae8b4a6e58fb7''), c')
         | (Inl _, c') \<Rightarrow> (RespError 500 (hx ''e799bbe5bd95e5a4b1e8b4a5''), c')
         | (Inr u, c') \<Rightarrow> sign_in jt ck now clk u c')))"

definition wxBind_h ::
  "password_lib \<Rightarrow> token_lib \<Rightarrow> (string \<Rightarrow> string option) \<Rightarrow> (string \<Rightarrow> 'k::linorder) \<Rightarrow> int \<Rightarrow> grant_clock \<Rightarrow>
   (string \<times> string \<times> string) option \<Rightarrow> iam_db conn \<Rightarrow> (string \<times> identity) response \<times> iam_db conn" where
  "wxBind_h pw jt openid_of ck now clk body c = (case body of
     None \<Rightarrow> (RespError 400 ''invalid request body'', c)
   | Some (name, password, code) \<Rightarrow>
     (let name = trim_space name; code = trim_space code
      in if name = [] \<or> password = [] \<or> code = [] then (RespError 400 (hx ''e8afb7e5a1abe58699e8b4a6e58fb7e38081e5af86e7a081''), c)
         else (case authenticate pw name password c of
             (Inl InvalidCredentials, c') \<Rightarrow> (RespError 401 (hx ''e794a8e688b7e5908de68896e5af86e7a081e99499e8afaf''), c')
           | (Inl _, c') \<Rightarrow> (RespError 500 (hx ''e799bbe5bd95e5a4b1e8b4a5''), c')
           | (Inr u, c1) \<Rightarrow> (case openid_of code of
               None \<Rightarrow> (RespError 502 (hx ''e5beaee4bfa1e799bbe5bd95e6a0a1e9aa8ce5a4b1e8b4a5''), c1)
             | Some o' \<Rightarrow> (case bind_openid (ax_id u) o' c1 of
                 (Inl AlreadyBound, c') \<Rightarrow> (RespError 409 (hx ''e8afa5e8b4a6e58fb7e5b7b2e7bb91e5ae9ae585b6e4bb96e5beaee4bfa1e58fb7efbc8ce8afb7e58588e8a7a3e7bb91''), c')
               | (Inl OpenidTaken, c') \<Rightarrow> (RespError 409 (hx ''e8afa5e5beaee4bfa1e58fb7e5b7b2e7bb91e5ae9ae585b6e4bb96e8b4a6e58fb7''), c')
               | (Inl _, c') \<Rightarrow> (RespError 500 (hx ''e7bb91e5ae9ae5a4b1e8b4a5''), c')
               | (Inr _, c') \<Rightarrow> sign_in jt ck now clk u c')))))"

definition wxUnbind_h :: "string option \<Rightarrow> iam_db conn \<Rightarrow> unit response \<times> iam_db conn" where
  "wxUnbind_h name c = (case name of
     None \<Rightarrow> (RespError 401 ''not authenticated'', c)
   | Some n \<Rightarrow> (case by_username n c of
       (Inl InvalidCredentials, c') \<Rightarrow> (RespError 401 ''account no longer exists'', c')
     | (Inl _, c') \<Rightarrow> (RespError 500 (hx ''e8a7a3e7bb91e5a4b1e8b4a5''), c')
     | (Inr _, c1) \<Rightarrow> (case unbind_openid n c1 of
         (Inl _, c') \<Rightarrow> (RespError 500 (hx ''e8a7a3e7bb91e5a4b1e8b4a5''), c')
       | (Inr _, c') \<Rightarrow> (RespJSON 204 (), c'))))"

subsection \<open>The pipeline of a request\<close>

text \<open>\<open>auth.Middleware\<close>: the username in the bearer token of the Authorization header, or the message of a 401.\<close>

definition bearer_user :: "token_lib \<Rightarrow> int \<Rightarrow> string \<Rightarrow> string + string" where
  "bearer_user jt now header =
     (if \<not> prefix ''Bearer '' header \<or> drop 7 header = [] then Inl ''missing bearer token''
      else (case parse_token jt now (drop 7 header) of
          None \<Rightarrow> Inl ''invalid or expired token'' | Some n \<Rightarrow> Inr n))"

text \<open>\<open>user.LoadSubject\<close>: the account behind the username with its effective permissions.\<close>

definition load_subject ::
  "(string \<Rightarrow> 'k::linorder) \<Rightarrow> grant_clock \<Rightarrow> string option \<Rightarrow> iam_db conn \<Rightarrow> ((int \<times> string) + subject) \<times> iam_db conn" where
  "load_subject ck clk name c = (case name of
     None \<Rightarrow> (Inl (401, ''not authenticated''), c)
   | Some n \<Rightarrow> (case get_user_by_username n c of
       (Inl _, c') \<Rightarrow> (Inl (401, ''account not found''), c')
     | (Inr u, c1) \<Rightarrow> (case effective_permissions ck clk (uv_id u) c1 of
         (Inl _, c') \<Rightarrow> (Inl (500, ''could not load permissions''), c')
       | (Inr eff, c') \<Rightarrow> (Inr \<lparr>sj_id = uv_id u, sj_type = uv_type u, sj_username = uv_username u, sj_display_name = uv_display_name u,
            sj_permissions = ef_permissions eff, sj_roles = role_codes eff, sj_groups = ef_group_ids eff\<rparr>, c'))))"

text \<open>A request behind the pipeline: token, subject, permission check of the route, handler.\<close>

definition guarded ::
  "token_lib \<Rightarrow> (string \<Rightarrow> 'k::linorder) \<Rightarrow> int \<Rightarrow> grant_clock \<Rightarrow> string list \<Rightarrow> string \<Rightarrow>
   (subject \<Rightarrow> iam_db conn \<Rightarrow> 'b response \<times> iam_db conn) \<Rightarrow> iam_db conn \<Rightarrow> 'b response \<times> iam_db conn" where
  "guarded jt ck now clk perms header h c = (case bearer_user jt now header of
     Inl msg \<Rightarrow> (RespError 401 msg, c)
   | Inr n \<Rightarrow> (case load_subject ck clk (Some n) c of
       (Inl (st, msg), c') \<Rightarrow> (RespError st msg, c')
     | (Inr sub, c1) \<Rightarrow>
       if list_ex (has_perm sub) perms then h sub c1
       else (RespError 403 ''insufficient permissions'', c1)))"

end
