(* ===== verification/Access.thy ===== *)
theory Access
  imports Account Hoare
begin

text \<open>
  Who may do what, over the tables of \<open>Iam\<close> and the handlers of \<open>Account\<close>: the effective permissions
  that a store query computes, an invariant of the tables, and what a subject without the wildcard
  cannot reach through any handler, whatever statements the database refuses.
\<close>

subsection \<open>What a user holds\<close>

text \<open>At instant \<open>t\<close>: through a role granted to the user or to one of the user's groups, or directly.\<close>

definition holds_role :: "int \<Rightarrow> iam_db \<Rightarrow> int \<Rightarrow> int \<Rightarrow> bool" where
  "holds_role t d u i \<longleftrightarrow> (\<exists>g\<in>set (ia_user_roles d). ur_user g = u \<and> ur_role g = i \<and> grant_alive t (ur_expires_at g))
     \<or> (\<exists>g. (g, u) \<in> set (ia_members d) \<and> (g, i) \<in> set (ia_group_roles d))"

definition holds :: "int \<Rightarrow> iam_db \<Rightarrow> int \<Rightarrow> string \<Rightarrow> bool" where
  "holds t d u p \<longleftrightarrow> (\<exists>r\<in>set (ia_roles d). (ro_id r, p) \<in> set (ia_role_perms d) \<and> holds_role t d u (ro_id r))
     \<or> (\<exists>g\<in>set (ia_user_perms d). up_user g = u \<and> up_permission g = p \<and> grant_alive t (up_expires_at g))"

text \<open>The two grant queries read the clock before the merge does.\<close>

definition clock_ok :: "grant_clock \<Rightarrow> bool" where
  "clock_ok clk \<longleftrightarrow> gc_roles clk \<le> gc_merge clk \<and> gc_perms clk \<le> gc_merge clk"

lemma grant_alive_antimono: "t \<le> t' \<Longrightarrow> grant_alive t' e \<Longrightarrow> grant_alive t e"
  by (auto simp: grant_alive_def split: option.splits)

lemma find_Some_mem: "List.find P xs = Some x \<Longrightarrow> x \<in> set xs \<and> P x"
  by (induction xs) (auto split: if_splits)

lemma role_with_all_roles:
  "role_with (all_roles ck d) i = (case List.find (\<lambda>r. ro_id r = i) (sort_key ro_id (ia_roles d)) of
     None \<Rightarrow> None | Some r \<Rightarrow> Some (full_role ck d r))"
proof -
  have "List.find (\<lambda>r. rl_id r = i) (map (full_role ck d) rs) =
      map_option (full_role ck d) (List.find (\<lambda>r. ro_id r = i) rs)" for rs
    by (induction rs) (simp_all add: full_role_def)
  then show ?thesis by (auto simp: role_with_def all_roles_def split: option.split)
qed

lemma role_with_Some:
  assumes "role_with (all_roles ck d) i = Some r"
  shows "rl_id r = i" and "set (rl_perms r) = {p. (i, p) \<in> set (ia_role_perms d)}"
    and "\<exists>x\<in>set (ia_roles d). ro_id x = i \<and> ro_code x = rl_code r"
proof -
  from assms obtain x where x: "List.find (\<lambda>r. ro_id r = i) (sort_key ro_id (ia_roles d)) = Some x"
    and r: "r = full_role ck d x" by (auto simp: role_with_all_roles split: option.splits)
  have x': "x \<in> set (ia_roles d)" and i: "ro_id x = i"
    using find_Some_mem [OF x] by simp_all
  show "rl_id r = i" using i by (simp add: r full_role_def)
  show "\<exists>x\<in>set (ia_roles d). ro_id x = i \<and> ro_code x = rl_code r"
    using x' i by (auto simp: r full_role_def)
  show "set (rl_perms r) = {p. (i, p) \<in> set (ia_role_perms d)}"
    by (auto simp: r i full_role_def perms_of_def image_iff)
qed

lemma role_with_None: "role_with (all_roles ck d) i = None \<longleftrightarrow> (\<forall>x\<in>set (ia_roles d). ro_id x \<noteq> i)"
proof -
  have "role_with (all_roles ck d) i = None \<longleftrightarrow> List.find (\<lambda>r. ro_id r = i) (sort_key ro_id (ia_roles d)) = None"
    by (simp add: role_with_all_roles split: option.split)
  then show ?thesis by (auto simp: find_None_iff)
qed

text \<open>What the merge receives: the grants of the user, through the roles that exist.\<close>

definition role_grants :: "(string \<Rightarrow> 'k::linorder) \<Rightarrow> iam_db \<Rightarrow> (int \<times> int option) list \<Rightarrow> role_grant list" where
  "role_grants ck d gs = List.map_filter (\<lambda>(i, e). map_option (\<lambda>r. \<lparr>rg_role = r, rg_expires_at = e\<rparr>) (role_with (all_roles ck d) i)) gs"

lemma granted_role_grants:
  "(\<exists>g\<in>set (role_grants ck d gs). grant_alive t (rg_expires_at g) \<and> p \<in> set (rl_perms (rg_role g))) \<longleftrightarrow>
   (\<exists>r\<in>set (ia_roles d). (ro_id r, p) \<in> set (ia_role_perms d) \<and> (\<exists>e. (ro_id r, e) \<in> set gs \<and> grant_alive t e))"
  (is "?l \<longleftrightarrow> ?r")
proof
  assume ?l
  then obtain i e r where g: "(i, e) \<in> set gs" "role_with (all_roles ck d) i = Some r" "grant_alive t e" "p \<in> set (rl_perms r)"
    by (auto simp: role_grants_def map_filter_def)
  obtain x where "x \<in> set (ia_roles d)" "ro_id x = i" using role_with_Some(3) [OF g(2)] by blast
  then show ?r using g role_with_Some(2) [OF g(2)] by blast
next
  assume ?r
  then obtain x e where x: "x \<in> set (ia_roles d)" "(ro_id x, p) \<in> set (ia_role_perms d)" "(ro_id x, e) \<in> set gs" "grant_alive t e"
    by blast
  then obtain r where r: "role_with (all_roles ck d) (ro_id x) = Some r"
    using role_with_None [of ck d "ro_id x"] by fastforce
  have "\<lparr>rg_role = r, rg_expires_at = e\<rparr> \<in> set (role_grants ck d gs)"
    using x(3) r by (force simp: role_grants_def map_filter_def image_iff)
  then show ?l using x(2,4) role_with_Some(2) [OF r] by force
qed

lemma map_filter_map: "List.map_filter f (map g xs) = List.map_filter (\<lambda>x. f (g x)) xs"
  by (simp add: map_filter_def filter_map o_def)

definition direct_grants :: "grant_clock \<Rightarrow> iam_db \<Rightarrow> int \<Rightarrow> (int \<times> int option) list" where
  "direct_grants clk d u = map (\<lambda>g. (ur_role g, ur_expires_at g))
     (filter (\<lambda>g. ur_user g = u \<and> grant_alive (gc_roles clk) (ur_expires_at g)) (ia_user_roles d))"

definition group_grants :: "iam_db \<Rightarrow> int \<Rightarrow> (int \<times> int option) list" where
  "group_grants d u = map (\<lambda>i. (i, None)) [r. (g, m) \<leftarrow> ia_members d, m = u, (g', r) \<leftarrow> ia_group_roles d, g' = g]"

definition direct_perms :: "grant_clock \<Rightarrow> iam_db \<Rightarrow> int \<Rightarrow> perm_grant list" where
  "direct_perms clk d u = map (\<lambda>g. \<lparr>pg_permission = up_permission g, pg_expires_at = up_expires_at g\<rparr>)
     (filter (\<lambda>g. up_user g = u \<and> grant_alive (gc_perms clk) (up_expires_at g)) (ia_user_perms d))"

definition groups_of :: "iam_db \<Rightarrow> int \<Rightarrow> int list" where
  "groups_of d u = map fst (filter (\<lambda>(g, m). m = u) (ia_members d))"

lemma no_groups_no_grants: "groups_of d u = [] \<Longrightarrow> group_grants d u = []"
  by (auto simp: groups_of_def group_grants_def filter_empty_conv)

text \<open>The result without faults.\<close>

definition eff_of :: "(string \<Rightarrow> 'k::linorder) \<Rightarrow> grant_clock \<Rightarrow> iam_db \<Rightarrow> int \<Rightarrow> effective_result" where
  "eff_of ck clk d u = effective (gc_merge clk) (role_grants ck d (direct_grants clk d u)) (role_grants ck d (group_grants d u))
     (direct_perms clk d u) (groups_of d u)"

lemma effective_healthy: "effective_permissions ck clk u (healthy d) = (Inr (eff_of ck clk d u), healthy d)"
proof (cases "groups_of d u = []")
  case True
  then show ?thesis
    using no_groups_no_grants [OF True]
    by (simp add: effective_permissions_def load_all_roles_def groups_of_def [symmetric] eff_of_def role_grants_def
        direct_grants_def map_filter_map direct_perms_def)
next
  case False
  then show ?thesis
    by (simp add: effective_permissions_def load_all_roles_def groups_of_def [symmetric] eff_of_def role_grants_def
        direct_grants_def group_grants_def map_filter_map direct_perms_def del: map_concat)
qed

lemma effective_reads: "reads (effective_permissions ck clk u)" and effective_clean: "clean (effective_permissions ck clk u)"
  unfolding effective_permissions_def load_all_roles_def by (intro reads_intros, intro clean_intros)

lemma effective_Inr:
  "effective_permissions ck clk u c = (Inr eff, c') \<Longrightarrow> eff = eff_of ck clk (tables c) u \<and> tables c' = tables c"
  using cleanD [OF effective_clean, of ck clk u c eff c'] by (auto simp: effective_healthy)

lemma group_grants_iff: "(i, e) \<in> set (group_grants d u) \<longleftrightarrow> e = None \<and> (\<exists>g. (g, u) \<in> set (ia_members d) \<and> (g, i) \<in> set (ia_group_roles d))"
  by (auto simp: group_grants_def image_iff)

lemma direct_grants_iff:
  "gc_roles clk \<le> t \<Longrightarrow> (\<exists>e. (i, e) \<in> set (direct_grants clk d u) \<and> grant_alive t e) \<longleftrightarrow>
   (\<exists>g\<in>set (ia_user_roles d). ur_user g = u \<and> ur_role g = i \<and> grant_alive t (ur_expires_at g))"
  by (auto simp: direct_grants_def image_iff dest: grant_alive_antimono)

lemma granted_holds:
  assumes "clock_ok clk"
  shows "granted (gc_merge clk) (role_grants ck d (direct_grants clk d u) @ role_grants ck d (group_grants d u)) (direct_perms clk d u) p
    \<longleftrightarrow> holds (gc_merge clk) d u p"
proof -
  have 1: "gc_roles clk \<le> gc_merge clk" and 2: "gc_perms clk \<le> gc_merge clk" using assms by (auto simp: clock_ok_def)
  have dp: "(\<exists>g\<in>set (direct_perms clk d u). grant_alive (gc_merge clk) (pg_expires_at g) \<and> pg_permission g = p) \<longleftrightarrow>
      (\<exists>g\<in>set (ia_user_perms d). up_user g = u \<and> up_permission g = p \<and> grant_alive (gc_merge clk) (up_expires_at g))"
    using grant_alive_antimono [OF 2] by (auto simp: direct_perms_def)
  have gg: "(\<exists>e. (i, e) \<in> set (group_grants d u) \<and> grant_alive (gc_merge clk) e) \<longleftrightarrow>
      (\<exists>g. (g, u) \<in> set (ia_members d) \<and> (g, i) \<in> set (ia_group_roles d))" for i
    by (auto simp: group_grants_iff grant_alive_def)
  show ?thesis
    unfolding granted_def set_append bex_Un granted_role_grants direct_grants_iff [OF 1] gg dp holds_def holds_role_def
    by blast
qed

lemma eff_of_permissions:
  "clock_ok clk \<Longrightarrow> ef_permissions (eff_of ck clk d u) =
     (if holds (gc_merge clk) d u wildcard then {wildcard} else {p. holds (gc_merge clk) d u p})"
  by (auto simp: eff_of_def effective_permissions granted_holds)

lemma eff_of_wildcard:
  "clock_ok clk \<Longrightarrow> wildcard \<in> ef_permissions (eff_of ck clk d u) \<longleftrightarrow> holds (gc_merge clk) d u wildcard"
  by (simp add: eff_of_permissions)


subsection \<open>The invariant\<close>

text \<open>
  Ids are unique and below their sequences, the wildcard is a permission of no role but the one with
  the code admin and of no user directly, and no grant names a user id that is still to come.
\<close>

definition iam_inv :: "iam_db \<Rightarrow> bool" where
  "iam_inv d \<longleftrightarrow> distinct (map ro_id (ia_roles d)) \<and> (\<forall>r\<in>set (ia_roles d). ro_id r < ia_next_role d)
     \<and> distinct (map au_id (ia_users d)) \<and> (\<forall>a\<in>set (ia_users d). au_id a < ia_next_user d)
     \<and> distinct (map au_username (ia_users d))
     \<and> (\<forall>i. (i, wildcard) \<in> set (ia_role_perms d) \<longrightarrow> (\<exists>r\<in>set (ia_roles d). ro_id r = i \<and> ro_code r = ''admin''))
     \<and> (\<forall>g\<in>set (ia_user_perms d). up_permission g \<noteq> wildcard)
     \<and> (\<forall>g\<in>set (ia_user_roles d). ur_user g < ia_next_user d) \<and> (\<forall>(g, u)\<in>set (ia_members d). u < ia_next_user d)"

text \<open>
  Every account that holds the wildcard at \<open>t\<close> afterwards is an account that held it before, with the
  same name, password hash and openid.
\<close>

definition no_new_admin :: "int \<Rightarrow> iam_db \<Rightarrow> iam_db \<Rightarrow> bool" where
  "no_new_admin t d d' \<longleftrightarrow> (\<forall>a'\<in>set (ia_users d'). holds t d' (au_id a') wildcard \<longrightarrow>
     (\<exists>a\<in>set (ia_users d). au_id a = au_id a' \<and> au_username a = au_username a' \<and> au_hash a = au_hash a'
        \<and> au_openid a = au_openid a' \<and> holds t d (au_id a) wildcard))"

text \<open>What is carried through a handler; \<open>b\<close> tells that the subject does not hold the wildcard.\<close>

definition safe :: "bool \<Rightarrow> int \<Rightarrow> iam_db \<Rightarrow> iam_db \<Rightarrow> bool" where
  "safe b t d0 d \<longleftrightarrow> iam_inv d \<and> (b \<longrightarrow> no_new_admin t d0 d)"

definition wild :: "iam_db \<Rightarrow> int \<Rightarrow> bool" where
  "wild d i \<longleftrightarrow> (i, wildcard) \<in> set (ia_role_perms d)"

lemma holds_wildcard:
  assumes "iam_inv d"
  shows "holds t d u wildcard \<longleftrightarrow> (\<exists>i. wild d i \<and> holds_role t d u i)"
  using assms unfolding iam_inv_def holds_def wild_def by blast

lemma safe_inv: "safe b t d0 d \<Longrightarrow> iam_inv d"
  by (simp add: safe_def)

lemma no_new_admin_refl: "no_new_admin t d d"
  by (auto simp: no_new_admin_def)

lemma safe_refl: "iam_inv d \<Longrightarrow> safe b t d d"
  by (simp add: safe_def no_new_admin_refl)

lemma safe_step:
  assumes "safe b t d0 d" and "iam_inv d'"
    and "b \<Longrightarrow> no_new_admin t d d'"
  shows "safe b t d0 d'"
  using assms unfolding safe_def no_new_admin_def by (metis (no_types, opaque_lifting))

text \<open>A step that keeps the accounts and gives no user a role with the wildcard.\<close>

lemma safe_grants:
  assumes "safe b t d0 d" and "iam_inv d'" and "ia_users d' = ia_users d"
    and "\<And>u i. b \<Longrightarrow> u \<in> au_id ` set (ia_users d) \<Longrightarrow> wild d' i \<Longrightarrow> holds_role t d' u i \<Longrightarrow> wild d i \<and> holds_role t d u i"
  shows "safe b t d0 d'"
proof (rule safe_step [OF assms(1,2)])
  assume b: b
  have "holds t d (au_id a) wildcard" if "a \<in> set (ia_users d)" "holds t d' (au_id a) wildcard" for a
    using that assms(4) [OF b, of "au_id a"] holds_wildcard [OF assms(2)] holds_wildcard [OF safe_inv [OF assms(1)]] by auto
  then show "no_new_admin t d d'" unfolding no_new_admin_def assms(3) by blast
qed


text \<open>Fewer grants, role permissions or memberships.\<close>

lemma safe_fewer:
  assumes "safe b t d0 d" and "ia_users d' = ia_users d" and "ia_roles d' = ia_roles d"
    and "ia_next_user d' = ia_next_user d" and "ia_next_role d' = ia_next_role d"
    and "set (ia_role_perms d') \<subseteq> set (ia_role_perms d)" and "set (ia_user_roles d') \<subseteq> set (ia_user_roles d)"
    and "set (ia_user_perms d') \<subseteq> set (ia_user_perms d)" and "set (ia_members d') \<subseteq> set (ia_members d)"
    and "set (ia_group_roles d') \<subseteq> set (ia_group_roles d)"
  shows "safe b t d0 d'"
proof (rule safe_grants [OF assms(1) _ assms(2)])
  show "iam_inv d'" using safe_inv [OF assms(1)] assms(2-) unfolding iam_inv_def by auto
  show "wild d i \<and> holds_role t d u i" if "wild d' i" "holds_role t d' u i" for u i
    using that assms(6,7,9,10) unfolding wild_def holds_role_def by blast
qed

lemma safe_deletes:
  assumes "safe b t d0 d"
  shows "safe b t d0 (snd (delete_user_roles u d))" "safe b t d0 (snd (delete_user_perms u d))"
    "safe b t d0 (snd (delete_memberships u d))" "safe b t d0 (snd (delete_role_perms i d))"
    "safe b t d0 (snd (clear_group_members g d))" "safe b t d0 (snd (clear_group_roles g d))"
    "safe b t d0 (snd (delete_group_row g d))"
  by (rule safe_fewer [OF assms];
      auto simp: delete_user_roles_def delete_user_perms_def delete_memberships_def delete_role_perms_def
        clear_group_members_def clear_group_roles_def delete_group_row_def)+

lemma safe_group_rows:
  assumes "safe b t d0 d"
  shows "safe b t d0 (snd (insert_group_row now inp d))" "safe b t d0 (snd (update_group_row g inp d))"
  by (rule safe_fewer [OF assms]; simp add: insert_group_row_def update_group_row_def Let_def)+

text \<open>Grants of roles and permissions without the wildcard.\<close>

lemma safe_insert_user_perm:
  assumes "safe b t d0 d" and "up_permission g \<noteq> wildcard"
  shows "safe b t d0 (snd (insert_user_perm g d))"
proof (rule safe_grants [OF assms(1)])
  show "iam_inv (snd (insert_user_perm g d))"
    using safe_inv [OF assms(1)] assms(2) by (auto simp: iam_inv_def insert_user_perm_def)
qed (auto simp: insert_user_perm_def wild_def holds_role_def split: if_splits)

lemma safe_insert_role_perm:
  assumes "safe b t d0 d" and "p \<noteq> wildcard"
  shows "safe b t d0 (snd (insert_role_perm i p d))"
proof (rule safe_grants [OF assms(1)])
  show "iam_inv (snd (insert_role_perm i p d))"
    using safe_inv [OF assms(1)] assms(2) by (auto simp: iam_inv_def insert_role_perm_def)
qed (use assms(2) in \<open>auto simp: insert_role_perm_def wild_def holds_role_def split: if_splits\<close>)

lemma safe_insert_user_role:
  assumes "safe b t d0 d" and "ur_user g < ia_next_user d" and "b \<Longrightarrow> \<not> wild d (ur_role g)"
  shows "safe b t d0 (snd (insert_user_role g d))"
proof (rule safe_grants [OF assms(1)])
  show "iam_inv (snd (insert_user_role g d))"
    using safe_inv [OF assms(1)] assms(2) by (auto simp: iam_inv_def insert_user_role_def)
qed (use assms(3) in \<open>auto simp: insert_user_role_def wild_def holds_role_def split: if_splits\<close>)

lemma safe_insert_group_role:
  assumes "safe b t d0 d" and "b \<Longrightarrow> \<not> wild d r"
  shows "safe b t d0 (snd (insert_group_role g r d))"
proof (rule safe_grants [OF assms(1)])
  show "iam_inv (snd (insert_group_role g r d))"
    using safe_inv [OF assms(1)] by (auto simp: iam_inv_def insert_group_role_def)
qed (use assms(2) in \<open>auto simp: insert_group_role_def wild_def holds_role_def split: if_splits\<close>)

text \<open>A member enters a group that gives no roles for the moment.\<close>

lemma safe_insert_group_member:
  assumes "safe b t d0 (snd (clear_group_roles g d))" and "u < ia_next_user d"
  shows "safe b t d0 (snd (clear_group_roles g (snd (insert_group_member g u d))))"
proof (rule safe_grants [OF assms(1)])
  show "iam_inv (snd (clear_group_roles g (snd (insert_group_member g u d))))"
    using safe_inv [OF assms(1)] assms(2) by (auto simp: iam_inv_def insert_group_member_def clear_group_roles_def)
qed (auto simp: insert_group_member_def clear_group_roles_def wild_def holds_role_def split: if_splits)

lemma safe_clear_members:
  assumes "safe b t d0 (snd (clear_group_roles g d))"
  shows "safe b t d0 (snd (clear_group_roles g (snd (clear_group_members g d))))"
  by (rule safe_fewer [OF assms]) (auto simp: clear_group_members_def clear_group_roles_def)

text \<open>Roles.\<close>

lemma iam_inv_roles:
  assumes "iam_inv d" and "distinct (map ro_id rs)" and "\<And>r. r \<in> set rs \<Longrightarrow> ro_id r < n"
    and "\<And>r. r \<in> set (ia_roles d) \<Longrightarrow> wild d (ro_id r) \<Longrightarrow> \<exists>r'\<in>set rs. ro_id r' = ro_id r \<and> ro_code r' = ro_code r"
  shows "iam_inv (d\<lparr>ia_roles := rs, ia_next_role := n\<rparr>)"
  using assms unfolding iam_inv_def wild_def by (simp, metis)

lemma safe_roles:
  assumes "safe b t d0 d" and "distinct (map ro_id rs)" and "\<And>r. r \<in> set rs \<Longrightarrow> ro_id r < n"
    and "\<And>r. r \<in> set (ia_roles d) \<Longrightarrow> wild d (ro_id r) \<Longrightarrow> \<exists>r'\<in>set rs. ro_id r' = ro_id r \<and> ro_code r' = ro_code r"
  shows "safe b t d0 (d\<lparr>ia_roles := rs, ia_next_role := n\<rparr>)"
  by (rule safe_grants [OF assms(1) iam_inv_roles [OF safe_inv [OF assms(1)] assms(2-4)]])
    (simp_all add: wild_def holds_role_def)

lemma safe_insert_role:
  assumes "safe b t d0 d"
  shows "safe b t d0 (snd (insert_role_row code name desc sys d))"
proof -
  let ?r = "\<lparr>ro_id = ia_next_role d, ro_code = code, ro_name = name, ro_description = desc, ro_is_system = sys\<rparr>"
  have *: "distinct (map ro_id (ia_roles d))" "\<forall>r\<in>set (ia_roles d). ro_id r < ia_next_role d"
    using safe_inv [OF assms] by (simp_all add: iam_inv_def)
  have "safe b t d0 (d\<lparr>ia_roles := ia_roles d @ [?r], ia_next_role := ia_next_role d + 1\<rparr>)"
    by (rule safe_roles [OF assms]) (use * in \<open>fastforce simp: image_iff\<close>)+
  then show ?thesis using assms by (simp add: insert_role_row_def)
qed

lemma safe_update_role:
  assumes "safe b t d0 d"
  shows "safe b t d0 (snd (update_role_row i inp d))"
proof -
  let ?f = "\<lambda>r. if ro_id r = i then r\<lparr>ro_name := rin_name inp, ro_description := rin_description inp\<rparr> else r"
  have *: "distinct (map ro_id (ia_roles d))" "\<forall>r\<in>set (ia_roles d). ro_id r < ia_next_role d"
    using safe_inv [OF assms] by (simp_all add: iam_inv_def)
  have ids: "map ro_id (map ?f (ia_roles d)) = map ro_id (ia_roles d)" by simp
  have "safe b t d0 (d\<lparr>ia_roles := map ?f (ia_roles d), ia_next_role := ia_next_role d\<rparr>)"
  proof (rule safe_roles [OF assms])
    show "distinct (map ro_id (map ?f (ia_roles d)))" using * ids by metis
    show "ro_id r < ia_next_role d" if "r \<in> set (map ?f (ia_roles d))" for r
      using that * by (auto split: if_splits)
    show "\<exists>r'\<in>set (map ?f (ia_roles d)). ro_id r' = ro_id r \<and> ro_code r' = ro_code r" if "r \<in> set (ia_roles d)" for r
      using that by (intro bexI [of _ "?f r"]) auto
  qed
  then show ?thesis using assms by (simp add: update_role_row_def Let_def)
qed

lemma safe_delete_role:
  assumes "safe b t d0 d" and "\<forall>p. (i, p) \<notin> set (ia_role_perms d)"
  shows "safe b t d0 (snd (delete_role_row i d))"
proof -
  have *: "distinct (map ro_id (ia_roles d))" "\<forall>r\<in>set (ia_roles d). ro_id r < ia_next_role d"
    using safe_inv [OF assms(1)] by (simp_all add: iam_inv_def)
  have "safe b t d0 (d\<lparr>ia_roles := filter (\<lambda>r. ro_id r \<noteq> i) (ia_roles d), ia_next_role := ia_next_role d\<rparr>)"
    by (rule safe_roles [OF assms(1)]) (use * assms(2) in \<open>auto simp: distinct_map_filter wild_def\<close>)
  then show ?thesis by (simp add: delete_role_row_def)
qed


text \<open>Accounts.\<close>

lemma safe_insert_user:
  assumes "safe b t d0 d"
  shows "safe b t d0 (snd (insert_user_row now inp hash d))"
proof (cases "fst (insert_user_row now inp hash d) = Done (ia_next_user d)")
  case False
  then have "snd (insert_user_row now inp hash d) = d" by (auto simp: insert_user_row_def)
  then show ?thesis using assms by simp
next
  case True
  let ?a = "\<lparr>au_id = ia_next_user d, au_username = cu_username inp, au_hash = hash, au_display_name = cu_display_name inp,
      au_type = cu_type inp, au_openid = None, au_created_at = now\<rparr>"
  have d': "snd (insert_user_row now inp hash d) = d\<lparr>ia_users := ia_users d @ [?a], ia_next_user := ia_next_user d + 1\<rparr>"
    and new: "cu_username inp \<notin> au_username ` set (ia_users d)"
    using True by (auto simp: insert_user_row_def find_username_def find_None_iff split: if_splits)
  have inv: "iam_inv d" using safe_inv [OF assms] .
  show ?thesis
  proof (rule safe_step [OF assms])
    show inv': "iam_inv (snd (insert_user_row now inp hash d))"
      using inv new unfolding d' iam_inv_def by fastforce
    have "\<not> holds t (snd (insert_user_row now inp hash d)) (ia_next_user d) wildcard"
      using inv unfolding holds_wildcard [OF inv'] unfolding d' iam_inv_def holds_role_def by auto
    moreover have "holds t (snd (insert_user_row now inp hash d)) u wildcard = holds t d u wildcard" for u
      unfolding d' holds_def holds_role_def by simp
    ultimately show "no_new_admin t d (snd (insert_user_row now inp hash d))"
      unfolding no_new_admin_def d' by auto
  qed
qed

text \<open>An update of one account that changes neither its id nor its name.\<close>

lemma safe_update_account:
  assumes "safe b t d0 d" and "\<And>a. au_id (f a) = au_id a \<and> au_username (f a) = au_username a"
    and "\<And>a. b \<Longrightarrow> holds t d i wildcard \<Longrightarrow> au_hash (f a) = au_hash a \<and> au_openid (f a) = au_openid a"
  shows "safe b t d0 (update_account i f d)"
proof (rule safe_step [OF assms(1)])
  have inv: "iam_inv d" using safe_inv [OF assms(1)] .
  have "map au_id (map (\<lambda>a. if au_id a = i then f a else a) (ia_users d)) = map au_id (ia_users d)"
    "map au_username (map (\<lambda>a. if au_id a = i then f a else a) (ia_users d)) = map au_username (ia_users d)"
    by (simp_all add: assms(2))
  then show "iam_inv (update_account i f d)"
    using inv assms(2) unfolding iam_inv_def update_account_def by (auto simp del: map_map)
  assume b: b
  have "holds t (update_account i f d) u p = holds t d u p" for u p
    by (simp add: update_account_def holds_def holds_role_def)
  then show "no_new_admin t d (update_account i f d)"
    unfolding no_new_admin_def using assms(2) assms(3) [OF b] by (fastforce simp: update_account_def)
qed

lemma safe_delete_user:
  assumes "safe b t d0 d"
  shows "safe b t d0 (snd (delete_user_row i d))"
proof (rule safe_step [OF assms])
  show "iam_inv (snd (delete_user_row i d))"
    using safe_inv [OF assms] by (auto simp: iam_inv_def delete_user_row_def distinct_map_filter)
  show "no_new_admin t d (snd (delete_user_row i d))"
    by (auto simp: no_new_admin_def delete_user_row_def holds_def holds_role_def)
qed

subsection \<open>The store operations\<close>

lemma next_user_kept:
  "ia_next_user (snd (delete_user_roles u d)) = ia_next_user d" "ia_next_user (snd (delete_user_perms u d)) = ia_next_user d"
  "ia_next_user (snd (insert_user_role g d)) = ia_next_user d" "ia_next_user (snd (insert_user_perm h d)) = ia_next_user d"
  "ia_next_user (snd (clear_group_members i d)) = ia_next_user d" "ia_next_user (snd (clear_group_roles i d)) = ia_next_user d"
  "ia_next_user (snd (insert_group_member i u d)) = ia_next_user d" "ia_next_user (snd (insert_group_role i r d)) = ia_next_user d"
  "ia_next_user (snd (insert_group_row now inp d)) = ia_next_user d" "ia_next_user (snd (update_group_row i inp d)) = ia_next_user d"
  by (simp_all add: delete_user_roles_def delete_user_perms_def insert_user_role_def insert_user_perm_def clear_group_members_def
      clear_group_roles_def insert_group_member_def insert_group_role_def insert_group_row_def update_group_row_def Let_def)

lemma triple_checked:
  assumes "\<And>d. P d \<Longrightarrow> Q (snd (f d))" and "\<And>d. P d \<Longrightarrow> E d" and "\<And>d. P d \<Longrightarrow> E (snd (f d))"
  shows "triple P (checked msg f) (\<lambda>_. Q) E"
  unfolding checked_def
proof (rule triple_dbind [where Q' = "\<lambda>ok d'. Q d' \<and> E d'"])
  show "triple P (stmt (IamDb msg) f) (\<lambda>_ d'. Q d' \<and> E d') E"
    by (rule triple_stmt) (auto simp: assms)
  show "triple (\<lambda>d'. Q d' \<and> E d') (if ok then dret () else draise (IamDb msg)) (\<lambda>_. Q) E" for ok
    by (intro triple_if triple_dret triple_draise) simp_all
qed

lemma triple_iam_tx: "triple P body Q (\<lambda>_. True) \<Longrightarrow> (\<And>d. P d \<Longrightarrow> E d) \<Longrightarrow> triple P (iam_tx body) Q E"
  unfolding iam_tx_def by (rule triple_transaction)

lemma first_wins_mem: "x \<in> set (first_wins ok key seen xs) \<Longrightarrow> x \<in> set xs"
  using first_wins_subset by fast

lemma replace_user_roles_safe:
  assumes "\<And>g. g \<in> set gs \<Longrightarrow> b \<Longrightarrow> rgi_code g \<noteq> ''admin''"
  shows "triple (\<lambda>d. safe b t d0 d \<and> u < ia_next_user d) (replace_user_roles u gs granter) (\<lambda>_. safe b t d0) (safe b t d0)"
  unfolding replace_user_roles_def
proof (rule triple_iam_tx)
  let ?I = "\<lambda>d. safe b t d0 d \<and> u < ia_next_user d"
  have one: "triple ?I (grant_role u granter g) (\<lambda>_. ?I) (\<lambda>_. True)" if g: "g \<in> set (first_wins (\<lambda>_. True) rgi_code [] gs)" for g
    unfolding grant_role_def
  proof (rule triple_dbind [where Q' = "\<lambda>r d. ?I d \<and> find_role_code d (rgi_code g) = Some r"])
    show "triple ?I (query_row (IamDb ''replace user roles lookup'') RoleNotFound (\<lambda>d. find_role_code d (rgi_code g)))
        (\<lambda>r d. ?I d \<and> find_role_code d (rgi_code g) = Some r) (\<lambda>_. True)"
      by (rule triple_query_row) auto
    show "triple (\<lambda>d. ?I d \<and> find_role_code d (rgi_code g) = Some r) (checked ''replace user roles insert'' (insert_user_role
        \<lparr>ur_user = u, ur_role = ro_id r, ur_expires_at = rgi_expires_at g, ur_granted_by = Some granter\<rparr>)) (\<lambda>_. ?I) (\<lambda>_. True)" for r
    proof (rule triple_checked)
      fix d assume a: "?I d \<and> find_role_code d (rgi_code g) = Some r"
      then have r: "r \<in> set (ia_roles d)" "ro_code r = rgi_code g"
        using find_Some_mem [of _ "ia_roles d" r] by (auto simp: find_role_code_def)
      have "\<not> wild d (ro_id r)" if b
      proof
        assume "wild d (ro_id r)"
        then obtain x where "x \<in> set (ia_roles d)" "ro_id x = ro_id r" "ro_code x = ''admin''"
          using a safe_inv [of b t d0 d] unfolding iam_inv_def wild_def by blast
        moreover then have "x = r" using r a safe_inv [of b t d0 d] unfolding iam_inv_def by (metis inj_onD distinct_map)
        ultimately show False using assms [OF first_wins_mem [OF g] \<open>b\<close>] r(2) by simp
      qed
      then show "?I (snd (insert_user_role \<lparr>ur_user = u, ur_role = ro_id r, ur_expires_at = rgi_expires_at g,
          ur_granted_by = Some granter\<rparr> d))"
        using a by (simp add: safe_insert_user_role next_user_kept)
    qed simp_all
  qed
  show "triple ?I (dbind (stmt (IamDb ''replace user roles delete'') (delete_user_roles u))
      (\<lambda>_. dmapM (grant_role u granter) (first_wins (\<lambda>_. True) rgi_code [] gs))) (\<lambda>_. safe b t d0) (\<lambda>_. True)"
  proof (rule triple_dbind [where Q' = "\<lambda>_. ?I"])
    show "triple ?I (stmt (IamDb ''replace user roles delete'') (delete_user_roles u)) (\<lambda>_. ?I) (\<lambda>_. True)"
      by (rule triple_stmt) (simp_all add: safe_deletes next_user_kept)
    show "triple ?I (dmapM (grant_role u granter) (first_wins (\<lambda>_. True) rgi_code [] gs)) (\<lambda>_. safe b t d0) (\<lambda>_. True)"
      by (rule triple_dmapM [OF one]) simp_all
  qed
qed simp


lemma replace_user_permissions_safe:
  assumes "\<And>g. g \<in> set gs \<Longrightarrow> pg_permission g \<noteq> wildcard"
  shows "triple (safe b t d0) (replace_user_permissions u gs granter) (\<lambda>_. safe b t d0) (safe b t d0)"
  unfolding replace_user_permissions_def
proof (rule triple_iam_tx, rule triple_dbind [where Q' = "\<lambda>_. safe b t d0"])
  show "triple (safe b t d0) (stmt (IamDb ''replace user permissions delete'') (delete_user_perms u)) (\<lambda>_. safe b t d0) (\<lambda>_. True)"
    by (rule triple_stmt) (simp_all add: safe_deletes)
  show "triple (safe b t d0) (dmapM (\<lambda>g. checked ''replace user permissions insert'' (insert_user_perm
      \<lparr>up_user = u, up_permission = pg_permission g, up_expires_at = pg_expires_at g, up_granted_by = Some granter\<rparr>))
      (first_wins (\<lambda>_. True) pg_permission [] gs)) (\<lambda>_. safe b t d0) (\<lambda>_. True)"
    by (rule triple_dmapM, rule triple_checked)
      (use assms first_wins_mem [of _ _ pg_permission "[]" gs] in \<open>auto intro: safe_insert_user_perm\<close>)
qed simp

lemma delete_user_grants_safe: "triple (safe b t d0) (delete_user_grants u) (\<lambda>_. safe b t d0) (safe b t d0)"
  unfolding delete_user_grants_def
  by (intro triple_dbind [where Q' = "\<lambda>_. safe b t d0"]; rule triple_stmt; simp add: safe_deletes)

lemma iam_reads:
  "reads (load_all_roles ck)" "reads (get_role_by_id ck i)" "reads (get_group_by_id i)" "reads (user_grants ck i)"
  "reads (get_user_by_id i)" "reads (role_usage_counts i)" "reads (users_exist us)" "reads list_groups" "reads (group_briefs i)"
  "reads (batch_summaries now us)" "reads (get_user_by_username n)" "reads (page_users eq q p)" "reads (by_username n)"
  "reads (get_by_openid o')" "reads (enrich_user ck clk x)" "reads (authenticate pw n w)"
  unfolding load_all_roles_def get_role_by_id_def get_group_by_id_def user_grants_def get_user_by_id_def role_usage_counts_def
    users_exist_def Let_def list_groups_def group_briefs_def batch_summaries_def get_user_by_username_def page_users_def
    by_username_def get_by_openid_def enrich_user_def authenticate_def
  by (intro reads_intros effective_reads)+

lemma iam_clean: "clean (load_all_roles ck)" "clean (get_user_by_id i)" "clean (users_exist us)"
  unfolding load_all_roles_def get_user_by_id_def users_exist_def Let_def by (intro clean_intros)+

lemma replace_role_permissions_safe:
  assumes "wildcard \<notin> set ps"
  shows "triple (safe b t d0) (replace_role_permissions i ps) (\<lambda>_. safe b t d0) (safe b t d0)"
  unfolding replace_role_permissions_def
proof (rule triple_iam_tx, rule triple_dbind [where Q' = "\<lambda>_. safe b t d0"])
  show "triple (safe b t d0) (stmt (IamDb ''replace role permissions delete'') (delete_role_perms i)) (\<lambda>_. safe b t d0) (\<lambda>_. True)"
    by (rule triple_stmt) (simp_all add: safe_deletes)
  show "triple (safe b t d0) (dmapM (\<lambda>p. checked ''replace role permissions insert'' (insert_role_perm i p)) ps)
      (\<lambda>_. safe b t d0) (\<lambda>_. True)"
    by (rule triple_dmapM, rule triple_checked) (use assms in \<open>auto intro: safe_insert_role_perm\<close>)
qed simp

lemma read_role_safe: "triple (safe b t d0) (get_role_by_id ck i) (\<lambda>_. safe b t d0) (safe b t d0)"
  by (rule triple_reads [OF iam_reads(2)])

lemma create_role_safe:
  assumes "wildcard \<notin> set (rin_permissions inp)"
  shows "triple (safe b t d0) (create_role ck inp) (\<lambda>_. safe b t d0) (safe b t d0)"
  unfolding create_role_def
proof (rule triple_dbind [where Q' = "\<lambda>_. safe b t d0"])
  show "triple (safe b t d0) (stmt (IamDb ''create role'') (insert_role_row (rin_code inp) (rin_name inp) (rin_description inp) False))
      (\<lambda>_. safe b t d0) (safe b t d0)"
    by (rule triple_stmt) (simp_all add: safe_insert_role)
  show "triple (safe b t d0) (case r of Done i \<Rightarrow> dbind (replace_role_permissions i (rin_permissions inp)) (\<lambda>_. get_role_by_id ck i)
      | Duplicate \<Rightarrow> draise RoleCodeTaken | Rejected \<Rightarrow> draise (IamDb ''create role'')) (\<lambda>_. safe b t d0) (safe b t d0)" for r
    by (cases r) (auto intro: triple_draise triple_dbind replace_role_permissions_safe [OF assms] read_role_safe)
qed

lemma update_role_safe:
  assumes "wildcard \<notin> set (rin_permissions inp)"
  shows "triple (safe b t d0) (update_role ck i inp) (\<lambda>_. safe b t d0) (safe b t d0)"
  unfolding update_role_def
proof (rule triple_dbind [where Q' = "\<lambda>_. safe b t d0"])
  show "triple (safe b t d0) (stmt (IamDb ''update role'') (update_role_row i inp)) (\<lambda>_. safe b t d0) (safe b t d0)"
    by (rule triple_stmt) (simp_all add: safe_update_role)
  have read: "triple (safe b t d0) (if n = 0 then dtry (get_role_by_id ck i)
      (\<lambda>e. if e = IamNotFound then draise IamNotFound else dret ()) (\<lambda>_. dret ()) else dret ()) (\<lambda>_. safe b t d0) (safe b t d0)" for n :: int
    by (intro triple_if triple_dtry [OF read_role_safe] triple_draise triple_dret)
  show "triple (safe b t d0) (case r of None \<Rightarrow> draise (IamDb ''update role'')
     | Some n \<Rightarrow> dbind (if n = 0 then dtry (get_role_by_id ck i)
        (\<lambda>e. if e = IamNotFound then draise IamNotFound else dret ()) (\<lambda>_. dret ()) else dret ()) (\<lambda>_.
       dbind (replace_role_permissions i (rin_permissions inp)) (\<lambda>_. get_role_by_id ck i))) (\<lambda>_. safe b t d0) (safe b t d0)" for r :: "int option"
    by (intro triple_option triple_draise triple_dbind [OF read] triple_dbind [OF replace_role_permissions_safe [OF assms]] read_role_safe)
qed

lemma delete_role_safe: "triple (safe b t d0) (delete_role i) (\<lambda>_. safe b t d0) (safe b t d0)"
  unfolding delete_role_def
proof (rule triple_iam_tx, rule triple_dbind [where Q' = "\<lambda>_ d. safe b t d0 d \<and> (\<forall>p. (i, p) \<notin> set (ia_role_perms d))"])
  show "triple (safe b t d0) (stmt (IamDb ''delete role permissions'') (delete_role_perms i))
      (\<lambda>_ d. safe b t d0 d \<and> (\<forall>p. (i, p) \<notin> set (ia_role_perms d))) (\<lambda>_. True)"
    by (rule triple_stmt) (simp_all add: safe_deletes, simp add: delete_role_perms_def)
  show "triple (\<lambda>d. safe b t d0 d \<and> (\<forall>p. (i, p) \<notin> set (ia_role_perms d)))
      (dbind (stmt (IamDb ''delete role'') (delete_role_row i)) (\<lambda>n. if n = 0 then draise IamNotFound else dret ()))
      (\<lambda>_. safe b t d0) (\<lambda>_. True)"
    by (rule triple_dbind [where Q' = "\<lambda>_. safe b t d0"])
      (auto intro!: triple_stmt triple_draise triple_dret simp: safe_delete_role)
qed simp


text \<open>
  A group gets its members before its roles: in between the group may give its old roles to new
  members, so the statement is carried for the tables without the roles of the group.
\<close>

definition group_safe :: "bool \<Rightarrow> int \<Rightarrow> iam_db \<Rightarrow> int list \<Rightarrow> int list \<Rightarrow> int \<Rightarrow> iam_db \<Rightarrow> bool" where
  "group_safe b t d0 us rs g d \<longleftrightarrow> safe b t d0 (snd (clear_group_roles g d)) \<and> (\<forall>u\<in>set us. u < ia_next_user d)
     \<and> (b \<longrightarrow> (\<forall>r\<in>set rs. \<not> wild d r))"

definition input_safe :: "bool \<Rightarrow> int list \<Rightarrow> int list \<Rightarrow> iam_db \<Rightarrow> bool" where
  "input_safe b us rs d \<longleftrightarrow> (\<forall>u\<in>set us. u < ia_next_user d) \<and> (b \<longrightarrow> (\<forall>r\<in>set rs. \<not> wild d r))"

lemma wild_kept:
  "wild (snd (clear_group_members i d)) r = wild d r" "wild (snd (clear_group_roles i d)) r = wild d r"
  "wild (snd (insert_group_member i u d)) r = wild d r" "wild (snd (insert_group_role i x d)) r = wild d r"
  "wild (snd (insert_group_row now inp d)) r = wild d r" "wild (snd (update_group_row i inp d)) r = wild d r"
  by (simp_all add: wild_def clear_group_members_def clear_group_roles_def insert_group_member_def insert_group_role_def
      insert_group_row_def update_group_row_def Let_def)

lemma group_safe_start: "safe b t d0 d \<Longrightarrow> input_safe b us rs d \<Longrightarrow> group_safe b t d0 us rs g d"
  by (simp add: group_safe_def input_safe_def safe_deletes)

lemma dedupe_mem: "x \<in> set (dedupe_int64 xs) \<longleftrightarrow> x \<in> set xs"
  using first_wins_keys [of "\<lambda>i. i" "\<lambda>_. True" "[]" xs] by (simp add: dedupe_int64_def)

lemma replace_group_members_safe:
  "triple (group_safe b t d0 us rs g) (replace_group_members g us) (\<lambda>_. group_safe b t d0 us rs g) (\<lambda>_. True)"
  unfolding replace_group_members_def
proof (rule triple_dbind [where Q' = "\<lambda>_. group_safe b t d0 us rs g"])
  show "triple (group_safe b t d0 us rs g) (stmt (IamDb ''replace group members delete'') (clear_group_members g))
      (\<lambda>_. group_safe b t d0 us rs g) (\<lambda>_. True)"
    by (rule triple_stmt) (simp_all add: group_safe_def safe_clear_members next_user_kept wild_kept)
  show "triple (group_safe b t d0 us rs g) (dmapM (\<lambda>u. checked ''replace group members insert'' (insert_group_member g u)) (dedupe_int64 us))
      (\<lambda>_. group_safe b t d0 us rs g) (\<lambda>_. True)"
    by (rule triple_dmapM, rule triple_checked)
      (simp_all add: group_safe_def safe_insert_group_member next_user_kept wild_kept dedupe_mem)
qed

lemma replace_group_roles_safe:
  "triple (group_safe b t d0 us rs g) (replace_group_roles g rs) (\<lambda>_. safe b t d0) (\<lambda>_. True)"
  unfolding replace_group_roles_def
proof (rule triple_dbind [where Q' = "\<lambda>_ d. safe b t d0 d \<and> (b \<longrightarrow> (\<forall>r\<in>set rs. \<not> wild d r))"])
  show "triple (group_safe b t d0 us rs g) (stmt (IamDb ''replace group roles delete'') (clear_group_roles g))
      (\<lambda>_ d. safe b t d0 d \<and> (b \<longrightarrow> (\<forall>r\<in>set rs. \<not> wild d r))) (\<lambda>_. True)"
    by (rule triple_stmt) (simp_all add: group_safe_def wild_kept)
  show "triple (\<lambda>d. safe b t d0 d \<and> (b \<longrightarrow> (\<forall>r\<in>set rs. \<not> wild d r)))
      (dmapM (\<lambda>r. checked ''replace group roles insert'' (insert_group_role g r)) (dedupe_int64 rs)) (\<lambda>_. safe b t d0) (\<lambda>_. True)"
    by (rule triple_dmapM, rule triple_checked) (simp_all add: safe_insert_group_role wild_kept dedupe_mem)
qed

lemma read_group_safe: "triple (safe b t d0) (get_group_by_id i) (\<lambda>_. safe b t d0) (safe b t d0)"
  by (rule triple_reads [OF iam_reads(3)])

lemma create_group_safe:
  "triple (\<lambda>d. safe b t d0 d \<and> input_safe b (gin_members inp) (gin_roles inp) d) (create_group now inp) (\<lambda>_. safe b t d0) (safe b t d0)"
  unfolding create_group_def
proof (rule triple_dbind [where Q' = "\<lambda>_. safe b t d0"])
  let ?P = "\<lambda>d. safe b t d0 d \<and> input_safe b (gin_members inp) (gin_roles inp) d"
  show "triple ?P (iam_tx (dbind (stmt (IamDb ''create group'') (insert_group_row now inp)) (\<lambda>r. case r of
          Done i \<Rightarrow> dbind (replace_group_members i (gin_members inp)) (\<lambda>_.
                    dbind (replace_group_roles i (gin_roles inp)) (\<lambda>_. dret i))
        | Duplicate \<Rightarrow> draise GroupNameTaken
        | Rejected \<Rightarrow> draise (IamDb ''create group'')))) (\<lambda>_. safe b t d0) (safe b t d0)"
  proof (rule triple_iam_tx, rule triple_dbind [where Q' = "\<lambda>_. ?P"])
    show "triple ?P (stmt (IamDb ''create group'') (insert_group_row now inp)) (\<lambda>_. ?P) (\<lambda>_. True)"
      by (rule triple_stmt) (simp_all add: safe_group_rows input_safe_def next_user_kept wild_kept)
    show "triple ?P (case r of
          Done i \<Rightarrow> dbind (replace_group_members i (gin_members inp)) (\<lambda>_.
                    dbind (replace_group_roles i (gin_roles inp)) (\<lambda>_. dret i))
        | Duplicate \<Rightarrow> draise GroupNameTaken
        | Rejected \<Rightarrow> draise (IamDb ''create group'')) (\<lambda>_. safe b t d0) (\<lambda>_. True)" for r
    proof (rule triple_written)
      fix i
      show "triple ?P (dbind (replace_group_members i (gin_members inp)) (\<lambda>_.
          dbind (replace_group_roles i (gin_roles inp)) (\<lambda>_. dret i))) (\<lambda>_. safe b t d0) (\<lambda>_. True)"
        by (rule triple_dbind [OF triple_conseq [OF replace_group_members_safe [of b t d0 _ "gin_roles inp"]]],
            simp add: group_safe_start, assumption, simp, rule triple_dbind [OF replace_group_roles_safe])
          (rule triple_dret)
    qed (simp_all add: triple_draise)
  qed simp
  show "triple (safe b t d0) (dbind (query_row (IamDb ''create group reload'') (IamDb ''create group reload'') (\<lambda>d. find_group d i)) (\<lambda>g.
     dret \<lparr>gv_row = g, gv_member_count = int (length (gin_members inp))\<rparr>)) (\<lambda>_. safe b t d0) (safe b t d0)" for i
    by (rule triple_reads) (intro reads_intros, simp_all)
qed


lemma update_group_safe:
  "triple (\<lambda>d. safe b t d0 d \<and> input_safe b (gin_members inp) (gin_roles inp) d) (update_group i inp) (\<lambda>_. safe b t d0) (safe b t d0)"
  unfolding update_group_def
proof (rule triple_dbind [where Q' = "\<lambda>_. safe b t d0"])
  let ?P = "\<lambda>d. safe b t d0 d \<and> input_safe b (gin_members inp) (gin_roles inp) d"
  let ?look = "\<lambda>n :: int. if n = 0 then dtry (get_group_by_id i) (\<lambda>e. if e = IamNotFound then draise IamNotFound else dret ()) (\<lambda>_. dret ())
      else dret ()"
  have look: "triple ?P (?look n) (\<lambda>_. ?P) (\<lambda>_. True)" for n
    by (rule triple_reads) (intro reads_if reads_simple reads_dtry iam_reads, simp_all)
  show "triple ?P (iam_tx (dbind (stmt (IamDb ''update group'') (update_group_row i inp)) (\<lambda>r. case r of
          Done n \<Rightarrow> dbind (?look n) (\<lambda>_. dbind (replace_group_members i (gin_members inp)) (\<lambda>_. replace_group_roles i (gin_roles inp)))
        | Duplicate \<Rightarrow> draise GroupNameTaken
        | Rejected \<Rightarrow> draise (IamDb ''update group'')))) (\<lambda>_. safe b t d0) (safe b t d0)"
  proof (rule triple_iam_tx, rule triple_dbind [where Q' = "\<lambda>_. ?P"])
    show "triple ?P (stmt (IamDb ''update group'') (update_group_row i inp)) (\<lambda>_. ?P) (\<lambda>_. True)"
      by (rule triple_stmt) (simp_all add: safe_group_rows input_safe_def next_user_kept wild_kept)
    have replace: "triple ?P (dbind (replace_group_members i (gin_members inp)) (\<lambda>_. replace_group_roles i (gin_roles inp)))
        (\<lambda>_. safe b t d0) (\<lambda>_. True)"
      by (rule triple_dbind [OF triple_conseq [OF replace_group_members_safe [of b t d0 _ "gin_roles inp"]]],
          simp add: group_safe_start, assumption, simp) (rule replace_group_roles_safe)
    show "triple ?P (case r of
          Done n \<Rightarrow> dbind (?look n) (\<lambda>_. dbind (replace_group_members i (gin_members inp)) (\<lambda>_. replace_group_roles i (gin_roles inp)))
        | Duplicate \<Rightarrow> draise GroupNameTaken
        | Rejected \<Rightarrow> draise (IamDb ''update group'')) (\<lambda>_. safe b t d0) (\<lambda>_. True)" for r
      by (intro triple_written triple_draise triple_dbind [OF look] replace) simp_all
  qed simp
  show "triple (safe b t d0) (dbind (get_group_by_id i) (\<lambda>v. dret (gd_view v))) (\<lambda>_. safe b t d0) (safe b t d0)" for x :: unit
    by (rule triple_reads) (intro reads_intros iam_reads, simp_all)
qed

lemma delete_group_safe: "triple (safe b t d0) (delete_group i) (\<lambda>_. safe b t d0) (safe b t d0)"
  unfolding delete_group_def
  by (rule triple_iam_tx; (intro triple_dbind [where Q' = "\<lambda>_. safe b t d0"] triple_if triple_draise triple_dret)?)
    (auto intro!: triple_stmt safe_deletes)

text \<open>Accounts.\<close>

lemma read_user_safe: "triple (safe b t d0) (get_user_by_id i) (\<lambda>_ d. safe b t d0 d \<and> i < ia_next_user d) (safe b t d0)"
proof (rule triple_clean_reads [OF iam_reads(5) iam_clean(2)])
  fix d x assume d: "safe b t d0 d" and run: "get_user_by_id i (healthy d) = (Inr x, healthy d)"
  then obtain a where "a \<in> set (ia_users d)" "au_id a = i"
    using find_Some_mem [of _ "ia_users d"] by (auto simp: get_user_by_id_def find_account_def split: option.splits)
  then show "safe b t d0 d \<and> i < ia_next_user d" using d safe_inv [OF d] by (auto simp: iam_inv_def)
qed

lemma create_user_safe: "triple (safe b t d0) (create_user pw now inp) (\<lambda>_. safe b t d0) (safe b t d0)"
  unfolding create_user_def
  by (intro triple_option triple_draise triple_dbind [where Q' = "\<lambda>_. safe b t d0"] triple_written triple_reads [OF iam_reads(5)])
    (auto intro!: triple_stmt safe_insert_user)

lemma update_user_safe: "triple (safe b t d0) (update_user i inp) (\<lambda>_. safe b t d0) (safe b t d0)"
proof -
  have "triple (safe b t d0) (stmt (IamDb ''update user'') (update_user_row i inp)) (\<lambda>_. safe b t d0) (safe b t d0)"
    by (rule triple_stmt) (auto simp: update_user_row_def intro: safe_update_account)
  then show ?thesis
    unfolding update_user_def
    by (intro triple_dbind [where Q' = "\<lambda>_. safe b t d0"] triple_if triple_draise triple_reads [OF iam_reads(5)])
qed

lemma update_password_safe:
  "triple (\<lambda>d. safe b t d0 d \<and> (b \<longrightarrow> \<not> holds t d i wildcard)) (update_password pw i w) (\<lambda>_. safe b t d0) (safe b t d0)"
proof -
  have "triple (\<lambda>d. safe b t d0 d \<and> (b \<longrightarrow> \<not> holds t d i wildcard)) (stmt (IamDb ''update password'') (update_password_row i h))
      (\<lambda>_. safe b t d0) (safe b t d0)" for h
    by (rule triple_stmt) (auto simp: update_password_row_def Let_def intro: safe_update_account)
  then show ?thesis
    unfolding update_password_def
    by (intro triple_option triple_draise triple_dbind [where Q' = "\<lambda>_. safe b t d0"] triple_if triple_dret) auto
qed

lemma delete_user_safe: "triple (safe b t d0) (delete_user i) (\<lambda>_. safe b t d0) (safe b t d0)"
  unfolding delete_user_def
  by (rule triple_dbind [where Q' = "\<lambda>_. safe b t d0"]) (auto intro!: triple_stmt triple_if triple_draise triple_dret safe_delete_user)


subsection \<open>The handlers\<close>

lemma validate_role_input_ok:
  "validate_role_input catalog inp rc = (inp', m) \<Longrightarrow> m = None \<Longrightarrow> wf_catalog catalog \<Longrightarrow> wildcard \<notin> set (rin_permissions inp')"
  using catalog.no_wildcard [of catalog]
  by (auto simp: validate_role_input_def Let_def find_None_iff split: if_splits option.splits)

lemma reads_safe: "reads m \<Longrightarrow> triple (safe b t d0) m (\<lambda>_. safe b t d0) (safe b t d0)"
  by (rule triple_reads)

lemma createRole_safe:
  assumes "wf_catalog catalog"
  shows "htriple (safe b t d0) (createRole_h catalog ck body) (safe b t d0)"
  unfolding createRole_h_def [abs_def]
  by (rule htriple_intros | rule htriple_call [OF create_role_safe], erule (1) validate_role_input_ok [OF _ _ assms]
      | rule htriple_quiet, fastforce split: iam_error.split, assumption)+

lemma updateRole_safe:
  assumes "wf_catalog catalog"
  shows "htriple (safe b t d0) (updateRole_h catalog ck path_id body) (safe b t d0)"
  unfolding updateRole_h_def [abs_def]
  by (rule htriple_intros | rule htriple_call [OF read_role_safe] | rule htriple_call [OF update_role_safe], erule (1) validate_role_input_ok [OF _ _ assms]
      | rule htriple_quiet, fastforce split: iam_error.split, assumption)+

lemma deleteRole_safe: "htriple (safe b t d0) (deleteRole_h ck path_id) (safe b t d0)"
  unfolding deleteRole_h_def [abs_def]
  by (rule htriple_intros | rule htriple_call [OF read_role_safe] | rule htriple_call [OF reads_safe [OF iam_reads(6)]] | rule htriple_call [OF delete_role_safe]
      | rule htriple_quiet, fastforce split: iam_error.split, assumption)+

text \<open>What the group input check guarantees of the tables it read.\<close>

lemma refused_role_None:
  "refused_role roles sub is = None \<Longrightarrow> \<not> has_perm sub wildcard \<Longrightarrow> i \<in> set is \<Longrightarrow>
   \<exists>r. role_with roles i = Some r \<and> rl_code r \<noteq> ''admin''"
  by (induction roles sub "is" rule: refused_role.induct) (auto split: option.splits if_splits)

lemma all_users_exist:
  assumes "users_exist us (healthy d) = (Inr True, healthy d)" and "distinct (map au_id (ia_users d))"
  shows "set us \<subseteq> au_id ` set (ia_users d)"
proof -
  let ?ids = "dedupe_int64 us"
  have ids: "set ?ids = set us" "distinct ?ids"
    using dedupe_mem [of _ us] first_wins_distinct [of "\<lambda>i. i" "\<lambda>_. True" "[]" us] by (auto simp: dedupe_int64_def)
  have n: "length (filter (\<lambda>a. au_id a \<in> set us) (ia_users d)) = card (set us)"
    using assms(1) ids distinct_card [OF ids(2)] by (auto simp: users_exist_def Let_def split: if_splits)
  have "distinct (map au_id (filter (\<lambda>a. au_id a \<in> set us) (ia_users d)))" by (rule distinct_map_filter [OF assms(2)])
  then have "card (au_id ` set (filter (\<lambda>a. au_id a \<in> set us) (ia_users d))) = card (set us)"
    using n distinct_card by fastforce
  moreover have "au_id ` set (filter (\<lambda>a. au_id a \<in> set us) (ia_users d)) \<subseteq> set us" by auto
  ultimately have "au_id ` set (filter (\<lambda>a. au_id a \<in> set us) (ia_users d)) = set us"
    by (simp add: card_subset_eq)
  then show ?thesis by auto
qed

lemma validate_group_input_safe:
  assumes "validate_group_input ck sub inp c = ((inp', e), c')" and "safe b t d0 (tables c)"
    and "b \<Longrightarrow> \<not> has_perm sub wildcard"
  shows "tables c' = tables c \<and> (e = None \<longrightarrow> input_safe b (gin_members inp') (gin_roles inp') (tables c))"
proof -
  have inv: "iam_inv (tables c)" using safe_inv [OF assms(2)] .
  have members: "tables c1 = tables c \<and> (\<forall>u\<in>set us. u < ia_next_user (tables c))"
    if "users_exist us c = (Inr True, c1)" for us c1
  proof -
    have "tables c1 = tables c" using readsD [OF iam_reads(7), of us c] that by simp
    moreover have "set us \<subseteq> au_id ` set (ia_users (tables c))"
      using all_users_exist [of us "tables c"] cleanD [OF iam_clean(3) that] inv calculation by (simp add: iam_inv_def)
    ultimately show ?thesis using inv by (auto simp: iam_inv_def)
  qed
  have roles: "tables c2 = tables c1 \<and> rs = all_roles ck (tables c1)" if "load_all_roles ck c1 = (Inr rs, c2)" for c1 c2 rs
    using cleanD [OF iam_clean(1) that] readsD [OF iam_reads(1), of ck c1] that by (auto simp: load_all_roles_def)
  have other: "tables c1 = tables c" if "users_exist us c = (r, c1)" for us r c1
    using readsD [OF iam_reads(7), of us c] that by simp
  have other': "tables c2 = tables c1" if "load_all_roles ck c1 = (r, c2)" for c1 r c2
    using readsD [OF iam_reads(1), of ck c1] that by simp
  have tame: "\<not> wild d i" if ref: "refused_role (all_roles ck d) sub is = None" "i \<in> set is" b and d: "iam_inv d" for d i "is"
  proof
    assume w: "wild d i"
    obtain r where r: "role_with (all_roles ck d) i = Some r" "rl_code r \<noteq> ''admin''"
      using refused_role_None [OF ref(1) assms(3) [OF ref(3)] ref(2)] by blast
    obtain x where x: "x \<in> set (ia_roles d)" "ro_id x = i" "ro_code x = rl_code r" using role_with_Some(3) [OF r(1)] by blast
    obtain y where y: "y \<in> set (ia_roles d)" "ro_id y = i" "ro_code y = ''admin''"
      using w d unfolding iam_inv_def wild_def by blast
    have "x = y" using x(1,2) y(1,2) d unfolding iam_inv_def by (metis distinct_map inj_onD)
    then show False using x(3) y(3) r(2) by simp
  qed
  have t: "tables c' = tables c"
    using assms(1)
    by (auto simp: validate_group_input_def Let_def split: if_splits prod.splits sum.splits bool.splits dest!: other other')
  have "input_safe b (gin_members inp') (gin_roles inp') (tables c)" if None: "e = None"
  proof -
    obtain c1 where c1: "users_exist (gin_members inp') c = (Inr True, c1)"
      and rs: "gin_roles inp' = [] \<or> (\<exists>rs c2. load_all_roles ck c1 = (Inr rs, c2) \<and> refused_role rs sub (gin_roles inp') = None)"
      using assms(1) None by (auto simp: validate_group_input_def Let_def split: if_splits prod.splits sum.splits bool.splits)
    have "\<not> wild (tables c) r" if "r \<in> set (gin_roles inp')" b for r
    proof -
      obtain rs c2 where l: "load_all_roles ck c1 = (Inr rs, c2)" "refused_role rs sub (gin_roles inp') = None"
        using rs \<open>r \<in> set (gin_roles inp')\<close> by auto
      have "rs = all_roles ck (tables c)" using roles [OF l(1)] members [OF c1] by simp
      then show ?thesis using tame [of "tables c" "gin_roles inp'" r] l(2) \<open>r \<in> set (gin_roles inp')\<close> \<open>b\<close> inv by simp
    qed
    then show ?thesis using members [OF c1] by (simp add: input_safe_def)
  qed
  then show ?thesis using t by blast
qed


lemma htriple_validate:
  assumes "b \<Longrightarrow> \<not> has_perm sub wildcard"
    and "\<And>inp' m. htriple (safe b t d0) (f (inp', Some m)) R"
    and "\<And>inp'. htriple (\<lambda>d. safe b t d0 d \<and> input_safe b (gin_members inp') (gin_roles inp') d) (f (inp', None)) R"
  shows "htriple (safe b t d0) (\<lambda>c. case validate_group_input ck sub inp c of (p, c') \<Rightarrow> f p c') R"
  unfolding htriple_def
proof (intro allI impI)
  fix c :: "iam_db conn" assume s: "safe b t d0 (tables c)"
  obtain inp' e c' where v: "validate_group_input ck sub inp c = ((inp', e), c')" by (metis surj_pair)
  note ok = validate_group_input_safe [OF v s assms(1)]
  show "R (tables (snd (case validate_group_input ck sub inp c of (p, c') \<Rightarrow> f p c')))"
  proof (cases e)
    case None
    then show ?thesis using v ok s htripleD [OF assms(3) [of inp'], of c'] by simp
  next
    case (Some m)
    then show ?thesis using v ok s htripleD [OF assms(2) [of inp' m], of c'] by simp
  qed
qed

lemma createGroup_safe:
  assumes "b \<Longrightarrow> \<not> has_perm sub wildcard"
  shows "htriple (safe b t d0) (createGroup_h ck now sub body) (safe b t d0)"
  unfolding createGroup_h_def [abs_def]
  apply (rule htriple_option)
   apply (rule htriple_quiet, fastforce, assumption)
  apply (rule htriple_validate [OF assms], assumption)
  subgoal by (rule htriple_quiet) (auto split: prod.split)
  subgoal for inp inp'
    by (simp, rule htriple_last [OF create_group_safe]) (auto split: iam_error.split sum.split)
  done

lemma updateGroup_safe:
  assumes "b \<Longrightarrow> \<not> has_perm sub wildcard"
  shows "htriple (safe b t d0) (updateGroup_h ck sub path_id body) (safe b t d0)"
  unfolding updateGroup_h_def [abs_def]
  apply (rule htriple_option)
   apply (rule htriple_quiet, fastforce, assumption)
  apply (rule htriple_option)
   apply (rule htriple_quiet, fastforce, assumption)
  apply (rule htriple_validate [OF assms], assumption)
  subgoal by (rule htriple_quiet) (auto split: prod.split)
  subgoal for i inp inp'
    by (simp, rule htriple_last [OF update_group_safe]) (auto split: iam_error.split sum.split)
  done

lemma deleteGroup_safe: "htriple (safe b t d0) (deleteGroup_h path_id) (safe b t d0)"
  unfolding deleteGroup_h_def [abs_def]
  by (rule htriple_intros | rule htriple_call [OF read_group_safe] | rule htriple_call [OF delete_group_safe]
      | rule htriple_quiet, fastforce split: iam_error.split, assumption)+

lemma createUser_safe: "htriple (safe b t d0) (createUser_h pw now body) (safe b t d0)"
  unfolding createUser_h_def [abs_def] Let_def
  by (rule htriple_intros | rule htriple_call [OF create_user_safe]
      | rule htriple_quiet, fastforce split: iam_error.split, assumption)+

lemma updateUser_safe: "htriple (safe b t d0) (updateUser_h path_id body) (safe b t d0)"
  unfolding updateUser_h_def [abs_def] Let_def
  by (rule htriple_intros | rule htriple_call [OF update_user_safe]
      | rule htriple_quiet, fastforce split: iam_error.split, assumption)+

text \<open>What the check of a user's effective permissions tells about later instants.\<close>

lemma read_effective_safe:
  "triple (safe b t d0) (effective_permissions ck clk i) (\<lambda>eff d. safe b t d0 d \<and> eff = eff_of ck clk d i) (safe b t d0)"
  by (rule triple_clean_reads [OF effective_reads effective_clean]) (simp_all add: effective_healthy)

lemma holds_antimono: "t' \<le> t \<Longrightarrow> holds t d u p \<Longrightarrow> holds t' d u p"
  unfolding holds_def holds_role_def using grant_alive_antimono by blast

lemma changePassword_safe:
  assumes "b \<Longrightarrow> \<not> has_perm sub wildcard" and "clock_ok clk" and "gc_merge clk \<le> t"
  shows "htriple (safe b t d0) (changePassword_h pw ck clk sub path_id body) (safe b t d0)"
proof -
  have guard: "htriple (\<lambda>d. safe b t d0 d \<and> eff = eff_of ck clk d i)
      (\<lambda>c1. if wildcard \<in> ef_permissions eff \<and> \<not> has_perm sub wildcard
           then (RespError 403 m, c1)
           else (case update_password pw i w c1 of
               (Inl UserNotFound, c') \<Rightarrow> (RespError 404 ''user not found'', c')
             | (Inl _, c') \<Rightarrow> (RespError 500 ''could not update password'', c')
             | (Inr _, c') \<Rightarrow> (RespJSON 204 (), c'))) (safe b t d0)" for eff i w m
  proof (rule htriple_if)
    assume "\<not> (wildcard \<in> ef_permissions eff \<and> \<not> has_perm sub wildcard)"
    then show "htriple (\<lambda>d. safe b t d0 d \<and> eff = eff_of ck clk d i) (\<lambda>c1. case update_password pw i w c1 of
               (Inl UserNotFound, c') \<Rightarrow> (RespError 404 ''user not found'', c')
             | (Inl _, c') \<Rightarrow> (RespError 500 ''could not update password'', c')
             | (Inr _, c') \<Rightarrow> (RespJSON 204 (), c')) (safe b t d0)"
      using assms(1) eff_of_wildcard [OF assms(2), of ck _ i] holds_antimono [OF assms(3), of _ i wildcard]
      by (intro htriple_conseq [OF htriple_last [OF update_password_safe]]) (auto split: iam_error.split sum.split)
  qed (rule htriple_quiet, simp_all)
  show ?thesis
    unfolding changePassword_h_def [abs_def]
    by (rule guard | rule htriple_intros | rule htriple_call [OF read_effective_safe]
        | rule htriple_quiet, fastforce split: iam_error.split, assumption)+
qed


lemma deleteUser_safe: "htriple (safe b t d0) (deleteUser_h ck clk sub path_id) (safe b t d0)"
proof -
  have grants: "htriple (safe b t d0) (\<lambda>c. (r, snd (delete_user_grants i c))) (safe b t d0)" for r :: "unit response" and i
    using delete_user_grants_safe [of b t d0 i]
    by (auto simp: htriple_def triple_def split: prod.splits sum.splits) (metis sum.exhaust prod.exhaust_sel)+
  show ?thesis
    unfolding deleteUser_h_def [abs_def]
    by (rule grants | rule htriple_intros | rule htriple_call [OF reads_safe [OF effective_reads]] | rule htriple_call [OF reads_safe [OF iam_reads(5)]]
        | rule htriple_call [OF delete_user_safe] | rule htriple_quiet, fastforce split: iam_error.split, assumption)+
qed

lemma respond_grants_quiet: "tables (snd (respond_grants ck i c)) = tables c"
  using readsD [OF iam_reads(4), of ck i c] by (auto simp: respond_grants_def split: prod.splits sum.splits)

lemma refused_code_None:
  "refused_code roles sub gs = None \<Longrightarrow> \<not> has_perm sub wildcard \<Longrightarrow> g \<in> set gs \<Longrightarrow> rgi_code g \<noteq> ''admin''"
  by (induction roles sub gs rule: refused_code.induct) (auto split: option.splits if_splits dest: find_Some_mem)

lemma putRoles_safe:
  assumes "b \<Longrightarrow> \<not> has_perm sub wildcard"
  shows "htriple (safe b t d0) (putRoles_h ck sub path_id body) (safe b t d0)"
proof -
  have store: "htriple (\<lambda>d. safe b t d0 d \<and> i < ia_next_user d) (\<lambda>c. case replace_user_roles i gs (sj_id sub) c of
      (Inl _, c') \<Rightarrow> (RespError 500 ''could not update roles'', c') | (Inr _, c3) \<Rightarrow> respond_grants ck i c3) (safe b t d0)"
    if "refused_code roles sub gs = None" for roles gs i
    by (rule htriple_last, rule replace_user_roles_safe, rule refused_code_None [OF that])
      (use assms in \<open>auto simp: respond_grants_quiet split: sum.split\<close>)
  have keep: "triple (\<lambda>d. safe b t d0 d \<and> i < ia_next_user d) (load_all_roles ck) (\<lambda>_ d. safe b t d0 d \<and> i < ia_next_user d) (safe b t d0)" for i
    by (rule triple_reads [OF iam_reads(1)]) simp_all
  show ?thesis
    unfolding putRoles_h_def [abs_def]
    by (rule store, assumption | rule htriple_intros | rule htriple_call [OF read_user_safe] | rule htriple_call [OF keep]
        | rule htriple_quiet, fastforce split: iam_error.split, (erule conjunct1 | assumption))+
qed

lemma putPermissions_safe:
  assumes "wf_catalog catalog"
  shows "htriple (safe b t d0) (putPermissions_h catalog ck sub path_id body) (safe b t d0)"
proof -
  have store: "htriple (safe b t d0) (\<lambda>c. case replace_user_permissions i gs (sj_id sub) c of
      (Inl _, c') \<Rightarrow> (RespError 500 ''could not update permissions'', c') | (Inr _, c2) \<Rightarrow> respond_grants ck i c2) (safe b t d0)"
    if "List.find (\<lambda>g. \<not> permission_exists catalog (pg_permission g)) gs = None" for gs i
    by (rule htriple_last, rule replace_user_permissions_safe)
      (use that catalog.no_wildcard [OF assms] in \<open>auto simp: find_None_iff respond_grants_quiet split: sum.split\<close>)
  show ?thesis
    unfolding putPermissions_h_def [abs_def]
    by (rule store, assumption | rule htriple_intros | rule htriple_call [OF reads_safe [OF iam_reads(5)]]
        | rule htriple_quiet, fastforce split: iam_error.split, assumption)+
qed

subsection \<open>Any request of the access handlers\<close>

datatype access_request =
  CreateRole "role_input option" | UpdateRole string "role_input option" | DeleteRole string
| CreateGroup int "group_input option" | UpdateGroup string "group_input option" | DeleteGroup string
| CreateUser int "create_user_input option" | UpdateUser string "update_user_input option"
| ChangePassword string "string option" | DeleteUser string
| PutRoles string "role_grant_input list option" | PutPermissions string "perm_grant list option"

definition answer :: "'b response \<times> iam_db conn \<Rightarrow> int \<times> iam_db conn" where
  "answer p = (resp_status (fst p), snd p)"

text \<open>The status and the tables after a request of a subject; \<open>clk\<close> are the clocks of its permission checks.\<close>

definition serve_access ::
  "permission list \<Rightarrow> password_lib \<Rightarrow> (string \<Rightarrow> 'k::linorder) \<Rightarrow> grant_clock \<Rightarrow> subject \<Rightarrow> access_request \<Rightarrow> iam_db conn \<Rightarrow> int \<times> iam_db conn" where
  "serve_access catalog pw ck clk sub rq c = (case rq of
     CreateRole inp \<Rightarrow> answer (createRole_h catalog ck inp c)
   | UpdateRole i inp \<Rightarrow> answer (updateRole_h catalog ck i inp c)
   | DeleteRole i \<Rightarrow> answer (deleteRole_h ck i c)
   | CreateGroup now inp \<Rightarrow> answer (createGroup_h ck now sub inp c)
   | UpdateGroup i inp \<Rightarrow> answer (updateGroup_h ck sub i inp c)
   | DeleteGroup i \<Rightarrow> answer (deleteGroup_h i c)
   | CreateUser now inp \<Rightarrow> answer (createUser_h pw now inp c)
   | UpdateUser i inp \<Rightarrow> answer (updateUser_h i inp c)
   | ChangePassword i w \<Rightarrow> answer (changePassword_h pw ck clk sub i w c)
   | DeleteUser i \<Rightarrow> answer (deleteUser_h ck clk sub i c)
   | PutRoles i gs \<Rightarrow> answer (putRoles_h ck sub i gs c)
   | PutPermissions i gs \<Rightarrow> answer (putPermissions_h catalog ck sub i gs c))"

lemma serve_access_safe:
  assumes "wf_catalog catalog" and "clock_ok clk" and "gc_merge clk \<le> t"
    and "b \<Longrightarrow> \<not> has_perm sub wildcard" and "safe b t d0 (tables c)"
  shows "safe b t d0 (tables (snd (serve_access catalog pw ck clk sub rq c)))"
  using assms(5) createRole_safe [OF assms(1), THEN htripleD] updateRole_safe [OF assms(1), THEN htripleD]
    deleteRole_safe [THEN htripleD] createGroup_safe [OF assms(4), THEN htripleD] updateGroup_safe [OF assms(4), THEN htripleD]
    deleteGroup_safe [THEN htripleD] createUser_safe [THEN htripleD] updateUser_safe [THEN htripleD]
    changePassword_safe [OF assms(4,2,3), THEN htripleD] deleteUser_safe [THEN htripleD]
    putRoles_safe [OF assms(4), THEN htripleD] putPermissions_safe [OF assms(1), THEN htripleD]
  by (cases rq) (simp_all add: serve_access_def answer_def)


subsection \<open>Start-up and the WeChat binding\<close>

definition code_known :: "string \<Rightarrow> int \<Rightarrow> iam_db \<Rightarrow> bool" where
  "code_known code i d \<longleftrightarrow> (\<exists>r\<in>set (ia_roles d). ro_id r = i \<and> ro_code r = code)"

lemma inv_insert_role_perm:
  assumes "iam_inv d" and "p = wildcard \<Longrightarrow> code_known ''admin'' i d"
  shows "iam_inv (snd (insert_role_perm i p d))"
  using assms unfolding iam_inv_def insert_role_perm_def code_known_def by auto

lemma code_known_kept: "code_known code i (snd (insert_role_perm j p d)) = code_known code i d"
  by (simp add: code_known_def insert_role_perm_def)

lemma inv_only: "safe False t d0 d = iam_inv d"
  by (simp add: safe_def)

lemma seed_role_keeps:
  assumes "wildcard \<in> set ps \<Longrightarrow> code = ''admin''"
  shows "triple iam_inv (seed_role (code, name, desc, ps)) (\<lambda>_. iam_inv) iam_inv"
proof -
  let ?K = "\<lambda>i d. iam_inv d \<and> code_known code i d"
  have ins: "iam_inv (snd (insert_role_row code name desc True d))" if "iam_inv d" for d
    using safe_insert_role [of False] that unfolding inv_only by blast
  have perms: "triple (?K i) (dmapM (ensure_role_perm i) ps) (\<lambda>_. iam_inv) iam_inv" for i
  proof (rule triple_dmapM)
    fix p assume p: "p \<in> set ps"
    show "triple (?K i) (ensure_role_perm i p) (\<lambda>_. ?K i) iam_inv"
      unfolding ensure_role_perm_def
      by (rule triple_stmt)
        (use p assms in \<open>auto intro!: inv_insert_role_perm simp: code_known_kept\<close>)
  qed simp
  show ?thesis
    unfolding seed_role_def prod.case
  proof (rule triple_dbind [where Q' = "\<lambda>r d. iam_inv d \<and> (\<forall>i. r = Done i \<longrightarrow> code_known code i d)"])
    show "triple iam_inv (stmt (IamDb ''seed role'') (insert_role_row code name desc True))
        (\<lambda>r d. iam_inv d \<and> (\<forall>i. r = Done i \<longrightarrow> code_known code i d)) iam_inv"
      by (rule triple_stmt) (use ins in \<open>auto simp: insert_role_row_def code_known_def\<close>)
    fix r :: "int written"
    have "triple (\<lambda>d. iam_inv d \<and> (\<forall>i. r = Done i \<longrightarrow> code_known code i d)) (case r of Done i \<Rightarrow> dret i
            | Duplicate \<Rightarrow> query_row (IamDb ''seed role lookup'') (IamDb ''seed role lookup'') (\<lambda>d. map_option ro_id (find_role_code d code))
            | Rejected \<Rightarrow> draise (IamDb ''seed role'')) ?K iam_inv"
      by (intro triple_written triple_dret triple_draise triple_query_row)
        (auto simp: find_role_code_def code_known_def dest!: find_Some_mem)
    then show "triple (\<lambda>d. iam_inv d \<and> (\<forall>i. r = Done i \<longrightarrow> code_known code i d)) (dbind (case r of Done i \<Rightarrow> dret i
            | Duplicate \<Rightarrow> query_row (IamDb ''seed role lookup'') (IamDb ''seed role lookup'') (\<lambda>d. map_option ro_id (find_role_code d code))
            | Rejected \<Rightarrow> draise (IamDb ''seed role'')) (\<lambda>i. dmapM (ensure_role_perm i) ps)) (\<lambda>_. iam_inv) iam_inv"
      by (rule triple_dbind) (rule perms)
  qed
qed

lemma startup_keeps: "triple iam_inv (dbind (seed_admin pw now env) (\<lambda>_. iam_startup)) (\<lambda>_. iam_inv) iam_inv"
proof (rule triple_dbind [where Q' = "\<lambda>_. iam_inv"])
  have user: "iam_inv (snd (insert_user_row now inp hash d))" if "iam_inv d" for inp hash d
    using safe_insert_user [of False] that unfolding inv_only by blast
  show "triple iam_inv (seed_admin pw now env) (\<lambda>_. iam_inv) iam_inv"
    unfolding seed_admin_def
    by (rule triple_dbind [where Q' = "\<lambda>_. iam_inv"], rule triple_query, assumption, assumption,
        intro triple_if triple_dret triple_option triple_draise triple_dbind [where Q' = "\<lambda>_. iam_inv"] triple_written)
      (auto intro: triple_stmt user)
  have boot: "iam_inv (snd (bootstrap_grant d))" if "iam_inv d" for d
    using that unfolding iam_inv_def bootstrap_grant_def by auto
  show "triple iam_inv iam_startup (\<lambda>_. iam_inv) iam_inv"
    unfolding iam_startup_def
  proof (rule triple_dbind [where Q' = "\<lambda>_. iam_inv"])
    show "triple iam_inv seed_system_roles (\<lambda>_. iam_inv) iam_inv"
      unfolding seed_system_roles_def
      by (rule triple_dmapM) (auto simp: system_roles_def wildcard_def intro!: seed_role_keeps)
    show "triple iam_inv ensure_bootstrap_admin (\<lambda>_. iam_inv) iam_inv"
      unfolding ensure_bootstrap_admin_def by (rule triple_stmt) (simp_all add: boot)
  qed
qed

lemma inv_map_users:
  assumes "iam_inv d" and "\<And>a. au_id (f a) = au_id a \<and> au_username (f a) = au_username a"
  shows "iam_inv (d\<lparr>ia_users := map f (ia_users d)\<rparr>)"
proof -
  have "map au_id (map f (ia_users d)) = map au_id (ia_users d)" "map au_username (map f (ia_users d)) = map au_username (ia_users d)"
    by (simp_all add: assms(2))
  then show ?thesis using assms unfolding iam_inv_def by (auto simp del: map_map)
qed

lemma wxBind_keeps: "htriple iam_inv (wxBind_h pw jt openid_of ck now clk body) iam_inv"
proof -
  have bind: "triple iam_inv (bind_openid i o') (\<lambda>_. iam_inv) iam_inv" for i o'
    unfolding bind_openid_def
    by (rule triple_dbind [where Q' = "\<lambda>_. iam_inv"], rule triple_stmt,
        simp_all add: bind_openid_row_def Let_def inv_map_users, intro triple_written triple_draise triple_if triple_dret)
  have quiet: "tables (snd (sign_in jt ck now clk u c)) = tables c" for u c
    using readsD [OF iam_reads(15), of ck clk u c] by (auto simp: sign_in_def split: option.splits prod.splits sum.splits)
  have auth: "triple iam_inv (authenticate pw n w) (\<lambda>_. iam_inv) iam_inv" for n w
    by (rule triple_reads [OF iam_reads(16)])
  show ?thesis
    unfolding wxBind_h_def [abs_def] Let_def
    by (rule htriple_intros | rule htriple_call [OF auth] | rule htriple_call [OF bind]
        | rule htriple_quiet, fastforce simp: quiet split: iam_error.split, assumption)+
qed

lemma wxUnbind_keeps: "htriple iam_inv (wxUnbind_h name) iam_inv"
proof -
  have unbind: "triple iam_inv (unbind_openid n) (\<lambda>_. iam_inv) iam_inv" for n
    unfolding unbind_openid_def by (rule triple_stmt) (simp_all add: unbind_openid_row_def inv_map_users)
  have user: "triple iam_inv (by_username n) (\<lambda>_. iam_inv) iam_inv" for n
    by (rule triple_reads [OF iam_reads(13)])
  show ?thesis
    unfolding wxUnbind_h_def [abs_def]
    by (rule htriple_intros | rule htriple_call [OF user] | rule htriple_call [OF unbind]
        | rule htriple_quiet, fastforce split: iam_error.split, assumption)+
qed


text \<open>The tables that any sequence of starts, requests and bindings can leave, statements failing anywhere.\<close>

definition iam_empty :: iam_db where
  "iam_empty = \<lparr>ia_users = [], ia_roles = [], ia_role_perms = [], ia_user_roles = [], ia_user_perms = [], ia_groups = [],
     ia_members = [], ia_group_roles = [], ia_next_user = 1, ia_next_role = 1, ia_next_group = 1\<rparr>"

definition start_up :: "password_lib \<Rightarrow> int \<Rightarrow> string \<Rightarrow> unit iam_action" where
  "start_up pw now env = dbind (seed_admin pw now env) (\<lambda>_. iam_startup)"

inductive access_reach :: "permission list \<Rightarrow> password_lib \<Rightarrow> (string \<Rightarrow> 'k::linorder) \<Rightarrow> iam_db \<Rightarrow> bool"
  for catalog :: "permission list" and pw :: password_lib and ck :: "string \<Rightarrow> 'k" where
  empty: "access_reach catalog pw ck iam_empty"
| start: "access_reach catalog pw ck (tables c) \<Longrightarrow> access_reach catalog pw ck (tables (snd (start_up pw now env c)))"
| request: "access_reach catalog pw ck (tables c) \<Longrightarrow> clock_ok clk \<Longrightarrow>
    access_reach catalog pw ck (tables (snd (serve_access catalog pw ck clk sub rq c)))"
| bind: "access_reach catalog pw ck (tables c) \<Longrightarrow>
    access_reach catalog pw ck (tables (snd (wxBind_h pw jt openid_of ck now clk body c)))"
| unbind: "access_reach catalog pw ck (tables c) \<Longrightarrow> access_reach catalog pw ck (tables (snd (wxUnbind_h name c)))"

lemma access_reach_inv:
  assumes "access_reach catalog pw ck d" and "wf_catalog catalog"
  shows "iam_inv d"
  using assms(1)
proof (induction rule: access_reach.induct)
  case empty
  show ?case by (simp add: iam_inv_def iam_empty_def)
next
  case (start c now env)
  obtain r c' where m: "start_up pw now env c = (r, c')" by fastforce
  then show ?case using tripleD [OF startup_keeps start.IH] unfolding start_up_def by (cases r) auto
next
  case (request c clk sub rq)
  then show ?case
    using serve_access_safe [OF assms(2) request.hyps(2) order.refl, of False sub undefined c pw ck rq] by (simp add: inv_only)
next
  case (bind c jt openid_of now clk body)
  then show ?case using htripleD [OF wxBind_keeps] by blast
next
  case (unbind c name)
  then show ?case using htripleD [OF wxUnbind_keeps] by blast
qed

subsection \<open>Stripping and restoring the account named admin\<close>

lemma find_account_unique:
  assumes "distinct (map au_id (ia_users d))" and "a \<in> set (ia_users d)"
  shows "find_account d (au_id a) = Some a"
  unfolding find_account_def using find_unique [OF assms(2,1)] by simp

text \<open>The system roles are seeded without touching accounts, grants or groups.\<close>

definition seeded_like :: "iam_db \<Rightarrow> iam_db \<Rightarrow> bool" where
  "seeded_like d d' \<longleftrightarrow> ia_users d' = ia_users d \<and> ia_user_roles d' = ia_user_roles d \<and> set (ia_roles d) \<subseteq> set (ia_roles d')
     \<and> set (ia_role_perms d) \<subseteq> set (ia_role_perms d')"

lemma ensure_perms_healthy:
  "dmapM (ensure_role_perm i) ps (healthy d) = (Inr (), healthy (fold (\<lambda>p d. snd (insert_role_perm i p d)) ps d))"
  by (rule dmapM_healthy) (simp add: ensure_role_perm_def)

lemma ensure_perms_like:
  "seeded_like d (fold (\<lambda>p d. snd (insert_role_perm i p d)) ps d) \<and>
   (\<forall>p\<in>set ps. pg_text 64 p \<longrightarrow> (i, p) \<in> set (ia_role_perms (fold (\<lambda>p d. snd (insert_role_perm i p d)) ps d)))"
proof (induction ps arbitrary: d)
  case Nil
  show ?case by (simp add: seeded_like_def)
next
  case (Cons q ps)
  let ?d = "snd (insert_role_perm i q d)"
  have "seeded_like d ?d" "pg_text 64 q \<longrightarrow> (i, q) \<in> set (ia_role_perms ?d)"
    by (auto simp: seeded_like_def insert_role_perm_def)
  then show ?case using Cons.IH [of ?d] by (auto simp: seeded_like_def)
qed

lemma seed_role_healthy:
  assumes "pg_text 64 code" and "pg_text 64 name" and "pg_text 255 desc" and "\<forall>p\<in>set ps. pg_text 64 p"
  shows "\<exists>d'. seed_role (code, name, desc, ps) (healthy d) = (Inr (), healthy d') \<and> seeded_like d d' \<and>
    (\<exists>r\<in>set (ia_roles d'). ro_code r = code \<and> (\<forall>p\<in>set ps. (ro_id r, p) \<in> set (ia_role_perms d')))"
proof (cases "find_role_code d code")
  case None
  let ?r = "\<lparr>ro_id = ia_next_role d, ro_code = code, ro_name = name, ro_description = desc, ro_is_system = True\<rparr>"
  let ?d = "d\<lparr>ia_roles := ia_roles d @ [?r], ia_next_role := ia_next_role d + 1\<rparr>"
  let ?e = "fold (\<lambda>p x. snd (insert_role_perm (ia_next_role d) p x)) ps ?d"
  have "seed_role (code, name, desc, ps) (healthy d) = (Inr (), healthy ?e)"
    using assms None by (simp add: seed_role_def insert_role_row_def ensure_perms_healthy)
  then show ?thesis
    using ensure_perms_like [of ?d "ia_next_role d" ps] assms(4) unfolding seeded_like_def
    by - (rule exI [of _ ?e], auto intro!: bexI [of _ ?r])
next
  case (Some r)
  then have r: "r \<in> set (ia_roles d)" "ro_code r = code" by (auto simp: find_role_code_def dest: find_Some_mem)
  let ?e = "fold (\<lambda>p d. snd (insert_role_perm (ro_id r) p d)) ps d"
  have "seed_role (code, name, desc, ps) (healthy d) = (Inr (), healthy ?e)"
    using assms Some by (simp add: seed_role_def insert_role_row_def ensure_perms_healthy)
  then show ?thesis
    using ensure_perms_like [of d "ro_id r" ps] assms(4) r unfolding seeded_like_def
    by - (rule exI [of _ ?e], auto intro!: bexI [of _ r])
qed


lemma seeded_like_trans: "seeded_like a b \<Longrightarrow> seeded_like b c \<Longrightarrow> seeded_like a c"
  unfolding seeded_like_def by auto

text \<open>The literals fit their columns.\<close>

fun hex_bytes :: "string \<Rightarrow> bool" where
  "hex_bytes (a # b # s) \<longleftrightarrow> 0 < 16 * hex_val a + hex_val b \<and> 16 * hex_val a + hex_val b < 256 \<and> hex_bytes s"
| "hex_bytes _ \<longleftrightarrow> True"

lemma hx_nonzero: "hex_bytes s \<Longrightarrow> CHR 0x00 \<notin> set (hx s) \<and> 2 * length (hx s) \<le> length s"
proof (induction s rule: hex_bytes.induct)
  case (1 a b s)
  have "byte (16 * hex_val a + hex_val b) \<noteq> CHR 0x00"
  proof
    assume "byte (16 * hex_val a + hex_val b) = CHR 0x00"
    then have "of_char (byte (16 * hex_val a + hex_val b)) = (of_char (CHR 0x00) :: nat)" by simp
    then show False using 1(2) by (simp add: of_char_byte)
  qed
  then show ?case using 1 by auto
qed simp_all

lemma pg_text_hx: "hex_bytes s \<Longrightarrow> length s \<le> 2 * n \<Longrightarrow> pg_text n (hx s)"
  using hx_nonzero [of s] rune_count_le_length [of "hx s"] by (simp add: pg_text_def)

lemma seed_system_roles_healthy:
  "\<exists>d'. seed_system_roles (healthy d) = (Inr (), healthy d') \<and> seeded_like d d' \<and>
    (\<exists>r\<in>set (ia_roles d'). ro_code r = ''admin'' \<and> (ro_id r, wildcard) \<in> set (ia_role_perms d'))"
proof -
  have texts: "list_all (\<lambda>(c, n, s, ps). pg_text 64 c \<and> pg_text 64 n \<and> pg_text 255 s \<and> list_all (pg_text 64) ps) system_roles"
    unfolding system_roles_def
    by (simp add: pg_text_hx hex_val_def is_digit_def del: hx.simps, simp add: pg_text_def rune_count_ascii wildcard_def)
  obtain n1 s1 c2 n2 s2 p2 c3 n3 s3 p3
    where roles: "system_roles = [(''admin'', n1, s1, [wildcard]), (c2, n2, s2, p2), (c3, n3, s3, p3)]"
    unfolding system_roles_def by blast
  have ok1: "pg_text 64 ''admin''" "pg_text 64 n1" "pg_text 255 s1" "\<forall>p\<in>set [wildcard]. pg_text 64 p"
    and ok2: "pg_text 64 c2" "pg_text 64 n2" "pg_text 255 s2" "\<forall>p\<in>set p2. pg_text 64 p"
    and ok3: "pg_text 64 c3" "pg_text 64 n3" "pg_text 255 s3" "\<forall>p\<in>set p3. pg_text 64 p"
    using texts unfolding roles list_all_iff by auto
  obtain d1 where d1: "seed_role (''admin'', n1, s1, [wildcard]) (healthy d) = (Inr (), healthy d1)" "seeded_like d d1"
    "\<exists>r\<in>set (ia_roles d1). ro_code r = ''admin'' \<and> (ro_id r, wildcard) \<in> set (ia_role_perms d1)"
    using seed_role_healthy [OF ok1, of d] by auto
  obtain d2 where d2: "seed_role (c2, n2, s2, p2) (healthy d1) = (Inr (), healthy d2)" "seeded_like d1 d2"
    using seed_role_healthy [OF ok2, of d1] by blast
  obtain d3 where d3: "seed_role (c3, n3, s3, p3) (healthy d2) = (Inr (), healthy d3)" "seeded_like d2 d3"
    using seed_role_healthy [OF ok3, of d2] by blast
  have "seed_system_roles (healthy d) = (Inr (), healthy d3)"
    by (simp add: seed_system_roles_def roles d1(1) d2(1) d3(1))
  moreover have "seeded_like d d3" using d1(2) d2(2) d3(2) seeded_like_trans by blast
  moreover have "\<exists>r\<in>set (ia_roles d3). ro_code r = ''admin'' \<and> (ro_id r, wildcard) \<in> set (ia_role_perms d3)"
    using d1(3) d2(2) d3(2) unfolding seeded_like_def by blast
  ultimately show ?thesis by blast
qed

lemma bootstrap_grants_admin:
  assumes "a \<in> set (ia_users d)" and "au_username a = ''admin''" and "\<forall>g\<in>set (ia_user_roles d). ur_user g \<noteq> au_id a"
    and "r \<in> set (ia_roles d)" and "ro_code r = ''admin''" and "(ro_id r, wildcard) \<in> set (ia_role_perms d)"
  shows "holds t (snd (bootstrap_grant d)) (au_id a) wildcard"
proof -
  let ?g = "\<lparr>ur_user = au_id a, ur_role = ro_id r, ur_expires_at = None, ur_granted_by = None\<rparr>"
  have "?g \<in> set (ia_user_roles (snd (bootstrap_grant d)))"
    using assms(1-5) by (force simp: bootstrap_grant_def list_ex_iff)
  then have "holds_role t (snd (bootstrap_grant d)) (au_id a) (ro_id r)"
    unfolding holds_role_def by (intro disjI1 bexI [of _ ?g]) (simp_all add: grant_alive_def)
  then show ?thesis using assms(4,6) by (auto simp: holds_def bootstrap_grant_def)
qed

lemma startup_restores_admin:
  assumes "a \<in> set (ia_users d)" and "au_username a = ''admin''" and "\<forall>g\<in>set (ia_user_roles d). ur_user g \<noteq> au_id a"
  shows "\<exists>d'. iam_startup (healthy d) = (Inr (), healthy d') \<and> ia_users d' = ia_users d \<and> holds t d' (au_id a) wildcard"
proof -
  obtain d1 r where d1: "seed_system_roles (healthy d) = (Inr (), healthy d1)" "seeded_like d d1"
    and r: "r \<in> set (ia_roles d1)" "ro_code r = ''admin''" "(ro_id r, wildcard) \<in> set (ia_role_perms d1)"
    using seed_system_roles_healthy [of d] by blast
  have "iam_startup (healthy d) = (Inr (), healthy (snd (bootstrap_grant d1)))"
    by (simp add: iam_startup_def d1(1) ensure_bootstrap_admin_def bootstrap_grant_def)
  moreover have "ia_users (snd (bootstrap_grant d1)) = ia_users d"
    using d1(2) by (simp add: bootstrap_grant_def seeded_like_def)
  moreover have "holds t (snd (bootstrap_grant d1)) (au_id a) wildcard"
    by (rule bootstrap_grants_admin [OF _ assms(2) _ r]) (use assms d1(2) in \<open>auto simp: seeded_like_def\<close>)
  ultimately show ?thesis by blast
qed

text \<open>The two requests that prepare it, without faults.\<close>

lemma user_grants_healthy: "\<exists>v. user_grants ck i (healthy d) = (Inr v, healthy d)"
  by (simp add: user_grants_def)

lemma respond_grants_healthy: "\<exists>v. respond_grants ck i (healthy d) = (RespJSON 200 v, healthy d)"
  using user_grants_healthy [of ck i d] by (auto simp: respond_grants_def)

lemma putRoles_none_healthy:
  assumes "find_account d i = Some a" and "atoi s = Some i"
  shows "\<exists>v. putRoles_h ck sub s (Some []) (healthy d) = (RespJSON 200 v, healthy (snd (delete_user_roles i d)))"
proof -
  have "replace_user_roles i [] (sj_id sub) (healthy d) = (Inr (), healthy (snd (delete_user_roles i d)))"
    unfolding replace_user_roles_def iam_tx_def
    by (subst transaction_healthy_clean [where d' = "snd (delete_user_roles i d)" and r = "Inr ()"]) simp_all
  then show ?thesis
    using assms respond_grants_healthy [of ck i "snd (delete_user_roles i d)"]
    by (simp add: putRoles_h_def get_user_by_id_def load_all_roles_def)
qed

lemma changePassword_healthy:
  assumes "find_account d i = Some a" and "atoi s = Some i" and "w \<noteq> []" and "pw_hash pw w = Some h" and "pg_text 255 h"
    and "clock_ok clk" and "\<not> holds (gc_merge clk) d i wildcard"
  shows "changePassword_h pw ck clk sub s (Some w) (healthy d) = (RespJSON 204 (), healthy (update_account i (\<lambda>a. a\<lparr>au_hash := h\<rparr>) d))"
proof -
  have hits: "filter (\<lambda>a. au_id a = i) (ia_users d) \<noteq> []"
    using find_Some_mem [of _ "ia_users d"] assms(1) by (auto simp: find_account_def filter_empty_conv)
  have "update_password pw i w (healthy d) = (Inr (), healthy (update_account i (\<lambda>a. a\<lparr>au_hash := h\<rparr>) d))"
    using hits assms(4,5) by (simp add: update_password_def update_password_row_def Let_def pg_text_def)
  then show ?thesis
    using assms by (simp add: changePassword_h_def effective_healthy eff_of_wildcard)
qed


subsection \<open>The subject of a request\<close>

text \<open>The account with what it holds at the time of the request.\<close>

definition current_subject :: "(string \<Rightarrow> 'k::linorder) \<Rightarrow> grant_clock \<Rightarrow> iam_db \<Rightarrow> account \<Rightarrow> subject" where
  "current_subject ck clk d a = \<lparr>sj_id = au_id a, sj_type = au_type a, sj_username = au_username a, sj_display_name = au_display_name a,
     sj_permissions = (if holds (gc_merge clk) d (au_id a) wildcard then {wildcard} else {p. holds (gc_merge clk) d (au_id a) p}),
     sj_roles = role_codes (eff_of ck clk d (au_id a)), sj_groups = ef_group_ids (eff_of ck clk d (au_id a))\<rparr>"

definition may :: "int \<Rightarrow> iam_db \<Rightarrow> account \<Rightarrow> string list \<Rightarrow> bool" where
  "may t d a perms \<longleftrightarrow> (\<exists>p\<in>set perms. holds t d (au_id a) wildcard \<or> holds t d (au_id a) p)"

lemma may_subject: "list_ex (has_perm (current_subject ck clk d a)) perms \<longleftrightarrow> may (gc_merge clk) d a perms"
  by (auto simp: list_ex_iff has_perm_def current_subject_def may_def)

lemma load_subject_healthy:
  assumes "clock_ok clk"
  shows "load_subject ck clk (Some n) (healthy d) = (case find_username d n of None \<Rightarrow> (Inl (401, ''account not found''), healthy d)
     | Some a \<Rightarrow> (Inr (current_subject ck clk d a), healthy d))"
  by (simp add: load_subject_def get_user_by_username_def effective_healthy eff_of_permissions [OF assms] user_view_of_def
      current_subject_def split: option.split)

text \<open>
  The guard of a route is exact: the request reaches its handler if and only if the bearer token
  is valid, its account exists, and the account holds, at the time of the request, the wildcard or one
  of the permissions of the route through a live grant of its own, a role or a group; the handler then
  sees exactly these permissions.
\<close>

theorem guarded_exact:
  assumes "clock_ok clk"
  shows "guarded jt ck now clk perms header h (healthy d) = (case bearer_user jt now header of
     Inl msg \<Rightarrow> (RespError 401 msg, healthy d)
   | Inr n \<Rightarrow> (case find_username d n of
       None \<Rightarrow> (RespError 401 ''account not found'', healthy d)
     | Some a \<Rightarrow> if may (gc_merge clk) d a perms then h (current_subject ck clk d a) (healthy d)
                else (RespError 403 ''insufficient permissions'', healthy d)))"
  by (simp add: guarded_def load_subject_healthy [OF assms] may_subject split: sum.split option.split)

text \<open>
  What the token library promises: a token it signed is read back as its claims until it expires.
\<close>

definition token_law :: "token_lib \<Rightarrow> bool" where
  "token_law jt \<longleftrightarrow> (\<forall>cl tok t. jt_sign jt cl = Some tok \<and> jw_issued_at cl \<le> t \<and> t < jw_expires_at cl \<longrightarrow>
     tok \<noteq> [] \<and> jt_verify jt t tok = Some (Hmac, cl))"

lemma authenticate_Inr:
  "authenticate pw n w c = (Inr u, c') \<Longrightarrow> \<exists>a. find_username (tables c) n = Some a \<and> u = auth_user_of a \<and> pw_check pw (au_hash a) w"
  unfolding authenticate_def by (auto dest!: dbind_Inr query_row_Inr split: if_splits)

lemma login_token:
  assumes "login_h pw jt ck t0 clk (Some (name, w)) c = (RespJSON 200 (tok, v), c')"
  shows "jt_sign jt \<lparr>jw_subject = trim_space name, jw_issued_at = t0, jw_expires_at = t0 + 86400, jw_issuer = ''ocm-backend''\<rparr> = Some tok
    \<and> trim_space name \<noteq> [] \<and> (\<exists>a. find_username (tables c) (trim_space name) = Some a \<and> pw_check pw (au_hash a) w)"
proof -
  obtain u c1 where a: "authenticate pw (trim_space name) w c = (Inr u, c1)" and n: "trim_space name \<noteq> []"
    and s: "sign_in jt ck t0 clk u c1 = (RespJSON 200 (tok, v), c')"
    using assms by (auto simp: login_h_def Let_def split: if_splits prod.splits sum.splits iam_error.splits)
  obtain x where x: "find_username (tables c) (trim_space name) = Some x" "u = auth_user_of x" "pw_check pw (au_hash x) w"
    using authenticate_Inr [OF a] by blast
  have "au_username x = trim_space name" using find_Some_mem x(1) unfolding find_username_def by fastforce
  then show ?thesis
    using s x n by (auto simp: sign_in_def issue_def auth_user_of_def split: option.splits prod.splits sum.splits)
qed

text \<open>
  C6: A token obtained by a login stands for the username for a day, whatever happens to the account
  in the meantime: a request with it is decided by the permissions that the account of that name holds
  at the time of the request, so a revoked grant is refused at once and a deleted account answers 401.
  Neither a change of the password nor the deletion and re-creation of the account ends the token.
\<close>

theorem token_acts_for_username:
  assumes "token_law jt" and "login_h pw jt ck t0 clk0 (Some (name, w)) c = (RespJSON 200 (tok, v), c1)"
    and "t0 \<le> now" and "now < t0 + 86400" and "clock_ok clk"
  shows "guarded jt ck now clk perms (''Bearer '' @ tok) h (healthy d) = (case find_username d (trim_space name) of
       None \<Rightarrow> (RespError 401 ''account not found'', healthy d)
     | Some a \<Rightarrow> if may (gc_merge clk) d a perms then h (current_subject ck clk d a) (healthy d)
                else (RespError 403 ''insufficient permissions'', healthy d))"
proof -
  note l = login_token [OF assms(2)]
  have "tok \<noteq> [] \<and> jt_verify jt now tok = Some (Hmac, \<lparr>jw_subject = trim_space name, jw_issued_at = t0,
      jw_expires_at = t0 + 86400, jw_issuer = ''ocm-backend''\<rparr>)"
    using assms(1,3,4) l unfolding token_law_def by (metis claims.select_convs(2,3))
  then have "bearer_user jt now (''Bearer '' @ tok) = Inr (trim_space name)"
    using l by (simp add: bearer_user_def parse_token_def)
  then show ?thesis by (simp add: guarded_def load_subject_healthy [OF assms(5)] may_subject split: option.split)
qed

subsection \<open>Escalation\<close>

text \<open>
  C5: No request of a subject without the wildcard makes a new administrator or takes one over,
  wherever the database fails: every account that holds the wildcard afterwards held it before, with
  the same name, password hash and WeChat binding. In particular such a subject cannot grant the admin
  role to a user or to a group, put the wildcard into a role or a direct grant, add members to a group
  that keeps the admin role, or reset an administrator's password.
\<close>

theorem no_privilege_escalation:
  assumes "wf_catalog catalog" and "iam_inv (tables c)" and "\<not> has_perm sub wildcard"
    and "clock_ok clk" and "gc_merge clk \<le> t"
  shows "no_new_admin t (tables c) (tables (snd (serve_access catalog pw ck clk sub rq c)))"
  using serve_access_safe [OF assms(1,4,5) assms(3) safe_refl [OF assms(2), of True t], of pw ck rq]
  unfolding safe_def by simp

text \<open>
  C23: After any sequence of starts, requests and WeChat bindings, statements failing anywhere, whoever
  holds the wildcard holds it through the role with the code admin; ids and usernames are unique.
\<close>

theorem wildcard_only_through_admin_role:
  assumes "access_reach catalog pw ck d" and "wf_catalog catalog" and "holds t d u wildcard"
  shows "(\<exists>r\<in>set (ia_roles d). ro_code r = ''admin'' \<and> holds_role t d u (ro_id r)) \<and>
    distinct (map ro_id (ia_roles d)) \<and> distinct (map au_id (ia_users d)) \<and> distinct (map au_username (ia_users d))"
proof -
  have inv: "iam_inv d" by (rule access_reach_inv [OF assms(1,2)])
  obtain i where i: "wild d i" "holds_role t d u i" using assms(3) holds_wildcard [OF inv] by blast
  then show ?thesis using inv unfolding iam_inv_def wild_def by blast
qed

text \<open>
  C24: The password check of an administrator can be stepped around with the permission user:manage
  alone: PUT roles with an empty list strips the account named admin (no check guards it), its password
  can then be reset, and the next start of the server grants the admin role to the account named admin
  again, which now has the password of the attacker.
\<close>

theorem stripped_admin_comes_back:
  assumes "iam_inv d" and "a \<in> set (ia_users d)" and "au_username a = ''admin''" and "atoi path = Some (au_id a)"
    and "\<forall>g. (g, au_id a) \<notin> set (ia_members d)"
    and "w \<noteq> []" and "pw_hash pw w = Some hash" and "pg_text 255 hash" and "clock_ok clk"
  shows "\<exists>v d1 d2 d3 a'. putRoles_h ck sub path (Some []) (healthy d) = (RespJSON 200 v, healthy d1)
    \<and> changePassword_h pw ck clk sub path (Some w) (healthy d1) = (RespJSON 204 (), healthy d2)
    \<and> iam_startup (healthy d2) = (Inr (), healthy d3)
    \<and> a' \<in> set (ia_users d3) \<and> au_username a' = ''admin'' \<and> au_hash a' = hash \<and> holds t d3 (au_id a') wildcard"
proof -
  let ?d1 = "snd (delete_user_roles (au_id a) d)"
  let ?d2 = "update_account (au_id a) (\<lambda>x. x\<lparr>au_hash := hash\<rparr>) ?d1"
  let ?a = "a\<lparr>au_hash := hash\<rparr>"
  have ids: "distinct (map au_id (ia_users d))" using assms(1) by (simp add: iam_inv_def)
  have f: "find_account d (au_id a) = Some a" by (rule find_account_unique [OF ids assms(2)])
  then have f1: "find_account ?d1 (au_id a) = Some a" by (simp add: find_account_def delete_user_roles_def)
  have inv1: "iam_inv ?d1" using assms(1) by (auto simp: iam_inv_def delete_user_roles_def)
  have poor: "\<not> holds (gc_merge clk) ?d1 (au_id a) wildcard"
    unfolding holds_wildcard [OF inv1] holds_role_def using assms(5) by (auto simp: delete_user_roles_def)
  obtain v where 1: "putRoles_h ck sub path (Some []) (healthy d) = (RespJSON 200 v, healthy ?d1)"
    using putRoles_none_healthy [OF f assms(4)] by blast
  have 2: "changePassword_h pw ck clk sub path (Some w) (healthy ?d1) = (RespJSON 204 (), healthy ?d2)"
    by (rule changePassword_healthy [OF f1 assms(4,6,7,8,9) poor])
  have mem: "?a \<in> set (ia_users ?d2)"
    using assms(2) by (auto simp: update_account_def delete_user_roles_def image_iff intro!: bexI [of _ a])
  obtain d3 where 3: "iam_startup (healthy ?d2) = (Inr (), healthy d3)" "ia_users d3 = ia_users ?d2" "holds t d3 (au_id ?a) wildcard"
    using startup_restores_admin [OF mem] assms(3) by (auto simp: update_account_def delete_user_roles_def)
  show ?thesis using 1 2 3 mem assms(3) by (intro exI conjI) (assumption | simp)+
qed


subsection \<open>Concrete tables\<close>

definition demo_account :: "int \<Rightarrow> string \<Rightarrow> string \<Rightarrow> account" where
  "demo_account i n w = \<lparr>au_id = i, au_username = n, au_hash = w, au_display_name = n, au_type = ''staff'', au_openid = None, au_created_at = 0\<rparr>"

definition demo_role :: "int \<Rightarrow> string \<Rightarrow> role_row" where
  "demo_role i code = \<lparr>ro_id = i, ro_code = code, ro_name = code, ro_description = [], ro_is_system = code = ''admin''\<rparr>"

text \<open>An administrator and a clerk who manages users.\<close>

definition demo_iam :: iam_db where
  "demo_iam = \<lparr>ia_users = [demo_account 1 ''admin'' ''secret'', demo_account 2 ''clerk'' ''pass''],
     ia_roles = [demo_role 1 ''admin'', demo_role 2 ''office''], ia_role_perms = [(1, wildcard), (2, ''user:manage'')],
     ia_user_roles = [\<lparr>ur_user = 1, ur_role = 1, ur_expires_at = None, ur_granted_by = None\<rparr>,
       \<lparr>ur_user = 2, ur_role = 2, ur_expires_at = None, ur_granted_by = Some 1\<rparr>],
     ia_user_perms = [], ia_groups = [], ia_members = [], ia_group_roles = [], ia_next_user = 3, ia_next_role = 3, ia_next_group = 1\<rparr>"

definition demo_pw :: password_lib where
  "demo_pw = \<lparr>pw_hash = Some, pw_check = (=)\<rparr>"

definition demo_clock :: grant_clock where
  "demo_clock = \<lparr>gc_roles = 5, gc_perms = 5, gc_merge = 5\<rparr>"

definition demo_clerk :: subject where
  "demo_clerk = \<lparr>sj_id = 2, sj_type = ''staff'', sj_username = ''clerk'', sj_display_name = ''clerk'', sj_permissions = {''user:manage''},
     sj_roles = [''office''], sj_groups = []\<rparr>"

definition demo_claims :: claims where
  "demo_claims = \<lparr>jw_subject = ''clerk'', jw_issued_at = 0, jw_expires_at = 86400, jw_issuer = ''ocm-backend''\<rparr>"

definition demo_tokens :: token_lib where
  "demo_tokens = \<lparr>jt_sign = (\<lambda>cl. if cl = demo_claims then Some ''tok'' else None),
     jt_verify = (\<lambda>t s. if s = ''tok'' \<and> t < 86400 then Some (Hmac, demo_claims) else None)\<rparr>"

lemma demo_iam_inv: "iam_inv demo_iam"
  by (simp add: iam_inv_def demo_iam_def demo_account_def demo_role_def wildcard_def)

lemma demo_clock_ok: "clock_ok demo_clock"
  by (simp add: clock_ok_def demo_clock_def)

lemma demo_token_law: "token_law demo_tokens"
  by (auto simp: token_law_def demo_tokens_def demo_claims_def split: if_splits)

lemma demo_clerk_plain: "\<not> has_perm demo_clerk wildcard"
  by (simp add: has_perm_def demo_clerk_def wildcard_def)

theorem guarded_exact_witness:
  "guarded demo_tokens id 7 demo_clock [''role:manage''] ''Bearer tok'' (\<lambda>s c. (RespJSON 200 (), c)) (healthy demo_iam) =
     (RespError 403 ''insufficient permissions'', healthy demo_iam)"
  unfolding guarded_exact [OF demo_clock_ok]
  by (simp add: bearer_user_def parse_token_def demo_tokens_def demo_claims_def find_username_def demo_iam_def demo_account_def
      demo_role_def may_def holds_def holds_role_def wildcard_def)

text \<open>The clerk logs in, loses the role, and the token of the login opens nothing any more.\<close>

theorem token_acts_for_username_witness:
  "guarded demo_tokens id 7 demo_clock [''user:manage''] (''Bearer '' @ ''tok'') (\<lambda>s c. (RespJSON 200 (), c))
       (healthy (demo_iam\<lparr>ia_user_roles := []\<rparr>)) =
     (RespError 403 ''insufficient permissions'', healthy (demo_iam\<lparr>ia_user_roles := []\<rparr>))"
proof -
  have "\<exists>v. login_h demo_pw demo_tokens id 0 demo_clock (Some (''clerk'', ''pass'')) (healthy demo_iam) =
      (RespJSON 200 (''tok'', v), healthy demo_iam)"
    by (simp add: login_h_def Let_def trim_space_plain plain_def authenticate_def find_username_def demo_iam_def demo_account_def demo_pw_def nul_free_def
        sign_in_def issue_def auth_user_of_def demo_tokens_def demo_claims_def enrich_user_def group_briefs_def effective_healthy)
  then obtain v where "login_h demo_pw demo_tokens id 0 demo_clock (Some (''clerk'', ''pass'')) (healthy demo_iam) =
      (RespJSON 200 (''tok'', v), healthy demo_iam)" by blast
  note token_acts_for_username [OF demo_token_law this _ _ demo_clock_ok, of 7]
  from this [of "[''user:manage'']" "\<lambda>s c. (RespJSON 200 (), c)" "demo_iam\<lparr>ia_user_roles := []\<rparr>"] show ?thesis
    by (simp add: trim_space_plain plain_def find_username_def demo_iam_def demo_account_def demo_role_def may_def holds_def
        holds_role_def wildcard_def)
qed

theorem no_privilege_escalation_witness:
  "no_new_admin 5 demo_iam (tables (snd (serve_access sorted_catalog demo_pw id demo_clock demo_clerk
     (PutRoles ''2'' (Some [\<lparr>rgi_code = ''admin'', rgi_expires_at = None\<rparr>])) (healthy demo_iam))))"
  using no_privilege_escalation [OF wf_sorted_catalog _ demo_clerk_plain demo_clock_ok, of "healthy demo_iam" 5 demo_pw id
      "PutRoles ''2'' (Some [\<lparr>rgi_code = ''admin'', rgi_expires_at = None\<rparr>])"] demo_iam_inv
  by (simp add: demo_clock_def)

lemma first_start:
  "\<exists>d. start_up demo_pw 0 [] (healthy iam_empty) = (Inr (), healthy d) \<and> holds 0 d 1 wildcard"
proof -
  let ?d = "iam_empty\<lparr>ia_users := [\<lparr>au_id = 1, au_username = ''admin'', au_hash = ''admin123'',
      au_display_name = hx ''e7b3bbe7bb9fe7aea1e79086e59198'', au_type = ''staff'', au_openid = None, au_created_at = 0\<rparr>], ia_next_user := 2\<rparr>"
  have "pg_text 128 (hx ''e7b3bbe7bb9fe7aea1e79086e59198'')"
    by (rule pg_text_hx) (simp_all add: hex_val_def is_digit_def)
  then have "seed_admin demo_pw 0 [] (healthy iam_empty) = (Inr (), healthy ?d)"
    by (simp add: seed_admin_def iam_empty_def demo_pw_def insert_user_row_def find_username_def pg_text_def rune_count_ascii del: hx.simps)
  moreover obtain d where "iam_startup (healthy ?d) = (Inr (), healthy d)" "holds 0 d 1 wildcard"
    using startup_restores_admin [of "hd (ia_users ?d)" ?d 0] by (auto simp: iam_empty_def simp del: hx.simps)
  ultimately show ?thesis by (auto simp: start_up_def)
qed

theorem wildcard_only_through_admin_role_witness:
  "\<exists>r\<in>set (ia_roles (tables (snd (start_up demo_pw 0 [] (healthy iam_empty))))). ro_code r = ''admin'' \<and>
     holds_role 0 (tables (snd (start_up demo_pw 0 [] (healthy iam_empty)))) 1 (ro_id r)"
proof -
  obtain d where d: "start_up demo_pw 0 [] (healthy iam_empty) = (Inr (), healthy d)" "holds 0 d 1 wildcard"
    using first_start by blast
  have r: "access_reach sorted_catalog demo_pw (id :: string \<Rightarrow> string) d"
    using access_reach.start [of sorted_catalog demo_pw id "healthy iam_empty" 0 "[]"] d(1) by (simp add: access_reach.empty)
  then show ?thesis
    using wildcard_only_through_admin_role [OF r wf_sorted_catalog d(2)] d(1) by simp
qed

theorem stripped_admin_comes_back_witness:
  "\<exists>d2 d3 a'. changePassword_h demo_pw id demo_clock demo_clerk ''1'' (Some ''mine'') (healthy (snd (delete_user_roles 1 demo_iam)))
       = (RespJSON 204 (), healthy d2)
     \<and> iam_startup (healthy d2) = (Inr (), healthy d3) \<and> a' \<in> set (ia_users d3) \<and> au_hash a' = ''mine'' \<and> holds 9 d3 (au_id a') wildcard"
proof -
  have a: "demo_account 1 ''admin'' ''secret'' \<in> set (ia_users demo_iam)" by (simp add: demo_iam_def)
  have i: "atoi ''1'' = Some (au_id (demo_account 1 ''admin'' ''secret''))" by (simp add: demo_account_def) code_simp
  have f: "find_account demo_iam 1 = Some (demo_account 1 ''admin'' ''secret'')" by (simp add: find_account_def demo_iam_def demo_account_def)
  obtain v where p: "putRoles_h id demo_clerk ''1'' (Some []) (healthy demo_iam) = (RespJSON 200 v, healthy (snd (delete_user_roles 1 demo_iam)))"
    using putRoles_none_healthy [OF f] i by (fastforce simp: demo_account_def)
  show ?thesis
    using stripped_admin_comes_back [OF demo_iam_inv a _ i, of "''mine''" demo_pw "''mine''" demo_clock id demo_clerk 9] p
    by (auto simp: demo_iam_def demo_account_def demo_pw_def demo_clock_ok pg_text_def rune_count_ascii)
qed


text \<open>A permission that occurs twice in the input leaves the new role behind, without permissions and behind an answer 500.\<close>

lemma duplicate_permission_half_role:
  "\<exists>d. createRole_h [mk_perm ''user:read'' [] [] [] []] id
     (Some \<lparr>rin_code = ''clerks'', rin_name = ''c'', rin_description = [], rin_permissions = [''user:read'', ''user:read'']\<rparr>) (healthy iam_empty)
     = (RespError 500 ''could not create role'', healthy d) \<and> find_role_code d ''clerks'' \<noteq> None \<and> ia_role_perms d = []"
proof -
  have trim: "trim_space ''clerks'' = ''clerks''" "trim_space ''c'' = ''c''" "trim_space [] = []"
    by (simp_all add: trim_space_plain plain_def)
  have ok: "validate_role_input [mk_perm ''user:read'' [] [] [] []]
      \<lparr>rin_code = ''clerks'', rin_name = ''c'', rin_description = [], rin_permissions = [''user:read'', ''user:read'']\<rparr> True =
      (\<lparr>rin_code = ''clerks'', rin_name = ''c'', rin_description = [], rin_permissions = [''user:read'', ''user:read'']\<rparr>, None)"
    by (simp add: validate_role_input_def Let_def trim role_code_ok_def lower_letter_def permission_exists_def mk_perm_def)
  show ?thesis
    by (simp add: createRole_h_def ok create_role_def insert_role_row_def iam_empty_def pg_text_def rune_count_ascii find_role_code_def
        replace_role_permissions_def iam_tx_def transaction_healthy delete_role_perms_def checked_def insert_role_perm_def)
qed

text \<open>The member count of a new group counts an id as often as the input has it.\<close>

lemma duplicate_members_counted:
  "\<exists>v d. create_group 0 \<lparr>gin_name = ''g'', gin_description = [], gin_members = [2, 2], gin_roles = []\<rparr> (healthy demo_iam) = (Inr v, healthy d)
     \<and> gv_member_count v = 2 \<and> ia_members d = [(1, 2)]"
  by (simp add: create_group_def iam_tx_def transaction_healthy insert_group_row_def demo_iam_def pg_text_def rune_count_ascii
      replace_group_members_def clear_group_members_def dedupe_int64_def checked_def insert_group_member_def replace_group_roles_def
      clear_group_roles_def find_group_def)

end
