(* ===== verification/Observation.thy ===== *)
theory Observation
  imports Session Hoare "HOL-Library.Word"
begin

text \<open>
  Class observations (\<open>internal/observation\<close>): records that an observer writes about a lesson, as a
  draft until they are submitted. Parameters: the JSON decoder of the form (\<open>encoding/json\<close>), SHA-256,
  the document backend (\<open>Renderer\<close>), PostgreSQL's reading of a date. The snapshot of the course is
  kept as a record where the column has its JSON text. A session's periods run upwards, as its
  validation guarantees.
\<close>

subsection \<open>Data\<close>

record snapshot =
  sn_course :: int
  sn_course_name :: string
  sn_course_code :: string
  sn_teacher :: string
  sn_class_name :: string
  sn_occurrence :: "int option"
  sn_date :: string
  sn_sections :: "int list"
  sn_classroom :: "int option"
  sn_classroom_name :: string
  sn_observer :: int
  sn_observer_name :: string

text \<open>A score is the 64 bits of a float.\<close>

record observation =
  ob_id :: int
  ob_template :: string
  ob_occurrence :: "int option"
  ob_course :: int
  ob_classroom :: "int option"
  ob_observer :: int
  ob_date :: int
  ob_sections :: "int list"
  ob_sections_key :: "string option"
  ob_status :: string
  ob_scores :: string
  ob_total :: "64 word option"
  ob_content :: string
  ob_form :: string
  ob_snapshot :: snapshot
  ob_anonymous :: bool
  ob_remark :: string
  ob_exported_at :: "int option"
  ob_created_at :: int
  ob_updated_at :: int

record obs_db =
  ob_campus :: campus_db
  ob_rows :: "observation list"
  ob_next :: int

record observation_view =
  ow_row :: observation
  ow_course_name :: string
  ow_course_code :: string
  ow_teacher :: string
  ow_class_name :: string
  ow_classroom_name :: string
  ow_observer_name :: string

record observation_input =
  oin_template :: string
  oin_occurrence :: "int option"
  oin_course :: int
  oin_classroom :: "int option"
  oin_date :: string
  oin_sections :: "int list option"
  oin_form :: string
  oin_anonymous :: bool

record obs_filter =
  obf_status :: string
  obf_template :: string
  obf_course :: int
  obf_from :: string
  obf_to :: string

datatype obs_error =
  ObsNotFound | ObsDuplicate | ObsForbidden | ObsSubmitted | ObsNoCourse | ObsNoSession | ObsNoClassroom
| ObsSessionMismatch | ObsClassroomMismatch | ObsInvalid string | ObsDb string

type_synonym 'a obs_action = "(obs_db, obs_error, 'a) action"

text \<open>
  What decoding a JSON text yields: its members when it is an object (or null, which has none), a
  float, a string (null reads as empty), a map of strings. \<open>None\<close> is a decoding error.
\<close>

record json_lib =
  js_members :: "string \<Rightarrow> (string \<Rightarrow> string option) option"
  js_float :: "string \<Rightarrow> 64 word option"
  js_string :: "string \<Rightarrow> string option"
  js_strings :: "string \<Rightarrow> (string \<Rightarrow> string option) option"

text \<open>The document backend: templates, the missing required fields of a record, its document.\<close>

record 't renderer =
  rd_templates :: "'t option"
  rd_validate :: "observation \<Rightarrow> string list option"
  rd_render :: "observation \<Rightarrow> string option"

subsection \<open>Sections\<close>

definition normalize_sections :: "int list option \<Rightarrow> string + int list" where
  "normalize_sections ss = (case ss of
     None \<Rightarrow> Inr []
   | Some xs \<Rightarrow> if list_ex (\<lambda>v. v \<le> 0) xs then Inl ''sections must contain positive integers'' else Inr (sort (remdups xs)))"

definition canonical_sections :: "int list \<Rightarrow> string" where
  "canonical_sections xs = ''['' @ go_join '','' (map itoa (sort (remdups xs))) @ '']''"

definition build_sections_key :: "(string \<Rightarrow> string) \<Rightarrow> int list \<Rightarrow> string" where
  "build_sections_key sha xs = sha (canonical_sections xs)"

definition periods_from_range :: "int \<Rightarrow> int \<Rightarrow> int list" where
  "periods_from_range s e = [s..e]"

subsection \<open>The form\<close>

definition raw_or_default :: "string \<Rightarrow> string \<Rightarrow> string" where
  "raw_or_default v dflt = (if v = [] \<or> v = ''null'' then dflt else v)"

record form_summary =
  fs_scores :: string
  fs_total :: "64 word option"
  fs_content :: string
  fs_remark :: string

definition derive_summary :: "json_lib \<Rightarrow> string \<Rightarrow> form_summary" where
  "derive_summary js form =
     (let none = \<lparr>fs_scores = ''{}'', fs_total = None, fs_content = [], fs_remark = []\<rparr>
      in if form = [] then none
         else (case js_members js form of
           None \<Rightarrow> none
         | Some m \<Rightarrow> \<lparr>fs_scores = (case m ''indicatorScores'' of None \<Rightarrow> ''{}'' | Some v \<Rightarrow> raw_or_default v ''{}''),
             fs_total = Option.bind (m ''totalScore'') (js_float js),
             fs_content = (case Option.bind (m ''contentOutline'') (js_string js) of None \<Rightarrow> [] | Some s \<Rightarrow> s),
             fs_remark = (case Option.bind (m ''comments'') (js_strings js) of None \<Rightarrow> []
                | Some cs \<Rightarrow> (case cs ''other'' of None \<Rightarrow> [] | Some s \<Rightarrow> s))\<rparr>))"

definition format_classroom :: "string \<Rightarrow> string \<Rightarrow> string" where
  "format_classroom building name = go_join '' '' (filter (\<lambda>s. s \<noteq> []) [building, name])"

subsection \<open>Lookups\<close>

definition find_observation :: "obs_db \<Rightarrow> int \<Rightarrow> observation option" where
  "find_observation d i = List.find (\<lambda>o'. ob_id o' = i) (ob_rows d)"

definition offering_info :: "int \<Rightarrow> offering_view obs_action" where
  "offering_info i = query_row (ObsDb ''load course offering'') ObsNoCourse
     (\<lambda>d. Option.bind (find_offering (ob_campus d) i) (offering_join (ob_campus d)))"

definition session_info :: "int \<Rightarrow> session obs_action" where
  "session_info i = query_row (ObsDb ''load session'') ObsNoSession (\<lambda>d. find_session (ob_campus d) i)"

definition classroom_info :: "int \<Rightarrow> classroom obs_action" where
  "classroom_info i = query_row (ObsDb ''load classroom'') ObsNoClassroom (\<lambda>d. find_classroom (ob_campus d) i)"

text \<open>A record with the names of what it refers to; without its course or observer there is no row.\<close>

definition observation_view_of :: "obs_db \<Rightarrow> observation \<Rightarrow> observation_view option" where
  "observation_view_of d o' = Option.bind (find_offering (ob_campus d) (ob_course o')) (\<lambda>f.
     Option.bind (offering_join (ob_campus d) f) (\<lambda>v.
     Option.bind (find_user (ob_campus d) (ob_observer o')) (\<lambda>u.
     Some \<lparr>ow_row = o', ow_course_name = ov_catalog_name v, ow_course_code = ov_catalog_code v, ow_teacher = of_teacher f,
       ow_class_name = ov_class_name v,
       ow_classroom_name = (case Option.bind (ob_classroom o') (find_classroom (ob_campus d)) of None \<Rightarrow> [] | Some r \<Rightarrow> cl_name r),
       ow_observer_name = us_display_name u\<rparr>)))"

definition get_observation :: "int \<Rightarrow> observation_view obs_action" where
  "get_observation i = query_row (ObsDb ''get observation'') ObsNotFound
     (\<lambda>d. Option.bind (find_observation d i) (observation_view_of d))"

subsection \<open>Preparing a record\<close>

record prepared =
  pp_template :: string
  pp_occurrence :: "int option"
  pp_course :: int
  pp_classroom :: "int option"
  pp_date :: string
  pp_sections :: "int list"
  pp_sections_key :: "string option"
  pp_summary :: form_summary
  pp_form :: string
  pp_snapshot :: snapshot

definition prepare_session :: "observation_input \<Rightarrow> offering_view \<Rightarrow> session option obs_action" where
  "prepare_session inp ofr = (case oin_occurrence inp of
     None \<Rightarrow> dret None
   | Some i \<Rightarrow> dbind (session_info i) (\<lambda>s.
       if ss_offering s \<noteq> of_id (ov_row ofr) then draise ObsSessionMismatch else dret (Some s)))"

definition prepare_date :: "observation_input \<Rightarrow> session option \<Rightarrow> string obs_action" where
  "prepare_date inp s =
     (let day = trim_space (oin_date inp);
          day = (case s of Some x \<Rightarrow> if day = [] then format_date (ss_date x) else day | None \<Rightarrow> day)
      in if day = [] then draise (ObsInvalid ''observeDate is required'')
         else if parse_date day = None then draise (ObsInvalid ''observeDate must be YYYY-MM-DD'')
         else dret day)"

definition prepare_sections :: "observation_input \<Rightarrow> session option \<Rightarrow> int list obs_action" where
  "prepare_sections inp s = (case (oin_sections inp, s) of
     (None, Some x) \<Rightarrow> dret (periods_from_range (ss_start x) (ss_end x))
   | (ss, _) \<Rightarrow> (case normalize_sections ss of Inl msg \<Rightarrow> draise (ObsInvalid msg) | Inr xs \<Rightarrow> dret xs))"

text \<open>The classroom and its display name; the name of a session's own room is optional.\<close>

definition prepare_classroom :: "observation_input \<Rightarrow> session option \<Rightarrow> (int option \<times> string) obs_action" where
  "prepare_classroom inp s = (case oin_classroom inp of
     Some i \<Rightarrow> dbind (classroom_info i) (\<lambda>r.
       if (case s of None \<Rightarrow> False | Some x \<Rightarrow> cl_id r \<noteq> ss_classroom x) then draise ObsClassroomMismatch
       else dret (Some (cl_id r), format_classroom (cl_building r) (cl_name r)))
   | None \<Rightarrow> (case s of
       None \<Rightarrow> dret (None, [])
     | Some x \<Rightarrow> dtry (classroom_info (ss_classroom x)) (\<lambda>_. dret (Some (ss_classroom x), []))
         (\<lambda>r. dret (Some (ss_classroom x), format_classroom (cl_building r) (cl_name r)))))"

definition prepare_obs ::
  "json_lib \<Rightarrow> (string \<Rightarrow> string) \<Rightarrow> observation_input \<Rightarrow> int \<Rightarrow> string \<Rightarrow> prepared obs_action" where
  "prepare_obs js sha inp observer name =
     (if oin_course inp \<le> 0 then draise (ObsInvalid ''courseId is required'')
      else dbind (offering_info (oin_course inp)) (\<lambda>ofr.
           dbind (prepare_session inp ofr) (\<lambda>s.
           dbind (prepare_date inp s) (\<lambda>day.
           dbind (prepare_sections inp s) (\<lambda>sections.
           dbind (prepare_classroom inp s) (\<lambda>(room, room_name).
           dret \<lparr>pp_template = trim_space (oin_template inp), pp_occurrence = map_option ss_id s, pp_course = of_id (ov_row ofr),
             pp_classroom = room, pp_date = day, pp_sections = sections,
             pp_sections_key = (if s = None then Some (build_sections_key sha sections) else None),
             pp_summary = derive_summary js (oin_form inp), pp_form = raw_or_default (oin_form inp) ''{}'',
             pp_snapshot = \<lparr>sn_course = of_id (ov_row ofr), sn_course_name = ov_catalog_name ofr, sn_course_code = ov_catalog_code ofr,
               sn_teacher = of_teacher (ov_row ofr), sn_class_name = ov_class_name ofr, sn_occurrence = map_option ss_id s,
               sn_date = day, sn_sections = sections, sn_classroom = room, sn_classroom_name = room_name,
               sn_observer = observer, sn_observer_name = name\<rparr>\<rparr>))))))"


subsection \<open>Statements\<close>

text \<open>The values of a statement: texts without NUL, lengths that the columns hold.\<close>

definition obs_texts_ok :: "prepared \<Rightarrow> bool" where
  "obs_texts_ok p \<longleftrightarrow> nul_free [pp_template p, fs_scores (pp_summary p), fs_content (pp_summary p), pp_form p, fs_remark (pp_summary p)]
     \<and> (case pp_sections_key p of None \<Rightarrow> True | Some k \<Rightarrow> nul_free [k])"

definition obs_widths_ok :: "prepared \<Rightarrow> bool" where
  "obs_widths_ok p \<longleftrightarrow> rune_count (pp_template p) \<le> 32 \<and> (case pp_sections_key p of None \<Rightarrow> True | Some k \<Rightarrow> rune_count k \<le> 64)"

text \<open>The two unique keys; NULLs are distinct.\<close>

definition same_lesson :: "observation \<Rightarrow> observation \<Rightarrow> bool" where
  "same_lesson a b \<longleftrightarrow> ob_observer a = ob_observer b \<and>
     (ob_occurrence a \<noteq> None \<and> ob_occurrence a = ob_occurrence b \<or>
      ob_sections_key a \<noteq> None \<and> ob_sections_key a = ob_sections_key b \<and> ob_course a = ob_course b \<and> ob_date a = ob_date b)"

definition filled :: "int \<Rightarrow> prepared \<Rightarrow> bool \<Rightarrow> int \<Rightarrow> observation \<Rightarrow> observation" where
  "filled day p anon now o' = o'\<lparr>ob_template := pp_template p, ob_occurrence := pp_occurrence p, ob_course := pp_course p,
     ob_classroom := pp_classroom p, ob_date := day, ob_sections := pp_sections p, ob_sections_key := pp_sections_key p,
     ob_scores := fs_scores (pp_summary p), ob_total := fs_total (pp_summary p), ob_content := fs_content (pp_summary p),
     ob_form := pp_form p, ob_snapshot := pp_snapshot p, ob_anonymous := anon, ob_remark := fs_remark (pp_summary p),
     ob_updated_at := now\<rparr>"

definition new_observation :: "int \<Rightarrow> int \<Rightarrow> prepared \<Rightarrow> bool \<Rightarrow> int \<Rightarrow> int \<Rightarrow> observation" where
  "new_observation i day p anon observer now = \<lparr>ob_id = i, ob_template = pp_template p, ob_occurrence = pp_occurrence p,
     ob_course = pp_course p, ob_classroom = pp_classroom p, ob_observer = observer, ob_date = day, ob_sections = pp_sections p,
     ob_sections_key = pp_sections_key p, ob_status = ''draft'', ob_scores = fs_scores (pp_summary p),
     ob_total = fs_total (pp_summary p), ob_content = fs_content (pp_summary p), ob_form = pp_form p,
     ob_snapshot = pp_snapshot p, ob_anonymous = anon, ob_remark = fs_remark (pp_summary p), ob_exported_at = None,
     ob_created_at = now, ob_updated_at = now\<rparr>"

definition insert_observation ::
  "(string \<Rightarrow> int option) \<Rightarrow> int \<Rightarrow> prepared \<Rightarrow> bool \<Rightarrow> int \<Rightarrow> obs_db \<Rightarrow> int written \<times> obs_db" where
  "insert_observation pg_date now p anon observer d = (case pg_date (pp_date p) of
     None \<Rightarrow> (Rejected, d)
   | Some day \<Rightarrow>
     let o' = new_observation (ob_next d) day p anon observer now
     in if \<not> obs_texts_ok p \<or> \<not> obs_widths_ok p then (Rejected, d)
        else if list_ex (same_lesson o') (ob_rows d) then (Duplicate, d)
        else (Done (ob_next d), d\<lparr>ob_rows := ob_rows d @ [o'], ob_next := ob_next d + 1\<rparr>))"

text \<open>\<open>UPDATE ... WHERE id = AND status = draft\<close>; the id is a key.\<close>

definition update_observation_row ::
  "(string \<Rightarrow> int option) \<Rightarrow> int \<Rightarrow> int \<Rightarrow> prepared \<Rightarrow> bool \<Rightarrow> obs_db \<Rightarrow> int written \<times> obs_db" where
  "update_observation_row pg_date now i p anon d = (case pg_date (pp_date p) of
     None \<Rightarrow> (Rejected, d)
   | Some day \<Rightarrow>
     let hit = (\<lambda>o'. ob_id o' = i \<and> ob_status o' = ''draft'')
     in if \<not> obs_texts_ok p then (Rejected, d)
        else (case List.find hit (ob_rows d) of
          None \<Rightarrow> (Done 0, d)
        | Some old \<Rightarrow>
          if \<not> obs_widths_ok p then (Rejected, d)
          else if list_ex (\<lambda>x. ob_id x \<noteq> i \<and> same_lesson (filled day p anon now old) x) (ob_rows d) then (Duplicate, d)
          else (Done 1, d\<lparr>ob_rows := map (\<lambda>o'. if hit o' then filled day p anon now o' else o') (ob_rows d)\<rparr>)))"

definition submit_row :: "int \<Rightarrow> int \<Rightarrow> obs_db \<Rightarrow> unit \<times> obs_db" where
  "submit_row now i d = ((), d\<lparr>ob_rows := map (\<lambda>o'. if ob_id o' = i \<and> ob_status o' = ''draft''
     then o'\<lparr>ob_status := ''submitted'', ob_updated_at := now\<rparr> else o') (ob_rows d)\<rparr>)"

definition delete_observation_row :: "int \<Rightarrow> obs_db \<Rightarrow> int \<times> obs_db" where
  "delete_observation_row i d =
     (int (length (filter (\<lambda>o'. ob_id o' = i \<and> ob_status o' = ''draft'') (ob_rows d))),
      d\<lparr>ob_rows := filter (\<lambda>o'. \<not> (ob_id o' = i \<and> ob_status o' = ''draft'')) (ob_rows d)\<rparr>)"

definition exported_row :: "int \<Rightarrow> int \<Rightarrow> obs_db \<Rightarrow> unit \<times> obs_db" where
  "exported_row now i d = ((), d\<lparr>ob_rows := map (\<lambda>o'. if ob_id o' = i
     then o'\<lparr>ob_exported_at := Some now, ob_updated_at := now\<rparr> else o') (ob_rows d)\<rparr>)"

subsection \<open>Store\<close>

text \<open>\<open>obs_env\<close> collects the parameters of the store.\<close>

record obs_env =
  oe_json :: json_lib
  oe_sha :: "string \<Rightarrow> string"
  oe_date :: "string \<Rightarrow> int option"

definition create_observation :: "obs_env \<Rightarrow> int \<Rightarrow> observation_input \<Rightarrow> int \<Rightarrow> string \<Rightarrow> observation_view obs_action" where
  "create_observation env now inp observer name =
     dbind (prepare_obs (oe_json env) (oe_sha env) inp observer name) (\<lambda>p.
     dbind (stmt (ObsDb ''create observation'') (insert_observation (oe_date env) now p (oin_anonymous inp) observer)) (\<lambda>r. case r of
       Duplicate \<Rightarrow> draise ObsDuplicate
     | Rejected \<Rightarrow> draise (ObsDb ''create observation'')
     | Done i \<Rightarrow> get_observation i))"

definition update_observation ::
  "obs_env \<Rightarrow> int \<Rightarrow> int \<Rightarrow> observation_input \<Rightarrow> int \<Rightarrow> string \<Rightarrow> observation_view obs_action" where
  "update_observation env now i inp actor name =
     dbind (get_observation i) (\<lambda>existing.
     if ob_observer (ow_row existing) \<noteq> actor then draise ObsForbidden
     else if ob_status (ow_row existing) \<noteq> ''draft'' then draise ObsSubmitted
     else dbind (prepare_obs (oe_json env) (oe_sha env) inp (ob_observer (ow_row existing)) name) (\<lambda>p.
          dbind (stmt (ObsDb ''update observation'') (update_observation_row (oe_date env) now i p (oin_anonymous inp))) (\<lambda>r. case r of
            Duplicate \<Rightarrow> draise ObsDuplicate
          | Rejected \<Rightarrow> draise (ObsDb ''update observation'')
          | Done n \<Rightarrow>
            if n = 0 then dbind (get_observation i) (\<lambda>v. if ob_status (ow_row v) \<noteq> ''draft'' then draise ObsSubmitted else dret v)
            else get_observation i)))"

definition submit_observation :: "int \<Rightarrow> int \<Rightarrow> int \<Rightarrow> observation_view obs_action" where
  "submit_observation now i actor =
     dbind (get_observation i) (\<lambda>v.
     if ob_observer (ow_row v) \<noteq> actor then draise ObsForbidden
     else if ob_status (ow_row v) = ''submitted'' then dret v
     else dbind (stmt (ObsDb ''submit observation'') (submit_row now i)) (\<lambda>_. get_observation i))"

definition delete_observation :: "int \<Rightarrow> int \<Rightarrow> unit obs_action" where
  "delete_observation i actor =
     dbind (get_observation i) (\<lambda>v.
     if ob_observer (ow_row v) \<noteq> actor then draise ObsForbidden
     else if ob_status (ow_row v) \<noteq> ''draft'' then draise ObsSubmitted
     else dbind (stmt (ObsDb ''delete observation'') (delete_observation_row i)) (\<lambda>n.
          if n = 0 then draise ObsNotFound else dret ()))"

definition mark_exported :: "int \<Rightarrow> int \<Rightarrow> unit obs_action" where
  "mark_exported now i = stmt (ObsDb ''mark observation exported'') (exported_row now i)"

definition observation_where :: "obs_filter \<Rightarrow> string \<Rightarrow> int \<Rightarrow> bool \<Rightarrow> string \<times> sql_arg list" where
  "observation_where f q observer admin =
     (let qa = ('' WHERE 1=1'', []);
          qa = (if \<not> admin then bind_arg_text '' AND ob.observer_id = '' (AInt observer) [] qa else qa);
          qa = (if obf_status f \<noteq> [] then bind_arg_text '' AND ob.status = '' (AStr (obf_status f)) [] qa else qa);
          qa = (if obf_template f \<noteq> [] then bind_arg_text '' AND ob.template_type = '' (AStr (obf_template f)) [] qa else qa);
          qa = (if obf_course f > 0 then bind_arg_text '' AND ob.course_id = '' (AInt (obf_course f)) [] qa else qa);
          qa = (if obf_from f \<noteq> [] then bind_arg_text '' AND ob.observe_date >= '' (AStr (obf_from f)) [] qa else qa);
          qa = (if obf_to f \<noteq> [] then bind_arg_text '' AND ob.observe_date <= '' (AStr (obf_to f)) [] qa else qa)
      in if q \<noteq> []
         then let pat = AStr (like_pattern (escape_like q))
              in bind_arg_text '' OR cr.name ILIKE '' pat '')''
                   (bind_arg_text '' OR u.display_name ILIKE '' pat []
                     (bind_arg_text '' OR tc.name ILIKE '' pat []
                       (bind_arg_text '' OR ofr.teacher ILIKE '' pat []
                         (bind_arg_text '' OR c.code ILIKE '' pat []
                           (bind_arg_text '' AND (c.name ILIKE '' pat [] qa)))))
         else qa)"

definition observation_selected ::
  "(char \<Rightarrow> char \<Rightarrow> bool) \<Rightarrow> obs_filter \<Rightarrow> string \<Rightarrow> int \<Rightarrow> bool \<Rightarrow> int option \<Rightarrow> int option \<Rightarrow> observation_view \<Rightarrow> bool" where
  "observation_selected eq f q observer admin lo hi v \<longleftrightarrow> (let o' = ow_row v in
     (\<not> admin \<longrightarrow> ob_observer o' = observer) \<and>
     (obf_status f \<noteq> [] \<longrightarrow> ob_status o' = obf_status f) \<and>
     (obf_template f \<noteq> [] \<longrightarrow> ob_template o' = obf_template f) \<and>
     (obf_course f > 0 \<longrightarrow> ob_course o' = obf_course f) \<and>
     (case lo of None \<Rightarrow> True | Some x \<Rightarrow> ob_date o' \<ge> x) \<and>
     (case hi of None \<Rightarrow> True | Some x \<Rightarrow> ob_date o' \<le> x) \<and>
     (q \<noteq> [] \<longrightarrow> contains eq q (ow_course_name v) \<or> contains eq q (ow_course_code v) \<or> contains eq q (ow_teacher v) \<or>
        contains eq q (ow_class_name v) \<or> contains eq q (ow_observer_name v) \<or> contains eq q (ow_classroom_name v)))"

definition select_observations ::
  "(string \<Rightarrow> int option) \<Rightarrow> (char \<Rightarrow> char \<Rightarrow> bool) \<Rightarrow> obs_filter \<Rightarrow> string \<Rightarrow> int \<Rightarrow> bool \<Rightarrow> obs_db \<Rightarrow> observation_view list option" where
  "select_observations pg_date eq f q observer admin d =
     (if \<not> nul_free [obf_status f, obf_template f, q] then None
      else Option.bind (date_bound pg_date (obf_from f)) (\<lambda>lo.
           Option.bind (date_bound pg_date (obf_to f)) (\<lambda>hi.
           Some (filter (observation_selected eq f q observer admin lo hi)
             (List.map_filter (observation_view_of d) (sort_key (\<lambda>o'. (- ob_date o', - ob_id o')) (ob_rows d)))))))"

definition page_observations ::
  "(string \<Rightarrow> int option) \<Rightarrow> (char \<Rightarrow> char \<Rightarrow> bool) \<Rightarrow> obs_filter \<Rightarrow> string \<Rightarrow> int \<Rightarrow> bool \<Rightarrow> pagination \<Rightarrow>
   (observation_view list \<times> int) obs_action" where
  "page_observations pg_date eq f q observer admin p =
     dbind (query_row (ObsDb ''page observations'') (ObsDb ''page observations'')
        (\<lambda>d. Option.bind (select_observations pg_date eq f q observer admin d) (limit_rows p))) (\<lambda>vs.
     dbind (query_row (ObsDb ''count rows'') (ObsDb ''count rows'')
        (\<lambda>d. map_option (\<lambda>vs. int (length vs)) (select_observations pg_date eq f q observer admin d))) (\<lambda>n.
     dret (vs, n)))"

subsection \<open>Handlers\<close>

definition observation_routes :: "(string \<times> string list) list" where
  "observation_routes = [
     (''GET /api/observations/templates'', [''observation:read'', ''observation:manage'']),
     (''GET /api/observations'', [''observation:read'', ''observation:manage'']),
     (''POST /api/observations'', [''observation:write'']),
     (''GET /api/observations/{id}'', [''observation:read'', ''observation:manage'']),
     (''PUT /api/observations/{id}'', [''observation:write'']),
     (''DELETE /api/observations/{id}'', [''observation:write'']),
     (''POST /api/observations/{id}/submit'', [''observation:write'']),
     (''POST /api/observations/{id}/export'', [''observation:read'', ''observation:manage''])]"

definition obs_admin :: "subject \<Rightarrow> bool" where
  "obs_admin sub \<longleftrightarrow> has_perm sub ''observation:manage''"

definition obs_own :: "subject \<Rightarrow> observation_view \<Rightarrow> bool" where
  "obs_own sub v \<longleftrightarrow> sj_id sub = ob_observer (ow_row v)"

definition templates_h :: "'t renderer option \<Rightarrow> obs_db conn \<Rightarrow> 't response \<times> obs_db conn" where
  "templates_h rd c = (case rd of
     None \<Rightarrow> (RespError 501 ''observation document backend not configured'', c)
   | Some r \<Rightarrow> (case rd_templates r of
       None \<Rightarrow> (RespError 500 ''could not load observation templates'', c) | Some t \<Rightarrow> (RespJSON 200 t, c)))"

definition obs_filter_of :: "(string \<Rightarrow> string) \<Rightarrow> obs_filter" where
  "obs_filter_of q = \<lparr>obf_status = trim_space (q ''status''), obf_template = trim_space (q ''template_type''),
     obf_course = parse_int_value (trim_space (q ''course_id'')), obf_from = trim_space (q ''start_date''), obf_to = trim_space (q ''end_date'')\<rparr>"

definition listObservations_h ::
  "obs_env \<Rightarrow> (char \<Rightarrow> char \<Rightarrow> bool) \<Rightarrow> subject \<Rightarrow> (string \<Rightarrow> string) \<Rightarrow> obs_db conn \<Rightarrow>
   (observation_view list \<times> int \<times> page_params) response \<times> obs_db conn" where
  "listObservations_h env eq sub q c =
     (let f = obs_filter_of q; p = parse_page_params q
      in if obf_from f \<noteq> [] \<and> parse_date (obf_from f) = None then (RespError 400 ''invalid start_date (use YYYY-MM-DD)'', c)
         else if obf_to f \<noteq> [] \<and> parse_date (obf_to f) = None then (RespError 400 ''invalid end_date (use YYYY-MM-DD)'', c)
         else (case page_observations (oe_date env) eq f (parse_search q) (sj_id sub) (obs_admin sub) (page_of p) c of
             (Inl _, c') \<Rightarrow> (RespError 500 ''could not list observations'', c')
           | (Inr (vs, n), c') \<Rightarrow> (RespJSON 200 (vs, n, p), c')))"

definition getObservation_h :: "subject \<Rightarrow> string \<Rightarrow> obs_db conn \<Rightarrow> observation_view response \<times> obs_db conn" where
  "getObservation_h sub path_id c = (case atoi path_id of
     None \<Rightarrow> (RespError 400 ''invalid observation id'', c)
   | Some i \<Rightarrow> (case get_observation i c of
       (Inl ObsNotFound, c') \<Rightarrow> (RespError 404 ''observation not found'', c')
     | (Inl _, c') \<Rightarrow> (RespError 500 ''could not load observation'', c')
     | (Inr v, c') \<Rightarrow> if \<not> obs_admin sub \<and> \<not> obs_own sub v then (RespError 404 ''observation not found'', c')
                    else (RespJSON 200 v, c')))"

text \<open>The answers that creating and editing share.\<close>

definition obs_refusal :: "obs_error \<Rightarrow> string \<Rightarrow> int \<times> string" where
  "obs_refusal e other = (case e of
     ObsNoCourse \<Rightarrow> (400, ''course offering not found'')
   | ObsNoSession \<Rightarrow> (400, ''session not found'')
   | ObsNoClassroom \<Rightarrow> (400, ''classroom not found'')
   | ObsSessionMismatch \<Rightarrow> (400, ''session does not belong to the course offering'')
   | ObsClassroomMismatch \<Rightarrow> (400, ''classroom does not match the session'')
   | ObsDuplicate \<Rightarrow> (409, hx ''e8afa5e88a82e8afbee5b7b2e5ad98e59ca8e8af84e8afbee8aeb0e5bd95efbc8ce4b88de883bde9878de5a48de8af84e8afbee38082'')
   | _ \<Rightarrow> (500, other))"

definition createObservation_h ::
  "obs_env \<Rightarrow> int \<Rightarrow> subject \<Rightarrow> observation_input option \<Rightarrow> obs_db conn \<Rightarrow> observation_view response \<times> obs_db conn" where
  "createObservation_h env now sub body c = (case body of
     None \<Rightarrow> (RespError 400 ''invalid request body'', c)
   | Some inp \<Rightarrow> (case create_observation env now inp (sj_id sub) (sj_display_name sub) c of
       (Inl e, c') \<Rightarrow> (case obs_refusal e ''could not create observation'' of (n, msg) \<Rightarrow> (RespError n msg, c'))
     | (Inr v, c') \<Rightarrow> (RespJSON 201 v, c')))"

definition updateObservation_h ::
  "obs_env \<Rightarrow> int \<Rightarrow> subject \<Rightarrow> string \<Rightarrow> observation_input option \<Rightarrow> obs_db conn \<Rightarrow> observation_view response \<times> obs_db conn" where
  "updateObservation_h env now sub path_id body c = (case atoi path_id of
     None \<Rightarrow> (RespError 400 ''invalid observation id'', c)
   | Some i \<Rightarrow> (case body of
       None \<Rightarrow> (RespError 400 ''invalid request body'', c)
     | Some inp \<Rightarrow> (case update_observation env now i inp (sj_id sub) (sj_display_name sub) c of
         (Inl ObsNotFound, c') \<Rightarrow> (RespError 404 ''observation not found'', c')
       | (Inl ObsForbidden, c') \<Rightarrow> (RespError 403 ''only the observer can edit this observation'', c')
       | (Inl ObsSubmitted, c') \<Rightarrow> (RespError 409 ''submitted observation cannot be edited'', c')
       | (Inl e, c') \<Rightarrow> (case obs_refusal e ''could not update observation'' of (n, msg) \<Rightarrow> (RespError n msg, c'))
       | (Inr v, c') \<Rightarrow> (RespJSON 200 v, c'))))"

definition deleteObservation_h :: "subject \<Rightarrow> string \<Rightarrow> obs_db conn \<Rightarrow> unit response \<times> obs_db conn" where
  "deleteObservation_h sub path_id c = (case atoi path_id of
     None \<Rightarrow> (RespError 400 ''invalid observation id'', c)
   | Some i \<Rightarrow> (case delete_observation i (sj_id sub) c of
       (Inl ObsNotFound, c') \<Rightarrow> (RespError 404 ''observation not found'', c')
     | (Inl ObsForbidden, c') \<Rightarrow> (RespError 403 ''only the observer can delete this observation'', c')
     | (Inl ObsSubmitted, c') \<Rightarrow> (RespError 409 ''submitted observation cannot be deleted'', c')
     | (Inl _, c') \<Rightarrow> (RespError 500 ''could not delete observation'', c')
     | (Inr _, c') \<Rightarrow> (RespJSON 204 (), c')))"

text \<open>Submitting answers a record, or the required fields that are missing.\<close>

datatype submit_answer = Submitted observation_view | MissingFields "string list"

definition submitObservation_h ::
  "'t renderer option \<Rightarrow> int \<Rightarrow> subject \<Rightarrow> string \<Rightarrow> obs_db conn \<Rightarrow> submit_answer response \<times> obs_db conn" where
  "submitObservation_h rd now sub path_id c = (case atoi path_id of
     None \<Rightarrow> (RespError 400 ''invalid observation id'', c)
   | Some i \<Rightarrow> (case get_observation i c of
       (Inl ObsNotFound, c') \<Rightarrow> (RespError 404 ''observation not found'', c')
     | (Inl _, c') \<Rightarrow> (RespError 500 ''could not load observation'', c')
     | (Inr v, c1) \<Rightarrow>
       if ob_observer (ow_row v) \<noteq> sj_id sub then (RespError 403 ''only the observer can submit this observation'', c1)
       else (case (case rd of None \<Rightarrow> Some [] | Some r \<Rightarrow> rd_validate r (ow_row v)) of
           None \<Rightarrow> (RespError 500 ''could not validate observation'', c1)
         | Some missing \<Rightarrow>
           if missing \<noteq> [] then (RespJSON 400 (MissingFields missing), c1)
           else (case submit_observation now i (sj_id sub) c1 of
               (Inl ObsNotFound, c') \<Rightarrow> (RespError 404 ''observation not found'', c')
             | (Inl ObsForbidden, c') \<Rightarrow> (RespError 403 ''only the observer can submit this observation'', c')
             | (Inl _, c') \<Rightarrow> (RespError 500 ''could not submit observation'', c')
             | (Inr v', c') \<Rightarrow> (RespJSON 200 (Submitted v'), c')))))"

text \<open>The export answers the file name and the document.\<close>

definition exportObservation_h ::
  "'t renderer option \<Rightarrow> int \<Rightarrow> subject \<Rightarrow> string \<Rightarrow> obs_db conn \<Rightarrow> (string \<times> string) response \<times> obs_db conn" where
  "exportObservation_h rd now sub path_id c = (case atoi path_id of
     None \<Rightarrow> (RespError 400 ''invalid observation id'', c)
   | Some i \<Rightarrow> (case get_observation i c of
       (Inl ObsNotFound, c') \<Rightarrow> (RespError 404 ''observation not found'', c')
     | (Inl _, c') \<Rightarrow> (RespError 500 ''could not load observation'', c')
     | (Inr v, c1) \<Rightarrow>
       if \<not> obs_admin sub \<and> \<not> obs_own sub v then (RespError 404 ''observation not found'', c1)
       else if ob_status (ow_row v) \<noteq> ''submitted'' then (RespError 400 ''only submitted observation can be exported'', c1)
       else (case rd of
           None \<Rightarrow> (RespError 501 ''observation document backend not configured'', c1)
         | Some r \<Rightarrow> (case rd_render r (ow_row v) of
             None \<Rightarrow> (RespError 500 ''could not render observation document'', c1)
           | Some doc \<Rightarrow> (case mark_exported now i c1 of
               (Inl _, c') \<Rightarrow> (RespError 500 ''could not record export'', c')
             | (Inr _, c') \<Rightarrow> (RespJSON 200 (''observation-'' @ itoa i @ ''-'' @ ob_template (ow_row v) @ ''.docx'', doc), c'))))))"


subsection \<open>Atomic steps\<close>

text \<open>What one request of the user \<open>who\<close> can do to the table, in one statement.\<close>

inductive obs_step :: "int \<Rightarrow> obs_db \<Rightarrow> obs_db \<Rightarrow> bool" for who :: int and d :: obs_db where
  add: "ob_id o' = ob_next d \<Longrightarrow> ob_status o' = ''draft'' \<Longrightarrow> ob_observer o' = who \<Longrightarrow> (\<forall>x\<in>set (ob_rows d). \<not> same_lesson o' x) \<Longrightarrow>
    obs_step who d (d\<lparr>ob_rows := ob_rows d @ [o'], ob_next := ob_next d + 1\<rparr>)"
| edit: "old \<in> set (ob_rows d) \<Longrightarrow> ob_status old = ''draft'' \<Longrightarrow> ob_observer old = who \<Longrightarrow> ob_id new = ob_id old \<Longrightarrow>
    ob_status new = ''draft'' \<Longrightarrow> ob_observer new = who \<Longrightarrow> (\<forall>x\<in>set (ob_rows d). x \<noteq> old \<longrightarrow> \<not> same_lesson new x) \<Longrightarrow>
    obs_step who d (d\<lparr>ob_rows := map (\<lambda>x. if x = old then new else x) (ob_rows d)\<rparr>)"
| submit: "old \<in> set (ob_rows d) \<Longrightarrow> ob_status old = ''draft'' \<Longrightarrow> ob_observer old = who \<Longrightarrow>
    obs_step who d (d\<lparr>ob_rows := map (\<lambda>x. if x = old then x\<lparr>ob_status := ''submitted'', ob_updated_at := now\<rparr> else x) (ob_rows d)\<rparr>)"
| drop: "old \<in> set (ob_rows d) \<Longrightarrow> ob_status old = ''draft'' \<Longrightarrow> ob_observer old = who \<Longrightarrow>
    obs_step who d (d\<lparr>ob_rows := filter (\<lambda>x. x \<noteq> old) (ob_rows d)\<rparr>)"
| export: "obs_step who d (d\<lparr>ob_rows := map (\<lambda>x. if ob_id x = i then x\<lparr>ob_exported_at := Some now, ob_updated_at := now\<rparr> else x) (ob_rows d)\<rparr>)"

inductive_cases obs_stepE: "obs_step who d d'"

definition obs_keys :: "obs_db \<Rightarrow> bool" where
  "obs_keys d \<longleftrightarrow> distinct (map ob_id (ob_rows d))"

lemma obs_key_unique:
  "obs_keys d \<Longrightarrow> r \<in> set (ob_rows d) \<Longrightarrow> x \<in> set (ob_rows d) \<Longrightarrow> ob_id x = ob_id r \<longleftrightarrow> x = r"
  unfolding obs_keys_def distinct_map using inj_onD by metis

lemma find_observation_mem: "find_observation d i = Some r \<Longrightarrow> r \<in> set (ob_rows d) \<and> ob_id r = i"
  by (auto simp: find_observation_def find_Some_iff)

lemma row_of_id:
  "obs_keys d \<Longrightarrow> find_observation d i = Some r \<Longrightarrow> x \<in> set (ob_rows d) \<Longrightarrow> ob_id x = i \<longleftrightarrow> x = r"
  using obs_key_unique find_observation_mem by blast

lemma get_observation_Inr:
  "get_observation i c = (Inr v, c') \<Longrightarrow> find_observation (tables c) i = Some (ow_row v) \<and> tables c' = tables c"
  unfolding get_observation_def
  by (drule query_row_Inr) (auto simp: observation_view_of_def bind_eq_Some_conv)

lemma prepare_reads:
  "reads (prepare_session inp v)" "reads (prepare_date inp s)" "reads (prepare_sections inp s)" "reads (prepare_classroom inp s)"
  unfolding prepare_session_def session_info_def prepare_date_def Let_def prepare_sections_def prepare_classroom_def classroom_info_def
  by (intro reads_intros) (intro reads_intros, auto intro!: reads_intros reads_dtry split: option.split sum.split)

lemma obs_reads:
  "reads (get_observation i)" "reads (prepare_obs js sha inp observer name)" "reads (page_observations pg_date eq f q u a p)"
  unfolding get_observation_def prepare_obs_def offering_info_def page_observations_def
  by (intro reads_intros prepare_reads)+

text \<open>The step of a request, given that ids are keys.\<close>

abbreviation obs_move :: "int \<Rightarrow> obs_db \<Rightarrow> obs_db \<Rightarrow> bool" where
  "obs_move who d d' \<equiv> obs_keys d \<longrightarrow> obs_step who d d' \<or> d' = d"

lemma insert_moves: "obs_move who d (snd (insert_observation pg_date now p anon who d))"
  by (auto simp: insert_observation_def Let_def list_ex_iff new_observation_def split: option.split intro!: obs_step.add)

lemma update_moves:
  assumes r: "find_observation d i = Some r" and who: "ob_observer r = who"
  shows "obs_move who d (snd (update_observation_row pg_date now i p anon d))"
proof
  assume k: "obs_keys d"
  show "obs_step who d (snd (update_observation_row pg_date now i p anon d)) \<or> snd (update_observation_row pg_date now i p anon d) = d"
  proof (cases "\<exists>day old. pg_date (pp_date p) = Some day \<and> List.find (\<lambda>o'. ob_id o' = i \<and> ob_status o' = ''draft'') (ob_rows d) = Some old
      \<and> obs_texts_ok p \<and> obs_widths_ok p \<and> \<not> list_ex (\<lambda>x. ob_id x \<noteq> i \<and> same_lesson (filled day p anon now old) x) (ob_rows d)")
    case False
    then show ?thesis
      by (auto simp: update_observation_row_def Let_def split: option.splits)
  next
    case True
    then obtain day old where day: "pg_date (pp_date p) = Some day"
      and f: "List.find (\<lambda>o'. ob_id o' = i \<and> ob_status o' = ''draft'') (ob_rows d) = Some old"
      and ok: "obs_texts_ok p" "obs_widths_ok p"
      and new: "\<not> list_ex (\<lambda>x. ob_id x \<noteq> i \<and> same_lesson (filled day p anon now old) x) (ob_rows d)" by blast
    have old: "old \<in> set (ob_rows d)" "ob_id old = i" "ob_status old = ''draft''"
      using f by (auto simp: find_Some_iff)
    have only: "ob_id x = i \<longleftrightarrow> x = old" if "x \<in> set (ob_rows d)" for x
      using obs_key_unique [OF k old(1) that] old(2) by simp
    have "old = r" using row_of_id [OF k r old(1)] old(2) by simp
    have eq: "snd (update_observation_row pg_date now i p anon d) =
        d\<lparr>ob_rows := map (\<lambda>o'. if ob_id o' = i \<and> ob_status o' = ''draft'' then filled day p anon now o' else o') (ob_rows d)\<rparr>"
      unfolding update_observation_row_def Let_def using day f ok new by simp
    have rows: "map (\<lambda>o'. if ob_id o' = i \<and> ob_status o' = ''draft'' then filled day p anon now o' else o') (ob_rows d) =
        map (\<lambda>x. if x = old then filled day p anon now old else x) (ob_rows d)"
      by (rule map_cong) (use only old(3) in auto)
    have "obs_step who d (d\<lparr>ob_rows := map (\<lambda>x. if x = old then filled day p anon now old else x) (ob_rows d)\<rparr>)"
      by (rule obs_step.edit) (use old \<open>old = r\<close> who new only in \<open>auto simp: filled_def list_ex_iff\<close>)
    then show ?thesis unfolding eq rows by (rule disjI1)
  qed
qed

lemma submit_moves:
  assumes r: "find_observation d i = Some r" and who: "ob_observer r = who"
  shows "obs_move who d (snd (submit_row now i d))"
proof
  assume k: "obs_keys d"
  have rows: "map (\<lambda>o'. if ob_id o' = i \<and> ob_status o' = ''draft'' then o'\<lparr>ob_status := ''submitted'', ob_updated_at := now\<rparr> else o') (ob_rows d) =
      (if ob_status r = ''draft'' then map (\<lambda>x. if x = r then x\<lparr>ob_status := ''submitted'', ob_updated_at := now\<rparr> else x) (ob_rows d) else ob_rows d)"
    using row_of_id [OF k r] by (auto intro!: map_idI)
  show "obs_step who d (snd (submit_row now i d)) \<or> snd (submit_row now i d) = d"
    unfolding submit_row_def snd_conv rows
    using obs_step.submit [of r d who now] find_observation_mem [OF r] who by simp
qed

lemma delete_moves:
  assumes r: "find_observation d i = Some r" and who: "ob_observer r = who"
  shows "obs_move who d (snd (delete_observation_row i d))"
proof
  assume k: "obs_keys d"
  have rows: "filter (\<lambda>o'. \<not> (ob_id o' = i \<and> ob_status o' = ''draft'')) (ob_rows d) =
      (if ob_status r = ''draft'' then filter (\<lambda>x. x \<noteq> r) (ob_rows d) else ob_rows d)"
    using row_of_id [OF k r] by (auto intro!: filter_cong filter_True)
  show "obs_step who d (snd (delete_observation_row i d)) \<or> snd (delete_observation_row i d) = d"
    unfolding delete_observation_row_def snd_conv rows
    using obs_step.drop [of r d who] find_observation_mem [OF r] who by simp
qed

lemma exported_moves: "obs_move who d (snd (exported_row now i d))"
  by (simp add: exported_row_def obs_step.export)

text \<open>A store call that first loads the record, then makes a step that the record allows.\<close>

lemma once_loaded:
  assumes "\<And>v. once (\<lambda>d d'. find_observation d i = Some (ow_row v) \<longrightarrow> S d d') (f v)"
  shows "once S (dbind (get_observation i) f)"
  by (rule once_guarded [where G = "\<lambda>v d. find_observation d i = Some (ow_row v)", OF obs_reads(1) _ assms])
    (drule get_observation_Inr, simp)

lemma once_refuse: "(\<not> b \<Longrightarrow> once S m) \<Longrightarrow> once S (if b then draise e else m)"
  by (simp add: once_reads reads_intros)

lemma obs_store_once:
  "once (obs_move who) (create_observation env now inp who name)" "once (obs_move who) (update_observation env now i inp who name)"
  "once (obs_move who) (submit_observation now i who)" "once (obs_move who) (delete_observation i who)"
  "once (obs_move who) (mark_exported now i)"
proof -
  show "once (obs_move who) (create_observation env now inp who name)"
    unfolding create_observation_def
    by (rule once_after_reads [OF obs_reads(2)], rule once_then_reads, rule once_stmt, rule insert_moves)
      (intro reads_intros obs_reads)
  show "once (obs_move who) (update_observation env now i inp who name)"
    unfolding update_observation_def
    by (rule once_loaded, (rule once_refuse)+, rule once_after_reads [OF obs_reads(2)], rule once_then_reads, rule once_stmt)
      (rule impI, erule update_moves, simp, intro reads_intros obs_reads)
  show "once (obs_move who) (submit_observation now i who)"
    unfolding submit_observation_def
    by (rule once_loaded, rule once_refuse, rule once_if, rule once_reads, rule reads_simple, rule once_then_reads, rule once_stmt)
      (rule impI, erule submit_moves, simp, intro reads_intros obs_reads)
  show "once (obs_move who) (delete_observation i who)"
    unfolding delete_observation_def
    by (rule once_loaded, (rule once_refuse)+, rule once_then_reads, rule once_stmt)
      (rule impI, erule delete_moves, simp, intro reads_intros obs_reads)
  show "once (obs_move who) (mark_exported now i)"
    unfolding mark_exported_def by (rule once_stmt) (rule exported_moves)
qed

subsection \<open>Requests\<close>

text \<open>A handler makes at most the one step of its store call.\<close>

lemma obs_handlers_by_store:
  "(\<And>inp name. once S (create_observation env now inp (sj_id sub) name)) \<Longrightarrow> once S (createObservation_h env now sub body)"
  "(\<And>i inp name. once S (update_observation env now i inp (sj_id sub) name)) \<Longrightarrow> once S (updateObservation_h env now sub pid body)"
  "(\<And>i. once S (delete_observation i (sj_id sub))) \<Longrightarrow> once S (deleteObservation_h sub pid)"
  "(\<And>i. once S (submit_observation now i (sj_id sub))) \<Longrightarrow> once S (submitObservation_h rd now sub pid)"
  "(\<And>i. once S (mark_exported now i)) \<Longrightarrow> once S (exportObservation_h rd now sub pid)"
proof -
  show "once S (createObservation_h env now sub body)" if "\<And>inp name. once S (create_observation env now inp (sj_id sub) name)"
    unfolding createObservation_h_def
    by (intro once_h_option once_idle once_call that) (simp split: sum.split prod.split)
  show "once S (updateObservation_h env now sub pid body)" if "\<And>i inp name. once S (update_observation env now i inp (sj_id sub) name)"
    unfolding updateObservation_h_def
    by (intro once_h_option once_idle once_call that) (simp split: sum.split obs_error.split prod.split)
  show "once S (deleteObservation_h sub pid)" if "\<And>i. once S (delete_observation i (sj_id sub))"
    unfolding deleteObservation_h_def
    by (intro once_h_option once_idle once_call that) (simp split: sum.split obs_error.split)
  have failed: "once S (\<lambda>c. case e of ObsNotFound \<Rightarrow> (a, c) | _ \<Rightarrow> (b, c))" for e and a b :: "'r response"
    by (cases e) (simp_all add: once_idle)
  show "once S (submitObservation_h rd now sub pid)" if store: "\<And>i. once S (submit_observation now i (sj_id sub))"
  proof -
    have locked: "once S (\<lambda>c. case submit_observation now i (sj_id sub) c of
        (Inl ObsNotFound, c') \<Rightarrow> (RespError 404 ''observation not found'', c')
      | (Inl ObsForbidden, c') \<Rightarrow> (RespError 403 ''only the observer can submit this observation'', c')
      | (Inl _, c') \<Rightarrow> (RespError 500 ''could not submit observation'', c')
      | (Inr v', c') \<Rightarrow> (RespJSON 200 (Submitted v'), c'))" for i
      by (intro once_call store) (simp split: sum.split obs_error.split)
    show ?thesis unfolding submitObservation_h_def
      by (rule once_h_option, rule once_idle, rule once_lookup, rule obs_reads, rule once_h_sum, rule failed)
        (intro once_h_if once_h_option once_idle locked)
  qed
  show "once S (exportObservation_h rd now sub pid)" if store: "\<And>i. once S (mark_exported now i)"
  proof -
    have stamped: "once S (\<lambda>c. case mark_exported now i c of
        (Inl _, c') \<Rightarrow> (RespError 500 ''could not record export'', c')
      | (Inr _, c') \<Rightarrow> (RespJSON 200 (''observation-'' @ itoa i @ ''-'' @ t @ ''.docx'', doc), c'))" for i t doc
      by (intro once_call store) (simp split: sum.split)
    show ?thesis unfolding exportObservation_h_def
      by (rule once_h_option, rule once_idle, rule once_lookup, rule obs_reads, rule once_h_sum, rule failed)
        (intro once_h_if once_h_option once_idle stamped)
  qed
qed

lemmas obs_handlers_once = obs_handlers_by_store(1) [OF obs_store_once(1)] obs_handlers_by_store(2) [OF obs_store_once(2)]
  obs_handlers_by_store(3) [OF obs_store_once(4)] obs_handlers_by_store(4) [OF obs_store_once(3)]
  obs_handlers_by_store(5) [OF obs_store_once(5)]

text \<open>
  A request of \<open>sub\<close>: a handler under any fault script, or one statement of a handler that runs beside
  others and checked the record at an earlier time; a record's observer is fixed, so \<open>mine\<close> still holds of
  it. The other components change the campus tables between requests.
\<close>

definition mine :: "subject \<Rightarrow> int \<Rightarrow> obs_db \<Rightarrow> bool" where
  "mine sub i d \<longleftrightarrow> list_all (\<lambda>x. ob_id x = i \<longrightarrow> ob_observer x = sj_id sub) (ob_rows d)"

inductive obs_request :: "subject \<Rightarrow> obs_db \<Rightarrow> obs_db \<Rightarrow> bool" for sub :: subject where
  create: "obs_request sub (tables c) (tables (snd (createObservation_h env now sub body c)))"
| update: "obs_request sub (tables c) (tables (snd (updateObservation_h env now sub pid body c)))"
| delete: "obs_request sub (tables c) (tables (snd (deleteObservation_h sub pid c)))"
| submit: "obs_request sub (tables c) (tables (snd (submitObservation_h (rd :: string renderer option) now sub pid c)))"
| export: "obs_request sub (tables c) (tables (snd (exportObservation_h (rd :: string renderer option) now sub pid c)))"
| late_insert: "obs_request sub d (snd (insert_observation pg_date now p anon (sj_id sub) d))"
| late_update: "mine sub i d \<Longrightarrow> obs_request sub d (snd (update_observation_row pg_date now i p anon d))"
| late_submit: "mine sub i d \<Longrightarrow> obs_request sub d (snd (submit_row now i d))"
| late_delete: "mine sub i d \<Longrightarrow> obs_request sub d (snd (delete_observation_row i d))"
| late_export: "obs_request sub d (snd (exported_row now i d))"

definition obs_change :: "obs_db \<Rightarrow> obs_db \<Rightarrow> bool" where
  "obs_change d d' \<longleftrightarrow> (\<exists>sub. obs_request sub d d') \<or> (\<exists>x. d' = d\<lparr>ob_campus := x\<rparr>)"

lemma late_moves:
  assumes "mine sub i d"
  shows "obs_move (sj_id sub) d (snd (update_observation_row pg_date now i p anon d))"
    and "obs_move (sj_id sub) d (snd (submit_row now i d))" and "obs_move (sj_id sub) d (snd (delete_observation_row i d))"
proof -
  show "obs_move (sj_id sub) d (snd (update_observation_row pg_date now i p anon d))"
  proof (cases "find_observation d i")
    case None
    then have "List.find (\<lambda>o'. ob_id o' = i \<and> ob_status o' = ''draft'') (ob_rows d) = None"
      by (auto simp: find_observation_def find_None_iff)
    then show ?thesis by (simp add: update_observation_row_def Let_def split: option.split)
  next
    case (Some r)
    then have "ob_observer r = sj_id sub" using assms find_observation_mem by (auto simp: mine_def list_all_iff)
    with Some show ?thesis by (rule update_moves)
  qed
  have gone: "find_observation d i = None \<Longrightarrow> x \<in> set (ob_rows d) \<Longrightarrow> ob_id x \<noteq> i" for x
    by (auto simp: find_observation_def find_None_iff)
  have own: "find_observation d i = Some r \<Longrightarrow> ob_observer r = sj_id sub" for r
    using assms find_observation_mem by (auto simp: mine_def list_all_iff)
  show "obs_move (sj_id sub) d (snd (submit_row now i d))"
  proof (cases "find_observation d i")
    case None
    then have "map (\<lambda>o'. if ob_id o' = i \<and> ob_status o' = ''draft'' then o'\<lparr>ob_status := ''submitted'', ob_updated_at := now\<rparr> else o') (ob_rows d) = ob_rows d"
      by (intro map_idI) (simp add: gone)
    then show ?thesis by (simp add: submit_row_def)
  qed (use own submit_moves in blast)
  show "obs_move (sj_id sub) d (snd (delete_observation_row i d))"
    using gone own delete_moves [of d i] by (cases "find_observation d i") (auto simp: delete_observation_row_def intro!: filter_True)
qed

lemma once_moves: "once (obs_move who) m \<Longrightarrow> obs_move who (tables c) (tables (snd (m c)))"
  by (drule onceD [of _ _ c]) (elim disjE; simp)

lemma obs_request_moves: "obs_request sub d d' \<Longrightarrow> obs_move (sj_id sub) d d'"
proof (induction rule: obs_request.induct)
  case late_insert
  show ?case by (rule insert_moves)
next
  case late_export
  show ?case by (rule exported_moves)
qed (rule once_moves, rule obs_handlers_once | rule late_moves, assumption)+

definition obs_empty :: obs_db where
  "obs_empty = \<lparr>ob_campus = campus_empty, ob_rows = [], ob_next = 1\<rparr>"

definition obs_inv :: "obs_db \<Rightarrow> bool" where
  "obs_inv d \<longleftrightarrow> obs_keys d \<and> (\<forall>x\<in>set (ob_rows d). ob_id x < ob_next d) \<and>
     (\<forall>x\<in>set (ob_rows d). ob_status x \<in> {''draft'', ''submitted''}) \<and>
     (\<forall>x\<in>set (ob_rows d). \<forall>y\<in>set (ob_rows d). same_lesson x y \<longrightarrow> x = y)"

lemma same_lesson_sym: "same_lesson a b \<longleftrightarrow> same_lesson b a"
  unfolding same_lesson_def by metis

lemma same_lesson_update [simp]:
  "same_lesson (a\<lparr>ob_status := s, ob_updated_at := t\<rparr>) b = same_lesson a b" "same_lesson a (b\<lparr>ob_status := s, ob_updated_at := t\<rparr>) = same_lesson a b"
  "same_lesson (a\<lparr>ob_exported_at := e, ob_updated_at := t\<rparr>) b = same_lesson a b"
  "same_lesson a (b\<lparr>ob_exported_at := e, ob_updated_at := t\<rparr>) = same_lesson a b"
  by (simp_all add: same_lesson_def)

text \<open>A rewrite of single rows that keeps ids and lessons apart keeps the invariant.\<close>

lemma obs_inv_map:
  assumes "obs_inv d" and "\<And>x. x \<in> set (ob_rows d) \<Longrightarrow> ob_id (f x) = ob_id x"
    and "\<And>x. x \<in> set (ob_rows d) \<Longrightarrow> ob_status (f x) \<in> {''draft'', ''submitted''}"
    and "\<And>x y. x \<in> set (ob_rows d) \<Longrightarrow> y \<in> set (ob_rows d) \<Longrightarrow> same_lesson (f x) (f y) \<Longrightarrow> x = y"
  shows "obs_inv (d\<lparr>ob_rows := map f (ob_rows d)\<rparr>)"
proof -
  have [simp]: "map (ob_id \<circ> f) (ob_rows d) = map ob_id (ob_rows d)"
    by (rule map_cong) (simp_all add: assms(2))
  then have "obs_keys (d\<lparr>ob_rows := map f (ob_rows d)\<rparr>)"
    using assms(1) unfolding obs_inv_def obs_keys_def by simp
  then show ?thesis using assms by (auto simp: obs_inv_def)
qed

lemma obs_inv_step:
  assumes "obs_step who d d'" and "obs_inv d"
  shows "obs_inv d'"
  using assms(1)
proof (cases rule: obs_step.cases)
  case (add o')
  then show ?thesis using assms(2) same_lesson_sym by (fastforce simp: obs_inv_def obs_keys_def)
next
  case (edit old new)
  show ?thesis unfolding edit(1)
    by (rule obs_inv_map [OF assms(2)])
      (use edit assms(2) same_lesson_sym in \<open>auto simp: obs_inv_def split: if_splits\<close>)
next
  case (submit old now)
  show ?thesis unfolding submit(1)
    by (rule obs_inv_map [OF assms(2)]) (use assms(2) in \<open>auto simp: obs_inv_def split: if_splits\<close>)
next
  case (drop old)
  then show ?thesis using assms(2) by (auto simp: obs_inv_def obs_keys_def distinct_map_filter)
next
  case (export i now)
  show ?thesis unfolding export(1)
    by (rule obs_inv_map [OF assms(2)]) (use assms(2) in \<open>auto simp: obs_inv_def split: if_splits\<close>)
qed

lemma obs_inv_change: "obs_change d d' \<Longrightarrow> obs_inv d \<Longrightarrow> obs_inv d'"
  unfolding obs_change_def
proof (elim disjE exE)
  fix sub assume "obs_request sub d d'" and "obs_inv d"
  then have "obs_step (sj_id sub) d d' \<or> d' = d" using obs_request_moves obs_inv_def by blast
  then show "obs_inv d'" using obs_inv_step \<open>obs_inv d\<close> by blast
qed (simp add: obs_inv_def obs_keys_def)

lemma obs_reachable: "obs_change\<^sup>*\<^sup>* d d' \<Longrightarrow> obs_inv d \<Longrightarrow> obs_inv d'"
  by (induction rule: rtranclp_induct) (auto intro: obs_inv_change)

subsection \<open>Records and their sections\<close>

text \<open>
  The requests as above, with one hash function \<open>sha\<close> for all of them, and with the late statements of
  creating and editing restricted to values that \<open>prepare\<close> computed, at whatever earlier time.
\<close>

inductive keyed_request :: "(string \<Rightarrow> string) \<Rightarrow> subject \<Rightarrow> obs_db \<Rightarrow> obs_db \<Rightarrow> bool"
  for sha :: "string \<Rightarrow> string" and sub :: subject where
  create: "oe_sha env = sha \<Longrightarrow> keyed_request sha sub (tables c) (tables (snd (createObservation_h env now sub body c)))"
| update: "oe_sha env = sha \<Longrightarrow> keyed_request sha sub (tables c) (tables (snd (updateObservation_h env now sub pid body c)))"
| delete: "keyed_request sha sub (tables c) (tables (snd (deleteObservation_h sub pid c)))"
| submit: "keyed_request sha sub (tables c) (tables (snd (submitObservation_h (rd :: string renderer option) now sub pid c)))"
| export: "keyed_request sha sub (tables c) (tables (snd (exportObservation_h (rd :: string renderer option) now sub pid c)))"
| late_insert: "prepare_obs js sha inp (sj_id sub) name c = (Inr p, c') \<Longrightarrow>
    keyed_request sha sub d (snd (insert_observation pg_date now p (oin_anonymous inp) (sj_id sub) d))"
| late_update: "mine sub i d \<Longrightarrow> prepare_obs js sha inp (sj_id sub) name c = (Inr p, c') \<Longrightarrow>
    keyed_request sha sub d (snd (update_observation_row pg_date now i p (oin_anonymous inp) d))"
| late_submit: "mine sub i d \<Longrightarrow> keyed_request sha sub d (snd (submit_row now i d))"
| late_delete: "mine sub i d \<Longrightarrow> keyed_request sha sub d (snd (delete_observation_row i d))"
| late_export: "keyed_request sha sub d (snd (exported_row now i d))"

definition keyed_change :: "(string \<Rightarrow> string) \<Rightarrow> obs_db \<Rightarrow> obs_db \<Rightarrow> bool" where
  "keyed_change sha d d' \<longleftrightarrow> (\<exists>sub. keyed_request sha sub d d') \<or> (\<exists>x. d' = d\<lparr>ob_campus := x\<rparr>)"

lemma keyed_request_is_request: "keyed_request sha sub d d' \<Longrightarrow> obs_request sub d d'"
  by (induction rule: keyed_request.induct) (rule obs_request.intros, assumption?)+

lemma keyed_change_is_change: "keyed_change sha d d' \<Longrightarrow> obs_change d d'"
  unfolding keyed_change_def obs_change_def using keyed_request_is_request by blast

text \<open>A record without a session carries the key of its sections, a record of a session has none.\<close>

definition keyed_by :: "(string \<Rightarrow> string) \<Rightarrow> int option \<Rightarrow> int list \<Rightarrow> string option \<Rightarrow> bool" where
  "keyed_by sha occurrence sections k \<longleftrightarrow>
     k = (if occurrence = None then Some (build_sections_key sha sections) else None)"

definition obs_keyed :: "(string \<Rightarrow> string) \<Rightarrow> obs_db \<Rightarrow> bool" where
  "obs_keyed sha d \<longleftrightarrow> list_all (\<lambda>x. keyed_by sha (ob_occurrence x) (ob_sections x) (ob_sections_key x)) (ob_rows d)"

lemma prepare_obs_keyed:
  assumes "prepare_obs js sha inp who name c = (Inr p, c')"
  shows "keyed_by sha (pp_occurrence p) (pp_sections p) (pp_sections_key p)"
proof -
  have "oin_course inp > 0" using assms by (auto simp: prepare_obs_def split: if_splits)
  then have "dbind (offering_info (oin_course inp)) (\<lambda>ofr.
           dbind (prepare_session inp ofr) (\<lambda>s.
           dbind (prepare_date inp s) (\<lambda>day.
           dbind (prepare_sections inp s) (\<lambda>sections.
           dbind (prepare_classroom inp s) (\<lambda>(room, room_name).
           dret \<lparr>pp_template = trim_space (oin_template inp), pp_occurrence = map_option ss_id s, pp_course = of_id (ov_row ofr),
             pp_classroom = room, pp_date = day, pp_sections = sections,
             pp_sections_key = (if s = None then Some (build_sections_key sha sections) else None),
             pp_summary = derive_summary js (oin_form inp), pp_form = raw_or_default (oin_form inp) ''{}'',
             pp_snapshot = \<lparr>sn_course = of_id (ov_row ofr), sn_course_name = ov_catalog_name ofr, sn_course_code = ov_catalog_code ofr,
               sn_teacher = of_teacher (ov_row ofr), sn_class_name = ov_class_name ofr, sn_occurrence = map_option ss_id s,
               sn_date = day, sn_sections = sections, sn_classroom = room, sn_classroom_name = room_name,
               sn_observer = who, sn_observer_name = name\<rparr>\<rparr>))))) c = (Inr p, c')"
    using assms by (simp add: prepare_obs_def)
  then show ?thesis by (auto dest!: dbind_Inr simp: keyed_by_def split: prod.splits)
qed

abbreviation keeps_keys :: "(string \<Rightarrow> string) \<Rightarrow> obs_db \<Rightarrow> obs_db \<Rightarrow> bool" where
  "keeps_keys sha d d' \<equiv> obs_keyed sha d \<longrightarrow> obs_keyed sha d'"

lemma writes_keep_keys:
  "keyed_by sha (pp_occurrence p) (pp_sections p) (pp_sections_key p) \<Longrightarrow>
     keeps_keys sha d (snd (insert_observation pg_date now p anon who d))"
  "keyed_by sha (pp_occurrence p) (pp_sections p) (pp_sections_key p) \<Longrightarrow>
     keeps_keys sha d (snd (update_observation_row pg_date now i p anon d))"
  "keeps_keys sha d (snd (submit_row now i d))" "keeps_keys sha d (snd (delete_observation_row i d))"
  "keeps_keys sha d (snd (exported_row now i d))"
  by (auto simp: insert_observation_def update_observation_row_def submit_row_def delete_observation_row_def exported_row_def
      new_observation_def filled_def obs_keyed_def list_all_iff Let_def split: option.split)

lemma obs_store_keys:
  "once (keeps_keys (oe_sha env)) (create_observation env now inp who name)"
  "once (keeps_keys (oe_sha env)) (update_observation env now i inp who name)"
  "once (keeps_keys sha) (submit_observation now i who)" "once (keeps_keys sha) (delete_observation i who)"
  "once (keeps_keys sha) (mark_exported now i)"
proof -
  note prepared = once_guarded [where G = "\<lambda>p d. keyed_by (oe_sha env) (pp_occurrence p) (pp_sections p) (pp_sections_key p)", OF obs_reads(2) prepare_obs_keyed]
  have statement: "once (\<lambda>d d'. keyed_by (oe_sha env) (pp_occurrence p) (pp_sections p) (pp_sections_key p) \<longrightarrow> keeps_keys (oe_sha env) d d') (stmt e (insert_observation pg now p anon who'))"
    "once (\<lambda>d d'. keyed_by (oe_sha env) (pp_occurrence p) (pp_sections p) (pp_sections_key p) \<longrightarrow> keeps_keys (oe_sha env) d d') (stmt e (update_observation_row pg now i p anon))"
    for p e pg anon who' i
    by (rule once_stmt, rule impI, erule writes_keep_keys)+
  show "once (keeps_keys (oe_sha env)) (create_observation env now inp who name)"
    unfolding create_observation_def
    by (rule prepared, assumption, rule once_then_reads, rule statement) (intro reads_intros obs_reads)
  show "once (keeps_keys (oe_sha env)) (update_observation env now i inp who name)"
    unfolding update_observation_def
    by (rule once_after_reads [OF obs_reads(1)], (rule once_refuse)+, rule prepared, assumption, rule once_then_reads, rule statement)
      (intro reads_intros obs_reads)
  show "once (keeps_keys sha) (submit_observation now i who)"
    unfolding submit_observation_def
    by (rule once_after_reads [OF obs_reads(1)], rule once_refuse, rule once_if, rule once_reads, rule reads_simple, rule once_then_reads, rule once_stmt,
      rule writes_keep_keys) (intro reads_intros obs_reads)
  show "once (keeps_keys sha) (delete_observation i who)"
    unfolding delete_observation_def
    by (rule once_after_reads [OF obs_reads(1)], (rule once_refuse)+, rule once_then_reads, rule once_stmt, rule writes_keep_keys)
      (intro reads_intros obs_reads)
  show "once (keeps_keys sha) (mark_exported now i)"
    unfolding mark_exported_def by (rule once_stmt) (rule writes_keep_keys)
qed

lemma keyed_request_keeps: "keyed_request sha sub d d' \<Longrightarrow> keeps_keys sha d d'"
proof (induction rule: keyed_request.induct)
  case (create env c now body)
  then show ?case using onceD [OF obs_handlers_by_store(1) [OF obs_store_keys(1) [of env]]] by metis
next
  case (update env c now pid body)
  then show ?case using onceD [OF obs_handlers_by_store(2) [OF obs_store_keys(2) [of env]]] by metis
next
  case (delete c pid)
  then show ?case using onceD [OF obs_handlers_by_store(3) [OF obs_store_keys(4)]] by metis
next
  case (submit c rd now pid)
  then show ?case using onceD [OF obs_handlers_by_store(4) [OF obs_store_keys(3)]] by metis
next
  case (export c rd now pid)
  then show ?case using onceD [OF obs_handlers_by_store(5) [OF obs_store_keys(5)]] by metis
qed (rule writes_keep_keys, (rule prepare_obs_keyed, assumption)?)+

lemma keyed_reachable: "(keyed_change sha)\<^sup>*\<^sup>* d d' \<Longrightarrow> obs_inv d \<and> obs_keyed sha d \<Longrightarrow> obs_inv d' \<and> obs_keyed sha d'"
proof (induction rule: rtranclp_induct)
  case (step d1 d2)
  then have inv: "obs_inv d1" "obs_keyed sha d1" by simp_all
  from step(2) have "obs_keyed sha d2" using inv(2) keyed_request_keeps by (auto simp: keyed_change_def obs_keyed_def)
  then show ?case using obs_inv_change [OF keyed_change_is_change [OF step(2)] inv(1)] by simp
qed simp

text \<open>Two records of one observer for the same lesson: the same session, or without a session the same course, date and sections.\<close>

definition one_lesson :: "observation \<Rightarrow> observation \<Rightarrow> bool" where
  "one_lesson x y \<longleftrightarrow> (case (ob_occurrence x, ob_occurrence y) of
     (Some i, Some j) \<Rightarrow> i = j
   | (None, None) \<Rightarrow> ob_course x = ob_course y \<and> ob_date x = ob_date y \<and> set (ob_sections x) = set (ob_sections y)
   | _ \<Rightarrow> False)"

lemma build_sections_key_cong: "set xs = set ys \<Longrightarrow> build_sections_key sha xs = build_sections_key sha ys"
proof -
  have "sort (remdups vs) = sorted_list_of_set (set vs)" for vs :: "int list" by (simp add: sorted_list_of_set_sort_remdups)
  then show "set xs = set ys \<Longrightarrow> build_sections_key sha xs = build_sections_key sha ys"
    by (simp add: build_sections_key_def canonical_sections_def)
qed

lemma one_lesson_is_unique:
  assumes "obs_inv d \<and> obs_keyed sha d" and "x \<in> set (ob_rows d)" and "y \<in> set (ob_rows d)"
    and "ob_observer x = ob_observer y" and "one_lesson x y"
  shows "x = y"
proof -
  have "keyed_by sha (ob_occurrence x) (ob_sections x) (ob_sections_key x)"
    "keyed_by sha (ob_occurrence y) (ob_sections y) (ob_sections_key y)"
    using assms(1-3) by (simp_all add: obs_keyed_def list_all_iff)
  then have "same_lesson x y"
    using assms(4,5) build_sections_key_cong [of "ob_sections x" "ob_sections y" sha]
    by (auto simp: same_lesson_def one_lesson_def keyed_by_def split: option.splits)
  then show ?thesis using assms(1-3) by (simp add: obs_inv_def)
qed

text \<open>All of a record but its two time stamps.\<close>

definition lasting :: "observation \<Rightarrow> observation" where
  "lasting o' = o'\<lparr>ob_exported_at := None, ob_updated_at := 0\<rparr>"

definition locked_for :: "int \<Rightarrow> observation \<Rightarrow> bool" where
  "locked_for who o' \<longleftrightarrow> ob_status o' = ''submitted'' \<or> ob_observer o' \<noteq> who"

lemma lasting_status: "lasting a = lasting b \<Longrightarrow> ob_status a = ob_status b"
  unfolding lasting_def by (drule arg_cong [of _ _ ob_status]) simp

lemma step_keeps_locked:
  assumes "obs_step who d d'" and "x \<in> set (ob_rows d)" and "locked_for who x"
  shows "lasting x \<in> lasting ` set (ob_rows d')"
  using assms(1)
proof (cases rule: obs_step.cases)
  case (export i now)
  then have "(if ob_id x = i then x\<lparr>ob_exported_at := Some now, ob_updated_at := now\<rparr> else x) \<in> set (ob_rows d')"
    using assms(2) by auto
  then show ?thesis by (rule rev_image_eqI) (simp add: lasting_def)
qed (use assms(2,3) in \<open>auto simp: locked_for_def image_image image_iff\<close>)

lemma request_keeps_locked:
  assumes "obs_request sub d d'" and "obs_inv d" and "x \<in> set (ob_rows d)" and "locked_for (sj_id sub) x"
  shows "lasting x \<in> lasting ` set (ob_rows d')"
proof -
  have "obs_step (sj_id sub) d d' \<or> d' = d" using obs_request_moves [OF assms(1)] assms(2) obs_inv_def by blast
  then show ?thesis using step_keeps_locked [OF _ assms(3,4)] assms(3) by blast
qed

lemma change_keeps_submitted:
  assumes "obs_change d d'" and "obs_inv d" and "x \<in> set (ob_rows d)" and "ob_status x = ''submitted''"
  shows "lasting x \<in> lasting ` set (ob_rows d')"
  using assms request_keeps_locked unfolding obs_change_def locked_for_def by fastforce

lemma submitted_for_good:
  assumes "obs_change\<^sup>*\<^sup>* d d'" and "obs_inv d" and "x \<in> set (ob_rows d)" and "ob_status x = ''submitted''"
  shows "lasting x \<in> lasting ` set (ob_rows d')"
  using assms(1)
proof (induction rule: rtranclp_induct)
  case base
  then show ?case using assms(3) by blast
next
  case (step d1 d2)
  then obtain y where y: "y \<in> set (ob_rows d1)" "lasting x = lasting y" by blast
  then have "ob_status y = ''submitted''" using lasting_status assms(4) by metis
  then have "lasting y \<in> lasting ` set (ob_rows d2)"
    using change_keeps_submitted [OF step(2) obs_reachable [OF step(1) assms(2)] y(1)] by blast
  then show ?case using y(2) by simp
qed

subsection \<open>Properties\<close>

lemma obs_empty_inv: "obs_inv obs_empty"
  by (simp add: obs_inv_def obs_keys_def obs_empty_def)

text \<open>
  C8: An observer has one record at most for a lesson. Whatever requests are made of the observations,
  however they are interleaved, with whatever statements failing and whatever happens to courses, rooms
  and users meanwhile, record ids are unique, every record is a draft or submitted, and two different
  records of one observer are never for the same session nor, without a session, for the same course,
  date and sections, in whatever order the sections were given and however often.
\<close>

theorem one_record_per_lesson:
  assumes "(keyed_change sha)\<^sup>*\<^sup>* obs_empty d"
  shows "distinct (map ob_id (ob_rows d)) \<and> ob_status ` set (ob_rows d) \<subseteq> {''draft'', ''submitted''} \<and>
    (\<forall>x\<in>set (ob_rows d). \<forall>y\<in>set (ob_rows d). ob_observer x = ob_observer y \<and>
      (case (ob_occurrence x, ob_occurrence y) of
         (Some i, Some j) \<Rightarrow> i = j
       | (None, None) \<Rightarrow> ob_course x = ob_course y \<and> ob_date x = ob_date y \<and> set (ob_sections x) = set (ob_sections y)
       | _ \<Rightarrow> False) \<longrightarrow> x = y)"
proof -
  have "obs_keyed sha obs_empty" by (simp add: obs_keyed_def obs_empty_def)
  with obs_empty_inv have "obs_inv obs_empty \<and> obs_keyed sha obs_empty" by blast
  from keyed_reachable [OF assms this] show ?thesis
    using one_lesson_is_unique [of d sha] by (simp add: obs_inv_def obs_keys_def one_lesson_def subset_iff) blast
qed

definition demo_prepared :: "int \<Rightarrow> prepared" where
  "demo_prepared who = \<lparr>pp_template = ''T'', pp_occurrence = Some 1, pp_course = 1, pp_classroom = None, pp_date = ''2024-03-18'',
     pp_sections = [1, 2], pp_sections_key = None, pp_summary = \<lparr>fs_scores = ''{}'', fs_total = None, fs_content = [], fs_remark = []\<rparr>,
     pp_form = ''{}'', pp_snapshot = \<lparr>sn_course = 1, sn_course_name = ''Logic'', sn_course_code = ''L1'', sn_teacher = ''Li'', sn_class_name = ''T1'',
       sn_occurrence = Some 1, sn_date = ''2024-03-18'', sn_sections = [1, 2], sn_classroom = None, sn_classroom_name = [],
       sn_observer = who, sn_observer_name = ''Wu''\<rparr>\<rparr>"

definition demo_view_row :: "int \<Rightarrow> int \<Rightarrow> observation" where
  "demo_view_row i who = new_observation i 19800 (demo_prepared who) False who 0"

lemmas demo_row_defs = demo_view_row_def demo_prepared_def new_observation_def

definition demo_observer :: subject where
  "demo_observer = \<lparr>sj_id = 7, sj_type = ''teacher'', sj_username = ''wu'', sj_display_name = ''Wu'',
     sj_permissions = {''observation:read'', ''observation:write''}, sj_roles = [], sj_groups = []\<rparr>"

definition demo_observed :: obs_db where
  "demo_observed = \<lparr>ob_campus = demo_study\<lparr>cd_catalog := [\<lparr>ca_id = 3, ca_name = ''Logic'', ca_code = ''L1'', ca_credits = 20,
       ca_total_hours = 32, ca_category = [], ca_exam_type = [], ca_description = [], ca_created_at = 0\<rparr>],
     cd_users := [\<lparr>us_id = 7, us_username = ''wu'', us_display_name = ''Wu'', us_type = ''teacher''\<rparr>]\<rparr>,
     ob_rows = [demo_view_row 1 7], ob_next = 2\<rparr>"

lemma demo_observed_reachable: "obs_change\<^sup>*\<^sup>* obs_empty demo_observed"
proof -
  let ?d = "obs_empty\<lparr>ob_campus := ob_campus demo_observed\<rparr>"
  have "obs_change obs_empty ?d" unfolding obs_change_def by blast
  moreover have "obs_texts_ok (demo_prepared 7)" "obs_widths_ok (demo_prepared 7)" by code_simp+
  then have "snd (insert_observation (\<lambda>_. Some 19800) 0 (demo_prepared 7) False (sj_id demo_observer) ?d) = demo_observed"
    by (simp add: insert_observation_def demo_view_row_def demo_observed_def demo_observer_def obs_empty_def)
  then have "obs_change ?d demo_observed"
    unfolding obs_change_def using obs_request.late_insert by metis
  ultimately show ?thesis by (metis converse_rtranclp_into_rtranclp rtranclp.rtrancl_refl)
qed

text \<open>
  A record without a session, made by the handler; the same sections in another order are refused.
\<close>

definition demo_obs_env :: obs_env where
  "demo_obs_env = \<lparr>oe_json = \<lparr>js_members = (\<lambda>_. None), js_float = (\<lambda>_. None), js_string = (\<lambda>_. None), js_strings = (\<lambda>_. None)\<rparr>,
     oe_sha = (\<lambda>s. s), oe_date = (\<lambda>_. Some 19800)\<rparr>"

definition demo_obs_input :: "int list \<Rightarrow> observation_input" where
  "demo_obs_input sections = \<lparr>oin_template = ''T'', oin_occurrence = None, oin_course = 1, oin_classroom = None,
     oin_date = ''2024-03-18'', oin_sections = Some sections, oin_form = [], oin_anonymous = False\<rparr>"

definition demo_lesson :: obs_db where
  "demo_lesson = tables (snd (createObservation_h demo_obs_env 0 demo_observer (Some (demo_obs_input [2, 1]))
     (healthy (obs_empty\<lparr>ob_campus := ob_campus demo_observed\<rparr>))))"

lemma demo_lesson_reachable: "(keyed_change (\<lambda>s. s))\<^sup>*\<^sup>* obs_empty demo_lesson"
proof -
  let ?d = "obs_empty\<lparr>ob_campus := ob_campus demo_observed\<rparr>"
  have "keyed_change (\<lambda>s. s) obs_empty ?d" unfolding keyed_change_def by blast
  moreover have "keyed_request (\<lambda>s. s) demo_observer ?d demo_lesson"
    using keyed_request.create [of demo_obs_env "\<lambda>s. s" demo_observer "healthy ?d"]
    by (simp add: demo_obs_env_def demo_lesson_def)
  then have "keyed_change (\<lambda>s. s) ?d demo_lesson" unfolding keyed_change_def by blast
  ultimately show ?thesis by (metis converse_rtranclp_into_rtranclp rtranclp.rtrancl_refl)
qed

theorem one_record_per_lesson_witness:
  "distinct (map ob_id (ob_rows demo_lesson)) \<and> map ob_sections (ob_rows demo_lesson) = [[1, 2]] \<and>
   fst (createObservation_h demo_obs_env 0 demo_observer (Some (demo_obs_input [1, 2, 2])) (healthy demo_lesson)) =
     RespError 409 (hx ''e8afa5e88a82e8afbee5b7b2e5ad98e59ca8e8af84e8afbee8aeb0e5bd95efbc8ce4b88de883bde9878de5a48de8af84e8afbee38082'')"
proof -
  have "map ob_sections (ob_rows demo_lesson) = [[1, 2]]" by code_simp
  moreover have "fst (createObservation_h demo_obs_env 0 demo_observer (Some (demo_obs_input [1, 2, 2])) (healthy demo_lesson)) =
     RespError 409 (hx ''e8afa5e88a82e8afbee5b7b2e5ad98e59ca8e8af84e8afbee8aeb0e5bd95efbc8ce4b88de883bde9878de5a48de8af84e8afbee38082'')"
    by code_simp
  ultimately show ?thesis using one_record_per_lesson [OF demo_lesson_reachable] by blast
qed

text \<open>
  C7: A submitted record is final: whatever requests follow, it stays in the table, with every column
  as it was but the stamps of its last export and update.
\<close>

theorem submitted_records_are_final:
  assumes "obs_change\<^sup>*\<^sup>* obs_empty d" and "obs_change\<^sup>*\<^sup>* d d'" and "x \<in> set (ob_rows d)" and "ob_status x = ''submitted''"
  shows "\<exists>y\<in>set (ob_rows d'). lasting y = lasting x"
  using submitted_for_good [OF assms(2) obs_reachable [OF assms(1) obs_empty_inv] assms(3,4)] by force

definition demo_submitted :: obs_db where
  "demo_submitted = demo_observed\<lparr>ob_rows := [(demo_view_row 1 7)\<lparr>ob_status := ''submitted'', ob_updated_at := 5\<rparr>]\<rparr>"

lemma demo_submitted_reachable: "obs_change\<^sup>*\<^sup>* obs_empty demo_submitted"
proof -
  have "snd (submit_row 5 1 demo_observed) = demo_submitted"
    by (simp add: submit_row_def demo_submitted_def demo_observed_def demo_row_defs)
  moreover have "mine demo_observer 1 demo_observed"
    by (simp add: mine_def demo_observed_def demo_row_defs demo_observer_def)
  ultimately have "obs_change demo_observed demo_submitted"
    unfolding obs_change_def using obs_request.late_submit by metis
  with demo_observed_reachable show ?thesis by (rule rtranclp.rtrancl_into_rtrancl)
qed

definition demo_exported :: obs_db where
  "demo_exported = snd (exported_row 9 1 demo_submitted)"

lemma demo_export_change: "obs_change\<^sup>*\<^sup>* demo_submitted demo_exported"
  unfolding demo_exported_def obs_change_def using obs_request.late_export by blast

theorem submitted_records_are_final_witness:
  "\<exists>y\<in>set (ob_rows demo_exported). ob_status y = ''submitted'' \<and> lasting y = lasting ((demo_view_row 1 7)\<lparr>ob_status := ''submitted'', ob_updated_at := 5\<rparr>)"
  using submitted_records_are_final [OF demo_submitted_reachable demo_export_change,
      of "(demo_view_row 1 7)\<lparr>ob_status := ''submitted'', ob_updated_at := 5\<rparr>"]
  by (simp add: demo_exported_def demo_submitted_def exported_row_def)

text \<open>A draft changes by the requests of its observer alone.\<close>

lemma drafts_are_personal:
  assumes "obs_change\<^sup>*\<^sup>* obs_empty d" and "obs_request sub d d'" and "x \<in> set (ob_rows d)" and "ob_observer x \<noteq> sj_id sub"
  shows "\<exists>y\<in>set (ob_rows d'). lasting y = lasting x"
  using request_keeps_locked [OF assms(2) obs_reachable [OF assms(1) obs_empty_inv] assms(3)] assms(4)
  by (force simp: locked_for_def)

text \<open>What a list and a detail answer show.\<close>

fun listed :: "(observation_view list \<times> int \<times> page_params) response \<Rightarrow> observation_view set" where
  "listed (RespJSON _ (vs, _, _)) = set vs"
| "listed _ = {}"

fun shown :: "observation_view response \<Rightarrow> observation_view set" where
  "shown (RespJSON _ v) = {v}"
| "shown _ = {}"

lemma selected_own:
  assumes "select_observations pg_date eq f q observer False d = Some vs"
  shows "vs' = vs \<or> vs' = take m (drop k vs) \<Longrightarrow> \<forall>v\<in>set vs'. ob_observer (ow_row v) = observer"
proof -
  have "\<forall>v\<in>set vs. ob_observer (ow_row v) = observer"
    using assms by (auto simp: select_observations_def bind_eq_Some_conv observation_selected_def Let_def split: if_splits)
  then show "vs' = vs \<or> vs' = take m (drop k vs) \<Longrightarrow> \<forall>v\<in>set vs'. ob_observer (ow_row v) = observer"
    using set_take_subset set_drop_subset by fastforce
qed

lemma page_own:
  assumes "page_observations pg_date eq f q observer False p c = (Inr (vs, n), c')" and "v \<in> set vs"
  shows "ob_observer (ow_row v) = observer"
proof -
  from assms(1) obtain c1 where
    q: "query_row (ObsDb ''page observations'') (ObsDb ''page observations'')
        (\<lambda>d. Option.bind (select_observations pg_date eq f q observer False d) (limit_rows p)) c = (Inr vs, c1)"
    unfolding page_observations_def by (auto simp: dbind_def split: prod.splits sum.splits)
  obtain ws where ws: "select_observations pg_date eq f q observer False (tables c) = Some ws" "limit_rows p ws = Some vs"
    using query_row_Inr [OF q] by (auto simp: bind_eq_Some_conv)
  then have "vs = ws \<or> vs = take (nat (pg_limit p)) (drop (nat (pg_offset p)) ws)"
    by (auto simp: limit_rows_def split: if_splits)
  from selected_own [OF ws(1) this] assms(2) show ?thesis by blast
qed

lemma list_own:
  assumes "\<not> obs_admin sub"
  shows "\<forall>v\<in>listed (fst (listObservations_h env eq sub q c)). ob_observer (ow_row v) = sj_id sub"
proof -
  let ?f = "obs_filter_of q" and ?p = "parse_page_params q"
  obtain r c' where m: "page_observations (oe_date env) eq ?f (parse_search q) (sj_id sub) False (page_of ?p) c = (r, c')"
    by fastforce
  have own: "r = Inr (vs, n) \<Longrightarrow> v \<in> set vs \<Longrightarrow> ob_observer (ow_row v) = sj_id sub" for vs n v
    using page_own m by blast
  show ?thesis
    using assms own m by (cases r) (simp_all add: listObservations_h_def Let_def split: prod.split)
qed

lemma get_own:
  assumes "\<not> obs_admin sub"
  shows "\<forall>v\<in>shown (fst (getObservation_h sub pid c)). ob_observer (ow_row v) = sj_id sub"
proof (cases "atoi pid")
  case (Some i)
  obtain r c' where m: "get_observation i c = (r, c')" by fastforce
  show ?thesis
    using assms Some m by (cases r) (simp_all add: getObservation_h_def obs_own_def split: obs_error.split)
qed (simp add: getObservation_h_def)

lemma foreign_hidden:
  assumes "\<not> obs_admin sub" and "atoi pid = Some i" and "find_observation (tables c) i = Some x" and "ob_observer x \<noteq> sj_id sub"
    and "faults c = []"
  shows "fst (getObservation_h sub pid c) = RespError 404 ''observation not found'' \<and>
    fst (exportObservation_h rd now sub pid c) = RespError 404 ''observation not found''"
proof -
  have get: "get_observation i c = (case observation_view_of (tables c) x of None \<Rightarrow> (Inl ObsNotFound, c) | Some v \<Rightarrow> (Inr v, c))"
    using assms(3,5) by (cases c) (simp add: get_observation_def query_row_def query_def stmt_def dbind_def split: option.split)
  show ?thesis
  proof (cases "observation_view_of (tables c) x")
    case (Some v)
    then have "ow_row v = x" by (auto simp: observation_view_of_def bind_eq_Some_conv)
    then show ?thesis
      using Some get assms(1,2,4) by (simp add: getObservation_h_def exportObservation_h_def obs_own_def)
  qed (use get assms(2) in \<open>simp add: getObservation_h_def exportObservation_h_def\<close>)
qed

text \<open>
  C9: Without \<open>observation:manage\<close> a user sees, in the list and by id, records of their own
  observations only, and for a record of another user the answers to reading and exporting it are
  those for a record that does not exist.
\<close>

theorem observations_seen:
  assumes "\<not> obs_admin sub" and "atoi pid = Some i" and "find_observation (tables c) i = Some x" and "ob_observer x \<noteq> sj_id sub"
    and "faults c = []"
  shows "(\<forall>v\<in>listed (fst (listObservations_h env eq sub q c2)). ob_observer (ow_row v) = sj_id sub) \<and>
    (\<forall>v\<in>shown (fst (getObservation_h sub any c2)). ob_observer (ow_row v) = sj_id sub) \<and>
    fst (getObservation_h sub pid c) = RespError 404 ''observation not found'' \<and>
    fst (exportObservation_h rd now sub pid c) = RespError 404 ''observation not found''"
  using list_own [OF assms(1)] get_own [OF assms(1)] foreign_hidden [OF assms] by simp

definition demo_visitor :: subject where
  "demo_visitor = demo_observer\<lparr>sj_id := 8\<rparr>"

theorem observations_seen_witness:
  "fst (getObservation_h demo_visitor ''1'' (healthy demo_observed)) = RespError 404 ''observation not found'' \<and>
   fst (exportObservation_h (None :: string renderer option) 0 demo_visitor ''1'' (healthy demo_observed)) = RespError 404 ''observation not found'' \<and>
   shown (fst (getObservation_h demo_observer ''1'' (healthy demo_observed))) \<noteq> {}"
proof -
  have pid: "atoi ''1'' = Some 1" by code_simp
  have row: "find_observation (tables (healthy demo_observed)) 1 = Some (demo_view_row 1 7)"
    by (simp add: find_observation_def demo_observed_def demo_row_defs)
  have perms: "\<not> obs_admin demo_visitor" "ob_observer (demo_view_row 1 7) \<noteq> sj_id demo_visitor"
    by (simp_all add: obs_admin_def has_perm_def wildcard_def demo_visitor_def demo_observer_def demo_row_defs)
  have own: "shown (fst (getObservation_h demo_observer ''1'' (healthy demo_observed))) \<noteq> {}" by code_simp
  show ?thesis
    using observations_seen [OF perms(1) pid row perms(2), where env = env and eq = eq and q = q and rd = "None :: string renderer option" and now = 0] own by simp
qed

lemma observation_where_numbered:
  "numbered (observation_where f q observer admin)"
  unfolding observation_where_def Let_def
  by (intro numbered_if numbered_bind numbered_start; simp add: is_digit_def)

lemma no_comma: "CHR '','' \<notin> set (itoa n)"
proof -
  have "\<not> is_digit CHR '',''" by (simp add: is_digit_def)
  then show ?thesis using nat_str_digits [of "nat n"] nat_str_digits [of "nat (- n)"]
    by (auto simp: itoa_def list_all_iff)
qed

lemma itoa_inject: "itoa a = itoa b \<longleftrightarrow> a = b"
proof
  have minus: "nat_str k \<noteq> CHR ''-'' # ds" for k ds
    using nat_str_digits [of k] by (auto simp: is_digit_def)
  have inj: "nat_str k = nat_str m \<longleftrightarrow> k = m" for k m
    by (metis digits_val_nat_str of_nat_eq_iff)
  assume "itoa a = itoa b"
  then show "a = b"
    by (cases "a < 0"; cases "b < 0") (simp_all add: itoa_def inj minus minus [symmetric])
qed simp

lemma go_join_numbers: "go_join '','' (map itoa xs) = go_join '','' (map itoa ys) \<longleftrightarrow> xs = ys"
proof
  assume j: "go_join '','' (map itoa xs) = go_join '','' (map itoa ys)"
  have nonempty: "go_join '','' (map itoa (z # zs)) \<noteq> []" for z zs
    by (cases zs) (simp_all add: itoa_def)
  have split: "zs \<noteq> [] \<Longrightarrow> split_on CHR '','' (go_join '','' (map itoa zs)) = map itoa zs" for zs
    by (rule split_on_join) (simp_all add: no_comma)
  show "xs = ys"
  proof (cases "xs = [] \<or> ys = []")
    case True
    then show ?thesis using j nonempty nonempty [symmetric] by (cases xs; cases ys) simp_all
  next
    case False
    have "map itoa xs = split_on CHR '','' (go_join '','' (map itoa xs))"
      by (rule split [symmetric]) (use False in blast)
    also have "\<dots> = split_on CHR '','' (go_join '','' (map itoa ys))" by (rule arg_cong [OF j])
    also have "\<dots> = map itoa ys" by (rule split) (use False in blast)
    finally have "map itoa xs = map itoa ys" .
    moreover have "inj itoa" by (rule injI) (simp only: itoa_inject)
    ultimately show ?thesis by (simp only: inj_map_eq_map)
  qed
qed simp

text \<open>
  C10: The text that is hashed into the key of a list of sections is the same for two lists exactly
  when they hold the same sections, in whatever order and however often; the list that is stored has
  each of them once, in order.
\<close>

theorem sections_key_canonical:
  "(canonical_sections xs = canonical_sections ys \<longleftrightarrow> set xs = set ys) \<and>
   normalize_sections (Some xs) = (if list_all (\<lambda>v. 0 < v) xs then Inr (sorted_list_of_set (set xs))
     else Inl ''sections must contain positive integers'') \<and>
   canonical_sections (sorted_list_of_set (set xs)) = canonical_sections xs"
proof (intro conjI)
  have sorted: "sort (remdups vs) = sorted_list_of_set (set vs)" for vs :: "int list"
    by (simp add: sorted_list_of_set_sort_remdups)
  show "canonical_sections xs = canonical_sections ys \<longleftrightarrow> set xs = set ys"
    by (auto simp: canonical_sections_def go_join_numbers sorted dest: arg_cong [of _ _ set])
  have "list_ex (\<lambda>v. v \<le> 0) xs \<longleftrightarrow> \<not> list_all (\<lambda>v. 0 < v) xs" by (auto simp: list_ex_iff list_all_iff not_less)
  then show "normalize_sections (Some xs) = (if list_all (\<lambda>v. 0 < v) xs then Inr (sorted_list_of_set (set xs))
      else Inl ''sections must contain positive integers'')"
    by (simp add: normalize_sections_def sorted)
  show "canonical_sections (sorted_list_of_set (set xs)) = canonical_sections xs" by (simp add: canonical_sections_def sorted)
qed

text \<open>What the client gets wrong in the form itself is answered as a fault of the server.\<close>

lemma incomplete_form_is_500:
  assumes "oin_course inp \<le> 0"
  shows "createObservation_h env now sub (Some inp) c = (RespError 500 ''could not create observation'', c)"
  using assms
  by (simp add: createObservation_h_def create_observation_def prepare_obs_def dbind_def draise_def obs_refusal_def)

text \<open>A record whose course was deleted is in the table, and every request for it answers that it is not.\<close>

lemma orphaned_record_is_hidden:
  assumes "find_observation d i = Some x" and "find_offering (ob_campus d) (ob_course x) = None"
  shows "fst (get_observation i (healthy d)) = Inl ObsNotFound"
  using assms
  by (simp add: get_observation_def query_row_def query_def stmt_def dbind_def healthy_def draise_def observation_view_of_def)

end
