(* ===== verification/Spec2Isabelle.thy ===== *)
theory Spec2Isabelle
  imports Repair Import_Slots Device_Sdk Timetable Attendance Access Observation
begin

text \<open>
  A verification library for OCM, a campus management system written in Go
  (\<open>src/backend\<close>, \<open>src/iot\<close>).

  Parts and theories.

  \<^item> \<open>Prelude\<close>: outcomes of Go code, association lists, the first-occurrence loop, sorting.
  \<^item> \<open>Go_Lib\<close>: the parts of Go's standard library the program uses (64-bit integers, counting
    loops, splitting and trimming of strings, Atoi/Itoa, UTF-8 runes). Strings are byte strings.
  \<^item> \<open>Civil_Time\<close>: calendar days, the layout 2006-01-02 and its parser.
  \<^item> \<open>Db\<close>: what \<open>database/sql\<close> gives the stores: statements that run atomically or fail,
    transactions, a fault script that decides which statements fail, and the closure rules by which
    invariants pass through store operations. Gaps that failed statements leave in identity
    columns are not observable and not modelled.
  \<^item> \<open>Paging\<close>: \<open>httpx/pagination.go\<close> and the SQL text helpers of \<open>dbutil\<close>.
  \<^item> \<open>Authz\<close>: \<open>authz\<close> and \<open>iam/effective.go\<close>.
  \<^item> \<open>Schedule\<close>: \<open>schedule\<close>, the bell-time regimes.
  \<^item> \<open>Campus\<close>: the rows of the tables that rooms, bookings, repairs and sessions share.
  \<^item> \<open>Classroom\<close>, \<open>Repair\<close>, \<open>Booking\<close>: \<open>classroom\<close>, \<open>classroom/repair*.go\<close>, \<open>booking\<close>.
  \<^item> \<open>Org\<close>: \<open>user/org_*.go\<close> and \<open>students.go\<close>, the administrative classes, the teaching classes made of
    them and the student roster.
  \<^item> \<open>Course\<close>, \<open>Session\<close>: \<open>course/store.go\<close>, \<open>sessions.go\<close> and \<open>handler.go\<close>: the catalog and the offerings,
    then the sessions, which hold rooms together with the bookings.
  \<^item> \<open>Timetable\<close>: the room timetable of \<open>course/sessions.go\<close> and the plan of its spreadsheet
    (\<open>timetable_export.go\<close>) as a list of cell operations; styles are names, and column widths, panes
    and the errors of the spreadsheet library are not modelled.
  \<^item> \<open>Attendance\<close>: \<open>attendance\<close>, check-ins with their scans, corrections, derived absences and reports.
  \<^item> \<open>Observation\<close>: \<open>observation\<close>, class observations from the draft to the submitted and exported record.
  \<^item> \<open>Iam\<close>, \<open>Account\<close>: \<open>iam\<close>; \<open>user/store.go\<close> and \<open>handler.go\<close> with \<open>auth\<close>: roles, groups and grants, the
    accounts and their handlers, sign-in, the WeChat binding, tokens, and the pipeline of a request.
  \<^item> \<open>Hoare\<close>: triples for store actions and handlers: what holds of the tables after a success and
    after a failure, wherever the database refuses.
  \<^item> \<open>Access\<close>: what a user holds; that no handler lets a subject without the wildcard make or take
    over an administrator; the one way around it that a restart opens; what a token stands for.
  \<^item> \<open>Jwc_Parse\<close>, \<open>Jwc_Split\<close>: \<open>importer/jwc\<close>, the split of the registrar's workbook: cells, week
    expressions and class names, then the stages of \<open>Split\<close> up to the six sheets.
  \<^item> \<open>Import_Rows\<close>: the importers of \<open>importer\<close> whose rows have a key (classrooms, administrative and
    teaching classes, catalog, offerings, regimes) and the parts all importers share. The interface
    \<open>upsert_table\<close> of a table written row by row with \<open>ON CONFLICT DO UPDATE\<close> and the interface
    \<open>keyed_rows\<close> of a row loop that refuses repeated keys are interpreted on four tables each.
  \<^item> \<open>Import_Slots\<close>: \<open>sessions.go\<close> and \<open>bookings.go\<close> of \<open>importer\<close>, whose rows hold rooms.
  \<^item> \<open>Json_Text\<close>: when \<open>json.Unmarshal\<close> accepts a text as an object.
  \<^item> \<open>Iot_Topic\<close>: \<open>iot/mqtt/topic.go\<close>, \<open>payload.go\<close>, the command vocabulary of \<open>iot/model.go\<close>.
  \<^item> \<open>Iot_Registry\<close>: \<open>iot/store.go\<close> with the tables of devices, events and commands.
  \<^item> \<open>Iot_Stream\<close>: \<open>iot/stream.go\<close>, the hub; and the interface \<open>lossy_buffer\<close> of a bounded FIFO that
    drops, which the hub's channels and the device's offline queue both implement.
  \<^item> \<open>Iot_Consumer\<close>: \<open>iot/mqtt/consumer.go\<close> and \<open>publisher.go\<close>.
  \<^item> \<open>Iot_Handler\<close>: \<open>iot/handler.go\<close>, \<open>config.go\<close>; the interface \<open>command_publisher\<close> of the console
    handlers, implemented by the publisher.
  \<^item> \<open>Device_Sdk\<close>: \<open>src/iot/mqttc\<close>, the client that devices run, and its composition with the backend.

  How the code is read. A store method is an action on a connection: it consumes the fault script
  statement by statement and threads the tables; every error return is a value. A handler is a
  function of the decoded body, the raw path parameter, the subject of the request and the
  connection, and returns the answer (status and JSON value or message) with the new connection.
  Times are integers, dates are day numbers, ids are integers. The clock, PostgreSQL's reading of
  date and time literals, the collation used by ILIKE and \<open>strings.ToLower\<close> are parameters.

  Ranges over Go maps visit the keys in an unspecified order: the stages of \<open>Jwc_Split\<close> take the
  visiting orders as parameters, and the properties hold for every order or say which ones differ.

  What the lemmas show. Per component: the table invariant that every handler keeps under any
  failure of the database, the answer of the important handlers branch by branch, and the search
  conditions' placeholder numbering. Across requests: bookings, repairs, classes with courses, and
  observations have a relation of atomic steps, one for each kind of commit; a handler, whatever
  fails, commits at most one of them, and a request relation collects the handlers under every fault
  script and the single commits of requests that run beside others. The properties are about the
  states that requests reach (no double booking; the life cycle of a booking; what survives of the
  repair workflow under concurrency; no room held twice by sessions and bookings; offerings that
  always have a class with members, and classes in use that are frozen; rows that the validation
  of the API accepts; one observation per lesson). The commits of creates and updates on classes and
  courses (\<open>class_write\<close>, \<open>course_write\<close>) are the code's own statements and transactions, run with an
  input that the code's own validation let through: a guard is never a premise of its own, and the
  imports of classes, catalog and offerings are shown to be runs of the same commits. The locale \<open>exclusive_slots\<close> is proved once and interpreted for the bookings alone and for bookings and
  sessions together.
  The devices' tables are changed through the atomic statements of type \<open>iot_write\<close> only: every store
  operation is a run of such statements, whatever the database refuses, and the invariants of the
  registry follow statement by statement for any interleaving of messages, requests and background
  passes. A command issued at the console is followed through broker, device and ack.

  Fuel. The JSON scanner takes the length of the text as fuel; each step consumes a byte, so the
  fuel never decides. The loops of the week expressions are bounded by the numbers in the cell.

  Parameters, with what is assumed of them where a property needs it: the normal form of JSON in
  PostgreSQL and the digest of events (nothing), the JSON decoders of envelopes and frames (that
  they invert the encoder on the frames in question), the broker (any answer), the clock, the
  random command ids (unused ones in the property about issuing commands), the password hash
  (nothing), the token library (that it reads back an unexpired token it signed), WeChat's answers.

  Not modelled: JSON decoding and encoding of records (handlers take decoded values), the audit
  summaries and log lines, DDL, the paho client with its reconnect timing, the pings of the event
  stream, the range of \<open>timestamptz\<close>, the random simulator, and the components listed in the
  manifest as not modelled.
\<close>

end
